(* ===== verification/Prelude.thy ===== *)
theory Prelude
  imports Main "HOL-Library.Word" "HOL-Library.State_Monad"
begin

text \<open>
  What every component shares: the machine-integer types of the C++ code, the truth test
  of a masked value (C++'s \<open>if (v & mask)\<close>), the facts about single-bit masks that let
  the simplifier decide it, and the few operations on the state monad that the processor
  model is written in.
\<close>

unbundle bit_operations_syntax

section \<open>Fixed-width integers\<close>

type_synonym u8 = "8 word"
type_synonym u16 = "16 word"
type_synonym u32 = "32 word"
type_synonym u64 = "64 word"

named_theorems flag_bits \<open>which bit a one-bit mask selects\<close>
named_theorems reg_ops \<open>definitions of the small operations a component is built from\<close>

text \<open>C++'s implicit conversion of \<open>v & m\<close> to bool.\<close>

definition tst :: "'a::len word \<Rightarrow> 'a word \<Rightarrow> bool" where
  "tst v m \<longleftrightarrow> v AND m \<noteq> 0"

lemma tst_0 [simp]: "\<not> tst 0 m" "\<not> tst v 0"
  by (simp_all add: tst_def)

lemma tst_exp: "tst v (2 ^ n) \<longleftrightarrow> bit v n"
  by (simp add: tst_def and_exp_eq_0_iff_not_bit)

lemma tst_bit [flag_bits]:
  "tst v 0x01 \<longleftrightarrow> bit v 0" "tst v 0x02 \<longleftrightarrow> bit v 1" "tst v 0x04 \<longleftrightarrow> bit v 2"
  "tst v 0x08 \<longleftrightarrow> bit v 3" "tst v 0x10 \<longleftrightarrow> bit v 4" "tst v 0x20 \<longleftrightarrow> bit v 5"
  "tst v 0x40 \<longleftrightarrow> bit v 6" "tst v 0x80 \<longleftrightarrow> bit v 7" "tst v 0x100 \<longleftrightarrow> bit v 8"
  using tst_exp [of v 0] tst_exp [of v 1] tst_exp [of v 2] tst_exp [of v 3] tst_exp [of v 4]
    tst_exp [of v 5] tst_exp [of v 6] tst_exp [of v 7] tst_exp [of v 8] by simp_all

lemma bit_pow: "bit (2 ^ m :: u8) n \<longleftrightarrow> m < 8 \<and> n = m"
  by (auto simp: bit_exp_iff)

lemma bit_mask8 [flag_bits]:
  "bit (0x02 :: u8) n \<longleftrightarrow> n = 1" "bit (0x04 :: u8) n \<longleftrightarrow> n = 2" "bit (0x08 :: u8) n \<longleftrightarrow> n = 3"
  "bit (0x10 :: u8) n \<longleftrightarrow> n = 4" "bit (0x20 :: u8) n \<longleftrightarrow> n = 5" "bit (0x40 :: u8) n \<longleftrightarrow> n = 6"
  "bit (0x80 :: u8) n \<longleftrightarrow> n = 7"
  using bit_pow [of 1 n] bit_pow [of 2 n] bit_pow [of 3 n] bit_pow [of 4 n] bit_pow [of 5 n]
    bit_pow [of 6 n] bit_pow [of 7 n] by simp_all

lemma bit_1_0 [flag_bits]: "bit (1 :: 'a::len word) n \<longleftrightarrow> n = 0"
  by (simp add: bit_simps)

text \<open>The library turns a word literal's bits into an integer literal's.\<close>

lemma bit_mask_int [flag_bits]:
  "bit (0x03 :: int) n \<longleftrightarrow> n < 2" "bit (0x07 :: int) n \<longleftrightarrow> n < 3" "bit (0x0F :: int) n \<longleftrightarrow> n < 4"
  "bit (0x1F :: int) n \<longleftrightarrow> n < 5" "bit (0x3F :: int) n \<longleftrightarrow> n < 6" "bit (0x7F :: int) n \<longleftrightarrow> n < 7"
  "bit (0xFF :: int) n \<longleftrightarrow> n < 8"
proof -
  have m: "(0x03 :: int) = mask 2" "(0x07 :: int) = mask 3" "(0x0F :: int) = mask 4" "(0x1F :: int) = mask 5"
    "(0x3F :: int) = mask 6" "(0x7F :: int) = mask 7" "(0xFF :: int) = mask 8"
    by (simp_all add: mask_eq_exp_minus_1)
  show "bit (0x03 :: int) n \<longleftrightarrow> n < 2" "bit (0x07 :: int) n \<longleftrightarrow> n < 3" "bit (0x0F :: int) n \<longleftrightarrow> n < 4"
    "bit (0x1F :: int) n \<longleftrightarrow> n < 5" "bit (0x3F :: int) n \<longleftrightarrow> n < 6" "bit (0x7F :: int) n \<longleftrightarrow> n < 7"
    "bit (0xFF :: int) n \<longleftrightarrow> n < 8"
    unfolding m bit_mask_iff by auto
qed

lemma bit_pow_int [flag_bits]:
  "bit (0x02 :: int) n \<longleftrightarrow> n = 1" "bit (0x04 :: int) n \<longleftrightarrow> n = 2" "bit (0x08 :: int) n \<longleftrightarrow> n = 3"
  "bit (0x10 :: int) n \<longleftrightarrow> n = 4" "bit (0x20 :: int) n \<longleftrightarrow> n = 5" "bit (0x40 :: int) n \<longleftrightarrow> n = 6"
  "bit (0x80 :: int) n \<longleftrightarrow> n = 7"
proof -
  have m: "bit (2 ^ k :: int) n \<longleftrightarrow> n = k" for k by (simp add: bit_exp_iff)
  show "bit (0x02 :: int) n \<longleftrightarrow> n = 1" "bit (0x04 :: int) n \<longleftrightarrow> n = 2" "bit (0x08 :: int) n \<longleftrightarrow> n = 3"
    "bit (0x10 :: int) n \<longleftrightarrow> n = 4" "bit (0x20 :: int) n \<longleftrightarrow> n = 5" "bit (0x40 :: int) n \<longleftrightarrow> n = 6"
    "bit (0x80 :: int) n \<longleftrightarrow> n = 7"
    using m [of 1] m [of 2] m [of 3] m [of 4] m [of 5] m [of 6] m [of 7] by simp_all
qed

text \<open>An 8-bit word is its eight bits.\<close>

lemma u8_eqI:
  assumes "\<And>n. n < 8 \<Longrightarrow> bit (v :: u8) n = bit w n"
  shows "v = w"
proof (rule bit_word_eqI)
  fix n assume "n < LENGTH(8)"
  then show "bit v n = bit w n" using assms by simp
qed

text \<open>A masked value is at most the mask.\<close>

lemma unat_and_le: "unat (v AND m) \<le> unat (m :: 'a::len word)"
  by (rule word_and_le1 [THEN word_le_nat_alt [THEN iffD1]])

lemma unat_u8_lt [simp]: "unat (v :: u8) < 256"
  using unsigned_less [of v] by simp

lemma unat_u16_lt [simp]: "unat (v :: u16) < 65536"
  using unsigned_less [of v] by simp

lemma unat_ucast_8_16 [simp]: "unat (ucast (v :: u8) :: u16) = unat v"
  using less_le_trans [OF unat_u8_lt [of v], of "2 ^ 16"]
  by (simp add: unsigned_ucast_eq take_bit_nat_eq_self)

lemma unat_ucast_8_32 [simp]: "unat (ucast (v :: u8) :: u32) = unat v"
  using less_le_trans [OF unat_u8_lt [of v], of "2 ^ 32"]
  by (simp add: unsigned_ucast_eq take_bit_nat_eq_self)

lemma unat_ucast_16_32 [simp]: "unat (ucast (v :: u16) :: u32) = unat v"
  using less_le_trans [OF unat_u16_lt [of v], of "2 ^ 32"]
  by (simp add: unsigned_ucast_eq take_bit_nat_eq_self)

lemma unat_ucast_16_8: "unat (ucast (v :: u16) :: u8) = unat v mod 256"
  by (simp add: unsigned_ucast_eq take_bit_eq_mod)

lemma ucast_16_32_inject [simp]: "(ucast (v :: u16) :: u32) = ucast w \<longleftrightarrow> v = w"
  by (metis unat_ucast_16_32 word_unat_eq_iff)

section \<open>Sixteen bits from two bytes\<close>

text \<open>\<open>(uint8_t)(v & 0xFF)\<close>, \<open>(uint8_t)(v >> 8)\<close> and \<open>lo | (hi << 8)\<close>.\<close>

definition lo8 :: "u16 \<Rightarrow> u8" where
  "lo8 v = ucast (v AND 0xFF)"

definition hi8 :: "u16 \<Rightarrow> u8" where
  "hi8 v = ucast (drop_bit 8 v)"

definition mk16 :: "u8 \<Rightarrow> u8 \<Rightarrow> u16" where
  "mk16 lo hi = ucast lo OR push_bit 8 (ucast hi)"

lemma mask_8_16: "(0xFF :: u16) = mask 8"
  by (simp add: mask_eq_decr_exp)

lemma hi8_masked [simp]: "ucast (drop_bit 8 v AND 0xFF) = hi8 v"
  by (rule u8_eqI) (auto simp: hi8_def mask_8_16 bit_simps)

lemma mk16_lo_hi [simp]: "mk16 (lo8 v) (hi8 v) = v"
proof (rule bit_word_eqI)
  fix n assume "n < LENGTH(16)"
  then show "bit (mk16 (lo8 v) (hi8 v)) n = bit v n"
    by (auto simp: mk16_def lo8_def hi8_def mask_8_16 bit_simps not_less)
qed

lemma lo8_mk16 [simp]: "lo8 (mk16 lo hi) = lo"
  by (rule u8_eqI) (auto simp: mk16_def lo8_def mask_8_16 bit_simps)

lemma hi8_mk16 [simp]: "hi8 (mk16 lo hi) = hi"
  by (rule u8_eqI) (auto simp: mk16_def hi8_def bit_simps dest: bit_imp_le_length)

section \<open>State-monad helpers\<close>

text \<open>\<open>gets f\<close> reads a field of the state and \<open>skip\<close> does nothing; \<open>State_Monad.update\<close>
  changes it.\<close>

definition gets :: "('s \<Rightarrow> 'a) \<Rightarrow> ('s, 'a) state" where
  "gets f = State (\<lambda>s. (f s, s))"

definition skip :: "('s, unit) state" where
  "skip = State (\<lambda>s. ((), s))"

definition modify :: "('s \<Rightarrow> 's) \<Rightarrow> ('s, unit) state" where
  "modify f = State (\<lambda>s. ((), f s))"

lemma run_gets [simp]: "run_state (gets f) s = (f s, s)"
  by (simp add: gets_def)

lemma run_skip [simp]: "run_state skip s = ((), s)"
  by (simp add: skip_def)

lemma run_modify [simp]: "run_state (modify f) s = ((), f s)"
  by (simp add: modify_def)

lemma run_state_if [simp]:
  "run_state (if b then m else n) s = (if b then run_state m s else run_state n s)"
  by simp

text \<open>The result and the final state of a computation, separately.\<close>

abbreviation result :: "('s, 'a) state \<Rightarrow> 's \<Rightarrow> 'a" where
  "result m s \<equiv> fst (run_state m s)"

abbreviation final :: "('s, 'a) state \<Rightarrow> 's \<Rightarrow> 's" where
  "final m s \<equiv> snd (run_state m s)"

text \<open>
  A computation that leaves part \<open>f\<close> of the state alone, and one whose result always
  satisfies \<open>P\<close>; both are decided by the structure of the computation.
\<close>

named_theorems keeps_intro \<open>structural rules of \<open>keeps\<close> and \<open>yields\<close>\<close>

definition keeps :: "('s \<Rightarrow> 'x) \<Rightarrow> ('s, 'a) state \<Rightarrow> bool" where
  "keeps f m \<longleftrightarrow> (\<forall>s. f (final m s) = f s)"

definition yields :: "('a \<Rightarrow> bool) \<Rightarrow> ('s, 'a) state \<Rightarrow> bool" where
  "yields P m \<longleftrightarrow> (\<forall>s. P (result m s))"

lemma keepsD: "keeps f m \<Longrightarrow> f (final m s) = f s"
  by (simp add: keeps_def)

lemma yieldsD: "yields P m \<Longrightarrow> P (result m s)"
  by (simp add: yields_def)

lemma keeps_bind [keeps_intro]: "keeps f m \<Longrightarrow> (\<And>x. keeps f (g x)) \<Longrightarrow> keeps f (m \<bind> g)"
  by (simp add: keeps_def case_prod_beta)

lemma keeps_basic [keeps_intro]:
  "keeps f (State_Monad.return x)" "keeps f State_Monad.get" "keeps f (gets h)" "keeps f skip"
  by (simp_all add: keeps_def)

lemma keeps_modify [keeps_intro]: "(\<And>s. f (g s) = f s) \<Longrightarrow> keeps f (modify g)"
  by (simp add: keeps_def)

lemma keeps_if [keeps_intro]: "keeps f m \<Longrightarrow> keeps f n \<Longrightarrow> keeps f (if b then m else n)"
  by simp

lemma keeps_let [keeps_intro]: "(\<And>x. keeps f (g x)) \<Longrightarrow> keeps f (let x = v in g x)"
  by (simp add: Let_def)

lemma keeps_option [keeps_intro]:
  "(\<And>x. keeps f (g x)) \<Longrightarrow> keeps f h \<Longrightarrow> keeps f (case v of Some x \<Rightarrow> g x | None \<Rightarrow> h)"
  by (simp split: option.split)

lemma yields_bind [keeps_intro]: "(\<And>x. yields P (g x)) \<Longrightarrow> yields P (m \<bind> g)"
  by (simp add: yields_def case_prod_beta)

lemma yields_return [keeps_intro]: "P x \<Longrightarrow> yields P (State_Monad.return x)"
  by (simp add: yields_def)

lemma yields_if [keeps_intro]: "yields P m \<Longrightarrow> yields P n \<Longrightarrow> yields P (if b then m else n)"
  by simp

lemma yields_let [keeps_intro]: "(\<And>x. yields P (g x)) \<Longrightarrow> yields P (let x = v in g x)"
  by (simp add: Let_def)

section \<open>Lists\<close>

text \<open>The last \<open>n\<close> elements of a list: what a bounded history keeps.\<close>

definition last_n :: "nat \<Rightarrow> 'a list \<Rightarrow> 'a list" where
  "last_n n xs = drop (length xs - n) xs"

lemma length_last_n [simp]: "length (last_n n xs) = min n (length xs)"
  by (auto simp: last_n_def)

lemma last_n_all [simp]: "length xs \<le> n \<Longrightarrow> last_n n xs = xs"
  by (simp add: last_n_def)

lemma last_n_snoc: "length xs \<le> n \<Longrightarrow> 0 < n \<Longrightarrow>
    last_n n (xs @ [x]) = (if length xs < n then xs else tl xs) @ [x]"
  by (auto simp: last_n_def drop_Suc Suc_le_eq)

lemma last_n_last_n: "last_n n (last_n n xs @ ys) = last_n n (xs @ ys)"
  by (cases "length xs \<le> n") (simp_all add: last_n_def add.commute)

end
