(* ===== verification/CircularBuffer.thy ===== *)
theory CircularBuffer
  imports Prelude
begin

text \<open>
  \<open>src/include/util/circular_buffer.h\<close>: the ring buffer behind the write logs of the
  memory buses and the execution trace. \<open>cb_list\<close> is what the ring holds, oldest first;
  the operations are related to lists through it. \<open>std::out_of_range\<close> is a value of
  \<open>cb_error\<close>.
\<close>

section \<open>The ring\<close>

datatype cb_error = OutOfRange | NoCapacity | EmptyBuffer

record 'a circular_buffer =
  m_capacity :: nat
  m_size :: nat
  m_head :: nat
  m_buffer :: "'a list"

text \<open>The constructor; \<open>d\<close> is the value-initialised element of \<open>std::vector\<close>.\<close>

definition cb_new :: "'a \<Rightarrow> nat \<Rightarrow> 'a circular_buffer" where
  "cb_new d cap = \<lparr>m_capacity = cap, m_size = 0, m_head = 0, m_buffer = replicate cap d\<rparr>"

definition cb_push :: "'a \<Rightarrow> 'a circular_buffer \<Rightarrow> 'a circular_buffer" where
  "cb_push item b =
     (if m_capacity b = 0 then b
      else b\<lparr>m_buffer := (m_buffer b)[m_head b := item],
             m_head := (m_head b + 1) mod m_capacity b,
             m_size := (if m_size b < m_capacity b then m_size b + 1 else m_size b)\<rparr>)"

text \<open>\<open>pushSlot\<close> hands out the slot to be overwritten: its index and what it still holds.\<close>

definition cb_pushSlot :: "'a circular_buffer \<Rightarrow> cb_error + (nat \<times> 'a circular_buffer)" where
  "cb_pushSlot b =
     (if m_capacity b = 0 then Inl NoCapacity
      else Inr (m_head b,
                b\<lparr>m_head := (m_head b + 1) mod m_capacity b,
                  m_size := (if m_size b < m_capacity b then m_size b + 1 else m_size b)\<rparr>))"

definition cb_clear :: "'a circular_buffer \<Rightarrow> 'a circular_buffer" where
  "cb_clear b = b\<lparr>m_head := 0, m_size := 0\<rparr>"

text \<open>\<open>operator[]\<close>: the index is taken from slot 0 while the ring has not filled up.\<close>

definition cb_at :: "'a circular_buffer \<Rightarrow> nat \<Rightarrow> cb_error + 'a" where
  "cb_at b i =
     (if m_size b \<le> i then Inl OutOfRange
      else if m_size b < m_capacity b then Inr (m_buffer b ! i)
      else Inr (m_buffer b ! ((m_head b + i) mod m_capacity b)))"

definition cb_popBack :: "'a circular_buffer \<Rightarrow> ('a \<times> 'a circular_buffer) option" where
  "cb_popBack b =
     (if m_size b = 0 then None
      else let h = (m_head b + m_capacity b - 1) mod m_capacity b
           in Some (m_buffer b ! h, b\<lparr>m_head := h, m_size := m_size b - 1\<rparr>))"

definition cb_back :: "'a circular_buffer \<Rightarrow> cb_error + 'a" where
  "cb_back b =
     (if m_size b = 0 then Inl EmptyBuffer
      else Inr (m_buffer b ! ((m_head b + m_capacity b - 1) mod m_capacity b)))"

text \<open>\<open>back()\<close> is an lvalue: the current entry is changed in place through it.\<close>

definition cb_update_back :: "('a \<Rightarrow> 'a) \<Rightarrow> 'a circular_buffer \<Rightarrow> cb_error + 'a circular_buffer" where
  "cb_update_back f b =
     (if m_size b = 0 then Inl EmptyBuffer
      else let i = (m_head b + m_capacity b - 1) mod m_capacity b
           in Inr (b\<lparr>m_buffer := (m_buffer b)[i := f (m_buffer b ! i)]\<rparr>))"

section \<open>Well-formedness and contents\<close>

definition cb_inv :: "'a circular_buffer \<Rightarrow> bool" where
  "cb_inv b \<longleftrightarrow> length (m_buffer b) = m_capacity b \<and> m_size b \<le> m_capacity b \<and>
     (if m_capacity b = 0 then m_head b = 0 else m_head b < m_capacity b)"

definition cb_pos :: "'a circular_buffer \<Rightarrow> nat \<Rightarrow> nat" where
  "cb_pos b i = (m_head b + (m_capacity b - m_size b) + i) mod m_capacity b"

definition cb_list :: "'a circular_buffer \<Rightarrow> 'a list" where
  "cb_list b = map (\<lambda>i. m_buffer b ! cb_pos b i) [0..<m_size b]"

text \<open>The ring has not wrapped, or is full: what \<open>operator[]\<close> takes for granted.\<close>

definition cb_linear :: "'a circular_buffer \<Rightarrow> bool" where
  "cb_linear b \<longleftrightarrow> m_size b = m_capacity b \<or> m_head b = m_size b"

lemma mod_once: "h < c \<Longrightarrow> k \<le> c \<Longrightarrow> (h + k) mod c = (if h + k < c then h + k else h + k - c)"
  for h c k :: nat
  by (simp add: mod_if)

lemma mod_succ_pred: "h < c \<Longrightarrow> ((h + 1) mod c + (c - 1)) mod c = h"
  for h c :: nat
  by (cases "h + 1 = c") auto

lemma length_cb_list [simp]: "length (cb_list b) = m_size b"
  by (simp add: cb_list_def)

lemma cb_list_nth: "i < m_size b \<Longrightarrow> cb_list b ! i = m_buffer b ! cb_pos b i"
  by (simp add: cb_list_def)

lemma cb_new_inv: "cb_inv (cb_new d cap)"
  by (simp add: cb_inv_def cb_new_def)

lemma cb_new_list [simp]: "cb_list (cb_new d cap) = []"
  by (simp add: cb_list_def cb_new_def)

lemma cb_push_inv: "cb_inv b \<Longrightarrow> cb_inv (cb_push x b)"
  by (auto simp: cb_inv_def cb_push_def)

lemma cb_clear_inv: "cb_inv b \<Longrightarrow> cb_inv (cb_clear b)"
  by (auto simp: cb_inv_def cb_clear_def split: if_splits)

lemma cb_clear_list [simp]: "cb_list (cb_clear b) = []"
  by (simp add: cb_list_def cb_clear_def)

lemma cb_popBack_inv: "cb_inv b \<Longrightarrow> cb_popBack b = Some (x, b') \<Longrightarrow> cb_inv b'"
  by (auto simp: cb_inv_def cb_popBack_def Let_def split: if_splits)

lemma cb_push_capacity [simp]: "m_capacity (cb_push x b) = m_capacity b"
  by (simp add: cb_push_def)

lemma cb_popBack_capacity: "cb_popBack b = Some (x, b') \<Longrightarrow> m_capacity b' = m_capacity b"
  by (auto simp: cb_popBack_def Let_def split: if_splits)

lemma cb_push_size: "cb_inv b \<Longrightarrow> m_size (cb_push x b) = min (m_capacity b) (Suc (m_size b))"
  by (auto simp: cb_push_def cb_inv_def)

section \<open>Pushing keeps the last \<open>capacity\<close> items\<close>

lemma cb_push_pos_head:
  assumes "cb_inv b" and "0 < m_capacity b"
  shows "cb_pos (cb_push x b) (m_size (cb_push x b) - 1) = m_head b"
proof -
  have "m_head b < m_capacity b" and "m_size b \<le> m_capacity b"
    using assms by (auto simp: cb_inv_def)
  then have "cb_pos (cb_push x b) (m_size (cb_push x b) - 1)
      = ((m_head b + 1) mod m_capacity b + (m_capacity b - 1)) mod m_capacity b"
    using assms(2) by (auto simp: cb_pos_def cb_push_def intro: arg_cong [where f = "\<lambda>k. k mod _"])
  also have "\<dots> = m_head b" by (rule mod_succ_pred) fact
  finally show ?thesis .
qed

lemma cb_push_pos_old:
  assumes "cb_inv b" and "i < m_size (cb_push x b) - 1"
  shows "cb_pos (cb_push x b) i = cb_pos b (if m_size b < m_capacity b then i else Suc i)
    \<and> cb_pos (cb_push x b) i \<noteq> m_head b"
proof -
  let ?h = "m_head b" and ?c = "m_capacity b" and ?n = "m_size b"
  have c: "0 < ?c" using assms by (auto simp: cb_push_def cb_inv_def split: if_splits)
  then have h: "?h < ?c" and n: "?n \<le> ?c" using assms by (auto simp: cb_inv_def)
  define k where "k = (if ?n < ?c then ?c - ?n + i else Suc i)"
  have k: "0 < k" "k < ?c"
    using assms(2) c n by (auto simp: k_def cb_push_def split: if_splits)
  have "cb_pos (cb_push x b) i = (?h + k) mod ?c"
  proof (cases "?n < ?c")
    case True
    then have "cb_pos (cb_push x b) i = ((?h + 1) mod ?c + (?c - ?n - 1 + i)) mod ?c"
      using c by (simp add: cb_pos_def cb_push_def add.assoc)
    also have "\<dots> = (?h + 1 + (?c - ?n - 1 + i)) mod ?c" by (rule mod_add_left_eq)
    also have "?h + 1 + (?c - ?n - 1 + i) = ?h + k" using True by (simp add: k_def)
    finally show ?thesis .
  next
    case False
    then show ?thesis using c n by (simp add: cb_pos_def cb_push_def k_def mod_simps)
  qed
  moreover have "(?h + k) mod ?c = cb_pos b (if ?n < ?c then i else Suc i)"
    using n by (auto simp: cb_pos_def k_def add.assoc)
  moreover have "(?h + k) mod ?c \<noteq> ?h"
    using h k mod_once [of ?h ?c k] by (auto split: if_splits)
  ultimately show ?thesis by simp
qed

lemma cb_push_list:
  assumes "cb_inv b" and "0 < m_capacity b"
  shows "cb_list (cb_push x b) = last_n (m_capacity b) (cb_list b @ [x])"
proof (rule nth_equalityI)
  have n: "m_size b \<le> m_capacity b" and h: "m_head b < length (m_buffer b)"
    using assms by (auto simp: cb_inv_def)
  show len: "length (cb_list (cb_push x b)) = length (last_n (m_capacity b) (cb_list b @ [x]))"
    using assms by (simp add: cb_push_size)
  have buf: "m_buffer (cb_push x b) = (m_buffer b)[m_head b := x]"
    using assms(2) by (simp add: cb_push_def)
  fix i assume "i < length (cb_list (cb_push x b))"
  then have i: "i < m_size (cb_push x b)" by simp
  show "cb_list (cb_push x b) ! i = last_n (m_capacity b) (cb_list b @ [x]) ! i"
  proof (cases "i = m_size (cb_push x b) - 1")
    case True
    then have "cb_list (cb_push x b) ! i = x"
      using i cb_push_pos_head [OF assms, of x] buf h by (simp add: cb_list_nth)
    moreover have "last_n (m_capacity b) (cb_list b @ [x]) ! i = x"
      using True assms n cb_push_size [OF assms(1), of x]
      by (auto simp: last_n_snoc nth_append min_def)
    ultimately show ?thesis by simp
  next
    case False
    with i have j: "i < m_size (cb_push x b) - 1" by simp
    let ?j = "if m_size b < m_capacity b then i else Suc i"
    have jn: "?j < m_size b" using j assms(2) n by (auto simp: cb_push_def split: if_splits)
    have "cb_list (cb_push x b) ! i = cb_list b ! ?j"
      using i jn cb_push_pos_old [OF assms(1) j] buf by (simp add: cb_list_nth)
    also have "\<dots> = last_n (m_capacity b) (cb_list b @ [x]) ! i"
      using jn assms n by (auto simp: last_n_snoc nth_append nth_tl)
    finally show ?thesis .
  qed
qed

section \<open>Popping, indexing\<close>

lemma cb_pos_last:
  "cb_inv b \<Longrightarrow> 0 < m_size b \<Longrightarrow>
    cb_pos b (m_size b - Suc 0) = (m_head b + m_capacity b - Suc 0) mod m_capacity b"
  by (auto simp: cb_inv_def cb_pos_def intro: arg_cong [where f = "\<lambda>k. k mod _"])

lemma cb_back_last: "cb_inv b \<Longrightarrow> cb_list b \<noteq> [] \<Longrightarrow> cb_back b = Inr (last (cb_list b))"
  by (cases "m_size b = 0")
    (auto simp: cb_back_def last_conv_nth cb_list_nth cb_pos_last simp flip: length_0_conv)

lemma cb_popBack_pos:
  assumes "cb_inv b" and "cb_popBack b = Some (x, b')" and "i < m_size b'"
  shows "cb_pos b' i = cb_pos b i"
proof -
  let ?h = "m_head b" and ?c = "m_capacity b" and ?n = "m_size b"
  have n: "0 < ?n" "?n \<le> ?c" using assms by (auto simp: cb_inv_def cb_popBack_def split: if_splits)
  have "cb_pos b' i = ((?h + ?c - 1) mod ?c + (?c - (?n - 1) + i)) mod ?c"
    using assms(2) n by (auto simp: cb_popBack_def cb_pos_def Let_def add.assoc)
  also have "\<dots> = (?h + ?c - 1 + (?c - (?n - 1) + i)) mod ?c" by (rule mod_add_left_eq)
  also have "?h + ?c - 1 + (?c - (?n - 1) + i) = ?h + (?c - ?n) + i + ?c" using n by simp
  finally show ?thesis by (simp add: cb_pos_def)
qed

lemma cb_popBack_list:
  assumes "cb_inv b" and "cb_popBack b = Some (x, b')"
  shows "cb_list b \<noteq> [] \<and> x = last (cb_list b) \<and> cb_list b' = butlast (cb_list b)"
proof -
  have n: "0 < m_size b" and x: "x = m_buffer b ! ((m_head b + m_capacity b - 1) mod m_capacity b)"
    and b': "m_size b' = m_size b - 1" "m_buffer b' = m_buffer b"
    using assms(2) by (auto simp: cb_popBack_def Let_def split: if_splits)
  have ne: "cb_list b \<noteq> []" using n by (auto simp flip: length_0_conv)
  have "x = last (cb_list b)"
    using n x assms(1) ne by (simp add: last_conv_nth cb_list_nth cb_pos_last)
  moreover have "cb_list b' = butlast (cb_list b)"
    using b' cb_popBack_pos [OF assms]
    by (intro nth_equalityI) (auto simp: nth_butlast cb_list_nth)
  ultimately show ?thesis using ne by simp
qed

lemma cb_popBack_None: "cb_popBack b = None \<longleftrightarrow> cb_list b = []"
  by (auto simp: cb_popBack_def Let_def simp flip: length_0_conv)

lemma cb_update_back_list:
  assumes "cb_inv b" and "cb_update_back f b = Inr b'"
  shows "cb_inv b' \<and> m_capacity b' = m_capacity b \<and>
    cb_list b' = butlast (cb_list b) @ [f (last (cb_list b))]"
proof -
  let ?i = "(m_head b + m_capacity b - 1) mod m_capacity b"
  have n: "0 < m_size b" and b': "b' = b\<lparr>m_buffer := (m_buffer b)[?i := f (m_buffer b ! ?i)]\<rparr>"
    using assms(2) by (auto simp: cb_update_back_def Let_def split: if_splits)
  have c: "0 < m_capacity b" "length (m_buffer b) = m_capacity b" "m_size b \<le> m_capacity b" "m_head b < m_capacity b"
    using assms(1) n by (auto simp: cb_inv_def split: if_splits)
  have i: "?i < m_capacity b" using c(1) by simp
  have ne: "cb_list b \<noteq> []" using n by (auto simp flip: length_0_conv)
  have pos: "cb_pos b k \<noteq> ?i" if "k < m_size b - 1" for k
  proof -
    have "cb_pos b k = (m_head b + (m_capacity b - m_size b + k)) mod m_capacity b"
      by (simp add: cb_pos_def add.assoc)
    moreover have "?i = (m_head b + (m_capacity b - 1)) mod m_capacity b"
      using c(1) by (simp add: Nat.add_diff_assoc)
    moreover have "m_capacity b - m_size b + k < m_capacity b - 1" using that c by linarith
    ultimately show ?thesis
      using c(4) mod_once [of "m_head b" "m_capacity b" "m_capacity b - m_size b + k"]
        mod_once [of "m_head b" "m_capacity b" "m_capacity b - 1"] by (auto split: if_splits)
  qed
  have last_pos: "cb_pos b (m_size b - 1) = ?i" using cb_pos_last [OF assms(1) n] by simp
  have "cb_list b' = butlast (cb_list b) @ [f (last (cb_list b))]"
  proof (rule nth_equalityI)
    show "length (cb_list b') = length (butlast (cb_list b) @ [f (last (cb_list b))])" using n by (simp add: b')
    fix k assume "k < length (cb_list b')"
    then have k: "k < m_size b" by (simp add: b')
    have e: "cb_list b' ! k = (m_buffer b)[?i := f (m_buffer b ! ?i)] ! cb_pos b k"
      using k by (subst cb_list_nth) (simp_all add: b' cb_pos_def)
    show "cb_list b' ! k = (butlast (cb_list b) @ [f (last (cb_list b))]) ! k"
    proof (cases "k = m_size b - 1")
      case True
      then show ?thesis using e last_pos i c ne n
        by (simp add: nth_append last_conv_nth cb_list_nth)
    next
      case False
      then have l: "k < m_size b - 1" using k by linarith
      show ?thesis using e k l pos [OF l] by (simp add: nth_append nth_butlast cb_list_nth)
    qed
  qed
  moreover have "cb_inv b'" using assms(1) by (simp add: b' cb_inv_def)
  ultimately show ?thesis by (simp add: b')
qed

lemma cb_at_linear:
  assumes "cb_inv b" and "cb_linear b" and "i < m_size b"
  shows "cb_at b i = Inr (cb_list b ! i)"
  using assms
  by (cases "m_size b < m_capacity b")
    (auto simp: cb_at_def cb_linear_def cb_list_nth cb_pos_def cb_inv_def)

lemma cb_push_linear: "cb_inv b \<Longrightarrow> cb_linear b \<Longrightarrow> cb_linear (cb_push x b)"
  by (cases "Suc (m_size b) = m_capacity b") (auto simp: cb_linear_def cb_push_def cb_inv_def)

lemma cb_new_linear: "cb_linear (cb_new d cap)"
  by (simp add: cb_linear_def cb_new_def)

lemma cb_clear_linear: "cb_linear (cb_clear b)"
  by (simp add: cb_linear_def cb_clear_def)

section \<open>The interface: a bounded history\<close>

text \<open>
  What the memory buses and the trace rely on: pushing keeps the newest \<open>cap\<close> items, and
  popping returns the newest one.
\<close>

locale history =
  fixes push :: "'e \<Rightarrow> 'h \<Rightarrow> 'h"
    and pop :: "'h \<Rightarrow> ('e \<times> 'h) option"
    and items :: "'h \<Rightarrow> 'e list"
    and cap :: "'h \<Rightarrow> nat"
    and ok :: "'h \<Rightarrow> bool"
  assumes push_ok: "ok h \<Longrightarrow> ok (push x h)"
    and push_cap: "cap (push x h) = cap h"
    and push_items: "ok h \<Longrightarrow> 0 < cap h \<Longrightarrow> items (push x h) = last_n (cap h) (items h @ [x])"
    and items_le: "ok h \<Longrightarrow> length (items h) \<le> cap h"
    and pop_items: "ok h \<Longrightarrow> pop h = Some (x, h') \<Longrightarrow>
      items h \<noteq> [] \<and> x = last (items h) \<and> items h' = butlast (items h) \<and> ok h' \<and> cap h' = cap h"
    and pop_None: "pop h = None \<longleftrightarrow> items h = []"
begin

lemma fold_push_ok: "ok h \<Longrightarrow> ok (fold push xs h)"
  by (induction xs arbitrary: h) (auto intro: push_ok)

lemma fold_push_cap: "cap (fold push xs h) = cap h"
  by (induction xs arbitrary: h) (auto simp: push_cap)

lemma fold_push_items:
  "ok h \<Longrightarrow> 0 < cap h \<Longrightarrow> items (fold push xs h) = last_n (cap h) (items h @ xs)"
proof (induction xs arbitrary: h)
  case Nil
  then show ?case by (simp add: items_le)
next
  case (Cons x xs)
  then show ?case by (simp add: push_ok push_cap push_items last_n_last_n)
qed

lemma push_pop:
  assumes "ok h" and "0 < cap h" and "length (items h) < cap h"
  shows "\<exists>h'. pop (push x h) = Some (x, h') \<and> items h' = items h"
proof -
  have it: "items (push x h) = items h @ [x]"
    using assms by (simp add: push_items last_n_snoc)
  then obtain y h' where p: "pop (push x h) = Some (y, h')"
    using pop_None [of "push x h"] by (cases "pop (push x h)") auto
  from pop_items [OF push_ok [OF assms(1)] p] it p show ?thesis by auto
qed

end

interpretation ring: history cb_push cb_popBack cb_list m_capacity cb_inv
  by unfold_locales
    (auto simp: cb_push_inv cb_push_list cb_popBack_inv cb_popBack_capacity cb_popBack_None
      cb_inv_def [THEN iffD1] dest: cb_popBack_list)

end
