(* ===== verification/Interfaces.thy ===== *)
theory Interfaces
  imports Prelude
begin

text \<open>
  The abstract interfaces the components talk through: \<open>IBus\<close> (\<open>src/libmem/main/ibus.h\<close>)
  with the multi-byte accesses \<open>ibus.cpp\<close> builds from \<open>read8\<close> and \<open>write8\<close>, the
  read-only \<open>ByteWindowBus\<close>, and the port and signal-line interfaces of the devices
  (\<open>src/libdevices/main\<close>). An object behind an interface is a record of its virtual
  functions over a state type; what its clients rely on is a locale.
\<close>

section \<open>IBus\<close>

record 'b ibus =
  ib_read8 :: "u32 \<Rightarrow> ('b, u8) state"
  ib_write8 :: "u32 \<Rightarrow> u8 \<Rightarrow> ('b, unit) state"
  ib_peek8 :: "u32 \<Rightarrow> ('b, u8) state"
  ib_littleEndian :: bool

definition ibus_read16 :: "'b ibus \<Rightarrow> u32 \<Rightarrow> ('b, u16) state" where
  "ibus_read16 ib addr = do {
     lo \<leftarrow> ib_read8 ib addr;
     hi \<leftarrow> ib_read8 ib (addr + 1);
     State_Monad.return
       (if ib_littleEndian ib then mk16 lo hi else mk16 hi lo) }"

definition ibus_write16 :: "'b ibus \<Rightarrow> u32 \<Rightarrow> u16 \<Rightarrow> ('b, unit) state" where
  "ibus_write16 ib addr val =
     (let lo = lo8 val; hi = ucast (drop_bit 8 val AND 0xFF)
      in if ib_littleEndian ib
         then do { ib_write8 ib addr lo; ib_write8 ib (addr + 1) hi }
         else do { ib_write8 ib addr hi; ib_write8 ib (addr + 1) lo })"

definition ibus_read32 :: "'b ibus \<Rightarrow> u32 \<Rightarrow> ('b, u32) state" where
  "ibus_read32 ib addr = do {
     lo \<leftarrow> ibus_read16 ib addr;
     hi \<leftarrow> ibus_read16 ib (addr + 2);
     State_Monad.return
       (if ib_littleEndian ib then ucast lo OR push_bit 16 (ucast hi)
        else ucast hi OR push_bit 16 (ucast lo)) }"

definition ibus_write32 :: "'b ibus \<Rightarrow> u32 \<Rightarrow> u32 \<Rightarrow> ('b, unit) state" where
  "ibus_write32 ib addr val =
     (let lo = ucast (val AND 0xFFFF); hi = ucast (drop_bit 16 val AND 0xFFFF)
      in if ib_littleEndian ib
         then do { ibus_write16 ib addr lo; ibus_write16 ib (addr + 2) hi }
         else do { ibus_write16 ib addr hi; ibus_write16 ib (addr + 2) lo })"

text \<open>\<open>src/libmem/main/byte_window_bus.h\<close>: captured bytes at a fixed address.\<close>

record byte_window =
  bw_base :: u32
  bw_len :: int
  bw_bytes :: "u8 list"
  bw_addrMask :: u32

definition MAX_BYTES :: int where
  "MAX_BYTES = 16"

definition byte_window_new :: "u32 \<Rightarrow> u8 list \<Rightarrow> int \<Rightarrow> u32 \<Rightarrow> byte_window" where
  "byte_window_new base bytes len addrMask =
     (let l = (if len < 0 then 0 else if len > MAX_BYTES then MAX_BYTES else len)
      in \<lparr>bw_base = base, bw_len = l,
          bw_bytes = take (nat l) bytes @ replicate (nat (MAX_BYTES - l)) 0, bw_addrMask = addrMask\<rparr>)"

definition byte_window_peek8 :: "byte_window \<Rightarrow> u32 \<Rightarrow> u8" where
  "byte_window_peek8 w addr =
     (let off = (addr - bw_base w) AND bw_addrMask w
      in if unat off < nat (bw_len w) then bw_bytes w ! unat off else 0)"

definition byte_window_ibus :: "byte_window ibus" where
  "byte_window_ibus =
     \<lparr>ib_read8 = (\<lambda>addr. gets (\<lambda>w. byte_window_peek8 w addr)),
      ib_write8 = (\<lambda>addr val. skip),
      ib_peek8 = (\<lambda>addr. gets (\<lambda>w. byte_window_peek8 w addr)),
      ib_littleEndian = True\<rparr>"

section \<open>Sequences of writes and their undoing\<close>

text \<open>
  A run of writes, what the \<open>before\<close> values of a write journal are, and the loop of
  \<open>TraceBuffer::reverseStep\<close> that writes them back, newest first.
\<close>

definition write_all :: "'b ibus \<Rightarrow> (u32 \<times> u8) list \<Rightarrow> 'b \<Rightarrow> 'b" where
  "write_all ib ws b = fold (\<lambda>(a, v). final (ib_write8 ib a v)) ws b"

fun journal :: "'b ibus \<Rightarrow> ('b \<Rightarrow> u32 \<Rightarrow> u8) \<Rightarrow> (u32 \<times> u8) list \<Rightarrow> 'b \<Rightarrow> (u32 \<times> u8) list" where
  "journal ib mem [] b = []"
| "journal ib mem ((a, v) # ws) b = (a, mem b a) # journal ib mem ws (final (ib_write8 ib a v) b)"

definition undo_writes :: "'b ibus \<Rightarrow> (u32 \<times> u8) list \<Rightarrow> 'b \<Rightarrow> 'b" where
  "undo_writes ib js b = fold (\<lambda>(a, before). final (ib_write8 ib a before)) (rev js) b"

lemma write_all_simps [simp]:
  "write_all ib [] b = b"
  "write_all ib ((a, v) # ws) b = write_all ib ws (final (ib_write8 ib a v) b)"
  by (simp_all add: write_all_def)

lemma undo_writes_simps [simp]:
  "undo_writes ib [] b = b"
  "undo_writes ib ((a, x) # js) b = final (ib_write8 ib a x) (undo_writes ib js b)"
  by (simp_all add: undo_writes_def)

section \<open>What a client of a bus may rely on for RAM\<close>

text \<open>
  On the addresses \<open>ram\<close> the bus is memory: a read returns what was stored and disturbs no
  stored byte, a write stores its byte and nothing else. \<open>ok\<close> is what the provider needs of
  its state and keeps.
\<close>

locale ram_bus =
  fixes ib :: "'b ibus"
    and mem :: "'b \<Rightarrow> u32 \<Rightarrow> u8"
    and ram :: "u32 set"
    and ok :: "'b \<Rightarrow> bool"
  assumes read_ok: "ok b \<Longrightarrow> ok (final (ib_read8 ib a) b)"
    and write_ok: "ok b \<Longrightarrow> ok (final (ib_write8 ib a v) b)"
    and read_ram: "ok b \<Longrightarrow> a \<in> ram \<Longrightarrow> result (ib_read8 ib a) b = mem b a"
    and read_frame: "ok b \<Longrightarrow> a \<in> ram \<Longrightarrow> c \<in> ram \<Longrightarrow> mem (final (ib_read8 ib a) b) c = mem b c"
    and write_ram: "ok b \<Longrightarrow> a \<in> ram \<Longrightarrow> c \<in> ram \<Longrightarrow>
      mem (final (ib_write8 ib a v) b) c = (if c = a then v else mem b c)"
begin

lemma write_all_ok: "ok b \<Longrightarrow> ok (write_all ib ws b)"
  by (induction ws arbitrary: b) (auto simp: write_ok)

lemma undo_writes_ok: "ok b \<Longrightarrow> ok (undo_writes ib js b)"
  by (induction js arbitrary: b) (auto simp: write_ok)

text \<open>Writing the journalled bytes back, newest first, restores every stored byte.\<close>

lemma undo_journal:
  assumes "ok b" and "fst ` set ws \<subseteq> ram" and "c \<in> ram"
  shows "mem (undo_writes ib (journal ib mem ws b) (write_all ib ws b)) c = mem b c"
  using assms
proof (induction ws arbitrary: b)
  case Nil
  then show ?case by simp
next
  case (Cons w ws)
  obtain a v where w: "w = (a, v)" by (cases w)
  let ?b1 = "final (ib_write8 ib a v) b"
  let ?u = "undo_writes ib (journal ib mem ws ?b1) (write_all ib ws ?b1)"
  have a: "a \<in> ram" and ok1: "ok ?b1" using Cons.prems w by (auto simp: write_ok)
  have u: "ok ?u" using ok1 by (intro undo_writes_ok write_all_ok)
  have IH: "mem ?u c = mem ?b1 c" using Cons ok1 w by auto
  have "mem (final (ib_write8 ib a (mem b a)) ?u) c = (if c = a then mem b a else mem ?u c)"
    using write_ram [OF u a Cons.prems(3)] by simp
  then show ?case using IH w write_ram [OF Cons.prems(1) a Cons.prems(3)] by simp
qed

text \<open>The laws in the form symbolic execution produces.\<close>

lemma run_read:
  assumes "ok b" and "a \<in> ram"
  obtains b' where "run_state (ib_read8 ib a) b = (mem b a, b')" and "ok b'"
    and "\<And>c. c \<in> ram \<Longrightarrow> mem b' c = mem b c"
  using that [of "final (ib_read8 ib a) b"] assms read_ram read_ok read_frame
  by (metis prod.collapse)

lemma run_write:
  assumes "ok b" and "a \<in> ram"
  obtains b' where "run_state (ib_write8 ib a v) b = ((), b')" and "ok b'"
    and "\<And>c. c \<in> ram \<Longrightarrow> mem b' c = (if c = a then v else mem b c)"
  using that [of "final (ib_write8 ib a v) b"] assms write_ok write_ram
  by (metis (full_types) old.unit.exhaust prod.collapse)

end

context ram_bus
begin

lemma write16_mem:
  assumes "ok b" and "a \<in> ram" and "a + 1 \<in> ram"
  shows "\<exists>b'. run_state (ibus_write16 ib a v) b = ((), b') \<and> ok b'
    \<and> (\<forall>c \<in> ram. c \<noteq> a \<longrightarrow> c \<noteq> a + 1 \<longrightarrow> mem b' c = mem b c)
    \<and> result (ibus_read16 ib a) b' = v"
proof -
  define x where "x = (if ib_littleEndian ib then lo8 v else hi8 v)"
  define y where "y = (if ib_littleEndian ib then hi8 v else lo8 v)"
  obtain b1 where 1: "run_state (ib_write8 ib a x) b = ((), b1)" "ok b1"
    "\<And>c. c \<in> ram \<Longrightarrow> mem b1 c = (if c = a then x else mem b c)"
    using run_write [OF assms(1,2)] by blast
  obtain b2 where 2: "run_state (ib_write8 ib (a + 1) y) b1 = ((), b2)" "ok b2"
    "\<And>c. c \<in> ram \<Longrightarrow> mem b2 c = (if c = a + 1 then y else mem b1 c)"
    using run_write [OF 1(2) assms(3)] by blast
  obtain b3 where 3: "run_state (ib_read8 ib a) b2 = (mem b2 a, b3)" "ok b3"
    "\<And>c. c \<in> ram \<Longrightarrow> mem b3 c = mem b2 c"
    using run_read [OF 2(2) assms(2)] by blast
  have w: "run_state (ibus_write16 ib a v) b = ((), b2)"
    using 1 2 by (simp add: ibus_write16_def Let_def x_def y_def split: if_splits)
  have "mem b2 a = x" "mem b3 (a + 1) = y" using 1(3) 2(3) 3(3) assms by simp_all
  then have "result (ibus_read16 ib a) b2 = v"
    using 3 read_ram [OF 3(2) assms(3)]
    by (simp add: ibus_read16_def case_prod_beta x_def y_def)
  then show ?thesis using w 1 2 by auto
qed

end

end
