(* ===== verification/FlatBus.thy ===== *)
theory FlatBus
  imports Interfaces CircularBuffer
begin

text \<open>
  \<open>src/libmem/main/memory_bus.h\<close> and \<open>memory_bus.cpp\<close>: \<open>FlatMemoryBus\<close>, the address space
  of the 8-bit machines: a flat RAM array, ROM overlays in front of it, the I/O hooks of the
  device registry in front of those, and a bounded log of the writes.

  The overlay's \<open>data\<close> pointer is the function from offsets to bytes it points at. The hooks
  are functions over the devices' state \<open>'d\<close>; a hook answers \<open>Some\<close> when it owns the address.
  The observer is the list of the calls it received (\<open>None\<close>: no observer attached).
\<close>

section \<open>State\<close>

record write_log_entry =
  wl_address :: u32
  wl_before :: u8
  wl_after :: u8

record rom_overlay =
  ov_base :: u32
  ov_size :: u32
  ov_data :: "u32 \<Rightarrow> u8"
  ov_writable :: bool

datatype bus_event =
    OnMemoryRead u32 u8
  | OnMemoryWrite u32 u8 u8

record 'd flat_bus =
  fb_addrMask :: u32
  fb_size :: nat
  fb_data :: "u32 \<Rightarrow> u8"
  fb_overlays :: "rom_overlay list"
  fb_writeLog :: "write_log_entry circular_buffer"
  fb_ioRead :: "(u32 \<Rightarrow> ('d, u8 option) state) option"
  fb_ioWrite :: "(u32 \<Rightarrow> u8 \<Rightarrow> ('d, bool) state) option"
  fb_ioPeek :: "(u32 \<Rightarrow> ('d, u8 option) state) option"
  fb_haltCheck :: "('d, bool) state option"
  fb_ioLowBase :: u32
  fb_observer :: "bus_event list option"
  fb_devices :: 'd

definition flat_new :: "nat \<Rightarrow> 'd \<Rightarrow> 'd flat_bus" where
  "flat_new addrBits d =
     \<lparr>fb_addrMask = (if addrBits = 32 then 0xFFFFFFFF else push_bit addrBits 1 - 1),
      fb_size = 2 ^ addrBits, fb_data = (\<lambda>_. 0), fb_overlays = [],
      fb_writeLog = cb_new \<lparr>wl_address = 0, wl_before = 0, wl_after = 0\<rparr> 1000,
      fb_ioRead = None, fb_ioWrite = None, fb_ioPeek = None, fb_haltCheck = None,
      fb_ioLowBase = 0xFFFFFFFF, fb_observer = None, fb_devices = d\<rparr>"

section \<open>Operations\<close>

text \<open>\<open>overlay.base + overlay.size\<close> wraps at 32 bits, as in the code.\<close>

definition ov_covers :: "u32 \<Rightarrow> rom_overlay \<Rightarrow> bool" where
  "ov_covers addr ov \<longleftrightarrow> ov_base ov \<le> addr \<and> addr < ov_base ov + ov_size ov"

definition findOverlay :: "'d flat_bus \<Rightarrow> u32 \<Rightarrow> rom_overlay option" where
  "findOverlay b addr = find (ov_covers addr) (fb_overlays b)"

text \<open>What the overlays and the array hold at a (masked) address.\<close>

definition flat_stored :: "'d flat_bus \<Rightarrow> u32 \<Rightarrow> u8" where
  "flat_stored b addr =
     (case findOverlay b addr of
        Some ov \<Rightarrow> ov_data ov (addr - ov_base ov)
      | None \<Rightarrow> fb_data b addr)"

definition notify :: "bus_event \<Rightarrow> ('d flat_bus, unit) state" where
  "notify e = modify (\<lambda>b. b\<lparr>fb_observer := map_option (\<lambda>es. es @ [e]) (fb_observer b)\<rparr>)"

text \<open>A hook runs on the devices' state.\<close>

definition on_devices :: "('d, 'a) state \<Rightarrow> ('d flat_bus, 'a) state" where
  "on_devices m = State (\<lambda>b. (case run_state m (fb_devices b) of
      (r, d) \<Rightarrow> (r, b\<lparr>fb_devices := d\<rparr>)))"

definition flat_read8Raw :: "u32 \<Rightarrow> ('d flat_bus, u8) state" where
  "flat_read8Raw addr0 = do {
     mask \<leftarrow> gets fb_addrMask;
     let addr = addr0 AND mask;
     val \<leftarrow> gets (\<lambda>b. flat_stored b addr);
     notify (OnMemoryRead addr val);
     State_Monad.return val }"

definition flat_read8 :: "u32 \<Rightarrow> ('d flat_bus, u8) state" where
  "flat_read8 addr0 = do {
     b \<leftarrow> State_Monad.get;
     let addr = addr0 AND fb_addrMask b;
     (if addr < fb_ioLowBase b then do {
        let val = flat_stored b addr;
        notify (OnMemoryRead addr val);
        State_Monad.return val }
      else case fb_ioRead b of
        None \<Rightarrow> flat_read8Raw addr
      | Some ioRead \<Rightarrow> do {
          r \<leftarrow> on_devices (ioRead addr);
          (case r of
             Some ioVal \<Rightarrow> do { notify (OnMemoryRead addr ioVal); State_Monad.return ioVal }
           | None \<Rightarrow> flat_read8Raw addr) }) }"

definition flat_peek8Raw :: "u32 \<Rightarrow> ('d flat_bus, u8) state" where
  "flat_peek8Raw addr0 = gets (\<lambda>b. flat_stored b (addr0 AND fb_addrMask b))"

definition flat_peek8 :: "u32 \<Rightarrow> ('d flat_bus, u8) state" where
  "flat_peek8 addr0 = do {
     b \<leftarrow> State_Monad.get;
     let addr = addr0 AND fb_addrMask b;
     (if addr < fb_ioLowBase b then State_Monad.return (flat_stored b addr)
      else case (case fb_ioPeek b of Some f \<Rightarrow> Some f | None \<Rightarrow> fb_ioRead b) of
        None \<Rightarrow> flat_peek8Raw addr
      | Some peekHook \<Rightarrow> do {
          r \<leftarrow> on_devices (peekHook addr);
          (case r of Some ioVal \<Rightarrow> State_Monad.return ioVal | None \<Rightarrow> flat_peek8Raw addr) }) }"

definition log_write :: "u32 \<Rightarrow> u8 \<Rightarrow> u8 \<Rightarrow> ('d flat_bus, unit) state" where
  "log_write addr before val = modify (\<lambda>b. b\<lparr>fb_writeLog :=
     cb_push \<lparr>wl_address = addr, wl_before = before, wl_after = val\<rparr> (fb_writeLog b)\<rparr>)"

definition store_byte :: "u32 \<Rightarrow> u8 \<Rightarrow> ('d flat_bus, unit) state" where
  "store_byte addr val = modify (\<lambda>b. b\<lparr>fb_data := (fb_data b)(addr := val)\<rparr>)"

text \<open>The end of \<open>write8\<close>, common to both of its paths: a read-only overlay swallows the write.\<close>

definition flat_commit :: "u32 \<Rightarrow> u8 \<Rightarrow> u8 \<Rightarrow> ('d flat_bus, unit) state" where
  "flat_commit addr before val = do {
     ov \<leftarrow> gets (\<lambda>b. findOverlay b addr);
     (if (case ov of Some ov \<Rightarrow> \<not> ov_writable ov | None \<Rightarrow> False)
      then notify (OnMemoryWrite addr before val)
      else do {
        store_byte addr val;
        notify (OnMemoryWrite addr before val);
        log_write addr before val }) }"

definition flat_write8 :: "u32 \<Rightarrow> u8 \<Rightarrow> ('d flat_bus, unit) state" where
  "flat_write8 addr0 val = do {
     b \<leftarrow> State_Monad.get;
     let addr = addr0 AND fb_addrMask b;
     (if addr < fb_ioLowBase b then flat_commit addr (flat_stored b addr) val
      else do {
        before \<leftarrow> flat_peek8 addr;
        owned \<leftarrow> (case fb_ioWrite b of
                    None \<Rightarrow> State_Monad.return False
                  | Some ioWrite \<Rightarrow> on_devices (ioWrite addr val));
        (if owned then notify (OnMemoryWrite addr before val)
         else flat_commit addr before val) }) }"

definition flat_clearWriteLog :: "'d flat_bus \<Rightarrow> 'd flat_bus" where
  "flat_clearWriteLog b = b\<lparr>fb_writeLog := cb_clear (fb_writeLog b)\<rparr>"

definition flat_reset :: "'d flat_bus \<Rightarrow> 'd flat_bus" where
  "flat_reset b = flat_clearWriteLog b"

definition flat_stateSize :: "'d flat_bus \<Rightarrow> nat" where
  "flat_stateSize b = fb_size b"

definition flat_saveState :: "'d flat_bus \<Rightarrow> u8 list" where
  "flat_saveState b = map (\<lambda>i. fb_data b (word_of_nat i)) [0..<fb_size b]"

definition flat_loadState :: "u8 list \<Rightarrow> 'd flat_bus \<Rightarrow> 'd flat_bus" where
  "flat_loadState buf b = b\<lparr>fb_data :=
     (\<lambda>a. if unat a < fb_size b \<and> unat a < length buf then buf ! unat a else fb_data b a)\<rparr>"

definition flat_getWrites :: "int \<Rightarrow> 'd flat_bus \<Rightarrow> (cb_error + write_log_entry) list" where
  "flat_getWrites mx b =
     map (cb_at (fb_writeLog b)) [0..<nat (min (int (m_size (fb_writeLog b))) mx)]"

definition flat_addOverlay :: "u32 \<Rightarrow> u32 \<Rightarrow> (u32 \<Rightarrow> u8) \<Rightarrow> bool \<Rightarrow> 'd flat_bus \<Rightarrow> 'd flat_bus" where
  "flat_addOverlay base sz data writable b = b\<lparr>fb_overlays := fb_overlays b @
     [\<lparr>ov_base = base, ov_size = sz, ov_data = data, ov_writable = writable\<rparr>]\<rparr>"

definition flat_addRomOverlay :: "u32 \<Rightarrow> u32 \<Rightarrow> (u32 \<Rightarrow> u8) \<Rightarrow> 'd flat_bus \<Rightarrow> 'd flat_bus" where
  "flat_addRomOverlay base sz data b = flat_addOverlay base sz data False b"

definition flat_removeRomOverlay :: "u32 \<Rightarrow> 'd flat_bus \<Rightarrow> 'd flat_bus" where
  "flat_removeRomOverlay base b = b\<lparr>fb_overlays := filter (\<lambda>ov. ov_base ov \<noteq> base) (fb_overlays b)\<rparr>"

definition flat_setIoHooks where
  "flat_setIoHooks readFn writeFn peekFn b =
     b\<lparr>fb_ioRead := readFn, fb_ioWrite := writeFn, fb_ioPeek := peekFn\<rparr>"

definition flat_isHaltRequested :: "('d flat_bus, bool) state" where
  "flat_isHaltRequested = do {
     h \<leftarrow> gets fb_haltCheck;
     (case h of Some f \<Rightarrow> on_devices f | None \<Rightarrow> State_Monad.return False) }"

definition flat_ibus :: "'d flat_bus ibus" where
  "flat_ibus = \<lparr>ib_read8 = flat_read8, ib_write8 = flat_write8, ib_peek8 = flat_peek8,
     ib_littleEndian = True\<rparr>"

section \<open>Running the operations\<close>

lemma run_on_devices [simp]:
  "run_state (on_devices m) b = (result m (fb_devices b), b\<lparr>fb_devices := final m (fb_devices b)\<rparr>)"
  by (simp add: on_devices_def case_prod_beta)

lemma run_notify [simp]:
  "run_state (notify e) b = ((), b\<lparr>fb_observer := map_option (\<lambda>es. es @ [e]) (fb_observer b)\<rparr>)"
  by (simp add: notify_def)

lemma run_store_byte [simp]:
  "run_state (store_byte a v) b = ((), b\<lparr>fb_data := (fb_data b)(a := v)\<rparr>)"
  by (simp add: store_byte_def)

lemma run_log_write [simp]:
  "run_state (log_write a x y) b = ((), b\<lparr>fb_writeLog :=
     cb_push \<lparr>wl_address = a, wl_before = x, wl_after = y\<rparr> (fb_writeLog b)\<rparr>)"
  by (simp add: log_write_def)

lemmas flat_ops [reg_ops] = flat_read8_def flat_read8Raw_def flat_peek8_def flat_peek8Raw_def
  flat_write8_def flat_commit_def

text \<open>What no access changes: the configuration, the overlays and the hooks.\<close>

definition flat_static :: "'d flat_bus \<Rightarrow> _" where
  "flat_static b = (fb_addrMask b, fb_size b, fb_overlays b, fb_ioRead b, fb_ioWrite b, fb_ioPeek b,
     fb_haltCheck b, fb_ioLowBase b)"

lemma flat_read_static [simp]: "flat_static (final (flat_read8 a) b) = flat_static b"
  by (auto simp: reg_ops flat_static_def case_prod_beta Let_def split: option.splits)

lemma flat_peek_static [simp]: "flat_static (final (flat_peek8 a) b) = flat_static b"
  by (auto simp: reg_ops flat_static_def case_prod_beta Let_def split: option.splits)

lemma flat_commit_static [simp]: "flat_static (final (flat_commit a x v) b) = flat_static b"
  by (auto simp: flat_commit_def flat_static_def split: option.splits)

lemma flat_write_static [simp]: "flat_static (final (flat_write8 a v) b) = flat_static b"
proof -
  have "flat_static (b'\<lparr>fb_devices := d\<rparr>) = flat_static b'" for b' :: "'a flat_bus" and d
    by (simp add: flat_static_def)
  moreover have "flat_static (b'\<lparr>fb_observer := d\<rparr>) = flat_static b'" for b' :: "'a flat_bus" and d
    by (simp add: flat_static_def)
  ultimately show ?thesis
    by (auto simp: flat_write8_def Let_def case_prod_beta split: option.splits)
qed

lemma flat_read_data [simp]: "fb_data (final (flat_read8 a) b) = fb_data b"
  by (auto simp: reg_ops case_prod_beta Let_def split: option.splits)

lemma flat_peek_data [simp]: "fb_data (final (flat_peek8 a) b) = fb_data b"
  by (auto simp: reg_ops case_prod_beta Let_def split: option.splits)

lemma flat_read_log [simp]: "fb_writeLog (final (flat_read8 a) b) = fb_writeLog b"
  by (auto simp: reg_ops case_prod_beta Let_def split: option.splits)

section \<open>Plain RAM\<close>

text \<open>Addresses below the I/O area that no overlay covers.\<close>

definition flat_plain :: "'d flat_bus \<Rightarrow> u32 \<Rightarrow> bool" where
  "flat_plain b a \<longleftrightarrow> a AND fb_addrMask b = a \<and> a < fb_ioLowBase b \<and> findOverlay b a = None"

definition flat_ok :: "u32 set \<Rightarrow> 'd flat_bus \<Rightarrow> bool" where
  "flat_ok R b \<longleftrightarrow> (\<forall>a \<in> R. flat_plain b a)"

lemma flat_plain_static: "flat_static b = flat_static c \<Longrightarrow> flat_plain b a = flat_plain c a"
  by (simp add: flat_plain_def flat_static_def findOverlay_def)

lemma flat_ok_static: "flat_static b = flat_static c \<Longrightarrow> flat_ok R b = flat_ok R c"
  by (simp add: flat_ok_def flat_plain_static [of b c])

lemma flat_ok_read [simp]: "flat_ok R (final (flat_read8 a) b) = flat_ok R b"
  by (rule flat_ok_static) simp

lemma flat_ok_write [simp]: "flat_ok R (final (flat_write8 a v) b) = flat_ok R b"
  by (rule flat_ok_static) simp

lemma flat_read_plain: "flat_plain b a \<Longrightarrow> result (flat_read8 a) b = fb_data b a"
  by (simp add: flat_read8_def flat_plain_def flat_stored_def Let_def)

lemma flat_write_plain: "flat_plain b a \<Longrightarrow> run_state (flat_write8 a v) b =
    ((), b\<lparr>fb_data := (fb_data b)(a := v),
           fb_observer := map_option (\<lambda>es. es @ [OnMemoryWrite a (fb_data b a) v]) (fb_observer b),
           fb_writeLog := cb_push \<lparr>wl_address = a, wl_before = fb_data b a, wl_after = v\<rparr> (fb_writeLog b)\<rparr>)"
  by (simp add: flat_write8_def flat_commit_def flat_plain_def flat_stored_def Let_def)

lemma ram_bus_flat: "ram_bus flat_ibus fb_data R (flat_ok R)"
proof (unfold_locales, goal_cases)
  case (1 b a)
  then show ?case by (simp add: flat_ibus_def)
next
  case (2 b a v)
  then show ?case by (simp add: flat_ibus_def)
next
  case (3 b a)
  then show ?case by (simp add: flat_ibus_def flat_ok_def flat_read_plain)
next
  case (4 b a c)
  then show ?case by (simp add: flat_ibus_def)
next
  case (5 b a c v)
  then show ?case by (simp add: flat_ibus_def flat_ok_def flat_write_plain)
qed

interpretation flat: ram_bus flat_ibus fb_data R "flat_ok R" for R
  by (rule ram_bus_flat)

section \<open>Correctness\<close>

text \<open>
  On two plain-RAM addresses, \<open>read8\<close> after \<open>write8\<close> returns the written byte at the
  written address and the old byte everywhere else.
\<close>

theorem flat_read_after_write:
  assumes "flat_plain b a" and "flat_plain b c"
  shows "result (flat_read8 c) (final (flat_write8 a v) b) =
    (if c = a then v else result (flat_read8 c) b)"
proof -
  have "flat_ok {a, c} b" using assms by (simp add: flat_ok_def)
  then have ok: "flat_ok {a, c} (final (flat_write8 a v) b)" by simp
  then show ?thesis
    using assms by (simp add: flat_ok_def flat_read_plain) (simp add: flat_write_plain)
qed

theorem flat_read_after_write_witness:
  "flat_plain (flat_new 16 ()) 0x1234 \<and> flat_plain (flat_new 16 ()) 0x1235 \<and>
   result (flat_read8 0x1234) (final (flat_write8 0x1234 7) (flat_new 16 ())) = 7 \<and>
   result (flat_read8 0x1235) (final (flat_write8 0x1234 7) (flat_new 16 ())) = 0"
proof -
  have p: "flat_plain (flat_new 16 ()) 0x1234" "flat_plain (flat_new 16 ()) 0x1235"
    by (simp_all add: flat_plain_def flat_new_def findOverlay_def)
  have "result (flat_read8 0x1235) (flat_new 16 ()) = 0"
    using p(2) by (simp add: flat_read_plain) (simp add: flat_new_def)
  then show ?thesis
    using p flat_read_after_write [OF p(1) p(1), of 7] flat_read_after_write [OF p(1) p(2), of 7]
    by simp
qed

text \<open>
  A read-only overlay below the I/O area protects what it covers: a write there changes
  neither the RAM array nor the write log nor the devices, and reads keep returning the
  overlay's byte.
\<close>

theorem flat_rom_write_ignored:
  assumes "findOverlay b (a AND fb_addrMask b) = Some ov" and "\<not> ov_writable ov"
    and "a AND fb_addrMask b < fb_ioLowBase b"
  shows "let b' = final (flat_write8 a v) b in
    fb_data b' = fb_data b \<and> fb_writeLog b' = fb_writeLog b \<and> fb_devices b' = fb_devices b \<and>
    result (flat_read8 a) b' = ov_data ov ((a AND fb_addrMask b) - ov_base ov)"
  using assms
  by (simp add: flat_write8_def flat_commit_def flat_read8_def flat_stored_def findOverlay_def Let_def)

definition demo_rom :: "unit flat_bus" where
  "demo_rom = flat_addRomOverlay 0xE000 0x2000 (\<lambda>i. if i = 0 then 0x4C else 0xEA) (flat_new 16 ())"

lemma demo_rom_overlay: "findOverlay demo_rom 0xE000 =
    Some \<lparr>ov_base = 0xE000, ov_size = 0x2000, ov_data = (\<lambda>i. if i = 0 then 0x4C else 0xEA), ov_writable = False\<rparr>"
  by (simp add: demo_rom_def flat_addRomOverlay_def flat_addOverlay_def flat_new_def findOverlay_def ov_covers_def)

theorem flat_rom_write_ignored_witness:
  "let b' = final (flat_write8 0xE000 0x55) demo_rom in
   fb_data b' = fb_data demo_rom \<and> fb_writeLog b' = fb_writeLog demo_rom \<and>
   fb_devices b' = fb_devices demo_rom \<and> result (flat_read8 0xE000) b' = 0x4C"
proof -
  have m: "0xE000 AND fb_addrMask demo_rom = 0xE000" and l: "fb_ioLowBase demo_rom = 0xFFFFFFFF"
    by (simp_all add: demo_rom_def flat_addRomOverlay_def flat_addOverlay_def flat_new_def)
  show ?thesis
    using flat_rom_write_ignored [of demo_rom "0xE000" _ "0x55", unfolded m l, OF demo_rom_overlay]
    by (simp add: Let_def)
qed

text \<open>
  A peek has no side effect, and shows what a read would return, as long as the peek hook
  itself leaves the devices alone and answers what the read hook would answer.
\<close>

theorem flat_peek_pure:
  assumes "fb_ioPeek b = Some pk" and "fb_ioRead b = Some rd"
    and "\<And>x. final (pk x) (fb_devices b) = fb_devices b"
    and "\<And>x. result (pk x) (fb_devices b) = result (rd x) (fb_devices b)"
  shows "final (flat_peek8 a) b = b \<and> result (flat_peek8 a) b = result (flat_read8 a) b"
  using assms
  by (auto simp: reg_ops Let_def case_prod_beta flat_stored_def findOverlay_def split: option.splits)

definition demo_io :: "u8 flat_bus" where
  "demo_io = (flat_setIoHooks (Some (\<lambda>x. do { d \<leftarrow> State_Monad.get; State_Monad.set (d + 1); State_Monad.return (Some d) }))
     None (Some (\<lambda>x. gets Some)) (flat_new 16 7))\<lparr>fb_ioLowBase := 0xD000\<rparr>"

theorem flat_peek_pure_witness:
  "final (flat_peek8 0xD012) demo_io = demo_io \<and> result (flat_peek8 0xD012) demo_io = 7 \<and>
   result (flat_read8 0xD012) demo_io = 7 \<and> fb_devices (final (flat_read8 0xD012) demo_io) = 8"
proof -
  have h: "fb_ioPeek demo_io = Some (\<lambda>x. gets Some)"
    "fb_ioRead demo_io = Some (\<lambda>x. do { d \<leftarrow> State_Monad.get; State_Monad.set (d + 1); State_Monad.return (Some d) })"
    by (simp_all add: demo_io_def flat_setIoHooks_def)
  have r: "result (flat_read8 0xD012) demo_io = 7 \<and> fb_devices (final (flat_read8 0xD012) demo_io) = 8"
    by (simp add: flat_read8_def demo_io_def flat_setIoHooks_def flat_new_def Let_def)
  show ?thesis using flat_peek_pure [OF h, of "0xD012"] r by simp
qed

definition log_journal :: "'d flat_bus \<Rightarrow> (u32 \<times> u8) list" where
  "log_journal b = map (\<lambda>e. (wl_address e, wl_before e)) (cb_list (fb_writeLog b))"

lemma flat_log_journal:
  assumes "flat_ok R b" and "fst ` set ws \<subseteq> R" and "cb_inv (fb_writeLog b)"
    and "m_size (fb_writeLog b) + length ws \<le> m_capacity (fb_writeLog b)"
  shows "log_journal (write_all flat_ibus ws b) = log_journal b @ journal flat_ibus fb_data ws b"
  using assms
proof (induction ws arbitrary: b)
  case Nil
  then show ?case by simp
next
  case (Cons w ws)
  obtain a v where w: "w = (a, v)" by (cases w)
  let ?b1 = "final (flat_write8 a v) b"
  have p: "flat_plain b a" using Cons.prems w by (auto simp: flat_ok_def)
  have l: "fb_writeLog ?b1 = cb_push \<lparr>wl_address = a, wl_before = fb_data b a, wl_after = v\<rparr> (fb_writeLog b)"
    using p by (simp add: flat_write_plain)
  have j: "log_journal ?b1 = log_journal b @ [(a, fb_data b a)]"
    using Cons.prems by (simp add: log_journal_def l cb_push_list last_n_snoc)
  have "log_journal (write_all flat_ibus ws ?b1) = log_journal ?b1 @ journal flat_ibus fb_data ws ?b1"
    using Cons.prems w by (intro Cons.IH) (auto simp: l cb_push_inv cb_push_size)
  then show ?case using j w by (simp add: flat_ibus_def)
qed

text \<open>
  C18: the write log is the journal an undo needs: after a run of writes to plain RAM that fits
  in the (cleared) log, writing the logged \<open>before\<close> bytes back, newest first, restores every
  RAM byte of the region.
\<close>

theorem flat_write_log_undo:
  assumes "flat_ok R b" and "fst ` set ws \<subseteq> R" and "cb_inv (fb_writeLog b)"
    and "length ws \<le> m_capacity (fb_writeLog b)" and "c \<in> R"
  shows "let b1 = write_all flat_ibus ws (flat_clearWriteLog b)
    in fb_data (undo_writes flat_ibus (log_journal b1) b1) c = fb_data b c"
proof -
  let ?b0 = "flat_clearWriteLog b"
  have ok: "flat_ok R ?b0" using assms(1) flat_ok_static [of ?b0 b R]
    by (simp add: flat_clearWriteLog_def flat_static_def)
  have "log_journal (write_all flat_ibus ws ?b0) = log_journal ?b0 @ journal flat_ibus fb_data ws ?b0"
    using assms by (intro flat_log_journal [OF ok]) (auto simp: flat_clearWriteLog_def cb_clear_inv, simp add: cb_clear_def)
  then have "log_journal (write_all flat_ibus ws ?b0) = journal flat_ibus fb_data ws ?b0"
    by (simp add: log_journal_def flat_clearWriteLog_def)
  then show ?thesis
    using flat.undo_journal [OF ok assms(2,5)] by (simp add: flat_clearWriteLog_def)
qed

theorem flat_write_log_undo_witness:
  "let b = flat_new 16 (); b1 = write_all flat_ibus [(0x400, 1), (0x401, 2), (0x400, 3)] (flat_clearWriteLog b)
   in fb_data b1 0x400 = 3 \<and> fb_data (undo_writes flat_ibus (log_journal b1) b1) 0x400 = 0"
proof -
  let ?b = "flat_new 16 ()" and ?ws = "[(0x400, 1), (0x401, 2), (0x400, 3)] :: (u32 \<times> u8) list"
  have ok: "flat_ok {0x400, 0x401} ?b"
    by (simp add: flat_ok_def flat_plain_def flat_new_def findOverlay_def)
  have 1: "fb_data (write_all flat_ibus ?ws (flat_clearWriteLog ?b)) 0x400 = 3"
    by (simp add: flat_ibus_def flat_clearWriteLog_def flat_new_def flat_write8_def flat_commit_def
        flat_stored_def findOverlay_def Let_def)
  show ?thesis
    using flat_write_log_undo [OF ok, of ?ws "0x400"] 1
    by (simp add: flat_new_def cb_new_inv Let_def) (simp add: cb_new_def)
qed

text \<open>
  \<open>saveState\<close> followed by \<open>loadState\<close>, into any bus of the same size, reproduces every byte
  of the RAM array.
\<close>

theorem flat_save_load:
  assumes "fb_size c = fb_size b" and "unat a < fb_size b"
  shows "fb_data (flat_loadState (flat_saveState b) c) a = fb_data b a
    \<and> length (flat_saveState b) = flat_stateSize b"
  using assms by (simp add: flat_loadState_def flat_saveState_def flat_stateSize_def)

theorem flat_save_load_witness:
  "let b = final (flat_write8 5 9) (flat_new 4 ()); c = flat_new 4 ()
   in fb_data (flat_loadState (flat_saveState b) c) 5 = 9 \<and> length (flat_saveState b) = 16"
proof -
  let ?b = "final (flat_write8 5 9) (flat_new 4 ())"
  have d: "fb_data ?b 5 = 9" and s: "fb_size ?b = 16" "fb_size (flat_new 4 ()) = 16"
    by (simp_all add: flat_write8_def flat_commit_def flat_stored_def findOverlay_def flat_new_def Let_def)
  show ?thesis
    using flat_save_load [of "flat_new 4 ()" ?b 5] d s by (simp add: flat_stateSize_def Let_def)
qed

text \<open>
  A write through a \<open>writable\<close> overlay goes to the RAM array underneath, but reads are still
  served from the overlay's own bytes: the written value is not what a read returns.
\<close>

theorem flat_writable_overlay_stale:
  assumes "findOverlay b (a AND fb_addrMask b) = Some ov" and "ov_writable ov"
    and "a AND fb_addrMask b < fb_ioLowBase b"
  shows "let b' = final (flat_write8 a v) b in
    fb_data b' (a AND fb_addrMask b) = v \<and> result (flat_read8 a) b' = result (flat_read8 a) b"
  using assms
  by (simp add: flat_write8_def flat_commit_def flat_read8_def flat_stored_def findOverlay_def Let_def)

theorem flat_writable_overlay_stale_witness:
  "let b = flat_addOverlay 0 0x1000 (\<lambda>_. 0) True (flat_new 16 ()); b' = final (flat_write8 0x10 0x77) b
   in fb_data b' 0x10 = 0x77 \<and> result (flat_read8 0x10) b' = 0"
proof -
  let ?b = "flat_addOverlay 0 0x1000 (\<lambda>_. 0) True (flat_new 16 ())"
  let ?ov = "\<lparr>ov_base = 0, ov_size = 0x1000, ov_data = (\<lambda>_. 0), ov_writable = True\<rparr>"
  have m: "0x10 AND fb_addrMask ?b = 0x10" "fb_ioLowBase ?b = 0xFFFFFFFF"
    and o1: "findOverlay ?b 0x10 = Some ?ov"
    by (simp_all add: flat_addOverlay_def flat_new_def findOverlay_def ov_covers_def)
  have r: "result (flat_read8 0x10) ?b = 0"
    using m o1 by (simp add: flat_read8_def flat_stored_def Let_def)
  show ?thesis
    using flat_writable_overlay_stale [of ?b "0x10" ?ov "0x77", unfolded m, OF o1] r
    by (simp add: Let_def)
qed

end
