(* ===== verification/SparseBus.thy ===== *)
theory SparseBus
  imports Interfaces FlatBus
begin

text \<open>
  \<open>src/libmem/main/sparse_memory_bus.h\<close> and \<open>sparse_memory_bus.cpp\<close>: \<open>SparseMemoryBus\<close>, the
  28-bit address space of the MEGA65: 4 KB pages allocated on the first write, regions (ROM or
  external RAM) in front of them, and the same bounded write log as the flat bus.

  \<open>sb_pages\<close> is the hash map from page numbers to page contents (a page is its 4096 bytes by
  offset). A region's \<open>data\<close> pointer is a key into \<open>sb_store\<close>, since a writable region is
  written through its pointer and two regions may share one buffer. The order in which the
  hash map is enumerated is a parameter of \<open>saveState\<close>.
\<close>

section \<open>State\<close>

record sparse_region =
  sr_base :: u32
  sr_size :: u32
  sr_data :: nat
  sr_writable :: bool

record sparse_bus =
  sb_addrMask :: u32
  sb_pageBits :: nat
  sb_pages :: "u32 \<Rightarrow> (u32 \<Rightarrow> u8) option"
  sb_regions :: "sparse_region list"
  sb_store :: "nat \<Rightarrow> u32 \<Rightarrow> u8"
  sb_writeLog :: "write_log_entry circular_buffer"
  sb_observer :: "bus_event list option"

definition PAGE_SIZE :: nat where
  "PAGE_SIZE = 4096"

definition sparse_new :: "nat \<Rightarrow> (nat \<Rightarrow> u32 \<Rightarrow> u8) \<Rightarrow> sparse_bus" where
  "sparse_new addrBits store =
     \<lparr>sb_addrMask = (if addrBits = 32 then 0xFFFFFFFF else push_bit addrBits 1 - 1),
      sb_pageBits = 12, sb_pages = (\<lambda>_. None), sb_regions = [], sb_store = store,
      sb_writeLog = cb_new \<lparr>wl_address = 0, wl_before = 0, wl_after = 0\<rparr> 1000,
      sb_observer = None\<rparr>"

section \<open>Operations\<close>

definition sr_covers :: "u32 \<Rightarrow> sparse_region \<Rightarrow> bool" where
  "sr_covers addr r \<longleftrightarrow> sr_base r \<le> addr \<and> addr < sr_base r + sr_size r"

definition findRegion :: "sparse_bus \<Rightarrow> u32 \<Rightarrow> sparse_region option" where
  "findRegion b addr = find (sr_covers addr) (sb_regions b)"

definition getPageAddr :: "sparse_bus \<Rightarrow> u32 \<Rightarrow> u32" where
  "getPageAddr b addr = drop_bit (sb_pageBits b) addr"

definition getPageOffset :: "sparse_bus \<Rightarrow> u32 \<Rightarrow> u32" where
  "getPageOffset b addr = addr AND (push_bit (sb_pageBits b) 1 - 1)"

text \<open>\<open>allocatePage\<close> returns the page's contents; a fresh page is filled with \<open>$FF\<close>.\<close>

definition allocatePage :: "u32 \<Rightarrow> sparse_bus \<Rightarrow> (u32 \<Rightarrow> u8) \<times> sparse_bus" where
  "allocatePage pageAddr b =
     (case sb_pages b pageAddr of
        Some page \<Rightarrow> (page, b)
      | None \<Rightarrow> (\<lambda>_. 0xFF, b\<lparr>sb_pages := (sb_pages b)(pageAddr := Some (\<lambda>_. 0xFF))\<rparr>))"

definition sparse_page_write :: "u32 \<Rightarrow> u8 \<Rightarrow> sparse_bus \<Rightarrow> sparse_bus" where
  "sparse_page_write addr val b =
     (let pageAddr = getPageAddr b addr; offset = getPageOffset b addr;
          (page, b') = allocatePage pageAddr b
      in b'\<lparr>sb_pages := (sb_pages b')(pageAddr := Some (page(offset := val)))\<rparr>)"

definition sparse_peek8Raw :: "sparse_bus \<Rightarrow> u32 \<Rightarrow> u8" where
  "sparse_peek8Raw b addr0 =
     (let addr = addr0 AND sb_addrMask b
      in case findRegion b addr of
           Some r \<Rightarrow> sb_store b (sr_data r) (addr - sr_base r)
         | None \<Rightarrow> (case sb_pages b (getPageAddr b addr) of
                      Some page \<Rightarrow> page (getPageOffset b addr)
                    | None \<Rightarrow> 0xFF))"

definition sparse_peek8 :: "sparse_bus \<Rightarrow> u32 \<Rightarrow> u8" where
  "sparse_peek8 b addr = sparse_peek8Raw b (addr AND sb_addrMask b)"

definition sparse_notify :: "bus_event \<Rightarrow> sparse_bus \<Rightarrow> sparse_bus" where
  "sparse_notify e b = b\<lparr>sb_observer := map_option (\<lambda>es. es @ [e]) (sb_observer b)\<rparr>"

definition sparse_read8 :: "u32 \<Rightarrow> (sparse_bus, u8) state" where
  "sparse_read8 addr0 = do {
     b \<leftarrow> State_Monad.get;
     let addr = addr0 AND sb_addrMask b;
     let val = sparse_peek8 b addr;
     modify (sparse_notify (OnMemoryRead addr val));
     State_Monad.return val }"

definition sparse_read8Raw :: "u32 \<Rightarrow> (sparse_bus, u8) state" where
  "sparse_read8Raw addr0 = do {
     b \<leftarrow> State_Monad.get;
     let addr = addr0 AND sb_addrMask b;
     let val = sparse_peek8Raw b addr;
     modify (sparse_notify (OnMemoryRead addr val));
     State_Monad.return val }"

definition sparse_store_at :: "u32 \<Rightarrow> u8 \<Rightarrow> sparse_bus \<Rightarrow> sparse_bus" where
  "sparse_store_at addr val b =
     (case findRegion b addr of
        Some r \<Rightarrow>
          if \<not> sr_writable r then sparse_page_write addr val b
          else b\<lparr>sb_store := (sb_store b)(sr_data r := (sb_store b (sr_data r))(addr - sr_base r := val))\<rparr>
      | None \<Rightarrow> sparse_page_write addr val b)"

definition sparse_write8 :: "u32 \<Rightarrow> u8 \<Rightarrow> (sparse_bus, unit) state" where
  "sparse_write8 addr0 val = do {
     b \<leftarrow> State_Monad.get;
     let addr = addr0 AND sb_addrMask b;
     let before = sparse_peek8Raw b addr;
     modify (sparse_store_at addr val);
     modify (sparse_notify (OnMemoryWrite addr before val));
     modify (\<lambda>b. b\<lparr>sb_writeLog :=
       cb_push \<lparr>wl_address = addr, wl_before = before, wl_after = val\<rparr> (sb_writeLog b)\<rparr>) }"

definition sparse_clearWriteLog :: "sparse_bus \<Rightarrow> sparse_bus" where
  "sparse_clearWriteLog b = b\<lparr>sb_writeLog := cb_clear (sb_writeLog b)\<rparr>"

definition sparse_reset :: "sparse_bus \<Rightarrow> sparse_bus" where
  "sparse_reset b = (sparse_clearWriteLog b)\<lparr>sb_pages := (\<lambda>_. None)\<rparr>"

definition sparse_addRegion :: "u32 \<Rightarrow> u32 \<Rightarrow> nat \<Rightarrow> bool \<Rightarrow> sparse_bus \<Rightarrow> sparse_bus" where
  "sparse_addRegion base sz data writable b = b\<lparr>sb_regions := sb_regions b @
     [\<lparr>sr_base = base, sr_size = sz, sr_data = data, sr_writable = writable\<rparr>]\<rparr>"

text \<open>A cartridge overlay goes in front of the regions already there.\<close>

definition sparse_addRomOverlay :: "u32 \<Rightarrow> u32 \<Rightarrow> nat \<Rightarrow> sparse_bus \<Rightarrow> sparse_bus" where
  "sparse_addRomOverlay base sz data b = b\<lparr>sb_regions :=
     \<lparr>sr_base = base, sr_size = sz, sr_data = data, sr_writable = False\<rparr> # sb_regions b\<rparr>"

definition sparse_removeRomOverlay :: "u32 \<Rightarrow> sparse_bus \<Rightarrow> sparse_bus" where
  "sparse_removeRomOverlay base b = b\<lparr>sb_regions := filter (\<lambda>r. sr_base r \<noteq> base) (sb_regions b)\<rparr>"

definition sparse_getWrites :: "int \<Rightarrow> sparse_bus \<Rightarrow> (cb_error + write_log_entry) list" where
  "sparse_getWrites mx b =
     map (cb_at (sb_writeLog b)) [0..<nat (min (int (m_size (sb_writeLog b))) mx)]"

section \<open>Snapshots\<close>

text \<open>\<open>memcpy\<close> of a \<open>uint32_t\<close> on a little-endian host.\<close>

definition u32_bytes :: "u32 \<Rightarrow> u8 list" where
  "u32_bytes v = [ucast v, ucast (drop_bit 8 v), ucast (drop_bit 16 v), ucast (drop_bit 24 v)]"

definition bytes_u32 :: "u8 list \<Rightarrow> u32" where
  "bytes_u32 bs = ucast (bs ! 0) OR push_bit 8 (ucast (bs ! 1)) OR push_bit 16 (ucast (bs ! 2))
     OR push_bit 24 (ucast (bs ! 3))"

definition page_bytes :: "(u32 \<Rightarrow> u8) \<Rightarrow> u8 list" where
  "page_bytes page = map (\<lambda>i. page (word_of_nat i)) [0..<PAGE_SIZE]"

definition sparse_stateSize :: "u32 list \<Rightarrow> nat" where
  "sparse_stateSize order = 4 + length order * (4 + PAGE_SIZE)"

text \<open>\<open>order\<close>: the keys of the map in its iteration order.\<close>

definition sparse_saveState :: "u32 list \<Rightarrow> sparse_bus \<Rightarrow> u8 list" where
  "sparse_saveState order b =
     u32_bytes (word_of_nat (length order)) @
     concat (map (\<lambda>pageAddr. u32_bytes pageAddr @ page_bytes (the (sb_pages b pageAddr))) order)"

fun sparse_loadPages :: "nat \<Rightarrow> u8 list \<Rightarrow> sparse_bus \<Rightarrow> sparse_bus" where
  "sparse_loadPages 0 buf b = b"
| "sparse_loadPages (Suc n) buf b =
     (let pageAddr = bytes_u32 (take 4 buf);
          body = take PAGE_SIZE (drop 4 buf);
          (page, b') = allocatePage pageAddr b;
          page' = (\<lambda>off. if unat off < length body then body ! unat off else page off)
      in sparse_loadPages n (drop (4 + PAGE_SIZE) buf)
           (b'\<lparr>sb_pages := (sb_pages b')(pageAddr := Some page')\<rparr>))"

definition sparse_loadState :: "u8 list \<Rightarrow> sparse_bus \<Rightarrow> sparse_bus" where
  "sparse_loadState buf b =
     sparse_loadPages (unat (bytes_u32 (take 4 buf))) (drop 4 buf) (sparse_reset b)"

definition sparse_ibus :: "sparse_bus ibus" where
  "sparse_ibus = \<lparr>ib_read8 = sparse_read8, ib_write8 = sparse_write8,
     ib_peek8 = (\<lambda>a. gets (\<lambda>b. sparse_peek8 b a)), ib_littleEndian = True\<rparr>"

section \<open>The memory a sparse bus represents\<close>

text \<open>The RAM under the regions: an unallocated page reads as \<open>$FF\<close>.\<close>

definition sparse_ram :: "sparse_bus \<Rightarrow> u32 \<Rightarrow> u8" where
  "sparse_ram b addr =
     (case sb_pages b (getPageAddr b addr) of
        Some page \<Rightarrow> page (getPageOffset b addr) | None \<Rightarrow> 0xFF)"

lemma page_offset_inject:
  fixes a c :: u32
  assumes "drop_bit n a = drop_bit n c" and "a AND (push_bit n 1 - 1) = c AND (push_bit n 1 - 1)"
  shows "a = c"
proof (rule bit_word_eqI)
  fix i assume "i < LENGTH(32)"
  have m: "(push_bit n 1 - 1 :: u32) = mask n" by (simp add: mask_eq_decr_exp push_bit_eq_mult)
  show "bit a i = bit c i"
  proof (cases "i < n")
    case True
    have "bit (a AND mask n) i = bit (c AND mask n) i" using assms(2) m by simp
    with True \<open>i < LENGTH(32)\<close> show ?thesis by (simp add: bit_simps)
  next
    case False
    have "bit (drop_bit n a) (i - n) = bit (drop_bit n c) (i - n)" using assms(1) by simp
    with False show ?thesis by (simp add: bit_simps)
  qed
qed

definition sparse_static :: "sparse_bus \<Rightarrow> _" where
  "sparse_static b = (sb_addrMask b, sb_pageBits b, sb_regions b)"

lemma sparse_page_write_ram:
  "sparse_ram (sparse_page_write a v b) = (sparse_ram b)(a := v)"
proof
  fix c
  have "c = a" if "getPageAddr b c = getPageAddr b a" "getPageOffset b c = getPageOffset b a"
    using page_offset_inject that by (simp add: getPageAddr_def getPageOffset_def)
  then show "sparse_ram (sparse_page_write a v b) c = ((sparse_ram b)(a := v)) c"
    by (auto simp: sparse_page_write_def sparse_ram_def allocatePage_def Let_def getPageAddr_def
        getPageOffset_def split: option.splits)
qed

lemma sparse_page_write_static [simp]:
  "sparse_static (sparse_page_write a v b) = sparse_static b"
  "sb_store (sparse_page_write a v b) = sb_store b"
  "sb_writeLog (sparse_page_write a v b) = sb_writeLog b"
  "sb_observer (sparse_page_write a v b) = sb_observer b"
  by (auto simp: sparse_page_write_def sparse_static_def allocatePage_def Let_def split: option.splits)

lemma sparse_static_find: "sparse_static b = sparse_static c \<Longrightarrow>
    findRegion b = findRegion c \<and> sb_addrMask b = sb_addrMask c \<and> sb_pageBits b = sb_pageBits c"
  by (auto simp: sparse_static_def findRegion_def fun_eq_iff)

lemma sparse_store_static [simp]: "sparse_static (sparse_store_at a v b) = sparse_static b"
proof -
  have "sparse_static (b\<lparr>sb_store := d\<rparr>) = sparse_static b" for d by (simp add: sparse_static_def)
  then show ?thesis by (simp add: sparse_store_at_def split: option.splits)
qed

lemma sparse_static_more [simp]:
  "sparse_static (b\<lparr>sb_writeLog := l\<rparr>) = sparse_static b"
  "sparse_static (b\<lparr>sb_observer := e\<rparr>) = sparse_static b"
  by (simp_all add: sparse_static_def)

lemma sparse_write_static [simp]: "sparse_static (final (sparse_write8 a v) b) = sparse_static b"
  by (simp add: sparse_write8_def sparse_notify_def Let_def)

lemma sparse_ram_more [simp]:
  "sparse_ram (b\<lparr>sb_writeLog := l\<rparr>) = sparse_ram b" "sparse_ram (b\<lparr>sb_observer := e\<rparr>) = sparse_ram b"
  "sparse_ram (b\<lparr>sb_store := s\<rparr>) = sparse_ram b" "sparse_ram (b\<lparr>sb_regions := rs\<rparr>) = sparse_ram b"
  by (simp_all add: sparse_ram_def fun_eq_iff getPageAddr_def getPageOffset_def split: option.split)

lemma sparse_store_at_ram:
  "sparse_ram (sparse_store_at a v b) =
     (if (case findRegion b a of Some r \<Rightarrow> sr_writable r | None \<Rightarrow> False) then sparse_ram b
      else (sparse_ram b)(a := v))"
  by (auto simp: sparse_store_at_def sparse_page_write_ram split: option.splits)

lemma sparse_write_ram:
  "sparse_ram (final (sparse_write8 a v) b) =
     (if (case findRegion b (a AND sb_addrMask b) of Some r \<Rightarrow> sr_writable r | None \<Rightarrow> False)
      then sparse_ram b else (sparse_ram b)(a AND sb_addrMask b := v))"
  by (simp add: sparse_write8_def sparse_notify_def sparse_store_at_ram Let_def)

lemma sparse_peek_eq:
  "sparse_peek8 b a =
     (case findRegion b (a AND sb_addrMask b) of
        Some r \<Rightarrow> sb_store b (sr_data r) ((a AND sb_addrMask b) - sr_base r)
      | None \<Rightarrow> sparse_ram b (a AND sb_addrMask b))"
  by (simp add: sparse_peek8_def sparse_peek8Raw_def sparse_ram_def Let_def and.assoc split: option.split)

lemma sparse_read_eq: "result (sparse_read8 a) b = sparse_peek8 b a"
  by (simp add: sparse_read8_def Let_def sparse_peek8_def and.assoc)

lemma sparse_read_ram [simp]: "sparse_ram (final (sparse_read8 a) b) = sparse_ram b"
  by (simp add: sparse_read8_def sparse_notify_def Let_def)

lemma sparse_read_static [simp]: "sparse_static (final (sparse_read8 a) b) = sparse_static b"
  by (simp add: sparse_read8_def sparse_notify_def Let_def sparse_static_def)

text \<open>Addresses in no region are plain RAM.\<close>

definition sparse_plain :: "sparse_bus \<Rightarrow> u32 \<Rightarrow> bool" where
  "sparse_plain b a \<longleftrightarrow> a AND sb_addrMask b = a \<and> findRegion b a = None"

definition sparse_ok :: "u32 set \<Rightarrow> sparse_bus \<Rightarrow> bool" where
  "sparse_ok R b \<longleftrightarrow> (\<forall>a \<in> R. sparse_plain b a)"

lemma sparse_ok_static: "sparse_static b = sparse_static c \<Longrightarrow> sparse_ok R b = sparse_ok R c"
  by (simp add: sparse_ok_def sparse_plain_def sparse_static_find [of b c])

lemma sparse_ok_read [simp]: "sparse_ok R (final (sparse_read8 a) b) = sparse_ok R b"
  by (rule sparse_ok_static) simp

lemma sparse_ok_write [simp]: "sparse_ok R (final (sparse_write8 a v) b) = sparse_ok R b"
  by (rule sparse_ok_static) simp

lemma ram_bus_sparse: "ram_bus sparse_ibus sparse_ram R (sparse_ok R)"
proof (unfold_locales, goal_cases)
  case (1 b a)
  then show ?case by (simp add: sparse_ibus_def)
next
  case (2 b a v)
  then show ?case by (simp add: sparse_ibus_def)
next
  case (3 b a)
  then show ?case
    by (simp add: sparse_ibus_def sparse_ok_def sparse_plain_def sparse_read_eq sparse_peek_eq)
next
  case (4 b a c)
  then show ?case by (simp add: sparse_ibus_def)
next
  case (5 b a c v)
  then show ?case by (simp add: sparse_ibus_def sparse_ok_def sparse_plain_def sparse_write_ram)
qed

interpretation sparse: ram_bus sparse_ibus sparse_ram R "sparse_ok R" for R
  by (rule ram_bus_sparse)

section \<open>Correctness\<close>

lemma sparse_write_dom:
  "dom (sb_pages (sparse_page_write a v b)) = insert (getPageAddr b a) (dom (sb_pages b))"
  by (auto simp: sparse_page_write_def allocatePage_def Let_def split: option.splits)

text \<open>
  The paged representation implements a flat memory filled with \<open>$FF\<close>: where no writable
  region is hit, a write updates exactly the masked address of the represented memory and
  allocates at most the page it falls in.
\<close>

theorem sparse_write_refines:
  assumes "\<And>r. findRegion b (a AND sb_addrMask b) = Some r \<Longrightarrow> \<not> sr_writable r"
  shows "let b' = final (sparse_write8 a v) b in
    sparse_ram b' = (sparse_ram b)(a AND sb_addrMask b := v) \<and>
    dom (sb_pages b') = insert (getPageAddr b (a AND sb_addrMask b)) (dom (sb_pages b))"
  using assms
  by (auto simp: sparse_write_ram sparse_write8_def sparse_store_at_def sparse_notify_def
      sparse_write_dom sparse_page_write_ram Let_def split: option.splits)

theorem sparse_write_refines_witness:
  "let b = sparse_new 28 (\<lambda>_ _. 0); b' = final (sparse_write8 0x8012345 7) b in
   sparse_ram b' 0x8012345 = 7 \<and> sparse_ram b' 0x8012346 = 0xFF \<and> dom (sb_pages b') = {0x8012}"
proof -
  let ?b = "sparse_new 28 (\<lambda>_ _. 0)"
  have m: "0x8012345 AND sb_addrMask ?b = 0x8012345" "getPageAddr ?b 0x8012345 = 0x8012"
    and n: "findRegion ?b 0x8012345 = None" and d: "dom (sb_pages ?b) = {}"
    and r: "sparse_ram ?b 0x8012346 = 0xFF"
    by (simp_all add: sparse_new_def getPageAddr_def findRegion_def sparse_ram_def)
  show ?thesis
    using sparse_write_refines [of ?b "0x8012345" 7, unfolded m n] d r by (simp add: Let_def)
qed

text \<open>
  Writes to a ROM region go to the RAM underneath: the region's byte is what is read until
  the region is removed, and then the written byte is read.
\<close>

theorem sparse_rom_write_through:
  assumes "findRegion b (a AND sb_addrMask b) = Some r" and "\<not> sr_writable r"
    and "findRegion (sparse_removeRomOverlay (sr_base r) b) (a AND sb_addrMask b) = None"
  shows "let b' = final (sparse_write8 a v) b in
    result (sparse_read8 a) b' = sb_store b (sr_data r) ((a AND sb_addrMask b) - sr_base r) \<and>
    result (sparse_read8 a) (sparse_removeRomOverlay (sr_base r) b') = v"
proof -
  let ?b' = "final (sparse_write8 a v) b"
  have s: "findRegion ?b' = findRegion b" "sb_addrMask ?b' = sb_addrMask b" "sb_regions ?b' = sb_regions b"
    using sparse_static_find [OF sparse_write_static] sparse_write_static [of a v b]
    unfolding sparse_static_def by auto
  have st: "sb_store ?b' = sb_store b"
    using assms by (simp add: sparse_write8_def sparse_notify_def sparse_store_at_def Let_def)
  have "findRegion (sparse_removeRomOverlay (sr_base r) ?b') (a AND sb_addrMask b) = None"
    using assms(3) s by (simp add: findRegion_def sparse_removeRomOverlay_def)
  then show ?thesis using assms s st
    by (simp add: Let_def sparse_read_eq sparse_peek_eq)
      (simp add: sparse_removeRomOverlay_def sparse_write_ram s)
qed

theorem sparse_rom_write_through_witness:
  "let b = sparse_addRomOverlay 0x8000 0x2000 0 (sparse_new 28 (\<lambda>_ _. 0xCA)); b' = final (sparse_write8 0x8001 7) b in
   result (sparse_read8 0x8001) b' = 0xCA \<and>
   result (sparse_read8 0x8001) (sparse_removeRomOverlay 0x8000 b') = 7"
proof -
  let ?b = "sparse_addRomOverlay 0x8000 0x2000 0 (sparse_new 28 (\<lambda>_ _. 0xCA))"
  let ?r = "\<lparr>sr_base = 0x8000, sr_size = 0x2000, sr_data = 0, sr_writable = False\<rparr>"
  have m: "0x8001 AND sb_addrMask ?b = 0x8001" and r: "findRegion ?b 0x8001 = Some ?r"
    and n: "findRegion (sparse_removeRomOverlay (sr_base ?r) ?b) 0x8001 = None"
    and st: "sb_store ?b 0 = (\<lambda>_. 0xCA)"
    by (simp_all add: sparse_addRomOverlay_def sparse_new_def findRegion_def sr_covers_def
        sparse_removeRomOverlay_def)
  show ?thesis
    using sparse_rom_write_through [of ?b "0x8001" ?r 7, unfolded m, OF r _ n] st by (simp add: Let_def)
qed

lemma length_u32_bytes [simp]: "length (u32_bytes v) = 4"
  by (simp add: u32_bytes_def)

lemma length_page_bytes [simp]: "length (page_bytes p) = PAGE_SIZE"
  by (simp add: page_bytes_def)

lemma bytes_u32_inverse: "bytes_u32 (u32_bytes v) = v"
proof (rule bit_word_eqI)
  fix n assume "n < LENGTH(32)"
  then have n: "n < 32" by simp
  have "bit (bytes_u32 (u32_bytes v)) n \<longleftrightarrow>
      bit v n \<and> (n < 8 \<or> (8 \<le> n \<and> n < 16) \<or> (16 \<le> n \<and> n < 24) \<or> (24 \<le> n \<and> n < 32))"
    using n by (auto simp: bytes_u32_def u32_bytes_def bit_simps)
  then show "bit (bytes_u32 (u32_bytes v)) n = bit v n" using n by auto
qed

lemma sparse_loadPages_pages:
  assumes "distinct order" and "\<forall>k \<in> set order. sb_pages b k = None"
  shows "sb_pages (sparse_loadPages (length order)
      (concat (map (\<lambda>k. u32_bytes k @ page_bytes (P k)) order)) b) k =
    (if k \<in> set order then Some (\<lambda>off. if unat off < PAGE_SIZE then P k off else 0xFF) else sb_pages b k)"
  using assms
proof (induction order arbitrary: b)
  case Nil
  then show ?case by simp
next
  case (Cons x xs)
  have body: "(\<lambda>off. if unat off < PAGE_SIZE then page_bytes (P x) ! unat off else 0xFF) =
      (\<lambda>off. if unat off < PAGE_SIZE then P x off else (0xFF :: u8))"
    by (auto simp: page_bytes_def)
  let ?b = "b\<lparr>sb_pages := (sb_pages b)(x := Some (\<lambda>off. if unat off < PAGE_SIZE then P x off else 0xFF))\<rparr>"
  have step: "sparse_loadPages (length (x # xs)) (concat (map (\<lambda>k. u32_bytes k @ page_bytes (P k)) (x # xs))) b =
      sparse_loadPages (length xs) (concat (map (\<lambda>k. u32_bytes k @ page_bytes (P k)) xs)) ?b"
    using Cons.prems by (simp add: allocatePage_def bytes_u32_inverse body Let_def)
  have "distinct xs" and fresh: "\<forall>k \<in> set xs. sb_pages ?b k = None" using Cons.prems by auto
  then show ?case unfolding step using Cons.IH [OF _ fresh] Cons.prems(1) by auto
qed

lemma sparse_loadPages_bits [simp]: "sb_pageBits (sparse_loadPages n buf b) = sb_pageBits b"
proof (induction n arbitrary: buf b)
  case (Suc n)
  have "sb_pageBits (snd (allocatePage p b)) = sb_pageBits b" for p
    by (simp add: allocatePage_def split: option.split)
  then show ?case by (simp add: Suc Let_def case_prod_beta)
qed simp

text \<open>
  \<open>loadState\<close> of a \<open>saveState\<close> buffer restores the represented memory byte for byte, into any
  bus and in whatever order the page map was enumerated; the buffer has the announced size.
\<close>

theorem sparse_save_load:
  assumes "distinct order" and "set order = dom (sb_pages b)" and "length order < 2 ^ 32"
    and "sb_pageBits b = 12" and "sb_pageBits c = 12"
  shows "sparse_ram (sparse_loadState (sparse_saveState order b) c) = sparse_ram b
    \<and> length (sparse_saveState order b) = sparse_stateSize order"
proof
  let ?l = "sparse_loadState (sparse_saveState order b) c"
  have n: "unat (bytes_u32 (take 4 (sparse_saveState order b))) = length order"
    using assms(3) by (simp add: sparse_saveState_def bytes_u32_inverse unat_of_nat take_bit_nat_eq_self)
  have d: "drop 4 (sparse_saveState order b) =
      concat (map (\<lambda>k. u32_bytes k @ page_bytes (the (sb_pages b k))) order)"
    by (simp add: sparse_saveState_def)
  have pages: "sb_pages ?l k = (if k \<in> set order
      then Some (\<lambda>off. if unat off < PAGE_SIZE then the (sb_pages b k) off else 0xFF) else None)" for k
    using sparse_loadPages_pages [OF assms(1), of "sparse_reset c" "\<lambda>k. the (sb_pages b k)" k]
    by (simp add: sparse_loadState_def n d sparse_reset_def)
  have bits: "sb_pageBits ?l = 12"
    using assms(5) by (simp add: sparse_loadState_def sparse_reset_def sparse_clearWriteLog_def)
  have off: "unat (x AND 0xFFF) < PAGE_SIZE" for x :: u32
    using unat_and_le [of x "0xFFF"] by (simp add: PAGE_SIZE_def)
  show "sparse_ram ?l = sparse_ram b"
    using assms(2,4) bits off
    by (auto simp: sparse_ram_def getPageAddr_def getPageOffset_def pages fun_eq_iff split: option.splits)
  show "length (sparse_saveState order b) = sparse_stateSize order"
    by (simp add: sparse_saveState_def sparse_stateSize_def length_concat comp_def sum_list_triv)
qed

theorem sparse_save_load_witness:
  "let b = final (sparse_write8 0x8012345 7) (sparse_new 28 (\<lambda>_ _. 0))
   in sparse_ram (sparse_loadState (sparse_saveState [0x8012] b) (sparse_new 28 (\<lambda>_ _. 0))) 0x8012345 = 7"
proof -
  let ?n = "sparse_new 28 (\<lambda>_ _. 0)"
  let ?b = "final (sparse_write8 0x8012345 7) ?n"
  have r: "findRegion ?n 0x8012345 = None" "sb_addrMask ?n = 0xFFFFFFF" "dom (sb_pages ?n) = {}"
    by (simp_all add: sparse_new_def findRegion_def)
  have d: "set [0x8012] = dom (sb_pages ?b)"
    using r by (simp add: sparse_write8_def sparse_store_at_def sparse_notify_def sparse_write_dom Let_def)
      (simp add: sparse_new_def getPageAddr_def)
  have m: "sparse_ram ?b 0x8012345 = 7" using r by (simp add: sparse_write_ram)
  have bits: "sb_pageBits ?n = 12" "sb_pageBits ?b = 12"
    using sparse_static_find [OF sparse_write_static, of "0x8012345" 7 ?n] by (simp_all add: sparse_new_def)
  show ?thesis
    using sparse_save_load [OF _ d _ bits(2,1)] m by (simp add: Let_def)
qed

end
