(* ===== verification/IoRegistry.thy ===== *)
theory IoRegistry
  imports FlatBus "HOL-Library.Multiset"
begin

text \<open>
  \<open>src/libdevices/main/io_registry.h\<close> and \<open>io_registry.cpp\<close>: the dispatcher that offers an
  I/O access to the registered devices in the order of their base addresses, ticks them on the
  CPU or the device clock, and tells the bus below which address no device lives.

  A handler is its virtual functions over the state \<open>'d\<close> of all devices, with the identity the
  code compares by pointer. \<open>std::sort\<close> is a parameter with its documented contract (the
  locale \<open>std_sort\<close>): a permutation, sorted by base address; it need not be stable.
\<close>

section \<open>Handlers\<close>

record 'd io_handler =
  ioh_id :: nat
  ioh_name :: string
  ioh_base :: u32
  ioh_read :: "u32 \<Rightarrow> ('d, u8 option) state"
  ioh_peek :: "u32 \<Rightarrow> ('d, u8 option) state"
  ioh_write :: "u32 \<Rightarrow> u8 \<Rightarrow> ('d, bool) state"
  ioh_reset :: "'d \<Rightarrow> 'd"
  ioh_tick :: "u64 \<Rightarrow> 'd \<Rightarrow> 'd"
  ioh_isHaltRequested :: "'d \<Rightarrow> bool"

record 'd io_registry =
  reg_handlers :: "'d io_handler list"
  reg_deviceClocked :: "nat list"
  reg_isDeviceClocked :: "bool list"
  reg_owned :: "nat list"

definition reg_new :: "'d io_registry" where
  "reg_new = \<lparr>reg_handlers = [], reg_deviceClocked = [], reg_isDeviceClocked = [], reg_owned = []\<rparr>"

section \<open>Operations\<close>

definition rebuildDeviceClockFlags :: "'d io_registry \<Rightarrow> 'd io_registry" where
  "rebuildDeviceClockFlags r = r\<lparr>reg_isDeviceClocked :=
     map (\<lambda>h. ioh_id h \<in> set (reg_deviceClocked r)) (reg_handlers r)\<rparr>"

definition registerHandler ::
  "('d io_handler list \<Rightarrow> 'd io_handler list) \<Rightarrow> 'd io_handler \<Rightarrow> 'd io_registry \<Rightarrow> 'd io_registry" where
  "registerHandler srt h r =
     rebuildDeviceClockFlags (r\<lparr>reg_handlers := srt (reg_handlers r @ [h])\<rparr>)"

definition registerOwnedHandler ::
  "('d io_handler list \<Rightarrow> 'd io_handler list) \<Rightarrow> 'd io_handler \<Rightarrow> 'd io_registry \<Rightarrow> 'd io_registry" where
  "registerOwnedHandler srt h r = registerHandler srt h (r\<lparr>reg_owned := reg_owned r @ [ioh_id h]\<rparr>)"

definition setDeviceClocked :: "nat \<Rightarrow> bool \<Rightarrow> 'd io_registry \<Rightarrow> 'd io_registry" where
  "setDeviceClocked h deviceClocked r =
     (let dc = reg_deviceClocked r; found = h \<in> set dc;
          dc1 = (if deviceClocked \<and> \<not> found then dc @ [h] else dc);
          dc2 = (if \<not> deviceClocked \<and> found then remove1 h dc1 else dc1)
      in rebuildDeviceClockFlags (r\<lparr>reg_deviceClocked := dc2\<rparr>))"

fun dispatchRead :: "'d io_handler list \<Rightarrow> u32 \<Rightarrow> ('d, u8 option) state" where
  "dispatchRead [] addr = State_Monad.return None"
| "dispatchRead (h # hs) addr = do {
     r \<leftarrow> ioh_read h addr;
     (case r of Some v \<Rightarrow> State_Monad.return (Some v) | None \<Rightarrow> dispatchRead hs addr) }"

fun dispatchPeek :: "'d io_handler list \<Rightarrow> u32 \<Rightarrow> ('d, u8 option) state" where
  "dispatchPeek [] addr = State_Monad.return None"
| "dispatchPeek (h # hs) addr = do {
     r \<leftarrow> ioh_peek h addr;
     (case r of Some v \<Rightarrow> State_Monad.return (Some v) | None \<Rightarrow> dispatchPeek hs addr) }"

fun dispatchWrite :: "'d io_handler list \<Rightarrow> u32 \<Rightarrow> u8 \<Rightarrow> ('d, bool) state" where
  "dispatchWrite [] addr val = State_Monad.return False"
| "dispatchWrite (h # hs) addr val = do {
     r \<leftarrow> ioh_write h addr val;
     (if r then State_Monad.return True else dispatchWrite hs addr val) }"

definition tickAll :: "'d io_registry \<Rightarrow> u64 \<Rightarrow> 'd \<Rightarrow> 'd" where
  "tickAll r cycles = fold (\<lambda>h. ioh_tick h cycles) (reg_handlers r)"

definition tickAll2 :: "'d io_registry \<Rightarrow> u64 \<Rightarrow> u64 \<Rightarrow> 'd \<Rightarrow> 'd" where
  "tickAll2 r cpuCycles deviceCycles = fold (\<lambda>i d.
     if reg_isDeviceClocked r ! i
     then (if deviceCycles \<noteq> 0 then ioh_tick (reg_handlers r ! i) deviceCycles d else d)
     else ioh_tick (reg_handlers r ! i) cpuCycles d) [0..<length (reg_handlers r)]"

definition resetAll :: "'d io_registry \<Rightarrow> 'd \<Rightarrow> 'd" where
  "resetAll r = fold ioh_reset (reg_handlers r)"

definition enumerate_handlers :: "'d io_registry \<Rightarrow> 'd io_handler list \<Rightarrow> 'd io_handler list" where
  "enumerate_handlers r xs = xs @ reg_handlers r"

definition findHandler :: "'d io_registry \<Rightarrow> string \<Rightarrow> 'd io_handler option" where
  "findHandler r n = find (\<lambda>h. n = ioh_name h) (reg_handlers r)"

definition reg_clear :: "'d io_registry \<Rightarrow> 'd io_registry" where
  "reg_clear r = r\<lparr>reg_handlers := [], reg_isDeviceClocked := []\<rparr>"

fun lowestHandlerBase :: "'d io_handler list \<Rightarrow> u32" where
  "lowestHandlerBase [] = 0xFFFFFFFF"
| "lowestHandlerBase (h # hs) = (if ioh_base h > 0 then ioh_base h else lowestHandlerBase hs)"

section \<open>The contract of \<open>std::sort\<close>\<close>

locale std_sort =
  fixes srt :: "'a list \<Rightarrow> 'a list" and key :: "'a \<Rightarrow> 'k::linorder"
  assumes srt_mset: "mset (srt xs) = mset xs"
    and srt_sorted: "sorted (map key (srt xs))"
begin

lemma srt_set: "set (srt xs) = set xs"
  using srt_mset [of xs] by (metis set_mset_mset)

lemma srt_length: "length (srt xs) = length xs"
  using srt_mset [of xs] by (metis size_mset)

end

interpretation base_sort: std_sort "sort_key ioh_base" ioh_base
  by unfold_locales simp_all

section \<open>Registry invariant\<close>

definition reg_inv :: "'d io_registry \<Rightarrow> bool" where
  "reg_inv r \<longleftrightarrow> sorted (map ioh_base (reg_handlers r)) \<and>
     reg_isDeviceClocked r = map (\<lambda>h. ioh_id h \<in> set (reg_deviceClocked r)) (reg_handlers r) \<and>
     distinct (reg_deviceClocked r)"

lemma reg_inv_new: "reg_inv reg_new"
  by (simp add: reg_inv_def reg_new_def)

lemma reg_inv_rebuild:
  "sorted (map ioh_base (reg_handlers r)) \<Longrightarrow> distinct (reg_deviceClocked r) \<Longrightarrow>
   reg_inv (rebuildDeviceClockFlags r)"
  by (simp add: reg_inv_def rebuildDeviceClockFlags_def)

lemma reg_inv_register:
  "std_sort srt ioh_base \<Longrightarrow> reg_inv r \<Longrightarrow> reg_inv (registerHandler srt h r)"
  unfolding registerHandler_def
  by (rule reg_inv_rebuild) (auto simp: reg_inv_def std_sort.srt_sorted)

lemma reg_inv_registerOwned:
  assumes "std_sort srt ioh_base" and "reg_inv r"
  shows "reg_inv (registerOwnedHandler srt h r)"
proof -
  have "reg_inv (r\<lparr>reg_owned := reg_owned r @ [ioh_id h]\<rparr>)" using assms(2) by (simp add: reg_inv_def)
  then show ?thesis unfolding registerOwnedHandler_def using assms(1) by (rule reg_inv_register [rotated])
qed

lemma reg_inv_setClocked: "reg_inv r \<Longrightarrow> reg_inv (setDeviceClocked h c r)"
  unfolding setDeviceClocked_def Let_def
  by (rule reg_inv_rebuild) (auto simp: reg_inv_def)

lemma reg_inv_clear: "reg_inv r \<Longrightarrow> reg_inv (reg_clear r)"
  by (simp add: reg_inv_def reg_clear_def)

lemma setClocked_set: "reg_inv r \<Longrightarrow> set (reg_deviceClocked (setDeviceClocked h c r)) =
    (if c then insert h (set (reg_deviceClocked r)) else set (reg_deviceClocked r) - {h})"
  by (auto simp: setDeviceClocked_def rebuildDeviceClockFlags_def Let_def reg_inv_def)

lemma lowest_le:
  "sorted (map ioh_base hs) \<Longrightarrow> h \<in> set hs \<Longrightarrow> ioh_base h > 0 \<Longrightarrow> lowestHandlerBase hs \<le> ioh_base h"
  by (induction hs) auto

section \<open>Dispatch\<close>

definition declines :: "'d io_handler \<Rightarrow> u32 \<Rightarrow> 'd \<Rightarrow> bool" where
  "declines h a d \<longleftrightarrow> run_state (ioh_read h a) d = (None, d) \<and> run_state (ioh_peek h a) d = (None, d) \<and>
     (\<forall>v. run_state (ioh_write h a v) d = (False, d))"

lemma dispatch_declines:
  assumes "\<And>h. h \<in> set hs \<Longrightarrow> declines h a d"
  shows "run_state (dispatchRead hs a) d = (None, d)"
    and "run_state (dispatchPeek hs a) d = (None, d)"
    and "run_state (dispatchWrite hs a v) d = (False, d)"
  using assms by (induction hs) (simp_all add: declines_def)

lemma dispatch_skip:
  assumes "\<And>h. h \<in> set pre \<Longrightarrow> declines h a d"
  shows "run_state (dispatchRead (pre @ hs) a) d = run_state (dispatchRead hs a) d"
    and "run_state (dispatchPeek (pre @ hs) a) d = run_state (dispatchPeek hs a) d"
    and "run_state (dispatchWrite (pre @ hs) a v) d = run_state (dispatchWrite hs a v) d"
  using assms by (induction pre) (simp_all add: declines_def)

section \<open>The registry on a bus\<close>

text \<open>
  What \<open>json_machine_loader.cpp\<close> installs on a \<open>FlatMemoryBus\<close>: the registry's dispatchers,
  with the mirror ranges of the machine in front of them, a halt check over all handlers, and
  the lowest base as the bound of the bus's fast path.
\<close>

record 'd io_mirror =
  mr_from :: u32
  mr_to :: u32
  mr_targetBase :: u32
  mr_target :: "'d io_handler"

definition find_mirror :: "'d io_mirror list \<Rightarrow> u32 \<Rightarrow> 'd io_mirror option" where
  "find_mirror mirrors a = find (\<lambda>mr. mr_from mr \<le> a \<and> a \<le> mr_to mr) mirrors"

definition haltRequested :: "'d io_registry \<Rightarrow> ('d, bool) state" where
  "haltRequested r = gets (\<lambda>d. list_ex (\<lambda>h. ioh_isHaltRequested h d) (enumerate_handlers r []))"

definition install_registry :: "'d io_registry \<Rightarrow> 'd io_mirror list \<Rightarrow> 'd flat_bus \<Rightarrow> 'd flat_bus" where
  "install_registry r mirrors b =
     (flat_setIoHooks
        (Some (\<lambda>a. case find_mirror mirrors a of
            Some mr \<Rightarrow> ioh_read (mr_target mr) (mr_targetBase mr + (a - mr_from mr))
          | None \<Rightarrow> dispatchRead (reg_handlers r) a))
        (Some (\<lambda>a v. case find_mirror mirrors a of
            Some mr \<Rightarrow> ioh_write (mr_target mr) (mr_targetBase mr + (a - mr_from mr)) v
          | None \<Rightarrow> dispatchWrite (reg_handlers r) a v))
        (Some (\<lambda>a. case find_mirror mirrors a of
            Some mr \<Rightarrow> ioh_peek (mr_target mr) (mr_targetBase mr + (a - mr_from mr))
          | None \<Rightarrow> dispatchPeek (reg_handlers r) a)) b)
     \<lparr>fb_haltCheck := Some (haltRequested r), fb_ioLowBase := lowestHandlerBase (reg_handlers r)\<rparr>"

text \<open>Each handler keeps to addresses from its base up; one with base 0 keeps above the lowest.\<close>

definition minds_base :: "'d io_registry \<Rightarrow> bool" where
  "minds_base r \<longleftrightarrow> (\<forall>h \<in> set (reg_handlers r). \<forall>a d.
     a < (if ioh_base h = 0 then lowestHandlerBase (reg_handlers r) else ioh_base h) \<longrightarrow> declines h a d)"

lemma below_lowest_declines:
  assumes "reg_inv r" and "minds_base r" and "a < lowestHandlerBase (reg_handlers r)"
    and "h \<in> set (reg_handlers r)"
  shows "declines h a d"
proof -
  have "a < (if ioh_base h = 0 then lowestHandlerBase (reg_handlers r) else ioh_base h)"
    using assms lowest_le [of "reg_handlers r" h]
    by (auto simp: reg_inv_def word_gt_0 intro: less_le_trans)
  then show ?thesis using assms by (auto simp: minds_base_def)
qed

section \<open>Correctness\<close>

text \<open>
  C20: every operation of the registry keeps its invariant (handlers sorted by base address, the
  device-clock flags parallel to the handlers, no handler listed twice), for any sort that
  keeps \<open>std::sort\<close>'s contract, and registering adds exactly the new handler.
\<close>

theorem registry_invariant:
  assumes "std_sort srt ioh_base" and "reg_inv r"
  shows "reg_inv (registerHandler srt h r) \<and> reg_inv (registerOwnedHandler srt h r)
    \<and> reg_inv (setDeviceClocked i c r) \<and> reg_inv (reg_clear r)
    \<and> mset (reg_handlers (registerHandler srt h r)) = add_mset h (mset (reg_handlers r))"
proof -
  have "mset (reg_handlers (registerHandler srt h r)) = add_mset h (mset (reg_handlers r))"
    using assms(1) by (simp add: registerHandler_def rebuildDeviceClockFlags_def std_sort.srt_mset)
  then show ?thesis
    using assms by (simp add: reg_inv_register reg_inv_registerOwned reg_inv_setClocked reg_inv_clear)
qed

definition demo_handler :: "nat \<Rightarrow> u32 \<Rightarrow> u8 io_handler" where
  "demo_handler i base = \<lparr>ioh_id = i, ioh_name = ''dev'', ioh_base = base,
     ioh_read = (\<lambda>a. if base \<le> a \<and> a < base + 16 then gets Some else State_Monad.return None),
     ioh_peek = (\<lambda>a. if base \<le> a \<and> a < base + 16 then gets Some else State_Monad.return None),
     ioh_write = (\<lambda>a v. if base \<le> a \<and> a < base + 16
       then do { State_Monad.set v; State_Monad.return True } else State_Monad.return False),
     ioh_reset = (\<lambda>d. 0), ioh_tick = (\<lambda>n d. d + ucast n), ioh_isHaltRequested = (\<lambda>d. False)\<rparr>"

theorem registry_invariant_witness:
  "let r = registerHandler (sort_key ioh_base) (demo_handler 1 0xD000)
         (registerHandler (sort_key ioh_base) (demo_handler 2 0xD400) reg_new)
   in reg_inv r \<and> map ioh_id (reg_handlers r) = [1, 2]"
proof -
  let ?s = "sort_key ioh_base" and ?r1 = "registerHandler (sort_key ioh_base) (demo_handler 2 0xD400) reg_new"
  note s = base_sort.std_sort_axioms
  have "reg_inv ?r1" using registry_invariant [OF s reg_inv_new] by blast
  from registry_invariant [OF s this] have "reg_inv (registerHandler ?s (demo_handler 1 0xD000) ?r1)" by blast
  then show ?thesis
    by (simp add: Let_def registerHandler_def rebuildDeviceClockFlags_def reg_new_def demo_handler_def)
qed

lemma fold_index: "fold (\<lambda>i. f (xs ! i)) [0..<length xs] d = fold f xs d"
proof -
  have "fold f xs d = fold f (map ((!) xs) [0..<length xs]) d" by (simp add: map_nth)
  then show ?thesis by (simp add: fold_map comp_def)
qed

text \<open>
  A two-clock tick advances every device-clocked handler by the device cycles (and leaves it
  alone when there are none) and every other handler by the CPU cycles, in registry order;
  with no device-clocked handler it is the one-clock tick.
\<close>

theorem registry_two_clocks:
  assumes "reg_inv r"
  shows "tickAll2 r m n d = fold (\<lambda>h.
      if ioh_id h \<in> set (reg_deviceClocked r) then (if n \<noteq> 0 then ioh_tick h n else id)
      else ioh_tick h m) (reg_handlers r) d \<and>
    (reg_deviceClocked r = [] \<longrightarrow> tickAll2 r m n d = tickAll r m d)"
proof -
  let ?f = "\<lambda>h. if ioh_id h \<in> set (reg_deviceClocked r) then (if n \<noteq> 0 then ioh_tick h n else id)
      else ioh_tick h m"
  have "tickAll2 r m n d = fold (\<lambda>i. ?f (reg_handlers r ! i)) [0..<length (reg_handlers r)] d"
    unfolding tickAll2_def using assms by (intro fold_cong refl ext) (auto simp: reg_inv_def)
  also have "\<dots> = fold ?f (reg_handlers r) d" by (rule fold_index)
  finally show ?thesis by (simp add: tickAll_def)
qed

theorem registry_two_clocks_witness:
  "let r = setDeviceClocked 1 True (registerHandler (sort_key ioh_base) (demo_handler 1 0xD000) reg_new)
   in tickAll2 r 40 1 5 = 6 \<and> tickAll2 r 40 0 5 = 5"
proof -
  let ?r = "setDeviceClocked 1 True (registerHandler (sort_key ioh_base) (demo_handler 1 0xD000) reg_new)"
  have i: "reg_inv ?r"
    by (intro reg_inv_setClocked reg_inv_register base_sort.std_sort_axioms reg_inv_new)
  have h: "reg_handlers ?r = [demo_handler 1 0xD000]" "1 \<in> set (reg_deviceClocked ?r)"
    by (simp_all add: setDeviceClocked_def registerHandler_def rebuildDeviceClockFlags_def reg_new_def Let_def)
  show ?thesis
    using registry_two_clocks [OF i, of 40 1 5] registry_two_clocks [OF i, of 40 0 5] h
    by (simp add: Let_def demo_handler_def)
qed

text \<open>
  An access goes to the first handler of the registry's order that claims it: if every
  handler before \<open>h\<close> declines, and \<open>h\<close> claims the access, the answer and the devices' new state
  are those of \<open>h\<close> alone, and no later handler sees it.
\<close>

theorem dispatch_first_match:
  assumes "\<forall>g \<in> set pre. declines g a d"
    and "result (ioh_read h a) d \<noteq> None" and "result (ioh_write h a v) d"
  shows "run_state (dispatchRead (pre @ h # post) a) d = run_state (ioh_read h a) d \<and>
    run_state (dispatchWrite (pre @ h # post) a v) d = run_state (ioh_write h a v) d"
  using assms by (auto simp: dispatch_skip case_prod_beta prod_eq_iff)

theorem dispatch_first_match_witness:
  "let hs = [demo_handler 1 0xD000] @ demo_handler 2 0xD400 # [demo_handler 3 0xD400]
   in result (dispatchRead hs 0xD401) 7 = Some 7 \<and> final (dispatchWrite hs 0xD401 9) 7 = 9"
proof -
  have "\<forall>g \<in> set [demo_handler 1 0xD000]. declines g 0xD401 7"
    by (simp add: declines_def demo_handler_def)
  from dispatch_first_match [OF this, of "demo_handler 2 0xD400" 9 "[demo_handler 3 0xD400]"]
  show ?thesis by (simp add: Let_def demo_handler_def)
qed

definition with_low :: "u32 \<Rightarrow> 'd flat_bus \<Rightarrow> 'd flat_bus" where
  "with_low l b = b\<lparr>fb_ioLowBase := l\<rparr>"

lemma with_low_simps [simp]:
  "fb_addrMask (with_low l b) = fb_addrMask b" "fb_ioLowBase (with_low l b) = l"
  "fb_ioRead (with_low l b) = fb_ioRead b" "fb_ioWrite (with_low l b) = fb_ioWrite b"
  "fb_ioPeek (with_low l b) = fb_ioPeek b" "fb_devices (with_low l b) = fb_devices b"
  "fb_observer (with_low l b) = fb_observer b" "fb_writeLog (with_low l b) = fb_writeLog b"
  "fb_data (with_low l b) = fb_data b"
  "findOverlay (with_low l b) = findOverlay b" "flat_stored (with_low l b) = flat_stored b"
  "with_low l (b\<lparr>fb_observer := x\<rparr>) = (with_low l b)\<lparr>fb_observer := x\<rparr>"
  "with_low l (b\<lparr>fb_data := y\<rparr>) = (with_low l b)\<lparr>fb_data := y\<rparr>"
  "with_low l (b\<lparr>fb_writeLog := z\<rparr>) = (with_low l b)\<lparr>fb_writeLog := z\<rparr>"
  "with_low l (b\<lparr>fb_devices := w\<rparr>) = (with_low l b)\<lparr>fb_devices := w\<rparr>"
  "(with_low l b)\<lparr>fb_devices := fb_devices b\<rparr> = with_low l b"
  by (simp_all add: with_low_def findOverlay_def flat_stored_def fun_eq_iff split: option.split)

text \<open>
  The bus's fast path below \<open>lowestHandlerBase\<close> is transparent: a read or a write gives the
  same byte, the same memory and the same device state as if every access were offered to
  the registry, provided each handler keeps to the addresses from its base up and no mirror
  range starts below the lowest base.
\<close>

theorem registry_fast_path:
  fixes b :: "'d flat_bus"
  assumes "reg_inv r" and "minds_base r"
    and "\<forall>mr \<in> set mirrors. lowestHandlerBase (reg_handlers r) \<le> mr_from mr"
  defines "b1 \<equiv> install_registry r mirrors b"
  shows "result (flat_read8 a) b1 = result (flat_read8 a) (with_low 0 b1) \<and>
    with_low 0 (final (flat_read8 a) b1) = final (flat_read8 a) (with_low 0 b1) \<and>
    with_low 0 (final (flat_write8 a v) b1) = final (flat_write8 a v) (with_low 0 b1)"
proof (cases "a AND fb_addrMask b1 < fb_ioLowBase b1")
  case True
  let ?a = "a AND fb_addrMask b1"
  have low: "?a < lowestHandlerBase (reg_handlers r)" using True by (simp add: b1_def install_registry_def)
  then have m: "find_mirror mirrors ?a = None"
    using assms(3) by (auto simp: find_mirror_def find_None_iff)
  have d: "declines h ?a (fb_devices b1)" if "h \<in> set (reg_handlers r)" for h
    using below_lowest_declines [OF assms(1,2) low that] .
  obtain rd wr pk where h: "fb_ioRead b1 = Some rd" "fb_ioWrite b1 = Some wr" "fb_ioPeek b1 = Some pk"
    and r: "run_state (rd ?a) (fb_devices b1) = (None, fb_devices b1)"
      "run_state (pk ?a) (fb_devices b1) = (None, fb_devices b1)"
      "run_state (wr ?a v) (fb_devices b1) = (False, fb_devices b1)"
  proof
    show "fb_ioRead b1 = Some (\<lambda>a. case find_mirror mirrors a of
            Some mr \<Rightarrow> ioh_read (mr_target mr) (mr_targetBase mr + (a - mr_from mr))
          | None \<Rightarrow> dispatchRead (reg_handlers r) a)"
      "fb_ioWrite b1 = Some (\<lambda>a v. case find_mirror mirrors a of
            Some mr \<Rightarrow> ioh_write (mr_target mr) (mr_targetBase mr + (a - mr_from mr)) v
          | None \<Rightarrow> dispatchWrite (reg_handlers r) a v)"
      "fb_ioPeek b1 = Some (\<lambda>a. case find_mirror mirrors a of
            Some mr \<Rightarrow> ioh_peek (mr_target mr) (mr_targetBase mr + (a - mr_from mr))
          | None \<Rightarrow> dispatchPeek (reg_handlers r) a)"
      by (simp_all add: b1_def install_registry_def flat_setIoHooks_def)
  qed (simp_all add: m dispatch_declines d)
  note f = True h r
  show ?thesis
    by (simp add: f reg_ops Let_def case_prod_beta and.assoc split: option.split)
next
  case False
  have [simp]: "findOverlay (x\<lparr>fb_devices := y\<rparr>) = findOverlay x"
    "flat_stored (x\<lparr>fb_devices := y\<rparr>) = flat_stored x" for x :: "'a flat_bus" and y
    by (simp_all add: findOverlay_def flat_stored_def fun_eq_iff split: option.split)
  show ?thesis using False
    by (simp add: reg_ops Let_def case_prod_beta split: option.split)
qed

theorem registry_fast_path_witness:
  "let r = registerHandler (sort_key ioh_base) (demo_handler 1 0xD000) reg_new;
       b1 = install_registry r [] (flat_new 16 7)
   in fb_ioLowBase b1 = 0xD000 \<and> fb_data (final (flat_write8 0x400 5) b1) 0x400 = 5 \<and>
      with_low 0 (final (flat_write8 0x400 5) b1) = final (flat_write8 0x400 5) (with_low 0 b1)"
proof -
  let ?r = "registerHandler (sort_key ioh_base) (demo_handler 1 0xD000) reg_new"
  let ?b = "install_registry ?r [] (flat_new 16 7)"
  have i: "reg_inv ?r" by (intro reg_inv_register base_sort.std_sort_axioms reg_inv_new)
  have h: "reg_handlers ?r = [demo_handler 1 0xD000]"
    by (simp add: registerHandler_def rebuildDeviceClockFlags_def reg_new_def)
  have m: "minds_base ?r" unfolding minds_base_def h by (auto simp: demo_handler_def declines_def)
  have "lowestHandlerBase (reg_handlers ?r) = 0xD000" unfolding h by (simp add: demo_handler_def)
  then have l: "fb_ioLowBase ?b = 0xD000" "fb_addrMask ?b = 0xFFFF"
    by (simp_all only: install_registry_def flat_setIoHooks_def flat_new_def) simp_all
  have "findOverlay ?b 0x400 = None"
    by (simp add: findOverlay_def install_registry_def flat_setIoHooks_def flat_new_def)
  then have "fb_data (final (flat_write8 0x400 5) ?b) 0x400 = 5"
    using l by (simp add: flat_write_plain flat_plain_def)
  then show ?thesis
    using registry_fast_path [OF i m, of "[]" "0x400" "flat_new 16 7" 5] l by (simp add: Let_def)
qed

end
