(* ===== verification/Signals.thy ===== *)
theory Signals
  imports IoRegistry
begin

text \<open>
  Interrupt lines and small devices (\<open>src/libdevices/main\<close>): the shared wired-OR lines of
  \<open>shared_irq_manager.h\<close>, \<open>simple_signal_line.h\<close> and \<open>shared_signal_line.h\<close>, the port
  devices \<open>joystick.h\<close>, \<open>combined_port_device.h\<close>, and the handlers \<open>open_bus_handler.h\<close> and
  \<open>color_ram_handler.h\<close>.
\<close>

section \<open>The processor's interrupt pins\<close>

text \<open>
  What an interrupt manager relies on: \<open>ICore::setIrqLine\<close> sets the level the processor sees
  (\<open>pin\<close>). A \<open>triggerIrq\<close> pulse is the processor's own business.
\<close>

locale irq_pin =
  fixes setLine :: "bool \<Rightarrow> 'c \<Rightarrow> 'c" and pin :: "'c \<Rightarrow> bool"
  assumes pin_set: "pin (setLine v c) = v"

record 'c irq_manager =
  im_cpu :: 'c
  im_state :: u32
  im_levels :: "bool list"

definition irq_manager_new :: "'c \<Rightarrow> 'c irq_manager" where
  "irq_manager_new cpu = \<lparr>im_cpu = cpu, im_state = 0, im_levels = []\<rparr>"

text \<open>The line created as number \<open>i\<close> has the bit \<open>1u << i\<close>.\<close>

definition createLine :: "'c irq_manager \<Rightarrow> nat \<times> 'c irq_manager" where
  "createLine m = (length (im_levels m), m\<lparr>im_levels := im_levels m @ [False]\<rparr>)"

definition line_get :: "'c irq_manager \<Rightarrow> nat \<Rightarrow> bool" where
  "line_get m i = im_levels m ! i"

definition line_set :: "(bool \<Rightarrow> 'c \<Rightarrow> 'c) \<Rightarrow> nat \<Rightarrow> bool \<Rightarrow> 'c irq_manager \<Rightarrow> 'c irq_manager" where
  "line_set setLine i level m =
     (let bit = push_bit i 1;
          wasActive = im_state m \<noteq> 0;
          st = (if level then im_state m OR bit else im_state m AND NOT bit);
          isActive = st \<noteq> 0
      in m\<lparr>im_levels := (im_levels m)[i := level], im_state := st,
           im_cpu := (if wasActive \<noteq> isActive then setLine isActive (im_cpu m) else im_cpu m)\<rparr>)"

definition line_pulse :: "('c \<Rightarrow> 'c) \<Rightarrow> 'c irq_manager \<Rightarrow> 'c irq_manager" where
  "line_pulse trigger m = m\<lparr>im_cpu := trigger (im_cpu m)\<rparr>"

text \<open>
  The invariant of at most 32 lines: bit \<open>i\<close> of the state is line \<open>i\<close>'s level, and the
  processor's pin is high exactly when some line is.
\<close>

definition irq_inv :: "('c \<Rightarrow> bool) \<Rightarrow> 'c irq_manager \<Rightarrow> bool" where
  "irq_inv pin m \<longleftrightarrow> length (im_levels m) \<le> 32 \<and>
     (\<forall>i < 32. bit (im_state m) i = (i < length (im_levels m) \<and> im_levels m ! i)) \<and>
     pin (im_cpu m) = list_ex id (im_levels m)"

lemma irq_state_active:
  assumes "length ls \<le> 32"
    and "\<And>i. i < 32 \<Longrightarrow> bit (st :: u32) i = (i < length ls \<and> ls ! i)"
  shows "st \<noteq> 0 \<longleftrightarrow> list_ex id ls"
proof -
  have "st = 0 \<longleftrightarrow> (\<forall>i < 32. \<not> bit st i)"
    by (auto intro: bit_word_eqI)
  then show ?thesis using assms by (auto simp: list_ex_length)
qed

context irq_pin
begin

lemma irq_inv_new: "\<not> pin c \<Longrightarrow> irq_inv pin (irq_manager_new c)"
  by (simp add: irq_inv_def irq_manager_new_def)

lemma irq_inv_create:
  "irq_inv pin m \<Longrightarrow> length (im_levels m) < 32 \<Longrightarrow> irq_inv pin (snd (createLine m))"
  by (auto simp: irq_inv_def createLine_def nth_append less_Suc_eq)

lemma irq_inv_set:
  assumes inv: "irq_inv pin m" and i: "i < length (im_levels m)"
  shows "irq_inv pin (line_set setLine i v m)"
proof -
  let ?st = "if v then im_state m OR push_bit i 1 else im_state m AND NOT (push_bit i 1)"
  let ?ls = "(im_levels m)[i := v]"
  have b: "bit ?st j = (j < length ?ls \<and> ?ls ! j)" if "j < 32" for j
    using inv i that by (auto simp: irq_inv_def bit_simps nth_list_update)
  have a: "?st \<noteq> 0 \<longleftrightarrow> list_ex id ?ls"
    by (rule irq_state_active) (use inv b in \<open>auto simp: irq_inv_def\<close>)
  have "im_state m \<noteq> 0 \<longleftrightarrow> list_ex id (im_levels m)"
    by (rule irq_state_active) (use inv in \<open>auto simp: irq_inv_def\<close>)
  then have p: "pin (im_cpu (line_set setLine i v m)) = list_ex id ?ls"
    using inv a by (cases v) (auto simp: irq_inv_def line_set_def Let_def pin_set)
  have st: "im_state (line_set setLine i v m) = ?st" and ls: "im_levels (line_set setLine i v m) = ?ls"
    by (simp_all add: line_set_def Let_def)
  have "length ?ls \<le> 32" using inv by (simp add: irq_inv_def)
  then show ?thesis unfolding irq_inv_def st ls using b p by blast
qed

lemma irq_inv_sets:
  assumes "irq_inv pin m" and "\<forall>(i, v) \<in> set es. i < length (im_levels m)"
  shows "irq_inv pin (fold (\<lambda>(i, v). line_set setLine i v) es m)"
  using assms
proof (induction es arbitrary: m)
  case (Cons e es)
  obtain i v where e: "e = (i, v)" by (cases e)
  have "length (im_levels (line_set setLine i v m)) = length (im_levels m)"
    by (simp add: line_set_def Let_def)
  then show ?case using Cons e irq_inv_set by (auto simp: case_prod_beta)
qed simp

end

section \<open>Latching lines\<close>

text \<open>\<open>SimpleSignalLine\<close> and \<open>SharedSignalLine\<close> are their level.\<close>

definition simple_line_new :: bool where
  "simple_line_new = True"

definition simple_line_set :: "bool \<Rightarrow> bool \<Rightarrow> bool" where
  "simple_line_set level m = level"

definition simple_line_pulse :: "bool \<Rightarrow> bool" where
  "simple_line_pulse m = simple_line_set True (simple_line_set False m)"

definition shared_line_new :: bool where
  "shared_line_new = False"

definition shared_line_set :: "bool \<Rightarrow> bool \<Rightarrow> bool" where
  "shared_line_set level m = level"

definition shared_line_pulse :: "bool \<Rightarrow> bool" where
  "shared_line_pulse m = (let m1 = True in False)"

section \<open>Port devices\<close>

text \<open>An \<open>IPortDevice\<close> is its virtual functions over a peripheral state.\<close>

record 'e port_device =
  pd_readPort :: "('e, u8) state"
  pd_peekPort :: "('e, u8) state"
  pd_writePort :: "u8 \<Rightarrow> 'e \<Rightarrow> 'e"
  pd_setDdr :: "u8 \<Rightarrow> 'e \<Rightarrow> 'e"

record joystick =
  joy_state :: u8
  joy_ddr :: u8

definition joystick_new :: joystick where
  "joystick_new = \<lparr>joy_state = 0x1F, joy_ddr = 0\<rparr>"

definition joystick_readPort :: "joystick \<Rightarrow> u8" where
  "joystick_readPort j = (joy_state j AND 0x1F) OR 0xE0"

definition joystick_setDdr :: "u8 \<Rightarrow> joystick \<Rightarrow> joystick" where
  "joystick_setDdr ddr j = j\<lparr>joy_ddr := ddr\<rparr>"

definition joystick_setState :: "u8 \<Rightarrow> joystick \<Rightarrow> joystick" where
  "joystick_setState bits j = j\<lparr>joy_state := bits AND 0x1F\<rparr>"

definition joystick_port :: "joystick port_device" where
  "joystick_port = \<lparr>pd_readPort = gets joystick_readPort, pd_peekPort = gets joystick_readPort,
     pd_writePort = (\<lambda>_ j. j), pd_setDdr = joystick_setDdr\<rparr>"

text \<open>\<open>JoystickPins\<close>: switch \<open>i\<close> pulls the port bit \<open>bitFor ! i\<close> low.\<close>

definition joystickPins_readPort :: "int list \<Rightarrow> joystick \<Rightarrow> u8" where
  "joystickPins_readPort bitFor j = fold (\<lambda>i v.
     if bitFor ! i \<ge> 0 \<and> \<not> tst (joy_state j) (push_bit i 1)
     then v AND NOT (push_bit (nat (bitFor ! i)) 1) else v) [0..<5] 0xFF"

text \<open>\<open>CombinedPortDevice\<close>: active-low lines wired together.\<close>

fun combined_readPort :: "'e port_device list \<Rightarrow> u8 \<Rightarrow> ('e, u8) state" where
  "combined_readPort [] r = State_Monad.return r"
| "combined_readPort (d # ds) r = do { v \<leftarrow> pd_readPort d; combined_readPort ds (r AND v) }"

definition combined_port :: "'e port_device list \<Rightarrow> 'e port_device" where
  "combined_port ds = \<lparr>pd_readPort = combined_readPort ds 0xFF, pd_peekPort = combined_readPort ds 0xFF,
     pd_writePort = (\<lambda>v e. fold (\<lambda>d. pd_writePort d v) ds e),
     pd_setDdr = (\<lambda>v e. fold (\<lambda>d. pd_setDdr d v) ds e)\<rparr>"

section \<open>Small handlers\<close>

definition in_window :: "u32 \<Rightarrow> u32 \<Rightarrow> u32 \<Rightarrow> bool" where
  "in_window base sz addr \<longleftrightarrow> \<not> (addr < base \<or> base + sz \<le> addr)"

definition openBus_handler :: "nat \<Rightarrow> string \<Rightarrow> u32 \<Rightarrow> u32 \<Rightarrow> 'd io_handler" where
  "openBus_handler i n base sz = \<lparr>ioh_id = i, ioh_name = n, ioh_base = base,
     ioh_read = (\<lambda>a. State_Monad.return (if in_window base sz a then Some 0xFF else None)),
     ioh_peek = (\<lambda>a. State_Monad.return (if in_window base sz a then Some 0xFF else None)),
     ioh_write = (\<lambda>a v. State_Monad.return (in_window base sz a)),
     ioh_reset = id, ioh_tick = (\<lambda>_. id), ioh_isHaltRequested = (\<lambda>_. False)\<rparr>"

text \<open>The colour RAM works on the shared nibble array \<open>m_ram\<close>.\<close>

definition colorRam_read :: "u32 \<Rightarrow> u32 \<Rightarrow> u32 \<Rightarrow> (u32 \<Rightarrow> u8, u8 option) state" where
  "colorRam_read base sz addr =
     gets (\<lambda>ram. if in_window base sz addr then Some (ram (addr - base) OR 0xF0) else None)"

definition colorRam_write :: "u32 \<Rightarrow> u32 \<Rightarrow> u32 \<Rightarrow> u8 \<Rightarrow> (u32 \<Rightarrow> u8, bool) state" where
  "colorRam_write base sz addr val =
     (if in_window base sz addr
      then do { modify (\<lambda>ram. ram(addr - base := val AND 0x0F)); State_Monad.return True }
      else State_Monad.return False)"

definition colorRam_handler :: "nat \<Rightarrow> u32 \<Rightarrow> u32 \<Rightarrow> (u32 \<Rightarrow> u8) io_handler" where
  "colorRam_handler i base sz = \<lparr>ioh_id = i, ioh_name = ''ColorRAM'', ioh_base = base,
     ioh_read = colorRam_read base sz, ioh_peek = colorRam_read base sz, ioh_write = colorRam_write base sz,
     ioh_reset = id, ioh_tick = (\<lambda>_. id), ioh_isHaltRequested = (\<lambda>_. False)\<rparr>"

lemma openBus_declines: "a < base \<Longrightarrow> declines (openBus_handler i n base sz) a d"
  by (simp add: declines_def openBus_handler_def in_window_def)

lemma colorRam_declines: "a < base \<Longrightarrow> declines (colorRam_handler i base sz) a d"
  by (simp add: declines_def colorRam_handler_def colorRam_read_def colorRam_write_def in_window_def)

section \<open>Correctness\<close>

text \<open>
  Combined active-low port devices that only report (a read leaves the peripherals alone)
  read as the wired-AND of their members: a bit is high exactly when every member lets it be
  high; no member, all high.
\<close>

theorem combined_port_wired_and:
  assumes "\<forall>d \<in> set ds. final (pd_readPort d) e = e"
  shows "final (pd_readPort (combined_port ds)) e = e \<and>
    (\<forall>n < 8. bit (result (pd_readPort (combined_port ds)) e) n =
       (\<forall>d \<in> set ds. bit (result (pd_readPort d) e) n))"
proof -
  have "final (combined_readPort ds r) e = e \<and>
    (\<forall>n < 8. bit (result (combined_readPort ds r) e) n =
       (bit r n \<and> (\<forall>d \<in> set ds. bit (result (pd_readPort d) e) n)))" for r
    using assms by (induction ds arbitrary: r) (auto simp: case_prod_beta bit_simps)
  from this [of "0xFF"] show ?thesis
    by (simp add: combined_port_def flag_bits)
qed

theorem combined_port_wired_and_witness:
  "let stick = \<lambda>v. \<lparr>pd_readPort = State_Monad.return v, pd_peekPort = State_Monad.return v,
         pd_writePort = (\<lambda>_ e. e), pd_setDdr = (\<lambda>_ e. e)\<rparr> :: unit port_device
   in \<not> bit (result (pd_readPort (combined_port [stick 0xFE, stick 0xEF])) ()) 4 \<and>
      bit (result (pd_readPort (combined_port [stick 0xFE, stick 0xEF])) ()) 1"
proof -
  let ?k = "\<lambda>v. \<lparr>pd_readPort = State_Monad.return v, pd_peekPort = State_Monad.return v,
         pd_writePort = (\<lambda>_ e. e), pd_setDdr = (\<lambda>_ e. e)\<rparr> :: unit port_device"
  have "\<forall>d \<in> set [?k 0xFE, ?k 0xEF]. final (pd_readPort d) () = ()" by simp
  from combined_port_wired_and [OF this] have
    "\<forall>n < 8. bit (result (pd_readPort (combined_port [?k 0xFE, ?k 0xEF])) ()) n =
       (\<forall>d \<in> set [?k 0xFE, ?k 0xEF]. bit (result (pd_readPort d) ()) n)" by blast
  from spec [OF this, of 4] spec [OF this, of 1] show ?thesis
    by (simp add: Let_def)
qed

text \<open>
  A switch of a joystick spread over a port's lines by \<open>JoystickPins\<close> reads low exactly when it
  is pressed, and a line with no switch reads high.
\<close>

theorem joystickPins_read:
  assumes "n < 8"
  shows "bit (joystickPins_readPort bitFor j) n =
    (\<not> (\<exists>i < 5. bitFor ! i = int n \<and> \<not> bit (joy_state j) i))"
proof -
  have "bit (fold (\<lambda>i v. if bitFor ! i \<ge> 0 \<and> \<not> tst (joy_state j) (push_bit i 1)
      then v AND NOT (push_bit (nat (bitFor ! i)) 1) else v) is w) n =
    (bit (w :: u8) n \<and> \<not> (\<exists>i \<in> set is. bitFor ! i = int n \<and> \<not> bit (joy_state j) i))" for "is" w
    using assms by (induction "is" arbitrary: w) (auto simp: bit_simps tst_exp push_bit_eq_mult)
  from this [of "[0..<5]" "0xFF"] show ?thesis
    using assms by (auto simp: joystickPins_readPort_def flag_bits)
qed

theorem joystickPins_read_witness:
  "let j = joystick_setState 0x17 joystick_new in
   \<not> bit (joystickPins_readPort [2, 3, 4, 7, 5] j) 7 \<and> bit (joystickPins_readPort [2, 3, 4, 7, 5] j) 0"
proof -
  let ?j = "joystick_setState 0x17 joystick_new"
  have "bit (joystickPins_readPort [2, 3, 4, 7, 5] ?j) 7 = (\<not> (\<exists>i < 5. [2, 3, 4, 7, 5] ! i = int 7 \<and> \<not> bit (joy_state ?j) i))"
    "bit (joystickPins_readPort [2, 3, 4, 7, 5] ?j) 0 = (\<not> (\<exists>i < 5. [2, 3, 4, 7, 5] ! i = int 0 \<and> \<not> bit (joy_state ?j) i))"
    by (rule joystickPins_read, simp)+
  moreover have "\<not> bit (joy_state ?j) 3" by (simp add: joystick_setState_def)
  moreover have "\<not> (\<exists>i < 5. [2, 3, 4, 7, 5] ! i = int 0 \<and> \<not> bit (joy_state ?j) i)"
    by (auto simp: eval_nat_numeral less_Suc_eq nth_Cons split: nat.splits)
  ultimately show ?thesis by (auto simp: Let_def intro!: exI [of _ 3])
qed

end
