(* ===== verification/Cpu6502.thy ===== *)
theory Cpu6502
  imports Interfaces
begin

text \<open>
  The processor core of \<open>src/plugins/6502/main/cpu6502.h\<close>, \<open>cpu6502.cpp\<close> and
  \<open>cpu6502_cmos.cpp\<close>: registers and flags, the memory and stack helpers, the addressing modes
  and every instruction of the NMOS 6502 (documented and not) and of the WDC 65C02.

  \<open>CPU6502State\<close> is \<open>cpu6502_state\<close>; arithmetic and flag handling are functions on it. An
  \<open>op\<close> function of the code is a computation over the whole processor (registers and the bus
  behind it) that returns the extra cycles it takes. What the processor is attached to (its
  bus, the vector-pull hook, the intercept hook and the observer) is the record \<open>cpu_env\<close>.
\<close>

section \<open>State\<close>

abbreviation FLAG_C :: u8 where "FLAG_C \<equiv> 0x01"
abbreviation FLAG_Z :: u8 where "FLAG_Z \<equiv> 0x02"
abbreviation FLAG_I :: u8 where "FLAG_I \<equiv> 0x04"
abbreviation FLAG_D :: u8 where "FLAG_D \<equiv> 0x08"
abbreviation FLAG_B :: u8 where "FLAG_B \<equiv> 0x10"
abbreviation FLAG_U :: u8 where "FLAG_U \<equiv> 0x20"
abbreviation FLAG_V :: u8 where "FLAG_V \<equiv> 0x40"
abbreviation FLAG_N :: u8 where "FLAG_N \<equiv> 0x80"

record cpu6502_state =
  reg_a :: u8
  reg_x :: u8
  reg_y :: u8
  reg_sp :: u8
  reg_pc :: u16
  reg_p :: u8
  st_cycles :: u64
  st_irqLine :: bool
  st_nmiLine :: bool
  st_nmiPrev :: bool
  st_haltLine :: bool
  st_waiting :: bool
  st_stopped :: bool

record 'b mos6502 =
  m_state :: cpu6502_state
  m_mem :: 'b
  m_cmos :: bool
  m_curOp :: u8
  m_branchTarget :: u16

datatype stack_op = NoStackOp | PUSH_A | PUSH_X | PUSH_Y | PUSH_Z | PUSH_P | PULL | STACK_BRK

record disasm_entry =
  de_addr :: u32
  de_bytes :: nat
  de_mnemonic :: string
  de_isCall :: bool
  de_isReturn :: bool
  de_isBranch :: bool
  de_isIllegal :: bool
  de_targetAddr :: u32
  de_stackOp :: stack_op
  de_raw :: "u8 list"

record 'b observer =
  ob_needsDisasm :: bool
  ob_onStep :: "disasm_entry \<Rightarrow> ('b mos6502, bool) state"
  ob_onStepLite :: "u16 \<Rightarrow> ('b mos6502, unit) state"

record 'b pc_hook =
  ph_armed :: "u16 \<Rightarrow> bool"
  ph_fire :: "u16 \<Rightarrow> ('b mos6502, bool) state"

record 'b cpu_env =
  ce_bus :: "'b ibus option"
  ce_onVectorPull :: "('b \<Rightarrow> 'b) option"
  ce_pcHook :: "'b pc_hook option"
  ce_observer :: "'b observer option"

definition plain_env :: "'b ibus \<Rightarrow> 'b cpu_env" where
  "plain_env ib = \<lparr>ce_bus = Some ib, ce_onVectorPull = None, ce_pcHook = None, ce_observer = None\<rparr>"

section \<open>Memory, stack and flags\<close>

definition upd :: "(cpu6502_state \<Rightarrow> cpu6502_state) \<Rightarrow> ('b mos6502, unit) state" where
  "upd f = modify (\<lambda>c. c\<lparr>m_state := f (m_state c)\<rparr>)"

definition on_mem :: "('b, 'a) state \<Rightarrow> ('b mos6502, 'a) state" where
  "on_mem m = State (\<lambda>c. (case run_state m (m_mem c) of (r, b) \<Rightarrow> (r, c\<lparr>m_mem := b\<rparr>)))"

definition cpu_read :: "'b cpu_env \<Rightarrow> u16 \<Rightarrow> ('b mos6502, u8) state" where
  "cpu_read E addr = (case ce_bus E of
     Some ib \<Rightarrow> on_mem (ib_read8 ib (ucast addr)) | None \<Rightarrow> State_Monad.return 0)"

definition cpu_write :: "'b cpu_env \<Rightarrow> u16 \<Rightarrow> u8 \<Rightarrow> ('b mos6502, unit) state" where
  "cpu_write E addr val = (case ce_bus E of
     Some ib \<Rightarrow> on_mem (ib_write8 ib (ucast addr) val) | None \<Rightarrow> skip)"

definition stack_addr :: "u8 \<Rightarrow> u16" where
  "stack_addr sp = 0x0100 OR ucast sp"

definition cpu_push :: "'b cpu_env \<Rightarrow> u8 \<Rightarrow> ('b mos6502, unit) state" where
  "cpu_push E val = do {
     s \<leftarrow> gets m_state;
     upd (\<lambda>s. s\<lparr>reg_sp := reg_sp s - 1\<rparr>);
     cpu_write E (stack_addr (reg_sp s)) val }"

definition cpu_pop :: "'b cpu_env \<Rightarrow> ('b mos6502, u8) state" where
  "cpu_pop E = do {
     upd (\<lambda>s. s\<lparr>reg_sp := reg_sp s + 1\<rparr>);
     s \<leftarrow> gets m_state;
     cpu_read E (stack_addr (reg_sp s)) }"

text \<open>\<open>read(m_state.pc++)\<close>\<close>

definition fetch :: "'b cpu_env \<Rightarrow> ('b mos6502, u8) state" where
  "fetch E = do {
     s \<leftarrow> gets m_state;
     upd (\<lambda>s. s\<lparr>reg_pc := reg_pc s + 1\<rparr>);
     cpu_read E (reg_pc s) }"

definition clrP :: "u8 \<Rightarrow> cpu6502_state \<Rightarrow> cpu6502_state" where
  "clrP m s = s\<lparr>reg_p := reg_p s AND NOT m\<rparr>"

definition setP :: "u8 \<Rightarrow> cpu6502_state \<Rightarrow> cpu6502_state" where
  "setP m s = s\<lparr>reg_p := reg_p s OR m\<rparr>"

definition setIf :: "bool \<Rightarrow> u8 \<Rightarrow> cpu6502_state \<Rightarrow> cpu6502_state" where
  "setIf b m s = (if b then setP m s else s)"

definition updateNZ :: "u8 \<Rightarrow> cpu6502_state \<Rightarrow> cpu6502_state" where
  "updateNZ val s =
     setIf (tst val 0x80) FLAG_N (setIf (val = 0) FLAG_Z (clrP (FLAG_N OR FLAG_Z) s))"

definition set_a :: "u8 \<Rightarrow> cpu6502_state \<Rightarrow> cpu6502_state" where
  "set_a v s = updateNZ v (s\<lparr>reg_a := v\<rparr>)"

definition set_x :: "u8 \<Rightarrow> cpu6502_state \<Rightarrow> cpu6502_state" where
  "set_x v s = updateNZ v (s\<lparr>reg_x := v\<rparr>)"

definition set_y :: "u8 \<Rightarrow> cpu6502_state \<Rightarrow> cpu6502_state" where
  "set_y v s = updateNZ v (s\<lparr>reg_y := v\<rparr>)"

abbreviation set_pc :: "u16 \<Rightarrow> cpu6502_state \<Rightarrow> cpu6502_state" where
  "set_pc a s \<equiv> s\<lparr>reg_pc := a\<rparr>"

text \<open>The end of an \<open>op\<close> function: \<open>return 0\<close>.\<close>

definition done0 :: "(cpu6502_state \<Rightarrow> cpu6502_state) \<Rightarrow> ('b mos6502, nat) state" where
  "done0 f = do { upd f; State_Monad.return 0 }"

section \<open>Registers\<close>

definition regRead :: "int \<Rightarrow> cpu6502_state \<Rightarrow> u32" where
  "regRead idx s =
     (if idx = 0 then ucast (reg_a s) else if idx = 1 then ucast (reg_x s)
      else if idx = 2 then ucast (reg_y s) else if idx = 3 then ucast (reg_sp s)
      else if idx = 4 then ucast (reg_pc s) else if idx = 5 then ucast (reg_p s)
      else if idx = 6 then ucast (st_cycles s AND 0xFFFFFFFF)
      else if idx = 7 then ucast (drop_bit 32 (st_cycles s)) else 0)"

definition regWrite :: "int \<Rightarrow> u32 \<Rightarrow> cpu6502_state \<Rightarrow> cpu6502_state" where
  "regWrite idx val s =
     (if idx = 0 then s\<lparr>reg_a := ucast val\<rparr> else if idx = 1 then s\<lparr>reg_x := ucast val\<rparr>
      else if idx = 2 then s\<lparr>reg_y := ucast val\<rparr> else if idx = 3 then s\<lparr>reg_sp := ucast val\<rparr>
      else if idx = 4 then s\<lparr>reg_pc := ucast val\<rparr> else if idx = 5 then s\<lparr>reg_p := ucast val\<rparr>
      else if idx = 6 then s\<lparr>st_cycles := (st_cycles s AND 0xFFFFFFFF00000000) OR ucast val\<rparr>
      else if idx = 7 then s\<lparr>st_cycles := push_bit 32 (ucast val) OR (st_cycles s AND 0xFFFFFFFF)\<rparr>
      else s)"

definition regNames :: "string list" where
  "regNames = [''A'', ''X'', ''Y'', ''SP'', ''PC'', ''P'', ''cycles_lo'', ''cycles_hi'']"

definition regCount :: int where
  "regCount = int (length regNames)"

definition cpu_reset :: "'b cpu_env \<Rightarrow> ('b mos6502, unit) state" where
  "cpu_reset E = do {
     upd (\<lambda>s. s\<lparr>reg_a := 0, reg_x := 0, reg_y := 0, reg_sp := 0xFD, reg_p := FLAG_U OR FLAG_I,
        st_cycles := 0, st_irqLine := False, st_nmiLine := False, st_nmiPrev := False,
        st_haltLine := False, st_waiting := False, st_stopped := False\<rparr>);
     (case ce_bus E of
        Some ib \<Rightarrow> do {
          lo \<leftarrow> on_mem (ib_read8 ib 0xFFFC);
          hi \<leftarrow> on_mem (ib_read8 ib 0xFFFD);
          upd (set_pc (mk16 lo hi)) }
      | None \<Rightarrow> upd (set_pc 0)) }"

text \<open>The constructor: a reset with no bus attached; the 65C02 also selects its table.\<close>

definition cpu_new :: "bool \<Rightarrow> 'b \<Rightarrow> 'b mos6502" where
  "cpu_new cmos b = \<lparr>m_state = \<lparr>reg_a = 0, reg_x = 0, reg_y = 0, reg_sp = 0xFD, reg_pc = 0,
     reg_p = FLAG_U OR FLAG_I, st_cycles = 0, st_irqLine = False, st_nmiLine = False,
     st_nmiPrev = False, st_haltLine = False, st_waiting = False, st_stopped = False\<rparr>,
     m_mem = b, m_cmos = cmos, m_curOp = 0, m_branchTarget = 0\<rparr>"

definition triggerIrq :: "cpu6502_state \<Rightarrow> cpu6502_state" where
  "triggerIrq s = s\<lparr>st_irqLine := True\<rparr>"

definition triggerNmi :: "cpu6502_state \<Rightarrow> cpu6502_state" where
  "triggerNmi s = s\<lparr>st_nmiLine := True, st_nmiPrev := False\<rparr>"

definition setIrqLine :: "bool \<Rightarrow> cpu6502_state \<Rightarrow> cpu6502_state" where
  "setIrqLine asserted s = s\<lparr>st_irqLine := asserted\<rparr>"

definition setNmiLine :: "bool \<Rightarrow> cpu6502_state \<Rightarrow> cpu6502_state" where
  "setNmiLine asserted s = s\<lparr>st_nmiLine := asserted\<rparr>"

definition setHaltLine :: "bool \<Rightarrow> cpu6502_state \<Rightarrow> cpu6502_state" where
  "setHaltLine asserted s = s\<lparr>st_haltLine := asserted\<rparr>"

definition saveState :: "'b mos6502 \<Rightarrow> cpu6502_state" where
  "saveState c = m_state c"

definition loadState :: "cpu6502_state \<Rightarrow> 'b mos6502 \<Rightarrow> 'b mos6502" where
  "loadState buf c = c\<lparr>m_state := buf\<rparr>"

section \<open>Addressing modes\<close>

definition page_differs :: "u16 \<Rightarrow> u16 \<Rightarrow> bool" where
  "page_differs a b \<longleftrightarrow> a AND 0xFF00 \<noteq> b AND 0xFF00"

text \<open>\<open>(int8_t)v\<close> added to an address.\<close>

definition rel_target :: "u16 \<Rightarrow> u8 \<Rightarrow> u16" where
  "rel_target a v = a + scast v"

definition addrBP :: "'b cpu_env \<Rightarrow> ('b mos6502, u16) state" where
  "addrBP E = do { v \<leftarrow> fetch E; State_Monad.return (ucast v) }"

definition addrBPX :: "'b cpu_env \<Rightarrow> ('b mos6502, u16) state" where
  "addrBPX E = do {
     v \<leftarrow> fetch E; s \<leftarrow> gets m_state;
     State_Monad.return ((ucast v + ucast (reg_x s)) AND 0xFF) }"

definition addrBPY :: "'b cpu_env \<Rightarrow> ('b mos6502, u16) state" where
  "addrBPY E = do {
     v \<leftarrow> fetch E; s \<leftarrow> gets m_state;
     State_Monad.return ((ucast v + ucast (reg_y s)) AND 0xFF) }"

definition addrABS :: "'b cpu_env \<Rightarrow> ('b mos6502, u16) state" where
  "addrABS E = do { lo \<leftarrow> fetch E; hi \<leftarrow> fetch E; State_Monad.return (mk16 lo hi) }"

definition addrABSX :: "'b cpu_env \<Rightarrow> ('b mos6502, u16 \<times> bool) state" where
  "addrABSX E = do {
     base \<leftarrow> addrABS E; s \<leftarrow> gets m_state;
     let addr = base + ucast (reg_x s);
     State_Monad.return (addr, page_differs base addr) }"

definition addrABSY :: "'b cpu_env \<Rightarrow> ('b mos6502, u16 \<times> bool) state" where
  "addrABSY E = do {
     base \<leftarrow> addrABS E; s \<leftarrow> gets m_state;
     let addr = base + ucast (reg_y s);
     State_Monad.return (addr, page_differs base addr) }"

definition addrIND :: "'b cpu_env \<Rightarrow> ('b mos6502, u16) state" where
  "addrIND E = do {
     ptr \<leftarrow> addrABS E;
     lo \<leftarrow> cpu_read E ptr;
     cmos \<leftarrow> gets m_cmos;
     hi \<leftarrow> cpu_read E (if cmos then ptr + 1 else (ptr AND 0xFF00) OR ((ptr + 1) AND 0x00FF));
     State_Monad.return (mk16 lo hi) }"

definition addrBPIND :: "'b cpu_env \<Rightarrow> ('b mos6502, u16) state" where
  "addrBPIND E = do {
     ptr \<leftarrow> fetch E;
     lo \<leftarrow> cpu_read E (ucast ptr);
     hi \<leftarrow> cpu_read E (ucast (ptr + 1));
     State_Monad.return (mk16 lo hi) }"

definition addrABSXIND :: "'b cpu_env \<Rightarrow> ('b mos6502, u16) state" where
  "addrABSXIND E = do {
     base \<leftarrow> addrABS E; s \<leftarrow> gets m_state;
     let ptr = base + ucast (reg_x s);
     lo \<leftarrow> cpu_read E ptr;
     hi \<leftarrow> cpu_read E (ptr + 1);
     State_Monad.return (mk16 lo hi) }"

definition addrBPXIND :: "'b cpu_env \<Rightarrow> ('b mos6502, u16) state" where
  "addrBPXIND E = do {
     v \<leftarrow> fetch E; s \<leftarrow> gets m_state;
     let ptr = v + reg_x s;
     lo \<leftarrow> cpu_read E (ucast ptr);
     hi \<leftarrow> cpu_read E ((ucast ptr + 1) AND 0xFF);
     State_Monad.return (mk16 lo hi) }"

definition addrINDBPY :: "'b cpu_env \<Rightarrow> ('b mos6502, u16 \<times> bool) state" where
  "addrINDBPY E = do {
     ptr \<leftarrow> fetch E;
     lo \<leftarrow> cpu_read E (ucast ptr);
     hi \<leftarrow> cpu_read E ((ucast ptr + 1) AND 0xFF);
     s \<leftarrow> gets m_state;
     let base = mk16 lo hi;
     let addr = base + ucast (reg_y s);
     State_Monad.return (addr, page_differs base addr) }"

end
