(* ===== verification/Cpu6502Ops.thy ===== *)
theory Cpu6502Ops
  imports Cpu6502
begin

text \<open>
  The instructions of \<open>cpu6502.cpp\<close> and \<open>cpu6502_cmos.cpp\<close>, one definition per \<open>op\<close> function.
  What an instruction does to the registers once its operand is read is a function on
  \<open>cpu6502_state\<close>; the \<open>op\<close> computation reads, applies it and writes back.
\<close>

section \<open>Arithmetic\<close>

definition carry :: "cpu6502_state \<Rightarrow> u8" where
  "carry s = reg_p s AND FLAG_C"

text \<open>Binary addition of \<open>m\<close> and the carry: the common part of ADC and SBC.\<close>

definition add_binary :: "u8 \<Rightarrow> cpu6502_state \<Rightarrow> cpu6502_state" where
  "add_binary m s =
     (let a = ucast (reg_a s) :: u16; m16 = ucast m; sum = a + m16 + ucast (carry s);
          s1 = clrP (FLAG_C OR FLAG_V OR FLAG_Z OR FLAG_N) s;
          s2 = setIf (sum > 0xFF) FLAG_C s1;
          s3 = setIf (tst (NOT (a XOR m16) AND (a XOR sum)) 0x0080) FLAG_V s2
      in set_a (ucast sum) s3)"

definition adc_decimal_nmos :: "u8 \<Rightarrow> cpu6502_state \<Rightarrow> cpu6502_state" where
  "adc_decimal_nmos m8 s =
     (let c = uint (carry s); a = uint (reg_a s); m = uint m8;
          bin = word_of_int (a + m + c) :: u8;
          lo0 = (a AND 0x0F) + (m AND 0x0F) + c;
          lo = (if lo0 \<ge> 0x0A then ((lo0 + 0x06) AND 0x0F) + 0x10 else lo0);
          t = (a AND 0xF0) + (m AND 0xF0) + lo;
          s1 = clrP (FLAG_C OR FLAG_V OR FLAG_Z OR FLAG_N) s;
          s2 = setIf (t AND 0x80 \<noteq> 0) FLAG_N s1;
          s3 = setIf (NOT (a XOR m) AND (a XOR t) AND 0x80 \<noteq> 0) FLAG_V s2;
          t' = (if t \<ge> 0xA0 then t + 0x60 else t);
          s4 = setIf (t' \<ge> 0x100) FLAG_C s3;
          s5 = setIf (bin = 0) FLAG_Z s4
      in s5\<lparr>reg_a := word_of_int t'\<rparr>)"

definition adc_decimal_cmos :: "u8 \<Rightarrow> cpu6502_state \<Rightarrow> cpu6502_state" where
  "adc_decimal_cmos m s =
     (let a = ucast (reg_a s) :: u16; m16 = ucast m :: u16;
          lo0 = (a AND 0x0F) + (m16 AND 0x0F) + ucast (carry s);
          hi0 = (a AND 0xF0) + (m16 AND 0xF0);
          hiOv = (if lo0 > 0x09 then hi0 + 0x10 else hi0);
          lo = (if lo0 > 0x09 then lo0 + 0x06 else lo0);
          hi = (if hiOv > 0x90 then hiOv + 0x60 else hiOv);
          s1 = clrP (FLAG_C OR FLAG_V OR FLAG_Z OR FLAG_N) s;
          s2 = setIf (tst hi 0xFF00) FLAG_C s1;
          res = ucast ((lo AND 0x0F) OR (hi AND 0xF0)) :: u8;
          ov = ucast ((lo AND 0x0F) OR (hiOv AND 0xF0)) :: u8;
          s3 = setIf (tst ((ov XOR reg_a s) AND (ov XOR m)) 0x80) FLAG_V s2
      in updateNZ res (s3\<lparr>reg_a := res\<rparr>))"

definition sbc_decimal_cmos :: "u8 \<Rightarrow> cpu6502_state \<Rightarrow> cpu6502_state" where
  "sbc_decimal_cmos m8 s =
     (let a = uint (reg_a s); m = uint m8; c = (if tst (reg_p s) FLAG_C then 1 else 0);
          lo = (a AND 0x0F) - (m AND 0x0F) + c - 1;
          r = a - m + c - 1;
          bin = word_of_int (a + (m XOR 0xFF) + c) :: u16;
          s1 = clrP (FLAG_C OR FLAG_V OR FLAG_Z OR FLAG_N) s;
          s2 = setIf (tst bin 0x100) FLAG_C s1;
          s3 = setIf (tst ((bin XOR ucast (reg_a s)) AND (bin XOR (ucast m8 XOR 0xFF))) 0x80) FLAG_V s2;
          r1 = (if r < 0 then r - 0x60 else r);
          r2 = (if lo < 0 then r1 - 0x06 else r1)
      in set_a (word_of_int r2) s3)"

definition sbc_nmos :: "u8 \<Rightarrow> cpu6502_state \<Rightarrow> cpu6502_state" where
  "sbc_nmos raw s =
     (let c = uint (carry s); a = uint (reg_a s); r0 = uint raw;
          s1 = add_binary (raw XOR 0xFF) s
      in if tst (reg_p s1) FLAG_D
         then let lo0 = (a AND 0x0F) - (r0 AND 0x0F) + c - 1;
                  lo = (if lo0 < 0 then ((lo0 - 0x06) AND 0x0F) - 0x10 else lo0);
                  r = (a AND 0xF0) - (r0 AND 0xF0) + lo;
                  r' = (if r < 0 then r - 0x60 else r)
              in s1\<lparr>reg_a := word_of_int r'\<rparr>
         else s1)"

definition adcDecimalCmos :: "u8 \<Rightarrow> ('b mos6502, nat) state" where
  "adcDecimalCmos m = do { upd (adc_decimal_cmos m); State_Monad.return 1 }"

definition sbcDecimalCmos :: "u8 \<Rightarrow> ('b mos6502, nat) state" where
  "sbcDecimalCmos m = do { upd (sbc_decimal_cmos m); State_Monad.return 1 }"

definition opADC :: "'b cpu_env \<Rightarrow> u16 \<Rightarrow> ('b mos6502, nat) state" where
  "opADC E addr = do {
     m \<leftarrow> cpu_read E addr;
     c \<leftarrow> State_Monad.get;
     (if m_cmos c \<and> tst (reg_p (m_state c)) FLAG_D then adcDecimalCmos m
      else if tst (reg_p (m_state c)) FLAG_D then done0 (adc_decimal_nmos m)
      else done0 (add_binary m)) }"

definition opSBC :: "'b cpu_env \<Rightarrow> u16 \<Rightarrow> ('b mos6502, nat) state" where
  "opSBC E addr = do {
     raw \<leftarrow> cpu_read E addr;
     c \<leftarrow> State_Monad.get;
     (if m_cmos c \<and> tst (reg_p (m_state c)) FLAG_D then sbcDecimalCmos raw
      else done0 (sbc_nmos raw)) }"

text \<open>CMP, CPX and CPY differ in the register compared.\<close>

definition compare_with :: "u8 \<Rightarrow> u8 \<Rightarrow> cpu6502_state \<Rightarrow> cpu6502_state" where
  "compare_with r m s =
     (let res = ucast r - ucast m :: u16
      in updateNZ (ucast res) (setIf (m \<le> r) FLAG_C (clrP FLAG_C s)))"

definition opCMP :: "'b cpu_env \<Rightarrow> u16 \<Rightarrow> ('b mos6502, nat) state" where
  "opCMP E addr = do { m \<leftarrow> cpu_read E addr; done0 (\<lambda>s. compare_with (reg_a s) m s) }"

definition opCPX :: "'b cpu_env \<Rightarrow> u16 \<Rightarrow> ('b mos6502, nat) state" where
  "opCPX E addr = do { m \<leftarrow> cpu_read E addr; done0 (\<lambda>s. compare_with (reg_x s) m s) }"

definition opCPY :: "'b cpu_env \<Rightarrow> u16 \<Rightarrow> ('b mos6502, nat) state" where
  "opCPY E addr = do { m \<leftarrow> cpu_read E addr; done0 (\<lambda>s. compare_with (reg_y s) m s) }"

section \<open>Logic and bit tests\<close>

definition opAND :: "'b cpu_env \<Rightarrow> u16 \<Rightarrow> ('b mos6502, nat) state" where
  "opAND E addr = do { m \<leftarrow> cpu_read E addr; done0 (\<lambda>s. set_a (reg_a s AND m) s) }"

definition opEOR :: "'b cpu_env \<Rightarrow> u16 \<Rightarrow> ('b mos6502, nat) state" where
  "opEOR E addr = do { m \<leftarrow> cpu_read E addr; done0 (\<lambda>s. set_a (reg_a s XOR m) s) }"

definition opORA :: "'b cpu_env \<Rightarrow> u16 \<Rightarrow> ('b mos6502, nat) state" where
  "opORA E addr = do { m \<leftarrow> cpu_read E addr; done0 (\<lambda>s. set_a (reg_a s OR m) s) }"

definition bit_test :: "u8 \<Rightarrow> cpu6502_state \<Rightarrow> cpu6502_state" where
  "bit_test m s =
     setIf (tst m 0x80) FLAG_N (setIf (tst m 0x40) FLAG_V
       (setIf (\<not> tst (reg_a s) m) FLAG_Z (clrP (FLAG_Z OR FLAG_V OR FLAG_N) s)))"

definition opBIT :: "'b cpu_env \<Rightarrow> u16 \<Rightarrow> ('b mos6502, nat) state" where
  "opBIT E addr = do { m \<leftarrow> cpu_read E addr; done0 (bit_test m) }"

text \<open>\<open>if (m & a) p &= ~Z; else p |= Z;\<close>\<close>

definition set_z_of :: "u8 \<Rightarrow> cpu6502_state \<Rightarrow> cpu6502_state" where
  "set_z_of m s = (if tst m (reg_a s) then clrP FLAG_Z s else setP FLAG_Z s)"

definition opBITI :: "'b cpu_env \<Rightarrow> u16 \<Rightarrow> ('b mos6502, nat) state" where
  "opBITI E addr = do { m \<leftarrow> cpu_read E addr; done0 (set_z_of m) }"

definition opTSB :: "'b cpu_env \<Rightarrow> u16 \<Rightarrow> ('b mos6502, nat) state" where
  "opTSB E addr = do {
     m \<leftarrow> cpu_read E addr; upd (set_z_of m); s \<leftarrow> gets m_state;
     cpu_write E addr (m OR reg_a s); State_Monad.return 0 }"

definition opTRB :: "'b cpu_env \<Rightarrow> u16 \<Rightarrow> ('b mos6502, nat) state" where
  "opTRB E addr = do {
     m \<leftarrow> cpu_read E addr; upd (set_z_of m); s \<leftarrow> gets m_state;
     cpu_write E addr (m AND NOT (reg_a s)); State_Monad.return 0 }"

section \<open>Shifts and rotates\<close>

text \<open>
  The four share a shape: \<open>addr == 0xFFFF\<close> means the accumulator. \<open>out\<close> is the bit that moves
  into the carry, \<open>f\<close> the shifted value given the old carry.
\<close>

definition shift_op :: "(u8 \<Rightarrow> bool) \<Rightarrow> (bool \<Rightarrow> u8 \<Rightarrow> u8) \<Rightarrow> 'b cpu_env \<Rightarrow> u16 \<Rightarrow> ('b mos6502, nat) state" where
  "shift_op out f E addr = do {
     s \<leftarrow> gets m_state;
     let c = tst (reg_p s) FLAG_C;
     (if addr = 0xFFFF
      then done0 (\<lambda>s. set_a (f c (reg_a s)) (setIf (out (reg_a s)) FLAG_C (clrP FLAG_C s)))
      else do {
        m \<leftarrow> cpu_read E addr;
        upd (\<lambda>s. setIf (out m) FLAG_C (clrP FLAG_C s));
        cpu_write E addr (f c m);
        done0 (updateNZ (f c m)) }) }"

definition asl8 :: "bool \<Rightarrow> u8 \<Rightarrow> u8" where "asl8 c m = push_bit 1 m"
definition lsr8 :: "bool \<Rightarrow> u8 \<Rightarrow> u8" where "lsr8 c m = drop_bit 1 m"
definition rol8 :: "bool \<Rightarrow> u8 \<Rightarrow> u8" where "rol8 c m = push_bit 1 m OR (if c then 1 else 0)"
definition ror8 :: "bool \<Rightarrow> u8 \<Rightarrow> u8" where "ror8 c m = drop_bit 1 m OR (if c then 0x80 else 0)"

definition opASL :: "'b cpu_env \<Rightarrow> u16 \<Rightarrow> ('b mos6502, nat) state" where
  "opASL = shift_op (\<lambda>m. tst m 0x80) asl8"

definition opLSR :: "'b cpu_env \<Rightarrow> u16 \<Rightarrow> ('b mos6502, nat) state" where
  "opLSR = shift_op (\<lambda>m. tst m 0x01) lsr8"

definition opROL :: "'b cpu_env \<Rightarrow> u16 \<Rightarrow> ('b mos6502, nat) state" where
  "opROL = shift_op (\<lambda>m. tst m 0x80) rol8"

definition opROR :: "'b cpu_env \<Rightarrow> u16 \<Rightarrow> ('b mos6502, nat) state" where
  "opROR = shift_op (\<lambda>m. tst m 0x01) ror8"

section \<open>Increments and decrements\<close>

definition opINC :: "'b cpu_env \<Rightarrow> u16 \<Rightarrow> ('b mos6502, nat) state" where
  "opINC E addr = do {
     v \<leftarrow> cpu_read E addr; let m = v + 1; cpu_write E addr m; done0 (updateNZ m) }"

definition opDEC :: "'b cpu_env \<Rightarrow> u16 \<Rightarrow> ('b mos6502, nat) state" where
  "opDEC E addr = do {
     v \<leftarrow> cpu_read E addr; let m = v - 1; cpu_write E addr m; done0 (updateNZ m) }"

definition opINX :: "'b cpu_env \<Rightarrow> u16 \<Rightarrow> ('b mos6502, nat) state" where
  "opINX E addr = done0 (\<lambda>s. set_x (reg_x s + 1) s)"
definition opINY :: "'b cpu_env \<Rightarrow> u16 \<Rightarrow> ('b mos6502, nat) state" where
  "opINY E addr = done0 (\<lambda>s. set_y (reg_y s + 1) s)"
definition opDEX :: "'b cpu_env \<Rightarrow> u16 \<Rightarrow> ('b mos6502, nat) state" where
  "opDEX E addr = done0 (\<lambda>s. set_x (reg_x s - 1) s)"
definition opDEY :: "'b cpu_env \<Rightarrow> u16 \<Rightarrow> ('b mos6502, nat) state" where
  "opDEY E addr = done0 (\<lambda>s. set_y (reg_y s - 1) s)"
definition opINCA :: "'b cpu_env \<Rightarrow> u16 \<Rightarrow> ('b mos6502, nat) state" where
  "opINCA E addr = done0 (\<lambda>s. set_a (reg_a s + 1) s)"
definition opDECA :: "'b cpu_env \<Rightarrow> u16 \<Rightarrow> ('b mos6502, nat) state" where
  "opDECA E addr = done0 (\<lambda>s. set_a (reg_a s - 1) s)"

section \<open>Loads, stores, transfers\<close>

definition opLDA :: "'b cpu_env \<Rightarrow> u16 \<Rightarrow> ('b mos6502, nat) state" where
  "opLDA E addr = do { m \<leftarrow> cpu_read E addr; done0 (set_a m) }"
definition opLDX :: "'b cpu_env \<Rightarrow> u16 \<Rightarrow> ('b mos6502, nat) state" where
  "opLDX E addr = do { m \<leftarrow> cpu_read E addr; done0 (set_x m) }"
definition opLDY :: "'b cpu_env \<Rightarrow> u16 \<Rightarrow> ('b mos6502, nat) state" where
  "opLDY E addr = do { m \<leftarrow> cpu_read E addr; done0 (set_y m) }"

definition store_reg :: "(cpu6502_state \<Rightarrow> u8) \<Rightarrow> 'b cpu_env \<Rightarrow> u16 \<Rightarrow> ('b mos6502, nat) state" where
  "store_reg r E addr = do { s \<leftarrow> gets m_state; cpu_write E addr (r s); State_Monad.return 0 }"

definition opSTA :: "'b cpu_env \<Rightarrow> u16 \<Rightarrow> ('b mos6502, nat) state" where
  "opSTA = store_reg reg_a"
definition opSTX :: "'b cpu_env \<Rightarrow> u16 \<Rightarrow> ('b mos6502, nat) state" where
  "opSTX = store_reg reg_x"
definition opSTY :: "'b cpu_env \<Rightarrow> u16 \<Rightarrow> ('b mos6502, nat) state" where
  "opSTY = store_reg reg_y"
definition opSTZ :: "'b cpu_env \<Rightarrow> u16 \<Rightarrow> ('b mos6502, nat) state" where
  "opSTZ = store_reg (\<lambda>_. 0)"

definition opTAX :: "'b cpu_env \<Rightarrow> u16 \<Rightarrow> ('b mos6502, nat) state" where
  "opTAX E addr = done0 (\<lambda>s. set_x (reg_a s) s)"
definition opTAY :: "'b cpu_env \<Rightarrow> u16 \<Rightarrow> ('b mos6502, nat) state" where
  "opTAY E addr = done0 (\<lambda>s. set_y (reg_a s) s)"
definition opTSX :: "'b cpu_env \<Rightarrow> u16 \<Rightarrow> ('b mos6502, nat) state" where
  "opTSX E addr = done0 (\<lambda>s. set_x (reg_sp s) s)"
definition opTXA :: "'b cpu_env \<Rightarrow> u16 \<Rightarrow> ('b mos6502, nat) state" where
  "opTXA E addr = done0 (\<lambda>s. set_a (reg_x s) s)"
definition opTXS :: "'b cpu_env \<Rightarrow> u16 \<Rightarrow> ('b mos6502, nat) state" where
  "opTXS E addr = done0 (\<lambda>s. s\<lparr>reg_sp := reg_x s\<rparr>)"
definition opTYA :: "'b cpu_env \<Rightarrow> u16 \<Rightarrow> ('b mos6502, nat) state" where
  "opTYA E addr = done0 (\<lambda>s. set_a (reg_y s) s)"

section \<open>Flags\<close>

definition opCLC :: "'b cpu_env \<Rightarrow> u16 \<Rightarrow> ('b mos6502, nat) state" where "opCLC E addr = done0 (clrP FLAG_C)"
definition opCLD :: "'b cpu_env \<Rightarrow> u16 \<Rightarrow> ('b mos6502, nat) state" where "opCLD E addr = done0 (clrP FLAG_D)"
definition opCLI :: "'b cpu_env \<Rightarrow> u16 \<Rightarrow> ('b mos6502, nat) state" where "opCLI E addr = done0 (clrP FLAG_I)"
definition opCLV :: "'b cpu_env \<Rightarrow> u16 \<Rightarrow> ('b mos6502, nat) state" where "opCLV E addr = done0 (clrP FLAG_V)"
definition opSEC :: "'b cpu_env \<Rightarrow> u16 \<Rightarrow> ('b mos6502, nat) state" where "opSEC E addr = done0 (setP FLAG_C)"
definition opSED :: "'b cpu_env \<Rightarrow> u16 \<Rightarrow> ('b mos6502, nat) state" where "opSED E addr = done0 (setP FLAG_D)"
definition opSEI :: "'b cpu_env \<Rightarrow> u16 \<Rightarrow> ('b mos6502, nat) state" where "opSEI E addr = done0 (setP FLAG_I)"
definition opNOP :: "'b cpu_env \<Rightarrow> u16 \<Rightarrow> ('b mos6502, nat) state" where "opNOP E addr = State_Monad.return 0"
definition opKIL :: "'b cpu_env \<Rightarrow> u16 \<Rightarrow> ('b mos6502, nat) state" where "opKIL E addr = State_Monad.return 0"
definition opWAI :: "'b cpu_env \<Rightarrow> u16 \<Rightarrow> ('b mos6502, nat) state" where
  "opWAI E addr = done0 (\<lambda>s. s\<lparr>st_waiting := True\<rparr>)"
definition opSTP :: "'b cpu_env \<Rightarrow> u16 \<Rightarrow> ('b mos6502, nat) state" where
  "opSTP E addr = done0 (\<lambda>s. s\<lparr>st_stopped := True\<rparr>)"

section \<open>Branches and jumps\<close>

definition branch_if :: "(u8 \<Rightarrow> bool) \<Rightarrow> 'b cpu_env \<Rightarrow> u16 \<Rightarrow> ('b mos6502, nat) state" where
  "branch_if taken E addr = do {
     s \<leftarrow> gets m_state;
     (if taken (reg_p s) then do {
        upd (set_pc addr);
        State_Monad.return (if page_differs (reg_pc s) addr then 2 else 1) }
      else State_Monad.return 0) }"

definition opBCC :: "'b cpu_env \<Rightarrow> u16 \<Rightarrow> ('b mos6502, nat) state" where "opBCC = branch_if (\<lambda>p. \<not> tst p FLAG_C)"
definition opBCS :: "'b cpu_env \<Rightarrow> u16 \<Rightarrow> ('b mos6502, nat) state" where "opBCS = branch_if (\<lambda>p. tst p FLAG_C)"
definition opBEQ :: "'b cpu_env \<Rightarrow> u16 \<Rightarrow> ('b mos6502, nat) state" where "opBEQ = branch_if (\<lambda>p. tst p FLAG_Z)"
definition opBNE :: "'b cpu_env \<Rightarrow> u16 \<Rightarrow> ('b mos6502, nat) state" where "opBNE = branch_if (\<lambda>p. \<not> tst p FLAG_Z)"
definition opBMI :: "'b cpu_env \<Rightarrow> u16 \<Rightarrow> ('b mos6502, nat) state" where "opBMI = branch_if (\<lambda>p. tst p FLAG_N)"
definition opBPL :: "'b cpu_env \<Rightarrow> u16 \<Rightarrow> ('b mos6502, nat) state" where "opBPL = branch_if (\<lambda>p. \<not> tst p FLAG_N)"
definition opBVC :: "'b cpu_env \<Rightarrow> u16 \<Rightarrow> ('b mos6502, nat) state" where "opBVC = branch_if (\<lambda>p. \<not> tst p FLAG_V)"
definition opBVS :: "'b cpu_env \<Rightarrow> u16 \<Rightarrow> ('b mos6502, nat) state" where "opBVS = branch_if (\<lambda>p. tst p FLAG_V)"

definition opBRA :: "'b cpu_env \<Rightarrow> u16 \<Rightarrow> ('b mos6502, nat) state" where
  "opBRA E addr = do {
     s \<leftarrow> gets m_state;
     upd (set_pc addr);
     State_Monad.return (if page_differs (reg_pc s) addr then 1 else 0) }"

definition opcode_bit :: "u8 \<Rightarrow> nat" where
  "opcode_bit op = unat (drop_bit 4 op AND 7)"

definition bit_branch :: "bool \<Rightarrow> 'b cpu_env \<Rightarrow> u16 \<Rightarrow> ('b mos6502, nat) state" where
  "bit_branch when E addr = do {
     c \<leftarrow> State_Monad.get;
     v \<leftarrow> cpu_read E addr;
     (if tst v (push_bit (opcode_bit (m_curOp c)) 1) \<noteq> when then State_Monad.return 0
      else do {
        c \<leftarrow> State_Monad.get;
        upd (set_pc (m_branchTarget c));
        State_Monad.return (if page_differs (reg_pc (m_state c)) (m_branchTarget c) then 2 else 1) }) }"

definition opBBR :: "'b cpu_env \<Rightarrow> u16 \<Rightarrow> ('b mos6502, nat) state" where "opBBR = bit_branch False"
definition opBBS :: "'b cpu_env \<Rightarrow> u16 \<Rightarrow> ('b mos6502, nat) state" where "opBBS = bit_branch True"

definition opRMB :: "'b cpu_env \<Rightarrow> u16 \<Rightarrow> ('b mos6502, nat) state" where
  "opRMB E addr = do {
     v \<leftarrow> cpu_read E addr; op \<leftarrow> gets m_curOp;
     cpu_write E addr (v AND NOT (push_bit (opcode_bit op) 1)); State_Monad.return 0 }"

definition opSMB :: "'b cpu_env \<Rightarrow> u16 \<Rightarrow> ('b mos6502, nat) state" where
  "opSMB E addr = do {
     v \<leftarrow> cpu_read E addr; op \<leftarrow> gets m_curOp;
     cpu_write E addr (v OR push_bit (opcode_bit op) 1); State_Monad.return 0 }"

definition opJMP :: "'b cpu_env \<Rightarrow> u16 \<Rightarrow> ('b mos6502, nat) state" where
  "opJMP E addr = done0 (set_pc addr)"

section \<open>Stack, subroutines, interrupts\<close>

definition opPHA :: "'b cpu_env \<Rightarrow> u16 \<Rightarrow> ('b mos6502, nat) state" where
  "opPHA E addr = do { s \<leftarrow> gets m_state; cpu_push E (reg_a s); State_Monad.return 0 }"
definition opPHX :: "'b cpu_env \<Rightarrow> u16 \<Rightarrow> ('b mos6502, nat) state" where
  "opPHX E addr = do { s \<leftarrow> gets m_state; cpu_push E (reg_x s); State_Monad.return 0 }"
definition opPHY :: "'b cpu_env \<Rightarrow> u16 \<Rightarrow> ('b mos6502, nat) state" where
  "opPHY E addr = do { s \<leftarrow> gets m_state; cpu_push E (reg_y s); State_Monad.return 0 }"
definition opPHP :: "'b cpu_env \<Rightarrow> u16 \<Rightarrow> ('b mos6502, nat) state" where
  "opPHP E addr = do { s \<leftarrow> gets m_state; cpu_push E (reg_p s OR FLAG_B); State_Monad.return 0 }"
definition opPLA :: "'b cpu_env \<Rightarrow> u16 \<Rightarrow> ('b mos6502, nat) state" where
  "opPLA E addr = do { v \<leftarrow> cpu_pop E; done0 (set_a v) }"
definition opPLX :: "'b cpu_env \<Rightarrow> u16 \<Rightarrow> ('b mos6502, nat) state" where
  "opPLX E addr = do { v \<leftarrow> cpu_pop E; done0 (set_x v) }"
definition opPLY :: "'b cpu_env \<Rightarrow> u16 \<Rightarrow> ('b mos6502, nat) state" where
  "opPLY E addr = do { v \<leftarrow> cpu_pop E; done0 (set_y v) }"
definition opPLP :: "'b cpu_env \<Rightarrow> u16 \<Rightarrow> ('b mos6502, nat) state" where
  "opPLP E addr = do { v \<leftarrow> cpu_pop E; done0 (\<lambda>s. s\<lparr>reg_p := (v AND NOT FLAG_B) OR FLAG_U\<rparr>) }"

definition opJSR :: "'b cpu_env \<Rightarrow> u16 \<Rightarrow> ('b mos6502, nat) state" where
  "opJSR E addr = do {
     s \<leftarrow> gets m_state;
     let ret = reg_pc s - 1;
     cpu_push E (hi8 ret);
     cpu_push E (lo8 ret);
     done0 (set_pc addr) }"

definition opRTS :: "'b cpu_env \<Rightarrow> u16 \<Rightarrow> ('b mos6502, nat) state" where
  "opRTS E addr = do {
     lo \<leftarrow> cpu_pop E; hi \<leftarrow> cpu_pop E; done0 (set_pc (mk16 lo hi + 1)) }"

definition opRTI :: "'b cpu_env \<Rightarrow> u16 \<Rightarrow> ('b mos6502, nat) state" where
  "opRTI E addr = do {
     v \<leftarrow> cpu_pop E;
     upd (\<lambda>s. s\<lparr>reg_p := (v AND NOT FLAG_B) OR FLAG_U\<rparr>);
     lo \<leftarrow> cpu_pop E; hi \<leftarrow> cpu_pop E; done0 (set_pc (mk16 lo hi)) }"

definition vector_pull :: "'b cpu_env \<Rightarrow> ('b mos6502, unit) state" where
  "vector_pull E = (case ce_onVectorPull E of
     Some f \<Rightarrow> modify (\<lambda>c. c\<lparr>m_mem := f (m_mem c)\<rparr>) | None \<Rightarrow> skip)"

text \<open>
  What BRK, IRQ and NMI share: push PC and the given status byte, set I (and clear D on the
  65C02), and jump through the vector.
\<close>

definition enter_handler :: "'b cpu_env \<Rightarrow> (u8 \<Rightarrow> u8) \<Rightarrow> u16 \<Rightarrow> ('b mos6502, unit) state" where
  "enter_handler E pushed vector = do {
     s \<leftarrow> gets m_state;
     cpu_push E (hi8 (reg_pc s));
     cpu_push E (lo8 (reg_pc s));
     cpu_push E (pushed (reg_p s));
     upd (setP FLAG_I);
     cmos \<leftarrow> gets m_cmos;
     (if cmos then upd (clrP FLAG_D) else skip);
     vector_pull E;
     lo \<leftarrow> cpu_read E vector;
     hi \<leftarrow> cpu_read E (vector + 1);
     upd (set_pc (mk16 lo hi)) }"

definition opBRK :: "'b cpu_env \<Rightarrow> u16 \<Rightarrow> ('b mos6502, nat) state" where
  "opBRK E addr = do {
     upd (\<lambda>s. set_pc (reg_pc s + 1) s);
     enter_handler E (\<lambda>p. p OR FLAG_B OR FLAG_U) 0xFFFE;
     State_Monad.return 0 }"

section \<open>Undocumented instructions\<close>

definition opSLO :: "'b cpu_env \<Rightarrow> u16 \<Rightarrow> ('b mos6502, nat) state" where
  "opSLO E addr = do { opASL E addr; opORA E addr }"
definition opRLA :: "'b cpu_env \<Rightarrow> u16 \<Rightarrow> ('b mos6502, nat) state" where
  "opRLA E addr = do { opROL E addr; opAND E addr }"
definition opSRE :: "'b cpu_env \<Rightarrow> u16 \<Rightarrow> ('b mos6502, nat) state" where
  "opSRE E addr = do { opLSR E addr; opEOR E addr }"
definition opRRA :: "'b cpu_env \<Rightarrow> u16 \<Rightarrow> ('b mos6502, nat) state" where
  "opRRA E addr = do { opROR E addr; opADC E addr }"
definition opSAX :: "'b cpu_env \<Rightarrow> u16 \<Rightarrow> ('b mos6502, nat) state" where
  "opSAX = store_reg (\<lambda>s. reg_a s AND reg_x s)"
definition opLAX :: "'b cpu_env \<Rightarrow> u16 \<Rightarrow> ('b mos6502, nat) state" where
  "opLAX E addr = do { m \<leftarrow> cpu_read E addr; done0 (\<lambda>s. set_a m (s\<lparr>reg_x := m\<rparr>)) }"
definition opDCP :: "'b cpu_env \<Rightarrow> u16 \<Rightarrow> ('b mos6502, nat) state" where
  "opDCP E addr = do { v \<leftarrow> cpu_read E addr; cpu_write E addr (v - 1); opCMP E addr }"
definition opISC :: "'b cpu_env \<Rightarrow> u16 \<Rightarrow> ('b mos6502, nat) state" where
  "opISC E addr = do { v \<leftarrow> cpu_read E addr; cpu_write E addr (v + 1); opSBC E addr }"

definition anc_regs :: "u8 \<Rightarrow> cpu6502_state \<Rightarrow> cpu6502_state" where
  "anc_regs m s =
     (let s1 = set_a (reg_a s AND m) s
      in if tst (reg_p s1) FLAG_N then setP FLAG_C s1 else clrP FLAG_C s1)"

definition opANC :: "'b cpu_env \<Rightarrow> u16 \<Rightarrow> ('b mos6502, nat) state" where
  "opANC E addr = do { m \<leftarrow> cpu_read E addr; done0 (anc_regs m) }"

definition opALR :: "'b cpu_env \<Rightarrow> u16 \<Rightarrow> ('b mos6502, nat) state" where
  "opALR E addr = do {
     m \<leftarrow> cpu_read E addr; upd (\<lambda>s. s\<lparr>reg_a := reg_a s AND m\<rparr>); opLSR E 0xFFFF }"

definition arr_regs :: "u8 \<Rightarrow> cpu6502_state \<Rightarrow> cpu6502_state" where
  "arr_regs m s =
     (let t = reg_a s AND m;
          cin = (if tst (reg_p s) FLAG_C then 0x80 else 0) :: u8;
          r = drop_bit 1 t OR cin;
          s0 = clrP (FLAG_N OR FLAG_Z OR FLAG_C OR FLAG_V) s
      in if \<not> tst (reg_p s0) FLAG_D
         then (setIf (tst (drop_bit 6 r XOR drop_bit 5 r) 1) FLAG_V (setIf (tst r 0x40) FLAG_C
                (setIf (r = 0) FLAG_Z (setIf (tst r 0x80) FLAG_N s0))))\<lparr>reg_a := r\<rparr>
         else let s1 = setIf (cin \<noteq> 0) FLAG_N s0; s2 = setIf (r = 0) FLAG_Z s1;
                  s3 = setIf (tst (t XOR r) 0x40) FLAG_V s2;
                  r1 = (if uint (t AND 0x0F) + uint (t AND 0x01) > 0x05
                        then (r AND 0xF0) OR ((r + 0x06) AND 0x0F) else r);
                  fix = uint (t AND 0xF0) + uint (t AND 0x10) > 0x50
              in (setIf fix FLAG_C s3)\<lparr>reg_a := (if fix then r1 + 0x60 else r1)\<rparr>)"

definition opARR :: "'b cpu_env \<Rightarrow> u16 \<Rightarrow> ('b mos6502, nat) state" where
  "opARR E addr = do { m \<leftarrow> cpu_read E addr; done0 (arr_regs m) }"

definition opXAA :: "'b cpu_env \<Rightarrow> u16 \<Rightarrow> ('b mos6502, nat) state" where
  "opXAA E addr = do { m \<leftarrow> cpu_read E addr; done0 (\<lambda>s. set_a ((reg_a s OR 0xEE) AND reg_x s AND m) s) }"

definition opLXA :: "'b cpu_env \<Rightarrow> u16 \<Rightarrow> ('b mos6502, nat) state" where
  "opLXA E addr = do {
     m \<leftarrow> cpu_read E addr;
     done0 (\<lambda>s. let v = (reg_a s OR 0xEE) AND m in set_a v (s\<lparr>reg_x := v\<rparr>)) }"

definition opAXS :: "'b cpu_env \<Rightarrow> u16 \<Rightarrow> ('b mos6502, nat) state" where
  "opAXS E addr = do {
     m \<leftarrow> cpu_read E addr;
     done0 (\<lambda>s. let t = reg_a s AND reg_x s in set_x (t - m) (setIf (m \<le> t) FLAG_C (clrP FLAG_C s))) }"

definition storeAndHigh :: "'b cpu_env \<Rightarrow> u16 \<Rightarrow> u8 \<Rightarrow> u8 \<Rightarrow> ('b mos6502, unit) state" where
  "storeAndHigh E addr index value =
     (let base = addr - ucast index;
          v = value AND (hi8 base + 1);
          addr' = (if (base XOR addr) AND 0xFF00 \<noteq> 0 then mk16 (lo8 addr) v else addr)
      in cpu_write E addr' v)"

definition opAHX :: "'b cpu_env \<Rightarrow> u16 \<Rightarrow> ('b mos6502, nat) state" where
  "opAHX E addr = do {
     s \<leftarrow> gets m_state; storeAndHigh E addr (reg_y s) (reg_a s AND reg_x s); State_Monad.return 0 }"

definition opTAS :: "'b cpu_env \<Rightarrow> u16 \<Rightarrow> ('b mos6502, nat) state" where
  "opTAS E addr = do {
     upd (\<lambda>s. s\<lparr>reg_sp := reg_a s AND reg_x s\<rparr>);
     s \<leftarrow> gets m_state; storeAndHigh E addr (reg_y s) (reg_sp s); State_Monad.return 0 }"

definition opSHY :: "'b cpu_env \<Rightarrow> u16 \<Rightarrow> ('b mos6502, nat) state" where
  "opSHY E addr = do {
     s \<leftarrow> gets m_state; storeAndHigh E addr (reg_x s) (reg_y s); State_Monad.return 0 }"

definition opSHX :: "'b cpu_env \<Rightarrow> u16 \<Rightarrow> ('b mos6502, nat) state" where
  "opSHX E addr = do {
     s \<leftarrow> gets m_state; storeAndHigh E addr (reg_y s) (reg_x s); State_Monad.return 0 }"

definition opLAS :: "'b cpu_env \<Rightarrow> u16 \<Rightarrow> ('b mos6502, nat) state" where
  "opLAS E addr = do {
     m \<leftarrow> cpu_read E addr;
     done0 (\<lambda>s. let v = reg_sp s AND m in set_a v (s\<lparr>reg_sp := v, reg_x := v\<rparr>)) }"

end
