(* ===== verification/Cpu6502Table.thy ===== *)
theory Cpu6502Table
  imports Cpu6502Ops
begin

text \<open>
  The two opcode tables (\<open>s_opcodes\<close> in \<open>cpu6502.cpp\<close>, \<open>s_opcodes65c02\<close> in \<open>cpu6502_cmos.cpp\<close>),
  entry by entry. A member-function pointer is a constructor of \<open>opfn\<close>; \<open>call_fn\<close> applies it.
\<close>

datatype mode =
    IMP | ACC | IMM | BP | BPX | BPY | ABS | ABSX | ABSY | IND | BPXIND | INDBPY | REL
  | BPIND | ABSXIND | BPREL

text \<open>The \<open>op\<close> functions: documented ones with an operand in memory, the other documented
  ones, the undocumented ones, and those of the 65C02.\<close>

datatype mem_fn =
    OpADC | OpAND | OpASL | OpBIT | OpCMP | OpCPX | OpCPY | OpDEC | OpEOR | OpINC | OpLDA | OpLDX |
    OpLDY | OpLSR | OpORA | OpROL | OpROR | OpSBC | OpSTA | OpSTX | OpSTY

datatype ctl_fn =
    OpBCC | OpBCS | OpBEQ | OpBMI | OpBNE | OpBPL | OpBRK | OpBVC | OpBVS | OpCLC | OpCLD | OpCLI |
    OpCLV | OpDEX | OpDEY | OpINX | OpINY | OpJMP | OpJSR | OpNOP | OpPHA | OpPHP | OpPLA | OpPLP |
    OpRTI | OpRTS | OpSEC | OpSED | OpSEI | OpTAX | OpTAY | OpTSX | OpTXA | OpTXS | OpTYA

datatype illegal_fn =
    OpKIL | OpSLO | OpRLA | OpSRE | OpRRA | OpSAX | OpLAX | OpDCP | OpISC | OpANC | OpALR | OpARR |
    OpXAA | OpAXS | OpAHX | OpTAS | OpSHY | OpSHX | OpLAS | OpLXA

datatype cmos_fn =
    OpBRA | OpBBR | OpBBS | OpRMB | OpSMB | OpPHX | OpPHY | OpPLX | OpPLY | OpSTZ | OpTRB | OpTSB |
    OpINCA | OpDECA | OpBITI | OpWAI | OpSTP

datatype opfn = Mem mem_fn | Ctl ctl_fn | Ill illegal_fn | Cmos cmos_fn

datatype opcode = Opcode (oc_mnemonic: string) (oc_fn: opfn) (oc_mode: mode) (oc_cycles: nat) (oc_penalty: bool)

primrec call_mem :: "mem_fn \<Rightarrow> 'b cpu_env \<Rightarrow> u16 \<Rightarrow> ('b mos6502, nat) state" where
  "call_mem OpADC = opADC"
| "call_mem OpAND = opAND"
| "call_mem OpASL = opASL"
| "call_mem OpBIT = opBIT"
| "call_mem OpCMP = opCMP"
| "call_mem OpCPX = opCPX"
| "call_mem OpCPY = opCPY"
| "call_mem OpDEC = opDEC"
| "call_mem OpEOR = opEOR"
| "call_mem OpINC = opINC"
| "call_mem OpLDA = opLDA"
| "call_mem OpLDX = opLDX"
| "call_mem OpLDY = opLDY"
| "call_mem OpLSR = opLSR"
| "call_mem OpORA = opORA"
| "call_mem OpROL = opROL"
| "call_mem OpROR = opROR"
| "call_mem OpSBC = opSBC"
| "call_mem OpSTA = opSTA"
| "call_mem OpSTX = opSTX"
| "call_mem OpSTY = opSTY"

primrec call_ctl :: "ctl_fn \<Rightarrow> 'b cpu_env \<Rightarrow> u16 \<Rightarrow> ('b mos6502, nat) state" where
  "call_ctl OpBCC = opBCC"
| "call_ctl OpBCS = opBCS"
| "call_ctl OpBEQ = opBEQ"
| "call_ctl OpBMI = opBMI"
| "call_ctl OpBNE = opBNE"
| "call_ctl OpBPL = opBPL"
| "call_ctl OpBRK = opBRK"
| "call_ctl OpBVC = opBVC"
| "call_ctl OpBVS = opBVS"
| "call_ctl OpCLC = opCLC"
| "call_ctl OpCLD = opCLD"
| "call_ctl OpCLI = opCLI"
| "call_ctl OpCLV = opCLV"
| "call_ctl OpDEX = opDEX"
| "call_ctl OpDEY = opDEY"
| "call_ctl OpINX = opINX"
| "call_ctl OpINY = opINY"
| "call_ctl OpJMP = opJMP"
| "call_ctl OpJSR = opJSR"
| "call_ctl OpNOP = opNOP"
| "call_ctl OpPHA = opPHA"
| "call_ctl OpPHP = opPHP"
| "call_ctl OpPLA = opPLA"
| "call_ctl OpPLP = opPLP"
| "call_ctl OpRTI = opRTI"
| "call_ctl OpRTS = opRTS"
| "call_ctl OpSEC = opSEC"
| "call_ctl OpSED = opSED"
| "call_ctl OpSEI = opSEI"
| "call_ctl OpTAX = opTAX"
| "call_ctl OpTAY = opTAY"
| "call_ctl OpTSX = opTSX"
| "call_ctl OpTXA = opTXA"
| "call_ctl OpTXS = opTXS"
| "call_ctl OpTYA = opTYA"

primrec call_illegal :: "illegal_fn \<Rightarrow> 'b cpu_env \<Rightarrow> u16 \<Rightarrow> ('b mos6502, nat) state" where
  "call_illegal OpKIL = opKIL"
| "call_illegal OpSLO = opSLO"
| "call_illegal OpRLA = opRLA"
| "call_illegal OpSRE = opSRE"
| "call_illegal OpRRA = opRRA"
| "call_illegal OpSAX = opSAX"
| "call_illegal OpLAX = opLAX"
| "call_illegal OpDCP = opDCP"
| "call_illegal OpISC = opISC"
| "call_illegal OpANC = opANC"
| "call_illegal OpALR = opALR"
| "call_illegal OpARR = opARR"
| "call_illegal OpXAA = opXAA"
| "call_illegal OpAXS = opAXS"
| "call_illegal OpAHX = opAHX"
| "call_illegal OpTAS = opTAS"
| "call_illegal OpSHY = opSHY"
| "call_illegal OpSHX = opSHX"
| "call_illegal OpLAS = opLAS"
| "call_illegal OpLXA = opLXA"

primrec call_cmos :: "cmos_fn \<Rightarrow> 'b cpu_env \<Rightarrow> u16 \<Rightarrow> ('b mos6502, nat) state" where
  "call_cmos OpBRA = opBRA"
| "call_cmos OpBBR = opBBR"
| "call_cmos OpBBS = opBBS"
| "call_cmos OpRMB = opRMB"
| "call_cmos OpSMB = opSMB"
| "call_cmos OpPHX = opPHX"
| "call_cmos OpPHY = opPHY"
| "call_cmos OpPLX = opPLX"
| "call_cmos OpPLY = opPLY"
| "call_cmos OpSTZ = opSTZ"
| "call_cmos OpTRB = opTRB"
| "call_cmos OpTSB = opTSB"
| "call_cmos OpINCA = opINCA"
| "call_cmos OpDECA = opDECA"
| "call_cmos OpBITI = opBITI"
| "call_cmos OpWAI = opWAI"
| "call_cmos OpSTP = opSTP"

primrec call_fn :: "opfn \<Rightarrow> 'b cpu_env \<Rightarrow> u16 \<Rightarrow> ('b mos6502, nat) state" where
  "call_fn (Mem f) = call_mem f"
| "call_fn (Ctl f) = call_ctl f"
| "call_fn (Ill f) = call_illegal f"
| "call_fn (Cmos f) = call_cmos f"

definition s_opcodes :: "opcode list" where
  "s_opcodes = [
     Opcode ''BRK'' (Ctl OpBRK) IMP 7 False, Opcode ''ORA'' (Mem OpORA) BPXIND 6 False,
     Opcode ''KIL'' (Ill OpKIL) IMP 2 False, Opcode ''SLO'' (Ill OpSLO) BPXIND 8 False,
     Opcode ''NOP'' (Ctl OpNOP) BP 3 False, Opcode ''ORA'' (Mem OpORA) BP 3 False,
     Opcode ''ASL'' (Mem OpASL) BP 5 False, Opcode ''SLO'' (Ill OpSLO) BP 5 False,
     Opcode ''PHP'' (Ctl OpPHP) IMP 3 False, Opcode ''ORA'' (Mem OpORA) IMM 2 False,
     Opcode ''ASL'' (Mem OpASL) ACC 2 False, Opcode ''ANC'' (Ill OpANC) IMM 2 False,
     Opcode ''NOP'' (Ctl OpNOP) ABS 4 False, Opcode ''ORA'' (Mem OpORA) ABS 4 False,
     Opcode ''ASL'' (Mem OpASL) ABS 6 False, Opcode ''SLO'' (Ill OpSLO) ABS 6 False,
     Opcode ''BPL'' (Ctl OpBPL) REL 2 False, Opcode ''ORA'' (Mem OpORA) INDBPY 5 False,
     Opcode ''KIL'' (Ill OpKIL) IMP 2 False, Opcode ''SLO'' (Ill OpSLO) INDBPY 8 False,
     Opcode ''NOP'' (Ctl OpNOP) BPX 4 False, Opcode ''ORA'' (Mem OpORA) BPX 4 False,
     Opcode ''ASL'' (Mem OpASL) BPX 6 False, Opcode ''SLO'' (Ill OpSLO) BPX 6 False,
     Opcode ''CLC'' (Ctl OpCLC) IMP 2 False, Opcode ''ORA'' (Mem OpORA) ABSY 4 False,
     Opcode ''NOP'' (Ctl OpNOP) IMP 2 False, Opcode ''SLO'' (Ill OpSLO) ABSY 7 False,
     Opcode ''NOP'' (Ctl OpNOP) ABSX 4 False, Opcode ''ORA'' (Mem OpORA) ABSX 4 False,
     Opcode ''ASL'' (Mem OpASL) ABSX 7 False, Opcode ''SLO'' (Ill OpSLO) ABSX 7 False,
     Opcode ''JSR'' (Ctl OpJSR) ABS 6 False, Opcode ''AND'' (Mem OpAND) BPXIND 6 False,
     Opcode ''KIL'' (Ill OpKIL) IMP 2 False, Opcode ''RLA'' (Ill OpRLA) BPXIND 8 False,
     Opcode ''BIT'' (Mem OpBIT) BP 3 False, Opcode ''AND'' (Mem OpAND) BP 3 False,
     Opcode ''ROL'' (Mem OpROL) BP 5 False, Opcode ''RLA'' (Ill OpRLA) BP 5 False,
     Opcode ''PLP'' (Ctl OpPLP) IMP 4 False, Opcode ''AND'' (Mem OpAND) IMM 2 False,
     Opcode ''ROL'' (Mem OpROL) ACC 2 False, Opcode ''ANC'' (Ill OpANC) IMM 2 False,
     Opcode ''BIT'' (Mem OpBIT) ABS 4 False, Opcode ''AND'' (Mem OpAND) ABS 4 False,
     Opcode ''ROL'' (Mem OpROL) ABS 6 False, Opcode ''RLA'' (Ill OpRLA) ABS 6 False,
     Opcode ''BMI'' (Ctl OpBMI) REL 2 False, Opcode ''AND'' (Mem OpAND) INDBPY 5 False,
     Opcode ''KIL'' (Ill OpKIL) IMP 2 False, Opcode ''RLA'' (Ill OpRLA) INDBPY 8 False,
     Opcode ''NOP'' (Ctl OpNOP) BPX 4 False, Opcode ''AND'' (Mem OpAND) BPX 4 False,
     Opcode ''ROL'' (Mem OpROL) BPX 6 False, Opcode ''RLA'' (Ill OpRLA) BPX 6 False,
     Opcode ''SEC'' (Ctl OpSEC) IMP 2 False, Opcode ''AND'' (Mem OpAND) ABSY 4 False,
     Opcode ''NOP'' (Ctl OpNOP) IMP 2 False, Opcode ''RLA'' (Ill OpRLA) ABSY 7 False,
     Opcode ''NOP'' (Ctl OpNOP) ABSX 4 False, Opcode ''AND'' (Mem OpAND) ABSX 4 False,
     Opcode ''ROL'' (Mem OpROL) ABSX 7 False, Opcode ''RLA'' (Ill OpRLA) ABSX 7 False,
     Opcode ''RTI'' (Ctl OpRTI) IMP 6 False, Opcode ''EOR'' (Mem OpEOR) BPXIND 6 False,
     Opcode ''KIL'' (Ill OpKIL) IMP 2 False, Opcode ''SRE'' (Ill OpSRE) BPXIND 8 False,
     Opcode ''NOP'' (Ctl OpNOP) BP 3 False, Opcode ''EOR'' (Mem OpEOR) BP 3 False,
     Opcode ''LSR'' (Mem OpLSR) BP 5 False, Opcode ''SRE'' (Ill OpSRE) BP 5 False,
     Opcode ''PHA'' (Ctl OpPHA) IMP 3 False, Opcode ''EOR'' (Mem OpEOR) IMM 2 False,
     Opcode ''LSR'' (Mem OpLSR) ACC 2 False, Opcode ''ALR'' (Ill OpALR) IMM 2 False,
     Opcode ''JMP'' (Ctl OpJMP) ABS 3 False, Opcode ''EOR'' (Mem OpEOR) ABS 4 False,
     Opcode ''LSR'' (Mem OpLSR) ABS 6 False, Opcode ''SRE'' (Ill OpSRE) ABS 6 False,
     Opcode ''BVC'' (Ctl OpBVC) REL 2 False, Opcode ''EOR'' (Mem OpEOR) INDBPY 5 False,
     Opcode ''KIL'' (Ill OpKIL) IMP 2 False, Opcode ''SRE'' (Ill OpSRE) INDBPY 8 False,
     Opcode ''NOP'' (Ctl OpNOP) BPX 4 False, Opcode ''EOR'' (Mem OpEOR) BPX 4 False,
     Opcode ''LSR'' (Mem OpLSR) BPX 6 False, Opcode ''SRE'' (Ill OpSRE) BPX 6 False,
     Opcode ''CLI'' (Ctl OpCLI) IMP 2 False, Opcode ''EOR'' (Mem OpEOR) ABSY 4 False,
     Opcode ''NOP'' (Ctl OpNOP) IMP 2 False, Opcode ''SRE'' (Ill OpSRE) ABSY 7 False,
     Opcode ''NOP'' (Ctl OpNOP) ABSX 4 False, Opcode ''EOR'' (Mem OpEOR) ABSX 4 False,
     Opcode ''LSR'' (Mem OpLSR) ABSX 7 False, Opcode ''SRE'' (Ill OpSRE) ABSX 7 False,
     Opcode ''RTS'' (Ctl OpRTS) IMP 6 False, Opcode ''ADC'' (Mem OpADC) BPXIND 6 False,
     Opcode ''KIL'' (Ill OpKIL) IMP 2 False, Opcode ''RRA'' (Ill OpRRA) BPXIND 8 False,
     Opcode ''NOP'' (Ctl OpNOP) BP 3 False, Opcode ''ADC'' (Mem OpADC) BP 3 False,
     Opcode ''ROR'' (Mem OpROR) BP 5 False, Opcode ''RRA'' (Ill OpRRA) BP 5 False,
     Opcode ''PLA'' (Ctl OpPLA) IMP 4 False, Opcode ''ADC'' (Mem OpADC) IMM 2 False,
     Opcode ''ROR'' (Mem OpROR) ACC 2 False, Opcode ''ARR'' (Ill OpARR) IMM 2 False,
     Opcode ''JMP'' (Ctl OpJMP) IND 5 False, Opcode ''ADC'' (Mem OpADC) ABS 4 False,
     Opcode ''ROR'' (Mem OpROR) ABS 6 False, Opcode ''RRA'' (Ill OpRRA) ABS 6 False,
     Opcode ''BVS'' (Ctl OpBVS) REL 2 False, Opcode ''ADC'' (Mem OpADC) INDBPY 5 False,
     Opcode ''KIL'' (Ill OpKIL) IMP 2 False, Opcode ''RRA'' (Ill OpRRA) INDBPY 8 False,
     Opcode ''NOP'' (Ctl OpNOP) BPX 4 False, Opcode ''ADC'' (Mem OpADC) BPX 4 False,
     Opcode ''ROR'' (Mem OpROR) BPX 6 False, Opcode ''RRA'' (Ill OpRRA) BPX 6 False,
     Opcode ''SEI'' (Ctl OpSEI) IMP 2 False, Opcode ''ADC'' (Mem OpADC) ABSY 4 False,
     Opcode ''NOP'' (Ctl OpNOP) IMP 2 False, Opcode ''RRA'' (Ill OpRRA) ABSY 7 False,
     Opcode ''NOP'' (Ctl OpNOP) ABSX 4 False, Opcode ''ADC'' (Mem OpADC) ABSX 4 False,
     Opcode ''ROR'' (Mem OpROR) ABSX 7 False, Opcode ''RRA'' (Ill OpRRA) ABSX 7 False,
     Opcode ''NOP'' (Ctl OpNOP) IMM 2 False, Opcode ''STA'' (Mem OpSTA) BPXIND 6 False,
     Opcode ''NOP'' (Ctl OpNOP) IMM 2 False, Opcode ''SAX'' (Ill OpSAX) BPXIND 6 False,
     Opcode ''STY'' (Mem OpSTY) BP 3 False, Opcode ''STA'' (Mem OpSTA) BP 3 False,
     Opcode ''STX'' (Mem OpSTX) BP 3 False, Opcode ''SAX'' (Ill OpSAX) BP 3 False,
     Opcode ''DEY'' (Ctl OpDEY) IMP 2 False, Opcode ''NOP'' (Ctl OpNOP) IMM 2 False,
     Opcode ''TXA'' (Ctl OpTXA) IMP 2 False, Opcode ''XAA'' (Ill OpXAA) IMM 2 False,
     Opcode ''STY'' (Mem OpSTY) ABS 4 False, Opcode ''STA'' (Mem OpSTA) ABS 4 False,
     Opcode ''STX'' (Mem OpSTX) ABS 4 False, Opcode ''SAX'' (Ill OpSAX) ABS 4 False,
     Opcode ''BCC'' (Ctl OpBCC) REL 2 False, Opcode ''STA'' (Mem OpSTA) INDBPY 6 False,
     Opcode ''KIL'' (Ill OpKIL) IMP 2 False, Opcode ''AHX'' (Ill OpAHX) INDBPY 6 False,
     Opcode ''STY'' (Mem OpSTY) BPX 4 False, Opcode ''STA'' (Mem OpSTA) BPX 4 False,
     Opcode ''STX'' (Mem OpSTX) BPY 4 False, Opcode ''SAX'' (Ill OpSAX) BPY 4 False,
     Opcode ''TYA'' (Ctl OpTYA) IMP 2 False, Opcode ''STA'' (Mem OpSTA) ABSY 5 False,
     Opcode ''TXS'' (Ctl OpTXS) IMP 2 False, Opcode ''TAS'' (Ill OpTAS) ABSY 5 False,
     Opcode ''SHY'' (Ill OpSHY) ABSX 5 False, Opcode ''STA'' (Mem OpSTA) ABSX 5 False,
     Opcode ''SHX'' (Ill OpSHX) ABSY 5 False, Opcode ''AHX'' (Ill OpAHX) ABSY 5 False,
     Opcode ''LDY'' (Mem OpLDY) IMM 2 False, Opcode ''LDA'' (Mem OpLDA) BPXIND 6 False,
     Opcode ''LDX'' (Mem OpLDX) IMM 2 False, Opcode ''LAX'' (Ill OpLAX) BPXIND 6 False,
     Opcode ''LDY'' (Mem OpLDY) BP 3 False, Opcode ''LDA'' (Mem OpLDA) BP 3 False,
     Opcode ''LDX'' (Mem OpLDX) BP 3 False, Opcode ''LAX'' (Ill OpLAX) BP 3 False,
     Opcode ''TAY'' (Ctl OpTAY) IMP 2 False, Opcode ''LDA'' (Mem OpLDA) IMM 2 False,
     Opcode ''TAX'' (Ctl OpTAX) IMP 2 False, Opcode ''LXA'' (Ill OpLXA) IMM 2 False,
     Opcode ''LDY'' (Mem OpLDY) ABS 4 False, Opcode ''LDA'' (Mem OpLDA) ABS 4 False,
     Opcode ''LDX'' (Mem OpLDX) ABS 4 False, Opcode ''LAX'' (Ill OpLAX) ABS 4 False,
     Opcode ''BCS'' (Ctl OpBCS) REL 2 False, Opcode ''LDA'' (Mem OpLDA) INDBPY 5 False,
     Opcode ''KIL'' (Ill OpKIL) IMP 2 False, Opcode ''LAX'' (Ill OpLAX) INDBPY 5 False,
     Opcode ''LDY'' (Mem OpLDY) BPX 4 False, Opcode ''LDA'' (Mem OpLDA) BPX 4 False,
     Opcode ''LDX'' (Mem OpLDX) BPY 4 False, Opcode ''LAX'' (Ill OpLAX) BPY 4 False,
     Opcode ''CLV'' (Ctl OpCLV) IMP 2 False, Opcode ''LDA'' (Mem OpLDA) ABSY 4 False,
     Opcode ''TSX'' (Ctl OpTSX) IMP 2 False, Opcode ''LAS'' (Ill OpLAS) ABSY 4 False,
     Opcode ''LDY'' (Mem OpLDY) ABSX 4 False, Opcode ''LDA'' (Mem OpLDA) ABSX 4 False,
     Opcode ''LDX'' (Mem OpLDX) ABSY 4 False, Opcode ''LAX'' (Ill OpLAX) ABSY 4 False,
     Opcode ''CPY'' (Mem OpCPY) IMM 2 False, Opcode ''CMP'' (Mem OpCMP) BPXIND 6 False,
     Opcode ''NOP'' (Ctl OpNOP) IMM 2 False, Opcode ''DCP'' (Ill OpDCP) BPXIND 8 False,
     Opcode ''CPY'' (Mem OpCPY) BP 3 False, Opcode ''CMP'' (Mem OpCMP) BP 3 False,
     Opcode ''DEC'' (Mem OpDEC) BP 5 False, Opcode ''DCP'' (Ill OpDCP) BP 5 False,
     Opcode ''INY'' (Ctl OpINY) IMP 2 False, Opcode ''CMP'' (Mem OpCMP) IMM 2 False,
     Opcode ''DEX'' (Ctl OpDEX) IMP 2 False, Opcode ''AXS'' (Ill OpAXS) IMM 2 False,
     Opcode ''CPY'' (Mem OpCPY) ABS 4 False, Opcode ''CMP'' (Mem OpCMP) ABS 4 False,
     Opcode ''DEC'' (Mem OpDEC) ABS 6 False, Opcode ''DCP'' (Ill OpDCP) ABS 6 False,
     Opcode ''BNE'' (Ctl OpBNE) REL 2 False, Opcode ''CMP'' (Mem OpCMP) INDBPY 5 False,
     Opcode ''KIL'' (Ill OpKIL) IMP 2 False, Opcode ''DCP'' (Ill OpDCP) INDBPY 8 False,
     Opcode ''NOP'' (Ctl OpNOP) BPX 4 False, Opcode ''CMP'' (Mem OpCMP) BPX 4 False,
     Opcode ''DEC'' (Mem OpDEC) BPX 6 False, Opcode ''DCP'' (Ill OpDCP) BPX 6 False,
     Opcode ''CLD'' (Ctl OpCLD) IMP 2 False, Opcode ''CMP'' (Mem OpCMP) ABSY 4 False,
     Opcode ''NOP'' (Ctl OpNOP) IMP 2 False, Opcode ''DCP'' (Ill OpDCP) ABSY 7 False,
     Opcode ''NOP'' (Ctl OpNOP) ABSX 4 False, Opcode ''CMP'' (Mem OpCMP) ABSX 4 False,
     Opcode ''DEC'' (Mem OpDEC) ABSX 7 False, Opcode ''DCP'' (Ill OpDCP) ABSX 7 False,
     Opcode ''CPX'' (Mem OpCPX) IMM 2 False, Opcode ''SBC'' (Mem OpSBC) BPXIND 6 False,
     Opcode ''NOP'' (Ctl OpNOP) IMM 2 False, Opcode ''ISC'' (Ill OpISC) BPXIND 8 False,
     Opcode ''CPX'' (Mem OpCPX) BP 3 False, Opcode ''SBC'' (Mem OpSBC) BP 3 False,
     Opcode ''INC'' (Mem OpINC) BP 5 False, Opcode ''ISC'' (Ill OpISC) BP 5 False,
     Opcode ''INX'' (Ctl OpINX) IMP 2 False, Opcode ''SBC'' (Mem OpSBC) IMM 2 False,
     Opcode ''NOP'' (Ctl OpNOP) IMP 2 False, Opcode ''SBC'' (Mem OpSBC) IMM 2 False,
     Opcode ''CPX'' (Mem OpCPX) ABS 4 False, Opcode ''SBC'' (Mem OpSBC) ABS 4 False,
     Opcode ''INC'' (Mem OpINC) ABS 6 False, Opcode ''ISC'' (Ill OpISC) ABS 6 False,
     Opcode ''BEQ'' (Ctl OpBEQ) REL 2 False, Opcode ''SBC'' (Mem OpSBC) INDBPY 5 False,
     Opcode ''KIL'' (Ill OpKIL) IMP 2 False, Opcode ''ISC'' (Ill OpISC) INDBPY 8 False,
     Opcode ''NOP'' (Ctl OpNOP) BPX 4 False, Opcode ''SBC'' (Mem OpSBC) BPX 4 False,
     Opcode ''INC'' (Mem OpINC) BPX 6 False, Opcode ''ISC'' (Ill OpISC) BPX 6 False,
     Opcode ''SED'' (Ctl OpSED) IMP 2 False, Opcode ''SBC'' (Mem OpSBC) ABSY 4 False,
     Opcode ''NOP'' (Ctl OpNOP) IMP 2 False, Opcode ''ISC'' (Ill OpISC) ABSY 7 False,
     Opcode ''NOP'' (Ctl OpNOP) ABSX 4 False, Opcode ''SBC'' (Mem OpSBC) ABSX 4 False,
     Opcode ''INC'' (Mem OpINC) ABSX 7 False, Opcode ''ISC'' (Ill OpISC) ABSX 7 False]"

definition s_opcodes65c02_lo :: "opcode list" where
  "s_opcodes65c02_lo = [
     Opcode ''BRK'' (Ctl OpBRK) IMP 7 False, Opcode ''ORA'' (Mem OpORA) BPXIND 6 False,
     Opcode ''NOP'' (Ctl OpNOP) IMM 2 False, Opcode ''NOP'' (Ctl OpNOP) IMP 1 False,
     Opcode ''TSB'' (Cmos OpTSB) BP 5 False, Opcode ''ORA'' (Mem OpORA) BP 3 False,
     Opcode ''ASL'' (Mem OpASL) BP 5 False, Opcode ''RMB0'' (Cmos OpRMB) BP 5 False,
     Opcode ''PHP'' (Ctl OpPHP) IMP 3 False, Opcode ''ORA'' (Mem OpORA) IMM 2 False,
     Opcode ''ASL'' (Mem OpASL) ACC 2 False, Opcode ''NOP'' (Ctl OpNOP) IMP 1 False,
     Opcode ''TSB'' (Cmos OpTSB) ABS 6 False, Opcode ''ORA'' (Mem OpORA) ABS 4 False,
     Opcode ''ASL'' (Mem OpASL) ABS 6 False, Opcode ''BBR0'' (Cmos OpBBR) BPREL 5 False,
     Opcode ''BPL'' (Ctl OpBPL) REL 2 False, Opcode ''ORA'' (Mem OpORA) INDBPY 5 True,
     Opcode ''ORA'' (Mem OpORA) BPIND 5 False, Opcode ''NOP'' (Ctl OpNOP) IMP 1 False,
     Opcode ''TRB'' (Cmos OpTRB) BP 5 False, Opcode ''ORA'' (Mem OpORA) BPX 4 False,
     Opcode ''ASL'' (Mem OpASL) BPX 6 False, Opcode ''RMB1'' (Cmos OpRMB) BP 5 False,
     Opcode ''CLC'' (Ctl OpCLC) IMP 2 False, Opcode ''ORA'' (Mem OpORA) ABSY 4 True,
     Opcode ''INC'' (Cmos OpINCA) ACC 2 False, Opcode ''NOP'' (Ctl OpNOP) IMP 1 False,
     Opcode ''TRB'' (Cmos OpTRB) ABS 6 False, Opcode ''ORA'' (Mem OpORA) ABSX 4 True,
     Opcode ''ASL'' (Mem OpASL) ABSX 6 True, Opcode ''BBR1'' (Cmos OpBBR) BPREL 5 False,
     Opcode ''JSR'' (Ctl OpJSR) ABS 6 False, Opcode ''AND'' (Mem OpAND) BPXIND 6 False,
     Opcode ''NOP'' (Ctl OpNOP) IMM 2 False, Opcode ''NOP'' (Ctl OpNOP) IMP 1 False,
     Opcode ''BIT'' (Mem OpBIT) BP 3 False, Opcode ''AND'' (Mem OpAND) BP 3 False,
     Opcode ''ROL'' (Mem OpROL) BP 5 False, Opcode ''RMB2'' (Cmos OpRMB) BP 5 False,
     Opcode ''PLP'' (Ctl OpPLP) IMP 4 False, Opcode ''AND'' (Mem OpAND) IMM 2 False,
     Opcode ''ROL'' (Mem OpROL) ACC 2 False, Opcode ''NOP'' (Ctl OpNOP) IMP 1 False,
     Opcode ''BIT'' (Mem OpBIT) ABS 4 False, Opcode ''AND'' (Mem OpAND) ABS 4 False,
     Opcode ''ROL'' (Mem OpROL) ABS 6 False, Opcode ''BBR2'' (Cmos OpBBR) BPREL 5 False,
     Opcode ''BMI'' (Ctl OpBMI) REL 2 False, Opcode ''AND'' (Mem OpAND) INDBPY 5 True,
     Opcode ''AND'' (Mem OpAND) BPIND 5 False, Opcode ''NOP'' (Ctl OpNOP) IMP 1 False,
     Opcode ''BIT'' (Mem OpBIT) BPX 4 False, Opcode ''AND'' (Mem OpAND) BPX 4 False,
     Opcode ''ROL'' (Mem OpROL) BPX 6 False, Opcode ''RMB3'' (Cmos OpRMB) BP 5 False,
     Opcode ''SEC'' (Ctl OpSEC) IMP 2 False, Opcode ''AND'' (Mem OpAND) ABSY 4 True,
     Opcode ''DEC'' (Cmos OpDECA) ACC 2 False, Opcode ''NOP'' (Ctl OpNOP) IMP 1 False,
     Opcode ''BIT'' (Mem OpBIT) ABSX 4 True, Opcode ''AND'' (Mem OpAND) ABSX 4 True,
     Opcode ''ROL'' (Mem OpROL) ABSX 6 True, Opcode ''BBR3'' (Cmos OpBBR) BPREL 5 False,
     Opcode ''RTI'' (Ctl OpRTI) IMP 6 False, Opcode ''EOR'' (Mem OpEOR) BPXIND 6 False,
     Opcode ''NOP'' (Ctl OpNOP) IMM 2 False, Opcode ''NOP'' (Ctl OpNOP) IMP 1 False,
     Opcode ''NOP'' (Ctl OpNOP) IMM 3 False, Opcode ''EOR'' (Mem OpEOR) BP 3 False,
     Opcode ''LSR'' (Mem OpLSR) BP 5 False, Opcode ''RMB4'' (Cmos OpRMB) BP 5 False,
     Opcode ''PHA'' (Ctl OpPHA) IMP 3 False, Opcode ''EOR'' (Mem OpEOR) IMM 2 False,
     Opcode ''LSR'' (Mem OpLSR) ACC 2 False, Opcode ''NOP'' (Ctl OpNOP) IMP 1 False,
     Opcode ''JMP'' (Ctl OpJMP) ABS 3 False, Opcode ''EOR'' (Mem OpEOR) ABS 4 False,
     Opcode ''LSR'' (Mem OpLSR) ABS 6 False, Opcode ''BBR4'' (Cmos OpBBR) BPREL 5 False,
     Opcode ''BVC'' (Ctl OpBVC) REL 2 False, Opcode ''EOR'' (Mem OpEOR) INDBPY 5 True,
     Opcode ''EOR'' (Mem OpEOR) BPIND 5 False, Opcode ''NOP'' (Ctl OpNOP) IMP 1 False,
     Opcode ''NOP'' (Ctl OpNOP) IMM 4 False, Opcode ''EOR'' (Mem OpEOR) BPX 4 False,
     Opcode ''LSR'' (Mem OpLSR) BPX 6 False, Opcode ''RMB5'' (Cmos OpRMB) BP 5 False,
     Opcode ''CLI'' (Ctl OpCLI) IMP 2 False, Opcode ''EOR'' (Mem OpEOR) ABSY 4 True,
     Opcode ''PHY'' (Cmos OpPHY) IMP 3 False, Opcode ''NOP'' (Ctl OpNOP) IMP 1 False,
     Opcode ''NOP'' (Ctl OpNOP) ABS 4 False, Opcode ''EOR'' (Mem OpEOR) ABSX 4 True,
     Opcode ''LSR'' (Mem OpLSR) ABSX 6 True, Opcode ''BBR5'' (Cmos OpBBR) BPREL 5 False,
     Opcode ''RTS'' (Ctl OpRTS) IMP 6 False, Opcode ''ADC'' (Mem OpADC) BPXIND 6 False,
     Opcode ''NOP'' (Ctl OpNOP) IMM 2 False, Opcode ''NOP'' (Ctl OpNOP) IMP 1 False,
     Opcode ''STZ'' (Cmos OpSTZ) BP 3 False, Opcode ''ADC'' (Mem OpADC) BP 3 False,
     Opcode ''ROR'' (Mem OpROR) BP 5 False, Opcode ''RMB6'' (Cmos OpRMB) BP 5 False,
     Opcode ''PLA'' (Ctl OpPLA) IMP 4 False, Opcode ''ADC'' (Mem OpADC) IMM 2 False,
     Opcode ''ROR'' (Mem OpROR) ACC 2 False, Opcode ''NOP'' (Ctl OpNOP) IMP 1 False,
     Opcode ''JMP'' (Ctl OpJMP) IND 6 False, Opcode ''ADC'' (Mem OpADC) ABS 4 False,
     Opcode ''ROR'' (Mem OpROR) ABS 6 False, Opcode ''BBR6'' (Cmos OpBBR) BPREL 5 False,
     Opcode ''BVS'' (Ctl OpBVS) REL 2 False, Opcode ''ADC'' (Mem OpADC) INDBPY 5 True,
     Opcode ''ADC'' (Mem OpADC) BPIND 5 False, Opcode ''NOP'' (Ctl OpNOP) IMP 1 False,
     Opcode ''STZ'' (Cmos OpSTZ) BPX 4 False, Opcode ''ADC'' (Mem OpADC) BPX 4 False,
     Opcode ''ROR'' (Mem OpROR) BPX 6 False, Opcode ''RMB7'' (Cmos OpRMB) BP 5 False,
     Opcode ''SEI'' (Ctl OpSEI) IMP 2 False, Opcode ''ADC'' (Mem OpADC) ABSY 4 True,
     Opcode ''PLY'' (Cmos OpPLY) IMP 4 False, Opcode ''NOP'' (Ctl OpNOP) IMP 1 False,
     Opcode ''JMP'' (Ctl OpJMP) ABSXIND 6 False, Opcode ''ADC'' (Mem OpADC) ABSX 4 True,
     Opcode ''ROR'' (Mem OpROR) ABSX 6 True, Opcode ''BBR7'' (Cmos OpBBR) BPREL 5 False]"

definition s_opcodes65c02_hi :: "opcode list" where
  "s_opcodes65c02_hi = [
     Opcode ''BRA'' (Cmos OpBRA) REL 3 False, Opcode ''STA'' (Mem OpSTA) BPXIND 6 False,
     Opcode ''NOP'' (Ctl OpNOP) IMM 2 False, Opcode ''NOP'' (Ctl OpNOP) IMP 1 False,
     Opcode ''STY'' (Mem OpSTY) BP 3 False, Opcode ''STA'' (Mem OpSTA) BP 3 False,
     Opcode ''STX'' (Mem OpSTX) BP 3 False, Opcode ''SMB0'' (Cmos OpSMB) BP 5 False,
     Opcode ''DEY'' (Ctl OpDEY) IMP 2 False, Opcode ''BIT'' (Cmos OpBITI) IMM 2 False,
     Opcode ''TXA'' (Ctl OpTXA) IMP 2 False, Opcode ''NOP'' (Ctl OpNOP) IMP 1 False,
     Opcode ''STY'' (Mem OpSTY) ABS 4 False, Opcode ''STA'' (Mem OpSTA) ABS 4 False,
     Opcode ''STX'' (Mem OpSTX) ABS 4 False, Opcode ''BBS0'' (Cmos OpBBS) BPREL 5 False,
     Opcode ''BCC'' (Ctl OpBCC) REL 2 False, Opcode ''STA'' (Mem OpSTA) INDBPY 6 False,
     Opcode ''STA'' (Mem OpSTA) BPIND 5 False, Opcode ''NOP'' (Ctl OpNOP) IMP 1 False,
     Opcode ''STY'' (Mem OpSTY) BPX 4 False, Opcode ''STA'' (Mem OpSTA) BPX 4 False,
     Opcode ''STX'' (Mem OpSTX) BPY 4 False, Opcode ''SMB1'' (Cmos OpSMB) BP 5 False,
     Opcode ''TYA'' (Ctl OpTYA) IMP 2 False, Opcode ''STA'' (Mem OpSTA) ABSY 5 False,
     Opcode ''TXS'' (Ctl OpTXS) IMP 2 False, Opcode ''NOP'' (Ctl OpNOP) IMP 1 False,
     Opcode ''STZ'' (Cmos OpSTZ) ABS 4 False, Opcode ''STA'' (Mem OpSTA) ABSX 5 False,
     Opcode ''STZ'' (Cmos OpSTZ) ABSX 5 False, Opcode ''BBS1'' (Cmos OpBBS) BPREL 5 False,
     Opcode ''LDY'' (Mem OpLDY) IMM 2 False, Opcode ''LDA'' (Mem OpLDA) BPXIND 6 False,
     Opcode ''LDX'' (Mem OpLDX) IMM 2 False, Opcode ''NOP'' (Ctl OpNOP) IMP 1 False,
     Opcode ''LDY'' (Mem OpLDY) BP 3 False, Opcode ''LDA'' (Mem OpLDA) BP 3 False,
     Opcode ''LDX'' (Mem OpLDX) BP 3 False, Opcode ''SMB2'' (Cmos OpSMB) BP 5 False,
     Opcode ''TAY'' (Ctl OpTAY) IMP 2 False, Opcode ''LDA'' (Mem OpLDA) IMM 2 False,
     Opcode ''TAX'' (Ctl OpTAX) IMP 2 False, Opcode ''NOP'' (Ctl OpNOP) IMP 1 False,
     Opcode ''LDY'' (Mem OpLDY) ABS 4 False, Opcode ''LDA'' (Mem OpLDA) ABS 4 False,
     Opcode ''LDX'' (Mem OpLDX) ABS 4 False, Opcode ''BBS2'' (Cmos OpBBS) BPREL 5 False,
     Opcode ''BCS'' (Ctl OpBCS) REL 2 False, Opcode ''LDA'' (Mem OpLDA) INDBPY 5 True,
     Opcode ''LDA'' (Mem OpLDA) BPIND 5 False, Opcode ''NOP'' (Ctl OpNOP) IMP 1 False,
     Opcode ''LDY'' (Mem OpLDY) BPX 4 False, Opcode ''LDA'' (Mem OpLDA) BPX 4 False,
     Opcode ''LDX'' (Mem OpLDX) BPY 4 False, Opcode ''SMB3'' (Cmos OpSMB) BP 5 False,
     Opcode ''CLV'' (Ctl OpCLV) IMP 2 False, Opcode ''LDA'' (Mem OpLDA) ABSY 4 True,
     Opcode ''TSX'' (Ctl OpTSX) IMP 2 False, Opcode ''NOP'' (Ctl OpNOP) IMP 1 False,
     Opcode ''LDY'' (Mem OpLDY) ABSX 4 True, Opcode ''LDA'' (Mem OpLDA) ABSX 4 True,
     Opcode ''LDX'' (Mem OpLDX) ABSY 4 True, Opcode ''BBS3'' (Cmos OpBBS) BPREL 5 False,
     Opcode ''CPY'' (Mem OpCPY) IMM 2 False, Opcode ''CMP'' (Mem OpCMP) BPXIND 6 False,
     Opcode ''NOP'' (Ctl OpNOP) IMM 2 False, Opcode ''NOP'' (Ctl OpNOP) IMP 1 False,
     Opcode ''CPY'' (Mem OpCPY) BP 3 False, Opcode ''CMP'' (Mem OpCMP) BP 3 False,
     Opcode ''DEC'' (Mem OpDEC) BP 5 False, Opcode ''SMB4'' (Cmos OpSMB) BP 5 False,
     Opcode ''INY'' (Ctl OpINY) IMP 2 False, Opcode ''CMP'' (Mem OpCMP) IMM 2 False,
     Opcode ''DEX'' (Ctl OpDEX) IMP 2 False, Opcode ''WAI'' (Cmos OpWAI) IMP 3 False,
     Opcode ''CPY'' (Mem OpCPY) ABS 4 False, Opcode ''CMP'' (Mem OpCMP) ABS 4 False,
     Opcode ''DEC'' (Mem OpDEC) ABS 6 False, Opcode ''BBS4'' (Cmos OpBBS) BPREL 5 False,
     Opcode ''BNE'' (Ctl OpBNE) REL 2 False, Opcode ''CMP'' (Mem OpCMP) INDBPY 5 True,
     Opcode ''CMP'' (Mem OpCMP) BPIND 5 False, Opcode ''NOP'' (Ctl OpNOP) IMP 1 False,
     Opcode ''NOP'' (Ctl OpNOP) IMM 4 False, Opcode ''CMP'' (Mem OpCMP) BPX 4 False,
     Opcode ''DEC'' (Mem OpDEC) BPX 6 False, Opcode ''SMB5'' (Cmos OpSMB) BP 5 False,
     Opcode ''CLD'' (Ctl OpCLD) IMP 2 False, Opcode ''CMP'' (Mem OpCMP) ABSY 4 True,
     Opcode ''PHX'' (Cmos OpPHX) IMP 3 False, Opcode ''STP'' (Cmos OpSTP) IMP 3 False,
     Opcode ''NOP'' (Ctl OpNOP) ABS 4 False, Opcode ''CMP'' (Mem OpCMP) ABSX 4 True,
     Opcode ''DEC'' (Mem OpDEC) ABSX 7 False, Opcode ''BBS5'' (Cmos OpBBS) BPREL 5 False,
     Opcode ''CPX'' (Mem OpCPX) IMM 2 False, Opcode ''SBC'' (Mem OpSBC) BPXIND 6 False,
     Opcode ''NOP'' (Ctl OpNOP) IMM 2 False, Opcode ''NOP'' (Ctl OpNOP) IMP 1 False,
     Opcode ''CPX'' (Mem OpCPX) BP 3 False, Opcode ''SBC'' (Mem OpSBC) BP 3 False,
     Opcode ''INC'' (Mem OpINC) BP 5 False, Opcode ''SMB6'' (Cmos OpSMB) BP 5 False,
     Opcode ''INX'' (Ctl OpINX) IMP 2 False, Opcode ''SBC'' (Mem OpSBC) IMM 2 False,
     Opcode ''NOP'' (Ctl OpNOP) IMP 2 False, Opcode ''NOP'' (Ctl OpNOP) IMP 1 False,
     Opcode ''CPX'' (Mem OpCPX) ABS 4 False, Opcode ''SBC'' (Mem OpSBC) ABS 4 False,
     Opcode ''INC'' (Mem OpINC) ABS 6 False, Opcode ''BBS6'' (Cmos OpBBS) BPREL 5 False,
     Opcode ''BEQ'' (Ctl OpBEQ) REL 2 False, Opcode ''SBC'' (Mem OpSBC) INDBPY 5 True,
     Opcode ''SBC'' (Mem OpSBC) BPIND 5 False, Opcode ''NOP'' (Ctl OpNOP) IMP 1 False,
     Opcode ''NOP'' (Ctl OpNOP) IMM 4 False, Opcode ''SBC'' (Mem OpSBC) BPX 4 False,
     Opcode ''INC'' (Mem OpINC) BPX 6 False, Opcode ''SMB7'' (Cmos OpSMB) BP 5 False,
     Opcode ''SED'' (Ctl OpSED) IMP 2 False, Opcode ''SBC'' (Mem OpSBC) ABSY 4 True,
     Opcode ''PLX'' (Cmos OpPLX) IMP 4 False, Opcode ''NOP'' (Ctl OpNOP) IMP 1 False,
     Opcode ''NOP'' (Ctl OpNOP) ABS 4 False, Opcode ''SBC'' (Mem OpSBC) ABSX 4 True,
     Opcode ''INC'' (Mem OpINC) ABSX 7 False, Opcode ''BBS7'' (Cmos OpBBS) BPREL 5 False]"

definition s_opcodes65c02 :: "opcode list" where
  "s_opcodes65c02 = s_opcodes65c02_lo @ s_opcodes65c02_hi"

text \<open>\<open>m_ops[op]\<close>: the table of the variant.\<close>

definition m_ops :: "bool \<Rightarrow> u8 \<Rightarrow> opcode" where
  "m_ops cmos op = (if cmos then s_opcodes65c02 else s_opcodes) ! unat op"

lemma s_opcodes_length: "length s_opcodes = 256"
  by (simp add: s_opcodes_def)

lemma s_opcodes65c02_length: "length s_opcodes65c02 = 256"
  by (simp add: s_opcodes65c02_def s_opcodes65c02_lo_def s_opcodes65c02_hi_def)

text \<open>A check of every entry of a table is a check of every opcode.\<close>

lemma m_ops_all:
  assumes "list_all P s_opcodes" and "list_all P s_opcodes65c02"
  shows "P (m_ops cmos op)"
  using assms
  by (auto simp: m_ops_def list_all_length s_opcodes_length s_opcodes65c02_length)

end
