(* ===== verification/Cpu6502Step.thy ===== *)
theory Cpu6502Step
  imports Cpu6502Table
begin

text \<open>
  \<open>MOS6502::step\<close> and what surrounds it: the page-crossing penalty, the operand fetch, the
  interrupt sequence, the decoder the debugger uses (\<open>decodeEntry\<close>, \<open>stackOpFor\<close>, the
  disassembler's text) and the step-over heuristics (\<open>cpu6502.cpp\<close>).
\<close>

section \<open>One step\<close>

definition pagePenalty :: "bool \<Rightarrow> u8 \<Rightarrow> bool" where
  "pagePenalty cmos op =
     (if cmos then oc_penalty (m_ops True op)
      else case oc_fn (m_ops False op) of
        Mem f \<Rightarrow> f \<in> set [OpADC, OpAND, OpCMP, OpEOR, OpLDA, OpLDX, OpLDY, OpORA, OpSBC]
      | Ctl f \<Rightarrow> f = OpNOP
      | Ill f \<Rightarrow> f \<in> set [OpLAX, OpLAS]
      | Cmos f \<Rightarrow> False)"

text \<open>The \<open>switch (info.mode)\<close>: the effective address and the penalty cycles.\<close>

definition no_extra :: "('b mos6502, u16) state \<Rightarrow> ('b mos6502, u16 \<times> nat) state" where
  "no_extra m = do { a \<leftarrow> m; State_Monad.return (a, 0) }"

definition with_penalty :: "bool \<Rightarrow> ('b mos6502, u16 \<times> bool) state \<Rightarrow> ('b mos6502, u16 \<times> nat) state" where
  "with_penalty pen m = do {
     r \<leftarrow> m; State_Monad.return (fst r, if snd r \<and> pen then 1 else 0) }"

definition operand :: "'b cpu_env \<Rightarrow> bool \<Rightarrow> mode \<Rightarrow> ('b mos6502, u16 \<times> nat) state" where
  "operand E pen md = (case md of
     IMP \<Rightarrow> State_Monad.return (0, 0)
   | ACC \<Rightarrow> State_Monad.return (0xFFFF, 0)
   | IMM \<Rightarrow> do {
       s \<leftarrow> gets m_state; upd (\<lambda>s. set_pc (reg_pc s + 1) s);
       State_Monad.return (reg_pc s, 0) }
   | BP \<Rightarrow> no_extra (addrBP E)
   | BPX \<Rightarrow> no_extra (addrBPX E)
   | BPY \<Rightarrow> no_extra (addrBPY E)
   | ABS \<Rightarrow> no_extra (addrABS E)
   | ABSX \<Rightarrow> with_penalty pen (addrABSX E)
   | ABSY \<Rightarrow> with_penalty pen (addrABSY E)
   | IND \<Rightarrow> no_extra (addrIND E)
   | BPXIND \<Rightarrow> no_extra (addrBPXIND E)
   | INDBPY \<Rightarrow> with_penalty pen (addrINDBPY E)
   | REL \<Rightarrow> do {
       rel \<leftarrow> fetch E; s \<leftarrow> gets m_state;
       State_Monad.return (rel_target (reg_pc s) rel, 0) }
   | BPIND \<Rightarrow> no_extra (addrBPIND E)
   | ABSXIND \<Rightarrow> no_extra (addrABSXIND E)
   | BPREL \<Rightarrow> do {
       zp \<leftarrow> fetch E; rel \<leftarrow> fetch E;
       modify (\<lambda>c. c\<lparr>m_branchTarget := rel_target (reg_pc (m_state c)) rel\<rparr>);
       State_Monad.return (ucast zp, 0) })"

definition stackOpFor :: "string \<Rightarrow> stack_op" where
  "stackOpFor mn =
     (if mn = ''BRK'' then STACK_BRK
      else if mn ! 0 \<noteq> CHR ''P'' \<or> length mn \<noteq> 3 then NoStackOp
      else if mn ! 1 = CHR ''H''
           then (if mn ! 2 = CHR ''A'' then PUSH_A else if mn ! 2 = CHR ''X'' then PUSH_X
                 else if mn ! 2 = CHR ''Y'' then PUSH_Y else if mn ! 2 = CHR ''Z'' then PUSH_Z
                 else if mn ! 2 = CHR ''P'' then PUSH_P else NoStackOp)
      else if mn ! 1 = CHR ''L'' \<and> mn ! 2 \<in> set ''AXYZP'' then PULL
      else NoStackOp)"

fun mode_bytes :: "mode \<Rightarrow> nat" where
  "mode_bytes IMP = 1" | "mode_bytes ACC = 1"
| "mode_bytes ABS = 3" | "mode_bytes ABSX = 3" | "mode_bytes ABSY = 3" | "mode_bytes IND = 3"
| "mode_bytes ABSXIND = 3" | "mode_bytes BPREL = 3"
| "mode_bytes m = 2"

definition is_illegal :: "opcode \<Rightarrow> u8 \<Rightarrow> bool" where
  "is_illegal info op \<longleftrightarrow>
     (case oc_fn info of
        Ill f \<Rightarrow> f \<in> set [OpKIL, OpSLO, OpRLA, OpSRE, OpRRA, OpSAX, OpLAX, OpDCP, OpISC, OpANC,
                          OpALR, OpARR, OpXAA, OpAHX, OpTAS, OpSHY, OpSHX, OpLAS, OpAXS, OpLXA]
      | Ctl f \<Rightarrow> f = OpNOP \<and> op \<noteq> 0xEA
      | Mem f \<Rightarrow> f = OpSBC \<and> op = 0xEB
      | Cmos f \<Rightarrow> False)"

fun peek_bytes :: "'b ibus \<Rightarrow> u32 \<Rightarrow> nat \<Rightarrow> nat \<Rightarrow> ('b, u8 list) state" where
  "peek_bytes ib addr i 0 = State_Monad.return []"
| "peek_bytes ib addr i (Suc n) = do {
     v \<leftarrow> ib_peek8 ib (addr + of_nat i);
     vs \<leftarrow> peek_bytes ib addr (Suc i) n;
     State_Monad.return (v # vs) }"

definition peek16 :: "'b ibus \<Rightarrow> u32 \<Rightarrow> ('b, u16) state" where
  "peek16 ib addr = do {
     lo \<leftarrow> ib_peek8 ib addr; hi \<leftarrow> ib_peek8 ib (addr + 1); State_Monad.return (mk16 lo hi) }"

definition decode_target :: "'b ibus \<Rightarrow> u32 \<Rightarrow> u8 \<Rightarrow> mode \<Rightarrow> ('b, u32) state" where
  "decode_target ib addr op md =
     (if op = 0x20 \<or> (md = REL \<or> md = BPREL) \<or> op = 0x4C \<or> op = 0x6C then
        (if md = REL then do {
           rel \<leftarrow> ib_peek8 ib (addr + 1);
           State_Monad.return (ucast (rel_target (ucast (addr + 2)) rel)) }
         else if md = BPREL then do {
           rel \<leftarrow> ib_peek8 ib (addr + 2);
           State_Monad.return (ucast (rel_target (ucast (addr + 3)) rel)) }
         else if md = ABS \<or> md = IND then do {
           t \<leftarrow> peek16 ib (addr + 1); State_Monad.return (ucast t) }
         else State_Monad.return 0)
      else State_Monad.return 0)"

definition decodeEntry :: "bool \<Rightarrow> 'b ibus \<Rightarrow> u32 \<Rightarrow> ('b, disasm_entry) state" where
  "decodeEntry cmos ib addr = do {
     op \<leftarrow> ib_peek8 ib addr;
     let info = m_ops cmos op;
     let n = mode_bytes (oc_mode info);
     rest \<leftarrow> peek_bytes ib addr 1 (n - 1);
     target \<leftarrow> decode_target ib addr op (oc_mode info);
     State_Monad.return \<lparr>de_addr = addr, de_bytes = n, de_mnemonic = oc_mnemonic info,
       de_isCall = (op = 0x20), de_isReturn = (op = 0x60 \<or> op = 0x40),
       de_isBranch = (oc_mode info = REL \<or> oc_mode info = BPREL),
       de_isIllegal = is_illegal info op, de_targetAddr = target,
       de_stackOp = stackOpFor (oc_mnemonic info), de_raw = op # rest\<rparr> }"

text \<open>
  The observer sees the PC of the instruction; when it stops the step (a breakpoint), the PC
  stays there. \<open>decodeEntry\<close> dereferences the bus, so an observed processor has one.
\<close>

definition observe :: "'b cpu_env \<Rightarrow> u16 \<Rightarrow> ('b mos6502, bool) state" where
  "observe E pc = (case ce_observer E of
     None \<Rightarrow> State_Monad.return True
   | Some ob \<Rightarrow>
       if ob_needsDisasm ob then
         (case ce_bus E of
            None \<Rightarrow> State_Monad.return True
          | Some ib \<Rightarrow> do {
              c \<leftarrow> State_Monad.get;
              entry \<leftarrow> on_mem (decodeEntry (m_cmos c) ib (ucast pc));
              upd (set_pc pc);
              cont \<leftarrow> ob_onStep ob entry;
              (if cont then do { upd (set_pc (reg_pc (m_state c))); State_Monad.return True }
               else State_Monad.return False) })
       else do { ob_onStepLite ob pc; State_Monad.return True })"

definition add_cycles :: "nat \<Rightarrow> ('b mos6502, nat) state" where
  "add_cycles n = do { upd (\<lambda>s. s\<lparr>st_cycles := st_cycles s + of_nat n\<rparr>); State_Monad.return n }"

text \<open>Fetch, decode, observe, execute.\<close>

definition execute :: "'b cpu_env \<Rightarrow> ('b mos6502, nat) state" where
  "execute E = do {
     s \<leftarrow> gets m_state;
     let pc = reg_pc s;
     op \<leftarrow> fetch E;
     cmos \<leftarrow> gets m_cmos;
     let info = m_ops cmos op;
     modify (\<lambda>c. c\<lparr>m_curOp := op\<rparr>);
     r \<leftarrow> operand E (pagePenalty cmos op) (oc_mode info);
     cont \<leftarrow> observe E pc;
     (if \<not> cont then State_Monad.return 1
      else do {
        extra \<leftarrow> call_fn (oc_fn info) E (fst r);
        add_cycles (oc_cycles info + (snd r + extra)) }) }"

definition try_hook :: "'b cpu_env \<Rightarrow> ('b mos6502, bool) state" where
  "try_hook E = (case ce_pcHook E of
     None \<Rightarrow> State_Monad.return False
   | Some h \<Rightarrow> do {
       s \<leftarrow> gets m_state;
       (if ph_armed h (reg_pc s) then ph_fire h (reg_pc s) else State_Monad.return False) })"

text \<open>IRQ and NMI push P with B clear and bit 5 set.\<close>

definition interrupt_p :: "u8 \<Rightarrow> u8" where
  "interrupt_p p = (p AND NOT FLAG_B) OR FLAG_U"

definition take_interrupt :: "'b cpu_env \<Rightarrow> u16 \<Rightarrow> ('b mos6502, nat) state" where
  "take_interrupt E vector = do { enter_handler E interrupt_p vector; add_cycles 7 }"

definition run_instruction :: "'b cpu_env \<Rightarrow> ('b mos6502, nat) state" where
  "run_instruction E = do { fired \<leftarrow> try_hook E; (if fired then add_cycles 6 else execute E) }"

definition step_awake :: "'b cpu_env \<Rightarrow> ('b mos6502, nat) state" where
  "step_awake E = do {
     s \<leftarrow> gets m_state;
     (if st_nmiLine s \<and> \<not> st_nmiPrev s then do {
        upd (\<lambda>s. s\<lparr>st_nmiPrev := True\<rparr>);
        take_interrupt E 0xFFFA }
      else do {
        upd (\<lambda>s. s\<lparr>st_nmiPrev := st_nmiLine s\<rparr>);
        (if st_irqLine s \<and> \<not> tst (reg_p s) FLAG_I then take_interrupt E 0xFFFE
         else run_instruction E) }) }"

definition step :: "'b cpu_env \<Rightarrow> ('b mos6502, nat) state" where
  "step E = do {
     s \<leftarrow> gets m_state;
     (if st_haltLine s then add_cycles 1
      else if st_stopped s then add_cycles 1
      else if st_waiting s then
        (if st_irqLine s \<or> (st_nmiLine s \<and> \<not> st_nmiPrev s) then do {
           upd (\<lambda>s. s\<lparr>st_waiting := False\<rparr>); step_awake E }
         else add_cycles 1)
      else step_awake E) }"

section \<open>Debugger heuristics\<close>

definition isCallAt :: "'b ibus \<Rightarrow> u32 \<Rightarrow> ('b, int) state" where
  "isCallAt ib addr = do { op \<leftarrow> ib_peek8 ib addr; State_Monad.return (if op = 0x20 then 3 else 0) }"

definition isReturnAt :: "'b ibus \<Rightarrow> u32 \<Rightarrow> ('b, bool) state" where
  "isReturnAt ib addr = do { op \<leftarrow> ib_peek8 ib addr; State_Monad.return (op = 0x60 \<or> op = 0x40) }"

definition isProgramEnd :: "cpu6502_state \<Rightarrow> 'b ibus \<Rightarrow> ('b, bool) state" where
  "isProgramEnd s ib = do {
     ret \<leftarrow> (if reg_sp s = 0xFF then isReturnAt ib (ucast (reg_pc s)) else State_Monad.return False);
     (if ret then State_Monad.return True
      else do {
        op \<leftarrow> ib_peek8 ib (ucast (reg_pc s));
        (if op = 0x4C then do {
           target \<leftarrow> peek16 ib (ucast (reg_pc s) + 1);
           State_Monad.return (target = reg_pc s) }
         else State_Monad.return False) }) }"

definition writeCallHarness :: "'b ibus \<Rightarrow> u32 \<Rightarrow> u32 \<Rightarrow> ('b, nat) state" where
  "writeCallHarness ib scratch routineAddr = do {
     ib_write8 ib scratch 0x20;
     ib_write8 ib (scratch + 1) (ucast (routineAddr AND 0xFF));
     ib_write8 ib (scratch + 2) (ucast (drop_bit 8 routineAddr AND 0xFF));
     ib_write8 ib (scratch + 3) 0x00;
     State_Monad.return 4 }"

end
