(* ===== verification/Cpu6502Cycles.thy ===== *)
theory Cpu6502Cycles
  imports Cpu6502Step
begin

text \<open>
  Cycle accounting of \<open>MOS6502::step\<close>: what a step returns is what the cycle counter advances
  by, and it is at least one cycle and bounded; the idle states; and the agreement of the two
  opcode tables with each other and with what the decoder reports.
\<close>

section \<open>What the instructions leave alone\<close>

definition cpu_cycles :: "'b mos6502 \<Rightarrow> u64" where
  "cpu_cycles c = st_cycles (m_state c)"

lemma run_upd [simp]: "run_state (upd f) c = ((), c\<lparr>m_state := f (m_state c)\<rparr>)"
  by (simp add: upd_def)

lemma run_on_mem [simp]:
  "run_state (on_mem m) c = (result m (m_mem c), c\<lparr>m_mem := final m (m_mem c)\<rparr>)"
  by (simp add: on_mem_def case_prod_beta)

lemma run_done0 [simp]: "run_state (done0 f) c = (0, c\<lparr>m_state := f (m_state c)\<rparr>)"
  by (simp add: done0_def)

lemma flag_ops_cycles [simp]:
  "st_cycles (clrP m s) = st_cycles s" "st_cycles (setP m s) = st_cycles s"
  "st_cycles (setIf b m s) = st_cycles s" "st_cycles (updateNZ v s) = st_cycles s"
  "st_cycles (set_a v s) = st_cycles s" "st_cycles (set_x v s) = st_cycles s"
  "st_cycles (set_y v s) = st_cycles s"
  by (simp_all add: clrP_def setP_def setIf_def updateNZ_def set_a_def set_x_def set_y_def)

lemma alu_cycles [simp]:
  "st_cycles (add_binary m s) = st_cycles s" "st_cycles (adc_decimal_nmos m s) = st_cycles s"
  "st_cycles (adc_decimal_cmos m s) = st_cycles s" "st_cycles (sbc_decimal_cmos m s) = st_cycles s"
  "st_cycles (sbc_nmos m s) = st_cycles s" "st_cycles (compare_with r m s) = st_cycles s"
  "st_cycles (bit_test m s) = st_cycles s" "st_cycles (set_z_of m s) = st_cycles s"
  "st_cycles (anc_regs m s) = st_cycles s" "st_cycles (arr_regs m s) = st_cycles s"
  by (simp_all add: add_binary_def adc_decimal_nmos_def adc_decimal_cmos_def sbc_decimal_cmos_def
      sbc_nmos_def compare_with_def bit_test_def set_z_of_def anc_regs_def arr_regs_def Let_def)

lemma keeps_cycles_upd [keeps_intro]:
  "(\<And>s. st_cycles (f s) = st_cycles s) \<Longrightarrow> keeps cpu_cycles (upd f)"
  "(\<And>s. st_cycles (f s) = st_cycles s) \<Longrightarrow> keeps cpu_cycles (done0 f)"
  by (simp_all add: keeps_def cpu_cycles_def)

lemma keeps_cycles_mem [keeps_intro]:
  "keeps cpu_cycles (on_mem m)" "keeps cpu_cycles (cpu_read E a)" "keeps cpu_cycles (cpu_write E a v)"
  by (simp_all add: keeps_def cpu_cycles_def cpu_read_def cpu_write_def split: option.split)

lemma keeps_cycles_modify [keeps_intro]:
  "keeps cpu_cycles (modify (\<lambda>c. c\<lparr>m_branchTarget := g c\<rparr>))"
  "keeps cpu_cycles (modify (\<lambda>c. c\<lparr>m_curOp := h c\<rparr>))"
  by (simp_all add: keeps_def cpu_cycles_def)

lemma keeps_cycles_helpers [keeps_intro]:
  "keeps cpu_cycles (cpu_push E v)" "keeps cpu_cycles (cpu_pop E)" "keeps cpu_cycles (fetch E)"
  "keeps cpu_cycles (vector_pull E)"
  unfolding cpu_push_def cpu_pop_def fetch_def
  by (auto intro!: keeps_intro) (auto simp: keeps_def vector_pull_def cpu_cycles_def split: option.split)

lemma keeps_cycles_handler [keeps_intro]: "keeps cpu_cycles (enter_handler E f v)"
  unfolding enter_handler_def by (intro keeps_intro) simp_all

lemma keeps_cycles_shapes [keeps_intro]:
  "keeps cpu_cycles (shift_op out f E a)" "keeps cpu_cycles (store_reg r E a)"
  "keeps cpu_cycles (branch_if t E a)" "keeps cpu_cycles (bit_branch w E a)"
  "keeps cpu_cycles (storeAndHigh E a i v)"
  unfolding shift_op_def store_reg_def branch_if_def bit_branch_def storeAndHigh_def
  by (intro keeps_intro; simp)+

lemma decimal_cmos_intro [keeps_intro]:
  "keeps cpu_cycles (adcDecimalCmos m)" "keeps cpu_cycles (sbcDecimalCmos m)"
  "yields (\<lambda>n. n \<le> 2) (adcDecimalCmos m)" "yields (\<lambda>n. n \<le> 2) (sbcDecimalCmos m)"
  by (simp_all add: adcDecimalCmos_def sbcDecimalCmos_def keeps_def yields_def cpu_cycles_def)

lemmas mem_fn_defs = opADC_def opAND_def opASL_def opBIT_def opCMP_def opCPX_def opCPY_def opDEC_def
  opEOR_def opINC_def opLDA_def opLDX_def opLDY_def opLSR_def opORA_def opROL_def opROR_def opSBC_def
  opSTA_def opSTX_def opSTY_def

lemmas ctl_fn_defs = opBCC_def opBCS_def opBEQ_def opBMI_def opBNE_def opBPL_def opBRK_def opBVC_def
  opBVS_def opCLC_def opCLD_def opCLI_def opCLV_def opDEX_def opDEY_def opINX_def opINY_def opJMP_def
  opJSR_def opNOP_def opPHA_def opPHP_def opPLA_def opPLP_def opRTI_def opRTS_def opSEC_def opSED_def
  opSEI_def opTAX_def opTAY_def opTSX_def opTXA_def opTXS_def opTYA_def

lemmas illegal_fn_defs = opKIL_def opSLO_def opRLA_def opSRE_def opRRA_def opSAX_def opLAX_def
  opDCP_def opISC_def opANC_def opALR_def opARR_def opXAA_def opAXS_def opAHX_def opTAS_def opSHY_def
  opSHX_def opLAS_def opLXA_def

lemmas cmos_fn_defs = opBRA_def opBBR_def opBBS_def opRMB_def opSMB_def opPHX_def opPHY_def opPLX_def
  opPLY_def opSTZ_def opTRB_def opTSB_def opINCA_def opDECA_def opBITI_def opWAI_def opSTP_def

lemma keeps_cycles_mem_fn: "keeps cpu_cycles (call_mem f E a)"
  by (cases f; simp add: mem_fn_defs; (intro keeps_intro; simp add: Let_def)?)

lemma keeps_cycles_ctl_fn: "keeps cpu_cycles (call_ctl f E a)"
  by (cases f; simp add: ctl_fn_defs; (intro keeps_intro; simp add: Let_def)?)

lemma keeps_cycles_illegal_fn: "keeps cpu_cycles (call_illegal f E a)"
  by (cases f; simp add: illegal_fn_defs mem_fn_defs; (intro keeps_intro; simp add: Let_def)?)

lemma keeps_cycles_cmos_fn: "keeps cpu_cycles (call_cmos f E a)"
  by (cases f; simp add: cmos_fn_defs; (intro keeps_intro; simp add: Let_def)?)

lemma keeps_cycles_call [keeps_intro]: "keeps cpu_cycles (call_fn f E a)"
  by (cases f)
    (simp_all add: keeps_cycles_mem_fn keeps_cycles_ctl_fn keeps_cycles_illegal_fn keeps_cycles_cmos_fn)

lemma keeps_cycles_operand [keeps_intro]: "keeps cpu_cycles (operand E pen md)"
  by (cases md; simp add: operand_def no_extra_def with_penalty_def addrBP_def addrBPX_def addrBPY_def
      addrABS_def addrABSX_def addrABSY_def addrIND_def addrBPXIND_def addrINDBPY_def addrBPIND_def
      addrABSXIND_def; (intro keeps_intro; simp)?)

section \<open>Extra cycles\<close>

lemma yields_done0 [keeps_intro]: "P 0 \<Longrightarrow> yields P (done0 f)"
  by (simp add: yields_def)

lemma yields_shapes [keeps_intro]:
  "yields (\<lambda>n. n \<le> 2) (shift_op out f E a)" "yields (\<lambda>n. n \<le> 2) (store_reg r E a)"
  "yields (\<lambda>n. n \<le> 2) (branch_if t E a)" "yields (\<lambda>n. n \<le> 2) (bit_branch w E a)"
  unfolding shift_op_def store_reg_def branch_if_def bit_branch_def
  by (intro keeps_intro; simp)+

lemma yields_mem_fn: "yields (\<lambda>n. n \<le> 2) (call_mem f E a)"
  by (cases f; simp add: mem_fn_defs; (intro keeps_intro; simp)?)

lemma yields_ctl_fn: "yields (\<lambda>n. n \<le> 2) (call_ctl f E a)"
  by (cases f; simp add: ctl_fn_defs; (intro keeps_intro; simp)?)

lemma yields_illegal_fn: "yields (\<lambda>n. n \<le> 2) (call_illegal f E a)"
  by (cases f; simp add: illegal_fn_defs mem_fn_defs; (intro keeps_intro; simp)?)

lemma yields_cmos_fn: "yields (\<lambda>n. n \<le> 2) (call_cmos f E a)"
  by (cases f; simp add: cmos_fn_defs; (intro keeps_intro; simp)?)

lemma call_fn_extra: "result (call_fn f E a) c \<le> 2"
  by (rule yieldsD, cases f)
    (simp_all add: yields_mem_fn yields_ctl_fn yields_illegal_fn yields_cmos_fn)

lemma operand_extra: "snd (result (operand E pen md) c) \<le> 1"
proof -
  have "yields (\<lambda>r. snd r \<le> 1) (operand E pen md)"
    by (cases md; simp add: operand_def no_extra_def with_penalty_def; (intro keeps_intro; simp)?)
  then show ?thesis by (rule yieldsD)
qed

lemma table_cycles: "1 \<le> oc_cycles (m_ops cmos op) \<and> oc_cycles (m_ops cmos op) \<le> 8"
  by (rule m_ops_all [where P = "\<lambda>i. 1 \<le> oc_cycles i \<and> oc_cycles i \<le> 8"])
    (simp_all add: s_opcodes_def s_opcodes65c02_def s_opcodes65c02_lo_def s_opcodes65c02_hi_def)

section \<open>Correctness\<close>

text \<open>A step counts what it returns.\<close>

definition counts :: "nat \<Rightarrow> ('b mos6502, nat) state \<Rightarrow> bool" where
  "counts hi m \<longleftrightarrow> (\<forall>c. cpu_cycles (final m c) = cpu_cycles c + of_nat (result m c) \<and>
     1 \<le> result m c \<and> result m c \<le> hi)"

lemma counts_add [keeps_intro]: "1 \<le> n \<Longrightarrow> n \<le> hi \<Longrightarrow> counts hi (add_cycles n)"
  by (simp add: counts_def add_cycles_def cpu_cycles_def)

lemma counts_bind [keeps_intro]:
  "keeps cpu_cycles m \<Longrightarrow> (\<And>x. counts hi (g x)) \<Longrightarrow> counts hi (m \<bind> g)"
  by (simp add: counts_def keeps_def case_prod_beta)

lemma counts_if [keeps_intro]: "counts hi m \<Longrightarrow> counts hi n \<Longrightarrow> counts hi (if b then m else n)"
  by simp

lemma run_unobserved: "ce_observer E = None \<Longrightarrow> run_state (observe E pc) c = (True, c)"
  by (simp add: observe_def)

lemma counts_finish:
  assumes "ce_observer E = None"
  shows "counts 11 (do {
     r \<leftarrow> operand E pen md;
     cont \<leftarrow> observe E pc;
     (if \<not> cont then State_Monad.return 1
      else do { extra \<leftarrow> call_fn f E (fst r); add_cycles (oc_cycles (m_ops cmos op) + (snd r + extra)) }) })"
  using table_cycles [of cmos op] operand_extra [of E pen md]
    call_fn_extra [of f E] keeps_cycles_operand [of E pen md] keeps_cycles_call [of f E]
  by (auto simp: counts_def case_prod_beta run_unobserved [OF assms] keeps_def add_cycles_def
      cpu_cycles_def intro: order_trans [OF add_mono [OF _ add_mono], of _ 8 _ 1 _ 2])

lemma counts_execute: "ce_observer E = None \<Longrightarrow> counts 11 (execute E)"
  unfolding execute_def Let_def by (intro keeps_intro counts_finish)

text \<open>
  C1: with no debugger attached and no host intercept installed, the number of cycles a step
  returns is exactly what it adds to the cycle counter, it is never zero, and it is at most 11:
  the machine's clock and the processor's never drift apart, and running always makes progress.
\<close>

theorem step_counts_cycles:
  assumes "ce_observer E = None" and "ce_pcHook E = None"
  shows "st_cycles (m_state (final (step E) c)) = st_cycles (m_state c) + of_nat (result (step E) c) \<and>
    1 \<le> result (step E) c \<and> result (step E) c \<le> 11"
proof -
  have "try_hook E = State_Monad.return False" using assms(2) by (simp add: try_hook_def)
  then have "counts 11 (run_instruction E)"
    using counts_execute [OF assms(1)] by (simp add: run_instruction_def)
  then have "counts 11 (step_awake E)"
    unfolding step_awake_def take_interrupt_def by (auto intro!: keeps_intro)
  then have "counts 11 (step E)"
    unfolding step_def by (auto intro!: keeps_intro)
  then show ?thesis by (simp add: counts_def cpu_cycles_def)
qed

theorem step_counts_cycles_witness:
  "let c = cpu_new False (); E = \<lparr>ce_bus = None, ce_onVectorPull = None, ce_pcHook = None, ce_observer = None\<rparr>
   in 1 \<le> result (step E) c \<and> st_cycles (m_state (final (step E) c)) = of_nat (result (step E) c)"
proof -
  let ?c = "cpu_new False ()"
  let ?E = "\<lparr>ce_bus = None, ce_onVectorPull = None, ce_pcHook = None, ce_observer = None\<rparr> :: unit cpu_env"
  have "st_cycles (m_state ?c) = 0" by (simp add: cpu_new_def)
  then show ?thesis using step_counts_cycles [of ?E ?c] unfolding Let_def by simp
qed

text \<open>
  A processor that is halted, stopped (STP), or waiting (WAI) with no interrupt line asserted
  spends one cycle and changes nothing else: no fetch, no bus access, no interrupt taken.
\<close>

theorem step_idle:
  assumes "st_haltLine s \<or> st_stopped s \<or>
    (st_waiting s \<and> \<not> st_irqLine s \<and> \<not> (st_nmiLine s \<and> \<not> st_nmiPrev s))"
    and "m_state c = s"
  shows "run_state (step E) c = (1, c\<lparr>m_state := s\<lparr>st_cycles := st_cycles s + 1\<rparr>\<rparr>)"
  using assms by (auto simp: step_def add_cycles_def)

theorem step_idle_witness:
  "let c = (cpu_new True (byte_window_new 0 [] 0 0))\<lparr>m_state := (m_state (cpu_new True (byte_window_new 0 [] 0 0)))\<lparr>st_waiting := True\<rparr>\<rparr>
   in result (step (plain_env byte_window_ibus)) c = 1 \<and> st_waiting (m_state (final (step (plain_env byte_window_ibus)) c))"
proof -
  let ?s = "(m_state (cpu_new True (byte_window_new 0 [] 0 0)))\<lparr>st_waiting := True\<rparr>"
  have "st_haltLine ?s \<or> st_stopped ?s \<or>
    (st_waiting ?s \<and> \<not> st_irqLine ?s \<and> \<not> (st_nmiLine ?s \<and> \<not> st_nmiPrev ?s))"
    by (simp add: cpu_new_def)
  from step_idle [OF this, of "(cpu_new True (byte_window_new 0 [] 0 0))\<lparr>m_state := ?s\<rparr>"] show ?thesis by (simp add: Let_def)
qed

text \<open>What a processor that is awake, or wakes, does next, in one equation.\<close>

lemma step_dispatch:
  assumes "\<not> st_haltLine s" and "\<not> st_stopped s" and "m_state c = s"
    and "st_waiting s \<longrightarrow> st_irqLine s \<or> (st_nmiLine s \<and> \<not> st_nmiPrev s)"
  defines "awake \<equiv> c\<lparr>m_state := s\<lparr>st_waiting := False, st_nmiPrev := st_nmiLine s\<rparr>\<rparr>"
  shows "run_state (step E) c =
    (if st_nmiLine s \<and> \<not> st_nmiPrev s
     then run_state (take_interrupt E 0xFFFA) awake
     else if st_irqLine s \<and> \<not> bit (reg_p s) 2
     then run_state (take_interrupt E 0xFFFE) awake
     else run_state (run_instruction E) awake)"
proof -
  have w: "t\<lparr>st_waiting := False\<rparr> = t" if "\<not> st_waiting t" for t :: cpu6502_state
    using that by (cases t) simp
  show ?thesis
    using assms by (auto simp: step_def step_awake_def flag_bits w)
qed

end
