(* ===== verification/Cpu6502Arith.thy ===== *)
theory Cpu6502Arith
  imports Cpu6502Cycles
begin

text \<open>
  The arithmetic of ADC, SBC and CMP against the integers: binary results with their carry and
  signed overflow, and packed-BCD results in decimal mode, NMOS and 65C02.
\<close>

section \<open>Reading the flags\<close>

lemma bit_setIf [simp]: "bit (reg_p (setIf b m s)) n \<longleftrightarrow> bit (reg_p s) n \<or> (b \<and> bit m n)"
  by (auto simp: setIf_def setP_def bit_simps)

lemma bit_setP [simp]: "bit (reg_p (setP m s)) n \<longleftrightarrow> bit (reg_p s) n \<or> bit m n"
  by (simp add: setP_def bit_simps)

lemma bit_clrP [simp]: "bit (reg_p (clrP m s)) n \<longleftrightarrow> bit (reg_p s) n \<and> \<not> bit m n"
  by (auto simp: clrP_def bit_simps dest: bit_imp_le_length)

lemma bit_updateNZ [simp]: "bit (reg_p (updateNZ v s)) n \<longleftrightarrow>
    (if n = 1 then v = 0 else if n = 7 then bit v 7 else bit (reg_p s) n)"
proof -
  have m: "bit (FLAG_N OR FLAG_Z) k \<longleftrightarrow> k = 7 \<or> k = 1" for k
    unfolding bit_or_iff bit_mask8 ..
  have t: "tst v 0x80 = bit v 7" by (simp add: flag_bits)
  show ?thesis unfolding updateNZ_def bit_setIf bit_clrP m t bit_mask8
    by (cases "n = 7"; cases "n = 1"; simp)
qed

lemma regs_flags [simp]:
  "reg_a (setIf b m s) = reg_a s" "reg_a (setP m s) = reg_a s" "reg_a (clrP m s) = reg_a s"
  "reg_a (updateNZ v s) = reg_a s"
  by (simp_all add: setIf_def setP_def clrP_def updateNZ_def)

text \<open>Everything but A and P.\<close>

definition other_regs :: "cpu6502_state \<Rightarrow> _" where
  "other_regs s = (reg_x s, reg_y s, reg_sp s, reg_pc s, st_cycles s)"

lemma other_regs_flags [simp]:
  "other_regs (setIf b m s) = other_regs s" "other_regs (setP m s) = other_regs s"
  "other_regs (clrP m s) = other_regs s" "other_regs (updateNZ v s) = other_regs s"
  "other_regs (s\<lparr>reg_a := v\<rparr>) = other_regs s" "other_regs (set_a v s) = other_regs s"
  by (simp_all add: other_regs_def setIf_def setP_def clrP_def updateNZ_def set_a_def)

lemma uint_carry: "uint (carry s) = (if bit (reg_p s) 0 then 1 else 0)"
  by (simp add: carry_def and_one_eq mod_2_eq_odd bit_0)

lemma unat_carry: "unat (carry s) = (if bit (reg_p s) 0 then 1 else 0)"
  by (simp add: carry_def and_one_eq mod_2_eq_odd bit_0)

section \<open>Words as integers\<close>

lemma odd_div_double:
  fixes x n :: int
  assumes "0 \<le> x" "x < 2 * n"
  shows "odd (x div n) \<longleftrightarrow> n \<le> x"
proof (cases "n \<le> x")
  case True
  then have "x div n = 1" using assms by (subst div_pos_geq) (auto simp: div_pos_pos_trivial)
  then show ?thesis using True by simp
qed (use assms in \<open>simp add: div_pos_pos_trivial\<close>)

lemma bit7_uint: "bit (w :: u8) 7 \<longleftrightarrow> 128 \<le> uint w"
proof -
  have "bit w 7 \<longleftrightarrow> bit (uint w) 7" by (simp add: bit_uint_iff)
  also have "\<dots> \<longleftrightarrow> odd (uint w div 128)" by (simp add: bit_iff_odd)
  finally have "bit w 7 \<longleftrightarrow> odd (uint w div 128)" .
  moreover have "0 \<le> uint w" "uint w < 256" using uint_range_size [of w] by (simp_all add: word_size)
  ultimately show ?thesis using odd_div_double [of "uint w" 128] by simp
qed

lemma sint_u8: "sint (w :: u8) = (if 128 \<le> uint w then uint w - 256 else uint w)"
  using uint_range_size [of w]
  by (auto simp: sint_uint signed_take_bit_eq_take_bit_minus word_size bit7_uint bit_uint_iff take_bit_int_eq_self)


lemma uint_u8: "0 \<le> uint (w :: u8)" "uint (w :: u8) < 256"
  using uint_range_size [of w] by (simp_all add: word_size)

lemma word_of_int_uint_u8: "uint (word_of_int x :: u8) = x mod 256"
  by (simp add: unsigned_of_int take_bit_eq_mod)

lemma uint_not_u8: "uint (m XOR 0xFF :: u8) = 255 - uint m"
proof -
  have f: "bit (0xFF :: u8) n \<longleftrightarrow> n < 8" for n by (simp add: flag_bits)
  have "m XOR 0xFF = NOT m"
    by (rule u8_eqI) (simp only: bit_xor_iff f bit_not_iff, simp)
  moreover have "(- uint m - 1) mod 256 = 255 - uint m"
    using mod_add_self2 [of "- uint m - 1" 256] mod_pos_pos_trivial [of "255 - uint m" 256] uint_u8 [of m]
    by simp
  ultimately show ?thesis
    by (simp add: unsigned_not_eq take_bit_eq_mod not_int_def)
qed

lemma uint_ucast16 [simp]: "uint (ucast (a :: u8) :: u16) = uint a"
  using uint_u8 [of a] by (simp add: unsigned_ucast_eq take_bit_int_eq_self)

lemma uint_ucast16_8: "uint (ucast (a :: u16) :: u8) = uint a mod 256"
  by (simp add: unsigned_ucast_eq take_bit_eq_mod)

lemma sum16:
  assumes "uint (c :: u16) \<le> 1"
  shows "uint (ucast (a :: u8) + ucast m + c) = uint a + uint (m :: u8) + uint c"
  using uint_u8 [of a] uint_u8 [of m] assms uint_ge_0 [of c]
  by (simp add: uint_word_ariths)

section \<open>Binary ADC, SBC, CMP\<close>

definition cin :: "cpu6502_state \<Rightarrow> int" where
  "cin s = of_bool (bit (reg_p s) 0)"

lemma uint_carry_cin: "uint (carry s) = cin s"
  by (simp add: uint_carry cin_def)

lemma bit7_u16: "bit (w :: u16) 7 \<longleftrightarrow> odd (uint w div 128)"
proof -
  have "bit w 7 \<longleftrightarrow> bit (uint w) 7" by (simp add: bit_uint_iff)
  then show ?thesis by (simp add: bit_iff_odd)
qed

lemma odd_div128:
  "0 \<le> x \<Longrightarrow> x < 256 \<Longrightarrow> odd (x div 128) \<longleftrightarrow> 128 \<le> (x :: int)"
  "256 \<le> x \<Longrightarrow> x < 512 \<Longrightarrow> odd (x div 128) \<longleftrightarrow> 384 \<le> (x :: int)"
proof -
  show "0 \<le> x \<Longrightarrow> x < 256 \<Longrightarrow> odd (x div 128) \<longleftrightarrow> 128 \<le> x" using odd_div_double [of x 128] by simp
  assume "256 \<le> x" "x < 512"
  moreover have "x div 128 = (x - 256) div 128 + 2" using div_add_self2 [of 128 "x - 256"] by simp
  ultimately show "odd (x div 128) \<longleftrightarrow> 384 \<le> x" using odd_div_double [of "x - 256" 128] by simp
qed

lemma overflow_bit:
  assumes c: "0 \<le> c" "c \<le> (1 :: int)" and r: "uint (w :: u16) = uint a + uint m + c"
  shows "tst (NOT (ucast a XOR ucast m) AND (ucast a XOR w)) 0x0080 \<longleftrightarrow>
    sint (a :: u8) + sint (m :: u8) + c < -128 \<or> 127 < sint a + sint m + c"
proof -
  have b: "tst (NOT (ucast a XOR ucast m) AND (ucast a XOR w)) 0x0080 \<longleftrightarrow>
      (bit a 7 = bit m 7) \<and> (bit a 7 \<noteq> bit w 7)"
    by (simp add: tst_bit bit_simps)
  have w: "bit w 7 \<longleftrightarrow> odd ((uint a + uint m + c) div 128)"
    by (simp only: bit7_u16 r)
  show ?thesis unfolding b
    using uint_u8 [of a] uint_u8 [of m] c odd_div128 [of "uint a + uint m + c"]
    by (cases "128 \<le> uint a"; cases "128 \<le> uint m"; simp add: w bit7_uint sint_u8; linarith?)
qed

lemma cin_range: "0 \<le> cin s" "cin s \<le> 1"
  by (simp_all add: cin_def)

lemma bit_set_a: "bit (reg_p (set_a v s)) n \<longleftrightarrow>
    (if n = 1 then v = 0 else if n = 7 then bit v 7 else bit (reg_p s) n)"
  by (simp add: set_a_def)

lemma reg_a_set_a [simp]: "reg_a (set_a v s) = v"
  by (simp add: set_a_def)

lemma adc_mask: "bit (FLAG_C OR FLAG_V OR FLAG_Z OR FLAG_N) n \<longleftrightarrow> n = 0 \<or> n = 6 \<or> n = 1 \<or> n = 7"
  unfolding bit_or_iff bit_mask8 bit_1_0 by blast

text \<open>
  C14: binary addition (ADC outside decimal mode): A becomes the sum of A, the operand and the carry
  modulo 256, C is the carry out, V is set exactly when the signed sum does not fit in a byte, Z
  and N describe the result, and no other register or flag changes.
\<close>

theorem adc_binary_correct:
  fixes s :: cpu6502_state and m :: u8
  defines "s' \<equiv> add_binary m s" and "r \<equiv> uint (reg_a s) + uint m + cin s"
  shows "uint (reg_a s') = r mod 256 \<and>
    (bit (reg_p s') 0 \<longleftrightarrow> 256 \<le> r) \<and>
    (bit (reg_p s') 6 \<longleftrightarrow>
       sint (reg_a s) + sint m + cin s < -128 \<or> 127 < sint (reg_a s) + sint m + cin s) \<and>
    (bit (reg_p s') 1 \<longleftrightarrow> r mod 256 = 0) \<and> (bit (reg_p s') 7 \<longleftrightarrow> 128 \<le> r mod 256) \<and>
    (\<forall>n. 2 \<le> n \<and> n \<le> 5 \<longrightarrow> bit (reg_p s') n = bit (reg_p s) n) \<and> other_regs s' = other_regs s"
proof -
  let ?w = "ucast (reg_a s) + ucast m + ucast (carry s) :: u16"
  have w: "uint ?w = r"
    using sum16 [of "ucast (carry s)" "reg_a s" m] cin_range [of s] by (simp add: uint_carry_cin r_def)
  have g: "0xFF < ?w \<longleftrightarrow> 256 \<le> r" by (simp add: word_less_alt w) linarith
  have z: "ucast ?w = (0 :: u8) \<longleftrightarrow> r mod 256 = 0"
    by (simp only: word_uint_eq_iff uint_ucast16_8 w) simp
  have n: "bit (ucast ?w :: u8) 7 \<longleftrightarrow> 128 \<le> r mod 256"
    by (simp only: bit7_uint uint_ucast16_8 w)
  note v = overflow_bit [OF cin_range w [unfolded r_def]]
  have s': "s' = set_a (ucast ?w) (setIf (tst (NOT (ucast (reg_a s) XOR ucast m) AND (ucast (reg_a s) XOR ?w)) 0x0080)
      FLAG_V (setIf (0xFF < ?w) FLAG_C (clrP (FLAG_C OR FLAG_V OR FLAG_Z OR FLAG_N) s)))"
    by (simp only: s'_def add_binary_def Let_def)
  have b: "bit (reg_p s') k \<longleftrightarrow> (if k = 1 then r mod 256 = 0 else if k = 7 then 128 \<le> r mod 256
      else (bit (reg_p s) k \<and> \<not> (k = 0 \<or> k = 6 \<or> k = 1 \<or> k = 7)) \<or> (256 \<le> r \<and> k = 0) \<or>
        ((sint (reg_a s) + sint m + cin s < -128 \<or> 127 < sint (reg_a s) + sint m + cin s) \<and> k = 6))" for k
    unfolding s' bit_set_a bit_setIf bit_clrP adc_mask g v z n bit_mask8 bit_1_0 by auto
  have a: "uint (reg_a s') = r mod 256" by (simp only: s' reg_a_set_a uint_ucast16_8 w)
  have "other_regs s' = other_regs s" by (simp only: s' other_regs_flags)
  then show ?thesis using a b by simp
qed

theorem adc_binary_correct_witness:
  "let s = (m_state (cpu_new False ()))\<lparr>reg_a := 0x7F, reg_p := 0x25\<rparr>; s' = add_binary 0 s
   in uint (reg_a s') = 128 \<and> \<not> bit (reg_p s') 0 \<and> bit (reg_p s') 6 \<and> bit (reg_p s') 2"
proof -
  let ?s = "(m_state (cpu_new False ()))\<lparr>reg_a := 0x7F, reg_p := 0x25\<rparr>"
  have "cin ?s = 1" "bit (reg_p ?s) 2" "sint (reg_a ?s) = 127"
    by (simp_all add: cin_def)
  then show ?thesis using adc_binary_correct [of 0 ?s] by (simp add: Let_def)
qed

lemma sint_not_u8: "sint (m XOR 0xFF :: u8) = - 1 - sint m"
  using uint_u8 [of m] by (simp add: sint_u8 uint_not_u8)

text \<open>
  Binary subtraction (SBC outside decimal mode): A becomes A minus the operand minus the borrow
  modulo 256, C is set exactly when no borrow goes out, V exactly when the signed difference
  does not fit in a byte.
\<close>

theorem sbc_binary_correct:
  fixes s :: cpu6502_state and m :: u8
  assumes "\<not> bit (reg_p s) 3"
  defines "s' \<equiv> sbc_nmos m s" and "d \<equiv> uint (reg_a s) - uint m - (1 - cin s)"
  shows "uint (reg_a s') = d mod 256 \<and> (bit (reg_p s') 0 \<longleftrightarrow> 0 \<le> d) \<and>
    (bit (reg_p s') 6 \<longleftrightarrow>
       sint (reg_a s) - sint m - (1 - cin s) < -128 \<or> 127 < sint (reg_a s) - sint m - (1 - cin s)) \<and>
    (bit (reg_p s') 1 \<longleftrightarrow> d mod 256 = 0) \<and> (bit (reg_p s') 7 \<longleftrightarrow> 128 \<le> d mod 256) \<and>
    other_regs s' = other_regs s"
proof -
  let ?b = "add_binary (m XOR 0xFF) s"
  have b: "uint (reg_a ?b) = (d + 256) mod 256 \<and> (bit (reg_p ?b) 0 \<longleftrightarrow> 0 \<le> d) \<and>
    (bit (reg_p ?b) 6 \<longleftrightarrow> sint (reg_a s) - sint m - (1 - cin s) < -128 \<or> 127 < sint (reg_a s) - sint m - (1 - cin s)) \<and>
    (bit (reg_p ?b) 1 \<longleftrightarrow> (d + 256) mod 256 = 0) \<and> (bit (reg_p ?b) 7 \<longleftrightarrow> 128 \<le> (d + 256) mod 256) \<and>
    bit (reg_p ?b) 3 = bit (reg_p s) 3 \<and> other_regs ?b = other_regs s"
    using adc_binary_correct [of "m XOR 0xFF" s]
    unfolding sint_not_u8 uint_not_u8 by (auto simp: d_def algebra_simps)
  have "\<not> tst (reg_p ?b) FLAG_D" using b assms(1) by (simp add: tst_bit)
  then have "s' = ?b" by (simp only: s'_def sbc_nmos_def Let_def if_False)
  then show ?thesis using b by simp
qed

theorem sbc_binary_correct_witness:
  "let s = (m_state (cpu_new False ()))\<lparr>reg_a := 5\<rparr>; s' = sbc_nmos 5 s
   in uint (reg_a s') = 255 \<and> \<not> bit (reg_p s') 0"
proof -
  let ?s = "(m_state (cpu_new False ()))\<lparr>reg_a := 5\<rparr>"
  have "\<not> bit (reg_p ?s) 3" "cin ?s = 0" "reg_a ?s = 5"
    by (simp_all add: cin_def cpu_new_def)
  then show ?thesis using sbc_binary_correct [of ?s 5] by (simp add: Let_def)
qed

text \<open>
  A comparison (CMP, CPX, CPY) sets C exactly when the register is at least the operand, Z
  exactly when they are equal, N to bit 7 of the difference, and changes nothing else.
\<close>

theorem compare_correct:
  fixes s :: cpu6502_state and r m :: u8
  defines "s' \<equiv> compare_with r m s"
  shows "(bit (reg_p s') 0 \<longleftrightarrow> uint m \<le> uint r) \<and> (bit (reg_p s') 1 \<longleftrightarrow> r = m) \<and>
    (bit (reg_p s') 7 \<longleftrightarrow> 128 \<le> (uint r - uint m) mod 256) \<and>
    (\<forall>n \<in> {2, 3, 4, 5, 6}. bit (reg_p s') n = bit (reg_p s) n) \<and>
    reg_a s' = reg_a s \<and> other_regs s' = other_regs s"
proof -
  have d: "ucast (ucast r - ucast m :: u16) = r - m"
    by (simp add: word_uint_eq_iff uint_ucast16_8 uint_word_ariths mod_mod_cancel)
  have "bit (r - m) 7 \<longleftrightarrow> 128 \<le> (uint r - uint m) mod 256"
    by (simp add: bit7_uint uint_word_ariths)
  then show ?thesis
    by (auto simp: s'_def compare_with_def d word_le_def bit_1_0)
qed

theorem compare_correct_witness:
  "let s' = compare_with 0x40 0x41 (m_state (cpu_new False ()))
   in \<not> bit (reg_p s') 0 \<and> \<not> bit (reg_p s') 1 \<and> bit (reg_p s') 7 \<and> bit (reg_p s') 2"
  using compare_correct [of "0x40" "0x41" "m_state (cpu_new False ())"]
  by (simp add: Let_def cpu_new_def)

section \<open>Decimal mode\<close>

definition bcd :: "u8 \<Rightarrow> bool" where
  "bcd v \<longleftrightarrow> uint v div 16 \<le> 9 \<and> uint v mod 16 \<le> 9"

definition bcd_val :: "u8 \<Rightarrow> int" where
  "bcd_val v = 10 * (uint v div 16) + uint v mod 16"

lemma and_low4: "x AND 0x0F = x mod (16 :: int)"
proof -
  have "(0x0F :: int) = mask 4" by (simp add: mask_eq_exp_minus_1)
  then show ?thesis by (simp only: flip: take_bit_eq_mask) (simp add: take_bit_eq_mod)
qed

lemma and_high4:
  assumes "0 \<le> x" and "x < 256"
  shows "x AND 0xF0 = 16 * (x div (16 :: int))"
proof -
  have e: "(0xF0 :: int) = push_bit 4 (mask 4)" by (simp add: mask_eq_exp_minus_1 push_bit_eq_mult)
  have "x AND push_bit 4 (mask 4) = push_bit 4 (take_bit 4 (drop_bit 4 x))"
    by (rule bit_eqI) (auto simp: bit_simps)
  also have "\<dots> = 16 * ((x div 16) mod 16)" by (simp add: push_bit_eq_mult drop_bit_eq_div take_bit_eq_mod)
  also have "\<dots> = 16 * (x div 16)" using assms by auto
  finally show ?thesis unfolding e .
qed

lemma nibbles:
  "0 \<le> uint (v :: u8) div 16" "uint v div 16 \<le> 15" "0 \<le> uint v mod 16" "uint v mod 16 \<le> 15"
  using uint_u8 [of v] by (simp_all add: pos_imp_zdiv_nonneg_iff)

text \<open>A byte made of two decimal digits.\<close>

lemma bcd_digits:
  assumes "uint v = 16 * h + l" and "0 \<le> h" "h \<le> 9" "0 \<le> l" "l \<le> (9 :: int)"
  shows "bcd v \<and> bcd_val v = 10 * h + l"
  using assms by (simp add: bcd_def bcd_val_def)

lemma two_digits:
  fixes h l :: int
  assumes "0 \<le> l" "l \<le> 9" "0 \<le> h" "h \<le> 19"
  shows "(10 * h + l) mod 100 = 10 * (if 10 \<le> h then h - 10 else h) + l"
    and "10 \<le> h \<longleftrightarrow> 100 \<le> 10 * h + l"
proof -
  show "10 \<le> h \<longleftrightarrow> 100 \<le> 10 * h + l" using assms by linarith
  show "(10 * h + l) mod 100 = 10 * (if 10 \<le> h then h - 10 else h) + l"
  proof (cases "10 \<le> h")
    case True
    then have "(10 * (h - 10) + l + 100) mod 100 = 10 * (h - 10) + l"
      using assms by (simp only: mod_add_self2) (simp add: mod_pos_pos_trivial)
    then show ?thesis using True by (simp add: algebra_simps)
  qed (use assms in \<open>simp add: mod_pos_pos_trivial\<close>)
qed

text \<open>Both variants compute digit by digit: \<open>l\<close> and \<open>h\<close> are the digit sums before carrying.\<close>

lemma bcd_sum:
  fixes al ah ml mh c :: int
  assumes "0 \<le> al" "al \<le> 9" "0 \<le> ah" "ah \<le> 9" "0 \<le> ml" "ml \<le> 9" "0 \<le> mh" "mh \<le> 9" "0 \<le> c" "c \<le> 1"
    and k: "k = (if 10 \<le> al + ml + c then 1 else 0)"
    and h: "h = ah + mh + k" and l: "l = al + ml + c - 10 * k"
  shows "0 \<le> l \<and> l \<le> 9 \<and> 0 \<le> h \<and> h \<le> 19 \<and>
    10 * (if 10 \<le> h then h - 10 else h) + l = (10 * ah + al + (10 * mh + ml) + c) mod 100 \<and>
    (10 \<le> h \<longleftrightarrow> 100 \<le> 10 * ah + al + (10 * mh + ml) + c)"
proof -
  have s: "10 * ah + al + (10 * mh + ml) + c = 10 * h + l" by (simp add: h l)
  have r: "0 \<le> l" "l \<le> 9" "0 \<le> h" "h \<le> 19"
    using assms(1-10) unfolding h l k by (simp_all split: if_split)
  show ?thesis unfolding s using two_digits [OF r] r by simp
qed

lemma reg_p_upd_a: "reg_p (s\<lparr>reg_a := w\<rparr>) = reg_p s"
  by simp

lemma nmos_adc_result:
  assumes "s' = adc_decimal_nmos m s"
    and "lo = (if 10 \<le> (uint (reg_a s) mod 16) + (uint m mod 16) + cin s
           then ((uint (reg_a s) mod 16) + (uint m mod 16) + cin s + 6) mod 16 + 16
           else (uint (reg_a s) mod 16) + (uint m mod 16) + cin s)"
    and "t = 16 * (uint (reg_a s) div 16) + 16 * (uint m div 16) + lo"
    and "t' = (if 160 \<le> t then t + 96 else t)"
  shows "reg_a s' = word_of_int t' \<and> (bit (reg_p s') 0 \<longleftrightarrow> 256 \<le> t') \<and>
    (\<forall>n. 2 \<le> n \<and> n \<le> 5 \<longrightarrow> bit (reg_p s') n = bit (reg_p s) n) \<and> other_regs s' = other_regs s"
proof -
  show ?thesis
    unfolding assms adc_decimal_nmos_def Let_def and_low4 and_high4 [OF uint_u8] uint_carry_cin
      reg_p_upd_a bit_setIf bit_clrP adc_mask bit_mask8 bit_1_0
    by simp
qed

lemma lo_carry:
  fixes x :: int
  assumes "0 \<le> x" "x \<le> 19"
  shows "(if 10 \<le> x then (x + 6) mod 16 + 16 else x) = x + 6 * (if 10 \<le> x then 1 else 0)"
proof -
  have "(x + 6) mod 16 = x - 10" if "10 \<le> x"
    using that assms mod_add_self2 [of "x - 10" 16] mod_pos_pos_trivial [of "x - 10" 16]
    by (simp add: algebra_simps)
  then show ?thesis by simp
qed

text \<open>Packing the digits: the high digit's carry out is the byte's.\<close>

lemma pack_digits:
  fixes h l t :: int
  assumes "0 \<le> l" "l \<le> 9" "0 \<le> h" "h \<le> 19" and t: "t = 16 * h + l"
  shows "(if 160 \<le> t then t + 96 else t) mod 256 = 16 * (if 10 \<le> h then h - 10 else h) + l"
    and "256 \<le> (if 160 \<le> t then t + 96 else t) \<longleftrightarrow> 10 \<le> h"
proof -
  have c: "160 \<le> t \<longleftrightarrow> 10 \<le> h" unfolding t using assms by linarith
  show "256 \<le> (if 160 \<le> t then t + 96 else t) \<longleftrightarrow> 10 \<le> h"
    unfolding c unfolding t using assms by auto
  show "(if 160 \<le> t then t + 96 else t) mod 256 = 16 * (if 10 \<le> h then h - 10 else h) + l"
  proof (cases "10 \<le> h")
    case True
    have "(16 * (h - 10) + l + 256) mod 256 = 16 * (h - 10) + l"
      using assms True by (simp only: mod_add_self2) (simp add: mod_pos_pos_trivial)
    then show ?thesis unfolding c unfolding t using True by (simp add: algebra_simps)
  qed (unfold c, unfold t, use assms in \<open>simp add: mod_pos_pos_trivial\<close>)
qed

definition bcd_sum_of :: "u8 \<Rightarrow> cpu6502_state \<Rightarrow> int" where
  "bcd_sum_of m s = bcd_val (reg_a s) + bcd_val m + cin s"

lemma nmos_adc_decimal:
  assumes a: "bcd (reg_a s)" and m: "bcd m"
  defines "s' \<equiv> adc_decimal_nmos m s"
  shows "bcd (reg_a s') \<and> bcd_val (reg_a s') = bcd_sum_of m s mod 100 \<and>
    (bit (reg_p s') 0 \<longleftrightarrow> 100 \<le> bcd_sum_of m s) \<and>
    (\<forall>n. 2 \<le> n \<and> n \<le> 5 \<longrightarrow> bit (reg_p s') n = bit (reg_p s) n) \<and> other_regs s' = other_regs s"
proof -
  define al ah ml mh c where d: "al = uint (reg_a s) mod 16" "ah = uint (reg_a s) div 16"
    "ml = uint m mod 16" "mh = uint m div 16" "c = cin s"
  define k where "k = (if 10 \<le> al + ml + c then 1 else 0 :: int)"
  define h where "h = ah + mh + k"
  define l where "l = al + ml + c - 10 * k"
  define lo where "lo = (if 10 \<le> al + ml + c then (al + ml + c + 6) mod 16 + 16 else al + ml + c)"
  have r: "0 \<le> al" "al \<le> 9" "0 \<le> ah" "ah \<le> 9" "0 \<le> ml" "ml \<le> 9" "0 \<le> mh" "mh \<le> 9" "0 \<le> c" "c \<le> 1"
    using a m nibbles [of "reg_a s"] nibbles [of m] cin_range [of s] by (simp_all add: d bcd_def)
  note S = bcd_sum [OF r k_def h_def l_def]
  have "lo = l + 16 * k" using lo_carry [of "al + ml + c"] r by (simp add: lo_def k_def l_def)
  then have t: "16 * ah + 16 * mh + lo = 16 * h + l" by (simp add: h_def)
  let ?t' = "if 160 \<le> 16 * h + l then 16 * h + l + 96 else 16 * h + l"
  have p: "?t' mod 256 = 16 * (if 10 \<le> h then h - 10 else h) + l" "256 \<le> ?t' \<longleftrightarrow> 10 \<le> h"
    using pack_digits [of l h "16 * h + l"] S by blast+
  note R = nmos_adc_result [OF meta_eq_to_obj_eq [OF s'_def] lo_def [unfolded d] refl refl, folded d, unfolded t]
  have B: "bcd (reg_a s')" and V: "bcd_val (reg_a s') = 10 * (if 10 \<le> h then h - 10 else h) + l"
    using R p(1) S bcd_digits [of "reg_a s'" "if 10 \<le> h then h - 10 else h" l]
    by (auto simp: word_of_int_uint_u8)
  have s: "bcd_sum_of m s = 10 * ah + al + (10 * mh + ml) + c"
    by (simp add: bcd_sum_of_def bcd_val_def d)
  have "bcd_val (reg_a s') = bcd_sum_of m s mod 100" unfolding V s using S by blast
  moreover have "bit (reg_p s') 0 \<longleftrightarrow> 100 \<le> bcd_sum_of m s" unfolding s using R p(2) S by blast
  ultimately show ?thesis using R B by blast
qed

lemma high_nibble_mask: "(0xF0 :: int) = push_bit 4 (mask 4)"
  by (simp add: mask_eq_exp_minus_1 push_bit_eq_mult)

lemma and_high4_gen: "x AND 0xF0 = 16 * (x div 16 mod (16 :: int))"
proof -
  have "x AND push_bit 4 (mask 4) = push_bit 4 (take_bit 4 (drop_bit 4 x))"
    by (rule bit_eqI) (auto simp: bit_simps)
  also have "\<dots> = 16 * ((x div 16) mod 16)" by (simp add: push_bit_eq_mult drop_bit_eq_div take_bit_eq_mod)
  finally show ?thesis unfolding high_nibble_mask .
qed

lemma join_nibbles:
  "uint (ucast ((lo AND 0x0F) OR (hi AND 0xF0) :: u16) :: u8) = 16 * (uint hi div 16 mod 16) + uint lo mod 16"
proof -
  have d: "\<not> bit (uint lo AND 0x0F) n \<or> \<not> bit (uint hi AND push_bit 4 (mask 4)) n" for n
    by (auto simp: bit_simps flag_bits)
  have "uint ((lo AND 0x0F) OR (hi AND 0xF0) :: u16) = (uint lo AND 0x0F) + (uint hi AND 0xF0)"
    using disjunctive_add [OF d] by (simp add: unsigned_or_eq unsigned_and_eq flip: high_nibble_mask)
  then show ?thesis by (simp add: uint_ucast16_8 and_low4 and_high4_gen)
qed

lemma tst_high: "tst (v :: u16) 0xFF00 \<longleftrightarrow> 256 \<le> uint v"
proof -
  have m: "(0xFF00 :: u16) = NOT (mask 8)" by (simp add: mask_eq_exp_minus_1)
  have p: "v AND NOT (mask 8) = push_bit 8 (drop_bit 8 v)"
    by (rule bit_word_eqI) (auto simp: bit_simps)
  have "push_bit 8 (drop_bit 8 v) = 0 \<longleftrightarrow> take_bit 8 v = v"
    using bits_ident [of 8 v] by (metis add_cancel_left_left)
  also have "\<dots> \<longleftrightarrow> uint v < 256"
    by (simp add: word_uint_eq_iff unsigned_take_bit_eq take_bit_int_eq_self_iff)
  finally show ?thesis unfolding tst_def m p by linarith
qed

lemma uint_add16: "uint (v :: u16) + uint w < 65536 \<Longrightarrow> uint (v + w) = uint v + uint w"
  using uint_ge_0 [of v] uint_ge_0 [of w] by (simp add: uint_word_ariths)

text \<open>The digit sums of the 65C02's decimal ADC, after its two adjustments.\<close>

lemma cmos_digit_sums:
  fixes a m :: u8 and cy hi0 hiOv hi :: u16
  assumes a: "bcd a" and m: "bcd m" and cy: "uint cy \<le> 1"
    and lo0: "lo0 = (ucast a AND 0x0F) + (ucast m AND 0x0F) + cy"
    and hi0: "hi0 = (ucast a AND 0xF0) + (ucast m AND 0xF0)"
    and hiOv: "hiOv = (if lo0 > 0x09 then hi0 + 0x10 else hi0)"
    and lo: "lo = (if lo0 > 0x09 then lo0 + 0x06 else lo0)"
    and hi: "hi = (if hiOv > 0x90 then hiOv + 0x60 else hiOv)"
    and k: "k = (if 10 \<le> uint a mod 16 + uint m mod 16 + uint cy then 1 else 0)"
    and h: "h = uint a div 16 + uint m div 16 + k"
    and l: "l = uint a mod 16 + uint m mod 16 + uint cy - 10 * k"
  shows "uint lo = l + 16 * k" and "uint hi = (if 10 \<le> h then 16 * h + 96 else 16 * h)"
proof -
  have b: "uint a div 16 \<le> 9" "uint a mod 16 \<le> 9" "uint m div 16 \<le> 9" "uint m mod 16 \<le> 9"
    using a m by (simp_all add: bcd_def)
  note r = nibbles [of a] nibbles [of m] b cy uint_ge_0 [of cy]
  have n: "uint (ucast a AND 0x0F :: u16) = uint a mod 16" "uint (ucast m AND 0x0F :: u16) = uint m mod 16"
    "uint (ucast a AND 0xF0 :: u16) = 16 * (uint a div 16)"
    "uint (ucast m AND 0xF0 :: u16) = 16 * (uint m div 16)"
    by (simp_all add: unsigned_and_eq and_low4 and_high4 [OF uint_u8])
  have u: "uint lo0 = uint a mod 16 + uint m mod 16 + uint cy" unfolding lo0 using r n by (simp add: uint_add16)
  have v: "uint hi0 = 16 * (uint a div 16) + 16 * (uint m div 16)" unfolding hi0
    using r n uint_add16 [of "ucast a AND 0xF0" "ucast m AND 0xF0"] by linarith
  have g: "lo0 > 0x09 \<longleftrightarrow> 10 \<le> uint a mod 16 + uint m mod 16 + uint cy"
    using u by (simp add: word_less_alt) linarith
  have kk: "0 \<le> k" "k \<le> 1" "10 \<le> uint a mod 16 + uint m mod 16 + uint cy \<longleftrightarrow> k = 1"
    unfolding k by simp_all
  show "uint lo = l + 16 * k"
  proof (cases "k = 1")
    case True
    then show ?thesis unfolding lo g kk l using u r(9-14) uint_add16 [of lo0 6] by simp
  next
    case False
    then have "k = 0" using kk by linarith
    then show ?thesis unfolding lo g kk l using u by simp
  qed
  have w: "uint hiOv = 16 * h"
  proof (cases "k = 1")
    case True
    then show ?thesis unfolding hiOv g kk h using v r(9-12) uint_add16 [of hi0 16] by simp
  next
    case False
    then have "k = 0" using kk by linarith
    then show ?thesis unfolding hiOv g kk h using v by simp
  qed
  have hh: "h \<le> 19" using h r kk by linarith
  have "hiOv > 0x90 \<longleftrightarrow> 10 \<le> h" using w by (simp add: word_less_alt) linarith
  then show "uint hi = (if 10 \<le> h then 16 * h + 96 else 16 * h)"
    unfolding hi using w hh uint_add16 [of hiOv 96] by (cases "10 \<le> h") simp_all
qed

lemma high_digit:
  assumes "0 \<le> h" "h \<le> (19 :: int)"
  shows "(if 10 \<le> h then 16 * h + 96 else 16 * h) div 16 mod 16 = (if 10 \<le> h then h - 10 else h)"
proof (cases "10 \<le> h")
  case True
  have "(h - 10 + 16) mod 16 = h - 10"
    using assms True by (simp only: mod_add_self2) (simp add: mod_pos_pos_trivial)
  then show ?thesis using True by (simp add: add.commute)
qed (use assms in \<open>simp add: mod_pos_pos_trivial\<close>)

lemma cmos_adc_decimal:
  assumes a: "bcd (reg_a s)" and m: "bcd m"
  defines "s' \<equiv> adc_decimal_cmos m s"
  shows "bcd (reg_a s') \<and> bcd_val (reg_a s') = bcd_sum_of m s mod 100 \<and>
    (bit (reg_p s') 0 \<longleftrightarrow> 100 \<le> bcd_sum_of m s) \<and>
    (\<forall>n. 2 \<le> n \<and> n \<le> 5 \<longrightarrow> bit (reg_p s') n = bit (reg_p s) n) \<and> other_regs s' = other_regs s \<and>
    (bit (reg_p s') 1 \<longleftrightarrow> reg_a s' = 0) \<and> (bit (reg_p s') 7 \<longleftrightarrow> bit (reg_a s') 7)"
proof -
  define al ah ml mh c where d: "al = uint (reg_a s) mod 16" "ah = uint (reg_a s) div 16"
    "ml = uint m mod 16" "mh = uint m div 16" "c = cin s"
  define k where "k = (if 10 \<le> al + ml + c then 1 else 0 :: int)"
  define h where "h = ah + mh + k"
  define l where "l = al + ml + c - 10 * k"
  have r: "0 \<le> al" "al \<le> 9" "0 \<le> ah" "ah \<le> 9" "0 \<le> ml" "ml \<le> 9" "0 \<le> mh" "mh \<le> 9" "0 \<le> c" "c \<le> 1"
    using a m nibbles [of "reg_a s"] nibbles [of m] cin_range [of s] by (simp_all add: d bcd_def)
  note S = bcd_sum [OF r k_def h_def l_def]
  define lo0 where "lo0 = (ucast (reg_a s) AND 0x0F) + (ucast m AND 0x0F) + (ucast (carry s) :: u16)"
  define hi0 where "hi0 = (ucast (reg_a s) AND 0xF0) + (ucast m AND 0xF0 :: u16)"
  define hiOv where "hiOv = (if lo0 > 0x09 then hi0 + 0x10 else hi0)"
  define lo where "lo = (if lo0 > 0x09 then lo0 + 0x06 else lo0)"
  define hi where "hi = (if hiOv > 0x90 then hiOv + 0x60 else hiOv)"
  define res where "res = (ucast ((lo AND 0x0F) OR (hi AND 0xF0)) :: u8)"
  have c: "uint (ucast (carry s) :: u16) = c" by (simp add: uint_carry_cin d)
  have c1: "uint (ucast (carry s) :: u16) \<le> 1" using r c by simp
  have D: "uint lo = l + 16 * k" "uint hi = (if 10 \<le> h then 16 * h + 96 else 16 * h)"
    using cmos_digit_sums [OF a m c1 lo0_def hi0_def hiOv_def lo_def hi_def k_def [unfolded d(1,3) c [symmetric]] refl refl,
        unfolded c, folded d(1-4), folded h_def l_def] .
  have res: "uint res = 16 * (if 10 \<le> h then h - 10 else h) + l"
    unfolding res_def join_nibbles D using high_digit [of h] S by (simp add: mod_pos_pos_trivial)
  have C: "tst hi 0xFF00 \<longleftrightarrow> 10 \<le> h" unfolding tst_high D using S by auto
  obtain b where s': "s' = updateNZ res ((setIf b FLAG_V (setIf (10 \<le> h) FLAG_C
      (clrP (FLAG_C OR FLAG_V OR FLAG_Z OR FLAG_N) s)))\<lparr>reg_a := res\<rparr>)"
    unfolding s'_def adc_decimal_cmos_def Let_def lo0_def [symmetric] hi0_def [symmetric] hiOv_def [symmetric]
      lo_def [symmetric] hi_def [symmetric] res_def [symmetric] C by blast
  have P: "bit (reg_p s') n \<longleftrightarrow> (if n = 1 then res = 0 else if n = 7 then bit res 7 else
      ((bit (reg_p s) n \<and> \<not> (n = 0 \<or> n = 6 \<or> n = 1 \<or> n = 7)) \<or> (10 \<le> h \<and> n = 0)) \<or> (b \<and> n = 6))" for n
    unfolding s' bit_updateNZ reg_p_upd_a bit_clrP bit_setIf adc_mask bit_mask8 bit_1_0 ..
  have B: "bcd res" and V: "bcd_val res = 10 * (if 10 \<le> h then h - 10 else h) + l"
    using res S bcd_digits [of res "if 10 \<le> h then h - 10 else h" l] by auto
  have s: "bcd_sum_of m s = 10 * ah + al + (10 * mh + ml) + c"
    by (simp add: bcd_sum_of_def bcd_val_def d)
  have "bcd_val res = bcd_sum_of m s mod 100" "10 \<le> h \<longleftrightarrow> 100 \<le> bcd_sum_of m s"
    unfolding V s using S by blast+
  moreover have "reg_a s' = res" "other_regs s' = other_regs s" by (simp_all add: s')
  ultimately show ?thesis using P B by auto
qed

text \<open>Subtraction digit by digit, with the borrow.\<close>

lemma bcd_diff:
  fixes al ah ml mh c :: int
  assumes "0 \<le> al" "al \<le> 9" "0 \<le> ah" "ah \<le> 9" "0 \<le> ml" "ml \<le> 9" "0 \<le> mh" "mh \<le> 9" "0 \<le> c" "c \<le> 1"
    and b: "b = (if al - ml + c - 1 < 0 then 1 else 0)"
    and h: "h = ah - mh - b" and l: "l = al - ml + c - 1 + 10 * b"
  shows "0 \<le> l \<and> l \<le> 9 \<and> -10 \<le> h \<and> h \<le> 9 \<and>
    10 * h + l = 10 * ah + al - (10 * mh + ml) - (1 - c) \<and>
    (0 \<le> h \<longleftrightarrow> 0 \<le> 16 * ah + al - (16 * mh + ml) - (1 - c))"
proof -
  have "0 \<le> b" "b \<le> 1" by (simp_all add: b)
  then have r: "0 \<le> l" "l \<le> 9" "-10 \<le> h" "h \<le> 9"
    using assms(1-10) unfolding h l by (auto simp: b split: if_splits)
  have e: "16 * ah + al - (16 * mh + ml) - (1 - c) = 16 * h + l + 6 * b"
    "10 * ah + al - (10 * mh + ml) - (1 - c) = 10 * h + l" by (simp_all add: h l)
  have "0 \<le> h \<longleftrightarrow> 0 \<le> 16 * h + l + 6 * b" using r \<open>0 \<le> b\<close> \<open>b \<le> 1\<close> by linarith
  then show ?thesis unfolding e using r by blast
qed

lemma pack_diff:
  fixes h l t :: int
  assumes "0 \<le> l" "l \<le> 9" "-10 \<le> h" "h \<le> 9" and t: "t = 16 * h + l"
  shows "(if h < 0 then t - 96 else t) mod 256 = 16 * (if h < 0 then h + 10 else h) + l"
    and "t < 0 \<longleftrightarrow> h < 0"
    and "(10 * h + l) mod 100 = 10 * (if h < 0 then h + 10 else h) + l"
proof -
  show "t < 0 \<longleftrightarrow> h < 0" unfolding t using assms by linarith
  show "(if h < 0 then t - 96 else t) mod 256 = 16 * (if h < 0 then h + 10 else h) + l"
  proof (cases "h < 0")
    case True
    then show ?thesis
      using assms mod_add_self2 [of "t - 96" 256] mod_pos_pos_trivial [of "16 * (h + 10) + l" 256] by simp
  qed (use assms in \<open>simp add: mod_pos_pos_trivial\<close>)
  show "(10 * h + l) mod 100 = 10 * (if h < 0 then h + 10 else h) + l"
  proof (cases "h < 0")
    case True
    have "(10 * (h + 10) + l - 100) mod 100 = 10 * (h + 10) + l"
      using assms True by (simp only: minus_mod_self2) (simp add: mod_pos_pos_trivial)
    then show ?thesis using True by (simp add: algebra_simps)
  qed (use assms in \<open>simp add: mod_pos_pos_trivial\<close>)
qed

lemma low_borrow:
  fixes x :: int
  assumes "-10 \<le> x" "x < 0"
  shows "(x - 6) mod 16 - 16 = x - 6"
  using assms mod_add_self2 [of "x - 6" 16] mod_pos_pos_trivial [of "x + 10" 16] by simp

lemma diff_parts:
  fixes a m a1 a0 m1 m0 b c :: int
  assumes "16 * a1 + a0 = a" and "16 * m1 + m0 = m"
  shows "a - m + c - 1 = 16 * (a1 - m1 - b) + (a0 - m0 + c - 1 + 10 * b) + 6 * b"
  unfolding assms [symmetric] by simp

definition bcd_diff_of :: "u8 \<Rightarrow> cpu6502_state \<Rightarrow> int" where
  "bcd_diff_of m s = bcd_val (reg_a s) - bcd_val m - (1 - cin s)"

text \<open>A result byte packed from the digits of the difference has the difference's value.\<close>

lemma diff_result:
  assumes a: "bcd (reg_a s)" and m: "bcd m"
    and b: "b = (if uint (reg_a s) mod 16 - uint m mod 16 + cin s - 1 < 0 then 1 else 0)"
    and h: "h = uint (reg_a s) div 16 - uint m div 16 - b"
    and l: "l = uint (reg_a s) mod 16 - uint m mod 16 + cin s - 1 + 10 * b"
    and v: "v = word_of_int (if h < 0 then 16 * h + l - 96 else 16 * h + l)"
  shows "bcd v \<and> bcd_val v = bcd_diff_of m s mod 100 \<and>
    (0 \<le> uint (reg_a s) - uint m - (1 - cin s) \<longleftrightarrow> 0 \<le> bcd_diff_of m s) \<and> (16 * h + l < 0 \<longleftrightarrow> h < 0) \<and>
    uint (reg_a s) - uint m + cin s - 1 = 16 * h + l + 6 * b \<and>
    (0 \<le> h \<longleftrightarrow> 0 \<le> uint (reg_a s) - uint m + cin s - 1) \<and>
    -10 \<le> uint (reg_a s) mod 16 - uint m mod 16 + cin s - 1"
proof -
  have r: "0 \<le> uint (reg_a s) mod 16" "uint (reg_a s) mod 16 \<le> 9" "0 \<le> uint (reg_a s) div 16"
    "uint (reg_a s) div 16 \<le> 9" "0 \<le> uint m mod 16" "uint m mod 16 \<le> 9" "0 \<le> uint m div 16"
    "uint m div 16 \<le> 9" "0 \<le> cin s" "cin s \<le> 1"
    using a m nibbles [of "reg_a s"] nibbles [of m] cin_range [of s] by (simp_all add: bcd_def)
  note D = bcd_diff [OF r b h l]
  have D': "0 \<le> l" "l \<le> 9" "-10 \<le> h" "h \<le> 9" using D by blast+
  note P = pack_diff [OF D' refl]
  have V: "bcd v \<and> bcd_val v = 10 * (if h < 0 then h + 10 else h) + l"
    using D' by (intro bcd_digits) (simp_all add: v word_of_int_uint_u8 P(1))
  have e: "16 * (x div 16) + x mod 16 = x" for x :: int by simp
  have s: "bcd_diff_of m s = 10 * h + l" using D by (simp add: bcd_diff_of_def bcd_val_def)
  have "0 \<le> h \<longleftrightarrow> 0 \<le> uint (reg_a s) - uint m - (1 - cin s)" using D unfolding e by blast
  moreover have "0 \<le> 10 * h + l \<longleftrightarrow> 0 \<le> h" using D' by linarith
  moreover have "uint (reg_a s) - uint m + cin s - 1 = 16 * h + l + 6 * b"
    unfolding h l by (rule diff_parts) (rule e)+
  moreover have "-10 \<le> uint (reg_a s) mod 16 - uint m mod 16 + cin s - 1" using r by linarith
  moreover have "uint (reg_a s) - uint m + cin s - 1 = uint (reg_a s) - uint m - (1 - cin s)" by simp
  ultimately show ?thesis unfolding s P(3) using V P(2) by metis
qed

lemma nmos_sbc_decimal:
  assumes a: "bcd (reg_a s)" and m: "bcd m" and d: "bit (reg_p s) 3"
  defines "s' \<equiv> sbc_nmos m s"
  shows "bcd (reg_a s') \<and> bcd_val (reg_a s') = bcd_diff_of m s mod 100 \<and>
    (bit (reg_p s') 0 \<longleftrightarrow> 0 \<le> bcd_diff_of m s) \<and> other_regs s' = other_regs s"
proof -
  let ?b = "add_binary (m XOR 0xFF) s"
  have B: "bit (reg_p ?b) 0 \<longleftrightarrow> 0 \<le> uint (reg_a s) - uint m - (1 - cin s)" "bit (reg_p ?b) 3"
    "other_regs ?b = other_regs s"
    using adc_binary_correct [of "m XOR 0xFF" s] d by (auto simp: uint_not_u8)
  define b where "b = (if uint (reg_a s) mod 16 - uint m mod 16 + cin s - 1 < 0 then 1 else 0 :: int)"
  define h where "h = uint (reg_a s) div 16 - uint m div 16 - b"
  define l where "l = uint (reg_a s) mod 16 - uint m mod 16 + cin s - 1 + 10 * b"
  define x where "x = uint (reg_a s) mod 16 - uint m mod 16 + cin s - 1"
  define lo where "lo = (if x < 0 then (x - 6) mod 16 - 16 else x)"
  note D = diff_result [OF a m b_def h_def l_def refl]
  have "-10 \<le> x" using D unfolding x_def by blast
  then have "lo = l - 16 * b"
    using low_borrow [of x] unfolding lo_def l_def b_def x_def [symmetric] by (cases "x < 0") simp_all
  then have r: "16 * (uint (reg_a s) div 16) - 16 * (uint m div 16) + lo = 16 * h + l"
    by (simp add: h_def)
  have t: "tst (reg_p ?b) FLAG_D" using B by (simp add: tst_bit)
  have "s' = ?b\<lparr>reg_a := word_of_int (if 16 * h + l < 0 then 16 * h + l - 96 else 16 * h + l)\<rparr>"
    unfolding s'_def sbc_nmos_def Let_def and_low4 and_high4 [OF uint_u8] uint_carry_cin
    using t r unfolding lo_def x_def by simp
  then show ?thesis using D B by simp
qed

lemma odd_div256: "0 \<le> x \<Longrightarrow> x < 512 \<Longrightarrow> odd (x div 256) \<longleftrightarrow> 256 \<le> (x :: int)"
  using odd_div_double [of x 256] by simp

lemma tst_bit8: "tst (word_of_int x :: u16) 0x100 \<longleftrightarrow> odd (x div 256)"
proof -
  have "tst (word_of_int x :: u16) 0x100 \<longleftrightarrow> bit (word_of_int x :: u16) 8" by (simp add: tst_bit)
  also have "\<dots> \<longleftrightarrow> bit x 8" by (simp add: bit_word_of_int_iff)
  finally show ?thesis by (simp add: bit_iff_odd)
qed

lemma cmos_sbc_decimal:
  assumes a: "bcd (reg_a s)" and m: "bcd m"
  defines "s' \<equiv> sbc_decimal_cmos m s"
  shows "bcd (reg_a s') \<and> bcd_val (reg_a s') = bcd_diff_of m s mod 100 \<and>
    (bit (reg_p s') 0 \<longleftrightarrow> 0 \<le> bcd_diff_of m s) \<and> other_regs s' = other_regs s \<and>
    (bit (reg_p s') 1 \<longleftrightarrow> reg_a s' = 0) \<and> (bit (reg_p s') 7 \<longleftrightarrow> bit (reg_a s') 7)"
proof -
  define b where "b = (if uint (reg_a s) mod 16 - uint m mod 16 + cin s - 1 < 0 then 1 else 0 :: int)"
  define h where "h = uint (reg_a s) div 16 - uint m div 16 - b"
  define l where "l = uint (reg_a s) mod 16 - uint m mod 16 + cin s - 1 + 10 * b"
  define v where "v = (word_of_int (if h < 0 then 16 * h + l - 96 else 16 * h + l) :: u8)"
  define r where "r = uint (reg_a s) - uint m + cin s - 1"
  note D = diff_result [OF a m b_def h_def l_def v_def]
  have c: "(if tst (reg_p s) FLAG_C then 1 else 0) = cin s" by (simp add: cin_def tst_bit)
  have x: "uint m XOR 0xFF = 255 - uint m" using uint_not_u8 [of m] by (simp add: unsigned_xor_eq)
  have bin: "uint (reg_a s) + (255 - uint m) + cin s = r + 256" by (simp add: r_def)
  have "- 256 \<le> r" "r < 256"
    unfolding r_def using uint_u8 [of "reg_a s"] uint_u8 [of m] cin_range [of s] by linarith+
  then have C: "odd ((r + 256) div 256) \<longleftrightarrow> 0 \<le> r" using odd_div256 [of "r + 256"] by simp
  have fin: "(if uint (reg_a s) mod 16 - uint m mod 16 + cin s - 1 < 0
      then (if r < 0 then r - 96 else r) - 6 else (if r < 0 then r - 96 else r)) =
    (if h < 0 then 16 * h + l - 96 else 16 * h + l)"
    using D by (auto simp: b_def r_def)
  obtain q where s': "s' = set_a v (setIf q FLAG_V (setIf (0 \<le> r) FLAG_C
      (clrP (FLAG_C OR FLAG_V OR FLAG_Z OR FLAG_N) s)))"
    unfolding s'_def sbc_decimal_cmos_def Let_def and_low4 c x tst_bit8 bin C
      r_def [symmetric] fin v_def [symmetric] by blast
  have P: "bit (reg_p s') n \<longleftrightarrow> (if n = 1 then v = 0 else if n = 7 then bit v 7 else
      ((bit (reg_p s) n \<and> \<not> (n = 0 \<or> n = 6 \<or> n = 1 \<or> n = 7)) \<or> (0 \<le> r \<and> n = 0)) \<or> (q \<and> n = 6))" for n
    unfolding s' bit_set_a bit_clrP bit_setIf adc_mask bit_mask8 bit_1_0 ..
  have "r = uint (reg_a s) - uint m - (1 - cin s)" by (simp add: r_def)
  then have "0 \<le> r \<longleftrightarrow> 0 \<le> bcd_diff_of m s" using D by metis
  moreover have "reg_a s' = v" "other_regs s' = other_regs s" by (simp_all add: s')
  ultimately show ?thesis using D P by auto
qed

text \<open>
  C15: ADC in decimal mode on two packed-BCD bytes gives the packed-BCD byte of the decimal sum
  modulo 100 and sets C exactly on a decimal carry, on the NMOS part and on the 65C02; the
  65C02 also sets Z and N from that result. Both leave the other registers and flags alone.
\<close>

theorem adc_decimal_correct:
  assumes "bcd (reg_a s)" and "bcd m"
  shows "(\<forall>s' \<in> {adc_decimal_nmos m s, adc_decimal_cmos m s}.
      bcd (reg_a s') \<and> bcd_val (reg_a s') = (bcd_val (reg_a s) + bcd_val m + cin s) mod 100 \<and>
      (bit (reg_p s') 0 \<longleftrightarrow> 100 \<le> bcd_val (reg_a s) + bcd_val m + cin s) \<and>
      (\<forall>n. 2 \<le> n \<and> n \<le> 5 \<longrightarrow> bit (reg_p s') n = bit (reg_p s) n) \<and> other_regs s' = other_regs s) \<and>
    (let c = adc_decimal_cmos m s in
      (bit (reg_p c) 1 \<longleftrightarrow> reg_a c = 0) \<and> (bit (reg_p c) 7 \<longleftrightarrow> bit (reg_a c) 7))"
  using nmos_adc_decimal [OF assms] cmos_adc_decimal [OF assms]
  by (simp add: bcd_sum_of_def Let_def)

theorem adc_decimal_correct_witness:
  "let s = (m_state (cpu_new True ()))\<lparr>reg_a := 0x58, reg_p := 0x09\<rparr>; s' = adc_decimal_cmos 0x46 s
   in bcd_val (reg_a s') = 5 \<and> bit (reg_p s') 0"
proof -
  let ?s = "(m_state (cpu_new True ()))\<lparr>reg_a := 0x58, reg_p := 0x09\<rparr>"
  have "bcd (reg_a ?s)" "bcd 0x46" by (simp_all add: bcd_def)
  from adc_decimal_correct [OF this] show ?thesis by (simp add: Let_def bcd_val_def cin_def)
qed

text \<open>
  SBC in decimal mode on two packed-BCD bytes gives the packed-BCD byte of the decimal
  difference modulo 100 and sets C exactly when there is no decimal borrow, on the NMOS part
  and on the 65C02, which also sets Z and N from that result.
\<close>

theorem sbc_decimal_correct:
  assumes "bcd (reg_a s)" and "bcd m" and "bit (reg_p s) 3"
  shows "(\<forall>s' \<in> {sbc_nmos m s, sbc_decimal_cmos m s}.
      bcd (reg_a s') \<and> bcd_val (reg_a s') = (bcd_val (reg_a s) - bcd_val m - (1 - cin s)) mod 100 \<and>
      (bit (reg_p s') 0 \<longleftrightarrow> 0 \<le> bcd_val (reg_a s) - bcd_val m - (1 - cin s)) \<and>
      other_regs s' = other_regs s) \<and>
    (let c = sbc_decimal_cmos m s in
      (bit (reg_p c) 1 \<longleftrightarrow> reg_a c = 0) \<and> (bit (reg_p c) 7 \<longleftrightarrow> bit (reg_a c) 7))"
  using nmos_sbc_decimal [OF assms] cmos_sbc_decimal [OF assms(1,2)]
  by (simp add: bcd_diff_of_def Let_def)

theorem sbc_decimal_correct_witness:
  "let s = (m_state (cpu_new True ()))\<lparr>reg_a := 0x46, reg_p := 0x09\<rparr>; s' = sbc_nmos 0x58 s
   in bcd_val (reg_a s') = 88 \<and> \<not> bit (reg_p s') 0"
proof -
  let ?s = "(m_state (cpu_new True ()))\<lparr>reg_a := 0x46, reg_p := 0x09\<rparr>"
  have "bcd (reg_a ?s)" "bcd 0x58" "bit (reg_p ?s) 3" by (simp_all add: bcd_def)
  from sbc_decimal_correct [OF this] show ?thesis by (simp add: Let_def bcd_val_def cin_def)
qed

end
