(* ===== verification/Cpu6502Flow.thy ===== *)
theory Cpu6502Flow
  imports Cpu6502Arith FlatBus
begin

text \<open>
  Control flow of the processor on a bus with RAM in the stack page: what is pushed can be pulled,
  a subroutine returns after its call, an interrupt handler returns to the interrupted program.
  The memory is any \<open>ram_bus\<close>; the witnesses run on a \<open>FlatMemoryBus\<close>.
\<close>

section \<open>The stack page\<close>

definition stack_page :: "u32 set" where
  "stack_page = {0x100..0x1FF}"

definition stack_loc :: "u8 \<Rightarrow> u32" where
  "stack_loc sp = ucast (stack_addr sp)"

lemma unat_u8_le [simp]: "unat (v :: u8) \<le> 255"
  using unat_u8_lt [of v] by linarith

lemma stack_addr_unat: "unat (stack_addr sp) = 256 + unat sp"
proof -
  have "(0x0100 :: u16) = 2 ^ 8" by simp
  then have "0x0100 OR ucast sp = (0x0100 :: u16) + ucast sp"
    using bit_imp_le_length [of sp 8]
    by (intro disjunctive_add [symmetric]) (auto simp only: bit_exp_iff bit_ucast_iff, simp_all)
  moreover have "256 + unat sp < 65536" using unat_u8_le [of sp] by linarith
  ultimately show ?thesis by (simp add: stack_addr_def unat_word_ariths)
qed

lemma stack_loc_unat: "unat (stack_loc sp) = 256 + unat sp"
  by (simp add: stack_loc_def stack_addr_unat)

lemma stack_loc_page [simp]: "stack_loc sp \<in> stack_page"
  by (simp add: stack_page_def word_le_nat_alt stack_loc_unat)

lemma stack_loc_eq [simp]: "stack_loc a = stack_loc b \<longleftrightarrow> a = b"
  by (metis stack_loc_unat add_left_cancel word_unat_eq_iff)

section \<open>A processor on a bus\<close>

locale cpu_bus = ram_bus ib mem ram ok for ib :: "'b ibus" and mem ram ok +
  fixes E :: "'b cpu_env"
  assumes bus: "ce_bus E = Some ib" and stack_ram: "stack_page \<subseteq> ram"
    and no_hook: "ce_onVectorPull E = None"
begin

lemma stack_loc_ram [simp]: "stack_loc sp \<in> ram"
  using stack_ram stack_loc_page by blast

lemma push_state [simp]:
  "m_state (final (cpu_push E v) c) = (m_state c)\<lparr>reg_sp := reg_sp (m_state c) - 1\<rparr>"
  "m_cmos (final (cpu_push E v) c) = m_cmos c"
  by (simp_all add: cpu_push_def cpu_write_def bus)

lemma push_mem:
  assumes "ok (m_mem c)"
  shows "ok (m_mem (final (cpu_push E v) c))"
    and "a \<in> ram \<Longrightarrow> mem (m_mem (final (cpu_push E v) c)) a =
      (if a = stack_loc (reg_sp (m_state c)) then v else mem (m_mem c) a)"
  using assms write_ok [of "m_mem c" "stack_loc (reg_sp (m_state c))" v]
    write_ram [of "m_mem c" "stack_loc (reg_sp (m_state c))" a v]
  by (simp_all add: cpu_push_def cpu_write_def bus flip: stack_loc_def)

lemma read_state [simp]:
  "m_state (final (cpu_read E a) c) = m_state c" "m_cmos (final (cpu_read E a) c) = m_cmos c"
  by (simp_all add: cpu_read_def bus)

lemma read_mem:
  assumes "ok (m_mem c)" and "ucast a \<in> ram"
  shows "ok (m_mem (final (cpu_read E a) c))"
    and "result (cpu_read E a) c = mem (m_mem c) (ucast a)"
    and "x \<in> ram \<Longrightarrow> mem (m_mem (final (cpu_read E a) c)) x = mem (m_mem c) x"
  using assms read_ok read_ram read_frame by (simp_all add: cpu_read_def bus)

lemma pop_state [simp]:
  "m_state (final (cpu_pop E) c) = (m_state c)\<lparr>reg_sp := reg_sp (m_state c) + 1\<rparr>"
  "m_cmos (final (cpu_pop E) c) = m_cmos c"
  by (simp_all add: cpu_pop_def case_prod_beta)

lemma pop_mem:
  assumes "ok (m_mem c)"
  shows "ok (m_mem (final (cpu_pop E) c))"
    and "result (cpu_pop E) c = mem (m_mem c) (stack_loc (reg_sp (m_state c) + 1))"
    and "x \<in> ram \<Longrightarrow> mem (m_mem (final (cpu_pop E) c)) x = mem (m_mem c) x"
proof -
  have r: "ucast (stack_addr (reg_sp (m_state c) + 1)) \<in> ram"
    using stack_loc_ram by (simp add: stack_loc_def)
  show "ok (m_mem (final (cpu_pop E) c))"
    "result (cpu_pop E) c = mem (m_mem c) (stack_loc (reg_sp (m_state c) + 1))"
    "x \<in> ram \<Longrightarrow> mem (m_mem (final (cpu_pop E) c)) x = mem (m_mem c) x"
    using assms r read_mem by (simp_all add: cpu_pop_def stack_loc_def case_prod_beta)
qed

lemmas run_mem = push_mem read_mem pop_mem

lemma subroutine:
  fixes c :: "'b mos6502" and a :: u16
  assumes "ok (m_mem c)"
  defines "j \<equiv> final (opJSR E a) c"
  shows "reg_pc (m_state j) = a" and "m_state (final (opRTS E x) j) = m_state c"
    and "ok (m_mem j)" and "y \<in> ram \<Longrightarrow> y \<notin> stack_page \<Longrightarrow> mem (m_mem j) y = mem (m_mem c) y"
  using assms by (auto simp: opJSR_def opRTS_def run_mem case_prod_beta Let_def)

text \<open>Entering a handler, and returning from it.\<close>

lemma handler_entry:
  fixes c :: "'b mos6502" and f :: "u8 \<Rightarrow> u8" and v :: u16
  assumes "ok (m_mem c)" and "ucast v \<in> ram" and "ucast (v + 1) \<in> ram"
    and "ucast v \<notin> stack_page" and "ucast (v + 1) \<notin> stack_page"
  defines "h \<equiv> final (enter_handler E f v) c"
  shows "reg_pc (m_state h) = mk16 (mem (m_mem c) (ucast v)) (mem (m_mem c) (ucast (v + 1)))"
    and "reg_p (m_state h) = (if m_cmos c then (reg_p (m_state c) OR FLAG_I) AND NOT FLAG_D
           else reg_p (m_state c) OR FLAG_I)"
    and "ok (m_mem h)"
    and "m_state (final (opRTI E x) h) = (m_state c)\<lparr>reg_p := (f (reg_p (m_state c)) AND NOT FLAG_B) OR FLAG_U\<rparr>"
  using assms
  by (auto simp: enter_handler_def vector_pull_def no_hook opRTI_def run_mem setP_def clrP_def case_prod_beta)

end

text \<open>A processor with nothing but the program to run.\<close>

definition idle_lines :: "cpu6502_state \<Rightarrow> bool" where
  "idle_lines s \<longleftrightarrow> \<not> st_haltLine s \<and> \<not> st_stopped s \<and>
     \<not> st_waiting s \<and> \<not> st_irqLine s \<and> \<not> st_nmiLine s \<and>
     \<not> st_nmiPrev s"

context cpu_bus
begin

lemma fetch_mem:
  assumes "ok (m_mem c)" and "ucast (reg_pc (m_state c)) \<in> ram"
  shows "ok (m_mem (final (fetch E) c))"
    and "result (fetch E) c = mem (m_mem c) (ucast (reg_pc (m_state c)))"
    and "x \<in> ram \<Longrightarrow> mem (m_mem (final (fetch E) c)) x = mem (m_mem c) x"
  using assms by (simp_all add: fetch_def run_mem case_prod_beta)

lemma fetch_state [simp]:
  "m_state (final (fetch E) c) = (m_state c)\<lparr>reg_pc := reg_pc (m_state c) + 1\<rparr>"
  "m_cmos (final (fetch E) c) = m_cmos c"
  by (simp_all add: fetch_def case_prod_beta)

lemma step_running:
  assumes "idle_lines (m_state c)" and "ce_pcHook E = None"
  shows "run_state (step E) c = run_state (execute E) c"
proof -
  have "try_hook E = State_Monad.return False" using assms(2) by (simp add: try_hook_def)
  moreover have e: "c\<lparr>m_state := (m_state c)\<lparr>st_nmiPrev := False\<rparr>\<rparr> = c"
    using assms(1) by (cases c; cases "m_state c") (simp add: idle_lines_def)
  ultimately show ?thesis
    using assms(1) by (simp add: step_def step_awake_def run_instruction_def idle_lines_def e)
qed

end
lemma jsr_entry: "m_ops cmos 0x20 = Opcode ''JSR'' (Ctl OpJSR) ABS 6 False"
  by (cases cmos) (simp_all add: m_ops_def s_opcodes_def s_opcodes65c02_def s_opcodes65c02_lo_def s_opcodes65c02_hi_def)
lemma rts_entry: "m_ops cmos 0x60 = Opcode ''RTS'' (Ctl OpRTS) IMP 6 False"
  by (cases cmos) (simp_all add: m_ops_def s_opcodes_def s_opcodes65c02_def s_opcodes65c02_lo_def s_opcodes65c02_hi_def)
lemma asl_abs_entry: "m_ops cmos 0x0E = Opcode ''ASL'' (Mem OpASL) ABS 6 False"
  by (cases cmos) (simp_all add: m_ops_def s_opcodes_def s_opcodes65c02_def s_opcodes65c02_lo_def s_opcodes65c02_hi_def)


context cpu_bus
begin

text \<open>A three-byte instruction with an absolute operand, executed.\<close>

lemma execute_abs:
  assumes "ok (m_mem c)" and "reg_pc (m_state c) = pc" and "ce_observer E = None"
    and "ucast pc \<in> ram" and "ucast (pc + 1) \<in> ram" and "ucast (pc + 2) \<in> ram"
    and "m_ops (m_cmos c) (mem (m_mem c) (ucast pc)) = Opcode mn f ABS n pen"
  obtains d where "ok (m_mem d)" and "m_state d = (m_state c)\<lparr>reg_pc := pc + 3\<rparr>" and "m_cmos d = m_cmos c"
    and "\<And>x. x \<in> ram \<Longrightarrow> mem (m_mem d) x = mem (m_mem c) x"
    and "run_state (execute E) c = run_state
      (do { extra \<leftarrow> call_fn f E (mk16 (mem (m_mem c) (ucast (pc + 1))) (mem (m_mem c) (ucast (pc + 2))));
            add_cycles (n + extra) }) d"
proof -
  let ?op = "mem (m_mem c) (ucast pc)"
  let ?c1 = "(final (fetch E) c)\<lparr>m_curOp := ?op\<rparr>"
  have pc1: "reg_pc (m_state ?c1) = pc + 1" using assms(2) by simp
  have ok1: "ok (m_mem ?c1)" using assms by (simp add: fetch_mem)
  let ?d = "final (addrABS E) ?c1"
  have m1: "mem (m_mem ?c1) x = mem (m_mem c) x" if "x \<in> ram" for x
    using assms that by (simp add: fetch_mem)
  have r: "result (addrABS E) ?c1 = mk16 (mem (m_mem c) (ucast (pc + 1))) (mem (m_mem c) (ucast (pc + 2)))"
    "ok (m_mem ?d)" "x \<in> ram \<Longrightarrow> mem (m_mem ?d) x = mem (m_mem c) x" for x
    using assms ok1 pc1 m1 by (simp_all add: addrABS_def fetch_mem case_prod_beta add.assoc)
  show ?thesis
  proof (rule that [of ?d])
    show "m_state ?d = (m_state c)\<lparr>reg_pc := pc + 3\<rparr>" "m_cmos ?d = m_cmos c"
      using assms(2) by (simp_all add: addrABS_def case_prod_beta add.assoc)
    have "result (fetch E) c = ?op" using assms by (simp add: fetch_mem)
    then show "run_state (execute E) c = run_state
      (do { extra \<leftarrow> call_fn f E (mk16 (mem (m_mem c) (ucast (pc + 1))) (mem (m_mem c) (ucast (pc + 2))));
            add_cycles (n + extra) }) ?d"
      using assms r(1) by (simp add: execute_def Let_def case_prod_beta operand_def no_extra_def run_unobserved)
  qed (use r in auto)
qed

lemma write_seq:
  assumes "ok b" and "a \<in> ram"
  shows "ok (final (ib_write8 ib a v) b)"
    and "x \<in> ram \<Longrightarrow> mem (final (ib_write8 ib a v) b) x = (if x = a then v else mem b x)"
  using assms write_ok write_ram by simp_all

lemma harness_mem:
  fixes r :: u32
  assumes "ok b" and "a \<in> ram" "a + 1 \<in> ram" "a + 2 \<in> ram" "a + 3 \<in> ram"
  defines "h \<equiv> final (writeCallHarness ib a r) b"
  shows "ok h" and "mem h a = 0x20" and "mem h (a + 1) = ucast (r AND 0xFF)"
    and "mem h (a + 2) = ucast (drop_bit 8 r AND 0xFF)" and "mem h (a + 3) = 0"
  using assms by (simp_all add: writeCallHarness_def case_prod_beta write_seq)

lemma harness_frame:
  assumes "ok b" and "a \<in> ram" "a + 1 \<in> ram" "a + 2 \<in> ram" "a + 3 \<in> ram"
    and "y \<in> ram" and "y \<notin> {a, a + 1, a + 2, a + 3}"
  shows "mem (final (writeCallHarness ib a r) b) y = mem b y"
  using assms by (simp add: writeCallHarness_def case_prod_beta write_seq)

lemma mk16_bytes: "mk16 (ucast (r AND 0xFF)) (ucast (drop_bit 8 r AND 0xFF)) = (ucast (r :: u32) :: u16)"
proof (rule bit_word_eqI)
  fix n assume n: "n < LENGTH(16)"
  have m: "(0xFF :: u32) = mask 8" by (simp add: mask_eq_decr_exp)
  show "bit (mk16 (ucast (r AND 0xFF)) (ucast (drop_bit 8 r AND 0xFF))) n = bit (ucast r :: u16) n"
    using n unfolding m by (cases "n < 8") (auto simp: mk16_def bit_simps not_less)
qed

text \<open>JSR and RTS as instructions: what the one leaves on the stack the other returns to.\<close>

lemma jsr_step:
  assumes ok: "ok (m_mem c)" and pc: "reg_pc (m_state c) = s" and idle: "idle_lines (m_state c)"
    and env: "ce_observer E = None" "ce_pcHook E = None"
    and ram: "ucast s \<in> ram" "ucast (s + 1) \<in> ram" "ucast (s + 2) \<in> ram"
    and code: "mem (m_mem c) (ucast s) = 0x20" "mem (m_mem c) (ucast (s + 1)) = ucast (r AND 0xFF)"
      "mem (m_mem c) (ucast (s + 2)) = ucast (drop_bit 8 (r :: u32) AND 0xFF)"
  defines "e \<equiv> final (step E) c" and "sp \<equiv> reg_sp (m_state c)"
  shows "m_state e = (m_state c)\<lparr>reg_pc := ucast r, reg_sp := sp - 2, st_cycles := st_cycles (m_state c) + 6\<rparr>"
    and "m_cmos e = m_cmos c" and "ok (m_mem e)"
    and "mem (m_mem e) (stack_loc sp) = hi8 (s + 2)" and "mem (m_mem e) (stack_loc (sp - 1)) = lo8 (s + 2)"
    and "y \<in> ram \<Longrightarrow> y \<notin> stack_page \<Longrightarrow> mem (m_mem e) y = mem (m_mem c) y"
proof -
  have op: "m_ops (m_cmos c) (mem (m_mem c) (ucast s)) = Opcode ''JSR'' (Ctl OpJSR) ABS 6 False"
    unfolding code by (rule jsr_entry)
  obtain d where d: "ok (m_mem d)" "m_state d = (m_state c)\<lparr>reg_pc := s + 3\<rparr>" "m_cmos d = m_cmos c"
    "\<And>x. x \<in> ram \<Longrightarrow> mem (m_mem d) x = mem (m_mem c) x"
    "run_state (execute E) c = run_state (do { extra \<leftarrow> opJSR E (ucast r); add_cycles (6 + extra) }) d"
    using execute_abs [OF ok pc env(1) ram op] unfolding code mk16_bytes by auto
  have sum: "s + 3 - 1 = s + 2" by simp
  have z: "result (opJSR E (ucast r)) d = 0" by (simp add: opJSR_def Let_def case_prod_beta)
  define j where "j = final (opJSR E (ucast r)) d"
  have e: "e = j\<lparr>m_state := (m_state j)\<lparr>st_cycles := st_cycles (m_state j) + 6\<rparr>\<rparr>"
    using step_running [OF idle env(2)] d(5) z by (simp add: e_def add_cycles_def j_def case_prod_beta)
  have j: "m_state j = (m_state c)\<lparr>reg_pc := ucast r, reg_sp := sp - 2\<rparr>" "m_cmos j = m_cmos c" "ok (m_mem j)"
    "mem (m_mem j) (stack_loc sp) = hi8 (s + 2)" "mem (m_mem j) (stack_loc (sp - 1)) = lo8 (s + 2)"
    "y \<in> ram \<Longrightarrow> y \<notin> stack_page \<Longrightarrow> mem (m_mem j) y = mem (m_mem c) y"
    using d(1-4) by (auto simp: j_def opJSR_def Let_def case_prod_beta run_mem sp_def sum)
  show "m_state e = (m_state c)\<lparr>reg_pc := ucast r, reg_sp := sp - 2, st_cycles := st_cycles (m_state c) + 6\<rparr>"
    "m_cmos e = m_cmos c" "ok (m_mem e)" "mem (m_mem e) (stack_loc sp) = hi8 (s + 2)"
    "mem (m_mem e) (stack_loc (sp - 1)) = lo8 (s + 2)"
    "y \<in> ram \<Longrightarrow> y \<notin> stack_page \<Longrightarrow> mem (m_mem e) y = mem (m_mem c) y"
    unfolding e using j by simp_all
qed

lemma rts_step:
  assumes ok: "ok (m_mem c)" and idle: "idle_lines (m_state c)"
    and env: "ce_observer E = None" "ce_pcHook E = None"
    and code: "ucast (reg_pc (m_state c)) \<in> ram" "mem (m_mem c) (ucast (reg_pc (m_state c))) = 0x60"
  defines "e \<equiv> final (step E) c" and "sp \<equiv> reg_sp (m_state c)"
  shows "m_state e = (m_state c)\<lparr>reg_pc := mk16 (mem (m_mem c) (stack_loc (sp + 1))) (mem (m_mem c) (stack_loc (sp + 2))) + 1,
      reg_sp := sp + 2, st_cycles := st_cycles (m_state c) + 6\<rparr>"
    and "y \<in> ram \<Longrightarrow> mem (m_mem e) y = mem (m_mem c) y"
proof -
  have f: "result (fetch E) c = 0x60" "ok (m_mem (final (fetch E) c))"
    "\<And>x. x \<in> ram \<Longrightarrow> mem (m_mem (final (fetch E) c)) x = mem (m_mem c) x"
    using ok code by (simp_all add: fetch_mem)
  have "run_state (step E) c = run_state (do { extra \<leftarrow> opRTS E 0; add_cycles (6 + extra) })
      ((final (fetch E) c)\<lparr>m_curOp := 0x60\<rparr>)"
    using step_running [OF idle env(2)]
    by (simp add: execute_def Let_def case_prod_beta f(1) rts_entry operand_def no_extra_def run_unobserved [OF env(1)])
  then show "m_state e = (m_state c)\<lparr>reg_pc := mk16 (mem (m_mem c) (stack_loc (sp + 1))) (mem (m_mem c) (stack_loc (sp + 2))) + 1,
      reg_sp := sp + 2, st_cycles := st_cycles (m_state c) + 6\<rparr>"
    "y \<in> ram \<Longrightarrow> mem (m_mem e) y = mem (m_mem c) y"
    using f(2,3) by (simp_all add: e_def sp_def opRTS_def add_cycles_def case_prod_beta run_mem add.commute)
qed

end

section \<open>Interrupts as steps\<close>

text \<open>The vector the next step of a running processor takes, if any.\<close>

definition due_vector :: "cpu6502_state \<Rightarrow> u16 option" where
  "due_vector s = (if st_nmiLine s \<and> \<not> st_nmiPrev s then Some 0xFFFA
     else if st_irqLine s \<and> \<not> bit (reg_p s) 2 then Some 0xFFFE else None)"

lemma rti_entry: "m_ops cmos 0x40 = Opcode ''RTI'' (Ctl OpRTI) IMP 6 False"
  by (cases cmos) (simp_all add: m_ops_def s_opcodes_def s_opcodes65c02_def s_opcodes65c02_lo_def s_opcodes65c02_hi_def)

definition handler_p :: "bool \<Rightarrow> u8 \<Rightarrow> u8" where
  "handler_p cmos p = (if cmos then (p OR FLAG_I) AND NOT FLAG_D else p OR FLAG_I)"

lemma handler_p_I [simp]: "bit (handler_p cmos p) 2"
  by (simp add: handler_p_def bit_simps flag_bits)

lemma interrupt_p_I [simp]: "bit (interrupt_p p) 2 = bit p 2"
  by (auto simp: interrupt_p_def bit_simps flag_bits)

lemma interrupt_p_again [simp]: "interrupt_p (interrupt_p p) = interrupt_p p"
  "(interrupt_p p AND NOT FLAG_B) OR FLAG_U = interrupt_p p"
  by (rule u8_eqI; auto simp: interrupt_p_def bit_simps flag_bits)+

context cpu_bus
begin

lemma interrupt_step:
  assumes ok: "ok (m_mem c)" and awake: "\<not> st_haltLine (m_state c)" "\<not> st_stopped (m_state c)"
    and due: "due_vector (m_state c) = Some v"
    and vec: "ucast v \<in> ram" "ucast (v + 1) \<in> ram" "ucast v \<notin> stack_page" "ucast (v + 1) \<notin> stack_page"
  defines "e \<equiv> final (step E) c" and "s \<equiv> m_state c"
  shows "m_state e = s\<lparr>st_waiting := False, st_nmiPrev := st_nmiLine s, reg_sp := reg_sp s - 3,
      reg_p := handler_p (m_cmos c) (reg_p s),
      reg_pc := mk16 (mem (m_mem c) (ucast v)) (mem (m_mem c) (ucast (v + 1))), st_cycles := st_cycles s + 7\<rparr>"
    and "m_cmos e = m_cmos c" and "ok (m_mem e)"
    and "mem (m_mem e) (stack_loc (reg_sp s)) = hi8 (reg_pc s)"
    and "mem (m_mem e) (stack_loc (reg_sp s - 1)) = lo8 (reg_pc s)"
    and "mem (m_mem e) (stack_loc (reg_sp s - 2)) = interrupt_p (reg_p s)"
    and "y \<in> ram \<Longrightarrow> y \<notin> stack_page \<Longrightarrow> mem (m_mem e) y = mem (m_mem c) y"
proof -
  let ?c = "c\<lparr>m_state := s\<lparr>st_waiting := False, st_nmiPrev := st_nmiLine s\<rparr>\<rparr>"
  have w: "st_waiting s \<longrightarrow> st_irqLine s \<or> (st_nmiLine s \<and> \<not> st_nmiPrev s)"
    using due by (auto simp: due_vector_def s_def split: if_splits)
  have "run_state (step E) c = run_state (take_interrupt E v) ?c"
    using step_dispatch [OF awake [folded s_def] s_def [THEN meta_eq_to_obj_eq, symmetric] w, of E] due
    by (auto simp: due_vector_def s_def split: if_splits)
  then have e: "e = (let h = final (enter_handler E interrupt_p v) ?c
      in h\<lparr>m_state := (m_state h)\<lparr>st_cycles := st_cycles (m_state h) + 7\<rparr>\<rparr>)"
    by (simp add: e_def take_interrupt_def add_cycles_def case_prod_beta Let_def)
  have 2: "reg_sp s - 1 - 1 = reg_sp s - 2" "reg_sp s - 2 - 1 = reg_sp s - 3" by simp_all
  let ?p1 = "final (cpu_push E (hi8 (reg_pc s))) ?c"
  let ?p2 = "final (cpu_push E (lo8 (reg_pc s))) ?p1"
  define p where "p = final (cpu_push E (interrupt_p (reg_p s))) ?p2"
  have o: "ok (m_mem ?c)" "ok (m_mem ?p1)" "ok (m_mem ?p2)" using ok by (simp_all add: push_mem)
  have p: "m_state p = s\<lparr>st_waiting := False, st_nmiPrev := st_nmiLine s, reg_sp := reg_sp s - 3\<rparr>"
    "m_cmos p = m_cmos c" "ok (m_mem p)"
    using o by (simp_all add: p_def push_mem 2)
  have f: "mem (m_mem p) y = (if y = stack_loc (reg_sp s - 2) then interrupt_p (reg_p s)
      else if y = stack_loc (reg_sp s - 1) then lo8 (reg_pc s)
      else if y = stack_loc (reg_sp s) then hi8 (reg_pc s) else mem (m_mem c) y)" if "y \<in> ram" for y
    using o that by (simp add: p_def push_mem 2)
  let ?i = "p\<lparr>m_state := (m_state p)\<lparr>reg_p := handler_p (m_cmos c) (reg_p s)\<rparr>\<rparr>"
  let ?r = "final (cpu_read E (v + 1)) (final (cpu_read E v) ?i)"
  have v: "mem (m_mem p) (ucast v) = mem (m_mem c) (ucast v)" "mem (m_mem p) (ucast (v + 1)) = mem (m_mem c) (ucast (v + 1))"
    using f vec stack_loc_page by (metis, metis)
  have r: "result (cpu_read E v) ?i = mem (m_mem c) (ucast v)"
    "result (cpu_read E (v + 1)) (final (cpu_read E v) ?i) = mem (m_mem c) (ucast (v + 1))"
    "ok (m_mem ?r)" "\<And>y. y \<in> ram \<Longrightarrow> mem (m_mem ?r) y = mem (m_mem p) y"
    using p vec v by (simp_all add: read_mem)
  have "final (enter_handler E interrupt_p v) ?c = ?r\<lparr>m_state := set_pc (mk16 (mem (m_mem c) (ucast v)) (mem (m_mem c) (ucast (v + 1)))) (m_state ?r)\<rparr>"
  proof -
    have "final (enter_handler E interrupt_p v) ?c = final (do {
        lo \<leftarrow> cpu_read E v; hi \<leftarrow> cpu_read E (v + 1); upd (set_pc (mk16 lo hi)) }) ?i"
      using p by (simp add: enter_handler_def vector_pull_def no_hook setP_def clrP_def case_prod_beta handler_p_def
          flip: p_def)
    then show ?thesis using r(1,2) by (simp add: case_prod_beta)
  qed
  then have e': "e = ?r\<lparr>m_state := (m_state p)\<lparr>reg_p := handler_p (m_cmos c) (reg_p s),
      reg_pc := mk16 (mem (m_mem c) (ucast v)) (mem (m_mem c) (ucast (v + 1))), st_cycles := st_cycles (m_state p) + 7\<rparr>\<rparr>"
    by (simp add: e Let_def)
  have l: "stack_loc (reg_sp s) \<in> ram" "stack_loc (reg_sp s - 1) \<in> ram" "stack_loc (reg_sp s - 2) \<in> ram" by simp_all
  show "m_state e = s\<lparr>st_waiting := False, st_nmiPrev := st_nmiLine s, reg_sp := reg_sp s - 3,
      reg_p := handler_p (m_cmos c) (reg_p s),
      reg_pc := mk16 (mem (m_mem c) (ucast v)) (mem (m_mem c) (ucast (v + 1))), st_cycles := st_cycles s + 7\<rparr>"
    unfolding e' p(1) by simp
  show "m_cmos e = m_cmos c" "ok (m_mem e)" using p r by (simp_all add: e')
  show "mem (m_mem e) (stack_loc (reg_sp s)) = hi8 (reg_pc s)"
    "mem (m_mem e) (stack_loc (reg_sp s - 1)) = lo8 (reg_pc s)"
    "mem (m_mem e) (stack_loc (reg_sp s - 2)) = interrupt_p (reg_p s)"
    using r(4) [OF l(1)] r(4) [OF l(2)] r(4) [OF l(3)] f [OF l(1)] f [OF l(2)] f [OF l(3)] by (simp_all add: e')
  show "mem (m_mem e) y = mem (m_mem c) y" if "y \<in> ram" "y \<notin> stack_page"
    using r(4) [OF that(1)] f [OF that(1)] that(2) stack_loc_page by (auto simp: e')
qed

lemma rti_step:
  assumes ok: "ok (m_mem c)" and awake: "\<not> st_haltLine (m_state c)" "\<not> st_stopped (m_state c)" "\<not> st_waiting (m_state c)"
    and quiet: "due_vector (m_state c) = None"
    and env: "ce_observer E = None" "ce_pcHook E = None"
    and code: "ucast (reg_pc (m_state c)) \<in> ram" "mem (m_mem c) (ucast (reg_pc (m_state c))) = 0x40"
  defines "e \<equiv> final (step E) c" and "s \<equiv> m_state c"
  shows "m_state e = s\<lparr>st_nmiPrev := st_nmiLine s, reg_sp := reg_sp s + 3,
      reg_p := (mem (m_mem c) (stack_loc (reg_sp s + 1)) AND NOT FLAG_B) OR FLAG_U,
      reg_pc := mk16 (mem (m_mem c) (stack_loc (reg_sp s + 2))) (mem (m_mem c) (stack_loc (reg_sp s + 3))),
      st_cycles := st_cycles s + 6\<rparr>"
    and "m_cmos e = m_cmos c" and "ok (m_mem e)"
    and "y \<in> ram \<Longrightarrow> mem (m_mem e) y = mem (m_mem c) y"
proof -
  let ?c = "c\<lparr>m_state := s\<lparr>st_waiting := False, st_nmiPrev := st_nmiLine s\<rparr>\<rparr>"
  have w: "st_waiting s \<longrightarrow> st_irqLine s \<or> (st_nmiLine s \<and> \<not> st_nmiPrev s)"
    using awake by (simp add: s_def)
  have nohook: "try_hook E = State_Monad.return False" using env by (simp add: try_hook_def)
  have st: "run_state (step E) c = run_state (execute E) ?c"
    using step_dispatch [OF awake(1,2) [folded s_def] s_def [THEN meta_eq_to_obj_eq, symmetric] w, of E] quiet
    by (auto simp: due_vector_def s_def run_instruction_def nohook split: if_splits)
  have f: "result (fetch E) ?c = 0x40" "ok (m_mem (final (fetch E) ?c))"
    "\<And>x. x \<in> ram \<Longrightarrow> mem (m_mem (final (fetch E) ?c)) x = mem (m_mem c) x"
    using ok code by (simp_all add: fetch_mem s_def)
  have "run_state (step E) c = run_state (do { extra \<leftarrow> opRTI E 0; add_cycles (6 + extra) })
      ((final (fetch E) ?c)\<lparr>m_curOp := 0x40\<rparr>)"
    unfolding st
    by (simp add: execute_def Let_def case_prod_beta f(1) rti_entry operand_def no_extra_def run_unobserved [OF env(1)])
  then have e: "e = (let j = final (opRTI E 0) ((final (fetch E) ?c)\<lparr>m_curOp := 0x40\<rparr>)
      in j\<lparr>m_state := (m_state j)\<lparr>st_cycles := st_cycles (m_state j) + 6\<rparr>\<rparr>)"
    by (simp add: e_def opRTI_def add_cycles_def case_prod_beta Let_def)
  show "m_state e = s\<lparr>st_nmiPrev := st_nmiLine s, reg_sp := reg_sp s + 3,
      reg_p := (mem (m_mem c) (stack_loc (reg_sp s + 1)) AND NOT FLAG_B) OR FLAG_U,
      reg_pc := mk16 (mem (m_mem c) (stack_loc (reg_sp s + 2))) (mem (m_mem c) (stack_loc (reg_sp s + 3))),
      st_cycles := st_cycles s + 6\<rparr>"
    unfolding e by (rule cpu6502_state.equality)
      (use f(2,3) awake(3) in \<open>simp_all add: opRTI_def case_prod_beta run_mem Let_def add.commute s_def\<close>)
  show "m_cmos e = m_cmos c" "ok (m_mem e)" "y \<in> ram \<Longrightarrow> mem (m_mem e) y = mem (m_mem c) y"
    using f(2,3) by (simp_all add: e opRTI_def case_prod_beta run_mem Let_def)
qed

text \<open>An interrupt whose handler is a lone RTI: two steps, 13 cycles, and the program goes on.\<close>

lemma interrupt_round:
  assumes ok: "ok (m_mem c)" and awake: "\<not> st_haltLine (m_state c)" "\<not> st_stopped (m_state c)"
    and due: "due_vector (m_state c) = Some v"
    and vec: "ucast v \<in> ram" "ucast (v + 1) \<in> ram" "ucast v \<notin> stack_page" "ucast (v + 1) \<notin> stack_page"
    and env: "ce_observer E = None" "ce_pcHook E = None"
    and hdl: "h = mk16 (mem (m_mem c) (ucast v)) (mem (m_mem c) (ucast (v + 1)))"
      "ucast h \<in> ram" "ucast h \<notin> stack_page" "mem (m_mem c) (ucast h) = 0x40"
  defines "e1 \<equiv> final (step E) c" and "s \<equiv> m_state c"
  defines "e2 \<equiv> final (step E) e1"
  shows "m_state e2 = s\<lparr>st_waiting := False, st_nmiPrev := st_nmiLine s, reg_p := interrupt_p (reg_p s),
      st_cycles := st_cycles s + 13\<rparr>"
    and "m_cmos e2 = m_cmos c" and "ok (m_mem e2)"
    and "y \<in> ram \<Longrightarrow> y \<notin> stack_page \<Longrightarrow> mem (m_mem e2) y = mem (m_mem c) y"
proof -
  note A = interrupt_step [OF ok awake due vec, folded e1_def s_def hdl(1)]
  have 1: "reg_pc (m_state e1) = h" using A(1) by simp
  have q: "due_vector (m_state e1) = None" unfolding A(1) by (simp add: due_vector_def)
  have w: "\<not> st_haltLine (m_state e1)" "\<not> st_stopped (m_state e1)" "\<not> st_waiting (m_state e1)"
    using A(1) awake by (simp_all add: s_def)
  have code: "ucast (reg_pc (m_state e1)) \<in> ram" "mem (m_mem e1) (ucast (reg_pc (m_state e1))) = 0x40"
    unfolding 1 using A(7) hdl by simp_all
  note B = rti_step [OF A(3) w q env code, folded e2_def]
  have sp: "reg_sp (m_state e1) + 1 = reg_sp s - 2" "reg_sp (m_state e1) + 2 = reg_sp s - 1"
    "reg_sp (m_state e1) + 3 = reg_sp s" using A(1) by simp_all
  have m: "mem (m_mem e1) (stack_loc (reg_sp (m_state e1) + 1)) = interrupt_p (reg_p s)"
    "mk16 (mem (m_mem e1) (stack_loc (reg_sp (m_state e1) + 2))) (mem (m_mem e1) (stack_loc (reg_sp (m_state e1) + 3))) = reg_pc s"
    unfolding sp A(4-6) by simp_all
  show "m_state e2 = s\<lparr>st_waiting := False, st_nmiPrev := st_nmiLine s, reg_p := interrupt_p (reg_p s),
      st_cycles := st_cycles s + 13\<rparr>"
    using B(1) unfolding m interrupt_p_again(2) unfolding A(1) by simp
  show "m_cmos e2 = m_cmos c" "ok (m_mem e2)" using B(2,3) A(2) by simp_all
  show "mem (m_mem e2) y = mem (m_mem c) y" if "y \<in> ram" "y \<notin> stack_page"
    using B(4) A(7) that by simp
qed

end

section \<open>Correctness\<close>

text \<open>The bus of a 64 KB machine: RAM up to the vectors, no hooks.\<close>

definition ram64 :: "u32 set" where
  "ram64 = {0..0xFFFF}"

lemma ram64_16 [simp]: "ucast (a :: u16) \<in> ram64"
proof -
  have "unat a \<le> 65535" using unat_u16_lt [of a] by linarith
  then show ?thesis by (simp add: ram64_def word_le_nat_alt)
qed

interpretation flat_cpu: cpu_bus flat_ibus fb_data ram64 "flat_ok ram64" "plain_env flat_ibus"
  by unfold_locales (auto simp: plain_env_def stack_page_def ram64_def intro: order_trans)

lemma flat_new_ok: "flat_ok ram64 (flat_new 16 d)"
proof -
  have "a AND 0xFFFF = a" if "a \<in> ram64" for a
  proof -
    have "(0xFFFF :: u32) = mask 16" by (simp add: mask_eq_exp_minus_1)
    moreover have "take_bit 16 a = a"
      using that by (simp add: ram64_def word_le_nat_alt word_unat_eq_iff unsigned_take_bit_eq take_bit_nat_eq_self)
    ultimately show ?thesis by (simp only: flip: take_bit_eq_mask)
  qed
  moreover have "a < 0xFFFFFFFF" if "a \<in> ram64" for a
    using that by (auto simp: ram64_def intro: le_less_trans)
  ultimately show ?thesis
    by (simp add: flat_ok_def flat_plain_def flat_new_def findOverlay_def)
qed

definition flat_machine :: "bool \<Rightarrow> unit flat_bus mos6502" where
  "flat_machine cmos = cpu_new cmos (flat_new 16 ())"

lemma flat_machine_simps [simp]:
  "m_mem (flat_machine cmos) = flat_new 16 ()" "m_cmos (flat_machine cmos) = cmos"
  "reg_p (m_state (flat_machine cmos)) = 0x24" "reg_sp (m_state (flat_machine cmos)) = 0xFD"
  by (simp_all add: flat_machine_def cpu_new_def)



text \<open>
  C4: Taking an interrupt (IRQ, NMI or BRK) on such a bus loads PC from the vector, sets I and, on the
  65C02, clears D; the RTI of the handler restores every register and flag of the interrupted
  program, with B clear and bit 5 set in P as the pushed byte has them.
\<close>

theorem interrupt_rti_returns:
  assumes "cpu_bus ib mem ram ok E" and "ok (m_mem c)"
    and "ucast v \<in> ram" and "ucast (v + 1) \<in> ram"
    and "ucast v \<notin> stack_page" and "ucast (v + 1) \<notin> stack_page"
  defines "h \<equiv> final (enter_handler E interrupt_p v) c"
  shows "reg_pc (m_state h) = mk16 (mem (m_mem c) (ucast v)) (mem (m_mem c) (ucast (v + 1))) \<and>
    bit (reg_p (m_state h)) 2 \<and> (m_cmos c \<longrightarrow> \<not> bit (reg_p (m_state h)) 3) \<and>
    m_state (final (opRTI E x) h) = (m_state c)\<lparr>reg_p := interrupt_p (reg_p (m_state c))\<rparr>"
proof -
  note H = cpu_bus.handler_entry [OF assms(1-6), where f = interrupt_p]
  have "(interrupt_p p AND NOT FLAG_B) OR FLAG_U = interrupt_p p" for p
    by (rule u8_eqI) (auto simp: interrupt_p_def bit_simps flag_bits)
  then show ?thesis unfolding h_def using H by (auto simp: bit_simps flag_bits)
qed

theorem interrupt_rti_returns_witness:
  "let c = flat_machine True; E = plain_env flat_ibus; h = final (enter_handler E interrupt_p 0xFFFE) c
   in bit (reg_p (m_state h)) 2 \<and> \<not> bit (reg_p (m_state h)) 3 \<and>
      reg_sp (m_state (final (opRTI E 0) h)) = 0xFD"
proof -
  have v: "ucast (0xFFFE :: u16) \<in> ram64" "ucast ((0xFFFE :: u16) + 1) \<in> ram64"
    "ucast (0xFFFE :: u16) \<notin> stack_page" "ucast ((0xFFFE :: u16) + 1) \<notin> stack_page"
    by (rule ram64_16)+ (simp_all add: stack_page_def)
  show ?thesis
    using interrupt_rti_returns [OF flat_cpu.cpu_bus_axioms _ v, where c = "flat_machine True" and x = 0]
    by (simp add: Let_def flat_new_ok)
qed



text \<open>
  C16: Interrupts are served in order: when an edge on NMI and an asserted IRQ meet, with I clear and
  whether or not the processor sleeps in WAI, the next step enters the NMI handler; the step after,
  that handler's RTI, is not held up by the IRQ, because I is set on entry, nor by the NMI line, which
  still is low but has had its edge; back in the program the IRQ is served at once, and its RTI
  returns. Each handler here is a lone RTI: after four steps of 7, 6, 7 and 6 cycles every register of
  the program is what it was, PC and SP included, with B clear and bit 5 set in P, the processor is
  awake, and memory outside the stack page is untouched.
\<close>

theorem interrupts_served_in_order:
  fixes c :: "'b mos6502" and ib :: "'b ibus" and nh ih :: u16
  assumes "cpu_bus ib mem ram ok E" and "ce_observer E = None" and "ce_pcHook E = None" and "ok (m_mem c)"
    and "\<not> st_haltLine (m_state c)" and "\<not> st_stopped (m_state c)"
    and "st_nmiLine (m_state c)" and "\<not> st_nmiPrev (m_state c)" and "st_irqLine (m_state c)" and "\<not> bit (reg_p (m_state c)) 2"
    and "{0xFFFA, 0xFFFB, 0xFFFE, 0xFFFF, ucast nh, ucast ih} \<subseteq> ram" and "ucast nh \<notin> stack_page" "ucast ih \<notin> stack_page"
    and "nh = mk16 (mem (m_mem c) 0xFFFA) (mem (m_mem c) 0xFFFB)" and "ih = mk16 (mem (m_mem c) 0xFFFE) (mem (m_mem c) 0xFFFF)"
    and "mem (m_mem c) (ucast nh) = 0x40" and "mem (m_mem c) (ucast ih) = 0x40"
  defines "s \<equiv> m_state c"
  defines "e1 \<equiv> final (step E) c" defines "e2 \<equiv> final (step E) e1"
  defines "e3 \<equiv> final (step E) e2" defines "e4 \<equiv> final (step E) e3"
  shows "m_state e1 = s\<lparr>st_waiting := False, st_nmiPrev := True, reg_sp := reg_sp s - 3,
      reg_p := handler_p (m_cmos c) (reg_p s), reg_pc := nh, st_cycles := st_cycles s + 7\<rparr> \<and>
    m_state e2 = s\<lparr>st_waiting := False, st_nmiPrev := True, reg_p := interrupt_p (reg_p s), st_cycles := st_cycles s + 13\<rparr> \<and>
    m_state e3 = s\<lparr>st_waiting := False, st_nmiPrev := True, reg_sp := reg_sp s - 3,
      reg_p := handler_p (m_cmos c) (interrupt_p (reg_p s)), reg_pc := ih, st_cycles := st_cycles s + 20\<rparr> \<and>
    m_state e4 = s\<lparr>st_waiting := False, st_nmiPrev := True, reg_p := interrupt_p (reg_p s), st_cycles := st_cycles s + 26\<rparr> \<and>
    (\<forall>y \<in> ram - stack_page. mem (m_mem e4) y = mem (m_mem c) y)"
proof -
  have v: "ucast (0xFFFA :: u16) = (0xFFFA :: u32)" "ucast ((0xFFFA :: u16) + 1) = (0xFFFB :: u32)"
    "ucast (0xFFFE :: u16) = (0xFFFE :: u32)" "ucast ((0xFFFE :: u16) + 1) = (0xFFFF :: u32)" by simp_all
  have p: "(0xFFFA :: u32) \<notin> stack_page" "(0xFFFB :: u32) \<notin> stack_page" "(0xFFFE :: u32) \<notin> stack_page"
    "(0xFFFF :: u32) \<notin> stack_page" by (simp_all add: stack_page_def)
  have r: "(0xFFFA :: u32) \<in> ram" "(0xFFFB :: u32) \<in> ram" "(0xFFFE :: u32) \<in> ram" "(0xFFFF :: u32) \<in> ram"
    "ucast nh \<in> ram" "ucast ih \<in> ram" using assms(11) by simp_all
  have d1: "due_vector (m_state c) = Some 0xFFFA" using assms(7,8) by (simp add: due_vector_def)
  note A = cpu_bus.interrupt_step [OF assms(1,4-6) d1, unfolded v, OF r(1,2) p(1,2), folded e1_def s_def assms(14)]
  note B = cpu_bus.interrupt_round [OF assms(1,4-6) d1, unfolded v, OF r(1,2) p(1,2) assms(2,3,14) r(5) assms(12,16),
      folded e1_def, folded e2_def, folded s_def]
  have n: "st_nmiLine s" using assms(7) by (simp add: s_def)
  have aw: "\<not> st_haltLine (m_state e2)" "\<not> st_stopped (m_state e2)" using B(1) assms(5,6) by (simp_all add: s_def)
  have d2: "due_vector (m_state e2) = Some 0xFFFE" unfolding B(1) due_vector_def using assms(9,10) by (simp add: s_def)
  have ih: "ih = mk16 (mem (m_mem e2) 0xFFFE) (mem (m_mem e2) 0xFFFF)" "mem (m_mem e2) (ucast ih) = 0x40"
    using B(4) r p assms(13,15,17) by simp_all
  note C = cpu_bus.interrupt_step [OF assms(1) B(3) aw d2, unfolded v, OF r(3,4) p(3,4), folded e3_def ih(1)]
  note D = cpu_bus.interrupt_round [OF assms(1) B(3) aw d2, unfolded v, OF r(3,4) p(3,4) assms(2,3) ih(1) r(6) assms(13) ih(2),
      folded e3_def, folded e4_def]
  have e3: "m_state e3 = s\<lparr>st_waiting := False, st_nmiPrev := True, reg_sp := reg_sp s - 3,
      reg_p := handler_p (m_cmos c) (interrupt_p (reg_p s)), reg_pc := ih, st_cycles := st_cycles s + 20\<rparr>"
    using C(1) B(1,2) n by simp
  have e4: "m_state e4 = s\<lparr>st_waiting := False, st_nmiPrev := True, reg_p := interrupt_p (reg_p s), st_cycles := st_cycles s + 26\<rparr>"
    using D(1) B(1) n by simp
  show ?thesis using A(1) B(1,4) D(4) e3 e4 n by simp
qed

text \<open>Both handlers at $4000, the program at $0, on a fresh machine.\<close>

theorem interrupts_served_in_order_witness:
  "let E = plain_env flat_ibus; m = write_all flat_ibus [(0x4000, 0x40), (0xFFFB, 0x40), (0xFFFF, 0x40)] (flat_new 16 ());
     s = (m_state (flat_machine False))\<lparr>st_nmiLine := True, st_irqLine := True, reg_p := 0x20\<rparr>;
     c = (flat_machine False)\<lparr>m_mem := m, m_state := s\<rparr>;
     e1 = final (step E) c; e4 = final (step E) (final (step E) (final (step E) e1))
   in reg_pc (m_state e1) = 0x4000 \<and> m_state e4 = s\<lparr>st_nmiPrev := True, st_cycles := 26\<rparr>"
proof -
  let ?E = "plain_env flat_ibus"
  define m where "m = write_all flat_ibus [(0x4000, 0x40), (0xFFFB, 0x40), (0xFFFF, 0x40)] (flat_new 16 () :: unit flat_bus)"
  define s where "s = (m_state (flat_machine False))\<lparr>st_nmiLine := True, st_irqLine := True, reg_p := 0x20\<rparr>"
  define c where "c = (flat_machine False)\<lparr>m_mem := m, m_state := s\<rparr>"
  have env: "ce_observer ?E = None" "ce_pcHook ?E = None" by (simp_all add: plain_env_def)
  have ok: "flat_ok ram64 m" unfolding m_def by (rule flat.write_all_ok [OF flat_new_ok])
  have in64: "(0x4000 :: u32) \<in> ram64" "(0xFFFA :: u32) \<in> ram64" "(0xFFFB :: u32) \<in> ram64" "(0xFFFE :: u32) \<in> ram64" "(0xFFFF :: u32) \<in> ram64"
    by (simp_all add: ram64_def)
  have b: "fb_data m 0x4000 = 0x40" "fb_data m 0xFFFA = 0" "fb_data m 0xFFFB = 0x40" "fb_data m 0xFFFE = 0" "fb_data m 0xFFFF = 0x40"
    unfolding m_def using in64
    by (simp_all add: flat.write_ram [where R = ram64] flat.write_ok [where R = ram64] flat_new_ok) (simp_all add: flat_new_def)
  have st: "\<not> st_haltLine s" "\<not> st_stopped s" "st_nmiLine s" "\<not> st_nmiPrev s" "st_irqLine s" "\<not> bit (reg_p s) 2"
    "\<not> st_waiting s" "st_cycles s = 0" "reg_p s = 0x20"
    by (simp_all add: s_def flat_machine_def cpu_new_def)
  have mc: "m_mem c = m" "m_state c = s" by (simp_all add: c_def)
  have h: "{0xFFFA, 0xFFFB, 0xFFFE, 0xFFFF, ucast (0x4000 :: u16), ucast (0x4000 :: u16)} \<subseteq> ram64" using in64 by simp
  have np: "ucast (0x4000 :: u16) \<notin> stack_page" by (simp add: stack_page_def)
  have k: "(0x4000 :: u16) = mk16 0 0x40" by (simp add: mk16_def)
  have i: "interrupt_p 0x20 = 0x20" by (simp add: interrupt_p_def)
  have same: "s\<lparr>st_waiting := False, reg_p := 0x20\<rparr> = s" using st by (cases s) simp
  note R = interrupts_served_in_order [OF flat_cpu.cpu_bus_axioms env, where c = c and nh = "0x4000" and ih = "0x4000",
      unfolded mc, OF ok st(1-6) h np np]
  have "s\<lparr>st_waiting := False, st_nmiPrev := True, reg_p := interrupt_p (reg_p s), st_cycles := st_cycles s + 26\<rparr>
      = s\<lparr>st_nmiPrev := True, st_cycles := 26\<rparr>" unfolding st i using st by (cases s) simp
  then show ?thesis
    using R b k unfolding Let_def s_def [symmetric] m_def [symmetric] c_def [symmetric] by simp
qed

text \<open>
  PHA and PLA, and PHP and PLP, are inverse on such a bus: PLA brings A back and sets N and Z from
  it, PLP brings P back with B clear and bit 5 set; the stack pointer ends where it was.
\<close>

theorem push_pull_returns:
  assumes "cpu_bus ib mem ram ok E" and "ok (m_mem c)"
  shows "m_state (final (do { opPHA E x; opPLA E y }) c) = set_a (reg_a (m_state c)) (m_state c) \<and>
    m_state (final (do { opPHP E x; opPLP E y }) c) =
      (m_state c)\<lparr>reg_p := (reg_p (m_state c) AND NOT FLAG_B) OR FLAG_U\<rparr>"
proof -
  have p: "((p OR FLAG_B) AND NOT FLAG_B) OR FLAG_U = (p AND NOT FLAG_B) OR FLAG_U" for p
    by (rule u8_eqI) (auto simp: bit_simps flag_bits)
  show ?thesis
    using assms p [of "reg_p (m_state c)"]
    by (simp add: opPHA_def opPLA_def opPHP_def opPLP_def case_prod_beta
        cpu_bus.push_state cpu_bus.push_mem cpu_bus.pop_state cpu_bus.pop_mem cpu_bus.stack_loc_ram)
qed

theorem push_pull_returns_witness:
  "let c = flat_machine True; E = plain_env flat_ibus
   in m_state (final (do { opPHP E 0; opPLP E 0 }) c) = (m_state c)\<lparr>reg_p := 0x24\<rparr>"
  using push_pull_returns [OF flat_cpu.cpu_bus_axioms, where c = "flat_machine True" and x = 0 and y = 0]
  by (simp add: Let_def flat_new_ok)

text \<open>
  The address $FFFF stands for the accumulator inside the shift instructions, so the absolute form
  \<open>ASL $FFFF\<close> (bytes 0E FF FF) does not touch memory: it shifts A.
\<close>

theorem asl_ffff_shifts_accumulator:
  assumes "cpu_bus ib mem ram ok E" and "ce_observer E = None" and "ce_pcHook E = None"
    and "ok (m_mem c)" and "reg_pc (m_state c) = s" and "idle_lines (m_state c)"
    and "ucast s \<in> ram" "ucast (s + 1) \<in> ram" "ucast (s + 2) \<in> ram"
    and "mem (m_mem c) (ucast s) = 0x0E"
    and "mem (m_mem c) (ucast (s + 1)) = 0xFF" "mem (m_mem c) (ucast (s + 2)) = 0xFF"
  shows "reg_a (m_state (final (step E) c)) = push_bit 1 (reg_a (m_state c)) \<and>
    (\<forall>y \<in> ram. mem (m_mem (final (step E) c)) y = mem (m_mem c) y)"
proof -
  have op: "m_ops (m_cmos c) (mem (m_mem c) (ucast s)) = Opcode ''ASL'' (Mem OpASL) ABS 6 False"
    unfolding assms(10) by (rule asl_abs_entry)
  have ff: "mk16 0xFF 0xFF = 0xFFFF" by (simp add: mk16_def)
  obtain d where "ok (m_mem d)" "m_state d = (m_state c)\<lparr>reg_pc := s + 3\<rparr>"
    "\<And>x. x \<in> ram \<Longrightarrow> mem (m_mem d) x = mem (m_mem c) x"
    "run_state (execute E) c = run_state (do { extra \<leftarrow> opASL E 0xFFFF; add_cycles (6 + extra) }) d"
    using cpu_bus.execute_abs [OF assms(1,4,5,2,7-9) op] unfolding assms(11,12) ff by auto
  then show ?thesis
    using cpu_bus.step_running [OF assms(1,6,3)]
    by (simp add: opASL_def shift_op_def asl8_def add_cycles_def)
qed

theorem asl_ffff_shifts_accumulator_witness:
  "let c = (flat_machine False)\<lparr>m_mem := write_all flat_ibus [(0, 0x0E), (1, 0xFF), (2, 0xFF)] (flat_new 16 ())\<rparr>;
     c1 = c\<lparr>m_state := (m_state c)\<lparr>reg_a := 0x81\<rparr>\<rparr>
   in reg_a (m_state (final (step (plain_env flat_ibus)) c1)) = push_bit 1 0x81 \<and>
      fb_data (m_mem (final (step (plain_env flat_ibus)) c1)) 0xFFFF = fb_data (m_mem c1) 0xFFFF"
proof -
  define b where "b = write_all flat_ibus [(0, 0x0E), (1, 0xFF), (2, 0xFF)] (flat_new 16 ())"
  define c1 where "c1 = (flat_machine False)\<lparr>m_mem := b,
    m_state := (m_state (flat_machine False))\<lparr>reg_a := 0x81\<rparr>\<rparr>"
  have r: "(0 :: u32) \<in> ram64" "(1 :: u32) \<in> ram64" "(2 :: u32) \<in> ram64" "(0xFFFF :: u32) \<in> ram64"
    by (simp_all add: ram64_def)
  have b: "flat_ok ram64 b" "fb_data b 0 = 0x0E" "fb_data b 1 = 0xFF" "fb_data b 2 = 0xFF"
    unfolding b_def using r by (simp_all add: flat_new_ok flat.write_ok flat.write_ram [where R = ram64])
  have c: "flat_ok ram64 (m_mem c1)" "reg_pc (m_state c1) = 0" "idle_lines (m_state c1)"
    "fb_data (m_mem c1) (ucast (0 :: u16)) = 0x0E" "fb_data (m_mem c1) (ucast ((0 :: u16) + 1)) = 0xFF"
    "fb_data (m_mem c1) (ucast ((0 :: u16) + 2)) = 0xFF" "reg_a (m_state c1) = 0x81"
    using b by (simp_all add: c1_def flat_machine_def cpu_new_def idle_lines_def)
  have e: "ce_observer (plain_env flat_ibus) = None" "ce_pcHook (plain_env flat_ibus) = None"
    by (simp_all add: plain_env_def)
  show ?thesis
    using asl_ffff_shifts_accumulator [OF flat_cpu.cpu_bus_axioms e c(1-3) ram64_16 ram64_16 ram64_16 c(4-6)]
      r(4) c(7) unfolding c1_def b_def by (simp add: Let_def)
qed

end
