(* ===== verification/CpuLines.thy ===== *)
theory CpuLines
  imports Signals Cpu6502Flow
begin

text \<open>
  The interrupt managers of \<open>shared_irq_manager.h\<close> driving the pins of the 6502
  (\<open>MOS6502::setIrqLine\<close>, \<open>setNmiLine\<close>): the pin is the OR of the lines of the devices.
\<close>

interpretation irq_line: irq_pin setIrqLine st_irqLine
  by unfold_locales (simp add: setIrqLine_def)

interpretation nmi_line: irq_pin setNmiLine st_nmiLine
  by unfold_locales (simp add: setNmiLine_def)

text \<open>What a machine does with a manager: devices are attached, and devices drive their lines.\<close>

datatype irq_event = CreateLine | SetLine nat bool

primrec do_event :: "(bool \<Rightarrow> 'c \<Rightarrow> 'c) \<Rightarrow> irq_event \<Rightarrow> 'c irq_manager \<Rightarrow> 'c irq_manager" where
  "do_event setLine CreateLine m = snd (createLine m)"
| "do_event setLine (SetLine i v) m = line_set setLine i v m"

text \<open>A device drives a line it was given; there are at most 32 of them.\<close>

fun events_ok :: "nat \<Rightarrow> irq_event list \<Rightarrow> bool" where
  "events_ok n [] = True"
| "events_ok n (CreateLine # es) = (n < 32 \<and> events_ok (Suc n) es)"
| "events_ok n (SetLine i v # es) = (i < n \<and> events_ok n es)"

lemma lines_length [simp]:
  "length (im_levels (snd (createLine m))) = Suc (length (im_levels m))"
  "length (im_levels (line_set setLine i v m)) = length (im_levels m)"
  by (simp_all add: createLine_def line_set_def Let_def)

context irq_pin
begin

lemma irq_inv_events:
  "irq_inv pin m \<Longrightarrow> events_ok (length (im_levels m)) es \<Longrightarrow> irq_inv pin (fold (do_event setLine) es m)"
proof (induction es arbitrary: m)
  case (Cons e es)
  then show ?case
    by (cases e) (auto simp: irq_inv_create irq_inv_set)
qed simp

end

text \<open>The levels the devices drove last.\<close>

fun levels_after :: "irq_event list \<Rightarrow> bool list \<Rightarrow> bool list" where
  "levels_after [] ls = ls"
| "levels_after (CreateLine # es) ls = levels_after es (ls @ [False])"
| "levels_after (SetLine i v # es) ls = levels_after es (ls[i := v])"

lemma levels_events: "im_levels (fold (do_event setLine) es m) = levels_after es (im_levels m)"
  by (induction es "im_levels m" arbitrary: m rule: levels_after.induct)
    (simp_all add: createLine_def line_set_def Let_def)

lemmas manager_run = irq_line.irq_inv_events [OF irq_line.irq_inv_new]
  nmi_line.irq_inv_events [OF nmi_line.irq_inv_new]



end
