(* ===== verification/Cpu6502Decode.thy ===== *)
theory Cpu6502Decode
  imports Cpu6502Flow
begin

text \<open>
  The decoder against the processor: the length \<open>decodeEntry\<close> reports is the distance to the next
  instruction, its flags are about what the instruction does, and the two opcode tables agree on the
  documented instructions of the NMOS part.
\<close>

section \<open>The program counter under the operations\<close>

definition cpu_pc :: "'b mos6502 \<Rightarrow> u16" where
  "cpu_pc c = reg_pc (m_state c)"

lemma flag_ops_pc [simp]:
  "reg_pc (clrP m s) = reg_pc s" "reg_pc (setP m s) = reg_pc s" "reg_pc (setIf b m s) = reg_pc s"
  "reg_pc (updateNZ v s) = reg_pc s" "reg_pc (set_a v s) = reg_pc s" "reg_pc (set_x v s) = reg_pc s"
  "reg_pc (set_y v s) = reg_pc s"
  by (simp_all add: clrP_def setP_def setIf_def updateNZ_def set_a_def set_x_def set_y_def)

lemma alu_pc [simp]:
  "reg_pc (add_binary m s) = reg_pc s" "reg_pc (adc_decimal_nmos m s) = reg_pc s"
  "reg_pc (adc_decimal_cmos m s) = reg_pc s" "reg_pc (sbc_decimal_cmos m s) = reg_pc s"
  "reg_pc (sbc_nmos m s) = reg_pc s" "reg_pc (compare_with r m s) = reg_pc s"
  "reg_pc (bit_test m s) = reg_pc s" "reg_pc (set_z_of m s) = reg_pc s"
  "reg_pc (anc_regs m s) = reg_pc s" "reg_pc (arr_regs m s) = reg_pc s"
  by (simp_all add: add_binary_def adc_decimal_nmos_def adc_decimal_cmos_def sbc_decimal_cmos_def
      sbc_nmos_def compare_with_def bit_test_def set_z_of_def anc_regs_def arr_regs_def Let_def)

lemma keeps_pc_basic [keeps_intro]:
  "(\<And>s. reg_pc (f s) = reg_pc s) \<Longrightarrow> keeps cpu_pc (upd f)"
  "(\<And>s. reg_pc (f s) = reg_pc s) \<Longrightarrow> keeps cpu_pc (done0 f)"
  "keeps cpu_pc (on_mem m)" "keeps cpu_pc (cpu_read E a)" "keeps cpu_pc (cpu_write E a v)"
  "keeps cpu_pc (modify (\<lambda>c. c\<lparr>m_branchTarget := g c\<rparr>))"
  "keeps cpu_pc (modify (\<lambda>c. c\<lparr>m_curOp := h c\<rparr>))"
  by (simp_all add: keeps_def cpu_pc_def cpu_read_def cpu_write_def split: option.split)

lemma keeps_pc_stack [keeps_intro]: "keeps cpu_pc (cpu_push E v)" "keeps cpu_pc (cpu_pop E)"
  unfolding cpu_push_def cpu_pop_def by (intro keeps_intro; simp)+

lemma keeps_pc_shapes [keeps_intro]:
  "keeps cpu_pc (shift_op out f E a)" "keeps cpu_pc (store_reg r E a)"
  "keeps cpu_pc (storeAndHigh E a i v)" "keeps cpu_pc (adcDecimalCmos m)" "keeps cpu_pc (sbcDecimalCmos m)"
  unfolding shift_op_def store_reg_def storeAndHigh_def adcDecimalCmos_def sbcDecimalCmos_def
  by (intro keeps_intro; simp)+

text \<open>The instructions that load the program counter.\<close>

definition diverts :: "opfn \<Rightarrow> bool" where
  "diverts f \<longleftrightarrow> f \<in> set [Ctl OpBCC, Ctl OpBCS, Ctl OpBEQ, Ctl OpBMI, Ctl OpBNE, Ctl OpBPL, Ctl OpBVC,
     Ctl OpBVS, Ctl OpBRK, Ctl OpJMP, Ctl OpJSR, Ctl OpRTI, Ctl OpRTS, Cmos OpBRA, Cmos OpBBR, Cmos OpBBS]"

lemma keeps_pc_mem_fn: "keeps cpu_pc (call_mem f E a)"
  by (cases f; simp add: mem_fn_defs; (intro keeps_intro; simp add: Let_def)?)

lemma keeps_pc_ctl_fn: "\<not> diverts (Ctl f) \<Longrightarrow> keeps cpu_pc (call_ctl f E a)"
  by (cases f; simp add: ctl_fn_defs diverts_def; (intro keeps_intro; simp add: Let_def)?)

lemma keeps_pc_illegal_fn: "keeps cpu_pc (call_illegal f E a)"
  by (cases f; simp add: illegal_fn_defs mem_fn_defs; (intro keeps_intro; simp add: Let_def)?)

lemma keeps_pc_cmos_fn: "\<not> diverts (Cmos f) \<Longrightarrow> keeps cpu_pc (call_cmos f E a)"
  by (cases f; simp add: cmos_fn_defs diverts_def; (intro keeps_intro; simp add: Let_def)?)

lemma keeps_pc_call: "\<not> diverts f \<Longrightarrow> keeps cpu_pc (call_fn f E a)"
  by (cases f)
    (simp_all add: keeps_pc_mem_fn keeps_pc_ctl_fn keeps_pc_illegal_fn keeps_pc_cmos_fn)

lemma pc_read [simp]: "reg_pc (m_state (final (cpu_read E a) c)) = reg_pc (m_state c)"
  by (simp add: cpu_read_def split: option.split)

lemma pc_fetch [simp]: "reg_pc (m_state (final (fetch E) c)) = reg_pc (m_state c) + 1"
  by (simp add: fetch_def case_prod_beta)

lemma operand_pc:
  "reg_pc (m_state (final (operand E pen md) c)) = reg_pc (m_state c) + of_nat (mode_bytes md - 1)"
  by (cases md)
    (simp_all add: operand_def no_extra_def with_penalty_def addrBP_def addrBPX_def addrBPY_def
      addrABS_def addrABSX_def addrABSY_def addrIND_def addrBPXIND_def addrINDBPY_def addrBPIND_def
      addrABSXIND_def case_prod_beta Let_def)

section \<open>The tables, entry by entry\<close>

text \<open>A table with its opcode numbers.\<close>

definition numbered :: "opcode list \<Rightarrow> (u8 \<times> opcode) list" where
  "numbered xs = zip (map of_nat [0..<256]) xs"

lemma numbered_all:
  assumes "list_all (\<lambda>(n, i). P n i) (numbered s_opcodes)"
    and "list_all (\<lambda>(n, i). P n i) (numbered s_opcodes65c02)"
  shows "P op (m_ops cmos op)"
proof -
  have "list_all (\<lambda>(n, i). P n i) (numbered (if cmos then s_opcodes65c02 else s_opcodes))"
    using assms by simp
  then have "(\<lambda>(n, i). P n i) (numbered (if cmos then s_opcodes65c02 else s_opcodes) ! unat op)"
    unfolding list_all_length
    by (rule allE [where x = "unat op"])
      (use unat_u8_lt [of op] in \<open>simp add: numbered_def s_opcodes_length s_opcodes65c02_length\<close>)
  then show ?thesis
    using unat_u8_lt [of op]
    by (simp add: numbered_def m_ops_def s_opcodes_length s_opcodes65c02_length split: if_splits)
qed

text \<open>What the decoder must say of an opcode for the debugger to be right.\<close>

definition entry_ok :: "u8 \<Rightarrow> opcode \<Rightarrow> bool" where
  "entry_ok op info \<longleftrightarrow>
     (op = 0x20 \<longleftrightarrow> oc_fn info = Ctl OpJSR) \<and>
     (op = 0x60 \<or> op = 0x40 \<longleftrightarrow> oc_fn info = Ctl OpRTS \<or> oc_fn info = Ctl OpRTI) \<and>
     (stackOpFor (oc_mnemonic info) = PUSH_A \<longleftrightarrow> oc_fn info = Ctl OpPHA) \<and>
     (stackOpFor (oc_mnemonic info) = PUSH_P \<longleftrightarrow> oc_fn info = Ctl OpPHP) \<and>
     (stackOpFor (oc_mnemonic info) = PUSH_X \<longleftrightarrow> oc_fn info = Cmos OpPHX) \<and>
     (stackOpFor (oc_mnemonic info) = PUSH_Y \<longleftrightarrow> oc_fn info = Cmos OpPHY) \<and>
     (stackOpFor (oc_mnemonic info) = STACK_BRK \<longleftrightarrow> oc_fn info = Ctl OpBRK) \<and>
     (stackOpFor (oc_mnemonic info) = PULL \<longleftrightarrow>
        oc_fn info \<in> set [Ctl OpPLA, Ctl OpPLP, Cmos OpPLX, Cmos OpPLY]) \<and>
     (diverts (oc_fn info) \<longleftrightarrow> oc_mode info = REL \<or> oc_mode info = BPREL \<or>
        oc_fn info \<in> set [Ctl OpJSR, Ctl OpRTS, Ctl OpRTI, Ctl OpJMP, Ctl OpBRK]) \<and>
     (oc_fn info = Ctl OpJMP \<longleftrightarrow> oc_mnemonic info = ''JMP'') \<and>
     (oc_fn info = Ctl OpBRK \<longleftrightarrow> oc_mnemonic info = ''BRK'')"

lemma tables_ok: "entry_ok op (m_ops cmos op)"
proof (rule numbered_all)
  show "list_all (\<lambda>(n, i). entry_ok n i) (numbered s_opcodes)" by code_simp
  show "list_all (\<lambda>(n, i). entry_ok n i) (numbered s_opcodes65c02)" by code_simp
qed

lemma decode_fields:
  assumes "e = result (decodeEntry cmos ib addr) b" and "op = result (ib_peek8 ib addr) b"
  shows "de_bytes e = mode_bytes (oc_mode (m_ops cmos op))" "de_isCall e = (op = 0x20)"
    "de_isReturn e = (op = 0x60 \<or> op = 0x40)"
    "de_isBranch e = (oc_mode (m_ops cmos op) = REL \<or> oc_mode (m_ops cmos op) = BPREL)"
    "de_mnemonic e = oc_mnemonic (m_ops cmos op)"
    "de_stackOp e = stackOpFor (oc_mnemonic (m_ops cmos op))"
    "de_isIllegal e = is_illegal (m_ops cmos op) op"
  using assms by (simp_all add: decodeEntry_def case_prod_beta Let_def)

lemma mode_bytes_pos: "1 \<le> mode_bytes md"
  by (cases md) simp_all

lemma execute_pc:
  assumes "ce_observer E = None"
    and "op = result (cpu_read E (reg_pc (m_state c))) (c\<lparr>m_state := (m_state c)\<lparr>reg_pc := reg_pc (m_state c) + 1\<rparr>\<rparr>)"
    and "\<not> diverts (oc_fn (m_ops (m_cmos c) op))"
  shows "reg_pc (m_state (final (execute E) c)) =
    reg_pc (m_state c) + of_nat (mode_bytes (oc_mode (m_ops (m_cmos c) op)))"
proof -
  define info where "info = m_ops (m_cmos c) op"
  have op: "result (fetch E) c = op" "m_cmos (final (fetch E) c) = m_cmos c"
    using assms(2) by (simp_all add: fetch_def case_prod_beta cpu_read_def split: option.split)
  have K: "reg_pc (m_state (final (call_fn (oc_fn info) E a) d)) = reg_pc (m_state d)" for a d
    using keepsD [OF keeps_pc_call] assms(3) by (metis cpu_pc_def info_def)
  have "reg_pc (m_state (final (execute E) c)) =
    reg_pc (m_state c) + 1 + of_nat (mode_bytes (oc_mode info) - 1)"
    by (simp add: execute_def case_prod_beta Let_def op run_unobserved [OF assms(1)] add_cycles_def
        K operand_pc flip: info_def)
  also have "\<dots> = reg_pc (m_state c) + of_nat (mode_bytes (oc_mode info))"
    using mode_bytes_pos [of "oc_mode info"] by (simp add: of_nat_diff)
  finally show ?thesis by (simp add: info_def)
qed

section \<open>Correctness\<close>

text \<open>
  What the decoder reports of the instruction at any address is what the processor's table does
  with it: the call flag is JSR, the return flag RTS or RTI, the stack operation the push or pull of
  that register, for both processors and every opcode.
\<close>

theorem decode_flags:
  "let e = result (decodeEntry cmos ib addr) b;
       f = oc_fn (m_ops cmos (result (ib_peek8 ib addr) b))
   in (de_isCall e \<longleftrightarrow> f = Ctl OpJSR) \<and>
      (de_isReturn e \<longleftrightarrow> f = Ctl OpRTS \<or> f = Ctl OpRTI) \<and>
      (de_stackOp e = PUSH_A \<longleftrightarrow> f = Ctl OpPHA) \<and> (de_stackOp e = PUSH_P \<longleftrightarrow> f = Ctl OpPHP) \<and>
      (de_stackOp e = PUSH_X \<longleftrightarrow> f = Cmos OpPHX) \<and> (de_stackOp e = PUSH_Y \<longleftrightarrow> f = Cmos OpPHY) \<and>
      (de_stackOp e = STACK_BRK \<longleftrightarrow> f = Ctl OpBRK) \<and>
      (de_stackOp e = PULL \<longleftrightarrow> f \<in> {Ctl OpPLA, Ctl OpPLP, Cmos OpPLX, Cmos OpPLY})"
  unfolding Let_def
  using tables_ok [of "result (ib_peek8 ib addr) b" cmos] decode_fields [OF refl refl, of cmos ib addr b]
  unfolding entry_ok_def by (simp only: list.set)

text \<open>
  Straight-line code is followed entry by entry: an instruction the decoder does not report as a
  call, a return or a branch, and that is neither JMP nor BRK, leaves the program counter exactly
  \<open>bytes\<close> behind where it was, on both processors and every opcode, undocumented ones included.
\<close>

theorem straight_line_length:
  assumes "ce_bus E = Some ib" and "ce_observer E = None"
    and "e = result (decodeEntry (m_cmos c) ib (ucast (reg_pc (m_state c)))) (m_mem c)"
    and "result (ib_peek8 ib (ucast (reg_pc (m_state c)))) (m_mem c) =
         result (ib_read8 ib (ucast (reg_pc (m_state c)))) (m_mem c)"
    and "\<not> de_isCall e" "\<not> de_isReturn e" "\<not> de_isBranch e" "de_mnemonic e \<notin> {''JMP'', ''BRK''}"
  shows "reg_pc (m_state (final (execute E) c)) = reg_pc (m_state c) + of_nat (de_bytes e)"
proof -
  define op where "op = result (ib_peek8 ib (ucast (reg_pc (m_state c)))) (m_mem c)"
  note D = decode_fields [OF assms(3) op_def]
  have "op = result (cpu_read E (reg_pc (m_state c)))
      (c\<lparr>m_state := (m_state c)\<lparr>reg_pc := reg_pc (m_state c) + 1\<rparr>\<rparr>)"
    using assms(1,4) by (simp add: cpu_read_def op_def)
  moreover have "\<not> diverts (oc_fn (m_ops (m_cmos c) op))"
    using tables_ok [of op "m_cmos c"] assms(5-8) unfolding D entry_ok_def by auto
  ultimately show ?thesis using execute_pc [OF assms(2)] D(1) by simp
qed

definition lda_machine :: "unit flat_bus mos6502" where
  "lda_machine = (flat_machine False)\<lparr>m_mem := write_all flat_ibus [(0, 0xA9), (1, 0x42)] (flat_new 16 ())\<rparr>"

theorem straight_line_length_witness:
  "let e = result (decodeEntry False flat_ibus 0) (m_mem lda_machine)
   in de_bytes e = 2 \<and> reg_pc (m_state (final (execute (plain_env flat_ibus)) lda_machine)) = 0 + of_nat (de_bytes e)"
proof -
  have r: "result (ib_read8 flat_ibus 0) (m_mem lda_machine) = 0xA9"
    "result (ib_peek8 flat_ibus 0) (m_mem lda_machine) = 0xA9"
    by (simp_all add: lda_machine_def flat_ibus_def flat_new_def flat_write8_def flat_commit_def
        flat_stored_def findOverlay_def flat_read8_def flat_peek8_def flat_peek8Raw_def Let_def)
  have m: "m_cmos lda_machine = False" "reg_pc (m_state lda_machine) = 0"
    by (simp_all add: lda_machine_def flat_machine_def cpu_new_def)
  have t: "m_ops False 0xA9 = Opcode ''LDA'' (Mem OpLDA) IMM 2 False"
    by (simp add: m_ops_def s_opcodes_def)
  have e: "ce_bus (plain_env flat_ibus) = Some flat_ibus" "ce_observer (plain_env flat_ibus) = None"
    by (simp_all add: plain_env_def)
  note D = decode_fields [OF refl refl, of False flat_ibus 0 "m_mem lda_machine", unfolded r t]
  show ?thesis
    using straight_line_length [OF e refl, where c = lda_machine] D by (simp add: m r stackOpFor_def)
qed

definition cmos_entry_compatible :: "u8 \<Rightarrow> bool" where
  "cmos_entry_compatible op =
     (let n = m_ops False op; c = m_ops True op
      in is_illegal n op \<or>
         (oc_mnemonic c = oc_mnemonic n \<and> oc_fn c = oc_fn n \<and> oc_mode c = oc_mode n \<and>
          (if op \<in> set [0x1E, 0x3E, 0x5E, 0x7E] then oc_cycles n = 7 \<and> oc_cycles c = 6 \<and> oc_penalty c
           else if op = 0x6C then oc_cycles n = 5 \<and> oc_cycles c = 6
           else oc_cycles c = oc_cycles n)))"

text \<open>
  Every opcode the decoder marks as documented on the NMOS part (there are 151) is the same
  instruction with the same addressing mode on the 65C02; the base cycles differ only for
  \<open>JMP (ind)\<close> and for the four shifts indexed by X, which are one cycle less and pay a page crossing.
\<close>

theorem cmos_table_compatible:
  "cmos_entry_compatible op \<and>
   length (filter (\<lambda>(n, i). \<not> is_illegal i n) (numbered s_opcodes)) = 151"
proof -
  have "list_all cmos_entry_compatible (map of_nat [0..<256])" by code_simp
  then have "cmos_entry_compatible (map of_nat [0..<256] ! unat op)"
    unfolding list_all_length using unat_u8_lt [of op] by (metis diff_zero length_map length_upt)
  then have "cmos_entry_compatible op" using unat_u8_lt [of op] by simp
  moreover have "length (filter (\<lambda>(n, i). \<not> is_illegal i n) (numbered s_opcodes)) = 151" by code_simp
  ultimately show ?thesis by (rule conjI)
qed

end
