(* ===== verification/Cpu6510.thy ===== *)
theory Cpu6510
  imports Cpu6502Flow
begin

text \<open>
  The MOS 6510 and 8502 (\<open>plugins/6502/main/cpu6510.h\<close>, \<open>cpu6510.cpp\<close>): a 6502 whose bus is
  a proxy, \<open>PortBus\<close>, that keeps the I/O port at $00 and $01 and passes every other access to
  the real bus. The memory configuration logic of the machine observes the port's signal lines, so
  the real bus is a function of the port.
\<close>

section \<open>The port\<close>

record port6510 =
  pt_ddr :: u8
  pt_data :: u8
  pt_pinMask :: u8
  pt_bit6 :: "bool option"
  pt_loram :: bool
  pt_hiram :: bool
  pt_charen :: bool
  pt_cassetteWrite :: bool
  pt_cassetteMotor :: bool
  pt_cassetteSense :: bool

definition updateSignals :: "port6510 \<Rightarrow> port6510" where
  "updateSignals p =
     (let level = (pt_data p AND pt_ddr p) OR (NOT (pt_ddr p) AND 0x3F)
      in p\<lparr>pt_loram := tst (drop_bit 0 level) 1, pt_hiram := tst (drop_bit 1 level) 1,
           pt_charen := tst (drop_bit 2 level) 1, pt_cassetteWrite := tst (drop_bit 3 level) 1,
           pt_cassetteMotor := tst (drop_bit 5 level) 1\<rparr>)"

definition port_new :: port6510 where
  "port_new = updateSignals
     \<lparr>pt_ddr = 0x00, pt_data = 0x3F, pt_pinMask = 0x3F, pt_bit6 = None, pt_loram = True,
      pt_hiram = True, pt_charen = True, pt_cassetteWrite = True, pt_cassetteMotor = True,
      pt_cassetteSense = True\<rparr>"

definition set8502 :: "bool option \<Rightarrow> port6510 \<Rightarrow> port6510" where
  "set8502 bit6 p = p\<lparr>pt_pinMask := 0x7F, pt_bit6 := bit6\<rparr>"

definition variantName :: "port6510 \<Rightarrow> string" where
  "variantName p = (if tst (pt_pinMask p) 0x40 then ''MOS 8502'' else ''MOS 6510'')"

definition getSignalLine :: "string \<Rightarrow> port6510 \<Rightarrow> bool option" where
  "getSignalLine n p =
     (if n = ''loram'' then Some (pt_loram p) else if n = ''hiram'' then Some (pt_hiram p)
      else if n = ''charen'' then Some (pt_charen p)
      else if n = ''cassette_write'' then Some (pt_cassetteWrite p)
      else if n = ''cassette_motor'' then Some (pt_cassetteMotor p)
      else if n = ''cassette_sense'' then Some (pt_cassetteSense p) else None)"

definition portRead :: "port6510 \<Rightarrow> u8" where
  "portRead p =
     (let level = (pt_data p AND pt_ddr p) OR (NOT (pt_ddr p) AND pt_pinMask p);
          level = (if \<not> tst (pt_ddr p) 0x10
                   then (if \<not> pt_cassetteSense p then level AND NOT 0x10 else level OR 0x10)
                   else level);
          level = (if tst (pt_pinMask p) 0x40 \<and> \<not> tst (pt_ddr p) 0x40 \<and> pt_bit6 p = Some False
                   then level AND NOT 0x40 else level)
      in level OR NOT (pt_pinMask p))"

definition ddrWrite :: "u8 \<Rightarrow> port6510 \<Rightarrow> port6510" where
  "ddrWrite val p = updateSignals (p\<lparr>pt_ddr := val AND pt_pinMask p\<rparr>)"

definition dataWrite :: "u8 \<Rightarrow> port6510 \<Rightarrow> port6510" where
  "dataWrite val p = updateSignals (p\<lparr>pt_data := val AND pt_pinMask p\<rparr>)"

definition port_reset :: "port6510 \<Rightarrow> port6510" where
  "port_reset p = updateSignals (p\<lparr>pt_ddr := 0x00, pt_data := 0x3F\<rparr>)"

section \<open>The proxy bus\<close>

record 'b port_bus =
  po_port :: port6510
  po_real :: 'b

definition on_port :: "(port6510 \<Rightarrow> port6510) \<Rightarrow> ('b port_bus, unit) state" where
  "on_port f = modify (\<lambda>b. b\<lparr>po_port := f (po_port b)\<rparr>)"

definition on_real :: "(port6510 \<Rightarrow> ('b, 'a) state) \<Rightarrow> ('b port_bus, 'a) state" where
  "on_real m = State_Monad.State (\<lambda>b.
     let r = run_state (m (po_port b)) (po_real b) in (fst r, b\<lparr>po_real := snd r\<rparr>))"

definition port_read8 :: "(port6510 \<Rightarrow> 'b ibus) \<Rightarrow> u32 \<Rightarrow> ('b port_bus, u8) state" where
  "port_read8 real addr =
     (if addr = 0x0000 then gets (\<lambda>b. pt_ddr (po_port b))
      else if addr = 0x0001 then gets (\<lambda>b. portRead (po_port b))
      else on_real (\<lambda>p. ib_read8 (real p) addr))"

definition port_write8 :: "(port6510 \<Rightarrow> 'b ibus) \<Rightarrow> u32 \<Rightarrow> u8 \<Rightarrow> ('b port_bus, unit) state" where
  "port_write8 real addr val =
     (if addr = 0x0000 then on_port (ddrWrite val)
      else if addr = 0x0001 then on_port (dataWrite val)
      else on_real (\<lambda>p. ib_write8 (real p) addr val))"

definition port_peek8 :: "(port6510 \<Rightarrow> 'b ibus) \<Rightarrow> u32 \<Rightarrow> ('b port_bus, u8) state" where
  "port_peek8 real addr =
     (if addr = 0x0000 then gets (\<lambda>b. pt_ddr (po_port b))
      else if addr = 0x0001 then gets (\<lambda>b. portRead (po_port b))
      else on_real (\<lambda>p. ib_peek8 (real p) addr))"

definition port_ibus :: "(port6510 \<Rightarrow> 'b ibus) \<Rightarrow> 'b port_bus ibus" where
  "port_ibus real =
     \<lparr>ib_read8 = port_read8 real, ib_write8 = port_write8 real, ib_peek8 = port_peek8 real,
      ib_littleEndian = ib_littleEndian (real port_new)\<rparr>"

text \<open>\<open>MOS6510::reset\<close>: the port first, then the 6502, which reads its vector.\<close>

definition reset6510 :: "'b port_bus cpu_env \<Rightarrow> ('b port_bus mos6502, unit) state" where
  "reset6510 E = do { on_mem (on_port port_reset); cpu_reset E }"

definition step6510 :: "'b port_bus cpu_env \<Rightarrow> ('b port_bus mos6502, nat) state" where
  "step6510 E = step E"

lemma run_on_real [simp]:
  "run_state (on_real m) b =
     (result (m (po_port b)) (po_real b), b\<lparr>po_real := final (m (po_port b)) (po_real b)\<rparr>)"
  by (simp add: on_real_def Let_def)

lemma run_on_port [simp]: "run_state (on_port f) b = ((), b\<lparr>po_port := f (po_port b)\<rparr>)"
  by (simp add: on_port_def)

lemmas port_ops = port_ibus_def port_read8_def port_write8_def port_peek8_def

section \<open>A bus behind the port is still a bus\<close>

locale banked_ram =
  fixes real :: "port6510 \<Rightarrow> 'b ibus" and mem :: "'b \<Rightarrow> u32 \<Rightarrow> u8" and ram :: "u32 set"
    and ok :: "'b \<Rightarrow> bool"
  assumes every_config: "ram_bus (real p) mem ram ok"

text \<open>RAM that is visible in every memory configuration is RAM behind the port, but for $00 and $01.\<close>

sublocale banked_ram \<subseteq> port: ram_bus "port_ibus real" "\<lambda>b. mem (po_real b)" "ram - {0, 1}" "\<lambda>b. ok (po_real b)"
proof (unfold_locales, goal_cases)
  case (1 b a) then show ?case by (simp add: port_ops ram_bus.read_ok [OF every_config])
next
  case (2 b a v) then show ?case by (simp add: port_ops ram_bus.write_ok [OF every_config])
next
  case (3 b a) then show ?case by (simp add: port_ops ram_bus.read_ram [OF every_config])
next
  case (4 b a c) then show ?case by (simp add: port_ops ram_bus.read_frame [OF every_config])
next
  case (5 b a c v) then show ?case by (simp add: port_ops ram_bus.write_ram [OF every_config])
qed

lemma stack_page_not_port: "0 \<notin> stack_page" "1 \<notin> stack_page"
  by (simp_all add: stack_page_def word_le_nat_alt)

context banked_ram
begin

lemma cpu:
  assumes "stack_page \<subseteq> ram"
  shows "cpu_bus (port_ibus real) (\<lambda>b. mem (po_real b)) (ram - {0, 1}) (\<lambda>b. ok (po_real b))
    (plain_env (port_ibus real))"
  using port.ram_bus_axioms assms stack_page_not_port
  by (auto simp: cpu_bus_def cpu_bus_axioms_def plain_env_def)

end

text \<open>A machine whose 64 KB of RAM are always visible; the processor drives it through the port.\<close>

interpretation flat_banked: banked_ram "\<lambda>_. flat_ibus" fb_data R "flat_ok R" for R
  by unfold_locales

interpretation flat6510: cpu_bus "port_ibus (\<lambda>_. flat_ibus)" "\<lambda>b. fb_data (po_real b)" "ram64 - {0, 1}"
    "\<lambda>b. flat_ok ram64 (po_real b)" "plain_env (port_ibus (\<lambda>_. flat_ibus))"
  by (rule flat_banked.cpu) (auto simp: stack_page_def ram64_def word_le_nat_alt)

section \<open>Correctness\<close>

text \<open>
  What the port keeps: both registers have only the pins' bits, and each output line is the level of
  its pin, an input being pulled high.
\<close>

definition pin_level :: "port6510 \<Rightarrow> nat \<Rightarrow> bool" where
  "pin_level p n \<longleftrightarrow> (if bit (pt_ddr p) n then bit (pt_data p) n else True)"

definition port_inv :: "port6510 \<Rightarrow> bool" where
  "port_inv p \<longleftrightarrow> (pt_pinMask p = 0x3F \<or> pt_pinMask p = 0x7F) \<and>
     (\<forall>n < 8. bit (pt_ddr p) n \<longrightarrow> bit (pt_pinMask p) n) \<and>
     (\<forall>n < 8. bit (pt_data p) n \<longrightarrow> bit (pt_pinMask p) n) \<and>
     pt_loram p = pin_level p 0 \<and> pt_hiram p = pin_level p 1 \<and> pt_charen p = pin_level p 2 \<and>
     pt_cassetteWrite p = pin_level p 3 \<and> pt_cassetteMotor p = pin_level p 5"

lemma level_bit:
  "n < 6 \<Longrightarrow> bit ((pt_data p AND pt_ddr p) OR (NOT (pt_ddr p) AND 0x3F)) n = pin_level p n"
  by (auto simp: bit_simps flag_bits pin_level_def)

lemma updateSignals_lines [simp]:
  "pt_loram (updateSignals p) = pin_level p 0" "pt_hiram (updateSignals p) = pin_level p 1"
  "pt_charen (updateSignals p) = pin_level p 2" "pt_cassetteWrite (updateSignals p) = pin_level p 3"
  "pt_cassetteMotor (updateSignals p) = pin_level p 5"
  "pt_ddr (updateSignals p) = pt_ddr p" "pt_data (updateSignals p) = pt_data p"
  "pt_pinMask (updateSignals p) = pt_pinMask p" "pt_bit6 (updateSignals p) = pt_bit6 p"
  "pt_cassetteSense (updateSignals p) = pt_cassetteSense p" "pin_level (updateSignals p) n = pin_level p n"
  by (simp_all add: updateSignals_def Let_def tst_bit bit_drop_bit_eq level_bit pin_level_def)

lemma port_inv_ops [simp]:
  "port_inv p \<Longrightarrow> port_inv (ddrWrite v p)" "port_inv p \<Longrightarrow> port_inv (dataWrite v p)"
  "pt_pinMask p = 0x3F \<or> pt_pinMask p = 0x7F \<Longrightarrow> port_inv (port_reset p)" "port_inv port_new"
  by (auto simp: port_inv_def ddrWrite_def dataWrite_def port_reset_def port_new_def bit_simps
      flag_bits)

lemma port_inv_write [simp]:
  "port_inv (po_port b) \<Longrightarrow> port_inv (po_port (final (ib_write8 (port_ibus real) a v) b))"
  by (simp add: port_ops)

lemma port_inv_writes:
  "port_inv (po_port b) \<Longrightarrow> port_inv (po_port (write_all (port_ibus real) ws b))"
  by (induction ws arbitrary: b) auto

lemma portRead_bit:
  assumes "port_inv p" and "n < 8"
  shows "bit (portRead p) n \<longleftrightarrow>
    (if bit (pt_ddr p) n \<or> \<not> bit (pt_pinMask p) n then bit (pt_data p) n \<or> \<not> bit (pt_pinMask p) n
     else if n = 4 then pt_cassetteSense p else if n = 6 then pt_bit6 p \<noteq> Some False else True)"
proof -
  have d: "bit (pt_ddr p) n \<Longrightarrow> bit (pt_pinMask p) n" "bit (pt_data p) n \<Longrightarrow> bit (pt_pinMask p) n"
    and m: "bit (pt_pinMask p) 4"
    using assms by (auto simp: port_inv_def flag_bits)
  consider "n = 4" | "n = 6" | "n \<noteq> 4" "n \<noteq> 6" by blast
  then show ?thesis
    using d m assms(2)
    by cases (auto simp: portRead_def Let_def bit_simps flag_bits)
qed

text \<open>The observed lines are bits of the port read.\<close>

lemma port_line_bits:
  assumes "port_inv p"
  shows "pt_loram p = bit (portRead p) 0" "pt_hiram p = bit (portRead p) 1" "pt_charen p = bit (portRead p) 2"
    "pt_cassetteWrite p = bit (portRead p) 3" "pt_cassetteMotor p = bit (portRead p) 5"
proof -
  have m: "n < 6 \<Longrightarrow> bit (pt_pinMask p) n" for n
    using assms by (auto simp: port_inv_def flag_bits)
  have l: "pin_level p n = bit (portRead p) n" if "n < 6" "n \<noteq> 4" for n
    using that m [of n] by (simp add: portRead_bit [OF assms] pin_level_def)
  show "pt_loram p = bit (portRead p) 0" "pt_hiram p = bit (portRead p) 1" "pt_charen p = bit (portRead p) 2"
    "pt_cassetteWrite p = bit (portRead p) 3" "pt_cassetteMotor p = bit (portRead p) 5"
    using assms l by (simp_all add: port_inv_def)
qed

text \<open>
  The banking and cassette lines the rest of the machine observes are always the bits the program
  reads at $01, whatever was written through the port bus before; with the cassette sense and the
  8502's bit 6 high that read is \<open>(DATA & DDR) | ~DDR\<close>.
\<close>

theorem port_lines_are_the_read:
  fixes real :: "port6510 \<Rightarrow> 'b ibus" and ws :: "(u32 \<times> u8) list"
  assumes "port_inv (po_port b)"
  defines "b' \<equiv> write_all (port_ibus real) ws b"
  defines "v \<equiv> result (ib_read8 (port_ibus real) 1) b'"
  shows "pt_loram (po_port b') = bit v 0 \<and> pt_hiram (po_port b') = bit v 1 \<and>
    pt_charen (po_port b') = bit v 2 \<and> pt_cassetteWrite (po_port b') = bit v 3 \<and>
    pt_cassetteMotor (po_port b') = bit v 5 \<and>
    (pt_cassetteSense (po_port b') \<and> pt_bit6 (po_port b') \<noteq> Some False \<longrightarrow>
      v = (pt_data (po_port b') AND pt_ddr (po_port b')) OR NOT (pt_ddr (po_port b')))"
proof -
  have inv: "port_inv (po_port b')" unfolding b'_def by (rule port_inv_writes [OF assms(1)])
  have v: "v = portRead (po_port b')" by (simp add: v_def port_ops)
  have "v = (pt_data (po_port b') AND pt_ddr (po_port b')) OR NOT (pt_ddr (po_port b'))"
    if "pt_cassetteSense (po_port b')" "pt_bit6 (po_port b') \<noteq> Some False"
    by (rule u8_eqI) (use that inv in \<open>auto simp: v portRead_bit [OF inv] port_inv_def bit_simps\<close>)
  then show ?thesis using port_line_bits [OF inv] by (simp add: v)
qed

definition c64_bus :: "unit flat_bus port_bus" where
  "c64_bus = \<lparr>po_port = port_new, po_real = flat_new 16 ()\<rparr>"

theorem port_lines_are_the_read_witness:
  "let b' = write_all (port_ibus (\<lambda>_. flat_ibus)) [(0, 0x2F), (1, 0x35)] c64_bus
   in pt_loram (po_port b') = bit (result (ib_read8 (port_ibus (\<lambda>_. flat_ibus)) 1) b') 0 \<and>
      \<not> pt_hiram (po_port b')"
proof -
  have i: "port_inv (po_port c64_bus)" by (simp add: c64_bus_def)
  have "\<not> bit (0x35 :: u8) 1" by simp
  then have h: "\<not> pt_hiram (po_port (write_all (port_ibus (\<lambda>_. flat_ibus)) [(0, 0x2F), (1, 0x35)] c64_bus))"
    by (simp add: port_ops ddrWrite_def dataWrite_def pin_level_def c64_bus_def port_new_def bit_simps flag_bits)
  then show ?thesis
    using port_lines_are_the_read [OF i, of "\<lambda>_. flat_ibus" "[(0, 0x2F), (1, 0x35)]"] by (simp add: Let_def)
qed

text \<open>
  A reset raises the three banking lines before the vector is read, whatever the program left in
  the port: the new PC is the word at $FFFC as the memory configuration with all lines high has it.
\<close>

theorem reset6510_vector:
  fixes real :: "port6510 \<Rightarrow> 'b ibus" and c :: "'b port_bus mos6502"
  assumes "ce_bus E = Some (port_ibus real)"
  defines "c' \<equiv> final (reset6510 E) c" and "p \<equiv> port_reset (po_port (m_mem c))"
    and "lo \<equiv> ib_read8 (real (port_reset (po_port (m_mem c)))) 0xFFFC"
    and "hi \<equiv> ib_read8 (real (port_reset (po_port (m_mem c)))) 0xFFFD"
  shows "pt_loram p \<and> pt_hiram p \<and> pt_charen p \<and> po_port (m_mem c') = p \<and>
    reg_pc (m_state c') = mk16 (result lo (po_real (m_mem c))) (result hi (final lo (po_real (m_mem c)))) \<and>
    reg_sp (m_state c') = 0xFD \<and> reg_p (m_state c') = FLAG_U OR FLAG_I \<and> st_cycles (m_state c') = 0"
  using assms(1)
  by (simp add: c'_def p_def lo_def hi_def reset6510_def cpu_reset_def port_ops case_prod_beta
      port_reset_def pin_level_def)

theorem reset6510_vector_witness:
  "let c = (cpu_new False c64_bus)\<lparr>m_mem := write_all (port_ibus (\<lambda>_. flat_ibus)) [(0, 0xFF), (1, 0)] c64_bus\<rparr>
   in \<not> pt_hiram (po_port (m_mem c)) \<and>
      pt_hiram (po_port (m_mem (final (reset6510 (plain_env (port_ibus (\<lambda>_. flat_ibus)))) c)))"
proof -
  define c where "c = (cpu_new False c64_bus)\<lparr>m_mem := write_all (port_ibus (\<lambda>_. flat_ibus)) [(0, 0xFF), (1, 0)] c64_bus\<rparr>"
  have "\<not> pt_hiram (po_port (m_mem c))"
    by (simp add: c_def port_ops ddrWrite_def dataWrite_def pin_level_def c64_bus_def port_new_def bit_simps flag_bits)
  then show ?thesis
    unfolding Let_def c_def [symmetric]
    using reset6510_vector [of "plain_env (port_ibus (\<lambda>_. flat_ibus))" "\<lambda>_. flat_ibus" c]
    by (simp add: plain_env_def)
qed

text \<open>
  A program on the 6510 runs its subroutines as on the 6502: with RAM in the stack page in every
  memory configuration, an RTS after a JSR restores every register, and the port is not touched.
\<close>

theorem mos6510_subroutine:
  assumes "banked_ram real mem ram ok" and "stack_page \<subseteq> ram" and "ok (po_real (m_mem c))"
  shows "m_state (final (do { opJSR (plain_env (port_ibus real)) a; opRTS (plain_env (port_ibus real)) x }) c) = m_state c \<and>
    reg_pc (m_state (final (opJSR (plain_env (port_ibus real)) a) c)) = a \<and>
    (\<forall>y \<in> ram - {0, 1} - stack_page.
       mem (po_real (m_mem (final (opJSR (plain_env (port_ibus real)) a) c))) y = mem (po_real (m_mem c)) y)"
proof -
  have "cpu_bus (port_ibus real) (\<lambda>b. mem (po_real b)) (ram - {0, 1}) (\<lambda>b. ok (po_real b)) (plain_env (port_ibus real))"
    using banked_ram.cpu [OF assms(1,2)] .
  from cpu_bus.subroutine [OF this assms(3), where a = a] show ?thesis by (simp add: case_prod_beta)
qed

theorem mos6510_subroutine_witness:
  "let c = cpu_new False c64_bus; E = plain_env (port_ibus (\<lambda>_. flat_ibus))
   in m_state (final (do { opJSR E 0xC000; opRTS E 0 }) c) = m_state c"
proof -
  have p: "stack_page \<subseteq> ram64" by (auto simp: stack_page_def ram64_def word_le_nat_alt)
  have o: "flat_ok ram64 (po_real (m_mem (cpu_new False c64_bus)))"
    by (simp add: cpu_new_def c64_bus_def flat_new_ok)
  show ?thesis
    using mos6510_subroutine [OF flat_banked.banked_ram_axioms p o, where a = "0xC000" and x = 0]
    by (simp add: Let_def)
qed

end
