(* ===== verification/Breakpoints.thy ===== *)
theory Breakpoints
  imports Cpu6502Step FlatBus
begin

text \<open>
  Breakpoints and watches (\<open>libdebug/main/breakpoint_list.h\<close>, \<open>breakpoint_list.cpp\<close>). What a
  check asks of the debug context is \<open>dbg_view\<close>: the memory map of the processor, the expression
  evaluator (\<open>ExpressionEvaluator::evaluate\<close>, whose result is a parameter here; a condition
  only asks whether it is zero) and the bus.
\<close>

section \<open>The list\<close>

datatype bp_type = EXEC | READ_WATCH | WRITE_WATCH | VALUE_WATCH

record breakpoint =
  bp_addr :: u32
  bp_type :: bp_type
  bp_condition :: string
  bp_luaAction :: string
  bp_hitCount :: int
  bp_hitCountLimit :: int
  bp_enabled :: bool
  bp_physical :: bool
  bp_id :: int
  bp_watchSize :: u32
  bp_lastWatchValue :: "u8 list"

record breakpoint_list =
  bl_breakpoints :: "breakpoint list"
  bl_nextId :: int
  bl_execCount :: int
  bl_watchCount :: int

definition bl_new :: breakpoint_list where
  "bl_new = \<lparr>bl_breakpoints = [], bl_nextId = 1, bl_execCount = 0, bl_watchCount = 0\<rparr>"

definition bl_add :: "u32 \<Rightarrow> bp_type \<Rightarrow> bool \<Rightarrow> breakpoint_list \<Rightarrow> int \<times> breakpoint_list" where
  "bl_add addr ty physical l =
     (let i = bl_nextId l;
          bp = \<lparr>bp_addr = addr, bp_type = ty, bp_condition = '''', bp_luaAction = '''',
                bp_hitCount = 0, bp_hitCountLimit = 0, bp_enabled = True, bp_physical = physical,
                bp_id = i, bp_watchSize = 0, bp_lastWatchValue = []\<rparr>
      in (i, l\<lparr>bl_nextId := bl_nextId l + 1, bl_breakpoints := bl_breakpoints l @ [bp],
                bl_execCount := (if ty = EXEC then bl_execCount l + 1 else bl_execCount l)\<rparr>))"

definition bl_addWatch :: "u32 \<Rightarrow> u32 \<Rightarrow> breakpoint_list \<Rightarrow> int \<times> breakpoint_list" where
  "bl_addWatch addr sz l =
     (let i = bl_nextId l;
          bp = \<lparr>bp_addr = addr, bp_type = VALUE_WATCH, bp_condition = '''', bp_luaAction = '''',
                bp_hitCount = 0, bp_hitCountLimit = 0, bp_enabled = True, bp_physical = False,
                bp_id = i, bp_watchSize = sz, bp_lastWatchValue = []\<rparr>
      in (i, l\<lparr>bl_nextId := bl_nextId l + 1, bl_breakpoints := bl_breakpoints l @ [bp],
                bl_watchCount := bl_watchCount l + 1\<rparr>))"

text \<open>\<open>erase(find_if(...))\<close>: the first element that satisfies \<open>P\<close>, and the list without it.\<close>

fun erase_first :: "('a \<Rightarrow> bool) \<Rightarrow> 'a list \<Rightarrow> 'a option \<times> 'a list" where
  "erase_first P [] = (None, [])"
| "erase_first P (x # xs) =
     (if P x then (Some x, xs) else (let r = erase_first P xs in (fst r, x # snd r)))"

definition remove_where :: "(breakpoint \<Rightarrow> bool) \<Rightarrow> breakpoint_list \<Rightarrow> breakpoint_list" where
  "remove_where P l =
     (case erase_first P (bl_breakpoints l) of
        (None, _) \<Rightarrow> l
      | (Some b, bs) \<Rightarrow>
          l\<lparr>bl_breakpoints := bs,
            bl_execCount := (if bp_type b = EXEC then bl_execCount l - 1 else bl_execCount l),
            bl_watchCount := (if bp_type b = VALUE_WATCH then bl_watchCount l - 1 else bl_watchCount l)\<rparr>)"

definition bl_remove :: "int \<Rightarrow> breakpoint_list \<Rightarrow> breakpoint_list" where
  "bl_remove i = remove_where (\<lambda>b. bp_id b = i)"

definition bl_removeByAddress :: "u32 \<Rightarrow> breakpoint_list \<Rightarrow> breakpoint_list" where
  "bl_removeByAddress addr = remove_where (\<lambda>b. bp_addr b = addr)"

text \<open>The setters change the first breakpoint with the id.\<close>

fun update_first :: "('a \<Rightarrow> bool) \<Rightarrow> ('a \<Rightarrow> 'a) \<Rightarrow> 'a list \<Rightarrow> 'a list" where
  "update_first P f [] = []"
| "update_first P f (x # xs) = (if P x then f x # xs else x # update_first P f xs)"

definition update_id :: "int \<Rightarrow> (breakpoint \<Rightarrow> breakpoint) \<Rightarrow> breakpoint_list \<Rightarrow> breakpoint_list" where
  "update_id i f l = l\<lparr>bl_breakpoints := update_first (\<lambda>b. bp_id b = i) f (bl_breakpoints l)\<rparr>"

definition bl_setEnabled :: "int \<Rightarrow> bool \<Rightarrow> breakpoint_list \<Rightarrow> breakpoint_list" where
  "bl_setEnabled i v = update_id i (\<lambda>b. b\<lparr>bp_enabled := v\<rparr>)"

definition bl_setCondition :: "int \<Rightarrow> string \<Rightarrow> breakpoint_list \<Rightarrow> breakpoint_list" where
  "bl_setCondition i s = update_id i (\<lambda>b. b\<lparr>bp_condition := s\<rparr>)"

definition bl_setLuaAction :: "int \<Rightarrow> string \<Rightarrow> breakpoint_list \<Rightarrow> breakpoint_list" where
  "bl_setLuaAction i s = update_id i (\<lambda>b. b\<lparr>bp_luaAction := s\<rparr>)"

definition bl_setHitCountLimit :: "int \<Rightarrow> int \<Rightarrow> breakpoint_list \<Rightarrow> breakpoint_list" where
  "bl_setHitCountLimit i n = update_id i (\<lambda>b. b\<lparr>bp_hitCountLimit := n\<rparr>)"

definition bl_findById :: "int \<Rightarrow> breakpoint_list \<Rightarrow> breakpoint option" where
  "bl_findById i l = List.find (\<lambda>b. bp_id b = i) (bl_breakpoints l)"

definition bl_clearHitCounts :: "breakpoint_list \<Rightarrow> breakpoint_list" where
  "bl_clearHitCounts l = l\<lparr>bl_breakpoints := List.map (\<lambda>b. b\<lparr>bp_hitCount := 0\<rparr>) (bl_breakpoints l)\<rparr>"

definition hasExecBreakpoints :: "breakpoint_list \<Rightarrow> bool" where
  "hasExecBreakpoints l \<longleftrightarrow> bl_execCount l > 0"

definition hasValueWatches :: "breakpoint_list \<Rightarrow> bool" where
  "hasValueWatches l \<longleftrightarrow> bl_watchCount l > 0"

section \<open>Checks\<close>

record 'b dbg_view =
  dv_mmu :: "(u32 \<Rightarrow> u32) option"
  dv_evaluate :: "string \<Rightarrow> int option"
  dv_bus :: "'b ibus option"

definition toPhysical :: "u32 \<Rightarrow> 'b dbg_view \<Rightarrow> u32" where
  "toPhysical vaddr dbg = (case dv_mmu dbg of Some resolve \<Rightarrow> resolve vaddr | None \<Rightarrow> vaddr)"

definition evaluateCondition :: "string \<Rightarrow> 'b dbg_view \<Rightarrow> bool" where
  "evaluateCondition e dbg \<longleftrightarrow>
     (if e = '''' then True
      else case dv_evaluate dbg e of Some r \<Rightarrow> r \<noteq> 0 | None \<Rightarrow> False)"

definition bp_matches :: "bp_type \<Rightarrow> u32 \<Rightarrow> 'b dbg_view \<Rightarrow> breakpoint \<Rightarrow> bool" where
  "bp_matches ty addr dbg b \<longleftrightarrow>
     (if \<not> bp_enabled b \<or> bp_type b \<noteq> ty then False
      else let cmpAddr = (if bp_physical b then toPhysical addr dbg else addr)
           in bp_addr b = cmpAddr \<and> evaluateCondition (bp_condition b) dbg)"

text \<open>The loop the three address checks share: the first match is counted and returned.\<close>

fun check_loop :: "(breakpoint \<Rightarrow> bool) \<Rightarrow> breakpoint list \<Rightarrow> breakpoint option \<times> breakpoint list" where
  "check_loop P [] = (None, [])"
| "check_loop P (b # bs) =
     (if P b then (let b' = b\<lparr>bp_hitCount := bp_hitCount b + 1\<rparr> in (Some b', b' # bs))
      else (let r = check_loop P bs in (fst r, b # snd r)))"

definition check_type ::
  "bp_type \<Rightarrow> u32 \<Rightarrow> 'b dbg_view \<Rightarrow> breakpoint_list \<Rightarrow> breakpoint option \<times> breakpoint_list" where
  "check_type ty addr dbg l =
     (let r = check_loop (bp_matches ty addr dbg) (bl_breakpoints l) in (fst r, l\<lparr>bl_breakpoints := snd r\<rparr>))"

definition checkExec :: "u32 \<Rightarrow> 'b dbg_view \<Rightarrow> breakpoint_list \<Rightarrow> breakpoint option \<times> breakpoint_list" where
  "checkExec = check_type EXEC"

definition checkWrite :: "u32 \<Rightarrow> 'b dbg_view \<Rightarrow> breakpoint_list \<Rightarrow> breakpoint option \<times> breakpoint_list" where
  "checkWrite = check_type WRITE_WATCH"

definition checkRead :: "u32 \<Rightarrow> 'b dbg_view \<Rightarrow> breakpoint_list \<Rightarrow> breakpoint option \<times> breakpoint_list" where
  "checkRead = check_type READ_WATCH"

text \<open>A value watch compares the bytes it covers with those of the last check.\<close>

definition currentValue :: "'b dbg_view \<Rightarrow> breakpoint \<Rightarrow> ('b, u8 list) state" where
  "currentValue dbg b = (case dv_bus dbg of
     Some ib \<Rightarrow> peek_bytes ib (bp_addr b) 0 (unat (bp_watchSize b))
   | None \<Rightarrow> State_Monad.return (replicate (unat (bp_watchSize b)) 0))"

definition watch_covers :: "u32 \<Rightarrow> breakpoint \<Rightarrow> bool" where
  "watch_covers addr b \<longleftrightarrow> bp_enabled b \<and> bp_type b = VALUE_WATCH \<and>
     bp_addr b \<le> addr \<and> addr < bp_addr b + bp_watchSize b"

fun watch_loop :: "u32 \<Rightarrow> 'b dbg_view \<Rightarrow> breakpoint list \<Rightarrow> ('b, breakpoint option \<times> breakpoint list) state" where
  "watch_loop addr dbg [] = State_Monad.return (None, [])"
| "watch_loop addr dbg (b # bs) =
     (if watch_covers addr b then do {
        cur \<leftarrow> currentValue dbg b;
        (if bp_lastWatchValue b = [] then do {
           r \<leftarrow> watch_loop addr dbg bs;
           State_Monad.return (fst r, b\<lparr>bp_lastWatchValue := cur\<rparr> # snd r) }
         else if bp_lastWatchValue b \<noteq> cur then
           (let b' = b\<lparr>bp_hitCount := bp_hitCount b + 1, bp_lastWatchValue := cur\<rparr>
            in if bp_hitCountLimit b' = 0 \<or> bp_hitCount b' < bp_hitCountLimit b'
               then State_Monad.return (Some b', b' # bs)
               else do { r \<leftarrow> watch_loop addr dbg bs; State_Monad.return (fst r, b' # snd r) })
         else do { r \<leftarrow> watch_loop addr dbg bs; State_Monad.return (fst r, b # snd r) }) }
      else do { r \<leftarrow> watch_loop addr dbg bs; State_Monad.return (fst r, b # snd r) })"

definition checkValueChange ::
  "u32 \<Rightarrow> 'b dbg_view \<Rightarrow> breakpoint_list \<Rightarrow> ('b, breakpoint option \<times> breakpoint_list) state" where
  "checkValueChange addr dbg l = do {
     r \<leftarrow> watch_loop addr dbg (bl_breakpoints l);
     State_Monad.return (fst r, l\<lparr>bl_breakpoints := snd r\<rparr>) }"

section \<open>The invariant\<close>

definition bl_inv :: "breakpoint_list \<Rightarrow> bool" where
  "bl_inv l \<longleftrightarrow> distinct (map bp_id (bl_breakpoints l)) \<and>
     (\<forall>i \<in> set (map bp_id (bl_breakpoints l)). i < bl_nextId l) \<and>
     bl_execCount l = int (count_list (map bp_type (bl_breakpoints l)) EXEC) \<and>
     bl_watchCount l = int (count_list (map bp_type (bl_breakpoints l)) VALUE_WATCH)"

lemma erase_first_None: "fst (erase_first P xs) = None \<longleftrightarrow> (\<forall>x \<in> set xs. \<not> P x)"
  by (induction xs) (auto simp: Let_def)

lemma erase_first_Some:
  "erase_first P xs = (Some x, ys) \<Longrightarrow> \<exists>us vs. xs = us @ x # vs \<and> ys = us @ vs \<and> P x \<and> (\<forall>u \<in> set us. \<not> P u)"
proof (induction xs arbitrary: ys)
  case (Cons a xs)
  show ?case
  proof (cases "P a")
    case True
    then show ?thesis using Cons.prems by fastforce
  next
    case False
    then obtain zs where z: "erase_first P xs = (Some x, zs)" "ys = a # zs"
      using Cons.prems by (cases "erase_first P xs") (auto simp: Let_def)
    then obtain us vs where "xs = us @ x # vs" "ys = a # us @ vs" "P x" "\<forall>u \<in> set us. \<not> P u"
      using Cons.IH by blast
    then show ?thesis using False by (intro exI [of _ "a # us"] exI [of _ vs]) auto
  qed
qed simp

lemma bl_inv_remove: "bl_inv l \<Longrightarrow> bl_inv (remove_where P l)"
  by (auto simp: remove_where_def bl_inv_def split: option.splits prod.splits dest!: erase_first_Some)

lemma map_update_first:
  "(\<And>x. g (f x) = g x) \<Longrightarrow> map g (update_first P f xs) = map g xs"
  by (induction xs) auto

text \<open>An operation that keeps ids and types keeps the invariant.\<close>

lemma bl_inv_same:
  assumes "bl_inv l"
    and "map (\<lambda>b. (bp_id b, bp_type b)) bs = map (\<lambda>b. (bp_id b, bp_type b)) (bl_breakpoints l)"
  shows "bl_inv (l\<lparr>bl_breakpoints := bs\<rparr>)"
proof -
  have i: "map bp_id bs = map bp_id (bl_breakpoints l)" "map bp_type bs = map bp_type (bl_breakpoints l)"
    using arg_cong [OF assms(2), of "map fst"] arg_cong [OF assms(2), of "map snd"]
    by (simp_all add: comp_def)
  show ?thesis using assms(1) unfolding bl_inv_def by (simp add: i del: set_map)
qed

lemma bl_inv_update:
  assumes "bl_inv l" and "\<And>b. bp_id (f b) = bp_id b" and "\<And>b. bp_type (f b) = bp_type b"
  shows "bl_inv (update_id i f l)"
  unfolding update_id_def by (rule bl_inv_same [OF assms(1)], rule map_update_first) (simp add: assms(2,3))

lemma bl_inv_add:
  "bl_inv l \<Longrightarrow> ty \<noteq> VALUE_WATCH \<Longrightarrow> bl_inv (snd (bl_add a ty ph l))"
  "bl_inv l \<Longrightarrow> bl_inv (snd (bl_addWatch a n l))"
  by (force simp: bl_inv_def bl_add_def bl_addWatch_def Let_def)+

lemma check_loop_same:
  "map (\<lambda>b. (bp_id b, bp_type b)) (snd (check_loop P bs)) = map (\<lambda>b. (bp_id b, bp_type b)) bs"
  by (induction bs) (auto simp: Let_def)

lemma bl_inv_check: "bl_inv l \<Longrightarrow> bl_inv (snd (check_type ty a dbg l))"
  by (simp add: check_type_def Let_def bl_inv_same check_loop_same)

lemma watch_loop_same:
  "map (\<lambda>b. (bp_id b, bp_type b)) (snd (result (watch_loop a dbg bs) m)) = map (\<lambda>b. (bp_id b, bp_type b)) bs"
  by (induction bs arbitrary: m) (auto simp: Let_def case_prod_beta)

lemma bl_inv_watch: "bl_inv l \<Longrightarrow> bl_inv (snd (result (checkValueChange a dbg l) m))"
  by (simp add: checkValueChange_def case_prod_beta bl_inv_same watch_loop_same)

section \<open>Correctness\<close>

datatype bp_op =
    Add u32 bp_type bool | AddWatch u32 u32 | Remove int | RemoveByAddress u32 | SetEnabled int bool
  | SetCondition int string | SetHitCountLimit int int | ClearHitCounts | Check bp_type u32

primrec do_op :: "'b dbg_view \<Rightarrow> bp_op \<Rightarrow> breakpoint_list \<Rightarrow> breakpoint_list" where
  "do_op dbg (Add a ty ph) l = snd (bl_add a ty ph l)"
| "do_op dbg (AddWatch a n) l = snd (bl_addWatch a n l)"
| "do_op dbg (Remove i) l = bl_remove i l"
| "do_op dbg (RemoveByAddress a) l = bl_removeByAddress a l"
| "do_op dbg (SetEnabled i v) l = bl_setEnabled i v l"
| "do_op dbg (SetCondition i e) l = bl_setCondition i e l"
| "do_op dbg (SetHitCountLimit i n) l = bl_setHitCountLimit i n l"
| "do_op dbg ClearHitCounts l = bl_clearHitCounts l"
| "do_op dbg (Check ty a) l = snd (check_type ty a dbg l)"

text \<open>A value watch is made with \<open>addWatch\<close>, never with \<open>add\<close>.\<close>

primrec op_ok :: "bp_op \<Rightarrow> bool" where
  "op_ok (Add a ty ph) = (ty \<noteq> VALUE_WATCH)"
| "op_ok (AddWatch a n) = True" | "op_ok (Remove i) = True" | "op_ok (RemoveByAddress a) = True"
| "op_ok (SetEnabled i v) = True" | "op_ok (SetCondition i e) = True"
| "op_ok (SetHitCountLimit i n) = True" | "op_ok ClearHitCounts = True" | "op_ok (Check ty a) = True"

lemma bl_inv_clear: "bl_inv l \<Longrightarrow> bl_inv (bl_clearHitCounts l)"
  unfolding bl_clearHitCounts_def by (erule bl_inv_same) (simp add: comp_def)

lemma bl_inv_op: "bl_inv l \<Longrightarrow> op_ok x \<Longrightarrow> bl_inv (do_op dbg x l)"
  by (cases x) (simp_all add: bl_inv_add bl_inv_remove bl_remove_def bl_removeByAddress_def bl_inv_update
      bl_setEnabled_def bl_setCondition_def bl_setHitCountLimit_def bl_inv_clear bl_inv_check)

lemma bl_inv_run: "bl_inv l \<Longrightarrow> list_all op_ok xs \<Longrightarrow> bl_inv (fold (do_op dbg) xs l)"
  by (induction xs arbitrary: l) (auto simp: bl_inv_op)

lemma bl_inv_new: "bl_inv bl_new"
  by (simp add: bl_inv_def bl_new_def)

lemma count_type_pos: "0 < count_list (map bp_type bs) ty \<longleftrightarrow> (\<exists>b \<in> set bs. bp_type b = ty)"
  by (induction bs) auto

lemma bl_inv_counts:
  assumes "bl_inv l"
  shows "hasExecBreakpoints l \<longleftrightarrow> (\<exists>b \<in> set (bl_breakpoints l). bp_type b = EXEC)"
    and "hasValueWatches l \<longleftrightarrow> (\<exists>b \<in> set (bl_breakpoints l). bp_type b = VALUE_WATCH)"
  using assms
  by (simp_all add: bl_inv_def hasExecBreakpoints_def hasValueWatches_def flip: count_type_pos)

lemma check_loop_find:
  "check_loop P bs = (let f = \<lambda>b. b\<lparr>bp_hitCount := bp_hitCount b + 1\<rparr>
     in (map_option f (List.find P bs), update_first P f bs))"
  by (induction bs) (auto simp: Let_def)

lemma find_update_first:
  "(\<And>x. P (f x) = P x) \<Longrightarrow> (\<And>x. g (f x) = g x) \<Longrightarrow>
   map_option g (List.find P (update_first Q f xs)) = map_option g (List.find P xs)"
  by (induction xs) auto

text \<open>
  The two counters that let the step loop skip its checks are exact after every sequence of
  operations: there is an execution breakpoint exactly when \<open>hasExecBreakpoints\<close>, a value watch exactly
  when \<open>hasValueWatches\<close>; and ids stay distinct and below the next one to be handed out.
\<close>

theorem breakpoint_counts_exact:
  fixes dbg :: "'b dbg_view"
  assumes "list_all op_ok xs"
  defines "l \<equiv> fold (do_op dbg) xs bl_new"
  shows "(hasExecBreakpoints l \<longleftrightarrow> (\<exists>b \<in> set (bl_breakpoints l). bp_type b = EXEC)) \<and>
    (hasValueWatches l \<longleftrightarrow> (\<exists>b \<in> set (bl_breakpoints l). bp_type b = VALUE_WATCH)) \<and>
    distinct (map bp_id (bl_breakpoints l)) \<and> (\<forall>b \<in> set (bl_breakpoints l). bp_id b < bl_nextId l)"
proof -
  have "bl_inv l" unfolding l_def by (rule bl_inv_run [OF bl_inv_new assms(1)])
  then show ?thesis
    by (simp add: bl_inv_counts) (simp add: bl_inv_def)
qed

definition no_view :: "'b dbg_view" where
  "no_view = \<lparr>dv_mmu = None, dv_evaluate = (\<lambda>e. None), dv_bus = None\<rparr>"

theorem breakpoint_counts_exact_witness:
  "let l = fold (do_op (no_view :: unit dbg_view)) [Add 0x1000 EXEC False, AddWatch 0x20 2, Add 0x1000 READ_WATCH False, Remove 1] bl_new
   in (hasExecBreakpoints l \<longleftrightarrow> (\<exists>b \<in> set (bl_breakpoints l). bp_type b = EXEC)) \<and> length (bl_breakpoints l) = 2"
  using breakpoint_counts_exact [of "[Add 0x1000 EXEC False, AddWatch 0x20 2, Add 0x1000 READ_WATCH False, Remove 1]" "no_view :: unit dbg_view"]
  by (simp add: bl_new_def bl_add_def bl_addWatch_def bl_remove_def remove_where_def Let_def)

text \<open>
  A check returns the first breakpoint of its kind that is enabled, at the (virtual or physical)
  address and whose condition holds, counts that one hit and changes nothing else; with no execution
  breakpoint there is no hit.
\<close>

theorem check_first_match:
  fixes l :: breakpoint_list
  assumes "bl_inv l"
  defines "f \<equiv> \<lambda>b. b\<lparr>bp_hitCount := bp_hitCount b + 1\<rparr>"
  shows "check_type ty addr dbg l =
      (map_option f (List.find (bp_matches ty addr dbg) (bl_breakpoints l)),
       l\<lparr>bl_breakpoints := update_first (bp_matches ty addr dbg) f (bl_breakpoints l)\<rparr>) \<and>
    (\<not> hasExecBreakpoints l \<longrightarrow> checkExec addr dbg l = (None, l))"
proof -
  have eq: "check_type ty addr dbg l =
      (map_option f (List.find (bp_matches ty addr dbg) (bl_breakpoints l)),
       l\<lparr>bl_breakpoints := update_first (bp_matches ty addr dbg) f (bl_breakpoints l)\<rparr>)" for ty
    by (simp add: check_type_def check_loop_find Let_def f_def)
  have "checkExec addr dbg l = (None, l)" if "\<not> hasExecBreakpoints l"
  proof -
    have n: "\<forall>b \<in> set (bl_breakpoints l). \<not> bp_matches EXEC addr dbg b"
      using that bl_inv_counts(1) [OF assms(1)] by (auto simp: bp_matches_def)
    then have "update_first (bp_matches EXEC addr dbg) f bs = bs" if "set bs \<subseteq> set (bl_breakpoints l)" for bs
      using that by (induction bs) auto
    then show ?thesis using n by (simp add: checkExec_def eq find_None_iff)
  qed
  then show ?thesis using eq by blast
qed

theorem check_first_match_witness:
  "let l = fold (do_op (no_view :: unit dbg_view)) [Add 0x1000 EXEC False, Add 0x1000 EXEC False] bl_new
   in map_option bp_id (fst (checkExec 0x1000 (no_view :: unit dbg_view) l)) = Some 1"
proof -
  define l where "l = fold (do_op (no_view :: unit dbg_view)) [Add 0x1000 EXEC False, Add 0x1000 EXEC False] bl_new"
  have "bl_inv l" unfolding l_def by (rule bl_inv_run [OF bl_inv_new]) simp
  from check_first_match [OF this, where ty = EXEC and addr = "0x1000" and dbg = "no_view :: unit dbg_view"]
  have "fst (checkExec 0x1000 (no_view :: unit dbg_view) l) =
    map_option (\<lambda>b. b\<lparr>bp_hitCount := bp_hitCount b + 1\<rparr>) (List.find (bp_matches EXEC 0x1000 (no_view :: unit dbg_view)) (bl_breakpoints l))"
    by (simp add: checkExec_def)
  then show ?thesis unfolding Let_def l_def [symmetric]
    by (simp add: l_def bl_new_def bl_add_def Let_def bp_matches_def evaluateCondition_def)
qed

text \<open>
  A value watch on a stretch of memory, asked twice, is silent the first time and the second
  time reports exactly whether the bytes it covers have changed since (with no hit limit), and
  remembers the new bytes.
\<close>

theorem value_watch_reports_change:
  fixes dbg :: "'b dbg_view" and addr :: u32 and m1 m2 :: 'b
  assumes "bl_breakpoints l = [b]" and "watch_covers addr b" and "bp_lastWatchValue b = []" and "bp_hitCountLimit b = 0"
    and "result (currentValue dbg b) m1 \<noteq> []"
  defines "r1 \<equiv> result (checkValueChange addr dbg l) m1"
  defines "r2 \<equiv> result (checkValueChange addr dbg (snd r1)) m2"
  shows "fst r1 = None \<and>
    (fst r2 \<noteq> None \<longleftrightarrow> result (currentValue dbg b) m2 \<noteq> result (currentValue dbg b) m1) \<and>
    map bp_lastWatchValue (bl_breakpoints (snd r2)) = [result (currentValue dbg b) m2]"
proof -
  have c: "watch_covers addr (b\<lparr>bp_lastWatchValue := v\<rparr>)" for v
    using assms(2) by (simp add: watch_covers_def)
  have k: "currentValue dbg (b\<lparr>bp_lastWatchValue := v\<rparr>) = currentValue dbg b" for v
    by (simp add: currentValue_def split: option.split)
  show ?thesis
    using assms(1-5) c by (auto simp: r2_def r1_def checkValueChange_def case_prod_beta Let_def k)
qed

theorem value_watch_reports_change_witness:
  "let dbg = \<lparr>dv_mmu = None, dv_evaluate = (\<lambda>e. None), dv_bus = Some flat_ibus\<rparr>;
       l = snd (bl_addWatch 0x20 1 bl_new); m1 = flat_new 8 ();
       r1 = result (checkValueChange 0x20 dbg l) m1;
       r2 = result (checkValueChange 0x20 dbg (snd r1)) (final (flat_write8 0x20 7) m1)
   in map bp_lastWatchValue (bl_breakpoints (snd r2)) = [[7]]"
proof -
  define dbg :: "unit flat_bus dbg_view" where "dbg = \<lparr>dv_mmu = None, dv_evaluate = (\<lambda>e. None), dv_bus = Some flat_ibus\<rparr>"
  define b where "b = hd (bl_breakpoints (snd (bl_addWatch 0x20 1 bl_new)))"
  have l: "bl_breakpoints (snd (bl_addWatch 0x20 1 bl_new)) = [b]"
    by (simp add: b_def bl_addWatch_def bl_new_def Let_def)
  have b: "watch_covers 0x20 b" "bp_lastWatchValue b = []" "bp_hitCountLimit b = 0"
    by (simp_all add: b_def bl_addWatch_def bl_new_def Let_def watch_covers_def)
  have c: "result (currentValue dbg b) m = [result (flat_peek8 0x20) m]" for m
    by (simp add: currentValue_def dbg_def b_def bl_addWatch_def bl_new_def Let_def flat_ibus_def case_prod_beta numeral_eq_Suc)
  have v: "result (flat_peek8 0x20) (final (flat_write8 0x20 7) (flat_new 8 ())) = 7"
    by (simp add: flat_new_def flat_write8_def flat_commit_def flat_stored_def findOverlay_def
        flat_peek8_def flat_peek8Raw_def Let_def)
  show ?thesis
    using value_watch_reports_change [OF l b, where dbg = dbg and ?m1.0 = "flat_new 8 ()"
        and ?m2.0 = "final (flat_write8 0x20 7) (flat_new 8 ())"]
    unfolding Let_def dbg_def [symmetric] by (simp add: c v)
qed

text \<open>
  The hit limit of an execution breakpoint has no effect: whatever limit is set on whichever
  breakpoint, the check stops at the same breakpoint as before.
\<close>

theorem exec_hit_limit_ignored:
  "map_option bp_id (fst (check_type ty addr dbg (bl_setHitCountLimit i n l))) =
   map_option bp_id (fst (check_type ty addr dbg l))"
proof -
  have "map_option bp_id (List.find (bp_matches ty addr dbg)
      (update_first (\<lambda>b. bp_id b = i) (\<lambda>b. b\<lparr>bp_hitCountLimit := n\<rparr>) (bl_breakpoints l))) =
    map_option bp_id (List.find (bp_matches ty addr dbg) (bl_breakpoints l))"
    by (rule find_update_first) (simp_all add: bp_matches_def)
  then show ?thesis
    by (simp add: check_type_def check_loop_find Let_def bl_setHitCountLimit_def update_id_def
        option.map_comp comp_def)
qed

end
