(* ===== verification/Debugger.thy ===== *)
theory Debugger
  imports Breakpoints CircularBuffer "HOL-Library.List_Lexorder" "HOL-Library.Char_ord"
begin

text \<open>
  The execution trace and the debug context (\<open>libdebug/main/trace_buffer.h\<close>, \<open>trace_buffer.cpp\<close>,
  \<open>stack_trace.h\<close>, \<open>stack_trace.cpp\<close>, \<open>debug_context.h\<close>, \<open>debug_context.cpp\<close>) as they serve
  the 6502: recording a step, recording memory writes, stepping back, the call stack, pausing.
  Text of disassembled instructions is a parameter; log messages, the observers of plugins, the heat
  map and Lua actions are left out.
\<close>

section \<open>Registers by name\<close>

definition regInternal :: "nat \<Rightarrow> bool" where
  "regInternal i \<longleftrightarrow> i = 6 \<or> i = 7"

definition regAlias :: "nat \<Rightarrow> string option" where
  "regAlias i = (if i = 5 then Some ''F'' else None)"

fun index_from :: "nat \<Rightarrow> string list \<Rightarrow> string \<Rightarrow> int" where
  "index_from i [] n = -1"
| "index_from i (x # xs) n = (if x = n \<or> regAlias i = Some n then int i else index_from (Suc i) xs n)"

definition regIndexByName :: "string \<Rightarrow> int" where
  "regIndexByName n = index_from 0 regNames n"

definition regReadByName :: "string \<Rightarrow> cpu6502_state \<Rightarrow> u32" where
  "regReadByName n s = (let i = regIndexByName n in if i \<ge> 0 then regRead i s else 0)"

definition regWriteByName :: "string \<Rightarrow> u32 \<Rightarrow> cpu6502_state \<Rightarrow> cpu6502_state" where
  "regWriteByName n v s = (let i = regIndexByName n in if i \<ge> 0 then regWrite i v s else s)"

text \<open>\<open>std::map\<close> keyed by name: an association list in key order.\<close>

fun map_put :: "string \<Rightarrow> u32 \<Rightarrow> (string \<times> u32) list \<Rightarrow> (string \<times> u32) list" where
  "map_put n v [] = [(n, v)]"
| "map_put n v ((k, w) # m) =
     (if n = k then (k, v) # m else if n < k then (n, v) # (k, w) # m else (k, w) # map_put n v m)"

section \<open>The trace\<close>

record trace_entry =
  te_addr :: u32
  te_mnemonic :: string
  te_regs :: "(string \<times> u32) list"
  te_cycles :: u64
  te_memWrites :: "(u32 \<times> u8) list"
  te_instr :: "u8 list"
  te_instrLen :: nat
  te_rawRegs :: "u32 list"
  te_rawRegCount :: nat
  te_cpuState :: cpu6502_state
  te_cpuStateLen :: nat

type_synonym trace = "trace_entry circular_buffer"

abbreviation MAX_INSTR_BYTES :: nat where "MAX_INSTR_BYTES \<equiv> 8"
abbreviation MAX_CPU_STATE :: nat where "MAX_CPU_STATE \<equiv> 64"

text \<open>\<open>sizeof(CPU6502State)\<close> with the alignment of its 64-bit member.\<close>

definition stateSize :: nat where
  "stateSize = 24"

definition zero_state :: cpu6502_state where
  "zero_state = \<lparr>reg_a = 0, reg_x = 0, reg_y = 0, reg_sp = 0, reg_pc = 0, reg_p = 0, st_cycles = 0,
     st_irqLine = False, st_nmiLine = False, st_nmiPrev = False, st_haltLine = False,
     st_waiting = False, st_stopped = False\<rparr>"

definition empty_entry :: trace_entry where
  "empty_entry = \<lparr>te_addr = 0, te_mnemonic = '''', te_regs = [], te_cycles = 0, te_memWrites = [],
     te_instr = replicate MAX_INSTR_BYTES 0, te_instrLen = 0, te_rawRegs = replicate 24 0,
     te_rawRegCount = 0, te_cpuState = zero_state, te_cpuStateLen = 0\<rparr>"

definition trace_new :: "nat \<Rightarrow> trace" where
  "trace_new capacity = cb_new empty_entry capacity"

text \<open>\<open>pushNew\<close> recycles the slot; the caller fills it through the reference (\<open>fill\<close>).\<close>

definition clear_entry :: "trace_entry \<Rightarrow> trace_entry" where
  "clear_entry te = te\<lparr>te_memWrites := [], te_mnemonic := '''', te_regs := [], te_instrLen := 0,
     te_rawRegCount := 0, te_cpuStateLen := 0\<rparr>"

definition pushNew :: "(trace_entry \<Rightarrow> trace_entry) \<Rightarrow> trace \<Rightarrow> cb_error + trace" where
  "pushNew fill t = (case cb_pushSlot t of
     Inl e \<Rightarrow> Inl e
   | Inr (i, t') \<Rightarrow> Inr (t'\<lparr>m_buffer := (m_buffer t')[i := fill (clear_entry (m_buffer t' ! i))]\<rparr>))"

fun regs_from :: "nat \<Rightarrow> nat \<Rightarrow> cpu6502_state \<Rightarrow> (string \<times> u32) list \<Rightarrow> (string \<times> u32) list" where
  "regs_from i 0 s m = m"
| "regs_from i (Suc n) s m =
     regs_from (Suc i) n s (if regInternal i then m else map_put (regNames ! i) (regRead (int i) s) m)"

fun raw_regs_from :: "nat \<Rightarrow> nat \<Rightarrow> nat \<Rightarrow> trace_entry \<Rightarrow> (string \<times> u32) list \<Rightarrow> (string \<times> u32) list" where
  "raw_regs_from i 0 k e m = m"
| "raw_regs_from i (Suc n) k e m =
     (if \<not> k < te_rawRegCount e then m
      else if regInternal i then raw_regs_from (Suc i) n k e m
      else raw_regs_from (Suc i) n (Suc k) e (map_put (regNames ! i) (te_rawRegs e ! k) m))"

text \<open>\<open>materialize\<close>; \<open>fmt\<close> is \<open>disassembleOne\<close> on a window over the instruction bytes.\<close>

definition materialize :: "(byte_window \<Rightarrow> u32 \<Rightarrow> string) \<Rightarrow> trace_entry \<Rightarrow> trace_entry" where
  "materialize fmt e =
     (let e1 = (if te_mnemonic e = '''' \<and> te_instrLen e > 0
                then e\<lparr>te_mnemonic := fmt (byte_window_new (te_addr e) (te_instr e) (int (te_instrLen e)) 0xFFFFFFFF) (te_addr e)\<rparr>
                else e);
          e2 = (if te_regs e1 = [] \<and> te_cpuStateLen e1 > 0 \<and> stateSize = te_cpuStateLen e1
                then e1\<lparr>te_regs := regs_from 0 8 (te_cpuState e1) []\<rparr> else e1)
      in if te_regs e2 = [] \<and> te_rawRegCount e2 > 0 then e2\<lparr>te_regs := raw_regs_from 0 8 0 e2 []\<rparr> else e2)"

definition trace_at :: "(byte_window \<Rightarrow> u32 \<Rightarrow> string) \<Rightarrow> trace \<Rightarrow> nat \<Rightarrow> cb_error + trace_entry" where
  "trace_at fmt t i = map_sum id (materialize fmt) (cb_at t i)"

definition trace_popBack :: "(byte_window \<Rightarrow> u32 \<Rightarrow> string) \<Rightarrow> trace \<Rightarrow> (trace_entry \<times> trace) option" where
  "trace_popBack fmt t = map_option (\<lambda>(e, t'). (materialize fmt e, t')) (cb_popBack t)"

section \<open>The call stack\<close>

datatype stack_push_type = CALL | PHA | PHX | PHY | PHP | PHZ | BRK

datatype stack_entry = StackEntry (se_type: stack_push_type) (se_pc: u32) (se_value: u32)

definition stackPushTypeName :: "stack_push_type \<Rightarrow> string" where
  "stackPushTypeName t = (case t of CALL \<Rightarrow> ''CALL'' | PHA \<Rightarrow> ''PHA'' | PHX \<Rightarrow> ''PHX'' | PHY \<Rightarrow> ''PHY''
     | PHP \<Rightarrow> ''PHP'' | PHZ \<Rightarrow> ''PHZ'' | BRK \<Rightarrow> ''BRK'')"

text \<open>Index 0 is the oldest entry.\<close>

definition stack_push :: "stack_push_type \<Rightarrow> u32 \<Rightarrow> u32 \<Rightarrow> stack_entry list \<Rightarrow> stack_entry list" where
  "stack_push t pc v st = st @ [StackEntry t pc v]"

definition stack_pop :: "stack_entry list \<Rightarrow> stack_entry list" where
  "stack_pop st = (if st \<noteq> [] then butlast st else st)"

definition stack_recent :: "int \<Rightarrow> stack_entry list \<Rightarrow> stack_entry list" where
  "stack_recent n st =
     (let total = int (length st);
          start = (if n > 0 \<and> total > n then total - n else 0)
      in rev (drop (nat start) st))"

text \<open>\<open>regByName\<close> compares the names alone, not the aliases.\<close>

fun regByName_from :: "nat \<Rightarrow> string list \<Rightarrow> cpu6502_state \<Rightarrow> string \<Rightarrow> u32" where
  "regByName_from i [] s n = 0"
| "regByName_from i (x # xs) s n = (if x = n then regRead (int i) s else regByName_from (Suc i) xs s n)"

definition regByName :: "cpu6502_state \<Rightarrow> string \<Rightarrow> u32" where
  "regByName s n = regByName_from 0 regNames s n"

definition trackStack :: "cpu6502_state \<Rightarrow> disasm_entry \<Rightarrow> stack_entry list \<Rightarrow> stack_entry list" where
  "trackStack s e st =
     (if de_isCall e then stack_push CALL (de_addr e) (de_targetAddr e) st
      else if de_isReturn e then stack_pop st
      else case de_stackOp e of
          PUSH_A \<Rightarrow> stack_push PHA (de_addr e) (regByName s ''A'') st
        | PUSH_X \<Rightarrow> stack_push PHX (de_addr e) (regByName s ''X'') st
        | PUSH_Y \<Rightarrow> stack_push PHY (de_addr e) (regByName s ''Y'') st
        | PUSH_P \<Rightarrow> stack_push PHP (de_addr e) (regByName s ''P'') st
        | PUSH_Z \<Rightarrow> stack_push PHZ (de_addr e) (regByName s ''Z'') st
        | STACK_BRK \<Rightarrow> stack_push BRK (de_addr e) 0 st
        | PULL \<Rightarrow> stack_pop st
        | NoStackOp \<Rightarrow> st)"

section \<open>The debug context\<close>

record debug_context =
  dc_breakpoints :: breakpoint_list
  dc_trace :: trace
  dc_stackTrace :: "stack_entry list"
  dc_paused :: bool
  dc_pauseOnBrk :: bool
  dc_lastPausedAddr :: u32
  dc_resumeSkipAddr :: u32
  dc_cycleCounter :: u64

definition dc_new :: "nat \<Rightarrow> debug_context" where
  "dc_new capacity = \<lparr>dc_breakpoints = bl_new, dc_trace = trace_new capacity, dc_stackTrace = [],
     dc_paused = False, dc_pauseOnBrk = True, dc_lastPausedAddr = 0xFFFFFFFF,
     dc_resumeSkipAddr = 0xFFFFFFFF, dc_cycleCounter = 0\<rparr>"

definition dc_resume :: "debug_context \<Rightarrow> debug_context" where
  "dc_resume dc = dc\<lparr>dc_resumeSkipAddr := dc_lastPausedAddr dc, dc_paused := False\<rparr>"

definition needsDisasm :: bool where
  "needsDisasm = True"

text \<open>A trace of capacity 0 throws; otherwise the new entry is filled in place.\<close>

definition dc_record :: "(trace_entry \<Rightarrow> trace_entry) \<Rightarrow> debug_context \<Rightarrow> cb_error + debug_context" where
  "dc_record fill dc = map_sum id (\<lambda>t. dc\<lparr>dc_trace := t\<rparr>) (pushNew fill (dc_trace dc))"

definition dc_onStepLite :: "cpu6502_state \<Rightarrow> u32 \<Rightarrow> debug_context \<Rightarrow> cb_error + debug_context" where
  "dc_onStepLite s pc dc = dc_record (\<lambda>te. te\<lparr>te_addr := pc, te_cycles := st_cycles s\<rparr>) dc"

definition fill_entry :: "cpu6502_state \<Rightarrow> disasm_entry \<Rightarrow> u8 list \<Rightarrow> trace_entry \<Rightarrow> trace_entry" where
  "fill_entry s entry bytes te =
     te\<lparr>te_addr := de_addr entry, te_cycles := st_cycles s,
        te_instr := bytes @ drop (length bytes) (te_instr te), te_instrLen := length bytes,
        te_cpuState := s, te_cpuStateLen := stateSize\<rparr>"

text \<open>What follows the capture: the breakpoint after a resume is skipped once, else it is checked.\<close>

definition dc_decide :: "'b dbg_view \<Rightarrow> bool \<Rightarrow> cpu6502_state \<Rightarrow> disasm_entry \<Rightarrow> debug_context \<Rightarrow> bool \<times> debug_context" where
  "dc_decide dbg cont s entry dc =
     (if de_addr entry = dc_resumeSkipAddr dc then
        (True, dc\<lparr>dc_resumeSkipAddr := 0xFFFFFFFF, dc_stackTrace := trackStack s entry (dc_stackTrace dc)\<rparr>)
      else
        let (hit, bl) = checkExec (de_addr entry) dbg (dc_breakpoints dc);
            dc = dc\<lparr>dc_breakpoints := bl\<rparr>;
            stop = (hit \<noteq> None \<or> (dc_pauseOnBrk dc \<and> de_stackOp entry = STACK_BRK));
            dc = (if stop then dc\<lparr>dc_lastPausedAddr := de_addr entry, dc_paused := True\<rparr> else dc)
        in if stop \<or> \<not> cont then (False, dc)
           else (True, dc\<lparr>dc_stackTrace := trackStack s entry (dc_stackTrace dc)\<rparr>))"

text \<open>\<open>cont\<close> is what the other observers of the process said.\<close>

definition dc_onStep ::
  "'b dbg_view \<Rightarrow> 'b ibus \<Rightarrow> bool \<Rightarrow> cpu6502_state \<Rightarrow> disasm_entry \<Rightarrow> debug_context \<Rightarrow>
   ('b, cb_error + (bool \<times> debug_context)) state" where
  "dc_onStep dbg ib cont s entry dc = do {
     let n = min (de_bytes entry) MAX_INSTR_BYTES;
     bytes \<leftarrow> (if length (de_raw entry) \<ge> n then State_Monad.return (take n (de_raw entry))
               else peek_bytes ib (de_addr entry) 0 n);
     State_Monad.return (case dc_record (fill_entry s entry bytes) dc of
         Inl e \<Rightarrow> Inl e
       | Inr dc1 \<Rightarrow> Inr (dc_decide dbg cont s entry (dc1\<lparr>dc_cycleCounter := dc_cycleCounter dc1 + st_cycles s\<rparr>))) }"

text \<open>\<open>current()\<close> is null while the trace is empty.\<close>

definition trace_append_write :: "u32 \<Rightarrow> u8 \<Rightarrow> trace \<Rightarrow> trace" where
  "trace_append_write addr before t =
     (case cb_update_back (\<lambda>te. te\<lparr>te_memWrites := te_memWrites te @ [(addr, before)]\<rparr>) t of
        Inl e \<Rightarrow> t | Inr t' \<Rightarrow> t')"

definition dc_onMemoryWrite :: "'b dbg_view \<Rightarrow> u32 \<Rightarrow> u8 \<Rightarrow> debug_context \<Rightarrow> debug_context" where
  "dc_onMemoryWrite dbg addr before dc =
     (let (hit, bl) = checkWrite addr dbg (dc_breakpoints dc)
      in dc\<lparr>dc_trace := trace_append_write addr before (dc_trace dc), dc_breakpoints := bl,
            dc_paused := dc_paused dc \<or> hit \<noteq> None\<rparr>)"

definition dc_onMemoryRead :: "'b dbg_view \<Rightarrow> u32 \<Rightarrow> debug_context \<Rightarrow> debug_context" where
  "dc_onMemoryRead dbg addr dc =
     (let (hit, bl) = checkRead addr dbg (dc_breakpoints dc)
      in dc\<lparr>dc_breakpoints := bl, dc_paused := dc_paused dc \<or> hit \<noteq> None\<rparr>)"

section \<open>Stepping back\<close>

text \<open>
  A write through the bus the context observes: the context is told the address and the byte it
  held (\<open>seen\<close>).
\<close>

definition observed_write ::
  "'b dbg_view \<Rightarrow> 'b ibus \<Rightarrow> ('b \<Rightarrow> u32 \<Rightarrow> u8) \<Rightarrow> u32 \<times> u8 \<Rightarrow> debug_context \<times> 'b \<Rightarrow> debug_context \<times> 'b" where
  "observed_write dbg ib seen = (\<lambda>(a, v) (dc, b).
     (dc_onMemoryWrite dbg a (seen b a) dc, final (ib_write8 ib a v) b))"

text \<open>
  \<open>reverseStep\<close>: undo the writes newest first, restore the registers, then the PC. The undoing
  writes are observed like any other.
\<close>

definition reverseStep ::
  "'b dbg_view \<Rightarrow> 'b ibus \<Rightarrow> ('b \<Rightarrow> u32 \<Rightarrow> u8) \<Rightarrow> (byte_window \<Rightarrow> u32 \<Rightarrow> string) \<Rightarrow>
   debug_context \<Rightarrow> cpu6502_state \<Rightarrow> 'b \<Rightarrow> bool \<times> debug_context \<times> cpu6502_state \<times> 'b" where
  "reverseStep dbg ib seen fmt dc s b = (case trace_popBack fmt (dc_trace dc) of
     None \<Rightarrow> (False, dc, s, b)
   | Some (e, t) \<Rightarrow>
       let (dc', b') = fold (observed_write dbg ib seen) (rev (te_memWrites e)) (dc\<lparr>dc_trace := t\<rparr>, b)
       in (True, dc', set_pc (ucast (te_addr e)) (fold (\<lambda>(n, v). regWriteByName n v) (te_regs e) s), b'))"

section \<open>Snapshots\<close>

record snapshot =
  sn_label :: string
  sn_cpuState :: cpu6502_state
  sn_busState :: "u8 list"

definition saveSnapshot :: "('b \<Rightarrow> u8 list) \<Rightarrow> string \<Rightarrow> cpu6502_state \<Rightarrow> 'b \<Rightarrow> snapshot list \<Rightarrow> int \<times> snapshot list" where
  "saveSnapshot saveBus label s b ss =
     (int (length ss), ss @ [\<lparr>sn_label = label, sn_cpuState = s, sn_busState = saveBus b\<rparr>])"

definition restoreSnapshot ::
  "(u8 list \<Rightarrow> 'b \<Rightarrow> 'b) \<Rightarrow> int \<Rightarrow> snapshot list \<Rightarrow> cpu6502_state \<Rightarrow> 'b \<Rightarrow> (cpu6502_state \<times> 'b) option" where
  "restoreSnapshot loadBus i ss s b =
     (if i < 0 \<or> i \<ge> int (length ss) then None
      else Some (sn_cpuState (ss ! nat i), loadBus (sn_busState (ss ! nat i)) b))"

definition deleteSnapshot :: "int \<Rightarrow> snapshot list \<Rightarrow> bool \<times> snapshot list" where
  "deleteSnapshot i ss =
     (if i < 0 \<or> i \<ge> int (length ss) then (False, ss)
      else (True, take (nat i) ss @ drop (Suc (nat i)) ss))"

definition diffSnapshots :: "int \<Rightarrow> int \<Rightarrow> snapshot list \<Rightarrow> u32 list" where
  "diffSnapshots i j ss =
     (if i < 0 \<or> i \<ge> int (length ss) then [] else if j < 0 \<or> j \<ge> int (length ss) then []
      else let a = sn_busState (ss ! nat i); b = sn_busState (ss ! nat j)
           in if length a \<noteq> length b then []
              else map of_nat (filter (\<lambda>k. a ! k \<noteq> b ! k) [0..<length a]))"

section \<open>The ring behind the trace\<close>

lemma cb_pushSlot_fill:
  assumes "0 < m_capacity t" and "cb_inv t"
  shows "pushNew fill t = Inr (cb_push (fill (clear_entry (m_buffer t ! m_head t))) t)"
  using assms by (simp add: pushNew_def cb_pushSlot_def cb_push_def)

lemma cb_update_back_push:
  assumes "0 < m_capacity t" and "cb_inv t"
  shows "cb_update_back f (cb_push x t) = Inr (cb_push (f x) t)"
proof -
  have h: "m_head t < m_capacity t" "length (m_buffer t) = m_capacity t"
    using assms by (auto simp: cb_inv_def)
  have "((m_head t + 1) mod m_capacity t + m_capacity t - 1) mod m_capacity t = m_head t"
    using mod_succ_pred [OF h(1)] assms(1) by (simp add: Nat.add_diff_assoc)
  then show ?thesis using assms h by (simp add: cb_update_back_def cb_push_def Let_def)
qed

lemma onMemoryWrite_trace [simp]:
  "dc_trace (dc_onMemoryWrite dbg a x dc) = trace_append_write a x (dc_trace dc)"
  by (simp add: dc_onMemoryWrite_def case_prod_beta Let_def)

lemma writes_recorded:
  assumes "0 < m_capacity t" and "cb_inv t" and "dc_trace dc = cb_push e t"
  shows "dc_trace (fold (\<lambda>(a, x). dc_onMemoryWrite dbg a x) js dc) =
    cb_push (e\<lparr>te_memWrites := te_memWrites e @ js\<rparr>) t"
  using assms(3)
proof (induction js arbitrary: dc e)
  case (Cons j js)
  obtain a x where j: "j = (a, x)" by (cases j)
  have "dc_trace (dc_onMemoryWrite dbg a x dc) = cb_push (e\<lparr>te_memWrites := te_memWrites e @ [(a, x)]\<rparr>) t"
    using Cons.prems by (simp add: trace_append_write_def cb_update_back_push [OF assms(1,2)])
  from Cons.IH [OF this] show ?case by (simp add: j)
qed simp

lemma pop_pushed:
  assumes "0 < m_capacity t" and "cb_inv t"
  obtains t' where "cb_popBack (cb_push e t) = Some (e, t')"
    and "cb_list t' = last_n (m_capacity t - 1) (cb_list t)" and "cb_inv t'"
proof -
  have l: "cb_list (cb_push e t) = last_n (m_capacity t) (cb_list t @ [e])"
    by (rule cb_push_list [OF assms(2,1)])
  have n: "length (cb_list t) \<le> m_capacity t" using ring.items_le [OF assms(2)] .
  have ne: "cb_list (cb_push e t) \<noteq> []"
    using l n assms(1) by (simp add: last_n_snoc)
  then obtain x t' where p: "cb_popBack (cb_push e t) = Some (x, t')"
    using ring.pop_None [of "cb_push e t"] by (cases "cb_popBack (cb_push e t)") auto
  have q: "x = last (cb_list (cb_push e t))" "cb_list t' = butlast (cb_list (cb_push e t))" "cb_inv t'"
    using ring.pop_items [OF cb_push_inv [OF assms(2)] p] by auto
  have "x = e" "cb_list t' = last_n (m_capacity t - 1) (cb_list t)"
    using q(1,2) n assms(1) unfolding l by (auto simp: last_n_snoc last_n_def drop_Suc)
  then show ?thesis using that p q(3) by blast
qed

section \<open>Registers recorded and restored\<close>

lemma regs_recorded:
  "regs_from 0 8 s [] = [(''A'', ucast (reg_a s)), (''P'', ucast (reg_p s)), (''PC'', ucast (reg_pc s)),
     (''SP'', ucast (reg_sp s)), (''X'', ucast (reg_x s)), (''Y'', ucast (reg_y s))]"
  by (simp add: numeral_eq_Suc regInternal_def regNames_def regRead_def less_char_def)

lemma regs_index [simp]:
  "regIndexByName ''A'' = 0" "regIndexByName ''X'' = 1" "regIndexByName ''Y'' = 2" "regIndexByName ''SP'' = 3"
  "regIndexByName ''PC'' = 4" "regIndexByName ''P'' = 5"
  by (simp_all add: regIndexByName_def regNames_def regAlias_def)

lemma regs_restored:
  "fold (\<lambda>(n, v). regWriteByName n v) (regs_from 0 8 s []) s' =
   s'\<lparr>reg_a := reg_a s, reg_x := reg_x s, reg_y := reg_y s, reg_sp := reg_sp s, reg_pc := reg_pc s, reg_p := reg_p s\<rparr>"
  unfolding regs_recorded by (simp add: regWriteByName_def regWrite_def ucast_up_ucast_id is_up)

section \<open>Recording a step\<close>

lemma record_trace:
  assumes "0 < m_capacity (dc_trace dc)" and "cb_inv (dc_trace dc)"
  shows "dc_record fill dc =
    Inr (dc\<lparr>dc_trace := cb_push (fill (clear_entry (m_buffer (dc_trace dc) ! m_head (dc_trace dc)))) (dc_trace dc)\<rparr>)"
  using assms by (simp add: dc_record_def cb_pushSlot_fill)

lemma decide_trace [simp]: "dc_trace (snd (dc_decide dbg cont s entry dc)) = dc_trace dc"
  by (simp add: dc_decide_def case_prod_beta Let_def)

text \<open>What a successful step leaves in the trace.\<close>

lemma onStep_trace:
  assumes "0 < m_capacity (dc_trace dc)" and "cb_inv (dc_trace dc)"
    and "result (dc_onStep dbg ib cont s entry dc) m = Inr (go, dc1)"
  obtains e where "dc_trace dc1 = cb_push e (dc_trace dc)" and "te_addr e = de_addr entry"
    and "te_memWrites e = []" and "te_regs e = []" and "te_cpuState e = s" and "te_cpuStateLen e = stateSize"
proof -
  have "\<exists>bytes. dc_trace dc1 = cb_push (fill_entry s entry bytes
      (clear_entry (m_buffer (dc_trace dc) ! m_head (dc_trace dc)))) (dc_trace dc)"
    using assms(3)
    by (auto simp: dc_onStep_def record_trace [OF assms(1,2)] case_prod_beta Let_def split: if_splits
        dest!: arg_cong [where f = "\<lambda>r. dc_trace (snd r)"])
      (rule exI, erule sym)+
  then show ?thesis using that by (auto simp: fill_entry_def clear_entry_def)
qed

lemma materialize_fields:
  "te_addr (materialize fmt e) = te_addr e" "te_memWrites (materialize fmt e) = te_memWrites e"
  by (simp_all add: materialize_def Let_def)

lemma materialize_regs:
  assumes "te_regs e = []" and "te_cpuStateLen e = stateSize"
  shows "te_regs (materialize fmt e) = regs_from 0 8 (te_cpuState e) []"
  using assms by (simp add: materialize_def Let_def stateSize_def regs_recorded)

section \<open>Writes under observation\<close>

text \<open>The observer sees the journal of the writes; the bus is written as without it.\<close>

lemma observed_writes:
  "fold (observed_write dbg ib seen) ws (dc, b) =
    (fold (\<lambda>(a, x). dc_onMemoryWrite dbg a x) (journal ib seen ws b) dc, write_all ib ws b)"
  by (induction ws arbitrary: dc b) (auto simp: observed_write_def)

lemma undo_is_write_all: "undo_writes ib js b = write_all ib (rev js) b"
  by (simp add: undo_writes_def write_all_def)

lemma journal_addresses: "map fst (journal ib mem ws b) = map fst ws"
  by (induction ws arbitrary: b) auto

lemma journal_in: "fst ` set (journal ib mem ws b) = fst ` set ws"
  using journal_addresses [of ib mem ws b] by (metis list.set_map)

text \<open>What a run of notifications leaves in a trace: all of them in its newest entry, if it has one.\<close>

definition journalled :: "(u32 \<times> u8) list \<Rightarrow> trace_entry list \<Rightarrow> trace_entry list" where
  "journalled js es = (if es = [] then []
     else butlast es @ [last es\<lparr>te_memWrites := te_memWrites (last es) @ js\<rparr>])"

lemma journalled_cons: "journalled js (journalled [j] es) = journalled (j # js) es"
  by (simp add: journalled_def)

lemma append_write_list:
  assumes "cb_inv t"
  shows "cb_inv (trace_append_write a x t) \<and> cb_list (trace_append_write a x t) = journalled [(a, x)] (cb_list t)"
proof (cases "m_size t = 0")
  case True
  then have "cb_list t = []" by (simp flip: length_0_conv)
  then show ?thesis using assms True by (simp add: trace_append_write_def cb_update_back_def journalled_def)
next
  case False
  let ?f = "\<lambda>te. te\<lparr>te_memWrites := te_memWrites te @ [(a, x)]\<rparr>"
  obtain t' where t': "cb_update_back ?f t = Inr t'" using False by (simp add: cb_update_back_def Let_def)
  have "cb_list t \<noteq> []" using False by (auto simp flip: length_0_conv)
  then show ?thesis
    using cb_update_back_list [OF assms t'] t' by (simp add: trace_append_write_def journalled_def)
qed

lemma notifications_list:
  assumes "cb_inv (dc_trace dc)"
  shows "cb_inv (dc_trace (fold (\<lambda>(a, x). dc_onMemoryWrite dbg a x) js dc)) \<and>
    cb_list (dc_trace (fold (\<lambda>(a, x). dc_onMemoryWrite dbg a x) js dc)) = journalled js (cb_list (dc_trace dc))"
  using assms
proof (induction js arbitrary: dc)
  case Nil
  then show ?case by (simp add: journalled_def)
next
  case (Cons j js)
  obtain a x where j: "j = (a, x)" by (cases j)
  let ?dc1 = "dc_onMemoryWrite dbg a x dc"
  have 1: "cb_inv (dc_trace ?dc1)" "cb_list (dc_trace ?dc1) = journalled [(a, x)] (cb_list (dc_trace dc))"
    using append_write_list [OF Cons.prems] by simp_all
  show ?case using Cons.IH [OF 1(1)] 1(2) by (simp add: j journalled_cons)
qed

text \<open>
  An entry that \<open>dc_onStep\<close> made in processor state \<open>s\<close> at \<open>pc\<close> and that journals \<open>js\<close>,
  and what stepping back through it does.
\<close>

definition recorded :: "cpu6502_state \<Rightarrow> u32 \<Rightarrow> (u32 \<times> u8) list \<Rightarrow> trace_entry \<Rightarrow> bool" where
  "recorded s pc js e \<longleftrightarrow> te_addr e = pc \<and> te_memWrites e = js \<and> te_regs e = [] \<and> te_cpuState e = s \<and>
     te_cpuStateLen e = stateSize"

abbreviation back_in :: "cpu6502_state \<Rightarrow> u32 \<Rightarrow> cpu6502_state \<Rightarrow> cpu6502_state" where
  "back_in s pc s' \<equiv> s'\<lparr>reg_a := reg_a s, reg_x := reg_x s, reg_y := reg_y s, reg_sp := reg_sp s,
     reg_p := reg_p s, reg_pc := ucast pc\<rparr>"

lemma reverseStep_recorded:
  assumes "cb_inv (dc_trace dc)" and "cb_list (dc_trace dc) = es @ [e]" and "recorded s pc js e"
  obtains dc' where "reverseStep dbg ib seen fmt dc s' b = (True, dc', back_in s pc s', undo_writes ib js b)"
    and "cb_inv (dc_trace dc')" and "cb_list (dc_trace dc') = journalled (journal ib seen (rev js) b) es"
proof -
  obtain x t where p: "cb_popBack (dc_trace dc) = Some (x, t)"
    using ring.pop_None [of "dc_trace dc"] assms(2) by (cases "cb_popBack (dc_trace dc)") auto
  have t: "x = e" "cb_list t = es" "cb_inv t" using ring.pop_items [OF assms(1) p] assms(2) by auto
  have r: "te_addr e = pc" "te_memWrites e = js" "te_cpuState e = s" "te_regs (materialize fmt e) = regs_from 0 8 s []"
    using assms(3) by (simp_all add: recorded_def materialize_regs)
  let ?dc' = "fold (\<lambda>(a, x). dc_onMemoryWrite dbg a x) (journal ib seen (rev js) b) (dc\<lparr>dc_trace := t\<rparr>)"
  have "reverseStep dbg ib seen fmt dc s' b = (True, ?dc', back_in s pc s', undo_writes ib js b)"
    unfolding reverseStep_def trace_popBack_def p t(1)
    by (simp add: materialize_fields r regs_restored observed_writes undo_is_write_all Let_def)
  moreover have "cb_inv (dc_trace ?dc') \<and> cb_list (dc_trace ?dc') = journalled (journal ib seen (rev js) b) es"
    using notifications_list [of "dc\<lparr>dc_trace := t\<rparr>" dbg] t(2,3) by simp
  ultimately show ?thesis using that by blast
qed

lemma step_recorded:
  assumes "0 < m_capacity (dc_trace dc)" and "cb_inv (dc_trace dc)"
    and "result (dc_onStep dbg ib cont s entry dc) m = Inr (go, dc1)"
    and "fold (observed_write dbg ib seen) ws (dc1, b) = (dc2, b2)"
  obtains e where "cb_inv (dc_trace dc2)" and "m_capacity (dc_trace dc2) = m_capacity (dc_trace dc)"
    and "cb_list (dc_trace dc2) = last_n (m_capacity (dc_trace dc) - 1) (cb_list (dc_trace dc)) @ [e]"
    and "recorded s (de_addr entry) (journal ib seen ws b) e" and "b2 = write_all ib ws b"
proof -
  obtain e where e: "dc_trace dc1 = cb_push e (dc_trace dc)" "te_addr e = de_addr entry"
    "te_memWrites e = []" "te_regs e = []" "te_cpuState e = s" "te_cpuStateLen e = stateSize"
    using onStep_trace [OF assms(1-3)] by blast
  define e2 where "e2 = e\<lparr>te_memWrites := journal ib seen ws b\<rparr>"
  have w: "dc2 = fold (\<lambda>(a, x). dc_onMemoryWrite dbg a x) (journal ib seen ws b) dc1" "b2 = write_all ib ws b"
    using assms(4) by (simp_all add: observed_writes)
  have t: "dc_trace dc2 = cb_push e2 (dc_trace dc)"
    using writes_recorded [OF assms(1,2) e(1)] e(3) by (simp add: w(1) e2_def)
  have n: "length (cb_list (dc_trace dc)) \<le> m_capacity (dc_trace dc)" using ring.items_le [OF assms(2)] .
  have "cb_list (dc_trace dc2) = last_n (m_capacity (dc_trace dc) - 1) (cb_list (dc_trace dc)) @ [e2]"
    using cb_push_list [OF assms(2,1)] n assms(1) by (auto simp: t last_n_snoc last_n_def drop_Suc)
  moreover have "recorded s (de_addr entry) (journal ib seen ws b) e2"
    using e by (simp add: recorded_def e2_def)
  ultimately show ?thesis using that cb_push_inv [OF assms(2)] w(2) t by simp
qed

section \<open>Correctness\<close>

text \<open>
  C5: Stepping back undoes a step: after a step has been recorded and the instruction has written any
  bytes to RAM through the observed bus, \<open>reverseStep\<close> restores every byte of RAM and gives A, X, Y,
  SP and P the values they had when the step began, with PC at the instruction, whatever the
  processor did in between. The entry of the step is gone from the trace, and the entries before it
  are what they were as far as the capacity kept them, except that the newest of them has
  journalled the undoing writes, each with the byte it found.
\<close>

theorem reverse_step_undoes:
  fixes fmt :: "byte_window \<Rightarrow> u32 \<Rightarrow> string" and ws :: "(u32 \<times> u8) list" and b b2 :: 'b and s' :: cpu6502_state
  assumes "ram_bus ib mem ram ok" and "ok b" and "fst ` set ws \<subseteq> ram"
    and "0 < m_capacity (dc_trace dc)" and "cb_inv (dc_trace dc)"
    and "result (dc_onStep dbg ib cont s entry dc) m = Inr (go, dc1)"
    and "fold (observed_write dbg ib mem) ws (dc1, b) = (dc2, b2)"
  defines "r \<equiv> reverseStep dbg ib mem fmt dc2 s' b2"
    and "old \<equiv> last_n (m_capacity (dc_trace dc) - 1) (cb_list (dc_trace dc))"
  shows "fst r \<and>
    fst (snd (snd r)) = s'\<lparr>reg_a := reg_a s, reg_x := reg_x s, reg_y := reg_y s, reg_sp := reg_sp s,
      reg_p := reg_p s, reg_pc := ucast (de_addr entry)\<rparr> \<and>
    (\<forall>c \<in> ram. mem (snd (snd (snd r))) c = mem b c) \<and>
    cb_list (dc_trace (fst (snd r))) = (if old = [] then [] else butlast old @
      [last old\<lparr>te_memWrites := te_memWrites (last old) @ journal ib mem (rev (journal ib mem ws b)) b2\<rparr>])"
proof -
  obtain e where e: "cb_inv (dc_trace dc2)" "cb_list (dc_trace dc2) = old @ [e]"
    "recorded s (de_addr entry) (journal ib mem ws b) e" "b2 = write_all ib ws b"
    unfolding old_def by (rule step_recorded [OF assms(4-7)])
  obtain dc' where d: "r = (True, dc', back_in s (de_addr entry) s', undo_writes ib (journal ib mem ws b) b2)"
    "cb_list (dc_trace dc') = journalled (journal ib mem (rev (journal ib mem ws b)) b2) old"
    unfolding r_def by (rule reverseStep_recorded [OF e(1-3)])
  have "\<forall>c \<in> ram. mem (undo_writes ib (journal ib mem ws b) b2) c = mem b c"
    using ram_bus.undo_journal [OF assms(1-3)] unfolding e(4) by blast
  then show ?thesis unfolding d(1) fst_conv snd_conv d(2) journalled_def by blast
qed

text \<open>A store of 7 at $20, with A = $11 before the step, undone from a processor full of $FF.\<close>

definition demo_entry :: disasm_entry where
  "demo_entry = \<lparr>de_addr = 0x1000, de_bytes = 2, de_mnemonic = ''STA'', de_isCall = False, de_isReturn = False,
     de_isBranch = False, de_isIllegal = False, de_targetAddr = 0, de_stackOp = NoStackOp, de_raw = [0x85, 0x20]\<rparr>"

lemma demo_step: "0 < m_capacity (dc_trace dc) \<Longrightarrow> cb_inv (dc_trace dc) \<Longrightarrow>
    \<exists>go dc1. result (dc_onStep no_view (flat_ibus :: unit flat_bus ibus) True s demo_entry dc) b = Inr (go, dc1)"
  by (simp add: dc_onStep_def record_trace case_prod_beta demo_entry_def Let_def)

lemma demo_trace: "0 < m_capacity (dc_trace (dc_new 4))" "cb_inv (dc_trace (dc_new 4))"
  by (simp_all add: dc_new_def trace_new_def cb_new_inv) (simp add: cb_new_def)

lemma demo_flat: "flat_ok R (flat_new 8 () :: unit flat_bus) \<longleftrightarrow> (\<forall>a \<in> R. a AND 0xFF = a \<and> a < 0xFFFFFFFF)"
  by (simp add: flat_ok_def flat_plain_def flat_new_def findOverlay_def)

theorem reverse_step_undoes_witness:
  "let s = zero_state\<lparr>reg_a := 0x11\<rparr>; b = flat_new 8 ();
       r = result (dc_onStep no_view (flat_ibus :: unit flat_bus ibus) True s demo_entry (dc_new 4)) b
   in \<exists>go dc1. r = Inr (go, dc1) \<and>
        (let (dc2, b2) = fold (observed_write no_view flat_ibus fb_data) [(0x20, 7)] (dc1, b);
             z = reverseStep no_view flat_ibus fb_data (\<lambda>w a. '''') dc2 (zero_state\<lparr>reg_a := 0xFF\<rparr>) b2
         in reg_a (fst (snd (snd z))) = 0x11 \<and> fb_data (snd (snd (snd z))) 0x20 = fb_data b 0x20)"
proof -
  define b :: "unit flat_bus" where "b = flat_new 8 ()"
  define s where "s = zero_state\<lparr>reg_a := 0x11\<rparr>"
  obtain go dc1 where r: "result (dc_onStep no_view (flat_ibus :: unit flat_bus ibus) True s demo_entry (dc_new 4)) b = Inr (go, dc1)"
    using demo_step [OF demo_trace] by blast
  obtain dc2 b2 where f: "fold (observed_write no_view flat_ibus fb_data) [(0x20, 7)] (dc1, b) = (dc2, b2)"
    by (metis prod.collapse)
  have ok: "flat_ok {0x20} b" by (simp add: b_def demo_flat)
  have w: "fst ` set [(0x20 :: u32, 7 :: u8)] \<subseteq> {0x20}" by simp
  have "reg_a s = 0x11" by (simp add: s_def)
  then show ?thesis
    using r f reverse_step_undoes [OF ram_bus_flat ok w demo_trace r f, where fmt = "\<lambda>w a. ''''" and s' = "zero_state\<lparr>reg_a := 0xFF\<rparr>"]
    unfolding Let_def s_def [symmetric] b_def [symmetric] by auto
qed

text \<open>
  Because the undoing writes are journalled, stepping back twice does not undo two steps: the
  first \<open>reverseStep\<close> undoes the second step, but leaves its bytes as \<open>before\<close> values in the
  entry of the first step, and the second one writes them again. Registers and PC are those at the
  start of the first step; of RAM, what the first step wrote is as it was before that step, and
  everything else is as the second step left it.
\<close>

lemma ram_bus_undo_other:
  assumes "ram_bus ib mem ram ok" and "ok b" and "fst ` set js \<subseteq> ram" and "c \<in> ram" and "c \<notin> fst ` set js"
  shows "mem (undo_writes ib js b) c = mem b c"
  using assms(3,5)
proof (induction js)
  case (Cons j js)
  obtain a x where j: "j = (a, x)" by (cases j)
  have "ok (undo_writes ib js b)" using ram_bus.undo_writes_ok [OF assms(1,2)] .
  from ram_bus.write_ram [OF assms(1) this, of a c x] Cons assms(4) show ?case by (auto simp: j)
qed simp

lemma ram_bus_undo_same:
  assumes "ram_bus ib mem ram ok" and "ok b" and "ok b'" and "fst ` set js \<subseteq> ram" and "c \<in> fst ` set js"
  shows "mem (undo_writes ib js b) c = mem (undo_writes ib js b') c"
  using assms(4,5)
proof (induction js)
  case (Cons j js)
  obtain a x where j: "j = (a, x)" by (cases j)
  have "ok (undo_writes ib js b)" "ok (undo_writes ib js b')" using ram_bus.undo_writes_ok [OF assms(1)] assms(2,3) by auto
  note w = ram_bus.write_ram [OF assms(1) this(1), of a c x] ram_bus.write_ram [OF assms(1) this(2), of a c x]
  have "c \<in> ram" using Cons.prems by auto
  with w Cons show ?case by (auto simp: j)
qed simp

lemma undo_writes_append: "undo_writes ib (js @ ks) b = undo_writes ib js (undo_writes ib ks b)"
  by (simp add: undo_writes_def)

theorem reverse_twice_redoes:
  fixes fmt :: "byte_window \<Rightarrow> u32 \<Rightarrow> string" and ws1 ws2 :: "(u32 \<times> u8) list" and b b1 b2 :: 'b
    and s' s'' :: cpu6502_state
  assumes "ram_bus ib mem ram ok" and "ok b" and "fst ` set ws1 \<subseteq> ram" and "fst ` set ws2 \<subseteq> ram"
    and "1 < m_capacity (dc_trace dc)" and "cb_inv (dc_trace dc)"
    and "result (dc_onStep dbg ib cont s1 entry1 dc) m1 = Inr (go1, dc1)"
    and "fold (observed_write dbg ib mem) ws1 (dc1, b) = (dc1', b1)"
    and "result (dc_onStep dbg ib cont s2 entry2 dc1') m2 = Inr (go2, dc2)"
    and "fold (observed_write dbg ib mem) ws2 (dc2, b1) = (dc2', b2)"
    and "reverseStep dbg ib mem fmt dc2' s' b2 = (done1, dc3, s3, b3)"
    and "reverseStep dbg ib mem fmt dc3 s'' b3 = (done2, dc4, s4, b4)"
  shows "done1 \<and> done2 \<and> s4 = back_in s1 (de_addr entry1) s'' \<and>
    (\<forall>c \<in> ram. mem b3 c = mem b1 c \<and> mem b4 c = (if c \<in> fst ` set ws1 then mem b c else mem b2 c))"
proof -
  let ?j1 = "journal ib mem ws1 b" and ?j2 = "journal ib mem ws2 b1"
  let ?old = "last_n (m_capacity (dc_trace dc) - 1) (cb_list (dc_trace dc))"
  have cap: "0 < m_capacity (dc_trace dc)" using assms(5) by linarith
  obtain e1 where e1: "cb_inv (dc_trace dc1')" "m_capacity (dc_trace dc1') = m_capacity (dc_trace dc)"
    "cb_list (dc_trace dc1') = ?old @ [e1]" "recorded s1 (de_addr entry1) ?j1 e1" "b1 = write_all ib ws1 b"
    by (rule step_recorded [OF cap assms(6-8)])
  have cap1: "0 < m_capacity (dc_trace dc1')" using cap e1(2) by simp
  obtain e2 where e2: "cb_inv (dc_trace dc2')"
    "cb_list (dc_trace dc2') = last_n (m_capacity (dc_trace dc1') - 1) (cb_list (dc_trace dc1')) @ [e2]"
    "recorded s2 (de_addr entry2) ?j2 e2" "b2 = write_all ib ws2 b1"
    by (rule step_recorded [OF cap1 e1(1) assms(9,10)])
  obtain dc' where r1: "reverseStep dbg ib mem fmt dc2' s' b2 = (True, dc', back_in s2 (de_addr entry2) s', undo_writes ib ?j2 b2)"
    "cb_inv (dc_trace dc')" "cb_list (dc_trace dc') = journalled (journal ib mem (rev ?j2) b2)
       (last_n (m_capacity (dc_trace dc1') - 1) (cb_list (dc_trace dc1')))"
    by (rule reverseStep_recorded [OF e2(1-3)])
  have 3: "done1" "dc3 = dc'" "b3 = undo_writes ib ?j2 b2" using assms(11) r1(1) by auto
  obtain es where es: "last_n (m_capacity (dc_trace dc1') - 1) (cb_list (dc_trace dc1')) = es @ [e1]"
    using assms(5) e1(2,3) by (cases "m_capacity (dc_trace dc) - 1") (auto simp: last_n_snoc)
  let ?j3 = "journal ib mem (rev ?j2) b2"
  define e where "e = e1\<lparr>te_memWrites := ?j1 @ ?j3\<rparr>"
  have l: "cb_list (dc_trace dc3) = es @ [e]" and e: "recorded s1 (de_addr entry1) (?j1 @ ?j3) e"
    using r1(3) [unfolded es] e1(4) by (simp_all add: 3 journalled_def e_def recorded_def)
  obtain dc'' where r2: "reverseStep dbg ib mem fmt dc3 s'' b3 =
      (True, dc'', back_in s1 (de_addr entry1) s'', undo_writes ib (?j1 @ ?j3) b3)"
    by (rule reverseStep_recorded [OF r1(2) [folded 3(2)] l e])
  have 4: "done2" "s4 = back_in s1 (de_addr entry1) s''" "b4 = undo_writes ib ?j1 (undo_writes ib ?j3 b3)"
    using assms(12) r2 by (auto simp: undo_writes_append)
  note ok1 = ram_bus.write_all_ok [OF assms(1,2), of ws1, folded e1(5)]
  note ok2 = ram_bus.write_all_ok [OF assms(1) ok1, of ws2, folded e2(4)]
  have undone: "mem b3 c = mem b1 c" if "c \<in> ram" for c
    unfolding 3(3) e2(4) by (rule ram_bus.undo_journal [OF assms(1) ok1 assms(4) that])
  have j2: "fst ` set (rev ?j2) \<subseteq> ram" using assms(4) by (simp add: journal_in)
  have redone: "mem (undo_writes ib ?j3 b3) c = mem b2 c" if "c \<in> ram" for c
    using ram_bus.undo_journal [OF assms(1) ok2 j2 that] by (simp add: 3(3) undo_is_write_all)
  have ok3: "ok (undo_writes ib ?j3 b3)"
    unfolding 3(3) by (intro ram_bus.undo_writes_ok [OF assms(1)] ok2)
  have j1: "fst ` set ?j1 \<subseteq> ram" using assms(3) by (simp add: journal_in)
  have "mem b4 c = (if c \<in> fst ` set ws1 then mem b c else mem b2 c)" if c: "c \<in> ram" for c
  proof (cases "c \<in> fst ` set ws1")
    case True
    then have "mem b4 c = mem (undo_writes ib ?j1 b1) c"
      unfolding 4(3) by (intro ram_bus_undo_same [OF assms(1) ok3 ok1 j1]) (simp add: journal_in)
    also have "\<dots> = mem b c" unfolding e1(5) by (rule ram_bus.undo_journal [OF assms(1-3) c])
    finally show ?thesis using True by simp
  next
    case False
    then have "mem b4 c = mem (undo_writes ib ?j3 b3) c"
      unfolding 4(3) by (intro ram_bus_undo_other [OF assms(1) ok3 j1 c]) (simp add: journal_in)
    then show ?thesis using False redone [OF c] by simp
  qed
  then show ?thesis using undone 3(1) 4(1,2) by blast
qed

text \<open>
  Runs of instructions whose pushes and pops match, each with the register file it ran in.
\<close>

definition pushes :: "disasm_entry \<Rightarrow> bool" where
  "pushes e \<longleftrightarrow> de_isCall e \<or>
     (\<not> de_isReturn e \<and> de_stackOp e \<in> set [PUSH_A, PUSH_X, PUSH_Y, PUSH_P, PUSH_Z, STACK_BRK])"

definition pops :: "disasm_entry \<Rightarrow> bool" where
  "pops e \<longleftrightarrow> \<not> de_isCall e \<and> (de_isReturn e \<or> de_stackOp e = PULL)"

inductive balanced :: "(cpu6502_state \<times> disasm_entry) list \<Rightarrow> bool" where
  Nil: "balanced []"
| Plain: "\<not> pushes e \<Longrightarrow> \<not> pops e \<Longrightarrow> balanced es \<Longrightarrow> balanced ((s, e) # es)"
| Nest: "pushes e \<Longrightarrow> balanced body \<Longrightarrow> pops r \<Longrightarrow> balanced es \<Longrightarrow> balanced ((s, e) # body @ (s', r) # es)"

definition track_all :: "(cpu6502_state \<times> disasm_entry) list \<Rightarrow> stack_entry list \<Rightarrow> stack_entry list" where
  "track_all es st = fold (\<lambda>(s, e). trackStack s e) es st"

lemma track_push: "pushes e \<Longrightarrow> \<exists>x. trackStack s e st = st @ [x]"
  by (auto simp: pushes_def trackStack_def stack_push_def)

lemma track_pop: "pops e \<Longrightarrow> trackStack s e (st @ [x]) = st"
  by (auto simp: pops_def trackStack_def stack_pop_def)

lemma track_plain: "\<not> pushes e \<Longrightarrow> \<not> pops e \<Longrightarrow> trackStack s e st = st"
  by (cases "de_stackOp e") (auto simp: pushes_def pops_def trackStack_def)

lemma track_balanced: "balanced es \<Longrightarrow> track_all es st = st"
proof (induction es arbitrary: st rule: balanced.induct)
  case (Nest e body r es s s')
  obtain x where "trackStack s e st = st @ [x]" using track_push Nest by blast
  then show ?case using Nest by (simp add: track_all_def track_pop)
qed (simp_all add: track_all_def track_plain)

text \<open>
  Inside a called routine the newest entry of the call stack is the call: after a call
  instruction and any balanced run of instructions the stack is what it was, plus the call with its
  address and target; the routine's return takes it off again.
\<close>

theorem stack_trace_follows_calls:
  assumes "balanced body" and "de_isCall e" and "de_isReturn r" and "\<not> de_isCall r"
  shows "track_all ((s, e) # body) st = st @ [StackEntry CALL (de_addr e) (de_targetAddr e)] \<and>
    stack_recent 1 (track_all ((s, e) # body) st) = [StackEntry CALL (de_addr e) (de_targetAddr e)] \<and>
    track_all ((s, e) # body @ [(s', r)]) st = st"
proof -
  have "track_all ((s, e) # body) st = st @ [StackEntry CALL (de_addr e) (de_targetAddr e)]"
    using track_balanced [OF assms(1)] assms(2) by (simp add: track_all_def trackStack_def stack_push_def)
  moreover have "pops r" using assms(3,4) by (simp add: pops_def)
  ultimately show ?thesis
    by (simp add: track_all_def track_pop stack_recent_def Let_def)
qed

theorem stack_trace_follows_calls_witness:
  "track_all [(zero_state, demo_entry\<lparr>de_isCall := True, de_targetAddr := 0x2000\<rparr>),
     (zero_state, demo_entry\<lparr>de_stackOp := PUSH_A\<rparr>), (zero_state, demo_entry\<lparr>de_stackOp := PULL\<rparr>)] []
   = [StackEntry CALL 0x1000 0x2000]"
proof -
  have "balanced ((zero_state, demo_entry\<lparr>de_stackOp := PUSH_A\<rparr>) # [] @ (zero_state, demo_entry\<lparr>de_stackOp := PULL\<rparr>) # [])"
    by (intro balanced.intros) (simp_all add: demo_entry_def pushes_def pops_def)
  from stack_trace_follows_calls [OF this, where e = "demo_entry\<lparr>de_isCall := True, de_targetAddr := 0x2000\<rparr>"
      and r = "demo_entry\<lparr>de_isReturn := True\<rparr>" and s = zero_state and st = "[]" and s' = zero_state]
  show ?thesis by (simp add: demo_entry_def)
qed

text \<open>
  A hardware interrupt spoils the call stack: nothing is pushed when it is taken, but the RTI
  that ends its handler is reported as a return and removes the entry of the interrupted program.
\<close>

theorem stack_trace_interrupt_loses_call:
  assumes "balanced handler" and "de_isReturn rti" and "\<not> de_isCall rti"
  shows "track_all (handler @ [(s, rti)]) (st @ [x]) = st"
proof -
  have "pops rti" using assms(2,3) by (simp add: pops_def)
  then show ?thesis using track_balanced [OF assms(1)] by (simp add: track_all_def track_pop)
qed

theorem stack_trace_interrupt_loses_call_witness:
  "track_all ([] @ [(zero_state, demo_entry\<lparr>de_isReturn := True\<rparr>)]) ([] @ [StackEntry CALL 0x1000 0x2000]) = []"
  by (rule stack_trace_interrupt_loses_call [OF balanced.Nil]) (simp_all add: demo_entry_def)


lemma find_after_hit:
  assumes "\<And>b. P (b\<lparr>bp_hitCount := bp_hitCount b + 1\<rparr>) = P b"
  shows "fst (check_loop P (snd (check_loop P bs))) = None \<longleftrightarrow> fst (check_loop P bs) = None"
  using assms by (induction bs) (auto simp: Let_def)

lemma checkExec_again:
  "fst (checkExec a dbg (snd (checkExec a dbg l))) = None \<longleftrightarrow> fst (checkExec a dbg l) = None"
  by (simp add: checkExec_def check_type_def Let_def find_after_hit bp_matches_def)

text \<open>
  C21: A breakpoint stops the processor, resuming gets past it, and it stops again: when execution
  first reaches the breakpoint the context pauses and the step is refused; after \<open>resume\<close> the same
  instruction runs with the context not paused; and when it is reached once more it pauses again.
\<close>

theorem breakpoint_resume_breaks_again:
  fixes dbg :: "'b dbg_view" and e :: disasm_entry and dc :: debug_context and cont :: bool
    and s1 s2 s3 :: cpu6502_state
  assumes "fst (checkExec (de_addr e) dbg (dc_breakpoints dc)) \<noteq> None"
    and "de_addr e \<noteq> dc_resumeSkipAddr dc" and "de_addr e \<noteq> 0xFFFFFFFF"
  defines "r1 \<equiv> dc_decide dbg cont s1 e dc"
  defines "r2 \<equiv> dc_decide dbg cont s2 e (dc_resume (snd r1))"
  defines "r3 \<equiv> dc_decide dbg cont s3 e (snd r2)"
  shows "\<not> fst r1 \<and> dc_paused (snd r1) \<and> fst r2 \<and> \<not> dc_paused (snd r2) \<and> \<not> fst r3 \<and> dc_paused (snd r3)"
proof -
  have "snd r2 = dc_resume (snd r1)\<lparr>dc_resumeSkipAddr := 0xFFFFFFFF,
      dc_stackTrace := trackStack s2 e (dc_stackTrace (snd r1))\<rparr> \<and> fst r2"
    using assms(1,2) by (simp add: r2_def r1_def dc_decide_def dc_resume_def case_prod_beta Let_def)
  moreover have "dc_breakpoints (snd r1) = snd (checkExec (de_addr e) dbg (dc_breakpoints dc))"
      "\<not> fst r1" "dc_paused (snd r1)"
    using assms(1,2) by (simp_all add: r1_def dc_decide_def case_prod_beta Let_def)
  ultimately show ?thesis
    using assms(1,3) by (auto simp: r3_def dc_decide_def dc_resume_def case_prod_beta Let_def checkExec_again)
qed

theorem breakpoint_resume_breaks_again_witness:
  "let dc = (dc_new 4)\<lparr>dc_breakpoints := snd (bl_add 0x1000 EXEC False bl_new)\<rparr>;
       r1 = dc_decide (no_view :: unit dbg_view) True zero_state demo_entry dc;
       r2 = dc_decide (no_view :: unit dbg_view) True zero_state demo_entry (dc_resume (snd r1))
   in dc_paused (snd r1) \<and> \<not> dc_paused (snd r2)"
proof -
  define dc where "dc = (dc_new 4)\<lparr>dc_breakpoints := snd (bl_add 0x1000 EXEC False bl_new)\<rparr>"
  have "fst (checkExec (de_addr demo_entry) (no_view :: unit dbg_view) (dc_breakpoints dc)) \<noteq> None"
    by (simp add: dc_def demo_entry_def checkExec_def check_type_def Let_def bl_add_def bl_new_def
        bp_matches_def evaluateCondition_def)
  moreover have "de_addr demo_entry \<noteq> dc_resumeSkipAddr dc" "de_addr demo_entry \<noteq> 0xFFFFFFFF"
    by (simp_all add: dc_def demo_entry_def dc_new_def)
  ultimately show ?thesis
    using breakpoint_resume_breaks_again [where dbg = "no_view :: unit dbg_view" and dc = dc and e = demo_entry]
    unfolding Let_def dc_def [symmetric] by blast
qed

text \<open>
  The comparison of two snapshots lists exactly the addresses whose bytes differ, in ascending
  order, and nothing when an index is bad or the sizes differ.
\<close>

theorem diff_snapshots_exact:
  assumes "length (sn_busState (ss ! nat i)) \<le> 2 ^ 32"
  shows "set (diffSnapshots i j ss) =
      (if 0 \<le> i \<and> i < int (length ss) \<and> 0 \<le> j \<and> j < int (length ss) \<and>
          length (sn_busState (ss ! nat i)) = length (sn_busState (ss ! nat j))
       then {a. unat a < length (sn_busState (ss ! nat i)) \<and>
               sn_busState (ss ! nat i) ! unat a \<noteq> sn_busState (ss ! nat j) ! unat a}
       else {}) \<and> sorted (diffSnapshots i j ss)"
proof -
  let ?a = "sn_busState (ss ! nat i)" and ?b = "sn_busState (ss ! nat j)"
  have u: "unat (of_nat k :: u32) = k" if "k < length ?a" for k
    using that assms by (simp add: unat_of_nat take_bit_nat_eq_self)
  have "of_nat ` {k. k < length ?a \<and> ?a ! k \<noteq> ?b ! k} = {a :: u32. unat a < length ?a \<and> ?a ! unat a \<noteq> ?b ! unat a}"
    by (auto simp: u intro!: image_eqI [where x = "unat _"])
  then have "set (diffSnapshots i j ss) =
      (if 0 \<le> i \<and> i < int (length ss) \<and> 0 \<le> j \<and> j < int (length ss) \<and> length ?a = length ?b
       then {a. unat a < length ?a \<and> ?a ! unat a \<noteq> ?b ! unat a} else {})"
    by (auto simp: diffSnapshots_def Let_def atLeast0LessThan)
  moreover have "sorted (map (of_nat :: nat \<Rightarrow> u32) (filter P [0..<n]))" if "n \<le> length ?a" for P n
    using that
    by (induction n) (auto simp: sorted_append word_le_nat_alt u)
  then have "sorted (diffSnapshots i j ss)"
    by (simp add: diffSnapshots_def Let_def)
  ultimately show ?thesis by blast
qed

theorem diff_snapshots_exact_witness:
  "let ss = [\<lparr>sn_label = '''', sn_cpuState = zero_state, sn_busState = [1, 2, 3]\<rparr>,
             \<lparr>sn_label = '''', sn_cpuState = zero_state, sn_busState = [1, 5, 3]\<rparr>]
   in set (diffSnapshots 0 1 ss) = {a. unat a < length [1, 2, 3 :: u8] \<and> [1, 2, 3 :: u8] ! unat a \<noteq> [1, 5, 3] ! unat a}"
  unfolding Let_def by (subst diff_snapshots_exact [THEN conjunct1]) simp_all

end
