(* ===== verification/Via6522.thy ===== *)
theory Via6522
  imports Signals
begin

text \<open>
  The MOS 6522 (\<open>plugins/devices/via6522/main/via6522.h\<close>, \<open>via6522.cpp\<close>): ports, control lines,
  timers and interrupt flags. The peripherals at the ports live in \<open>via_ext\<close>; a control line is
  the device's own conduit, a line attached from outside, or absent. The interrupt output is the
  level last driven on the attached line.
\<close>

section \<open>State\<close>

datatype via_line = NoLine | Conduit | Ext bool

record 'e via6522 =
  via_baseAddr :: u32
  via_regs :: "nat \<Rightarrow> u8"
  via_t1Latch :: u16
  via_t1Counter :: u16
  via_t1Active :: bool
  via_t2Counter :: u16
  via_t2Active :: bool
  via_portADevice :: "'e port_device option"
  via_portBDevice :: "'e port_device option"
  via_portAWriteCb :: "(u8 \<Rightarrow> 'e \<Rightarrow> 'e) option"
  via_portBWriteCb :: "(u8 \<Rightarrow> 'e \<Rightarrow> 'e) option"
  via_ext :: 'e
  via_irqLine :: "bool option"
  via_ca1Line :: via_line
  via_ca2Line :: via_line
  via_cb1Line :: via_line
  via_cb2Line :: via_line
  via_ca1Level :: bool
  via_ca2Level :: bool
  via_cb1Level :: bool
  via_cb2Level :: bool
  via_ca1Prev :: bool
  via_ca2Prev :: bool
  via_cb1Prev :: bool
  via_cb2Prev :: bool
  via_paInPins :: u8
  via_paInUsed :: bool
  via_lastIrq :: bool

abbreviation ORB :: nat where "ORB \<equiv> 0x0"
abbreviation ORA :: nat where "ORA \<equiv> 0x1"
abbreviation DDRB :: nat where "DDRB \<equiv> 0x2"
abbreviation DDRA :: nat where "DDRA \<equiv> 0x3"
abbreviation T1CL :: nat where "T1CL \<equiv> 0x4"
abbreviation T1CH :: nat where "T1CH \<equiv> 0x5"
abbreviation T1LL :: nat where "T1LL \<equiv> 0x6"
abbreviation T1LH :: nat where "T1LH \<equiv> 0x7"
abbreviation T2CL :: nat where "T2CL \<equiv> 0x8"
abbreviation T2CH :: nat where "T2CH \<equiv> 0x9"
abbreviation ACR :: nat where "ACR \<equiv> 0xB"
abbreviation PCR :: nat where "PCR \<equiv> 0xC"
abbreviation IFR :: nat where "IFR \<equiv> 0xD"
abbreviation IER :: nat where "IER \<equiv> 0xE"
abbreviation IORA2 :: nat where "IORA2 \<equiv> 0xF"

definition set_reg :: "nat \<Rightarrow> u8 \<Rightarrow> 'e via6522 \<Rightarrow> 'e via6522" where
  "set_reg r x v = v\<lparr>via_regs := (via_regs v)(r := x)\<rparr>"

definition setIFR :: "u8 \<Rightarrow> 'e via6522 \<Rightarrow> 'e via6522" where
  "setIFR m v = set_reg IFR (via_regs v IFR OR m) v"

definition clrIFR :: "u8 \<Rightarrow> 'e via6522 \<Rightarrow> 'e via6522" where
  "clrIFR m v = set_reg IFR (via_regs v IFR AND NOT m) v"

definition line_level :: "bool \<Rightarrow> via_line \<Rightarrow> bool" where
  "line_level conduit l = (case l of Ext b \<Rightarrow> b | _ \<Rightarrow> conduit)"

section \<open>Interrupt output and control lines\<close>

definition updateIrq :: "'e via6522 \<Rightarrow> 'e via6522" where
  "updateIrq v =
     (let irq = via_regs v IFR AND via_regs v IER AND 0x7F \<noteq> 0;
          v1 = (if irq then setIFR 0x80 v else clrIFR 0x80 v)
      in if irq \<noteq> via_lastIrq v1
         then v1\<lparr>via_irqLine := map_option (\<lambda>_. irq) (via_irqLine v1), via_lastIrq := irq\<rparr>
         else v1)"

definition driveCA2 :: "bool \<Rightarrow> 'e via6522 \<Rightarrow> 'e via6522" where
  "driveCA2 level v = (case via_ca2Line v of
     NoLine \<Rightarrow> v | Conduit \<Rightarrow> v\<lparr>via_ca2Level := level\<rparr> | Ext _ \<Rightarrow> v\<lparr>via_ca2Line := Ext level\<rparr>)"

definition driveCB2 :: "bool \<Rightarrow> 'e via6522 \<Rightarrow> 'e via6522" where
  "driveCB2 level v = (case via_cb2Line v of
     NoLine \<Rightarrow> v | Conduit \<Rightarrow> v\<lparr>via_cb2Level := level\<rparr> | Ext _ \<Rightarrow> v\<lparr>via_cb2Line := Ext level\<rparr>)"

definition active_edge :: "bool \<Rightarrow> bool \<Rightarrow> bool \<Rightarrow> bool" where
  "active_edge positive prev lvl = (if positive then \<not> prev \<and> lvl else prev \<and> \<not> lvl)"

definition ca1_edge :: "'e via6522 \<Rightarrow> 'e via6522" where
  "ca1_edge v =
     (let v1 = setIFR 0x02 v
      in updateIrq (if via_regs v1 PCR AND 0x0E = 0x08 then driveCA2 True v1 else v1))"

definition cb1_edge :: "'e via6522 \<Rightarrow> 'e via6522" where
  "cb1_edge v =
     (let v1 = setIFR 0x10 v
      in updateIrq (if via_regs v1 PCR AND 0xE0 = 0x80 then driveCB2 True v1 else v1))"

text \<open>\<open>CA1Conduit::set\<close>, \<open>CB1Conduit::set\<close>: the edge is seen at once.\<close>

definition ca1_set :: "bool \<Rightarrow> 'e via6522 \<Rightarrow> 'e via6522" where
  "ca1_set level v =
     (let prev = via_ca1Level v; v1 = v\<lparr>via_ca1Level := level\<rparr>;
          v2 = (if active_edge (tst (via_regs v1 PCR) 0x01) prev level then ca1_edge v1 else v1)
      in v2\<lparr>via_ca1Prev := level\<rparr>)"

definition cb1_set :: "bool \<Rightarrow> 'e via6522 \<Rightarrow> 'e via6522" where
  "cb1_set level v =
     (let prev = via_cb1Level v; v1 = v\<lparr>via_cb1Level := level\<rparr>;
          v2 = (if active_edge (tst (via_regs v1 PCR) 0x10) prev level then cb1_edge v1 else v1)
      in v2\<lparr>via_cb1Prev := level\<rparr>)"

definition via_reset :: "'e via6522 \<Rightarrow> 'e via6522" where
  "via_reset v = driveCB2 True (driveCA2 True (v\<lparr>via_regs := (\<lambda>_. 0), via_t1Latch := 0xFFFF,
     via_t1Counter := 0, via_t1Active := False, via_t2Counter := 0, via_t2Active := False,
     via_ca1Prev := True, via_ca2Prev := True, via_cb1Prev := True, via_cb2Prev := True,
     via_lastIrq := False, via_irqLine := map_option (\<lambda>_. False) (via_irqLine v)\<rparr>))"

text \<open>The named constructor attaches the device's own conduits.\<close>

definition via_new :: "u32 \<Rightarrow> 'e \<Rightarrow> 'e via6522" where
  "via_new base e = via_reset \<lparr>via_baseAddr = base, via_regs = (\<lambda>_. 0), via_t1Latch = 0,
     via_t1Counter = 0, via_t1Active = False, via_t2Counter = 0, via_t2Active = False,
     via_portADevice = None, via_portBDevice = None, via_portAWriteCb = None, via_portBWriteCb = None,
     via_ext = e, via_irqLine = None, via_ca1Line = Conduit, via_ca2Line = Conduit,
     via_cb1Line = Conduit, via_cb2Line = Conduit, via_ca1Level = True, via_ca2Level = True,
     via_cb1Level = True, via_cb2Level = True, via_ca1Prev = True, via_ca2Prev = True,
     via_cb1Prev = True, via_cb2Prev = True, via_paInPins = 0xFF, via_paInUsed = False,
     via_lastIrq = False\<rparr>"

text \<open>The signals the device hands out by name.\<close>

datatype via_signal = SigCA1 | SigCA2 | SigCB1 | SigCB2 | SigPB nat | SigPA nat

definition digit :: "char \<Rightarrow> nat" where
  "digit c = (of_char c :: nat) - 48"

definition via_getSignalLine :: "string \<Rightarrow> 'e via6522 \<Rightarrow> via_signal option \<times> 'e via6522" where
  "via_getSignalLine n v =
     (if n = ''ca1'' then (Some SigCA1, v) else if n = ''ca2'' then (Some SigCA2, v)
      else if n = ''cb1'' then (Some SigCB1, v) else if n = ''cb2'' then (Some SigCB2, v)
      else if n = ''pb7'' then (Some (SigPB 7), v)
      else if length n = 3 \<and> n ! 0 = CHR ''p'' \<and> n ! 1 = CHR ''b'' \<and> n ! 2 \<in> set ''0123456''
           then (Some (SigPB (digit (n ! 2))), v)
      else if length n = 3 \<and> n ! 0 = CHR ''p'' \<and> n ! 1 = CHR ''a'' \<and> n ! 2 \<in> set ''01234567''
           then (Some (SigPA (digit (n ! 2))), v\<lparr>via_paInUsed := True\<rparr>)
      else (None, v))"

definition via_signal_get :: "via_signal \<Rightarrow> 'e via6522 \<Rightarrow> bool" where
  "via_signal_get sg v = (case sg of
     SigCA1 \<Rightarrow> via_ca1Level v | SigCA2 \<Rightarrow> via_ca2Level v | SigCB1 \<Rightarrow> via_cb1Level v
   | SigCB2 \<Rightarrow> via_cb2Level v | SigPB n \<Rightarrow> tst (drop_bit n (via_regs v ORB)) 1
   | SigPA n \<Rightarrow> tst (drop_bit n (via_paInPins v)) 1)"

definition via_signal_set :: "via_signal \<Rightarrow> bool \<Rightarrow> 'e via6522 \<Rightarrow> 'e via6522" where
  "via_signal_set sg level v = (case sg of
     SigCA1 \<Rightarrow> ca1_set level v | SigCA2 \<Rightarrow> v\<lparr>via_ca2Level := level\<rparr> | SigCB1 \<Rightarrow> cb1_set level v
   | SigCB2 \<Rightarrow> v\<lparr>via_cb2Level := level\<rparr> | SigPB n \<Rightarrow> v
   | SigPA n \<Rightarrow> v\<lparr>via_paInPins := (if level then via_paInPins v OR push_bit n 1
                                       else via_paInPins v AND NOT (push_bit n 1))\<rparr>)"

section \<open>Registers\<close>

definition on_via_ext :: "('e, 'a) state \<Rightarrow> ('e via6522, 'a) state" where
  "on_via_ext m = State_Monad.State (\<lambda>v.
     let r = run_state m (via_ext v) in (fst r, v\<lparr>via_ext := snd r\<rparr>))"

text \<open>What an access to ORA, and to ORB, does to the flags and the handshake outputs.\<close>

definition ora_access :: "'e via6522 \<Rightarrow> 'e via6522" where
  "ora_access v =
     (let v1 = clrIFR 0x02 v;
          v2 = (if \<not> tst (via_regs v1 PCR) 0x08 \<and> \<not> tst (via_regs v1 PCR) 0x02 then clrIFR 0x01 v1 else v1);
          ca2mode = drop_bit 1 (via_regs v2 PCR) AND 0x07;
          v3 = (if ca2mode = 0x04 then driveCA2 False v2
                else if ca2mode = 0x05 then driveCA2 True (driveCA2 False v2) else v2)
      in updateIrq v3)"

definition orb_access :: "'e via6522 \<Rightarrow> 'e via6522" where
  "orb_access v =
     (let v1 = clrIFR 0x10 v;
          v2 = (if \<not> tst (via_regs v1 PCR) 0x80 \<and> \<not> tst (via_regs v1 PCR) 0x20 then clrIFR 0x08 v1 else v1);
          cb2mode = drop_bit 5 (via_regs v2 PCR) AND 0x07;
          v3 = (if cb2mode = 0x04 then driveCB2 False v2
                else if cb2mode = 0x05 then driveCB2 True (driveCB2 False v2) else v2)
      in updateIrq v3)"

definition port_pins :: "bool \<Rightarrow> 'e port_device \<Rightarrow> ('e via6522, u8) state" where
  "port_pins peek d = on_via_ext (if peek then pd_peekPort d else pd_readPort d)"

definition via_reg_of :: "u32 \<Rightarrow> nat" where
  "via_reg_of addr = unat (addr AND 0xF)"

definition readReg :: "bool \<Rightarrow> u32 \<Rightarrow> ('e via6522, u8 option) state" where
  "readReg peek addr = do {
     v \<leftarrow> State_Monad.get;
     (if addr AND NOT 0x000F \<noteq> via_baseAddr v then State_Monad.return None
      else let reg = via_reg_of addr in
        if reg = ORA \<or> reg = IORA2 then do {
          val \<leftarrow> (if via_portADevice v \<noteq> None \<or> via_paInUsed v then do {
                    pins \<leftarrow> (case via_portADevice v of
                       Some d \<Rightarrow> port_pins peek d | None \<Rightarrow> State_Monad.return 0xFF);
                    State_Monad.return ((via_regs v ORA AND via_regs v DDRA) OR
                      ((pins AND via_paInPins v) AND NOT (via_regs v DDRA))) }
                  else State_Monad.return (via_regs v ORA));
          (if reg = ORA \<and> \<not> peek then modify ora_access else skip);
          State_Monad.return (Some val) }
        else if reg = ORB then do {
          val \<leftarrow> (case via_portBDevice v of
             Some d \<Rightarrow> do {
               pins \<leftarrow> port_pins peek d;
               State_Monad.return ((via_regs v ORB AND via_regs v DDRB) OR (pins AND NOT (via_regs v DDRB))) }
           | None \<Rightarrow> State_Monad.return (via_regs v ORB));
          (if peek then skip else modify orb_access);
          State_Monad.return (Some val) }
        else if reg = T1CL then do {
          (if peek then skip else modify (\<lambda>v. updateIrq (clrIFR 0x40 v)));
          State_Monad.return (Some (lo8 (via_t1Counter v))) }
        else if reg = T1CH then State_Monad.return (Some (hi8 (via_t1Counter v)))
        else if reg = T2CL then do {
          (if peek then skip else modify (\<lambda>v. updateIrq (clrIFR 0x20 v)));
          State_Monad.return (Some (lo8 (via_t2Counter v))) }
        else if reg = T2CH then State_Monad.return (Some (hi8 (via_t2Counter v)))
        else State_Monad.return (Some (via_regs v reg))) }"


definition write_port :: "'e port_device option \<Rightarrow> (u8 \<Rightarrow> 'e \<Rightarrow> 'e) option \<Rightarrow> u8 \<Rightarrow> 'e via6522 \<Rightarrow> 'e via6522" where
  "write_port dev cb val v =
     (let e1 = (case dev of Some d \<Rightarrow> pd_writePort d val (via_ext v) | None \<Rightarrow> via_ext v);
          e2 = (case cb of Some f \<Rightarrow> f val e1 | None \<Rightarrow> e1)
      in v\<lparr>via_ext := e2\<rparr>)"

definition write_ddr :: "'e port_device option \<Rightarrow> u8 \<Rightarrow> 'e via6522 \<Rightarrow> 'e via6522" where
  "write_ddr dev val v = v\<lparr>via_ext := (case dev of Some d \<Rightarrow> pd_setDdr d val (via_ext v) | None \<Rightarrow> via_ext v)\<rparr>"

text \<open>Manual output modes drive CA2 and CB2 at once.\<close>

definition write_pcr :: "u8 \<Rightarrow> 'e via6522 \<Rightarrow> 'e via6522" where
  "write_pcr val v =
     (let v1 = set_reg PCR val v;
          ca2mode = drop_bit 1 val AND 0x07;
          v2 = (if ca2mode = 0x06 then driveCA2 False v1 else if ca2mode = 0x07 then driveCA2 True v1 else v1);
          cb2mode = drop_bit 5 val AND 0x07
      in if cb2mode = 0x06 then driveCB2 False v2 else if cb2mode = 0x07 then driveCB2 True v2 else v2)"

definition latch_hi :: "u8 \<Rightarrow> 'e via6522 \<Rightarrow> 'e via6522" where
  "latch_hi val v = v\<lparr>via_t1Latch := (via_t1Latch v AND 0x00FF) OR push_bit 8 (ucast val)\<rparr>"

definition writeReg :: "nat \<Rightarrow> u8 \<Rightarrow> 'e via6522 \<Rightarrow> 'e via6522" where
  "writeReg reg val v =
     (if reg = ORA \<or> reg = IORA2 then
        (let v1 = write_port (via_portADevice v) (via_portAWriteCb v) val (set_reg ORA val v)
         in if reg = ORA then ora_access v1 else v1)
      else if reg = ORB then
        orb_access (write_port (via_portBDevice v) (via_portBWriteCb v) val (set_reg ORB val v))
      else if reg = DDRA then write_ddr (via_portADevice v) val (set_reg DDRA val v)
      else if reg = DDRB then write_ddr (via_portBDevice v) val (set_reg DDRB val v)
      else if reg = T1CL \<or> reg = T1LL then
        v\<lparr>via_t1Latch := (via_t1Latch v AND 0xFF00) OR ucast val\<rparr>
      else if reg = T1CH then
        (let v1 = latch_hi val v
         in updateIrq (clrIFR 0x40 (v1\<lparr>via_t1Counter := via_t1Latch v1, via_t1Active := True\<rparr>)))
      else if reg = T1LH then updateIrq (clrIFR 0x40 (latch_hi val v))
      else if reg = T2CL then set_reg T2CL val v
      else if reg = T2CH then
        updateIrq (clrIFR 0x20 (v\<lparr>via_t2Counter := push_bit 8 (ucast val) OR ucast (via_regs v T2CL),
                                   via_t2Active := True\<rparr>))
      else if reg = IFR then updateIrq (clrIFR (val AND 0x7F) v)
      else if reg = IER then
        updateIrq (if tst val 0x80 then set_reg IER (via_regs v IER OR (val AND 0x7F)) v
                   else set_reg IER (via_regs v IER AND NOT (val AND 0x7F)) v)
      else if reg = PCR then write_pcr val v
      else set_reg reg val v)"

definition via_ioRead :: "u32 \<Rightarrow> ('e via6522, u8 option) state" where
  "via_ioRead addr = readReg False addr"

definition via_ioPeek :: "u32 \<Rightarrow> ('e via6522, u8 option) state" where
  "via_ioPeek addr = readReg True addr"

definition via_ioWrite :: "u32 \<Rightarrow> u8 \<Rightarrow> ('e via6522, bool) state" where
  "via_ioWrite addr val = do {
     v \<leftarrow> State_Monad.get;
     (if addr AND NOT 0x000F \<noteq> via_baseAddr v then State_Monad.return False
      else do { modify (writeReg (via_reg_of addr) val); State_Monad.return True }) }"

section \<open>Time\<close>

definition tick_ca1 :: "'e via6522 \<Rightarrow> 'e via6522" where
  "tick_ca1 v =
     (if via_ca1Line v = NoLine then v
      else let lvl = line_level (via_ca1Level v) (via_ca1Line v);
               v1 = (if active_edge (tst (via_regs v PCR) 0x01) (via_ca1Prev v) lvl then ca1_edge v else v)
           in v1\<lparr>via_ca1Prev := lvl\<rparr>)"

definition tick_ca2 :: "'e via6522 \<Rightarrow> 'e via6522" where
  "tick_ca2 v =
     (if via_ca2Line v = NoLine \<or> tst (via_regs v PCR) 0x08 then v
      else let lvl = line_level (via_ca2Level v) (via_ca2Line v);
               v1 = (if active_edge (tst (via_regs v PCR) 0x04) (via_ca2Prev v) lvl then updateIrq (setIFR 0x01 v) else v)
           in v1\<lparr>via_ca2Prev := lvl\<rparr>)"

definition tick_cb1 :: "'e via6522 \<Rightarrow> 'e via6522" where
  "tick_cb1 v =
     (if via_cb1Line v = NoLine then v
      else let lvl = line_level (via_cb1Level v) (via_cb1Line v);
               v1 = (if active_edge (tst (via_regs v PCR) 0x10) (via_cb1Prev v) lvl then cb1_edge v else v)
           in v1\<lparr>via_cb1Prev := lvl\<rparr>)"

definition tick_cb2 :: "'e via6522 \<Rightarrow> 'e via6522" where
  "tick_cb2 v =
     (if via_cb2Line v = NoLine \<or> tst (via_regs v PCR) 0x80 then v
      else let lvl = line_level (via_cb2Level v) (via_cb2Line v);
               v1 = (if active_edge (tst (via_regs v PCR) 0x40) (via_cb2Prev v) lvl then updateIrq (setIFR 0x08 v) else v)
           in v1\<lparr>via_cb2Prev := lvl\<rparr>)"

definition tick_t1 :: "u64 \<Rightarrow> 'e via6522 \<Rightarrow> 'e via6522" where
  "tick_t1 cycles v =
     (if \<not> via_t1Active v then v
      else let prev = via_t1Counter v; v1 = v\<lparr>via_t1Counter := via_t1Counter v - ucast cycles\<rparr>
           in if prev < ucast cycles then
                (let v2 = updateIrq (setIFR 0x40 v1)
                 in if tst (via_regs v2 ACR) 0x40 then v2\<lparr>via_t1Counter := via_t1Latch v2\<rparr>
                    else v2\<lparr>via_t1Active := False\<rparr>)
              else v1)"

definition tick_t2 :: "u64 \<Rightarrow> 'e via6522 \<Rightarrow> 'e via6522" where
  "tick_t2 cycles v =
     (if \<not> via_t2Active v then v
      else let prev = via_t2Counter v; v1 = v\<lparr>via_t2Counter := via_t2Counter v - ucast cycles\<rparr>
           in if prev < ucast cycles then (updateIrq (setIFR 0x20 v1))\<lparr>via_t2Active := False\<rparr> else v1)"

definition via_tick :: "u64 \<Rightarrow> 'e via6522 \<Rightarrow> 'e via6522" where
  "via_tick cycles v = tick_t2 cycles (tick_t1 cycles (tick_cb2 (tick_cb1 (tick_ca2 (tick_ca1 v)))))"

text \<open>The device as the registry sees it.\<close>

definition via_handler :: "nat \<Rightarrow> string \<Rightarrow> u32 \<Rightarrow> 'e via6522 io_handler" where
  "via_handler i n base = \<lparr>ioh_id = i, ioh_name = n, ioh_base = base, ioh_read = via_ioRead, ioh_peek = via_ioPeek,
     ioh_write = via_ioWrite, ioh_reset = via_reset, ioh_tick = via_tick, ioh_isHaltRequested = (\<lambda>_. False)\<rparr>"

section \<open>The interrupt invariant\<close>

definition via_irq :: "'e via6522 \<Rightarrow> bool" where
  "via_irq v \<longleftrightarrow> via_regs v IFR AND via_regs v IER AND 0x7F \<noteq> 0"

text \<open>What interrupts depend on, and what every operation leaves coherent on the way.\<close>

definition irq_core :: "'e via6522 \<Rightarrow> u8 \<times> u8 \<times> bool \<times> bool option" where
  "irq_core v = (via_regs v IFR, via_regs v IER, via_lastIrq v, via_irqLine v)"

definition via_weak :: "'e via6522 \<Rightarrow> bool" where
  "via_weak v \<longleftrightarrow> \<not> bit (via_regs v IER) 7 \<and> (via_irqLine v = None \<or> via_irqLine v = Some (via_lastIrq v))"

definition via_inv :: "'e via6522 \<Rightarrow> bool" where
  "via_inv v \<longleftrightarrow> via_weak v \<and> via_lastIrq v = via_irq v \<and> bit (via_regs v IFR) 7 = via_irq v"

lemma inv_core: "irq_core v = irq_core w \<Longrightarrow> via_weak v = via_weak w" "irq_core v = irq_core w \<Longrightarrow> via_inv v = via_inv w"
  by (auto simp: irq_core_def via_weak_def via_inv_def via_irq_def)

lemma core_drive [simp]: "irq_core (driveCA2 l v) = irq_core v" "irq_core (driveCB2 l v) = irq_core v"
  by (simp_all add: irq_core_def driveCA2_def driveCB2_def split: via_line.split)

lemma core_set_reg [simp]: "r \<noteq> IFR \<Longrightarrow> r \<noteq> IER \<Longrightarrow> irq_core (set_reg r x v) = irq_core v"
  by (simp add: irq_core_def set_reg_def)

lemma weak_flags [simp]: "via_weak (setIFR m v) = via_weak v" "via_weak (clrIFR m v) = via_weak v"
  by (simp_all add: via_weak_def setIFR_def clrIFR_def set_reg_def)

lemma weak_drive [simp]: "via_weak (driveCA2 l v) = via_weak v" "via_weak (driveCB2 l v) = via_weak v"
  by (rule inv_core, simp)+

lemma irq_bit7: "(x OR 0x80) AND e AND 0x7F = x AND e AND (0x7F :: u8)"
  "(x AND NOT 0x80) AND e AND 0x7F = x AND e AND (0x7F :: u8)"
  by (rule u8_eqI, auto simp: bit_simps flag_bits)+

lemma irq_bit7_num: "(x AND - 129) AND e AND 0x7F = x AND e AND (0x7F :: u8)"
  using irq_bit7(2) [of x e] by simp

lemma updateIrq_inv: "via_weak v \<Longrightarrow> via_inv (updateIrq v)"
  by (auto simp: updateIrq_def via_inv_def via_weak_def via_irq_def setIFR_def clrIFR_def set_reg_def Let_def
      irq_bit7 irq_bit7_num bit_simps flag_bits)


lemma core_fields [simp]:
  "irq_core (v\<lparr>via_t1Latch := a\<rparr>) = irq_core v" "irq_core (v\<lparr>via_t1Counter := a\<rparr>) = irq_core v"
  "irq_core (v\<lparr>via_t1Active := b\<rparr>) = irq_core v" "irq_core (v\<lparr>via_t2Counter := a\<rparr>) = irq_core v"
  "irq_core (v\<lparr>via_t2Active := b\<rparr>) = irq_core v" "irq_core (v\<lparr>via_ext := e\<rparr>) = irq_core v"
  "irq_core (v\<lparr>via_ca1Prev := b\<rparr>) = irq_core v" "irq_core (v\<lparr>via_ca2Prev := b\<rparr>) = irq_core v"
  "irq_core (v\<lparr>via_cb1Prev := b\<rparr>) = irq_core v" "irq_core (v\<lparr>via_cb2Prev := b\<rparr>) = irq_core v"
  "irq_core (v\<lparr>via_ca1Level := b\<rparr>) = irq_core v" "irq_core (v\<lparr>via_ca2Level := b\<rparr>) = irq_core v"
  "irq_core (v\<lparr>via_cb1Level := b\<rparr>) = irq_core v" "irq_core (v\<lparr>via_cb2Level := b\<rparr>) = irq_core v"
  "irq_core (v\<lparr>via_ca1Line := l\<rparr>) = irq_core v" "irq_core (v\<lparr>via_ca2Line := l\<rparr>) = irq_core v"
  "irq_core (v\<lparr>via_cb1Line := l\<rparr>) = irq_core v" "irq_core (v\<lparr>via_cb2Line := l\<rparr>) = irq_core v"
  "irq_core (v\<lparr>via_paInPins := p\<rparr>) = irq_core v" "irq_core (v\<lparr>via_paInUsed := b\<rparr>) = irq_core v"
  "irq_core (latch_hi x v) = irq_core v" "irq_core (write_port d cb x v) = irq_core v"
  "irq_core (write_ddr d x v) = irq_core v"
  by (simp_all add: irq_core_def latch_hi_def write_port_def write_ddr_def Let_def)

lemma core_set_reg_pair: "via_weak v \<Longrightarrow> \<not> bit x 7 \<Longrightarrow> via_weak (set_reg IER x v)"
  by (simp add: via_weak_def set_reg_def)

text \<open>An update that leaves the core alone keeps both invariants.\<close>

lemma same_core: "irq_core w = irq_core v \<Longrightarrow> via_weak v \<Longrightarrow> via_weak w" "irq_core w = irq_core v \<Longrightarrow> via_inv v \<Longrightarrow> via_inv w"
  using inv_core by blast+

lemma inv_weak: "via_inv v \<Longrightarrow> via_weak v"
  by (simp add: via_inv_def)

named_theorems via_intro \<open>what keeps the interrupt invariant\<close>

lemma access_inv [via_intro]:
  "via_weak v \<Longrightarrow> via_inv (ora_access v)" "via_weak v \<Longrightarrow> via_inv (orb_access v)"
  "via_weak v \<Longrightarrow> via_inv (ca1_edge v)" "via_weak v \<Longrightarrow> via_inv (cb1_edge v)"
  unfolding ora_access_def orb_access_def ca1_edge_def cb1_edge_def Let_def
  by (auto intro!: updateIrq_inv)

lemma set_inv [via_intro]:
  assumes "via_inv v"
  shows "via_inv (ca1_set l v)" "via_inv (cb1_set l v)"
proof -
  have w: "via_weak (v\<lparr>via_ca1Level := l\<rparr>)" "via_inv (v\<lparr>via_ca1Level := l\<rparr>)"
      "via_weak (v\<lparr>via_cb1Level := l\<rparr>)" "via_inv (v\<lparr>via_cb1Level := l\<rparr>)"
    using assms by (auto intro: same_core [where v = v] inv_weak)
  show "via_inv (ca1_set l v)" unfolding ca1_set_def Let_def
    by (rule same_core(2), rule core_fields) (simp add: w access_inv)
  show "via_inv (cb1_set l v)" unfolding cb1_set_def Let_def
    by (rule same_core(2), rule core_fields) (simp add: w access_inv)
qed

lemma tick_lines_inv [via_intro]:
  assumes "via_inv v"
  shows "via_inv (tick_ca1 v)" "via_inv (tick_ca2 v)" "via_inv (tick_cb1 v)" "via_inv (tick_cb2 v)"
  unfolding tick_ca1_def tick_ca2_def tick_cb1_def tick_cb2_def Let_def
  using assms inv_weak [OF assms]
  by (auto intro!: same_core(2) [OF core_fields(7)] same_core(2) [OF core_fields(8)] same_core(2) [OF core_fields(9)]
      same_core(2) [OF core_fields(10)] access_inv updateIrq_inv)

lemma tick_timers_inv [via_intro]:
  assumes "via_inv v"
  shows "via_inv (tick_t1 c v)" "via_inv (tick_t2 c v)"
proof -
  have w: "via_weak (v\<lparr>via_t1Counter := a\<rparr>)" "via_weak (v\<lparr>via_t2Counter := a\<rparr>)"
      "via_inv (v\<lparr>via_t1Counter := a\<rparr>)" "via_inv (v\<lparr>via_t2Counter := a\<rparr>)" for a
    using assms by (auto intro: same_core [where v = v] inv_weak)
  show "via_inv (tick_t1 c v)" "via_inv (tick_t2 c v)"
    unfolding tick_t1_def tick_t2_def Let_def using assms w
    by (auto intro!: same_core(2) [OF core_fields(2)] same_core(2) [OF core_fields(3)]
        same_core(2) [OF core_fields(5)] updateIrq_inv)
qed

lemma tick_inv [via_intro]: "via_inv v \<Longrightarrow> via_inv (via_tick c v)"
  unfolding via_tick_def by (intro via_intro)

lemma writeReg_inv [via_intro]:
  assumes "via_inv v"
  shows "via_inv (writeReg r x v)"
proof -
  have weak: "via_weak v" by (rule inv_weak [OF assms])
  have i: "\<not> bit (via_regs v IER OR (x AND 0x7F)) 7" "\<not> bit (via_regs v IER AND NOT (x AND 0x7F)) 7"
    using weak by (auto simp: via_weak_def bit_simps flag_bits)
  have p: "irq_core (write_pcr x v) = irq_core v"
    by (simp add: write_pcr_def Let_def)
  have o: "via_weak (write_port d cb x (set_reg r x v))" if "r \<noteq> IFR" "r \<noteq> IER" for d cb r
    by (rule same_core(1) [OF _ weak]) (simp add: that)
  have t: "via_weak (latch_hi x v)" "via_weak ((latch_hi x v)\<lparr>via_t1Counter := a, via_t1Active := True\<rparr>)"
      "via_weak (v\<lparr>via_t2Counter := a, via_t2Active := True\<rparr>)" for a
    by (rule same_core(1) [OF _ weak], simp add: irq_core_def latch_hi_def)+
  consider "r = ORA" | "r = ORB" | "r = T1CH" | "r = T1LH" | "r = T2CH" | "r = IFR" | "r = IER" |
    "r \<notin> {ORA, ORB, T1CH, T1LH, T2CH, IFR, IER}" by blast
  then show ?thesis
  proof cases
    case 8
    then have "irq_core (writeReg r x v) = irq_core v"
      by (simp add: writeReg_def p)
    then show ?thesis using assms by (rule same_core(2))
  qed (use weak o t i in \<open>auto simp: writeReg_def Let_def intro!: access_inv updateIrq_inv core_set_reg_pair\<close>)
qed


lemma run_on_via_ext [simp]:
  "run_state (on_via_ext m) v = (result m (via_ext v), v\<lparr>via_ext := final m (via_ext v)\<rparr>)"
  by (simp add: on_via_ext_def Let_def)

lemma readReg_inv [via_intro]:
  assumes "via_inv v"
  shows "via_inv (final (readReg peek a) v)"
proof -
  have e: "via_inv (v\<lparr>via_ext := x\<rparr>)" "via_weak (v\<lparr>via_ext := x\<rparr>)" for x
    using assms by (auto intro: same_core [where v = v] inv_weak)
  show ?thesis
    using assms e inv_weak [OF assms]
    by (auto simp: readReg_def case_prod_beta Let_def port_pins_def access_inv updateIrq_inv split: option.split)
qed

section \<open>Runs of the device\<close>

text \<open>What can happen to it: accesses, time, its own signals, the lines attached from outside, a reset.\<close>

datatype via_op =
    VRead u32 | VPeek u32 | VWrite u32 u8 | VTick u64 | VSignal via_signal bool
  | VLines via_line via_line via_line via_line | VReset

primrec via_do :: "via_op \<Rightarrow> 'e via6522 \<Rightarrow> 'e via6522" where
  "via_do (VRead a) v = final (via_ioRead a) v"
| "via_do (VPeek a) v = final (via_ioPeek a) v"
| "via_do (VWrite a x) v = final (via_ioWrite a x) v"
| "via_do (VTick c) v = via_tick c v"
| "via_do (VSignal sg l) v = via_signal_set sg l v"
| "via_do (VLines a b c d) v = v\<lparr>via_ca1Line := a, via_ca2Line := b, via_cb1Line := c, via_cb2Line := d\<rparr>"
| "via_do VReset v = via_reset v"

definition via_attached ::
  "u32 \<Rightarrow> 'e \<Rightarrow> 'e port_device option \<Rightarrow> 'e port_device option \<Rightarrow> bool option \<Rightarrow> 'e via6522" where
  "via_attached base e pa pb irq =
     (via_new base e)\<lparr>via_portADevice := pa, via_portBDevice := pb, via_irqLine := map_option (\<lambda>_. False) irq\<rparr>"

lemma via_signal_inv [via_intro]: "via_inv v \<Longrightarrow> via_inv (via_signal_set sg l v)"
  by (cases sg) (auto simp: via_signal_set_def intro: via_intro same_core(2) [where v = v])

lemma via_reset_inv [via_intro]: "via_inv (via_reset v)"
proof -
  let ?w = "v\<lparr>via_regs := (\<lambda>_. 0), via_lastIrq := False, via_irqLine := map_option (\<lambda>_. False) (via_irqLine v)\<rparr>"
  have "via_inv ?w" by (cases "via_irqLine v") (simp_all add: via_inv_def via_weak_def via_irq_def)
  moreover have "irq_core (via_reset v) = irq_core ?w"
    by (simp add: irq_core_def via_reset_def driveCA2_def driveCB2_def split: via_line.split)
  ultimately show ?thesis using inv_core(2) by blast
qed

lemma via_do_inv: "via_inv v \<Longrightarrow> via_inv (via_do x v)"
  by (cases x)
    (auto simp: via_ioRead_def via_ioPeek_def via_ioWrite_def case_prod_beta
      intro: via_intro same_core(2) [where v = v])

lemma via_run_inv: "via_inv v \<Longrightarrow> via_inv (fold via_do xs v)"
  by (induction xs arbitrary: v) (auto simp: via_do_inv)

lemma via_new_inv: "via_inv (via_attached base e pa pb irq)"
  by (cases irq) (simp_all add: via_attached_def via_new_def via_reset_def driveCA2_def driveCB2_def via_inv_def
      via_weak_def via_irq_def)


section \<open>Timer 1\<close>

text \<open>What timer 1 depends on; the rest of a tick leaves it alone.\<close>

definition t1_core :: "'e via6522 \<Rightarrow> u16 \<times> bool \<times> u16 \<times> u8 \<times> bool" where
  "t1_core v = (via_t1Counter v, via_t1Active v, via_t1Latch v, via_regs v ACR, bit (via_regs v IFR) 6)"

lemma t1_flags [simp]:
  "\<not> bit m 6 \<Longrightarrow> t1_core (setIFR m v) = t1_core v" "\<not> bit m 6 \<Longrightarrow> t1_core (clrIFR m v) = t1_core v"
  by (simp_all add: t1_core_def setIFR_def clrIFR_def set_reg_def bit_or_iff bit_and_iff bit_not_iff)

lemma small_flags [simp]:
  "\<not> bit (0x01 :: u8) 6" "\<not> bit (0x02 :: u8) 6" "\<not> bit (0x08 :: u8) 6" "\<not> bit (0x10 :: u8) 6" "\<not> bit (0x20 :: u8) 6"
  "\<not> bit (0x80 :: u8) 6"
  by (simp_all add: flag_bits)

lemma t1_fields [simp]:
  "t1_core (v\<lparr>via_ca1Prev := b\<rparr>) = t1_core v" "t1_core (v\<lparr>via_ca2Prev := b\<rparr>) = t1_core v"
  "t1_core (v\<lparr>via_cb1Prev := b\<rparr>) = t1_core v" "t1_core (v\<lparr>via_cb2Prev := b\<rparr>) = t1_core v"
  "t1_core (v\<lparr>via_t2Counter := a\<rparr>) = t1_core v" "t1_core (v\<lparr>via_t2Active := b\<rparr>) = t1_core v"
  "t1_core (v\<lparr>via_irqLine := q, via_lastIrq := b\<rparr>) = t1_core v"
  by (simp_all add: t1_core_def)

lemma t1_drive [simp]: "t1_core (driveCA2 l v) = t1_core v" "t1_core (driveCB2 l v) = t1_core v"
  by (simp_all add: t1_core_def driveCA2_def driveCB2_def split: via_line.split)

lemma t1_updateIrq [simp]: "t1_core (updateIrq v) = t1_core v"
  by (simp add: updateIrq_def Let_def)

lemma t1_edges [simp]: "t1_core (ca1_edge v) = t1_core v" "t1_core (cb1_edge v) = t1_core v"
  by (simp_all add: ca1_edge_def cb1_edge_def Let_def)

lemma t1_ticks [simp]:
  "t1_core (tick_ca1 v) = t1_core v" "t1_core (tick_ca2 v) = t1_core v" "t1_core (tick_cb1 v) = t1_core v"
  "t1_core (tick_cb2 v) = t1_core v" "t1_core (tick_t2 c v) = t1_core v"
  by (simp_all add: tick_ca1_def tick_ca2_def tick_cb1_def tick_cb2_def tick_t2_def Let_def)

lemma t1_update [simp]:
  "t1_core (v\<lparr>via_t1Counter := a\<rparr>) = (a, snd (t1_core v))"
  "t1_core (v\<lparr>via_t1Active := b\<rparr>) = (fst (t1_core v), b, snd (snd (t1_core v)))"
  "t1_core (setIFR 0x40 v) = (via_t1Counter v, via_t1Active v, via_t1Latch v, via_regs v ACR, True)"
  by (simp_all add: t1_core_def setIFR_def set_reg_def bit_simps flag_bits)

lemma updateIrq_t1 [simp]:
  "via_t1Latch (updateIrq v) = via_t1Latch v" "via_regs (updateIrq v) ACR = via_regs v ACR"
  using t1_updateIrq [of v] unfolding t1_core_def by simp_all

lemma t1_step:
  assumes "t1_core v = (n, act, l, acr, f)"
  shows "t1_core (tick_t1 c v) =
     (if \<not> act then (n, act, l, acr, f)
      else if n < ucast c then (if bit acr 6 then (l, True, l, acr, True) else (n - ucast c, False, l, acr, True))
      else (n - ucast c, True, l, acr, f))"
proof -
  have f: "via_t1Counter v = n" "via_t1Active v = act" "via_t1Latch v = l" "via_regs v ACR = acr"
    using assms by (simp_all add: t1_core_def)
  have r: "via_t1Latch (setIFR m w) = via_t1Latch w" "via_regs (setIFR m w) ACR = via_regs w ACR" for m and w :: "'a via6522"
    by (simp_all add: setIFR_def set_reg_def)
  show ?thesis
    unfolding tick_t1_def Let_def f by (simp add: assms r f tst_bit)
qed

lemma t1_via_tick:
  "t1_core v = (n, act, l, acr, f) \<Longrightarrow> t1_core (via_tick c v) =
     (if \<not> act then (n, act, l, acr, f)
      else if n < ucast c then (if bit acr 6 then (l, True, l, acr, True) else (n - ucast c, False, l, acr, True))
      else (n - ucast c, True, l, acr, f))"
  unfolding via_tick_def by (simp add: t1_step)

lemma t1_run:
  assumes "t1_core v = (n, True, l, acr, f)" and "\<forall>c \<in> set cs. unat c < 65536" and "(\<Sum>c\<leftarrow>cs. unat c) \<le> unat n"
  shows "t1_core (fold via_tick cs v) = (n - of_nat (\<Sum>c\<leftarrow>cs. unat c), True, l, acr, f)"
  using assms
proof (induction cs arbitrary: v n)
  case (Cons c cs)
  have u: "unat (ucast c :: u16) = unat c"
    using Cons.prems(2) by (simp add: unsigned_ucast_eq take_bit_nat_eq_self)
  have le: "\<not> n < ucast c" using Cons.prems(3) u by (simp add: word_less_nat_alt)
  have t: "t1_core (via_tick c v) = (n - ucast c, True, l, acr, f)"
    using t1_via_tick [OF Cons.prems(1)] le by simp
  have s: "(\<Sum>c\<leftarrow>cs. unat c) \<le> unat (n - ucast c)"
    using unat_sub [of "ucast c" n] Cons.prems(3) le u by simp
  show ?case using Cons.IH [OF t _ s] Cons.prems(2) by (simp add: diff_diff_eq)
qed simp

section \<open>Correctness\<close>

text \<open>
  C8: Through every sequence of register accesses, ticks, line changes and resets the 6522 keeps its interrupt
  output coherent: bit 7 of the IFR is set exactly when an enabled flag is, the attached interrupt
  line is at that level, and bit 7 of the enable register stays clear.
\<close>

theorem via_irq_coherent:
  fixes base :: u32 and e :: 'e and xs :: "via_op list" and irq :: "bool option"
    and pa pb :: "'e port_device option"
  defines "v \<equiv> fold via_do xs (via_attached base e pa pb irq)"
  shows "(bit (via_regs v IFR) 7 \<longleftrightarrow> (\<exists>n < 7. bit (via_regs v IFR) n \<and> bit (via_regs v IER) n)) \<and>
    (via_irqLine v = None \<or> via_irqLine v = Some (bit (via_regs v IFR) 7)) \<and> \<not> bit (via_regs v IER) 7"
proof -
  have inv: "via_inv v" unfolding v_def by (rule via_run_inv [OF via_new_inv])
  have "via_irq v \<longleftrightarrow> (\<exists>n < 7. bit (via_regs v IFR) n \<and> bit (via_regs v IER) n)"
  proof
    assume "via_irq v"
    then obtain n where "bit (via_regs v IFR AND via_regs v IER AND 0x7F) n"
      by (auto simp: via_irq_def bit_eq_iff)
    then show "\<exists>n < 7. bit (via_regs v IFR) n \<and> bit (via_regs v IER) n"
      by (auto simp: bit_simps flag_bits)
  next
    assume "\<exists>n < 7. bit (via_regs v IFR) n \<and> bit (via_regs v IER) n"
    then obtain n where "n < 7" "bit (via_regs v IFR) n" "bit (via_regs v IER) n" by blast
    then have "bit (via_regs v IFR AND via_regs v IER AND 0x7F) n"
      by (simp add: bit_simps flag_bits)
    then show "via_irq v" unfolding via_irq_def by auto
  qed
  then show ?thesis using inv by (auto simp: via_inv_def via_weak_def)
qed

text \<open>
  Timer 1 times out exactly on time: loaded with N it counts the elapsed cycles down, leaves the
  flag alone while at most N cycles have passed, however they were split into ticks, and on the tick
  that takes the total past N it sets IFR bit 6, raises the interrupt line if that is enabled, and
  either reloads from the latch (free-running) or stops.
\<close>

theorem via_timer1_timeout:
  fixes v :: "'e via6522" and cs :: "u64 list" and d :: u64
  assumes "via_inv v" and "via_t1Active v" and "via_t1Counter v = n"
    and "\<forall>c \<in> set cs. unat c < 65536" and "(\<Sum>c\<leftarrow>cs. unat c) \<le> unat n"
    and "unat n < (\<Sum>c\<leftarrow>cs. unat c) + unat d" and "unat d < 65536"
  defines "w \<equiv> fold via_tick cs v" and "z \<equiv> via_tick d (fold via_tick cs v)"
  shows "unat (via_t1Counter w) = unat n - (\<Sum>c\<leftarrow>cs. unat c) \<and> bit (via_regs w IFR) 6 = bit (via_regs v IFR) 6 \<and>
    bit (via_regs z IFR) 6 \<and>
    (if bit (via_regs v ACR) 6 then via_t1Active z \<and> via_t1Counter z = via_t1Latch v else \<not> via_t1Active z) \<and>
    (bit (via_regs z IER) 6 \<longrightarrow> via_irqLine z \<noteq> Some False)"
proof -
  obtain l acr f where c: "t1_core v = (n, True, l, acr, f)" and l: "l = via_t1Latch v" "acr = via_regs v ACR"
      "f = bit (via_regs v IFR) 6"
    using assms(2,3) by (simp add: t1_core_def)
  let ?s = "\<Sum>c\<leftarrow>cs. unat c"
  have w: "t1_core w = (n - of_nat ?s, True, l, acr, f)"
    unfolding w_def by (rule t1_run [OF c assms(4,5)])
  have s: "unat (of_nat ?s :: u16) = ?s"
    using assms(5) unat_u16_lt [of n] by (simp add: unat_of_nat take_bit_nat_eq_self del: unat_u16_lt)
  have n: "unat (n - of_nat ?s) = unat n - ?s"
    using assms(5) s by (subst unat_sub) (simp_all add: word_le_nat_alt)
  have d: "unat (ucast d :: u16) = unat d"
    using assms(7) by (simp add: unsigned_ucast_eq take_bit_nat_eq_self)
  have "unat n - ?s < unat d" using assms(5,6) by linarith
  then have lt: "n - of_nat ?s < ucast d" using n d by (simp add: word_less_nat_alt)
  have z: "t1_core z = (if bit acr 6 then (l, True, l, acr, True) else (n - of_nat ?s - ucast d, False, l, acr, True))"
    unfolding z_def w_def [symmetric] using t1_via_tick [OF w, of d] lt by simp
  have "via_inv w" using assms(1) unfolding w_def by (induction cs arbitrary: v) (auto intro: via_intro)
  then have inv: "via_inv z" unfolding z_def w_def [symmetric] by (intro via_intro)
  have f6: "bit (via_regs z IFR) 6" using z by (simp add: t1_core_def split: if_splits)
  have "via_irq z" if "bit (via_regs z IER) 6"
  proof -
    have "bit (via_regs z IFR AND via_regs z IER AND 0x7F) 6" using f6 that by (simp add: bit_simps flag_bits)
    then show ?thesis unfolding via_irq_def by auto
  qed
  then show ?thesis
    using w z n l f6 inv by (auto simp: t1_core_def via_inv_def via_weak_def split: if_splits)
qed


theorem via_timer1_timeout_witness:
  "let v = fold via_do [VWrite 0x9114 3, VWrite 0x9115 0] (via_new 0x9110 ())
   in via_t1Counter v = 3 \<and> unat (via_t1Counter (fold via_tick [1, 2] v)) = 0 \<and>
      bit (via_regs (via_tick 1 (fold via_tick [1, 2] v)) IFR) 6"
proof -
  define v where "v = fold via_do [VWrite 0x9114 3, VWrite 0x9115 0] (via_new 0x9110 ())"
  have n: "via_new 0x9110 () = via_attached 0x9110 () None None None"
    by (simp add: via_attached_def via_new_def via_reset_def driveCA2_def driveCB2_def)
  have i: "via_inv v" unfolding v_def n by (rule via_run_inv [OF via_new_inv])
  have t: "via_t1Active v" "via_t1Counter v = 3"
    by (simp_all add: v_def via_ioWrite_def via_new_def via_reset_def driveCA2_def driveCB2_def via_reg_of_def
        writeReg_def latch_hi_def updateIrq_def clrIFR_def setIFR_def set_reg_def Let_def)
  show ?thesis
    using via_timer1_timeout [OF i t, of "[1, 2]" 1] t unfolding Let_def v_def [symmetric] by simp
qed

text \<open>
  A peek sees what a read would return and changes nothing, as long as the peripherals at the
  ports keep that promise themselves.
\<close>

theorem via_peek_pure:
  assumes "\<And>d. via_portADevice v = Some d \<or> via_portBDevice v = Some d \<Longrightarrow>
      final (pd_peekPort d) (via_ext v) = via_ext v \<and> result (pd_peekPort d) (via_ext v) = result (pd_readPort d) (via_ext v)"
  shows "final (via_ioPeek a) v = v \<and> result (via_ioPeek a) v = result (via_ioRead a) v"
proof -
  have e: "v\<lparr>via_ext := via_ext v\<rparr> = v" by simp
  show ?thesis
    using assms by (auto simp: via_ioPeek_def via_ioRead_def readReg_def port_pins_def case_prod_beta Let_def e
        split: option.split)
qed

theorem via_peek_pure_witness:
  "let v = via_attached 0x9110 (joystick_setState 0x1E joystick_new) (Some joystick_port) None None
   in final (via_ioPeek 0x9111) v = v \<and> result (via_ioPeek 0x9111) v = result (via_ioRead 0x9111) v"
proof -
  define v where "v = via_attached 0x9110 (joystick_setState 0x1E joystick_new) (Some joystick_port) None None"
  have "final (pd_peekPort d) (via_ext v) = via_ext v \<and> result (pd_peekPort d) (via_ext v) = result (pd_readPort d) (via_ext v)"
    if "via_portADevice v = Some d \<or> via_portBDevice v = Some d" for d
    using that by (auto simp: v_def via_attached_def joystick_port_def)
  from via_peek_pure [OF this] show ?thesis unfolding Let_def v_def .
qed

text \<open>
  The timer 1 latch cannot be read back: a byte written to register 6 is in the latch, but a read of
  register 6 returns 0.
\<close>

theorem via_latch_not_read_back:
  "let v = final (via_ioWrite 0x9116 0x34) (via_new 0x9110 ())
   in via_t1Latch v = 0xFF34 \<and> result (via_ioRead 0x9116) v = Some 0"
  by (simp add: via_ioWrite_def via_ioRead_def readReg_def via_new_def via_reset_def driveCA2_def driveCB2_def
      via_reg_of_def writeReg_def Let_def)

lemma via_declines: "a AND NOT 0xF \<noteq> base \<Longrightarrow> via_baseAddr d = base \<Longrightarrow> declines (via_handler i n base) a d"
  by (simp add: declines_def via_handler_def via_ioRead_def via_ioPeek_def via_ioWrite_def readReg_def)

end
