(* ===== verification/Cia6526.thy ===== *)
theory Cia6526
  imports Signals
begin

text \<open>
  The MOS 6526 (\<open>plugins/devices/cia6526/main/cia6526.h\<close>, \<open>cia6526.cpp\<close>): ports, the two
  interval timers, the time-of-day clock with its alarm, the serial register and the interrupt
  control register. The peripherals live in \<open>cia_ext\<close>; the interrupt output is the level last
  driven on the attached line. Log messages and the text reports are left out.
\<close>

section \<open>State\<close>

record timer =
  tm_latch :: u16
  tm_counter :: u16
  tm_running :: bool

record tod_time =
  td_ten :: u8
  td_sec :: u8
  td_min :: u8
  td_hr :: u8

record 'e cia6526 =
  cia_baseAddr :: u32
  cia_clockHz :: u32
  cia_pra :: u8
  cia_prb :: u8
  cia_ddra :: u8
  cia_ddrb :: u8
  cia_ta :: timer
  cia_tb :: timer
  cia_icrMask :: u8
  cia_icrPending :: u8
  cia_cra :: u8
  cia_crb :: u8
  cia_sdr :: u8
  cia_tod :: tod_time
  cia_alarm :: tod_time
  cia_todLatched :: bool
  cia_latch :: tod_time
  cia_todRunning :: bool
  cia_todAccum :: u64
  cia_flagLevel :: bool
  cia_outputsReadPins :: bool
  cia_portADevice :: "'e port_device option"
  cia_portBDevice :: "'e port_device option"
  cia_portAWriteCallback :: "(u8 \<Rightarrow> u8 \<Rightarrow> 'e \<Rightarrow> 'e) option"
  cia_serialOut :: "(u8 \<Rightarrow> 'e \<Rightarrow> 'e) option"
  cia_irqLine :: "bool option"
  cia_ext :: 'e

abbreviation CR_START :: u8 where "CR_START \<equiv> 0x01"
abbreviation CR_ONESHOT :: u8 where "CR_ONESHOT \<equiv> 0x08"
abbreviation CR_LOAD :: u8 where "CR_LOAD \<equiv> 0x10"
abbreviation CRB_ALARM :: u8 where "CRB_ALARM \<equiv> 0x80"
abbreviation ICR_TA :: u8 where "ICR_TA \<equiv> 0x01"
abbreviation ICR_TB :: u8 where "ICR_TB \<equiv> 0x02"
abbreviation ICR_TOD :: u8 where "ICR_TOD \<equiv> 0x04"
abbreviation ICR_SP :: u8 where "ICR_SP \<equiv> 0x08"
abbreviation ICR_INT :: u8 where "ICR_INT \<equiv> 0x80"

section \<open>Interrupts\<close>

definition cia_updateIrq :: "'e cia6526 \<Rightarrow> 'e cia6526" where
  "cia_updateIrq c = c\<lparr>cia_irqLine := map_option (\<lambda>_. cia_icrPending c AND cia_icrMask c \<noteq> 0) (cia_irqLine c)\<rparr>"

definition set_pending :: "u8 \<Rightarrow> 'e cia6526 \<Rightarrow> 'e cia6526" where
  "set_pending m c = c\<lparr>cia_icrPending := cia_icrPending c OR m\<rparr>"

definition clr_pending :: "u8 \<Rightarrow> 'e cia6526 \<Rightarrow> 'e cia6526" where
  "clr_pending m c = c\<lparr>cia_icrPending := cia_icrPending c AND NOT m\<rparr>"

definition flagTrigger :: "'e cia6526 \<Rightarrow> 'e cia6526" where
  "flagTrigger c = cia_updateIrq (set_pending 0x10 c)"

definition flag_set :: "bool \<Rightarrow> 'e cia6526 \<Rightarrow> 'e cia6526" where
  "flag_set level c =
     (let c1 = (if cia_flagLevel c \<and> \<not> level then flagTrigger c else c) in c1\<lparr>cia_flagLevel := level\<rparr>)"

definition receiveSerialByte :: "u8 \<Rightarrow> 'e cia6526 \<Rightarrow> 'e cia6526" where
  "receiveSerialByte b c =
     (if tst (cia_cra c) 0x40 then c else cia_updateIrq (set_pending ICR_SP (c\<lparr>cia_sdr := b\<rparr>)))"

section \<open>Reset\<close>

definition timer_zero :: timer where
  "timer_zero = \<lparr>tm_latch = 0xFFFF, tm_counter = 0xFFFF, tm_running = False\<rparr>"

definition tod_one :: tod_time where
  "tod_one = \<lparr>td_ten = 0, td_sec = 0, td_min = 0, td_hr = 0x01\<rparr>"

definition port_ddr :: "'e port_device option \<Rightarrow> u8 \<Rightarrow> 'e \<Rightarrow> 'e" where
  "port_ddr d v e = (case d of Some p \<Rightarrow> pd_setDdr p v e | None \<Rightarrow> e)"

definition port_write :: "'e port_device option \<Rightarrow> u8 \<Rightarrow> 'e \<Rightarrow> 'e" where
  "port_write d v e = (case d of Some p \<Rightarrow> pd_writePort p v e | None \<Rightarrow> e)"

definition portA_callback :: "'e cia6526 \<Rightarrow> 'e cia6526" where
  "portA_callback c = c\<lparr>cia_ext := (case cia_portAWriteCallback c of
     Some f \<Rightarrow> f (cia_pra c) (cia_ddra c) (cia_ext c) | None \<Rightarrow> cia_ext c)\<rparr>"

definition cia_reset :: "'e cia6526 \<Rightarrow> 'e cia6526" where
  "cia_reset c =
     (let c1 = c\<lparr>cia_pra := 0xFF, cia_prb := 0xFF, cia_ddra := 0, cia_ddrb := 0, cia_ta := timer_zero,
            cia_tb := timer_zero, cia_icrMask := 0, cia_icrPending := 0, cia_cra := 0, cia_crb := 0,
            cia_tod := tod_one, cia_alarm := tod_one, cia_todLatched := False, cia_latch := tod_one,
            cia_todRunning := True, cia_todAccum := 0, cia_irqLine := map_option (\<lambda>_. False) (cia_irqLine c)\<rparr>
      in portA_callback (c1\<lparr>cia_ext := port_ddr (cia_portBDevice c1) 0 (port_ddr (cia_portADevice c1) 0 (cia_ext c1))\<rparr>))"

definition cia_new :: "u32 \<Rightarrow> 'e \<Rightarrow> 'e cia6526" where
  "cia_new base e = cia_reset \<lparr>cia_baseAddr = base, cia_clockHz = 1022727, cia_pra = 0xFF, cia_prb = 0xFF,
     cia_ddra = 0, cia_ddrb = 0, cia_ta = timer_zero, cia_tb = timer_zero, cia_icrMask = 0,
     cia_icrPending = 0, cia_cra = 0, cia_crb = 0, cia_sdr = 0, cia_tod = tod_one, cia_alarm = tod_one,
     cia_todLatched = False, cia_latch = tod_one, cia_todRunning = True, cia_todAccum = 0,
     cia_flagLevel = True, cia_outputsReadPins = False, cia_portADevice = None, cia_portBDevice = None,
     cia_portAWriteCallback = None, cia_serialOut = None, cia_irqLine = None, cia_ext = e\<rparr>"

section \<open>Reading a register\<close>

definition on_cia_ext :: "('e, 'a) state \<Rightarrow> ('e cia6526, 'a) state" where
  "on_cia_ext m = State_Monad.State (\<lambda>c.
     let r = run_state m (cia_ext c) in (fst r, c\<lparr>cia_ext := snd r\<rparr>))"

definition cia_port :: "bool \<Rightarrow> 'e port_device option \<Rightarrow> u8 \<Rightarrow> u8 \<Rightarrow> ('e cia6526, u8) state" where
  "cia_port peek dev latch ddr = do {
     c \<leftarrow> State_Monad.get;
     (case dev of
        Some d \<Rightarrow> do {
          pins \<leftarrow> on_cia_ext (if peek then pd_peekPort d else pd_readPort d);
          let val = (latch AND ddr) OR (pins AND NOT ddr);
          State_Monad.return (if cia_outputsReadPins c then val AND (pins OR NOT ddr) else val) }
      | None \<Rightarrow> State_Monad.return ((latch AND ddr) OR (NOT ddr AND 0xFF))) }"

definition icr_value :: "'e cia6526 \<Rightarrow> u8" where
  "icr_value c = (if tst (cia_icrPending c) (cia_icrMask c) then cia_icrPending c OR ICR_INT else cia_icrPending c)"

definition cia_readReg :: "bool \<Rightarrow> u32 \<Rightarrow> ('e cia6526, u8 option) state" where
  "cia_readReg peek addr = do {
     c \<leftarrow> State_Monad.get;
     (if addr AND NOT 0x000F \<noteq> cia_baseAddr c then State_Monad.return None
      else let reg = unat (addr AND 0x0F); yes = (\<lambda>v :: u8. State_Monad.return (Some v)) in
        if reg = 0x0 then do { v \<leftarrow> cia_port peek (cia_portADevice c) (cia_pra c) (cia_ddra c); yes v }
        else if reg = 0x1 then do { v \<leftarrow> cia_port peek (cia_portBDevice c) (cia_prb c) (cia_ddrb c); yes v }
        else if reg = 0x2 then yes (cia_ddra c)
        else if reg = 0x3 then yes (cia_ddrb c)
        else if reg = 0x4 then yes (lo8 (tm_counter (cia_ta c)))
        else if reg = 0x5 then yes (hi8 (tm_counter (cia_ta c)))
        else if reg = 0x6 then yes (lo8 (tm_counter (cia_tb c)))
        else if reg = 0x7 then yes (hi8 (tm_counter (cia_tb c)))
        else if reg = 0x8 then do {
          (if peek then skip else modify (\<lambda>c. c\<lparr>cia_todLatched := False\<rparr>));
          yes (td_ten (if cia_todLatched c then cia_latch c else cia_tod c)) }
        else if reg = 0x9 then yes (td_sec (if cia_todLatched c then cia_latch c else cia_tod c))
        else if reg = 0xA then yes (td_min (if cia_todLatched c then cia_latch c else cia_tod c))
        else if reg = 0xB then do {
          (if peek then skip else modify (\<lambda>c. c\<lparr>cia_latch := cia_tod c, cia_todLatched := True\<rparr>));
          yes (td_hr (cia_tod c)) }
        else if reg = 0xC then yes (cia_sdr c)
        else if reg = 0xD then do {
          (if peek then skip else modify (\<lambda>c. cia_updateIrq (c\<lparr>cia_icrPending := 0\<rparr>)));
          yes (icr_value c) }
        else if reg = 0xE then yes (cia_cra c AND NOT CR_LOAD)
        else yes (cia_crb c AND NOT CR_LOAD)) }"

section \<open>Writing a register\<close>

definition latch_lo :: "u8 \<Rightarrow> timer \<Rightarrow> timer" where
  "latch_lo val t = t\<lparr>tm_latch := (tm_latch t AND 0xFF00) OR ucast val\<rparr>"

text \<open>A stopped timer is loaded from its latch.\<close>

definition timer_hi :: "u8 \<Rightarrow> timer \<Rightarrow> timer" where
  "timer_hi val t =
     (let t1 = t\<lparr>tm_latch := (tm_latch t AND 0x00FF) OR push_bit 8 (ucast val)\<rparr>
      in if \<not> tm_running t1 then t1\<lparr>tm_counter := tm_latch t1\<rparr> else t1)"

definition timer_control :: "u8 \<Rightarrow> timer \<Rightarrow> timer" where
  "timer_control val t =
     (let t1 = t\<lparr>tm_running := (val AND CR_START \<noteq> 0)\<rparr>
      in if tst val CR_LOAD then t1\<lparr>tm_counter := tm_latch t1\<rparr> else t1)"

definition write_tod :: "(tod_time \<Rightarrow> tod_time) \<Rightarrow> 'e cia6526 \<Rightarrow> 'e cia6526" where
  "write_tod f c = (if tst (cia_crb c) CRB_ALARM then c\<lparr>cia_alarm := f (cia_alarm c)\<rparr> else c\<lparr>cia_tod := f (cia_tod c)\<rparr>)"

definition write_todrun :: "bool \<Rightarrow> 'e cia6526 \<Rightarrow> 'e cia6526" where
  "write_todrun run c = (if tst (cia_crb c) CRB_ALARM then c else c\<lparr>cia_todRunning := run\<rparr>)"

definition cia_writeReg :: "nat \<Rightarrow> u8 \<Rightarrow> 'e cia6526 \<Rightarrow> 'e cia6526" where
  "cia_writeReg reg val c =
     (if reg = 0x0 then
        portA_callback ((c\<lparr>cia_pra := val\<rparr>)\<lparr>cia_ext := port_write (cia_portADevice c) val (cia_ext c)\<rparr>)
      else if reg = 0x1 then c\<lparr>cia_prb := val, cia_ext := port_write (cia_portBDevice c) val (cia_ext c)\<rparr>
      else if reg = 0x2 then
        portA_callback ((c\<lparr>cia_ddra := val\<rparr>)\<lparr>cia_ext := port_ddr (cia_portADevice c) val (cia_ext c)\<rparr>)
      else if reg = 0x3 then c\<lparr>cia_ddrb := val, cia_ext := port_ddr (cia_portBDevice c) val (cia_ext c)\<rparr>
      else if reg = 0x4 then c\<lparr>cia_ta := latch_lo val (cia_ta c)\<rparr>
      else if reg = 0x5 then cia_updateIrq (clr_pending ICR_TA (c\<lparr>cia_ta := timer_hi val (cia_ta c)\<rparr>))
      else if reg = 0x6 then c\<lparr>cia_tb := latch_lo val (cia_tb c)\<rparr>
      else if reg = 0x7 then cia_updateIrq (clr_pending ICR_TB (c\<lparr>cia_tb := timer_hi val (cia_tb c)\<rparr>))
      else if reg = 0x8 then write_todrun True (write_tod (\<lambda>t. t\<lparr>td_ten := val AND 0x0F\<rparr>) c)
      else if reg = 0x9 then write_tod (\<lambda>t. t\<lparr>td_sec := val AND 0x7F\<rparr>) c
      else if reg = 0xA then write_tod (\<lambda>t. t\<lparr>td_min := val AND 0x7F\<rparr>) c
      else if reg = 0xB then write_todrun False (write_tod (\<lambda>t. t\<lparr>td_hr := val AND 0x9F\<rparr>) c)
      else if reg = 0xC then
        (let c1 = c\<lparr>cia_sdr := val\<rparr>
         in if tst (cia_cra c1) 0x40
            then (set_pending ICR_SP c1)\<lparr>cia_ext := (case cia_serialOut c1 of
                    Some f \<Rightarrow> f val (cia_ext c1) | None \<Rightarrow> cia_ext c1)\<rparr>
            else c1)
      else if reg = 0xD then
        cia_updateIrq (c\<lparr>cia_icrMask := (if tst val 0x80 then cia_icrMask c OR (val AND 0x7F)
                                           else cia_icrMask c AND NOT (val AND 0x7F))\<rparr>)
      else if reg = 0xE then
        c\<lparr>cia_cra := (if tst val CR_LOAD then val AND NOT CR_LOAD else val), cia_ta := timer_control val (cia_ta c)\<rparr>
      else c\<lparr>cia_crb := (if tst val CR_LOAD then val AND NOT CR_LOAD else val), cia_tb := timer_control val (cia_tb c)\<rparr>)"

definition cia_ioRead :: "u32 \<Rightarrow> ('e cia6526, u8 option) state" where
  "cia_ioRead addr = cia_readReg False addr"

definition cia_ioPeek :: "u32 \<Rightarrow> ('e cia6526, u8 option) state" where
  "cia_ioPeek addr = cia_readReg True addr"

definition cia_ioWrite :: "u32 \<Rightarrow> u8 \<Rightarrow> ('e cia6526, bool) state" where
  "cia_ioWrite addr val = do {
     c \<leftarrow> State_Monad.get;
     (if addr AND NOT 0x000F \<noteq> cia_baseAddr c then State_Monad.return False
      else do { modify (cia_writeReg (unat (addr AND 0x0F)) val); State_Monad.return True }) }"


section \<open>Time\<close>

datatype cia_timer = TA | TB

primrec timer_of :: "cia_timer \<Rightarrow> 'e cia6526 \<Rightarrow> timer" where
  "timer_of TA c = cia_ta c"
| "timer_of TB c = cia_tb c"

primrec put_timer :: "cia_timer \<Rightarrow> timer \<Rightarrow> 'e cia6526 \<Rightarrow> 'e cia6526" where
  "put_timer TA t c = c\<lparr>cia_ta := t\<rparr>"
| "put_timer TB t c = c\<lparr>cia_tb := t\<rparr>"

primrec timer_cr :: "cia_timer \<Rightarrow> 'e cia6526 \<Rightarrow> u8" where
  "timer_cr TA c = cia_cra c"
| "timer_cr TB c = cia_crb c"

primrec timer_icr :: "cia_timer \<Rightarrow> u8" where
  "timer_icr TA = ICR_TA"
| "timer_icr TB = ICR_TB"

primrec stop_timer :: "cia_timer \<Rightarrow> 'e cia6526 \<Rightarrow> 'e cia6526" where
  "stop_timer TA c = c\<lparr>cia_ta := (cia_ta c)\<lparr>tm_running := False\<rparr>, cia_cra := cia_cra c AND NOT CR_START\<rparr>"
| "stop_timer TB c = c\<lparr>cia_tb := (cia_tb c)\<lparr>tm_running := False\<rparr>, cia_crb := cia_crb c AND NOT CR_START\<rparr>"

definition count_down :: "u32 \<Rightarrow> timer \<Rightarrow> u32 \<times> timer" where
  "count_down elapsed t =
     (let step = (if elapsed < ucast (tm_counter t) then elapsed else ucast (tm_counter t))
      in (elapsed - step, t\<lparr>tm_counter := tm_counter t - ucast step\<rparr>))"

definition reload :: "timer \<Rightarrow> timer" where
  "reload t = t\<lparr>tm_counter := (if tm_latch t \<noteq> 0 then tm_latch t else 0xFFFF)\<rparr>"

text \<open>
  The loop of \<open>tickTimerA\<close> and \<open>tickTimerB\<close>. Every round consumes cycles, except that a counter
  that is already zero is first reloaded, which leaves it nonzero.
\<close>

function timer_loop :: "cia_timer \<Rightarrow> u32 \<Rightarrow> 'e cia6526 \<Rightarrow> 'e cia6526" where
  "timer_loop w elapsed c =
     (if elapsed = 0 then c
      else let (left, t) = count_down elapsed (timer_of w c); c1 = put_timer w t c
        in if tm_counter t = 0 then
             (let c2 = cia_updateIrq (set_pending (timer_icr w) c1)
              in if tst (timer_cr w c2) CR_ONESHOT then stop_timer w c2
                 else timer_loop w left (put_timer w (reload t) c2))
           else timer_loop w left c1)"
  by pat_completeness auto

lemma timer_of_put [simp]: "timer_of w (put_timer w t c) = t"
  by (cases w) simp_all

lemma reload_nonzero [simp]: "tm_counter (reload t) \<noteq> 0"
  by (simp add: reload_def)

lemma reload_counter [simp]: "reload (t\<lparr>tm_counter := n\<rparr>) = reload t"
  by (cases t) (simp add: reload_def)

lemma count_down_less:
  fixes elapsed :: u32
  assumes "elapsed < ucast (tm_counter t)"
  shows "count_down elapsed t = (0, t\<lparr>tm_counter := tm_counter t - ucast elapsed\<rparr>)"
  using assms by (simp add: count_down_def)

lemma ucast_ucast_16: "ucast (ucast (n :: u16) :: u32) = n"
  
  by (rule bit_word_eqI) (simp add: bit_simps)

lemma count_down_all:
  fixes elapsed :: u32
  assumes "\<not> elapsed < ucast (tm_counter t)"
  shows "count_down elapsed t = (elapsed - ucast (tm_counter t), t\<lparr>tm_counter := 0\<rparr>)"
  using assms by (simp add: count_down_def ucast_ucast_16)

lemma ucast_pos: "(ucast (n :: u16) :: u32) \<noteq> 0 \<longleftrightarrow> n \<noteq> 0"
  by (metis ucast_16_32_inject ucast_0)

lemma elapsed_drops:
  fixes elapsed :: u32
  assumes "\<not> elapsed < (ucast (n :: u16) :: u32)"
  shows "unat (elapsed - ucast n) = unat elapsed - unat n" "unat n \<le> unat elapsed"
  using assms by (simp_all add: word_less_nat_alt unat_sub word_le_nat_alt)

lemma count_down_nonzero:
  fixes elapsed :: u32
  assumes "elapsed < ucast (tm_counter t)"
  shows "tm_counter t - ucast elapsed \<noteq> 0"
proof
  assume z: "tm_counter t - ucast elapsed = 0"
  have lt: "unat elapsed < unat (tm_counter t)" using assms by (simp add: word_less_nat_alt)
  then have "unat elapsed < 65536" using unat_u16_lt [of "tm_counter t"] by linarith
  then have "unat (ucast elapsed :: u16) = unat elapsed" by (simp add: unsigned_ucast_eq take_bit_nat_eq_self)
  moreover have "tm_counter t = ucast elapsed" using z by simp
  ultimately show False using lt by simp
qed

definition loop_size :: "u32 \<Rightarrow> timer \<Rightarrow> nat" where
  "loop_size elapsed t = 2 * unat elapsed + (if tm_counter t = 0 then 1 else 0)"

lemma loop_shrinks:
  fixes elapsed :: u32
  assumes "elapsed \<noteq> 0" and "(left, t') = count_down elapsed t"
  shows "tm_counter t' = 0 \<Longrightarrow> loop_size left (reload t') < loop_size elapsed t"
    and "tm_counter t' \<noteq> 0 \<Longrightarrow> loop_size left t' < loop_size elapsed t"
proof -
  have e: "0 < unat elapsed" using assms(1) by (simp add: unat_gt_0)
  have z: "loop_size left (reload u) = 2 * unat left" for u by (simp add: loop_size_def)
  have "(tm_counter t' = 0 \<longrightarrow> loop_size left (reload t') < loop_size elapsed t) \<and>
      (tm_counter t' \<noteq> 0 \<longrightarrow> loop_size left t' < loop_size elapsed t)"
  proof (cases "elapsed < ucast (tm_counter t)")
    case True
    then have "left = 0" "tm_counter t' \<noteq> 0"
      using assms(2) count_down_less [OF True] count_down_nonzero [OF True] by simp_all
    then show ?thesis using e by (simp add: loop_size_def)
  next
    case False
    have c: "left = elapsed - ucast (tm_counter t)" "tm_counter t' = 0"
      using assms(2) count_down_all [OF False] by simp_all
    have u: "unat left = unat elapsed - unat (tm_counter t)" "unat (tm_counter t) \<le> unat elapsed"
      unfolding c(1) using elapsed_drops [OF False] by blast+
    show ?thesis
    proof (cases "tm_counter t = 0")
      case True
      then show ?thesis using u c by (simp add: z loop_size_def)
    next
      case False
      then have "0 < unat (tm_counter t)" by (simp add: unat_gt_0)
      then show ?thesis unfolding z using u e c(2) by (simp add: loop_size_def)
    qed
  qed
  then show "tm_counter t' = 0 \<Longrightarrow> loop_size left (reload t') < loop_size elapsed t"
    and "tm_counter t' \<noteq> 0 \<Longrightarrow> loop_size left t' < loop_size elapsed t" by blast+
qed

termination timer_loop
  by (relation "measure (\<lambda>(w, elapsed, c). loop_size elapsed (timer_of w c))") (auto simp: loop_shrinks)

declare timer_loop.simps [simp del]


definition tickTimerA :: "u64 \<Rightarrow> 'e cia6526 \<Rightarrow> 'e cia6526" where
  "tickTimerA cycles c = (if \<not> tm_running (cia_ta c) then c else timer_loop TA (ucast cycles) c)"

definition tickTimerB :: "u64 \<Rightarrow> 'e cia6526 \<Rightarrow> 'e cia6526" where
  "tickTimerB cycles c =
     (if \<not> tm_running (cia_tb c) then c
      else if cia_crb c AND 0x60 = 0x40 then (if \<not> tst (cia_icrPending c) ICR_TA then c else timer_loop TB 1 c)
      else timer_loop TB (ucast cycles) c)"

definition bcdInc :: "u8 \<Rightarrow> nat \<Rightarrow> u8" where
  "bcdInc bcd maxBcd =
     (let lo = (bcd AND 0x0F) + 1; hi = drop_bit 4 bcd;
          (lo, hi) = (if lo > 9 then (0, hi + 1) else (lo, hi));
          decimal = hi * 10 + lo
      in if unat decimal > maxBcd then 0 else push_bit 4 hi OR lo)"

definition tod_hour :: "u8 \<Rightarrow> u8" where
  "tod_hour h =
     (let hr = bcdInc (h AND 0x1F) 12; hr = (if hr = 0 then 1 else hr); pm = h AND 0x80;
          pm = (if h AND 0x1F = 0x11 then pm XOR 0x80 else pm)
      in pm OR hr)"

definition tod_inc :: "tod_time \<Rightarrow> tod_time" where
  "tod_inc t =
     (let ten = td_ten t + 1
      in if ten \<le> 9 then t\<lparr>td_ten := ten\<rparr>
         else let sec = bcdInc (td_sec t) 59; t = t\<lparr>td_ten := 0, td_sec := sec\<rparr>
           in if sec \<noteq> 0 then t
              else let min = bcdInc (td_min t) 59; t = t\<lparr>td_min := min\<rparr>
                in if min \<noteq> 0 then t else t\<lparr>td_hr := tod_hour (td_hr t)\<rparr>)"

definition tod_step :: "'e cia6526 \<Rightarrow> 'e cia6526" where
  "tod_step c =
     (let c1 = c\<lparr>cia_tod := tod_inc (cia_tod c)\<rparr>
      in if cia_tod c1 = cia_alarm c1 then cia_updateIrq (set_pending ICR_TOD c1) else c1)"

definition tenth_period :: "u32 \<Rightarrow> u64" where
  "tenth_period hz = (let p = ucast (hz div 10) in if p = 0 then 100000 else p)"

text \<open>The accumulator loop of \<open>tickTOD\<close>: every round takes a whole period away.\<close>

lemma tenth_period_pos [simp]: "tenth_period hz \<noteq> 0"
  by (simp add: tenth_period_def Let_def)

function tod_loop :: "'e cia6526 \<Rightarrow> 'e cia6526" where
  "tod_loop c =
     (if cia_todAccum c \<ge> tenth_period (cia_clockHz c)
      then tod_loop (tod_step (c\<lparr>cia_todAccum := cia_todAccum c - tenth_period (cia_clockHz c)\<rparr>))
      else c)"
  by pat_completeness auto

lemma tod_step_keeps [simp]:
  "cia_todAccum (tod_step c) = cia_todAccum c" "cia_clockHz (tod_step c) = cia_clockHz c"
  "cia_todRunning (tod_step c) = cia_todRunning c" "cia_alarm (tod_step c) = cia_alarm c"
  "cia_tod (tod_step c) = tod_inc (cia_tod c)"
  by (simp_all add: tod_step_def cia_updateIrq_def set_pending_def Let_def)

termination tod_loop
proof (relation "measure (\<lambda>c. unat (cia_todAccum c))", goal_cases)
  case (2 c)
  have "0 < unat (tenth_period (cia_clockHz c))" by (simp add: unat_gt_0)
  with 2 show ?case by (simp add: unat_sub word_le_nat_alt)
qed simp

declare tod_loop.simps [simp del]

definition tickTOD :: "u64 \<Rightarrow> 'e cia6526 \<Rightarrow> 'e cia6526" where
  "tickTOD cycles c =
     (if \<not> cia_todRunning c then c else tod_loop (c\<lparr>cia_todAccum := cia_todAccum c + cycles\<rparr>))"

definition cia_tick :: "u64 \<Rightarrow> 'e cia6526 \<Rightarrow> 'e cia6526" where
  "cia_tick cycles c = tickTOD cycles (tickTimerB cycles (tickTimerA cycles c))"

text \<open>The effect of \<open>advanceCycles\<close>, which leaves the clock alone and then reports.\<close>

definition cia_advanceCycles :: "u32 \<Rightarrow> 'e cia6526 \<Rightarrow> 'e cia6526" where
  "cia_advanceCycles cycles c = tickTimerB (ucast cycles) (tickTimerA (ucast cycles) c)"

definition cia_handler :: "nat \<Rightarrow> string \<Rightarrow> u32 \<Rightarrow> 'e cia6526 io_handler" where
  "cia_handler i n base = \<lparr>ioh_id = i, ioh_name = n, ioh_base = base, ioh_read = cia_ioRead, ioh_peek = cia_ioPeek,
     ioh_write = cia_ioWrite, ioh_reset = cia_reset, ioh_tick = cia_tick, ioh_isHaltRequested = (\<lambda>_. False)\<rparr>"

lemma cia_declines: "a AND NOT 0xF \<noteq> base \<Longrightarrow> cia_baseAddr d = base \<Longrightarrow> declines (cia_handler i n base) a d"
  by (simp add: declines_def cia_handler_def cia_ioRead_def cia_ioPeek_def cia_ioWrite_def cia_readReg_def)

section \<open>Counting down\<close>

definition underflow :: "cia_timer \<Rightarrow> 'e cia6526 \<Rightarrow> 'e cia6526" where
  "underflow w c =
     (let t = (timer_of w c)\<lparr>tm_counter := 0\<rparr>; c2 = cia_updateIrq (set_pending (timer_icr w) (put_timer w t c))
      in if tst (timer_cr w c) CR_ONESHOT then stop_timer w c2 else put_timer w (reload t) c2)"

lemma timer_cr_keeps [simp]:
  "timer_cr w (cia_updateIrq c) = timer_cr w c" "timer_cr w (set_pending m c) = timer_cr w c"
  "timer_cr w (put_timer w t c) = timer_cr w c"
  by (cases w; simp add: cia_updateIrq_def set_pending_def)+

lemma timer_loop_0 [simp]: "timer_loop w 0 c = c"
  by (simp add: timer_loop.simps)

lemma timer_loop_less:
  assumes "e < ucast (tm_counter (timer_of w c))"
  shows "timer_loop w e c = put_timer w ((timer_of w c)\<lparr>tm_counter := tm_counter (timer_of w c) - ucast e\<rparr>) c"
proof (cases "e = 0")
  case True
  then show ?thesis by (cases w) simp_all
next
  case False
  then show ?thesis
    by (subst timer_loop.simps) (use count_down_less [OF assms] count_down_nonzero [OF assms] in simp)
qed

lemma timer_loop_all:
  assumes "e \<noteq> 0" "\<not> e < ucast (tm_counter (timer_of w c))"
  shows "timer_loop w e c = (if tst (timer_cr w c) CR_ONESHOT then underflow w c
     else timer_loop w (e - ucast (tm_counter (timer_of w c))) (underflow w c))"
  by (subst timer_loop.simps) (use assms(1) count_down_all [OF assms(2)] in \<open>simp add: underflow_def Let_def\<close>)

lemma underflow_timer:
  "timer_of w (underflow w c) =
     (if tst (timer_cr w c) CR_ONESHOT then (timer_of w c)\<lparr>tm_counter := 0, tm_running := False\<rparr>
      else reload (timer_of w c))"
  by (cases w) (simp_all add: underflow_def Let_def reload_def cia_updateIrq_def set_pending_def)


lemma ucast_left:
  fixes e :: u32
  assumes "e < ucast n"
  shows "(ucast (n - ucast e :: u16) :: u32) = ucast n - e"
proof -
  have lt: "unat e < unat n" using assms by (simp add: word_less_nat_alt)
  then have e: "unat (ucast e :: u16) = unat e"
    using unat_u16_lt [of n] by (simp add: unsigned_ucast_eq take_bit_nat_eq_self del: unat_u16_lt)
  have "unat (n - ucast e) = unat n - unat e"
    using lt e by (subst unat_sub) (simp_all add: word_le_nat_alt)
  moreover have "unat (ucast n - e :: u32) = unat n - unat e"
    using lt by (subst unat_sub) (simp_all add: word_le_nat_alt)
  ultimately show ?thesis by (simp add: word_unat_eq_iff)
qed

lemma ucast_add_32: "(ucast (a + b :: u32) :: u16) = ucast a + ucast b"
proof -
  have "unat (ucast (a + b) :: u16) = (unat a + unat b) mod 65536"
    by (simp add: unsigned_ucast_eq take_bit_eq_mod unat_word_ariths mod_mod_cancel)
  moreover have "unat (ucast a + ucast b :: u16) = (unat a + unat b) mod 65536"
    by (simp add: unsigned_ucast_eq take_bit_eq_mod unat_word_ariths mod_add_eq)
  ultimately show ?thesis by (simp add: word_unat_eq_iff)
qed

lemma put_put [simp]: "put_timer w t (put_timer w u c) = put_timer w t c"
  by (cases w) simp_all

lemma underflow_put [simp]: "underflow w (put_timer w ((timer_of w c)\<lparr>tm_counter := n\<rparr>) c) = underflow w c"
  by (simp add: underflow_def Let_def)

lemma loop_add:
  fixes a b :: u32
  assumes "unat a + unat b < 2 ^ 32" and "tm_running (timer_of w c)"
  shows "timer_loop w (a + b) c =
    (let c' = timer_loop w a c in if tm_running (timer_of w c') then timer_loop w b c' else c')"
  using assms
proof (induction "loop_size a (timer_of w c)" arbitrary: a c rule: less_induct)
  case less
  let ?n = "tm_counter (timer_of w c)"
  have ab: "unat (a + b) = unat a + unat b" using less.prems(1) unat_add_lem [of a b] by simp
  show ?case
  proof (cases "a = 0")
    case True
    then show ?thesis using less.prems(2) by simp
  next
    case a0: False
    then have ab0: "a + b \<noteq> 0" using ab by (metis add_is_0 unat_0 unat_eq_zero)
    show ?thesis
    proof (cases "a < ucast ?n")
      case True
      let ?t = "(timer_of w c)\<lparr>tm_counter := ?n - ucast a\<rparr>"
      have l: "timer_loop w a c = put_timer w ?t c" by (rule timer_loop_less [OF True])
      have u: "(ucast (?n - ucast a) :: u32) = ucast ?n - a" by (rule ucast_left [OF True])
      have un: "unat (ucast ?n - a) = unat ?n - unat a" "unat a < unat ?n"
        using True by (simp_all add: unat_sub word_le_nat_alt word_less_nat_alt)
      have "timer_loop w (a + b) c = timer_loop w b (put_timer w ?t c)"
      proof (cases "a + b < ucast ?n")
        case lt: True
        then have "b < ucast (?n - ucast a)" using u un ab by (simp add: word_less_nat_alt)
        then have b: "b < ucast (tm_counter (timer_of w (put_timer w ?t c)))" by simp
        have "(ucast (a + b) :: u16) = ucast a + ucast b" by (rule ucast_add_32)
        then show ?thesis by (simp add: timer_loop_less [OF lt] timer_loop_less [OF b] diff_diff_eq)
      next
        case ge: False
        then have nb: "\<not> b < ucast (tm_counter (timer_of w (put_timer w ?t c)))"
          using u un ab by (simp add: word_less_nat_alt)
        have b0: "b \<noteq> 0" using ge True by auto
        have left: "b - ucast (tm_counter (timer_of w (put_timer w ?t c))) = a + b - ucast ?n"
          by (simp add: u algebra_simps)
        show ?thesis unfolding timer_loop_all [OF ab0 ge] timer_loop_all [OF b0 nb] left by simp
      qed
      then show ?thesis using l less.prems(2) by (simp add: Let_def)
    next
      case False
      have un: "unat (a - ucast ?n) = unat a - unat ?n" "unat ?n \<le> unat a"
        using elapsed_drops [OF False] by blast+
      have nab: "\<not> a + b < ucast ?n" using un ab by (simp add: word_less_nat_alt)
      show ?thesis
      proof (cases "tst (timer_cr w c) CR_ONESHOT")
        case True
        then show ?thesis
          by (simp add: timer_loop_all [OF ab0 nab] timer_loop_all [OF a0 False] underflow_timer)
      next
        case cont: False
        have t: "timer_of w (underflow w c) = reload (timer_of w c)" using cont by (simp add: underflow_timer)
        have s: "loop_size (a - ucast ?n) (timer_of w (underflow w c)) < loop_size a (timer_of w c)"
          using loop_shrinks(1) [OF a0 count_down_all [OF False, symmetric]] unfolding t by simp
        have r: "tm_running (timer_of w (underflow w c))" using less.prems(2) unfolding t by (simp add: reload_def)
        have left: "a + b - ucast ?n = (a - ucast ?n) + b" by simp
        have ih: "timer_loop w ((a - ucast ?n) + b) (underflow w c) =
            (let c' = timer_loop w (a - ucast ?n) (underflow w c) in if tm_running (timer_of w c') then timer_loop w b c' else c')"
          using less.prems(1) un by (intro less.hyps [OF s _ r]) simp
        show ?thesis unfolding timer_loop_all [OF ab0 nab] timer_loop_all [OF a0 False] left ih using cont by simp
      qed
    qed
  qed
qed


text \<open>What one cycle does to a running timer. A counter found at zero is reloaded first, in no time.\<close>

definition one_cycle :: "cia_timer \<Rightarrow> 'e cia6526 \<Rightarrow> 'e cia6526" where
  "one_cycle w c =
     (let c1 = (if tm_running (timer_of w c) \<and> tm_counter (timer_of w c) = 0 then underflow w c else c); t = timer_of w c1
      in if \<not> tm_running t then c1
         else if tm_counter t = 1 then underflow w c1
         else put_timer w (t\<lparr>tm_counter := tm_counter t - 1\<rparr>) c1)"

lemma loop_1_pos:
  assumes "tm_counter (timer_of w c) \<noteq> 0"
  shows "timer_loop w 1 c = (if tm_counter (timer_of w c) = 1 then underflow w c
     else put_timer w ((timer_of w c)\<lparr>tm_counter := tm_counter (timer_of w c) - 1\<rparr>) c)"
proof (cases "tm_counter (timer_of w c) = 1")
  case True
  then show ?thesis by (subst timer_loop_all) simp_all
next
  case False
  have "unat (tm_counter (timer_of w c)) \<noteq> 0" using assms by (simp only: unat_eq_0 not_False_eq_True)
  moreover have "unat (tm_counter (timer_of w c)) \<noteq> 1"
    using False by (metis unat_1 word_unat_eq_iff)
  ultimately have "1 < unat (tm_counter (timer_of w c))" by linarith
  then have "1 < (ucast (tm_counter (timer_of w c)) :: u32)" by (simp add: word_less_nat_alt)
  then show ?thesis by (subst timer_loop_less) (simp_all add: False)
qed

lemma loop_1:
  assumes "tm_running (timer_of w c)"
  shows "timer_loop w 1 c = one_cycle w c"
proof (cases "tm_counter (timer_of w c) = 0")
  case True
  let ?u = "underflow w c"
  have l: "timer_loop w 1 c = (if tst (timer_cr w c) CR_ONESHOT then ?u else timer_loop w 1 ?u)"
    by (subst timer_loop_all) (simp_all add: True)
  have "tm_running (timer_of w ?u) = (\<not> tst (timer_cr w c) CR_ONESHOT)" using assms
    by (simp add: underflow_timer reload_def)
  moreover have "tm_counter (timer_of w ?u) \<noteq> 0" if "\<not> tst (timer_cr w c) CR_ONESHOT"
    using that by (simp add: underflow_timer)
  ultimately show ?thesis
    using loop_1_pos [of w ?u] assms True l by (auto simp: one_cycle_def Let_def)
next
  case False
  then show ?thesis using assms loop_1_pos [OF False] by (simp add: one_cycle_def Let_def)
qed

lemma one_cycle_stopped: "\<not> tm_running (timer_of w c) \<Longrightarrow> (one_cycle w ^^ n) c = c"
  by (induction n) (simp_all add: one_cycle_def)

lemma loop_cycles:
  assumes "n < 2 ^ 32" and "tm_running (timer_of w c)"
  shows "timer_loop w (of_nat n) c = (one_cycle w ^^ n) c"
  using assms
proof (induction n arbitrary: c)
  case (Suc n)
  let ?c = "one_cycle w c"
  have u: "unat (of_nat n :: u32) = n" using Suc.prems(1) by (simp add: unat_of_nat take_bit_nat_eq_self)
  have "timer_loop w (1 + of_nat n) c = (if tm_running (timer_of w ?c) then timer_loop w (of_nat n) ?c else ?c)"
    using loop_add [of 1 "of_nat n" w c] Suc.prems u loop_1 [OF Suc.prems(2)] by (simp add: Let_def)
  then show ?case
    using Suc.IH [of ?c] Suc.prems(1) one_cycle_stopped [of w ?c n] by (simp add: funpow_swap1)
qed simp

section \<open>The time of day\<close>

text \<open>The reference: the clock as the number of tenths since midnight, written in BCD.\<close>

definition bcd :: "nat \<Rightarrow> u8" where
  "bcd n = of_nat (16 * (n div 10) + n mod 10)"

definition clock_hour :: "nat \<Rightarrow> u8" where
  "clock_hour h = bcd (if h mod 12 = 0 then 12 else h mod 12) OR (if h < 12 then 0 else 0x80)"

definition clock_at :: "nat \<Rightarrow> tod_time" where
  "clock_at n = \<lparr>td_ten = of_nat (n mod 10), td_sec = bcd (n div 10 mod 60), td_min = bcd (n div 600 mod 60),
     td_hr = clock_hour (n div 36000 mod 24)\<rparr>"

lemma all_less_upt: "(\<forall>k < n. P k) \<longleftrightarrow> list_all P [0..<n]"
  by (auto simp: list_all_iff)

lemma bcdInc_60: "k < 60 \<Longrightarrow> bcdInc (bcd k) 59 = (if k = 59 then 0 else bcd (k + 1))"
proof -
  have "list_all (\<lambda>k. bcdInc (bcd k) 59 = (if k = 59 then 0 else bcd (k + 1))) [0..<60]" by code_simp
  then show "k < 60 \<Longrightarrow> ?thesis" by (simp add: list_all_iff)
qed

lemma bcd_nonzero: "k < 60 \<Longrightarrow> bcd k = 0 \<longleftrightarrow> k = 0"
proof -
  have "list_all (\<lambda>k. bcd k = 0 \<longleftrightarrow> k = 0) [0..<60]" by code_simp
  then show "k < 60 \<Longrightarrow> ?thesis" by (simp add: list_all_iff)
qed

lemma tod_hour_24: "h < 24 \<Longrightarrow> tod_hour (clock_hour h) = clock_hour ((h + 1) mod 24)"
proof -
  have "list_all (\<lambda>h. tod_hour (clock_hour h) = clock_hour ((h + 1) mod 24)) [0..<24]" by code_simp
  then show "h < 24 \<Longrightarrow> ?thesis" by (simp add: list_all_iff)
qed

lemma ten_next: "k < 10 \<Longrightarrow> (of_nat k :: u8) + 1 \<le> 9 \<longleftrightarrow> k < 9"
proof -
  have "list_all (\<lambda>k. (of_nat k :: u8) + 1 \<le> 9 \<longleftrightarrow> k < 9) [0..<10]" by code_simp
  then show "k < 10 \<Longrightarrow> ?thesis" by (simp add: list_all_iff)
qed


lemma clock_at_split:
  "clock_at n = \<lparr>td_ten = of_nat (n mod 10), td_sec = bcd (n div 10 mod 60), td_min = bcd (n div 10 div 60 mod 60),
     td_hr = clock_hour (n div 10 div 60 div 60 mod 24)\<rparr>"
  by (simp add: clock_at_def div_mult2_eq [symmetric])

lemma tod_inc_clock: "tod_inc (clock_at n) = clock_at (Suc n)"
proof -
  let ?s = "n div 10" and ?m = "n div 10 div 60" and ?h = "n div 10 div 60 div 60"
  have h: "tod_hour (clock_hour (?h mod 24)) = clock_hour (Suc ?h mod 24)"
    using tod_hour_24 [of "?h mod 24"] by (simp add: mod_Suc_eq)
  have b: "(if x mod 60 = 59 then 0 else bcd (x mod 60 + 1)) = bcd (Suc x mod 60)" for x :: nat
    by (simp add: mod_Suc bcd_def)
  have s: "bcdInc (bcd (x mod 60)) 59 = bcd (Suc x mod 60)" for x :: nat
    using bcdInc_60 [of "x mod 60"] b [of x] by simp
  have z: "bcd (Suc x mod 60) = 0 \<longleftrightarrow> Suc x mod 60 = 0" for x :: nat by (rule bcd_nonzero) simp
  have d: "Suc x mod 60 = 0 \<Longrightarrow> Suc x div 60 = Suc (x div 60)" "Suc x mod 60 \<noteq> 0 \<Longrightarrow> Suc x div 60 = x div 60"
    for x :: nat by (auto simp: div_Suc)
  show ?thesis
  proof (cases "n mod 10 = 9")
    case False
    then have "n mod 10 < 9" by presburger
    then have "(of_nat (n mod 10) :: u8) + 1 \<le> 9" by (simp add: ten_next)
    then show ?thesis using False by (simp add: clock_at_split tod_inc_def Let_def div_Suc mod_Suc add.commute)
  next
    case True
    have "\<not> (of_nat (n mod 10) :: u8) + 1 \<le> 9" using ten_next [of "n mod 10"] True by simp
    moreover have "Suc n mod 10 = 0" "Suc n div 10 = Suc ?s" using True by (simp_all add: mod_Suc div_Suc)
    ultimately show ?thesis
      using d [of ?s] d [of ?m] by (simp add: clock_at_split tod_inc_def Let_def s z h)
  qed
qed

lemma tod_inc_run: "(tod_inc ^^ k) (clock_at n) = clock_at (n + k)"
  by (induction k) (simp_all add: tod_inc_clock)

text \<open>What the clock depends on; the timers leave it alone.\<close>

definition tod_core :: "'e cia6526 \<Rightarrow> tod_time \<times> tod_time \<times> bool \<times> u64 \<times> u32 \<times> bool" where
  "tod_core c = (cia_tod c, cia_alarm c, cia_todRunning c, cia_todAccum c, cia_clockHz c, bit (cia_icrPending c) 2)"

lemma tod_core_timers [simp]:
  "tod_core (put_timer w t c) = tod_core c" "tod_core (stop_timer w c) = tod_core c"
  "tod_core (cia_updateIrq c) = tod_core c" "tod_core (set_pending (timer_icr w) c) = tod_core c"
  by (cases w; simp add: tod_core_def cia_updateIrq_def set_pending_def bit_or_iff flag_bits)+

lemma timer_loop_keeps:
  assumes "\<And>c t. Q c \<Longrightarrow> Q (put_timer w t c)" and "\<And>c. Q c \<Longrightarrow> Q (stop_timer w c)"
    and "\<And>c. Q c \<Longrightarrow> Q (cia_updateIrq (set_pending (timer_icr w) c))"
  shows "Q c \<Longrightarrow> Q (timer_loop w e c)"
proof (induction "loop_size e (timer_of w c)" arbitrary: e c rule: less_induct)
  case less
  have u: "Q (underflow w c)" using less.prems assms by (simp add: underflow_def Let_def)
  show ?case
  proof (cases "e < ucast (tm_counter (timer_of w c))")
    case True
    then show ?thesis by (simp add: timer_loop_less less.prems assms(1))
  next
    case False
    show ?thesis
    proof (cases "e = 0 \<or> tst (timer_cr w c) CR_ONESHOT")
      case True
      then show ?thesis using less.prems u timer_loop_all [OF _ False] by (cases "e = 0") simp_all
    next
      case go: False
      then have e: "e \<noteq> 0" and t: "timer_of w (underflow w c) = reload (timer_of w c)" by (simp_all add: underflow_timer)
      have "loop_size (e - ucast (tm_counter (timer_of w c))) (timer_of w (underflow w c)) < loop_size e (timer_of w c)"
        using loop_shrinks(1) [OF e count_down_all [OF False, symmetric]] unfolding t by simp
      then show ?thesis using less.hyps u go by (simp add: timer_loop_all [OF e False])
    qed
  qed
qed

lemma tod_core_loop [simp]: "tod_core (timer_loop w e c) = tod_core c"
  by (rule timer_loop_keeps [where Q = "\<lambda>d. tod_core d = tod_core c"]) simp_all

lemma tod_core_tick [simp]: "tod_core (tickTimerA n c) = tod_core c" "tod_core (tickTimerB n c) = tod_core c"
  by (simp_all add: tickTimerA_def tickTimerB_def)

lemma tod_loop_result:
  defines "P \<equiv> \<lambda>c. unat (tenth_period (cia_clockHz c))"
  shows "cia_tod (tod_loop c) = (tod_inc ^^ (unat (cia_todAccum c) div P c)) (cia_tod c) \<and>
    unat (cia_todAccum (tod_loop c)) = unat (cia_todAccum c) mod P c \<and>
    (bit (cia_icrPending (tod_loop c)) 2 \<longleftrightarrow> bit (cia_icrPending c) 2 \<or>
       (\<exists>j \<in> {1..unat (cia_todAccum c) div P c}. (tod_inc ^^ j) (cia_tod c) = cia_alarm c))"
proof (induction c rule: tod_loop.induct)
  case (1 c)
  let ?p = "tenth_period (cia_clockHz c)"
  have pos: "0 < P c" unfolding P_def by (simp add: unat_gt_0)
  show ?case
  proof (cases "cia_todAccum c \<ge> ?p")
    case False
    then have "unat (cia_todAccum c) < P c" by (simp add: P_def word_less_nat_alt not_le)
    then show ?thesis using False by (subst (1 2 3) tod_loop.simps) simp
  next
    case True
    let ?c = "tod_step (c\<lparr>cia_todAccum := cia_todAccum c - ?p\<rparr>)"
    have le: "P c \<le> unat (cia_todAccum c)" using True by (simp add: P_def word_le_nat_alt)
    have acc: "unat (cia_todAccum ?c) = unat (cia_todAccum c) - P c"
      using True by (simp add: P_def unat_sub)
    have k: "unat (cia_todAccum c) div P c = Suc (unat (cia_todAccum ?c) div P c)"
      unfolding acc using le pos by (simp add: le_div_geq)
    have m: "unat (cia_todAccum ?c) mod P c = unat (cia_todAccum c) mod P c"
      unfolding acc using le by (simp add: le_mod_geq)
    have f: "P ?c = P c" "cia_tod ?c = tod_inc (cia_tod c)" "cia_alarm ?c = cia_alarm c" by (simp_all add: P_def)
    have b: "bit (cia_icrPending ?c) 2 \<longleftrightarrow> bit (cia_icrPending c) 2 \<or> tod_inc (cia_tod c) = cia_alarm c"
      by (simp add: tod_step_def cia_updateIrq_def set_pending_def Let_def bit_or_iff flag_bits)
    have l: "tod_loop c = tod_loop ?c" using True by (subst tod_loop.simps) simp
    have e: "(\<exists>j \<in> {1..Suc x}. (tod_inc ^^ j) t = a) \<longleftrightarrow> tod_inc t = a \<or> (\<exists>j \<in> {1..x}. (tod_inc ^^ j) (tod_inc t) = a)"
      for x t a
    proof -
      have "{1..Suc x} = insert 1 (Suc ` {1..x})" by (simp add: image_Suc_atLeastAtMost atLeastAtMost_insertL)
      then show ?thesis
        by (simp only: bex_simps(5) bex_simps(7)) (simp add: funpow_Suc_right del: funpow.simps(2) image_Suc_atLeastAtMost)
    qed
    show ?thesis using 1 [OF True] unfolding l k f m b by (simp add: e [unfolded One_nat_def] funpow_swap1)
  qed
qed


section \<open>The interrupt line\<close>

text \<open>
  A shift that is complete (\<open>ICR_SP\<close>) is flagged without touching the line; every other source
  drives it at once. \<open>m\<close> holds the sources that may be pending and enabled with the line released.
\<close>

definition cia_inv :: "u8 \<Rightarrow> 'e cia6526 \<Rightarrow> bool" where
  "cia_inv m c = (\<not> bit (cia_icrPending c) 7 \<and>
     (\<forall>l. cia_irqLine c = Some l \<longrightarrow> (l \<longrightarrow> cia_icrPending c AND cia_icrMask c \<noteq> 0) \<and>
        (cia_icrPending c AND cia_icrMask c AND NOT m \<noteq> 0 \<longrightarrow> l)))"

definition irq_part :: "'e cia6526 \<Rightarrow> u8 \<times> u8 \<times> bool option" where
  "irq_part c = (cia_icrPending c, cia_icrMask c, cia_irqLine c)"

named_theorems cia_intro \<open>what keeps the interrupt line right\<close>

lemma cia_inv_part: "irq_part c = irq_part d \<Longrightarrow> cia_inv m d \<Longrightarrow> cia_inv m c"
  unfolding irq_part_def cia_inv_def prod.inject by (elim conjE) (simp only: not_False_eq_True simp_thms)

lemma and_nonzero: "x AND y AND z \<noteq> 0 \<Longrightarrow> x AND y \<noteq> (0 :: u8)"
  by (auto simp: and.assoc [symmetric])

lemma cia_updateIrq_inv: "\<not> bit (cia_icrPending c) 7 \<Longrightarrow> cia_inv m (cia_updateIrq c)"
  by (auto simp: cia_inv_def cia_updateIrq_def dest: and_nonzero)

lemma cia_inv_7: "cia_inv m c \<Longrightarrow> \<not> bit (cia_icrPending c) 7"
  by (simp add: cia_inv_def)

lemma pending_7 [simp]:
  "bit (cia_icrPending (set_pending m c)) 7 \<longleftrightarrow> bit (cia_icrPending c) 7 \<or> bit m 7"
  "bit (cia_icrPending (clr_pending m c)) 7 \<longleftrightarrow> bit (cia_icrPending c) 7 \<and> \<not> bit m 7"
  by (simp_all add: set_pending_def clr_pending_def bit_simps)

lemma small_icr [simp]:
  "\<not> bit ICR_TA 7" "\<not> bit ICR_TB 7" "\<not> bit ICR_TOD 7" "\<not> bit ICR_SP 7" "\<not> bit (0x10 :: u8) 7"
  "\<not> bit (timer_icr w) 7"
  by (cases w; simp add: flag_bits)+

lemma part_timer [simp]:
  "irq_part (put_timer w t c) = irq_part c" "irq_part (stop_timer w c) = irq_part c"
  by (cases w; simp add: irq_part_def)+

lemma pending_put [simp]: "cia_icrPending (put_timer w t c) = cia_icrPending c"
  by (cases w) simp_all

lemma inv_timer [cia_intro]:
  "cia_inv m c \<Longrightarrow> cia_inv m (put_timer w t c)" "cia_inv m c \<Longrightarrow> cia_inv m (stop_timer w c)"
  by (auto intro: cia_inv_part [where d = c])

lemma timer_loop_inv [cia_intro]: "cia_inv m c \<Longrightarrow> cia_inv m (timer_loop w e c)"
  by (rule timer_loop_keeps [where Q = "cia_inv m"]) (simp_all add: cia_intro cia_updateIrq_inv cia_inv_7)

lemma tick_timer_inv [cia_intro]: "cia_inv m c \<Longrightarrow> cia_inv m (tickTimerA n c)" "cia_inv m c \<Longrightarrow> cia_inv m (tickTimerB n c)"
  by (simp_all add: tickTimerA_def tickTimerB_def cia_intro)

lemma tod_step_inv [cia_intro]: "cia_inv m c \<Longrightarrow> cia_inv m (tod_step c)"
  by (auto simp: tod_step_def Let_def cia_inv_7 intro!: cia_updateIrq_inv intro: cia_inv_part [where d = c, rotated]
      simp: irq_part_def)

lemma inv_accum [cia_intro]: "cia_inv m c \<Longrightarrow> cia_inv m (c\<lparr>cia_todAccum := x\<rparr>)"
  by (rule cia_inv_part [where d = c]) (simp_all add: irq_part_def)

lemma tod_loop_inv [cia_intro]: "cia_inv m c \<Longrightarrow> cia_inv m (tod_loop c)"
proof (induction c rule: tod_loop.induct)
  case (1 c)
  then show ?case by (subst tod_loop.simps) (simp add: cia_intro)
qed

lemma cia_tick_inv [cia_intro]: "cia_inv m c \<Longrightarrow> cia_inv m (cia_tick n c)"
  by (simp add: cia_tick_def tickTOD_def cia_intro)


lemma part_fields [simp]:
  "irq_part (c\<lparr>cia_ext := x\<rparr>) = irq_part c" "irq_part (c\<lparr>cia_pra := v\<rparr>) = irq_part c"
  "irq_part (c\<lparr>cia_prb := v\<rparr>) = irq_part c" "irq_part (c\<lparr>cia_ddra := v\<rparr>) = irq_part c"
  "irq_part (c\<lparr>cia_ddrb := v\<rparr>) = irq_part c" "irq_part (c\<lparr>cia_ta := t\<rparr>) = irq_part c"
  "irq_part (c\<lparr>cia_tb := t\<rparr>) = irq_part c" "irq_part (c\<lparr>cia_cra := v\<rparr>) = irq_part c"
  "irq_part (c\<lparr>cia_crb := v\<rparr>) = irq_part c" "irq_part (c\<lparr>cia_sdr := v\<rparr>) = irq_part c"
  "irq_part (c\<lparr>cia_tod := d\<rparr>) = irq_part c" "irq_part (c\<lparr>cia_alarm := d\<rparr>) = irq_part c"
  "irq_part (c\<lparr>cia_latch := d\<rparr>) = irq_part c" "irq_part (c\<lparr>cia_todLatched := b\<rparr>) = irq_part c"
  "irq_part (c\<lparr>cia_todRunning := b\<rparr>) = irq_part c" "irq_part (c\<lparr>cia_flagLevel := b\<rparr>) = irq_part c"
  by (simp_all add: irq_part_def)

lemma part_write [simp]:
  "irq_part (portA_callback c) = irq_part c" "irq_part (write_tod f c) = irq_part c" "irq_part (write_todrun b c) = irq_part c"
  by (simp_all add: portA_callback_def write_tod_def write_todrun_def)

lemma sp_pending_inv [cia_intro]: "cia_inv ICR_SP c \<Longrightarrow> cia_inv ICR_SP (set_pending ICR_SP c)"
proof -
  have "(p OR ICR_SP) AND k AND NOT ICR_SP = p AND k AND NOT ICR_SP" for p k :: u8
    by (rule bit_word_eqI) (auto simp: bit_simps)
  moreover have "(p OR ICR_SP) AND k \<noteq> 0" if "p AND k \<noteq> 0" for p k :: u8
    using that by (auto simp: bit.conj_disj_distrib2 or_eq_0_iff)
  ultimately show "cia_inv ICR_SP c \<Longrightarrow> ?thesis"
    unfolding cia_inv_def using pending_7(1) [of ICR_SP c] small_icr(4) by (auto simp: set_pending_def simp del: pending_7)
qed

lemma cia_writeReg_inv [cia_intro]:
  assumes "cia_inv m c" and "m = ICR_SP \<or> r \<noteq> 0xC"
  shows "cia_inv m (cia_writeReg r x c)"
proof -
  have same: "cia_inv m d" if "irq_part d = irq_part c" for d by (rule cia_inv_part [OF that assms(1)])
  consider "r \<in> {5, 7}" | "r = 0xC" | "r = 0xD" | "r \<notin> {5, 7, 0xC, 0xD}" by blast
  then show ?thesis
  proof cases
    case 1
    then show ?thesis using cia_inv_7 [OF assms(1)] by (auto simp: cia_writeReg_def intro!: cia_updateIrq_inv)
  next
    case 2
    then have m: "m = ICR_SP" using assms(2) by simp
    have "cia_inv m (set_pending ICR_SP (c\<lparr>cia_sdr := x\<rparr>))" unfolding m by (intro cia_intro same [unfolded m]) simp
    then have "cia_inv m ((set_pending ICR_SP (c\<lparr>cia_sdr := x\<rparr>))\<lparr>cia_ext := y\<rparr>)" for y
      by (rule cia_inv_part [rotated]) simp
    then show ?thesis using 2 by (auto simp: cia_writeReg_def Let_def intro!: same)
  next
    case 3
    then show ?thesis using cia_inv_7 [OF assms(1)] by (auto simp: cia_writeReg_def intro!: cia_updateIrq_inv)
  next
    case 4
    then have "irq_part (cia_writeReg r x c) = irq_part c" by (simp add: cia_writeReg_def)
    then show ?thesis by (rule same)
  qed
qed

lemma run_on_cia_ext [simp]:
  "run_state (on_cia_ext m) c = (result m (cia_ext c), c\<lparr>cia_ext := final m (cia_ext c)\<rparr>)"
  by (simp add: on_cia_ext_def Let_def)

lemma port_part [simp]: "irq_part (final (cia_port peek d l m) c) = irq_part c"
  by (simp add: cia_port_def case_prod_beta Let_def split: option.split)

lemma cia_readReg_inv [cia_intro]:
  assumes "cia_inv m c"
  shows "cia_inv m (final (cia_readReg peek a) c)"
proof -
  have same: "cia_inv m d" if "irq_part d = irq_part c" for d by (rule cia_inv_part [OF that assms])
  show ?thesis
    using assms by (auto simp: cia_readReg_def case_prod_beta Let_def same cia_updateIrq_inv)
qed

section \<open>Runs of the device\<close>

datatype cia_op =
    CRead u32 | CPeek u32 | CWrite u32 u8 | CTick u64 | CAdvance u32 | CFlag bool | CSerial u8 | CReset

primrec cia_do :: "cia_op \<Rightarrow> 'e cia6526 \<Rightarrow> 'e cia6526" where
  "cia_do (CRead a) c = final (cia_ioRead a) c"
| "cia_do (CPeek a) c = final (cia_ioPeek a) c"
| "cia_do (CWrite a x) c = final (cia_ioWrite a x) c"
| "cia_do (CTick n) c = cia_tick n c"
| "cia_do (CAdvance n) c = cia_advanceCycles n c"
| "cia_do (CFlag l) c = flag_set l c"
| "cia_do (CSerial b) c = receiveSerialByte b c"
| "cia_do CReset c = cia_reset c"

definition cia_attached ::
  "u32 \<Rightarrow> 'e \<Rightarrow> 'e port_device option \<Rightarrow> 'e port_device option \<Rightarrow> bool option \<Rightarrow> 'e cia6526" where
  "cia_attached base e pa pb irq =
     (cia_new base e)\<lparr>cia_portADevice := pa, cia_portBDevice := pb, cia_irqLine := map_option (\<lambda>_. False) irq\<rparr>"

lemma cia_reset_inv [cia_intro]: "cia_inv m (cia_reset c)"
  by (rule cia_inv_part [where d = "c\<lparr>cia_icrPending := 0, cia_icrMask := 0, cia_irqLine := map_option (\<lambda>_. False) (cia_irqLine c)\<rparr>"])
    (auto simp: cia_reset_def Let_def irq_part_def portA_callback_def cia_inv_def)

lemma inv_flag: "cia_inv m c \<Longrightarrow> cia_inv m (c\<lparr>cia_flagLevel := x\<rparr>)"
  by (rule cia_inv_part [where d = c]) simp_all

primrec writes_sdr :: "cia_op \<Rightarrow> bool" where
  "writes_sdr (CRead a) = False"
| "writes_sdr (CPeek a) = False"
| "writes_sdr (CWrite a x) = (a AND 0xF = 0xC)"
| "writes_sdr (CTick n) = False"
| "writes_sdr (CAdvance n) = False"
| "writes_sdr (CFlag l) = False"
| "writes_sdr (CSerial b) = False"
| "writes_sdr CReset = False"

lemma cia_do_inv:
  assumes c: "cia_inv m c" and m: "m = ICR_SP \<or> \<not> writes_sdr x"
  shows "cia_inv m (cia_do x c)"
proof -
  have f: "cia_inv m (flag_set l c)" for l
    using c by (simp add: flag_set_def flagTrigger_def Let_def cia_inv_7 [OF c] cia_updateIrq_inv inv_flag)
  have r: "m = ICR_SP \<or> unat (a AND 0xF) \<noteq> 0xC" if "x = CWrite a v" for a v
    using m that by (auto simp: word_unat_eq_iff)
  show ?thesis using c f r
    by (cases x) (auto simp: cia_ioRead_def cia_ioPeek_def cia_ioWrite_def case_prod_beta cia_advanceCycles_def
        receiveSerialByte_def cia_inv_7 [OF c] intro!: cia_intro cia_updateIrq_inv)
qed

lemma cia_run_inv: "cia_inv m c \<Longrightarrow> m = ICR_SP \<or> \<not> list_ex writes_sdr xs \<Longrightarrow> cia_inv m (fold cia_do xs c)"
  by (induction xs arbitrary: c) (auto simp: cia_do_inv)

lemma cia_new_inv: "cia_inv m (cia_attached base e pa pb irq)"
  by (cases irq) (simp_all add: cia_attached_def cia_new_def cia_reset_def Let_def portA_callback_def cia_inv_def)


section \<open>Correctness\<close>

text \<open>
  C9: Through every sequence of accesses, ticks, FLAG edges, serial bytes and resets the 6526 drives
  its interrupt line correctly: an asserted line always has an enabled source pending, and an enabled
  pending source always has the line asserted, with one exception: a byte written to the serial data
  register in output mode flags the serial source and leaves the line alone, so in a run that writes
  that register the serial source may be enabled and pending with the line released. In a run that
  does not, the line is asserted exactly if an enabled source is pending.
\<close>

theorem cia_irq_coherent:
  fixes base :: u32 and e :: 'e and xs :: "cia_op list" and irq :: "bool option"
    and pa pb :: "'e port_device option"
  defines "c \<equiv> fold cia_do xs (cia_attached base e pa pb irq)"
  shows "case cia_irqLine c of None \<Rightarrow> True
    | Some l \<Rightarrow>
        if list_ex writes_sdr xs then
          if l then \<exists>n < 7. bit (cia_icrPending c) n \<and> bit (cia_icrMask c) n
          else \<not> (\<exists>n < 7. n \<noteq> 3 \<and> bit (cia_icrPending c) n \<and> bit (cia_icrMask c) n)
        else l = (\<exists>n < 7. bit (cia_icrPending c) n \<and> bit (cia_icrMask c) n)"
proof -
  have inv: "cia_inv (if list_ex writes_sdr xs then ICR_SP else 0) c"
    unfolding c_def by (rule cia_run_inv [OF cia_new_inv]) simp
  have l7: "n < 7" if "bit (cia_icrPending c) n" for n
    using that cia_inv_7 [OF inv] bit_imp_le_length [OF that] by (cases "n = 7") auto
  have t: "\<exists>n < 7. bit (cia_icrPending c) n \<and> bit (cia_icrMask c) n" if "cia_irqLine c = Some True"
  proof -
    have "cia_icrPending c AND cia_icrMask c \<noteq> 0" using inv that unfolding cia_inv_def by blast
    then show ?thesis using l7 by (auto simp: bit_eq_iff bit_and_iff)
  qed
  have f: "\<not> (\<exists>n < 7. \<not> bit (if list_ex writes_sdr xs then ICR_SP else 0 :: u8) n \<and>
      bit (cia_icrPending c) n \<and> bit (cia_icrMask c) n)" (is "\<not> (\<exists>n < 7. \<not> bit ?m n \<and> _ n)") if "cia_irqLine c = Some False"
  proof
    assume "\<exists>n < 7. \<not> bit ?m n \<and> bit (cia_icrPending c) n \<and> bit (cia_icrMask c) n"
    then obtain n where n: "n < 7" "\<not> bit ?m n" "bit (cia_icrPending c) n" "bit (cia_icrMask c) n" by blast
    then have "bit (cia_icrPending c AND cia_icrMask c AND NOT ?m) n" by (simp add: bit_and_iff bit_not_iff)
    moreover have "cia_icrPending c AND cia_icrMask c AND NOT ?m = 0" using inv that unfolding cia_inv_def by blast
    ultimately show False by simp
  qed
  have sp: "bit ICR_SP n \<longleftrightarrow> n = 3" for n by (auto simp: flag_bits)
  have f': "\<not> (\<exists>n < 7. (list_ex writes_sdr xs \<longrightarrow> n \<noteq> 3) \<and> bit (cia_icrPending c) n \<and> bit (cia_icrMask c) n)"
    if "cia_irqLine c = Some False"
    using f [OF that] by (cases "list_ex writes_sdr xs") (simp_all only: sp if_True if_False bit_0_eq bot_fun_def bot_bool_def simp_thms)
  show ?thesis using t f' by (cases "cia_irqLine c") (auto split: if_splits)
qed

text \<open>
  The exception is real: with the serial interrupt enabled and the port in output mode, a byte
  written is flagged complete at once, and the line stays low until something else drives it.
\<close>

theorem cia_sdr_leaves_line:
  "let c = fold cia_do [CWrite 0xDC0D 0x88, CWrite 0xDC0E 0x40, CWrite 0xDC0C 0x55] (cia_attached 0xDC00 () None None (Some False))
   in cia_icrPending c = ICR_SP \<and> cia_icrMask c = ICR_SP \<and> cia_irqLine c = Some False"
  by (simp add: cia_attached_def cia_new_def cia_reset_def Let_def portA_callback_def cia_ioWrite_def
      cia_writeReg_def set_pending_def cia_updateIrq_def tst_def)

text \<open>
  C6: A timer is exact however its time is handed to it: for timer A, and for timer B when it does
  not count timer A, running n cycles (fewer than 2^32) in one call is the same as n calls of one
  cycle, each of which counts down by one, or underflows (flags, interrupts, then stops or reloads);
  the loop always ends, for every latch and counter, zero included. Timer B in its timer A mode
  takes one such cycle per call, whatever the length of the call, while timer A's flag is pending, and
  stands still otherwise.
\<close>

theorem cia_timer_cycles:
  assumes "n < 2 ^ 32"
  shows "tickTimerA (of_nat n) c = (one_cycle TA ^^ n) c \<and>
    tickTimerB (of_nat n) c =
      (if cia_crb c AND 0x60 \<noteq> 0x40 then (one_cycle TB ^^ n) c
       else if bit (cia_icrPending c) 0 then one_cycle TB c else c)"
proof -
  have u: "(ucast (of_nat n :: u64) :: u32) = of_nat n"
    by (rule bit_word_eqI) (simp add: bit_simps)
  have p: "tst (cia_icrPending c) ICR_TA \<longleftrightarrow> bit (cia_icrPending c) 0"
    by (auto simp: tst_def and_one_eq odd_iff_mod_2_eq_one bit_0)
  show ?thesis
    using loop_cycles [OF assms, of TA c] loop_cycles [OF assms, of TB c]
      one_cycle_stopped [of TA c n] one_cycle_stopped [of TB c n] loop_1 [of TB c] one_cycle_stopped [of TB c 1]
    by (simp add: tickTimerA_def tickTimerB_def u p)
qed

text \<open>
  C7: The time-of-day clock keeps time: started at any time of day it advances by one tenth for every
  whole period of cycles received, carries the remainder over, rolls over seconds, minutes, hours and
  AM/PM in BCD, and flags the alarm exactly if the alarm time is among the times passed.
\<close>

theorem cia_clock_keeps_time:
  assumes "cia_todRunning c" and "cia_tod c = clock_at n" and "unat (cia_todAccum c) + unat cycles < 2 ^ 64"
  shows "let total = unat (cia_todAccum c) + unat cycles; P = unat (tenth_period (cia_clockHz c)); d = cia_tick cycles c
    in cia_tod d = clock_at (n + total div P) \<and> unat (cia_todAccum d) = total mod P \<and>
      (bit (cia_icrPending d) 2 \<longleftrightarrow> bit (cia_icrPending c) 2 \<or> (\<exists>j \<in> {1..total div P}. clock_at (n + j) = cia_alarm c))"
proof -
  define b where "b = tickTimerB cycles (tickTimerA cycles c)"
  have core: "tod_core b = tod_core c" by (simp add: b_def)
  then have f: "cia_tod b = clock_at n" "cia_alarm b = cia_alarm c" "cia_todRunning b" "cia_todAccum b = cia_todAccum c"
      "cia_clockHz b = cia_clockHz c" "bit (cia_icrPending b) 2 = bit (cia_icrPending c) 2"
    using assms(1,2) by (simp_all add: tod_core_def)
  have u: "unat (cia_todAccum c + cycles) = unat (cia_todAccum c) + unat cycles"
    using assms(3) unat_add_lem [of "cia_todAccum c" cycles] by simp
  show ?thesis
    using tod_loop_result [of "b\<lparr>cia_todAccum := cia_todAccum c + cycles\<rparr>"] f
    unfolding Let_def cia_tick_def tickTOD_def b_def [symmetric] by (simp add: u tod_inc_run)
qed

theorem cia_clock_keeps_time_witness:
  "let c = cia_new 0xDC00 () in cia_tod c = clock_at 36000 \<and>
     cia_tod (cia_tick 1022720 c) = clock_at 36010 \<and> cia_tod (cia_tick 1022719 c) = clock_at 36009"
proof -
  have c: "cia_todRunning (cia_new 0xDC00 ())" "cia_todAccum (cia_new 0xDC00 ()) = 0" "cia_clockHz (cia_new 0xDC00 ()) = 1022727"
      "cia_tod (cia_new 0xDC00 ()) = clock_at 36000"
    by (simp_all add: cia_new_def cia_reset_def Let_def portA_callback_def tod_one_def clock_at_def bcd_def clock_hour_def)
  have p: "unat (tenth_period 1022727) = 102272" by (simp add: tenth_period_def)
  show ?thesis
    using cia_clock_keeps_time [OF c(1,4), of 1022720] cia_clock_keeps_time [OF c(1,4), of 1022719] c p
    by (simp add: Let_def)
qed

theorem cia_timer_cycles_witness:
  "let c = (cia_new 0xDC00 ())\<lparr>cia_ta := \<lparr>tm_latch = 5, tm_counter = 0, tm_running = True\<rparr>\<rparr>
   in tickTimerA 12 c = (one_cycle TA ^^ 12) c"
  unfolding Let_def by (rule cia_timer_cycles [of 12, THEN conjunct1, simplified])

text \<open>
  Reading the interrupt control register acknowledges: the value shows every pending source, bit 7
  exactly when one of them is enabled, and afterwards nothing is pending and the line is released.
\<close>

theorem cia_icr_acknowledges:
  assumes "cia_inv m c" and "a AND NOT 0xF = cia_baseAddr c" and "a AND 0xF = 0xD"
  shows "\<exists>v. result (cia_ioRead a) c = Some v \<and> v AND 0x7F = cia_icrPending c \<and>
    (bit v 7 \<longleftrightarrow> cia_icrPending c AND cia_icrMask c \<noteq> 0) \<and>
    cia_icrPending (final (cia_ioRead a) c) = 0 \<and> cia_irqLine (final (cia_ioRead a) c) \<noteq> Some True"
proof -
  have "bit x k \<Longrightarrow> k < 8" for x :: u8 and k using bit_imp_le_length [of x k] by simp
  then have k: "k < 7" if "bit (cia_icrPending c) k" for k
    using that cia_inv_7 [OF assms(1)] by (cases "k = 7") fastforce+
  have v: "icr_value c AND 0x7F = cia_icrPending c"
    by (rule bit_word_eqI) (auto simp: icr_value_def bit_simps flag_bits dest: k)
  have b: "bit (icr_value c) 7 \<longleftrightarrow> cia_icrPending c AND cia_icrMask c \<noteq> 0"
    using cia_inv_7 [OF assms(1)] by (simp add: icr_value_def bit_simps flag_bits tst_def)
  have r: "run_state (cia_ioRead a) c = (Some (icr_value c), cia_updateIrq (c\<lparr>cia_icrPending := 0\<rparr>))"
    using assms(2,3) by (simp add: cia_ioRead_def cia_readReg_def case_prod_beta)
  show ?thesis unfolding r using v b by (auto simp: cia_updateIrq_def)
qed

theorem cia_icr_acknowledges_witness:
  "let c = fold cia_do [CWrite 0xDC0D 0x90, CFlag False] (cia_attached 0xDC00 () None None (Some False))
   in cia_irqLine c = Some True \<and> result (cia_ioRead 0xDC0D) c = Some 0x90 \<and>
      cia_irqLine (final (cia_ioRead 0xDC0D) c) \<noteq> Some True"
proof -
  define c where "c = fold cia_do [CWrite 0xDC0D 0x90, CFlag False] (cia_attached 0xDC00 () None None (Some False))"
  have i: "cia_inv ICR_SP c" unfolding c_def by (rule cia_run_inv [OF cia_new_inv]) simp
  have f: "cia_baseAddr c = 0xDC00" "cia_icrPending c = 0x10" "cia_irqLine c = Some True" "cia_icrMask c = 0x10"
    by (simp_all add: c_def cia_attached_def cia_new_def cia_reset_def Let_def portA_callback_def cia_ioWrite_def
        cia_writeReg_def flag_set_def flagTrigger_def set_pending_def cia_updateIrq_def tst_def)
  have r: "result (cia_ioRead 0xDC0D) c = Some 0x90"
    by (simp add: cia_ioRead_def cia_readReg_def case_prod_beta f icr_value_def tst_def)
  show ?thesis
    using cia_icr_acknowledges [OF i, where a = "0xDC0D"] f r unfolding Let_def c_def [symmetric] by simp
qed

text \<open>
  Timer B in its timer A mode counts ticks of the machine, not underflows: with timer A stopped
  and its flag left unread, every tick takes one from timer B until it underflows in turn.
\<close>

theorem cia_cascade_counts_ticks:
  "let c = (cia_new 0xDC00 ())\<lparr>cia_icrPending := ICR_TA, cia_crb := 0x41, cia_todRunning := False,
         cia_tb := \<lparr>tm_latch = 9, tm_counter = 3, tm_running = True\<rparr>\<rparr>
   in \<not> tm_running (cia_ta c) \<and> tm_counter (cia_tb (cia_tick 1 c)) = 2 \<and>
      tm_counter (cia_tb (cia_tick 1 (cia_tick 1 c))) = 1 \<and>
      bit (cia_icrPending (cia_tick 1 (cia_tick 1 (cia_tick 1 c)))) 1"
  by (simp add: cia_new_def cia_reset_def Let_def portA_callback_def cia_tick_def tickTimerA_def tickTimerB_def
      timer_zero_def tickTOD_def tst_def loop_1_pos underflow_def set_pending_def cia_updateIrq_def reload_def bit_simps
      flag_bits)

end
