(* ===== verification/C64Pla.thy ===== *)
theory C64Pla
  imports Cpu6510 IoRegistry
begin

text \<open>
  The programmable logic array of the C64 (\<open>plugins/devices/c64_pla/main/c64_pla.h\<close>, \<open>c64_pla.cpp\<close>):
  it decides from the processor port's lines and the cartridge's two lines which memory answers. The
  configuration sets are the bit masks of the code; the reference is the memory map of its header
  comment. A line is the level it currently has, \<open>None\<close> if not connected.
\<close>

section \<open>The chip\<close>

record c64_pla =
  pla_loram :: "bool option"
  pla_hiram :: "bool option"
  pla_charen :: "bool option"
  pla_basicRom :: "(u32 \<Rightarrow> u8) option"
  pla_basicSize :: u32
  pla_kernalRom :: "(u32 \<Rightarrow> u8) option"
  pla_kernalSize :: u32
  pla_charRom :: "(u32 \<Rightarrow> u8) option"
  pla_charSize :: u32
  pla_roml :: "(u32 \<Rightarrow> u8) option"
  pla_romlSize :: u32
  pla_romh :: "(u32 \<Rightarrow> u8) option"
  pla_romhSize :: u32
  pla_ram :: "(u32 \<Rightarrow> u8) option"
  pla_exrom :: bool
  pla_game :: bool

definition pla_new :: c64_pla where
  "pla_new = \<lparr>pla_loram = None, pla_hiram = None, pla_charen = None, pla_basicRom = None, pla_basicSize = 0,
     pla_kernalRom = None, pla_kernalSize = 0, pla_charRom = None, pla_charSize = 0, pla_roml = None,
     pla_romlSize = 0, pla_romh = None, pla_romhSize = 0, pla_ram = None, pla_exrom = False, pla_game = False\<rparr>"

definition pla_setSignals :: "bool option \<Rightarrow> bool option \<Rightarrow> bool option \<Rightarrow> c64_pla \<Rightarrow> c64_pla" where
  "pla_setSignals l h c p = p\<lparr>pla_loram := l, pla_hiram := h, pla_charen := c\<rparr>"

definition pla_setSignalLine :: "string \<Rightarrow> bool option \<Rightarrow> c64_pla \<Rightarrow> c64_pla" where
  "pla_setSignalLine n line p = (if n = ''loram'' then p\<lparr>pla_loram := line\<rparr>
     else if n = ''hiram'' then p\<lparr>pla_hiram := line\<rparr> else if n = ''charen'' then p\<lparr>pla_charen := line\<rparr> else p)"

definition pla_setBasicRom :: "(u32 \<Rightarrow> u8) option \<Rightarrow> u32 \<Rightarrow> c64_pla \<Rightarrow> c64_pla" where
  "pla_setBasicRom rom n p = p\<lparr>pla_basicRom := rom, pla_basicSize := n\<rparr>"

definition pla_setKernalRom :: "(u32 \<Rightarrow> u8) option \<Rightarrow> u32 \<Rightarrow> c64_pla \<Rightarrow> c64_pla" where
  "pla_setKernalRom rom n p = p\<lparr>pla_kernalRom := rom, pla_kernalSize := n\<rparr>"

definition pla_setCharRom :: "(u32 \<Rightarrow> u8) option \<Rightarrow> u32 \<Rightarrow> c64_pla \<Rightarrow> c64_pla" where
  "pla_setCharRom rom n p = p\<lparr>pla_charRom := rom, pla_charSize := n\<rparr>"

definition pla_setRamData :: "(u32 \<Rightarrow> u8) option \<Rightarrow> c64_pla \<Rightarrow> c64_pla" where
  "pla_setRamData ram p = p\<lparr>pla_ram := ram\<rparr>"

definition pla_setCartridgePort ::
  "(u32 \<Rightarrow> u8) option \<Rightarrow> u32 \<Rightarrow> (u32 \<Rightarrow> u8) option \<Rightarrow> u32 \<Rightarrow> bool \<Rightarrow> bool \<Rightarrow> c64_pla \<Rightarrow> c64_pla" where
  "pla_setCartridgePort roml rl romh rh exrom game p =
     p\<lparr>pla_roml := roml, pla_romlSize := rl, pla_romh := romh, pla_romhSize := rh, pla_exrom := exrom, pla_game := game\<rparr>"

definition pla_line :: "bool option \<Rightarrow> bool" where
  "pla_line l = (case l of Some b \<Rightarrow> b | None \<Rightarrow> True)"

definition pla_config :: "c64_pla \<Rightarrow> nat" where
  "pla_config p = (if pla_line (pla_loram p) then 1 else 0) OR (if pla_line (pla_hiram p) then 2 else 0) OR
     (if pla_line (pla_charen p) then 4 else 0) OR (if pla_exrom p then 8 else 0) OR (if pla_game p then 16 else 0)"

definition KERNAL_SET :: u32 where "KERNAL_SET = 0xCC00CCCC"
definition BASIC_SET :: u32 where "BASIC_SET = 0x00008888"
definition CHARROM_SET :: u32 where "CHARROM_SET = 0x0C000E0E"
definition IO_SET :: u32 where "IO_SET = 0xE0FFE0E0"
definition ROML_SET :: u32 where "ROML_SET = 0x88FF8800"
definition ROMH_A_SET :: u32 where "ROMH_A_SET = 0xCC000000"
definition ULTIMAX_SET :: u32 where "ULTIMAX_SET = 0x00FF0000"

definition in_set :: "u32 \<Rightarrow> nat \<Rightarrow> bool" where
  "in_set s c \<longleftrightarrow> drop_bit c s AND 1 \<noteq> 0"

definition romByte :: "(u32 \<Rightarrow> u8) option \<Rightarrow> u32 \<Rightarrow> u32 \<Rightarrow> u8" where
  "romByte rom n off = (case rom of Some r \<Rightarrow> if off < n then r off else 0xFF | None \<Rightarrow> 0xFF)"

definition pla_ramByte :: "c64_pla \<Rightarrow> u32 \<Rightarrow> u8 option" where
  "pla_ramByte p addr = map_option (\<lambda>r. r addr) (pla_ram p)"

definition pla_ioRead :: "u32 \<Rightarrow> c64_pla \<Rightarrow> u8 option" where
  "pla_ioRead addr0 p =
     (let addr = addr0 AND 0xFFFF; c = pla_config p; ultimax = in_set ULTIMAX_SET c; ram = pla_ramByte p addr
      in if addr < 0x1000 then None
         else if addr < 0x8000 then (if ultimax then Some 0xFF else ram)
         else if addr < 0xA000 then
           (if in_set ROML_SET c then Some (romByte (pla_roml p) (pla_romlSize p) (addr - 0x8000)) else ram)
         else if addr < 0xC000 then
           (if in_set BASIC_SET c then Some (romByte (pla_basicRom p) (pla_basicSize p) (addr - 0xA000))
            else if in_set ROMH_A_SET c then Some (romByte (pla_romh p) (pla_romhSize p) (addr - 0xA000))
            else if ultimax then Some 0xFF else ram)
         else if addr < 0xD000 then (if ultimax then Some 0xFF else ram)
         else if addr < 0xE000 then
           (if in_set IO_SET c then None
            else (case pla_charRom p of
                Some r \<Rightarrow> if in_set CHARROM_SET c then Some (r ((addr - 0xD000) AND (pla_charSize p - 1))) else ram
              | None \<Rightarrow> ram))
         else if in_set KERNAL_SET c then Some (romByte (pla_kernalRom p) (pla_kernalSize p) (addr - 0xE000))
         else if ultimax then Some (romByte (pla_romh p) (pla_romhSize p) (addr - 0xE000))
         else ram)"

definition pla_ioWrite :: "u32 \<Rightarrow> u8 \<Rightarrow> c64_pla \<Rightarrow> bool \<times> c64_pla" where
  "pla_ioWrite addr0 val p =
     (let addr = addr0 AND 0xFFFF; c = pla_config p
      in if addr < 0x1000 then (False, p)
         else if in_set ULTIMAX_SET c then (\<not> (addr \<ge> 0xD000 \<and> addr < 0xE000), p)
         else (case pla_ram p of
             Some r \<Rightarrow> if addr \<ge> 0xD000 \<and> addr < 0xE000 \<and> \<not> in_set IO_SET c
                then (True, p\<lparr>pla_ram := Some (r(addr := val))\<rparr>) else (False, p)
           | None \<Rightarrow> (False, p)))"

definition pla_handler :: "nat \<Rightarrow> c64_pla io_handler" where
  "pla_handler i = \<lparr>ioh_id = i, ioh_name = ''C64PLA'', ioh_base = 0x1000, ioh_read = (\<lambda>a. gets (pla_ioRead a)),
     ioh_peek = (\<lambda>a. gets (pla_ioRead a)), ioh_write = (\<lambda>a v. State_Monad.State (pla_ioWrite a v)),
     ioh_reset = (\<lambda>p. p), ioh_tick = (\<lambda>_ p. p), ioh_isHaltRequested = (\<lambda>_. False)\<rparr>"

section \<open>The documented memory map\<close>

datatype pla_target = Unclaimed | Open | Ram | RomLow | RomHigh | Basic | CharRom | IoChips | Kernal

definition documented_target :: "bool \<Rightarrow> bool \<Rightarrow> bool \<Rightarrow> bool \<Rightarrow> bool \<Rightarrow> u32 \<Rightarrow> pla_target" where
  "documented_target loram hiram charen exrom game a =
     (let ultimax = game \<and> \<not> exrom; game16 = game \<and> exrom
      in if a < 0x1000 then Unclaimed
         else if a < 0x8000 then (if ultimax then Open else Ram)
         else if a < 0xA000 then (if ultimax \<or> exrom \<and> loram \<and> hiram then RomLow else Ram)
         else if a < 0xC000 then
           (if ultimax then Open else if game16 \<and> hiram then RomHigh
            else if loram \<and> hiram \<and> \<not> game then Basic else Ram)
         else if a < 0xD000 then (if ultimax then Open else Ram)
         else if a < 0xE000 then
           (if ultimax \<or> charen \<and> (loram \<or> hiram) then IoChips
            else if \<not> charen \<and> (hiram \<or> loram \<and> \<not> game16) then CharRom else Ram)
         else if ultimax then RomHigh else if hiram then Kernal else Ram)"

definition target_read :: "c64_pla \<Rightarrow> u32 \<Rightarrow> pla_target \<Rightarrow> u8 option" where
  "target_read p a t = (case t of
       Unclaimed \<Rightarrow> None | IoChips \<Rightarrow> None | Open \<Rightarrow> Some 0xFF
     | Ram \<Rightarrow> pla_ramByte p a
     | RomLow \<Rightarrow> Some (romByte (pla_roml p) (pla_romlSize p) (a - 0x8000))
     | RomHigh \<Rightarrow> Some (romByte (pla_romh p) (pla_romhSize p) (a - (if a < 0xC000 then 0xA000 else 0xE000)))
     | Basic \<Rightarrow> Some (romByte (pla_basicRom p) (pla_basicSize p) (a - 0xA000))
     | Kernal \<Rightarrow> Some (romByte (pla_kernalRom p) (pla_kernalSize p) (a - 0xE000))
     | CharRom \<Rightarrow> (case pla_charRom p of Some r \<Rightarrow> Some (r ((a - 0xD000) AND (pla_charSize p - 1))) | None \<Rightarrow> pla_ramByte p a))"

section \<open>Correctness\<close>

text \<open>Membership in the masks, over the five lines.\<close>

definition config_of :: "bool \<Rightarrow> bool \<Rightarrow> bool \<Rightarrow> bool \<Rightarrow> bool \<Rightarrow> nat" where
  "config_of l h c e g = (if l then 1 else 0) OR (if h then 2 else 0) OR (if c then 4 else 0) OR
     (if e then 8 else 0) OR (if g then 16 else 0)"

lemma masks:
  "in_set ULTIMAX_SET (config_of l h c e g) \<longleftrightarrow> g \<and> \<not> e"
  "in_set KERNAL_SET (config_of l h c e g) \<longleftrightarrow> h \<and> \<not> (g \<and> \<not> e)"
  "in_set BASIC_SET (config_of l h c e g) \<longleftrightarrow> l \<and> h \<and> \<not> g"
  "in_set ROML_SET (config_of l h c e g) \<longleftrightarrow> (g \<and> \<not> e) \<or> e \<and> l \<and> h"
  "in_set ROMH_A_SET (config_of l h c e g) \<longleftrightarrow> g \<and> e \<and> h"
  "in_set IO_SET (config_of l h c e g) \<longleftrightarrow> (g \<and> \<not> e) \<or> c \<and> (l \<or> h)"
  "in_set CHARROM_SET (config_of l h c e g) \<longleftrightarrow> \<not> (g \<and> \<not> e) \<and> \<not> c \<and> (h \<or> l \<and> \<not> (g \<and> e))"
  by (cases l; cases h; cases c; cases e; cases g;
      simp add: config_of_def in_set_def ULTIMAX_SET_def KERNAL_SET_def BASIC_SET_def ROML_SET_def ROMH_A_SET_def
        IO_SET_def CHARROM_SET_def)+

lemma pla_config_of:
  "pla_config p = config_of (pla_line (pla_loram p)) (pla_line (pla_hiram p)) (pla_line (pla_charen p)) (pla_exrom p) (pla_game p)"
  by (simp add: pla_config_def config_of_def)

lemma pla_read_target:
  "pla_ioRead a p = target_read p (a AND 0xFFFF)
     (documented_target (pla_line (pla_loram p)) (pla_line (pla_hiram p)) (pla_line (pla_charen p)) (pla_exrom p)
        (pla_game p) (a AND 0xFFFF))"
  unfolding pla_ioRead_def documented_target_def target_read_def pla_config_of masks Let_def
  by (simp split: option.split)

text \<open>
  C12: in all 32 configurations and at every address the configuration masks of the code answer with
  exactly the memory that the documented memory map names: RAM, one of the ROMs, the I/O chips or
  the open bus.
\<close>

theorem pla_map_documented:
  "pla_ioRead a p = target_read p (a AND 0xFFFF)
     (documented_target (pla_line (pla_loram p)) (pla_line (pla_hiram p)) (pla_line (pla_charen p)) (pla_exrom p)
        (pla_game p) (a AND 0xFFFF))"
  by (rule pla_read_target)

text \<open>
  Together with the processor port: whatever the program wrote through the port bus, the memory
  map in force is the documented one for the three low bits it reads at address 1 and the two lines
  of the cartridge.
\<close>

theorem c64_banking_follows_port:
  fixes real :: "port6510 \<Rightarrow> 'b ibus" and ws :: "(u32 \<times> u8) list"
    and q :: c64_pla and a :: u32
  assumes "port_inv (po_port b)"
  defines "b' \<equiv> write_all (port_ibus real) ws b"
  defines "v \<equiv> result (ib_read8 (port_ibus real) 1) b'"
  defines "p \<equiv> pla_setSignals (Some (pt_loram (po_port b'))) (Some (pt_hiram (po_port b'))) (Some (pt_charen (po_port b'))) q"
  shows "pla_ioRead a p = target_read p (a AND 0xFFFF)
    (documented_target (bit v 0) (bit v 1) (bit v 2) (pla_exrom q) (pla_game q) (a AND 0xFFFF))"
proof -
  have inv: "port_inv (po_port b')" unfolding b'_def by (rule port_inv_writes [OF assms(1)])
  have v: "v = portRead (po_port b')" by (simp add: v_def port_ops)
  have l: "pla_line (pla_loram p) = bit v 0" "pla_line (pla_hiram p) = bit v 1" "pla_line (pla_charen p) = bit v 2"
    "pla_exrom p = pla_exrom q" "pla_game p = pla_game q"
    using port_line_bits [OF inv] by (simp_all add: p_def v pla_setSignals_def pla_line_def)
  show ?thesis using pla_read_target [of a p] unfolding l .
qed

text \<open>With $35 in the port (HIRAM low), KERNAL and BASIC make room for RAM and the I/O chips stay.\<close>

theorem c64_banking_follows_port_witness:
  "let b' = write_all (port_ibus (\<lambda>_. flat_ibus)) [(0, 0x2F), (1, 0x35)] c64_bus; t = po_port b';
     q = pla_new\<lparr>pla_ram := Some (\<lambda>a. ucast a), pla_kernalRom := Some (\<lambda>_. 0), pla_kernalSize := 0x2000\<rparr>;
     p = pla_setSignals (Some (pt_loram t)) (Some (pt_hiram t)) (Some (pt_charen t)) q
   in pla_ioRead 0xE012 p = Some 0x12 \<and> pla_ioRead 0xD020 p = None"
proof -
  define b' where "b' = write_all (port_ibus (\<lambda>_. flat_ibus)) [(0, 0x2F), (1, 0x35)] c64_bus"
  define v where "v = result (ib_read8 (port_ibus (\<lambda>_. flat_ibus)) 1) b'"
  have i: "port_inv (po_port c64_bus)" by (simp add: c64_bus_def)
  have v: "bit v 0" "\<not> bit v 1" "bit v 2"
    by (simp_all add: v_def b'_def port_ops ddrWrite_def dataWrite_def updateSignals_def portRead_def c64_bus_def
        port_new_def bit_simps flag_bits Let_def)
  define q where "q = pla_new\<lparr>pla_ram := Some (\<lambda>a. ucast a), pla_kernalRom := Some (\<lambda>_. 0), pla_kernalSize := 0x2000\<rparr>"
  note B = c64_banking_follows_port [OF i, where real = "\<lambda>_. flat_ibus" and ws = "[(0, 0x2F), (1, 0x35)]"
      and q = q, folded b'_def v_def]
  have "documented_target (bit v 0) (bit v 1) (bit v 2) (pla_exrom q) (pla_game q) (0xE012 AND 0xFFFF) = Ram"
    "documented_target (bit v 0) (bit v 1) (bit v 2) (pla_exrom q) (pla_game q) (0xD020 AND 0xFFFF) = IoChips"
    using v by (simp_all add: documented_target_def q_def pla_new_def)
  then show ?thesis
    using B [where a = "0xE012"] B [where a = "0xD020"] unfolding Let_def b'_def [symmetric] q_def [symmetric]
    by (simp only: target_read_def pla_target.case) (simp add: pla_ramByte_def pla_setSignals_def q_def pla_new_def)
qed

end
