(* ===== verification/Riot6532.thy ===== *)
theory Riot6532
  imports Prelude
begin

text \<open>
  The MOS 6532 RIOT of the Atari 2600 (\<open>plugins/devices/riot6532/main/riot6532.h\<close>,
  \<open>riot6532.cpp\<close>): RAM, two ports, the interval timer that is brought up to date lazily, and the PA7
  edge flag. The pins of a port are the byte its callback currently returns, \<open>None\<close> without one.
\<close>

section \<open>The chip\<close>

record riot =
  ri_ram :: "nat \<Rightarrow> u8"
  ri_timer :: u8
  ri_divider :: u32
  ri_shift :: nat
  ri_subTimer :: u32
  ri_wrapped :: bool
  ri_lastCycle :: u64
  ri_ddrA :: u8
  ri_ddrB :: u8
  ri_outA :: u8
  ri_outB :: u8
  ri_flags :: u8
  ri_edgePositive :: bool
  ri_pa7Sync :: bool
  ri_pa7Stable :: bool
  ri_portA :: "u8 option"
  ri_portB :: "u8 option"

abbreviation TIMER_BIT :: u8 where "TIMER_BIT \<equiv> 0x80"
abbreviation PA7_BIT :: u8 where "PA7_BIT \<equiv> 0x40"

definition riot_reset :: "riot \<Rightarrow> riot" where
  "riot_reset r = r\<lparr>ri_ram := (\<lambda>_. 0), ri_timer := 0xAA, ri_divider := 1024, ri_shift := 10, ri_subTimer := 0,
     ri_wrapped := False, ri_ddrA := 0, ri_ddrB := 0, ri_outA := 0, ri_outB := 0, ri_flags := 0,
     ri_edgePositive := False, ri_pa7Sync := True, ri_pa7Stable := True\<rparr>"

definition riot_new :: riot where
  "riot_new = riot_reset \<lparr>ri_ram = (\<lambda>_. 0), ri_timer = 0, ri_divider = 1024, ri_shift = 10, ri_subTimer = 0,
     ri_wrapped = False, ri_lastCycle = 0, ri_ddrA = 0, ri_ddrB = 0, ri_outA = 0, ri_outB = 0, ri_flags = 0,
     ri_edgePositive = False, ri_pa7Sync = True, ri_pa7Stable = True, ri_portA = None, ri_portB = None\<rparr>"

definition portAPins :: "riot \<Rightarrow> u8" where
  "portAPins r = (case ri_portA r of Some v \<Rightarrow> v | None \<Rightarrow> 0xFF)"

definition pa7 :: "riot \<Rightarrow> bool" where
  "pa7 r = (if tst (ri_ddrA r) 0x80 then tst (ri_outA r) 0x80 else tst (portAPins r) 0x80)"

text \<open>The timer part of \<open>sync\<close>, with the cycles left over after the interval count.\<close>

definition count_interval :: "u32 \<Rightarrow> u32 \<Rightarrow> riot \<Rightarrow> u32 \<times> riot" where
  "count_interval cycles sub r =
     (if tst (ri_flags r) TIMER_BIT then (cycles, r)
      else let ticks = drop_bit (ri_shift r) (cycles + sub)
        in if ticks > ucast (ri_timer r)
           then let left = cycles - (push_bit (ri_shift r) (ucast (ri_timer r) + 1) - sub)
             in (left, r\<lparr>ri_wrapped := (left = 0), ri_timer := 0xFF, ri_flags := ri_flags r OR TIMER_BIT\<rparr>)
           else (0, r\<lparr>ri_timer := ucast (ucast (ri_timer r) - ticks)\<rparr>))"

definition count_wrapped :: "u32 \<Rightarrow> riot \<Rightarrow> riot" where
  "count_wrapped cycles r =
     (if tst (ri_flags r) TIMER_BIT
      then let t = ucast (ucast (ri_timer r) - cycles) in r\<lparr>ri_timer := t, ri_wrapped := (t = 0xFF)\<rparr>
      else r)"

definition sync_timer :: "u32 \<Rightarrow> riot \<Rightarrow> riot" where
  "sync_timer cycles r =
     (let sub = ri_subTimer r;
          r1 = r\<lparr>ri_wrapped := False, ri_subTimer := (cycles + sub) AND (ri_divider r - 1)\<rparr>;
          (left, r2) = count_interval cycles sub r1
      in count_wrapped left r2)"

definition sync_pa7 :: "riot \<Rightarrow> riot" where
  "sync_pa7 r =
     (let stable = ri_pa7Sync r; r1 = r\<lparr>ri_pa7Sync := pa7 r\<rparr>;
          r2 = (if ri_pa7Stable r1 \<noteq> stable \<and> stable = ri_edgePositive r1
                then r1\<lparr>ri_flags := ri_flags r1 OR PA7_BIT\<rparr> else r1)
      in r2\<lparr>ri_pa7Stable := stable\<rparr>)"

definition riot_sync :: "u64 \<Rightarrow> riot \<Rightarrow> riot" where
  "riot_sync cpuCycle r =
     (if cpuCycle \<le> ri_lastCycle r then r
      else (sync_pa7 (sync_timer (ucast (cpuCycle - ri_lastCycle r)) r))\<lparr>ri_lastCycle := cpuCycle\<rparr>)"

definition riot_peek :: "u16 \<Rightarrow> riot \<Rightarrow> u8" where
  "riot_peek addr r =
     (if \<not> tst addr 0x0200 then ri_ram r (unat (addr AND 0x7F))
      else let k = unat (addr AND 0x07) in
        if k = 0 then (ri_outA r OR NOT (ri_ddrA r)) AND portAPins r
        else if k = 1 then ri_ddrA r
        else if k = 2 then (ri_outB r OR NOT (ri_ddrB r)) AND ((case ri_portB r of Some v \<Rightarrow> v | None \<Rightarrow> 0xFF) OR ri_ddrB r)
        else if k = 3 then ri_ddrB r
        else if k = 4 \<or> k = 6 then ri_timer r
        else ri_flags r)"

definition riot_read :: "u16 \<Rightarrow> riot \<Rightarrow> u8 \<times> riot" where
  "riot_read addr r =
     (let v = riot_peek addr r; k = unat (addr AND 0x07)
      in if \<not> tst addr 0x0200 then (v, r)
         else if k = 4 \<or> k = 6 then
           (v, if \<not> ri_wrapped r then r\<lparr>ri_flags := ri_flags r AND NOT TIMER_BIT\<rparr> else r)
         else if k = 5 \<or> k = 7 then (v, r\<lparr>ri_flags := ri_flags r AND NOT PA7_BIT\<rparr>)
         else (v, r))"

definition DIV_SHIFT :: "nat list" where "DIV_SHIFT = [0, 3, 6, 10]"
definition DIV_TABLE :: "u32 list" where "DIV_TABLE = [1, 8, 64, 1024]"

definition setTimer :: "u8 \<Rightarrow> nat \<Rightarrow> riot \<Rightarrow> riot" where
  "setTimer v interval r =
     (let r1 = r\<lparr>ri_divider := DIV_TABLE ! interval, ri_shift := DIV_SHIFT ! interval, ri_timer := v,
                 ri_subTimer := DIV_TABLE ! interval - 1\<rparr>
      in if \<not> ri_wrapped r1 then r1\<lparr>ri_flags := ri_flags r1 AND NOT TIMER_BIT\<rparr> else r1)"

definition riot_write :: "u16 \<Rightarrow> u8 \<Rightarrow> riot \<Rightarrow> riot" where
  "riot_write addr v r =
     (if \<not> tst addr 0x0200 then r\<lparr>ri_ram := (ri_ram r)(unat (addr AND 0x7F) := v)\<rparr>
      else if tst addr 0x04 then
        (if tst addr 0x10 then setTimer v (unat (addr AND 0x03)) r else r\<lparr>ri_edgePositive := tst addr 0x01\<rparr>)
      else let k = unat (addr AND 0x03) in
        if k = 0 then r\<lparr>ri_outA := v\<rparr>
        else if k = 1 then r\<lparr>ri_ddrA := v\<rparr>
        else if k = 2 then r\<lparr>ri_outB := v\<rparr>
        else r\<lparr>ri_ddrB := v\<rparr>)"

section \<open>The interval timer in natural numbers\<close>

text \<open>
  The reference: \<open>D\<close> cycles per tick, the state is timer, cycles into the tick, and whether it has
  wrapped, after which it counts every cycle.
\<close>

fun interval_run :: "nat \<Rightarrow> nat \<Rightarrow> nat \<times> nat \<times> bool \<Rightarrow> nat \<times> nat \<times> bool" where
  "interval_run D n (t, sub, True) = (nat ((int t - int n) mod 256), (n + sub) mod D, True)"
| "interval_run D n (t, sub, False) =
     (if (n + sub) div D > t then (nat ((255 - int (n + sub - (t + 1) * D)) mod 256), (n + sub) mod D, True)
      else (t - (n + sub) div D, (n + sub) mod D, False))"

lemma interval_wrapped: "interval_run D b (nat (x mod 256), sub, True) = (nat ((x - int b) mod 256), (b + sub) mod D, True)"
  by (simp add: mod_diff_left_eq)

lemma interval_run_add:
  assumes "sub < D" and "0 < D"
  shows "interval_run D b (interval_run D a (t, sub, w)) = interval_run D (a + b) (t, sub, w)"
proof (cases w)
  case True
  have "(b + (a + sub) mod D) mod D = (a + b + sub) mod D" by (metis add.assoc add.commute mod_add_right_eq)
  then show ?thesis using True by (simp add: mod_diff_left_eq diff_diff_eq)
next
  case False
  define q where "q = (a + sub) div D"
  define s where "s = (a + sub) mod D"
  have e: "a + sub = q * D + s" by (simp add: q_def s_def)
  have abs: "a + b + sub = b + s + q * D" using e by linarith
  have d: "(b + s) div D + q = (a + b + sub) div D" unfolding abs using assms(2) by simp
  have m: "(b + s) mod D = (a + b + sub) mod D" unfolding abs by simp
  note qs = q_def [symmetric] s_def [symmetric]
  show ?thesis
  proof (cases "q > t")
    case True
    have "(t + 1) * D \<le> q * D" using True by (intro mult_right_mono) simp_all
    then have le: "(t + 1) * D \<le> a + sub" using e by linarith
    have "(a + b + sub) div D > t" using True d by linarith
    then show ?thesis using True \<open>\<not> w\<close> m le
      by (simp add: qs interval_wrapped) (simp add: algebra_simps of_nat_diff mod_diff_left_eq)
  next
    case nw: False
    have "(b + s) div D > t - q \<longleftrightarrow> (a + b + sub) div D > t" using nw d by linarith
    moreover have "b + s - (t - q + 1) * D = a + b + sub - (t + 1) * D"
    proof -
      have "t - q + 1 + q = t + 1" using nw by simp
      then have "(t - q + 1) * D + q * D = (t + 1) * D" by (metis add_mult_distrib)
      then show ?thesis using e by linarith
    qed
    moreover have "t - q - (b + s) div D = t - (a + b + sub) div D" using d by linarith
    ultimately show ?thesis using nw \<open>\<not> w\<close> m by (simp add: qs)
  qed
qed

section \<open>Correctness\<close>

definition riot_ok :: "riot \<Rightarrow> bool" where
  "riot_ok r \<longleftrightarrow> ri_shift r \<le> 10 \<and> ri_divider r = 2 ^ ri_shift r \<and> unat (ri_subTimer r) < 2 ^ ri_shift r"

definition timer_view :: "riot \<Rightarrow> nat \<times> nat \<times> bool" where
  "timer_view r = (unat (ri_timer r), unat (ri_subTimer r), bit (ri_flags r) 7)"

lemma unat_timer_minus: "unat (ucast (ucast (t :: u8) - (n :: u32)) :: u8) = nat ((int (unat t) - int (unat n)) mod 256)"
proof -
  have "uint (ucast (ucast t - n) :: u8) = uint (ucast t - n) mod 256"
    by (simp add: unsigned_ucast_eq take_bit_eq_mod)
  also have "\<dots> = ((int (unat t) - int (unat n)) mod 2 ^ 32) mod 256"
    by (simp add: uint_word_ariths unsigned_ucast_eq take_bit_eq_mod mod_diff_left_eq)
  also have "\<dots> = (int (unat t) - int (unat n)) mod 256"
    by (rule mod_mod_cancel) simp
  finally have "uint (ucast (ucast t - n) :: u8) = (int (unat t) - int (unat n)) mod 256" .
  then show ?thesis by (metis nat_uint_eq)
qed

lemma unat_255_minus: "unat (ucast (255 - (n :: u32)) :: u8) = nat ((255 - int (unat n)) mod 256)"
  using unat_timer_minus [of 255 n] by simp

lemma nat_minus_mod: "k \<le> t \<Longrightarrow> t < 256 \<Longrightarrow> nat ((int t - int k) mod 256) = t - k"
  by (simp flip: of_nat_diff)

lemma pow_le_1024: "s \<le> 10 \<Longrightarrow> (2 :: nat) ^ s \<le> 1024"
  using power_increasing [of s 10 "2 :: nat"] by simp

lemma sync_timer_view:
  assumes ok: "riot_ok r" and n: "unat cycles < 2 ^ 31"
  shows "timer_view (sync_timer cycles r) = interval_run (2 ^ ri_shift r) (unat cycles) (timer_view r)"
proof -
  let ?s = "ri_shift r" and ?sub = "ri_subTimer r" and ?t = "ri_timer r"
  have s: "?s \<le> 10" and d: "ri_divider r = 2 ^ ?s" and sub: "unat ?sub < 2 ^ ?s" using ok by (simp_all add: riot_ok_def)
  have D: "(2 :: nat) ^ ?s \<le> 1024" by (rule pow_le_1024 [OF s])
  have lt32: "unat cycles + unat ?sub < 2 ^ 32" using n sub D by simp
  then have sum: "unat (cycles + ?sub) = unat cycles + unat ?sub"
    using unat_add_lem [of cycles ?sub] by simp
  have mask: "x AND (2 ^ ?s - 1) = take_bit ?s x" for x :: u32 by (simp add: take_bit_eq_mask mask_eq_exp_minus_1)
  have sub': "unat ((cycles + ?sub) AND (2 ^ ?s - 1)) = (unat cycles + unat ?sub) mod 2 ^ ?s"
    unfolding mask unsigned_take_bit_eq sum by (simp add: take_bit_eq_mod)
  have q: "unat (drop_bit ?s (cycles + ?sub)) = (unat cycles + unat ?sub) div 2 ^ ?s"
    unfolding unsigned_drop_bit_eq sum using lt32 by (simp add: drop_bit_eq_div take_bit_nat_eq_self)
  show ?thesis
  proof (cases "bit (ri_flags r) 7")
    case True
    then show ?thesis
      by (simp add: sync_timer_def count_interval_def count_wrapped_def timer_view_def Let_def tst_bit d sub' unat_timer_minus)
  next
    case False
    let ?P = "push_bit ?s (ucast ?t + 1) :: u32"
    let ?wrap = "(unat cycles + unat ?sub) div 2 ^ ?s > unat ?t"
    have less: "drop_bit ?s (cycles + ?sub) > ucast ?t \<longleftrightarrow> ?wrap" by (simp add: word_less_nat_alt q)
    show ?thesis
    proof (cases ?wrap)
      case True
      have t1: "unat (ucast ?t + 1 :: u32) = unat ?t + 1"
        using unat_u8_lt [of ?t] unat_add_lem [of "ucast ?t" "1 :: u32"] by (simp del: unat_u8_lt)
      have "(unat ?t + 1) * 2 ^ ?s \<le> 256 * 1024"
        using D unat_u8_lt [of ?t] by (intro mult_le_mono) (simp_all del: unat_u8_lt)
      then have P: "unat ?P = (unat ?t + 1) * 2 ^ ?s"
        by (simp only: unsigned_push_bit_eq t1) (simp add: push_bit_eq_mult take_bit_nat_eq_self)
      have le: "(unat ?t + 1) * 2 ^ ?s \<le> unat cycles + unat ?sub"
        by (rule less_eq_div_iff_mult_less_eq [THEN iffD1, rotated]) (use True in simp_all)
      have e: "cycles - (?P - ?sub) = (cycles + ?sub) - ?P" by simp
      have left: "unat (cycles - (?P - ?sub)) = unat cycles + unat ?sub - (unat ?t + 1) * 2 ^ ?s"
        unfolding e by (subst unat_sub) (use le P sum in \<open>simp_all add: word_le_nat_alt\<close>)
      show ?thesis
        using True False less left
        by (simp add: sync_timer_def count_interval_def count_wrapped_def timer_view_def Let_def tst_bit d sub'
            unat_timer_minus unat_255_minus bit_or_iff flag_bits)
    next
      case nw: False
      have "nat ((int (unat ?t) - int ((unat cycles + unat ?sub) div 2 ^ ?s)) mod 256) =
          unat ?t - (unat cycles + unat ?sub) div 2 ^ ?s"
        using nw by (intro nat_minus_mod) simp_all
      then show ?thesis
        using nw False less q
        by (simp add: sync_timer_def count_interval_def count_wrapped_def timer_view_def Let_def tst_bit d sub'
            unat_timer_minus)
    qed
  qed
qed

lemma sync_timer_ok:
  assumes "riot_ok r"
  shows "riot_ok (sync_timer cycles r)"
proof -
  have mask: "x AND (2 ^ s - 1) = take_bit s x" for x :: u32 and s by (simp add: take_bit_eq_mask mask_eq_exp_minus_1)
  have "unat (take_bit s x) < 2 ^ s" for x :: u32 and s
    unfolding unsigned_take_bit_eq by (rule take_bit_nat_less_exp)
  then show ?thesis using assms
    by (simp add: riot_ok_def sync_timer_def count_interval_def count_wrapped_def Let_def mask)
qed

lemma sync_timer_keeps [simp]:
  "ri_shift (sync_timer n r) = ri_shift r" "ri_lastCycle (sync_timer n r) = ri_lastCycle r"
  by (simp_all add: sync_timer_def count_interval_def count_wrapped_def Let_def)

lemma sync_pa7_keeps [simp]:
  "ri_shift (sync_pa7 r) = ri_shift r" "timer_view (sync_pa7 r) = timer_view r"
  "riot_ok (sync_pa7 r) = riot_ok r"
  by (simp_all add: sync_pa7_def Let_def timer_view_def bit_or_iff flag_bits riot_ok_def)

lemma last_keeps [simp]:
  "timer_view (r\<lparr>ri_lastCycle := c\<rparr>) = timer_view r" "riot_ok (r\<lparr>ri_lastCycle := c\<rparr>) = riot_ok r"
  by (simp_all add: timer_view_def riot_ok_def)

lemma interval_run_0:
  assumes "riot_ok r"
  shows "interval_run (2 ^ ri_shift r) 0 (timer_view r) = timer_view r"
proof (cases "bit (ri_flags r) 7")
  case True
  then show ?thesis using assms nat_minus_mod [of 0 "unat (ri_timer r)"] by (simp add: timer_view_def riot_ok_def)
next
  case False
  then show ?thesis using assms by (simp add: timer_view_def riot_ok_def)
qed

lemma riot_sync_view:
  assumes "riot_ok r" and "ri_lastCycle r \<le> c" and "unat c < unat (ri_lastCycle r) + 2 ^ 31"
  shows "timer_view (riot_sync c r) = interval_run (2 ^ ri_shift r) (unat c - unat (ri_lastCycle r)) (timer_view r) \<and>
    riot_ok (riot_sync c r) \<and> ri_lastCycle (riot_sync c r) = c \<and> ri_shift (riot_sync c r) = ri_shift r"
proof (cases "c \<le> ri_lastCycle r")
  case True
  then have "c = ri_lastCycle r" using assms(2) by simp
  then show ?thesis using assms(1) interval_run_0 by (simp add: riot_sync_def)
next
  case False
  have d: "unat (c - ri_lastCycle r) = unat c - unat (ri_lastCycle r)" using assms(2) by (rule unat_sub)
  then have small: "unat (c - ri_lastCycle r) < 2 ^ 31" using assms(2,3) by (simp add: word_le_nat_alt)
  then have u: "unat (ucast (c - ri_lastCycle r) :: u32) = unat c - unat (ri_lastCycle r)"
    by (simp only: unsigned_ucast_eq) (simp add: take_bit_nat_eq_self d)
  then have "unat (ucast (c - ri_lastCycle r) :: u32) < 2 ^ 31" using small d by simp
  from sync_timer_view [OF assms(1) this] show ?thesis
    using False assms(1) u by (simp add: riot_sync_def sync_timer_ok)
qed

lemma riot_sync_run:
  assumes "riot_ok r" and "sorted (ri_lastCycle r # cs @ [c])" and "unat c < unat (ri_lastCycle r) + 2 ^ 31"
  shows "timer_view (riot_sync c (fold riot_sync cs r)) =
    interval_run (2 ^ ri_shift r) (unat c - unat (ri_lastCycle r)) (timer_view r)"
  using assms
proof (induction cs arbitrary: r)
  case Nil
  then show ?case using riot_sync_view [of r c] by simp
next
  case (Cons x xs)
  have le: "ri_lastCycle r \<le> x" "x \<le> c" using Cons.prems(2) by auto
  then have n: "unat (ri_lastCycle r) \<le> unat x" "unat x \<le> unat c" by (simp_all add: word_le_nat_alt)
  then have b: "unat x < unat (ri_lastCycle r) + 2 ^ 31" using Cons.prems(3) by linarith
  note V = riot_sync_view [OF Cons.prems(1) le(1) b]
  have "timer_view (riot_sync c (fold riot_sync xs (riot_sync x r))) =
      interval_run (2 ^ ri_shift r) (unat c - unat x) (timer_view (riot_sync x r))"
    using Cons.IH [of "riot_sync x r"] V Cons.prems(2,3) n by simp
  also have "\<dots> = interval_run (2 ^ ri_shift r) (unat x - unat (ri_lastCycle r) + (unat c - unat x)) (timer_view r)"
    using V Cons.prems(1) by (simp add: timer_view_def interval_run_add riot_ok_def)
  also have "unat x - unat (ri_lastCycle r) + (unat c - unat x) = unat c - unat (ri_lastCycle r)" using n by linarith
  finally show ?case by simp
qed

lemma riot_ok_ops:
  "riot_ok riot_new" "riot_ok r \<Longrightarrow> riot_ok (riot_write a v r)" "riot_ok r \<Longrightarrow> riot_ok (snd (riot_read a r))"
proof -
  have "unat (a AND 3) < 4" using unat_and_le [of a 3] by simp
  then have k: "unat (a AND 3) = 0 \<or> unat (a AND 3) = 1 \<or> unat (a AND 3) = 2 \<or> unat (a AND 3) = 3" by linarith
  have "riot_ok (setTimer v (unat (a AND 3)) r)"
    using k by (elim disjE; simp add: riot_ok_def setTimer_def DIV_TABLE_def DIV_SHIFT_def Let_def)
  then show "riot_ok r \<Longrightarrow> riot_ok (riot_write a v r)"
    by (auto simp: riot_write_def riot_ok_def Let_def)
  show "riot_ok r \<Longrightarrow> riot_ok (snd (riot_read a r))" by (simp add: riot_read_def riot_ok_def Let_def)
  show "riot_ok riot_new" by (simp add: riot_new_def riot_reset_def riot_ok_def)
qed

text \<open>
  C11: the timer may be brought up to date whenever convenient: synchronising at any number of earlier
  cycles on the way gives the same timer, phase and flag as one synchronisation at the end, and both
  are those of a timer counted in natural numbers.
\<close>

theorem riot_sync_lazy:
  assumes "riot_ok r" and "sorted (ri_lastCycle r # cs @ [c])" and "unat c < unat (ri_lastCycle r) + 2 ^ 31"
  shows "timer_view (riot_sync c (fold riot_sync cs r)) = timer_view (riot_sync c r) \<and>
    timer_view (riot_sync c r) = interval_run (2 ^ ri_shift r) (unat c - unat (ri_lastCycle r)) (timer_view r)"
proof -
  have "sorted (ri_lastCycle r # [] @ [c])" using assms(2) by simp
  from riot_sync_run [OF assms(1) this assms(3)] riot_sync_run [OF assms] show ?thesis by simp
qed

theorem riot_sync_lazy_witness:
  "let r = riot_write 0x296 3 riot_new
   in timer_view (riot_sync 200 (fold riot_sync [10, 193, 195] r)) = timer_view (riot_sync 200 r) \<and>
      timer_view (riot_sync 200 r) = (0xF8, 7, True)"
proof -
  define r where "r = riot_write 0x296 3 riot_new"
  have ok: "riot_ok r" unfolding r_def by (rule riot_ok_ops(2) [OF riot_ok_ops(1)])
  have v: "ri_lastCycle r = 0" "ri_shift r = 6" "timer_view r = (3, 63, False)"
    by (simp_all add: r_def riot_write_def setTimer_def DIV_TABLE_def DIV_SHIFT_def riot_new_def riot_reset_def
        timer_view_def tst_def Let_def)
  show ?thesis
    using riot_sync_lazy [OF ok, where cs = "[10, 193, 195]" and c = 200] v
    unfolding Let_def r_def [symmetric] by simp
qed

text \<open>
  A timer set to v with an interval of D cycles expires after exactly v * D + 1 cycles: until then
  its flag is clear, from then on it is set, and at each cycle before it the timer shows how many
  whole intervals are left.
\<close>

theorem riot_timer_expiry:
  fixes v :: u8 and n k :: nat and r :: riot
  assumes "riot_ok r" and "\<not> ri_wrapped r" and "k < 4" and "unat (ri_lastCycle r) + n < 2 ^ 64" and "n < 2 ^ 31"
  defines "D \<equiv> 2 ^ (DIV_SHIFT ! k)" and "s \<equiv> riot_sync (ri_lastCycle r + of_nat n) (setTimer v k r)"
  shows "(bit (ri_flags s) 7 \<longleftrightarrow> unat v * D + 1 \<le> n) \<and>
    (n \<le> unat v * D \<longrightarrow> unat (ri_timer s) = unat v - (n + (D - 1)) div D)"
proof -
  have k: "k = 0 \<or> k = 1 \<or> k = 2 \<or> k = 3" using assms(3) by linarith
  let ?r = "setTimer v k r"
  have ok: "riot_ok ?r" and v: "timer_view ?r = (unat v, D - 1, False)" and D: "D = 2 ^ ri_shift ?r" "0 < D"
    and l: "ri_lastCycle ?r = ri_lastCycle r"
    using k assms(2)
    by (auto simp: D_def setTimer_def Let_def riot_ok_def timer_view_def DIV_SHIFT_def DIV_TABLE_def bit_simps flag_bits)
  have u: "unat (ri_lastCycle r + of_nat n) = unat (ri_lastCycle r) + n"
  proof -
    have "unat (of_nat n :: u64) = n" using assms(5) by (simp add: unat_of_nat take_bit_nat_eq_self)
    then show ?thesis using assms(4) unat_add_lem [of "ri_lastCycle r" "of_nat n"] by simp
  qed
  then have "ri_lastCycle ?r \<le> ri_lastCycle r + of_nat n" by (simp add: l word_le_nat_alt)
  then have "timer_view s = interval_run D n (unat v, D - 1, False)"
    using riot_sync_view [OF ok, of "ri_lastCycle r + of_nat n"] u l v D assms(5) by (simp add: s_def)
  moreover have "(n + (D - 1)) div D > unat v \<longleftrightarrow> unat v * D + 1 \<le> n"
  proof -
    have "unat v + 1 \<le> (n + (D - 1)) div D \<longleftrightarrow> (unat v + 1) * D \<le> n + (D - 1)"
      by (rule less_eq_div_iff_mult_less_eq [OF D(2)])
    also have "\<dots> \<longleftrightarrow> unat v * D + 1 \<le> n" using D(2) by auto
    finally show ?thesis by (simp only: Suc_eq_plus1 [symmetric] Suc_le_eq)
  qed
  ultimately show ?thesis by (auto simp: timer_view_def split: if_splits)
qed

theorem riot_timer_expiry_witness:
  "let s = \<lambda>n. riot_sync (of_nat n) (setTimer 3 1 riot_new)
   in bit (ri_flags (s 25)) 7 \<and> \<not> bit (ri_flags (s 24)) 7 \<and> unat (ri_timer (s 24)) = 0"
proof -
  have w: "\<not> ri_wrapped riot_new" "ri_lastCycle riot_new = 0" by (simp_all add: riot_new_def riot_reset_def)
  show ?thesis
    using riot_timer_expiry [OF riot_ok_ops(1) w(1), where k = 1 and n = 25 and v = 3]
      riot_timer_expiry [OF riot_ok_ops(1) w(1), where k = 1 and n = 24 and v = 3]
    by (simp add: w DIV_SHIFT_def Let_def)
qed

end
