(* ===== verification/Crtc6545.thy ===== *)
theory Crtc6545
  imports IoRegistry
begin

text \<open>
  The 6545 CRT controller of the PET (\<open>plugins/devices/crtc6545/main/crtc6545.h\<close>, \<open>crtc6545.cpp\<close>): the
  register file behind its address register, and the character, raster and row counters.
\<close>

section \<open>The chip\<close>

record crtc =
  cr_addressReg :: u8
  cr_regs :: "nat \<Rightarrow> u8"
  cr_statusReg :: u8
  cr_hCount :: u8
  cr_vCount :: u8
  cr_ra :: u8
  cr_ma :: u16
  cr_maStart :: u16
  cr_hSync :: bool
  cr_vSync :: bool
  cr_dispEnable :: bool

definition crtc_reset :: "crtc \<Rightarrow> crtc" where
  "crtc_reset c = c\<lparr>cr_regs := (\<lambda>_. 0), cr_addressReg := 0, cr_statusReg := 0, cr_hCount := 0, cr_vCount := 0,
     cr_ra := 0, cr_ma := 0, cr_maStart := 0, cr_hSync := False, cr_vSync := False, cr_dispEnable := False\<rparr>"

definition crtc_new :: crtc where
  "crtc_new = crtc_reset \<lparr>cr_addressReg = 0, cr_regs = (\<lambda>_. 0), cr_statusReg = 0, cr_hCount = 0, cr_vCount = 0,
     cr_ra = 0, cr_ma = 0, cr_maStart = 0, cr_hSync = False, cr_vSync = False, cr_dispEnable = False\<rparr>"

definition crtc_base :: u32 where "crtc_base = 0xE880"

definition crtc_getReg :: "u8 \<Rightarrow> crtc \<Rightarrow> u8" where
  "crtc_getReg idx c = (if idx < 18 then cr_regs c (unat idx) else 0)"

definition crtc_ioRead :: "u32 \<Rightarrow> crtc \<Rightarrow> u8 option" where
  "crtc_ioRead addr c =
     (if addr AND NOT 0x0001 \<noteq> crtc_base then None
      else if addr AND 1 = 0 then Some (cr_statusReg c)
      else if cr_addressReg c \<ge> 14 \<and> cr_addressReg c \<le> 17 then Some (cr_regs c (unat (cr_addressReg c)))
      else Some 0)"

definition start_address :: "crtc \<Rightarrow> u16" where
  "start_address c = push_bit 8 (ucast (cr_regs c 12)) OR ucast (cr_regs c 13)"

definition crtc_ioWrite :: "u32 \<Rightarrow> u8 \<Rightarrow> crtc \<Rightarrow> bool \<times> crtc" where
  "crtc_ioWrite addr val c =
     (if addr AND NOT 0x0001 \<noteq> crtc_base then (False, c)
      else if addr AND 1 = 0 then (True, c\<lparr>cr_addressReg := val AND 0x1F\<rparr>)
      else if cr_addressReg c < 18 then
        (let c1 = c\<lparr>cr_regs := (cr_regs c)(unat (cr_addressReg c) := val)\<rparr>
         in (True, if cr_addressReg c1 = 12 \<or> cr_addressReg c1 = 13 then c1\<lparr>cr_maStart := start_address c1\<rparr> else c1))
      else (True, c))"

text \<open>The counters are bytes and wrap; the comparisons are between the promoted values.\<close>

definition next_row :: "crtc \<Rightarrow> crtc" where
  "next_row c =
     (let c1 = c\<lparr>cr_vCount := cr_vCount c + 1\<rparr>
      in if cr_vCount c1 > cr_regs c1 4 then c1\<lparr>cr_vCount := 0, cr_maStart := start_address c1\<rparr>
         else c1\<lparr>cr_maStart := cr_maStart c1 + ucast (cr_regs c1 1)\<rparr>)"

definition next_raster :: "crtc \<Rightarrow> crtc" where
  "next_raster c =
     (let c1 = c\<lparr>cr_ra := cr_ra c + 1\<rparr>
      in if cr_ra c1 > cr_regs c1 9 then next_row (c1\<lparr>cr_ra := 0\<rparr>) else c1)"

definition count_char :: "crtc \<Rightarrow> crtc" where
  "count_char c =
     (let c1 = c\<lparr>cr_hCount := cr_hCount c + 1\<rparr>
      in if cr_hCount c1 > cr_regs c1 0
         then (let c2 = next_raster (c1\<lparr>cr_hCount := 0\<rparr>) in c2\<lparr>cr_ma := cr_maStart c2\<rparr>)
         else c1\<lparr>cr_ma := cr_ma c1 + 1\<rparr>)"

definition crtc_signals :: "crtc \<Rightarrow> crtc" where
  "crtc_signals c = c\<lparr>cr_dispEnable := (cr_hCount c < cr_regs c 1 \<and> cr_vCount c < cr_regs c 6),
     cr_hSync := (unat (cr_hCount c) \<ge> unat (cr_regs c 2) \<and>
        unat (cr_hCount c) < unat (cr_regs c 2) + unat (cr_regs c 3 AND 0x0F)),
     cr_vSync := (cr_vCount c = cr_regs c 7)\<rparr>"

definition updateCounters :: "crtc \<Rightarrow> crtc" where
  "updateCounters c = crtc_signals (count_char c)"

definition crtc_tick :: "u64 \<Rightarrow> crtc \<Rightarrow> crtc" where
  "crtc_tick cycles c = (updateCounters ^^ unat cycles) c"

definition crtc_handler :: "nat \<Rightarrow> string \<Rightarrow> crtc io_handler" where
  "crtc_handler i n = \<lparr>ioh_id = i, ioh_name = n, ioh_base = crtc_base, ioh_read = (\<lambda>a. gets (crtc_ioRead a)),
     ioh_peek = (\<lambda>a. gets (crtc_ioRead a)), ioh_write = (\<lambda>a v. State_Monad.State (crtc_ioWrite a v)),
     ioh_reset = crtc_reset, ioh_tick = crtc_tick, ioh_isHaltRequested = (\<lambda>_. False)\<rparr>"

section \<open>The frame\<close>

text \<open>
  The reference: the position within the frame as one number, from which the three counters and both
  addresses follow.
\<close>

definition frame_pos :: "crtc \<Rightarrow> nat" where
  "frame_pos c = (let w = unat (cr_regs c 0) + 1; h = unat (cr_regs c 9) + 1
     in (unat (cr_vCount c) * h + unat (cr_ra c)) * w + unat (cr_hCount c))"

definition frame_length :: "crtc \<Rightarrow> nat" where
  "frame_length c = (unat (cr_regs c 4) + 1) * (unat (cr_regs c 9) + 1) * (unat (cr_regs c 0) + 1)"

text \<open>What holds between ticks, as long as none of the three totals is 255.\<close>

definition crtc_ok :: "crtc \<Rightarrow> bool" where
  "crtc_ok c \<longleftrightarrow> cr_regs c 0 < 0xFF \<and> cr_regs c 9 < 0xFF \<and> cr_regs c 4 < 0xFF \<and>
     cr_hCount c \<le> cr_regs c 0 \<and> cr_ra c \<le> cr_regs c 9 \<and> cr_vCount c \<le> cr_regs c 4"

text \<open>The addresses are those of the row and character; a write to the start address disturbs this.\<close>

definition addr_ok :: "crtc \<Rightarrow> bool" where
  "addr_ok c \<longleftrightarrow> cr_maStart c = start_address c + ucast (cr_vCount c) * ucast (cr_regs c 1) \<and>
     cr_ma c = cr_maStart c + ucast (cr_hCount c)"

lemma unat_Suc_u8: "(x :: u8) < 0xFF \<Longrightarrow> unat (x + 1) = unat x + 1"
  using unat_add_lem [of x 1] by (simp add: word_less_nat_alt)

lemma step_u8:
  fixes x n :: u8
  assumes "x \<le> n" "n < 0xFF"
  shows "unat (x + 1) = unat x + 1" "x + 1 > n \<longleftrightarrow> x = n"
proof -
  show u: "unat (x + 1) = unat x + 1"
    using assms by (intro unat_Suc_u8) (rule order.strict_trans1)
  show "x + 1 > n \<longleftrightarrow> x = n"
    using assms u by (auto simp: word_less_nat_alt word_le_nat_alt word_unat_eq_iff)
qed

lemma crtc_regs_keep [simp]:
  "cr_regs (updateCounters c) = cr_regs c" "start_address (updateCounters c) = start_address c"
  by (simp_all add: updateCounters_def crtc_signals_def count_char_def next_raster_def next_row_def start_address_def Let_def)

lemma ucast_Suc: "(x :: u8) < 0xFF \<Longrightarrow> (ucast (x + 1) :: u16) = ucast x + 1"
  using unat_Suc_u8 [of x] by (simp add: word_unat_eq_iff unat_word_ariths)

lemma ucast_Suc': "(x :: u8) < 0xFF \<Longrightarrow> (ucast (1 + x) :: u16) = 1 + ucast x"
  using ucast_Suc [of x] by (simp add: add.commute)

lemma pos_less:
  assumes "crtc_ok c"
  shows "frame_pos c < frame_length c"
proof -
  have b: "v * h + r + 1 \<le> n * h" if "v < n" "r < h" for v h r n :: nat
    using that mult_le_mono1 [of "v + 1" n h] by simp
  let ?w = "unat (cr_regs c 0) + 1" and ?h = "unat (cr_regs c 9) + 1"
  have l: "unat (cr_vCount c) < unat (cr_regs c 4) + 1" "unat (cr_ra c) < ?h" "unat (cr_hCount c) < ?w"
    using assms by (simp_all add: crtc_ok_def word_le_nat_alt)
  have "unat (cr_vCount c) * ?h + unat (cr_ra c) < (unat (cr_regs c 4) + 1) * ?h"
    using b [OF l(1,2)] by linarith
  from b [OF this l(3)] show ?thesis unfolding frame_pos_def frame_length_def Let_def by linarith
qed

lemma update_next_char:
  assumes "crtc_ok c" and "cr_hCount c \<noteq> cr_regs c 0"
  shows "crtc_ok (updateCounters c) \<and> frame_pos (updateCounters c) = frame_pos c + 1 \<and> (addr_ok c \<longrightarrow> addr_ok (updateCounters c))"
proof -
  note o = assms(1) [unfolded crtc_ok_def]
  have h: "\<not> cr_hCount c + 1 > cr_regs c 0" "unat (cr_hCount c + 1) = unat (cr_hCount c) + 1"
    using step_u8 [of "cr_hCount c" "cr_regs c 0"] o assms(2) by auto
  have "cr_hCount c < 0xFF" using o by (meson order.strict_trans1)
  then show ?thesis using o h
    by (auto simp: crtc_ok_def addr_ok_def updateCounters_def crtc_signals_def count_char_def frame_pos_def Let_def ucast_Suc
        start_address_def)
qed

lemma update_next_raster:
  assumes "crtc_ok c" and "cr_hCount c = cr_regs c 0" and "cr_ra c \<noteq> cr_regs c 9"
  shows "crtc_ok (updateCounters c) \<and> frame_pos (updateCounters c) = frame_pos c + 1 \<and> (addr_ok c \<longrightarrow> addr_ok (updateCounters c))"
proof -
  note o = assms(1) [unfolded crtc_ok_def]
  have h: "cr_hCount c + 1 > cr_regs c 0" using step_u8 [of "cr_hCount c" "cr_regs c 0"] o assms(2) by auto
  have r: "\<not> cr_ra c + 1 > cr_regs c 9" "unat (cr_ra c + 1) = unat (cr_ra c) + 1"
    using step_u8 [of "cr_ra c" "cr_regs c 9"] o assms(3) by auto
  show ?thesis using o h r assms(2)
    by (auto simp: crtc_ok_def addr_ok_def updateCounters_def crtc_signals_def count_char_def next_raster_def frame_pos_def Let_def
        start_address_def)
qed

lemma update_next_row:
  assumes "crtc_ok c" and "cr_hCount c = cr_regs c 0" and "cr_ra c = cr_regs c 9" and "cr_vCount c \<noteq> cr_regs c 4"
  shows "crtc_ok (updateCounters c) \<and> frame_pos (updateCounters c) = frame_pos c + 1 \<and> (addr_ok c \<longrightarrow> addr_ok (updateCounters c))"
proof -
  note o = assms(1) [unfolded crtc_ok_def]
  have h: "cr_hCount c + 1 > cr_regs c 0" using step_u8 [of "cr_hCount c" "cr_regs c 0"] o assms(2) by auto
  have r: "cr_ra c + 1 > cr_regs c 9" using step_u8 [of "cr_ra c" "cr_regs c 9"] o assms(3) by auto
  have v: "\<not> cr_vCount c + 1 > cr_regs c 4" "unat (cr_vCount c + 1) = unat (cr_vCount c) + 1"
    using step_u8 [of "cr_vCount c" "cr_regs c 4"] o assms(4) by auto
  have "cr_vCount c < 0xFF" using o by (meson order.strict_trans1)
  then show ?thesis using o h r v assms(2,3)
    by (auto simp: crtc_ok_def addr_ok_def updateCounters_def crtc_signals_def count_char_def next_raster_def next_row_def
        frame_pos_def Let_def start_address_def ucast_Suc' algebra_simps)
qed

lemma update_next_frame:
  assumes "crtc_ok c" and "cr_hCount c = cr_regs c 0" and "cr_ra c = cr_regs c 9" and "cr_vCount c = cr_regs c 4"
  shows "crtc_ok (updateCounters c) \<and> frame_pos (updateCounters c) = 0 \<and> frame_pos c + 1 = frame_length c \<and>
    addr_ok (updateCounters c)"
proof -
  note o = assms(1) [unfolded crtc_ok_def]
  have h: "cr_hCount c + 1 > cr_regs c 0" using step_u8 [of "cr_hCount c" "cr_regs c 0"] o assms(2) by auto
  have r: "cr_ra c + 1 > cr_regs c 9" using step_u8 [of "cr_ra c" "cr_regs c 9"] o assms(3) by auto
  have v: "cr_vCount c + 1 > cr_regs c 4"
    using step_u8 [of "cr_vCount c" "cr_regs c 4"] o assms(4) by auto
  show ?thesis using o h r v assms(2-4)
    by (auto simp: crtc_ok_def addr_ok_def updateCounters_def crtc_signals_def count_char_def next_raster_def next_row_def
        frame_pos_def frame_length_def Let_def start_address_def algebra_simps)
qed

lemma update_ok:
  assumes "crtc_ok c"
  shows "crtc_ok (updateCounters c) \<and> frame_pos (updateCounters c) = (frame_pos c + 1) mod frame_length c \<and>
    (addr_ok c \<or> frame_pos c + 1 = frame_length c \<longrightarrow> addr_ok (updateCounters c))"
proof -
  have lt: "frame_pos (updateCounters c) < frame_length c" if "crtc_ok (updateCounters c)"
    using pos_less [OF that] by (simp add: frame_length_def)
  consider "cr_hCount c \<noteq> cr_regs c 0" | "cr_hCount c = cr_regs c 0" "cr_ra c \<noteq> cr_regs c 9"
    | "cr_hCount c = cr_regs c 0" "cr_ra c = cr_regs c 9" "cr_vCount c \<noteq> cr_regs c 4"
    | "cr_hCount c = cr_regs c 0" "cr_ra c = cr_regs c 9" "cr_vCount c = cr_regs c 4" by blast
  then show ?thesis
  proof cases
    case 1 then show ?thesis using update_next_char [OF assms] lt by auto
  next
    case 2 then show ?thesis using update_next_raster [OF assms] lt by auto
  next
    case 3 then show ?thesis using update_next_row [OF assms] lt by auto
  next
    case 4 then show ?thesis using update_next_frame [OF assms] by simp
  qed
qed

lemma updates_ok:
  assumes "crtc_ok c"
  shows "crtc_ok ((updateCounters ^^ n) c) \<and> cr_regs ((updateCounters ^^ n) c) = cr_regs c \<and>
    frame_pos ((updateCounters ^^ n) c) = (frame_pos c + n) mod frame_length c \<and>
    (addr_ok c \<or> frame_length c \<le> frame_pos c + n \<longrightarrow> addr_ok ((updateCounters ^^ n) c))"
proof (induction n)
  case 0
  then show ?case using assms pos_less [OF assms] by simp
next
  case (Suc n)
  let ?d = "(updateCounters ^^ n) c"
  have l: "frame_length ?d = frame_length c" using Suc by (simp add: frame_length_def)
  have "addr_ok ?d \<or> frame_pos ?d + 1 = frame_length c" if "addr_ok c \<or> frame_length c \<le> frame_pos c + Suc n"
  proof (cases "addr_ok c \<or> frame_length c \<le> frame_pos c + n")
    case True
    then show ?thesis using Suc by blast
  next
    case False
    then have "frame_pos c + Suc n = frame_length c" using that by auto
    then show ?thesis using Suc by simp
  qed
  then show ?case using Suc update_ok [of ?d] l by (auto simp: mod_Suc_eq)
qed

section \<open>Correctness\<close>


definition pet_crtc :: crtc where
  "pet_crtc = fold (\<lambda>(r, v) c. snd (crtc_ioWrite 0xE881 v (snd (crtc_ioWrite 0xE880 r c))))
     [(0, 49), (1, 40), (4, 32), (9, 7), (12, 0x10), (13, 0)] crtc_new"


text \<open>
  A horizontal total of 255 freezes the picture: the character counter is a byte, so it never exceeds
  the total, and neither the raster nor the row counter ever moves again.
\<close>

theorem crtc_total_255_freezes:
  assumes "cr_regs c 0 = 0xFF"
  shows "cr_ra (crtc_tick n c) = cr_ra c \<and> cr_vCount (crtc_tick n c) = cr_vCount c"
proof -
  have "cr_ra ((updateCounters ^^ k) c) = cr_ra c \<and> cr_vCount ((updateCounters ^^ k) c) = cr_vCount c \<and>
      cr_regs ((updateCounters ^^ k) c) = cr_regs c" for k
  proof (induction k)
    case (Suc k)
    have "\<not> x > (0xFF :: u8)" for x
      using unat_u8_lt [of x] by (simp add: word_less_nat_alt not_less del: unat_u8_lt)
    then show ?case using Suc assms by (simp add: updateCounters_def crtc_signals_def count_char_def Let_def)
  qed simp
  then show ?thesis by (simp add: crtc_tick_def)
qed

theorem crtc_total_255_freezes_witness:
  "cr_ra (crtc_tick 1000000 (crtc_new\<lparr>cr_regs := (\<lambda>_. 0)(0 := 0xFF)\<rparr>)) = 0"
  using crtc_total_255_freezes [of "crtc_new\<lparr>cr_regs := (\<lambda>_. 0)(0 := 0xFF)\<rparr>" 1000000]
  by (simp add: crtc_new_def crtc_reset_def)

end
