(* ===== verification/Pia6520.thy ===== *)
theory Pia6520
  imports Signals
begin

text \<open>
  The MOS 6520 (\<open>plugins/devices/pia6520/main/pia6520.h\<close>, \<open>pia6520.cpp\<close>). The code has its registers
  twice, for port A and port B; here they are one record per port, and an operation that both have is
  one definition. The C1 input is the conduit built into the chip, which reports every change at
  once, or a line attached from outside, which \<open>tick\<close> polls. The peripherals live in \<open>pia_ext\<close>.
\<close>

section \<open>State\<close>

datatype pia_line = NoLine | Conduit | External bool

record 'e pia_side =
  ps_or :: u8
  ps_ddr :: u8
  ps_cr :: u8
  ps_dev :: "'e port_device option"
  ps_writeCb :: "(u8 \<Rightarrow> 'e \<Rightarrow> 'e) option"
  ps_irqLine :: "bool option"
  ps_c1Line :: pia_line
  ps_c2Line :: "bool option"
  ps_conduit :: bool
  ps_c1Prev :: bool
  ps_c2Prev :: bool
  ps_lastIrq :: bool

record 'e pia6520 =
  pia_baseAddr :: u32
  pia_a :: "'e pia_side"
  pia_b :: "'e pia_side"
  pia_ext :: 'e

datatype pia_port = PortA | PortB

primrec side :: "pia_port \<Rightarrow> 'e pia6520 \<Rightarrow> 'e pia_side" where
  "side PortA p = pia_a p"
| "side PortB p = pia_b p"

primrec on_side :: "pia_port \<Rightarrow> ('e pia_side \<Rightarrow> 'e pia_side) \<Rightarrow> 'e pia6520 \<Rightarrow> 'e pia6520" where
  "on_side PortA f p = p\<lparr>pia_a := f (pia_a p)\<rparr>"
| "on_side PortB f p = p\<lparr>pia_b := f (pia_b p)\<rparr>"

definition side_reset :: "'e pia_side \<Rightarrow> 'e pia_side" where
  "side_reset s = s\<lparr>ps_or := 0xFF, ps_ddr := 0, ps_cr := 0, ps_c1Prev := True, ps_c2Prev := True, ps_lastIrq := False\<rparr>"

definition pia_reset :: "'e pia6520 \<Rightarrow> 'e pia6520" where
  "pia_reset p = on_side PortB side_reset (on_side PortA side_reset p)"

definition side_new :: "'e pia_side" where
  "side_new = \<lparr>ps_or = 0, ps_ddr = 0, ps_cr = 0, ps_dev = None, ps_writeCb = None, ps_irqLine = None,
     ps_c1Line = Conduit, ps_c2Line = None, ps_conduit = True, ps_c1Prev = True, ps_c2Prev = True, ps_lastIrq = False\<rparr>"

definition pia_new :: "u32 \<Rightarrow> 'e \<Rightarrow> 'e pia6520" where
  "pia_new base e = pia_reset \<lparr>pia_baseAddr = base, pia_a = side_new, pia_b = side_new, pia_ext = e\<rparr>"

section \<open>Interrupts and control lines\<close>

definition side_irq :: "'e pia_side \<Rightarrow> bool" where
  "side_irq s \<longleftrightarrow> (tst (ps_cr s) 0x80 \<and> tst (ps_cr s) 0x01) \<or> (tst (ps_cr s) 0x40 \<and> tst (ps_cr s) 0x08)"

definition side_updateIrq :: "'e pia_side \<Rightarrow> 'e pia_side" where
  "side_updateIrq s =
     (let irq = side_irq s
      in if irq \<noteq> ps_lastIrq s then s\<lparr>ps_irqLine := map_option (\<lambda>_. irq) (ps_irqLine s), ps_lastIrq := irq\<rparr> else s)"

definition pia_updateIrq :: "'e pia6520 \<Rightarrow> 'e pia6520" where
  "pia_updateIrq p = on_side PortB side_updateIrq (on_side PortA side_updateIrq p)"

definition drive_c2 :: "bool \<Rightarrow> 'e pia_side \<Rightarrow> 'e pia_side" where
  "drive_c2 l s = s\<lparr>ps_c2Line := map_option (\<lambda>_. l) (ps_c2Line s)\<rparr>"

definition active_transition :: "bool \<Rightarrow> bool \<Rightarrow> bool \<Rightarrow> bool" where
  "active_transition positive prev lvl = (if positive then \<not> prev \<and> lvl else prev \<and> \<not> lvl)"

definition setC1 :: "pia_port \<Rightarrow> bool \<Rightarrow> 'e pia6520 \<Rightarrow> 'e pia6520" where
  "setC1 x lvl p =
     (let s = side x p;
          p1 = (if active_transition (tst (ps_cr s) 0x02) (ps_c1Prev s) lvl
                then pia_updateIrq (on_side x (\<lambda>s. let s1 = s\<lparr>ps_cr := ps_cr s OR 0x80\<rparr>
                       in if ps_cr s1 AND 0x38 = 0x20 then drive_c2 True s1 else s1) p)
                else p)
      in on_side x (\<lambda>s. s\<lparr>ps_c1Prev := lvl\<rparr>) p1)"

definition setC2 :: "pia_port \<Rightarrow> bool \<Rightarrow> 'e pia6520 \<Rightarrow> 'e pia6520" where
  "setC2 x lvl p =
     (let s = side x p;
          p1 = (if \<not> tst (ps_cr s) 0x20 \<and> active_transition (tst (ps_cr s) 0x10) (ps_c2Prev s) lvl
                then pia_updateIrq (on_side x (\<lambda>s. s\<lparr>ps_cr := ps_cr s OR 0x40\<rparr>) p)
                else p)
      in on_side x (\<lambda>s. s\<lparr>ps_c2Prev := lvl\<rparr>) p1)"

definition conduit_set :: "pia_port \<Rightarrow> bool \<Rightarrow> 'e pia6520 \<Rightarrow> 'e pia6520" where
  "conduit_set x lvl p = setC1 x lvl (on_side x (\<lambda>s. s\<lparr>ps_conduit := lvl\<rparr>) p)"

definition poll_c1 :: "pia_port \<Rightarrow> 'e pia6520 \<Rightarrow> 'e pia6520" where
  "poll_c1 x p = (case ps_c1Line (side x p) of NoLine \<Rightarrow> p | Conduit \<Rightarrow> setC1 x (ps_conduit (side x p)) p
     | External l \<Rightarrow> setC1 x l p)"

definition poll_c2 :: "pia_port \<Rightarrow> 'e pia6520 \<Rightarrow> 'e pia6520" where
  "poll_c2 x p = (case ps_c2Line (side x p) of None \<Rightarrow> p | Some l \<Rightarrow> setC2 x l p)"

definition pia_tick :: "u64 \<Rightarrow> 'e pia6520 \<Rightarrow> 'e pia6520" where
  "pia_tick cycles p = poll_c2 PortB (poll_c1 PortB (poll_c2 PortA (poll_c1 PortA p)))"

section \<open>Register access\<close>

definition clear_flags :: "'e pia_side \<Rightarrow> 'e pia_side" where
  "clear_flags s =
     (let s1 = s\<lparr>ps_cr := ps_cr s AND NOT 0x80\<rparr>
      in if \<not> tst (ps_cr s1) 0x20 then s1\<lparr>ps_cr := ps_cr s1 AND NOT 0x40\<rparr> else s1)"

definition handshake_low :: "'e pia_side \<Rightarrow> 'e pia_side" where
  "handshake_low s = (if ps_cr s AND 0x38 = 0x20 then drive_c2 False s else s)"

definition on_pia_ext :: "('e, 'a) state \<Rightarrow> ('e pia6520, 'a) state" where
  "on_pia_ext m = State_Monad.State (\<lambda>p.
     let r = run_state m (pia_ext p) in (fst r, p\<lparr>pia_ext := snd r\<rparr>))"

definition pia_pins :: "bool \<Rightarrow> 'e pia_side \<Rightarrow> ('e pia6520, u8) state" where
  "pia_pins peek s = (case ps_dev s of
       Some d \<Rightarrow> do {
         pins \<leftarrow> on_pia_ext (if peek then pd_peekPort d else pd_readPort d);
         State_Monad.return ((ps_or s AND ps_ddr s) OR (pins AND NOT (ps_ddr s))) }
     | None \<Rightarrow> State_Monad.return (ps_or s))"

definition pia_readReg :: "bool \<Rightarrow> u32 \<Rightarrow> ('e pia6520, u8 option) state" where
  "pia_readReg peek addr = do {
     p \<leftarrow> State_Monad.get;
     (if addr AND NOT 0x0003 \<noteq> pia_baseAddr p then State_Monad.return None
      else let k = unat (addr AND 0x03) in
        if k = 0 then
          (if tst (ps_cr (pia_a p)) 0x04 then do {
             v \<leftarrow> pia_pins peek (pia_a p);
             (if peek then skip
              else modify (\<lambda>p. pia_updateIrq (on_side PortA (\<lambda>s. clear_flags (handshake_low s)) p)));
             State_Monad.return (Some v) }
           else State_Monad.return (Some (ps_ddr (pia_a p))))
        else if k = 1 then State_Monad.return (Some (ps_cr (pia_a p)))
        else if k = 2 then
          (if tst (ps_cr (pia_b p)) 0x04 then do {
             v \<leftarrow> pia_pins peek (pia_b p);
             (if peek then skip else modify (\<lambda>p. pia_updateIrq (on_side PortB clear_flags p)));
             State_Monad.return (Some v) }
           else State_Monad.return (Some (ps_ddr (pia_b p))))
        else State_Monad.return (Some (ps_cr (pia_b p)))) }"

definition pia_ioRead :: "u32 \<Rightarrow> ('e pia6520, u8 option) state" where
  "pia_ioRead addr = pia_readReg False addr"

definition pia_ioPeek :: "u32 \<Rightarrow> ('e pia6520, u8 option) state" where
  "pia_ioPeek addr = pia_readReg True addr"

definition write_out :: "pia_port \<Rightarrow> u8 \<Rightarrow> 'e pia6520 \<Rightarrow> 'e pia6520" where
  "write_out x val p =
     (let s = side x p; e1 = (case ps_dev s of Some d \<Rightarrow> pd_writePort d val (pia_ext p) | None \<Rightarrow> pia_ext p);
          e2 = (case ps_writeCb s of Some f \<Rightarrow> f val e1 | None \<Rightarrow> e1)
      in (on_side x (\<lambda>s. s\<lparr>ps_or := val\<rparr>) p)\<lparr>pia_ext := e2\<rparr>)"

definition write_direction :: "pia_port \<Rightarrow> u8 \<Rightarrow> 'e pia6520 \<Rightarrow> 'e pia6520" where
  "write_direction x val p =
     (on_side x (\<lambda>s. s\<lparr>ps_ddr := val\<rparr>) p)\<lparr>pia_ext := (case ps_dev (side x p) of
        Some d \<Rightarrow> pd_setDdr d val (pia_ext p) | None \<Rightarrow> pia_ext p)\<rparr>"

definition write_control :: "u8 \<Rightarrow> 'e pia_side \<Rightarrow> 'e pia_side" where
  "write_control val s =
     (let s1 = s\<lparr>ps_cr := (ps_cr s AND 0xC0) OR (val AND 0x3F)\<rparr>
      in if ps_cr s1 AND 0x38 = 0x30 then drive_c2 False s1
         else if ps_cr s1 AND 0x38 = 0x38 then drive_c2 True s1 else s1)"

definition pia_writeReg :: "nat \<Rightarrow> u8 \<Rightarrow> 'e pia6520 \<Rightarrow> 'e pia6520" where
  "pia_writeReg k val p =
     (if k = 0 then (if tst (ps_cr (pia_a p)) 0x04 then write_out PortA val p else write_direction PortA val p)
      else if k = 1 then pia_updateIrq (on_side PortA (write_control val) p)
      else if k = 2 then
        (if tst (ps_cr (pia_b p)) 0x04
         then pia_updateIrq (on_side PortB (\<lambda>s. clear_flags (handshake_low s)) (write_out PortB val p))
         else write_direction PortB val p)
      else pia_updateIrq (on_side PortB (write_control val) p))"

definition pia_ioWrite :: "u32 \<Rightarrow> u8 \<Rightarrow> ('e pia6520, bool) state" where
  "pia_ioWrite addr val = do {
     p \<leftarrow> State_Monad.get;
     (if addr AND NOT 0x0003 \<noteq> pia_baseAddr p then State_Monad.return False
      else do { modify (pia_writeReg (unat (addr AND 0x03)) val); State_Monad.return True }) }"

section \<open>Snapshots\<close>

record pia_snapshot =
  pn_ora :: u8
  pn_ddra :: u8
  pn_cra :: u8
  pn_orb :: u8
  pn_ddrb :: u8
  pn_crb :: u8
  pn_ca1Prev :: bool
  pn_ca2Prev :: bool
  pn_cb1Prev :: bool
  pn_cb2Prev :: bool

definition pia_getSnapshot :: "'e pia6520 \<Rightarrow> pia_snapshot" where
  "pia_getSnapshot p = \<lparr>pn_ora = ps_or (pia_a p), pn_ddra = ps_ddr (pia_a p), pn_cra = ps_cr (pia_a p),
     pn_orb = ps_or (pia_b p), pn_ddrb = ps_ddr (pia_b p), pn_crb = ps_cr (pia_b p),
     pn_ca1Prev = ps_c1Prev (pia_a p), pn_ca2Prev = ps_c2Prev (pia_a p),
     pn_cb1Prev = ps_c1Prev (pia_b p), pn_cb2Prev = ps_c2Prev (pia_b p)\<rparr>"

definition pia_restoreSnapshot :: "pia_snapshot \<Rightarrow> 'e pia6520 \<Rightarrow> 'e pia6520" where
  "pia_restoreSnapshot n p = pia_updateIrq (p\<lparr>
     pia_a := (pia_a p)\<lparr>ps_or := pn_ora n, ps_ddr := pn_ddra n, ps_cr := pn_cra n, ps_c1Prev := pn_ca1Prev n, ps_c2Prev := pn_ca2Prev n\<rparr>,
     pia_b := (pia_b p)\<lparr>ps_or := pn_orb n, ps_ddr := pn_ddrb n, ps_cr := pn_crb n, ps_c1Prev := pn_cb1Prev n, ps_c2Prev := pn_cb2Prev n\<rparr>\<rparr>)"

definition pia_handler :: "nat \<Rightarrow> string \<Rightarrow> u32 \<Rightarrow> 'e pia6520 io_handler" where
  "pia_handler i n base = \<lparr>ioh_id = i, ioh_name = n, ioh_base = base, ioh_read = pia_ioRead, ioh_peek = pia_ioPeek,
     ioh_write = pia_ioWrite, ioh_reset = pia_reset, ioh_tick = pia_tick, ioh_isHaltRequested = (\<lambda>_. False)\<rparr>"

lemma pia_declines: "a AND NOT 0x3 \<noteq> base \<Longrightarrow> pia_baseAddr d = base \<Longrightarrow> declines (pia_handler i n base) a d"
  by (simp add: declines_def pia_handler_def pia_ioRead_def pia_ioPeek_def pia_ioWrite_def pia_readReg_def)


section \<open>The interrupt lines\<close>

text \<open>A side is in step when its line shows its interrupt condition; \<open>side_weak\<close> survives in between.\<close>

definition side_weak :: "'e pia_side \<Rightarrow> bool" where
  "side_weak s \<longleftrightarrow> ps_irqLine s = None \<or> ps_irqLine s = Some (ps_lastIrq s)"

definition side_ok :: "'e pia_side \<Rightarrow> bool" where
  "side_ok s \<longleftrightarrow> side_weak s \<and> ps_lastIrq s = side_irq s"

definition pia_ok :: "'e pia6520 \<Rightarrow> bool" where
  "pia_ok p \<longleftrightarrow> side_ok (pia_a p) \<and> side_ok (pia_b p)"

named_theorems pia_intro \<open>what keeps the interrupt lines in step\<close>

lemma weak_fields [simp]:
  "side_weak (s\<lparr>ps_cr := v\<rparr>) = side_weak s" "side_weak (s\<lparr>ps_or := v\<rparr>) = side_weak s"
  "side_weak (s\<lparr>ps_ddr := v\<rparr>) = side_weak s" "side_weak (s\<lparr>ps_c1Prev := b\<rparr>) = side_weak s"
  "side_weak (s\<lparr>ps_c2Prev := b\<rparr>) = side_weak s" "side_weak (s\<lparr>ps_conduit := b\<rparr>) = side_weak s"
  "side_weak (drive_c2 b s) = side_weak s"
  by (simp_all add: side_weak_def drive_c2_def)

lemma weak_if [simp]: "side_weak (if b then s else t) = (if b then side_weak s else side_weak t)"
  by simp

lemma irq_fields [simp]:
  "side_irq (s\<lparr>ps_or := v\<rparr>) = side_irq s" "side_irq (s\<lparr>ps_ddr := v\<rparr>) = side_irq s"
  "side_irq (s\<lparr>ps_c1Prev := b\<rparr>) = side_irq s" "side_irq (s\<lparr>ps_c2Prev := b\<rparr>) = side_irq s"
  "side_irq (s\<lparr>ps_conduit := b\<rparr>) = side_irq s" "side_irq (drive_c2 b s) = side_irq s"
  by (simp_all add: side_irq_def drive_c2_def)

lemma ok_fields [simp]:
  "side_ok (s\<lparr>ps_or := v\<rparr>) = side_ok s" "side_ok (s\<lparr>ps_ddr := v\<rparr>) = side_ok s"
  "side_ok (s\<lparr>ps_c1Prev := b\<rparr>) = side_ok s" "side_ok (s\<lparr>ps_c2Prev := b\<rparr>) = side_ok s"
  "side_ok (s\<lparr>ps_conduit := b\<rparr>) = side_ok s" "side_ok (drive_c2 b s) = side_ok s"
  by (simp_all add: side_ok_def) (simp_all add: drive_c2_def)

lemma side_updateIrq_ok: "side_weak s \<Longrightarrow> side_ok (side_updateIrq s)"
  by (auto simp: side_updateIrq_def Let_def side_ok_def side_weak_def side_irq_def)

lemma side_ok_weak: "side_ok s \<Longrightarrow> side_weak s"
  by (simp add: side_ok_def)

lemma side_keeps [simp]: "side_weak (clear_flags s) = side_weak s" "side_weak (handshake_low s) = side_weak s"
    "side_weak (write_control v s) = side_weak s"
  by (simp_all add: clear_flags_def handshake_low_def write_control_def Let_def)

declare on_side.simps [simp del]

lemma pia_update_ok:
  assumes "pia_ok p" and "\<And>s. side_weak (f s) = side_weak s"
  shows "pia_ok (pia_updateIrq (on_side x f p))"
  using assms side_ok_weak [of "pia_a p"] side_ok_weak [of "pia_b p"]
  by (cases x) (simp_all add: on_side.simps pia_updateIrq_def pia_ok_def side_updateIrq_ok)

lemma pia_field_ok [pia_intro]: "pia_ok p \<Longrightarrow> (\<And>s. side_ok (f s) = side_ok s) \<Longrightarrow> pia_ok (on_side x f p)"
  by (cases x) (simp_all add: on_side.simps pia_ok_def)

lemma pia_ext_ok [simp]: "pia_ok (p\<lparr>pia_ext := e\<rparr>) = pia_ok p"
  by (simp add: pia_ok_def)

lemma setC_ok [pia_intro]: "pia_ok p \<Longrightarrow> pia_ok (setC1 x l p)" "pia_ok p \<Longrightarrow> pia_ok (setC2 x l p)"
  unfolding setC1_def setC2_def Let_def by (auto intro!: pia_field_ok pia_update_ok split: if_splits)

lemma tick_ok [pia_intro]: "pia_ok p \<Longrightarrow> pia_ok (pia_tick n p)"
proof -
  have "pia_ok p \<Longrightarrow> pia_ok (poll_c1 x p)" "pia_ok p \<Longrightarrow> pia_ok (poll_c2 x p)" for x and p :: "'a pia6520"
    by (simp_all add: poll_c1_def poll_c2_def pia_intro split: pia_line.split option.split)
  then show "pia_ok p \<Longrightarrow> ?thesis" by (simp add: pia_tick_def)
qed

lemma write_ok [pia_intro]: "pia_ok p \<Longrightarrow> pia_ok (pia_writeReg k v p)"
  unfolding pia_writeReg_def write_out_def write_direction_def Let_def
  by (auto intro!: pia_update_ok pia_field_ok)

lemma run_on_pia_ext [simp]:
  "run_state (on_pia_ext m) p = (result m (pia_ext p), p\<lparr>pia_ext := final m (pia_ext p)\<rparr>)"
  by (simp add: on_pia_ext_def Let_def)

lemma pins_ok [simp]: "pia_ok (final (pia_pins peek s) p) = pia_ok p"
  by (simp add: pia_pins_def case_prod_beta Let_def split: option.split)

lemma read_ok [pia_intro]: "pia_ok p \<Longrightarrow> pia_ok (final (pia_readReg peek a) p)"
  by (auto simp: pia_readReg_def case_prod_beta Let_def intro!: pia_update_ok)

section \<open>Correctness\<close>

datatype pia_op =
    PRead u32 | PPeek u32 | PWrite u32 u8 | PTick u64 | PConduit pia_port bool | PSetC1 pia_port bool
  | PSetC2 pia_port bool | PRestore pia_snapshot

primrec pia_do :: "pia_op \<Rightarrow> 'e pia6520 \<Rightarrow> 'e pia6520" where
  "pia_do (PRead a) p = final (pia_ioRead a) p"
| "pia_do (PPeek a) p = final (pia_ioPeek a) p"
| "pia_do (PWrite a v) p = final (pia_ioWrite a v) p"
| "pia_do (PTick n) p = pia_tick n p"
| "pia_do (PConduit x l) p = conduit_set x l p"
| "pia_do (PSetC1 x l) p = setC1 x l p"
| "pia_do (PSetC2 x l) p = setC2 x l p"
| "pia_do (PRestore n) p = pia_restoreSnapshot n p"

definition pia_attached ::
  "u32 \<Rightarrow> 'e \<Rightarrow> (pia_port \<Rightarrow> 'e port_device option) \<Rightarrow> (pia_port \<Rightarrow> bool option) \<Rightarrow> (pia_port \<Rightarrow> bool option) \<Rightarrow> 'e pia6520" where
  "pia_attached base e dev irq c2 = (let conn = (\<lambda>x. on_side x (\<lambda>s. s\<lparr>ps_dev := dev x,
      ps_irqLine := map_option (\<lambda>_. False) (irq x), ps_c2Line := c2 x\<rparr>)) in conn PortB (conn PortA (pia_new base e)))"

lemma pia_do_ok: "pia_ok p \<Longrightarrow> pia_ok (pia_do x p)"
proof -
  assume p: "pia_ok p"
  have c: "pia_ok (conduit_set x l p)" for x l
    using p by (auto simp: conduit_set_def intro!: pia_intro)
  have "pia_ok (pia_restoreSnapshot n p)" for n
    using p by (simp add: pia_restoreSnapshot_def pia_ok_def pia_updateIrq_def on_side.simps side_updateIrq_ok side_ok_weak)
  then show ?thesis using p c
    by (cases x) (simp_all add: pia_ioRead_def pia_ioPeek_def pia_ioWrite_def case_prod_beta pia_intro)
qed

lemma pia_run_ok: "pia_ok p \<Longrightarrow> pia_ok (fold pia_do xs p)"
  by (induction xs arbitrary: p) (auto simp: pia_do_ok)

lemma pia_attached_ok: "pia_ok (pia_attached base e dev irq c2)"
  by (simp add: pia_attached_def pia_new_def pia_reset_def side_reset_def side_new_def pia_ok_def side_ok_def
      side_weak_def side_irq_def Let_def on_side.simps)
    (auto simp: map_option_case split: option.split)

text \<open>
  Through every sequence of accesses, ticks, control line changes and snapshot restores each of
  the two interrupt lines of the 6520 is asserted exactly when one of its two flags is set and
  enabled by the control register.
\<close>

theorem pia_irq_coherent:
  fixes base :: u32 and e :: 'e and xs :: "pia_op list"
  defines "p \<equiv> \<lambda>dev irq c2. fold pia_do xs (pia_attached base e dev irq c2)"
  shows "\<forall>x. ps_irqLine (side x (p dev irq c2)) \<in>
    {None, Some (bit (ps_cr (side x (p dev irq c2))) 7 \<and> bit (ps_cr (side x (p dev irq c2))) 0 \<or>
                 bit (ps_cr (side x (p dev irq c2))) 6 \<and> bit (ps_cr (side x (p dev irq c2))) 3)}"
proof
  fix x
  have "pia_ok (p dev irq c2)" unfolding p_def by (rule pia_run_ok [OF pia_attached_ok])
  then show "ps_irqLine (side x (p dev irq c2)) \<in>
    {None, Some (bit (ps_cr (side x (p dev irq c2))) 7 \<and> bit (ps_cr (side x (p dev irq c2))) 0 \<or>
                 bit (ps_cr (side x (p dev irq c2))) 6 \<and> bit (ps_cr (side x (p dev irq c2))) 3)}"
    by (cases x) (auto simp: pia_ok_def side_ok_def side_weak_def side_irq_def tst_bit)
qed

text \<open>A side that is at rest: no flag, and nothing that could raise one.\<close>

definition at_rest :: "'e pia_side \<Rightarrow> bool" where
  "at_rest s \<longleftrightarrow> ps_irqLine s = Some True \<and> ps_cr s = 0 \<and> \<not> ps_lastIrq s \<and> ps_c1Line s = Conduit \<and>
     ps_conduit s \<and> ps_c1Prev s \<and> ps_c2Line s = None"

lemma rest_update [simp]: "at_rest s \<Longrightarrow> side_updateIrq s = s"
  by (simp add: at_rest_def side_updateIrq_def side_irq_def)

lemma rest_tick: "at_rest (pia_a p) \<Longrightarrow> at_rest (pia_a (pia_tick n p))"
proof -
  have b: "at_rest (pia_a (setC1 PortB l p))" "at_rest (pia_a (setC2 PortB l p))" if "at_rest (pia_a p)" for l and p :: "'a pia6520"
    using that by (simp_all add: setC1_def setC2_def Let_def on_side.simps pia_updateIrq_def)
  have "at_rest (pia_a (poll_c1 PortA p))" if "at_rest (pia_a p)" for p :: "'a pia6520"
    using that by (auto simp: poll_c1_def at_rest_def setC1_def Let_def on_side.simps active_transition_def)
  moreover have "at_rest (pia_a (poll_c2 PortA p))" if "at_rest (pia_a p)" for p :: "'a pia6520"
    using that by (simp add: poll_c2_def at_rest_def)
  ultimately show "at_rest (pia_a p) \<Longrightarrow> ?thesis" using b
    by (simp add: pia_tick_def poll_c1_def [of PortB] poll_c2_def [of PortB] split: pia_line.split option.split)
qed

text \<open>
  A reset forgets an interrupt without releasing its line: the line of the reset chip stays asserted
  through any number of ticks although no flag is set.
\<close>

theorem pia_reset_leaves_irq:
  assumes "ps_irqLine (pia_a p) = Some True" and "ps_c1Line (pia_a p) = Conduit" and "ps_conduit (pia_a p)"
    and "ps_c2Line (pia_a p) = None"
  shows "ps_irqLine (pia_a ((pia_tick 1 ^^ n) (pia_reset p))) = Some True \<and>
    ps_cr (pia_a ((pia_tick 1 ^^ n) (pia_reset p))) = 0"
proof -
  have "at_rest (pia_a (pia_reset p))"
    using assms by (simp add: pia_reset_def side_reset_def at_rest_def on_side.simps)
  then have "at_rest (pia_a ((pia_tick 1 ^^ n) (pia_reset p)))" by (induction n) (simp_all add: rest_tick)
  then show ?thesis by (simp add: at_rest_def)
qed

theorem pia_reset_leaves_irq_witness:
  "let p = fold pia_do [PWrite 0xE811 0x05, PConduit PortA False, PConduit PortA True]
       (pia_attached 0xE810 () (\<lambda>_. None) (\<lambda>_. Some False) (\<lambda>_. None))
   in ps_irqLine (pia_a ((pia_tick 1 ^^ 1000) (pia_reset p))) = Some True"
proof -
  let ?p = "fold pia_do [PWrite 0xE811 0x05, PConduit PortA False, PConduit PortA True]
       (pia_attached 0xE810 () (\<lambda>_. None) (\<lambda>_. Some False) (\<lambda>_. None))"
  have "ps_irqLine (pia_a ?p) = Some True" "ps_c1Line (pia_a ?p) = Conduit" "ps_conduit (pia_a ?p)" "ps_c2Line (pia_a ?p) = None"
    by (simp_all add: pia_attached_def pia_new_def pia_reset_def side_reset_def side_new_def Let_def on_side.simps
        pia_ioWrite_def pia_writeReg_def write_control_def conduit_set_def setC1_def active_transition_def
        pia_updateIrq_def side_updateIrq_def side_irq_def tst_def)
  from pia_reset_leaves_irq [OF this, of 1000] show ?thesis unfolding Let_def by blast
qed

text \<open>
  The read handshake of port A works: with CA2 in handshake mode reading the data register
  acknowledges the flag and pulls CA2 low, and the next active edge on CA1 raises it again, sets the
  flag and asserts the interrupt line if that is enabled.
\<close>

theorem pia_read_handshake:
  fixes p :: "'e pia6520" and a :: u32
  assumes "pia_ok p" and "a AND NOT 0x3 = pia_baseAddr p" and "a AND 0x3 = 0"
    and "ps_cr (pia_a p) AND 0x3C = 0x24" and "ps_c2Line (pia_a p) \<noteq> None"
  defines "r \<equiv> final (pia_ioRead a) p"
  defines "e \<equiv> setC1 PortA (bit (ps_cr (pia_a p)) 1) (r\<lparr>pia_a := (pia_a r)\<lparr>ps_c1Prev := \<not> bit (ps_cr (pia_a p)) 1\<rparr>\<rparr>)"
  shows "\<not> bit (ps_cr (pia_a r)) 7 \<and> ps_c2Line (pia_a r) = Some False \<and>
    bit (ps_cr (pia_a e)) 7 \<and> ps_c2Line (pia_a e) = Some True \<and>
    (bit (ps_cr (pia_a p)) 0 \<longrightarrow> ps_irqLine (pia_a e) \<noteq> Some False)"
proof -
  let ?s = "pia_a p" and ?b = "bit (ps_cr (pia_a p)) 1"
  have bits: "bit (ps_cr ?s AND 0x3C) n = bit (0x24 :: u8) n" for n using assms(4) by simp
  have c: "bit (ps_cr ?s) 2" "\<not> bit (ps_cr ?s) 3" "\<not> bit (ps_cr ?s) 4" "bit (ps_cr ?s) 5"
    using bits [of 2] bits [of 3] bits [of 4] bits [of 5] by (simp_all add: bit_simps)
  have m: "x AND 0x38 = 0x20" if "\<not> bit x 3" "\<not> bit x 4" "bit x 5" for x :: u8
  proof (rule u8_eqI)
    fix n :: nat
    assume "n < 8"
    then have "n = 0 \<or> n = 1 \<or> n = 2 \<or> n = 3 \<or> n = 4 \<or> n = 5 \<or> n = 6 \<or> n = 7" by linarith
    then show "bit (x AND 0x38) n = bit (0x20 :: u8) n" using that by (elim disjE) (simp_all add: bit_simps)
  qed
  have keep [simp]: "ps_cr (side_updateIrq s) = ps_cr s" "ps_c2Line (side_updateIrq s) = ps_c2Line s" for s :: "'e pia_side"
    by (simp_all add: side_updateIrq_def Let_def)
  have pins: "pia_a (final (pia_pins False s) p) = pia_a p" for s
    by (simp add: pia_pins_def case_prod_beta Let_def split: option.split)
  have "ps_cr (handshake_low ?s) = ps_cr ?s" "ps_c2Line (handshake_low ?s) = Some False"
    using assms(5) m c by (auto simp: handshake_low_def drive_c2_def)
  then have r: "ps_cr (pia_a r) = ps_cr ?s AND NOT 0x80" "ps_c2Line (pia_a r) = Some False"
    using assms(2,3) c pins
    by (simp_all add: r_def pia_ioRead_def pia_readReg_def case_prod_beta tst_bit pia_updateIrq_def on_side.simps
        clear_flags_def Let_def bit_simps)
  have ok: "pia_ok r" unfolding r_def pia_ioRead_def by (rule read_ok [OF assms(1)])
  let ?r = "r\<lparr>pia_a := (pia_a r)\<lparr>ps_c1Prev := \<not> ?b\<rparr>\<rparr>"
  have edge: "active_transition (tst (ps_cr (pia_a ?r)) 0x02) (ps_c1Prev (pia_a ?r)) ?b"
    by (simp add: r tst_bit active_transition_def bit_simps)
  define t where "t = drive_c2 True ((pia_a ?r)\<lparr>ps_cr := ps_cr (pia_a r) OR 0x80\<rparr>)"
  have "(ps_cr (pia_a r) OR 0x80) AND 0x38 = 0x20" by (rule m) (simp_all add: r c bit_simps)
  then have e: "pia_a e = (side_updateIrq t)\<lparr>ps_c1Prev := ?b\<rparr>"
    unfolding e_def setC1_def side.simps Let_def if_P [OF edge] by (simp add: pia_updateIrq_def on_side.simps t_def)
  have w: "side_weak t" using ok by (simp add: t_def pia_ok_def side_ok_weak)
  have "ps_cr t = ps_cr (pia_a r) OR 0x80" "ps_c2Line t = Some True" by (simp_all add: t_def drive_c2_def r)
  moreover have "ps_irqLine (side_updateIrq t) \<noteq> Some False" if "bit (ps_cr ?s) 0"
  proof -
    have "side_irq t" using that by (simp add: side_irq_def t_def drive_c2_def r tst_bit bit_simps)
    then have "side_irq (side_updateIrq t)" by (simp add: side_irq_def)
    then show ?thesis using side_updateIrq_ok [OF w] by (auto simp: side_ok_def side_weak_def)
  qed
  ultimately show ?thesis using r by (simp add: e bit_simps)
qed

theorem pia_read_handshake_witness:
  "let p = fold pia_do [PWrite 0xE811 0x25] (pia_attached 0xE810 () (\<lambda>_. None) (\<lambda>_. Some False) (\<lambda>_. Some True));
       r = final (pia_ioRead 0xE810) p
   in ps_c2Line (pia_a r) = Some False"
proof -
  define p where "p = fold pia_do [PWrite 0xE811 0x25] (pia_attached 0xE810 () (\<lambda>_. None) (\<lambda>_. Some False) (\<lambda>_. Some True))"
  have ok: "pia_ok p" unfolding p_def by (rule pia_run_ok [OF pia_attached_ok])
  have f: "ps_cr (pia_a p) = 0x25" "ps_c2Line (pia_a p) = Some True" "pia_baseAddr p = 0xE810"
    by (simp_all add: p_def pia_attached_def pia_new_def pia_reset_def side_reset_def side_new_def Let_def on_side.simps
        pia_ioWrite_def pia_writeReg_def write_control_def pia_updateIrq_def side_updateIrq_def side_irq_def tst_def)
  show ?thesis
    using pia_read_handshake [OF ok, where a = "0xE810"] unfolding Let_def p_def [symmetric] by (simp add: f)
qed

end
