(* ===== verification/BasicTokenizer.thy ===== *)
theory BasicTokenizer
  imports Prelude
begin

text \<open>
  The BASIC tokenizer (\<open>libtoolchain/main/basic_tokenizer.h\<close>, \<open>basic_tokenizer.cpp\<close>): text to a program
  file. A position in a line is the rest of the line from there. The C functions it calls
  (\<open>isdigit\<close>, \<open>tolower\<close>, \<open>strtol\<close>, ...) are those of the C locale.
\<close>

section \<open>Characters and numbers\<close>

definition code :: "char \<Rightarrow> nat" where
  "code c = of_char c"

definition isdigit :: "char \<Rightarrow> bool" where
  "isdigit c \<longleftrightarrow> 48 \<le> code c \<and> code c \<le> 57"

definition c_tolower :: "char \<Rightarrow> char" where
  "c_tolower c = (if 65 \<le> code c \<and> code c \<le> 90 then char_of (code c + 32) else c)"

definition c_toupper :: "char \<Rightarrow> char" where
  "c_toupper c = (if 97 \<le> code c \<and> code c \<le> 122 then char_of (code c - 32) else c)"

definition isspace :: "char \<Rightarrow> bool" where
  "isspace c \<longleftrightarrow> code c = 32 \<or> 9 \<le> code c \<and> code c \<le> 13"

definition blank :: "char \<Rightarrow> bool" where
  "blank c \<longleftrightarrow> code c = 32 \<or> code c = 9"

definition digit_value :: "char \<Rightarrow> nat option" where
  "digit_value c = (if isdigit c then Some (code c - 48)
     else if 97 \<le> code (c_tolower c) \<and> code (c_tolower c) \<le> 122 then Some (code (c_tolower c) - 87) else None)"

fun scan_digits :: "nat \<Rightarrow> int \<Rightarrow> string \<Rightarrow> int" where
  "scan_digits base n [] = n"
| "scan_digits base n (c # cs) = (case digit_value c of
     Some d \<Rightarrow> if d < base then scan_digits base (n * int base + int d) cs else n
   | None \<Rightarrow> n)"

definition strip_0x :: "nat \<Rightarrow> string \<Rightarrow> string" where
  "strip_0x base s = (if base = 16 \<and> 2 < length s \<and> code (s ! 0) = 48 \<and> code (c_tolower (s ! 1)) = 120 \<and>
       (case digit_value (s ! 2) of Some d \<Rightarrow> d < 16 | None \<Rightarrow> False) then drop 2 s else s)"

definition strtol :: "nat \<Rightarrow> string \<Rightarrow> int" where
  "strtol base s0 =
     (let s = dropWhile isspace s0; neg = (s \<noteq> [] \<and> code (hd s) = 45);
          s = (if s \<noteq> [] \<and> (code (hd s) = 45 \<or> code (hd s) = 43) then tl s else s);
          n = scan_digits base 0 (strip_0x base s)
      in if neg then max (- (2 ^ 63)) (- n) else min (2 ^ 63 - 1) n)"

definition to_int :: "int \<Rightarrow> int" where
  "to_int x = signed_take_bit 31 x"

definition atoi :: "string \<Rightarrow> int" where
  "atoi s = to_int (strtol 10 s)"

section \<open>The tables\<close>

definition basic2_names :: "string list" where
  "basic2_names = [
     ''END'', ''FOR'', ''NEXT'', ''DATA'', ''INPUT#'', ''INPUT'', ''DIM'', ''READ'', ''LET'', ''GOTO'', ''RUN'',
     ''IF'', ''RESTORE'', ''GOSUB'', ''RETURN'', ''REM'', ''STOP'', ''ON'', ''WAIT'', ''LOAD'', ''SAVE'', ''VERIFY'',
     ''DEF'', ''POKE'', ''PRINT#'', ''PRINT'', ''CONT'', ''LIST'', ''CLR'', ''CMD'', ''SYS'', ''OPEN'', ''CLOSE'',
     ''GET'', ''NEW'', ''TAB('', ''TO'', ''FN'', ''SPC('', ''THEN'', ''NOT'', ''STEP'', ''+'', ''-'', ''*'', ''/'',
     ''^'', ''AND'', ''OR'', ''>'', ''='', ''<'', ''SGN'', ''INT'', ''ABS'', ''USR'', ''FRE'', ''POS'', ''SQR'',
     ''RND'', ''LOG'', ''EXP'', ''COS'', ''SIN'', ''TAN'', ''ATN'', ''PEEK'', ''LEN'', ''STR$'', ''VAL'', ''ASC'',
     ''CHR$'', ''LEFT$'', ''RIGHT$'', ''MID$'', ''GO'']"

definition basic2Table :: "(string \<times> u8 list) list" where
  "basic2Table = map2 (\<lambda>n k. (n, [of_nat (0x80 + k)])) basic2_names [0..<length basic2_names]"

definition basic65Extra :: "(string \<times> u8 list) list" where
  "basic65Extra = [
     (''RGRAPHIC'', [0xCC]), (''RCOLOR'', [0xCD]), (''JOY'', [0xCF]), (''RPEN'', [0xD0]), (''DEC'', [0xD1]),
     (''HEX$'', [0xD2]), (''ERR$'', [0xD3]), (''INSTR'', [0xD4]), (''ELSE'', [0xD5]), (''RESUME'', [0xD6]),
     (''TRAP'', [0xD7]), (''TRON'', [0xD8]), (''TROFF'', [0xD9]), (''SOUND'', [0xDA]), (''VOL'', [0xDB]),
     (''AUTO'', [0xDC]), (''GRAPHIC'', [0xDE]), (''PAINT'', [0xDF]), (''CHAR'', [0xE0]), (''BOX'', [0xE1]),
     (''CIRCLE'', [0xE2]), (''LINE'', [0xE5]), (''MERGE'', [0xE6]), (''COLOR'', [0xE7]), (''SCNCLR'', [0xE8]),
     (''XOR'', [0xE9]), (''HELP'', [0xEA]), (''DO'', [0xEB]), (''LOOP'', [0xEC]), (''WHILE'', [0xED]),
     (''DIR'', [0xEE]), (''DSAVE'', [0xEF]), (''DLOAD'', [0xF0]), (''HEADER'', [0xF1]), (''SCRATCH'', [0xF2]),
     (''COLLECT'', [0xF3]), (''COPY'', [0xF4]), (''RENAME'', [0xF5]), (''BACKUP'', [0xF6]), (''DELETE'', [0xF7]),
     (''RENUMBER'', [0xF8]), (''KEY'', [0xF9]), (''MONITOR'', [0xFA]), (''USING'', [0xFB]), (''UNTIL'', [0xFC]),
     (''EXIT'', [0xFD]), (''POT'', [0xCE, 0x02]), (''BUMP'', [0xCE, 0x03]), (''LPEN'', [0xCE, 0x04]),
     (''RSPPOS'', [0xCE, 0x05]), (''RSPRITE'', [0xCE, 0x06]), (''RSPCOLOR'', [0xCE, 0x07]),
     (''LOG10'', [0xCE, 0x08]), (''RWINDOW'', [0xCE, 0x09]), (''POINTER'', [0xCE, 0x0A]), (''PIXEL'', [0xCE, 0x0C]),
     (''BANK'', [0xFE, 0x02]), (''FILTER'', [0xFE, 0x03]), (''PLAY'', [0xFE, 0x04]), (''TEMPO'', [0xFE, 0x05]),
     (''MOVSPR'', [0xFE, 0x06]), (''SPRITE'', [0xFE, 0x07]), (''SPRCOLOR'', [0xFE, 0x08]), (''RREG'', [0xFE, 0x09]),
     (''ENVELOPE'', [0xFE, 0x0A]), (''SLEEP'', [0xFE, 0x0B]), (''CATALOG'', [0xFE, 0x0C]), (''DOPEN'', [0xFE, 0x0D]),
     (''APPEND'', [0xFE, 0x0E]), (''DCLOSE'', [0xFE, 0x0F]), (''BSAVE'', [0xFE, 0x10]), (''BLOAD'', [0xFE, 0x11]),
     (''RECORD'', [0xFE, 0x12]), (''CONCAT'', [0xFE, 0x13]), (''DVERIFY'', [0xFE, 0x14]), (''DCLEAR'', [0xFE, 0x15]),
     (''SPRSAV'', [0xFE, 0x16]), (''COLLISION'', [0xFE, 0x17]), (''BEGIN'', [0xFE, 0x18]), (''BEND'', [0xFE, 0x19]),
     (''WINDOW'', [0xFE, 0x1A]), (''BOOT'', [0xFE, 0x1B]), (''FREAD'', [0xFE, 0x1C]), (''FWRITE'', [0xFE, 0x1E]),
     (''DMA'', [0xFE, 0x1F]), (''EDMA'', [0xFE, 0x21]), (''OFF'', [0xFE, 0x24]), (''FAST'', [0xFE, 0x25]),
     (''SLOW'', [0xFE, 0x26]), (''TYPE'', [0xFE, 0x27]), (''BVERIFY'', [0xFE, 0x28]), (''ERASE'', [0xFE, 0x2A]),
     (''FIND'', [0xFE, 0x2B]), (''CHANGE'', [0xFE, 0x2C]), (''SET'', [0xFE, 0x2D]), (''SCREEN'', [0xFE, 0x2E]),
     (''POLYGON'', [0xFE, 0x2F]), (''ELLIPSE'', [0xFE, 0x30]), (''VIEWPORT'', [0xFE, 0x31]), (''PEN'', [0xFE, 0x33]),
     (''PALETTE'', [0xFE, 0x34]), (''DMODE'', [0xFE, 0x35]), (''DPAT'', [0xFE, 0x36]),
     (''FOREGROUND'', [0xFE, 0x39]), (''BACKGROUND'', [0xFE, 0x3B]), (''BORDER'', [0xFE, 0x3C]),
     (''HIGHLIGHT'', [0xFE, 0x3D]), (''MOUSE'', [0xFE, 0x3E]), (''RMOUSE'', [0xFE, 0x3F]), (''DISK'', [0xFE, 0x40]),
     (''RCURSOR'', [0xFE, 0x42]), (''LOADIFF'', [0xFE, 0x43]), (''FONT'', [0xFE, 0x46])]"

definition escapeNames :: "(string \<times> u8) list" where
  "escapeNames = [
     (''clr'', 0x93), (''home'', 0x13), (''up'', 0x91), (''down'', 0x11), (''left'', 0x9D), (''right'', 0x1D),
     (''rvs on'', 0x12), (''rvs off'', 0x92), (''rvon'', 0x12), (''rvof'', 0x92), (''del'', 0x14), (''inst'', 0x94),
     (''blk'', 0x90), (''wht'', 0x05), (''red'', 0x1C), (''cyn'', 0x9F), (''pur'', 0x9C), (''grn'', 0x1E),
     (''blu'', 0x1F), (''yel'', 0x9E), (''orng'', 0x81), (''brn'', 0x95), (''lred'', 0x96), (''gry1'', 0x97),
     (''gry2'', 0x98), (''lgrn'', 0x99), (''lblu'', 0x9A), (''gry3'', 0x9B), (''f1'', 0x85), (''f3'', 0x86),
     (''f5'', 0x87), (''f7'', 0x88), (''f2'', 0x89), (''f4'', 0x8A), (''f6'', 0x8B), (''f8'', 0x8C),
     (''return'', 0x0D), (''space'', 0x20), (''pi'', 0xFF)]"

datatype dialect = Basic2 | Basic65

definition token_table :: "dialect \<Rightarrow> (string \<times> u8 list) list" where
  "token_table d = (if d = Basic65 then basic2Table @ basic65Extra else basic2Table)"

definition defaultStart :: "dialect \<Rightarrow> u16" where
  "defaultStart d = (if d = Basic65 then 0x2001 else 0x0801)"

definition parseDialect :: "string \<Rightarrow> dialect option" where
  "parseDialect nameIn =
     (let n = map c_tolower nameIn
      in if n = ''basic2'' \<or> n = ''v2'' \<or> n = ''c64'' \<or> n = ''vic20'' \<or> n = ''pet'' then Some Basic2
         else if n = ''basic65'' \<or> n = ''65'' \<or> n = ''mega65'' \<or> n = ''basic10'' then Some Basic65
         else None)"

section \<open>One program line\<close>

text \<open>The messages, without the file name and line number put in front of them.\<close>

datatype tok_error =
    ExpectedNumber | NumberTooBig | DoesNotFollow int int | Unterminated | UnknownEscape string
  | NotInPetscii | CharNotInPetscii char | TooLong nat

record line_state =
  ls_inQuote :: bool
  ls_inRem :: bool
  ls_inData :: bool

definition iequalsPrefix :: "string \<Rightarrow> string \<Rightarrow> bool" where
  "iequalsPrefix s kw \<longleftrightarrow> length kw \<le> length s \<and> list_all2 (\<lambda>c k. c_toupper c = k) (take (length kw) s) kw"

fun longest_match :: "string \<Rightarrow> nat \<Rightarrow> u8 list option \<Rightarrow> (string \<times> u8 list) list \<Rightarrow> nat \<times> u8 list option" where
  "longest_match s bestLen best [] = (bestLen, best)"
| "longest_match s bestLen best ((kw, tok) # t) =
     (if length kw > bestLen \<and> iequalsPrefix s kw then longest_match s (length kw) (Some tok) t
      else longest_match s bestLen best t)"

definition escape_value :: "string \<Rightarrow> int" where
  "escape_value name =
     (if name \<noteq> [] \<and> code (hd name) = 36 then to_int (strtol 16 (tl name))
      else if name \<noteq> [] \<and> isdigit (hd name) then atoi name
      else case map_of escapeNames name of Some v \<Rightarrow> uint v | None \<Rightarrow> -1)"

text \<open>An escape, from the character after the brace; the result has the bytes and the length consumed.\<close>

definition escape :: "string \<Rightarrow> tok_error + u8 list \<times> nat" where
  "escape s =
     (let inner = takeWhile (\<lambda>c. code c \<noteq> 125) s; name0 = takeWhile (\<lambda>c. code c \<noteq> 42) inner;
          rep = (if name0 = inner then 1 else atoi (drop (length name0 + 1) inner));
          value = escape_value (map c_tolower name0)
      in if inner = s then Inl Unterminated
         else if value < 0 \<or> value > 255 \<or> rep < 1 then Inl (UnknownEscape inner)
         else Inr (replicate (nat rep) (word_of_int value), length inner + 2))"

definition utf8_table :: "(string \<times> u8) list" where
  "utf8_table = [(map char_of [0xC2 :: nat, 0xA3], 0x5C), (map char_of [0xCF :: nat, 0x80], 0xFF),
     (map char_of [0xE2 :: nat, 0x86, 0x91], 0x5E), (map char_of [0xE2 :: nat, 0x86, 0x90], 0x5F)]"

definition utf8_char :: "string \<Rightarrow> tok_error + u8 list \<times> nat" where
  "utf8_char s = (case List.find (\<lambda>(q, v). take (length q) s = q) utf8_table of
     Some (q, v) \<Rightarrow> Inr ([v], length q) | None \<Rightarrow> Inl NotInPetscii)"

definition petscii :: "char \<Rightarrow> u8 option" where
  "petscii c =
     (if 97 \<le> code c \<and> code c \<le> 122 then Some (of_nat (code c - 97 + 0x41))
      else if code c = 92 then Some 0x5C
      else if code c = 95 then Some 0x5F
      else if code c = 9 then Some 0x20
      else if 0x20 \<le> code c \<and> code c \<le> 0x5E then Some (of_nat (code c))
      else None)"

definition literal :: "line_state \<Rightarrow> char \<Rightarrow> bool" where
  "literal st c \<longleftrightarrow> ls_inQuote st \<or> ls_inRem st \<or> (ls_inData st \<and> code c \<noteq> 58)"

definition plain_char :: "line_state \<Rightarrow> char \<Rightarrow> tok_error + line_state \<times> u8 list \<times> nat" where
  "plain_char st c =
     (let st1 = (if code c = 34 then st\<lparr>ls_inQuote := \<not> ls_inQuote st\<rparr> else st);
          st2 = (if ls_inData st1 \<and> \<not> ls_inQuote st1 \<and> code c = 58 then st1\<lparr>ls_inData := False\<rparr> else st1)
      in case petscii c of Some v \<Rightarrow> Inr (st2, [v], 1) | None \<Rightarrow> Inl (CharNotInPetscii c))"

definition after_keyword :: "u8 list \<Rightarrow> line_state \<Rightarrow> line_state" where
  "after_keyword tok st =
     (let st1 = (if tok = [0x8F] then st\<lparr>ls_inRem := True\<rparr> else st)
      in if tok = [0x83] then st1\<lparr>ls_inData := True\<rparr> else st1)"

definition token_step ::
  "(string \<times> u8 list) list \<Rightarrow> line_state \<Rightarrow> string \<Rightarrow> tok_error + line_state \<times> u8 list \<times> nat" where
  "token_step table st s =
     (let c = hd s
      in if code c = 123 then (case escape (tl s) of Inl e \<Rightarrow> Inl e | Inr (bs, n) \<Rightarrow> Inr (st, bs, n))
         else if code c \<ge> 0x80 then (case utf8_char s of Inl e \<Rightarrow> Inl e | Inr (bs, n) \<Rightarrow> Inr (st, bs, n))
         else if \<not> literal st c then
           (if code c = 63 then Inr (st, [0x99], 1)
            else case longest_match s 0 None table of
                (n, Some tok) \<Rightarrow> Inr (after_keyword tok st, tok, n)
              | (n, None) \<Rightarrow> plain_char st c)
         else plain_char st c)"


lemma longest_match_longer:
  "longest_match s n best t = (m, r) \<Longrightarrow> n \<le> m \<and> (r \<noteq> best \<longrightarrow> n < m)"
  by (induction s n best t rule: longest_match.induct) (fastforce split: if_splits)+

lemma token_step_consumes:
  assumes "token_step table st s = Inr (st', bs, n)" and "s \<noteq> []"
  shows "0 < n"
proof -
  have u: "0 < n" if "utf8_char s = Inr (bs, n)" for bs n
    using that by (auto simp: utf8_char_def utf8_table_def split: option.splits if_splits)
  have e: "0 < n" if "escape t = Inr (bs, n)" for t bs n
    using that by (auto simp: escape_def Let_def split: if_splits)
  have p: "0 < n" if "plain_char st c = Inr (st', bs, n)" for c
    using that by (auto simp: plain_char_def Let_def split: option.splits)
  have k: "0 < m" if "longest_match s 0 None table = (m, Some tok)" for m tok
    using longest_match_longer [OF that] by simp
  show ?thesis
    using assms(1) u e p k
    by (auto simp: token_step_def Let_def split: if_splits sum.splits prod.splits option.splits)
qed

text \<open>The loop over a line: every step consumes at least one character.\<close>

function line_loop ::
  "(string \<times> u8 list) list \<Rightarrow> line_state \<Rightarrow> u8 list \<Rightarrow> string \<Rightarrow> tok_error + u8 list" where
  "line_loop table st out s =
     (if s = [] then Inr out
      else case token_step table st s of
          Inl e \<Rightarrow> Inl e
        | Inr (st', bs, n) \<Rightarrow> line_loop table st' (out @ bs) (drop n s))"
  by pat_completeness auto

termination line_loop
  by (relation "measure (\<lambda>(table, st, out, s). length s)") (auto dest!: token_step_consumes)

declare line_loop.simps [simp del]

definition line_start :: line_state where
  "line_start = \<lparr>ls_inQuote = False, ls_inRem = False, ls_inData = False\<rparr>"

fun scan_number :: "int \<Rightarrow> string \<Rightarrow> int \<times> string" where
  "scan_number n [] = (n, [])"
| "scan_number n (c # cs) =
     (if isdigit c
      then let n' = n * 10 + int (code c - 48) in if n' > 63999 then (n', c # cs) else scan_number n' cs
      else (n, c # cs))"

section \<open>The program\<close>

fun split_lines :: "string \<Rightarrow> string \<Rightarrow> string list" where
  "split_lines cur [] = (if cur = [] then [] else [rev cur])"
| "split_lines cur (c # cs) = (if code c = 10 then rev cur # split_lines [] cs else split_lines (c # cur) cs)"

definition strip_cr :: "string \<Rightarrow> string" where
  "strip_cr l = (if l \<noteq> [] \<and> code (last l) = 13 then butlast l else l)"

text \<open>What one text line adds: nothing, an error, or a numbered line.\<close>

datatype line_result = Skipped | LineError tok_error | Line int "u8 list"

record tok_state =
  tk_body :: "u8 list"
  tk_lastLineNo :: int
  tk_errors :: "(nat \<times> tok_error) list"

definition numbered_line :: "(string \<times> u8 list) list \<Rightarrow> int \<Rightarrow> string \<Rightarrow> line_result" where
  "numbered_line table lastNo line0 =
     (let s = dropWhile blank (strip_cr line0)
      in if s = [] \<or> code (hd s) = 59 \<or> code (hd s) = 35 then Skipped
         else if \<not> isdigit (hd s) then LineError ExpectedNumber
         else let (lineNo, rest) = scan_number 0 s
           in if lineNo > 63999 then LineError NumberTooBig
              else if lineNo \<le> lastNo then LineError (DoesNotFollow lineNo lastNo)
              else case line_loop table line_start [] (dropWhile blank rest) of
                  Inl e \<Rightarrow> LineError e
                | Inr out \<Rightarrow> Line lineNo out)"

text \<open>The line number counts as the last one even if the line itself is in error.\<close>

definition last_number :: "int \<Rightarrow> string \<Rightarrow> int" where
  "last_number lastNo line0 =
     (let s = dropWhile blank (strip_cr line0)
      in if s = [] \<or> \<not> isdigit (hd s) then lastNo
         else let n = fst (scan_number 0 s) in if n > 63999 \<or> n \<le> lastNo then lastNo else n)"

definition emit_line :: "u16 \<Rightarrow> int \<Rightarrow> u8 list \<Rightarrow> u8 list \<Rightarrow> u8 list" where
  "emit_line start lineNo out body =
     (let nxt = start + of_nat (length body + 4 + length out + 1)
      in body @ [lo8 nxt, hi8 nxt, word_of_int lineNo, word_of_int (lineNo div 256)] @ out @ [0])"

definition tok_line :: "(string \<times> u8 list) list \<Rightarrow> u16 \<Rightarrow> nat \<times> string \<Rightarrow> tok_state \<Rightarrow> tok_state" where
  "tok_line table start nl st =
     (let (k, line) = nl; st1 = st\<lparr>tk_lastLineNo := last_number (tk_lastLineNo st) line\<rparr>
      in case numbered_line table (tk_lastLineNo st) line of
          Skipped \<Rightarrow> st1
        | LineError e \<Rightarrow> st1\<lparr>tk_errors := tk_errors st1 @ [(k, e)]\<rparr>
        | Line n out \<Rightarrow>
            if length out > 250 then st1\<lparr>tk_errors := tk_errors st1 @ [(k, TooLong (length out))]\<rparr>
            else st1\<lparr>tk_body := emit_line start n out (tk_body st1)\<rparr>)"

definition tokenize_state :: "string \<Rightarrow> dialect \<Rightarrow> u16 \<Rightarrow> tok_state" where
  "tokenize_state text dialect start =
     fold (tok_line (token_table dialect) start) (zip [1..<Suc (length (split_lines [] text))] (split_lines [] text))
       \<lparr>tk_body = [], tk_lastLineNo = -1, tk_errors = []\<rparr>"

text \<open>The result: the errors, or the program file.\<close>

definition tokenize :: "string \<Rightarrow> dialect \<Rightarrow> u16 \<Rightarrow> u8 list \<times> (nat \<times> tok_error) list" where
  "tokenize text dialect start =
     (let st = tokenize_state text dialect start
      in if tk_errors st \<noteq> [] then ([], tk_errors st)
         else ([lo8 start, hi8 start] @ tk_body st @ [0, 0], []))"

section \<open>Listing a program\<close>

text \<open>
  The reference: a program is read back by following the link at the start of every line, as BASIC
  does; \<open>addr\<close> is the address of the first byte.
\<close>

function list_program :: "nat \<Rightarrow> u8 list \<Rightarrow> (nat \<times> u8 list) list option" where
  "list_program addr bs =
     (let link = unat (bs ! 0) + 256 * unat (bs ! 1); n = link - addr
      in if length bs < 2 then None
         else if link = 0 then Some []
         else if n < 5 \<or> length bs < n then None
         else map_option (Cons (unat (bs ! 2) + 256 * unat (bs ! 3), take (n - 5) (drop 4 bs)))
           (list_program link (drop n bs)))"
  by pat_completeness auto

termination list_program
  by (relation "measure (\<lambda>(addr, bs). length bs)") (auto simp: Let_def)

declare list_program.simps [simp del]

text \<open>The numbered lines of a text, in order.\<close>

fun source_lines :: "(string \<times> u8 list) list \<Rightarrow> int \<Rightarrow> string list \<Rightarrow> (int \<times> u8 list) list" where
  "source_lines table lastNo [] = []"
| "source_lines table lastNo (l # ls) = (case numbered_line table lastNo l of
     Line n out \<Rightarrow> (n, out) # source_lines table n ls
   | _ \<Rightarrow> source_lines table lastNo ls)"

definition line_bytes :: "u16 \<Rightarrow> int \<times> u8 list \<Rightarrow> u8 list \<Rightarrow> u8 list" where
  "line_bytes start l body = emit_line start (fst l) (snd l) body"

definition body_size :: "(int \<times> u8 list) list \<Rightarrow> nat" where
  "body_size ls = (\<Sum>l\<leftarrow>ls. length (snd l) + 5)"

lemma emit_length: "length (emit_line start n out body) = length body + length out + 5"
  by (simp add: emit_line_def Let_def)

lemma unat_lo_hi: "unat (lo8 w) + 256 * unat (hi8 w) = unat (w :: u16)"
proof -
  have "unat (lo8 w) = unat w mod 256"
  proof -
    have "w AND 0xFF = take_bit 8 w" by (simp add: mask_8_16 take_bit_eq_mask)
    then have "unat (w AND 0xFF) = unat w mod 256" by (simp only: unsigned_take_bit_eq) (simp add: take_bit_eq_mod)
    then show ?thesis by (simp add: lo8_def unat_ucast_16_8)
  qed
  moreover have "unat (hi8 w) = unat w div 256"
  proof -
    have "unat w div 256 < 256" using unat_u16_lt [of w] by (simp only: div_less_iff_less_mult)
    moreover have "unat (drop_bit 8 w) = unat w div 256" by (simp add: drop_bit_eq_div unat_div)
    ultimately show ?thesis by (simp only: hi8_def unat_ucast_16_8 mod_less)
  qed
  ultimately show ?thesis by simp
qed

lemma unat_number_bytes:
  assumes "0 \<le> n" "n < 65536"
  shows "unat (word_of_int n :: u8) + 256 * unat (word_of_int (n div 256) :: u8) = nat n"
proof -
  have "uint (word_of_int n :: u8) = n mod 256" "uint (word_of_int (n div 256) :: u8) = n div 256"
    using assms by (simp_all add: unsigned_of_int take_bit_eq_mod)
  then have "int (unat (word_of_int n :: u8) + 256 * unat (word_of_int (n div 256) :: u8)) = n" by simp
  then show ?thesis by linarith
qed

lemma fold_appends: "\<exists>x. fold (line_bytes start) ls b = b @ x"
proof (induction ls arbitrary: b)
  case (Cons l ls)
  have "line_bytes start l b = b @ drop (length b) (line_bytes start l b)"
    by (simp add: line_bytes_def emit_line_def Let_def)
  then show ?case using Cons [of "line_bytes start l b"] by (metis append_assoc fold_simps(2))
qed simp

lemma unat_of_nat16: "n < 65536 \<Longrightarrow> unat (of_nat n :: u16) = n"
  by (simp add: unat_of_nat take_bit_nat_eq_self)

lemma drop_header: "drop (length out + 5) (a # b # c # d # out @ e # x) = x"
  by (simp add: eval_nat_numeral)

lemma list_program_step:
  assumes "unat nxt = addr + length out + 5"
  shows "list_program addr ([lo8 nxt, hi8 nxt, a, b] @ out @ [0] @ x) =
    map_option (Cons (unat a + 256 * unat b, out)) (list_program (unat nxt) x)"
  using assms by (subst list_program.simps) (simp add: unat_lo_hi Let_def drop_header)

lemma list_emitted:
  assumes "unat start + length body + body_size ls < 65536" and "\<forall>l \<in> set ls. 0 \<le> fst l \<and> fst l < 65536"
    and "0 < unat start"
  shows "list_program (unat start + length body) (drop (length body) (fold (line_bytes start) ls body) @ [0, 0]) =
    Some (map (\<lambda>l. (nat (fst l), snd l)) ls)"
  using assms
proof (induction ls arbitrary: body)
  case Nil
  then show ?case by (subst list_program.simps) simp
next
  case (Cons l ls)
  let ?b = "line_bytes start l body" and ?n = "length body + length (snd l) + 5"
  define nxt where "nxt = start + of_nat ?n"
  have len: "length ?b = ?n" by (simp add: line_bytes_def emit_length)
  have nxt: "unat nxt = unat start + ?n"
  proof -
    have "unat (of_nat ?n :: u16) = ?n" by (rule unat_of_nat16) (use Cons.prems(1) in \<open>simp add: body_size_def\<close>)
    then show ?thesis using Cons.prems(1) unat_add_lem [of start "of_nat ?n"] by (simp add: nxt_def body_size_def)
  qed
  obtain x where x: "fold (line_bytes start) ls ?b = ?b @ x" using fold_appends by blast
  have ih: "list_program (unat nxt) (x @ [0, 0]) = Some (map (\<lambda>l. (nat (fst l), snd l)) ls)"
  proof -
    have dr: "drop ?n (?b @ x) = x" using len by (metis append_eq_conv_conj)
    have "unat start + ?n + body_size ls < 65536" using Cons.prems(1) by (simp add: body_size_def)
    then show ?thesis using Cons.IH [of ?b, unfolded x len dr] Cons.prems(2,3) unfolding nxt by simp
  qed
  have "?b = body @ [lo8 nxt, hi8 nxt, word_of_int (fst l), word_of_int (fst l div 256)] @ snd l @ [0]"
    by (simp add: line_bytes_def emit_line_def nxt_def Let_def algebra_simps)
  then have "drop (length body) (fold (line_bytes start) (l # ls) body) @ [0, 0] =
      [lo8 nxt, hi8 nxt, word_of_int (fst l), word_of_int (fst l div 256)] @ snd l @ [0] @ x @ [0, 0]"
    using x by simp
  then show ?case
    using list_program_step [of nxt "unat start + length body" "snd l"] nxt ih Cons.prems(2)
    by (simp add: unat_number_bytes)
qed

lemma errors_grow: "\<exists>x. tk_errors (fold (tok_line table start) ks st) = tk_errors st @ x"
proof (induction ks arbitrary: st)
  case (Cons k ks)
  have "\<exists>x. tk_errors (tok_line table start k st) = tk_errors st @ x"
    by (cases k) (auto simp: tok_line_def Let_def split: line_result.split)
  then show ?case using Cons [of "tok_line table start k st"] by (metis append_assoc fold_simps(2))
qed simp

lemma numbered_line_last:
  "numbered_line table lastNo l = Skipped \<Longrightarrow> last_number lastNo l = lastNo"
  "numbered_line table lastNo l = Line n out \<Longrightarrow> last_number lastNo l = n \<and> lastNo < n \<and> n \<le> 63999"
  by (auto simp: numbered_line_def last_number_def isdigit_def Let_def split: if_splits prod.splits sum.splits)

lemma fold_without_errors:
  assumes "tk_errors (fold (tok_line table start) (zip ks ls) st) = []" and "length ks = length ls"
  shows "tk_body (fold (tok_line table start) (zip ks ls) st) =
      fold (line_bytes start) (source_lines table (tk_lastLineNo st) ls) (tk_body st) \<and>
    list_all (\<lambda>l. length (snd l) \<le> 250) (source_lines table (tk_lastLineNo st) ls)"
  using assms
proof (induction ls arbitrary: ks st)
  case (Cons l ls)
  obtain k ks' where ks: "ks = k # ks'" "length ks' = length ls" using Cons.prems(2) by (cases ks) auto
  define st' where "st' = tok_line table start (k, l) st"
  have f: "fold (tok_line table start) (zip ks (l # ls)) st = fold (tok_line table start) (zip ks' ls) st'"
    by (simp add: ks st'_def)
  have "tk_errors st' = []" using errors_grow [of table start "zip ks' ls" st'] Cons.prems(1) unfolding f by auto
  then have "(numbered_line table (tk_lastLineNo st) l = Skipped \<and> st' = st) \<or>
      (\<exists>n out. numbered_line table (tk_lastLineNo st) l = Line n out \<and> length out \<le> 250 \<and>
        tk_lastLineNo st' = n \<and> tk_body st' = line_bytes start (n, out) (tk_body st))"
    by (auto simp: st'_def tok_line_def Let_def line_bytes_def dest: numbered_line_last split: line_result.splits if_splits)
  then show ?case
    using Cons.IH [of ks' st'] Cons.prems(1) ks(2) unfolding f by auto
qed simp

lemma source_lines_ascend:
  "sorted_wrt (<) (map fst (source_lines table lastNo ls)) \<and>
   (\<forall>l \<in> set (source_lines table lastNo ls). lastNo < fst l \<and> fst l \<le> 63999)"
proof (induction table lastNo ls rule: source_lines.induct)
  case (2 table lastNo l ls)
  show ?case
  proof (cases "numbered_line table lastNo l")
    case (Line n out)
    then show ?thesis using 2 numbered_line_last(2) [OF Line] by (auto dest: order.strict_trans)
  qed (use 2 in auto)
qed simp

lemma emitted_length: "length (fold (line_bytes start) ls body) = length body + body_size ls"
  by (induction ls arbitrary: body) (simp_all add: body_size_def line_bytes_def emit_length)

text \<open>
  C10: A text that tokenises without errors gives a program file that loads at the start address and,
  as long as it fits below the top of memory, lists back line by line: following the links finds the
  numbered lines of the text, in order, with strictly ascending numbers up to 63999 and at most 250
  bytes each.
\<close>

theorem tokenize_lists_back:
  assumes "tokenize text d start = (prg, [])" and "0 < unat start" and "unat start + length prg \<le> 65536"
  defines "ls \<equiv> source_lines (token_table d) (-1) (split_lines [] text)"
  shows "unat (prg ! 0) + 256 * unat (prg ! 1) = unat start \<and>
    list_program (unat start) (drop 2 prg) = Some (map (\<lambda>l. (nat (fst l), snd l)) ls) \<and>
    sorted_wrt (<) (map fst ls) \<and> list_all (\<lambda>l. 0 \<le> fst l \<and> fst l \<le> 63999 \<and> length (snd l) \<le> 250) ls"
proof -
  define ks where "ks = [1..<Suc (length (split_lines [] text))]"
  let ?lines = "split_lines [] text" and ?st0 = "\<lparr>tk_body = [], tk_lastLineNo = -1, tk_errors = []\<rparr>"
  have ks: "length ks = length ?lines" by (simp only: ks_def length_upt)
  note state = tokenize_state_def [of "text" d start, folded ks_def]
  have noerr: "tk_errors (tokenize_state text d start) = []" and
    prg: "prg = [lo8 start, hi8 start] @ tk_body (tokenize_state text d start) @ [0, 0]"
    using assms(1) by (auto simp: tokenize_def Let_def split: if_splits)
  have body: "tk_body (tokenize_state text d start) = fold (line_bytes start) ls []"
    and short: "list_all (\<lambda>l. length (snd l) \<le> 250) ls"
    using fold_without_errors [of "token_table d" start ks ?lines ?st0] noerr ks
    by (simp_all add: state ls_def)
  have asc: "sorted_wrt (<) (map fst ls)" and ran: "\<forall>l \<in> set ls. 0 \<le> fst l \<and> fst l \<le> 63999"
    using source_lines_ascend [of "token_table d" "-1" ?lines] by (auto simp: ls_def)
  have "length prg = body_size ls + 4" by (simp add: prg body emitted_length)
  moreover have "\<forall>l \<in> set ls. 0 \<le> fst l \<and> fst l < 65536" using ran by auto
  ultimately have "list_program (unat start) (fold (line_bytes start) ls [] @ [0, 0]) =
      Some (map (\<lambda>l. (nat (fst l), snd l)) ls)"
    using list_emitted [of start "[]" ls] assms(2,3) by simp
  then show ?thesis using asc ran short by (simp add: prg body unat_lo_hi list_all_iff)
qed

lemma errors_of_lines:
  assumes "sorted_wrt (<) (map fst (tk_errors st))" and "\<forall>e \<in> set (tk_errors st). fst e < n"
  shows "sorted_wrt (<) (map fst (tk_errors (fold (tok_line table start) (zip [n..<n + length ls] ls) st))) \<and>
    fst ` set (tk_errors (fold (tok_line table start) (zip [n..<n + length ls] ls) st)) \<subseteq>
      fst ` set (tk_errors st) \<union> {n ..< n + length ls}"
  using assms
proof (induction ls arbitrary: n st)
  case (Cons l ls)
  define st' where "st' = tok_line table start (n, l) st"
  have e: "tk_errors st' = tk_errors st \<or> (\<exists>x. tk_errors st' = tk_errors st @ [(n, x)])"
    by (auto simp: st'_def tok_line_def Let_def split: line_result.split)
  have z: "zip [n..<n + length (l # ls)] (l # ls) = (n, l) # zip [Suc n..<Suc n + length ls] ls"
    by (simp add: upt_conv_Cons del: upt_Suc)
  have "sorted_wrt (<) (map fst (tk_errors st'))" "\<forall>e \<in> set (tk_errors st'). fst e < Suc n"
    using e Cons.prems by (auto simp: sorted_wrt_append less_Suc_eq)
  note ih = Cons.IH [OF this]
  have "fst ` set (tk_errors st') \<subseteq> fst ` set (tk_errors st) \<union> {n}" using e by auto
  then have "fst ` set (tk_errors st') \<union> {Suc n ..< Suc n + length ls} \<subseteq>
      fst ` set (tk_errors st) \<union> {n ..< n + length (l # ls)}" by auto
  then show ?case unfolding z fold_simps(2) st'_def [symmetric] using ih by blast
qed simp

text \<open>
  C19: Tokenising gives either a program or errors, never both and never neither; the errors name text
  lines of the input in ascending order, at most one for each line.
\<close>

theorem tokenize_program_or_errors:
  "let (prg, errs) = tokenize text d start
   in (prg = [] \<longleftrightarrow> errs \<noteq> []) \<and> sorted_wrt (<) (map fst errs) \<and>
     fst ` set errs \<subseteq> {1 .. length (split_lines [] text)}"
proof -
  have "sorted_wrt (<) (map fst (tk_errors (tokenize_state text d start))) \<and>
      fst ` set (tk_errors (tokenize_state text d start)) \<subseteq> {1 .. length (split_lines [] text)}"
    using errors_of_lines [of "\<lparr>tk_body = [], tk_lastLineNo = -1, tk_errors = []\<rparr>" 1 "token_table d" start
        "split_lines [] text"]
    by (simp add: tokenize_state_def atLeastLessThanSuc_atLeastAtMost del: upt_Suc)
  then show ?thesis by (simp add: tokenize_def Let_def)
qed

lemma longest_match_spec:
  assumes "longest_match s n best t = (m, r)"
  shows "(\<forall>(kw, tok) \<in> set t. iequalsPrefix s kw \<longrightarrow> length kw \<le> m) \<and> n \<le> m \<and>
    (m = n \<and> r = best \<or> (\<exists>kw tok. (kw, tok) \<in> set t \<and> iequalsPrefix s kw \<and> length kw = m \<and> r = Some tok))"
  using assms
proof (induction s n best t rule: longest_match.induct)
  case (2 s bestLen best kw tok t)
  show ?case
  proof (cases "length kw > bestLen \<and> iequalsPrefix s kw")
    case True
    then show ?thesis using 2 by fastforce
  next
    case False
    then show ?thesis using 2 by fastforce
  qed
qed simp

text \<open>
  Outside quotes, remarks and data, the tokenizer emits the bytes of a keyword that stands at the
  current position and is at least as long as every other keyword that does, and continues behind it;
  a character where no keyword stands is emitted as it is.
\<close>

theorem token_longest_keyword:
  assumes "\<not> literal st (hd s)" and "code (hd s) \<notin> {63, 123}" and "code (hd s) < 0x80"
  shows "case List.find (\<lambda>(kw, tok). kw \<noteq> [] \<and> iequalsPrefix s kw) table of
      None \<Rightarrow> token_step table st s = plain_char st (hd s)
    | Some _ \<Rightarrow> \<exists>(kw, tok) \<in> set table. iequalsPrefix s kw \<and>
        (\<forall>(k, t) \<in> set table. iequalsPrefix s k \<longrightarrow> length k \<le> length kw) \<and>
        token_step table st s = Inr (after_keyword tok st, tok, length kw)"
proof -
  obtain m r where m: "longest_match s 0 None table = (m, r)" by fastforce
  note spec = longest_match_spec [OF m]
  have step: "token_step table st s =
      (case r of Some tok \<Rightarrow> Inr (after_keyword tok st, tok, m) | None \<Rightarrow> plain_char st (hd s))"
    using assms m by (simp add: token_step_def)
  show ?thesis
  proof (cases "List.find (\<lambda>(kw, tok). kw \<noteq> [] \<and> iequalsPrefix s kw) table")
    case None
    then have "\<forall>(kw, tok) \<in> set table. iequalsPrefix s kw \<longrightarrow> kw = []" by (auto simp: find_None_iff)
    moreover have "r = None \<or> 0 < m" using longest_match_longer [OF m] by auto
    ultimately have "r = None" using spec by fastforce
    then show ?thesis using None step by simp
  next
    case (Some x)
    obtain i where i: "i < length table" "fst (table ! i) \<noteq> []" "iequalsPrefix s (fst (table ! i))"
      using Some [unfolded find_Some_iff case_prod_beta] by blast
    have mem: "(fst (table ! i), snd (table ! i)) \<in> set table" using i(1) by simp
    have "length (fst (table ! i)) \<le> m" using spec mem i(3) by blast
    then have "0 < m" using i(2) by (cases "fst (table ! i)") auto
    then obtain kw tok where k: "(kw, tok) \<in> set table" "iequalsPrefix s kw" "length kw = m" "r = Some tok"
      using spec by blast
    have "\<forall>(k, t) \<in> set table. iequalsPrefix s k \<longrightarrow> length k \<le> length kw" using spec k(3) by simp
    moreover have "token_step table st s = Inr (after_keyword tok st, tok, length kw)"
      using step k(3,4) by simp
    ultimately have "\<exists>(kw, tok) \<in> set table. iequalsPrefix s kw \<and>
        (\<forall>(k, t) \<in> set table. iequalsPrefix s k \<longrightarrow> length k \<le> length kw) \<and>
        token_step table st s = Inr (after_keyword tok st, tok, length kw)" using k(1,2) by blast
    then show ?thesis using Some by simp
  qed
qed

section \<open>Examples\<close>

definition program_text :: string where
  "program_text = ''10 PRINT'' @ [CHR 34] @ ''HI'' @ [CHR 34] @ [CHR 10] @ ''20 GOTO 10'' @ [CHR 10]"

definition program_file :: "u8 list" where
  "program_file = [0x01, 0x08, 0x0B, 0x08, 10, 0, 0x99, 34, 72, 73, 34, 0,
     0x14, 0x08, 20, 0, 0x89, 32, 49, 48, 0, 0, 0]"
text \<open>The first keyword of a line is the longest: INPUT# wins over INPUT.\<close>

lemma tokenize_lists_back_witness:
  "list_program 0x0801 (drop 2 program_file) = Some [(10, [0x99, 34, 72, 73, 34]), (20, [0x89, 32, 49, 48])]"
proof -
  have "tokenize program_text Basic2 0x0801 = (program_file, [])" by code_simp
  from tokenize_lists_back [OF this]
  have "list_program 0x0801 (drop 2 program_file) = Some (map (\<lambda>l. (nat (fst l), snd l))
      (source_lines (token_table Basic2) (-1) (split_lines [] program_text)))"
    by (simp add: program_file_def)
  moreover have "source_lines (token_table Basic2) (-1) (split_lines [] program_text) =
      [(10, [0x99, 34, 72, 73, 34]), (20, [0x89, 32, 49, 48])]" by code_simp
  ultimately show ?thesis by simp
qed

lemma token_longest_keyword_witness:
  "\<exists>(kw, tok) \<in> set basic2Table. iequalsPrefix ''input#1'' kw \<and>
    token_step basic2Table line_start ''input#1'' = Inr (after_keyword tok line_start, tok, length kw)"
proof -
  have a: "\<not> literal line_start (hd ''input#1'')" "code (hd ''input#1'') \<notin> {63, 123}" "code (hd ''input#1'') < 0x80"
    by code_simp+
  have "(case List.find (\<lambda>(kw, tok). kw \<noteq> [] \<and> iequalsPrefix ''input#1'' kw) basic2Table of None \<Rightarrow> False | Some _ \<Rightarrow> True)"
    by code_simp
  then show ?thesis using token_longest_keyword [OF a, of basic2Table] by (fastforce split: option.splits)
qed

section \<open>What an escape accepts\<close>

text \<open>
  An escape without a valid number is accepted: \<open>{$zz}\<close> gives a zero byte, and a number is cut to
  32 bits before the range check, so \<open>{$100000041}\<close> gives the letter A.
\<close>

lemma tokenize_escape_accepts_garbage:
  "escape ''$zz}'' = Inr ([0], 5) \<and> escape ''$100000041}'' = Inr ([0x41], 12) \<and>
   escape ''$zz*2}'' = Inr ([0, 0], 7) \<and> escape ''foo}'' = Inl (UnknownEscape ''foo'')"
  by (intro conjI; code_simp)

end
