(* ===== verification/MapMmu.thy ===== *)
theory MapMmu
  imports SparseBus
begin

text \<open>
  The memory mapper of the MEGA65 (\<open>plugins/devices/map_mmu/main/map_mmu.h\<close>, \<open>map_mmu.cpp\<close>,
  \<open>imap_controller.h\<close>): a 16-bit bus that passes every access to a 28-bit bus at the address its eight
  8 KB blocks give, behind the hypervisor memory and the I/O hooks. The hooks and the query for the
  hypervisor mode run on the state \<open>'d\<close> of the devices; a hook also sees the map state, which the
  C64 bank controller asks for. Log messages are left out, but for what an access does because of them.
\<close>

section \<open>The map\<close>

record map_state =
  ms_offsets :: "u32 list"
  ms_enables :: u8
  ms_megabyteLow :: u32
  ms_megabyteHigh :: u32

definition map_clear :: map_state where
  "map_clear = \<lparr>ms_offsets = replicate 8 0, ms_enables = 0, ms_megabyteLow = 0, ms_megabyteHigh = 0\<rparr>"

definition block_of :: "u32 \<Rightarrow> nat" where
  "block_of vaddr = unat (drop_bit 13 vaddr AND 7)"

definition translate :: "map_state \<Rightarrow> u32 \<Rightarrow> u32" where
  "translate ms vaddr0 =
     (let vaddr = vaddr0 AND 0xFFFF; block = block_of vaddr
      in if bit (ms_enables ms) block
         then let offset = (ms_offsets ms ! block) AND 0xFFFFF;
                  megabyte = (if block < 4 then ms_megabyteLow ms else ms_megabyteHigh ms);
                  sum12bit = ((drop_bit 8 offset AND 0xFFF) + (drop_bit 8 vaddr AND 0xFF)) AND 0xFFF
           in megabyte + (push_bit 8 sum12bit OR (vaddr AND 0xFF))
         else vaddr)"

text \<open>The same in the interface the breakpoints use.\<close>

definition resolvePhysical :: "map_state \<Rightarrow> u32 \<Rightarrow> u32" where
  "resolvePhysical ms vaddr0 =
     (let vaddr = vaddr0 AND 0xFFFF; block = block_of vaddr
      in if bit (ms_enables ms) block
         then let offset = (ms_offsets ms ! block) AND 0xFFFFF;
                  megabyte = (if block < 4 then ms_megabyteLow ms else ms_megabyteHigh ms);
                  offsetHigh12 = drop_bit 8 offset AND 0xFFF; vaddrHigh = drop_bit 8 vaddr AND 0xFF;
                  sum12bit = (offsetHigh12 + vaddrHigh) AND 0xFFF; vaddrLow8 = vaddr AND 0xFF;
                  physAddr = push_bit 8 sum12bit OR vaddrLow8
           in megabyte + physAddr
         else vaddr)"

section \<open>The bus\<close>

record ('b, 'd) map_mmu =
  mm_mapState :: map_state
  mm_phys :: 'b
  mm_dev :: 'd
  mm_ioRead :: "(map_state \<Rightarrow> u32 \<Rightarrow> ('d, u8 option) state) option"
  mm_ioPeek :: "(map_state \<Rightarrow> u32 \<Rightarrow> ('d, u8 option) state) option"
  mm_ioWrite :: "(map_state \<Rightarrow> u32 \<Rightarrow> u8 \<Rightarrow> ('d, bool) state) option"
  mm_hyperActive :: "('d \<Rightarrow> bool) option"
  mm_hyperRam :: "(u32 \<Rightarrow> u8) option"
  mm_hyperBase :: u16
  mm_hyperSize :: u32
  mm_logMemAccess :: bool
  mm_observer :: "bus_event list option"

definition map_new :: "'b \<Rightarrow> 'd \<Rightarrow> ('b, 'd) map_mmu" where
  "map_new phys d = \<lparr>mm_mapState = map_clear, mm_phys = phys, mm_dev = d, mm_ioRead = None, mm_ioPeek = None,
     mm_ioWrite = None, mm_hyperActive = None, mm_hyperRam = None, mm_hyperBase = 0, mm_hyperSize = 0,
     mm_logMemAccess = False, mm_observer = None\<rparr>"

definition setMapState :: "map_state \<Rightarrow> ('b, 'd) map_mmu \<Rightarrow> ('b, 'd) map_mmu" where
  "setMapState ms m = m\<lparr>mm_mapState := ms\<rparr>"

definition clearMapState :: "('b, 'd) map_mmu \<Rightarrow> ('b, 'd) map_mmu" where
  "clearMapState m = m\<lparr>mm_mapState := map_clear\<rparr>"

definition map_reset :: "('b, 'd) map_mmu \<Rightarrow> ('b, 'd) map_mmu" where
  "map_reset m = clearMapState m"

definition setIoHooks ::
  "(map_state \<Rightarrow> u32 \<Rightarrow> ('d, u8 option) state) option \<Rightarrow> (map_state \<Rightarrow> u32 \<Rightarrow> u8 \<Rightarrow> ('d, bool) state) option \<Rightarrow>
   (map_state \<Rightarrow> u32 \<Rightarrow> ('d, u8 option) state) option \<Rightarrow> ('b, 'd) map_mmu \<Rightarrow> ('b, 'd) map_mmu" where
  "setIoHooks readFn writeFn peekFn m = m\<lparr>mm_ioRead := readFn, mm_ioWrite := writeFn, mm_ioPeek := peekFn\<rparr>"

definition setHypervisorOverlay ::
  "('d \<Rightarrow> bool) option \<Rightarrow> (u32 \<Rightarrow> u8) option \<Rightarrow> u16 \<Rightarrow> u32 \<Rightarrow> ('b, 'd) map_mmu \<Rightarrow> ('b, 'd) map_mmu" where
  "setHypervisorOverlay active ram base sz m =
     m\<lparr>mm_hyperActive := active, mm_hyperRam := ram, mm_hyperBase := base, mm_hyperSize := sz\<rparr>"

definition in_overlay :: "u32 \<Rightarrow> ('b, 'd) map_mmu \<Rightarrow> bool" where
  "in_overlay addr m \<longleftrightarrow> mm_hyperRam m \<noteq> None \<and> ucast (mm_hyperBase m) \<le> addr \<and>
     addr < ucast (mm_hyperBase m) + mm_hyperSize m"

definition hyper_at :: "u32 \<Rightarrow> ('b, 'd) map_mmu \<Rightarrow> bool" where
  "hyper_at addr m \<longleftrightarrow> in_overlay addr m \<and> (case mm_hyperActive m of Some f \<Rightarrow> f (mm_dev m) | None \<Rightarrow> False)"

definition hyper_byte :: "u32 \<Rightarrow> ('b, 'd) map_mmu \<Rightarrow> u8" where
  "hyper_byte addr m = the (mm_hyperRam m) (addr - ucast (mm_hyperBase m))"

definition hyper_store :: "u32 \<Rightarrow> u8 \<Rightarrow> ('b, 'd) map_mmu \<Rightarrow> ('b, 'd) map_mmu" where
  "hyper_store addr val m =
     m\<lparr>mm_hyperRam := map_option (\<lambda>r. r(addr - ucast (mm_hyperBase m) := val)) (mm_hyperRam m)\<rparr>"

definition map_notify :: "bus_event \<Rightarrow> (('b, 'd) map_mmu, unit) state" where
  "map_notify e = modify (\<lambda>m. m\<lparr>mm_observer := map_option (\<lambda>es. es @ [e]) (mm_observer m)\<rparr>)"

definition on_dev :: "(map_state \<Rightarrow> ('d, 'a) state) \<Rightarrow> (('b, 'd) map_mmu, 'a) state" where
  "on_dev f = State_Monad.State (\<lambda>m. let r = run_state (f (mm_mapState m)) (mm_dev m) in (fst r, m\<lparr>mm_dev := snd r\<rparr>))"

definition on_phys :: "('b, 'a) state \<Rightarrow> (('b, 'd) map_mmu, 'a) state" where
  "on_phys f = State_Monad.State (\<lambda>m. let r = run_state f (mm_phys m) in (fst r, m\<lparr>mm_phys := snd r\<rparr>))"

definition read_hook ::
  "(map_state \<Rightarrow> u32 \<Rightarrow> ('d, u8 option) state) option \<Rightarrow> u32 \<Rightarrow> (('b, 'd) map_mmu, u8 option) state" where
  "read_hook h addr = (case h of Some f \<Rightarrow> on_dev (\<lambda>ms. f ms addr) | None \<Rightarrow> State_Monad.return None)"

definition map_read8 :: "'b ibus \<Rightarrow> u32 \<Rightarrow> (('b, 'd) map_mmu, u8) state" where
  "map_read8 phys addr0 = (let addr = addr0 AND 0xFFFF in do {
     m \<leftarrow> State_Monad.get;
     (if hyper_at addr m
      then do { map_notify (OnMemoryRead addr (hyper_byte addr m)); State_Monad.return (hyper_byte addr m) }
      else do {
        io \<leftarrow> read_hook (mm_ioRead m) addr;
        (case io of
           Some v \<Rightarrow> do { map_notify (OnMemoryRead addr v); State_Monad.return v }
         | None \<Rightarrow> do {
             m \<leftarrow> State_Monad.get;
             v \<leftarrow> on_phys (ib_read8 phys (translate (mm_mapState m) addr));
             map_notify (OnMemoryRead addr v);
             State_Monad.return v }) }) })"

definition map_peek8 :: "'b ibus \<Rightarrow> u32 \<Rightarrow> (('b, 'd) map_mmu, u8) state" where
  "map_peek8 phys addr0 = (let addr = addr0 AND 0xFFFF in do {
     m \<leftarrow> State_Monad.get;
     (if hyper_at addr m then State_Monad.return (hyper_byte addr m)
      else do {
        io \<leftarrow> read_hook (case mm_ioPeek m of Some p \<Rightarrow> Some p | None \<Rightarrow> mm_ioRead m) addr;
        (case io of
           Some v \<Rightarrow> State_Monad.return v
         | None \<Rightarrow> do {
             m \<leftarrow> State_Monad.get;
             on_phys (ib_peek8 phys (translate (mm_mapState m) addr)) }) }) })"

definition map_write8 :: "'b ibus \<Rightarrow> u32 \<Rightarrow> u8 \<Rightarrow> (('b, 'd) map_mmu, unit) state" where
  "map_write8 phys addr0 val = (let addr = addr0 AND 0xFFFF in do {
     m \<leftarrow> State_Monad.get;
     let wantBefore = (mm_observer m \<noteq> None \<or> mm_logMemAccess m);
     (if hyper_at addr m
      then do {
        let before = (if wantBefore then hyper_byte addr m else 0);
        modify (hyper_store addr val);
        map_notify (OnMemoryWrite addr before val) }
      else do {
        claimed \<leftarrow> (case mm_ioWrite m of Some f \<Rightarrow> on_dev (\<lambda>ms. f ms addr val) | None \<Rightarrow> State_Monad.return False);
        (if claimed then map_notify (OnMemoryWrite addr 0 val)
         else do {
           m \<leftarrow> State_Monad.get;
           let p = translate (mm_mapState m) addr;
           before \<leftarrow> (if wantBefore then on_phys (ib_peek8 phys p) else State_Monad.return 0);
           on_phys (ib_write8 phys p val);
           map_notify (OnMemoryWrite addr before val) }) }) })"

definition map_ibus :: "'b ibus \<Rightarrow> ('b, 'd) map_mmu ibus" where
  "map_ibus phys = \<lparr>ib_read8 = map_read8 phys, ib_write8 = map_write8 phys, ib_peek8 = map_peek8 phys,
     ib_littleEndian = True\<rparr>"

text \<open>\<open>memcpy\<close> of the structure: three bytes of padding follow the enable byte.\<close>

definition map_stateSize :: nat where
  "map_stateSize = 44"

definition map_saveState :: "u8 list \<Rightarrow> ('b, 'd) map_mmu \<Rightarrow> u8 list" where
  "map_saveState padding m =
     (let ms = mm_mapState m
      in concat (map u32_bytes (ms_offsets ms)) @ [ms_enables ms] @ padding @ u32_bytes (ms_megabyteLow ms) @
         u32_bytes (ms_megabyteHigh ms))"

definition map_loadState :: "u8 list \<Rightarrow> ('b, 'd) map_mmu \<Rightarrow> ('b, 'd) map_mmu" where
  "map_loadState buf m = m\<lparr>mm_mapState :=
     \<lparr>ms_offsets = map (\<lambda>i. bytes_u32 (drop (4 * i) buf)) [0..<8], ms_enables = buf ! 32,
      ms_megabyteLow = bytes_u32 (drop 36 buf), ms_megabyteHigh = bytes_u32 (drop 40 buf)\<rparr>\<rparr>"

lemma run_on_dev [simp]: "run_state (on_dev f) m =
    (result (f (mm_mapState m)) (mm_dev m), m\<lparr>mm_dev := final (f (mm_mapState m)) (mm_dev m)\<rparr>)"
  by (simp add: on_dev_def Let_def)

lemma run_on_phys [simp]: "run_state (on_phys f) m = (result f (mm_phys m), m\<lparr>mm_phys := final f (mm_phys m)\<rparr>)"
  by (simp add: on_phys_def Let_def)

section \<open>Translation\<close>

lemma mask_facts: "(0xFFFF :: u32) = mask 16" "(0xFFFFF :: u32) = mask 20" "(0xFFF :: u32) = mask 12"
  "(0xFF :: u32) = mask 8" "(7 :: u32) = mask 3"
  by (simp_all add: mask_eq_decr_exp)

lemma unat_mask: "unat (v AND mask n :: u32) = unat v mod 2 ^ n"
  unfolding take_bit_eq_mask [symmetric] unsigned_take_bit_eq by (simp add: take_bit_eq_mod)

lemma unat_drop: "unat (drop_bit n v :: u32) = unat v div 2 ^ n"
  using take_bit_nat_eq_self [of "unat v" 32] unsigned_less [of v, where 'a = nat]
  unfolding unsigned_drop_bit_eq by (simp add: drop_bit_eq_div)

lemma block_of_nat: "block_of v = unat v div 8192 mod 8"
  by (simp add: block_of_def mask_facts unat_mask unat_drop)

lemma block_of_lt [simp]: "block_of v < 8"
  by (simp add: block_of_nat)

definition mapped_page :: "map_state \<Rightarrow> u32 \<Rightarrow> nat" where
  "mapped_page ms v = (unat (ms_offsets ms ! block_of v) div 256 + unat v div 256) mod 4096"

definition megabyte_of :: "map_state \<Rightarrow> u32 \<Rightarrow> u32" where
  "megabyte_of ms v = (if block_of v < 4 then ms_megabyteLow ms else ms_megabyteHigh ms)"

lemma offset_page: "unat (drop_bit 8 (w AND mask 20) AND mask 12 :: u32) = unat w div 256 mod 4096"
proof -
  have "unat w mod 2 ^ 20 div 2 ^ 8 = unat w div 256 mod 4096"
    using mod_mult2_eq [of "unat w" 256 4096] by simp
  then show ?thesis by (simp only: unat_mask unat_drop) simp
qed

lemma sum_page:
  fixes a b :: u32
  assumes "unat a < 4096" "unat b < 256"
  shows "unat ((a + b) AND mask 12) = (unat a + unat b) mod 4096"
  using assms unat_add_lem [of a b] by (simp add: unat_mask)

lemma join_page:
  assumes "unat (s :: u32) < 4096"
  shows "unat (push_bit 8 s OR (v AND mask 8)) = unat s * 256 + unat v mod 256"
proof -
  have "push_bit 8 s OR (v AND mask 8) = push_bit 8 s + (v AND mask 8)"
    by (rule disjunctive_add [symmetric]) (auto simp: bit_simps)
  moreover have "unat (push_bit 8 s) = unat s * 256"
    using assms by (simp add: push_bit_eq_mult unat_word_ariths)
  moreover have "unat (v AND mask 8) = unat v mod 256" by (simp add: unat_mask)
  moreover have "unat s * 256 + unat v mod 256 < 2 ^ 32" using assms mod_less_divisor [of 256 "unat v"] by simp
  ultimately show ?thesis using unat_add_lem [of "push_bit 8 s" "v AND mask 8"] by simp
qed

text \<open>The translation of a mapped address in numbers: the page wraps in the megabyte, the low byte stays.\<close>

lemma translate_mapped:
  assumes "unat v < 65536" and "bit (ms_enables ms) (block_of v)"
  shows "\<exists>p. translate ms v = megabyte_of ms v + p \<and> unat p = mapped_page ms v * 256 + unat v mod 256"
proof -
  have v: "v AND 0xFFFF = v"
    unfolding mask_facts by (rule word_unat_eq_iff [THEN iffD2]) (use assms(1) in \<open>simp add: unat_mask\<close>)
  define a where "a = drop_bit 8 ((ms_offsets ms ! block_of v) AND mask 20) AND mask 12"
  define b where "b = drop_bit 8 v AND mask 8"
  have a: "unat a = unat (ms_offsets ms ! block_of v) div 256 mod 4096" unfolding a_def by (rule offset_page)
  have b: "unat b = unat v div 256" using assms(1) unfolding b_def unat_mask unat_drop by (simp add: less_mult_imp_div_less)
  have s: "unat ((a + b) AND mask 12) = mapped_page ms v"
    using sum_page [of a b] assms(1) by (simp add: a b mapped_page_def less_mult_imp_div_less mod_simps)
  have "translate ms v = megabyte_of ms v + (push_bit 8 ((a + b) AND mask 12) OR (v AND mask 8))"
    unfolding translate_def Let_def v using assms(2)
    by (simp only: if_True a_def b_def mask_facts megabyte_of_def)
  moreover have "unat (push_bit 8 ((a + b) AND mask 12) OR (v AND mask 8)) = mapped_page ms v * 256 + unat v mod 256"
    using join_page [of "(a + b) AND mask 12" v] s by (simp add: mapped_page_def)
  ultimately show ?thesis by blast
qed

lemma translate_unmapped: "unat v < 65536 \<Longrightarrow> \<not> bit (ms_enables ms) (block_of v) \<Longrightarrow> translate ms v = v"
proof -
  assume "unat v < 65536" and "\<not> bit (ms_enables ms) (block_of v)"
  moreover from this have "v AND 0xFFFF = v"
    unfolding mask_facts by (intro word_unat_eq_iff [THEN iffD2]) (simp add: unat_mask)
  ultimately show "translate ms v = v" by (simp add: translate_def Let_def)
qed

section \<open>Mapped memory\<close>

text \<open>
  Virtual addresses \<open>R\<close> that the map sends one-to-one to RAM of the physical bus, and that neither the
  hypervisor memory nor a hook claims, are RAM for the processor.
\<close>

definition unclaimed :: "map_state \<Rightarrow> u32 set \<Rightarrow> ('b, 'd) map_mmu \<Rightarrow> bool" where
  "unclaimed ms R m \<longleftrightarrow> (\<forall>v \<in> R. \<not> in_overlay v m) \<and>
     (case mm_ioRead m of Some f \<Rightarrow> \<forall>v \<in> R. \<forall>d. result (f ms v) d = None | None \<Rightarrow> True) \<and>
     (case mm_ioWrite m of Some f \<Rightarrow> \<forall>v \<in> R. \<forall>x d. \<not> result (f ms v x) d | None \<Rightarrow> True)"

definition mapped_ok ::
  "('b \<Rightarrow> bool) \<Rightarrow> map_state \<Rightarrow> u32 set \<Rightarrow> ('b, 'd) map_mmu \<Rightarrow> bool" where
  "mapped_ok ok ms R m \<longleftrightarrow> ok (mm_phys m) \<and> mm_mapState m = ms \<and> unclaimed ms R m"

locale mapped_ram = ram_bus phys mem ram ok
  for phys :: "'b ibus" and mem :: "'b \<Rightarrow> u32 \<Rightarrow> u8" and ram :: "u32 set" and ok :: "'b \<Rightarrow> bool" +
  fixes ms :: map_state and R :: "u32 set"
  assumes virtual: "v \<in> R \<Longrightarrow> unat v < 65536"
    and phys_ram: "v \<in> R \<Longrightarrow> translate ms v \<in> ram"
    and one_to_one: "inj_on (translate ms) R"
    and peek_pure: "final (ib_peek8 phys a) b = b"

lemma unclaimed_more [simp]:
  "unclaimed ms R (m\<lparr>mm_dev := d\<rparr>) = unclaimed ms R m"
  "unclaimed ms R (m\<lparr>mm_phys := p\<rparr>) = unclaimed ms R m"
  "unclaimed ms R (m\<lparr>mm_observer := es\<rparr>) = unclaimed ms R m"
  "unclaimed ms R (hyper_store a x m) = unclaimed ms R m"
  by (simp_all add: unclaimed_def in_overlay_def hyper_store_def)

lemma hyper_store_more [simp]:
  "mm_phys (hyper_store a x m) = mm_phys m" "mm_mapState (hyper_store a x m) = mm_mapState m"
  "mm_dev (hyper_store a x m) = mm_dev m" "mm_observer (hyper_store a x m) = mm_observer m"
  by (simp_all add: hyper_store_def)

lemma virtual_masked: "unat v < 65536 \<Longrightarrow> v AND 0xFFFF = (v :: u32)"
  unfolding mask_facts by (rule word_unat_eq_iff [THEN iffD2]) (simp add: unat_mask)

lemmas map_ops = map_ibus_def map_read8_def map_write8_def read_hook_def map_notify_def

context mapped_ram
begin

abbreviation vmem :: "('b, 'd) map_mmu \<Rightarrow> u32 \<Rightarrow> u8" where
  "vmem m v \<equiv> mem (mm_phys m) (translate ms v)"

lemma quiet_read:
  assumes "mapped_ok ok ms R m" and "v \<in> R"
  shows "\<exists>d es. run_state (map_read8 phys v) m =
    (vmem m v, m\<lparr>mm_dev := d, mm_phys := final (ib_read8 phys (translate ms v)) (mm_phys m), mm_observer := es\<rparr>)"
proof -
  have v: "v AND 0xFFFF = v" using virtual [OF assms(2)] by (rule virtual_masked)
  have h: "\<not> hyper_at v m" using assms by (auto simp: mapped_ok_def unclaimed_def hyper_at_def)
  have r: "result (ib_read8 phys (translate ms v)) (mm_phys m) = vmem m v"
    using assms phys_ram read_ram by (auto simp: mapped_ok_def)
  show ?thesis
  proof (cases "mm_ioRead m")
    case None
    then have "run_state (map_read8 phys v) m = (vmem m v,
        m\<lparr>mm_dev := mm_dev m, mm_phys := final (ib_read8 phys (translate ms v)) (mm_phys m),
          mm_observer := map_option (\<lambda>es. es @ [OnMemoryRead v (vmem m v)]) (mm_observer m)\<rparr>)"
      using assms h r v by (simp add: map_ops mapped_ok_def)
    then show ?thesis by blast
  next
    case (Some f)
    then have "result (f ms v) (mm_dev m) = None" using assms by (auto simp: mapped_ok_def unclaimed_def)
    then have "run_state (map_read8 phys v) m = (vmem m v,
        m\<lparr>mm_dev := final (f ms v) (mm_dev m), mm_phys := final (ib_read8 phys (translate ms v)) (mm_phys m),
          mm_observer := map_option (\<lambda>es. es @ [OnMemoryRead v (vmem m v)]) (mm_observer m)\<rparr>)"
      using assms h r v Some by (simp add: map_ops mapped_ok_def)
    then show ?thesis by blast
  qed
qed

lemma quiet_write:
  assumes "mapped_ok ok ms R m" and "v \<in> R"
  shows "\<exists>d es. run_state (map_write8 phys v x) m =
    ((), m\<lparr>mm_dev := d, mm_phys := final (ib_write8 phys (translate ms v) x) (mm_phys m), mm_observer := es\<rparr>)"
proof -
  have v: "v AND 0xFFFF = v" using virtual [OF assms(2)] by (rule virtual_masked)
  have h: "\<not> hyper_at v m" using assms by (auto simp: mapped_ok_def unclaimed_def hyper_at_def)
  define b where "b = (if mm_observer m \<noteq> None \<or> mm_logMemAccess m
    then result (ib_peek8 phys (translate ms v)) (mm_phys m) else 0)"
  show ?thesis
  proof (cases "mm_ioWrite m")
    case None
    then have "run_state (map_write8 phys v x) m = ((),
        m\<lparr>mm_dev := mm_dev m, mm_phys := final (ib_write8 phys (translate ms v) x) (mm_phys m),
          mm_observer := map_option (\<lambda>es. es @ [OnMemoryWrite v b x]) (mm_observer m)\<rparr>)"
      using assms h v by (simp add: map_ops mapped_ok_def Let_def peek_pure b_def case_prod_beta)
    then show ?thesis by blast
  next
    case (Some f)
    then have "\<not> result (f ms v x) (mm_dev m)" using assms by (auto simp: mapped_ok_def unclaimed_def)
    then have "run_state (map_write8 phys v x) m = ((),
        m\<lparr>mm_dev := final (f ms v x) (mm_dev m), mm_phys := final (ib_write8 phys (translate ms v) x) (mm_phys m),
          mm_observer := map_option (\<lambda>es. es @ [OnMemoryWrite v b x]) (mm_observer m)\<rparr>)"
      using assms h v Some by (simp add: map_ops mapped_ok_def Let_def peek_pure b_def case_prod_beta)
    then show ?thesis by blast
  qed
qed

text \<open>Any access, claimed or not, keeps what the mapped memory needs.\<close>

lemma read_keeps: "mapped_ok ok ms R m \<Longrightarrow> mapped_ok ok ms R (final (map_read8 phys a) m)"
  by (auto simp: mapped_ok_def map_ops Let_def case_prod_beta read_ok split: option.splits)

lemma write_keeps: "mapped_ok ok ms R m \<Longrightarrow> mapped_ok ok ms R (final (map_write8 phys a x) m)"
  by (auto simp: mapped_ok_def map_ops Let_def case_prod_beta write_ok peek_pure split: option.splits)

end

sublocale mapped_ram \<subseteq> virt: ram_bus "map_ibus phys" "\<lambda>m v. mem (mm_phys m) (translate ms v)" R "mapped_ok ok ms R"
proof (unfold_locales, goal_cases)
  case (1 m a) then show ?case by (simp add: map_ibus_def read_keeps)
next
  case (2 m a v) then show ?case by (simp add: map_ibus_def write_keeps)
next
  case (3 m a) then show ?case using quiet_read [of m a] by (auto simp: map_ibus_def)
next
  case (4 m a c)
  then have "ok (mm_phys m)" by (simp add: mapped_ok_def)
  then show ?case using quiet_read [OF 4(1,2)] 4 phys_ram read_frame by (auto simp: map_ibus_def)
next
  case (5 m a c v)
  then have "ok (mm_phys m)" by (simp add: mapped_ok_def)
  then have "mem (final (ib_write8 phys (translate ms a) v) (mm_phys m)) (translate ms c) =
      (if translate ms c = translate ms a then v else mem (mm_phys m) (translate ms c))"
    using 5 phys_ram write_ram by blast
  then show ?case using quiet_write [OF 5(1,2), of v] 5 one_to_one by (auto simp: map_ibus_def inj_on_eq_iff)
qed

section \<open>One block\<close>

text \<open>The addresses of a block that end up in \<open>P\<close>.\<close>

definition block_in :: "u32 set \<Rightarrow> map_state \<Rightarrow> nat \<Rightarrow> u32 set" where
  "block_in P ms k = {v. unat v < 65536 \<and> block_of v = k \<and> translate ms v \<in> P}"

lemma mod_shift_eqI:
  assumes "(a + x) mod n = (a + y) mod n" and "x < n" "y < (n :: nat)"
  shows "x = y"
proof -
  have "x = y" if "x \<le> y" "(a + x) mod n = (a + y) mod n" "y < n" for x y
  proof -
    have "n dvd (a + y) - (a + x)" using that mod_eq_dvd_iff_nat [of "a + x" "a + y" n] by simp
    then have "n dvd y - x" by simp
    then show ?thesis using that nat_dvd_not_less [of "y - x" n] by fastforce
  qed
  then show ?thesis using assms by (metis nat_le_linear)
qed

lemma page_eqI:
  assumes "unat v div 8192 = unat w div 8192" and "unat v mod 256 = unat w mod 256"
    and "(a + unat v div 256) mod 4096 = (a + unat w div 256) mod 4096" and "unat v < 65536" "unat w < 65536"
  shows "unat v = unat (w :: u32)"
proof -
  have d: "unat v div 256 < 256" "unat w div 256 < 256" using assms(4,5) by (simp_all add: less_mult_imp_div_less)
  have "unat v div 256 = unat w div 256" by (rule mod_shift_eqI [OF assms(3)]) (use d in simp_all)
  then show ?thesis using assms(2) by (metis div_mult_mod_eq)
qed

lemma low_byte_eqI:
  assumes "a * 256 + r mod 256 = b * 256 + s mod (256::nat)" shows "r mod 256 = s mod 256"
proof -
  have "r mod 256 = (a * 256 + r mod 256) mod 256" by simp
  also have "\<dots> = (b * 256 + s mod 256) mod 256" by (rule arg_cong [OF assms])
  also have "\<dots> = s mod 256" by simp
  finally show ?thesis .
qed

lemma translate_block_inject: "inj_on (translate ms) (block_in P ms k)"
proof (rule inj_onI)
  fix v w assume "v \<in> block_in P ms k" "w \<in> block_in P ms k" and eq: "translate ms v = translate ms w"
  then have b: "unat v < 65536" "unat w < 65536" "block_of v = k" "block_of w = k" by (auto simp: block_in_def)
  show "v = w"
  proof (cases "bit (ms_enables ms) k")
    case True
    obtain p where p: "translate ms v = megabyte_of ms v + p" "unat p = mapped_page ms v * 256 + unat v mod 256"
      using translate_mapped [OF b(1)] True b(3) by blast
    obtain q where q: "translate ms w = megabyte_of ms w + q" "unat q = mapped_page ms w * 256 + unat w mod 256"
      using translate_mapped [OF b(2)] True b(4) by blast
    have "p = q" using eq p(1) q(1) b(3,4) by (simp add: megabyte_of_def)
    then have m: "mapped_page ms v * 256 + unat v mod 256 = mapped_page ms w * 256 + unat w mod 256"
      using p(2) q(2) by simp
    then have low: "unat v mod 256 = unat w mod 256" by (rule low_byte_eqI)
    then have "mapped_page ms v = mapped_page ms w" using m by simp
    moreover have "unat v div 8192 = unat w div 8192" using b by (simp add: block_of_nat less_mult_imp_div_less)
    ultimately show ?thesis
      using page_eqI [of v w "unat (ms_offsets ms ! k) div 256"] low b
      by (simp add: mapped_page_def word_unat_eq_iff)
  qed (use eq b translate_unmapped in metis)
qed

lemma sparse_peek_pure: "final (ib_peek8 sparse_ibus a) b = b"
  by (simp add: sparse_ibus_def)

text \<open>The physical bus of the MEGA65 behind the map.\<close>

interpretation mapped_block: mapped_ram sparse_ibus sparse_ram P "sparse_ok P" ms "block_in P ms k" for P ms k
  using translate_block_inject by unfold_locales (auto simp: block_in_def sparse_peek_pure)

section \<open>Correctness\<close>

text \<open>
  C29: The address a mapped access goes to keeps its low byte; its page is the page of the access plus
  the page of the block's offset, wrapping at the end of the megabyte and never carrying into it; an
  access to a block that is not mapped goes to its own address. The translation the breakpoints use
  is the same.
\<close>

theorem map_translation:
  "translate ms v = resolvePhysical ms v \<and>
   (let a = v AND 0xFFFF
    in if bit (ms_enables ms) (block_of a)
       then unat (translate ms v - (if block_of a < 4 then ms_megabyteLow ms else ms_megabyteHigh ms)) =
         (unat (ms_offsets ms ! block_of a) div 256 + unat a div 256) mod 4096 * 256 + unat a mod 256
       else translate ms v = a)"
proof -
  let ?a = "v AND 0xFFFF"
  have a: "unat ?a < 65536" unfolding mask_facts unat_mask by simp
  have t: "translate ms v = translate ms ?a" by (simp add: translate_def and.assoc)
  have "translate ms v = resolvePhysical ms v" by (simp add: translate_def resolvePhysical_def Let_def)
  then show ?thesis
    using translate_mapped [OF a, of ms] translate_unmapped [OF a, of ms] t
    by (auto simp: Let_def mapped_page_def megabyte_of_def)
qed

text \<open>
  The virtual addresses of a block behave as memory wherever the block is mapped: a byte stored
  through the mapper is read back through it, it is the byte of the physical bus at the translated
  address, and no other address of the block changes.
\<close>

theorem mapped_memory:
  fixes m :: "(sparse_bus, 'd) map_mmu" and x :: u8
  assumes "sparse_ok P (mm_phys m)" and "v \<in> block_in P (mm_mapState m) k" and "w \<in> block_in P (mm_mapState m) k"
    and "unclaimed (mm_mapState m) (block_in P (mm_mapState m) k) m"
  defines "m' \<equiv> final (map_write8 sparse_ibus v x) m"
  shows "result (map_read8 sparse_ibus w) m' = (if w = v then x else result (map_read8 sparse_ibus w) m) \<and>
    sparse_ram (mm_phys m') (translate (mm_mapState m) v) = x"
proof -
  let ?ms = "mm_mapState m"
  have ok: "mapped_ok (sparse_ok P) ?ms (block_in P ?ms k) m" using assms by (simp add: mapped_ok_def)
  have ok': "mapped_ok (sparse_ok P) ?ms (block_in P ?ms k) m'"
    unfolding m'_def by (rule mapped_block.write_keeps [OF ok])
  have r: "result (map_read8 sparse_ibus w) n = sparse_ram (mm_phys n) (translate ?ms w)"
    if "mapped_ok (sparse_ok P) ?ms (block_in P ?ms k) n" for n
    using mapped_block.virt.read_ram [OF that assms(3)] by (simp add: map_ibus_def)
  have "sparse_ram (mm_phys m') (translate ?ms c) = (if c = v then x else sparse_ram (mm_phys m) (translate ?ms c))"
    if "c \<in> block_in P ?ms k" for c
    using mapped_block.virt.write_ram [OF ok assms(2) that] by (simp add: map_ibus_def m'_def)
  then show ?thesis using r [OF ok] r [OF ok'] assms(2,3) by simp
qed

text \<open>A machine without the overlay, and accesses that take no notice of it.\<close>

definition bare :: "('b, 'd) map_mmu \<Rightarrow> ('b, 'd) map_mmu" where
  "bare m = m\<lparr>mm_hyperRam := None\<rparr>"

definition blind :: "(('b, 'd) map_mmu, 'a) state \<Rightarrow> bool" where
  "blind p \<longleftrightarrow> (\<forall>m. run_state p (bare m) = map_prod id bare (run_state p m) \<and> mm_hyperRam (final p m) = mm_hyperRam m)"

lemma bare_simps [simp]:
  "mm_phys (bare m) = mm_phys m" "mm_mapState (bare m) = mm_mapState m" "mm_dev (bare m) = mm_dev m"
  "mm_ioRead (bare m) = mm_ioRead m" "mm_ioPeek (bare m) = mm_ioPeek m" "mm_ioWrite (bare m) = mm_ioWrite m"
  "mm_observer (bare m) = mm_observer m" "mm_logMemAccess (bare m) = mm_logMemAccess m" "\<not> hyper_at c (bare m)"
  by (simp_all add: bare_def hyper_at_def in_overlay_def)

lemma bare_update [simp]:
  "(bare m)\<lparr>mm_phys := p\<rparr> = bare (m\<lparr>mm_phys := p\<rparr>)" "(bare m)\<lparr>mm_dev := d\<rparr> = bare (m\<lparr>mm_dev := d\<rparr>)"
  "(bare m)\<lparr>mm_observer := es\<rparr> = bare (m\<lparr>mm_observer := es\<rparr>)"
  by (simp_all add: bare_def)

lemma blind_dev: "blind (on_dev f)" by (simp add: blind_def on_dev_def Let_def)
lemma blind_phys: "blind (on_phys g)" by (simp add: blind_def on_phys_def Let_def)
lemma blind_notify: "blind (map_notify ev)" by (simp add: blind_def map_notify_def Let_def)
lemma blind_hook: "blind (read_hook h c)"
  using blind_dev by (simp add: read_hook_def blind_def split: option.split)

lemma blindD:
  "blind p \<Longrightarrow> run_state p (bare m) = map_prod id bare (run_state p m)"
  "blind p \<Longrightarrow> result p (bare m) = result p m" "blind p \<Longrightarrow> final p (bare m) = bare (final p m)"
  "blind p \<Longrightarrow> mm_hyperRam (final p m) = mm_hyperRam m"
  by (auto simp: blind_def)

lemma blind_back: "run_state p (bare m) = map_prod id bare (run_state p m) \<Longrightarrow> mm_hyperRam (final p m) = mm_hyperRam m \<Longrightarrow>
    run_state p m = map_prod id (\<lambda>m'. m'\<lparr>mm_hyperRam := mm_hyperRam m\<rparr>) (run_state p (bare m))"
  by (cases "run_state p m") (auto simp: bare_def)


text \<open>The header gives the translation as an or with the offset in the block, which it is not.\<close>

lemma map_translation_not_documented:
  "translate \<lparr>ms_offsets = [0, 0x2000, 0, 0, 0, 0, 0, 0], ms_enables = 2, ms_megabyteLow = 0, ms_megabyteHigh = 0\<rparr> 0x2001
     = 0x4001 \<and>
   push_bit 8 (0x2000 :: u32) OR (0x2001 AND 0x1FFF) = 0x200001"
  by code_simp

lemma bytes_u32_append: "bytes_u32 (u32_bytes v @ xs) = v"
  using bytes_u32_inverse [of v] by (simp add: u32_bytes_def bytes_u32_def)

lemma map_save_load:
  assumes "length (ms_offsets (mm_mapState m)) = 8" and "length padding = 3"
  shows "mm_mapState (map_loadState (map_saveState padding m) m') = mm_mapState m"
proof -
  obtain a b c d e f g h where o: "ms_offsets (mm_mapState m) = [a, b, c, d, e, f, g, h]"
    using assms(1) by (auto simp: length_Suc_conv eval_nat_numeral)
  obtain p q r where p: "padding = [p, q, r]"
    using assms(2) by (auto simp: length_Suc_conv eval_nat_numeral)
  have drops: "drop 4 (u32_bytes v @ xs) = xs" for v xs by simp
  note u = u32_bytes_def
  have "[0..<8] = [0, 1, 2, 3, 4, 5, 6, 7 :: nat]" by (simp add: upt_rec)
  then show ?thesis
    by (simp add: map_loadState_def map_saveState_def Let_def o p bytes_u32_append)
      (simp add: u o bytes_u32_append [unfolded u append_Cons append_Nil])
qed

section \<open>Examples\<close>

definition demo_mmu :: "(sparse_bus, unit) map_mmu" where
  "demo_mmu = setMapState \<lparr>ms_offsets = [0, 0, 0x12000, 0, 0, 0, 0, 0], ms_enables = 4, ms_megabyteLow = 0x8000000,
     ms_megabyteHigh = 0\<rparr> (map_new (sparse_new 28 (\<lambda>_ _. 0)) ())"

definition phys28 :: "u32 set" where
  "phys28 = {a. a < 0x10000000}"

lemma sparse_ok_phys28: "sparse_ok phys28 (sparse_new 28 s)"
proof -
  have "a AND 0xFFFFFFF = a" if "a < 0x10000000" for a :: u32
  proof -
    have m: "(0xFFFFFFF :: u32) = mask 28" by (simp add: mask_eq_decr_exp)
    show ?thesis
      unfolding m by (rule word_unat_eq_iff [THEN iffD2]) (use that in \<open>simp add: unat_mask word_less_nat_alt\<close>)
  qed
  then show ?thesis by (simp add: sparse_ok_def sparse_plain_def phys28_def sparse_new_def findRegion_def)
qed

lemma mapped_memory_witness:
  "result (map_read8 sparse_ibus 0x4001) (final (map_write8 sparse_ibus 0x4001 0x5A) demo_mmu) = 0x5A \<and>
   sparse_ram (mm_phys (final (map_write8 sparse_ibus 0x4001 0x5A) demo_mmu)) 0x8016001 = 0x5A"
proof -
  let ?ms = "mm_mapState demo_mmu"
  have t: "translate ?ms 0x4001 = 0x8016001" "block_of 0x4001 = 2" by code_simp+
  then have v: "0x4001 \<in> block_in phys28 ?ms 2" by (simp add: block_in_def phys28_def)
  have ok: "sparse_ok phys28 (mm_phys demo_mmu)"
    using sparse_ok_phys28 by (simp add: demo_mmu_def setMapState_def map_new_def)
  have "unclaimed ?ms (block_in phys28 ?ms 2) demo_mmu"
    by (simp add: unclaimed_def in_overlay_def demo_mmu_def setMapState_def map_new_def)
  from mapped_memory [OF ok v v this, of "0x5A"] show ?thesis by (simp add: t)
qed

end
