(* ===== verification/Mega65Banks.thy ===== *)
theory Mega65Banks
  imports MapMmu C64Pla
begin

text \<open>
  Two registers that decide what a MEGA65 program sees: the C64 bank controller
  (\<open>plugins/devices/map_mmu/main/c64_bank_controller.h\<close>, \<open>.cpp\<close>), which serves the processor port and
  the ROMs of the C64 and C65, and the key register at $D02F (\<open>key_register.h\<close>, \<open>.cpp\<close>), whose two-byte
  knocks select the I/O personality. What the controller asks others during an access, the map state,
  VIC-III register $D030 and the hypervisor mode, is its environment.
\<close>

section \<open>The bank controller\<close>

record bank_env =
  be_mapMmu :: "map_state option"
  be_d030 :: "u8 option"
  be_hyper :: "bool option"

record bank_ctrl =
  bc_portDDR :: u8
  bc_forceFast :: bool
  bc_portOut :: u8
  bc_basicRom :: "(u32 \<Rightarrow> u8) option"
  bc_basicSize :: u32
  bc_kernalRom :: "(u32 \<Rightarrow> u8) option"
  bc_kernalSize :: u32
  bc_charRom :: "(u32 \<Rightarrow> u8) option"
  bc_charSize :: u32
  bc_fullRom :: "(u32 \<Rightarrow> u8) option"
  bc_fullRomSize :: u32

definition bank_new :: bank_ctrl where
  "bank_new = \<lparr>bc_portDDR = 0x2F, bc_forceFast = False, bc_portOut = 0x37, bc_basicRom = None, bc_basicSize = 0,
     bc_kernalRom = None, bc_kernalSize = 0, bc_charRom = None, bc_charSize = 0, bc_fullRom = None,
     bc_fullRomSize = 0\<rparr>"

text \<open>\<open>updateOverlays\<close> has an empty body.\<close>

definition updateOverlays :: "bank_ctrl \<Rightarrow> bank_ctrl" where
  "updateOverlays b = b"

definition bank_setBasicRom :: "(u32 \<Rightarrow> u8) option \<Rightarrow> u32 \<Rightarrow> bank_ctrl \<Rightarrow> bank_ctrl" where
  "bank_setBasicRom rom n b = updateOverlays (b\<lparr>bc_basicRom := rom, bc_basicSize := n\<rparr>)"

definition bank_setKernalRom :: "(u32 \<Rightarrow> u8) option \<Rightarrow> u32 \<Rightarrow> bank_ctrl \<Rightarrow> bank_ctrl" where
  "bank_setKernalRom rom n b = updateOverlays (b\<lparr>bc_kernalRom := rom, bc_kernalSize := n\<rparr>)"

definition bank_setCharRom :: "(u32 \<Rightarrow> u8) option \<Rightarrow> u32 \<Rightarrow> bank_ctrl \<Rightarrow> bank_ctrl" where
  "bank_setCharRom rom n b = b\<lparr>bc_charRom := rom, bc_charSize := n\<rparr>"

definition bank_setFullRom :: "(u32 \<Rightarrow> u8) option \<Rightarrow> u32 \<Rightarrow> bank_ctrl \<Rightarrow> bank_ctrl" where
  "bank_setFullRom rom n b = b\<lparr>bc_fullRom := rom, bc_fullRomSize := n\<rparr>"

definition setPort :: "u8 \<Rightarrow> u8 \<Rightarrow> bank_ctrl \<Rightarrow> bank_ctrl" where
  "setPort ddr v b = updateOverlays (b\<lparr>bc_portDDR := ddr, bc_portOut := v\<rparr>)"

definition setForceFast :: "bool \<Rightarrow> bank_ctrl \<Rightarrow> bank_ctrl" where
  "setForceFast on b = b\<lparr>bc_forceFast := on\<rparr>"

definition bank_reset :: "bank_ctrl \<Rightarrow> bank_ctrl" where
  "bank_reset b = updateOverlays (b\<lparr>bc_portDDR := 0x2F, bc_portOut := 0x37, bc_forceFast := False\<rparr>)"

definition effectivePort :: "bank_ctrl \<Rightarrow> u8" where
  "effectivePort b = bc_portOut b OR NOT (bc_portDDR b)"

definition bank_loram :: "bank_ctrl \<Rightarrow> bool" where "bank_loram b \<longleftrightarrow> tst (effectivePort b) 1"
definition bank_hiram :: "bank_ctrl \<Rightarrow> bool" where "bank_hiram b \<longleftrightarrow> tst (drop_bit 1 (effectivePort b)) 1"
definition bank_charen :: "bank_ctrl \<Rightarrow> bool" where "bank_charen b \<longleftrightarrow> tst (drop_bit 2 (effectivePort b)) 1"

definition isBlockMapped :: "bank_env \<Rightarrow> nat \<Rightarrow> bool" where
  "isBlockMapped E block = (case be_mapMmu E of Some ms \<Rightarrow> bit (ms_enables ms) block | None \<Rightarrow> False)"

definition bank_d030 :: "bank_env \<Rightarrow> u8" where
  "bank_d030 E = (case be_d030 E of Some v \<Rightarrow> v | None \<Rightarrow> 0)"

definition inHypervisor :: "bank_env \<Rightarrow> bool" where
  "inHypervisor E = (case be_hyper E of Some v \<Rightarrow> v | None \<Rightarrow> False)"

text \<open>\<open>rom && off < size\<close> and the byte.\<close>

definition rom_at :: "(u32 \<Rightarrow> u8) option \<Rightarrow> u32 \<Rightarrow> u32 \<Rightarrow> u8 option" where
  "rom_at rom n off = (case rom of Some r \<Rightarrow> if off < n then Some (r off) else None | None \<Rightarrow> None)"

definition or_else :: "'a option \<Rightarrow> 'a option \<Rightarrow> 'a option" where
  "or_else x y = (case x of Some v \<Rightarrow> Some v | None \<Rightarrow> y)"

definition bank_ioRead :: "bank_env \<Rightarrow> u32 \<Rightarrow> bank_ctrl \<Rightarrow> u8 option" where
  "bank_ioRead E addr b =
     (let full = (\<lambda>off. rom_at (bc_fullRom b) (bc_fullRomSize b) off); d030val = bank_d030 E
      in if addr \<le> 0x0001 \<and> isBlockMapped E 0 then None
         else if addr = 0x0000 then Some (bc_portDDR b)
         else if addr = 0x0001 then Some (effectivePort b)
         else if inHypervisor E \<and> addr < 0xE000 then None
         else if addr \<ge> 0x8000 \<and> addr \<le> 0x9FFF then
           (if \<not> isBlockMapped E 4 \<and> tst d030val 0x08 then full (addr - 0x8000 + 0x8000) else None)
         else if addr \<ge> 0xA000 \<and> addr \<le> 0xBFFF then
           (if \<not> isBlockMapped E 5 \<and> (tst d030val 0x10 \<or> (bank_hiram b \<and> bank_loram b))
            then or_else (full (addr - 0xA000 + 0xA000)) (rom_at (bc_basicRom b) (bc_basicSize b) (addr - 0xA000))
            else None)
         else if addr \<ge> 0xC000 \<and> addr \<le> 0xCFFF then
           (if \<not> isBlockMapped E 6 \<and> tst d030val 0x20 then full (addr - 0xC000 + 0xC000) else None)
         else if addr \<ge> 0xD000 \<and> addr \<le> 0xDFFF then
           (if bank_hiram b \<and> \<not> bank_charen b \<and> \<not> isBlockMapped E 6
            then map_option (\<lambda>r. r ((addr - 0xD000) AND (bc_charSize b - 1))) (bc_charRom b) else None)
         else if addr \<ge> 0xE000 \<and> addr \<le> 0xFFFF then
           (if \<not> isBlockMapped E 7 \<and> (tst d030val 0x80 \<or> bank_hiram b)
            then or_else (full addr) (rom_at (bc_kernalRom b) (bc_kernalSize b) (addr - 0xE000)) else None)
         else None)"

definition bank_ioWrite :: "bank_env \<Rightarrow> u32 \<Rightarrow> u8 \<Rightarrow> bank_ctrl \<Rightarrow> bool \<times> bank_ctrl" where
  "bank_ioWrite E addr val b =
     (if addr \<le> 0x0001 \<and> isBlockMapped E 0 then (False, b)
      else if addr = 0x0000 then
        (True, if val = 0x40 then b\<lparr>bc_forceFast := False\<rparr>
               else if val = 0x41 then b\<lparr>bc_forceFast := True\<rparr>
               else updateOverlays (b\<lparr>bc_portDDR := val\<rparr>))
      else if addr = 0x0001 then (True, updateOverlays (b\<lparr>bc_portOut := val\<rparr>))
      else (False, b))"

section \<open>The key register\<close>

datatype personality = C64Mode | C65Mode | Mega65Mode | EthernetMode

definition KNOCK_SEQUENCES :: "(u8 \<times> u8 \<times> personality) list" where
  "KNOCK_SEQUENCES = [(0x00, 0x00, C64Mode), (0xA5, 0x96, C65Mode), (0x47, 0x53, Mega65Mode), (0x45, 0x54, EthernetMode)]"

datatype key_state = WaitingFirst | WaitingSecond

text \<open>\<open>kr_calls\<close> are the personalities the callback was told, oldest first.\<close>

record key_register =
  kr_state :: key_state
  kr_firstByte :: u8
  kr_lastWritten :: u8
  kr_personality :: personality
  kr_calls :: "personality list option"

definition key_new :: key_register where
  "key_new = \<lparr>kr_state = WaitingFirst, kr_firstByte = 0, kr_lastWritten = 0, kr_personality = C64Mode, kr_calls = None\<rparr>"

definition isValidSequence :: "u8 \<Rightarrow> u8 \<Rightarrow> personality option" where
  "isValidSequence a c =
     map_option (\<lambda>(_, _, m). m) (List.find (\<lambda>(x, y, m). x = a \<and> y = c) KNOCK_SEQUENCES)"

definition key_ioRead :: "u32 \<Rightarrow> key_register \<Rightarrow> u8 option" where
  "key_ioRead addr k = (if addr \<noteq> 0xD02F then None else Some (kr_lastWritten k))"

definition setPersonality :: "personality \<Rightarrow> key_register \<Rightarrow> key_register" where
  "setPersonality mode k =
     (if mode = kr_personality k then k
      else k\<lparr>kr_personality := mode, kr_calls := map_option (\<lambda>cs. cs @ [mode]) (kr_calls k)\<rparr>)"

definition key_ioWrite :: "bool \<Rightarrow> u32 \<Rightarrow> u8 \<Rightarrow> key_register \<Rightarrow> bool \<times> key_register" where
  "key_ioWrite hypervisor addr val k0 =
     (if addr \<noteq> 0xD02F then (False, k0)
      else let k = k0\<lparr>kr_lastWritten := val\<rparr>
        in if hypervisor then (True, k)
           else if kr_state k = WaitingFirst then (True, k\<lparr>kr_firstByte := val, kr_state := WaitingSecond\<rparr>)
           else let k1 = (case isValidSequence (kr_firstByte k) val of Some m \<Rightarrow> setPersonality m k | None \<Rightarrow> k)
             in (True, k1\<lparr>kr_state := WaitingFirst\<rparr>))"

definition key_reset :: "key_register \<Rightarrow> key_register" where
  "key_reset k = k\<lparr>kr_state := WaitingFirst, kr_firstByte := 0, kr_lastWritten := 0, kr_personality := C64Mode\<rparr>"

section \<open>C64 mode against the C64's PLA\<close>

text \<open>
  The controller as the machine builds it (\<open>machine_mega65.cpp\<close>): the ROM image \<open>rom\<close> is 128 KB of
  memory at physical $020000, given whole and with BASIC and the character set inside it; no separate
  KERNAL is given. And the PLA of a C64 without cartridge whose port is the controller's, whose ROMs are
  the same parts of the image and which knows the machine's RAM.
\<close>

definition mega65_banks :: "(u32 \<Rightarrow> u8) \<Rightarrow> bank_ctrl" where
  "mega65_banks rom = bank_setCharRom (Some (\<lambda>i. rom (0xD000 + i))) 4096
     (bank_setBasicRom (Some (\<lambda>i. rom (0xA000 + i))) 8192 (bank_setFullRom (Some rom) 0x20000 bank_new))"

definition roms_of :: "bank_ctrl \<Rightarrow> (u32 \<Rightarrow> u8) option \<times> u32 \<times> (u32 \<Rightarrow> u8) option \<times> u32 \<times> (u32 \<Rightarrow> u8) option \<times> u32" where
  "roms_of b = (bc_fullRom b, bc_fullRomSize b, bc_basicRom b, bc_basicSize b, bc_charRom b, bc_charSize b)"

definition pla_of :: "(u32 \<Rightarrow> u8) \<Rightarrow> (u32 \<Rightarrow> u8) \<Rightarrow> bank_ctrl \<Rightarrow> c64_pla" where
  "pla_of rom ram b = pla_setRamData (Some ram) (pla_setCharRom (Some (\<lambda>i. rom (0xD000 + i))) 4096
     (pla_setKernalRom (Some (\<lambda>i. rom (0xE000 + i))) 8192 (pla_setBasicRom (Some (\<lambda>i. rom (0xA000 + i))) 8192
       (pla_setSignals (Some (bank_loram b)) (Some (bank_hiram b)) (Some (bank_charen b)) pla_new))))"

text \<open>C64 mode: no block is mapped, $D030 selects no ROM, the processor is not in the hypervisor.\<close>

definition c64_mode :: "bank_env \<Rightarrow> bool" where
  "c64_mode E \<longleftrightarrow> (case be_mapMmu E of Some ms \<Rightarrow> ms_enables ms = 0 | None \<Rightarrow> True) \<and>
     bank_d030 E AND 0xB8 = 0 \<and> \<not> inHypervisor E"

lemma c64_mode_unmapped: "c64_mode E \<Longrightarrow> \<not> isBlockMapped E k"
  by (auto simp: c64_mode_def isBlockMapped_def split: option.splits)

lemma c64_mode_d030:
  assumes "c64_mode E"
  shows "\<not> tst (bank_d030 E) 0x08" "\<not> tst (bank_d030 E) 0x10" "\<not> tst (bank_d030 E) 0x20" "\<not> tst (bank_d030 E) 0x80"
proof -
  have z: "bank_d030 E AND 0xB8 = 0" using assms by (simp add: c64_mode_def)
  have "\<not> tst (bank_d030 E) k" if "0xB8 AND k = k" for k
  proof -
    have "bank_d030 E AND k = (bank_d030 E AND 0xB8) AND k" using that by (simp add: and.assoc)
    then show ?thesis using z by (simp add: tst_def)
  qed
  then show "\<not> tst (bank_d030 E) 0x08" "\<not> tst (bank_d030 E) 0x10" "\<not> tst (bank_d030 E) 0x20" "\<not> tst (bank_d030 E) 0x80"
    by simp_all
qed

definition char_rom_gap :: "bank_ctrl \<Rightarrow> u32 \<Rightarrow> bool" where
  "char_rom_gap b a \<longleftrightarrow> bank_loram b \<and> \<not> bank_hiram b \<and> \<not> bank_charen b \<and> 0xD000 \<le> a \<and> a \<le> 0xDFFF"

text \<open>What a program reads when the chip answered, or else the devices at $D000 to $DFFF, or else the RAM.\<close>

definition seen :: "(u32 \<Rightarrow> u8 option) \<Rightarrow> (u32 \<Rightarrow> u8) \<Rightarrow> u32 \<Rightarrow> u8 option \<Rightarrow> u8" where
  "seen dev ram a answer = (case answer of Some v \<Rightarrow> v | None \<Rightarrow>
     (case (if 0xD000 \<le> a \<and> a \<le> 0xDFFF then dev a else None) of Some v \<Rightarrow> v | None \<Rightarrow> ram a))"

lemma rom_window: "lo \<le> a \<Longrightarrow> a \<le> lo + 0x1FFF \<Longrightarrow> lo \<le> 0xE000 \<Longrightarrow> a - lo < (0x2000 :: u32)"
  by (simp add: word_less_nat_alt word_le_nat_alt unat_sub unat_word_ariths)

lemma bank_c64_parts:
  assumes "c64_mode E" and "roms_of b = roms_of (mega65_banks rom)" and "0x1000 \<le> a" and "a \<le> 0xFFFF"
  shows "bank_ioRead E a b =
     (if 0xA000 \<le> a \<and> a \<le> 0xBFFF \<and> bank_hiram b \<and> bank_loram b then Some (rom a)
      else if 0xD000 \<le> a \<and> a \<le> 0xDFFF \<and> bank_hiram b \<and> \<not> bank_charen b
        then Some (rom (0xD000 + ((a - 0xD000) AND 0xFFF)))
      else if 0xE000 \<le> a \<and> bank_hiram b then Some (rom a)
      else None)"
proof -
  have n: "a \<noteq> 0" "a \<noteq> 1" "\<not> a \<le> 1" using assms(3) by (auto simp: word_le_nat_alt)
  have u: "\<And>k. \<not> isBlockMapped E k" using c64_mode_unmapped [OF assms(1)] .
  have f: "bc_fullRom b = Some rom" "bc_fullRomSize b = 0x20000" "bc_charRom b = Some (\<lambda>i. rom (0xD000 + i))" "bc_charSize b = 4096"
    using assms(2) by (simp_all add: roms_of_def mega65_banks_def bank_setCharRom_def bank_setBasicRom_def
        bank_setFullRom_def updateOverlays_def)
  have l: "a < 0x20000" using assms(4) by (simp add: word_le_nat_alt word_less_nat_alt)
  have z: "\<not> inHypervisor E" using assms(1) by (simp add: c64_mode_def)
  note d = c64_mode_d030 [OF assms(1)]
  consider "a < 0x8000" | "0x8000 \<le> a" "a \<le> 0x9FFF" | "0xA000 \<le> a" "a \<le> 0xBFFF" | "0xC000 \<le> a" "a \<le> 0xCFFF"
    | "0xD000 \<le> a" "a \<le> 0xDFFF" | "0xE000 \<le> a"
    by (force simp: word_le_nat_alt word_less_nat_alt)
  then show ?thesis
    by cases (use assms(3,4) l in \<open>auto simp: bank_ioRead_def Let_def n u z d f rom_at_def or_else_def word_le_nat_alt word_less_nat_alt\<close>)
qed

section \<open>Correctness\<close>

text \<open>
  C31: In C64 mode (no block mapped, no C65 ROM selected, not in the hypervisor) the controller of the
  machine answers a read above $0FFF with the byte the C64's PLA reads from BASIC, the KERNAL or the
  character ROM, for every state of the processor port, and leaves every other read to the devices and the
  memory behind. So the program sees what it sees on a C64, with two exceptions, both at $D000 to $DFFF
  with HIRAM low: with CHAREN low and LORAM high the PLA shows the character ROM, and with LORAM low too
  (all RAM) it shows the RAM under the I/O area; the MEGA65 shows the I/O devices in both.
\<close>

theorem bank_matches_pla:
  assumes "c64_mode E" and "roms_of b = roms_of (mega65_banks rom)" and "0x1000 \<le> a" and "a \<le> 0xFFFF"
  defines "t \<equiv> documented_target (bank_loram b) (bank_hiram b) (bank_charen b) False False a"
  shows "bank_ioRead E a b = (if t \<in> {Ram, IoChips} \<or> char_rom_gap b a then None else pla_ioRead a (pla_of rom ram b)) \<and>
    seen dev ram a (bank_ioRead E a b) =
      (if 0xD000 \<le> a \<and> a \<le> 0xDFFF \<and> \<not> bank_hiram b \<and> \<not> (bank_loram b \<and> bank_charen b) then seen dev ram a None
       else seen dev ram a (pla_ioRead a (pla_of rom ram b)))"
proof -
  have m: "a AND 0xFFFF = a" by (rule virtual_masked) (use assms(4) in \<open>simp add: word_le_nat_alt\<close>)
  have w: "0xA000 \<le> a \<Longrightarrow> a \<le> 0xBFFF \<Longrightarrow> a - 0xA000 < 0x2000" "0xE000 \<le> a \<Longrightarrow> a - 0xE000 < 0x2000"
    using rom_window [of "0xA000" a] rom_window [of "0xE000" a] assms(4) by simp_all
  have p: "pla_ioRead a (pla_of rom ram b) = target_read (pla_of rom ram b) a t"
    unfolding pla_read_target m
    by (simp add: t_def pla_of_def pla_new_def pla_line_def pla_setRamData_def pla_setCharRom_def pla_setKernalRom_def
        pla_setBasicRom_def pla_setSignals_def)
  note f = t_def documented_target_def char_rom_gap_def target_read_def pla_of_def pla_ramByte_def seen_def
    romByte_def pla_new_def Let_def pla_setRamData_def pla_setCharRom_def pla_setKernalRom_def
    pla_setBasicRom_def pla_setSignals_def
  consider "a < 0x8000" | "0x8000 \<le> a" "a \<le> 0x9FFF" | "0xA000 \<le> a" "a \<le> 0xBFFF" | "0xC000 \<le> a" "a \<le> 0xCFFF"
    | "0xD000 \<le> a" "a \<le> 0xDFFF" | "0xE000 \<le> a"
    by (force simp: word_le_nat_alt word_less_nat_alt)
  then show ?thesis
    unfolding p bank_c64_parts [OF assms(1-4)]
    by cases (use assms(3,4) w in \<open>auto simp: f word_le_nat_alt word_less_nat_alt\<close>)
qed

text \<open>
  What the header calls the I/O region is not switched: whenever the character ROM is not shown, the
  controller passes reads of $D000 to $DFFF on to the I/O devices, also with all RAM selected, and
  writes there always.
\<close>

lemma bank_io_not_switched:
  assumes "0xD000 \<le> a" and "a \<le> 0xDFFF" and "\<not> (bank_hiram b \<and> \<not> bank_charen b)"
  shows "bank_ioRead E a b = None \<and> bank_ioWrite E a v b = (False, b)"
proof -
  have n: "a \<noteq> 0" "a \<noteq> 1" "\<not> a \<le> 1" using assms(1) by (auto simp: word_le_nat_alt)
  show ?thesis using assms
    by (auto simp: bank_ioRead_def bank_ioWrite_def Let_def n word_le_nat_alt word_less_nat_alt)
qed

fun knock_pairs :: "u8 list \<Rightarrow> (u8 \<times> u8) list" where
  "knock_pairs (a # c # vs) = (a, c) # knock_pairs vs"
| "knock_pairs vs = []"

definition last_knock :: "personality \<Rightarrow> u8 list \<Rightarrow> personality" where
  "last_knock m vs = fold (\<lambda>(a, c) m. case isValidSequence a c of Some n \<Rightarrow> n | None \<Rightarrow> m) (knock_pairs vs) m"

definition key_writes :: "u8 list \<Rightarrow> key_register \<Rightarrow> key_register" where
  "key_writes vs k = fold (\<lambda>v k. snd (key_ioWrite False 0xD02F v k)) vs k"

lemma knock:
  assumes "kr_state k = WaitingFirst"
  shows "snd (key_ioWrite False 0xD02F c (snd (key_ioWrite False 0xD02F a k))) =
    (case isValidSequence a c of Some m \<Rightarrow> setPersonality m (k\<lparr>kr_firstByte := a, kr_lastWritten := c\<rparr>)
       | None \<Rightarrow> k\<lparr>kr_firstByte := a, kr_lastWritten := c\<rparr>)\<lparr>kr_state := WaitingFirst\<rparr>"
  using assms by (auto simp: key_ioWrite_def setPersonality_def Let_def split: option.splits)

definition calls_current :: "key_register \<Rightarrow> bool" where
  "calls_current k \<longleftrightarrow> (case kr_calls k of Some cs \<Rightarrow> last (C64Mode # cs) = kr_personality k | None \<Rightarrow> True)"

lemma calls_current_set: "calls_current k \<Longrightarrow> calls_current (setPersonality m k)"
  by (auto simp: calls_current_def setPersonality_def split: option.splits)

text \<open>
  From rest, the key register takes what is written in pairs: the personality is that of the last pair
  that is one of the four knocks, a lone last byte waits for its partner, and whoever listens to the
  changes has been told the current personality.
\<close>

theorem key_last_knock:
  assumes "kr_state k = WaitingFirst" and "calls_current k"
  shows "kr_personality (key_writes vs k) = last_knock (kr_personality k) vs \<and>
    (kr_state (key_writes vs k) = WaitingFirst \<longleftrightarrow> even (length vs)) \<and> calls_current (key_writes vs k)"
  using assms
proof (induction vs arbitrary: k rule: knock_pairs.induct)
  case (1 a c vs)
  let ?k = "snd (key_ioWrite False 0xD02F c (snd (key_ioWrite False 0xD02F a k)))"
  have cc: "calls_current (q\<lparr>kr_state := s\<rparr>) = calls_current q"
    "calls_current (k\<lparr>kr_firstByte := a, kr_lastWritten := c\<rparr>) = calls_current k" for q s
    by (simp_all add: calls_current_def split: option.split)
  have "kr_state ?k = WaitingFirst" by (simp add: knock [OF 1(2)])
  moreover have "calls_current ?k"
    unfolding knock [OF 1(2)] using 1(3) by (simp add: cc calls_current_set split: option.split)
  moreover have "kr_personality ?k = (case isValidSequence a c of Some m \<Rightarrow> m | None \<Rightarrow> kr_personality k)"
    unfolding knock [OF 1(2)] by (simp add: setPersonality_def split: option.split)
  ultimately show ?case using "1.IH" [of ?k] by (simp add: key_writes_def last_knock_def)
qed (auto simp: key_writes_def last_knock_def key_ioWrite_def calls_current_def Let_def split: option.splits)

text \<open>
  A reset goes back to the C64 personality without telling, so the listener keeps the old one; and one
  stray byte makes the register miss the knock that follows it.
\<close>

lemma key_reset_silent:
  "let k = key_reset (key_writes [0x47, 0x53] (key_new\<lparr>kr_calls := Some []\<rparr>))
   in kr_personality k = C64Mode \<and> kr_calls k = Some [Mega65Mode] \<and>
      kr_personality (key_writes [0x01, 0x47, 0x53] key_new) = C64Mode"
  by (simp add: Let_def key_writes_def key_ioWrite_def key_reset_def key_new_def isValidSequence_def
      KNOCK_SEQUENCES_def setPersonality_def)

section \<open>Examples\<close>

definition demo_rom_image :: "u32 \<Rightarrow> u8" where
  "demo_rom_image i = ucast (drop_bit 12 i)"

text \<open>The KERNAL is read from the image; with all RAM selected the devices stay at $D020.\<close>

lemma bank_matches_pla_witness:
  "let E = \<lparr>be_mapMmu = Some map_clear, be_d030 = None, be_hyper = None\<rparr>; b = mega65_banks demo_rom_image
   in bank_ioRead E 0xE000 b = Some 0xE \<and>
      seen (\<lambda>_. Some 7) (\<lambda>_. 9) 0xD020 (bank_ioRead E 0xD020 (setPort 0x2F 0x30 b)) = 7"
proof -
  let ?E = "\<lparr>be_mapMmu = Some map_clear, be_d030 = None, be_hyper = None\<rparr>" and ?b = "mega65_banks demo_rom_image"
  have c: "c64_mode ?E" by (simp add: c64_mode_def map_clear_def bank_d030_def inHypervisor_def)
  have r: "roms_of (setPort 0x2F 0x30 ?b) = roms_of ?b" by (simp add: setPort_def updateOverlays_def roms_of_def)
  have t: "documented_target (bank_loram ?b) (bank_hiram ?b) (bank_charen ?b) False False 0xE000 = Kernal"
    "\<not> char_rom_gap ?b 0xE000" "pla_ioRead 0xE000 (pla_of demo_rom_image (\<lambda>_. 9) ?b) = Some 0xE"
    "\<not> bank_hiram (setPort 0x2F 0x30 ?b)" "\<not> bank_loram (setPort 0x2F 0x30 ?b)"
    by code_simp+
  show ?thesis
    using bank_matches_pla [OF c refl, where a = "0xE000" and rom = demo_rom_image and ram = "\<lambda>_. 9" and dev = "\<lambda>_. None", THEN conjunct1]
      bank_matches_pla [OF c r, where a = "0xD020" and ram = "\<lambda>_. 9" and dev = "\<lambda>_. Some 7", THEN conjunct2] t
    by (simp add: Let_def) (simp add: seen_def)
qed

lemma key_last_knock_witness: "kr_personality (key_writes [0x47, 0x53, 0xA5, 0x00, 0x45] key_new) = Mega65Mode"
proof -
  have "kr_state key_new = WaitingFirst" "calls_current key_new" by (simp_all add: key_new_def calls_current_def)
  from key_last_knock [OF this, of "[0x47, 0x53, 0xA5, 0x00, 0x45]"] show ?thesis
    by (simp add: last_knock_def isValidSequence_def KNOCK_SEQUENCES_def)
qed

end
