(* ===== verification/Mega65Math.thy ===== *)
theory Mega65Math
  imports IoRegistry
begin

text \<open>
  The arithmetic unit of the MEGA65 (\<open>plugins/devices/mega65_math/main/mega65_math.h\<close>,
  \<open>mega65_math.cpp\<close>): a 32-bit multiplier and divider whose results appear as soon as an input byte is
  written, a random number register and two cycle counters, in 256 byte registers.
\<close>

section \<open>The device\<close>

record math_dev =
  mx_base :: u32
  mx_regs :: "nat \<Rightarrow> u8"
  mx_rngState :: u32
  mx_phiCounter :: u32
  mx_frameCounter :: u32

definition OFF_DIVINA :: nat where "OFF_DIVINA = 0x60"
definition OFF_DIVINB :: nat where "OFF_DIVINB = 0x64"
definition OFF_DIVOUT :: nat where "OFF_DIVOUT = 0x68"
definition OFF_MULTINA :: nat where "OFF_MULTINA = 0x70"
definition OFF_MULTINB :: nat where "OFF_MULTINB = 0x74"
definition OFF_MULTOUT :: nat where "OFF_MULTOUT = 0x78"
definition OFF_RNDREG :: nat where "OFF_RNDREG = 0xEF"
definition OFF_RNGSTAT :: nat where "OFF_RNGSTAT = 0xFE"
definition OFF_PHICYC :: nat where "OFF_PHICYC = 0xF2"
definition OFF_FRMECY :: nat where "OFF_FRMECY = 0xF6"

definition store64 :: "nat \<Rightarrow> u64 \<Rightarrow> (nat \<Rightarrow> u8) \<Rightarrow> nat \<Rightarrow> u8" where
  "store64 dst val r = fold (\<lambda>i r. r(dst + i := ucast (drop_bit (i * 8) val AND 0xFF))) [0..<8] r"

definition load32 :: "nat \<Rightarrow> (nat \<Rightarrow> u8) \<Rightarrow> u32" where
  "load32 src r = ucast (r src) OR push_bit 8 (ucast (r (src + 1))) OR push_bit 16 (ucast (r (src + 2))) OR
     push_bit 24 (ucast (r (src + 3)))"

definition store32 :: "nat \<Rightarrow> u32 \<Rightarrow> (nat \<Rightarrow> u8) \<Rightarrow> nat \<Rightarrow> u8" where
  "store32 dst v r = r(dst := ucast (v AND 0xFF), dst + 1 := ucast (drop_bit 8 v AND 0xFF),
     dst + 2 := ucast (drop_bit 16 v AND 0xFF), dst + 3 := ucast (drop_bit 24 v AND 0xFF))"

definition advanceRng :: "math_dev \<Rightarrow> math_dev" where
  "advanceRng m =
     (let lsb = mx_rngState m AND 1; s = drop_bit 1 (mx_rngState m);
          s = (if lsb \<noteq> 0 then s XOR 0xD0000001 else s)
      in m\<lparr>mx_rngState := s, mx_regs := (mx_regs m)(OFF_RNDREG := ucast (s AND 0xFF), OFF_RNGSTAT := 0)\<rparr>)"

definition updateCycleCounters :: "math_dev \<Rightarrow> math_dev" where
  "updateCycleCounters m = m\<lparr>mx_regs :=
     store32 OFF_FRMECY (mx_frameCounter m) (store32 OFF_PHICYC (mx_phiCounter m) (mx_regs m))\<rparr>"

definition math_new :: "u32 \<Rightarrow> math_dev" where
  "math_new base = updateCycleCounters (advanceRng
     \<lparr>mx_base = base, mx_regs = (\<lambda>_. 0), mx_rngState = 0xACE1, mx_phiCounter = 0, mx_frameCounter = 0\<rparr>)"

definition math_reset :: "math_dev \<Rightarrow> math_dev" where
  "math_reset m = updateCycleCounters (advanceRng
     (m\<lparr>mx_regs := (\<lambda>_. 0), mx_rngState := 0xACE1, mx_phiCounter := 0, mx_frameCounter := 0\<rparr>))"

definition math_tick :: "u64 \<Rightarrow> math_dev \<Rightarrow> math_dev" where
  "math_tick cycles m = updateCycleCounters
     (m\<lparr>mx_phiCounter := mx_phiCounter m + ucast cycles, mx_frameCounter := mx_frameCounter m + ucast cycles\<rparr>)"

definition resetFrameCounter :: "math_dev \<Rightarrow> math_dev" where
  "resetFrameCounter m = m\<lparr>mx_frameCounter := 0\<rparr>"

definition computeMultiply :: "math_dev \<Rightarrow> math_dev" where
  "computeMultiply m =
     (let a = ucast (load32 OFF_MULTINA (mx_regs m)) :: u64; b = ucast (load32 OFF_MULTINB (mx_regs m))
      in m\<lparr>mx_regs := store64 OFF_MULTOUT (a * b) (mx_regs m)\<rparr>)"

definition computeDivide :: "math_dev \<Rightarrow> math_dev" where
  "computeDivide m =
     (let dividend = load32 OFF_DIVINA (mx_regs m); divisor = load32 OFF_DIVINB (mx_regs m);
          quotient = (if divisor \<noteq> 0 then ucast (dividend div divisor) else 0xFFFFFFFFFFFFFFFF) :: u64;
          remainder = (if divisor \<noteq> 0 then dividend mod divisor else 0xFFFFFFFF)
      in m\<lparr>mx_regs := store32 OFF_MULTINA remainder (store64 OFF_DIVOUT quotient (mx_regs m))\<rparr>)"

definition math_ioPeek :: "u32 \<Rightarrow> math_dev \<Rightarrow> u8 option" where
  "math_ioPeek addr m =
     (let off = addr - mx_base m in if off \<ge> 256 \<or> off \<le> 0x0F then None else Some (mx_regs m (unat off)))"

definition math_ioRead :: "u32 \<Rightarrow> math_dev \<Rightarrow> u8 option \<times> math_dev" where
  "math_ioRead addr m =
     (let off = addr - mx_base m
      in if off \<ge> 256 then (None, m)
         else if off \<le> 0x0F then (None, m)
         else if unat off = OFF_RNDREG then (Some (mx_regs m OFF_RNDREG), advanceRng m)
         else (Some (mx_regs m (unat off)), m))"

definition math_ioWrite :: "u32 \<Rightarrow> u8 \<Rightarrow> math_dev \<Rightarrow> bool \<times> math_dev" where
  "math_ioWrite addr val m =
     (let off = addr - mx_base m; o' = unat off
      in if off \<ge> 256 then (False, m)
         else if off \<le> 0x0F then (False, m)
         else if o' = OFF_RNDREG \<or> o' = OFF_RNGSTAT then (True, m)
         else let m = m\<lparr>mx_regs := (mx_regs m)(o' := val)\<rparr>;
                  m = (if OFF_MULTINA \<le> o' \<and> o' < OFF_MULTINA + 4 then computeMultiply m else m);
                  m = (if OFF_MULTINB \<le> o' \<and> o' < OFF_MULTINB + 4 then computeMultiply m else m);
                  m = (if OFF_DIVINA \<le> o' \<and> o' < OFF_DIVINA + 4 then computeDivide m else m);
                  m = (if OFF_DIVINB \<le> o' \<and> o' < OFF_DIVINB + 4 then computeDivide m else m)
           in (True, m))"

definition math_handler :: "nat \<Rightarrow> u32 \<Rightarrow> math_dev io_handler" where
  "math_handler i base = \<lparr>ioh_id = i, ioh_name = ''MEGA65 Math'', ioh_base = base,
     ioh_read = (\<lambda>a. State_Monad.State (math_ioRead a)), ioh_peek = (\<lambda>a. gets (math_ioPeek a)),
     ioh_write = (\<lambda>a v. State_Monad.State (math_ioWrite a v)), ioh_reset = math_reset, ioh_tick = math_tick,
     ioh_isHaltRequested = (\<lambda>_. False)\<rparr>"

lemmas math_offsets = OFF_DIVINA_def OFF_DIVINB_def OFF_DIVOUT_def OFF_MULTINA_def OFF_MULTINB_def OFF_MULTOUT_def
  OFF_RNDREG_def OFF_RNGSTAT_def OFF_PHICYC_def OFF_FRMECY_def

section \<open>Bytes and numbers\<close>

text \<open>The number in \<open>n\<close> little-endian bytes.\<close>

definition le_value :: "nat \<Rightarrow> nat \<Rightarrow> (nat \<Rightarrow> u8) \<Rightarrow> nat" where
  "le_value n src r = (\<Sum>i < n. unat (r (src + i)) * 256 ^ i)"

lemma base256_digits: "(\<Sum>i < n. (x :: nat) div 256 ^ i mod 256 * 256 ^ i) = x mod 256 ^ (n :: nat)"
proof (induction n)
  case (Suc n)
  have "x mod 256 ^ Suc n = 256 ^ n * (x div 256 ^ n mod 256) + x mod 256 ^ n"
    using mod_mult2_eq [of x "256 ^ n" 256] by (simp add: mult.commute)
  then show ?case using Suc by simp
qed simp

lemma unat_mask_drop: "unat (drop_bit n v AND mask m :: 'a::len word) = unat v div 2 ^ n mod 2 ^ m"
proof -
  have "unat (drop_bit n v) = unat v div 2 ^ n"
    using take_bit_nat_eq_self [of "unat v" "LENGTH('a)"] unsigned_less [of v, where 'a = nat]
    unfolding unsigned_drop_bit_eq by (simp add: drop_bit_eq_div)
  then show ?thesis unfolding take_bit_eq_mask [symmetric] unsigned_take_bit_eq by (simp add: take_bit_eq_mod)
qed

lemma unat_byte64: "unat (ucast (drop_bit (i * 8) v AND 0xFF :: u64) :: u8) = unat v div 256 ^ i mod 256"
proof -
  have m: "(0xFF :: u64) = mask 8" by (simp add: mask_eq_decr_exp)
  have "(2 :: nat) ^ (i * 8) = 256 ^ i" by (simp add: mult.commute [of i 8] power_mult)
  then have "unat (drop_bit (i * 8) v AND 0xFF) = unat v div 256 ^ i mod 256"
    unfolding m unat_mask_drop by simp
  then show ?thesis by (simp add: unsigned_ucast_eq take_bit_eq_mod)
qed

lemma unat_byte32: "unat (ucast (drop_bit (i * 8) v AND 0xFF :: u32) :: u8) = unat v div 256 ^ i mod 256"
proof -
  have m: "(0xFF :: u32) = mask 8" by (simp add: mask_eq_decr_exp)
  have "(2 :: nat) ^ (i * 8) = 256 ^ i" by (simp add: mult.commute [of i 8] power_mult)
  then have "unat (drop_bit (i * 8) v AND 0xFF) = unat v div 256 ^ i mod 256"
    unfolding m unat_mask_drop by simp
  then show ?thesis by (simp add: unsigned_ucast_eq take_bit_eq_mod)
qed

lemma store64_at: "store64 dst v r k = (if dst \<le> k \<and> k < dst + 8 then ucast (drop_bit ((k - dst) * 8) v AND 0xFF) else r k)"
proof -
  have u: "[0..<8] = [0, 1, 2, 3, 4, 5, 6, 7 :: nat]" by (simp add: upt_rec)
  consider "k < dst \<or> dst + 8 \<le> k" | "k - dst \<in> {0, 1, 2, 3, 4, 5, 6, 7}" "dst \<le> k" by force
  then show ?thesis
  proof cases
    case 2
    then have "k \<in> {dst, dst + 1, dst + 2, dst + 3, dst + 4, dst + 5, dst + 6, dst + 7}" by auto
    then show ?thesis by (auto simp: store64_def u)
  qed (auto simp: store64_def u)
qed

lemma store32_at: "store32 dst v r k = (if dst \<le> k \<and> k < dst + 4 then ucast (drop_bit ((k - dst) * 8) v AND 0xFF) else r k)"
proof -
  consider "k < dst \<or> dst + 4 \<le> k" | "k \<in> {dst, dst + 1, dst + 2, dst + 3}" by force
  then show ?thesis by cases (auto simp: store32_def)
qed

lemma le_value_store64: "le_value 8 dst (store64 dst v r) = unat v"
  using base256_digits [of "unat v" 8] unsigned_less [of v, where 'a = nat]
  by (simp add: le_value_def store64_at unat_byte64)

lemma le_value_store32: "le_value 4 dst (store32 dst v r) = unat v"
  using base256_digits [of "unat v" 4] unsigned_less [of v, where 'a = nat]
  by (simp add: le_value_def store32_at unat_byte32)

lemma load32_bytes: "i < 4 \<Longrightarrow> ucast (drop_bit (i * 8) (load32 src r) AND 0xFF) = r (src + i)"
proof -
  assume "i < 4"
  have h: "\<not> bit (v :: u8) (8 + n)" "\<not> bit v (16 + n)" "\<not> bit v (24 + n)" for v n
    by (auto dest: bit_imp_le_length)
  from \<open>i < 4\<close> consider "i = 0" | "i = 1" | "i = 2" | "i = 3" by linarith
  then show ?thesis
    by cases (auto intro!: u8_eqI simp: load32_def bit_simps flag_bits h)
qed

lemma unat_load32: "unat (load32 src r) = le_value 4 src r"
proof -
  have "le_value 4 src r = (\<Sum>i < 4. unat (load32 src r) div 256 ^ i mod 256 * 256 ^ i)"
    unfolding le_value_def unat_byte32 [symmetric] using load32_bytes by (intro sum.cong) auto
  also have "\<dots> = unat (load32 src r)"
    using base256_digits [of "unat (load32 src r)" 4] unsigned_less [of "load32 src r", where 'a = nat] by simp
  finally show ?thesis by simp
qed

lemma le_value_cong: "(\<And>i. i < n \<Longrightarrow> r (src + i) = r' (src + i)) \<Longrightarrow> le_value n src r = le_value n src r'"
  by (simp add: le_value_def)

section \<open>Correctness\<close>

lemma unat_product: "unat (ucast (a :: u32) * ucast (b :: u32) :: u64) = unat a * unat b"
proof -
  have l: "unat x < 2 ^ 32" for x :: u32 using unsigned_less [of x, where 'a = nat] by simp
  have "unat a * unat b < 2 ^ 32 * 2 ^ 32" by (rule mult_strict_mono [OF l l]) simp_all
  moreover have "unat (ucast x :: u64) = unat x" for x :: u32
    using unsigned_less [of x, where 'a = nat] by (simp add: unsigned_ucast_eq take_bit_nat_eq_self)
  ultimately show ?thesis by (simp add: unat_word_ariths)
qed

definition register :: "nat \<Rightarrow> math_dev \<Rightarrow> nat" where
  "register src m = le_value 4 src (mx_regs m)"

definition register64 :: "nat \<Rightarrow> math_dev \<Rightarrow> nat" where
  "register64 src m = le_value 8 src (mx_regs m)"

text \<open>
  C33: A byte written to an input of the multiplier is stored and the eight product bytes are the exact
  product of the two inputs then held; a byte written to an input of the divider is stored and the
  quotient and remainder bytes are those of the two inputs, or all ones for a zero divisor.
\<close>

theorem math_results:
  assumes "off \<in> {0x60 ..< 0x68} \<union> {0x70 ..< 0x78}"
  shows "let m' = snd (math_ioWrite (mx_base m + of_nat off) v m);
      a = register OFF_DIVINA m'; b = register OFF_DIVINB m'
    in mx_regs m' off = v \<and>
      (if off \<ge> 0x70 then register64 OFF_MULTOUT m' = register OFF_MULTINA m' * register OFF_MULTINB m'
       else register64 OFF_DIVOUT m' = (if b = 0 then 2 ^ 64 - 1 else a div b) \<and>
         register OFF_MULTINA m' = (if b = 0 then 2 ^ 32 - 1 else a mod b))"
proof -
  define m1 where "m1 = m\<lparr>mx_regs := (mx_regs m)(off := v)\<rparr>"
  define m' where "m' = snd (math_ioWrite (mx_base m + of_nat off) v m)"
  have o: "unat (of_nat off :: u32) = off" using assms by (auto simp: unat_of_nat take_bit_nat_eq_self)
  have m': "m' = (if off \<ge> 0x70 then computeMultiply m1 else computeDivide m1)"
    using assms by (auto simp: m'_def m1_def math_ioWrite_def Let_def o word_le_nat_alt math_offsets)
  show ?thesis
  proof (cases "off \<ge> 0x70")
    case True
    have r: "mx_regs m' = store64 0x78 (ucast (load32 0x70 (mx_regs m1)) * ucast (load32 0x74 (mx_regs m1))) (mx_regs m1)"
      using True by (simp add: m' computeMultiply_def Let_def math_offsets)
    have i: "le_value 4 0x70 (mx_regs m') = le_value 4 0x70 (mx_regs m1)" "le_value 4 0x74 (mx_regs m') = le_value 4 0x74 (mx_regs m1)"
      unfolding r by (rule le_value_cong; simp add: store64_at)+
    have p: "le_value 8 0x78 (mx_regs m') = le_value 4 0x70 (mx_regs m') * le_value 4 0x74 (mx_regs m')"
      unfolding i unfolding r le_value_store64 unat_product unat_load32 ..
    have "mx_regs m' off = v" using assms True unfolding r by (simp add: store64_at m1_def)
    then show ?thesis using True p
      unfolding m'_def [symmetric] Let_def register_def register64_def math_offsets by simp
  next
    case False
    define q where "q = (if load32 0x64 (mx_regs m1) \<noteq> 0
      then ucast (load32 0x60 (mx_regs m1) div load32 0x64 (mx_regs m1)) else 0xFFFFFFFFFFFFFFFF :: u64)"
    define d where "d = (if load32 0x64 (mx_regs m1) \<noteq> 0
      then load32 0x60 (mx_regs m1) mod load32 0x64 (mx_regs m1) else 0xFFFFFFFF :: u32)"
    have r: "mx_regs m' = store32 0x70 d (store64 0x68 q (mx_regs m1))"
      using False by (simp add: m' computeDivide_def Let_def math_offsets q_def d_def)
    have i: "le_value 4 0x60 (mx_regs m') = le_value 4 0x60 (mx_regs m1)" "le_value 4 0x64 (mx_regs m') = le_value 4 0x64 (mx_regs m1)"
      unfolding r by (rule le_value_cong; simp add: store64_at store32_at)+
    have "le_value 8 0x68 (mx_regs m') = le_value 8 0x68 (store64 0x68 q (mx_regs m1))"
      unfolding r by (rule le_value_cong) (simp add: store32_at)
    then have o: "le_value 8 0x68 (mx_regs m') = unat q" "le_value 4 0x70 (mx_regs m') = unat d"
      unfolding le_value_store64 by (simp_all add: r le_value_store32)
    have z: "load32 0x64 (mx_regs m1) = 0 \<longleftrightarrow> le_value 4 0x64 (mx_regs m') = 0"
      unfolding i unfolding unat_load32 [symmetric] by (simp add: unat_eq_0)
    have u: "unat (ucast x :: u64) = unat x" for x :: u32
      using unsigned_less [of x, where 'a = nat] by (simp add: unsigned_ucast_eq take_bit_nat_eq_self)
    have qd: "unat q = (if le_value 4 0x64 (mx_regs m') = 0 then 2 ^ 64 - 1 else le_value 4 0x60 (mx_regs m') div le_value 4 0x64 (mx_regs m'))"
      "unat d = (if le_value 4 0x64 (mx_regs m') = 0 then 2 ^ 32 - 1 else le_value 4 0x60 (mx_regs m') mod le_value 4 0x64 (mx_regs m'))"
      unfolding q_def d_def z by (simp_all add: u unat_div unat_mod unat_load32 i)
    have "mx_regs m' off = v" using assms False unfolding r by (simp add: store64_at store32_at m1_def)
    then show ?thesis using False o qd
      unfolding m'_def [symmetric] Let_def register_def register64_def math_offsets by simp
  qed
qed

lemma math_results_witness:
  "let m = \<lparr>mx_base = 0xD700, mx_regs = (\<lambda>_. 0)(0x60 := 100), mx_rngState = 1, mx_phiCounter = 0, mx_frameCounter = 0\<rparr>;
     m' = snd (math_ioWrite (mx_base m + of_nat 0x64) 7 m)
   in register64 OFF_DIVOUT m' = 14 \<and> register OFF_MULTINA m' = 2"
proof -
  define m where "m = \<lparr>mx_base = 0xD700, mx_regs = (\<lambda>_. 0)(0x60 := 100), mx_rngState = 1, mx_phiCounter = 0, mx_frameCounter = 0\<rparr>"
  define m' where "m' = snd (math_ioWrite (mx_base m + of_nat 0x64) 7 m)"
  have "mx_regs m' = store32 0x70 2 (store64 0x68 14 ((\<lambda>_. 0)(0x60 := 100, 0x64 := 7)))"
    by (simp add: m'_def m_def math_ioWrite_def math_offsets computeDivide_def load32_def)
  then have "register OFF_DIVINA m' = 100 \<and> register OFF_DIVINB m' = 7"
    by (simp add: register_def le_value_def store32_at store64_at math_offsets lessThan_nat_numeral)
  then show ?thesis using math_results [of "0x64" m 7] unfolding m_def [symmetric] Let_def m'_def [symmetric] by simp
qed

text \<open>
  The header calls the product always valid, but a division stores its remainder in the first factor and
  leaves the product as it was.
\<close>

lemma math_product_stale:
  assumes "off \<in> {0x60 ..< 0x68}"
  shows "register64 OFF_MULTOUT (snd (math_ioWrite (mx_base m + of_nat off) v m)) = register64 OFF_MULTOUT m"
proof -
  have o: "unat (of_nat off :: u32) = off" using assms by (auto simp: unat_of_nat take_bit_nat_eq_self)
  have "snd (math_ioWrite (mx_base m + of_nat off) v m) = computeDivide (m\<lparr>mx_regs := (mx_regs m)(off := v)\<rparr>)"
    using assms by (auto simp: math_ioWrite_def Let_def o word_le_nat_alt math_offsets)
  then show ?thesis unfolding register64_def
    using assms by (auto intro!: le_value_cong simp: computeDivide_def Let_def math_offsets store32_at store64_at)
qed

text \<open>The random number generator never reaches the state zero, in which it would stay.\<close>

lemma shift_nonzero:
  assumes "(s :: u32) \<noteq> 0"
  shows "(if s AND 1 \<noteq> 0 then drop_bit 1 s XOR 0xD0000001 else drop_bit 1 s) \<noteq> 0"
proof (cases "bit s 0")
  case True
  have "\<not> bit (drop_bit 1 s) 31" by (auto simp: bit_simps dest: bit_imp_le_length)
  moreover have "bit (0xD0000001 :: u32) 31" by simp
  ultimately have "bit (drop_bit 1 s XOR 0xD0000001) 31" by (simp add: bit_xor_iff)
  then have "drop_bit 1 s XOR 0xD0000001 \<noteq> 0" by auto
  moreover have "s AND 1 \<noteq> 0" using True by (simp add: and_one_eq odd_iff_mod_2_eq_one bit_0)
  ultimately show ?thesis by simp
next
  case False
  have "\<exists>n. bit s n" by (rule ccontr) (use assms in \<open>auto simp: bit_eq_iff\<close>)
  then obtain n where n: "bit s n" by blast
  then have "n \<noteq> 0" using False by (cases n) auto
  then have "bit (drop_bit 1 s) (n - 1)" using n by (simp add: bit_simps)
  then have "drop_bit 1 s \<noteq> 0" by auto
  moreover have "s AND 1 = 0" using False by (simp add: and_one_eq bit_0 even_iff_mod_2_eq_zero)
  ultimately show ?thesis by simp
qed

datatype math_op = MathRead u32 | MathWrite u32 u8 | MathTick u64 | MathReset | MathFrame

primrec math_do :: "math_op \<Rightarrow> math_dev \<Rightarrow> math_dev" where
  "math_do (MathRead a) m = snd (math_ioRead a m)"
| "math_do (MathWrite a v) m = snd (math_ioWrite a v m)"
| "math_do (MathTick n) m = math_tick n m"
| "math_do MathReset m = math_reset m"
| "math_do MathFrame m = resetFrameCounter m"

lemma rng_state:
  "mx_rngState (updateCycleCounters m) = mx_rngState m" "mx_rngState (computeMultiply m) = mx_rngState m"
  "mx_rngState (computeDivide m) = mx_rngState m"
  "mx_rngState (advanceRng m) =
    (if mx_rngState m AND 1 \<noteq> 0 then drop_bit 1 (mx_rngState m) XOR 0xD0000001 else drop_bit 1 (mx_rngState m))"
  by (simp_all add: updateCycleCounters_def computeMultiply_def computeDivide_def advanceRng_def Let_def)

theorem math_rng_alive: "mx_rngState (fold math_do ops (math_new base)) \<noteq> 0"
proof -
  have step: "mx_rngState (math_do x m) \<noteq> 0" if "mx_rngState m \<noteq> 0" for x m
    using that shift_nonzero [OF that] shift_nonzero [of "0xACE1"]
    by (cases x) (auto simp: math_ioRead_def math_ioWrite_def math_tick_def math_reset_def resetFrameCounter_def
        rng_state Let_def)
  have "mx_rngState (fold math_do ops m) \<noteq> 0" if "mx_rngState m \<noteq> 0" for m
    using that by (induction ops arbitrary: m) (auto simp: step)
  moreover have "mx_rngState (math_new base) \<noteq> 0"
    using shift_nonzero [of "0xACE1"] by (simp add: math_new_def rng_state)
  ultimately show ?thesis by blast
qed

end
