(* ===== verification/F018bDma.thy ===== *)
theory F018bDma
  imports MapMmu
begin

text \<open>
  The DMA controller of the MEGA65 (\<open>plugins/devices/f018b_dma/main/f018b_dma.h\<close>, \<open>f018b_dma.cpp\<close>): its
  registers and triggers, the job list with the enhanced options, and the transfer of one byte a tick with every
  way of stepping an address. The bus is the one \<open>m_bus\<close> points to (the bus of the first register write, unless
  one was set before); the I/O registry and the mapper are parameters. The text report is left out.
\<close>

section \<open>State\<close>

datatype dma_operation = DMA_COPY | DMA_MIX | DMA_SWAP | DMA_FILL

record dma_job =
  jb_commandLsb :: u8
  jb_commandMsb :: u8
  jb_count :: u16
  jb_srcAddr :: u32
  jb_srcFlags :: u8
  jb_dstAddr :: u32
  jb_dstFlags :: u8
  jb_modulo :: u16
  jb_srcSkipRate :: u16
  jb_dstSkipRate :: u16
  jb_srcMB :: u8
  jb_dstMB :: u8
  jb_srcMBset :: bool
  jb_dstMBset :: bool
  jb_useF018A :: bool

record line_mode =
  lm_xCol :: u32
  lm_yCol :: u32
  lm_slope :: u16
  lm_slopeAccum :: u32
  lm_slopeType :: u8

record spiral_mode =
  sp_enabled :: bool
  sp_phase :: u8
  sp_rowWidth :: u16
  sp_bytesInPhase :: u16
  sp_bytesPhaseStep :: u16

record dma_modulo =
  mo_src :: bool
  mo_dst :: bool
  mo_value :: u16
  mo_colLimit :: u16
  mo_rowLimit :: u16
  mo_colCounter :: u16
  mo_rowCounter :: u16
  mo_active :: bool

text \<open>One end of a transfer.\<close>

record dma_channel =
  ch_accum :: u32
  ch_base :: u32
  ch_step :: u16
  ch_dir :: bool
  ch_hold :: bool
  ch_io :: bool
  ch_line :: line_mode
  ch_inheritMB :: u8
  ch_inheritMBset :: bool

record f018b =
  fd_base :: u32
  fd_bus :: bool
  fd_regs :: "u8 list"
  fd_dmaListAddr :: u32
  fd_dmaActive :: bool
  fd_enhancedMode :: bool
  fd_experimental :: bool
  fd_hasChain :: bool
  fd_bytesRemaining :: u32
  fd_src :: dma_channel
  fd_dst :: dma_channel
  fd_fillByte :: u8
  fd_currentOp :: dma_operation
  fd_modulo :: dma_modulo
  fd_transparency :: u16
  fd_transparencyVal :: u8
  fd_spiral :: spiral_mode
  fd_minterms :: "u8 list"

definition no_line :: line_mode where
  "no_line = \<lparr>lm_xCol = 0, lm_yCol = 0, lm_slope = 0, lm_slopeAccum = 0, lm_slopeType = 0\<rparr>"

definition channel_new :: "line_mode \<Rightarrow> dma_channel" where
  "channel_new lm = \<lparr>ch_accum = 0, ch_base = 0, ch_step = 0x0100, ch_dir = False, ch_hold = False, ch_io = False,
     ch_line = lm, ch_inheritMB = 0, ch_inheritMBset = False\<rparr>"

text \<open>The constructor; the line state it does not set is a parameter.\<close>

definition f018b_new :: "u32 \<Rightarrow> line_mode \<Rightarrow> line_mode \<Rightarrow> f018b" where
  "f018b_new base srcLine dstLine = \<lparr>fd_base = base, fd_bus = False, fd_regs = replicate 16 0, fd_dmaListAddr = 0,
     fd_dmaActive = False, fd_enhancedMode = False, fd_experimental = False, fd_hasChain = False, fd_bytesRemaining = 0,
     fd_src = channel_new srcLine, fd_dst = channel_new dstLine, fd_fillByte = 0, fd_currentOp = DMA_COPY,
     fd_modulo = \<lparr>mo_src = False, mo_dst = False, mo_value = 0, mo_colLimit = 0, mo_rowLimit = 0, mo_colCounter = 0,
       mo_rowCounter = 0, mo_active = False\<rparr>,
     fd_transparency = 0x100, fd_transparencyVal = 0,
     fd_spiral = \<lparr>sp_enabled = False, sp_phase = 0, sp_rowWidth = 40, sp_bytesInPhase = 1, sp_bytesPhaseStep = 0\<rparr>,
     fd_minterms = [0, 0, 0, 0]\<rparr>"

definition clear_inherit :: "f018b \<Rightarrow> f018b" where
  "clear_inherit d = d\<lparr>fd_src := (fd_src d)\<lparr>ch_inheritMB := 0, ch_inheritMBset := False\<rparr>,
     fd_dst := (fd_dst d)\<lparr>ch_inheritMB := 0, ch_inheritMBset := False\<rparr>\<rparr>"

definition f018b_reset :: "f018b \<Rightarrow> f018b" where
  "f018b_reset d = clear_inherit (d\<lparr>fd_regs := replicate 16 0, fd_dmaListAddr := 0, fd_dmaActive := False,
     fd_hasChain := False, fd_bytesRemaining := 0\<rparr>)"

section \<open>The world around the controller\<close>

record 'b dma_env =
  de_bus :: "'b ibus"
  de_ioRead :: "(u32 \<Rightarrow> ('b, u8 option) state) option"
  de_ioWrite :: "(u32 \<Rightarrow> u8 \<Rightarrow> ('b, bool) state) option"
  de_resolve :: "('b \<Rightarrow> u16 \<Rightarrow> u32) option"

type_synonym 'b dma = "f018b \<times> 'b"

definition dget :: "(f018b \<Rightarrow> 'a) \<Rightarrow> ('b dma, 'a) state" where
  "dget g = gets (\<lambda>s. g (fst s))"

definition dupd :: "(f018b \<Rightarrow> f018b) \<Rightarrow> ('b dma, unit) state" where
  "dupd f = modify (\<lambda>s. (f (fst s), snd s))"

definition on_bus :: "('b, 'a) state \<Rightarrow> ('b dma, 'a) state" where
  "on_bus m = State (\<lambda>(d, b). case run_state m b of (x, b') \<Rightarrow> (x, (d, b')))"

definition bus_rd :: "'b dma_env \<Rightarrow> u32 \<Rightarrow> ('b dma, u8) state" where
  "bus_rd E a = on_bus (ib_read8 (de_bus E) a)"

section \<open>Registers\<close>

definition io_page :: "u32 \<Rightarrow> bool" where
  "io_page addr \<longleftrightarrow> addr AND 0xF000 = 0xD000"

definition syncListAddrToRegs :: "f018b \<Rightarrow> f018b" where
  "syncListAddrToRegs d =
     (let a = fd_dmaListAddr d; r = fd_regs d;
          r = r[0 := ucast (a AND 0xFF)]; r = r[5 := ucast (a AND 0xFF)];
          r = r[1 := ucast (drop_bit 8 a AND 0xFF)];
          r = r[2 := ((r ! 2) AND 0x80) OR ucast (drop_bit 16 a AND 0x7F)];
          r = r[4 := ucast (drop_bit 20 a AND 0xFF)]
      in d\<lparr>fd_regs := r\<rparr>)"

definition setListAddr :: "u32 \<Rightarrow> f018b \<Rightarrow> f018b" where
  "setListAddr addr d = syncListAddrToRegs (d\<lparr>fd_dmaListAddr := addr AND 0x0FFFFFFF\<rparr>)"

definition dma_ioRead :: "u32 \<Rightarrow> f018b \<Rightarrow> u8 option" where
  "dma_ioRead addr d = (let off = addr - fd_base d in if off \<ge> 16 then None else Some (fd_regs d ! unat off))"

definition setDmaBus :: "bool \<Rightarrow> f018b \<Rightarrow> f018b" where
  "setDmaBus present d = d\<lparr>fd_bus := present\<rparr>"

definition setExperimentalDmaOps :: "bool \<Rightarrow> f018b \<Rightarrow> f018b" where
  "setExperimentalDmaOps on d = d\<lparr>fd_experimental := on\<rparr>"

section \<open>Options of an enhanced job\<close>

definition low_byte :: "u16 \<Rightarrow> u8 \<Rightarrow> u16" where
  "low_byte v arg = (v AND 0xFF00) OR ucast arg"

definition high_byte :: "u16 \<Rightarrow> u8 \<Rightarrow> u16" where
  "high_byte v arg = (v AND 0x00FF) OR push_bit 8 (ucast arg)"

text \<open>The line options of one channel, by their distance from \<open>$87\<close> or \<open>$97\<close>.\<close>

definition line_option :: "u8 \<Rightarrow> u8 \<Rightarrow> line_mode \<Rightarrow> line_mode" where
  "line_option k arg lm =
     (if k = 0 then lm\<lparr>lm_xCol := (lm_xCol lm AND 0xFF0000) OR push_bit 8 (ucast arg)\<rparr>
      else if k = 1 then lm\<lparr>lm_xCol := (lm_xCol lm AND 0x00FF00) OR push_bit 16 (ucast arg)\<rparr>
      else if k = 2 then lm\<lparr>lm_yCol := (lm_yCol lm AND 0xFF0000) OR push_bit 8 (ucast arg)\<rparr>
      else if k = 3 then lm\<lparr>lm_yCol := (lm_yCol lm AND 0x00FF00) OR push_bit 16 (ucast arg)\<rparr>
      else if k = 4 then lm\<lparr>lm_slope := low_byte (lm_slope lm) arg\<rparr>
      else if k = 5 then lm\<lparr>lm_slope := high_byte (lm_slope lm) arg\<rparr>
      else if k = 6 then lm\<lparr>lm_slopeAccum := (lm_slopeAccum lm AND 0xFF00) OR ucast arg\<rparr>
      else if k = 7 then lm\<lparr>lm_slopeAccum := (lm_slopeAccum lm AND 0x00FF) OR push_bit 8 (ucast arg)\<rparr>
      else lm\<lparr>lm_slopeType := arg\<rparr>)"

definition param_option :: "u8 \<Rightarrow> u8 \<Rightarrow> f018b \<times> dma_job \<Rightarrow> f018b \<times> dma_job" where
  "param_option op arg dj = (case dj of (d, job) \<Rightarrow>
     if op = 0x80 then (d, job\<lparr>jb_srcMB := arg, jb_srcMBset := True\<rparr>)
     else if op = 0x81 then (d, job\<lparr>jb_dstMB := arg, jb_dstMBset := True\<rparr>)
     else if op = 0x82 then (d, job\<lparr>jb_srcSkipRate := low_byte (jb_srcSkipRate job) arg\<rparr>)
     else if op = 0x83 then (d, job\<lparr>jb_srcSkipRate := high_byte (jb_srcSkipRate job) arg\<rparr>)
     else if op = 0x84 then (d, job\<lparr>jb_dstSkipRate := low_byte (jb_dstSkipRate job) arg\<rparr>)
     else if op = 0x85 then (d, job\<lparr>jb_dstSkipRate := high_byte (jb_dstSkipRate job) arg\<rparr>)
     else if op = 0x86 then (d\<lparr>fd_transparencyVal := arg\<rparr>, job)
     else if 0x87 \<le> op \<and> op \<le> 0x8F then (d\<lparr>fd_dst := (fd_dst d)\<lparr>ch_line := line_option (op - 0x87) arg (ch_line (fd_dst d))\<rparr>\<rparr>, job)
     else if 0x97 \<le> op \<and> op \<le> 0x9F then (d\<lparr>fd_src := (fd_src d)\<lparr>ch_line := line_option (op - 0x97) arg (ch_line (fd_src d))\<rparr>\<rparr>, job)
     else (d, job))"

definition flag_option :: "u8 \<Rightarrow> f018b \<times> dma_job \<Rightarrow> f018b \<times> dma_job" where
  "flag_option op dj = (case dj of (d, job) \<Rightarrow>
     if op = 0x06 then (d\<lparr>fd_transparency := fd_transparency d OR 0x100\<rparr>, job)
     else if op = 0x07 then (d\<lparr>fd_transparency := fd_transparency d AND 0xFF\<rparr>, job)
     else if op = 0x0A then (d, job\<lparr>jb_useF018A := True\<rparr>)
     else if op = 0x0B then (d, job\<lparr>jb_useF018A := False\<rparr>)
     else if op = 0x53 then (d\<lparr>fd_spiral := (fd_spiral d)\<lparr>sp_enabled := True, sp_phase := 0, sp_bytesInPhase := 1, sp_bytesPhaseStep := 0\<rparr>\<rparr>, job)
     else (d, job))"

text \<open>The loop, at most \<open>n\<close> options.\<close>

fun option_loop :: "'b dma_env \<Rightarrow> nat \<Rightarrow> u32 \<Rightarrow> dma_job \<Rightarrow> ('b dma, u32 \<times> dma_job) state" where
  "option_loop E 0 addr job = State_Monad.return (addr, job)"
| "option_loop E (Suc n) addr job = do {
     op \<leftarrow> bus_rd E addr;
     if op = 0x00 then State_Monad.return (addr + 1, job)
     else if bit op 7 then do {
       arg \<leftarrow> bus_rd E (addr + 1);
       dj \<leftarrow> dget (\<lambda>d. param_option op arg (d, job));
       dupd (\<lambda>_. fst dj);
       option_loop E n (addr + 2) (snd dj) }
     else do {
       dj \<leftarrow> dget (\<lambda>d. flag_option op (d, job));
       dupd (\<lambda>_. fst dj);
       option_loop E n (addr + 1) (snd dj) } }"

definition parseJobOptions :: "'b dma_env \<Rightarrow> u32 \<Rightarrow> dma_job \<Rightarrow> ('b dma, u32 \<times> dma_job) state" where
  "parseJobOptions E addr job = do {
     connected \<leftarrow> dget fd_bus;
     if connected then option_loop E 128 addr job else State_Monad.return (addr, job) }"

section \<open>Reading a job\<close>

definition blank_job :: "f018b \<Rightarrow> dma_job" where
  "blank_job d = \<lparr>jb_commandLsb = 0, jb_commandMsb = 0, jb_count = 0, jb_srcAddr = 0, jb_srcFlags = 0, jb_dstAddr = 0,
     jb_dstFlags = 0, jb_modulo = 0, jb_srcSkipRate = 0x0100, jb_dstSkipRate = 0x0100,
     jb_srcMB = ch_inheritMB (fd_src d), jb_dstMB = ch_inheritMB (fd_dst d),
     jb_srcMBset = ch_inheritMBset (fd_src d), jb_dstMBset = ch_inheritMBset (fd_dst d), jb_useF018A = False\<rparr>"

definition inherit_mb :: "dma_job \<Rightarrow> f018b \<Rightarrow> f018b" where
  "inherit_mb job d =
     (let d = (if jb_srcMBset job then d\<lparr>fd_src := (fd_src d)\<lparr>ch_inheritMB := jb_srcMB job, ch_inheritMBset := True\<rparr>\<rparr> else d)
      in if jb_dstMBset job then d\<lparr>fd_dst := (fd_dst d)\<lparr>ch_inheritMB := jb_dstMB job, ch_inheritMBset := True\<rparr>\<rparr> else d)"

definition addr20 :: "u8 \<Rightarrow> u8 \<Rightarrow> u8 \<Rightarrow> u32" where
  "addr20 lo mid bank = ucast lo OR push_bit 8 (ucast mid) OR push_bit 16 (ucast (bank AND 0x0F))"

text \<open>Three bytes in a row; a job is three groups of three, and two or three bytes by its revision.\<close>

definition bus_rd3 :: "'b dma_env \<Rightarrow> u32 \<Rightarrow> ('b dma, u8 \<times> u8 \<times> u8) state" where
  "bus_rd3 E a = do {
     x \<leftarrow> bus_rd E a;
     y \<leftarrow> bus_rd E (a + 1);
     z \<leftarrow> bus_rd E (a + 2);
     State_Monad.return (x, y, z) }"

definition job_head :: "u8 \<times> u8 \<times> u8 \<Rightarrow> u8 \<times> u8 \<times> u8 \<Rightarrow> u8 \<times> u8 \<times> u8 \<Rightarrow> dma_job \<Rightarrow> dma_job" where
  "job_head c s t job = (case (c, s, t) of
     ((cmd, count_lo, count_hi), (src_lo, src_mid, src_bankflags), (dst_lo, dst_mid, dst_bankflags)) \<Rightarrow>
       job\<lparr>jb_commandLsb := cmd, jb_count := mk16 count_lo count_hi,
           jb_srcAddr := addr20 src_lo src_mid src_bankflags, jb_srcFlags := drop_bit 4 src_bankflags AND 0x0F,
           jb_dstAddr := addr20 dst_lo dst_mid dst_bankflags, jb_dstFlags := drop_bit 4 dst_bankflags AND 0x0F\<rparr>)"

definition read_tail :: "'b dma_env \<Rightarrow> u32 \<Rightarrow> bool \<Rightarrow> dma_job \<Rightarrow> ('b dma, u32 \<times> bool \<times> dma_job) state" where
  "read_tail E addr b job =
     (if b then do {
        m \<leftarrow> bus_rd3 E (addr + 9);
        State_Monad.return (addr + 12, b, job\<lparr>jb_commandMsb := fst m, jb_modulo := mk16 (fst (snd m)) (snd (snd m))\<rparr>) }
      else do {
        mod_lo \<leftarrow> bus_rd E (addr + 9);
        mod_hi \<leftarrow> bus_rd E (addr + 10);
        State_Monad.return (addr + 11, b, job\<lparr>jb_commandMsb := 0, jb_modulo := mk16 mod_lo mod_hi\<rparr>) })"

definition read_job :: "'b dma_env \<Rightarrow> u32 \<Rightarrow> bool \<Rightarrow> dma_job \<Rightarrow> ('b dma, u32 \<times> bool \<times> dma_job) state" where
  "read_job E addr f018b_default job = do {
     c \<leftarrow> bus_rd3 E addr;
     s \<leftarrow> bus_rd3 E (addr + 3);
     t \<leftarrow> bus_rd3 E (addr + 6);
     read_tail E addr (if jb_useF018A job then False else f018b_default) (job_head c s t job) }"

text \<open>What a job asks of one channel.\<close>

definition job_megabyte :: "bool \<Rightarrow> u8 \<Rightarrow> u8 \<Rightarrow> u32" where
  "job_megabyte f018b mb flags = push_bit 20 (if f018b then ucast (mb + (flags AND 0x07)) else ucast mb)"

definition set_channel :: "u32 \<Rightarrow> u16 \<Rightarrow> bool \<Rightarrow> bool \<Rightarrow> bool \<Rightarrow> dma_channel \<Rightarrow> dma_channel" where
  "set_channel base rate io dir hold ch = ch\<lparr>ch_base := base, ch_step := (if rate = 0 then 0x0100 else rate), ch_io := io,
     ch_dir := dir, ch_hold := hold\<rparr>"

definition minterm_mask :: "u8 \<Rightarrow> u8 list" where
  "minterm_mask b = map (\<lambda>k. if bit b k then 0xFF else 0x00) [4, 5, 6, 7]"

definition op_of :: "u8 \<Rightarrow> dma_operation" where
  "op_of cmd = (if cmd AND 0x03 = 0 then DMA_COPY else if cmd AND 0x03 = 1 then DMA_MIX
     else if cmd AND 0x03 = 2 then DMA_SWAP else DMA_FILL)"

definition count_of :: "u16 \<Rightarrow> u32" where
  "count_of n = (if n = 0 then 0x10000 else ucast n)"

definition stop_line :: "bool \<Rightarrow> dma_channel \<Rightarrow> dma_channel" where
  "stop_line by_rows ch =
     (if by_rows \<and> bit (lm_slopeType (ch_line ch)) 7
      then ch\<lparr>ch_line := (ch_line ch)\<lparr>lm_slopeType := lm_slopeType (ch_line ch) AND NOT 0x80\<rparr>\<rparr> else ch)"

definition begin_modulo :: "u16 \<Rightarrow> u16 \<Rightarrow> f018b \<Rightarrow> f018b" where
  "begin_modulo count step d =
     (let m = fd_modulo d; m = m\<lparr>mo_active := fd_experimental d \<and> (mo_src m \<or> mo_dst m)\<rparr>
      in if mo_active m
         then let col = (if count AND 0xFF \<noteq> 0 then count AND 0xFF else 256);
                  row = (if drop_bit 8 count \<noteq> 0 then drop_bit 8 count else 256)
           in d\<lparr>fd_modulo := m\<lparr>mo_colLimit := col, mo_rowLimit := row, mo_colCounter := 0, mo_rowCounter := 0, mo_value := step\<rparr>,
                fd_bytesRemaining := ucast col * ucast row,
                fd_src := stop_line (mo_src m) (fd_src d), fd_dst := stop_line (mo_dst m) (fd_dst d)\<rparr>
         else if mo_src m \<or> mo_dst m then d\<lparr>fd_modulo := m, fd_bytesRemaining := count_of count\<rparr>
         else d\<lparr>fd_modulo := m\<rparr>)"

text \<open>The execution state of a job, group by group.\<close>

definition past_job :: "u32 \<Rightarrow> f018b \<Rightarrow> f018b" where
  "past_job addr d = syncListAddrToRegs (d\<lparr>fd_dmaListAddr := addr AND 0x0FFFFFFF\<rparr>)"

definition set_operation :: "dma_job \<Rightarrow> f018b \<Rightarrow> f018b" where
  "set_operation job d = d\<lparr>fd_hasChain := bit (jb_commandLsb job) 2, fd_bytesRemaining := count_of (jb_count job),
     fd_currentOp := op_of (jb_commandLsb job), fd_fillByte := ucast (jb_srcAddr job AND 0xFF)\<rparr>"

definition set_channels :: "bool \<Rightarrow> dma_job \<Rightarrow> f018b \<Rightarrow> f018b" where
  "set_channels f018b job d =
     (let cmd = jb_commandLsb job; msb = jb_commandMsb job; sf = jb_srcFlags job; df = jb_dstFlags job
      in d\<lparr>fd_src := set_channel ((jb_srcAddr job AND 0x0FFFFF) OR job_megabyte f018b (ch_inheritMB (fd_src d)) sf) (jb_srcSkipRate job)
             (bit sf 3) (if f018b then bit cmd 4 else bit sf 2) (if f018b then bit msb 1 else bit sf 0) (fd_src d),
           fd_dst := set_channel ((jb_dstAddr job AND 0x0FFFFF) OR job_megabyte f018b (ch_inheritMB (fd_dst d)) df) (jb_dstSkipRate job)
             (bit df 3) (if f018b then bit cmd 5 else bit df 2) (if f018b then bit msb 3 else bit df 0) (fd_dst d)\<rparr>)"

definition set_modulo :: "bool \<Rightarrow> dma_job \<Rightarrow> f018b \<Rightarrow> f018b" where
  "set_modulo f018b job d =
     d\<lparr>fd_modulo := (fd_modulo d)
       \<lparr>mo_src := fd_experimental d \<and> (if f018b then bit (jb_commandMsb job) 0 else bit (jb_srcFlags job) 1),
        mo_dst := fd_experimental d \<and> (if f018b then bit (jb_commandMsb job) 2 else bit (jb_dstFlags job) 1)\<rparr>\<rparr>"

definition set_minterms :: "bool \<Rightarrow> dma_job \<Rightarrow> f018b \<Rightarrow> f018b" where
  "set_minterms f018b job d =
     (if fd_currentOp d = DMA_MIX then d\<lparr>fd_minterms := minterm_mask (if f018b then jb_commandMsb job else jb_commandLsb job)\<rparr> else d)"

definition start_job :: "f018b \<Rightarrow> f018b" where
  "start_job d = d\<lparr>fd_transparency := (fd_transparency d AND 0x100) OR ucast (fd_transparencyVal d),
     fd_src := (fd_src d)\<lparr>ch_accum := 0\<rparr>, fd_dst := (fd_dst d)\<lparr>ch_accum := 0\<rparr>\<rparr>"

definition begin_job :: "u32 \<Rightarrow> bool \<Rightarrow> dma_job \<Rightarrow> f018b \<Rightarrow> f018b" where
  "begin_job addr f018b job d =
     start_job (begin_modulo (jb_count job) (jb_modulo job)
       (set_minterms f018b job (set_modulo f018b job (set_channels f018b job (set_operation job (past_job addr d))))))"

definition fetch_job :: "'b dma_env \<Rightarrow> ('b dma, unit) state" where
  "fetch_job E = do {
     addr \<leftarrow> dget fd_dmaListAddr;
     f018b_default \<leftarrow> dget (\<lambda>d. bit (fd_regs d ! 3) 0);
     job \<leftarrow> dget blank_job;
     enhanced \<leftarrow> dget fd_enhancedMode;
     aj \<leftarrow> (if enhanced then parseJobOptions E addr job else State_Monad.return (addr, job));
     dupd (inherit_mb (snd aj));
     abj \<leftarrow> read_job E (fst aj) f018b_default (snd aj);
     dupd (begin_job (fst abj) (fst (snd abj)) (snd (snd abj))) }"

text \<open>A job always has bytes to move: the check for none, and the next job it would take at once, are never reached.\<close>

lemma job_not_empty: "fd_bytesRemaining (begin_job addr b job d) \<noteq> 0"
proof -
  have c: "count_of n \<noteq> 0" for n using ucast_16_32_inject [of n 0] by (simp add: count_of_def)
  have p: "ucast col * ucast row \<noteq> (0 :: u32)" if "0 < unat col" "unat col \<le> 256" "0 < unat row" "unat row \<le> 256" for col row :: u16
  proof -
    have m: "unat col * unat row \<le> 256 * 256" using that by (intro mult_le_mono) simp_all
    have "unat (ucast col * ucast row :: u32) = unat col * unat row mod 4294967296" by (simp add: unat_word_ariths)
    also have "\<dots> = unat col * unat row" by (rule mod_less) (use m in linarith)
    also have "\<dots> \<noteq> 0" using that by simp
    finally show ?thesis by force
  qed
  have col: "0 < unat (if n AND 0xFF \<noteq> 0 then n AND 0xFF else 256) \<and> unat (if n AND 0xFF \<noteq> 0 then n AND 0xFF else 256) \<le> 256" for n :: u16
    using unat_and_le [of n "0xFF"] by (auto simp: unat_gt_0)
  have row: "0 < unat (if drop_bit 8 n \<noteq> 0 then drop_bit 8 n else 256) \<and> unat (if drop_bit 8 n \<noteq> 0 then drop_bit 8 n else 256) \<le> 256" for n :: u16
  proof -
    have "unat (drop_bit 8 n) = unat n div 256" by (simp add: drop_bit_eq_div unat_div)
    also have "\<dots> \<le> 256" using less_mult_imp_div_less [of "unat n" 256 256] unat_u16_lt [of n] by simp
    finally show ?thesis by (auto simp: unat_gt_0)
  qed
  have "fd_bytesRemaining (begin_modulo n m d) \<noteq> 0" if "fd_bytesRemaining d \<noteq> 0" for n m d
    using that c p col row by (simp add: begin_modulo_def Let_def)
  then show ?thesis using c
    by (simp add: begin_job_def start_job_def set_minterms_def set_modulo_def set_channels_def set_operation_def Let_def)
qed

lemma run_dma [simp]:
  "result (dget g) s = g (fst s)" "final (dget g) s = s"
  "final (dupd f) s = (f (fst s), snd s)"
  "result (on_bus m) s = result m (snd s)" "final (on_bus m) s = (fst s, final m (snd s))"
  by (simp_all add: dget_def dupd_def on_bus_def gets_def modify_def case_prod_beta split: prod.split)

lemma fetch_not_empty: "fd_bytesRemaining (fst (final (fetch_job E) s)) \<noteq> 0"
  unfolding fetch_job_def by (simp add: job_not_empty case_prod_beta)

function fetchAndBeginNextJob :: "'b dma_env \<Rightarrow> 'b dma \<Rightarrow> bool \<times> 'b dma" where
  "fetchAndBeginNextJob E s =
     (if \<not> fd_bus (fst s) then (False, s)
      else let s' = final (fetch_job E) s
        in if fd_bytesRemaining (fst s') = 0
           then (if fd_hasChain (fst s') then fetchAndBeginNextJob E s'
                 else (False, (fst s')\<lparr>fd_dmaActive := False\<rparr>, snd s'))
           else (True, s'))"
  by auto
termination
  by (relation "{}") (simp_all add: fetch_not_empty)

declare fetchAndBeginNextJob.simps [simp del]

section \<open>Transfers\<close>

definition dmaRead :: "'b dma_env \<Rightarrow> u32 \<Rightarrow> bool \<Rightarrow> ('b dma, u8) state" where
  "dmaRead E addr ioFlag = (case de_ioRead E of
     Some rd \<Rightarrow>
       if ioFlag \<and> io_page addr
       then do { v \<leftarrow> on_bus (rd (addr AND 0xFFFF)); (case v of Some x \<Rightarrow> State_Monad.return x | None \<Rightarrow> bus_rd E addr) }
       else bus_rd E addr
   | None \<Rightarrow> bus_rd E addr)"

definition bus_wr :: "'b dma_env \<Rightarrow> u32 \<Rightarrow> u8 \<Rightarrow> ('b dma, unit) state" where
  "bus_wr E a v = on_bus (ib_write8 (de_bus E) a v)"

definition dmaWrite :: "'b dma_env \<Rightarrow> u32 \<Rightarrow> u8 \<Rightarrow> bool \<Rightarrow> ('b dma, unit) state" where
  "dmaWrite E addr val ioFlag = (case de_ioWrite E of
     Some wr \<Rightarrow>
       if ioFlag \<and> io_page addr
       then do { done \<leftarrow> on_bus (wr (addr AND 0xFFFF) val); (if done then skip else bus_wr E addr val) }
       else bus_wr E addr val
   | None \<Rightarrow> bus_wr E addr val)"

definition spiralSteps :: "u32 list" where
  "spiralSteps = [1, 40, -1, -40]"

definition spiral_next :: "spiral_mode \<Rightarrow> spiral_mode" where
  "spiral_next sp =
     (let sp = sp\<lparr>sp_bytesPhaseStep := sp_bytesPhaseStep sp + 1\<rparr>
      in if sp_bytesPhaseStep sp \<ge> sp_bytesInPhase sp
         then let sp = sp\<lparr>sp_bytesPhaseStep := 0, sp_phase := (sp_phase sp + 1) AND 3\<rparr>
           in if sp_phase sp = 0 then sp\<lparr>sp_bytesInPhase := sp_bytesInPhase sp + 1\<rparr> else sp
         else sp)"

text \<open>A step across a card of eight pixels, by the position in the card.\<close>

definition x_forward :: "line_mode \<Rightarrow> u32 \<Rightarrow> u32" where
  "x_forward lm accum = accum + (if accum AND 0x700 = 0x700 then lm_xCol lm + 0x100 else 0x100)"

definition x_backward :: "line_mode \<Rightarrow> u32 \<Rightarrow> u32" where
  "x_backward lm accum = accum - (if accum AND 0x700 = 0 then lm_xCol lm + 0x100 else 0x100)"

definition line_step :: "u32 \<Rightarrow> line_mode \<Rightarrow> u32 \<times> line_mode" where
  "line_step accum lm =
     (let lm = lm\<lparr>lm_slopeAccum := lm_slopeAccum lm + ucast (lm_slope lm)\<rparr>;
          over = lm_slopeAccum lm \<ge> 0x10000;
          lm' = (if over then lm\<lparr>lm_slopeAccum := lm_slopeAccum lm - 0x10000\<rparr> else lm)
      in if bit (lm_slopeType lm) 6
         then let accum = accum + 0x800;
                  accum = (if accum AND 0x3800 = 0x3800 then accum + lm_yCol lm else accum)
           in (if over then (if bit (lm_slopeType lm) 5 then x_backward lm accum else x_forward lm accum) else accum, lm')
         else let accum = x_forward lm accum
           in (if over then (if bit (lm_slopeType lm) 5 then accum - 0x800 else accum + 0x800) else accum, lm'))"

text \<open>\<open>same\<close>: the accumulator has the value of the destination's.\<close>

definition stepAddress :: "bool \<Rightarrow> spiral_mode \<Rightarrow> dma_channel \<Rightarrow> spiral_mode \<times> dma_channel" where
  "stepAddress same sp ch =
     (if ch_hold ch then (sp, ch)
      else if \<not> bit (lm_slopeType (ch_line ch)) 7 then
        (if sp_enabled sp \<and> same
         then (spiral_next sp, ch\<lparr>ch_accum := ch_accum ch + spiralSteps ! unat (sp_phase sp)\<rparr>)
         else (sp, ch\<lparr>ch_accum := (if ch_dir ch then ch_accum ch - ucast (ch_step ch) else ch_accum ch + ucast (ch_step ch))\<rparr>))
      else (case line_step (ch_accum ch) (ch_line ch) of (a, lm) \<Rightarrow> (sp, ch\<lparr>ch_accum := a, ch_line := lm\<rparr>)))"

definition advance_channels :: "f018b \<Rightarrow> f018b" where
  "advance_channels d =
     (let d = (if \<not> ch_hold (fd_src d)
               then (case stepAddress (ch_accum (fd_src d) = ch_accum (fd_dst d)) (fd_spiral d) (fd_src d) of
                   (sp, ch) \<Rightarrow> d\<lparr>fd_spiral := sp, fd_src := ch\<rparr>) else d)
      in if \<not> ch_hold (fd_dst d)
         then (case stepAddress True (fd_spiral d) (fd_dst d) of (sp, ch) \<Rightarrow> d\<lparr>fd_spiral := sp, fd_dst := ch\<rparr>) else d)"

definition add_rows :: "u16 \<Rightarrow> dma_channel \<Rightarrow> dma_channel" where
  "add_rows v ch = ch\<lparr>ch_accum := ch_accum ch + push_bit 8 (ucast v)\<rparr>"

definition count_modulo :: "f018b \<Rightarrow> f018b" where
  "count_modulo d =
     (if \<not> mo_active (fd_modulo d) then d
      else let m = (fd_modulo d)\<lparr>mo_colCounter := mo_colCounter (fd_modulo d) + 1\<rparr>
        in if mo_colCounter m \<ge> mo_colLimit m
           then let m = m\<lparr>mo_colCounter := 0, mo_rowCounter := mo_rowCounter m + 1\<rparr>; d = d\<lparr>fd_modulo := m\<rparr>
             in if mo_rowCounter m \<ge> mo_rowLimit m then d\<lparr>fd_bytesRemaining := 0\<rparr>
                else d\<lparr>fd_src := (if mo_src m then add_rows (mo_value m) (fd_src d) else fd_src d),
                       fd_dst := (if mo_dst m then add_rows (mo_value m) (fd_dst d) else fd_dst d)\<rparr>
           else d\<lparr>fd_modulo := m\<rparr>)"

definition channel_addr :: "dma_channel \<Rightarrow> u32" where
  "channel_addr ch = ch_base ch + drop_bit 8 (ch_accum ch)"

definition minterm :: "u8 list \<Rightarrow> u8 \<Rightarrow> u8 \<Rightarrow> u8" where
  "minterm ms s d = (s AND d AND ms ! 3) OR (s AND NOT d AND ms ! 2) OR (NOT s AND d AND ms ! 1) OR (NOT s AND NOT d AND ms ! 0)"

definition move_byte :: "'b dma_env \<Rightarrow> ('b dma, unit) state" where
  "move_byte E = do {
     d \<leftarrow> dget (\<lambda>d. d);
     let src = channel_addr (fd_src d); dst = channel_addr (fd_dst d); sio = ch_io (fd_src d); dio = ch_io (fd_dst d)
     in (case fd_currentOp d of
          DMA_COPY \<Rightarrow> do {
            v \<leftarrow> dmaRead E src sio;
            (if ucast v \<noteq> fd_transparency d then dmaWrite E dst v dio else skip) }
        | DMA_FILL \<Rightarrow> dmaWrite E dst (fd_fillByte d) dio
        | DMA_SWAP \<Rightarrow>
            if \<not> fd_experimental d then dupd (\<lambda>d. d\<lparr>fd_dmaActive := False\<rparr>)
            else do {
              s \<leftarrow> dmaRead E src sio;
              t \<leftarrow> dmaRead E dst dio;
              dmaWrite E dst s dio;
              dmaWrite E src t sio }
        | DMA_MIX \<Rightarrow>
            if \<not> fd_experimental d then dupd (\<lambda>d. d\<lparr>fd_dmaActive := False\<rparr>)
            else do {
              s \<leftarrow> dmaRead E src sio;
              t \<leftarrow> dmaRead E dst dio;
              dmaWrite E dst (minterm (fd_minterms d) s t) dio }) }"

definition count_byte :: "f018b \<Rightarrow> f018b" where
  "count_byte d =
     (let d = count_modulo (advance_channels d)
      in if fd_bytesRemaining d > 0 then d\<lparr>fd_bytesRemaining := fd_bytesRemaining d - 1\<rparr> else d)"

definition tickOneByte :: "'b dma_env \<Rightarrow> 'b dma \<Rightarrow> 'b dma" where
  "tickOneByte E s =
     (if \<not> fd_bus (fst s) \<or> fd_bytesRemaining (fst s) = 0 then ((fst s)\<lparr>fd_dmaActive := False\<rparr>, snd s)
      else let s = final (move_byte E) s; s = (count_byte (fst s), snd s)
        in if fd_bytesRemaining (fst s) = 0
           then (if fd_hasChain (fst s)
                 then (case fetchAndBeginNextJob E s of
                     (again, s) \<Rightarrow> if again then s else ((fst s)\<lparr>fd_dmaActive := False\<rparr>, snd s))
                 else ((clear_inherit (fst s))\<lparr>fd_dmaActive := False\<rparr>, snd s))
           else s)"

definition f018b_tick :: "'b dma_env \<Rightarrow> 'b dma \<Rightarrow> 'b dma" where
  "f018b_tick E s = (if fd_dmaActive (fst s) then tickOneByte E s else s)"

section \<open>Triggers\<close>

definition clear_options :: "f018b \<Rightarrow> f018b" where
  "clear_options d = clear_inherit (d\<lparr>fd_transparency := 0x100, fd_transparencyVal := 0,
     fd_src := (fd_src d)\<lparr>ch_line := no_line\<rparr>, fd_dst := (fd_dst d)\<lparr>ch_line := no_line\<rparr>,
     fd_spiral := (fd_spiral d)\<lparr>sp_enabled := False, sp_phase := 0, sp_bytesInPhase := 1, sp_bytesPhaseStep := 0\<rparr>\<rparr>)"

definition list_addr :: "f018b \<Rightarrow> u32" where
  "list_addr d =
     (let r = fd_regs d; low = (if fd_enhancedMode d then r ! 5 else r ! 0)
      in (ucast low OR push_bit 8 (ucast (r ! 1)) OR push_bit 16 (ucast (r ! 2 AND 0x7F)) OR push_bit 23 (ucast (drop_bit 3 (r ! 4))))
         AND 0x0FFFFFFF)"

definition startDma :: "'b dma_env \<Rightarrow> 'b dma \<Rightarrow> 'b dma" where
  "startDma E s =
     (if \<not> fd_bus (fst s) then s
      else let d = clear_options ((fst s)\<lparr>fd_dmaListAddr := list_addr (fst s)\<rparr>)
        in case fetchAndBeginNextJob E (d, snd s) of
             (started, s) \<Rightarrow> ((fst s)\<lparr>fd_dmaActive := started\<rparr>, snd s))"

text \<open>\<open>$D706\<close> with a mapper: the options are cleared after the first job has been read.\<close>

definition startMapped :: "'b dma_env \<Rightarrow> u32 \<Rightarrow> 'b dma \<Rightarrow> 'b dma" where
  "startMapped E phys s =
     (case fetchAndBeginNextJob E ((fst s)\<lparr>fd_dmaListAddr := phys AND 0x0FFFFFFF, fd_enhancedMode := True\<rparr>, snd s) of
        (started, s) \<Rightarrow>
          if \<not> started then ((fst s)\<lparr>fd_dmaActive := False\<rparr>, snd s)
          else (clear_options ((fst s)\<lparr>fd_dmaActive := True\<rparr>), snd s))"

definition dma_ioWrite :: "'b dma_env \<Rightarrow> u32 \<Rightarrow> u8 \<Rightarrow> 'b dma \<Rightarrow> bool \<times> 'b dma" where
  "dma_ioWrite E addr val s =
     (let d = fst s; off = addr - fd_base d
      in if off \<ge> 16 then (False, s)
         else let d = d\<lparr>fd_regs := (fd_regs d)[unat off := val], fd_bus := True\<rparr>;
                  d = (if off = 2 then d\<lparr>fd_regs := (fd_regs d)[4 := drop_bit 4 (val AND 0x70)]\<rparr> else d);
                  d = (if off = 4 then d\<lparr>fd_regs := (fd_regs d)[2 := (fd_regs d ! 2 AND 0x8F) OR push_bit 4 (val AND 0x07)]\<rparr> else d)
           in (True,
               if off = 0 then startDma E (d\<lparr>fd_enhancedMode := False,
                   fd_regs := (fd_regs d)[4 := fd_regs d ! 4 AND 0x07, 5 := val]\<rparr>, snd s)
               else if off = 5 then startDma E (d\<lparr>fd_enhancedMode := True, fd_regs := (fd_regs d)[0 := val]\<rparr>, snd s)
               else if off = 6 then
                 (let d = d\<lparr>fd_enhancedMode := True, fd_regs := (fd_regs d)[0 := val]\<rparr>
                  in case de_resolve E of
                       Some res \<Rightarrow> startMapped E (res (snd s) (mk16 val (fd_regs d ! 1))) (d, snd s)
                     | None \<Rightarrow> startDma E (d, snd s))
               else (d, snd s)))"

section \<open>Memory behind the controller\<close>

locale dma_bus = ram_bus ib mem ram ok for ib :: "'b ibus" and mem ram ok +
  fixes E :: "'b dma_env"
  assumes bus: "de_bus E = ib"
begin

definition byte_at :: "'b \<Rightarrow> u32 \<Rightarrow> u8" where
  "byte_at b a = (if a \<in> ram then mem b a else 0)"

lemma bus_read:
  assumes "ok (snd s)" and "a \<in> ram"
  shows "fst (final (bus_rd E a) s) = fst s" "ok (snd (final (bus_rd E a) s))"
    "byte_at (snd (final (bus_rd E a) s)) = byte_at (snd s)" "result (bus_rd E a) s = byte_at (snd s) a"
  using assms read_ok read_ram read_frame by (simp_all add: bus_rd_def bus byte_at_def fun_eq_iff)

lemma bus_write:
  assumes "ok (snd s)" and "a \<in> ram"
  shows "fst (final (bus_wr E a v) s) = fst s" "ok (snd (final (bus_wr E a v) s))"
    "byte_at (snd (final (bus_wr E a v) s)) = (byte_at (snd s))(a := v)"
  using assms write_ok write_ram by (simp_all add: bus_wr_def bus byte_at_def fun_eq_iff)

lemma plain_access: "dmaRead E a False = bus_rd E a" "dmaWrite E a v False = bus_wr E a v"
  by (simp_all add: dmaRead_def dmaWrite_def split: option.split)

text \<open>Reading a job whose bytes are all in memory.\<close>

lemma bus_read3:
  assumes "ok (snd s)" and "a \<in> ram" and "a + 1 \<in> ram" and "a + 2 \<in> ram"
  shows "fst (final (bus_rd3 E a) s) = fst s" "ok (snd (final (bus_rd3 E a) s))"
    "byte_at (snd (final (bus_rd3 E a) s)) = byte_at (snd s)"
    "result (bus_rd3 E a) s = (byte_at (snd s) a, byte_at (snd s) (a + 1), byte_at (snd s) (a + 2))"
  using assms by (simp_all add: bus_rd3_def case_prod_beta bus_read)

definition job_fields :: "'b \<Rightarrow> u32 \<Rightarrow> bool \<Rightarrow> dma_job \<Rightarrow> dma_job" where
  "job_fields b a f job =
     (let m = byte_at b
      in (job_head (m a, m (a + 1), m (a + 2)) (m (a + 3), m (a + 4), m (a + 5)) (m (a + 6), m (a + 7), m (a + 8)) job)
        \<lparr>jb_commandMsb := (if f then m (a + 9) else 0),
         jb_modulo := (if f then mk16 (m (a + 10)) (m (a + 11)) else mk16 (m (a + 9)) (m (a + 10)))\<rparr>)"

lemma read_job_bytes:
  assumes "ok (snd s)" and "\<And>k. k < (if f then 12 else 11) \<Longrightarrow> a + of_nat k \<in> ram" and "\<not> jb_useF018A job"
  shows "result (read_job E a f job) s = (a + (if f then 12 else 11), f, job_fields (snd s) a f job)"
    "fst (final (read_job E a f job) s) = fst s" "ok (snd (final (read_job E a f job) s))"
    "byte_at (snd (final (read_job E a f job) s)) = byte_at (snd s)"
proof -
  have r: "a \<in> ram" "a + 1 \<in> ram" "a + 2 \<in> ram" "a + 3 \<in> ram" "a + 4 \<in> ram" "a + 5 \<in> ram" "a + 6 \<in> ram" "a + 7 \<in> ram"
    "a + 8 \<in> ram" "a + 9 \<in> ram" "a + 10 \<in> ram" "f \<Longrightarrow> a + 11 \<in> ram"
    using assms(2) [of 0] assms(2) [of 1] assms(2) [of 2] assms(2) [of 3] assms(2) [of 4] assms(2) [of 5] assms(2) [of 6]
      assms(2) [of 7] assms(2) [of 8] assms(2) [of 9] assms(2) [of 10] assms(2) [of 11] by simp_all
  show "result (read_job E a f job) s = (a + (if f then 12 else 11), f, job_fields (snd s) a f job)"
    "fst (final (read_job E a f job) s) = fst s" "ok (snd (final (read_job E a f job) s))"
    "byte_at (snd (final (read_job E a f job) s)) = byte_at (snd s)"
    using assms(1,3)
    by (simp_all add: read_job_def read_tail_def case_prod_beta Let_def bus_read3 bus_read r job_fields_def add.assoc)
qed

end

section \<open>Lists of plain jobs\<close>

text \<open>A copy or a fill of a 20-bit area, upwards, as the job list has it.\<close>

record plain_job =
  pj_fill :: bool
  pj_count :: u16
  pj_src :: u32
  pj_dst :: u32

definition pj_size :: "plain_job \<Rightarrow> nat" where
  "pj_size j = (if pj_count j = 0 then 65536 else unat (pj_count j))"

definition job_bytes :: "bool \<Rightarrow> bool \<Rightarrow> plain_job \<Rightarrow> u8 list" where
  "job_bytes f018b chain j =
     [(if pj_fill j then 3 else 0) OR (if chain then 4 else 0), lo8 (pj_count j), hi8 (pj_count j),
      ucast (pj_src j), ucast (drop_bit 8 (pj_src j)), ucast (drop_bit 16 (pj_src j)),
      ucast (pj_dst j), ucast (drop_bit 8 (pj_dst j)), ucast (drop_bit 16 (pj_dst j))] @
     (if f018b then [0, 0, 0] else [0, 0])"

fun list_bytes :: "bool \<Rightarrow> plain_job list \<Rightarrow> u8 list" where
  "list_bytes f [] = []"
| "list_bytes f (j # js) = job_bytes f (js \<noteq> []) j @ list_bytes f js"

definition moved :: "plain_job \<Rightarrow> nat \<Rightarrow> (u32 \<Rightarrow> u8) \<Rightarrow> u32 \<Rightarrow> u8" where
  "moved j i m = m(pj_dst j + of_nat i := (if pj_fill j then ucast (pj_src j) else m (pj_src j + of_nat i)))"

definition job_effect :: "plain_job \<Rightarrow> (u32 \<Rightarrow> u8) \<Rightarrow> u32 \<Rightarrow> u8" where
  "job_effect j m = fold (moved j) [0..<pj_size j] m"

text \<open>No option of an earlier job is left.\<close>

definition no_options :: "bool \<Rightarrow> f018b \<Rightarrow> bool" where
  "no_options f d \<longleftrightarrow> fd_bus d \<and> \<not> fd_enhancedMode d \<and> length (fd_regs d) = 16 \<and> bit (fd_regs d ! 3) 0 = f \<and>
     fd_transparency d = 0x100 \<and> fd_transparencyVal d = 0 \<and> \<not> sp_enabled (fd_spiral d) \<and>
     \<not> bit (lm_slopeType (ch_line (fd_src d))) 7 \<and> \<not> bit (lm_slopeType (ch_line (fd_dst d))) 7 \<and>
     ch_inheritMB (fd_src d) = 0 \<and> \<not> ch_inheritMBset (fd_src d) \<and> ch_inheritMB (fd_dst d) = 0 \<and> \<not> ch_inheritMBset (fd_dst d)"

definition plain_channel :: "u32 \<Rightarrow> nat \<Rightarrow> dma_channel \<Rightarrow> bool" where
  "plain_channel base i ch \<longleftrightarrow> ch_accum ch = of_nat (256 * i) \<and> ch_base ch = base \<and> ch_step ch = 0x100 \<and> \<not> ch_dir ch \<and>
     \<not> ch_hold ch \<and> \<not> ch_io ch"

text \<open>\<open>i\<close> bytes of job \<open>j\<close> are done.\<close>

definition moving :: "bool \<Rightarrow> plain_job \<Rightarrow> bool \<Rightarrow> nat \<Rightarrow> f018b \<Rightarrow> bool" where
  "moving f j chain i d \<longleftrightarrow> no_options f d \<and> fd_hasChain d = chain \<and> fd_bytesRemaining d = of_nat (pj_size j - i) \<and>
     fd_currentOp d = (if pj_fill j then DMA_FILL else DMA_COPY) \<and> (pj_fill j \<longrightarrow> fd_fillByte d = ucast (pj_src j)) \<and>
     plain_channel (pj_src j) i (fd_src d) \<and> plain_channel (pj_dst j) i (fd_dst d) \<and> \<not> mo_active (fd_modulo d)"

lemma pj_size_bounds: "0 < pj_size j" "pj_size j \<le> 65536"
  using unat_u16_lt [of "pj_count j"] by (auto simp: pj_size_def unat_gt_0 less_imp_le simp del: unat_u16_lt)

lemma unat_of_nat32: "n < 4294967296 \<Longrightarrow> unat (of_nat n :: u32) = n"
  by (simp add: unsigned_of_nat take_bit_nat_eq_self)

lemma plain_addr:
  assumes "plain_channel base i ch" and "i \<le> 65536"
  shows "channel_addr ch = base + of_nat i"
proof -
  have u: "unat (of_nat (256 * i) :: u32) = 256 * i" "unat (of_nat i :: u32) = i"
    by (rule unat_of_nat32, use assms(2) in simp)+
  have "unat (drop_bit 8 (of_nat (256 * i) :: u32)) = 256 * i div 256"
    by (simp only: drop_bit_eq_div unat_div u) simp
  then have "drop_bit 8 (of_nat (256 * i) :: u32) = of_nat i"
    by (intro word_unat_eq_iff [THEN iffD2]) (simp add: u(2))
  then show ?thesis using assms(1) by (simp add: channel_addr_def plain_channel_def)
qed

lemma plain_step:
  assumes "plain_channel base i ch" and "\<not> bit (lm_slopeType (ch_line ch)) 7" and "\<not> sp_enabled sp"
  shows "stepAddress same sp ch = (sp, ch\<lparr>ch_accum := of_nat (256 * Suc i)\<rparr>)"
proof -
  have "(of_nat (256 * i) :: u32) + 0x100 = of_nat (256 * Suc i)" by simp
  then have "ch_accum ch + ucast (ch_step ch) = of_nat (256 * Suc i)" using assms(1) by (simp add: plain_channel_def)
  then show ?thesis using assms by (simp add: stepAddress_def plain_channel_def)
qed

lemma count_moving:
  assumes "moving f j chain i d" and "i < pj_size j"
  shows "moving f j chain (Suc i) (count_byte d)" "fd_dmaActive (count_byte d) = fd_dmaActive d"
    "fd_dmaListAddr (count_byte d) = fd_dmaListAddr d"
proof -
  note m = assms(1) [unfolded moving_def no_options_def]
  have s: "plain_channel (pj_src j) i (fd_src d)" "plain_channel (pj_dst j) i (fd_dst d)" using m by simp_all
  have h: "\<not> ch_hold (fd_src d)" "\<not> ch_hold (fd_dst d)" using s by (simp_all add: plain_channel_def)
  define d' where "d' = d\<lparr>fd_src := (fd_src d)\<lparr>ch_accum := of_nat (256 * Suc i)\<rparr>, fd_dst := (fd_dst d)\<lparr>ch_accum := of_nat (256 * Suc i)\<rparr>\<rparr>"
  have a: "advance_channels d = d'"
    using plain_step [OF s(1), of "fd_spiral d"] plain_step [OF s(2), of "fd_spiral d" True] m h
    by (simp add: advance_channels_def d'_def)
  have "unat (of_nat (pj_size j - i) :: u32) = pj_size j - i"
    by (rule unat_of_nat32) (use pj_size_bounds(2) [of j] in simp)
  then have "(of_nat (pj_size j - i) :: u32) \<noteq> 0" using assms(2) by (metis unat_0 zero_less_diff less_irrefl)
  then have "fd_bytesRemaining d \<noteq> 0" using m by simp
  then have c: "count_byte d = d'\<lparr>fd_bytesRemaining := fd_bytesRemaining d - 1\<rparr>"
    using m by (simp add: count_byte_def Let_def a count_modulo_def d'_def word_gt_0)
  have "(of_nat (pj_size j - i) :: u32) - 1 = of_nat (pj_size j - Suc i)" using assms(2) by (simp add: of_nat_diff)
  then show "moving f j chain (Suc i) (count_byte d)" "fd_dmaActive (count_byte d) = fd_dmaActive d"
    "fd_dmaListAddr (count_byte d) = fd_dmaListAddr d"
    using m s unfolding c by (simp_all add: d'_def moving_def no_options_def plain_channel_def)
qed

lemma bit_20: "unat (a :: u32) < 2 ^ 20 \<Longrightarrow> bit a n \<Longrightarrow> n < 20"
proof -
  assume a: "unat a < 2 ^ 20" "bit a n"
  have "unat (take_bit 20 a) = unat a" using a(1) by (simp add: unsigned_take_bit_eq take_bit_nat_eq_self)
  then have "take_bit 20 a = a" by (simp add: word_unat_eq_iff)
  then show "n < 20" using a(2) by (metis bit_take_bit_iff)
qed

lemma addr20_bytes:
  assumes "unat a < 2 ^ 20"
  shows "addr20 (ucast a) (ucast (drop_bit 8 a)) (ucast (drop_bit 16 a)) = a"
    "drop_bit 4 (ucast (drop_bit 16 a) :: u8) AND 0x0F = 0" "a AND 0x0FFFFF = a" "(ucast (a AND 0xFF) :: u8) = ucast a"
proof -
  have m: "(0x0F :: u8) = mask 4" "(0x0FFFFF :: u32) = mask 20" "(0xFF :: u32) = mask 8" by (simp_all add: mask_eq_decr_exp)
  show "addr20 (ucast a) (ucast (drop_bit 8 a)) (ucast (drop_bit 16 a)) = a"
    unfolding addr20_def m by (rule bit_word_eqI) (auto simp: bit_simps dest: bit_20 [OF assms])
  show "drop_bit 4 (ucast (drop_bit 16 a) :: u8) AND 0x0F = 0"
    unfolding m by (rule bit_word_eqI) (auto simp: bit_simps dest: bit_20 [OF assms])
  show "a AND 0x0FFFFF = a"
    unfolding m by (rule bit_word_eqI) (auto simp: bit_simps dest: bit_20 [OF assms])
  show "(ucast (a AND 0xFF) :: u8) = ucast a"
    unfolding m by (rule bit_word_eqI) (auto simp: bit_simps)
qed

lemma command_byte:
  defines "c f ch \<equiv> (if f then 3 else 0) OR (if ch then 4 else 0 :: u8)"
  shows "bit (c f ch) 2 = ch" "\<not> bit (c f ch) 4" "\<not> bit (c f ch) 5" "op_of (c f ch) = (if f then DMA_FILL else DMA_COPY)"
  by (cases f; cases ch; simp add: c_def op_of_def)+

section \<open>A job from its bytes to its end\<close>

definition pj_ok :: "plain_job \<Rightarrow> bool" where
  "pj_ok j \<longleftrightarrow> unat (pj_src j) < 2 ^ 20 \<and> unat (pj_dst j) < 2 ^ 20"

text \<open>The job as it is read.\<close>

definition job_read :: "bool \<Rightarrow> bool \<Rightarrow> plain_job \<Rightarrow> f018b \<Rightarrow> dma_job" where
  "job_read f chain j d = (blank_job d)\<lparr>jb_commandLsb := (if pj_fill j then 3 else 0) OR (if chain then 4 else 0),
     jb_count := pj_count j, jb_srcAddr := pj_src j, jb_dstAddr := pj_dst j\<rparr>"

lemma length_job_bytes: "length (job_bytes f chain j) = (if f then 12 else 11)"
  by (simp add: job_bytes_def)

lemma begin_moving:
  assumes "no_options f d" and "pj_ok j"
  shows "moving f j chain 0 (begin_job a f (job_read f chain j d) d)"
    "fd_dmaActive (begin_job a f (job_read f chain j d) d) = fd_dmaActive d"
    "fd_dmaListAddr (begin_job a f (job_read f chain j d) d) = a AND 0x0FFFFFFF"
proof -
  note n = assms(1) [unfolded no_options_def]
  have a: "pj_src j AND 0x0FFFFF = pj_src j" "pj_dst j AND 0x0FFFFF = pj_dst j" "(ucast (pj_src j AND 0xFF) :: u8) = ucast (pj_src j)"
    using addr20_bytes assms(2) by (simp_all add: pj_ok_def)
  have c: "count_of (pj_count j) = of_nat (pj_size j)" by (simp add: count_of_def pj_size_def)
  define job where "job = job_read f chain j d"
  have job: "jb_commandLsb job = (if pj_fill j then 3 else 0) OR (if chain then 4 else 0)" "jb_commandMsb job = 0"
    "jb_srcFlags job = 0" "jb_dstFlags job = 0" "jb_srcAddr job = pj_src j" "jb_dstAddr job = pj_dst j"
    "jb_srcSkipRate job = 0x0100" "jb_dstSkipRate job = 0x0100" "jb_count job = pj_count j"
    by (simp_all add: job_def job_read_def blank_job_def)
  define d1 where "d1 = set_operation job (past_job a d)"
  have d1: "no_options f d1" "fd_hasChain d1 = chain" "fd_bytesRemaining d1 = of_nat (pj_size j)"
    "fd_currentOp d1 = (if pj_fill j then DMA_FILL else DMA_COPY)" "fd_fillByte d1 = ucast (pj_src j)"
    "fd_dmaActive d1 = fd_dmaActive d" "fd_dmaListAddr d1 = a AND 0x0FFFFFFF"
    using n a c command_byte
    by (simp_all add: d1_def set_operation_def past_job_def job syncListAddrToRegs_def Let_def no_options_def)
  define d2 where "d2 = set_minterms f job (set_modulo f job (set_channels f job d1))"
  have d2: "d2 = d1\<lparr>fd_src := set_channel (pj_src j) 0x0100 False False False (fd_src d1),
      fd_dst := set_channel (pj_dst j) 0x0100 False False False (fd_dst d1),
      fd_modulo := (fd_modulo d1)\<lparr>mo_src := False, mo_dst := False\<rparr>\<rparr>"
    using d1(1,4) a command_byte
    by (simp add: d2_def set_minterms_def set_modulo_def set_channels_def job job_megabyte_def no_options_def)
  have b: "begin_job a f job d = start_job (d2\<lparr>fd_modulo := (fd_modulo d2)\<lparr>mo_active := False\<rparr>\<rparr>)"
    unfolding begin_job_def d1_def [symmetric] d2_def [symmetric] by (simp add: begin_modulo_def d2)
  show "fd_dmaActive (begin_job a f (job_read f chain j d) d) = fd_dmaActive d"
    "fd_dmaListAddr (begin_job a f (job_read f chain j d) d) = a AND 0x0FFFFFFF"
    unfolding job_def [symmetric] b using d1 by (simp_all add: start_job_def d2)
  show "moving f j chain 0 (begin_job a f (job_read f chain j d) d)"
    unfolding job_def [symmetric] b using d1
    by (simp add: start_job_def d2 moving_def no_options_def plain_channel_def set_channel_def)
qed

context dma_bus
begin

text \<open>The bytes of a job, or of a list, are in memory at an address.\<close>

definition holds_at :: "'b \<Rightarrow> u32 \<Rightarrow> u8 list \<Rightarrow> bool" where
  "holds_at b a bs \<longleftrightarrow> (\<forall>k<length bs. a + of_nat k \<in> ram \<and> byte_at b (a + of_nat k) = bs ! k)"

lemma holds_append:
  "holds_at b a (xs @ ys) \<longleftrightarrow> holds_at b a xs \<and> holds_at b (a + of_nat (length xs)) ys"
proof -
  have "(\<forall>k<l + n. P k) \<longleftrightarrow> (\<forall>k<l. P k) \<and> (\<forall>k<n. P (l + k))" for P and l n :: nat
  proof safe
    fix k assume a: "\<forall>k<l. P k" "\<forall>k<n. P (l + k)" "k < l + n"
    show "P k"
    proof (cases "k < l")
      case False
      then have "k - l < n" "l + (k - l) = k" using a(3) by auto
      then show ?thesis using a(2) by metis
    qed (use a(1) in simp)
  qed auto
  then show ?thesis by (auto simp: holds_at_def nth_append add.assoc)
qed

lemma fetch_job_moving:
  assumes "ok b" and "no_options f d" and "pj_ok j" and "holds_at b (fd_dmaListAddr d) (job_bytes f chain j)"
    and "unat (fd_dmaListAddr d) + length (job_bytes f chain j) < 2 ^ 28"
  shows "\<exists>d' b'. fetchAndBeginNextJob E (d, b) = (True, d', b') \<and> moving f j chain 0 d' \<and> ok b' \<and> byte_at b' = byte_at b \<and>
    fd_dmaActive d' = fd_dmaActive d \<and> fd_dmaListAddr d' = fd_dmaListAddr d + of_nat (length (job_bytes f chain j))"
proof -
  note n = assms(2) [unfolded no_options_def]
  define a where "a = fd_dmaListAddr d"
  have m: "byte_at b (a + of_nat k) = job_bytes f chain j ! k" if "k < (if f then 12 else 11)" for k
    using assms(4) that by (simp add: holds_at_def length_job_bytes a_def)
  have bytes: "byte_at b a = (if pj_fill j then 3 else 0) OR (if chain then 4 else 0)" "byte_at b (a + 1) = lo8 (pj_count j)"
    "byte_at b (a + 2) = hi8 (pj_count j)" "byte_at b (a + 3) = ucast (pj_src j)" "byte_at b (a + 4) = ucast (drop_bit 8 (pj_src j))"
    "byte_at b (a + 5) = ucast (drop_bit 16 (pj_src j))" "byte_at b (a + 6) = ucast (pj_dst j)"
    "byte_at b (a + 7) = ucast (drop_bit 8 (pj_dst j))" "byte_at b (a + 8) = ucast (drop_bit 16 (pj_dst j))"
    "byte_at b (a + 9) = 0" "byte_at b (a + 10) = 0" "f \<Longrightarrow> byte_at b (a + 11) = 0"
    using m [of 0] m [of 1] m [of 2] m [of 3] m [of 4] m [of 5] m [of 6] m [of 7] m [of 8] m [of 9] m [of 10] m [of 11]
    by (simp_all add: job_bytes_def nth_append split: if_splits)
  have fields: "job_fields b a f (blank_job d) = job_read f chain j d"
    using addr20_bytes [of "pj_src j"] addr20_bytes [of "pj_dst j"] assms(3)
    by (simp add: job_fields_def Let_def bytes job_head_def pj_ok_def job_read_def mk16_lo_hi) (simp add: blank_job_def mk16_def)
  have inh: "inherit_mb (blank_job d) d = d" using n by (simp add: inherit_mb_def blank_job_def)
  have r: "a + of_nat k \<in> ram" if "k < (if f then 12 else 11)" for k
    using assms(4) that by (simp add: holds_at_def length_job_bytes a_def)
  have u: "\<not> jb_useF018A (blank_job d)" by (simp add: blank_job_def)
  note rj = read_job_bytes [where s = "(d, b)" and a = a and f = f and job = "blank_job d", simplified, OF assms(1) r u]
  define d' where "d' = begin_job (a + (if f then 12 else 11)) f (job_read f chain j d) d"
  define b' where "b' = snd (final (read_job E a f (blank_job d)) (d, b))"
  have fin: "final (read_job E a f (blank_job d)) (d, b) = (d, b')" using rj(2) by (simp add: b'_def prod_eq_iff)
  have e: "bit (fd_regs d ! 3) 0 = f" using n by simp
  have "final (fetch_job E) (d, b) = (d', b')"
    using n by (simp add: fetch_job_def case_prod_beta inh a_def [symmetric] e fin rj(1) fields d'_def)
  moreover have "fd_bytesRemaining d' \<noteq> 0" unfolding d'_def by (rule job_not_empty)
  ultimately have "fetchAndBeginNextJob E (d, b) = (True, d', b')"
    using n by (subst fetchAndBeginNextJob.simps) simp
  moreover have "(a + of_nat (length (job_bytes f chain j))) AND 0x0FFFFFFF = a + of_nat (length (job_bytes f chain j))"
  proof -
    define v where "v = a + of_nat (length (job_bytes f chain j))"
    have "unat v = unat a + length (job_bytes f chain j)"
      using assms(5) by (simp add: v_def unat_word_ariths a_def unat_of_nat32 length_job_bytes)
    then have "unat v < 2 ^ 28" using assms(5) by (simp add: a_def)
    then have "take_bit 28 v = v" by (simp add: word_unat_eq_iff unsigned_take_bit_eq take_bit_nat_eq_self)
    moreover have "(0x0FFFFFFF :: u32) = mask 28" by (simp add: mask_eq_decr_exp)
    ultimately show ?thesis by (simp add: take_bit_eq_mask v_def)
  qed
  then have "(a + (if f then 12 else 11)) AND 0x0FFFFFFF = a + of_nat (length (job_bytes f chain j))"
    by (cases f) (simp_all add: length_job_bytes)
  moreover have "ok b'" "byte_at b' = byte_at b" using rj(3,4) by (simp_all add: b'_def)
  ultimately show ?thesis using begin_moving [OF assms(2,3), where chain = chain and a = "a + (if f then 12 else 11)"]
    by (intro exI [of _ d'] exI [of _ b']) (simp add: d'_def a_def)
qed

end

section \<open>Running a list of jobs\<close>

definition job_area :: "plain_job \<Rightarrow> u32 set" where
  "job_area j = {pj_dst j + of_nat i | i. i < pj_size j}"

definition source_area :: "plain_job \<Rightarrow> u32 set" where
  "source_area j = (if pj_fill j then {} else {pj_src j + of_nat i | i. i < pj_size j})"

lemma moved_at: "moved j i m a = (if a = pj_dst j + of_nat i then (if pj_fill j then ucast (pj_src j) else m (pj_src j + of_nat i)) else m a)"
  by (simp add: moved_def)

lemma moved_other: "a \<notin> job_area j \<Longrightarrow> i \<le> pj_size j \<Longrightarrow> fold (moved j) [0..<i] m a = m a"
  by (induction i) (auto simp: moved_at job_area_def)

text \<open>Copies whose areas are apart, and fills, leave in every cell what they should.\<close>

lemma area_inj: "i < pj_size j \<Longrightarrow> k < pj_size j \<Longrightarrow> x + of_nat i = x + (of_nat k :: u32) \<longleftrightarrow> i = k"
proof -
  assume "i < pj_size j" "k < pj_size j"
  then have "i < 4294967296" "k < 4294967296" using pj_size_bounds(2) [of j] by linarith+
  then show ?thesis by (metis add_left_cancel unat_of_nat32)
qed

lemma job_effect_cell:
  assumes "source_area j \<inter> job_area j = {}" and "i < pj_size j"
  shows "job_effect j m (pj_dst j + of_nat i) = (if pj_fill j then ucast (pj_src j) else m (pj_src j + of_nat i))"
proof -
  have "fold (moved j) [0..<n] m (pj_dst j + of_nat i) =
      (if i < n then (if pj_fill j then ucast (pj_src j) else m (pj_src j + of_nat i)) else m (pj_dst j + of_nat i))"
    if "n \<le> pj_size j" for n
    using that
  proof (induction n)
    case (Suc n)
    have "fold (moved j) [0..<n] m (pj_src j + of_nat n) = m (pj_src j + of_nat n)" if "\<not> pj_fill j"
    proof (rule moved_other)
      have "pj_src j + of_nat n \<in> source_area j" using that Suc.prems by (auto simp: source_area_def)
      then show "pj_src j + of_nat n \<notin> job_area j" using assms(1) by blast
    qed (use Suc.prems in simp)
    then show ?case using Suc area_inj [of i j n "pj_dst j"] assms(2) by (auto simp: moved_at [of j n] less_Suc_eq)
  qed simp
  then show ?thesis using assms(2) by (simp add: job_effect_def)
qed

context dma_bus
begin

definition job_in_ram :: "plain_job \<Rightarrow> bool" where
  "job_in_ram j \<longleftrightarrow> job_area j \<subseteq> ram \<and> source_area j \<subseteq> ram"

lemma move_moving:
  assumes "ok b" and "moving f j chain i d" and "i < pj_size j" and "job_in_ram j"
  shows "\<exists>b'. final (move_byte E) (d, b) = (d, b') \<and> ok b' \<and> byte_at b' = moved j i (byte_at b)"
proof -
  note m = assms(2) [unfolded moving_def no_options_def]
  have i: "i \<le> 65536" using assms(3) pj_size_bounds(2) [of j] by linarith
  have a: "channel_addr (fd_src d) = pj_src j + of_nat i" "channel_addr (fd_dst d) = pj_dst j + of_nat i"
    using m plain_addr i by blast+
  have io: "\<not> ch_io (fd_src d)" "\<not> ch_io (fd_dst d)" using m by (simp_all add: plain_channel_def)
  have r: "pj_dst j + of_nat i \<in> ram" "\<not> pj_fill j \<Longrightarrow> pj_src j + of_nat i \<in> ram"
    using assms(3,4) by (auto simp: job_in_ram_def job_area_def source_area_def)
  have t: "(ucast v :: u16) \<noteq> 0x100" for v :: u8
  proof
    assume "(ucast v :: u16) = 0x100"
    then have "unat (ucast v :: u16) = 256" by simp
    then show False using unat_u8_lt [of v] by simp
  qed
  show ?thesis
  proof (cases "pj_fill j")
    case True
    then have "final (move_byte E) (d, b) = final (bus_wr E (pj_dst j + of_nat i) (ucast (pj_src j))) (d, b)"
      using m a io by (simp add: move_byte_def case_prod_beta Let_def plain_access)
    then show ?thesis using bus_write [of "(d, b)" "pj_dst j + of_nat i" "ucast (pj_src j)"] assms(1) r True
      by (auto simp: moved_def prod_eq_iff)
  next
    case False
    define s where "s = final (bus_rd E (pj_src j + of_nat i)) (d, b)"
    have s: "fst s = d" "ok (snd s)" "byte_at (snd s) = byte_at b" "result (bus_rd E (pj_src j + of_nat i)) (d, b) = byte_at b (pj_src j + of_nat i)"
      using bus_read [of "(d, b)" "pj_src j + of_nat i"] assms(1) r(2) [OF False] by (simp_all add: s_def)
    have "final (move_byte E) (d, b) = final (bus_wr E (pj_dst j + of_nat i) (byte_at b (pj_src j + of_nat i))) s"
      using m a io False t s(4) by (simp add: move_byte_def case_prod_beta Let_def plain_access s_def)
    then show ?thesis using bus_write [of s "pj_dst j + of_nat i" "byte_at b (pj_src j + of_nat i)"] s r False
      by (auto simp: moved_def prod_eq_iff)
  qed
qed

text \<open>Ticks inside a job.\<close>

lemma ticks_moving:
  assumes "ok b" and "moving f j chain 0 d" and "fd_dmaActive d" and "i < pj_size j" and "job_in_ram j"
  shows "\<exists>d' b'. (f018b_tick E ^^ i) (d, b) = (d', b') \<and> moving f j chain i d' \<and> fd_dmaActive d' \<and> ok b' \<and>
    fd_dmaListAddr d' = fd_dmaListAddr d \<and> byte_at b' = fold (moved j) [0..<i] (byte_at b)"
  using assms(4)
proof (induction i)
  case (Suc i)
  then obtain d1 b1 where 1: "(f018b_tick E ^^ i) (d, b) = (d1, b1)" "moving f j chain i d1" "fd_dmaActive d1" "ok b1"
    "fd_dmaListAddr d1 = fd_dmaListAddr d" "byte_at b1 = fold (moved j) [0..<i] (byte_at b)" by auto
  obtain b2 where 2: "final (move_byte E) (d1, b1) = (d1, b2)" "ok b2" "byte_at b2 = moved j i (byte_at b1)"
    using move_moving [OF 1(4,2) _ assms(5)] Suc.prems by auto
  note c = count_moving [OF 1(2) Suc_lessD [OF Suc.prems]]
  have nz: "(of_nat (pj_size j - k) :: u32) \<noteq> 0" if "k < pj_size j" for k
  proof -
    have "unat (of_nat (pj_size j - k) :: u32) = pj_size j - k" using pj_size_bounds(2) [of j] by (intro unat_of_nat32) simp
    then show ?thesis using that by (metis unat_0 zero_less_diff less_irrefl)
  qed
  have "f018b_tick E (d1, b1) = (count_byte d1, b2)"
    using 1(2,3) c(1) 2(1) nz [of i] nz [of "Suc i"] Suc.prems
    by (simp add: f018b_tick_def tickOneByte_def Let_def moving_def no_options_def)
  then show ?case using 1 2 c by simp
qed (use assms in simp)

end

context dma_bus
begin

lemma last_tick:
  assumes "ok b" and "moving f j chain (pj_size j - 1) d" and "fd_dmaActive d" and "job_in_ram j"
  shows "\<exists>d' b'. moving f j chain (pj_size j) d' \<and> fd_dmaActive d' \<and> ok b' \<and> fd_dmaListAddr d' = fd_dmaListAddr d \<and>
    byte_at b' = moved j (pj_size j - 1) (byte_at b) \<and>
    f018b_tick E (d, b) =
      (if chain then (case fetchAndBeginNextJob E (d', b') of (again, s) \<Rightarrow> if again then s else ((fst s)\<lparr>fd_dmaActive := False\<rparr>, snd s))
       else ((clear_inherit d')\<lparr>fd_dmaActive := False\<rparr>, b'))"
proof -
  have i: "pj_size j - 1 < pj_size j" using pj_size_bounds(1) [of j] by simp
  obtain b' where b': "final (move_byte E) (d, b) = (d, b')" "ok b'" "byte_at b' = moved j (pj_size j - 1) (byte_at b)"
    using move_moving [OF assms(1,2) i assms(4)] by blast
  have s: "Suc (pj_size j - 1) = pj_size j" using pj_size_bounds(1) [of j] by simp
  note c = count_moving [OF assms(2) i, unfolded s]
  have "fd_bytesRemaining d = 1" using assms(2) pj_size_bounds(1) [of j] by (simp add: moving_def)
  then have "f018b_tick E (d, b) =
      (if chain then (case fetchAndBeginNextJob E (count_byte d, b') of (again, s) \<Rightarrow> if again then s else ((fst s)\<lparr>fd_dmaActive := False\<rparr>, snd s))
       else ((clear_inherit (count_byte d))\<lparr>fd_dmaActive := False\<rparr>, b'))"
    using assms(2,3) c(1) b'(1) by (simp add: f018b_tick_def tickOneByte_def Let_def moving_def no_options_def)
  then show ?thesis using c b' assms(3) by (intro exI [of _ "count_byte d"] exI [of _ b']) simp
qed

definition list_ok :: "bool \<Rightarrow> u32 \<Rightarrow> plain_job list \<Rightarrow> bool" where
  "list_ok f a js \<longleftrightarrow> (\<forall>j\<in>set js. pj_ok j \<and> job_in_ram j \<and> (\<forall>k<length (list_bytes f js). a + of_nat k \<notin> job_area j)) \<and>
     unat a + length (list_bytes f js) < 2 ^ 28"

lemma list_runs:
  assumes "js \<noteq> []" and "ok b" and "moving f (hd js) (tl js \<noteq> []) 0 d" and "fd_dmaActive d" and "list_ok f (fd_dmaListAddr d) (tl js)"
    and "pj_ok (hd js) \<and> job_in_ram (hd js) \<and> (\<forall>k<length (list_bytes f (tl js)). fd_dmaListAddr d + of_nat k \<notin> job_area (hd js))"
    and "holds_at b (fd_dmaListAddr d) (list_bytes f (tl js))"
  shows "\<exists>d' b'. (f018b_tick E ^^ sum_list (map pj_size js)) (d, b) = (d', b') \<and> ok b' \<and> \<not> fd_dmaActive d' \<and>
    fd_dmaListAddr d' = fd_dmaListAddr d + of_nat (length (list_bytes f (tl js))) \<and> byte_at b' = fold job_effect js (byte_at b) \<and>
    (\<forall>n < sum_list (map pj_size js). fd_dmaActive (fst ((f018b_tick E ^^ n) (d, b))))"
  using assms
proof (induction js arbitrary: d b)
  case (Cons j js)
  define N where "N = pj_size j"
  have N: "N = Suc (N - 1)" "N - 1 < pj_size j" using pj_size_bounds(1) [of j] by (simp_all add: N_def)
  have jr: "job_in_ram j" and pj: "pj_ok j" using Cons.prems(6) by simp_all
  have mv: "moving f j (js \<noteq> []) 0 d" using Cons.prems(3) by simp
  obtain d1 b1 where 1: "(f018b_tick E ^^ (N - 1)) (d, b) = (d1, b1)" "moving f j (js \<noteq> []) (N - 1) d1" "fd_dmaActive d1" "ok b1"
    "fd_dmaListAddr d1 = fd_dmaListAddr d" "byte_at b1 = fold (moved j) [0..<N - 1] (byte_at b)"
    using ticks_moving [OF Cons.prems(2) mv Cons.prems(4) N(2) jr] by blast
  have act: "fd_dmaActive (fst ((f018b_tick E ^^ n) (d, b)))" if n: "n < N" for n
    using ticks_moving [OF Cons.prems(2) mv Cons.prems(4) _ jr] n by (fastforce simp: N_def)
  obtain d2 b2 where 2: "moving f j (js \<noteq> []) N d2" "fd_dmaActive d2" "ok b2" "fd_dmaListAddr d2 = fd_dmaListAddr d"
    "byte_at b2 = moved j (N - 1) (byte_at b1)"
    "f018b_tick E (d1, b1) =
      (if js \<noteq> [] then (case fetchAndBeginNextJob E (d2, b2) of (again, s) \<Rightarrow> if again then s else ((fst s)\<lparr>fd_dmaActive := False\<rparr>, snd s))
       else ((clear_inherit d2)\<lparr>fd_dmaActive := False\<rparr>, b2))"
    using last_tick [OF 1(4) _ 1(3) jr] 1(2,5) by (fastforce simp: N_def)
  have "[0..<N] = [0..<N - 1] @ [N - 1]" using N(1) by (metis upt_Suc_append zero_le)
  then have e: "byte_at b2 = job_effect j (byte_at b)" using 1(6) 2(5) by (simp add: job_effect_def N_def [symmetric])
  have t: "(f018b_tick E ^^ N) (d, b) = f018b_tick E (d1, b1)" using 1(1) by (subst N(1)) simp
  show ?case
  proof (cases js)
    case Nil
    then show ?thesis using t 2 e act Cons.prems(5)
      by (simp add: N_def [symmetric] clear_inherit_def)
  next
    case (Cons k ks)
    have h: "holds_at b2 (fd_dmaListAddr d2) (list_bytes f js)"
    proof -
      have "byte_at b2 a = byte_at b a" if "a \<notin> job_area j" for a
        using moved_other [OF that, of "pj_size j"] e by (simp add: job_effect_def)
      then show ?thesis using Cons.prems(6,7) 2(4) by (simp add: holds_at_def)
    qed
    then have hk: "holds_at b2 (fd_dmaListAddr d2) (job_bytes f (ks \<noteq> []) k)"
        "holds_at b2 (fd_dmaListAddr d2 + of_nat (length (job_bytes f (ks \<noteq> []) k))) (list_bytes f ks)"
      by (simp_all add: \<open>js = k # ks\<close> holds_append)
    have lk: "list_ok f (fd_dmaListAddr d2) (k # ks)" using Cons.prems(5) 2(4) \<open>js = k # ks\<close> by simp
    have no: "no_options f d2" using 2(1) by (simp add: moving_def)
    have u: "unat (fd_dmaListAddr d2) + length (job_bytes f (ks \<noteq> []) k) < 2 ^ 28" using lk by (simp add: list_ok_def)
    have pk: "pj_ok k" using lk by (simp add: list_ok_def)
    obtain d3 b3 where 3: "fetchAndBeginNextJob E (d2, b2) = (True, d3, b3)" "moving f k (ks \<noteq> []) 0 d3" "ok b3"
      "byte_at b3 = byte_at b2" "fd_dmaActive d3" "fd_dmaListAddr d3 = fd_dmaListAddr d2 + of_nat (length (job_bytes f (ks \<noteq> []) k))"
      using fetch_job_moving [OF 2(3) no pk hk(1) u] 2(2) by auto
    have un: "unat (fd_dmaListAddr d3) = unat (fd_dmaListAddr d2) + length (job_bytes f (ks \<noteq> []) k)"
      using u unfolding 3(6) by (simp add: unat_word_ariths unat_of_nat32 length_job_bytes)
    have off: "fd_dmaListAddr d3 + of_nat i = fd_dmaListAddr d2 + of_nat (length (job_bytes f (ks \<noteq> []) k) + i)" for i
      by (simp add: 3(6) add.assoc)
    have away: "\<forall>i<length (list_bytes f ks). fd_dmaListAddr d3 + of_nat i \<notin> job_area x" if "x \<in> set (k # ks)" for x
    proof (intro allI impI)
      fix i assume i: "i < length (list_bytes f ks)"
      have "\<forall>n<length (list_bytes f (k # ks)). fd_dmaListAddr d2 + of_nat n \<notin> job_area x"
        using lk that unfolding list_ok_def by blast
      moreover have "length (job_bytes f (ks \<noteq> []) k) + i < length (list_bytes f (k # ks))" using i by simp
      ultimately show "fd_dmaListAddr d3 + of_nat i \<notin> job_area x" unfolding off by blast
    qed
    have l3: "list_ok f (fd_dmaListAddr d3) ks"
      using lk un away by (auto simp: list_ok_def)
    have h3: "holds_at b3 (fd_dmaListAddr d3) (list_bytes f ks)" using hk(2) 3(4,6) by (simp add: holds_at_def)
    have "\<exists>d' b'. (f018b_tick E ^^ sum_list (map pj_size js)) (d3, b3) = (d', b') \<and> ok b' \<and> \<not> fd_dmaActive d' \<and>
      fd_dmaListAddr d' = fd_dmaListAddr d3 + of_nat (length (list_bytes f ks)) \<and> byte_at b' = fold job_effect js (byte_at b3) \<and>
      (\<forall>n < sum_list (map pj_size js). fd_dmaActive (fst ((f018b_tick E ^^ n) (d3, b3))))"
      using Cons.IH [of b3 d3] 3 l3 h3 away [of k] lk \<open>js = k # ks\<close> by (simp add: list_ok_def)
    then obtain d' b' where 4: "(f018b_tick E ^^ sum_list (map pj_size js)) (d3, b3) = (d', b')" "ok b'" "\<not> fd_dmaActive d'"
      "fd_dmaListAddr d' = fd_dmaListAddr d3 + of_nat (length (list_bytes f ks))" "byte_at b' = fold job_effect js (byte_at b3)"
      "\<And>n. n < sum_list (map pj_size js) \<Longrightarrow> fd_dmaActive (fst ((f018b_tick E ^^ n) (d3, b3)))" by blast
    have t3: "(f018b_tick E ^^ N) (d, b) = (d3, b3)" using t 2(6) 3(1) \<open>js = k # ks\<close> by simp
    have split: "(f018b_tick E ^^ (N + m)) (d, b) = (f018b_tick E ^^ m) (d3, b3)" for m
      by (simp add: add.commute [of N] funpow_add t3)
    have "fd_dmaActive (fst ((f018b_tick E ^^ n) (d, b)))" if n: "n < N + sum_list (map pj_size js)" for n
    proof (cases "n < N")
      case False
      then have "n = N + (n - N)" by simp
      then show ?thesis using 4(6) [of "n - N"] split [of "n - N"] n False by simp
    qed (rule act)
    then show ?thesis using 4 split e 3(4,6) 2(4) \<open>js = k # ks\<close>
      by (simp add: N_def [symmetric] add.assoc)
  qed
qed simp

end

section \<open>From the trigger to the last byte\<close>

lemma job_effect_cong:
  assumes "\<forall>x\<in>R. m x = m' x" and "job_area j \<subseteq> R" and "source_area j \<subseteq> R"
  shows "\<forall>x\<in>R. job_effect j m x = job_effect j m' x"
proof -
  have "\<forall>x\<in>R. fold (moved j) [0..<n] m x = fold (moved j) [0..<n] m' x" if "n \<le> pj_size j" for n
    using that
  proof (induction n)
    case (Suc n)
    have "pj_src j + of_nat n \<in> source_area j" if "\<not> pj_fill j" using that Suc.prems by (auto simp: source_area_def)
    then have "pj_src j + of_nat n \<in> R" if "\<not> pj_fill j" using assms(3) that by blast
    then show ?case using Suc by (auto simp: moved_at [of j n])
  qed (use assms(1) in simp)
  then show ?thesis by (simp add: job_effect_def)
qed

lemma jobs_cong:
  "\<forall>x\<in>R. m x = m' x \<Longrightarrow> \<forall>j\<in>set js. job_area j \<subseteq> R \<and> source_area j \<subseteq> R \<Longrightarrow>
    \<forall>x\<in>R. fold job_effect js m x = fold job_effect js m' x"
proof (induction js arbitrary: m m')
  case (Cons j js)
  then show ?case using job_effect_cong [of R m m' j] by simp
qed simp

text \<open>A list of jobs is in memory, away from everything the jobs write; all of it is RAM.\<close>

definition list_in_memory :: "u32 set \<Rightarrow> (u32 \<Rightarrow> u8) \<Rightarrow> bool \<Rightarrow> u32 \<Rightarrow> plain_job list \<Rightarrow> bool" where
  "list_in_memory ram m f a js \<longleftrightarrow>
     (\<forall>k<length (list_bytes f js). a + of_nat k \<in> ram \<and> m (a + of_nat k) = list_bytes f js ! k) \<and>
     (\<forall>j\<in>set js. pj_ok j \<and> job_area j \<subseteq> ram \<and> source_area j \<subseteq> ram \<and> (\<forall>k<length (list_bytes f js). a + of_nat k \<notin> job_area j)) \<and>
     unat a + length (list_bytes f js) < 2 ^ 28"

lemma no_options_start:
  assumes "length (fd_regs d) = 16" and "fd_bus d" and "\<not> fd_enhancedMode d"
  shows "no_options (bit (fd_regs d ! 3) 0) (clear_options (d\<lparr>fd_dmaListAddr := a\<rparr>))"
  using assms by (simp add: no_options_def clear_options_def clear_inherit_def no_line_def)

lemma mask_28: "unat (a :: u32) < 2 ^ 28 \<Longrightarrow> a AND 0x0FFFFFFF = a"
proof -
  assume "unat a < 2 ^ 28"
  then have "take_bit 28 a = a" by (simp add: word_unat_eq_iff unsigned_take_bit_eq take_bit_nat_eq_self)
  moreover have "(0x0FFFFFFF :: u32) = mask 28" by (simp add: mask_eq_decr_exp)
  ultimately show ?thesis by (simp add: take_bit_eq_mask)
qed

text \<open>What the trigger makes of the registers.\<close>

definition triggered :: "u8 \<Rightarrow> f018b \<Rightarrow> f018b" where
  "triggered val d = d\<lparr>fd_bus := True, fd_enhancedMode := False, fd_regs := (fd_regs d)[0 := val, 4 := fd_regs d ! 4 AND 0x07, 5 := val]\<rparr>"

lemma trigger_start:
  assumes "length (fd_regs d) = 16"
  shows "snd (dma_ioWrite E (fd_base d) val (d, b)) = startDma E (triggered val d, b)"
    "list_addr (triggered val d) =
      (ucast val OR push_bit 8 (ucast (fd_regs d ! 1)) OR push_bit 16 (ucast (fd_regs d ! 2 AND 0x7F))) AND 0x0FFFFFFF"
    "fd_regs (triggered val d) ! 3 = fd_regs d ! 3"
proof -
  have "drop_bit 3 (x AND 0x07) = 0" for x :: u8
  proof -
    have "(0x07 :: u8) = mask 3" by (simp add: mask_eq_decr_exp)
    then show ?thesis by (intro bit_word_eqI) (auto simp: bit_simps)
  qed
  then show "list_addr (triggered val d) =
      (ucast val OR push_bit 8 (ucast (fd_regs d ! 1)) OR push_bit 16 (ucast (fd_regs d ! 2 AND 0x7F))) AND 0x0FFFFFFF"
    using assms by (simp add: list_addr_def triggered_def Let_def)
  show "snd (dma_ioWrite E (fd_base d) val (d, b)) = startDma E (triggered val d, b)"
    using assms by (simp add: dma_ioWrite_def Let_def triggered_def)
  show "fd_regs (triggered val d) ! 3 = fd_regs d ! 3" using assms by (simp add: triggered_def)
qed

context dma_bus
begin

lemma trigger_runs:
  assumes "ok b" and "length (fd_regs d) = 16" and "js \<noteq> []"
    and "a = ucast val OR push_bit 8 (ucast (fd_regs d ! 1)) OR push_bit 16 (ucast (fd_regs d ! 2 AND 0x7F))"
    and "list_in_memory ram (mem b) (bit (fd_regs d ! 3) 0) a js"
  shows "let s = snd (dma_ioWrite E (fd_base d) val (d, b)); N = sum_list (map pj_size js); s' = (f018b_tick E ^^ N) s
    in (\<forall>n<N. fd_dmaActive (fst ((f018b_tick E ^^ n) s))) \<and> \<not> fd_dmaActive (fst s') \<and>
       fd_dmaListAddr (fst s') = a + of_nat (length (list_bytes (bit (fd_regs d ! 3) 0) js)) \<and>
       (\<forall>x\<in>ram. mem (snd s') x = fold job_effect js (mem b) x)"
proof -
  define f where "f = bit (fd_regs d ! 3) 0"
  define d0 where "d0 = clear_options ((triggered val d)\<lparr>fd_dmaListAddr := a\<rparr>)"
  obtain j rest where js: "js = j # rest" using assms(3) by (cases js) auto
  note L = assms(5) [unfolded list_in_memory_def, folded f_def]
  have a28: "unat a < 2 ^ 28" using L by linarith
  have la: "list_addr (triggered val d) = a"
    unfolding trigger_start(2) [OF assms(2)] assms(4) [symmetric] by (rule mask_28 [OF a28])
  have "no_options (bit (fd_regs (triggered val d) ! 3) 0) d0"
    unfolding d0_def by (rule no_options_start) (use assms(2) in \<open>simp_all add: triggered_def\<close>)
  then have no: "no_options f d0" by (simp add: trigger_start(3) [OF assms(2)] f_def)
  have ad: "fd_dmaListAddr d0 = a" by (simp add: d0_def clear_options_def clear_inherit_def)
  have hL: "holds_at b a (list_bytes f js)" using L by (simp add: holds_at_def byte_at_def)
  have h: "holds_at b a (job_bytes f (rest \<noteq> []) j)" "holds_at b (a + of_nat (length (job_bytes f (rest \<noteq> []) j))) (list_bytes f rest)"
    using hL unfolding js list_bytes.simps holds_append by blast+
  have pj: "pj_ok j" using L js by simp
  have u: "unat (fd_dmaListAddr d0) + length (job_bytes f (rest \<noteq> []) j) < 2 ^ 28" using L js ad by simp
  obtain d1 b1 where 1: "fetchAndBeginNextJob E (d0, b) = (True, d1, b1)" "moving f j (rest \<noteq> []) 0 d1" "ok b1"
    "byte_at b1 = byte_at b" "fd_dmaListAddr d1 = a + of_nat (length (job_bytes f (rest \<noteq> []) j))"
    using fetch_job_moving [OF assms(1) no pj _ u] h(1) ad by auto
  define s where "s = (d1\<lparr>fd_dmaActive := True\<rparr>, b1)"
  have s: "snd (dma_ioWrite E (fd_base d) val (d, b)) = s"
    unfolding trigger_start(1) [OF assms(2)]
    using 1(1) by (simp add: startDma_def la d0_def [symmetric] s_def) (simp add: triggered_def)
  have un: "unat (fd_dmaListAddr d1) = unat a + length (job_bytes f (rest \<noteq> []) j)"
    using u ad unfolding 1(5) by (simp add: unat_word_ariths unat_of_nat32 length_job_bytes)
  have away: "\<forall>i<length (list_bytes f rest). fd_dmaListAddr d1 + of_nat i \<notin> job_area x" if "x \<in> set js" for x
  proof (intro allI impI)
    fix i assume i: "i < length (list_bytes f rest)"
    have "\<forall>n<length (list_bytes f js). a + of_nat n \<notin> job_area x" using L that by blast
    moreover have "length (job_bytes f (rest \<noteq> []) j) + i < length (list_bytes f js)" using i js by simp
    moreover have "fd_dmaListAddr d1 + of_nat i = a + of_nat (length (job_bytes f (rest \<noteq> []) j) + i)" by (simp add: 1(5) add.assoc)
    ultimately show "fd_dmaListAddr d1 + of_nat i \<notin> job_area x" by metis
  qed
  have lo: "list_ok f (fd_dmaListAddr (fst s)) (tl js)" using L away un js by (auto simp: list_ok_def job_in_ram_def s_def)
  have first: "pj_ok (hd js) \<and> job_in_ram (hd js) \<and> (\<forall>k<length (list_bytes f (tl js)). fd_dmaListAddr (fst s) + of_nat k \<notin> job_area (hd js))"
    using L away [of j] js by (simp add: job_in_ram_def s_def)
  have mv: "moving f (hd js) (tl js \<noteq> []) 0 (fst s)" using 1(2) js by (simp add: s_def moving_def no_options_def)
  have hh: "holds_at b1 (fd_dmaListAddr (fst s)) (list_bytes f (tl js))" using h(2) 1(4,5) js by (simp add: holds_at_def s_def)
  have act: "fd_dmaActive (fst s)" and sp: "(fst s, b1) = s" by (simp_all add: s_def)
  obtain d2 b2 where 2: "(f018b_tick E ^^ sum_list (map pj_size js)) s = (d2, b2)" "ok b2" "\<not> fd_dmaActive d2"
    "fd_dmaListAddr d2 = fd_dmaListAddr (fst s) + of_nat (length (list_bytes f (tl js)))" "byte_at b2 = fold job_effect js (byte_at b1)"
    "\<forall>n < sum_list (map pj_size js). fd_dmaActive (fst ((f018b_tick E ^^ n) s))"
    using list_runs [OF assms(3) 1(3) mv act lo first hh, unfolded sp] by blast
  have areas: "\<forall>j\<in>set js. job_area j \<subseteq> ram \<and> source_area j \<subseteq> ram" using L by blast
  have "\<forall>x\<in>ram. fold job_effect js (byte_at b) x = fold job_effect js (mem b) x"
    by (rule jobs_cong [OF _ areas]) (simp add: byte_at_def)
  then have "mem b2 x = fold job_effect js (mem b) x" if "x \<in> ram" for x
    using 2(5) 1(4) that by (metis byte_at_def)
  then show ?thesis using 2 1(5) js unfolding s Let_def f_def [symmetric]
    by (simp add: s_def add.assoc)
qed

end


section \<open>The physical memory of the MEGA65\<close>

definition plain_dma_env :: "sparse_bus dma_env" where
  "plain_dma_env = \<lparr>de_bus = sparse_ibus, de_ioRead = None, de_ioWrite = None, de_resolve = None\<rparr>"

interpretation sparse_dma: dma_bus sparse_ibus sparse_ram R "sparse_ok R" plain_dma_env for R
  by unfold_locales (simp add: plain_dma_env_def)

text \<open>A fresh memory with some bytes written.\<close>

definition loaded_ram :: "(u32 \<times> u8) list \<Rightarrow> sparse_bus" where
  "loaded_ram ws = write_all sparse_ibus ws (sparse_new 28 (\<lambda>_ _. 0))"

lemma write_all_phys:
  "sparse_ok phys28 b \<Longrightarrow> \<forall>w\<in>set ws. fst w \<in> phys28 \<Longrightarrow> x \<in> phys28 \<Longrightarrow>
    sparse_ram (write_all sparse_ibus ws b) x = (case map_of (rev ws) x of Some v \<Rightarrow> v | None \<Rightarrow> sparse_ram b x)"
proof (induction ws arbitrary: b)
  case (Cons w ws)
  obtain a v where w: "w = (a, v)" by (cases w)
  have "sparse_ok phys28 (final (ib_write8 sparse_ibus a v) b)" using sparse.write_ok Cons.prems(1) by blast
  moreover have "sparse_ram (final (ib_write8 sparse_ibus a v) b) x = (if x = a then v else sparse_ram b x)"
    using sparse.write_ram [OF Cons.prems(1)] Cons.prems w by simp
  ultimately show ?case using Cons w by (auto simp: map_add_def split: option.split)
qed simp

lemma loaded_ram_ok: "sparse_ok phys28 (loaded_ram ws)"
  unfolding loaded_ram_def by (rule sparse.write_all_ok) (rule sparse_ok_phys28)

text \<open>A list with one job: fill three bytes at \<open>$3000\<close> with \<open>$20\<close>.\<close>

definition demo_job :: plain_job where
  "demo_job = \<lparr>pj_fill = True, pj_count = 3, pj_src = 0x20, pj_dst = 0x3000\<rparr>"


section \<open>Where the code goes another way\<close>

text \<open>
  Downwards the second byte is not the one below: the accumulator wraps at 32 bits and its byte part, shifted
  without its sign, is added as nearly 16 MB. On the 28-bit bus this is the byte below, 16 MB up.
\<close>

lemma dma_backward_wraps:
  assumes "plain_channel base 0 (ch\<lparr>ch_dir := False\<rparr>)" and "ch_dir ch" and "\<not> bit (lm_slopeType (ch_line ch)) 7" and "\<not> sp_enabled sp"
  shows "channel_addr ch = base" "channel_addr (snd (stepAddress same sp ch)) = base - 1 + 0x1000000"
  using assms by (simp_all add: channel_addr_def stepAddress_def plain_channel_def)

text \<open>A step of the spiral is a fraction of a byte: the address stays.\<close>

lemma dma_spiral_stays:
  assumes "plain_channel base 0 ch" and "\<not> bit (lm_slopeType (ch_line ch)) 7" and "sp_enabled sp" and "sp_phase sp = 0"
  shows "channel_addr (snd (stepAddress True sp ch)) = channel_addr ch"
  using assms by (simp add: channel_addr_def stepAddress_def plain_channel_def spiralSteps_def)

text \<open>A job started through \<open>$D706\<close> has lost the options it was given: no transparency, no line, no spiral.\<close>

lemma dma_mapped_trigger_forgets:
  assumes "fd_dmaActive (fst (startMapped E phys s))"
  shows "fd_transparency (fst (startMapped E phys s)) = 0x100" "ch_line (fd_dst (fst (startMapped E phys s))) = no_line"
    "\<not> sp_enabled (fd_spiral (fst (startMapped E phys s)))"
  using assms by (auto simp: startMapped_def clear_options_def clear_inherit_def split: prod.splits)

end
