(* ===== verification/Cpu45.thy ===== *)
theory Cpu45
  imports MapMmu Cpu6502
begin

text \<open>
  The MEGA65 processor (\<open>src/plugins/45gs02/main/cpu45gs02.h\<close>, \<open>cpu45gs02.cpp\<close>): its registers, memory
  access with the hypervisor's memory, flags and arithmetic on bytes and on the 32-bit register Q, the
  stack in both modes, and the entry to and return from the hypervisor.

  The MAP hardware behind the processor is the interface \<open>IMapController\<close>: the record \<open>map_ctrl\<close> of its
  functions on the state \<open>'b\<close> of the bus and what is attached to it; the hooks of the machine are
  functions on the same state. Log messages are left out.
\<close>

section \<open>State\<close>

abbreviation FLAG_E :: u8 where "FLAG_E \<equiv> 0x20"

record regs45 =
  g_a :: u8
  g_x :: u8
  g_y :: u8
  g_z :: u8
  g_b :: u8
  g_sp :: u16
  g_pc :: u16
  g_p :: u8
  g_cycles :: u64
  g_irqLine :: bool
  g_nmiLine :: bool
  g_nmiPrev :: bool
  g_haltLine :: bool
  g_mapInhibit :: bool
  g_hypervisor :: bool

record hyper_state =
  hs_regA :: u8
  hs_regX :: u8
  hs_regY :: u8
  hs_regZ :: u8
  hs_regB :: u8
  hs_spl :: u8
  hs_sph :: u8
  hs_pflags :: u8
  hs_pc :: u16
  hs_mapOffsetLow :: u32
  hs_mapOffsetHigh :: u32
  hs_mapEnables :: u8
  hs_megabyteLow :: u32
  hs_megabyteHigh :: u32
  hs_port00 :: u8
  hs_port01 :: u8
  hs_vicMode :: u8
  hs_dmaSrcMB :: u8
  hs_dmaDstMB :: u8
  hs_dmaListAddr :: u32

record 'b cpu45 =
  k_regs :: regs45
  k_hyper :: hyper_state
  k_mem :: 'b
  k_hyperRom :: "u8 list option"
  k_hyperRam :: "u8 list option"

text \<open>\<open>IMapController\<close>, as far as the processor uses it.\<close>

record 'b map_ctrl =
  mc_getMapState :: "'b \<Rightarrow> map_state"
  mc_setMapState :: "map_state \<Rightarrow> 'b \<Rightarrow> 'b"
  mc_clearMapState :: "'b \<Rightarrow> 'b"
  mc_physBus :: "'b ibus option"

record 'b pc_hook45 =
  ph45_armed :: "u16 \<Rightarrow> bool"
  ph45_fire :: "u16 \<Rightarrow> ('b cpu45, bool) state"

record 'b observer45 =
  ob45_needsDisasm :: bool
  ob45_onStep :: "disasm_entry \<Rightarrow> ('b cpu45, bool) state"
  ob45_onStepLite :: "u16 \<Rightarrow> ('b cpu45, unit) state"

record 'b env45 =
  ge_bus :: "'b ibus option"
  ge_haltRequested :: "('b, bool) state"
  ge_map :: "'b map_ctrl option"
  ge_onHyperEnter :: "(hyper_state \<Rightarrow> 'b \<Rightarrow> hyper_state \<times> 'b) option"
  ge_onHyperExit :: "(hyper_state \<Rightarrow> 'b \<Rightarrow> 'b) option"
  ge_pcHook :: "'b pc_hook45 option"
  ge_observer :: "'b observer45 option"
  ge_experimental :: bool

definition plain45 :: "'b ibus \<Rightarrow> 'b map_ctrl option \<Rightarrow> 'b env45" where
  "plain45 ib mc = \<lparr>ge_bus = Some ib, ge_haltRequested = State_Monad.return False, ge_map = mc,
     ge_onHyperEnter = None, ge_onHyperExit = None, ge_pcHook = None, ge_observer = None, ge_experimental = False\<rparr>"

definition hyper_zero :: hyper_state where
  "hyper_zero = \<lparr>hs_regA = 0, hs_regX = 0, hs_regY = 0, hs_regZ = 0, hs_regB = 0, hs_spl = 0, hs_sph = 0,
     hs_pflags = 0, hs_pc = 0, hs_mapOffsetLow = 0, hs_mapOffsetHigh = 0, hs_mapEnables = 0,
     hs_megabyteLow = 0, hs_megabyteHigh = 0, hs_port00 = 0, hs_port01 = 0, hs_vicMode = 0,
     hs_dmaSrcMB = 0, hs_dmaDstMB = 0, hs_dmaListAddr = 0\<rparr>"

definition upd45 :: "(regs45 \<Rightarrow> regs45) \<Rightarrow> ('b cpu45, unit) state" where
  "upd45 f = modify (\<lambda>c. c\<lparr>k_regs := f (k_regs c)\<rparr>)"

definition reg45 :: "(regs45 \<Rightarrow> 'a) \<Rightarrow> ('b cpu45, 'a) state" where
  "reg45 f = gets (\<lambda>c. f (k_regs c))"

definition mem45 :: "('b, 'a) state \<Rightarrow> ('b cpu45, 'a) state" where
  "mem45 m = State_Monad.State (\<lambda>c. let r = run_state m (k_mem c) in (fst r, c\<lparr>k_mem := snd r\<rparr>))"

definition cyc45 :: "nat \<Rightarrow> ('b cpu45, unit) state" where
  "cyc45 n = upd45 (\<lambda>s. s\<lparr>g_cycles := g_cycles s + of_nat n\<rparr>)"

section \<open>Memory\<close>

text \<open>In hypervisor mode \<open>$8000-$BFFF\<close> is the hypervisor's own memory.\<close>

definition hyper_window :: "u16 \<Rightarrow> 'b cpu45 \<Rightarrow> u8 list option" where
  "hyper_window addr c =
     (if g_hypervisor (k_regs c) \<and> 0x8000 \<le> addr \<and> addr \<le> 0xBFFF then k_hyperRam c else None)"

definition read45 :: "'b env45 \<Rightarrow> u16 \<Rightarrow> ('b cpu45, u8) state" where
  "read45 E addr = do {
     w \<leftarrow> gets (hyper_window addr);
     (case w of
        Some ram \<Rightarrow> State_Monad.return (let off = unat (addr - 0x8000) in if off < length ram then ram ! off else 0xFF)
      | None \<Rightarrow> (case ge_bus E of
          Some ib \<Rightarrow> mem45 (ib_read8 ib (ucast addr)) | None \<Rightarrow> State_Monad.return 0xFF)) }"

definition write45 :: "'b env45 \<Rightarrow> u16 \<Rightarrow> u8 \<Rightarrow> ('b cpu45, unit) state" where
  "write45 E addr val = do {
     w \<leftarrow> gets (hyper_window addr);
     (case w of
        Some ram \<Rightarrow> modify (\<lambda>c. c\<lparr>k_hyperRam := Some (ram[unat (addr - 0x8000) := val])\<rparr>)
      | None \<Rightarrow> (case ge_bus E of
          Some ib \<Rightarrow> mem45 (ib_write8 ib (ucast addr) val) | None \<Rightarrow> skip)) }"

definition q32 :: "u8 \<Rightarrow> u8 \<Rightarrow> u8 \<Rightarrow> u8 \<Rightarrow> u32" where
  "q32 b0 b1 b2 b3 = ucast b0 OR push_bit 8 (ucast b1) OR push_bit 16 (ucast b2) OR push_bit 24 (ucast b3)"

definition byte32 :: "nat \<Rightarrow> u32 \<Rightarrow> u8" where
  "byte32 k v = ucast (drop_bit (8 * k) v AND 0xFF)"

definition read32_45 :: "'b env45 \<Rightarrow> u16 \<Rightarrow> ('b cpu45, u32) state" where
  "read32_45 E addr = do {
     b0 \<leftarrow> read45 E addr; b1 \<leftarrow> read45 E (addr + 1); b2 \<leftarrow> read45 E (addr + 2); b3 \<leftarrow> read45 E (addr + 3);
     State_Monad.return (q32 b0 b1 b2 b3) }"

definition write32_45 :: "'b env45 \<Rightarrow> u16 \<Rightarrow> u32 \<Rightarrow> ('b cpu45, unit) state" where
  "write32_45 E addr val = do {
     write45 E addr (byte32 0 val); write45 E (addr + 1) (byte32 1 val);
     write45 E (addr + 2) (byte32 2 val); write45 E (addr + 3) (byte32 3 val) }"

text \<open>Physical accesses go around the mapper, on its 28-bit bus if it has one.\<close>

definition physBus45 :: "'b env45 \<Rightarrow> 'b ibus option" where
  "physBus45 E = (case ge_map E of
     Some mc \<Rightarrow> (case mc_physBus mc of Some p \<Rightarrow> Some p | None \<Rightarrow> ge_bus E) | None \<Rightarrow> ge_bus E)"

definition readPhys45 :: "'b env45 \<Rightarrow> u32 \<Rightarrow> ('b cpu45, u8) state" where
  "readPhys45 E a = (case physBus45 E of
     Some ib \<Rightarrow> mem45 (ib_read8 ib (a AND 0x0FFFFFFF)) | None \<Rightarrow> State_Monad.return 0xFF)"

definition writePhys45 :: "'b env45 \<Rightarrow> u32 \<Rightarrow> u8 \<Rightarrow> ('b cpu45, unit) state" where
  "writePhys45 E a v = (case physBus45 E of
     Some ib \<Rightarrow> mem45 (ib_write8 ib (a AND 0x0FFFFFFF) v) | None \<Rightarrow> skip)"

definition read32Phys45 :: "'b env45 \<Rightarrow> u32 \<Rightarrow> ('b cpu45, u32) state" where
  "read32Phys45 E a = do {
     b0 \<leftarrow> readPhys45 E a; b1 \<leftarrow> readPhys45 E (a + 1); b2 \<leftarrow> readPhys45 E (a + 2); b3 \<leftarrow> readPhys45 E (a + 3);
     State_Monad.return (q32 b0 b1 b2 b3) }"

definition write32Phys45 :: "'b env45 \<Rightarrow> u32 \<Rightarrow> u32 \<Rightarrow> ('b cpu45, unit) state" where
  "write32Phys45 E a val = do {
     writePhys45 E a (byte32 0 val); writePhys45 E (a + 1) (byte32 1 val);
     writePhys45 E (a + 2) (byte32 2 val); writePhys45 E (a + 3) (byte32 3 val) }"

text \<open>\<open>read8(m_state.pc++)\<close>\<close>

definition fetch45 :: "'b env45 \<Rightarrow> ('b cpu45, u8) state" where
  "fetch45 E = do { pc \<leftarrow> reg45 g_pc; upd45 (\<lambda>s. s\<lparr>g_pc := pc + 1\<rparr>); read45 E pc }"

section \<open>Flags and registers\<close>

definition clrP45 :: "u8 \<Rightarrow> regs45 \<Rightarrow> regs45" where
  "clrP45 m s = s\<lparr>g_p := g_p s AND NOT m\<rparr>"

definition setP45 :: "u8 \<Rightarrow> regs45 \<Rightarrow> regs45" where
  "setP45 m s = s\<lparr>g_p := g_p s OR m\<rparr>"

definition orIf45 :: "bool \<Rightarrow> u8 \<Rightarrow> regs45 \<Rightarrow> regs45" where
  "orIf45 b m s = (if b then setP45 m s else s)"

definition putP45 :: "bool \<Rightarrow> u8 \<Rightarrow> regs45 \<Rightarrow> regs45" where
  "putP45 b m s = (if b then setP45 m s else clrP45 m s)"

definition updateNZ45 :: "u8 \<Rightarrow> regs45 \<Rightarrow> regs45" where
  "updateNZ45 v s = orIf45 (tst v 0x80) FLAG_N (orIf45 (v = 0) FLAG_Z (clrP45 (FLAG_N OR FLAG_Z) s))"

definition updateNZ16_45 :: "u16 \<Rightarrow> regs45 \<Rightarrow> regs45" where
  "updateNZ16_45 v s = orIf45 (tst v 0x8000) FLAG_N (orIf45 (v = 0) FLAG_Z (clrP45 (FLAG_N OR FLAG_Z) s))"

definition updateNZ32_45 :: "u32 \<Rightarrow> regs45 \<Rightarrow> regs45" where
  "updateNZ32_45 v s = orIf45 (tst v 0x80000000) FLAG_N (orIf45 (v = 0) FLAG_Z (clrP45 (FLAG_N OR FLAG_Z) s))"

text \<open>\<open>regRead(8)\<close> and \<open>regWrite(8, v)\<close>\<close>

definition getQ :: "regs45 \<Rightarrow> u32" where
  "getQ s = q32 (g_a s) (g_x s) (g_y s) (g_z s)"

definition setQ :: "u32 \<Rightarrow> regs45 \<Rightarrow> regs45" where
  "setQ v s = s\<lparr>g_a := byte32 0 v, g_x := byte32 1 v, g_y := byte32 2 v, g_z := byte32 3 v\<rparr>"

definition regRead45 :: "int \<Rightarrow> regs45 \<Rightarrow> u32" where
  "regRead45 idx s =
     (if idx = 0 then ucast (g_a s) else if idx = 1 then ucast (g_x s) else if idx = 2 then ucast (g_y s)
      else if idx = 3 then ucast (g_z s) else if idx = 4 then ucast (g_b s) else if idx = 5 then ucast (g_sp s)
      else if idx = 6 then ucast (g_pc s) else if idx = 7 then ucast (g_p s) else if idx = 8 then getQ s else 0)"

definition regWrite45 :: "int \<Rightarrow> u32 \<Rightarrow> regs45 \<Rightarrow> regs45" where
  "regWrite45 idx val s =
     (if idx = 0 then s\<lparr>g_a := ucast val\<rparr> else if idx = 1 then s\<lparr>g_x := ucast val\<rparr>
      else if idx = 2 then s\<lparr>g_y := ucast val\<rparr> else if idx = 3 then s\<lparr>g_z := ucast val\<rparr>
      else if idx = 4 then s\<lparr>g_b := ucast val\<rparr> else if idx = 5 then s\<lparr>g_sp := ucast val\<rparr>
      else if idx = 6 then s\<lparr>g_pc := ucast val\<rparr> else if idx = 7 then s\<lparr>g_p := ucast val\<rparr>
      else if idx = 8 then setQ val s else s)"

definition setA45 :: "u8 \<Rightarrow> regs45 \<Rightarrow> regs45" where "setA45 v s = updateNZ45 v (s\<lparr>g_a := v\<rparr>)"
definition setX45 :: "u8 \<Rightarrow> regs45 \<Rightarrow> regs45" where "setX45 v s = updateNZ45 v (s\<lparr>g_x := v\<rparr>)"
definition setY45 :: "u8 \<Rightarrow> regs45 \<Rightarrow> regs45" where "setY45 v s = updateNZ45 v (s\<lparr>g_y := v\<rparr>)"
definition setZ45 :: "u8 \<Rightarrow> regs45 \<Rightarrow> regs45" where "setZ45 v s = updateNZ45 v (s\<lparr>g_z := v\<rparr>)"

definition carry45 :: "regs45 \<Rightarrow> bool" where
  "carry45 s \<longleftrightarrow> tst (g_p s) FLAG_C"


section \<open>Arithmetic\<close>

definition adcDec45 :: "u8 \<Rightarrow> regs45 \<Rightarrow> regs45" where
  "adcDec45 v s =
     (let a = g_a s; c = ucast (g_p s AND FLAG_C) :: u32;
          lo0 = (ucast a AND 0x0F) + (ucast v AND 0x0F) + c;
          lo = (if lo0 > 9 then lo0 + 6 else lo0);
          t = (lo AND 0x0F) + (ucast a AND 0xF0) + (ucast v AND 0xF0) + (if lo < 0x10 then 0 else 0x10);
          adjust = drop_bit 4 t AND 0x1F > 9;
          s1 = clrP45 (FLAG_N OR FLAG_V OR FLAG_Z OR FLAG_C) s;
          s2 = orIf45 ((ucast a + ucast v + c) AND 0xFF = 0) FLAG_Z s1;
          s3 = orIf45 (tst t 0x80) FLAG_N s2;
          s4 = orIf45 (tst (ucast a XOR t) 0x80 \<and> \<not> tst (a XOR v) 0x80) FLAG_V s3;
          s5 = orIf45 adjust FLAG_C s4
      in s5\<lparr>g_a := ucast (if adjust then (t + 0x60) AND 0xFF else t)\<rparr>)"

definition adcBin45 :: "u8 \<Rightarrow> regs45 \<Rightarrow> regs45" where
  "adcBin45 v s =
     (let a = g_a s; sum = ucast a + ucast v + ucast (g_p s AND FLAG_C) :: u16;
          s1 = clrP45 (FLAG_V OR FLAG_C) s;
          s2 = orIf45 (tst (NOT (ucast (a XOR v)) AND (ucast a XOR sum)) 0x80) FLAG_V s1;
          s3 = orIf45 (sum > 0xFF) FLAG_C s2
      in setA45 (ucast sum) s3)"

definition doAdc8_45 :: "u8 \<Rightarrow> regs45 \<Rightarrow> regs45" where
  "doAdc8_45 v s = (if tst (g_p s) FLAG_D then adcDec45 v s else adcBin45 v s)"

definition sbcDec45 :: "u8 \<Rightarrow> regs45 \<Rightarrow> regs45" where
  "sbcDec45 v s =
     (let a = g_a s; borrow = (if carry45 s then 0 else 1);
          bin = ucast a - ucast v - borrow :: u16;
          s1 = clrP45 (FLAG_N OR FLAG_V OR FLAG_Z OR FLAG_C) s;
          s2 = orIf45 (bin \<le> 0xFF) FLAG_C s1;
          s3 = orIf45 (tst (ucast (a XOR v) AND (ucast a XOR bin)) 0x80) FLAG_V s2;
          s4 = orIf45 (tst bin 0x80) FLAG_N s3;
          s5 = orIf45 (bin AND 0xFF = 0) FLAG_Z s4;
          d0 = ((ucast a AND 0x0F) - (ucast v AND 0x0F) - (if carry45 s then 0 else 1)) AND 0x1FF :: u32;
          d1 = (if tst d0 0x10
                then (((d0 AND 0x0F) - 6) AND 0x0F) OR
                     push_bit 4 ((ucast (drop_bit 4 a) - ucast (drop_bit 4 v) - 1) AND 0x1F)
                else (d0 AND 0x0F) OR push_bit 4 ((ucast (drop_bit 4 a) - ucast (drop_bit 4 v)) AND 0x1F));
          d2 = (if tst d1 0x100 then (d1 - 0x60) AND 0x1FF else d1)
      in s5\<lparr>g_a := ucast d2\<rparr>)"

definition sbcBin45 :: "u8 \<Rightarrow> regs45 \<Rightarrow> regs45" where
  "sbcBin45 v s =
     (let a = g_a s; d = ucast a - ucast v - (if carry45 s then 0 else 1) :: u16;
          s1 = clrP45 (FLAG_V OR FLAG_C) s;
          s2 = orIf45 (tst (ucast (a XOR v) AND (ucast a XOR d)) 0x80) FLAG_V s1;
          s3 = orIf45 (d \<le> 0xFF) FLAG_C s2
      in setA45 (ucast d) s3)"

definition doSbc8_45 :: "u8 \<Rightarrow> regs45 \<Rightarrow> regs45" where
  "doSbc8_45 v s = (if tst (g_p s) FLAG_D then sbcDec45 v s else sbcBin45 v s)"

text \<open>\<open>reg - v\<close>, for CMP, CPX, CPY and CPZ\<close>

definition compare45 :: "u8 \<Rightarrow> u8 \<Rightarrow> regs45 \<Rightarrow> regs45" where
  "compare45 r v s = updateNZ45 (ucast (ucast r - ucast v :: u16)) (orIf45 (v \<le> r) FLAG_C (clrP45 FLAG_C s))"

text \<open>The operations on Q add their four cycles themselves.\<close>

definition cyc4 :: "regs45 \<Rightarrow> regs45" where
  "cyc4 s = s\<lparr>g_cycles := g_cycles s + 4\<rparr>"

definition doAdc32 :: "u32 \<Rightarrow> regs45 \<Rightarrow> regs45" where
  "doAdc32 v s =
     (let q = getQ s; res = ucast q + ucast v + ucast (g_p s AND FLAG_C) :: u64;
          s1 = clrP45 (FLAG_V OR FLAG_C) s;
          s2 = orIf45 (tst (NOT (q XOR v) AND (q XOR ucast res)) 0x80000000) FLAG_V s1;
          s3 = orIf45 (res > 0xFFFFFFFF) FLAG_C s2
      in cyc4 (updateNZ32_45 (ucast res) (setQ (ucast res) s3)))"

definition doSbc32 :: "u32 \<Rightarrow> regs45 \<Rightarrow> regs45" where
  "doSbc32 v s =
     (let q = getQ s; d = ucast q - ucast v - (if carry45 s then 0 else 1) :: u64;
          s1 = clrP45 (FLAG_V OR FLAG_C) s;
          s2 = orIf45 (tst ((q XOR v) AND (q XOR ucast d)) 0x80000000) FLAG_V s1;
          s3 = orIf45 (d \<le> 0xFFFFFFFF) FLAG_C s2
      in cyc4 (updateNZ32_45 (ucast d) (setQ (ucast d) s3)))"

definition doCmp32 :: "u32 \<Rightarrow> regs45 \<Rightarrow> regs45" where
  "doCmp32 v s =
     (let q = getQ s; d = ucast q - ucast v :: u64
      in cyc4 (updateNZ32_45 (ucast d) (orIf45 (v \<le> q) FLAG_C (clrP45 FLAG_C s))))"

definition logic32 :: "(u32 \<Rightarrow> u32 \<Rightarrow> u32) \<Rightarrow> u32 \<Rightarrow> regs45 \<Rightarrow> regs45" where
  "logic32 f v s = (let q = f (getQ s) v in cyc4 (updateNZ32_45 q (setQ q s)))"

definition logic8 :: "(u8 \<Rightarrow> u8 \<Rightarrow> u8) \<Rightarrow> u8 \<Rightarrow> regs45 \<Rightarrow> regs45" where
  "logic8 f v s = setA45 (f (g_a s) v) s"

section \<open>The stack\<close>

text \<open>With E set the stack stays in its page, else the pointer has 16 bits.\<close>

definition sp_down :: "regs45 \<Rightarrow> regs45" where
  "sp_down s = s\<lparr>g_sp := (if tst (g_p s) FLAG_E then (g_sp s AND 0xFF00) OR ((g_sp s - 1) AND 0xFF) else g_sp s - 1)\<rparr>"

definition sp_up :: "regs45 \<Rightarrow> regs45" where
  "sp_up s = s\<lparr>g_sp := (if tst (g_p s) FLAG_E then (g_sp s AND 0xFF00) OR ((g_sp s + 1) AND 0xFF) else g_sp s + 1)\<rparr>"

definition push8_45 :: "'b env45 \<Rightarrow> u8 \<Rightarrow> ('b cpu45, unit) state" where
  "push8_45 E v = do { sp \<leftarrow> reg45 g_sp; write45 E sp v; upd45 sp_down }"

definition pull8_45 :: "'b env45 \<Rightarrow> ('b cpu45, u8) state" where
  "pull8_45 E = do { upd45 sp_up; sp \<leftarrow> reg45 g_sp; read45 E sp }"

definition push16_45 :: "'b env45 \<Rightarrow> u16 \<Rightarrow> ('b cpu45, unit) state" where
  "push16_45 E v = do { push8_45 E (hi8 v); push8_45 E (lo8 v) }"

definition pull16_45 :: "'b env45 \<Rightarrow> ('b cpu45, u16) state" where
  "pull16_45 E = do { l \<leftarrow> pull8_45 E; h \<leftarrow> pull8_45 E; State_Monad.return (mk16 l h) }"

section \<open>The hypervisor\<close>

definition save_regs :: "regs45 \<Rightarrow> hyper_state \<Rightarrow> hyper_state" where
  "save_regs s h = h\<lparr>hs_regA := g_a s, hs_regX := g_x s, hs_regY := g_y s, hs_regZ := g_z s, hs_regB := g_b s,
     hs_spl := lo8 (g_sp s), hs_sph := ucast (drop_bit 8 (g_sp s) AND 0xFF), hs_pflags := g_p s, hs_pc := g_pc s\<rparr>"

definition save_map :: "map_state \<Rightarrow> hyper_state \<Rightarrow> hyper_state" where
  "save_map ms h = h\<lparr>hs_mapOffsetLow := ms_offsets ms ! 0 AND 0xFFF00, hs_mapOffsetHigh := ms_offsets ms ! 4 AND 0xFFF00,
     hs_mapEnables := ms_enables ms, hs_megabyteLow := ms_megabyteLow ms, hs_megabyteHigh := ms_megabyteHigh ms\<rparr>"

definition hyper_regs :: "u16 \<Rightarrow> regs45 \<Rightarrow> regs45" where
  "hyper_regs trap s = s\<lparr>g_hypervisor := True, g_p := (g_p s OR FLAG_I OR FLAG_E) AND NOT FLAG_D, g_pc := trap,
     g_sp := 0xBEFF, g_b := 0xBF\<rparr>"

definition hyper_map :: "map_state \<Rightarrow> map_state" where
  "hyper_map ms = ms\<lparr>ms_megabyteLow := (if ms_megabyteLow ms = push_bit 20 0xFF then 0 else ms_megabyteLow ms),
     ms_offsets := take 4 (ms_offsets ms) @ replicate 4 0xF0000,
     ms_enables := (ms_enables ms AND 0x0F) OR 0x30, ms_megabyteHigh := push_bit 20 0xFF\<rparr>"

definition enterHypervisor :: "'b env45 \<Rightarrow> u16 \<Rightarrow> ('b cpu45, unit) state" where
  "enterHypervisor E trap = do {
     modify (\<lambda>c. c\<lparr>k_hyper := save_regs (k_regs c) (k_hyper c)\<rparr>);
     (case ge_map E of
        Some mc \<Rightarrow> modify (\<lambda>c. c\<lparr>k_hyper := save_map (mc_getMapState mc (k_mem c)) (k_hyper c)\<rparr>)
      | None \<Rightarrow> skip);
     upd45 (hyper_regs trap);
     (case ge_map E of
        Some mc \<Rightarrow> modify (\<lambda>c. c\<lparr>k_mem := mc_setMapState mc (hyper_map (mc_getMapState mc (k_mem c))) (k_mem c)\<rparr>)
      | None \<Rightarrow> skip);
     (case ge_onHyperEnter E of
        Some f \<Rightarrow> modify (\<lambda>c. let r = f (k_hyper c) (k_mem c) in c\<lparr>k_hyper := fst r, k_mem := snd r\<rparr>)
      | None \<Rightarrow> skip) }"

definition restore_regs :: "hyper_state \<Rightarrow> regs45 \<Rightarrow> regs45" where
  "restore_regs h s = s\<lparr>g_a := hs_regA h, g_x := hs_regX h, g_y := hs_regY h, g_z := hs_regZ h, g_b := hs_regB h,
     g_sp := mk16 (hs_spl h) (hs_sph h), g_p := hs_pflags h, g_pc := hs_pc h\<rparr>"

definition restored_map :: "hyper_state \<Rightarrow> map_state" where
  "restored_map h = \<lparr>ms_offsets = replicate 4 (hs_mapOffsetLow h) @ replicate 4 (hs_mapOffsetHigh h),
     ms_enables = hs_mapEnables h, ms_megabyteLow = hs_megabyteLow h, ms_megabyteHigh = hs_megabyteHigh h\<rparr>"

definition exitHypervisor :: "'b env45 \<Rightarrow> ('b cpu45, unit) state" where
  "exitHypervisor E = do {
     modify (\<lambda>c. c\<lparr>k_regs := restore_regs (k_hyper c) (k_regs c)\<rparr>);
     (case ge_map E of
        Some mc \<Rightarrow> modify (\<lambda>c. c\<lparr>k_mem := mc_setMapState mc (restored_map (k_hyper c)) (k_mem c)\<rparr>)
      | None \<Rightarrow> skip);
     (case ge_onHyperExit E of
        Some f \<Rightarrow> modify (\<lambda>c. c\<lparr>k_mem := f (k_hyper c) (k_mem c)\<rparr>) | None \<Rightarrow> skip);
     upd45 (\<lambda>s. s\<lparr>g_hypervisor := False\<rparr>) }"

definition setHypervisorRom :: "u8 list \<Rightarrow> 'b cpu45 \<Rightarrow> 'b cpu45" where
  "setHypervisorRom data c = c\<lparr>k_hyperRom := Some data, k_hyperRam := Some data\<rparr>"

section \<open>Reset, lines and snapshots\<close>

definition reset_regs45 :: "regs45 \<Rightarrow> regs45" where
  "reset_regs45 s = s\<lparr>g_a := 0, g_x := 0, g_y := 0, g_z := 0, g_b := 0, g_sp := 0x01FF, g_p := FLAG_I OR FLAG_E,
     g_cycles := 0, g_irqLine := False, g_nmiLine := False, g_nmiPrev := False, g_haltLine := False,
     g_mapInhibit := False\<rparr>"

definition reset_vector45 :: "'b env45 \<Rightarrow> ('b cpu45, unit) state" where
  "reset_vector45 E = do {
     lo \<leftarrow> read45 E 0xFFFC; hi \<leftarrow> read45 E 0xFFFD; upd45 (\<lambda>s. s\<lparr>g_pc := mk16 lo hi\<rparr>) }"

definition cpu45_reset :: "'b env45 \<Rightarrow> ('b cpu45, unit) state" where
  "cpu45_reset E = do {
     upd45 reset_regs45;
     modify (\<lambda>c. c\<lparr>k_hyper := hyper_zero\<rparr>);
     rom \<leftarrow> gets k_hyperRom;
     (case rom of
        Some r \<Rightarrow> do {
          upd45 (\<lambda>s. s\<lparr>g_hypervisor := False\<rparr>);
          (case ge_map E of
             Some mc \<Rightarrow> modify (\<lambda>c. c\<lparr>k_mem := mc_clearMapState mc (k_mem c)\<rparr>) | None \<Rightarrow> skip);
          (if ge_bus E \<noteq> None then reset_vector45 E else skip);
          modify (\<lambda>c. c\<lparr>k_hyperRam := map_option (\<lambda>_. r) (k_hyperRam c)\<rparr>);
          enterHypervisor E 0x8100 }
      | None \<Rightarrow> if ge_bus E \<noteq> None then reset_vector45 E else skip) }"

text \<open>The constructor: everything zero, then a reset with nothing attached.\<close>

definition cpu45_new :: "'b \<Rightarrow> 'b cpu45" where
  "cpu45_new b = \<lparr>k_regs = \<lparr>g_a = 0, g_x = 0, g_y = 0, g_z = 0, g_b = 0, g_sp = 0x01FF, g_pc = 0,
     g_p = FLAG_I OR FLAG_E, g_cycles = 0, g_irqLine = False, g_nmiLine = False, g_nmiPrev = False,
     g_haltLine = False, g_mapInhibit = False, g_hypervisor = False\<rparr>,
     k_hyper = hyper_zero, k_mem = b, k_hyperRom = None, k_hyperRam = None\<rparr>"

definition triggerIrq45 :: "regs45 \<Rightarrow> regs45" where
  "triggerIrq45 s = s\<lparr>g_irqLine := True\<rparr>"

definition triggerNmi45 :: "regs45 \<Rightarrow> regs45" where
  "triggerNmi45 s = s\<lparr>g_nmiLine := True\<rparr>"

definition setIrqLine45 :: "bool \<Rightarrow> regs45 \<Rightarrow> regs45" where
  "setIrqLine45 b s = s\<lparr>g_irqLine := b\<rparr>"

definition setNmiLine45 :: "bool \<Rightarrow> regs45 \<Rightarrow> regs45" where
  "setNmiLine45 b s = s\<lparr>g_nmiLine := b\<rparr>"

definition setHaltLine45 :: "bool \<Rightarrow> regs45 \<Rightarrow> regs45" where
  "setHaltLine45 b s = s\<lparr>g_haltLine := b\<rparr>"

definition saveState45 :: "'b cpu45 \<Rightarrow> regs45" where
  "saveState45 c = k_regs c"

definition loadState45 :: "regs45 \<Rightarrow> 'b cpu45 \<Rightarrow> 'b cpu45" where
  "loadState45 buf c = c\<lparr>k_regs := buf\<rparr>"

end
