(* ===== verification/Cpu45Exec.thy ===== *)
theory Cpu45Exec
  imports Cpu45 Cpu6502Step
begin

text \<open>
  \<open>MOS45GS02::step\<close>: prefixes, addressing, the instructions in the order of the code's switch, and the
  interrupts before them. Each part of the switch is a definition that passes the opcodes it has no
  case for on to the next; \<open>q\<close> tells the quad prefix (\<open>NEG NEG\<close>), \<open>i\<close> the prefix of a 32-bit pointer
  (\<open>NOP\<close>). C++ leaves the order of the reads in \<open>read8(p) | (read8(p + 1) << 8)\<close> open; they are made from
  left to right.
\<close>

section \<open>Prefixes\<close>

definition isQuadImmediateOpcode :: "u8 \<Rightarrow> bool" where
  "isQuadImmediateOpcode op \<longleftrightarrow> op \<in> set [0x09, 0x29, 0x49, 0x69, 0xA9, 0xC9, 0xE9]"

definition experimentalQuad :: "u8 list" where
  "experimentalQuad =
     [0x85, 0xA9, 0xA5, 0xB5, 0xAD, 0xBD, 0xB9, 0xA1, 0xB1, 0xB2, 0xA2, 0xB6, 0xAE, 0xBE,
      0x69, 0x65, 0x75, 0x6D, 0x7D, 0x79, 0x61, 0x71,
      0xE9, 0xE5, 0xF5, 0xED, 0xFD, 0xF9, 0xE1, 0xF1,
      0xC9, 0xC5, 0xD5, 0xCD, 0xDD, 0xD9, 0xC1, 0xD1]"

definition flatOpcodes :: "u8 list" where
  "flatOpcodes = [0x12, 0x32, 0x52, 0x72, 0x92, 0xB2, 0xD2, 0xF2]"

definition shouldConsume :: "'b env45 \<Rightarrow> ('b cpu45, bool) state" where
  "shouldConsume E = do {
     pc \<leftarrow> reg45 g_pc;
     wanted \<leftarrow> (if ge_experimental E then do {
         after \<leftarrow> read45 E (pc + 1); State_Monad.return (after \<in> set experimentalQuad) }
       else State_Monad.return True);
     after \<leftarrow> read45 E (pc + 1);
     State_Monad.return (wanted \<and> \<not> isQuadImmediateOpcode after) }"

text \<open>The loop over at most 16 prefixes; its result is the opcode, \<open>isQuad\<close> and \<open>is32BitInd\<close>.\<close>

fun prefixes45 :: "'b env45 \<Rightarrow> nat \<Rightarrow> bool \<Rightarrow> bool \<Rightarrow> u8 \<Rightarrow> ('b cpu45, u8 \<times> bool \<times> bool) state" where
  "prefixes45 E 0 q i op = State_Monad.return (op, q, i)"
| "prefixes45 E (Suc n) q i op0 = do {
     op \<leftarrow> fetch45 E;
     cyc45 1;
     pc \<leftarrow> reg45 g_pc;
     (if op = 0x42 then do {
        second \<leftarrow> read45 E pc;
        (if second = 0x42 then do {
           consume \<leftarrow> shouldConsume E;
           (if consume then do {
              upd45 (\<lambda>s. s\<lparr>g_pc := g_pc s + 1\<rparr>);
              cyc45 1;
              upd45 (\<lambda>s. updateNZ45 (g_a s) s);
              prefixes45 E n True i op }
            else State_Monad.return (op, q, i)) }
         else State_Monad.return (op, q, i)) }
      else if op = 0xEA then do {
        following \<leftarrow> read45 E pc;
        (if following \<in> set flatOpcodes then prefixes45 E n q True op else State_Monad.return (op, q, i)) }
      else State_Monad.return (op, q, i)) }"

section \<open>Addressing\<close>

definition getAbs45 :: "'b env45 \<Rightarrow> ('b cpu45, u16) state" where
  "getAbs45 E = do { l \<leftarrow> fetch45 E; h \<leftarrow> fetch45 E; cyc45 2; State_Monad.return (mk16 l h) }"

definition base_page :: "u8 \<Rightarrow> u8 \<Rightarrow> u16" where
  "base_page b z = mk16 z b"

definition getZp45 :: "'b env45 \<Rightarrow> ('b cpu45, u16) state" where
  "getZp45 E = do { z \<leftarrow> fetch45 E; cyc45 1; b \<leftarrow> reg45 g_b; State_Monad.return (base_page b z) }"

definition getAbsX45 :: "'b env45 \<Rightarrow> ('b cpu45, u16) state" where
  "getAbsX45 E = do { a \<leftarrow> getAbs45 E; x \<leftarrow> reg45 g_x; State_Monad.return (a + ucast x) }"

definition getAbsY45 :: "'b env45 \<Rightarrow> ('b cpu45, u16) state" where
  "getAbsY45 E = do { a \<leftarrow> getAbs45 E; y \<leftarrow> reg45 g_y; State_Monad.return (a + ucast y) }"

definition getZpX45 :: "'b env45 \<Rightarrow> ('b cpu45, u16) state" where
  "getZpX45 E = do {
     z \<leftarrow> fetch45 E; cyc45 1; b \<leftarrow> reg45 g_b; x \<leftarrow> reg45 g_x; State_Monad.return (base_page b (z + x)) }"

definition getZpY45 :: "'b env45 \<Rightarrow> ('b cpu45, u16) state" where
  "getZpY45 E = do {
     z \<leftarrow> fetch45 E; cyc45 1; b \<leftarrow> reg45 g_b; y \<leftarrow> reg45 g_y; State_Monad.return (base_page b (z + y)) }"

definition readWord45 :: "'b env45 \<Rightarrow> u16 \<Rightarrow> ('b cpu45, u16) state" where
  "readWord45 E a = do { l \<leftarrow> read45 E a; h \<leftarrow> read45 E (a + 1); State_Monad.return (mk16 l h) }"

definition getIndX45 :: "'b env45 \<Rightarrow> ('b cpu45, u16) state" where
  "getIndX45 E = do {
     z \<leftarrow> fetch45 E; b \<leftarrow> reg45 g_b; x \<leftarrow> reg45 g_x;
     ptr \<leftarrow> readWord45 E (base_page b (z + x)); cyc45 4; State_Monad.return ptr }"

definition getIndY45 :: "'b env45 \<Rightarrow> ('b cpu45, u16) state" where
  "getIndY45 E = do {
     z \<leftarrow> fetch45 E; b \<leftarrow> reg45 g_b;
     ptr \<leftarrow> readWord45 E (base_page b z); cyc45 3; y \<leftarrow> reg45 g_y; State_Monad.return (ptr + ucast y) }"

definition getStackRelIndY45 :: "'b env45 \<Rightarrow> ('b cpu45, u16) state" where
  "getStackRelIndY45 E = do {
     offset \<leftarrow> fetch45 E; sp \<leftarrow> reg45 g_sp;
     ptr \<leftarrow> readWord45 E (sp + ucast offset); cyc45 4; y \<leftarrow> reg45 g_y; State_Monad.return (ptr + ucast y) }"

definition getIndPhys45 :: "'b env45 \<Rightarrow> bool \<Rightarrow> ('b cpu45, u32) state" where
  "getIndPhys45 E i = do {
     zp \<leftarrow> getZp45 E;
     (if i then do { ptr \<leftarrow> read32_45 E zp; cyc45 4; State_Monad.return (ptr AND 0x0FFFFFFF) }
      else do { ptr \<leftarrow> readWord45 E zp; cyc45 2; State_Monad.return (ucast ptr) }) }"

text \<open>Byte and quad at the target of \<open>($nn),Z\<close> or \<open>[$nn],Z\<close>.\<close>

definition readVia :: "'b env45 \<Rightarrow> bool \<Rightarrow> u32 \<Rightarrow> ('b cpu45, u8) state" where
  "readVia E i addr = (if i then readPhys45 E addr else read45 E (ucast addr))"

definition read32Via :: "'b env45 \<Rightarrow> bool \<Rightarrow> u32 \<Rightarrow> ('b cpu45, u32) state" where
  "read32Via E i addr = (if i then read32Phys45 E addr else read32_45 E (ucast addr))"

definition writeVia :: "'b env45 \<Rightarrow> bool \<Rightarrow> u32 \<Rightarrow> u8 \<Rightarrow> ('b cpu45, unit) state" where
  "writeVia E i addr v = (if i then writePhys45 E addr v else write45 E (ucast addr) v)"

definition write32Via :: "'b env45 \<Rightarrow> bool \<Rightarrow> u32 \<Rightarrow> u32 \<Rightarrow> ('b cpu45, unit) state" where
  "write32Via E i addr v = (if i then write32Phys45 E addr v else write32_45 E (ucast addr) v)"

type_synonym 'b exec45 = "('b cpu45, unit) state"

section \<open>Load and store\<close>

text \<open>\<open>r = read8(mode); updateNZ(r); cycles += n\<close>, and the immediate form.\<close>

definition ld45 :: "'b env45 \<Rightarrow> (u8 \<Rightarrow> regs45 \<Rightarrow> regs45) \<Rightarrow> ('b cpu45, u16) state \<Rightarrow> nat \<Rightarrow> 'b exec45" where
  "ld45 E setr mode n = do { a \<leftarrow> mode; v \<leftarrow> read45 E a; upd45 (setr v); cyc45 n }"

definition ldImm45 :: "'b env45 \<Rightarrow> (u8 \<Rightarrow> regs45 \<Rightarrow> regs45) \<Rightarrow> 'b exec45" where
  "ldImm45 E setr = do { v \<leftarrow> fetch45 E; upd45 (setr v); cyc45 1 }"

text \<open>LDA and LDQ; LDQ loads the four registers one after the other.\<close>

definition ldaq45 :: "'b env45 \<Rightarrow> bool \<Rightarrow> ('b cpu45, u16) state \<Rightarrow> 'b exec45" where
  "ldaq45 E q mode = do {
     addr \<leftarrow> mode;
     (if q then do {
        a \<leftarrow> read45 E addr; upd45 (\<lambda>s. s\<lparr>g_a := a\<rparr>);
        x \<leftarrow> read45 E (addr + 1); upd45 (\<lambda>s. s\<lparr>g_x := x\<rparr>);
        y \<leftarrow> read45 E (addr + 2); upd45 (\<lambda>s. s\<lparr>g_y := y\<rparr>);
        z \<leftarrow> read45 E (addr + 3); upd45 (\<lambda>s. s\<lparr>g_z := z\<rparr>);
        upd45 (\<lambda>s. updateNZ32_45 (getQ s) s); cyc45 4 }
      else do { v \<leftarrow> read45 E addr; upd45 (setA45 v); cyc45 1 }) }"

definition ldaFlat45 :: "'b env45 \<Rightarrow> bool \<Rightarrow> bool \<Rightarrow> 'b exec45" where
  "ldaFlat45 E q i = do {
     base \<leftarrow> getIndPhys45 E i;
     z \<leftarrow> reg45 g_z;
     let addr = base + ucast z;
     (if q then do { v \<leftarrow> read32Via E i addr; upd45 (setQ v); upd45 (updateNZ32_45 v); cyc45 4 }
      else do { v \<leftarrow> readVia E i addr; upd45 (setA45 v); cyc45 1 }) }"

definition loadA45 :: "'b env45 \<Rightarrow> bool \<Rightarrow> bool \<Rightarrow> u8 \<Rightarrow> 'b exec45 \<Rightarrow> 'b exec45" where
  "loadA45 E q i op other =
     (if op = 0xA9 then ldImm45 E setA45
      else if op = 0xAD then ldaq45 E q (getAbs45 E)
      else if op = 0xBD then ld45 E setA45 (getAbsX45 E) 1
      else if op = 0xB9 then ld45 E setA45 (getAbsY45 E) 1
      else if op = 0xA5 then ldaq45 E q (getZp45 E)
      else if op = 0xB5 then ldaq45 E q (getZpX45 E)
      else if op = 0xE2 then ld45 E setA45 (getStackRelIndY45 E) 0
      else if op = 0xA1 then ld45 E setA45 (getIndX45 E) 0
      else if op = 0xB1 then ld45 E setA45 (getIndY45 E) 0
      else if op = 0xB2 then ldaFlat45 E q i
      else other)"

definition loadXYZ45 :: "'b env45 \<Rightarrow> u8 \<Rightarrow> 'b exec45 \<Rightarrow> 'b exec45" where
  "loadXYZ45 E op other =
     (if op = 0xA2 then ldImm45 E setX45
      else if op = 0xAE then ld45 E setX45 (getAbs45 E) 1
      else if op = 0xBE then ld45 E setX45 (getAbsY45 E) 1
      else if op = 0xA6 then ld45 E setX45 (getZp45 E) 1
      else if op = 0xB6 then ld45 E setX45 (getZpY45 E) 1
      else if op = 0xA0 then ldImm45 E setY45
      else if op = 0xAC then ld45 E setY45 (getAbs45 E) 1
      else if op = 0xBC then ld45 E setY45 (getAbsX45 E) 1
      else if op = 0xA4 then ld45 E setY45 (getZp45 E) 1
      else if op = 0xB4 then ld45 E setY45 (getZpX45 E) 1
      else if op = 0xA3 then ldImm45 E setZ45
      else if op = 0xAB then ld45 E setZ45 (getAbs45 E) 1
      else if op = 0xBB then ld45 E setZ45 (getAbsX45 E) 1
      else other)"

definition st45 :: "'b env45 \<Rightarrow> (regs45 \<Rightarrow> u8) \<Rightarrow> ('b cpu45, u16) state \<Rightarrow> nat \<Rightarrow> 'b exec45" where
  "st45 E r mode n = do { a \<leftarrow> mode; v \<leftarrow> reg45 r; write45 E a v; cyc45 n }"

definition staq45 :: "'b env45 \<Rightarrow> bool \<Rightarrow> ('b cpu45, u16) state \<Rightarrow> 'b exec45" where
  "staq45 E q mode = do {
     addr \<leftarrow> mode;
     (if q then do { v \<leftarrow> reg45 getQ; write32_45 E addr v; cyc45 4 }
      else do { v \<leftarrow> reg45 g_a; write45 E addr v; cyc45 1 }) }"

definition staFlat45 :: "'b env45 \<Rightarrow> bool \<Rightarrow> bool \<Rightarrow> 'b exec45" where
  "staFlat45 E q i = do {
     base \<leftarrow> getIndPhys45 E i;
     z \<leftarrow> reg45 g_z;
     let addr = base + (if q then 0 else ucast z);
     (if q then do { v \<leftarrow> reg45 getQ; write32Via E i addr v; cyc45 4 }
      else do { v \<leftarrow> reg45 g_a; writeVia E i addr v; cyc45 1 }) }"

definition store45 :: "'b env45 \<Rightarrow> bool \<Rightarrow> bool \<Rightarrow> u8 \<Rightarrow> 'b exec45 \<Rightarrow> 'b exec45" where
  "store45 E q i op other =
     (if op = 0x8D then staq45 E q (getAbs45 E)
      else if op = 0x9D then st45 E g_a (getAbsX45 E) 1
      else if op = 0x99 then st45 E g_a (getAbsY45 E) 1
      else if op = 0x85 then staq45 E q (getZp45 E)
      else if op = 0x95 then staq45 E q (getZpX45 E)
      else if op = 0x82 then st45 E g_a (getStackRelIndY45 E) 0
      else if op = 0x81 then st45 E g_a (getIndX45 E) 0
      else if op = 0x91 then st45 E g_a (getIndY45 E) 0
      else if op = 0x92 then staFlat45 E q i
      else if op = 0x8E then st45 E g_x (getAbs45 E) 1
      else if op = 0x86 then st45 E g_x (getZp45 E) 1
      else if op = 0x96 then st45 E g_x (getZpY45 E) 1
      else if op = 0x9B then st45 E g_x (getAbsY45 E) 1
      else if op = 0x8B then st45 E g_y (getAbsX45 E) 1
      else if op = 0x8C then st45 E g_y (getAbs45 E) 1
      else if op = 0x84 then st45 E g_y (getZp45 E) 1
      else if op = 0x94 then st45 E g_y (getZpX45 E) 1
      else if op = 0x9C then st45 E g_z (getAbs45 E) 1
      else if op = 0x64 then st45 E g_z (getZp45 E) 1
      else if op = 0x74 then st45 E g_z (getZpX45 E) 1
      else if op = 0x9E then st45 E g_z (getAbsX45 E) 1
      else other)"


section \<open>Arithmetic and logic\<close>

text \<open>An operand in memory, as four bytes after the quad prefix.\<close>

definition aluMem45 ::
  "'b env45 \<Rightarrow> bool \<Rightarrow> (u32 \<Rightarrow> regs45 \<Rightarrow> regs45) \<Rightarrow> (u8 \<Rightarrow> regs45 \<Rightarrow> regs45) \<Rightarrow> ('b cpu45, u16) state \<Rightarrow> 'b exec45" where
  "aluMem45 E q f32 f8 mode = do {
     addr \<leftarrow> mode;
     (if q then do { v \<leftarrow> read32_45 E addr; upd45 (f32 v) }
      else do { v \<leftarrow> read45 E addr; upd45 (f8 v); cyc45 1 }) }"

definition aluFlat45 ::
  "'b env45 \<Rightarrow> bool \<Rightarrow> bool \<Rightarrow> (u32 \<Rightarrow> regs45 \<Rightarrow> regs45) \<Rightarrow> (u8 \<Rightarrow> regs45 \<Rightarrow> regs45) \<Rightarrow> 'b exec45" where
  "aluFlat45 E q i f32 f8 = do {
     base \<leftarrow> getIndPhys45 E i;
     z \<leftarrow> reg45 g_z;
     let addr = base + (if q then 0 else ucast z);
     (if q then do { v \<leftarrow> read32Via E i addr; upd45 (f32 v) }
      else do { v \<leftarrow> readVia E i addr; upd45 (f8 v); cyc45 1 }) }"

text \<open>The nine opcodes of an accumulator operation; their codes differ from those of ORA by \<open>base\<close>.\<close>

definition alu45 ::
  "'b env45 \<Rightarrow> bool \<Rightarrow> bool \<Rightarrow> u8 \<Rightarrow> (u32 \<Rightarrow> regs45 \<Rightarrow> regs45) \<Rightarrow> (u8 \<Rightarrow> regs45 \<Rightarrow> regs45) \<Rightarrow>
   u8 \<Rightarrow> 'b exec45 \<Rightarrow> 'b exec45" where
  "alu45 E q i base f32 f8 op other =
     (if op = base + 0x09 then ldImm45 E f8
      else if op = base + 0x0D then aluMem45 E q f32 f8 (getAbs45 E)
      else if op = base + 0x1D then aluMem45 E q f32 f8 (getAbsX45 E)
      else if op = base + 0x19 then aluMem45 E q f32 f8 (getAbsY45 E)
      else if op = base + 0x05 then aluMem45 E q f32 f8 (getZp45 E)
      else if op = base + 0x15 then aluMem45 E q f32 f8 (getZpX45 E)
      else if op = base + 0x01 then ld45 E f8 (getIndX45 E) 0
      else if op = base + 0x11 then ld45 E f8 (getIndY45 E) 0
      else if op = base + 0x12 then aluFlat45 E q i f32 f8
      else other)"

definition adc45 where "adc45 E q i op other = alu45 E q i 0x60 doAdc32 doAdc8_45 op other"
definition sbc45 where "sbc45 E q i op other = alu45 E q i 0xE0 doSbc32 doSbc8_45 op other"
definition cmp45 where "cmp45 E q i op other = alu45 E q i 0xC0 doCmp32 (\<lambda>v s. compare45 (g_a s) v s) op other"
definition and45 where "and45 E q i op other = alu45 E q i 0x20 (logic32 (AND)) (logic8 (AND)) op other"
definition ora45 where "ora45 E q i op other = alu45 E q i 0x00 (logic32 (OR)) (logic8 (OR)) op other"
definition eor45 where "eor45 E q i op other = alu45 E q i 0x40 (logic32 (XOR)) (logic8 (XOR)) op other"

definition tsb45 :: "'b env45 \<Rightarrow> (u8 \<Rightarrow> u8 \<Rightarrow> u8) \<Rightarrow> ('b cpu45, u16) state \<Rightarrow> 'b exec45" where
  "tsb45 E f mode = do {
     a \<leftarrow> mode; v \<leftarrow> read45 E a; acc \<leftarrow> reg45 g_a;
     upd45 (putP45 (acc AND v = 0) FLAG_Z);
     write45 E a (f v acc); cyc45 1 }"

text \<open>The shifts: the new carry and the result, from the old carry and the operand.\<close>

definition asr8 :: "bool \<Rightarrow> u8 \<Rightarrow> u8 \<times> u8" where "asr8 c v = (v AND 1, (v AND 0x80) OR drop_bit 1 v)"
definition asr32 :: "bool \<Rightarrow> u32 \<Rightarrow> u8 \<times> u32" where "asr32 c v = (ucast (v AND 1), (v AND 0x80000000) OR drop_bit 1 v)"
definition asl8_45 :: "bool \<Rightarrow> u8 \<Rightarrow> u8 \<times> u8" where "asl8_45 c v = (drop_bit 7 v, push_bit 1 v)"
definition asl32 :: "bool \<Rightarrow> u32 \<Rightarrow> u8 \<times> u32" where "asl32 c v = (ucast (drop_bit 31 v), push_bit 1 v)"
definition lsr8_45 :: "bool \<Rightarrow> u8 \<Rightarrow> u8 \<times> u8" where "lsr8_45 c v = (v AND 1, drop_bit 1 v)"
definition lsr32 :: "bool \<Rightarrow> u32 \<Rightarrow> u8 \<times> u32" where "lsr32 c v = (ucast (v AND 1), drop_bit 1 v)"
definition rol8_45 :: "bool \<Rightarrow> u8 \<Rightarrow> u8 \<times> u8" where "rol8_45 c v = (drop_bit 7 v, push_bit 1 v OR (if c then 1 else 0))"
definition rol32 :: "bool \<Rightarrow> u32 \<Rightarrow> u8 \<times> u32" where
  "rol32 c v = (ucast (drop_bit 31 v), push_bit 1 v OR (if c then 1 else 0))"
definition ror8_45 :: "bool \<Rightarrow> u8 \<Rightarrow> u8 \<times> u8" where "ror8_45 c v = (v AND 1, drop_bit 1 v OR (if c then 0x80 else 0))"
definition ror32 :: "bool \<Rightarrow> u32 \<Rightarrow> u8 \<times> u32" where
  "ror32 c v = (ucast (v AND 1), drop_bit 1 v OR (if c then 0x80000000 else 0))"

definition putC45 :: "u8 \<Rightarrow> regs45 \<Rightarrow> regs45" where
  "putC45 c s = s\<lparr>g_p := (g_p s AND NOT FLAG_C) OR c\<rparr>"

definition shiftQ :: "(bool \<Rightarrow> u32 \<Rightarrow> u8 \<times> u32) \<Rightarrow> regs45 \<Rightarrow> regs45" where
  "shiftQ f s = (let r = f (carry45 s) (getQ s) in updateNZ32_45 (snd r) (setQ (snd r) (putC45 (fst r) s)))"

definition shiftA :: "(bool \<Rightarrow> u8 \<Rightarrow> u8 \<times> u8) \<Rightarrow> regs45 \<Rightarrow> regs45" where
  "shiftA f s = (let r = f (carry45 s) (g_a s) in setA45 (snd r) (putC45 (fst r) s))"

definition shiftAcc45 ::
  "bool \<Rightarrow> (bool \<Rightarrow> u32 \<Rightarrow> u8 \<times> u32) \<Rightarrow> (bool \<Rightarrow> u8 \<Rightarrow> u8 \<times> u8) \<Rightarrow> nat \<Rightarrow> 'b exec45" where
  "shiftAcc45 q f32 f8 n = (if q then do { upd45 (shiftQ f32); cyc45 n } else upd45 (shiftA f8))"

definition shiftMem45 ::
  "'b env45 \<Rightarrow> bool \<Rightarrow> (bool \<Rightarrow> u32 \<Rightarrow> u8 \<times> u32) \<Rightarrow> (bool \<Rightarrow> u8 \<Rightarrow> u8 \<times> u8) \<Rightarrow> ('b cpu45, u16) state \<Rightarrow> nat \<Rightarrow>
   'b exec45" where
  "shiftMem45 E q f32 f8 mode n = do {
     a \<leftarrow> mode;
     (if q then do {
        v \<leftarrow> read32_45 E a; c \<leftarrow> reg45 carry45;
        upd45 (putC45 (fst (f32 c v))); write32_45 E a (snd (f32 c v)); upd45 (updateNZ32_45 (snd (f32 c v))) }
      else do {
        v \<leftarrow> read45 E a; c \<leftarrow> reg45 carry45;
        upd45 (putC45 (fst (f8 c v))); write45 E a (snd (f8 c v)); upd45 (updateNZ45 (snd (f8 c v))) });
     cyc45 n }"

definition tsbAsr45 :: "'b env45 \<Rightarrow> bool \<Rightarrow> u8 \<Rightarrow> 'b exec45 \<Rightarrow> 'b exec45" where
  "tsbAsr45 E q op other =
     (if op = 0x04 then tsb45 E (OR) (getZp45 E)
      else if op = 0x0C then tsb45 E (OR) (getAbs45 E)
      else if op = 0x14 then tsb45 E (\<lambda>v a. v AND NOT a) (getZp45 E)
      else if op = 0x1C then tsb45 E (\<lambda>v a. v AND NOT a) (getAbs45 E)
      else if op = 0x43 then shiftAcc45 q asr32 asr8 0
      else if op = 0x44 then shiftMem45 E q asr32 asr8 (getZp45 E) 0
      else if op = 0x54 then shiftMem45 E q asr32 asr8 (getZpX45 E) 0
      else other)"

section \<open>Increments and decrements\<close>

definition stepMem45 :: "'b env45 \<Rightarrow> bool \<Rightarrow> u32 \<Rightarrow> u8 \<Rightarrow> ('b cpu45, u16) state \<Rightarrow> 'b exec45" where
  "stepMem45 E q d32 d8 mode = do {
     a \<leftarrow> mode;
     (if q then do { v \<leftarrow> read32_45 E a; write32_45 E a (v + d32); upd45 (updateNZ32_45 (v + d32)) }
      else do { v \<leftarrow> read45 E a; write45 E a (v + d8); upd45 (updateNZ45 (v + d8)) });
     cyc45 1 }"

definition stepAcc45 :: "bool \<Rightarrow> u32 \<Rightarrow> u8 \<Rightarrow> regs45 \<Rightarrow> regs45" where
  "stepAcc45 q d32 d8 s = (if q then updateNZ32_45 (getQ s + d32) (setQ (getQ s + d32) s) else setA45 (g_a s + d8) s)"

definition incdec45 :: "'b env45 \<Rightarrow> bool \<Rightarrow> u8 \<Rightarrow> 'b exec45 \<Rightarrow> 'b exec45" where
  "incdec45 E q op other =
     (if op = 0xE8 then upd45 (\<lambda>s. setX45 (g_x s + 1) s)
      else if op = 0xCA then upd45 (\<lambda>s. setX45 (g_x s - 1) s)
      else if op = 0xC8 then upd45 (\<lambda>s. setY45 (g_y s + 1) s)
      else if op = 0x88 then upd45 (\<lambda>s. setY45 (g_y s - 1) s)
      else if op = 0x1B then upd45 (\<lambda>s. setZ45 (g_z s + 1) s)
      else if op = 0x3B then upd45 (\<lambda>s. setZ45 (g_z s - 1) s)
      else if op = 0x1A then upd45 (stepAcc45 q 1 1)
      else if op = 0x3A then upd45 (stepAcc45 q (- 1) (- 1))
      else if op = 0xEE then stepMem45 E q 1 1 (getAbs45 E)
      else if op = 0xFE then stepMem45 E q 1 1 (getAbsX45 E)
      else if op = 0xE6 then stepMem45 E q 1 1 (getZp45 E)
      else if op = 0xF6 then stepMem45 E q 1 1 (getZpX45 E)
      else if op = 0xCE then stepMem45 E q (- 1) (- 1) (getAbs45 E)
      else if op = 0xDE then stepMem45 E q (- 1) (- 1) (getAbsX45 E)
      else if op = 0xC6 then stepMem45 E q (- 1) (- 1) (getZp45 E)
      else if op = 0xD6 then stepMem45 E q (- 1) (- 1) (getZpX45 E)
      else other)"

section \<open>Transfers, flags and stack\<close>

definition transfer45 :: "u8 \<Rightarrow> 'b exec45 \<Rightarrow> 'b exec45" where
  "transfer45 op other =
     (if op = 0xAA then upd45 (\<lambda>s. setX45 (g_a s) s)
      else if op = 0x8A then upd45 (\<lambda>s. setA45 (g_x s) s)
      else if op = 0xA8 then upd45 (\<lambda>s. setY45 (g_a s) s)
      else if op = 0x98 then upd45 (\<lambda>s. setA45 (g_y s) s)
      else if op = 0x4B then upd45 (\<lambda>s. setZ45 (g_a s) s)
      else if op = 0x6B then upd45 (\<lambda>s. setA45 (g_z s) s)
      else if op = 0x5B then upd45 (\<lambda>s. s\<lparr>g_b := g_a s\<rparr>)
      else if op = 0x7B then upd45 (\<lambda>s. setA45 (g_b s) s)
      else if op = 0xBA then upd45 (\<lambda>s. setX45 (lo8 (g_sp s)) s)
      else if op = 0x9A then upd45 (\<lambda>s. s\<lparr>g_sp := (g_sp s AND 0xFF00) OR ucast (g_x s)\<rparr>)
      else other)"

definition flags45 :: "u8 \<Rightarrow> 'b exec45 \<Rightarrow> 'b exec45" where
  "flags45 op other =
     (if op = 0x18 then upd45 (clrP45 FLAG_C)
      else if op = 0x38 then upd45 (setP45 FLAG_C)
      else if op = 0x58 then upd45 (clrP45 FLAG_I)
      else if op = 0x78 then upd45 (setP45 FLAG_I)
      else if op = 0xD8 then upd45 (clrP45 FLAG_D)
      else if op = 0xF8 then upd45 (setP45 FLAG_D)
      else if op = 0xB8 then upd45 (clrP45 FLAG_V)
      else other)"

definition pullTo45 :: "'b env45 \<Rightarrow> (u8 \<Rightarrow> regs45 \<Rightarrow> regs45) \<Rightarrow> 'b exec45" where
  "pullTo45 E setr = do { v \<leftarrow> pull8_45 E; upd45 (setr v) }"

definition pushReg45 :: "'b env45 \<Rightarrow> (regs45 \<Rightarrow> u8) \<Rightarrow> 'b exec45" where
  "pushReg45 E r = do { v \<leftarrow> reg45 r; push8_45 E v }"

text \<open>PLP and RTI keep B and E.\<close>

definition pulledP :: "u8 \<Rightarrow> regs45 \<Rightarrow> regs45" where
  "pulledP v s = s\<lparr>g_p := (v AND NOT (FLAG_B OR FLAG_E)) OR (g_p s AND (FLAG_B OR FLAG_E))\<rparr>"

definition callTo45 :: "'b env45 \<Rightarrow> u16 \<Rightarrow> nat \<Rightarrow> 'b exec45" where
  "callTo45 E t n = do { pc \<leftarrow> reg45 g_pc; push16_45 E (pc - 1); upd45 (\<lambda>s. s\<lparr>g_pc := t\<rparr>); cyc45 n }"

definition stack45 :: "'b env45 \<Rightarrow> u8 \<Rightarrow> 'b exec45 \<Rightarrow> 'b exec45" where
  "stack45 E op other =
     (if op = 0x48 then pushReg45 E g_a
      else if op = 0x68 then pullTo45 E setA45
      else if op = 0x08 then pushReg45 E (\<lambda>s. g_p s OR FLAG_B OR FLAG_E)
      else if op = 0x28 then pullTo45 E pulledP
      else if op = 0xDA then pushReg45 E g_x
      else if op = 0xFA then pullTo45 E setX45
      else if op = 0x5A then pushReg45 E g_y
      else if op = 0x7A then pullTo45 E setY45
      else if op = 0xDB then pushReg45 E g_z
      else if op = 0xFB then pullTo45 E setZ45
      else if op = 0x22 then do { a \<leftarrow> getAbs45 E; t \<leftarrow> readWord45 E a; callTo45 E t 2 }
      else if op = 0x23 then do { a \<leftarrow> getAbsX45 E; t \<leftarrow> readWord45 E a; callTo45 E t 2 }
      else if op = 0xF4 then do { lo \<leftarrow> fetch45 E; hi \<leftarrow> fetch45 E; cyc45 2; push8_45 E lo; push8_45 E hi }
      else if op = 0xFC then do {
        a \<leftarrow> getAbs45 E; lo \<leftarrow> read45 E a; hi \<leftarrow> read45 E (a + 1); cyc45 2; push8_45 E lo; push8_45 E hi }
      else other)"


section \<open>Flow of control\<close>

definition branch45 :: "'b env45 \<Rightarrow> (regs45 \<Rightarrow> bool) \<Rightarrow> 'b exec45" where
  "branch45 E cond = do {
     r \<leftarrow> fetch45 E;
     upd45 (\<lambda>s. if cond s then s\<lparr>g_pc := rel_target (g_pc s) r, g_cycles := g_cycles s + 1\<rparr> else s) }"

definition flag45 :: "u8 \<Rightarrow> regs45 \<Rightarrow> bool" where
  "flag45 m s \<longleftrightarrow> tst (g_p s) m"

text \<open>The 16-bit offset counts from its second byte.\<close>

definition lbranch45 :: "'b env45 \<Rightarrow> (regs45 \<Rightarrow> bool) \<Rightarrow> 'b exec45" where
  "lbranch45 E cond = do {
     pc \<leftarrow> reg45 g_pc; r \<leftarrow> readWord45 E pc;
     upd45 (\<lambda>s. if cond s then s\<lparr>g_pc := g_pc s + 1 + r, g_cycles := g_cycles s + 1\<rparr> else s\<lparr>g_pc := g_pc s + 1 + 1\<rparr>);
     cyc45 2 }"

definition flow45 :: "'b env45 \<Rightarrow> u8 \<Rightarrow> 'b exec45 \<Rightarrow> 'b exec45" where
  "flow45 E op other =
     (if op = 0x4C then do { t \<leftarrow> getAbs45 E; upd45 (\<lambda>s. s\<lparr>g_pc := t\<rparr>) }
      else if op = 0x6C then do { a \<leftarrow> getAbs45 E; t \<leftarrow> readWord45 E a; upd45 (\<lambda>s. s\<lparr>g_pc := t\<rparr>); cyc45 2 }
      else if op = 0x20 then do { t \<leftarrow> getAbs45 E; callTo45 E t 1 }
      else if op = 0x60 then do { t \<leftarrow> pull16_45 E; upd45 (\<lambda>s. s\<lparr>g_pc := t + 1\<rparr>); cyc45 3 }
      else if op = 0x40 then do {
        v \<leftarrow> pull8_45 E; upd45 (pulledP v); t \<leftarrow> pull16_45 E; upd45 (\<lambda>s. s\<lparr>g_pc := t\<rparr>); cyc45 3 }
      else if op = 0x80 then branch45 E (\<lambda>s. True)
      else if op = 0x63 then do {
        pc \<leftarrow> reg45 g_pc; r \<leftarrow> readWord45 E pc; push16_45 E (pc + 1);
        upd45 (\<lambda>s. s\<lparr>g_pc := g_pc s + 1 + r\<rparr>); cyc45 4 }
      else if op = 0x62 then do {
        ret \<leftarrow> pull16_45 E; imm \<leftarrow> fetch45 E;
        upd45 (\<lambda>s. s\<lparr>g_pc := ret + 1, g_sp := g_sp s + ucast imm\<rparr>); cyc45 4 }
      else other)"

definition branches45 :: "'b env45 \<Rightarrow> u8 \<Rightarrow> 'b exec45 \<Rightarrow> 'b exec45" where
  "branches45 E op other =
     (if op = 0xF0 then branch45 E (flag45 FLAG_Z)
      else if op = 0xD0 then branch45 E (\<lambda>s. \<not> flag45 FLAG_Z s)
      else if op = 0xB0 then branch45 E (flag45 FLAG_C)
      else if op = 0x90 then branch45 E (\<lambda>s. \<not> flag45 FLAG_C s)
      else if op = 0x10 then branch45 E (\<lambda>s. \<not> flag45 FLAG_N s)
      else if op = 0x30 then branch45 E (flag45 FLAG_N)
      else if op = 0x50 then branch45 E (\<lambda>s. \<not> flag45 FLAG_V s)
      else if op = 0x70 then branch45 E (flag45 FLAG_V)
      else if op = 0x83 then do {
        pc \<leftarrow> reg45 g_pc; r \<leftarrow> readWord45 E pc; upd45 (\<lambda>s. s\<lparr>g_pc := g_pc s + (1 + r)\<rparr>); cyc45 3 }
      else if op = 0xD3 then lbranch45 E (\<lambda>s. \<not> flag45 FLAG_Z s)
      else if op = 0xF3 then lbranch45 E (flag45 FLAG_Z)
      else if op = 0x93 then lbranch45 E (\<lambda>s. \<not> flag45 FLAG_C s)
      else if op = 0xB3 then lbranch45 E (flag45 FLAG_C)
      else if op = 0x13 then lbranch45 E (\<lambda>s. \<not> flag45 FLAG_N s)
      else if op = 0x33 then lbranch45 E (flag45 FLAG_N)
      else if op = 0x53 then lbranch45 E (\<lambda>s. \<not> flag45 FLAG_V s)
      else if op = 0x73 then lbranch45 E (flag45 FLAG_V)
      else other)"

section \<open>Comparisons of X, Y and Z; bits\<close>

definition cpImm45 :: "'b env45 \<Rightarrow> (regs45 \<Rightarrow> u8) \<Rightarrow> 'b exec45" where
  "cpImm45 E r = do { v \<leftarrow> fetch45 E; upd45 (\<lambda>s. compare45 (r s) v s); cyc45 1 }"

definition cpMem45 :: "'b env45 \<Rightarrow> (regs45 \<Rightarrow> u8) \<Rightarrow> ('b cpu45, u16) state \<Rightarrow> 'b exec45" where
  "cpMem45 E r mode = do { a \<leftarrow> mode; v \<leftarrow> read45 E a; upd45 (\<lambda>s. compare45 (r s) v s); cyc45 1 }"

definition cpxyz45 :: "'b env45 \<Rightarrow> u8 \<Rightarrow> 'b exec45 \<Rightarrow> 'b exec45" where
  "cpxyz45 E op other =
     (if op = 0xE0 then cpImm45 E g_x
      else if op = 0xEC then cpMem45 E g_x (getAbs45 E)
      else if op = 0xE4 then cpMem45 E g_x (getZp45 E)
      else if op = 0xC0 then cpImm45 E g_y
      else if op = 0xCC then cpMem45 E g_y (getAbs45 E)
      else if op = 0xC4 then cpMem45 E g_y (getZp45 E)
      else if op = 0xC2 then cpImm45 E g_z
      else if op = 0xD4 then cpMem45 E g_z (getZp45 E)
      else if op = 0xDC then cpMem45 E g_z (getAbs45 E)
      else other)"

definition bit8_45 :: "u8 \<Rightarrow> regs45 \<Rightarrow> regs45" where
  "bit8_45 v s = orIf45 (tst v 0x40) FLAG_V (orIf45 (tst v 0x80) FLAG_N
     (orIf45 (g_a s AND v = 0) FLAG_Z (clrP45 (FLAG_Z OR FLAG_N OR FLAG_V) s)))"

definition bit32_45 :: "u32 \<Rightarrow> regs45 \<Rightarrow> regs45" where
  "bit32_45 v s = orIf45 (tst v 0x40000000) FLAG_V (orIf45 (tst v 0x80000000) FLAG_N
     (orIf45 (getQ s AND v = 0) FLAG_Z (clrP45 (FLAG_Z OR FLAG_N OR FLAG_V) s)))"

definition bitMem45 :: "'b env45 \<Rightarrow> bool \<Rightarrow> ('b cpu45, u16) state \<Rightarrow> 'b exec45" where
  "bitMem45 E q mode = do {
     a \<leftarrow> mode;
     (if q then do { v \<leftarrow> read32_45 E a; upd45 (bit32_45 v) } else do { v \<leftarrow> read45 E a; upd45 (bit8_45 v) }) }"

definition rmb45 :: "'b env45 \<Rightarrow> (u8 \<Rightarrow> u8) \<Rightarrow> 'b exec45" where
  "rmb45 E f = do { a \<leftarrow> getZp45 E; v \<leftarrow> read45 E a; write45 E a (f v) }"

definition bbr45 :: "'b env45 \<Rightarrow> (u8 \<Rightarrow> bool) \<Rightarrow> 'b exec45" where
  "bbr45 E cond = do {
     a \<leftarrow> getZp45 E; v \<leftarrow> read45 E a; r \<leftarrow> fetch45 E;
     upd45 (\<lambda>s. if cond v then s\<lparr>g_pc := rel_target (g_pc s) r\<rparr> else s) }"

definition bits45 :: "'b env45 \<Rightarrow> bool \<Rightarrow> u8 \<Rightarrow> 'b exec45 \<Rightarrow> 'b exec45" where
  "bits45 E q op other =
     (if op = 0x24 then bitMem45 E q (getZp45 E)
      else if op = 0x2C then bitMem45 E q (getAbs45 E)
      else if op = 0x34 then ld45 E bit8_45 (getZpX45 E) 0
      else if op = 0x3C then ld45 E bit8_45 (getAbsX45 E) 0
      else if op = 0x89 then ldImm45 E bit8_45
      else if op \<in> set [0x07, 0x17, 0x27, 0x37, 0x47, 0x57, 0x67, 0x77]
           then rmb45 E (\<lambda>v. v AND NOT (push_bit (unat (drop_bit 4 op)) 1))
      else if op \<in> set [0x87, 0x97, 0xA7, 0xB7, 0xC7, 0xD7, 0xE7, 0xF7]
           then rmb45 E (\<lambda>v. v OR push_bit (unat (drop_bit 4 (op - 0x87))) 1)
      else if op \<in> set [0x0F, 0x1F, 0x2F, 0x3F, 0x4F, 0x5F, 0x6F, 0x7F]
           then bbr45 E (\<lambda>v. \<not> tst v (push_bit (unat (drop_bit 4 op)) 1))
      else if op \<in> set [0x8F, 0x9F, 0xAF, 0xBF, 0xCF, 0xDF, 0xEF, 0xFF]
           then bbr45 E (\<lambda>v. tst v (push_bit (unat (drop_bit 4 (op - 0x8F))) 1))
      else other)"

section \<open>Shifts\<close>

text \<open>The five opcodes of a shift; their codes differ from those of ASL by \<open>base\<close>.\<close>

definition shift45 ::
  "'b env45 \<Rightarrow> bool \<Rightarrow> u8 \<Rightarrow> (bool \<Rightarrow> u32 \<Rightarrow> u8 \<times> u32) \<Rightarrow> (bool \<Rightarrow> u8 \<Rightarrow> u8 \<times> u8) \<Rightarrow> u8 \<Rightarrow> 'b exec45 \<Rightarrow> 'b exec45" where
  "shift45 E q base f32 f8 op other =
     (if op = base + 0x0A then shiftAcc45 q f32 f8 1
      else if op = base + 0x0E then shiftMem45 E q f32 f8 (getAbs45 E) 1
      else if op = base + 0x1E then shiftMem45 E q f32 f8 (getAbsX45 E) 1
      else if op = base + 0x06 then shiftMem45 E q f32 f8 (getZp45 E) 1
      else if op = base + 0x16 then shiftMem45 E q f32 f8 (getZpX45 E) 1
      else other)"

definition asl45 where "asl45 E q op other = shift45 E q 0x00 asl32 asl8_45 op other"
definition lsr45 where "lsr45 E q op other = shift45 E q 0x40 lsr32 lsr8_45 op other"
definition rol45 where "rol45 E q op other = shift45 E q 0x20 rol32 rol8_45 op other"
definition ror45 where "ror45 E q op other = shift45 E q 0x60 ror32 ror8_45 op other"

section \<open>Extensions\<close>

text \<open>MAP: the low half from A and X, the high half from Y and Z.\<close>

definition map_low :: "regs45 \<Rightarrow> map_state \<Rightarrow> map_state" where
  "map_low s ms =
     (if g_x s = 0x0F then ms\<lparr>ms_megabyteLow := push_bit 20 (ucast (g_a s))\<rparr>
      else let loOff = push_bit 16 (ucast (g_x s AND 0x0F)) OR push_bit 8 (ucast (g_a s))
           in ms\<lparr>ms_offsets := replicate 4 loOff @ drop 4 (ms_offsets ms),
                ms_enables := (ms_enables ms AND 0xF0) OR (drop_bit 4 (g_x s) AND 0x0F)\<rparr>)"

definition map_high :: "regs45 \<Rightarrow> map_state \<Rightarrow> map_state" where
  "map_high s ms =
     (if g_z s = 0x0F then ms\<lparr>ms_megabyteHigh := push_bit 20 (ucast (g_y s))\<rparr>
      else if \<not> g_hypervisor s then
        let hiOff = push_bit 16 (ucast (g_z s AND 0x0F)) OR push_bit 8 (ucast (g_y s))
        in ms\<lparr>ms_offsets := take 4 (ms_offsets ms) @ replicate 4 hiOff,
             ms_enables := (ms_enables ms AND 0x0F) OR (g_z s AND 0xF0)\<rparr>
      else ms)"

definition opMAP :: "'b env45 \<Rightarrow> 'b exec45" where
  "opMAP E = do {
     (case ge_map E of
        Some mc \<Rightarrow> modify (\<lambda>c. c\<lparr>k_mem :=
          mc_setMapState mc (map_high (k_regs c) (map_low (k_regs c) (mc_getMapState mc (k_mem c)))) (k_mem c)\<rparr>)
      | None \<Rightarrow> skip);
     upd45 (\<lambda>s. s\<lparr>g_mapInhibit := True\<rparr>);
     cyc45 1 }"

definition neg45 :: "bool \<Rightarrow> regs45 \<Rightarrow> regs45" where
  "neg45 q s = (if q then updateNZ32_45 (- getQ s) (setQ (- getQ s) s) else setA45 (- g_a s) s)"

definition word45 :: "'b env45 \<Rightarrow> (bool \<Rightarrow> u16 \<Rightarrow> u16) \<Rightarrow> bool \<Rightarrow> ('b cpu45, u16) state \<Rightarrow> 'b exec45" where
  "word45 E f carries mode = do {
     a \<leftarrow> mode; v \<leftarrow> readWord45 E a; c \<leftarrow> reg45 carry45;
     (if carries then upd45 (putC45 (ucast (drop_bit 15 v))) else skip);
     write45 E a (lo8 (f c v)); write45 E (a + 1) (hi8 (f c v));
     upd45 (updateNZ16_45 (f c v)) }"

definition ext45 :: "'b env45 \<Rightarrow> bool \<Rightarrow> u8 \<Rightarrow> 'b exec45 \<Rightarrow> 'b exec45" where
  "ext45 E q op other =
     (if op = 0x42 then do { upd45 (neg45 q); cyc45 1 }
      else if op = 0x5C then opMAP E
      else if op = 0x7C then do { a \<leftarrow> getAbsX45 E; t \<leftarrow> readWord45 E a; upd45 (\<lambda>s. s\<lparr>g_pc := t\<rparr>); cyc45 2 }
      else if op = 0xE3 then word45 E (\<lambda>c v. v + 1) False (getZp45 E)
      else if op = 0xC3 then word45 E (\<lambda>c v. v - 1) False (getZp45 E)
      else if op = 0xCB then word45 E (\<lambda>c v. push_bit 1 v) True (getAbs45 E)
      else if op = 0xEB then word45 E (\<lambda>c v. push_bit 1 v OR (if c then 1 else 0)) True (getAbs45 E)
      else other)"

section \<open>The switch\<close>

definition opBRK45 :: "'b env45 \<Rightarrow> 'b exec45" where
  "opBRK45 E = do {
     upd45 (\<lambda>s. s\<lparr>g_pc := g_pc s + 1\<rparr>);
     pc \<leftarrow> reg45 g_pc;
     push8_45 E (hi8 pc); push8_45 E (lo8 pc);
     p \<leftarrow> reg45 g_p; push8_45 E (p OR FLAG_B);
     upd45 (\<lambda>s. clrP45 FLAG_D (setP45 FLAG_I s));
     t \<leftarrow> readWord45 E 0xFFFE;
     upd45 (\<lambda>s. s\<lparr>g_pc := t\<rparr>);
     cyc45 7 }"

definition control45 :: "'b env45 \<Rightarrow> u8 \<Rightarrow> 'b exec45 \<Rightarrow> 'b exec45" where
  "control45 E op other =
     (if op = 0x00 then opBRK45 E
      else if op = 0x02 then upd45 (clrP45 FLAG_E)
      else if op = 0x03 then upd45 (setP45 FLAG_E)
      else if op = 0x0B then upd45 (\<lambda>s. setY45 (ucast (drop_bit 8 (g_sp s) AND 0xFF)) s)
      else if op = 0x2B then upd45 (\<lambda>s. s\<lparr>g_sp := (g_sp s AND 0x00FF) OR push_bit 8 (ucast (g_y s))\<rparr>)
      else if op = 0xEA then upd45 (\<lambda>s. s\<lparr>g_mapInhibit := False\<rparr>)
      else other)"

definition exec45 :: "'b env45 \<Rightarrow> bool \<Rightarrow> bool \<Rightarrow> u8 \<Rightarrow> 'b exec45" where
  "exec45 E q i op =
     control45 E op (loadA45 E q i op (loadXYZ45 E op (store45 E q i op
     (adc45 E q i op (sbc45 E q i op (cmp45 E q i op (and45 E q i op (ora45 E q i op (eor45 E q i op
     (tsbAsr45 E q op (incdec45 E q op (transfer45 op (flags45 op (stack45 E op (flow45 E op (branches45 E op
     (cpxyz45 E op (bits45 E q op (asl45 E q op (lsr45 E q op (rol45 E q op (ror45 E q op (ext45 E q op
     (upd45 (\<lambda>s. s\<lparr>g_haltLine := True\<rparr>)))))))))))))))))))))))))"


section \<open>Disassembly lengths and the decoder\<close>

text \<open>
  \<open>disassembleOne\<close> without its text: the prefixes it skips, and the length it returns for an
  opcode and its operand.
\<close>

definition oneByte45 :: "u8 list" where
  "oneByte45 = [0x00, 0x02, 0x03, 0x0B, 0x2B, 0xAA, 0x8A, 0xA8, 0x98, 0xBA, 0x9A, 0x4B, 0x6B, 0x5B, 0x7B,
     0x18, 0x38, 0x58, 0x78, 0xD8, 0xF8, 0xB8, 0x08, 0x28, 0x48, 0x68, 0xDA, 0xFA, 0x5A, 0x7A, 0xDB, 0xFB, 0xEA,
     0x88, 0xC8, 0xCA, 0xE8, 0x0A, 0x4A, 0x2A, 0x6A, 0x43, 0x1B, 0x3B, 0x1A, 0x3A, 0x60, 0x40, 0x42, 0x5C]"

definition twoBytes45 :: "u8 list" where
  "twoBytes45 = [0x07, 0x17, 0x27, 0x37, 0x47, 0x57, 0x67, 0x77, 0x87, 0x97, 0xA7, 0xB7, 0xC7, 0xD7, 0xE7, 0xF7,
     0xA9, 0xA5, 0xB5, 0xE2, 0xA1, 0xB1, 0xB2, 0x85, 0x95, 0x82, 0x81, 0x91, 0x92,
     0x69, 0x65, 0x75, 0x61, 0x71, 0x72, 0xE9, 0xE5, 0xF5, 0xE1, 0xF1, 0xF2, 0xC9, 0xC5, 0xD5, 0xC1, 0xD1, 0xD2,
     0x29, 0x25, 0x35, 0x21, 0x31, 0x32, 0x09, 0x05, 0x15, 0x01, 0x11, 0x12, 0x49, 0x45, 0x55, 0x41, 0x51, 0x52,
     0x06, 0x16, 0x46, 0x56, 0x26, 0x36, 0x66, 0x76, 0x04, 0x14, 0x44, 0x54, 0xA2, 0xA6, 0xB6, 0xA0, 0xA4, 0xB4,
     0xA3, 0x86, 0x96, 0x84, 0x94, 0x64, 0x74, 0xE0, 0xE4, 0xC0, 0xC4, 0xC2, 0xD4, 0xE3, 0xC3, 0xE6, 0xF6, 0xC6, 0xD6,
     0x62, 0x80, 0xF0, 0xD0, 0xB0, 0x90, 0x10, 0x30, 0x50, 0x70, 0x89, 0x24, 0x34]"

definition threeBytes45 :: "u8 list" where
  "threeBytes45 = [0x0F, 0x1F, 0x2F, 0x3F, 0x4F, 0x5F, 0x6F, 0x7F, 0x8F, 0x9F, 0xAF, 0xBF, 0xCF, 0xDF, 0xEF, 0xFF,
     0xAD, 0xBD, 0xB9, 0x8D, 0x9D, 0x99, 0x6D, 0x7D, 0x79, 0xED, 0xFD, 0xF9, 0xCD, 0xDD, 0xD9, 0x2D, 0x3D, 0x39,
     0x0D, 0x1D, 0x19, 0x4D, 0x5D, 0x59, 0x0E, 0x1E, 0x4E, 0x5E, 0x2E, 0x3E, 0x6E, 0x7E, 0x0C, 0x1C, 0xAE, 0xBE,
     0xAC, 0xBC, 0xAB, 0xBB, 0x8E, 0x9B, 0x8B, 0x8C, 0x9C, 0x9E, 0xEC, 0xCC, 0xDC, 0xEE, 0xFE, 0xCE, 0xDE,
     0x20, 0x22, 0x23, 0x4C, 0x6C, 0x63, 0x7C, 0x2C, 0x3C, 0x83, 0xD3, 0xF3, 0x93, 0xB3, 0x13, 0x33, 0x53, 0x73,
     0xF4, 0xFC, 0xCB, 0xEB]"

definition opcodeLengths45 :: "u8 \<Rightarrow> nat" where
  "opcodeLengths45 op =
     (if op \<in> set threeBytes45 then 3 else if op \<in> set twoBytes45 then 2
      else if op \<in> set oneByte45 then 1 else 1)"

text \<open>The prefix loop of \<open>disassembleOne\<close>: the address of the opcode.\<close>

fun skipPrefixes45 :: "'b ibus \<Rightarrow> nat \<Rightarrow> u32 \<Rightarrow> ('b, u32) state" where
  "skipPrefixes45 ib 0 addr = State_Monad.return addr"
| "skipPrefixes45 ib (Suc n) addr = do {
     op \<leftarrow> ib_peek8 ib addr;
     quad \<leftarrow> (if op = 0x42 then do {
         second \<leftarrow> ib_peek8 ib (addr + 1);
         (if second = 0x42 then do {
            third \<leftarrow> ib_peek8 ib (addr + 2); State_Monad.return (\<not> isQuadImmediateOpcode third) }
          else State_Monad.return False) }
       else State_Monad.return False);
     (if quad then skipPrefixes45 ib n (addr + 2)
      else if op = 0xEA then do {
        following \<leftarrow> ib_peek8 ib (addr + 1);
        (if following \<in> set flatOpcodes then skipPrefixes45 ib n (addr + 1) else State_Monad.return addr) }
      else State_Monad.return addr) }"

definition disassembleLength45 :: "'b ibus \<Rightarrow> u32 \<Rightarrow> ('b, nat) state" where
  "disassembleLength45 ib addr = do {
     cur \<leftarrow> skipPrefixes45 ib 16 addr;
     op \<leftarrow> ib_peek8 ib cur;
     State_Monad.return (unat (cur - addr) + opcodeLengths45 op) }"

text \<open>The loop of \<open>prefixBytes45\<close> and \<open>isProgramEnd\<close>, which takes every \<open>NEG NEG\<close> for a prefix.\<close>

fun prefixEnd45 :: "'b ibus \<Rightarrow> nat \<Rightarrow> u32 \<Rightarrow> ('b, u32) state" where
  "prefixEnd45 ib 0 cur = State_Monad.return cur"
| "prefixEnd45 ib (Suc n) cur = do {
     op \<leftarrow> ib_peek8 ib cur;
     quad \<leftarrow> (if op = 0x42 then do { second \<leftarrow> ib_peek8 ib (cur + 1); State_Monad.return (second = 0x42) }
       else State_Monad.return False);
     (if quad then prefixEnd45 ib n (cur + 2)
      else if op = 0xEA then do {
        following \<leftarrow> ib_peek8 ib (cur + 1);
        (if following \<in> set flatOpcodes then prefixEnd45 ib n (cur + 1) else State_Monad.return cur) }
      else State_Monad.return cur) }"

definition stackOp45 :: "u8 \<Rightarrow> stack_op" where
  "stackOp45 op =
     (if op = 0x48 then PUSH_A else if op = 0xDA then PUSH_X else if op = 0x5A then PUSH_Y
      else if op = 0xDB then PUSH_Z else if op = 0x08 then PUSH_P
      else if op \<in> set [0x68, 0xFA, 0x7A, 0xFB, 0x28] then PULL
      else if op = 0x00 then STACK_BRK else NoStackOp)"

definition classify45 :: "u8 \<Rightarrow> disasm_entry \<Rightarrow> disasm_entry" where
  "classify45 op e = e\<lparr>de_isCall := (op = 0x20 \<or> op = 0x63 \<or> op = 0x22 \<or> op = 0x23),
     de_isReturn := (op = 0x60 \<or> op = 0x40 \<or> op = 0x62),
     de_isBranch := (op AND 0x1F = 0x10 \<or> op = 0x80 \<or> op = 0x83 \<or> op AND 0x1F = 0x13 \<or> op AND 0x0F = 0x0F),
     de_isIllegal := False, de_stackOp := stackOp45 op\<rparr>"

text \<open>The target from the operand bytes, as the text of the instruction shows it.\<close>

definition operandTarget45 :: "u32 \<Rightarrow> u8 list \<Rightarrow> u32" where
  "operandTarget45 addr b =
     (let op = b ! 0; word = mk16 (b ! 1) (b ! 2); at = ucast addr :: u16
      in if op AND 0x0F = 0x0F then ucast (rel_target (at + 3) (b ! 2))
         else if op AND 0x1F = 0x10 \<or> op = 0x80 then ucast (rel_target (at + 2) (b ! 1))
         else if op AND 0x1F = 0x13 \<or> op = 0x83 \<or> op = 0x63 then ucast (at + 3 + word)
         else if op = 0x20 \<or> op = 0x22 \<or> op = 0x23 \<or> op = 0x4C \<or> op = 0x6C then ucast word
         else 0)"

text \<open>
  \<open>disassembleEntry\<close>, the full path a prefixed instruction takes: the target is read back from the
  text, where the last \<open>$\<close> precedes the operand; the text itself is left out.
\<close>

definition disassembleEntry45 :: "'b ibus \<Rightarrow> u32 \<Rightarrow> ('b, disasm_entry) state" where
  "disassembleEntry45 ib addr = do {
     n \<leftarrow> disassembleLength45 ib addr;
     cur \<leftarrow> skipPrefixes45 ib 16 addr;
     raw \<leftarrow> peek_bytes ib cur 0 3;
     opAt \<leftarrow> prefixEnd45 ib 16 addr;
     op \<leftarrow> ib_peek8 ib opAt;
     let e = classify45 op \<lparr>de_addr = addr, de_bytes = n, de_mnemonic = [], de_isCall = False, de_isReturn = False,
       de_isBranch = False, de_isIllegal = False, de_targetAddr = 0, de_stackOp = NoStackOp, de_raw = []\<rparr>;
     State_Monad.return (e\<lparr>de_targetAddr :=
       (if de_isCall e \<or> de_isBranch e \<or> op = 0x4C \<or> op = 0x6C then operandTarget45 cur raw else 0)\<rparr>) }"


definition decodeEntry45 :: "'b ibus \<Rightarrow> u32 \<Rightarrow> ('b, disasm_entry) state" where
  "decodeEntry45 ib addr = do {
     op \<leftarrow> ib_peek8 ib addr;
     prefixed \<leftarrow> (if op = 0x42 \<or> op = 0xEA
       then do { cur \<leftarrow> prefixEnd45 ib 16 addr; State_Monad.return (unat (cur - addr) > 0) }
       else State_Monad.return False);
     (if prefixed then disassembleEntry45 ib addr
      else do {
        rest \<leftarrow> peek_bytes ib addr 1 (opcodeLengths45 op - 1);
        State_Monad.return (classify45 op \<lparr>de_addr = addr, de_bytes = opcodeLengths45 op, de_mnemonic = [],
          de_isCall = False, de_isReturn = False, de_isBranch = False, de_isIllegal = False,
          de_targetAddr = operandTarget45 addr (op # rest), de_stackOp = NoStackOp, de_raw = op # rest\<rparr>) }) }"

section \<open>One step\<close>

definition interrupt45 :: "'b env45 \<Rightarrow> u16 \<Rightarrow> ('b cpu45, nat) state" where
  "interrupt45 E vector = do {
     pc \<leftarrow> reg45 g_pc;
     push8_45 E (hi8 pc); push8_45 E (lo8 pc);
     p \<leftarrow> reg45 g_p; push8_45 E ((p AND NOT FLAG_B) OR FLAG_E);
     upd45 (setP45 FLAG_I);
     t \<leftarrow> readWord45 E vector;
     upd45 (\<lambda>s. s\<lparr>g_pc := t\<rparr>);
     cyc45 7;
     State_Monad.return 7 }"

definition tryHook45 :: "'b env45 \<Rightarrow> ('b cpu45, bool) state" where
  "tryHook45 E = (case ge_pcHook E of
     None \<Rightarrow> State_Monad.return False
   | Some h \<Rightarrow> do {
       pc \<leftarrow> reg45 g_pc;
       (if ph45_armed h pc then ph45_fire h pc else State_Monad.return False) })"

text \<open>The observer may stop the step; a decoded entry needs a bus.\<close>

definition observe45 :: "'b env45 \<Rightarrow> u16 \<Rightarrow> ('b cpu45, bool) state" where
  "observe45 E pc = (case ge_observer E of
     None \<Rightarrow> State_Monad.return True
   | Some ob \<Rightarrow>
       if ob45_needsDisasm ob then
         (case ge_bus E of
            None \<Rightarrow> State_Monad.return True
          | Some ib \<Rightarrow> do { entry \<leftarrow> mem45 (decodeEntry45 ib (ucast pc)); ob45_onStep ob entry })
       else do { ob45_onStepLite ob pc; State_Monad.return True })"

text \<open>Fetch, prefixes, execute; the result is the number of cycles counted since \<open>start\<close>.\<close>

definition instruction45 :: "'b env45 \<Rightarrow> ('b cpu45, unit) state" where
  "instruction45 E = do {
     r \<leftarrow> prefixes45 E 16 False False 0;
     exec45 E (fst (snd r)) (snd (snd r)) (fst r) }"

definition run45 :: "'b env45 \<Rightarrow> ('b cpu45, nat) state" where
  "run45 E = do {
     pc \<leftarrow> reg45 g_pc;
     start \<leftarrow> reg45 g_cycles;
     cont \<leftarrow> observe45 E pc;
     (if \<not> cont then State_Monad.return 1
      else do { instruction45 E; finish \<leftarrow> reg45 g_cycles; State_Monad.return (unat (finish - start)) }) }"

definition awake45 :: "'b env45 \<Rightarrow> ('b cpu45, nat) state" where
  "awake45 E = do {
     s \<leftarrow> reg45 id;
     (if g_nmiLine s \<and> \<not> g_nmiPrev s \<and> \<not> g_mapInhibit s then do {
        upd45 (\<lambda>s. s\<lparr>g_nmiPrev := True\<rparr>); interrupt45 E 0xFFFA }
      else do {
        upd45 (\<lambda>s. s\<lparr>g_nmiPrev := g_nmiLine s\<rparr>);
        (if g_irqLine s \<and> \<not> tst (g_p s) FLAG_I \<and> \<not> g_mapInhibit s then interrupt45 E 0xFFFE
         else do {
           fired \<leftarrow> tryHook45 E;
           (if fired then do { cyc45 6; State_Monad.return 6 } else run45 E) }) }) }"

definition step45 :: "'b env45 \<Rightarrow> ('b cpu45, nat) state" where
  "step45 E = do {
     halt \<leftarrow> (if ge_bus E \<noteq> None then mem45 (ge_haltRequested E) else State_Monad.return False);
     upd45 (\<lambda>s. s\<lparr>g_haltLine := halt\<rparr>);
     (if halt then State_Monad.return 1 else awake45 E) }"

section \<open>Debugger heuristics\<close>

definition isCallAt45 :: "'b ibus \<Rightarrow> u32 \<Rightarrow> ('b, int) state" where
  "isCallAt45 ib addr = do {
     op \<leftarrow> ib_peek8 ib addr; State_Monad.return (if op = 0x20 \<or> op = 0x22 \<or> op = 0x23 then 3 else 0) }"

definition isReturnAt45 :: "'b ibus \<Rightarrow> u32 \<Rightarrow> ('b, bool) state" where
  "isReturnAt45 ib addr = do {
     op \<leftarrow> ib_peek8 ib addr; State_Monad.return (op = 0x60 \<or> op = 0x40 \<or> op = 0x62) }"

definition emptyStackReturn45 :: "regs45 \<Rightarrow> 'b ibus \<Rightarrow> ('b, bool) state" where
  "emptyStackReturn45 s ib =
     (if g_sp s = 0x01FF then do {
        irqVec \<leftarrow> peek16 ib 0xFFFE;
        (if irqVec = 0x0000 \<or> irqVec = 0xFFFF then isReturnAt45 ib (ucast (g_pc s)) else State_Monad.return False) }
      else State_Monad.return False)"

definition jumpToSelf45 :: "regs45 \<Rightarrow> 'b ibus \<Rightarrow> ('b, bool) state" where
  "jumpToSelf45 s ib = do {
     addr \<leftarrow> prefixEnd45 ib 16 (ucast (g_pc s));
     op \<leftarrow> ib_peek8 ib addr;
     (if op = 0x4C then do { target \<leftarrow> peek16 ib (addr + 1); State_Monad.return (target = g_pc s) }
      else State_Monad.return False) }"

definition isProgramEnd45 :: "regs45 \<Rightarrow> 'b ibus option \<Rightarrow> ('b, bool) state" where
  "isProgramEnd45 s bus =
     (if g_hypervisor s then State_Monad.return False
      else if g_haltLine s then State_Monad.return True
      else (case bus of
          None \<Rightarrow> State_Monad.return False
        | Some ib \<Rightarrow> do {
            ret \<leftarrow> emptyStackReturn45 s ib;
            (if ret then State_Monad.return True else jumpToSelf45 s ib) }))"

definition writeCallHarness45 :: "'b ibus \<Rightarrow> u32 \<Rightarrow> u32 \<Rightarrow> ('b, nat) state" where
  "writeCallHarness45 ib scratch routineAddr = do {
     ib_write8 ib scratch 0x20;
     ib_write8 ib (scratch + 1) (ucast (routineAddr AND 0xFF));
     ib_write8 ib (scratch + 2) (ucast (drop_bit 8 routineAddr));
     ib_write8 ib (scratch + 3) 0x00;
     State_Monad.return 4 }"

end
