(* ===== verification/Cpu45Arith.thy ===== *)
theory Cpu45Arith
  imports Cpu45Exec Cpu6502Arith
begin

text \<open>
  The arithmetic of the 45GS02: on bytes it refines that of the 6502 (\<open>Cpu6502Ops\<close>) under the map that
  forgets the registers the 6502 has not; on Q it is arithmetic on 32-bit integers.
\<close>

section \<open>The 6502 inside\<close>

definition to6502 :: "regs45 \<Rightarrow> cpu6502_state" where
  "to6502 s = \<lparr>reg_a = g_a s, reg_x = g_x s, reg_y = g_y s, reg_sp = lo8 (g_sp s), reg_pc = g_pc s, reg_p = g_p s,
     st_cycles = g_cycles s, st_irqLine = g_irqLine s, st_nmiLine = g_nmiLine s, st_nmiPrev = g_nmiPrev s,
     st_haltLine = g_haltLine s, st_waiting = False, st_stopped = False\<rparr>"

lemma to6502_sel [simp]:
  "reg_a (to6502 s) = g_a s" "reg_x (to6502 s) = g_x s" "reg_y (to6502 s) = g_y s" "reg_p (to6502 s) = g_p s"
  "reg_pc (to6502 s) = g_pc s"
  by (simp_all add: to6502_def)

lemma to6502_flags [simp]:
  "to6502 (clrP45 m s) = clrP m (to6502 s)" "to6502 (setP45 m s) = setP m (to6502 s)"
  "to6502 (orIf45 b m s) = setIf b m (to6502 s)"
  "to6502 (s\<lparr>g_a := v\<rparr>) = (to6502 s)\<lparr>reg_a := v\<rparr>"
  by (simp_all add: to6502_def clrP45_def clrP_def setP45_def setP_def orIf45_def setIf_def)

lemma to6502_updateNZ [simp]: "to6502 (updateNZ45 v s) = updateNZ v (to6502 s)"
  by (simp add: updateNZ45_def updateNZ_def)

lemma to6502_setA [simp]: "to6502 (setA45 v s) = set_a v (to6502 s)"
  by (simp add: setA45_def set_a_def)

lemma cpu6502_eqI:
  assumes "\<And>n. n < 8 \<Longrightarrow> bit (reg_p s) n = bit (reg_p t) n" and "s\<lparr>reg_p := 0\<rparr> = t\<lparr>reg_p := 0\<rparr>"
  shows "s = t"
proof -
  have "reg_p s = reg_p t" by (rule u8_eqI) (rule assms(1))
  then have "s = (t\<lparr>reg_p := 0\<rparr>)\<lparr>reg_p := reg_p t\<rparr>" unfolding assms(2) [symmetric] by simp
  then show ?thesis by simp
qed

lemma regs_but_p [simp]:
  "(setIf b m s)\<lparr>reg_p := w\<rparr> = s\<lparr>reg_p := w\<rparr>" "(clrP m s)\<lparr>reg_p := w\<rparr> = s\<lparr>reg_p := w\<rparr>"
  "(updateNZ v s)\<lparr>reg_p := w\<rparr> = s\<lparr>reg_p := w\<rparr>"
  "(setIf b m s)\<lparr>reg_a := a, reg_p := w\<rparr> = s\<lparr>reg_a := a, reg_p := w\<rparr>"
  "(clrP m s)\<lparr>reg_a := a, reg_p := w\<rparr> = s\<lparr>reg_a := a, reg_p := w\<rparr>"
  "(updateNZ v s)\<lparr>reg_a := a, reg_p := w\<rparr> = s\<lparr>reg_a := a, reg_p := w\<rparr>"
  by (simp_all add: setIf_def setP_def clrP_def updateNZ_def)

lemma masks_bits [simp]:
  "bit (0x41 :: int) n \<longleftrightarrow> n = 6 \<or> n = 0"
  "bit (0xC3 :: int) n \<longleftrightarrow> n = 7 \<or> n = 6 \<or> n = 1 \<or> n = 0"
proof -
  have "(0x41 :: int) = 0x40 OR 1" "(0xC3 :: int) = 0x80 OR 0x40 OR 0x02 OR 1" by simp_all
  then show "bit (0x41 :: int) n \<longleftrightarrow> n = 6 \<or> n = 0" "bit (0xC3 :: int) n \<longleftrightarrow> n = 7 \<or> n = 6 \<or> n = 1 \<or> n = 0"
    by (simp_all only: bit_or_iff bit_pow_int bit_1_iff)
qed

lemma adcBin_6502: "to6502 (adcBin45 v s) = add_binary v (to6502 s)"
  unfolding adcBin45_def add_binary_def Let_def to6502_setA to6502_flags set_a_def carry_def to6502_sel unsigned_xor_eq
  by (rule cpu6502_eqI) (auto simp: flag_bits unsigned_xor_eq)


section \<open>Decimal mode\<close>

lemma uint_add32: "uint x + uint y < 4294967296 \<Longrightarrow> uint (x + y :: u32) = uint x + uint y"
  by (simp add: uint_word_ariths)

lemma uint_ucast32 [simp]: "uint (ucast (a :: u8) :: u32) = uint a"
  using uint_u8 [of a] by (simp add: unsigned_ucast_eq take_bit_int_eq_self)

lemma nibbles_int: "0 \<le> (x :: int) AND 0x0F" "x AND 0x0F \<le> 15" "0 \<le> x \<Longrightarrow> 0 \<le> x AND 0xF0"
  "0 \<le> x \<Longrightarrow> x AND 0xF0 \<le> 240"
  by (simp_all add: AND_upper2)

lemma and_low: "(x :: int) AND 0x0F = x mod 16" "x AND 0x1F = x mod 32" "x AND 0xFF = x mod 256"
  using take_bit_eq_mask [of 4 x] take_bit_eq_mask [of 5 x] take_bit_eq_mask [of 8 x]
  by (simp_all add: take_bit_eq_mod mask_eq_exp_minus_1)

lemma int_bit7: "(t AND 0x80 \<noteq> 0) \<longleftrightarrow> bit (t :: int) 7"
  using and_exp_eq_0_iff_not_bit [of t 7] by simp

text \<open>The low nibble with its carry, and the sum before the high digit is corrected.\<close>

definition dec_lo :: "int \<Rightarrow> int \<Rightarrow> int \<Rightarrow> int" where
  "dec_lo a m c = (let lo0 = (a AND 0x0F) + (m AND 0x0F) + c
     in if lo0 \<ge> 0x0A then ((lo0 + 0x06) AND 0x0F) + 0x10 else lo0)"

definition dec_t :: "int \<Rightarrow> int \<Rightarrow> int \<Rightarrow> int" where
  "dec_t a m c = (a AND 0xF0) + (m AND 0xF0) + dec_lo a m c"

lemma dec_t_range:
  assumes "0 \<le> a" "0 \<le> m" "0 \<le> c" "c \<le> 1" shows "0 \<le> dec_t a m c" "dec_t a m c < 512"
  unfolding dec_t_def dec_lo_def Let_def
  using assms(3,4) nibbles_int(1,2) [of a] nibbles_int(1,2) [of m] nibbles_int(3,4) [OF assms(1)] nibbles_int(3,4) [OF assms(2)]
    nibbles_int(1,2) [of "(a AND 0x0F) + (m AND 0x0F) + c + 6"]
  by (split if_split; linarith)+

lemma dec_t_word:
  assumes c: "uint (c :: u32) \<le> 1"
    and lo: "lo0 = (ucast (a :: u8) AND 0x0F) + (ucast (v :: u8) AND 0x0F) + c" "lo = (if lo0 > 9 then lo0 + 6 else lo0)"
  shows "uint ((lo AND 0x0F) + (ucast a AND 0xF0) + (ucast v AND 0xF0) + (if lo < 0x10 then 0 else 0x10 :: u32))
    = dec_t (uint a) (uint v) (uint c)"
proof -
  have n: "uint (w AND 0x0F) = uint w AND 0x0F" "uint (w AND 0xF0) = uint w AND 0xF0" for w :: u32
    by (simp_all add: unsigned_and_eq)
  have ge: "0 \<le> uint a" "0 \<le> uint v" by simp_all
  note r = nibbles_int(1,2) [of "uint a"] nibbles_int(1,2) [of "uint v"] uint_ge_0 [of c] c
  note h = nibbles_int(3,4) [OF ge(1)] nibbles_int(3,4) [OF ge(2)]
  define L where "L = (uint a AND 0x0F) + (uint v AND 0x0F) + uint c"
  have L: "0 \<le> L" "L \<le> 31" unfolding L_def using r by linarith+
  have lo0: "uint lo0 = L"
  proof -
    have "uint (ucast a AND 0x0F :: u32) + uint (ucast v AND 0x0F :: u32) < 4294967296"
      unfolding n uint_ucast32 using r by linarith
    then have s: "uint ((ucast a AND 0x0F) + (ucast v AND 0x0F) :: u32) = (uint a AND 0x0F) + (uint v AND 0x0F)"
      by (simp only: uint_add32 n uint_ucast32)
    show ?thesis unfolding lo(1) L_def
      by (subst uint_add32) (use r in \<open>unfold s, linarith, simp\<close>)
  qed
  have gt: "lo0 > 9 \<longleftrightarrow> L \<ge> 10" using lo0 by (auto simp: word_less_def)
  have ulo: "uint lo = (if L \<ge> 10 then L + 6 else L)"
    using L lo0 gt by (simp add: lo(2) uint_add32)
  have lt: "lo < 0x10 \<longleftrightarrow> L < 10" using L ulo by (auto simp: word_less_def)
  define T where "T = (if L \<ge> 10 then ((L + 6) AND 15) + 16 else L)"
  have T: "uint (lo AND 0x0F) + uint (if lo < 0x10 then 0 else 0x10 :: u32) = T"
    unfolding n ulo lt T_def using L by (simp add: and_low)
  have d: "uint (if lo < 0x10 then 0 else 0x10 :: u32) \<le> 16" by simp
  have small: "uint (lo AND 0x0F) + (uint a AND 0xF0) < 4294967296"
    "uint (lo AND 0x0F) + (uint a AND 0xF0) + (uint v AND 0xF0) < 4294967296"
    "uint (lo AND 0x0F) + (uint a AND 0xF0) + (uint v AND 0xF0) + uint (if lo < 0x10 then 0 else 0x10 :: u32) < 4294967296"
    unfolding n using h nibbles_int(1,2) [of "uint lo"] d by linarith+
  have "uint ((lo AND 0x0F) + (ucast a AND 0xF0) + (ucast v AND 0xF0) + (if lo < 0x10 then 0 else 0x10 :: u32))
      = uint (lo AND 0x0F) + (uint a AND 0xF0) + (uint v AND 0xF0) + uint (if lo < 0x10 then 0 else 0x10 :: u32)"
    using small by (simp only: uint_add32 n(2) uint_ucast32)
  then show ?thesis using T by (simp add: dec_t_def dec_lo_def L_def T_def)
qed


lemma uint_and_1f: "uint (drop_bit 4 w AND 0x1F :: u32) = uint w div 16 mod 32"
proof -
  have "uint (drop_bit 4 w AND 0x1F) = uint (drop_bit 4 w) AND 0x1F" by (simp only: unsigned_and_eq) simp
  moreover have "uint (drop_bit 4 w) = uint w div 16" by (simp add: drop_bit_eq_div uint_div_distrib)
  ultimately show ?thesis by (simp only: and_low)
qed

lemma bit_uint7: "bit (w :: u32) 7 \<longleftrightarrow> bit (uint w) 7" "bit (a :: u8) 7 \<longleftrightarrow> bit (uint a) 7"
  by (simp_all add: bit_uint_iff)

lemma adjust_iff:
  assumes "uint (t :: u32) = T" "T < 512" shows "drop_bit 4 t AND 0x1F > 9 \<longleftrightarrow> 160 \<le> T"
proof -
  have "0 \<le> T" using assms(1) uint_ge_0 [of t] by simp
  then have "uint t div 16 mod 32 = T div 16" using assms by simp
  then show ?thesis unfolding word_less_def uint_and_1f by (simp, linarith)
qed

lemma uint_low_byte: "uint (w AND 0xFF :: u32) = uint w mod 256" "uint (ucast w :: u8) = uint (w :: u32) mod 256"
proof -
  have "uint (w AND 0xFF) = uint w AND 0xFF" by (simp only: unsigned_and_eq) simp
  then show "uint (w AND 0xFF) = uint w mod 256" by (simp add: and_low)
  show "uint (ucast w :: u8) = uint w mod 256" by (simp add: unsigned_ucast_eq take_bit_eq_mod)
qed

lemma corrected_word:
  assumes "uint (t :: u32) = T" "T < 512"
  shows "ucast (if 160 \<le> T then (t + 0x60) AND 0xFF else t) = (word_of_int (if 160 \<le> T then T + 0x60 else T) :: u8)"
proof (rule word_uint_eqI)
  have "uint (t + 0x60) = T + 0x60" using assms by (subst uint_add32) simp_all
  then show "uint (ucast (if 160 \<le> T then (t + 0x60) AND 0xFF else t) :: u8)
    = uint (word_of_int (if 160 \<le> T then T + 0x60 else T) :: u8)"
    unfolding word_of_int_uint_u8 uint_low_byte using assms uint_ge_0 [of t] by (simp add: uint_low_byte)
qed

lemma adcDec_6502: "to6502 (adcDec45 v s) = adc_decimal_nmos v (to6502 s)"
proof -
  define a where "a = g_a s"
  define c :: u32 where "c = ucast (g_p s AND FLAG_C)"
  define lo0 :: u32 where "lo0 = (ucast a AND 0x0F) + (ucast v AND 0x0F) + c"
  define lo where "lo = (if lo0 > 9 then lo0 + 6 else lo0)"
  define t where "t = (lo AND 0x0F) + (ucast a AND 0xF0) + (ucast v AND 0xF0) + (if lo < 0x10 then 0 else 0x10)"
  have c: "uint c = uint (carry (to6502 s))" by (simp add: c_def carry_def)
  have c1: "uint c \<le> 1" unfolding c uint_carry_cin by (simp add: cin_def)
  have T: "uint t = dec_t (uint a) (uint v) (uint c)"
    unfolding t_def by (rule dec_t_word [OF c1 lo0_def lo_def])
  have T5: "dec_t (uint a) (uint v) (uint c) < 512" using c1 by (intro dec_t_range) simp_all
  have Z: "(ucast a + ucast v + c) AND 0xFF = 0 \<longleftrightarrow> (word_of_int (uint a + uint v + uint c) :: u8) = 0"
  proof -
    have s: "uint (ucast a + ucast v + c) = uint a + uint v + uint c"
      using uint_u8 [of a] uint_u8 [of v] c1 uint_ge_0 [of c] by (simp add: uint_add32)
    show ?thesis unfolding word_uint_eq_iff uint_low_byte word_of_int_uint_u8 s by simp
  qed
  have N: "tst t 0x80 \<longleftrightarrow> dec_t (uint a) (uint v) (uint c) AND 0x80 \<noteq> 0"
    unfolding int_bit7 T [symmetric] tst_bit bit_uint7 ..
  have V: "tst (ucast a XOR t) 0x80 \<and> \<not> tst (a XOR v) 0x80 \<longleftrightarrow>
      NOT (uint a XOR uint v) AND (uint a XOR dec_t (uint a) (uint v) (uint c)) AND 0x80 \<noteq> 0"
    unfolding and.assoc [symmetric] int_bit7 T [symmetric] tst_bit
    by (auto simp: bit_simps bit_uint_iff)
  note adj = adjust_iff [OF T T5] corrected_word [OF T T5]
  have C: "0x100 \<le> (if 160 \<le> T then T + 0x60 else T) \<longleftrightarrow> 160 \<le> T" for T :: int by simp
  have lhs: "to6502 (adcDec45 v s) = (let T = dec_t (uint a) (uint v) (uint c);
      s1 = clrP (FLAG_N OR FLAG_V OR FLAG_Z OR FLAG_C) (to6502 s);
      s2 = setIf ((word_of_int (uint a + uint v + uint c) :: u8) = 0) FLAG_Z s1;
      s3 = setIf (T AND 0x80 \<noteq> 0) FLAG_N s2;
      s4 = setIf (NOT (uint a XOR uint v) AND (uint a XOR T) AND 0x80 \<noteq> 0) FLAG_V s3
      in (setIf (160 \<le> T) FLAG_C s4)\<lparr>reg_a := word_of_int (if 160 \<le> T then T + 0x60 else T)\<rparr>)"
    unfolding adcDec45_def Let_def a_def [symmetric] c_def [symmetric] lo0_def [symmetric] lo_def [symmetric] t_def [symmetric]
    by (simp only: to6502_flags adj Z N V)
  show ?thesis
    unfolding lhs adc_decimal_nmos_def Let_def to6502_sel a_def [symmetric] c [symmetric]
      dec_t_def [unfolded dec_lo_def Let_def, symmetric] C
    by (rule cpu6502_eqI) auto
qed


section \<open>Subtraction\<close>

definition borrow_in :: "regs45 \<Rightarrow> int" where
  "borrow_in s = (if carry45 s then 0 else 1)"

definition difference :: "u8 \<Rightarrow> u8 \<Rightarrow> regs45 \<Rightarrow> int" where
  "difference a v s = uint a - uint v - borrow_in s"

lemma difference_range: "- 256 \<le> difference a v s" "difference a v s < 256"
  unfolding difference_def borrow_in_def using uint_u8 [of a] uint_u8 [of v] by (split if_split; linarith)+

lemma uint_of_int16: "uint (word_of_int x :: u16) = x mod 65536"
  by (simp add: unsigned_of_int take_bit_eq_mod)

lemma ucast_of_uint: "(ucast (x :: u8) :: u16) = word_of_int (uint x)"
  by (rule word_uint_eqI) (use uint_u8 [of x] in \<open>simp add: uint_of_int16\<close>)

lemma diff_word: "ucast a - ucast v - (if carry45 s then 0 else 1) = (word_of_int (difference a v s) :: u16)"
  unfolding ucast_of_uint difference_def borrow_in_def by (split if_split) (simp only: of_int_diff of_int_0 of_int_1, simp)

lemma carry_borrow: "uint (carry (to6502 s)) = 1 - borrow_in s"
  by (simp add: uint_carry_cin cin_def borrow_in_def carry45_def flag_bits)

lemma sum_word:
  "ucast a + ucast (v XOR 0xFF) + ucast (carry (to6502 s)) = (word_of_int (difference a v s + 256) :: u16)"
proof (rule word_uint_eqI)
  have "uint (ucast a + ucast (v XOR 0xFF) + ucast (carry (to6502 s)) :: u16) = uint a + (255 - uint v) + (1 - borrow_in s)"
    unfolding carry_borrow [symmetric] uint_not_u8 [symmetric]
    by (subst sum16) (simp_all add: uint_carry_cin cin_def)
  also have "\<dots> = difference a v s + 256" by (simp add: difference_def)
  also have "\<dots> = (difference a v s + 256) mod 65536" using difference_range [of a v s] by (intro mod_pos_pos_trivial [symmetric]) linarith+
  finally show "uint (ucast a + ucast (v XOR 0xFF) + ucast (carry (to6502 s)) :: u16)
      = uint (word_of_int (difference a v s + 256) :: u16)" unfolding uint_of_int16 .
qed

lemma bit_of_int16: "n < 16 \<Longrightarrow> bit (word_of_int x :: u16) n \<longleftrightarrow> bit x n"
  by (simp add: bit_word_of_int_iff)

lemma bit7_shift: "bit (D + 256 :: int) 7 \<longleftrightarrow> bit D 7"
proof -
  have "(D + 256) div 128 = D div 128 + 2" using div_mult_self2 [of 128 D 2] by simp
  then show ?thesis by (simp add: bit_iff_odd)
qed

lemma no_borrow:
  assumes "- 256 \<le> D" "D < 256"
  shows "(word_of_int D :: u16) \<le> 0xFF \<longleftrightarrow> 0 \<le> D" "(word_of_int (D + 256) :: u16) > 0xFF \<longleftrightarrow> 0 \<le> D"
proof -
  have "D mod 65536 = (if 0 \<le> D then D else D + 65536)"
    using assms mod_add_self2 [of D 65536] mod_pos_pos_trivial [of "D + 65536" 65536] by auto
  then show "(word_of_int D :: u16) \<le> 0xFF \<longleftrightarrow> 0 \<le> D"
    unfolding word_le_def uint_of_int16 using assms by simp
  have "(D + 256) mod 65536 = D + 256" using assms by simp
  then show "(word_of_int (D + 256) :: u16) > 0xFF \<longleftrightarrow> 0 \<le> D"
    unfolding word_less_def uint_of_int16 by (simp, linarith)
qed

lemma low_byte_shift: "ucast (word_of_int (D + 256) :: u16) = (ucast (word_of_int D :: u16) :: u8)"
proof (rule word_uint_eqI)
  have "x mod 65536 mod 256 = x mod 256" for x :: int by (simp add: mod_mod_cancel)
  then show "uint (ucast (word_of_int (D + 256) :: u16) :: u8) = uint (ucast (word_of_int D :: u16) :: u8)"
    unfolding uint_ucast16_8 uint_of_int16 by (metis mod_add_self2)
qed

lemma difference_flags:
  fixes a v :: u8
  shows "tst (ucast (a XOR v) AND (ucast a XOR (word_of_int D :: u16))) 0x80 \<longleftrightarrow>
      tst (NOT (ucast a XOR ucast (v XOR 0xFF)) AND (ucast a XOR (word_of_int (D + 256) :: u16))) 0x80"
proof -
  have f: "bit (0xFF :: u8) 7" by (simp add: flag_bits)
  have u: "bit (ucast x :: u16) 7 \<longleftrightarrow> bit x 7" for x :: u8 by (simp add: bit_simps)
  have n: "bit (NOT w :: u16) 7 \<longleftrightarrow> \<not> bit w 7" for w by (simp add: bit_simps)
  show ?thesis
    unfolding tst_bit bit_and_iff bit_xor_iff n u bit_of_int16 [of 7, simplified] bit7_shift using f by blast
qed

lemma sbcBin_6502: "to6502 (sbcBin45 v s) = add_binary (v XOR 0xFF) (to6502 s)"
  unfolding sbcBin45_def add_binary_def Let_def to6502_setA to6502_flags set_a_def to6502_sel
    diff_word sum_word low_byte_shift difference_flags no_borrow [OF difference_range]
  by (rule cpu6502_eqI) (auto simp: flag_bits)


lemma uint_and32: "uint (w AND 0x0F :: u32) = uint w mod 16" "uint (w AND 0x1F :: u32) = uint w mod 32"
  "uint (w AND 0x1FF :: u32) = uint w mod 512"
proof -
  have "uint (w AND 0x0F) = uint w AND 0x0F" "uint (w AND 0x1F) = uint w AND 0x1F" "uint (w AND 0x1FF) = uint w AND 0x1FF"
    by (simp_all only: unsigned_and_eq) simp_all
  moreover have "(x :: int) AND 0x1FF = x mod 512" for x
    using take_bit_eq_mask [of 9 x] by (simp add: take_bit_eq_mod mask_eq_exp_minus_1)
  ultimately show "uint (w AND 0x0F) = uint w mod 16" "uint (w AND 0x1F) = uint w mod 32" "uint (w AND 0x1FF) = uint w mod 512"
    by (simp_all only: and_low)
qed

lemma uint_of_int32: "uint (word_of_int x :: u32) = x mod 4294967296"
  by (simp add: unsigned_of_int take_bit_eq_mod)

lemma digits_word:
  "uint ((w AND 0x0F) OR push_bit 4 (z AND 0x1F) :: u32) = uint w mod 16 + 16 * (uint z mod 32)"
proof -
  have b: "bit (0x0F :: u32) n \<longleftrightarrow> n < 4" for n by (auto simp: flag_bits)
  have "(w AND 0x0F) + push_bit 4 (z AND 0x1F) = (w AND 0x0F) OR push_bit 4 (z AND 0x1F)"
    by (rule disjunctive_add) (auto simp only: bit_and_iff bit_push_bit_iff b)
  moreover have p: "uint (push_bit 4 (z AND 0x1F)) = 16 * (uint z mod 32)"
  proof -
    have "uint (push_bit 4 (z AND 0x1F)) = (uint (z AND 0x1F) * 16) mod 4294967296"
      by (simp only: push_bit_eq_mult uint_word_ariths) simp
    moreover have "0 \<le> uint z mod 32" "uint z mod 32 < 32" by simp_all
    ultimately show ?thesis unfolding uint_and32 by simp
  qed
  moreover have "uint ((w AND 0x0F) + push_bit 4 (z AND 0x1F)) = uint (w AND 0x0F) + uint (push_bit 4 (z AND 0x1F))"
  proof (rule uint_add32)
    have "uint w mod 16 < 16" "uint z mod 32 < 32" by simp_all
    then show "uint (w AND 0x0F) + uint (push_bit 4 (z AND 0x1F)) < 4294967296" unfolding p uint_and32 by linarith
  qed
  ultimately show ?thesis by (simp only: uint_and32)
qed

lemma bit_small:
  assumes "- 16 \<le> x" "x < (16 :: int)" shows "bit x 4 \<longleftrightarrow> x < 0"
proof -
  have "x div 16 = (if x < 0 then - 1 else 0)"
    using assms div_pos_pos_trivial [of x 16] div_pos_neg_trivial [of "x" 16] by (auto simp: div_eq_minus1)
  then show ?thesis by (simp add: bit_iff_odd)
qed


text \<open>The corrected difference: as the code computes it, and as the 6502 model does.\<close>

definition dec_diff_word :: "u8 \<Rightarrow> u8 \<Rightarrow> u32 \<Rightarrow> u32" where
  "dec_diff_word a v b =
     (let d0 = ((ucast a AND 0x0F) - (ucast v AND 0x0F) - b) AND 0x1FF;
          d1 = (if tst d0 0x10
                then (((d0 AND 0x0F) - 6) AND 0x0F) OR push_bit 4 ((ucast (drop_bit 4 a) - ucast (drop_bit 4 v) - 1) AND 0x1F)
                else (d0 AND 0x0F) OR push_bit 4 ((ucast (drop_bit 4 a) - ucast (drop_bit 4 v)) AND 0x1F))
      in if tst d1 0x100 then (d1 - 0x60) AND 0x1FF else d1)"

definition dec_diff :: "int \<Rightarrow> int \<Rightarrow> int \<Rightarrow> int" where
  "dec_diff a v b =
     (let lo0 = (a AND 0x0F) - (v AND 0x0F) - b;
          lo = (if lo0 < 0 then ((lo0 - 0x06) AND 0x0F) - 0x10 else lo0);
          r = (a AND 0xF0) - (v AND 0xF0) + lo
      in if r < 0 then r - 0x60 else r)"

lemma and_f0:
  assumes "0 \<le> x" "x < 256" shows "(x :: int) AND 0xF0 = 16 * (x div 16)"
proof -
  have "(0xF0 :: int) = push_bit 4 (mask 4)" by (simp add: mask_eq_exp_minus_1 push_bit_eq_mult)
  moreover have "x AND push_bit 4 (mask 4) = push_bit 4 (take_bit 4 (drop_bit 4 x))"
    by (rule bit_eqI) (auto simp: bit_simps)
  ultimately have "x AND 0xF0 = push_bit 4 (take_bit 4 (drop_bit 4 x))" by (simp only:)
  also have "\<dots> = 16 * (x div 16 mod 16)"
    by (simp add: push_bit_eq_mult take_bit_eq_mod drop_bit_eq_div)
  also have "x div 16 mod 16 = x div 16" using assms by (intro mod_pos_pos_trivial) linarith+
  finally show ?thesis .
qed

lemma uint_diff32: "uint (x - y :: u32) = (uint x - uint y) mod 4294967296"
  by (simp add: uint_word_ariths)

lemma high_word:
  assumes "b = 0 \<or> b = 1"
  shows "uint ((ucast (drop_bit 4 (a :: u8)) - ucast (drop_bit 4 (v :: u8)) - b) AND 0x1F :: u32)
    = (uint a div 16 - uint v div 16 - uint b) mod 32"
proof -
  have h: "uint (drop_bit 4 x) = uint x div 16" for x :: u8 by (simp add: drop_bit_eq_div uint_div_distrib)
  show ?thesis unfolding uint_and32 uint_diff32 uint_ucast32 h by (simp add: mod_diff_left_eq mod_mod_cancel)
qed


lemma bit_low512: "n < 9 \<Longrightarrow> bit (x mod 512 :: int) n \<longleftrightarrow> bit x n"
  using bit_take_bit_iff [of 9 x n] by (simp add: take_bit_eq_mod)

lemma bit8_high:
  assumes "0 \<le> y" "y < (512 :: int)" shows "bit y 8 \<longleftrightarrow> 256 \<le> y"
proof -
  have "y div 256 = (if 256 \<le> y then 1 else 0)" using assms by auto
  then show ?thesis by (simp add: bit_iff_odd)
qed

text \<open>Both forms give the digits \<open>L\<close> and \<open>H\<close>, and correct a borrow from \<open>H\<close>.\<close>

lemma corrected_diff:
  assumes L: "0 \<le> L" "L < 16" and H: "- 16 \<le> H" "H < 16" and d: "uint (d :: u32) = L + 16 * (H mod 32)"
  shows "ucast (if tst d 0x100 then (d - 0x60) AND 0x1FF else d) =
    (word_of_int (if L + 16 * H < 0 then L + 16 * H - 0x60 else L + 16 * H) :: u8)"
proof (rule word_uint_eqI)
  have m: "H mod 32 = (if H < 0 then H + 32 else H)"
    using H mod_add_self2 [of H 32] mod_pos_pos_trivial [of "H + 32" 32] by auto
  have "tst d 0x100 \<longleftrightarrow> bit (uint d) 8" by (simp add: tst_bit bit_uint_iff)
  also have "\<dots> \<longleftrightarrow> 256 \<le> uint d" using L H by (intro bit8_high) (auto simp: d m)
  also have "\<dots> \<longleftrightarrow> H < 0" using L H by (auto simp: d m)
  finally have t: "tst d 0x100 \<longleftrightarrow> H < 0" .
  have neg: "L + 16 * H < 0 \<longleftrightarrow> H < 0" using L by auto
  show "uint (ucast (if tst d 0x100 then (d - 0x60) AND 0x1FF else d) :: u8) =
      uint (word_of_int (if L + 16 * H < 0 then L + 16 * H - 0x60 else L + 16 * H) :: u8)"
  proof (cases "H < 0")
    case True
    have "(L + 16 * (H + 32) - 0x60) mod 256 = (L + 16 * H - 0x60) mod 256"
      using mod_mult_self2 [of "L + 16 * H - 0x60" 256 2] by (simp add: algebra_simps)
    then show ?thesis
      using True by (simp only: t neg if_True uint_low_byte uint_and32 uint_diff32 word_of_int_uint_u8 d m)
        (simp add: mod_mod_cancel)
  qed (simp only: t neg if_False uint_low_byte word_of_int_uint_u8 d m)
qed

lemma dec_diff_equal:
  assumes b: "b = 0 \<or> b = 1"
  shows "ucast (dec_diff_word a v b) = (word_of_int (dec_diff (uint a) (uint v) (uint b)) :: u8)"
proof -
  define x where "x = uint a mod 16 - uint v mod 16 - uint b"
  define h where "h = uint a div 16 - uint v div 16"
  define d0 where "d0 = ((ucast a AND 0x0F) - (ucast v AND 0x0F) - b) AND 0x1FF"
  have ub: "uint b = 0 \<or> uint b = 1" using b by auto
  have x: "- 16 \<le> x" "x < 16"
  proof -
    have "0 \<le> uint a mod 16" "uint a mod 16 < 16" "0 \<le> uint v mod 16" "uint v mod 16 < 16" by simp_all
    then show "- 16 \<le> x" "x < 16" unfolding x_def using ub by linarith+
  qed
  have h: "- 15 \<le> h" "h < 16"
  proof -
    have "0 \<le> uint a div 16" "uint a div 16 < 16" "0 \<le> uint v div 16" "uint v div 16 < 16"
      using uint_u8 [of a] uint_u8 [of v] by (simp_all add: pos_imp_zdiv_nonneg_iff)
    then show "- 15 \<le> h" "h < 16" unfolding h_def by linarith+
  qed
  have d0: "uint d0 = x mod 512"
    unfolding d0_def uint_and32 uint_diff32 uint_ucast32 x_def by (simp add: mod_diff_left_eq mod_mod_cancel)
  have neg: "tst d0 0x10 \<longleftrightarrow> x < 0"
  proof -
    have "tst d0 0x10 \<longleftrightarrow> bit (uint d0) 4" by (simp add: tst_bit bit_uint_iff)
    then show ?thesis using x by (simp add: d0 bit_low512 bit_small)
  qed
  have high: "uint ((ucast (drop_bit 4 a) - ucast (drop_bit 4 v) - 1) :: u32) mod 32 = (h - 1) mod 32"
    "uint ((ucast (drop_bit 4 a) - ucast (drop_bit 4 v)) :: u32) mod 32 = h mod 32"
    using high_word [of 1 a v] high_word [of 0 a v] by (simp_all add: uint_and32 h_def)
  have low: "uint ((d0 AND 0x0F) - 6) mod 16 = (x - 6) mod 16" "uint d0 mod 16 = x mod 16"
    unfolding uint_diff32 uint_and32 d0 by (simp_all add: mod_mod_cancel mod_diff_left_eq)
  have rhs: "dec_diff (uint a) (uint v) (uint b) =
      (let y = (if x < 0 then (x - 6) mod 16 + 16 * (h - 1) else x + 16 * h) in if y < 0 then y - 0x60 else y)"
  proof -
    have l: "(uint a AND 0x0F) - (uint v AND 0x0F) - uint b = x" by (simp only: and_low x_def)
    have f: "(uint a AND 0xF0) - (uint v AND 0xF0) = 16 * h"
      unfolding h_def and_f0 [OF uint_u8] by (simp only: right_diff_distrib)
    have "16 * h + (if x < 0 then (x - 6) mod 16 - 16 else x) = (if x < 0 then (x - 6) mod 16 + 16 * (h - 1) else x + 16 * h)"
      by simp
    then show ?thesis unfolding dec_diff_def Let_def l f unfolding and_low by (simp only:)
  qed
  show ?thesis
  proof (cases "x < 0")
    case True
    show ?thesis
      unfolding dec_diff_word_def Let_def d0_def [symmetric] neg rhs
      using True corrected_diff [of "(x - 6) mod 16" "h - 1" "(((d0 AND 0x0F) - 6) AND 0x0F) OR
          push_bit 4 ((ucast (drop_bit 4 a) - ucast (drop_bit 4 v) - 1) AND 0x1F)"] h
      by (simp only: digits_word low high if_True)
  next
    case False
    then have "x mod 16 = x" using x by simp
    then show ?thesis
      unfolding dec_diff_word_def Let_def d0_def [symmetric] neg rhs
      using False x corrected_diff [of x h "(d0 AND 0x0F) OR
          push_bit 4 ((ucast (drop_bit 4 a) - ucast (drop_bit 4 v)) AND 0x1F)"] h
      by (simp only: digits_word low high if_False)
  qed
qed


lemma sbcDec_6502:
  assumes "tst (g_p s) FLAG_D"
  shows "to6502 (sbcDec45 v s) = sbc_nmos v (to6502 s)"
proof -
  define b :: u32 where "b = (if carry45 s then 0 else 1)"
  have b: "b = 0 \<or> b = 1" "uint b = borrow_in s" by (simp_all add: b_def borrow_in_def)
  have Z: "w AND 0xFF = 0 \<longleftrightarrow> (ucast w :: u8) = 0" for w :: u16
  proof -
    have "uint (w AND 0xFF) = uint w AND 0xFF" by (simp only: unsigned_and_eq) simp
    then show ?thesis by (simp add: word_uint_eq_iff uint_ucast16_8 and_low)
  qed
  have N: "tst (word_of_int D :: u16) 0x80 \<longleftrightarrow> bit (ucast (word_of_int D :: u16) :: u8) 7" for D
    by (simp add: tst_bit bit_simps)
  have res: "(word_of_int (dec_diff (uint (g_a s)) (uint v) (borrow_in s)) :: u8) = ucast (dec_diff_word (g_a s) v b)"
    using dec_diff_equal [OF b(1)] by (simp add: b(2))
  have D: "bit (reg_p (add_binary m (to6502 s))) 3" for m
    using assms by (simp add: add_binary_def Let_def set_a_def flag_bits)
  have c: "uint (carry (to6502 s)) = 1 - borrow_in s" by (rule carry_borrow)
  have dd: "sbc_nmos v (to6502 s) = (add_binary (v XOR 0xFF) (to6502 s))
      \<lparr>reg_a := word_of_int (dec_diff (uint (g_a s)) (uint v) (borrow_in s))\<rparr>"
    using D by (simp add: sbc_nmos_def Let_def dec_diff_def c flag_bits algebra_simps)
  show ?thesis
    unfolding dd res sbcDec45_def Let_def b_def [symmetric] dec_diff_word_def [unfolded Let_def, symmetric]
      add_binary_def set_a_def to6502_sel to6502_flags
      diff_word sum_word low_byte_shift difference_flags no_borrow [OF difference_range] Z N
    by (rule cpu6502_eqI) (auto simp: flag_bits)
qed


section \<open>The byte arithmetic is that of the 6502\<close>

text \<open>What the 6502 model does for ADC, SBC and CMP, in decimal mode or not.\<close>

definition adc6502 :: "u8 \<Rightarrow> cpu6502_state \<Rightarrow> cpu6502_state" where
  "adc6502 v s = (if tst (reg_p s) FLAG_D then adc_decimal_nmos v s else add_binary v s)"

lemma sbc_nmos_binary:
  assumes "\<not> tst (reg_p s) FLAG_D" shows "sbc_nmos v s = add_binary (v XOR 0xFF) s"
proof -
  have "\<not> bit (reg_p (add_binary (v XOR 0xFF) s)) 3"
    using assms by (simp add: add_binary_def Let_def set_a_def flag_bits)
  then show ?thesis by (simp add: sbc_nmos_def Let_def flag_bits)
qed

lemma to6502_compare: "to6502 (compare45 r v s) = compare_with r v (to6502 s)"
  by (simp add: compare45_def compare_with_def)

text \<open>
  C34: The byte arithmetic of the 45GS02 refines that of the NMOS 6502: under the map that forgets the
  registers the 6502 has not, ADC, SBC and the comparisons do to the accumulator, to every bit of P and
  to the rest of the registers exactly what the 6502 core does, for every operand, in binary and in
  decimal mode, also for operands that are not packed decimals.
\<close>

theorem arith45_refines_6502:
  "to6502 (doAdc8_45 v s) = adc6502 v (to6502 s) \<and> to6502 (doSbc8_45 v s) = sbc_nmos v (to6502 s)
    \<and> to6502 (compare45 r v s) = compare_with r v (to6502 s)"
  by (auto simp: doAdc8_45_def adc6502_def adcDec_6502 adcBin_6502 doSbc8_45_def sbcDec_6502 sbcBin_6502
      sbc_nmos_binary to6502_compare)


section \<open>Q\<close>

lemma bit_p45 [simp]:
  "bit (g_p (orIf45 b m s)) n \<longleftrightarrow> bit (g_p s) n \<or> b \<and> bit m n"
  "bit (g_p (clrP45 m s)) n \<longleftrightarrow> bit (g_p s) n \<and> \<not> bit m n"
  "bit (g_p (setP45 m s)) n \<longleftrightarrow> bit (g_p s) n \<or> bit m n"
  by (auto simp: orIf45_def setP45_def clrP45_def bit_simps dest: bit_imp_le_length)

lemma bit_nz32 [simp]: "bit (g_p (updateNZ32_45 v s)) n \<longleftrightarrow>
    (if n = 1 then v = 0 else if n = 7 then tst v 0x80000000 else bit (g_p s) n)"
proof -
  have m: "bit (FLAG_N OR FLAG_Z) k \<longleftrightarrow> k = 7 \<or> k = 1" for k unfolding bit_or_iff bit_mask8 ..
  show ?thesis unfolding updateNZ32_45_def bit_p45 m bit_mask8 by (cases "n = 7"; cases "n = 1"; simp)
qed

lemma p_setQ [simp]: "g_p (setQ v s) = g_p s" "g_p (cyc4 s) = g_p s"
  by (simp_all add: setQ_def cyc4_def)

lemma q32_bytes [simp]: "q32 (byte32 0 v) (byte32 (Suc 0) v) (byte32 2 v) (byte32 3 v) = v"
proof (rule bit_word_eqI)
  have f: "(0xFF :: u32) = mask 8" by (simp add: mask_eq_exp_minus_1)
  fix n assume "n < LENGTH(32)"
  then consider "n < 8" | "8 \<le> n" "n < 16" | "16 \<le> n" "n < 24" | "24 \<le> n" "n < 32" by fastforce
  then show "bit (q32 (byte32 0 v) (byte32 (Suc 0) v) (byte32 2 v) (byte32 3 v)) n = bit v n"
    by cases (auto simp: q32_def byte32_def f bit_simps)
qed

lemma getQ_simps [simp]:
  "getQ (setQ v s) = v" "getQ (updateNZ32_45 v s) = getQ s" "getQ (cyc4 s) = getQ s" "getQ (clrP45 m s) = getQ s"
  "getQ (orIf45 b m s) = getQ s"
  by (simp_all add: getQ_def setQ_def updateNZ32_45_def cyc4_def clrP45_def orIf45_def setP45_def)

lemma uint_u32: "0 \<le> uint (w :: u32)" "uint (w :: u32) < 4294967296"
  using uint_range_size [of w] by (simp_all add: word_size)

lemma bit31: "bit (w :: u32) 31 \<longleftrightarrow> 2147483648 \<le> uint w"
proof -
  have "bit w 31 \<longleftrightarrow> bit (uint w) 31" by (simp add: bit_uint_iff)
  also have "\<dots> \<longleftrightarrow> odd (uint w div 2147483648)" by (simp add: bit_iff_odd)
  finally show ?thesis using odd_div_double [of "uint w" 2147483648] uint_u32 [of w] by simp
qed

lemma sint_u32: "sint (w :: u32) = (if bit w 31 then uint w - 4294967296 else uint w)"
  using uint_u32 [of w]
  by (auto simp: sint_uint signed_take_bit_eq_take_bit_minus word_size bit_uint_iff take_bit_int_eq_self)

lemma tst31: "tst (w :: u32) 0x80000000 \<longleftrightarrow> bit w 31"
  using tst_exp [of w 31] by simp

lemma mod32_sum:
  assumes "0 \<le> x" "x < 4294967296" "0 \<le> y" "y < 4294967296" "c = 0 \<or> c = (1 :: int)"
  shows "(x + y + c) mod 4294967296 = (if x + y + c < 4294967296 then x + y + c else x + y + c - 4294967296)"
    and "(x - y - c) mod 4294967296 = (if x - y - c < 0 then x - y - c + 4294967296 else x - y - c)"
proof -
  have m: "z mod 4294967296 = (z + 4294967296) mod 4294967296" "z mod 4294967296 = (z - 4294967296) mod 4294967296" for z :: int
    by simp_all
  show "(x + y + c) mod 4294967296 = (if x + y + c < 4294967296 then x + y + c else x + y + c - 4294967296)"
    using assms m(2) [of "x + y + c"] mod_pos_pos_trivial [of "x + y + c" 4294967296]
      mod_pos_pos_trivial [of "x + y + c - 4294967296" 4294967296] by auto
  show "(x - y - c) mod 4294967296 = (if x - y - c < 0 then x - y - c + 4294967296 else x - y - c)"
    using assms m(1) [of "x - y - c"] mod_pos_pos_trivial [of "x - y - c" 4294967296]
      mod_pos_pos_trivial [of "x - y - c + 4294967296" 4294967296] by auto
qed

lemma not31: "bit (NOT w :: u32) 31 \<longleftrightarrow> \<not> bit w 31"
  by (simp add: bit_simps)

definition signed32 :: "int \<Rightarrow> int" where
  "signed32 x = (if 2147483648 \<le> x then x - 4294967296 else x)"

lemma sint_signed: "sint (w :: u32) = signed32 (uint w)"
  by (simp add: sint_u32 bit31 signed32_def)

lemma overflow_int:
  fixes x y :: int
  assumes "0 \<le> x" "x < 4294967296" "0 \<le> y" "y < 4294967296" "c = 0 \<or> c = 1"
  shows "r = (if x + y + c < 4294967296 then x + y + c else x + y + c - 4294967296) \<Longrightarrow>
      \<not> (2147483648 \<le> x) = (2147483648 \<le> y) \<or>
      (2147483648 \<le> x) = (2147483648 \<le> r) \<longleftrightarrow>
      \<not> (signed32 x + signed32 y + c < - 2147483648 \<or> 2147483648 \<le> signed32 x + signed32 y + c)"
    and "r = (if x - y - c < 0 then x - y - c + 4294967296 else x - y - c) \<Longrightarrow>
      (2147483648 \<le> x) = (2147483648 \<le> y) \<or> (2147483648 \<le> x) = (2147483648 \<le> r) \<longleftrightarrow>
      \<not> (signed32 x - signed32 y - c < - 2147483648 \<or> 2147483648 \<le> signed32 x - signed32 y - c)"
  using assms by (auto simp: signed32_def)

lemma overflow32:
  assumes "uint (r :: u32) = (uint q + uint v + c) mod 4294967296" "c = 0 \<or> c = 1"
  shows "tst (NOT (q XOR v) AND (q XOR r)) 0x80000000 \<longleftrightarrow>
    sint q + sint v + c < - 2147483648 \<or> 2147483648 \<le> sint q + sint v + c"
  using overflow_int(1) [OF uint_u32 uint_u32 assms(2) trans [OF assms(1) mod32_sum(1) [OF uint_u32 uint_u32 assms(2)]]]
  unfolding tst31 bit_and_iff bit_xor_iff not31 unfolding sint_signed bit31 by blast

lemma overflow32_sub:
  assumes "uint (r :: u32) = (uint q - uint v - c) mod 4294967296" "c = 0 \<or> c = 1"
  shows "tst ((q XOR v) AND (q XOR r)) 0x80000000 \<longleftrightarrow>
    sint q - sint v - c < - 2147483648 \<or> 2147483648 \<le> sint q - sint v - c"
  using overflow_int(2) [OF uint_u32 uint_u32 assms(2) trans [OF assms(1) mod32_sum(2) [OF uint_u32 uint_u32 assms(2)]]]
  unfolding tst31 bit_and_iff bit_xor_iff unfolding sint_signed bit31 by blast


definition carry_int :: "regs45 \<Rightarrow> int" where
  "carry_int s = (if carry45 s then 1 else 0)"

lemma borrow_carry: "borrow_in s = 1 - carry_int s"
  by (simp add: borrow_in_def carry_int_def)

lemma uint_carry64: "uint (ucast (g_p s AND FLAG_C) :: u64) = carry_int s"
  by (simp add: carry_int_def carry45_def flag_bits and_one_eq mod_2_eq_odd bit_0)

lemma uint64: "uint (ucast (q :: u32) :: u64) = uint q"
  using uint_u32 [of q] by (simp add: unsigned_ucast_eq take_bit_int_eq_self)

lemma uint_trunc32: "uint (ucast (w :: u64) :: u32) = uint w mod 4294967296"
  by (simp add: unsigned_ucast_eq take_bit_eq_mod)

lemma sum64: "uint (ucast (q :: u32) + ucast (v :: u32) + ucast (g_p s AND FLAG_C) :: u64) = uint q + uint v + carry_int s"
proof -
  have "0 \<le> uint q + uint v + carry_int s" "uint q + uint v + carry_int s < 18446744073709551616"
    using uint_u32 [of q] uint_u32 [of v] unfolding carry_int_def by (split if_split; linarith)+
  then show ?thesis
    by (simp add: uint_word_ariths uint64 uint_carry64 mod_add_left_eq)
qed

lemma diff64:
  "uint (ucast (q :: u32) - ucast (v :: u32) - (if carry45 s then 0 else 1) :: u64) =
    (uint q - uint v - borrow_in s) mod 18446744073709551616"
  by (simp add: uint_word_ariths uint64 borrow_in_def mod_diff_left_eq)

lemma small_diff:
  assumes "- 4294967296 \<le> x" "x < (4294967296 :: int)"
  shows "x mod 18446744073709551616 \<le> 4294967295 \<longleftrightarrow> 0 \<le> x"
    "x mod 18446744073709551616 mod 4294967296 = x mod 4294967296"
proof -
  have "x mod 18446744073709551616 = (if x < 0 then x + 18446744073709551616 else x)"
    using assms mod_add_self2 [of x 18446744073709551616] mod_pos_pos_trivial [of "x + 18446744073709551616" 18446744073709551616]
    by auto
  then show "x mod 18446744073709551616 \<le> 4294967295 \<longleftrightarrow> 0 \<le> x" using assms by auto
  show "x mod 18446744073709551616 mod 4294967296 = x mod 4294967296" by (simp add: mod_mod_cancel)
qed

text \<open>A result in Q with the flags that go with it; the four cycles are counted.\<close>

definition quad_result :: "regs45 \<Rightarrow> int \<Rightarrow> int \<Rightarrow> bool \<Rightarrow> regs45 \<Rightarrow> bool" where
  "quad_result s n z c s' \<longleftrightarrow>
     uint (getQ s') = n mod 2 ^ 32 \<and> carry45 s' = c \<and> flag45 FLAG_V s' = (z < - (2 ^ 31) \<or> 2 ^ 31 \<le> z) \<and>
     flag45 FLAG_Z s' = (getQ s' = 0) \<and> flag45 FLAG_N s' = (sint (getQ s') < 0) \<and>
     s' = s\<lparr>g_a := g_a s', g_x := g_x s', g_y := g_y s', g_z := g_z s', g_p := g_p s', g_cycles := g_cycles s + 4\<rparr> \<and>
     g_p s' AND 0x3C = g_p s AND 0x3C"

lemma regs_kept [simp]:
  "g_cycles (orIf45 b m s) = g_cycles s" "g_cycles (clrP45 m s) = g_cycles s" "g_cycles (updateNZ32_45 v s) = g_cycles s"
  "g_pc (orIf45 b m s) = g_pc s" "g_pc (clrP45 m s) = g_pc s" "g_pc (updateNZ32_45 v s) = g_pc s"
  "g_sp (orIf45 b m s) = g_sp s" "g_sp (clrP45 m s) = g_sp s" "g_sp (updateNZ32_45 v s) = g_sp s"
  "g_b (orIf45 b m s) = g_b s" "g_b (clrP45 m s) = g_b s" "g_b (updateNZ32_45 v s) = g_b s"
  "g_cycles (setQ v s) = g_cycles s" "g_pc (setQ v s) = g_pc s" "g_sp (setQ v s) = g_sp s" "g_b (setQ v s) = g_b s"
  "g_pc (cyc4 s) = g_pc s" "g_sp (cyc4 s) = g_sp s" "g_b (cyc4 s) = g_b s" "g_cycles (cyc4 s) = g_cycles s + 4"
  by (simp_all add: orIf45_def setP45_def clrP45_def updateNZ32_45_def setQ_def cyc4_def)

lemma flags_above [simp]:
  "g_p (orIf45 b FLAG_C s) AND 0x3C = g_p s AND 0x3C" "g_p (orIf45 b FLAG_V s) AND 0x3C = g_p s AND 0x3C"
  "g_p (orIf45 b FLAG_Z s) AND 0x3C = g_p s AND 0x3C" "g_p (orIf45 b FLAG_N s) AND 0x3C = g_p s AND 0x3C"
  "g_p (clrP45 0x41 s) AND 0x3C = g_p s AND 0x3C" "g_p (clrP45 0x82 s) AND 0x3C = g_p s AND 0x3C"
proof -
  have o: "(p OR m) AND 0x3C = p AND 0x3C" if "m AND 0x3C = 0" for p m :: u8
    using that by (simp add: bit.conj_disj_distrib2)
  show "g_p (orIf45 b FLAG_C s) AND 0x3C = g_p s AND 0x3C" "g_p (orIf45 b FLAG_V s) AND 0x3C = g_p s AND 0x3C"
    "g_p (orIf45 b FLAG_Z s) AND 0x3C = g_p s AND 0x3C" "g_p (orIf45 b FLAG_N s) AND 0x3C = g_p s AND 0x3C"
    by (simp_all add: orIf45_def setP45_def o)
  show "g_p (clrP45 0x41 s) AND 0x3C = g_p s AND 0x3C" "g_p (clrP45 0x82 s) AND 0x3C = g_p s AND 0x3C"
    by (simp_all add: clrP45_def and.assoc)
qed

lemma quad_frame:
  fixes s :: regs45
  assumes "s' = cyc4 (updateNZ32_45 w (setQ w (orIf45 c FLAG_C (orIf45 b FLAG_V (clrP45 (FLAG_V OR FLAG_C) s)))))"
  shows "s' = s\<lparr>g_a := g_a s', g_x := g_x s', g_y := g_y s', g_z := g_z s', g_p := g_p s', g_cycles := g_cycles s + 4\<rparr>"
    and "g_p s' AND 0x3C = g_p s AND 0x3C"
proof -
  show "s' = s\<lparr>g_a := g_a s', g_x := g_x s', g_y := g_y s', g_z := g_z s', g_p := g_p s', g_cycles := g_cycles s + 4\<rparr>"
    unfolding assms cyc4_def updateNZ32_45_def setQ_def orIf45_def setP45_def clrP45_def
    by (cases s) simp
  have "g_p (cyc4 t) = g_p t" "g_p (setQ w t) = g_p t" "g_p (clrP45 m (setQ w t)) = g_p (clrP45 m t)" for t m
    by (simp_all add: cyc4_def setQ_def clrP45_def)
  then show "g_p s' AND 0x3C = g_p s AND 0x3C" by (simp add: assms updateNZ32_45_def)
qed

lemma negative31: "tst (w :: u32) 0x80000000 \<longleftrightarrow> sint w < 0"
  using uint_u32 [of w] by (simp add: tst31 sint_u32 bit31)

lemmas adc32_shape = doAdc32_def [unfolded Let_def]
lemmas sbc32_shape = doSbc32_def [unfolded Let_def]

lemma adc32_result:
  "quad_result s (uint (getQ s) + uint v + carry_int s) (sint (getQ s) + sint v + carry_int s)
    (2 ^ 32 \<le> uint (getQ s) + uint v + carry_int s) (doAdc32 v s)"
proof -
  define r :: u64 where "r = ucast (getQ s) + ucast v + ucast (g_p s AND FLAG_C)"
  have r: "uint r = uint (getQ s) + uint v + carry_int s" unfolding r_def by (rule sum64)
  have c: "carry_int s = 0 \<or> carry_int s = 1" by (simp add: carry_int_def)
  have q: "uint (ucast r :: u32) = (uint (getQ s) + uint v + carry_int s) mod 4294967296"
    unfolding uint_trunc32 r ..
  have gt: "r > 0xFFFFFFFF \<longleftrightarrow> 4294967296 \<le> uint (getQ s) + uint v + carry_int s"
    unfolding word_less_def r by (simp, linarith)
  show ?thesis
    unfolding quad_result_def
    by (intro conjI quad_frame [OF adc32_shape])
      (unfold doAdc32_def Let_def r_def [symmetric] carry45_def flag45_def tst_bit overflow32 [OF q c],
        simp_all add: q gt negative31)
qed


lemma sbc32_result:
  "quad_result s (uint (getQ s) - uint v - borrow_in s) (sint (getQ s) - sint v - borrow_in s)
    (0 \<le> uint (getQ s) - uint v - borrow_in s) (doSbc32 v s)"
proof -
  define r :: u64 where "r = ucast (getQ s) - ucast v - (if carry45 s then 0 else 1)"
  define n where "n = uint (getQ s) - uint v - borrow_in s"
  have r: "uint r = n mod 18446744073709551616" unfolding r_def n_def by (rule diff64)
  have n: "- 4294967296 \<le> n" "n < 4294967296"
    unfolding n_def borrow_in_def using uint_u32 [of "getQ s"] uint_u32 [of v] by (split if_split; linarith)+
  have c: "borrow_in s = 0 \<or> borrow_in s = 1" by (simp add: borrow_in_def)
  have q: "uint (ucast r :: u32) = n mod 4294967296" unfolding uint_trunc32 r small_diff(2) [OF n] ..
  have le: "r \<le> 0xFFFFFFFF \<longleftrightarrow> 0 \<le> n" unfolding word_le_def r using small_diff(1) [OF n] by simp
  show ?thesis
    unfolding quad_result_def
    by (intro conjI quad_frame [OF sbc32_shape])
      (unfold doSbc32_def Let_def r_def [symmetric] n_def [symmetric],
        unfold carry45_def flag45_def tst_bit overflow32_sub [OF q [unfolded n_def] c],
        simp_all add: q le negative31)
qed

lemma cmp32_result:
  "doCmp32 v s = s\<lparr>g_p := g_p (doCmp32 v s), g_cycles := g_cycles s + 4\<rparr>"
  "bit (g_p (doCmp32 v s)) n = (if n = 0 then v \<le> getQ s else if n = 1 then getQ s = v
     else if n = 7 then bit (getQ s - v) 31 else bit (g_p s) n)"
proof -
  have d: "(ucast (ucast (getQ s) - ucast v :: u64) :: u32) = getQ s - v"
    by (rule word_uint_eqI) (simp add: uint_trunc32 uint_word_ariths uint64 mod_mod_cancel)
  show "doCmp32 v s = s\<lparr>g_p := g_p (doCmp32 v s), g_cycles := g_cycles s + 4\<rparr>"
    unfolding doCmp32_def Let_def cyc4_def updateNZ32_45_def orIf45_def setP45_def clrP45_def by (cases s) simp
  have z: "getQ s - v = 0 \<longleftrightarrow> getQ s = v" by simp
  have p: "g_p (doCmp32 v s) = (let p1 = g_p s AND NOT FLAG_C; p2 = (if v \<le> getQ s then p1 OR FLAG_C else p1);
      p3 = p2 AND NOT (FLAG_N OR FLAG_Z); p4 = (if getQ s = v then p3 OR FLAG_Z else p3)
      in if bit (getQ s - v) 31 then p4 OR FLAG_N else p4)"
    unfolding doCmp32_def Let_def d z tst31 cyc4_def updateNZ32_45_def orIf45_def setP45_def clrP45_def by simp
  show "bit (g_p (doCmp32 v s)) n = (if n = 0 then v \<le> getQ s else if n = 1 then getQ s = v
     else if n = 7 then bit (getQ s - v) 31 else bit (g_p s) n)"
  proof (cases "n < 8")
    case True
    have b: "bit FLAG_C n \<longleftrightarrow> n = 0" "bit FLAG_Z n \<longleftrightarrow> n = 1" "bit FLAG_N n \<longleftrightarrow> n = 7"
      using True by (auto simp: flag_bits)
    show ?thesis
      unfolding p Let_def if_distrib [of "\<lambda>x. bit x n"] bit_or_iff bit_and_iff bit_not_iff b using True by auto
  next
    case False
    then have "\<not> bit x n" for x :: u8 using bit_imp_le_length [of x n] by auto
    then show ?thesis using False by simp
  qed
qed

text \<open>
  C35: The quad arithmetic is 32-bit integer arithmetic: ADCQ leaves in Q the sum of Q, the operand and
  the carry modulo 2^32, SBCQ the difference with borrow; C is the carry out (for SBCQ: no borrow), V
  says that the signed result does not fit in 32 bits, Z and N describe Q; four cycles are counted, the
  flags I, D, B and E keep their values and no other register changes. CMPQ changes nothing but P and
  the cycle count, and of P nothing but three flags: C says unsigned greater-or-equal, Z equality, and N
  is bit 31 of the difference.
\<close>

theorem quad_arithmetic:
  "quad_result s (uint (getQ s) + uint v + carry_int s) (sint (getQ s) + sint v + carry_int s)
     (2 ^ 32 \<le> uint (getQ s) + uint v + carry_int s) (doAdc32 v s) \<and>
   quad_result s (uint (getQ s) - uint v - borrow_in s) (sint (getQ s) - sint v - borrow_in s)
     (0 \<le> uint (getQ s) - uint v - borrow_in s) (doSbc32 v s) \<and>
   doCmp32 v s = s\<lparr>g_p := g_p (doCmp32 v s), g_cycles := g_cycles s + 4\<rparr> \<and>
   (\<forall>n. bit (g_p (doCmp32 v s)) n = (if n = 0 then v \<le> getQ s else if n = 1 then getQ s = v
      else if n = 7 then bit (getQ s - v) 31 else bit (g_p s) n))"
  by (intro conjI allI adc32_result sbc32_result cmp32_result)

end
