(* ===== verification/Cpu45Flow.thy ===== *)
theory Cpu45Flow
  imports Cpu45Arith Cpu6502Flow
begin

text \<open>
  Control flow of the 45GS02: on a bus with RAM where the stack is, in both stack modes and in the
  hypervisor's memory as well, subroutines and interrupts return.
\<close>

section \<open>Memory as the processor sees it\<close>

definition emode :: "regs45 \<Rightarrow> bool" where
  "emode s \<longleftrightarrow> tst (g_p s) FLAG_E"

text \<open>The byte at an address, and whether it is memory: RAM on the bus or the hypervisor's own.\<close>

definition seen45 :: "('b \<Rightarrow> u32 \<Rightarrow> u8) \<Rightarrow> 'b cpu45 \<Rightarrow> u16 \<Rightarrow> u8" where
  "seen45 mem c a = (case hyper_window a c of
     Some r \<Rightarrow> (if unat (a - 0x8000) < length r then r ! unat (a - 0x8000) else 0xFF) | None \<Rightarrow> mem (k_mem c) (ucast a))"

definition memory_at :: "u32 set \<Rightarrow> 'b cpu45 \<Rightarrow> u16 \<Rightarrow> bool" where
  "memory_at ram c a \<longleftrightarrow> (case hyper_window a c of
     Some r \<Rightarrow> unat (a - 0x8000) < length r | None \<Rightarrow> ucast a \<in> ram)"

text \<open>\<open>d\<close> shows the memory of \<open>c\<close> with the byte at \<open>a\<close> replaced, or unchanged.\<close>

definition after_write :: "('b \<Rightarrow> u32 \<Rightarrow> u8) \<Rightarrow> u32 set \<Rightarrow> 'b cpu45 \<Rightarrow> u16 \<Rightarrow> u8 \<Rightarrow> 'b cpu45 \<Rightarrow> bool" where
  "after_write mem ram c a v d \<longleftrightarrow> (\<forall>x. memory_at ram d x = memory_at ram c x \<and>
     (memory_at ram c x \<longrightarrow> seen45 mem d x = (if x = a then v else seen45 mem c x)))"

definition undisturbed :: "('b \<Rightarrow> u32 \<Rightarrow> u8) \<Rightarrow> u32 set \<Rightarrow> 'b cpu45 \<Rightarrow> 'b cpu45 \<Rightarrow> bool" where
  "undisturbed mem ram c d \<longleftrightarrow> (\<forall>x. memory_at ram d x = memory_at ram c x \<and>
     (memory_at ram c x \<longrightarrow> seen45 mem d x = seen45 mem c x))"

lemma undisturbed_trans: "undisturbed mem ram c d \<Longrightarrow> undisturbed mem ram d e \<Longrightarrow> undisturbed mem ram c e"
  by (simp add: undisturbed_def)

lemma run_upd45 [simp]: "run_state (upd45 f) c = ((), c\<lparr>k_regs := f (k_regs c)\<rparr>)"
  by (simp add: upd45_def)

lemma run_reg45 [simp]: "run_state (reg45 f) c = (f (k_regs c), c)"
  by (simp add: reg45_def)

lemma run_cyc45 [simp]: "run_state (cyc45 n) c = ((), c\<lparr>k_regs := (k_regs c)\<lparr>g_cycles := g_cycles (k_regs c) + of_nat n\<rparr>\<rparr>)"
  by (simp add: cyc45_def)

lemma window_regs [simp]: "g_hypervisor (f (k_regs c)) = g_hypervisor (k_regs c) \<Longrightarrow>
    hyper_window a (c\<lparr>k_regs := f (k_regs c)\<rparr>) = hyper_window a c"
  by (simp add: hyper_window_def)

lemma undisturbed_regs:
  "g_hypervisor s = g_hypervisor (k_regs c) \<Longrightarrow> undisturbed mem ram c (c\<lparr>k_regs := s\<rparr>)"
  by (auto simp: undisturbed_def memory_at_def seen45_def hyper_window_def split: option.split)

lemma window_inj: "unat (a - 0x8000 :: u16) = unat (x - 0x8000) \<longleftrightarrow> a = x"
  by (simp flip: word_unat_eq_iff)

section \<open>The stack\<close>

text \<open>The next lower and the next higher stack location in either mode.\<close>

definition below :: "bool \<Rightarrow> u16 \<Rightarrow> u16" where
  "below e sp = (if e then mk16 (lo8 sp - 1) (hi8 sp) else sp - 1)"

definition above :: "bool \<Rightarrow> u16 \<Rightarrow> u16" where
  "above e sp = (if e then mk16 (lo8 sp + 1) (hi8 sp) else sp + 1)"

lemma page_part: "(w AND 0xFF00) OR (v AND 0xFF) = mk16 (lo8 v) (hi8 w)"
proof (rule bit_word_eqI)
  have m: "(0xFF00 :: u16) = push_bit 8 (mask 8)" by (simp add: mask_eq_exp_minus_1 push_bit_eq_mult)
  fix n assume "n < LENGTH(16)"
  then show "bit ((w AND 0xFF00) OR (v AND 0xFF)) n = bit (mk16 (lo8 v) (hi8 w)) n"
    unfolding m mask_8_16 mk16_def lo8_def hi8_def by (cases "n < 8") (auto simp: bit_simps)
qed

lemma lo8_ucast: "lo8 v = ucast v"
  by (rule u8_eqI) (auto simp: lo8_def mask_8_16 bit_simps)

lemma lo8_add: "lo8 (w + v) = lo8 w + lo8 v" "lo8 (w - v) = lo8 w - lo8 v" "lo8 1 = 1"
proof -
  have m: "x mod 65536 mod 256 = x mod 256" for x :: int by (simp add: mod_mod_cancel)
  show "lo8 (w + v) = lo8 w + lo8 v" "lo8 (w - v) = lo8 w - lo8 v"
    by (rule word_uint_eqI; simp add: lo8_ucast uint_ucast16_8 uint_word_ariths m mod_add_eq mod_diff_eq)+
  show "lo8 1 = 1" by (simp add: lo8_def)
qed

lemma above_below [simp]: "above e (below e sp) = sp" "below e (above e sp) = sp"
  by (simp_all add: above_def below_def)

lemma below_neq [simp]: "below e sp \<noteq> sp" "sp \<noteq> below e sp" "below e (below e sp) \<noteq> sp" "sp \<noteq> below e (below e sp)"
proof -
  have mk: "mk16 l h = mk16 l' h \<longleftrightarrow> l = l'" for l l' h by (metis lo8_mk16)
  have n8: "w - 1 \<noteq> w" "w - 1 - 1 \<noteq> w" for w :: u8 by simp_all
  have n16: "w - 1 \<noteq> w" "w - 1 - 1 \<noteq> w" for w :: u16 by simp_all
  have "below e sp \<noteq> sp \<and> below e (below e sp) \<noteq> sp"
  proof (cases e)
    case True
    then have "lo8 (below e sp) = lo8 sp - 1" "lo8 (below e (below e sp)) = lo8 sp - 1 - 1" by (simp_all add: below_def)
    then show ?thesis using n8 by metis
  qed (use n16 in \<open>simp add: below_def\<close>)
  then show "below e sp \<noteq> sp" "sp \<noteq> below e sp" "below e (below e sp) \<noteq> sp" "sp \<noteq> below e (below e sp)" by metis+
qed

lemma sp_down_below: "sp_down s = s\<lparr>g_sp := below (emode s) (g_sp s)\<rparr>"
  by (simp add: sp_down_def below_def emode_def page_part lo8_add)

lemma sp_up_above: "sp_up s = s\<lparr>g_sp := above (emode s) (g_sp s)\<rparr>"
  by (simp add: sp_up_def above_def emode_def page_part lo8_add)

section \<open>A processor on a bus\<close>

locale bus45 = ram_bus ib mem ram ok for ib :: "'b ibus" and mem ram ok +
  fixes E :: "'b env45"
  assumes bus: "ge_bus E = Some ib"
begin

lemma read45_memory:
  assumes "ok (k_mem c)" and "memory_at ram c a"
  shows "result (read45 E a) c = seen45 mem c a" and "k_regs (final (read45 E a) c) = k_regs c"
    and "ok (k_mem (final (read45 E a) c))" and "undisturbed mem ram c (final (read45 E a) c)"
  using assms read_ram read_ok read_frame
  by (auto simp: read45_def seen45_def memory_at_def undisturbed_def hyper_window_def bus mem45_def Let_def
      case_prod_beta split: option.splits)

lemma write45_memory:
  assumes "ok (k_mem c)" and "memory_at ram c a"
  shows "k_regs (final (write45 E a v) c) = k_regs c" and "ok (k_mem (final (write45 E a v) c))"
    and "after_write mem ram c a v (final (write45 E a v) c)"
proof -
  show "k_regs (final (write45 E a v) c) = k_regs c" "ok (k_mem (final (write45 E a v) c))"
    using assms write_ok by (auto simp: write45_def bus mem45_def Let_def split: option.splits)
  show "after_write mem ram c a v (final (write45 E a v) c)"
  proof (cases "hyper_window a c")
    case None
    then have f: "final (write45 E a v) c = c\<lparr>k_mem := final (ib_write8 ib (ucast a) v) (k_mem c)\<rparr>" "ucast a \<in> ram"
      using assms(2) by (simp_all add: write45_def bus mem45_def Let_def memory_at_def)
    show ?thesis unfolding f(1) after_write_def
      using None write_ram [OF assms(1) f(2)]
      by (auto simp: memory_at_def seen45_def hyper_window_def split: option.splits)
  next
    case (Some r)
    then have f: "final (write45 E a v) c = c\<lparr>k_hyperRam := Some (r[unat (a - 0x8000) := v])\<rparr>" "unat (a - 0x8000) < length r"
      using assms(2) by (simp_all add: write45_def memory_at_def)
    have w: "k_hyperRam c = Some r" using Some by (simp add: hyper_window_def split: if_splits)
    show ?thesis unfolding f(1) after_write_def
      using f(2) w Some by (auto simp: window_inj memory_at_def seen45_def hyper_window_def nth_list_update split: option.splits)
  qed
qed

end


text \<open>The word pushed from \<open>sp\<close> downwards.\<close>

definition word_on_stack :: "('b \<Rightarrow> u32 \<Rightarrow> u8) \<Rightarrow> bool \<Rightarrow> u16 \<Rightarrow> 'b cpu45 \<Rightarrow> u16 \<Rightarrow> bool" where
  "word_on_stack mem e sp c v \<longleftrightarrow> seen45 mem c sp = hi8 v \<and> seen45 mem c (below e sp) = lo8 v"

lemma emode_sp [simp]: "emode (s\<lparr>g_sp := x\<rparr>) = emode s" "emode (s\<lparr>g_pc := y\<rparr>) = emode s"
  "emode (s\<lparr>g_cycles := n\<rparr>) = emode s"
  by (simp_all add: emode_def)

lemma view_regs [simp]:
  "g_hypervisor s = g_hypervisor (k_regs c) \<Longrightarrow> memory_at ram (c\<lparr>k_regs := s\<rparr>) a = memory_at ram c a"
  "g_hypervisor s = g_hypervisor (k_regs c) \<Longrightarrow> seen45 mem (c\<lparr>k_regs := s\<rparr>) a = seen45 mem c a"
  by (auto simp: memory_at_def seen45_def hyper_window_def split: option.split)

context bus45
begin

lemma push8_memory:
  assumes "ok (k_mem c)" and "memory_at ram c (g_sp (k_regs c))"
  shows "k_regs (final (push8_45 E v) c) = (k_regs c)\<lparr>g_sp := below (emode (k_regs c)) (g_sp (k_regs c))\<rparr>"
    and "ok (k_mem (final (push8_45 E v) c))"
    and "after_write mem ram c (g_sp (k_regs c)) v (final (push8_45 E v) c)"
  using write45_memory [OF assms, of v]
  by (simp_all add: push8_45_def case_prod_beta sp_down_below after_write_def)

lemma pull8_memory:
  fixes c
  defines "a \<equiv> above (emode (k_regs c)) (g_sp (k_regs c))"
  assumes "ok (k_mem c)" and "memory_at ram c a"
  shows "result (pull8_45 E) c = seen45 mem c a" and "k_regs (final (pull8_45 E) c) = (k_regs c)\<lparr>g_sp := a\<rparr>"
    and "ok (k_mem (final (pull8_45 E) c))" and "undisturbed mem ram c (final (pull8_45 E) c)"
  using read45_memory [of "c\<lparr>k_regs := (k_regs c)\<lparr>g_sp := a\<rparr>\<rparr>" a] assms
  by (simp_all add: pull8_45_def case_prod_beta sp_up_above undisturbed_def)

lemma push16_memory:
  fixes c v
  defines "e \<equiv> emode (k_regs c)" and "sp \<equiv> g_sp (k_regs c)" and "d \<equiv> final (push16_45 E v) c"
  assumes "ok (k_mem c)" and "memory_at ram c sp" and "memory_at ram c (below e sp)"
  shows "k_regs d = (k_regs c)\<lparr>g_sp := below e (below e sp)\<rparr>" and "ok (k_mem d)"
    and "word_on_stack mem e sp d v" and "memory_at ram d x = memory_at ram c x"
    and "memory_at ram c x \<Longrightarrow> x \<noteq> sp \<Longrightarrow> x \<noteq> below e sp \<Longrightarrow> seen45 mem d x = seen45 mem c x"
proof -
  define c1 where "c1 = final (push8_45 E (hi8 v)) c"
  have r1: "k_regs c1 = (k_regs c)\<lparr>g_sp := below e sp\<rparr>" and o1: "ok (k_mem c1)"
    and w1: "after_write mem ram c sp (hi8 v) c1"
    using push8_memory [OF assms(4), of "hi8 v"] assms by (simp_all add: c1_def)
  have m1: "memory_at ram c1 x = memory_at ram c x" for x using w1 by (simp add: after_write_def)
  have d: "d = final (push8_45 E (lo8 v)) c1" by (simp add: d_def push16_45_def c1_def case_prod_beta)
  have "memory_at ram c1 (g_sp (k_regs c1))" using m1 assms(6) r1 by simp
  note p2 = push8_memory [OF o1 this, of "lo8 v", folded d]
  show "k_regs d = (k_regs c)\<lparr>g_sp := below e (below e sp)\<rparr>" "ok (k_mem d)"
    using p2 r1 by (simp_all add: e_def)
  show "memory_at ram d x = memory_at ram c x" using p2(3) m1 by (simp add: after_write_def)
  show "word_on_stack mem e sp d v"
    using p2(3) w1 m1 r1 assms(5,6) by (simp add: after_write_def word_on_stack_def)
  show "memory_at ram c x \<Longrightarrow> x \<noteq> sp \<Longrightarrow> x \<noteq> below e sp \<Longrightarrow> seen45 mem d x = seen45 mem c x"
    using p2(3) w1 m1 r1 by (simp add: after_write_def)
qed

lemma pull16_memory:
  fixes c
  defines "e \<equiv> emode (k_regs c)"
  assumes "ok (k_mem c)" and "g_sp (k_regs c) = below e (below e sp)"
    and "memory_at ram c sp" and "memory_at ram c (below e sp)" and "word_on_stack mem e sp c v"
  shows "result (pull16_45 E) c = v" and "k_regs (final (pull16_45 E) c) = (k_regs c)\<lparr>g_sp := sp\<rparr>"
    and "ok (k_mem (final (pull16_45 E) c))" and "undisturbed mem ram c (final (pull16_45 E) c)"
proof -
  define c1 where "c1 = final (pull8_45 E) c"
  have a1: "above (emode (k_regs c)) (g_sp (k_regs c)) = below e sp" using assms(3) by (simp add: e_def)
  have p1: "result (pull8_45 E) c = lo8 v" "k_regs c1 = (k_regs c)\<lparr>g_sp := below e sp\<rparr>" "ok (k_mem c1)"
    "undisturbed mem ram c c1"
    using pull8_memory [OF assms(2)] assms(5,6) by (simp_all add: a1 c1_def word_on_stack_def)
  have a2: "above (emode (k_regs c1)) (g_sp (k_regs c1)) = sp" using p1(2) by (simp add: e_def)
  have p2: "result (pull8_45 E) c1 = hi8 v" "k_regs (final (pull8_45 E) c1) = (k_regs c)\<lparr>g_sp := sp\<rparr>"
    "ok (k_mem (final (pull8_45 E) c1))" "undisturbed mem ram c1 (final (pull8_45 E) c1)"
    using pull8_memory [OF p1(3), unfolded a2] p1(2,4) assms(4,6) by (simp_all add: undisturbed_def word_on_stack_def)
  show "result (pull16_45 E) c = v" "k_regs (final (pull16_45 E) c) = (k_regs c)\<lparr>g_sp := sp\<rparr>"
    "ok (k_mem (final (pull16_45 E) c))" "undisturbed mem ram c (final (pull16_45 E) c)"
    using p1 p2 by (auto simp: pull16_45_def case_prod_beta c1_def intro: undisturbed_trans)
qed

end


section \<open>Subroutines\<close>

lemma exec_calls:
  "exec45 E q i 0x20 = do { t \<leftarrow> getAbs45 E; callTo45 E t 1 }"
  "exec45 E q i 0x22 = do { a \<leftarrow> getAbs45 E; t \<leftarrow> readWord45 E a; callTo45 E t 2 }"
  "exec45 E q i 0x23 = do { a \<leftarrow> getAbsX45 E; t \<leftarrow> readWord45 E a; callTo45 E t 2 }"
  "exec45 E q i 0x63 = do {
     pc \<leftarrow> reg45 g_pc; r \<leftarrow> readWord45 E pc; push16_45 E (pc + 1); upd45 (\<lambda>s. s\<lparr>g_pc := g_pc s + 1 + r\<rparr>); cyc45 4 }"
  "exec45 E q i 0x60 = do { t \<leftarrow> pull16_45 E; upd45 (\<lambda>s. s\<lparr>g_pc := t + 1\<rparr>); cyc45 3 }"
  "exec45 E q i 0x40 = do {
     v \<leftarrow> pull8_45 E; upd45 (pulledP v); t \<leftarrow> pull16_45 E; upd45 (\<lambda>s. s\<lparr>g_pc := t\<rparr>); cyc45 3 }"
  by (simp_all add: exec45_def control45_def loadA45_def loadXYZ45_def store45_def adc45_def sbc45_def cmp45_def and45_def
      ora45_def eor45_def alu45_def tsbAsr45_def incdec45_def transfer45_def flags45_def stack45_def flow45_def)

text \<open>A word in memory, and the two operand bytes at PC.\<close>

definition word_at :: "('b \<Rightarrow> u32 \<Rightarrow> u8) \<Rightarrow> 'b cpu45 \<Rightarrow> u16 \<Rightarrow> u16" where
  "word_at mem c a = mk16 (seen45 mem c a) (seen45 mem c (a + 1))"

definition operand_word :: "('b \<Rightarrow> u32 \<Rightarrow> u8) \<Rightarrow> 'b cpu45 \<Rightarrow> u16" where
  "operand_word mem c = word_at mem c (g_pc (k_regs c))"

definition word_memory :: "u32 set \<Rightarrow> 'b cpu45 \<Rightarrow> u16 \<Rightarrow> bool" where
  "word_memory ram c a \<longleftrightarrow> memory_at ram c a \<and> memory_at ram c (a + 1)"

text \<open>Where JSR \<open>abs\<close>, JSR \<open>(abs)\<close>, JSR \<open>(abs,X)\<close> and BSR go, and the pointer the indirect ones read.\<close>

definition call_pointer :: "('b \<Rightarrow> u32 \<Rightarrow> u8) \<Rightarrow> u8 \<Rightarrow> 'b cpu45 \<Rightarrow> u16" where
  "call_pointer mem op c =
     (if op = 0x22 then operand_word mem c else if op = 0x23 then operand_word mem c + ucast (g_x (k_regs c))
      else g_pc (k_regs c))"

definition call_target :: "('b \<Rightarrow> u32 \<Rightarrow> u8) \<Rightarrow> u8 \<Rightarrow> 'b cpu45 \<Rightarrow> u16" where
  "call_target mem op c =
     (if op = 0x63 then g_pc (k_regs c) + 1 + operand_word mem c else word_at mem c (call_pointer mem op c))"

definition call_cycles :: "u8 \<Rightarrow> u64" where
  "call_cycles op = (if op = 0x20 then 3 else 4)"

lemma undisturbed_word: "undisturbed mem ram c d \<Longrightarrow> word_memory ram c a \<Longrightarrow>
    word_memory ram d a \<and> word_at mem d a = word_at mem c a"
  by (simp add: undisturbed_def word_memory_def word_at_def)

context bus45
begin

lemma readWord_memory:
  assumes "ok (k_mem c)" and "word_memory ram c a"
  shows "result (readWord45 E a) c = word_at mem c a" and "k_regs (final (readWord45 E a) c) = k_regs c"
    and "ok (k_mem (final (readWord45 E a) c))" and "undisturbed mem ram c (final (readWord45 E a) c)"
proof -
  have m: "memory_at ram c a" "memory_at ram c (a + 1)" using assms(2) by (simp_all add: word_memory_def)
  note r1 = read45_memory [OF assms(1) m(1)]
  have m2: "memory_at ram (final (read45 E a) c) (a + 1)" using r1(4) m(2) by (simp add: undisturbed_def)
  note r2 = read45_memory [OF r1(3) m2]
  have s: "seen45 mem (final (read45 E a) c) (a + 1) = seen45 mem c (a + 1)"
    using r1(4) m(2) by (simp add: undisturbed_def)
  show "result (readWord45 E a) c = word_at mem c a" "k_regs (final (readWord45 E a) c) = k_regs c"
    "ok (k_mem (final (readWord45 E a) c))" "undisturbed mem ram c (final (readWord45 E a) c)"
    using r1 r2 s undisturbed_trans [OF r1(4) r2(4)] by (simp_all add: readWord45_def word_at_def case_prod_beta)
qed

lemma fetch_memory:
  assumes "ok (k_mem c)" and "memory_at ram c (g_pc (k_regs c))"
  shows "result (fetch45 E) c = seen45 mem c (g_pc (k_regs c))"
    and "k_regs (final (fetch45 E) c) = (k_regs c)\<lparr>g_pc := g_pc (k_regs c) + 1\<rparr>"
    and "ok (k_mem (final (fetch45 E) c))" and "undisturbed mem ram c (final (fetch45 E) c)"
  using read45_memory [of "c\<lparr>k_regs := (k_regs c)\<lparr>g_pc := g_pc (k_regs c) + 1\<rparr>\<rparr>" "g_pc (k_regs c)"] assms
  by (simp_all add: fetch45_def case_prod_beta undisturbed_def)

lemma getAbs_memory:
  assumes "ok (k_mem c)" and "word_memory ram c (g_pc (k_regs c))"
  shows "result (getAbs45 E) c = operand_word mem c"
    and "k_regs (final (getAbs45 E) c) = (k_regs c)\<lparr>g_pc := g_pc (k_regs c) + 2, g_cycles := g_cycles (k_regs c) + 2\<rparr>"
    and "ok (k_mem (final (getAbs45 E) c))" and "undisturbed mem ram c (final (getAbs45 E) c)"
proof -
  let ?pc = "g_pc (k_regs c)"
  have m: "memory_at ram c ?pc" "memory_at ram c (?pc + 1)" using assms(2) by (simp_all add: word_memory_def)
  note f1 = fetch_memory [OF assms(1) m(1)]
  let ?c1 = "final (fetch45 E) c"
  have m2: "memory_at ram ?c1 (g_pc (k_regs ?c1))" and s: "seen45 mem ?c1 (?pc + 1) = seen45 mem c (?pc + 1)"
    using f1(2,4) m(2) by (simp_all add: undisturbed_def)
  note f2 = fetch_memory [OF f1(3) m2]
  have u: "undisturbed mem ram c (final (fetch45 E) ?c1)" by (rule undisturbed_trans [OF f1(4) f2(4)])
  show "result (getAbs45 E) c = operand_word mem c"
    "k_regs (final (getAbs45 E) c) = (k_regs c)\<lparr>g_pc := ?pc + 2, g_cycles := g_cycles (k_regs c) + 2\<rparr>"
    "ok (k_mem (final (getAbs45 E) c))" "undisturbed mem ram c (final (getAbs45 E) c)"
    using f1 f2 s u by (simp_all add: getAbs45_def case_prod_beta operand_word_def word_at_def undisturbed_def add.assoc)
qed

end


text \<open>What a call leaves behind for the RTS that ends its routine.\<close>

definition called ::
  "('b \<Rightarrow> u32 \<Rightarrow> u8) \<Rightarrow> u32 set \<Rightarrow> ('b \<Rightarrow> bool) \<Rightarrow> 'b cpu45 \<Rightarrow> u16 \<Rightarrow> u16 \<Rightarrow> u64 \<Rightarrow> 'b cpu45 \<Rightarrow> bool" where
  "called mem ram ok c t r n d \<longleftrightarrow>
     k_regs d = (k_regs c)\<lparr>g_sp := below (emode (k_regs c)) (below (emode (k_regs c)) (g_sp (k_regs c))), g_pc := t,
       g_cycles := g_cycles (k_regs c) + n\<rparr> \<and>
     ok (k_mem d) \<and> word_on_stack mem (emode (k_regs c)) (g_sp (k_regs c)) d r \<and>
     (\<forall>x. memory_at ram d x = memory_at ram c x)"

definition stack_memory :: "u32 set \<Rightarrow> 'b cpu45 \<Rightarrow> bool" where
  "stack_memory ram c \<longleftrightarrow> memory_at ram c (g_sp (k_regs c)) \<and>
     memory_at ram c (below (emode (k_regs c)) (g_sp (k_regs c)))"

text \<open>A state in which the frame pushed in \<open>c\<close>, with return address \<open>r\<close>, is on top of the stack.\<close>

definition frame_on_top ::
  "('b \<Rightarrow> u32 \<Rightarrow> u8) \<Rightarrow> u32 set \<Rightarrow> ('b \<Rightarrow> bool) \<Rightarrow> 'b cpu45 \<Rightarrow> u16 \<Rightarrow> 'b cpu45 \<Rightarrow> bool" where
  "frame_on_top mem ram ok c r x \<longleftrightarrow>
     (let e = emode (k_regs c); sp = g_sp (k_regs c)
      in ok (k_mem x) \<and> emode (k_regs x) = e \<and> g_sp (k_regs x) = below e (below e sp) \<and>
         memory_at ram x sp \<and> memory_at ram x (below e sp) \<and> word_on_stack mem e sp x r)"

context bus45
begin

lemma callTo_memory:
  assumes "ok (k_mem c)" and "stack_memory ram c"
  shows "called mem ram ok c t (g_pc (k_regs c) - 1) (of_nat n) (final (callTo45 E t n) c)"
proof -
  note p = push16_memory [OF assms(1), of "g_pc (k_regs c) - 1"]
  show ?thesis
    using p assms(2) by (simp add: called_def callTo45_def case_prod_beta stack_memory_def word_on_stack_def)
qed

lemma called_undisturbed:
  assumes "undisturbed mem ram c c'" and "called mem ram ok c' t r n d"
    and "k_regs c' = (k_regs c)\<lparr>g_pc := pc, g_cycles := g_cycles (k_regs c) + m\<rparr>"
  shows "called mem ram ok c t r (m + n) d"
proof -
  have "emode (k_regs c') = emode (k_regs c)" using assms(3) by (simp add: emode_def)
  then show ?thesis using assms by (simp add: called_def undisturbed_def add.assoc)
qed

lemma stack_memory_undisturbed:
  assumes "undisturbed mem ram c c'" and "k_regs c' = (k_regs c)\<lparr>g_pc := pc, g_cycles := m\<rparr>"
  shows "stack_memory ram c' = stack_memory ram c"
proof -
  have "emode (k_regs c') = emode (k_regs c)" using assms(2) by (simp add: emode_def)
  then show ?thesis using assms by (simp add: stack_memory_def undisturbed_def)
qed

lemma call_memory:
  assumes ok: "ok (k_mem c)" and st: "stack_memory ram c" and code: "word_memory ram c (g_pc (k_regs c))"
    and ptr: "word_memory ram c (call_pointer mem op c)" and op: "op \<in> set [0x20, 0x22, 0x23, 0x63]"
  shows "called mem ram ok c (call_target mem op c) (g_pc (k_regs c) + 1) (call_cycles op) (final (exec45 E q i op) c)"
proof -
  let ?c1 = "final (getAbs45 E) c"
  note a = getAbs_memory [OF ok code]
  have st1: "stack_memory ram ?c1" using stack_memory_undisturbed [OF a(4) a(2)] st by simp
  have u2: "undisturbed mem ram c (final (readWord45 E p) ?c1) \<and> result (readWord45 E p) ?c1 = word_at mem c p \<and>
      ok (k_mem (final (readWord45 E p) ?c1)) \<and> k_regs (final (readWord45 E p) ?c1) =
        (k_regs c)\<lparr>g_pc := g_pc (k_regs c) + 2, g_cycles := g_cycles (k_regs c) + 2\<rparr>"
    if "word_memory ram c p" for p
    using readWord_memory [OF a(3), of p] undisturbed_word [OF a(4) that] undisturbed_trans [OF a(4)] a(2) by simp
  have ind: "called mem ram ok c (word_at mem c p) (g_pc (k_regs c) + 1) 4
      (final (callTo45 E (word_at mem c p) 2) (final (readWord45 E p) ?c1))" if p: "word_memory ram c p" for p
  proof -
    have r: "k_regs (final (readWord45 E p) ?c1) = (k_regs c)\<lparr>g_pc := g_pc (k_regs c) + 2, g_cycles := g_cycles (k_regs c) + 2\<rparr>"
      using u2 [OF p] by simp
    have "stack_memory ram (final (readWord45 E p) ?c1)" using stack_memory_undisturbed [OF _ r] u2 [OF p] st by simp
    then have "called mem ram ok (final (readWord45 E p) ?c1) (word_at mem c p) (g_pc (k_regs c) + 1) 2
        (final (callTo45 E (word_at mem c p) 2) (final (readWord45 E p) ?c1))"
      using callTo_memory [of "final (readWord45 E p) ?c1" "word_at mem c p" 2] u2 [OF p] r
      by (simp add: add.commute)
    then show ?thesis using called_undisturbed [OF _ _ r] u2 [OF p] by fastforce
  qed
  consider "op = 0x20" | "op = 0x22" | "op = 0x23" | "op = 0x63" using op by auto
  then show ?thesis
  proof cases
    case 1
    have "called mem ram ok ?c1 (operand_word mem c) (g_pc (k_regs c) + 1) 1 (final (callTo45 E (operand_word mem c) 1) ?c1)"
      using callTo_memory [OF a(3) st1, of "operand_word mem c" 1] a(2) by (simp add: add.commute)
    then have "called mem ram ok c (operand_word mem c) (g_pc (k_regs c) + 1) (2 + 1) (final (callTo45 E (operand_word mem c) 1) ?c1)"
      by (rule called_undisturbed [OF a(4) _ a(2)])
    then show ?thesis
      using 1 a(1) by (simp add: exec_calls case_prod_beta call_target_def call_pointer_def call_cycles_def operand_word_def)
  next
    case 2
    then show ?thesis using ind [of "operand_word mem c"] u2 [of "operand_word mem c"] a(1) ptr
      by (simp add: exec_calls case_prod_beta call_target_def call_pointer_def call_cycles_def)
  next
    case 3
    define p where "p = operand_word mem c + ucast (g_x (k_regs c))"
    then show ?thesis using 3 ind [of p] u2 [of p] a(1,2) ptr
      by (simp add: exec_calls getAbsX45_def case_prod_beta call_target_def call_pointer_def call_cycles_def)
  next
    case 4
    let ?c2 = "final (readWord45 E (g_pc (k_regs c))) c"
    note r = readWord_memory [OF ok code]
    have "stack_memory ram ?c2" using stack_memory_undisturbed [OF r(4), where pc = "g_pc (k_regs c)" and m = "g_cycles (k_regs c)"] r(2) st by simp
    then have m: "memory_at ram ?c2 (g_sp (k_regs ?c2))" "memory_at ram ?c2 (below (emode (k_regs ?c2)) (g_sp (k_regs ?c2)))"
      by (simp_all add: stack_memory_def)
    note p = push16_memory [OF r(3) m, of "g_pc (k_regs c) + 1"]
    show ?thesis
      using 4 r p by (simp add: exec_calls case_prod_beta called_def call_target_def call_cycles_def operand_word_def
        undisturbed_def word_on_stack_def)
  qed
qed

end


text \<open>The same for an interrupt: the pushed PC and the byte of P below it.\<close>

definition interrupt_p45 :: "u8 \<Rightarrow> u8" where
  "interrupt_p45 p = (p AND NOT FLAG_B) OR FLAG_E"

definition byte_below_word :: "('b \<Rightarrow> u32 \<Rightarrow> u8) \<Rightarrow> bool \<Rightarrow> u16 \<Rightarrow> 'b cpu45 \<Rightarrow> u16 \<Rightarrow> u8 \<Rightarrow> bool" where
  "byte_below_word mem e sp c w v \<longleftrightarrow> word_on_stack mem e sp c w \<and> seen45 mem c (below e (below e sp)) = v"

lemma pulledP_regs [simp]: "emode (pulledP v s) = emode s" "g_sp (pulledP v s) = g_sp s"
  "g_hypervisor (pulledP v s) = g_hypervisor s"
proof -
  have b: "bit (FLAG_B OR FLAG_E) 5" unfolding bit_or_iff bit_mask8 by simp
  then show "emode (pulledP v s) = emode s" by (simp add: emode_def pulledP_def tst_bit bit_and_iff bit_or_iff bit_not_iff)
qed (simp_all add: pulledP_def)

context bus45
begin

lemma called_frame:
  assumes "called mem ram ok c t r n d" and "stack_memory ram c"
  shows "frame_on_top mem ram ok c r d"
  using assms by (simp add: called_def frame_on_top_def stack_memory_def Let_def)

lemma rts_memory:
  assumes "frame_on_top mem ram ok c r x"
  shows "k_regs (final (exec45 E q i 0x60) x) =
    (k_regs x)\<lparr>g_sp := g_sp (k_regs c), g_pc := r + 1, g_cycles := g_cycles (k_regs x) + 3\<rparr>"
  using assms pull16_memory [of x "g_sp (k_regs c)" r] by (simp add: exec_calls case_prod_beta frame_on_top_def Let_def)

lemma interrupt_memory:
  fixes c v
  defines "e \<equiv> emode (k_regs c)" and "sp \<equiv> g_sp (k_regs c)" and "d \<equiv> final (interrupt45 E v) c"
  assumes ok: "ok (k_mem c)" and st: "stack_memory ram c" and low: "memory_at ram c (below e (below e sp))"
    and vec: "word_memory ram c v" and off: "{v, v + 1} \<inter> {sp, below e sp, below e (below e sp)} = {}"
  shows "k_regs d = (k_regs c)\<lparr>g_sp := below e (below e (below e sp)), g_pc := word_at mem c v,
      g_p := g_p (k_regs c) OR FLAG_I, g_cycles := g_cycles (k_regs c) + 7\<rparr>"
    and "ok (k_mem d)" and "byte_below_word mem e sp d (g_pc (k_regs c)) (interrupt_p45 (g_p (k_regs c)))"
    and "memory_at ram d x = memory_at ram c x" and "result (interrupt45 E v) c = 7"
proof -
  define c1 where "c1 = final (push16_45 E (g_pc (k_regs c))) c"
  define p where "p = interrupt_p45 (g_p (k_regs c))"
  define c2 where "c2 = final (push8_45 E p) c1"
  define c3 where "c3 = c2\<lparr>k_regs := setP45 FLAG_I (k_regs c2)\<rparr>"
  have m: "memory_at ram c sp" "memory_at ram c (below e sp)" using st by (simp_all add: stack_memory_def e_def sp_def)
  note p1 = push16_memory [OF ok m [unfolded e_def sp_def], where v = "g_pc (k_regs c)", folded c1_def e_def sp_def]
  have m1: "memory_at ram c1 (g_sp (k_regs c1))" using p1(1,4) low by simp
  note p2 = push8_memory [OF p1(2) m1, of p, folded c2_def]
  have e1: "emode (k_regs c1) = e" using p1(1) by (simp add: e_def)
  have r2: "k_regs c2 = (k_regs c)\<lparr>g_sp := below e (below e (below e sp))\<rparr>" using p2(1) p1(1) by (simp add: e_def)
  have all2: "memory_at ram c2 x = memory_at ram c x" for x using p2(3) p1(4) by (simp add: after_write_def)
  have see2: "seen45 mem c2 x = (if x = below e (below e sp) then p else seen45 mem c1 x)" if "memory_at ram c x" for x
    using p2(3) p1(1,4) that by (simp add: after_write_def)
  have hyp: "g_hypervisor (setP45 FLAG_I (k_regs c2)) = g_hypervisor (k_regs c2)" by (simp add: setP45_def)
  have see3: "seen45 mem c3 = seen45 mem c2" "memory_at ram c3 = memory_at ram c2"
    using hyp by (simp_all add: c3_def fun_eq_iff)
  have ok3: "ok (k_mem c3)" using p2(2) by (simp add: c3_def)
  have vm: "word_memory ram c3 v" using vec all2 by (simp add: see3 word_memory_def)
  note r3 = readWord_memory [OF ok3 vm]
  have keep: "seen45 mem c1 x = seen45 mem c x" if "memory_at ram c x" "x \<noteq> sp" "x \<noteq> below e sp" for x
    using p1(5) that by blast
  have w: "word_at mem c3 v = word_at mem c v"
  proof -
    have n: "v \<noteq> sp" "v \<noteq> below e sp" "v \<noteq> below e (below e sp)" "v + 1 \<noteq> sp" "v + 1 \<noteq> below e sp"
      "v + 1 \<noteq> below e (below e sp)" using off by auto
    then show ?thesis using vec see2 keep by (simp add: word_at_def see3 word_memory_def)
  qed
  have run: "run_state (interrupt45 E v) c = (7, (final (readWord45 E v) c3)\<lparr>k_regs :=
      (k_regs (final (readWord45 E v) c3))\<lparr>g_pc := result (readWord45 E v) c3,
        g_cycles := g_cycles (k_regs (final (readWord45 E v) c3)) + 7\<rparr>\<rparr>)"
  proof -
    have "g_p (k_regs c1) = g_p (k_regs c)" using p1(1) by simp
    then show ?thesis
      by (simp add: interrupt45_def push16_45_def case_prod_beta c1_def c2_def c3_def p_def interrupt_p45_def)
  qed
  show "result (interrupt45 E v) c = 7" by (simp add: run)
  show "k_regs d = (k_regs c)\<lparr>g_sp := below e (below e (below e sp)), g_pc := word_at mem c v,
      g_p := g_p (k_regs c) OR FLAG_I, g_cycles := g_cycles (k_regs c) + 7\<rparr>"
    by (simp add: d_def run r3 w) (simp add: c3_def r2 setP45_def)
  show "ok (k_mem d)" by (simp add: d_def run r3)
  have u: "memory_at ram d x = memory_at ram c x" "memory_at ram c x \<Longrightarrow> seen45 mem d x = seen45 mem c2 x" for x
    using r3(4) all2 by (simp_all add: d_def run see3 undisturbed_def)
  then show "memory_at ram d x = memory_at ram c x" by simp
  show "byte_below_word mem e sp d (g_pc (k_regs c)) (interrupt_p45 (g_p (k_regs c)))"
    using p1(3) u(2) m low see2 by (simp add: byte_below_word_def word_on_stack_def p_def)
qed

lemma rti_memory:
  assumes "ok (k_mem x)" and "e = emode (k_regs x)" and "g_sp (k_regs x) = below e (below e (below e sp))"
    and "memory_at ram x sp" "memory_at ram x (below e sp)" "memory_at ram x (below e (below e sp))"
    and "byte_below_word mem e sp x w v"
  shows "k_regs (final (exec45 E q i 0x40) x) = (pulledP v (k_regs x))\<lparr>g_sp := sp, g_pc := w, g_cycles := g_cycles (k_regs x) + 3\<rparr>"
proof -
  define b2 where "b2 = below e (below e sp)"
  have a: "above (emode (k_regs x)) (g_sp (k_regs x)) = b2" using assms(2,3) by (simp add: b2_def)
  note p = pull8_memory [OF assms(1), unfolded a, OF assms(6) [folded b2_def]]
  define y where "y = (final (pull8_45 E) x)\<lparr>k_regs := pulledP v (k_regs (final (pull8_45 E) x))\<rparr>"
  have v: "result (pull8_45 E) x = v" using p(1) assms(7) by (simp add: byte_below_word_def b2_def)
  have ry: "k_regs y = pulledP v ((k_regs x)\<lparr>g_sp := b2\<rparr>)" using p(2) by (simp add: y_def)
  have ey: "emode (k_regs y) = e" using assms(2) by (simp add: ry)
  have my: "memory_at ram y = memory_at ram (final (pull8_45 E) x)" "seen45 mem y = seen45 mem (final (pull8_45 E) x)"
    by (simp_all add: y_def fun_eq_iff)
  have y: "ok (k_mem y)" "g_sp (k_regs y) = below (emode (k_regs y)) (below (emode (k_regs y)) sp)"
    "memory_at ram y sp" "memory_at ram y (below (emode (k_regs y)) sp)" "word_on_stack mem (emode (k_regs y)) sp y w"
  proof -
    show "ok (k_mem y)" using p(3) by (simp add: y_def)
    show "g_sp (k_regs y) = below (emode (k_regs y)) (below (emode (k_regs y)) sp)" unfolding ey by (simp add: ry b2_def)
    show "memory_at ram y sp" "memory_at ram y (below (emode (k_regs y)) sp)" "word_on_stack mem (emode (k_regs y)) sp y w"
      unfolding ey my using p(4) assms(4,5,7)
      by (simp_all add: my undisturbed_def byte_below_word_def word_on_stack_def)
  qed
  show ?thesis
    using pull16_memory [OF y] v by (simp add: exec_calls case_prod_beta y_def [symmetric]) (simp add: ry pulledP_def)
qed

end


section \<open>Correctness of calls and interrupts\<close>

interpretation flat45: bus45 flat_ibus fb_data ram64 "flat_ok ram64" "plain45 flat_ibus None"
  by unfold_locales (simp add: plain45_def)

text \<open>A 45GS02 on a 64 KB bus whose memory is filled with one byte, in either stack mode.\<close>

definition filled_machine :: "u8 \<Rightarrow> u8 \<Rightarrow> u16 \<Rightarrow> u16 \<Rightarrow> unit flat_bus cpu45" where
  "filled_machine v p sp pc = (cpu45_new ((flat_new 16 ())\<lparr>fb_data := (\<lambda>_. v)\<rparr>))
     \<lparr>k_regs := (k_regs (cpu45_new (flat_new 16 ())))\<lparr>g_p := p, g_sp := sp, g_pc := pc\<rparr>\<rparr>"

lemma filled_machine_simps [simp]:
  "g_sp (k_regs (filled_machine v p sp pc)) = sp" "g_pc (k_regs (filled_machine v p sp pc)) = pc"
  "g_p (k_regs (filled_machine v p sp pc)) = p" "g_x (k_regs (filled_machine v p sp pc)) = 0"
  "memory_at ram64 (filled_machine v p sp pc) a" "seen45 fb_data (filled_machine v p sp pc) a = v"
  "flat_ok ram64 (k_mem (filled_machine v p sp pc))"
  using flat_new_ok [of "()"] flat_ok_static [of "(flat_new 16 ())\<lparr>fb_data := (\<lambda>_. v)\<rparr>" "flat_new 16 ()" ram64]
  by (simp_all add: filled_machine_def cpu45_new_def memory_at_def seen45_def hyper_window_def flat_static_def)

text \<open>
  C36: On every bus with RAM where the stack is (the hypervisor's own memory included) and in both stack
  modes, each of the four call instructions JSR \<open>abs\<close>, JSR \<open>(abs)\<close>, JSR \<open>(abs,X)\<close> and BSR goes to its
  target and leaves its frame on the stack, and changes no register but PC, SP and the cycle count: A, X,
  Y, Z, B, P and all the rest are the caller's. Whenever that frame is on top of the stack again, RTS
  continues at the instruction after the call with the stack pointer the caller had and every other
  register as the routine left it; so a routine that is an RTS gives the caller all its registers back.
\<close>

theorem call45_returns:
  fixes c :: "'b cpu45" and q i :: bool and op :: u8
  assumes "bus45 ib mem ram ok E" and "ok (k_mem c)" and "stack_memory ram c"
    and "word_memory ram c (g_pc (k_regs c))" and "word_memory ram c (call_pointer mem op c)"
    and "op \<in> set [0x20, 0x22, 0x23, 0x63]"
  defines "d \<equiv> final (exec45 E q i op) c" and "s \<equiv> k_regs c"
  shows "k_regs d = s\<lparr>g_sp := below (emode s) (below (emode s) (g_sp s)), g_pc := call_target mem op c,
      g_cycles := g_cycles s + call_cycles op\<rparr>
    \<and> frame_on_top mem ram ok c (g_pc s + 1) d
    \<and> (\<forall>x. frame_on_top mem ram ok c (g_pc s + 1) x \<longrightarrow>
        k_regs (final (exec45 E q' i' 0x60) x) =
        (k_regs x)\<lparr>g_sp := g_sp s, g_pc := g_pc s + 2, g_cycles := g_cycles (k_regs x) + 3\<rparr>)
    \<and> k_regs (final (exec45 E q' i' 0x60) d) = s\<lparr>g_pc := g_pc s + 2, g_cycles := g_cycles s + call_cycles op + 3\<rparr>"
proof -
  note c = bus45.call_memory [OF assms(1-6), of q i, folded d_def]
  have k: "k_regs d = s\<lparr>g_sp := below (emode s) (below (emode s) (g_sp s)), g_pc := call_target mem op c,
      g_cycles := g_cycles s + call_cycles op\<rparr>"
    using c by (simp add: called_def s_def)
  have f: "frame_on_top mem ram ok c (g_pc s + 1) d"
    using bus45.called_frame [OF assms(1) c assms(3)] by (simp add: s_def)
  have r: "k_regs (final (exec45 E q' i' 0x60) x) =
      (k_regs x)\<lparr>g_sp := g_sp s, g_pc := g_pc s + 2, g_cycles := g_cycles (k_regs x) + 3\<rparr>"
    if "frame_on_top mem ram ok c (g_pc s + 1) x" for x
    using bus45.rts_memory [OF assms(1) that] by (simp add: s_def add.assoc)
  show ?thesis using k f r r [OF f] by (simp add: s_def)
qed

theorem call45_returns_witness:
  "let E = plain45 flat_ibus None; c = filled_machine 0x12 0 0x0300 0x4000; d = final (exec45 E False False 0x20) c
   in g_pc (k_regs d) = 0x1212 \<and> k_regs (final (exec45 E False False 0x60) d) = (k_regs c)\<lparr>g_pc := 0x4002,
      g_cycles := g_cycles (k_regs c) + 6\<rparr>"
  using call45_returns [OF flat45.bus45_axioms, of "filled_machine 0x12 0 0x0300 0x4000" "0x20" False False False False]
  by (simp add: stack_memory_def word_memory_def call_target_def call_pointer_def call_cycles_def word_at_def mk16_def Let_def)

text \<open>The frame of an interrupt taken in \<open>c\<close> on top of the stack.\<close>

definition interrupt_frame ::
  "('b \<Rightarrow> u32 \<Rightarrow> u8) \<Rightarrow> u32 set \<Rightarrow> ('b \<Rightarrow> bool) \<Rightarrow> 'b cpu45 \<Rightarrow> 'b cpu45 \<Rightarrow> bool" where
  "interrupt_frame mem ram ok c x \<longleftrightarrow>
     (let e = emode (k_regs c); sp = g_sp (k_regs c)
      in ok (k_mem x) \<and> emode (k_regs x) = e \<and> g_sp (k_regs x) = below e (below e (below e sp)) \<and>
         memory_at ram x sp \<and> memory_at ram x (below e sp) \<and> memory_at ram x (below e (below e sp)) \<and>
         byte_below_word mem e sp x (g_pc (k_regs c)) (interrupt_p45 (g_p (k_regs c))))"

lemma emode_setI: "emode (s\<lparr>g_p := g_p s OR FLAG_I\<rparr>) = emode s"
  by (simp add: emode_def tst_bit bit_or_iff bit_mask8)

lemma pulledP_interrupt: "pulledP (interrupt_p45 p) s = s\<lparr>g_p := (p AND NOT (FLAG_B OR FLAG_E)) OR (g_p s AND (FLAG_B OR FLAG_E))\<rparr>"
proof -
  have "interrupt_p45 p AND NOT (FLAG_B OR FLAG_E) = p AND NOT (FLAG_B OR FLAG_E)"
    unfolding interrupt_p45_def by (rule u8_eqI) (auto simp only: bit_and_iff bit_or_iff bit_not_iff)
  then show ?thesis unfolding pulledP_def by (simp only:)
qed

text \<open>
  C37: Taking an IRQ or NMI pushes PC and P, sets I and continues at the vector, in seven cycles and both
  stack modes, and changes no other register; whenever its frame is on top of the stack again, RTI continues
  the interrupted program at its PC with its stack pointer and its flags N, V, D, I, Z and C, while B and E
  stay as they are.
\<close>

theorem interrupt45_returns:
  assumes "bus45 ib mem ram ok E" and "ok (k_mem c)" and "stack_memory ram c"
    and "memory_at ram c (below (emode (k_regs c)) (below (emode (k_regs c)) (g_sp (k_regs c))))"
    and "word_memory ram c v"
    and "{v, v + 1} \<inter> {g_sp (k_regs c), below (emode (k_regs c)) (g_sp (k_regs c)),
      below (emode (k_regs c)) (below (emode (k_regs c)) (g_sp (k_regs c)))} = {}"
  defines "d \<equiv> final (interrupt45 E v) c"
  shows "result (interrupt45 E v) c = 7 \<and> g_pc (k_regs d) = word_at mem c v \<and> g_p (k_regs d) = g_p (k_regs c) OR FLAG_I \<and>
    g_cycles (k_regs d) = g_cycles (k_regs c) + 7 \<and> interrupt_frame mem ram ok c d \<and>
    k_regs d = (k_regs c)\<lparr>g_sp := g_sp (k_regs d), g_pc := g_pc (k_regs d), g_p := g_p (k_regs d), g_cycles := g_cycles (k_regs d)\<rparr> \<and>
    (\<forall>x. interrupt_frame mem ram ok c x \<longrightarrow> k_regs (final (exec45 E q i 0x40) x) = (k_regs x)\<lparr>
      g_sp := g_sp (k_regs c), g_pc := g_pc (k_regs c),
      g_p := (g_p (k_regs c) AND NOT (FLAG_B OR FLAG_E)) OR (g_p (k_regs x) AND (FLAG_B OR FLAG_E)),
      g_cycles := g_cycles (k_regs x) + 3\<rparr>)"
proof -
  note I = bus45.interrupt_memory [OF assms(1-6), folded d_def]
  have e: "emode (k_regs d) = emode (k_regs c)"
    using I(1) emode_setI [of "k_regs c"] by (simp add: emode_def)
  have "interrupt_frame mem ram ok c d"
    using I e assms(3,4) by (simp add: interrupt_frame_def Let_def stack_memory_def)
  moreover have "k_regs (final (exec45 E q i 0x40) x) = (k_regs x)\<lparr>
      g_sp := g_sp (k_regs c), g_pc := g_pc (k_regs c),
      g_p := (g_p (k_regs c) AND NOT (FLAG_B OR FLAG_E)) OR (g_p (k_regs x) AND (FLAG_B OR FLAG_E)),
      g_cycles := g_cycles (k_regs x) + 3\<rparr>" if "interrupt_frame mem ram ok c x" for x
    using bus45.rti_memory [OF assms(1), of x "emode (k_regs c)" "g_sp (k_regs c)" "g_pc (k_regs c)"
        "interrupt_p45 (g_p (k_regs c))"] that
    by (simp only: interrupt_frame_def Let_def pulledP_interrupt) simp
  ultimately show ?thesis using I(1,5) by simp
qed

theorem interrupt45_returns_witness:
  "let E = plain45 flat_ibus None; c = filled_machine 0x12 0x21 0x01FF 0x4000; d = final (interrupt45 E 0xFFFE) c
   in g_pc (k_regs d) = 0x1212 \<and> g_p (k_regs d) = 0x25 \<and> g_pc (k_regs (final (exec45 E False False 0x40) d)) = 0x4000 \<and>
      g_p (k_regs (final (exec45 E False False 0x40) d)) = 0x21"
  using interrupt45_returns [OF flat45.bus45_axioms, of "filled_machine 0x12 0x21 0x01FF 0x4000" "0xFFFE" False False]
  by (simp add: stack_memory_def word_memory_def word_at_def mk16_def Let_def below_def emode_def lo8_def hi8_def tst_def)

end
