(* ===== verification/Mega65Cpu.thy ===== *)
theory Mega65Cpu
  imports Cpu45Flow Mega65Banks F018bDma
begin

text \<open>
  The 45GS02 in its machine: the mapper as the \<open>IMapController\<close> of the processor, the hooks
  \<open>machine_mega65.cpp\<close> installs for the entry to and the return from the hypervisor, and the
  virtualisation registers at \<open>$D640-$D67F\<close>
  (\<open>plugins/devices/mega65_hypervisor/main/hypervisor_regs.h\<close>, \<open>hypervisor_regs.cpp\<close>). In the program the
  store that causes a trap reaches the registers over the bus during the instruction; here an access to
  them is an operation on the processor by itself. Calls the machine serves itself are a parameter.
\<close>

section \<open>The board\<close>

text \<open>What the hooks capture, with the mapper behind the processor.\<close>

record ('p, 'd) board =
  bd_mmu :: "('p, 'd) map_mmu"
  bd_bank :: bank_ctrl
  bd_key :: key_register
  bd_dma :: f018b

definition on_mmu :: "(('p, 'd) map_mmu, 'a) state \<Rightarrow> (('p, 'd) board, 'a) state" where
  "on_mmu m = State_Monad.State (\<lambda>b. let r = run_state m (bd_mmu b) in (fst r, b\<lparr>bd_mmu := snd r\<rparr>))"

definition lift_ibus :: "(('p, 'd) map_mmu) ibus \<Rightarrow> (('p, 'd) board) ibus" where
  "lift_ibus ib = \<lparr>ib_read8 = (\<lambda>a. on_mmu (ib_read8 ib a)), ib_write8 = (\<lambda>a v. on_mmu (ib_write8 ib a v)),
     ib_peek8 = (\<lambda>a. on_mmu (ib_peek8 ib a)), ib_littleEndian = ib_littleEndian ib\<rparr>"

definition phys_ibus :: "'p ibus \<Rightarrow> (('p, 'd) map_mmu) ibus" where
  "phys_ibus ib = \<lparr>ib_read8 = (\<lambda>a. on_phys (ib_read8 ib a)), ib_write8 = (\<lambda>a v. on_phys (ib_write8 ib a v)),
     ib_peek8 = (\<lambda>a. on_phys (ib_peek8 ib a)), ib_littleEndian = ib_littleEndian ib\<rparr>"

text \<open>\<open>MapMmu\<close> as a map controller.\<close>

definition board_ctrl :: "'p ibus \<Rightarrow> (('p, 'd) board) map_ctrl" where
  "board_ctrl phys = \<lparr>mc_getMapState = (\<lambda>b. mm_mapState (bd_mmu b)),
     mc_setMapState = (\<lambda>ms b. b\<lparr>bd_mmu := setMapState ms (bd_mmu b)\<rparr>),
     mc_clearMapState = (\<lambda>b. b\<lparr>bd_mmu := clearMapState (bd_mmu b)\<rparr>),
     mc_physBus = Some (lift_ibus (phys_ibus phys))\<rparr>"

definition kModeBits :: "personality \<Rightarrow> u8" where
  "kModeBits p = (case p of C64Mode \<Rightarrow> 0 | C65Mode \<Rightarrow> 1 | Mega65Mode \<Rightarrow> 3 | EthernetMode \<Rightarrow> 2)"

definition kModes :: "u8 \<Rightarrow> personality" where
  "kModes v = (if v AND 3 = 0 then C64Mode else if v AND 3 = 1 then C65Mode
     else if v AND 3 = 2 then EthernetMode else Mega65Mode)"

definition onHyperEnter :: "hyper_state \<Rightarrow> ('p, 'd) board \<Rightarrow> hyper_state \<times> ('p, 'd) board" where
  "onHyperEnter h b =
     (h\<lparr>hs_port00 := bc_portDDR (bd_bank b), hs_port01 := bc_portOut (bd_bank b),
        hs_vicMode := kModeBits (kr_personality (bd_key b)), hs_dmaListAddr := fd_dmaListAddr (bd_dma b)\<rparr>,
      b\<lparr>bd_bank := setPort 0x3F 0x35 (bd_bank b), bd_key := setPersonality Mega65Mode (bd_key b)\<rparr>)"

definition onHyperExit :: "hyper_state \<Rightarrow> ('p, 'd) board \<Rightarrow> ('p, 'd) board" where
  "onHyperExit h b = b\<lparr>bd_bank := setPort (hs_port00 h) (hs_port01 h) (bd_bank b),
     bd_key := setPersonality (kModes (hs_vicMode h)) (bd_key b),
     bd_dma := setListAddr (hs_dmaListAddr h) (bd_dma b)\<rparr>"

text \<open>The processor of the MEGA65 on a virtual and a physical bus.\<close>

definition m65_env :: "(('p, 'd) board) ibus \<Rightarrow> 'p ibus \<Rightarrow> (('p, 'd) board) env45" where
  "m65_env ib phys = (plain45 ib (Some (board_ctrl phys)))
     \<lparr>ge_onHyperEnter := Some onHyperEnter, ge_onHyperExit := Some onHyperExit\<rparr>"

section \<open>The virtualisation registers\<close>

definition hyper_reg :: "u8 \<Rightarrow> hyper_state \<Rightarrow> u8" where
  "hyper_reg off h =
     (if off = 0x00 then hs_regA h else if off = 0x01 then hs_regX h else if off = 0x02 then hs_regY h
      else if off = 0x03 then hs_regZ h else if off = 0x04 then hs_regB h else if off = 0x05 then hs_spl h
      else if off = 0x06 then hs_sph h else if off = 0x07 then hs_pflags h
      else if off = 0x08 then ucast (hs_pc h AND 0xFF) else if off = 0x09 then ucast (drop_bit 8 (hs_pc h) AND 0xFF)
      else if off = 0x0A then ucast ((drop_bit 16 (hs_mapOffsetLow h) AND 0x0F) OR push_bit 4 (ucast (hs_mapEnables h AND 0x0F)))
      else if off = 0x0B then ucast (drop_bit 8 (hs_mapOffsetLow h) AND 0xFF)
      else if off = 0x0C then ucast ((drop_bit 16 (hs_mapOffsetHigh h) AND 0x0F) OR ucast (hs_mapEnables h AND 0xF0))
      else if off = 0x0D then ucast (drop_bit 8 (hs_mapOffsetHigh h) AND 0xFF)
      else if off = 0x0E then ucast (drop_bit 20 (hs_megabyteLow h) AND 0xFF)
      else if off = 0x0F then ucast (drop_bit 20 (hs_megabyteHigh h) AND 0xFF)
      else if off = 0x10 then hs_port00 h else if off = 0x11 then hs_port01 h else if off = 0x12 then hs_vicMode h
      else if off = 0x13 then hs_dmaSrcMB h else if off = 0x14 then hs_dmaDstMB h
      else if off = 0x15 then ucast (hs_dmaListAddr h AND 0xFF)
      else if off = 0x16 then ucast (drop_bit 8 (hs_dmaListAddr h) AND 0xFF)
      else if off = 0x17 then ucast (drop_bit 16 (hs_dmaListAddr h) AND 0xFF)
      else if off = 0x18 then ucast (drop_bit 24 (hs_dmaListAddr h) AND 0x0F)
      else 0)"

definition hyper_ioRead :: "u32 \<Rightarrow> 'b cpu45 \<Rightarrow> u8 option" where
  "hyper_ioRead addr c =
     (if addr AND NOT 0x3F \<noteq> 0xD640 then None
      else if \<not> g_hypervisor (k_regs c) then Some 0xFF
      else Some (hyper_reg (ucast (addr AND 0x3F)) (k_hyper c)))"

definition set_hyper_reg :: "u8 \<Rightarrow> u8 \<Rightarrow> hyper_state \<Rightarrow> hyper_state" where
  "set_hyper_reg off val h =
     (if off = 0x00 then h\<lparr>hs_regA := val\<rparr> else if off = 0x01 then h\<lparr>hs_regX := val\<rparr>
      else if off = 0x02 then h\<lparr>hs_regY := val\<rparr> else if off = 0x03 then h\<lparr>hs_regZ := val\<rparr>
      else if off = 0x04 then h\<lparr>hs_regB := val\<rparr> else if off = 0x05 then h\<lparr>hs_spl := val\<rparr>
      else if off = 0x06 then h\<lparr>hs_sph := val\<rparr> else if off = 0x07 then h\<lparr>hs_pflags := val\<rparr>
      else if off = 0x08 then h\<lparr>hs_pc := (hs_pc h AND 0xFF00) OR ucast val\<rparr>
      else if off = 0x09 then h\<lparr>hs_pc := (hs_pc h AND 0x00FF) OR push_bit 8 (ucast val)\<rparr>
      else if off = 0x0A then h\<lparr>hs_mapOffsetLow := (hs_mapOffsetLow h AND 0x0FF00) OR push_bit 16 (ucast (val AND 0x0F)),
        hs_mapEnables := (hs_mapEnables h AND 0xF0) OR drop_bit 4 val\<rparr>
      else if off = 0x0B then h\<lparr>hs_mapOffsetLow := (hs_mapOffsetLow h AND 0xF0000) OR push_bit 8 (ucast val)\<rparr>
      else if off = 0x0C then h\<lparr>hs_mapOffsetHigh := (hs_mapOffsetHigh h AND 0x0FF00) OR push_bit 16 (ucast (val AND 0x0F)),
        hs_mapEnables := (hs_mapEnables h AND 0x0F) OR (val AND 0xF0)\<rparr>
      else if off = 0x0D then h\<lparr>hs_mapOffsetHigh := (hs_mapOffsetHigh h AND 0xF0000) OR push_bit 8 (ucast val)\<rparr>
      else if off = 0x0E then h\<lparr>hs_megabyteLow := push_bit 20 (ucast val)\<rparr>
      else if off = 0x0F then h\<lparr>hs_megabyteHigh := push_bit 20 (ucast val)\<rparr>
      else if off = 0x10 then h\<lparr>hs_port00 := val\<rparr> else if off = 0x11 then h\<lparr>hs_port01 := val\<rparr>
      else if off = 0x12 then h\<lparr>hs_vicMode := val\<rparr> else if off = 0x13 then h\<lparr>hs_dmaSrcMB := val\<rparr>
      else if off = 0x14 then h\<lparr>hs_dmaDstMB := val\<rparr>
      else if off = 0x15 then h\<lparr>hs_dmaListAddr := (hs_dmaListAddr h AND 0x0FFFFF00) OR ucast val\<rparr>
      else if off = 0x16 then h\<lparr>hs_dmaListAddr := (hs_dmaListAddr h AND 0x0FFF00FF) OR push_bit 8 (ucast val)\<rparr>
      else if off = 0x17 then h\<lparr>hs_dmaListAddr := (hs_dmaListAddr h AND 0x0F00FFFF) OR push_bit 16 (ucast val)\<rparr>
      else if off = 0x18 then h\<lparr>hs_dmaListAddr := (hs_dmaListAddr h AND 0x00FFFFFF) OR push_bit 24 (ucast (val AND 0x0F))\<rparr>
      else h)"

text \<open>A trap from user mode: only if EOM or CLV follows; the machine may serve the call itself.\<close>

definition trap_follows :: "'b env45 \<Rightarrow> ('b cpu45, bool) state" where
  "trap_follows E = (case ge_bus E of
     None \<Rightarrow> State_Monad.return True
   | Some ib \<Rightarrow> do {
       pc \<leftarrow> reg45 g_pc; nextOp \<leftarrow> mem45 (ib_peek8 ib (ucast pc)); State_Monad.return (nextOp = 0xEA \<or> nextOp = 0xB8) })"

definition hyper_trap :: "'b env45 \<Rightarrow> (u8 \<Rightarrow> u8 \<Rightarrow> ('b cpu45, bool) state) option \<Rightarrow> u8 \<Rightarrow> ('b cpu45, unit) state" where
  "hyper_trap E callIntercept off = do {
     follows \<leftarrow> trap_follows E;
     (if \<not> follows then skip
      else do {
        a \<leftarrow> reg45 g_a;
        enterHypervisor E (0x8000 + ucast off * 4);
        served \<leftarrow> (case callIntercept of
           Some f \<Rightarrow> f off (if off = 0x00 then a AND 0x7E else a) | None \<Rightarrow> State_Monad.return False);
        (if served then exitHypervisor E else skip) }) }"

definition hyper_ioWrite ::
  "'b env45 \<Rightarrow> (u8 \<Rightarrow> u8 \<Rightarrow> ('b cpu45, bool) state) option \<Rightarrow> u32 \<Rightarrow> u8 \<Rightarrow> ('b cpu45, bool) state" where
  "hyper_ioWrite E callIntercept addr val =
     (if addr AND NOT 0x3F \<noteq> 0xD640 then State_Monad.return False
      else do {
        hv \<leftarrow> reg45 g_hypervisor;
        let off = ucast (addr AND 0x3F);
        (if \<not> hv then hyper_trap E callIntercept off
         else if off = 0x3F then exitHypervisor E
         else modify (\<lambda>c. c\<lparr>k_hyper := set_hyper_reg off val (k_hyper c)\<rparr>));
        State_Monad.return True })"

section \<open>Maps\<close>

text \<open>The map states the processor and the registers produce have one offset for each half.\<close>

definition map_canonical :: "map_state \<Rightarrow> bool" where
  "map_canonical ms \<longleftrightarrow> ms_offsets ms =
     replicate 4 (ms_offsets ms ! 0 AND 0xFFF00) @ replicate 4 (ms_offsets ms ! 4 AND 0xFFF00)"

text \<open>What a half of the map is after MAP: the offset its two registers give.\<close>

definition half_offset :: "u8 \<Rightarrow> u8 \<Rightarrow> nat" where
  "half_offset high low = unat high mod 16 * 65536 + unat low * 256"

lemma unat_widened: "unat (ucast (w :: u8) :: u32) = unat w"
  by simp

lemma unat_low_nibble: "unat (x AND 0x0F :: u8) = unat x mod 16"
proof -
  have "unat (x AND mask 4 :: u8) = unat x mod 2 ^ 4"
    unfolding take_bit_eq_mask [symmetric] unsigned_take_bit_eq by (simp add: take_bit_eq_mod)
  then show ?thesis by (simp add: mask_eq_exp_minus_1)
qed

lemma half_offset_word:
  "unat (push_bit 16 (ucast (x AND 0x0F)) OR push_bit 8 (ucast a) :: u32) = half_offset x a"
proof -
  have x: "unat (ucast (x AND 0x0F) :: u32) = unat x mod 16" unfolding unat_widened by (rule unat_low_nibble)
  have a: "unat (ucast a :: u32) = unat a" by (rule unat_widened)
  have lt: "unat a < 256" "unat x mod 16 < 16" using unsigned_less [of a] by simp_all
  have "push_bit 16 (ucast (x AND 0x0F)) OR push_bit 8 (ucast a) =
        push_bit 16 (ucast (x AND 0x0F)) + (push_bit 8 (ucast a) :: u32)"
  proof (rule disjunctive_add [symmetric])
    fix n show "\<not> bit (push_bit 16 (ucast (x AND 0x0F)) :: u32) n \<or> \<not> bit (push_bit 8 (ucast a) :: u32) n"
      using bit_imp_le_length [of a "n - 8"] by (cases "16 \<le> n") (auto simp: bit_simps)
  qed
  moreover have "unat (push_bit 16 (ucast (x AND 0x0F)) :: u32) = unat x mod 16 * 65536"
    unfolding push_bit_eq_mult unat_word_ariths x using lt by simp
  moreover have "unat (push_bit 8 (ucast a) :: u32) = unat a * 256"
  proof -
    have "unat a * 256 < 4294967296" using lt by linarith
    then show ?thesis unfolding push_bit_eq_mult unat_word_ariths a by (simp add: mod_less)
  qed
  moreover have "unat x mod 16 * 65536 + unat a * 256 < 4294967296" using lt by linarith
  ultimately show ?thesis
    unfolding half_offset_def using unat_add_lem [of "push_bit 16 (ucast (x AND 0x0F)) :: u32" "push_bit 8 (ucast a)"] by simp
qed

lemma translate_parts:
  assumes "unat v < 65536"
  shows "translate ms v =
     (if bit (ms_enables ms) (block_of v)
      then megabyte_of ms v + of_nat ((unat (ms_offsets ms ! block_of v) div 256 + unat v div 256) mod 4096 * 256 + unat v mod 256)
      else v)"
proof (cases "bit (ms_enables ms) (block_of v)")
  case True
  then obtain p where "translate ms v = megabyte_of ms v + p" "unat p = mapped_page ms v * 256 + unat v mod 256"
    using translate_mapped [OF assms] by blast
  moreover from this(2) have "p = of_nat (mapped_page ms v * 256 + unat v mod 256)"
    by (rule subst) simp
  ultimately show ?thesis using True by (simp add: mapped_page_def)
qed (simp add: translate_unmapped [OF assms])

lemma paged_sum: "256 dvd off \<Longrightarrow> (off div 256 + v div 256) mod 4096 * 256 + v mod 256 = (off + v) mod 1048576" for off v :: nat
proof -
  assume "256 dvd off"
  then have "(off + v) div 256 = off div 256 + v div 256" "(off + v) mod 256 = v mod 256" by auto
  then show ?thesis using mod_mult2_eq [of "off + v" 256 4096] by simp
qed

text \<open>A half of the map after MAP in numbers.\<close>

lemma translate_half:
  assumes "unat v < 65536" and "unat (ms_offsets ms ! block_of v) = half_offset high low"
  shows "translate ms v = (if bit (ms_enables ms) (block_of v)
     then megabyte_of ms v + of_nat ((half_offset high low + unat v) mod 1048576) else v)"
proof -
  have "256 dvd half_offset high low" by (simp add: half_offset_def)
  then show ?thesis unfolding translate_parts [OF assms(1)] assms(2) by (simp add: paged_sum)
qed

lemma enable_bits:
  fixes en x z :: u8
  shows "k < 4 \<Longrightarrow> bit ((en AND 0xF0) OR (drop_bit 4 x AND 0x0F)) k = bit x (4 + k)"
    and "4 \<le> k \<Longrightarrow> bit ((en AND 0xF0) OR (drop_bit 4 x AND 0x0F)) k = bit en k"
    and "k < 4 \<Longrightarrow> bit ((en AND 0x0F) OR (z AND 0xF0)) k = bit en k"
    and "4 \<le> k \<Longrightarrow> bit ((en AND 0x0F) OR (z AND 0xF0)) k = bit z k"
proof -
  have m: "(0x0F :: u8) = mask 4" "(0xF0 :: u8) = push_bit 4 (mask 4)"
    by (simp_all add: mask_eq_exp_minus_1 push_bit_eq_mult)
  show "k < 4 \<Longrightarrow> bit ((en AND 0xF0) OR (drop_bit 4 x AND 0x0F)) k = bit x (4 + k)"
    unfolding m by (auto simp: bit_simps)
  have n: "bit w k \<Longrightarrow> k < 8" for w :: u8 using bit_imp_le_length [of w k] by simp
  show "4 \<le> k \<Longrightarrow> bit ((en AND 0xF0) OR (drop_bit 4 x AND 0x0F)) k = bit en k"
    unfolding m using n [of en] by (auto simp: bit_simps)
  show "k < 4 \<Longrightarrow> bit ((en AND 0x0F) OR (z AND 0xF0)) k = bit en k"
    unfolding m by (auto simp: bit_simps)
  show "4 \<le> k \<Longrightarrow> bit ((en AND 0x0F) OR (z AND 0xF0)) k = bit z k"
    unfolding m using n [of z] by (auto simp: bit_simps)
qed

section \<open>Map controllers\<close>

text \<open>What the processor relies on: a map state that is set is the one that is got back.\<close>

locale map_controller =
  fixes mc :: "'b map_ctrl"
  assumes get_set: "mc_getMapState mc (mc_setMapState mc ms b) = ms"
    and set_set: "mc_setMapState mc ms' (mc_setMapState mc ms b) = mc_setMapState mc ms' b"
    and set_get: "mc_setMapState mc (mc_getMapState mc b) b = b"
    and clear_map: "mc_clearMapState mc b = mc_setMapState mc map_clear b"
begin

lemma opMAP_effect:
  assumes "ge_map E = Some mc"
  shows "final (opMAP E) c = c\<lparr>
     k_regs := (k_regs c)\<lparr>g_cycles := g_cycles (k_regs c) + 1, g_mapInhibit := True\<rparr>,
     k_mem := mc_setMapState mc (map_high (k_regs c) (map_low (k_regs c) (mc_getMapState mc (k_mem c)))) (k_mem c)\<rparr>"
  by (simp add: opMAP_def assms)

lemma opMAP_map:
  "ge_map E = Some mc \<Longrightarrow> mc_getMapState mc (k_mem (final (opMAP E) c)) =
     map_high (k_regs c) (map_low (k_regs c) (mc_getMapState mc (k_mem c)))"
  by (simp add: opMAP_effect get_set)

text \<open>What a trap leaves when the machine's own hook is \<open>f\<close>.\<close>

lemma enter_effect:
  fixes c :: "'b cpu45"
  assumes "ge_map E = Some mc" and "ge_onHyperEnter E = Some f"
  defines "h \<equiv> save_map (mc_getMapState mc (k_mem c)) (save_regs (k_regs c) (k_hyper c))"
    and "b \<equiv> mc_setMapState mc (hyper_map (mc_getMapState mc (k_mem c))) (k_mem c)"
  shows "final (enterHypervisor E t) c =
     c\<lparr>k_regs := hyper_regs t (k_regs c), k_hyper := fst (f h b), k_mem := snd (f h b)\<rparr>"
  by (simp add: enterHypervisor_def assms(1,2) h_def b_def Let_def)

lemma exit_effect:
  assumes "ge_map E = Some mc" and "ge_onHyperExit E = Some f"
  shows "final (exitHypervisor E) c =
     c\<lparr>k_regs := (restore_regs (k_hyper c) (k_regs c))\<lparr>g_hypervisor := False\<rparr>,
       k_mem := f (k_hyper c) (mc_setMapState mc (restored_map (k_hyper c)) (k_mem c))\<rparr>"
  by (simp add: exitHypervisor_def assms)

end

lemma board_ctrl_simps [simp]:
  "mc_getMapState (board_ctrl phys) b = mm_mapState (bd_mmu b)"
  "mc_setMapState (board_ctrl phys) ms b = b\<lparr>bd_mmu := setMapState ms (bd_mmu b)\<rparr>"
  by (simp_all add: board_ctrl_def)

lemma m65_env_simps [simp]:
  "ge_map (m65_env ib phys) = Some (board_ctrl phys)" "ge_onHyperEnter (m65_env ib phys) = Some onHyperEnter"
  "ge_onHyperExit (m65_env ib phys) = Some onHyperExit" "ge_bus (m65_env ib phys) = Some ib"
  by (simp_all add: m65_env_def plain45_def)

interpretation bc: map_controller "board_ctrl phys" for phys
  by unfold_locales (simp_all add: setMapState_def clearMapState_def board_ctrl_def)

section \<open>MAP\<close>

lemma map_low_parts:
  assumes "length (ms_offsets ms) = 8"
  shows "length (ms_offsets (map_low s ms)) = 8"
    and "k < 8 \<Longrightarrow> ms_offsets (map_low s ms) ! k =
       (if k < 4 \<and> g_x s \<noteq> 0x0F then push_bit 16 (ucast (g_x s AND 0x0F)) OR push_bit 8 (ucast (g_a s)) else ms_offsets ms ! k)"
    and "bit (ms_enables (map_low s ms)) k = bit (if k < 4 \<and> g_x s \<noteq> 0x0F then drop_bit 4 (g_x s) else ms_enables ms) k"
    and "ms_megabyteLow (map_low s ms) = (if g_x s = 0x0F then push_bit 20 (ucast (g_a s)) else ms_megabyteLow ms)"
    and "ms_megabyteHigh (map_low s ms) = ms_megabyteHigh ms"
  using assms enable_bits(1,2) [where en = "ms_enables ms" and x = "g_x s" and k = k]
  by (auto simp: map_low_def Let_def nth_append bit_drop_bit_eq)

lemma map_high_parts:
  assumes "length (ms_offsets ms) = 8"
  shows "k < 8 \<Longrightarrow> ms_offsets (map_high s ms) ! k =
       (if 4 \<le> k \<and> g_z s \<noteq> 0x0F \<and> \<not> g_hypervisor s then push_bit 16 (ucast (g_z s AND 0x0F)) OR push_bit 8 (ucast (g_y s))
        else ms_offsets ms ! k)"
    and "bit (ms_enables (map_high s ms)) k =
       bit (if 4 \<le> k \<and> g_z s \<noteq> 0x0F \<and> \<not> g_hypervisor s then g_z s else ms_enables ms) k"
    and "ms_megabyteHigh (map_high s ms) = (if g_z s = 0x0F then push_bit 20 (ucast (g_y s)) else ms_megabyteHigh ms)"
    and "ms_megabyteLow (map_high s ms) = ms_megabyteLow ms"
  using assms enable_bits(3,4) [where en = "ms_enables ms" and z = "g_z s" and k = k]
  by (auto simp: map_high_def Let_def nth_append)

text \<open>The address a half of the map gives, from its two registers, its old megabyte and its enable bit.\<close>

definition half_address :: "u8 \<Rightarrow> u8 \<Rightarrow> u32 \<Rightarrow> nat \<Rightarrow> u32 \<Rightarrow> u32" where
  "half_address high low mb k v =
     (if bit high k then mb + of_nat ((half_offset high low + unat v) mod 1048576) else v)"

lemma half_of_map:
  fixes s :: regs45
  assumes "length (ms_offsets ms) = 8" and "unat v < 65536"
  defines "new \<equiv> map_high s (map_low s ms)"
  shows "block_of v < 4 \<Longrightarrow> g_x s \<noteq> 0x0F \<Longrightarrow> translate new v = half_address (g_x s) (g_a s) (ms_megabyteLow ms) (4 + block_of v) v"
    and "4 \<le> block_of v \<Longrightarrow> g_z s \<noteq> 0x0F \<Longrightarrow> \<not> g_hypervisor s \<Longrightarrow>
      translate new v = half_address (g_z s) (g_y s) (ms_megabyteHigh ms) (block_of v) v"
    and "block_of v < 4 \<Longrightarrow> g_x s = 0x0F \<Longrightarrow>
      translate new v = translate (ms\<lparr>ms_megabyteLow := push_bit 20 (ucast (g_a s))\<rparr>) v"
    and "4 \<le> block_of v \<Longrightarrow> g_z s = 0x0F \<Longrightarrow>
      translate new v = translate (ms\<lparr>ms_megabyteHigh := push_bit 20 (ucast (g_y s))\<rparr>) v"
    and "4 \<le> block_of v \<Longrightarrow> g_z s \<noteq> 0x0F \<Longrightarrow> g_hypervisor s \<Longrightarrow> translate new v = translate ms v"
proof -
  have k: "block_of v < 8" by simp
  note low = map_low_parts [OF assms(1), where s = s]
  note parts = map_high_parts [OF low(1), where s = s] low(2-5) megabyte_of_def new_def k
  show "translate new v = half_address (g_x s) (g_a s) (ms_megabyteLow ms) (4 + block_of v) v"
    if "block_of v < 4" "g_x s \<noteq> 0x0F"
    using translate_half [OF assms(2), of new "g_x s" "g_a s"] that
    by (simp add: parts half_offset_word half_address_def bit_drop_bit_eq)
  show "translate new v = half_address (g_z s) (g_y s) (ms_megabyteHigh ms) (block_of v) v"
    if "4 \<le> block_of v" "g_z s \<noteq> 0x0F" "\<not> g_hypervisor s"
    using translate_half [OF assms(2), of new "g_z s" "g_y s"] that
    by (simp add: parts half_offset_word half_address_def)
  show "translate new v = translate (ms\<lparr>ms_megabyteLow := push_bit 20 (ucast (g_a s))\<rparr>) v"
    if "block_of v < 4" "g_x s = 0x0F"
    using that by (simp add: translate_parts [OF assms(2)] parts)
  show "translate new v = translate (ms\<lparr>ms_megabyteHigh := push_bit 20 (ucast (g_y s))\<rparr>) v"
    if "4 \<le> block_of v" "g_z s = 0x0F"
    using that by (simp add: translate_parts [OF assms(2)] parts)
  show "translate new v = translate ms v" if "4 \<le> block_of v" "g_z s \<noteq> 0x0F" "g_hypervisor s"
    using that by (simp add: translate_parts [OF assms(2)] parts)
qed

text \<open>
  C38: MAP sets the translation of all addresses as its registers say. For the lower half of the address
  space (X, A) and the upper half (Z, Y): if the first register is \<open>$0F\<close>, the second becomes the megabyte
  of the half and offset and enables stay; otherwise the blocks whose bit is set in the upper nibble are
  mapped to the sum of the address and the 20-bit offset, in the half's megabyte, and the others are
  unmapped. In hypervisor mode offset and enables of the upper half stay. No other register changes.
\<close>

theorem map_sets_translation:
  fixes c :: "(('p, 'd) board) cpu45"
  assumes "length (ms_offsets (mm_mapState (bd_mmu (k_mem c)))) = 8" and "unat v < 65536"
  fixes ib :: "(('p, 'd) board) ibus" and phys :: "'p ibus" and q i :: bool
  defines "s \<equiv> k_regs c" and "old \<equiv> mm_mapState (bd_mmu (k_mem c))"
    and "d \<equiv> final (exec45 (m65_env ib phys) q i 0x5C) c"
  shows "translate (mm_mapState (bd_mmu (k_mem d))) v =
     (if block_of v < 4 then
        if g_x s = 0x0F then translate (old\<lparr>ms_megabyteLow := push_bit 20 (ucast (g_a s))\<rparr>) v
        else half_address (g_x s) (g_a s) (ms_megabyteLow old) (4 + block_of v) v
      else if g_z s = 0x0F then translate (old\<lparr>ms_megabyteHigh := push_bit 20 (ucast (g_y s))\<rparr>) v
      else if g_hypervisor s then translate old v
      else half_address (g_z s) (g_y s) (ms_megabyteHigh old) (block_of v) v) \<and>
     k_regs d = s\<lparr>g_cycles := g_cycles s + 1, g_mapInhibit := True\<rparr>"
proof -
  have d: "d = final (opMAP (m65_env ib phys)) c"
    unfolding d_def by (simp add: exec45_def control45_def loadA45_def loadXYZ45_def store45_def adc45_def sbc45_def cmp45_def and45_def
      ora45_def eor45_def alu45_def tsbAsr45_def incdec45_def transfer45_def flags45_def stack45_def flow45_def
      branches45_def cpxyz45_def bits45_def asl45_def lsr45_def rol45_def ror45_def shift45_def ext45_def)
  have "mm_mapState (bd_mmu (k_mem d)) = map_high s (map_low s old)"
    using bc.opMAP_map [of "m65_env ib phys" phys c] unfolding d s_def old_def by simp
  then show ?thesis
    using half_of_map [OF assms(1,2), of s] bc.opMAP_effect [of "m65_env ib phys" phys c]
    by (auto simp: d s_def old_def)
qed

definition demo_board :: "(sparse_bus, unit) board" where
  "demo_board = \<lparr>bd_mmu = map_new (sparse_new 28 (\<lambda>_ _. 0)) (), bd_bank = bank_new, bd_key = key_new, bd_dma = f018b_new 0xD700 no_line no_line\<rparr>"

definition demo_cpu45 :: "((sparse_bus, unit) board) cpu45" where
  "demo_cpu45 = cpu45_new demo_board"

definition demo_env45 :: "((sparse_bus, unit) board) env45" where
  "demo_env45 = m65_env (lift_ibus (map_ibus sparse_ibus)) sparse_ibus"

theorem map_sets_translation_witness:
  "let c = demo_cpu45\<lparr>k_regs := (k_regs demo_cpu45)\<lparr>g_x := 0x21, g_a := 0x30\<rparr>\<rparr>
   in translate (mm_mapState (bd_mmu (k_mem (final (exec45 demo_env45 False False 0x5C) c)))) 0x2345 = 0x15345"
proof -
  let ?c = "demo_cpu45\<lparr>k_regs := (k_regs demo_cpu45)\<lparr>g_x := 0x21, g_a := 0x30\<rparr>\<rparr>"
  have "length (ms_offsets (mm_mapState (bd_mmu (k_mem ?c)))) = 8"
    by (simp add: demo_cpu45_def cpu45_new_def demo_board_def map_new_def map_clear_def)
  then show ?thesis
    using map_sets_translation [where c = ?c and v = "0x2345" and ib = "lift_ibus (map_ibus sparse_ibus)"
        and phys = sparse_ibus and q = False and i = False]
    by (simp add: demo_env45_def demo_cpu45_def cpu45_new_def demo_board_def map_new_def map_clear_def Let_def
        block_of_nat half_address_def half_offset_def)
qed

section \<open>MAP holds interrupts off\<close>

text \<open>The interrupt inputs and the inhibition, which only MAP and EOM change.\<close>

definition lines45 :: "regs45 \<Rightarrow> bool \<times> bool \<times> bool \<times> bool" where
  "lines45 s = (g_mapInhibit s, g_irqLine s, g_nmiLine s, g_nmiPrev s)"

abbreviation keeps45 :: "('b cpu45, 'a) state \<Rightarrow> bool" where
  "keeps45 m \<equiv> keeps (\<lambda>c. lines45 (k_regs c)) m"

lemma keeps45_upd [keeps_intro]: "(\<And>s. lines45 (f s) = lines45 s) \<Longrightarrow> keeps45 (upd45 f)"
  by (simp add: keeps_def)

lemma keeps45_basic [keeps_intro]:
  "keeps45 (reg45 r)" "keeps45 (mem45 m)" "keeps45 (cyc45 n)" "keeps45 (modify (\<lambda>c. c\<lparr>k_hyperRam := g c\<rparr>))"
  by (simp_all add: keeps_def mem45_def Let_def lines45_def)

lemma keeps45_mem [keeps_intro]: "keeps45 (read45 E a)" "keeps45 (write45 E a v)"
    "keeps45 (readPhys45 E p)" "keeps45 (writePhys45 E p v)"
  unfolding read45_def write45_def readPhys45_def writePhys45_def by (intro keeps_intro)+

lemma lines45_updates [simp]:
  "lines45 (s\<lparr>g_a := a\<rparr>) = lines45 s" "lines45 (s\<lparr>g_x := a\<rparr>) = lines45 s" "lines45 (s\<lparr>g_y := a\<rparr>) = lines45 s"
  "lines45 (s\<lparr>g_z := a\<rparr>) = lines45 s" "lines45 (s\<lparr>g_b := a\<rparr>) = lines45 s" "lines45 (s\<lparr>g_sp := w\<rparr>) = lines45 s"
  "lines45 (s\<lparr>g_pc := w\<rparr>) = lines45 s" "lines45 (s\<lparr>g_p := a\<rparr>) = lines45 s" "lines45 (s\<lparr>g_cycles := n\<rparr>) = lines45 s"
  "lines45 (s\<lparr>g_haltLine := b\<rparr>) = lines45 s"
  by (simp_all add: lines45_def)

lemma lines45_flags [simp]:
  "lines45 (clrP45 m s) = lines45 s" "lines45 (setP45 m s) = lines45 s" "lines45 (orIf45 b m s) = lines45 s"
  "lines45 (putP45 b m s) = lines45 s" "lines45 (updateNZ45 v s) = lines45 s" "lines45 (updateNZ16_45 w s) = lines45 s"
  "lines45 (updateNZ32_45 q s) = lines45 s" "lines45 (putC45 m s) = lines45 s"
  by (simp_all add: clrP45_def setP45_def orIf45_def putP45_def updateNZ45_def updateNZ16_45_def updateNZ32_45_def putC45_def)

lemma lines45_regs [simp]:
  "lines45 (setA45 v s) = lines45 s" "lines45 (setX45 v s) = lines45 s" "lines45 (setY45 v s) = lines45 s"
  "lines45 (setZ45 v s) = lines45 s" "lines45 (setQ q s) = lines45 s" "lines45 (cyc4 s) = lines45 s"
  "lines45 (sp_down s) = lines45 s" "lines45 (sp_up s) = lines45 s" "lines45 (pulledP v s) = lines45 s"
  by (simp_all add: setA45_def setX45_def setY45_def setZ45_def setQ_def cyc4_def sp_down_def sp_up_def pulledP_def)

lemma lines45_alu [simp]:
  "lines45 (doAdc8_45 v s) = lines45 s" "lines45 (doSbc8_45 v s) = lines45 s" "lines45 (compare45 r v s) = lines45 s"
  "lines45 (doAdc32 q s) = lines45 s" "lines45 (doSbc32 q s) = lines45 s" "lines45 (doCmp32 q s) = lines45 s"
  "lines45 (logic32 f q s) = lines45 s" "lines45 (logic8 g v s) = lines45 s" "lines45 (shiftQ h s) = lines45 s"
  "lines45 (shiftA k s) = lines45 s" "lines45 (stepAcc45 b q v s) = lines45 s" "lines45 (neg45 b s) = lines45 s"
  "lines45 (bit8_45 v s) = lines45 s" "lines45 (bit32_45 q s) = lines45 s"
  by (simp_all add: doAdc8_45_def doSbc8_45_def adcDec45_def adcBin45_def sbcDec45_def sbcBin45_def compare45_def doAdc32_def
      doSbc32_def doCmp32_def logic32_def logic8_def shiftQ_def shiftA_def stepAcc45_def neg45_def bit8_45_def bit32_45_def Let_def)

lemma keeps45_wide [keeps_intro]:
  "keeps45 (read32_45 E a)" "keeps45 (write32_45 E a q)" "keeps45 (read32Phys45 E p)" "keeps45 (write32Phys45 E p q)"
  "keeps45 (fetch45 E)" "keeps45 (push8_45 E v)" "keeps45 (pull8_45 E)" "keeps45 (readWord45 E a)"
  unfolding read32_45_def write32_45_def read32Phys45_def write32Phys45_def fetch45_def push8_45_def pull8_45_def readWord45_def
  by (intro keeps_intro; simp)+

lemma keeps45_stack [keeps_intro]: "keeps45 (push16_45 E w)" "keeps45 (pull16_45 E)"
  unfolding push16_45_def pull16_45_def by (intro keeps_intro)+

lemma keeps45_abs [keeps_intro]: "keeps45 (getAbs45 E)" "keeps45 (getZp45 E)"
  unfolding getAbs45_def getZp45_def by (intro keeps_intro)+

lemma keeps45_modes [keeps_intro]:
  "keeps45 (getAbsX45 E)" "keeps45 (getAbsY45 E)" "keeps45 (getZpX45 E)" "keeps45 (getZpY45 E)"
  "keeps45 (getIndX45 E)" "keeps45 (getIndY45 E)" "keeps45 (getStackRelIndY45 E)" "keeps45 (getIndPhys45 E i)"
  "keeps45 (readVia E i p)" "keeps45 (read32Via E i p)" "keeps45 (writeVia E i p v)" "keeps45 (write32Via E i p q)"
  unfolding getAbsX45_def getAbsY45_def getZpX45_def getZpY45_def getIndX45_def getIndY45_def
    getStackRelIndY45_def getIndPhys45_def readVia_def read32Via_def writeVia_def write32Via_def
  by (intro keeps_intro)+

lemma keeps45_load [keeps_intro]:
  "(\<And>v s. lines45 (f v s) = lines45 s) \<Longrightarrow> keeps45 mode \<Longrightarrow> keeps45 (ld45 E f mode n)"
  "(\<And>v s. lines45 (f v s) = lines45 s) \<Longrightarrow> keeps45 (ldImm45 E f)"
  "keeps45 mode \<Longrightarrow> keeps45 (ldaq45 E q mode)" "keeps45 (ldaFlat45 E q i)"
  unfolding ld45_def ldImm45_def ldaq45_def ldaFlat45_def by (intro keeps_intro; simp)+

lemma keeps45_store [keeps_intro]:
  "keeps45 mode \<Longrightarrow> keeps45 (st45 E r mode n)" "keeps45 mode \<Longrightarrow> keeps45 (staq45 E q mode)" "keeps45 (staFlat45 E q i)"
  unfolding st45_def staq45_def staFlat45_def by (intro keeps_intro; assumption?)+

lemma keeps45_alu [keeps_intro]:
  "(\<And>v s. lines45 (f v s) = lines45 s) \<Longrightarrow> (\<And>v s. lines45 (g v s) = lines45 s) \<Longrightarrow> keeps45 mode \<Longrightarrow>
     keeps45 (aluMem45 E q f g mode)"
  "(\<And>v s. lines45 (f v s) = lines45 s) \<Longrightarrow> (\<And>v s. lines45 (g v s) = lines45 s) \<Longrightarrow> keeps45 (aluFlat45 E q i f g)"
  unfolding aluMem45_def aluFlat45_def by (intro keeps_intro; simp)+

lemma keeps45_shapes [keeps_intro]:
  "keeps45 mode \<Longrightarrow> keeps45 (tsb45 E h mode)" "keeps45 (shiftAcc45 q f32 f8 n)"
  "keeps45 mode \<Longrightarrow> keeps45 (shiftMem45 E q f32 f8 mode n)" "keeps45 mode \<Longrightarrow> keeps45 (stepMem45 E q d32 d8 mode)"
  "keeps45 (pushReg45 E r)" "(\<And>v s. lines45 (f v s) = lines45 s) \<Longrightarrow> keeps45 (pullTo45 E f)" "keeps45 (callTo45 E t n)"
  "keeps45 (branch45 E cond)" "keeps45 (lbranch45 E cond)" "keeps45 (cpImm45 E r)"
  "keeps45 mode \<Longrightarrow> keeps45 (cpMem45 E r mode)" "keeps45 mode \<Longrightarrow> keeps45 (bitMem45 E q mode)"
  "keeps45 (rmb45 E g)" "keeps45 (bbr45 E cond8)" "keeps45 mode \<Longrightarrow> keeps45 (word45 E f16 b mode)" "keeps45 (opBRK45 E)"
  unfolding tsb45_def shiftAcc45_def shiftMem45_def stepMem45_def pushReg45_def pullTo45_def callTo45_def branch45_def
    lbranch45_def cpImm45_def cpMem45_def bitMem45_def rmb45_def bbr45_def word45_def opBRK45_def
  by (intro keeps_intro; simp)+

lemma keeps45_moves [keeps_intro]:
  fixes other :: "'b exec45"
  assumes "keeps45 other"
  shows "keeps45 (loadA45 E q i op other)" "keeps45 (loadXYZ45 E op other)" "keeps45 (store45 E q i op other)"
    "keeps45 (transfer45 op other)" "keeps45 (flags45 op other)" "keeps45 (stack45 E op other)"
  unfolding loadA45_def loadXYZ45_def store45_def transfer45_def flags45_def stack45_def
  by (intro keeps_intro assms; simp)+

lemma keeps45_alu_ops [keeps_intro]:
  fixes other :: "'b exec45"
  assumes "keeps45 other" "\<And>v s. lines45 (f v s) = lines45 s" "\<And>v s. lines45 (g v s) = lines45 s"
  shows "keeps45 (alu45 E q i base f g op other)"
  unfolding alu45_def by (intro keeps_intro assms)

lemma keeps45_arith [keeps_intro]:
  fixes other :: "'b exec45"
  assumes "keeps45 other"
  shows "keeps45 (adc45 E q i op other)" "keeps45 (sbc45 E q i op other)" "keeps45 (cmp45 E q i op other)"
    "keeps45 (and45 E q i op other)" "keeps45 (ora45 E q i op other)" "keeps45 (eor45 E q i op other)"
  unfolding adc45_def sbc45_def cmp45_def and45_def ora45_def eor45_def by (intro keeps_intro assms; simp)+

lemma keeps45_flow [keeps_intro]:
  fixes other :: "'b exec45"
  assumes "keeps45 other"
  shows "keeps45 (tsbAsr45 E q op other)" "keeps45 (incdec45 E q op other)" "keeps45 (flow45 E op other)"
    "keeps45 (branches45 E op other)" "keeps45 (cpxyz45 E op other)" "keeps45 (bits45 E q op other)"
    "keeps45 (shift45 E q base f32 f8 op other)"
  unfolding tsbAsr45_def incdec45_def flow45_def branches45_def cpxyz45_def bits45_def shift45_def
  by (intro keeps_intro assms; simp)+

lemma keeps45_shifts [keeps_intro]:
  fixes other :: "'b exec45"
  assumes "keeps45 other"
  shows "keeps45 (asl45 E q op other)" "keeps45 (lsr45 E q op other)" "keeps45 (rol45 E q op other)" "keeps45 (ror45 E q op other)"
  unfolding asl45_def lsr45_def rol45_def ror45_def by (intro keeps_intro assms)+

lemma keeps45_ext: "op \<noteq> 0x5C \<Longrightarrow> keeps45 other \<Longrightarrow> keeps45 (ext45 E q op other)"
  unfolding ext45_def by (simp only: if_False) (intro keeps_intro; simp)

lemma keeps45_control: "op \<noteq> 0xEA \<Longrightarrow> keeps45 other \<Longrightarrow> keeps45 (control45 E op other)"
  unfolding control45_def by (simp only: if_False) (intro keeps_intro; simp)

lemma exec45_keeps_lines: "op \<noteq> 0xEA \<Longrightarrow> op \<noteq> 0x5C \<Longrightarrow> keeps45 (exec45 E q i op)"
  unfolding exec45_def by (intro keeps45_control keeps_intro keeps45_ext; simp)

lemma keeps45_prefixes: "keeps45 (prefixes45 E n q i op)"
proof (induction n arbitrary: q i op)
  case (Suc n)
  show ?case unfolding prefixes45.simps shouldConsume_def by (intro keeps_intro Suc; simp)
qed (simp add: keeps_basic)

definition opcode45 :: "'b env45 \<Rightarrow> 'b cpu45 \<Rightarrow> u8" where
  "opcode45 E c = fst (result (prefixes45 E 16 False False 0) c)"

lemma exec_map_eom:
  "final (exec45 E q i 0xEA) c = c\<lparr>k_regs := (k_regs c)\<lparr>g_mapInhibit := False\<rparr>\<rparr>"
  "lines45 (k_regs (final (exec45 E q i 0x5C) c)) = lines45 ((k_regs c)\<lparr>g_mapInhibit := True\<rparr>)"
  by (simp_all add: exec45_def control45_def loadA45_def loadXYZ45_def store45_def adc45_def sbc45_def cmp45_def and45_def
      ora45_def eor45_def alu45_def tsbAsr45_def incdec45_def transfer45_def flags45_def stack45_def flow45_def
      branches45_def cpxyz45_def bits45_def asl45_def lsr45_def rol45_def ror45_def shift45_def ext45_def opMAP_def
      lines45_def split: option.split)

lemma instruction_lines:
  "lines45 (k_regs (final (instruction45 E) c)) =
     lines45 ((k_regs c)\<lparr>g_mapInhibit := opcode45 E c \<noteq> 0xEA \<and> (opcode45 E c = 0x5C \<or> g_mapInhibit (k_regs c))\<rparr>)"
proof -
  define r where "r = run_state (prefixes45 E 16 False False 0) c"
  have l: "lines45 (k_regs (snd r)) = lines45 (k_regs c)"
    using keepsD [OF keeps45_prefixes [where E = E and n = 16 and q = False and i = False and op = 0], of c] by (simp add: r_def)
  have i: "final (instruction45 E) c = final (exec45 E (fst (snd (fst r))) (snd (snd (fst r))) (opcode45 E c)) (snd r)"
    by (simp add: instruction45_def r_def opcode45_def case_prod_beta)
  consider "opcode45 E c = 0xEA" | "opcode45 E c = 0x5C" | "opcode45 E c \<noteq> 0xEA" "opcode45 E c \<noteq> 0x5C" by blast
  then show ?thesis
  proof cases
    case 2
    have "lines45 (k_regs (final (instruction45 E) c)) = lines45 ((k_regs (snd r))\<lparr>g_mapInhibit := True\<rparr>)"
      unfolding i 2 by (rule exec_map_eom)
    with 2 l show ?thesis by (simp add: lines45_def)
  next
    case 3
    have "lines45 (k_regs (final (instruction45 E) c)) = lines45 (k_regs (snd r))"
      unfolding i by (rule keepsD [OF exec45_keeps_lines [OF 3]])
    with 3 l show ?thesis by (simp add: lines45_def)
  qed (use l in \<open>simp_all add: i exec_map_eom lines45_def\<close>)
qed

text \<open>
  C39: MAP and EOM bracket a section no interrupt enters. Once MAP has set the inhibition, a step runs the
  next instruction whatever the interrupt lines, the I flag and the NMI edge say; the inhibition stays
  until the instruction is EOM, which ends it; and then a step takes the interrupt that is asserted and
  enabled, unless an NMI comes first.
\<close>

theorem map_holds_interrupts:
  fixes c :: "'b cpu45"
  assumes "ge_pcHook E = None" and "ge_observer E = None"
  defines "c1 \<equiv> c\<lparr>k_regs := (k_regs c)\<lparr>g_nmiPrev := g_nmiLine (k_regs c)\<rparr>\<rparr>"
  shows "g_mapInhibit (k_regs (final (exec45 E q i 0x5C) c)) \<and>
    (g_mapInhibit (k_regs c) \<longrightarrow>
       final (awake45 E) c = final (instruction45 E) c1 \<and>
       (g_mapInhibit (k_regs (final (awake45 E) c)) \<longleftrightarrow> opcode45 E c1 \<noteq> 0xEA)) \<and>
    (\<not> g_mapInhibit (k_regs c) \<and> g_irqLine (k_regs c) \<and> \<not> tst (g_p (k_regs c)) FLAG_I \<and>
       (g_nmiPrev (k_regs c) \<or> \<not> g_nmiLine (k_regs c)) \<longrightarrow>
       run_state (awake45 E) c = run_state (interrupt45 E 0xFFFE) c1)"
proof (intro conjI impI)
  show "g_mapInhibit (k_regs (final (exec45 E q i 0x5C) c))"
    using exec_map_eom(2) [of E q i c] by (simp add: lines45_def)
  have run: "final (awake45 E) c = final (instruction45 E) c1" if "g_mapInhibit (k_regs c)"
    using that by (simp add: awake45_def tryHook45_def run45_def observe45_def assms(1,2) c1_def case_prod_beta)
  show "final (awake45 E) c = final (instruction45 E) c1" if "g_mapInhibit (k_regs c)" using run [OF that] .
  show "g_mapInhibit (k_regs (final (awake45 E) c)) \<longleftrightarrow> opcode45 E c1 \<noteq> 0xEA" if "g_mapInhibit (k_regs c)"
    using instruction_lines [of E c1] that by (simp add: run [OF that] lines45_def c1_def)
  show "run_state (awake45 E) c = run_state (interrupt45 E 0xFFFE) c1"
    if "\<not> g_mapInhibit (k_regs c) \<and> g_irqLine (k_regs c) \<and> \<not> tst (g_p (k_regs c)) FLAG_I \<and>
       (g_nmiPrev (k_regs c) \<or> \<not> g_nmiLine (k_regs c))"
    using that by (auto simp: awake45_def c1_def)
qed

theorem map_holds_interrupts_witness:
  "let c = (\<lambda>b. demo_cpu45\<lparr>k_regs := (k_regs demo_cpu45)\<lparr>g_p := 0x20, g_irqLine := True, g_mapInhibit := b\<rparr>\<rparr>)
   in final (awake45 demo_env45) (c True) = final (instruction45 demo_env45) (c True) \<and>
      run_state (awake45 demo_env45) (c False) = run_state (interrupt45 demo_env45 0xFFFE) (c False)"
proof -
  let ?c = "\<lambda>b. demo_cpu45\<lparr>k_regs := (k_regs demo_cpu45)\<lparr>g_p := 0x20, g_irqLine := True, g_mapInhibit := b\<rparr>\<rparr>"
  have e: "ge_pcHook demo_env45 = None" "ge_observer demo_env45 = None"
    by (simp_all add: demo_env45_def m65_env_def plain45_def)
  have r: "g_nmiLine (k_regs demo_cpu45) = False" "g_nmiPrev (k_regs demo_cpu45) = False"
    by (simp_all add: demo_cpu45_def cpu45_new_def)
  have same: "(?c b)\<lparr>k_regs := (k_regs (?c b))\<lparr>g_nmiPrev := g_nmiLine (k_regs (?c b))\<rparr>\<rparr> = ?c b" for b
    by (simp add: demo_cpu45_def cpu45_new_def)
  show ?thesis
    using map_holds_interrupts [OF e, where c = "?c True", unfolded same] map_holds_interrupts [OF e, where c = "?c False", unfolded same]
    by (simp add: Let_def r tst_def)
qed

text \<open>The comment before the check says an NMI is deferred as well, but its edge is used up.\<close>

lemma map_loses_nmi:
  assumes "ge_pcHook E = None" and "ge_observer E = None" and "g_mapInhibit (k_regs c)" and "g_nmiLine (k_regs c)"
  shows "g_nmiLine (k_regs (final (awake45 E) c)) \<and> g_nmiPrev (k_regs (final (awake45 E) c))"
proof -
  have "final (awake45 E) c = final (instruction45 E) (c\<lparr>k_regs := (k_regs c)\<lparr>g_nmiPrev := True\<rparr>\<rparr>)"
    using assms by (simp add: awake45_def tryHook45_def run45_def observe45_def case_prod_beta)
  then show ?thesis
    using instruction_lines [of E "c\<lparr>k_regs := (k_regs c)\<lparr>g_nmiPrev := True\<rparr>\<rparr>"] assms(4) by (simp add: lines45_def)
qed

section \<open>The hypervisor\<close>

lemma saved_sp: "mk16 (lo8 sp) (ucast (drop_bit 8 sp AND 0xFF)) = sp"
proof (rule bit_word_eqI)
  fix n assume "n < LENGTH(16)"
  then show "bit (mk16 (lo8 sp) (ucast (drop_bit 8 sp AND 0xFF))) n = bit sp n"
    unfolding mk16_def lo8_def mask_8_16 by (cases "n < 8") (auto simp: bit_simps)
qed

lemma modes_back: "kModes (kModeBits p) = p"
  by (cases p) (simp_all add: kModes_def kModeBits_def)

lemma restore_saved:
  assumes "hs_regA h = g_a s" "hs_regX h = g_x s" "hs_regY h = g_y s" "hs_regZ h = g_z s" "hs_regB h = g_b s"
    "hs_spl h = lo8 (g_sp s)" "hs_sph h = ucast (drop_bit 8 (g_sp s) AND 0xFF)" "hs_pflags h = g_p s" "hs_pc h = g_pc s"
  shows "restore_regs h t = t\<lparr>g_a := g_a s, g_x := g_x s, g_y := g_y s, g_z := g_z s, g_b := g_b s, g_sp := g_sp s,
    g_p := g_p s, g_pc := g_pc s\<rparr>"
  by (simp add: restore_regs_def assms saved_sp)

lemma map_restored:
  assumes "map_canonical ms" "hs_mapOffsetLow h = ms_offsets ms ! 0 AND 0xFFF00" "hs_mapOffsetHigh h = ms_offsets ms ! 4 AND 0xFFF00"
    "hs_mapEnables h = ms_enables ms" "hs_megabyteLow h = ms_megabyteLow ms" "hs_megabyteHigh h = ms_megabyteHigh ms"
  shows "restored_map h = ms"
  using assms(1) by (cases ms) (simp add: restored_map_def assms(2-6) map_canonical_def)

text \<open>The hypervisor's own memory appears at \<open>$8000-$BFFF\<close>.\<close>

lemma hyper_map_translate:
  assumes "unat v < 65536" "block_of v = 4 \<or> block_of v = 5" "length (ms_offsets ms) = 8"
  shows "translate (hyper_map ms) v = 0xFFF0000 + v"
proof -
  have b: "4 \<le> block_of v" "block_of v < 6" using assms(2) by auto
  have e: "bit ((ms_enables ms AND 0x0F) OR 0x30) (block_of v)"
    using assms(2) by (auto simp: bit_simps)
  have o: "ms_offsets (hyper_map ms) ! block_of v = 0xF0000" using b assms(3) by (simp add: hyper_map_def nth_append)
  have q: "block_of v = unat v div 8192"
    using less_mult_imp_div_less [of "unat v" 8 8192] assms(1) by (simp add: block_of_nat)
  have v: "32768 \<le> unat v" "unat v < 49152" using b q by linarith+
  have "translate (hyper_map ms) v = push_bit 20 0xFF + of_nat ((3840 + unat v div 256) mod 4096 * 256 + unat v mod 256)"
    unfolding translate_parts [OF assms(1)] o using e b by (simp add: hyper_map_def megabyte_of_def)
  also have "(3840 + unat v div 256) mod 4096 * 256 + unat v mod 256 = 983040 + unat v" using v by simp
  finally show ?thesis by (simp add: push_bit_eq_mult add.commute)
qed

lemma trap_enters:
  assumes "\<not> g_hypervisor (k_regs c)" and "addr AND NOT 0x3F = 0xD640" and "result (trap_follows E) c"
    and "final (trap_follows E) c = c"
  shows "final (hyper_ioWrite E None addr val) c = final (enterHypervisor E (0x8000 + ucast (ucast (addr AND 0x3F) :: u8) * 4)) c"
  using assms by (simp add: hyper_ioWrite_def hyper_trap_def Let_def case_prod_beta)

lemma exit_register:
  "g_hypervisor (k_regs d) \<Longrightarrow> final (hyper_ioWrite E ci 0xD67F val) d = final (exitHypervisor E) d"
  by (simp add: hyper_ioWrite_def Let_def case_prod_beta)


text \<open>A memory full of EOM.\<close>

definition eom_board :: "(sparse_bus, unit) board" where
  "eom_board = demo_board\<lparr>bd_mmu := map_new ((sparse_new 28 (\<lambda>_ _. 0))\<lparr>sb_pages := \<lambda>_. Some (\<lambda>_. 0xEA)\<rparr>) ()\<rparr>"

lemma lifted_peek_pure: "final (ib_peek8 (lift_ibus (map_ibus sparse_ibus)) a) (b :: (sparse_bus, unit) board) = b"
  if "mm_ioPeek (bd_mmu b) = None" "mm_ioRead (bd_mmu b) = None"
  using that by (simp add: lift_ibus_def on_mmu_def map_ibus_def map_peek8_def read_hook_def sparse_ibus_def Let_def case_prod_beta)


section \<open>Decoder and processor\<close>

lemma long_target: "operandTarget45 a [0x83, l, h] = ucast (ucast a + 3 + mk16 l h :: u16)"
proof -
  have "(0x83 :: u8) AND 0x0F \<noteq> 0x0F" "(0x83 :: u8) AND 0x1F \<noteq> 0x10" by simp_all
  then show ?thesis by (simp only: operandTarget45_def Let_def) simp
qed

lemma down_up: "ucast (ucast (w :: u16) :: u32) = w"
  by (rule bit_word_eqI) (simp add: bit_simps)

text \<open>A 16-bit branch goes to the offset from its second operand byte, the decoder counts from behind it.\<close>

lemma long_branch_target_differs:
  assumes "ge_bus E = Some ib" and "\<not> g_hypervisor (k_regs c)"
    and "\<And>a b. run_state (ib_read8 ib a) b = (m a, b)"
  defines "pc \<equiv> g_pc (k_regs c)"
  shows "g_pc (k_regs (final (exec45 E q i 0x83) c)) = pc + 1 + mk16 (m (ucast pc)) (m (ucast (pc + 1)))"
    and "operandTarget45 (ucast (pc - 1)) [0x83, m (ucast pc), m (ucast (pc + 1))] =
      ucast (pc + 2 + mk16 (m (ucast pc)) (m (ucast (pc + 1))))"
proof -
  have r: "run_state (read45 E a) c = (m (ucast a), c)" for a
    using assms(1-3) by (simp add: read45_def hyper_window_def mem45_def Let_def)
  show "g_pc (k_regs (final (exec45 E q i 0x83) c)) = pc + 1 + mk16 (m (ucast pc)) (m (ucast (pc + 1)))"
    by (simp add: exec45_def control45_def loadA45_def loadXYZ45_def store45_def adc45_def sbc45_def cmp45_def and45_def
        ora45_def eor45_def alu45_def tsbAsr45_def incdec45_def transfer45_def flags45_def stack45_def flow45_def
        branches45_def readWord45_def r pc_def add.assoc)
  show "operandTarget45 (ucast (pc - 1)) [0x83, m (ucast pc), m (ucast (pc + 1))] =
      ucast (pc + 2 + mk16 (m (ucast pc)) (m (ucast (pc + 1))))"
    by (simp add: long_target down_up add.commute add.left_commute)
qed

text \<open>With the experimental prefix mode the quad store to an absolute address loses its prefix.\<close>

lemma experimental_drops_stq:
  assumes "ge_experimental E" and "result (read45 E (g_pc (k_regs c) + 1)) c = 0x8D"
  shows "\<not> result (shouldConsume E) c"
  using assms by (simp add: shouldConsume_def experimentalQuad_def case_prod_beta)

text \<open>BSR is a call for the trace but not for stepping over.\<close>

lemma bsr_not_stepped_over:
  assumes "run_state (ib_peek8 ib a) b = (0x63, b)"
  shows "result (isCallAt45 ib a) b = 0 \<and> de_isCall (classify45 0x63 e)"
  using assms by (simp add: isCallAt45_def classify45_def)

end
