(* ===== verification/Z80.thy ===== *)
theory Z80
  imports Interfaces
begin

text \<open>
  The Zilog Z80 of \<open>plugins/z80/main/cpu_z80.h\<close> and \<open>cpu_z80.cpp\<close>: registers, arithmetic, the main, CB,
  ED, DD/FD and DDCB/FDCB instructions, interrupts and the step. A register function of the code is a
  function on \<open>z80_regs\<close>; what reads or writes a bus is a computation over the processor and the state
  behind its two buses. Where C++ leaves the order of two reads in one expression open, the model reads
  the low byte first.
\<close>

section \<open>State\<close>

abbreviation FC :: u8 where "FC \<equiv> 0x01"
abbreviation FN :: u8 where "FN \<equiv> 0x02"
abbreviation FP :: u8 where "FP \<equiv> 0x04"
abbreviation FX :: u8 where "FX \<equiv> 0x08"
abbreviation FH :: u8 where "FH \<equiv> 0x10"
abbreviation FY :: u8 where "FY \<equiv> 0x20"
abbreviation FZ :: u8 where "FZ \<equiv> 0x40"
abbreviation FS :: u8 where "FS \<equiv> 0x80"

record z80_regs =
  z_a :: u8
  z_f :: u8
  z_b :: u8
  z_c :: u8
  z_d :: u8
  z_e :: u8
  z_h :: u8
  z_l :: u8
  z_af2 :: u16
  z_bc2 :: u16
  z_de2 :: u16
  z_hl2 :: u16
  z_ix :: u16
  z_iy :: u16
  z_sp :: u16
  z_pc :: u16
  z_wz :: u16
  z_i :: u8
  z_r :: u8
  z_im :: u8
  z_iff1 :: bool
  z_iff2 :: bool
  z_halted :: bool
  z_irqLine :: bool
  z_nmiLine :: bool
  z_nmiPending :: bool
  z_eiDelay :: bool
  z_q :: u8
  z_qNext :: u8
  z_prefix :: nat
  z_dispAddr :: u16
  z_dispFetched :: bool
  z_cycles :: u64

record 'b z80 =
  zz_regs :: z80_regs
  zz_mem :: 'b

text \<open>
  What the processor is attached to: memory and I/O bus over one state, the intercept hook, and the
  observer, which may stop the instruction at the given address.
\<close>

record 'b z80_env =
  ze_bus :: "'b ibus option"
  ze_io :: "'b ibus option"
  ze_pcHook :: "((u16 \<Rightarrow> bool) \<times> (u16 \<Rightarrow> ('b z80, bool) state)) option"
  ze_observer :: "(u16 \<Rightarrow> ('b z80, bool) state) option"

definition z80_init :: z80_regs where
  "z80_init = \<lparr>z_a = 0xFF, z_f = 0xFF, z_b = 0, z_c = 0, z_d = 0, z_e = 0, z_h = 0, z_l = 0, z_af2 = 0xFFFF,
     z_bc2 = 0, z_de2 = 0, z_hl2 = 0, z_ix = 0xFFFF, z_iy = 0xFFFF, z_sp = 0xFFFF, z_pc = 0, z_wz = 0, z_i = 0,
     z_r = 0, z_im = 0, z_iff1 = False, z_iff2 = False, z_halted = False, z_irqLine = False, z_nmiLine = False,
     z_nmiPending = False, z_eiDelay = False, z_q = 0, z_qNext = 0, z_prefix = 0, z_dispAddr = 0,
     z_dispFetched = False, z_cycles = 0\<rparr>"

definition z_reset :: "z80_regs \<Rightarrow> z80_regs" where
  "z_reset s = s\<lparr>z_pc := 0, z_i := 0, z_r := 0, z_im := 0, z_iff1 := False, z_iff2 := False, z_halted := False,
     z_eiDelay := False, z_nmiPending := False, z_a := 0xFF, z_f := 0xFF, z_sp := 0xFFFF, z_q := 0, z_qNext := 0\<rparr>"

definition z_new :: z80_regs where
  "z_new = z_reset z80_init"

definition z_setIrqLine :: "bool \<Rightarrow> z80_regs \<Rightarrow> z80_regs" where
  "z_setIrqLine asserted s = s\<lparr>z_irqLine := asserted\<rparr>"

definition z_setNmiLine :: "bool \<Rightarrow> z80_regs \<Rightarrow> z80_regs" where
  "z_setNmiLine asserted s =
     s\<lparr>z_nmiPending := (if asserted \<and> \<not> z_nmiLine s then True else z_nmiPending s), z_nmiLine := asserted\<rparr>"

definition z_triggerNmi :: "z80_regs \<Rightarrow> z80_regs" where
  "z_triggerNmi s = s\<lparr>z_nmiPending := True\<rparr>"

definition z_setPc :: "u16 \<Rightarrow> z80_regs \<Rightarrow> z80_regs" where
  "z_setPc a s = s\<lparr>z_pc := a, z_halted := False\<rparr>"

section \<open>Registers\<close>

definition z_af :: "z80_regs \<Rightarrow> u16" where "z_af s = mk16 (z_f s) (z_a s)"
definition z_bc :: "z80_regs \<Rightarrow> u16" where "z_bc s = mk16 (z_c s) (z_b s)"
definition z_de :: "z80_regs \<Rightarrow> u16" where "z_de s = mk16 (z_e s) (z_d s)"
definition z_hl :: "z80_regs \<Rightarrow> u16" where "z_hl s = mk16 (z_l s) (z_h s)"

definition set_af :: "u16 \<Rightarrow> z80_regs \<Rightarrow> z80_regs" where "set_af v s = s\<lparr>z_a := hi8 v, z_f := lo8 v\<rparr>"
definition set_bc :: "u16 \<Rightarrow> z80_regs \<Rightarrow> z80_regs" where "set_bc v s = s\<lparr>z_b := hi8 v, z_c := lo8 v\<rparr>"
definition set_de :: "u16 \<Rightarrow> z80_regs \<Rightarrow> z80_regs" where "set_de v s = s\<lparr>z_d := hi8 v, z_e := lo8 v\<rparr>"
definition set_hl :: "u16 \<Rightarrow> z80_regs \<Rightarrow> z80_regs" where "set_hl v s = s\<lparr>z_h := hi8 v, z_l := lo8 v\<rparr>"

definition z_regRead :: "nat \<Rightarrow> z80_regs \<Rightarrow> u32" where
  "z_regRead idx s =
     (if idx = 0 then ucast (z_af s) else if idx = 1 then ucast (z_bc s) else if idx = 2 then ucast (z_de s)
      else if idx = 3 then ucast (z_hl s) else if idx = 4 then ucast (z_ix s) else if idx = 5 then ucast (z_iy s)
      else if idx = 6 then ucast (z_sp s) else if idx = 7 then ucast (z_pc s) else if idx = 8 then ucast (z_af2 s)
      else if idx = 9 then ucast (z_bc2 s) else if idx = 10 then ucast (z_de2 s) else if idx = 11 then ucast (z_hl2 s)
      else if idx = 12 then ucast (z_i s) else if idx = 13 then ucast (z_r s) else if idx = 14 then ucast (z_im s)
      else if idx = 15 then (if z_iff1 s then 1 else 0) OR (if z_iff2 s then 2 else 0)
      else if idx = 16 then ucast (z_wz s) else 0)"

definition z_regWrite :: "nat \<Rightarrow> u32 \<Rightarrow> z80_regs \<Rightarrow> z80_regs" where
  "z_regWrite idx v s =
     (let w = ucast v :: u16
      in if idx = 0 then set_af w s else if idx = 1 then set_bc w s else if idx = 2 then set_de w s
      else if idx = 3 then set_hl w s else if idx = 4 then s\<lparr>z_ix := w\<rparr> else if idx = 5 then s\<lparr>z_iy := w\<rparr>
      else if idx = 6 then s\<lparr>z_sp := w\<rparr> else if idx = 7 then s\<lparr>z_pc := w, z_halted := False\<rparr>
      else if idx = 8 then s\<lparr>z_af2 := w\<rparr> else if idx = 9 then s\<lparr>z_bc2 := w\<rparr> else if idx = 10 then s\<lparr>z_de2 := w\<rparr>
      else if idx = 11 then s\<lparr>z_hl2 := w\<rparr> else if idx = 12 then s\<lparr>z_i := ucast v\<rparr>
      else if idx = 13 then s\<lparr>z_r := ucast v\<rparr> else if idx = 14 then s\<lparr>z_im := ucast (v AND 3)\<rparr>
      else if idx = 15 then s\<lparr>z_iff1 := tst v 1, z_iff2 := tst v 2\<rparr>
      else if idx = 16 then s\<lparr>z_wz := w\<rparr> else s)"

text \<open>Thirteen words, low byte first, and five bytes.\<close>

definition word_bytes :: "u16 \<Rightarrow> u8 list" where "word_bytes v = [lo8 v, hi8 v]"

definition z_saveState :: "z80_regs \<Rightarrow> u8 list" where
  "z_saveState s =
     concat (map word_bytes [z_af s, z_bc s, z_de s, z_hl s, z_ix s, z_iy s, z_sp s, z_pc s, z_af2 s, z_bc2 s,
       z_de2 s, z_hl2 s, z_wz s]) @
     [z_i s, z_r s, z_im s,
      (if z_iff1 s then 1 else 0) OR (if z_iff2 s then 2 else 0) OR (if z_halted s then 4 else 0) OR
      (if z_eiDelay s then 8 else 0) OR (if z_irqLine s then 16 else 0) OR (if z_nmiPending s then 32 else 0),
      z_qNext s]"

definition z_loadState :: "u8 list \<Rightarrow> z80_regs \<Rightarrow> z80_regs" where
  "z_loadState b s =
     (let w = (\<lambda>i. mk16 (b ! (2 * i)) (b ! (2 * i + 1)));
          s1 = set_hl (w 3) (set_de (w 2) (set_bc (w 1) (set_af (w 0) s)));
          s2 = s1\<lparr>z_ix := w 4, z_iy := w 5, z_sp := w 6, z_pc := w 7, z_af2 := w 8, z_bc2 := w 9, z_de2 := w 10,
                  z_hl2 := w 11, z_wz := w 12\<rparr>
      in s2\<lparr>z_i := b ! 26, z_r := b ! 27, z_im := b ! 28, z_iff1 := tst (b ! 29) 1, z_iff2 := tst (b ! 29) 2,
            z_halted := tst (b ! 29) 4, z_eiDelay := tst (b ! 29) 8, z_irqLine := tst (b ! 29) 16,
            z_nmiPending := tst (b ! 29) 32, z_qNext := b ! 30\<rparr>)"

definition z_incR :: "z80_regs \<Rightarrow> z80_regs" where
  "z_incR s = s\<lparr>z_r := (z_r s AND 0x80) OR ((z_r s + 1) AND 0x7F)\<rparr>"

definition z_idx :: "z80_regs \<Rightarrow> u16" where
  "z_idx s = (if z_prefix s = 1 then z_ix s else z_iy s)"

definition set_idx :: "u16 \<Rightarrow> z80_regs \<Rightarrow> z80_regs" where
  "set_idx v s = (if z_prefix s = 1 then s\<lparr>z_ix := v\<rparr> else s\<lparr>z_iy := v\<rparr>)"

definition z_rp :: "nat \<Rightarrow> z80_regs \<Rightarrow> u16" where
  "z_rp p s = (if p = 0 then z_bc s else if p = 1 then z_de s
     else if p = 2 then (if z_prefix s = 1 then z_ix s else if z_prefix s = 2 then z_iy s else z_hl s)
     else z_sp s)"

definition set_rp :: "nat \<Rightarrow> u16 \<Rightarrow> z80_regs \<Rightarrow> z80_regs" where
  "set_rp p v s = (if p = 0 then set_bc v s else if p = 1 then set_de v s
     else if p = 2 then (if z_prefix s = 1 then s\<lparr>z_ix := v\<rparr> else if z_prefix s = 2 then s\<lparr>z_iy := v\<rparr> else set_hl v s)
     else s\<lparr>z_sp := v\<rparr>)"

definition z_rp2 :: "nat \<Rightarrow> z80_regs \<Rightarrow> u16" where
  "z_rp2 p s = (if p = 3 then z_af s else z_rp p s)"

definition set_rp2 :: "nat \<Rightarrow> u16 \<Rightarrow> z80_regs \<Rightarrow> z80_regs" where
  "set_rp2 p v s = (if p = 3 then set_af v s else set_rp p v s)"

definition z_cond :: "nat \<Rightarrow> z80_regs \<Rightarrow> bool" where
  "z_cond y s = (if y = 0 then \<not> tst (z_f s) FZ else if y = 1 then tst (z_f s) FZ
     else if y = 2 then \<not> tst (z_f s) FC else if y = 3 then tst (z_f s) FC
     else if y = 4 then \<not> tst (z_f s) FP else if y = 5 then tst (z_f s) FP
     else if y = 6 then \<not> tst (z_f s) FS else tst (z_f s) FS)"

section \<open>Arithmetic\<close>

definition z_parity :: "u8 \<Rightarrow> u8" where
  "z_parity v = (let v = v XOR drop_bit 4 v; v = v XOR drop_bit 2 v; v = v XOR drop_bit 1 v
     in if tst v 1 then 0 else FP)"

definition sz53 :: "u8 \<Rightarrow> u8" where
  "sz53 v = (v AND (FS OR FY OR FX)) OR (if v \<noteq> 0 then 0 else FZ)"

definition sz53p :: "u8 \<Rightarrow> u8" where
  "sz53p v = sz53 v OR z_parity v"

definition z_setF :: "u8 \<Rightarrow> z80_regs \<Rightarrow> z80_regs" where
  "z_setF f s = s\<lparr>z_f := f, z_qNext := f\<rparr>"

definition z_add :: "bool \<Rightarrow> u8 \<Rightarrow> z80_regs \<Rightarrow> z80_regs" where
  "z_add with_carry v s =
     (let a = z_a s; c = (if with_carry \<and> tst (z_f s) FC then 1 else 0); r = uint a + uint v + c;
          res = word_of_int r :: u8;
          f = sz53 res OR (if r > 0xFF then FC else 0) OR ((a XOR v XOR res) AND FH);
          f = (if tst ((a XOR NOT v) AND (a XOR res)) 0x80 then f OR FP else f)
      in z_setF f (s\<lparr>z_a := res\<rparr>))"

definition z_sub :: "nat \<Rightarrow> u8 \<Rightarrow> z80_regs \<Rightarrow> z80_regs" where
  "z_sub op v s =
     (let a = z_a s; c = (if op = 3 \<and> tst (z_f s) FC then 1 else 0); r = uint a - uint v - c;
          res = word_of_int r :: u8;
          f = (res AND FS) OR (if res \<noteq> 0 then 0 else FZ) OR FN OR (if r < 0 then FC else 0) OR ((a XOR v XOR res) AND FH);
          f = (if tst ((a XOR v) AND (a XOR res)) 0x80 then f OR FP else f)
      in if op = 7 then z_setF ((f AND NOT (FX OR FY)) OR (v AND (FX OR FY))) s
         else z_setF (f OR (res AND (FX OR FY))) (s\<lparr>z_a := res\<rparr>))"

definition z_alu :: "nat \<Rightarrow> u8 \<Rightarrow> z80_regs \<Rightarrow> z80_regs" where
  "z_alu op v s =
     (if op = 0 \<or> op = 1 then z_add (op = 1) v s
      else if op = 2 \<or> op = 3 \<or> op = 7 then z_sub op v s
      else if op = 4 then z_setF (sz53p (z_a s AND v) OR FH) (s\<lparr>z_a := z_a s AND v\<rparr>)
      else if op = 5 then z_setF (sz53p (z_a s XOR v)) (s\<lparr>z_a := z_a s XOR v\<rparr>)
      else z_setF (sz53p (z_a s OR v)) (s\<lparr>z_a := z_a s OR v\<rparr>))"

definition z_inc8 :: "u8 \<Rightarrow> z80_regs \<Rightarrow> u8 \<times> z80_regs" where
  "z_inc8 v s = (let r = v + 1
     in (r, z_setF ((z_f s AND FC) OR sz53 r OR ((v XOR r) AND FH) OR (if v = 0x7F then FP else 0)) s))"

definition z_dec8 :: "u8 \<Rightarrow> z80_regs \<Rightarrow> u8 \<times> z80_regs" where
  "z_dec8 v s = (let r = v - 1
     in (r, z_setF ((z_f s AND FC) OR sz53 r OR FN OR ((v XOR r) AND FH) OR (if v = 0x80 then FP else 0)) s))"

definition z_rot :: "nat \<Rightarrow> u8 \<Rightarrow> z80_regs \<Rightarrow> u8 \<times> z80_regs" where
  "z_rot y v s =
     (let (r, c) = (
        if y = 0 then (push_bit 1 v OR drop_bit 7 v, drop_bit 7 v)
        else if y = 1 then (drop_bit 1 v OR push_bit 7 (v AND 1), v AND 1)
        else if y = 2 then (push_bit 1 v OR (z_f s AND FC), drop_bit 7 v)
        else if y = 3 then (drop_bit 1 v OR push_bit 7 (z_f s AND FC), v AND 1)
        else if y = 4 then (push_bit 1 v, drop_bit 7 v)
        else if y = 5 then (drop_bit 1 v OR (v AND 0x80), v AND 1)
        else if y = 6 then (push_bit 1 v OR 1, drop_bit 7 v)
        else (drop_bit 1 v, v AND 1))
      in (r, z_setF (sz53p r OR c) s))"

definition z_add16 :: "u16 \<Rightarrow> u16 \<Rightarrow> z80_regs \<Rightarrow> u16 \<times> z80_regs" where
  "z_add16 r v s0 =
     (let s = s0\<lparr>z_wz := r + 1\<rparr>; t = ucast r + ucast v :: u32;
          f = (z_f s AND (FS OR FZ OR FP)) OR (if t > 0xFFFF then FC else 0) OR
            (ucast (drop_bit 8 (ucast r XOR ucast v XOR t)) AND FH) OR (ucast (drop_bit 8 t) AND (FX OR FY))
      in (ucast t, z_setF f s))"

definition z_adc16 :: "u16 \<Rightarrow> z80_regs \<Rightarrow> z80_regs" where
  "z_adc16 v s0 =
     (let h = z_hl s0; s = s0\<lparr>z_wz := h + 1\<rparr>; t = ucast h + ucast v + ucast (z_f s AND FC) :: u32;
          res = ucast t :: u16;
          f = (ucast (drop_bit 8 res) AND (FS OR FX OR FY)) OR (if res \<noteq> 0 then 0 else FZ) OR
            (if t > 0xFFFF then FC else 0) OR (ucast (drop_bit 8 (ucast h XOR ucast v XOR t)) AND FH);
          f = (if tst ((h XOR NOT v) AND (h XOR res)) 0x8000 then f OR FP else f)
      in z_setF f (set_hl res s))"

definition z_sbc16 :: "u16 \<Rightarrow> z80_regs \<Rightarrow> z80_regs" where
  "z_sbc16 v s0 =
     (let h = z_hl s0; s = s0\<lparr>z_wz := h + 1\<rparr>; t = uint h - uint v - uint (z_f s AND FC);
          res = word_of_int t :: u16;
          f = (ucast (drop_bit 8 res) AND (FS OR FX OR FY)) OR (if res \<noteq> 0 then 0 else FZ) OR
            (if t < 0 then FC else 0) OR FN OR (ucast (drop_bit 8 (h XOR v XOR res)) AND FH);
          f = (if tst ((h XOR v) AND (h XOR res)) 0x8000 then f OR FP else f)
      in z_setF f (set_hl res s))"

definition z_bit :: "nat \<Rightarrow> u8 \<Rightarrow> u8 \<Rightarrow> z80_regs \<Rightarrow> z80_regs" where
  "z_bit n v xy s =
     (let b = v AND push_bit n 1; f = (z_f s AND FC) OR FH OR (xy AND (FX OR FY));
          f = (if b = 0 then f OR FZ OR FP else f); f = (if n = 7 \<and> b \<noteq> 0 then f OR FS else f)
      in z_setF f s)"

definition z_daa :: "z80_regs \<Rightarrow> z80_regs" where
  "z_daa s =
     (let a = z_a s; c = z_f s AND FC;
          corr = (if tst (z_f s) FH \<or> a AND 0x0F > 9 then 0x06 else 0);
          hc = (c \<noteq> 0 \<or> a > 0x99); corr = (if hc then corr OR 0x60 else corr); c = (if hc then FC else c);
          r = (if tst (z_f s) FN then a - corr else a + corr); h = (a XOR r) AND FH
      in z_setF (sz53p r OR (z_f s AND FN) OR h OR c) (s\<lparr>z_a := r\<rparr>))"

text \<open>RLCA, RRCA, RLA, RRA.\<close>

definition z_rota :: "nat \<Rightarrow> z80_regs \<Rightarrow> z80_regs" where
  "z_rota y s =
     (let a = z_a s;
          (r, c) = (if y = 0 then (push_bit 1 a OR drop_bit 7 a, drop_bit 7 a)
             else if y = 1 then (drop_bit 1 a OR push_bit 7 (a AND 1), a AND 1)
             else if y = 2 then (push_bit 1 a OR (z_f s AND FC), drop_bit 7 a)
             else (drop_bit 1 a OR push_bit 7 (z_f s AND FC), a AND 1))
      in z_setF ((z_f s AND (FS OR FZ OR FP)) OR (r AND (FX OR FY)) OR c) (s\<lparr>z_a := r\<rparr>))"

definition z_cpl :: "z80_regs \<Rightarrow> z80_regs" where
  "z_cpl s = (let r = NOT (z_a s)
     in z_setF ((z_f s AND (FS OR FZ OR FP OR FC)) OR FH OR FN OR (r AND (FX OR FY))) (s\<lparr>z_a := r\<rparr>))"

definition z_scf :: "z80_regs \<Rightarrow> z80_regs" where
  "z_scf s = z_setF ((z_f s AND (FS OR FZ OR FP)) OR FC OR (((z_q s XOR z_f s) OR z_a s) AND (FX OR FY))) s"

definition z_ccf :: "z80_regs \<Rightarrow> z80_regs" where
  "z_ccf s = z_setF ((z_f s AND (FS OR FZ OR FP)) OR (if z_f s AND FC \<noteq> 0 then FH else FC) OR
     (((z_q s XOR z_f s) OR z_a s) AND (FX OR FY))) s"

definition z_exAF :: "z80_regs \<Rightarrow> z80_regs" where
  "z_exAF s = (set_af (z_af2 s) s)\<lparr>z_af2 := z_af s\<rparr>"

definition z_exx :: "z80_regs \<Rightarrow> z80_regs" where
  "z_exx s =
     (let s = (set_bc (z_bc2 s) s)\<lparr>z_bc2 := z_bc s\<rparr>; s = (set_de (z_de2 s) s)\<lparr>z_de2 := z_de s\<rparr>
      in (set_hl (z_hl2 s) s)\<lparr>z_hl2 := z_hl s\<rparr>)"

definition z_exDEHL :: "z80_regs \<Rightarrow> z80_regs" where
  "z_exDEHL s = (let t = z_de s in set_hl t (s\<lparr>z_d := z_h s, z_e := z_l s\<rparr>))"

end
