(* ===== verification/Z80Exec.thy ===== *)
theory Z80Exec
  imports Z80
begin

text \<open>
  Execution on the Z80 (\<open>cpu_z80.cpp\<close>): memory and I/O access, the instructions by the fields \<open>x\<close>, \<open>y\<close>,
  \<open>z\<close> of the opcode, one definition for each column of the code's switch, interrupts and the step. The
  number of T-states is the result of a computation. Prefix bytes are consumed by a loop with no
  bound, so a step is a partial function.
\<close>

section \<open>Memory and I/O\<close>

definition zupd :: "(z80_regs \<Rightarrow> z80_regs) \<Rightarrow> ('b z80, unit) state" where
  "zupd f = modify (\<lambda>c. c\<lparr>zz_regs := f (zz_regs c)\<rparr>)"

definition zget :: "(z80_regs \<Rightarrow> 'a) \<Rightarrow> ('b z80, 'a) state" where
  "zget f = gets (\<lambda>c. f (zz_regs c))"

definition zmem :: "('b, 'a) state \<Rightarrow> ('b z80, 'a) state" where
  "zmem m = State_Monad.State (\<lambda>c. (case run_state m (zz_mem c) of (r, b) \<Rightarrow> (r, c\<lparr>zz_mem := b\<rparr>)))"

text \<open>A register function with a result.\<close>

definition zapply :: "(z80_regs \<Rightarrow> 'a \<times> z80_regs) \<Rightarrow> ('b z80, 'a) state" where
  "zapply f = State_Monad.State (\<lambda>c. (case f (zz_regs c) of (r, s) \<Rightarrow> (r, c\<lparr>zz_regs := s\<rparr>)))"

definition z_rd :: "'b z80_env \<Rightarrow> u16 \<Rightarrow> ('b z80, u8) state" where
  "z_rd E a = (case ze_bus E of Some ib \<Rightarrow> zmem (ib_read8 ib (ucast a)) | None \<Rightarrow> State_Monad.return 0xFF)"

definition z_wr :: "'b z80_env \<Rightarrow> u16 \<Rightarrow> u8 \<Rightarrow> ('b z80, unit) state" where
  "z_wr E a v = (case ze_bus E of Some ib \<Rightarrow> zmem (ib_write8 ib (ucast a) v) | None \<Rightarrow> skip)"

definition z_rd16 :: "'b z80_env \<Rightarrow> u16 \<Rightarrow> ('b z80, u16) state" where
  "z_rd16 E a = do { lo \<leftarrow> z_rd E a; hi \<leftarrow> z_rd E (a + 1); State_Monad.return (mk16 lo hi) }"

definition z_wr16 :: "'b z80_env \<Rightarrow> u16 \<Rightarrow> u16 \<Rightarrow> ('b z80, unit) state" where
  "z_wr16 E a v = do { z_wr E a (lo8 v); z_wr E (a + 1) (hi8 v) }"

definition z_in :: "'b z80_env \<Rightarrow> u16 \<Rightarrow> ('b z80, u8) state" where
  "z_in E port = (case ze_io E of Some ib \<Rightarrow> zmem (ib_read8 ib (ucast port)) | None \<Rightarrow> State_Monad.return 0xFF)"

definition z_out :: "'b z80_env \<Rightarrow> u16 \<Rightarrow> u8 \<Rightarrow> ('b z80, unit) state" where
  "z_out E port v = (case ze_io E of Some ib \<Rightarrow> zmem (ib_write8 ib (ucast port) v) | None \<Rightarrow> skip)"

definition z_fetch :: "'b z80_env \<Rightarrow> ('b z80, u8) state" where
  "z_fetch E = do { pc \<leftarrow> zget z_pc; zupd (\<lambda>s. s\<lparr>z_pc := pc + 1\<rparr>); z_rd E pc }"

definition z_fetch16 :: "'b z80_env \<Rightarrow> ('b z80, u16) state" where
  "z_fetch16 E = do { pc \<leftarrow> zget z_pc; v \<leftarrow> z_rd16 E pc; zupd (\<lambda>s. s\<lparr>z_pc := z_pc s + 2\<rparr>); State_Monad.return v }"

definition z_push :: "'b z80_env \<Rightarrow> u16 \<Rightarrow> ('b z80, unit) state" where
  "z_push E v = do { zupd (\<lambda>s. s\<lparr>z_sp := z_sp s - 2\<rparr>); sp \<leftarrow> zget z_sp; z_wr16 E sp v }"

definition z_pop :: "'b z80_env \<Rightarrow> ('b z80, u16) state" where
  "z_pop E = do { sp \<leftarrow> zget z_sp; v \<leftarrow> z_rd16 E sp; zupd (\<lambda>s. s\<lparr>z_sp := z_sp s + 2\<rparr>); State_Monad.return v }"

text \<open>The address \<open>IX + d\<close>, with the displacement fetched, and MEMPTR.\<close>

definition disp_target :: "u16 \<Rightarrow> u8 \<Rightarrow> u16" where
  "disp_target base d = base + scast d"

definition z_disp :: "'b z80_env \<Rightarrow> ('b z80, u16) state" where
  "z_disp E = do {
     fetched \<leftarrow> zget z_dispFetched;
     (if \<not> fetched then do {
        d \<leftarrow> z_fetch E;
        zupd (\<lambda>s. let a = disp_target (z_idx s) d in s\<lparr>z_dispAddr := a, z_wz := a, z_dispFetched := True\<rparr>) }
      else skip);
     zget z_dispAddr }"

definition z_reg8 :: "'b z80_env \<Rightarrow> nat \<Rightarrow> ('b z80, u8) state" where
  "z_reg8 E r =
     (if r = 0 then zget z_b else if r = 1 then zget z_c else if r = 2 then zget z_d else if r = 3 then zget z_e
      else if r = 4 then zget (\<lambda>s. if z_prefix s \<noteq> 0 then hi8 (z_idx s) else z_h s)
      else if r = 5 then zget (\<lambda>s. if z_prefix s \<noteq> 0 then lo8 (z_idx s) else z_l s)
      else if r = 6 then do {
        prefix \<leftarrow> zget z_prefix;
        (if prefix = 0 then do { h \<leftarrow> zget z_hl; z_rd E h } else do { a \<leftarrow> z_disp E; z_rd E a }) }
      else zget z_a)"

definition set_reg8 :: "nat \<Rightarrow> u8 \<Rightarrow> z80_regs \<Rightarrow> z80_regs" where
  "set_reg8 r v s =
     (if r = 0 then s\<lparr>z_b := v\<rparr> else if r = 1 then s\<lparr>z_c := v\<rparr> else if r = 2 then s\<lparr>z_d := v\<rparr>
      else if r = 3 then s\<lparr>z_e := v\<rparr>
      else if r = 4 then (if z_prefix s \<noteq> 0 then set_idx (mk16 (lo8 (z_idx s)) v) s else s\<lparr>z_h := v\<rparr>)
      else if r = 5 then (if z_prefix s \<noteq> 0 then set_idx (mk16 v (hi8 (z_idx s))) s else s\<lparr>z_l := v\<rparr>)
      else s\<lparr>z_a := v\<rparr>)"

definition z_setReg8 :: "'b z80_env \<Rightarrow> nat \<Rightarrow> u8 \<Rightarrow> ('b z80, unit) state" where
  "z_setReg8 E r v =
     (if r = 6 then do {
        prefix \<leftarrow> zget z_prefix;
        (if prefix = 0 then do { h \<leftarrow> zget z_hl; z_wr E h v } else do { a \<leftarrow> z_disp E; z_wr E a v }) }
      else zupd (set_reg8 r v))"

definition z_ret :: "nat \<Rightarrow> ('b z80, nat) state" where
  "z_ret t = State_Monad.return t"

text \<open>\<open>m_pc = a; m_wz = m_pc;\<close>\<close>

definition jump :: "u16 \<Rightarrow> z80_regs \<Rightarrow> z80_regs" where
  "jump a s = s\<lparr>z_pc := a, z_wz := a\<rparr>"

section \<open>Main instructions\<close>

definition main_x0z0 :: "'b z80_env \<Rightarrow> nat \<Rightarrow> ('b z80, nat) state" where
  "main_x0z0 E y =
     (if y = 0 then z_ret 4
      else if y = 1 then do { zupd z_exAF; z_ret 4 }
      else if y = 2 then do {
        d \<leftarrow> z_fetch E; zupd (\<lambda>s. s\<lparr>z_b := z_b s - 1\<rparr>); b \<leftarrow> zget z_b;
        (if b \<noteq> 0 then do { zupd (\<lambda>s. jump (disp_target (z_pc s) d) s); z_ret 13 } else z_ret 8) }
      else if y = 3 then do { d \<leftarrow> z_fetch E; zupd (\<lambda>s. jump (disp_target (z_pc s) d) s); z_ret 12 }
      else do {
        d \<leftarrow> z_fetch E; taken \<leftarrow> zget (z_cond (y - 4));
        (if taken then do { zupd (\<lambda>s. jump (disp_target (z_pc s) d) s); z_ret 12 } else z_ret 7) })"

definition add_index :: "u16 \<Rightarrow> z80_regs \<Rightarrow> z80_regs" where
  "add_index v s =
     (if z_prefix s = 1 then (case z_add16 (z_ix s) v s of (r, s) \<Rightarrow> s\<lparr>z_ix := r\<rparr>)
      else if z_prefix s = 2 then (case z_add16 (z_iy s) v s of (r, s) \<Rightarrow> s\<lparr>z_iy := r\<rparr>)
      else (case z_add16 (z_hl s) v s of (r, s) \<Rightarrow> set_hl r s))"

definition main_x0z1 :: "'b z80_env \<Rightarrow> nat \<Rightarrow> ('b z80, nat) state" where
  "main_x0z1 E y = (let p = y div 2; q = y mod 2 in
     if q = 0 then do { v \<leftarrow> z_fetch16 E; zupd (set_rp p v); z_ret 10 }
     else do { zupd (\<lambda>s. add_index (z_rp p s) s); z_ret 11 })"

definition store_wz :: "u16 \<Rightarrow> z80_regs \<Rightarrow> z80_regs" where
  "store_wz a s = s\<lparr>z_wz := mk16 (lo8 (a + 1)) (z_a s)\<rparr>"

definition main_x0z2 :: "'b z80_env \<Rightarrow> nat \<Rightarrow> ('b z80, nat) state" where
  "main_x0z2 E y =
     (if y = 0 \<or> y = 2 then do {
        a \<leftarrow> zget (if y = 0 then z_bc else z_de); v \<leftarrow> zget z_a; z_wr E a v; zupd (store_wz a); z_ret 7 }
      else if y = 1 \<or> y = 3 then do {
        a \<leftarrow> zget (if y = 1 then z_bc else z_de); v \<leftarrow> z_rd E a; zupd (\<lambda>s. s\<lparr>z_a := v, z_wz := a + 1\<rparr>); z_ret 7 }
      else if y = 4 then do {
        a \<leftarrow> z_fetch16 E; v \<leftarrow> zget (z_rp 2); z_wr16 E a v; zupd (\<lambda>s. s\<lparr>z_wz := a + 1\<rparr>); z_ret 16 }
      else if y = 5 then do {
        a \<leftarrow> z_fetch16 E; v \<leftarrow> z_rd16 E a; zupd (\<lambda>s. (set_rp 2 v s)\<lparr>z_wz := a + 1\<rparr>); z_ret 16 }
      else if y = 6 then do {
        a \<leftarrow> z_fetch16 E; v \<leftarrow> zget z_a; z_wr E a v; zupd (store_wz a); z_ret 13 }
      else do {
        a \<leftarrow> z_fetch16 E; v \<leftarrow> z_rd E a; zupd (\<lambda>s. s\<lparr>z_a := v, z_wz := a + 1\<rparr>); z_ret 13 })"

definition main_x0z3 :: "nat \<Rightarrow> ('b z80, nat) state" where
  "main_x0z3 y = (let p = y div 2; q = y mod 2 in
     do { zupd (\<lambda>s. set_rp p (if q = 1 then z_rp p s - 1 else z_rp p s + 1) s); z_ret 6 })"

definition main_x0z45 :: "'b z80_env \<Rightarrow> (u8 \<Rightarrow> z80_regs \<Rightarrow> u8 \<times> z80_regs) \<Rightarrow> nat \<Rightarrow> nat \<Rightarrow> ('b z80, nat) state" where
  "main_x0z45 E f y ext = do {
     v \<leftarrow> z_reg8 E y; r \<leftarrow> zapply (f v); z_setReg8 E y r; z_ret (if y = 6 then 11 + ext else 4) }"

definition main_x0z6 :: "'b z80_env \<Rightarrow> nat \<Rightarrow> ('b z80, nat) state" where
  "main_x0z6 E y = do {
     prefix \<leftarrow> zget z_prefix;
     (if y = 6 \<and> prefix \<noteq> 0 then do {
        d \<leftarrow> z_fetch E;
        zupd (\<lambda>s. let a = disp_target (z_idx s) d in s\<lparr>z_dispAddr := a, z_wz := a, z_dispFetched := True\<rparr>);
        n \<leftarrow> z_fetch E; a \<leftarrow> zget z_dispAddr; z_wr E a n; z_ret 15 }
      else do { n \<leftarrow> z_fetch E; z_setReg8 E y n; z_ret (if y = 6 then 10 else 7) }) }"

definition main_x0z7 :: "nat \<Rightarrow> ('b z80, nat) state" where
  "main_x0z7 y = do {
     zupd (if y < 4 then z_rota y else if y = 4 then z_daa else if y = 5 then z_cpl else if y = 6 then z_scf else z_ccf);
     z_ret 4 }"

definition main_x0 :: "'b z80_env \<Rightarrow> nat \<Rightarrow> nat \<Rightarrow> nat \<Rightarrow> ('b z80, nat) state" where
  "main_x0 E y z ext =
     (if z = 0 then main_x0z0 E y else if z = 1 then main_x0z1 E y else if z = 2 then main_x0z2 E y
      else if z = 3 then main_x0z3 y else if z = 4 then main_x0z45 E z_inc8 y ext
      else if z = 5 then main_x0z45 E z_dec8 y ext else if z = 6 then main_x0z6 E y else main_x0z7 y)"

definition main_x1 :: "'b z80_env \<Rightarrow> nat \<Rightarrow> nat \<Rightarrow> nat \<Rightarrow> ('b z80, nat) state" where
  "main_x1 E y z ext =
     (if y = 6 \<and> z = 6 then do { zupd (\<lambda>s. s\<lparr>z_halted := True\<rparr>); z_ret 4 }
      else if y = 6 then do {
        save \<leftarrow> zget z_prefix;
        addr \<leftarrow> (if save \<noteq> 0 then do {
            d \<leftarrow> z_fetch E; a \<leftarrow> zget (\<lambda>s. disp_target (z_idx s) d); zupd (\<lambda>s. s\<lparr>z_wz := a\<rparr>); State_Monad.return a }
          else zget z_hl);
        zupd (\<lambda>s. s\<lparr>z_prefix := 0\<rparr>);
        v \<leftarrow> z_reg8 E z;
        zupd (\<lambda>s. s\<lparr>z_prefix := save\<rparr>);
        z_wr E addr v; z_ret (7 + ext) }
      else if z = 6 then do {
        save \<leftarrow> zget z_prefix;
        v \<leftarrow> z_reg8 E 6;
        zupd (\<lambda>s. s\<lparr>z_prefix := 0\<rparr>);
        z_setReg8 E y v;
        zupd (\<lambda>s. s\<lparr>z_prefix := save\<rparr>);
        z_ret (7 + ext) }
      else do { v \<leftarrow> z_reg8 E z; z_setReg8 E y v; z_ret 4 })"

definition main_x2 :: "'b z80_env \<Rightarrow> nat \<Rightarrow> nat \<Rightarrow> nat \<Rightarrow> ('b z80, nat) state" where
  "main_x2 E y z ext = do { v \<leftarrow> z_reg8 E z; zupd (z_alu y v); z_ret (if z = 6 then 7 + ext else 4) }"

definition main_x3z1 :: "'b z80_env \<Rightarrow> nat \<Rightarrow> ('b z80, nat) state" where
  "main_x3z1 E y = (let p = y div 2; q = y mod 2 in
     if q = 0 then do { v \<leftarrow> z_pop E; zupd (set_rp2 p v); z_ret 10 }
     else if p = 0 then do { a \<leftarrow> z_pop E; zupd (jump a); z_ret 10 }
     else if p = 1 then do { zupd z_exx; z_ret 4 }
     else if p = 2 then do { zupd (\<lambda>s. s\<lparr>z_pc := z_rp 2 s\<rparr>); z_ret 4 }
     else do { zupd (\<lambda>s. s\<lparr>z_sp := z_rp 2 s\<rparr>); z_ret 6 })"

definition main_x3z3 :: "'b z80_env \<Rightarrow> nat \<Rightarrow> ('b z80, nat) state" where
  "main_x3z3 E y =
     (if y = 0 then do { a \<leftarrow> z_fetch16 E; zupd (jump a); z_ret 10 }
      else if y = 2 then do {
        n \<leftarrow> z_fetch E; a \<leftarrow> zget z_a; z_out E (mk16 n a) a;
        zupd (\<lambda>s. s\<lparr>z_wz := mk16 (n + 1) a\<rparr>); z_ret 11 }
      else if y = 3 then do {
        n \<leftarrow> z_fetch E; port \<leftarrow> zget (\<lambda>s. mk16 n (z_a s)); v \<leftarrow> z_in E port;
        zupd (\<lambda>s. s\<lparr>z_a := v, z_wz := port + 1\<rparr>); z_ret 11 }
      else if y = 4 then do {
        sp \<leftarrow> zget z_sp; v \<leftarrow> z_rd16 E sp; w \<leftarrow> zget (z_rp 2); z_wr16 E sp w;
        zupd (\<lambda>s. (set_rp 2 v s)\<lparr>z_wz := v\<rparr>); z_ret 19 }
      else if y = 5 then do { zupd z_exDEHL; z_ret 4 }
      else if y = 6 then do { zupd (\<lambda>s. s\<lparr>z_iff1 := False, z_iff2 := False\<rparr>); z_ret 4 }
      else if y = 7 then do { zupd (\<lambda>s. s\<lparr>z_iff1 := True, z_iff2 := True, z_eiDelay := True\<rparr>); z_ret 4 }
      else z_ret 4)"

text \<open>\<open>push(m_pc); m_pc = a\<close>\<close>

definition z_call :: "'b z80_env \<Rightarrow> u16 \<Rightarrow> ('b z80, unit) state" where
  "z_call E a = do { pc \<leftarrow> zget z_pc; z_push E pc; zupd (\<lambda>s. s\<lparr>z_pc := a\<rparr>) }"

definition main_x3 :: "'b z80_env \<Rightarrow> nat \<Rightarrow> nat \<Rightarrow> ('b z80, nat) state" where
  "main_x3 E y z =
     (if z = 0 then do {
        taken \<leftarrow> zget (z_cond y);
        (if taken then do { a \<leftarrow> z_pop E; zupd (jump a); z_ret 11 } else z_ret 5) }
      else if z = 1 then main_x3z1 E y
      else if z = 2 then do {
        a \<leftarrow> z_fetch16 E; zupd (\<lambda>s. s\<lparr>z_wz := a\<rparr>);
        zupd (\<lambda>s. if z_cond y s then s\<lparr>z_pc := a\<rparr> else s); z_ret 10 }
      else if z = 3 then main_x3z3 E y
      else if z = 4 then do {
        a \<leftarrow> z_fetch16 E; zupd (\<lambda>s. s\<lparr>z_wz := a\<rparr>); taken \<leftarrow> zget (z_cond y);
        (if taken then do { z_call E a; z_ret 17 } else z_ret 10) }
      else if z = 5 then
        (if y mod 2 = 0 then do { v \<leftarrow> zget (z_rp2 (y div 2)); z_push E v; z_ret 11 }
         else if y div 2 = 0 then do { a \<leftarrow> z_fetch16 E; zupd (\<lambda>s. s\<lparr>z_wz := a\<rparr>); z_call E a; z_ret 17 }
         else z_ret 4)
      else if z = 6 then do { v \<leftarrow> z_fetch E; zupd (z_alu y v); z_ret 7 }
      else do { z_call E (of_nat (y * 8)); zupd (\<lambda>s. s\<lparr>z_wz := z_pc s\<rparr>); z_ret 11 })"

definition op_x :: "u8 \<Rightarrow> nat" where "op_x op = unat (drop_bit 6 op)"
definition op_y :: "u8 \<Rightarrow> nat" where "op_y op = unat (drop_bit 3 op AND 7)"
definition op_z :: "u8 \<Rightarrow> nat" where "op_z op = unat (op AND 7)"

definition execMain :: "'b z80_env \<Rightarrow> u8 \<Rightarrow> ('b z80, nat) state" where
  "execMain E op = do {
     prefix \<leftarrow> zget z_prefix;
     let ext = (if prefix \<noteq> 0 then 8 else 0);
     (if op_x op = 0 then main_x0 E (op_y op) (op_z op) ext
      else if op_x op = 1 then main_x1 E (op_y op) (op_z op) ext
      else if op_x op = 2 then main_x2 E (op_y op) (op_z op) ext
      else main_x3 E (op_y op) (op_z op)) }"

section \<open>CB and DDCB/FDCB\<close>

definition res_bit :: "nat \<Rightarrow> u8 \<Rightarrow> u8" where "res_bit y v = v AND NOT (push_bit y 1)"
definition set_bit8 :: "nat \<Rightarrow> u8 \<Rightarrow> u8" where "set_bit8 y v = v OR push_bit y 1"

definition execCB :: "'b z80_env \<Rightarrow> ('b z80, nat) state" where
  "execCB E = do {
     op \<leftarrow> z_fetch E; zupd z_incR;
     let x = op_x op; let y = op_y op; let z = op_z op;
     v \<leftarrow> z_reg8 E z;
     (if x = 0 then do { r \<leftarrow> zapply (z_rot y v); z_setReg8 E z r; z_ret (if z = 6 then 15 else 8) }
      else if x = 1 then do {
        zupd (\<lambda>s. z_bit y v (if z = 6 then hi8 (z_wz s) else v) s); z_ret (if z = 6 then 12 else 8) }
      else if x = 2 then do { z_setReg8 E z (res_bit y v); z_ret (if z = 6 then 15 else 8) }
      else do { z_setReg8 E z (set_bit8 y v); z_ret (if z = 6 then 15 else 8) }) }"

definition indexCB_store :: "'b z80_env \<Rightarrow> u16 \<Rightarrow> nat \<Rightarrow> u8 \<Rightarrow> ('b z80, nat) state" where
  "indexCB_store E addr z r = do {
     z_wr E addr r;
     (if z \<noteq> 6 then do { zupd (\<lambda>s. s\<lparr>z_prefix := 0\<rparr>); z_setReg8 E z r } else skip);
     z_ret 19 }"

definition execIndexCB :: "'b z80_env \<Rightarrow> ('b z80, nat) state" where
  "execIndexCB E = do {
     d \<leftarrow> z_fetch E;
     addr \<leftarrow> zget (\<lambda>s. disp_target (z_idx s) d);
     zupd (\<lambda>s. s\<lparr>z_wz := addr\<rparr>);
     op \<leftarrow> z_fetch E;
     let x = op_x op; let y = op_y op; let z = op_z op;
     v \<leftarrow> z_rd E addr;
     (if x = 0 then do { r \<leftarrow> zapply (z_rot y v); indexCB_store E addr z r }
      else if x = 1 then do { zupd (z_bit y v (hi8 addr)); z_ret 16 }
      else if x = 2 then indexCB_store E addr z (res_bit y v)
      else indexCB_store E addr z (set_bit8 y v)) }"

section \<open>ED\<close>

definition IM_TABLE :: "u8 list" where "IM_TABLE = [0, 0, 1, 2, 0, 0, 1, 2]"

text \<open>RRD and RLD.\<close>

definition rotate_digit :: "'b z80_env \<Rightarrow> bool \<Rightarrow> ('b z80, nat) state" where
  "rotate_digit E right = do {
     h \<leftarrow> zget z_hl; v \<leftarrow> z_rd E h; a \<leftarrow> zget z_a;
     z_wr E h (if right then push_bit 4 a OR drop_bit 4 v else push_bit 4 v OR (a AND 0x0F));
     zupd (\<lambda>s. let r = (z_a s AND 0xF0) OR (if right then v AND 0x0F else drop_bit 4 v)
       in (z_setF ((z_f s AND FC) OR sz53p r) (s\<lparr>z_a := r\<rparr>))\<lparr>z_wz := h + 1\<rparr>);
     z_ret 18 }"

definition ed_x1z7 :: "'b z80_env \<Rightarrow> nat \<Rightarrow> ('b z80, nat) state" where
  "ed_x1z7 E y =
     (if y = 0 then do { zupd (\<lambda>s. s\<lparr>z_i := z_a s\<rparr>); z_ret 9 }
      else if y = 1 then do { zupd (\<lambda>s. s\<lparr>z_r := z_a s\<rparr>); z_ret 9 }
      else if y = 2 \<or> y = 3 then do {
        zupd (\<lambda>s. let a = (if y = 2 then z_i s else z_r s)
          in z_setF ((z_f s AND FC) OR sz53 a OR (if z_iff2 s then FP else 0)) (s\<lparr>z_a := a\<rparr>));
        z_ret 9 }
      else if y = 4 then rotate_digit E True
      else if y = 5 then rotate_digit E False
      else z_ret 8)"

definition ed_x1 :: "'b z80_env \<Rightarrow> nat \<Rightarrow> nat \<Rightarrow> ('b z80, nat) state" where
  "ed_x1 E y z = (let p = y div 2; q = y mod 2 in
     if z = 0 then do {
       port \<leftarrow> zget z_bc; v \<leftarrow> z_in E port; zupd (\<lambda>s. s\<lparr>z_wz := z_bc s + 1\<rparr>);
       (if y \<noteq> 6 then z_setReg8 E y v else skip);
       zupd (\<lambda>s. z_setF ((z_f s AND FC) OR sz53p v) s); z_ret 12 }
     else if z = 1 then do {
       v \<leftarrow> (if y = 6 then State_Monad.return 0 else z_reg8 E y);
       port \<leftarrow> zget z_bc; z_out E port v; zupd (\<lambda>s. s\<lparr>z_wz := z_bc s + 1\<rparr>); z_ret 12 }
     else if z = 2 then do {
       zupd (\<lambda>s. if q = 1 then z_adc16 (z_rp p s) s else z_sbc16 (z_rp p s) s); z_ret 15 }
     else if z = 3 then do {
       a \<leftarrow> z_fetch16 E;
       (if q = 1 then do { v \<leftarrow> z_rd16 E a; zupd (set_rp p v) } else do { v \<leftarrow> zget (z_rp p); z_wr16 E a v });
       zupd (\<lambda>s. s\<lparr>z_wz := a + 1\<rparr>); z_ret 20 }
     else if z = 4 then do { zupd (\<lambda>s. z_alu 2 (z_a s) (s\<lparr>z_a := 0\<rparr>)); z_ret 8 }
     else if z = 5 then do {
       zupd (\<lambda>s. s\<lparr>z_iff1 := z_iff2 s\<rparr>); a \<leftarrow> z_pop E; zupd (jump a); z_ret 14 }
     else if z = 6 then do { zupd (\<lambda>s. s\<lparr>z_im := IM_TABLE ! y\<rparr>); z_ret 8 }
     else ed_x1z7 E y)"

text \<open>\<open>m_pc - 2\<close> for a repeating block instruction that has not finished.\<close>

definition repeat_block :: "bool \<Rightarrow> ('b z80, nat) state" where
  "repeat_block set_wz = do {
     zupd (\<lambda>s. let s = s\<lparr>z_pc := z_pc s - 2\<rparr> in if set_wz then s\<lparr>z_wz := z_pc s + 1\<rparr> else s); z_ret 21 }"

definition step_dir :: "bool \<Rightarrow> u16 \<Rightarrow> u16" where
  "step_dir dec v = (if dec then v - 1 else v + 1)"

definition ldi_regs :: "bool \<Rightarrow> u8 \<Rightarrow> z80_regs \<Rightarrow> z80_regs" where
  "ldi_regs dec v s0 =
     (let s = set_de (step_dir dec (z_de s0)) (set_hl (step_dir dec (z_hl s0)) s0);
          b16 = z_bc s0 - 1; s = set_bc b16 s; n = v + z_a s
      in z_setF ((z_f s AND (FS OR FZ OR FC)) OR (if b16 \<noteq> 0 then FP else 0) OR (n AND FX) OR (push_bit 4 n AND FY)) s)"

definition block_ldi :: "'b z80_env \<Rightarrow> bool \<Rightarrow> bool \<Rightarrow> ('b z80, nat) state" where
  "block_ldi E dec rep = do {
     h \<leftarrow> zget z_hl; v \<leftarrow> z_rd E h; d \<leftarrow> zget z_de; z_wr E d v;
     zupd (ldi_regs dec v);
     b16 \<leftarrow> zget z_bc;
     (if rep \<and> b16 \<noteq> 0 then repeat_block True else z_ret 16) }"

definition cpi_regs :: "bool \<Rightarrow> u8 \<Rightarrow> z80_regs \<Rightarrow> z80_regs" where
  "cpi_regs dec v s0 =
     (let r = z_a s0 - v; s = set_hl (step_dir dec (z_hl s0)) s0; b16 = z_bc s0 - 1; s = set_bc b16 s;
          hf = (z_a s XOR v XOR r) AND FH; n = r - (if hf \<noteq> 0 then 1 else 0);
          s = z_setF ((z_f s AND FC) OR (r AND FS) OR (if r \<noteq> 0 then 0 else FZ) OR hf OR FN OR
                (if b16 \<noteq> 0 then FP else 0) OR (n AND FX) OR (push_bit 4 n AND FY)) s
      in s\<lparr>z_wz := step_dir dec (z_wz s)\<rparr>)"

definition block_cpi :: "'b z80_env \<Rightarrow> bool \<Rightarrow> bool \<Rightarrow> ('b z80, nat) state" where
  "block_cpi E dec rep = do {
     h \<leftarrow> zget z_hl; v \<leftarrow> z_rd E h; a \<leftarrow> zget z_a;
     zupd (cpi_regs dec v);
     b16 \<leftarrow> zget z_bc;
     (if rep \<and> b16 \<noteq> 0 \<and> a - v \<noteq> 0 then repeat_block True else z_ret 16) }"

text \<open>The flags of the I/O block instructions from the value and the sum \<open>k\<close>.\<close>

definition io_flags :: "u8 \<Rightarrow> u16 \<Rightarrow> z80_regs \<Rightarrow> z80_regs" where
  "io_flags v k s = z_setF (sz53 (z_b s) OR (if v AND 0x80 \<noteq> 0 then FN else 0) OR (if k > 0xFF then FH OR FC else 0) OR
     z_parity (ucast (k AND 7) XOR z_b s)) s"

definition block_ini :: "'b z80_env \<Rightarrow> bool \<Rightarrow> bool \<Rightarrow> ('b z80, nat) state" where
  "block_ini E dec rep = do {
     b16 \<leftarrow> zget z_bc; v \<leftarrow> z_in E b16;
     zupd (\<lambda>s. s\<lparr>z_wz := step_dir dec b16\<rparr>);
     h \<leftarrow> zget z_hl; z_wr E h v;
     zupd (\<lambda>s. let s = set_hl (step_dir dec h) s; s = s\<lparr>z_b := z_b s - 1\<rparr>
       in io_flags v (ucast v + ucast (if dec then z_c s - 1 else z_c s + 1)) s);
     b \<leftarrow> zget z_b;
     (if rep \<and> b \<noteq> 0 then repeat_block False else z_ret 16) }"

definition block_outi :: "'b z80_env \<Rightarrow> bool \<Rightarrow> bool \<Rightarrow> ('b z80, nat) state" where
  "block_outi E dec rep = do {
     h \<leftarrow> zget z_hl; v \<leftarrow> z_rd E h;
     zupd (\<lambda>s. s\<lparr>z_b := z_b s - 1\<rparr>);
     port \<leftarrow> zget z_bc; z_out E port v;
     zupd (\<lambda>s. let s = s\<lparr>z_wz := step_dir dec (z_bc s)\<rparr>; s = set_hl (step_dir dec h) s
       in io_flags v (ucast v + ucast (z_l s)) s);
     b \<leftarrow> zget z_b;
     (if rep \<and> b \<noteq> 0 then repeat_block False else z_ret 16) }"

definition execED :: "'b z80_env \<Rightarrow> ('b z80, nat) state" where
  "execED E = do {
     op \<leftarrow> z_fetch E; zupd z_incR;
     let x = op_x op; let y = op_y op; let z = op_z op;
     (if x = 1 then ed_x1 E y z
      else if x = 2 \<and> y \<ge> 4 \<and> z \<le> 3 then
        (let dec = (y mod 2 = 1); rep = (y \<ge> 6)
         in if z = 0 then block_ldi E dec rep else if z = 1 then block_cpi E dec rep
            else if z = 2 then block_ini E dec rep else block_outi E dec rep)
      else z_ret 8) }"

section \<open>Interrupts and the step\<close>

definition z_interrupt :: "'b z80_env \<Rightarrow> ('b z80, nat) state" where
  "z_interrupt E = do {
     zupd (\<lambda>s. s\<lparr>z_halted := False\<rparr>);
     nmi \<leftarrow> zget z_nmiPending;
     (if nmi then do {
        zupd (\<lambda>s. z_incR (s\<lparr>z_nmiPending := False, z_iff1 := False\<rparr>));
        pc \<leftarrow> zget z_pc; z_push E pc; zupd (jump 0x0066); z_ret 11 }
      else do {
        zupd (\<lambda>s. z_incR (s\<lparr>z_iff1 := False, z_iff2 := False\<rparr>));
        im \<leftarrow> zget z_im; pc \<leftarrow> zget z_pc;
        (if im = 2 then do {
           z_push E pc; vec \<leftarrow> zget (\<lambda>s. mk16 0xFF (z_i s)); a \<leftarrow> z_rd16 E vec; zupd (jump a); z_ret 19 }
         else do { z_push E pc; zupd (jump 0x0038); z_ret 13 }) }) }"

definition z_add_cycles :: "nat \<Rightarrow> ('b z80, nat) state" where
  "z_add_cycles t = do { zupd (\<lambda>s. s\<lparr>z_cycles := z_cycles s + of_nat t\<rparr>); z_ret t }"

text \<open>One turn of the prefix loop and the loop: \<open>None\<close> is a step that never returns.\<close>

definition next_prefix :: "'b z80_env \<Rightarrow> u8 \<Rightarrow> ('b z80, u8) state" where
  "next_prefix E op = do {
     zupd (\<lambda>s. s\<lparr>z_prefix := (if op = 0xDD then 1 else 2)\<rparr>);
     op \<leftarrow> z_fetch E; zupd z_incR; State_Monad.return op }"

partial_function (option) prefix_loop ::
  "'b z80_env \<Rightarrow> nat \<Rightarrow> u8 \<Rightarrow> 'b z80 \<Rightarrow> (nat \<times> u8 \<times> 'b z80) option" where
  "prefix_loop E t op c =
     (if op = 0xDD \<or> op = 0xFD
      then prefix_loop E (t + 4) (fst (run_state (next_prefix E op) c)) (snd (run_state (next_prefix E op) c))
      else Some (t, op, c))"

definition dispatch :: "'b z80_env \<Rightarrow> u8 \<Rightarrow> ('b z80, nat) state" where
  "dispatch E op =
     (if op = 0xCB then do { prefix \<leftarrow> zget z_prefix; (if prefix \<noteq> 0 then execIndexCB E else execCB E) }
      else if op = 0xED then do { zupd (\<lambda>s. s\<lparr>z_prefix := 0\<rparr>); execED E }
      else execMain E op)"

definition first_opcode :: "'b z80_env \<Rightarrow> ('b z80, u8) state" where
  "first_opcode E = do {
     zupd (\<lambda>s. s\<lparr>z_q := z_qNext s, z_qNext := 0, z_prefix := 0, z_dispFetched := False\<rparr>);
     op \<leftarrow> z_fetch E; zupd z_incR; State_Monad.return op }"

definition finish :: "'b z80_env \<Rightarrow> nat \<Rightarrow> u8 \<Rightarrow> ('b z80, nat) state" where
  "finish E t op = do {
     n \<leftarrow> dispatch E op;
     zupd (\<lambda>s. s\<lparr>z_prefix := 0\<rparr>);
     z_add_cycles (t + n) }"

definition instruction :: "'b z80_env \<Rightarrow> 'b z80 \<Rightarrow> (nat \<times> 'b z80) option" where
  "instruction E c =
     (case prefix_loop E 0 (result (first_opcode E) c) (final (first_opcode E) c) of
        None \<Rightarrow> None
      | Some (t, op, c') \<Rightarrow> Some (run_state (finish E t op) c'))"

definition run_hook :: "'b z80_env \<Rightarrow> ('b z80, bool) state" where
  "run_hook E = (case ze_pcHook E of None \<Rightarrow> State_Monad.return False
     | Some (armed, fire) \<Rightarrow> do { pc \<leftarrow> zget z_pc; (if armed pc then fire pc else State_Monad.return False) })"

definition run_observer :: "'b z80_env \<Rightarrow> ('b z80, bool) state" where
  "run_observer E = (case ze_observer E of None \<Rightarrow> State_Monad.return True
     | Some f \<Rightarrow> do { pc \<leftarrow> zget z_pc; f pc })"

definition takes_interrupt :: "z80_regs \<Rightarrow> bool" where
  "takes_interrupt s \<longleftrightarrow> z_nmiPending s \<or> (z_irqLine s \<and> z_iff1 s \<and> \<not> z_eiDelay s)"

definition z_step :: "'b z80_env \<Rightarrow> 'b z80 \<Rightarrow> (nat \<times> 'b z80) option" where
  "z_step E c0 =
     (case run_state (run_hook E) c0 of
        (True, c) \<Rightarrow> Some (run_state (z_add_cycles 4) c)
      | (False, c) \<Rightarrow>
          if takes_interrupt (zz_regs c) then
            Some (run_state (do {
              t \<leftarrow> z_interrupt E; n \<leftarrow> z_add_cycles t; zupd (\<lambda>s. s\<lparr>z_q := 0, z_qNext := 0\<rparr>); z_ret n }) c)
          else
            (let c = final (zupd (\<lambda>s. s\<lparr>z_eiDelay := False\<rparr>)) c
             in if z_halted (zz_regs c) then Some (run_state (do { zupd z_incR; z_add_cycles 4 }) c)
                else (case run_state (run_observer E) c of
                    (False, c) \<Rightarrow> Some (1, c)
                  | (True, c) \<Rightarrow> instruction E c)))"

section \<open>The debugger's questions\<close>

definition z_isCallAt :: "'b ibus option \<Rightarrow> u32 \<Rightarrow> ('b, nat) state" where
  "z_isCallAt bus addr = (case bus of None \<Rightarrow> State_Monad.return 0 | Some ib \<Rightarrow> do {
     op \<leftarrow> ib_peek8 ib (addr AND 0xFFFF);
     State_Monad.return (if op = 0xCD \<or> op AND 0xC7 = 0xC4 then 3 else if op AND 0xC7 = 0xC7 then 1 else 0) })"

definition z_isReturnAt :: "'b ibus option \<Rightarrow> u32 \<Rightarrow> ('b, bool) state" where
  "z_isReturnAt bus addr = (case bus of None \<Rightarrow> State_Monad.return False | Some ib \<Rightarrow> do {
     op \<leftarrow> ib_peek8 ib (addr AND 0xFFFF);
     (if op = 0xC9 \<or> op AND 0xC7 = 0xC0 then State_Monad.return True
      else if op = 0xED then do {
        o2 \<leftarrow> ib_peek8 ib ((addr + 1) AND 0xFFFF); State_Monad.return (o2 AND 0xC7 = 0x45) }
      else State_Monad.return False) })"

definition z_isProgramEnd :: "z80_regs \<Rightarrow> bool" where
  "z_isProgramEnd s \<longleftrightarrow> z_halted s \<and> \<not> z_iff1 s"

definition z_writeCallHarness :: "'b ibus \<Rightarrow> u32 \<Rightarrow> u32 \<Rightarrow> ('b, nat) state" where
  "z_writeCallHarness ib scratch routineAddr = do {
     ib_write8 ib scratch 0xCD;
     ib_write8 ib (scratch + 1) (ucast (routineAddr AND 0xFF));
     ib_write8 ib (scratch + 2) (ucast (drop_bit 8 routineAddr AND 0xFF));
     ib_write8 ib (scratch + 3) 0x76;
     State_Monad.return 4 }"

end
