(* ===== verification/Z80Arith.thy ===== *)
theory Z80Arith
  imports Z80 Cpu6502Arith
begin

text \<open>
  The arithmetic of the Z80 against integer arithmetic: 8-bit addition, subtraction and comparison with
  every documented flag, decimal adjustment after both, and the 16-bit sums.
\<close>

section \<open>Flags\<close>

lemma bit_sz53: "bit (sz53 v) n \<longleftrightarrow>
    (n = 7 \<or> n = 5 \<or> n = 3) \<and> bit v n \<or> n = 6 \<and> v = 0"
proof -
  have "bit (FS OR FY OR FX) n \<longleftrightarrow> n = 7 \<or> n = 5 \<or> n = 3" unfolding bit_or_iff bit_mask8 by blast
  then show ?thesis by (auto simp: sz53_def bit_simps flag_bits)
qed

lemma carry_of_flags: "tst v FC = bit v 0" "tst v FN = bit v 1" "tst v FH = bit v 4"
  by (simp_all add: flag_bits)

definition zcin :: "bool \<Rightarrow> z80_regs \<Rightarrow> int" where
  "zcin with_carry s = of_bool (with_carry \<and> bit (z_f s) 0)"

text \<open>The carry into bit 4 is the bit in which the sum differs from the sum without carries.\<close>

lemma bit4_uint: "bit (w :: u8) 4 \<longleftrightarrow> odd (uint w div 16)"
proof -
  have "bit w 4 \<longleftrightarrow> bit (uint w) 4" by (simp add: bit_uint_iff)
  then show ?thesis by (simp add: bit_iff_odd)
qed

lemma sum_div16:
  fixes a v c :: int
  assumes "0 \<le> c" "c \<le> 1"
  shows "(a + v + c) div 16 = a div 16 + v div 16 + (if 16 \<le> a mod 16 + v mod 16 + c then 1 else 0)"
    and "(a - v - c) div 16 = a div 16 - v div 16 - (if a mod 16 - v mod 16 - c < 0 then 1 else 0)"
proof -
  have b: "0 \<le> a mod 16" "a mod 16 < 16" "0 \<le> v mod 16" "v mod 16 < 16" by simp_all
  have "a + v + c = 16 * (a div 16 + v div 16) + (a mod 16 + v mod 16 + c)"
    using div_mult_mod_eq [of a 16] div_mult_mod_eq [of v 16] by (simp add: algebra_simps)
  then have "(a + v + c) div 16 = a div 16 + v div 16 + (a mod 16 + v mod 16 + c) div 16"
    by (simp only: div_mult_self4 numeral_neq_zero not_False_eq_True)
  moreover have "(a mod 16 + v mod 16 + c) div 16 = (if 16 \<le> a mod 16 + v mod 16 + c then 1 else 0)"
  proof (cases "16 \<le> a mod 16 + v mod 16 + c")
    case True
    then show ?thesis using b assms div_pos_geq [of 16 "a mod 16 + v mod 16 + c"] by (simp add: div_pos_pos_trivial)
  qed (use b assms in \<open>simp add: div_pos_pos_trivial\<close>)
  ultimately show "(a + v + c) div 16 = a div 16 + v div 16 + (if 16 \<le> a mod 16 + v mod 16 + c then 1 else 0)" by simp
  have "a - v - c = 16 * (a div 16 - v div 16) + (a mod 16 - v mod 16 - c)"
    using div_mult_mod_eq [of a 16] div_mult_mod_eq [of v 16] by (simp add: algebra_simps)
  then have "(a - v - c) div 16 = a div 16 - v div 16 + (a mod 16 - v mod 16 - c) div 16"
    by (simp only: div_mult_self4 numeral_neq_zero not_False_eq_True)
  moreover have "(a mod 16 - v mod 16 - c) div 16 = (if a mod 16 - v mod 16 - c < 0 then -1 else 0)"
  proof (cases "a mod 16 - v mod 16 - c < 0")
    case True
    have "(a mod 16 - v mod 16 - c + 16) div 16 = (a mod 16 - v mod 16 - c) div 16 + 1" by simp
    moreover have "(a mod 16 - v mod 16 - c + 16) div 16 = 0" using True b assms by (intro div_pos_pos_trivial) simp_all
    ultimately show ?thesis using True by simp
  qed (use b assms in \<open>simp add: div_pos_pos_trivial\<close>)
  ultimately show "(a - v - c) div 16 = a div 16 - v div 16 - (if a mod 16 - v mod 16 - c < 0 then 1 else 0)" by simp
qed

lemma odd_mod_div: "odd (x mod 256 div 16) \<longleftrightarrow> odd (x div (16 :: int))"
proof -
  have "x mod 256 div 16 = x div 16 mod 16" using zmod_zmult2_eq [of 16 x 16] by simp
  then show ?thesis by (simp add: odd_iff_mod_2_eq_one mod_mod_cancel)
qed

lemma half_carry:
  fixes a v w :: u8
  assumes "0 \<le> c" "c \<le> 1"
  shows "uint w = (uint a + uint v + c) mod 256 \<Longrightarrow>
      bit (a XOR v XOR w) 4 \<longleftrightarrow> 16 \<le> uint a mod 16 + uint v mod 16 + c"
    and "uint w = (uint a - uint v - c) mod 256 \<Longrightarrow>
      bit (a XOR v XOR w) 4 \<longleftrightarrow> uint a mod 16 - uint v mod 16 - c < 0"
proof -
  have x: "bit (a XOR v XOR w) 4 \<longleftrightarrow> (odd (uint a div 16) \<noteq> odd (uint v div 16)) \<noteq> odd (uint w div 16)"
    unfolding bit_xor_iff bit4_uint [of a] bit4_uint [of v] bit4_uint [of w] by blast
  show "bit (a XOR v XOR w) 4 \<longleftrightarrow> 16 \<le> uint a mod 16 + uint v mod 16 + c"
    if "uint w = (uint a + uint v + c) mod 256"
    unfolding x that odd_mod_div sum_div16(1) [OF assms] by auto
  show "bit (a XOR v XOR w) 4 \<longleftrightarrow> uint a mod 16 - uint v mod 16 - c < 0"
    if "uint w = (uint a - uint v - c) mod 256"
    unfolding x that odd_mod_div sum_div16(2) [OF assms] by auto
qed

lemma mod_near:
  fixes x n :: int
  assumes "0 < n" and "-n \<le> x" and "x < 2 * n"
  shows "x mod n = (if x < 0 then x + n else if x < n then x else x - n)"
proof -
  have m: "x mod n = x + n * k" if "0 \<le> x + n * k" "x + n * k < n" for k
    using that mod_pos_pos_trivial [of "x + n * k" n] by auto
  show ?thesis using m [of 0] m [of 1] m [of "-1"] assms by auto
qed

lemmas mod256_near = mod_near [of "256", simplified]

lemma overflow8:
  fixes a v w :: u8
  assumes "0 \<le> c" "c \<le> 1"
  shows "uint w = (uint a + uint v + c) mod 256 \<Longrightarrow> bit a 7 = bit v 7 \<and> bit a 7 \<noteq> bit w 7 \<longleftrightarrow>
      sint a + sint v + c < -128 \<or> 127 < sint a + sint v + c"
    and "uint w = (uint a - uint v - c) mod 256 \<Longrightarrow> bit a 7 \<noteq> bit v 7 \<and> bit a 7 \<noteq> bit w 7 \<longleftrightarrow>
      sint a - sint v - c < -128 \<or> 127 < sint a - sint v - c"
proof -
  note b = uint_u8 [of a] uint_u8 [of v] assms
  show "bit a 7 = bit v 7 \<and> bit a 7 \<noteq> bit w 7 \<longleftrightarrow> sint a + sint v + c < -128 \<or> 127 < sint a + sint v + c"
    if "uint w = (uint a + uint v + c) mod 256"
    using b that mod256_near [of "uint a + uint v + c"] unfolding bit7_uint sint_u8
    by (cases "128 \<le> uint a"; cases "128 \<le> uint v"; cases "uint a + uint v + c < 256"; simp; linarith?)
  show "bit a 7 \<noteq> bit v 7 \<and> bit a 7 \<noteq> bit w 7 \<longleftrightarrow> sint a - sint v - c < -128 \<or> 127 < sint a - sint v - c"
    if "uint w = (uint a - uint v - c) mod 256"
  proof -
    define x where "x = uint a - uint v - c"
    have "x < 256" "-256 \<le> x" using b unfolding x_def by linarith+
    then have "uint w = (if x < 0 then x + 256 else x)"
      using that mod256_near [of x] unfolding x_def [symmetric] by simp
    note w = this [unfolded x_def]
    show ?thesis using b unfolding bit7_uint sint_u8 w
      by (cases "128 \<le> uint a"; cases "128 \<le> uint v"; cases "uint a - uint v - c < 0"; simp; linarith?)
  qed
qed

section \<open>8-bit sums\<close>

text \<open>The flags of a sum \<open>r\<close> whose result byte is \<open>res\<close>.\<close>

lemma add_flag_bits:
  "bit (sz53 res OR (if b then FC else 0) OR (h AND FH)) n \<longleftrightarrow>
     n = 0 \<and> b \<or> n = 4 \<and> bit h 4 \<or> n = 6 \<and> res = 0 \<or> (n = 7 \<or> n = 5 \<or> n = 3) \<and> bit res n"
  by (auto simp: bit_simps flag_bits bit_sz53)

lemma add_flags:
  fixes v :: u8 and s :: z80_regs
  assumes "s' = z_add wc v s" and "c = zcin wc s" and "r = uint (z_a s) + uint v + c"
  shows "uint (z_a s') = r mod 256" "bit (z_f s') 0 \<longleftrightarrow> 256 \<le> r" "\<not> bit (z_f s') 1"
    "bit (z_f s') 2 \<longleftrightarrow> sint (z_a s) + sint v + c < -128 \<or> 127 < sint (z_a s) + sint v + c"
    "bit (z_f s') 4 \<longleftrightarrow> 16 \<le> uint (z_a s) mod 16 + uint v mod 16 + c"
    "bit (z_f s') 6 \<longleftrightarrow> z_a s' = 0" "bit (z_f s') 7 \<longleftrightarrow> 128 \<le> uint (z_a s')"
proof -
  define res where "res = (word_of_int r :: u8)"
  have c: "0 \<le> c" "c \<le> 1" by (simp_all add: assms(2) zcin_def)
  have r: "(if wc \<and> tst (z_f s) FC then 1 else 0) = c" by (simp add: assms(2) zcin_def carry_of_flags)
  have u: "uint res = (uint (z_a s) + uint v + c) mod 256" by (simp only: res_def word_of_int_uint_u8 assms(3))
  define f where "f = sz53 res OR (if 255 < r then FC else 0) OR ((z_a s XOR v XOR res) AND FH)"
  have s': "s' = z_setF (if tst ((z_a s XOR NOT v) AND (z_a s XOR res)) 0x80 then f OR FP else f) (s\<lparr>z_a := res\<rparr>)"
    unfolding assms(1) z_add_def Let_def r assms(3) [symmetric] res_def [symmetric] f_def by simp
  have a: "z_a s' = res" by (simp add: s' z_setF_def)
  have v: "tst ((z_a s XOR NOT v) AND (z_a s XOR res)) 0x80 \<longleftrightarrow> bit (z_a s) 7 = bit v 7 \<and> bit (z_a s) 7 \<noteq> bit res 7"
    by (auto simp: flag_bits bit_simps)
  have b: "bit (z_f s') n \<longleftrightarrow> n = 2 \<and> (bit (z_a s) 7 = bit v 7 \<and> bit (z_a s) 7 \<noteq> bit res 7) \<or> bit f n" for n
    by (auto simp: s' z_setF_def v bit_simps flag_bits)
  show "uint (z_a s') = r mod 256" by (simp add: a u assms(3))
  show "bit (z_f s') 0 \<longleftrightarrow> 256 \<le> r" "\<not> bit (z_f s') 1" "bit (z_f s') 6 \<longleftrightarrow> z_a s' = 0"
    by (auto simp: b f_def add_flag_bits a)
  show "bit (z_f s') 7 \<longleftrightarrow> 128 \<le> uint (z_a s')"
    unfolding bit7_uint [symmetric] by (simp add: b f_def add_flag_bits a)
  show "bit (z_f s') 2 \<longleftrightarrow> sint (z_a s) + sint v + c < -128 \<or> 127 < sint (z_a s) + sint v + c"
    unfolding overflow8(1) [OF c u, symmetric] by (simp add: b f_def add_flag_bits)
  show "bit (z_f s') 4 \<longleftrightarrow> 16 \<le> uint (z_a s) mod 16 + uint v mod 16 + c"
    unfolding half_carry(1) [OF c u, symmetric] by (simp add: b f_def add_flag_bits)
qed


lemma sub_flag_bits:
  "bit ((res AND FS) OR (if res \<noteq> 0 then 0 else FZ) OR FN OR (if b then FC else 0) OR (h AND FH)) n \<longleftrightarrow>
     n = 0 \<and> b \<or> n = 1 \<or> n = 4 \<and> bit h 4 \<or> n = 6 \<and> res = 0 \<or> n = 7 \<and> bit res 7"
  by (auto simp: bit_simps flag_bits)

lemma xy_bits: "bit (FX OR FY) n \<longleftrightarrow> n = 3 \<or> n = 5"
  unfolding bit_or_iff bit_mask8 by blast

definition zbin :: "nat \<Rightarrow> z80_regs \<Rightarrow> int" where
  "zbin op s = of_bool (op = 3 \<and> bit (z_f s) 0)"

lemma sub_flags:
  fixes v :: u8 and s :: z80_regs
  assumes "s' = z_sub op v s" and "c = zbin op s" and "d = uint (z_a s) - uint v - c"
  shows "z_a s' = (if op = 7 then z_a s else word_of_int d)" "bit (z_f s') 0 \<longleftrightarrow> d < 0" "bit (z_f s') 1"
    "bit (z_f s') 2 \<longleftrightarrow> sint (z_a s) - sint v - c < -128 \<or> 127 < sint (z_a s) - sint v - c"
    "bit (z_f s') 4 \<longleftrightarrow> uint (z_a s) mod 16 - uint v mod 16 - c < 0"
    "bit (z_f s') 6 \<longleftrightarrow> (word_of_int d :: u8) = 0" "bit (z_f s') 7 \<longleftrightarrow> 128 \<le> d mod 256"
proof -
  define res where "res = (word_of_int d :: u8)"
  have c: "0 \<le> c" "c \<le> 1" by (simp_all add: assms(2) zbin_def)
  have r: "(if op = 3 \<and> tst (z_f s) FC then 1 else 0) = c" by (simp add: assms(2) zbin_def carry_of_flags)
  have u: "uint res = (uint (z_a s) - uint v - c) mod 256" by (simp only: res_def word_of_int_uint_u8 assms(3))
  define f where "f = (res AND FS) OR (if res \<noteq> 0 then 0 else FZ) OR FN OR (if d < 0 then FC else 0) OR
    ((z_a s XOR v XOR res) AND FH)"
  define g where "g = (if tst ((z_a s XOR v) AND (z_a s XOR res)) 0x80 then f OR FP else f)"
  have s': "s' = (if op = 7 then z_setF ((g AND NOT (FX OR FY)) OR (v AND (FX OR FY))) s
      else z_setF (g OR (res AND (FX OR FY))) (s\<lparr>z_a := res\<rparr>))"
    unfolding assms(1) z_sub_def Let_def r assms(3) [symmetric] res_def [symmetric] f_def g_def by simp
  show "z_a s' = (if op = 7 then z_a s else word_of_int d)" by (simp add: s' z_setF_def res_def)
  have v: "tst ((z_a s XOR v) AND (z_a s XOR res)) 0x80 \<longleftrightarrow> bit (z_a s) 7 \<noteq> bit v 7 \<and> bit (z_a s) 7 \<noteq> bit res 7"
    by (auto simp: flag_bits bit_simps)
  define m where "m = FX OR FY"
  have m: "bit m n \<longleftrightarrow> n = 3 \<or> n = 5" for n unfolding m_def by (rule xy_bits)
  have g: "bit g n \<longleftrightarrow> n = 2 \<and> (bit (z_a s) 7 \<noteq> bit v 7 \<and> bit (z_a s) 7 \<noteq> bit res 7) \<or> bit f n" for n
    unfolding g_def v by (simp only: if_distrib [of "\<lambda>w. bit w n"] bit_or_iff bit_mask8) auto
  have b: "n \<noteq> 3 \<Longrightarrow> n \<noteq> 5 \<Longrightarrow> n < 8 \<Longrightarrow> bit (z_f s') n \<longleftrightarrow>
      n = 2 \<and> (bit (z_a s) 7 \<noteq> bit v 7 \<and> bit (z_a s) 7 \<noteq> bit res 7) \<or> bit f n" for n
    unfolding s' z_setF_def m_def [symmetric]
    by (cases "op = 7") (simp_all add: bit_or_iff bit_and_iff bit_not_iff m g)
  show "bit (z_f s') 0 \<longleftrightarrow> d < 0" "bit (z_f s') 1" "bit (z_f s') 6 \<longleftrightarrow> (word_of_int d :: u8) = 0"
    by (simp_all add: b f_def sub_flag_bits flip: res_def)
  have "bit (z_f s') 7 \<longleftrightarrow> bit res 7" by (simp add: b f_def sub_flag_bits)
  then show "bit (z_f s') 7 \<longleftrightarrow> 128 \<le> d mod 256" by (simp add: bit7_uint u assms(3))
  show "bit (z_f s') 2 \<longleftrightarrow> sint (z_a s) - sint v - c < -128 \<or> 127 < sint (z_a s) - sint v - c"
    unfolding overflow8(2) [OF c u, symmetric] by (simp add: b f_def sub_flag_bits)
  show "bit (z_f s') 4 \<longleftrightarrow> uint (z_a s) mod 16 - uint v mod 16 - c < 0"
    unfolding half_carry(2) [OF c u, symmetric] by (simp add: b f_def sub_flag_bits)
qed

section \<open>Decimal adjustment\<close>

lemma low_nibble_gt: "(a AND 0x0F > (9 :: u8)) \<longleftrightarrow> 9 < uint a mod 16"
  by (simp add: word_less_alt unsigned_and_eq and_low4)

lemma daa_result:
  assumes "s' = z_daa s" and "low = (bit (z_f s) 4 \<or> 9 < uint (z_a s) mod 16)"
    and "high = (bit (z_f s) 0 \<or> 153 < uint (z_a s))"
  shows "uint (z_a s') = (if bit (z_f s) 1
      then uint (z_a s) - ((if low then 6 else 0) + (if high then 96 else 0))
      else uint (z_a s) + ((if low then 6 else 0) + (if high then 96 else 0))) mod 256"
    and "bit (z_f s') 0 \<longleftrightarrow> high" and "bit (z_f s') 6 \<longleftrightarrow> z_a s' = 0"
proof -
  have c: "z_f s AND FC \<noteq> 0 \<longleftrightarrow> bit (z_f s) 0" using carry_of_flags(1) [of "z_f s"] by (simp add: tst_def)
  have l: "bit (z_f s) 4 \<or> 9 < z_a s AND 0x0F \<longleftrightarrow> low"
    by (simp add: assms(2) low_nibble_gt)
  have h: "z_f s AND FC \<noteq> 0 \<or> 0x99 < z_a s \<longleftrightarrow> high" unfolding c by (simp add: assms(3) word_less_alt)
  define corr where "corr = (if high then (if low then 0x06 else 0) OR 0x60 else if low then 0x06 else 0 :: u8)"
  have corr: "uint corr = (if low then 6 else 0) + (if high then 96 else 0)" by (simp add: corr_def)
  define r where "r = (if bit (z_f s) 1 then z_a s - corr else z_a s + corr)"
  define cy where "cy = (if high then FC else z_f s AND FC)"
  have s': "s' = z_setF (sz53p r OR (z_f s AND FN) OR ((z_a s XOR r) AND FH) OR cy) (s\<lparr>z_a := r\<rparr>)"
    unfolding assms(1) z_daa_def Let_def l h corr_def [symmetric] cy_def [symmetric] carry_of_flags r_def by simp
  have "uint r = (if bit (z_f s) 1 then uint (z_a s) - uint corr else uint (z_a s) + uint corr) mod 256"
    by (simp add: r_def uint_word_ariths)
  then show "uint (z_a s') = (if bit (z_f s) 1
      then uint (z_a s) - ((if low then 6 else 0) + (if high then 96 else 0))
      else uint (z_a s) + ((if low then 6 else 0) + (if high then 96 else 0))) mod 256"
    unfolding corr by (simp add: s' z_setF_def)
  have p: "\<not> bit (z_parity r) 0" "\<not> bit (z_parity r) 6" by (simp_all add: z_parity_def Let_def flag_bits)
  show "bit (z_f s') 0 \<longleftrightarrow> high" using h c
    by (auto simp: s' z_setF_def sz53p_def bit_or_iff bit_and_iff bit_sz53 bit_mask8 cy_def p)
  show "bit (z_f s') 6 \<longleftrightarrow> z_a s' = 0" by (auto simp: s' z_setF_def sz53p_def bit_or_iff bit_and_iff bit_sz53 bit_mask8 cy_def p)
qed


text \<open>DAA on the two bytes an addition and a subtraction of packed decimals leave.\<close>

lemma daa_after_add:
  assumes a: "bcd (z_a s)" and v: "bcd v" and s': "s' = z_daa (z_add wc v s)"
    and S: "S = bcd_val (z_a s) + bcd_val v + zcin wc s"
  shows "bcd (z_a s') \<and> bcd_val (z_a s') = S mod 100 \<and> (bit (z_f s') 0 \<longleftrightarrow> 100 \<le> S)"
proof -
  define al ah ml mh c where d: "al = uint (z_a s) mod 16" "ah = uint (z_a s) div 16"
    "ml = uint v mod 16" "mh = uint v div 16" "c = zcin wc s"
  define k where "k = (if 10 \<le> al + ml + c then 1 else 0 :: int)"
  define h where "h = ah + mh + k"
  define l where "l = al + ml + c - 10 * k"
  have r: "0 \<le> al" "al \<le> 9" "0 \<le> ah" "ah \<le> 9" "0 \<le> ml" "ml \<le> 9" "0 \<le> mh" "mh \<le> 9" "0 \<le> c" "c \<le> 1"
    using a v nibbles [of "z_a s"] nibbles [of v] by (simp_all add: d bcd_def zcin_def)
  note B = bcd_sum [OF r k_def h_def l_def]
  define s1 where "s1 = z_add wc v s"
  define V where "V = uint (z_a s) + uint v + c"
  have V: "V = 16 * h + l - 6 * k"
    using div_mult_mod_eq [of "uint (z_a s)" 16] div_mult_mod_eq [of "uint v" 16] by (simp add: V_def h_def l_def d)
  note F = add_flags [OF s1_def d(5) V_def]
  have k: "k = 0 \<or> k = 1" "10 \<le> al + ml + c \<longleftrightarrow> k = 1" by (simp_all add: k_def)
  have V': "0 \<le> V" "V < 512" using uint_u8 [of "z_a s"] uint_u8 [of v] r unfolding V_def by linarith+
  have m: "V mod 256 = (if V < 256 then V else V - 256)" using mod256_near [of V] V' by simp
  have "V = (al + ml + c) + 16 * (ah + mh)"
    using div_mult_mod_eq [of "uint (z_a s)" 16] div_mult_mod_eq [of "uint v" 16] by (simp add: V_def d)
  then have "V mod 16 = (al + ml + c) mod 16" by (simp only: mod_mult_self2)
  then have "uint (z_a s1) mod 16 = (al + ml + c) mod 16" by (simp add: F(1) mod_mod_cancel)
  then have n: "uint (z_a s1) mod 16 = (if 16 \<le> al + ml + c then al + ml + c - 16 else al + ml + c)"
    using r mod_near [of 16 "al + ml + c"] by auto
  have low: "bit (z_f s1) 4 \<or> 9 < uint (z_a s1) mod 16 \<longleftrightarrow> k = 1"
    unfolding n F(5) d(1,3) [symmetric] using k by auto
  have high: "bit (z_f s1) 0 \<or> 153 < uint (z_a s1) \<longleftrightarrow> 10 \<le> h"
    unfolding F(1,2) m using V B k by auto
  note D = daa_result [of s' s1, OF s' [folded s1_def] refl refl, unfolded low high]
  have "uint (z_a s') = (V mod 256 + ((if k = 1 then 6 else 0) + (if 10 \<le> h then 96 else 0))) mod 256"
    using D(1) F(3) by (simp add: F(1))
  also have "\<dots> = (16 * h + l + (if 10 \<le> h then 96 else 0)) mod 256"
    using k by (auto simp: V mod_simps algebra_simps)
  also have "\<dots> = 16 * (if 10 \<le> h then h - 10 else h) + l"
    using B mod_add_self2 [of "16 * (h - 10) + l" 256] by (auto simp: mod_pos_pos_trivial algebra_simps)
  finally have "bcd (z_a s') \<and> bcd_val (z_a s') = 10 * (if 10 \<le> h then h - 10 else h) + l"
    by (rule bcd_digits) (use B in auto)
  moreover have "10 * ah + al + (10 * mh + ml) + c = S" by (simp add: S bcd_val_def d)
  ultimately show ?thesis using B [simplified \<open>_ = S\<close>] D(2) by metis
qed


lemma daa_after_sub:
  assumes a: "bcd (z_a s)" and v: "bcd v" and s': "s' = z_daa (z_sub op v s)" and op: "op \<noteq> 7"
    and S: "S = bcd_val (z_a s) - bcd_val v - zbin op s"
  shows "bcd (z_a s') \<and> bcd_val (z_a s') = S mod 100 \<and> (bit (z_f s') 0 \<longleftrightarrow> S < 0)"
proof -
  define al ah ml mh where d: "al = uint (z_a s) mod 16" "ah = uint (z_a s) div 16"
    "ml = uint v mod 16" "mh = uint v div 16"
  define c where "c = 1 - zbin op s"
  define b where "b = (if al - ml + c - 1 < 0 then 1 else 0 :: int)"
  define h where "h = ah - mh - b"
  define l where "l = al - ml + c - 1 + 10 * b"
  have r: "0 \<le> al" "al \<le> 9" "0 \<le> ah" "ah \<le> 9" "0 \<le> ml" "ml \<le> 9" "0 \<le> mh" "mh \<le> 9" "0 \<le> c" "c \<le> 1"
    using a v nibbles [of "z_a s"] nibbles [of v] by (simp_all add: d bcd_def zbin_def c_def)
  note B = bcd_diff [OF r b_def h_def l_def]
  define s1 where "s1 = z_sub op v s"
  define V where "V = uint (z_a s) - uint v - zbin op s"
  have "uint (z_a s) - uint v + c - 1 = 16 * h + l + 6 * b"
    unfolding h_def l_def by (rule diff_parts) (simp_all add: d)
  then have V: "V = 16 * h + l + 6 * b" by (simp add: V_def c_def)
  note F = sub_flags [OF s1_def refl V_def]
  have A: "uint (z_a s1) = V mod 256" unfolding F(1) using op by (simp only: word_of_int_uint_u8 if_False)
  have b: "b = 0 \<or> b = 1" "al - ml + c - 1 < 0 \<longleftrightarrow> b = 1" by (simp_all add: b_def)
  have V': "V < 256" "-256 \<le> V" using uint_u8 [of "z_a s"] uint_u8 [of v] r unfolding V_def c_def by linarith+
  have m: "V mod 256 = (if V < 0 then V + 256 else V)" using mod256_near [of V] V' by simp
  have "V = 16 * ah + al - (16 * mh + ml) - (1 - c)" by (simp add: V_def d c_def)
  then have neg: "V < 0 \<longleftrightarrow> h < 0" using B by auto
  have "V = (al - ml + c - 1) + 16 * (ah - mh)" by (simp add: V h_def l_def)
  then have "V mod 16 = (al - ml + c - 1) mod 16" by (simp only: mod_mult_self2)
  then have n: "b = 0 \<Longrightarrow> uint (z_a s1) mod 16 = l" using B b by (simp add: A mod_mod_cancel l_def mod_pos_pos_trivial)
  have low: "bit (z_f s1) 4 \<or> 9 < uint (z_a s1) mod 16 \<longleftrightarrow> b = 1"
  proof -
    have "uint (z_a s) mod 16 - uint v mod 16 - zbin op s = al - ml + c - 1" by (simp add: c_def d)
    then have "bit (z_f s1) 4 \<longleftrightarrow> b = 1" unfolding F(5) b(2) [symmetric] by simp
    moreover have "l \<le> 9" using B by blast
    ultimately show ?thesis using n b(1) by fastforce
  qed
  have "al - ml + c - 1 < 0 \<Longrightarrow> h \<le> 8" "h \<le> 9" using r b by (auto simp: h_def)
  then have "V \<le> 153" using V B b by auto
  then have high: "bit (z_f s1) 0 \<or> 153 < uint (z_a s1) \<longleftrightarrow> h < 0" unfolding F(2) A m using neg by auto
  note D = daa_result [of s' s1, OF s' [folded s1_def] refl refl, unfolded low high]
  have "uint (z_a s') = (V mod 256 - ((if b = 1 then 6 else 0) + (if h < 0 then 96 else 0))) mod 256"
    using D(1) F(3) by (simp add: A)
  also have "\<dots> = (if h < 0 then 16 * h + l - 96 else 16 * h + l) mod 256"
    using b by (auto simp: V mod_simps algebra_simps)
  also have "\<dots> = 16 * (if h < 0 then h + 10 else h) + l" using B by (intro pack_diff(1)) auto
  finally have "bcd (z_a s') \<and> bcd_val (z_a s') = 10 * (if h < 0 then h + 10 else h) + l"
    by (rule bcd_digits) (use B in auto)
  moreover have "(10 * h + l) mod 100 = 10 * (if h < 0 then h + 10 else h) + l"
    using B by (intro pack_diff(3) [OF _ _ _ _ refl]) auto
  moreover have "S = 10 * h + l" using B by (simp add: S bcd_val_def d c_def)
  ultimately show ?thesis using B D(2) by auto
qed


section \<open>The instructions\<close>

lemma add_frame:
  "z_add wc v s = s\<lparr>z_a := z_a s + v + (if wc \<and> bit (z_f s) 0 then 1 else 0),
     z_f := z_f (z_add wc v s), z_qNext := z_f (z_add wc v s)\<rparr>"
proof -
  have "(word_of_int (uint (z_a s) + uint v + (if b then 1 else 0)) :: u8) = z_a s + v + (if b then 1 else 0)" for b
    by simp
  then show ?thesis unfolding z_add_def Let_def carry_of_flags by (simp add: z_setF_def)
qed

lemma sub_frame:
  "z_sub op v s = s\<lparr>z_a := (if op = 7 then z_a s else z_a s - v - (if op = 3 \<and> bit (z_f s) 0 then 1 else 0)),
     z_f := z_f (z_sub op v s), z_qNext := z_f (z_sub op v s)\<rparr>"
proof -
  have "(word_of_int (uint (z_a s) - uint v - (if b then 1 else 0)) :: u8) = z_a s - v - (if b then 1 else 0)" for b
    by simp
  then show ?thesis unfolding z_sub_def Let_def carry_of_flags by (simp add: z_setF_def)
qed

text \<open>
  ADD A and ADC A: A becomes the sum modulo 256 and no register but A and F (and the record of F that
  the next SCF reads) changes; C is the carry out of the byte, H the carry out of the low nibble, P/V is set
  exactly when the signed sum does not fit in a byte, N is clear, Z and S describe the result.
\<close>

theorem z80_add_correct:
  "let s' = z_alu (if wc then 1 else 0) v s; c = zcin wc s; f = z_f s'
   in s' = s\<lparr>z_a := word_of_int (uint (z_a s) + uint v + c), z_f := f, z_qNext := f\<rparr> \<and>
      (bit f 0 \<longleftrightarrow> 256 \<le> uint (z_a s) + uint v + c) \<and> \<not> bit f 1 \<and>
      (bit f 2 \<longleftrightarrow> sint (z_a s) + sint v + c \<notin> {-128..127}) \<and>
      (bit f 4 \<longleftrightarrow> 16 \<le> uint (z_a s) mod 16 + uint v mod 16 + c) \<and>
      (bit f 6 \<longleftrightarrow> z_a s' = 0) \<and> (bit f 7 \<longleftrightarrow> 128 \<le> uint (z_a s'))"
proof -
  define s' where "s' = z_add wc v s"
  note F = add_flags [OF s'_def refl refl]
  have a: "z_alu (if wc then 1 else 0) v s = s'" by (simp add: z_alu_def s'_def)
  have "s' = s\<lparr>z_a := word_of_int (uint (z_a s) + uint v + zcin wc s), z_f := z_f s', z_qNext := z_f s'\<rparr>"
    unfolding s'_def by (subst add_frame) (simp add: zcin_def)
  then show ?thesis unfolding a Let_def using F by (auto simp: not_le)
qed

text \<open>
  SUB, SBC A and CP: SUB and SBC leave the difference modulo 256 in A, CP leaves A alone; C is the
  borrow out of the byte, H the borrow out of the low nibble, P/V is set exactly when the signed difference
  does not fit in a byte, N is set, Z and S describe the difference, also for CP.
\<close>

theorem z80_sub_correct:
  "let op = (if cp then 7 else if wc then 3 else 2 :: nat); s' = z_alu op v s; c = zbin op s; f = z_f s';
       d = uint (z_a s) - uint v - c
   in s' = s\<lparr>z_a := (if cp then z_a s else word_of_int d), z_f := f, z_qNext := f\<rparr> \<and>
      (bit f 0 \<longleftrightarrow> d < 0) \<and> bit f 1 \<and> (bit f 2 \<longleftrightarrow> sint (z_a s) - sint v - c \<notin> {-128..127}) \<and>
      (bit f 4 \<longleftrightarrow> uint (z_a s) mod 16 - uint v mod 16 - c < 0) \<and>
      (bit f 6 \<longleftrightarrow> d mod 256 = 0) \<and> (bit f 7 \<longleftrightarrow> 128 \<le> d mod 256)"
proof -
  define op where "op = (if cp then 7 else if wc then 3 else 2 :: nat)"
  define s' where "s' = z_sub op v s"
  define d where "d = uint (z_a s) - uint v - zbin op s"
  note F = sub_flags [OF s'_def refl d_def]
  have a: "z_alu op v s = s'" by (simp add: z_alu_def s'_def op_def)
  have "s' = s\<lparr>z_a := (if cp then z_a s else word_of_int d), z_f := z_f s', z_qNext := z_f s'\<rparr>"
    unfolding s'_def by (subst sub_frame) (simp add: zbin_def op_def d_def)
  moreover have "(word_of_int d :: u8) = 0 \<longleftrightarrow> d mod 256 = 0"
    by (metis word_of_int_uint_u8 uint_0_eq word_uint_eq_iff)
  ultimately show ?thesis unfolding op_def [symmetric] Let_def a d_def [symmetric] using F by (auto simp: not_le)
qed

text \<open>
  C24: decimal arithmetic: DAA after an addition of two packed-decimal bytes leaves the decimal sum modulo
  100 as packed decimal, with C the decimal carry, and after a subtraction the decimal difference modulo 100
  with C the decimal borrow.
\<close>

theorem z80_daa_correct:
  assumes "bcd (z_a s)" and "bcd v" and "op \<noteq> 7"
  shows "let sum = bcd_val (z_a s) + bcd_val v + zcin wc s; p = z_daa (z_add wc v s);
             diff = bcd_val (z_a s) - bcd_val v - zbin op s; m = z_daa (z_sub op v s)
    in bcd (z_a p) \<and> bcd_val (z_a p) = sum mod 100 \<and> (bit (z_f p) 0 \<longleftrightarrow> 100 \<le> sum) \<and>
       bcd (z_a m) \<and> bcd_val (z_a m) = diff mod 100 \<and> (bit (z_f m) 0 \<longleftrightarrow> diff < 0)"
  using daa_after_add [OF assms(1,2) refl refl] daa_after_sub [OF assms(1,2) refl assms(3) refl]
  unfolding Let_def by blast

theorem z80_daa_correct_witness:
  "bcd_val (z_a (z_daa (z_add False 0x38 (z80_init\<lparr>z_a := 0x75\<rparr>)))) = 13 \<and>
   bcd_val (z_a (z_daa (z_sub 2 0x38 (z80_init\<lparr>z_a := 0x25\<rparr>)))) = 87"
  using z80_daa_correct [of "z80_init\<lparr>z_a := 0x75\<rparr>" "0x38" 2 False]
    z80_daa_correct [of "z80_init\<lparr>z_a := 0x25\<rparr>" "0x38" 2 False]
  by (simp add: bcd_def bcd_val_def zcin_def zbin_def Let_def)

end
