(* ===== verification/Z80Flow.thy ===== *)
theory Z80Flow
  imports Z80Exec Z80Arith Cpu6502Flow
begin

text \<open>
  Programs on the Z80 with RAM at every address: the block copy as a loop of steps, calls, interrupts and
  their returns, and when the prefix loop ends.
\<close>

section \<open>A processor on RAM\<close>

text \<open>What the program counter and the pointers see.\<close>

definition z_byte :: "('b \<Rightarrow> u32 \<Rightarrow> u8) \<Rightarrow> 'b z80 \<Rightarrow> u16 \<Rightarrow> u8" where
  "z_byte mem c a = mem (zz_mem c) (ucast a)"

lemma zupd_simps [simp]:
  "final (zupd f) c = c\<lparr>zz_regs := f (zz_regs c)\<rparr>" "result (zget g) c = g (zz_regs c)" "final (zget g) c = c"
  by (simp_all add: zupd_def zget_def modify_def gets_def)

lemma z_byte_regs [simp]: "z_byte mem (c\<lparr>zz_regs := r\<rparr>) = z_byte mem c"
  by (simp add: z_byte_def fun_eq_iff)

locale z80_bus = ram_bus ib mem ram ok for ib :: "'b ibus" and mem ram ok +
  fixes E :: "'b z80_env"
  assumes bus: "ze_bus E = Some ib" and all_ram: "ucast (a :: u16) \<in> ram"
begin

lemma rd_regs [simp]: "zz_regs (final (z_rd E a) c) = zz_regs c"
  by (simp add: z_rd_def bus zmem_def case_prod_beta)

lemma wr_regs [simp]: "zz_regs (final (z_wr E a v) c) = zz_regs c"
  by (simp add: z_wr_def bus zmem_def case_prod_beta)

lemma rd_mem:
  assumes "ok (zz_mem c)"
  shows "ok (zz_mem (final (z_rd E a) c))" "result (z_rd E a) c = z_byte mem c a"
    "z_byte mem (final (z_rd E a) c) = z_byte mem c"
  using assms all_ram read_ok read_ram read_frame by (simp_all add: z_rd_def bus zmem_def case_prod_beta z_byte_def fun_eq_iff)

lemma wr_mem:
  assumes "ok (zz_mem c)"
  shows "ok (zz_mem (final (z_wr E a v) c))"
    "z_byte mem (final (z_wr E a v) c) = (z_byte mem c)(a := v)"
  using assms all_ram write_ok write_ram by (simp_all add: z_wr_def bus zmem_def case_prod_beta z_byte_def fun_eq_iff)

lemma fetch_regs [simp]: "zz_regs (final (z_fetch E) c) = (zz_regs c)\<lparr>z_pc := z_pc (zz_regs c) + 1\<rparr>"
  by (simp add: z_fetch_def case_prod_beta)

lemma fetch_mem:
  assumes "ok (zz_mem c)"
  shows "ok (zz_mem (final (z_fetch E) c))" "result (z_fetch E) c = z_byte mem c (z_pc (zz_regs c))"
    "z_byte mem (final (z_fetch E) c) = z_byte mem c"
  using assms by (simp_all add: z_fetch_def rd_mem case_prod_beta)

lemma rd16_regs [simp]: "zz_regs (final (z_rd16 E a) c) = zz_regs c"
  by (simp add: z_rd16_def case_prod_beta)

lemma rd16_mem:
  assumes "ok (zz_mem c)"
  shows "ok (zz_mem (final (z_rd16 E a) c))" "result (z_rd16 E a) c = mk16 (z_byte mem c a) (z_byte mem c (a + 1))"
    "z_byte mem (final (z_rd16 E a) c) = z_byte mem c"
  using assms by (simp_all add: z_rd16_def rd_mem case_prod_beta)

lemma wr16_regs [simp]: "zz_regs (final (z_wr16 E a v) c) = zz_regs c"
  by (simp add: z_wr16_def case_prod_beta)

lemma wr16_mem:
  assumes "ok (zz_mem c)"
  shows "ok (zz_mem (final (z_wr16 E a v) c))"
    "z_byte mem (final (z_wr16 E a v) c) = (z_byte mem c)(a := lo8 v, a + 1 := hi8 v)"
  using assms by (simp_all add: z_wr16_def wr_mem case_prod_beta)

lemma push_regs [simp]: "zz_regs (final (z_push E v) c) = (zz_regs c)\<lparr>z_sp := z_sp (zz_regs c) - 2\<rparr>"
  by (simp add: z_push_def case_prod_beta)

lemma push_mem:
  assumes "ok (zz_mem c)"
  shows "ok (zz_mem (final (z_push E v) c))"
    "z_byte mem (final (z_push E v) c) = (z_byte mem c)(z_sp (zz_regs c) - 2 := lo8 v, z_sp (zz_regs c) - 1 := hi8 v)"
proof -
  have e: "z_sp (zz_regs c) - 2 + 1 = z_sp (zz_regs c) - 1" by simp
  show "ok (zz_mem (final (z_push E v) c))"
    "z_byte mem (final (z_push E v) c) = (z_byte mem c)(z_sp (zz_regs c) - 2 := lo8 v, z_sp (zz_regs c) - 1 := hi8 v)"
    using assms by (simp_all add: z_push_def wr16_mem case_prod_beta e)
qed

lemma pop_regs [simp]: "zz_regs (final (z_pop E) c) = (zz_regs c)\<lparr>z_sp := z_sp (zz_regs c) + 2\<rparr>"
  by (simp add: z_pop_def case_prod_beta)

lemma pop_mem:
  assumes "ok (zz_mem c)"
  shows "ok (zz_mem (final (z_pop E) c))"
    "result (z_pop E) c = mk16 (z_byte mem c (z_sp (zz_regs c))) (z_byte mem c (z_sp (zz_regs c) + 1))"
    "z_byte mem (final (z_pop E) c) = z_byte mem c"
  using assms by (simp_all add: z_pop_def rd16_mem case_prod_beta)

lemmas z_mem = rd_mem wr_mem fetch_mem rd16_mem wr16_mem push_mem pop_mem

end


section \<open>One step\<close>

lemma pair_simps [simp]:
  "z_bc (set_bc v s) = v" "z_de (set_de v s) = v" "z_hl (set_hl v s) = v"
  "z_bc (set_de v s) = z_bc s" "z_bc (set_hl v s) = z_bc s" "z_de (set_bc v s) = z_de s"
  "z_de (set_hl v s) = z_de s" "z_hl (set_bc v s) = z_hl s" "z_hl (set_de v s) = z_hl s"
  by (simp_all add: z_bc_def z_de_def z_hl_def set_bc_def set_de_def set_hl_def)

lemma pair_frame [simp]:
  "z_bc (s\<lparr>z_pc := a\<rparr>) = z_bc s" "z_de (s\<lparr>z_pc := a\<rparr>) = z_de s" "z_hl (s\<lparr>z_pc := a\<rparr>) = z_hl s"
  "z_bc (s\<lparr>z_wz := a\<rparr>) = z_bc s" "z_de (s\<lparr>z_wz := a\<rparr>) = z_de s" "z_hl (s\<lparr>z_wz := a\<rparr>) = z_hl s"
  "z_bc (s\<lparr>z_cycles := n\<rparr>) = z_bc s" "z_de (s\<lparr>z_cycles := n\<rparr>) = z_de s" "z_hl (s\<lparr>z_cycles := n\<rparr>) = z_hl s"
  "z_bc (s\<lparr>z_prefix := p\<rparr>) = z_bc s" "z_de (s\<lparr>z_prefix := p\<rparr>) = z_de s" "z_hl (s\<lparr>z_prefix := p\<rparr>) = z_hl s"
  "z_bc (s\<lparr>z_r := w\<rparr>) = z_bc s" "z_de (s\<lparr>z_r := w\<rparr>) = z_de s" "z_hl (s\<lparr>z_r := w\<rparr>) = z_hl s"
  "z_bc (s\<lparr>z_q := w\<rparr>) = z_bc s" "z_de (s\<lparr>z_q := w\<rparr>) = z_de s" "z_hl (s\<lparr>z_q := w\<rparr>) = z_hl s"
  "z_bc (s\<lparr>z_qNext := w\<rparr>) = z_bc s" "z_de (s\<lparr>z_qNext := w\<rparr>) = z_de s" "z_hl (s\<lparr>z_qNext := w\<rparr>) = z_hl s"
  "z_bc (s\<lparr>z_f := w\<rparr>) = z_bc s" "z_de (s\<lparr>z_f := w\<rparr>) = z_de s" "z_hl (s\<lparr>z_f := w\<rparr>) = z_hl s"
  "z_bc (s\<lparr>z_eiDelay := b\<rparr>) = z_bc s" "z_de (s\<lparr>z_eiDelay := b\<rparr>) = z_de s" "z_hl (s\<lparr>z_eiDelay := b\<rparr>) = z_hl s"
  "z_bc (s\<lparr>z_dispFetched := b\<rparr>) = z_bc s" "z_de (s\<lparr>z_dispFetched := b\<rparr>) = z_de s"
  "z_hl (s\<lparr>z_dispFetched := b\<rparr>) = z_hl s"
  by (simp_all add: z_bc_def z_de_def z_hl_def)

text \<open>What a block copy leaves alone, and a processor with nothing to answer.\<close>

definition z_others :: "z80_regs \<Rightarrow> _" where
  "z_others s = ((z_a s, z_sp s, z_ix s, z_iy s, z_af2 s, z_bc2 s, z_de2 s, z_hl2 s),
     (z_i s, z_im s, z_iff1 s, z_iff2 s, z_halted s, z_irqLine s, z_nmiLine s, z_nmiPending s))"

definition undisturbed :: "z80_regs \<Rightarrow> bool" where
  "undisturbed s \<longleftrightarrow> \<not> z_nmiPending s \<and> \<not> (z_irqLine s \<and> z_iff1 s) \<and> \<not> z_halted s"

lemma undisturbed_others: "z_others s = z_others s' \<Longrightarrow> undisturbed s = undisturbed s'"
  by (simp add: z_others_def undisturbed_def)

definition bare_env :: "'b z80_env \<Rightarrow> bool" where
  "bare_env E \<longleftrightarrow> ze_pcHook E = None \<and> ze_observer E = None"

text \<open>The registers when the opcode at PC has been read.\<close>

definition opened :: "z80_regs \<Rightarrow> z80_regs" where
  "opened s = z_incR (s\<lparr>z_eiDelay := False, z_q := z_qNext s, z_qNext := 0, z_prefix := 0, z_dispFetched := False,
     z_pc := z_pc s + 1\<rparr>)"

lemma opened_simps [simp]:
  "z_pc (opened s) = z_pc s + 1" "z_prefix (opened s) = 0" "z_others (opened s) = z_others s"
  "z_bc (opened s) = z_bc s" "z_de (opened s) = z_de s" "z_hl (opened s) = z_hl s" "z_cycles (opened s) = z_cycles s"
  "\<not> z_dispFetched (opened s)"
  by (simp_all add: opened_def z_incR_def z_others_def z_bc_def z_de_def z_hl_def)

lemma step_bare:
  assumes "bare_env E" and "undisturbed (zz_regs c)"
  shows "z_step E c = instruction E (c\<lparr>zz_regs := (zz_regs c)\<lparr>z_eiDelay := False\<rparr>\<rparr>)"
  using assms by (auto simp: z_step_def run_hook_def run_observer_def bare_env_def undisturbed_def takes_interrupt_def Let_def)

context z80_bus
begin

lemma step_opens:
  assumes "bare_env E" and "undisturbed (zz_regs c)" and "ok (zz_mem c)"
  obtains d where "ok (zz_mem d)" "z_byte mem d = z_byte mem c" "zz_regs d = opened (zz_regs c)"
    "z_step E c = (case prefix_loop E 0 (z_byte mem c (z_pc (zz_regs c))) d of
        None \<Rightarrow> None | Some (t, op, d') \<Rightarrow> Some (run_state (finish E t op) d'))"
proof -
  let ?c = "c\<lparr>zz_regs := (zz_regs c)\<lparr>z_eiDelay := False\<rparr>\<rparr>"
  let ?d = "final (first_opcode E) ?c"
  have ok: "ok (zz_mem (?c\<lparr>zz_regs := s\<rparr>))" for s using assms(3) by simp
  show ?thesis
  proof (rule that [of ?d])
    show "ok (zz_mem ?d)" "z_byte mem ?d = z_byte mem c" "zz_regs ?d = opened (zz_regs c)"
      using ok by (simp_all add: first_opcode_def case_prod_beta z_mem opened_def)
    have "result (first_opcode E) ?c = z_byte mem c (z_pc (zz_regs c))"
      using ok by (simp add: first_opcode_def case_prod_beta z_mem)
    then show "z_step E c = (case prefix_loop E 0 (z_byte mem c (z_pc (zz_regs c))) ?d of
        None \<Rightarrow> None | Some (t, op, d') \<Rightarrow> Some (run_state (finish E t op) d'))"
      by (simp add: step_bare [OF assms(1,2)] instruction_def)
  qed
qed

end


section \<open>The block copy\<close>

lemma ldi_regs_simps [simp]:
  "z_hl (ldi_regs dec v s) = step_dir dec (z_hl s)" "z_de (ldi_regs dec v s) = step_dir dec (z_de s)"
  "z_bc (ldi_regs dec v s) = z_bc s - 1" "z_pc (ldi_regs dec v s) = z_pc s"
  "z_others (ldi_regs dec v s) = z_others s" "z_cycles (ldi_regs dec v s) = z_cycles s"
  by (simp_all add: ldi_regs_def Let_def z_setF_def z_others_def set_bc_def set_de_def set_hl_def)
    (simp_all add: z_bc_def z_de_def z_hl_def)

lemma incR_simps [simp]:
  "z_hl (z_incR s) = z_hl s" "z_de (z_incR s) = z_de s" "z_bc (z_incR s) = z_bc s" "z_pc (z_incR s) = z_pc s"
  "z_others (z_incR s) = z_others s" "z_cycles (z_incR s) = z_cycles s" "z_prefix (z_incR s) = z_prefix s"
  by (simp_all add: z_incR_def z_others_def z_hl_def z_de_def z_bc_def)

lemma others_frame [simp]:
  "z_others (s\<lparr>z_pc := a\<rparr>) = z_others s" "z_others (s\<lparr>z_wz := a\<rparr>) = z_others s"
  "z_others (s\<lparr>z_cycles := n\<rparr>) = z_others s" "z_others (s\<lparr>z_prefix := p\<rparr>) = z_others s"
  by (simp_all add: z_others_def)

definition block_op :: "bool \<Rightarrow> u8" where
  "block_op dec = (if dec then 0xB8 else 0xB0)"

lemma block_op_fields: "op_x (block_op dec) = 2" "op_y (block_op dec) = (if dec then 7 else 6)" "op_z (block_op dec) = 0"
  by (simp_all add: block_op_def op_x_def op_y_def op_z_def)

text \<open>One turn of LDIR or LDDR.\<close>

definition ldir_turn :: "(u16 \<Rightarrow> u8) \<Rightarrow> z80_regs \<Rightarrow> (u16 \<Rightarrow> u8) \<Rightarrow> z80_regs \<Rightarrow> bool \<Rightarrow> nat \<Rightarrow> bool" where
  "ldir_turn m s m' s' dec t \<longleftrightarrow>
     m' = m(z_de s := m (z_hl s)) \<and> z_hl s' = step_dir dec (z_hl s) \<and> z_de s' = step_dir dec (z_de s) \<and>
     z_bc s' = z_bc s - 1 \<and> z_others s' = z_others s \<and> t = (if z_bc s = 1 then 16 else 21) \<and>
     z_pc s' = (if z_bc s = 1 then z_pc s + 2 else z_pc s) \<and> z_cycles s' = z_cycles s + of_nat t"

context z80_bus
begin

lemma ldir_step:
  assumes "bare_env E" and "undisturbed (zz_regs c)" and "ok (zz_mem c)"
    and "z_byte mem c (z_pc (zz_regs c)) = 0xED" and "z_byte mem c (z_pc (zz_regs c) + 1) = block_op dec"
  obtains c' t where "z_step E c = Some (t, c')" "ok (zz_mem c')"
    "ldir_turn (z_byte mem c) (zz_regs c) (z_byte mem c') (zz_regs c') dec t"
proof -
  obtain d where d: "ok (zz_mem d)" "z_byte mem d = z_byte mem c" "zz_regs d = opened (zz_regs c)"
    "z_step E c = (case prefix_loop E 0 (z_byte mem c (z_pc (zz_regs c))) d of
        None \<Rightarrow> None | Some (t, op, d') \<Rightarrow> Some (run_state (finish E t op) d'))"
    using step_opens [OF assms(1-3)] by blast
  have "z_step E c = Some (run_state (finish E 0 0xED) d)"
    unfolding d(4) assms(4) by (subst prefix_loop.simps) simp
  moreover have "zz_mem (d\<lparr>zz_regs := s\<rparr>) = zz_mem d" for s by simp
  moreover have r: "z_bc s - 1 = 0 \<longleftrightarrow> z_bc s = 1" for s by simp
  moreover have "ok (zz_mem (final (finish E 0 0xED) d)) \<and> ldir_turn (z_byte mem c) (zz_regs c)
      (z_byte mem (final (finish E 0 0xED) d)) (zz_regs (final (finish E 0 0xED) d)) dec (result (finish E 0 0xED) d)"
    using assms(5) d(1-3)
    by (simp add: finish_def dispatch_def execED_def case_prod_beta z_mem Let_def block_op_fields block_ldi_def
        repeat_block_def z_ret_def z_add_cycles_def ldir_turn_def)
  ultimately show ?thesis using that [of "result (finish E 0 0xED) d" "final (finish E 0 0xED) d"] by simp
qed

end


text \<open>Steps in a row, with the T-states they report.\<close>

fun z_run :: "'b z80_env \<Rightarrow> nat \<Rightarrow> 'b z80 \<Rightarrow> (nat \<times> 'b z80) option" where
  "z_run E 0 c = Some (0, c)"
| "z_run E (Suc n) c = (case z_step E c of None \<Rightarrow> None | Some (t, c1) \<Rightarrow>
     (case z_run E n c1 of None \<Rightarrow> None | Some (u, c2) \<Rightarrow> Some (t + u, c2)))"

text \<open>Byte after byte, upwards or downwards: a byte may be read after it was written.\<close>

fun copy_bytes :: "bool \<Rightarrow> nat \<Rightarrow> u16 \<Rightarrow> u16 \<Rightarrow> (u16 \<Rightarrow> u8) \<Rightarrow> u16 \<Rightarrow> u8" where
  "copy_bytes dec 0 h d m = m"
| "copy_bytes dec (Suc n) h d m = copy_bytes dec n (step_dir dec h) (step_dir dec d) (m(d := m h))"

definition advance :: "bool \<Rightarrow> u16 \<Rightarrow> nat \<Rightarrow> u16" where
  "advance dec a i = (if dec then a - of_nat i else a + of_nat i)"

lemma advance_simps [simp]:
  "advance dec a 0 = a" "advance dec (step_dir dec a) i = advance dec a (Suc i)"
  by (simp_all add: advance_def step_dir_def algebra_simps)

lemma of_nat_u16_eq: "i < 65536 \<Longrightarrow> j < 65536 \<Longrightarrow> (of_nat i :: u16) = of_nat j \<longleftrightarrow> i = j"
  by (simp add: word_unat_eq_iff unsigned_of_nat take_bit_nat_eq_self)

lemma advance_inj: "i < 65536 \<Longrightarrow> j < 65536 \<Longrightarrow> advance dec a i = advance dec a j \<longleftrightarrow> i = j"
  by (simp add: advance_def of_nat_u16_eq)


lemma copy_bytes_other:
  assumes "\<And>i. i < n \<Longrightarrow> a \<noteq> advance dec d i"
  shows "copy_bytes dec n h d m a = m a"
  using assms
proof (induction n arbitrary: h d m)
  case (Suc n)
  then have "a \<noteq> d" using Suc.prems [of 0] by simp
  moreover have "a \<noteq> advance dec (step_dir dec d) i" if "i < n" for i using Suc.prems [of "Suc i"] that by simp
  ultimately show ?case using Suc.IH by simp
qed simp

text \<open>Apart from its own destination the copy is the source as it was.\<close>

lemma copy_bytes_disjoint:
  assumes "n \<le> 65536" and "\<And>i j. i < n \<Longrightarrow> j < n \<Longrightarrow> advance dec d i \<noteq> advance dec h j" and "i < n"
  shows "copy_bytes dec n h d m (advance dec d i) = m (advance dec h i)"
  using assms
proof (induction n arbitrary: h d m i)
  case (Suc n)
  have e: "advance dec (step_dir dec d) i \<noteq> advance dec (step_dir dec h) j" if "i < n" "j < n" for i j
    using Suc.prems(2) [of "Suc i" "Suc j"] that by simp
  show ?case
  proof (cases i)
    case 0
    have "d \<noteq> advance dec (step_dir dec d) j" if "j < n" for j
      using advance_inj [of 0 "Suc j" dec d] Suc.prems(1) that by simp
    then show ?thesis using 0 by (simp add: copy_bytes_other)
  next
    case (Suc k)
    have "d \<noteq> advance dec (step_dir dec h) k" using Suc.prems(2) [of 0 "Suc k"] Suc.prems(3) Suc by simp
    then show ?thesis using Suc.IH [OF _ e, of k] Suc.prems Suc by simp
  qed
qed simp

text \<open>With DE one past HL an upward copy fills memory with its first byte.\<close>

lemma copy_bytes_fill:
  assumes "n \<le> 65535" and "i < n"
  shows "copy_bytes False n h (h + 1) m (h + 1 + of_nat i) = m h"
  using assms
proof (induction n arbitrary: h m i)
  case (Suc n)
  show ?case
  proof (cases i)
    case 0
    have "h + 1 \<noteq> advance False (h + 1 + 1) j" if "j < n" for j
      using advance_inj [of 0 "Suc j" False "h + 1"] Suc.prems(1) that by (simp add: advance_def algebra_simps)
    then show ?thesis using 0 by (simp add: copy_bytes_other step_dir_def)
  next
    case (Suc k)
    then show ?thesis using Suc.IH [of k "h + 1"] Suc.prems by (simp add: step_dir_def algebra_simps)
  qed
qed simp

context z80_bus
begin

lemma ldir_loop:
  assumes "bare_env E" and "undisturbed (zz_regs c)" and "ok (zz_mem c)"
    and "z_byte mem c (z_pc (zz_regs c)) = 0xED" and "z_byte mem c (z_pc (zz_regs c) + 1) = block_op dec"
    and "z_bc (zz_regs c) = of_nat n" and "0 < n" and "n \<le> 65536"
    and "\<And>i. i < n \<Longrightarrow> advance dec (z_de (zz_regs c)) i \<notin> {z_pc (zz_regs c), z_pc (zz_regs c) + 1}"
  shows "\<exists>c'. z_run E n c = Some (21 * n - 5, c') \<and> ok (zz_mem c') \<and>
    z_byte mem c' = copy_bytes dec n (z_hl (zz_regs c)) (z_de (zz_regs c)) (z_byte mem c) \<and>
    z_bc (zz_regs c') = 0 \<and> z_hl (zz_regs c') = advance dec (z_hl (zz_regs c)) n \<and>
    z_de (zz_regs c') = advance dec (z_de (zz_regs c)) n \<and> z_pc (zz_regs c') = z_pc (zz_regs c) + 2 \<and>
    z_others (zz_regs c') = z_others (zz_regs c) \<and>
    z_cycles (zz_regs c') = z_cycles (zz_regs c) + of_nat (21 * n - 5)"
  using assms
proof (induction n arbitrary: c)
  case (Suc n)
  let ?s = "zz_regs c"
  obtain c1 t where 1: "z_step E c = Some (t, c1)" "ok (zz_mem c1)"
    "ldir_turn (z_byte mem c) ?s (z_byte mem c1) (zz_regs c1) dec t"
    using ldir_step [OF Suc.prems(1-5)] by blast
  note T = 1(3) [unfolded ldir_turn_def]
  have last: "z_bc ?s = 1 \<longleftrightarrow> n = 0"
  proof -
    have "z_bc ?s = 1 \<longleftrightarrow> (of_nat n :: u16) = of_nat 0" unfolding Suc.prems(6) by simp
    then show ?thesis using of_nat_u16_eq [of n 0] Suc.prems(8) by simp
  qed
  show ?case
  proof (cases "n = 0")
    case True
    then show ?thesis using 1 T last Suc.prems(6) by (simp add: advance_def step_dir_def fun_upd_def)
  next
    case False
    have w: "z_de ?s \<noteq> z_pc ?s" "z_de ?s \<noteq> z_pc ?s + 1" using Suc.prems(9) [of 0] by auto
    have pc: "z_pc (zz_regs c1) = z_pc ?s" using T last False by simp
    have o1: "undisturbed (zz_regs c1)" using T Suc.prems(2) undisturbed_others by metis
    have b: "z_byte mem c1 (z_pc (zz_regs c1)) = 0xED" "z_byte mem c1 (z_pc (zz_regs c1) + 1) = block_op dec"
      using T w pc Suc.prems(4,5) by simp_all
    have bc: "z_bc (zz_regs c1) = of_nat n" using T Suc.prems(6) by simp
    have de: "advance dec (z_de (zz_regs c1)) i \<notin> {z_pc (zz_regs c1), z_pc (zz_regs c1) + 1}" if "i < n" for i
      using Suc.prems(9) [of "Suc i"] that T pc by simp
    obtain c' where c': "z_run E n c1 = Some (21 * n - 5, c')" "ok (zz_mem c')"
      "z_byte mem c' = copy_bytes dec n (z_hl (zz_regs c1)) (z_de (zz_regs c1)) (z_byte mem c1)"
      "z_bc (zz_regs c') = 0" "z_hl (zz_regs c') = advance dec (z_hl (zz_regs c1)) n"
      "z_de (zz_regs c') = advance dec (z_de (zz_regs c1)) n" "z_pc (zz_regs c') = z_pc (zz_regs c1) + 2"
      "z_others (zz_regs c') = z_others (zz_regs c1)"
      "z_cycles (zz_regs c') = z_cycles (zz_regs c1) + of_nat (21 * n - 5)"
      using Suc.IH [OF Suc.prems(1) o1 1(2) b bc _ _ de] False Suc.prems(8) by auto
    have t: "t = 21" using T last False by simp
    have n: "21 * Suc n - 5 = 21 + (21 * n - 5)" using False by simp
    have "z_cycles (zz_regs c') = z_cycles ?s + of_nat (21 * Suc n - 5)"
      unfolding n of_nat_add c'(9) using T t by simp
    then show ?thesis using 1(1) c' T pc t n by simp
  qed
qed simp

end


section \<open>The prefix loop\<close>

definition prefix_bytes :: "u8 set" where
  "prefix_bytes = {0xDD, 0xFD}"

context z80_bus
begin

lemma next_prefix_run:
  assumes "ok (zz_mem c)"
  shows "ok (zz_mem (final (next_prefix E op) c))"
    "z_byte mem (final (next_prefix E op) c) = z_byte mem c"
    "result (next_prefix E op) c = z_byte mem c (z_pc (zz_regs c))"
    "z_pc (zz_regs (final (next_prefix E op) c)) = z_pc (zz_regs c) + 1"
  using assms by (simp_all add: next_prefix_def case_prod_beta z_mem)

text \<open>The loop stops at the first byte that is no prefix.\<close>

lemma prefix_loop_returns:
  assumes "ok (zz_mem c)" and "op = z_byte mem c (z_pc (zz_regs c) - 1)"
    and "z_byte mem c (z_pc (zz_regs c) - 1 + of_nat k) \<notin> prefix_bytes"
  shows "prefix_loop E t op c \<noteq> None"
  using assms
proof (induction k arbitrary: c t op)
  case 0
  then show ?case by (subst prefix_loop.simps) (simp add: prefix_bytes_def)
next
  case (Suc k)
  let ?c = "final (next_prefix E op) c"
  have "z_byte mem ?c (z_pc (zz_regs ?c) - 1 + of_nat k) \<notin> prefix_bytes"
    using Suc.prems by (simp add: next_prefix_run algebra_simps)
  then have "prefix_loop E (t + 4) (result (next_prefix E op) c) ?c \<noteq> None"
    using Suc.prems(1) by (intro Suc.IH) (simp_all add: next_prefix_run)
  then show ?case by (subst prefix_loop.simps) simp
qed

lemma prefix_loop_runs_on:
  assumes "ok (zz_mem c)" and "range (z_byte mem c) \<subseteq> prefix_bytes" and "op \<in> prefix_bytes"
  shows "prefix_loop E t op c = None"
proof (rule ccontr)
  have never: "F = E \<longrightarrow> ok (zz_mem c) \<longrightarrow> range (z_byte mem c) \<subseteq> prefix_bytes \<longrightarrow> op \<notin> prefix_bytes"
    if "prefix_loop F t op c = Some r" for F t op c r
  proof (rule prefix_loop.raw_induct [OF _ that, where P = "\<lambda>F t op c r. F = E \<longrightarrow> ok (zz_mem c) \<longrightarrow>
      range (z_byte mem c) \<subseteq> prefix_bytes \<longrightarrow> op \<notin> prefix_bytes"])
    fix loop F t op c r
    assume IH: "\<And>t op c b y. loop t op c b = Some y \<Longrightarrow>
        t = E \<longrightarrow> ok (zz_mem b) \<longrightarrow> range (z_byte mem b) \<subseteq> prefix_bytes \<longrightarrow> c \<notin> prefix_bytes"
      and body: "(if op = 0xDD \<or> op = 0xFD
        then loop F (t + 4) (result (next_prefix F op) c) (final (next_prefix F op) c) else Some (t, op, c)) = Some r"
    show "F = E \<longrightarrow> ok (zz_mem c) \<longrightarrow> range (z_byte mem c) \<subseteq> prefix_bytes \<longrightarrow> op \<notin> prefix_bytes"
    proof (intro impI notI)
      assume a: "F = E" "ok (zz_mem c)" "range (z_byte mem c) \<subseteq> prefix_bytes" "op \<in> prefix_bytes"
      then have "loop F (t + 4) (result (next_prefix F op) c) (final (next_prefix F op) c) = Some r"
        using body by (auto simp: prefix_bytes_def)
      from IH [OF this] a show False by (auto simp: next_prefix_run)
    qed
  qed
  assume "prefix_loop E t op c \<noteq> None"
  then show False using never assms by blast
qed

lemma step_returns:
  assumes "bare_env E" and "undisturbed (zz_regs c)" and "ok (zz_mem c)"
  shows "z_step E c \<noteq> None \<longleftrightarrow> (\<exists>a. z_byte mem c a \<notin> prefix_bytes)"
proof -
  obtain d where d: "ok (zz_mem d)" "z_byte mem d = z_byte mem c" "zz_regs d = opened (zz_regs c)"
    "z_step E c = (case prefix_loop E 0 (z_byte mem c (z_pc (zz_regs c))) d of
        None \<Rightarrow> None | Some (t, op, d') \<Rightarrow> Some (run_state (finish E t op) d'))"
    using step_opens [OF assms] by blast
  have s: "z_step E c \<noteq> None \<longleftrightarrow> prefix_loop E 0 (z_byte mem c (z_pc (zz_regs c))) d \<noteq> None"
    unfolding d(4) by (auto split: option.splits)
  show ?thesis unfolding s
  proof (intro iffI)
    assume n: "prefix_loop E 0 (z_byte mem c (z_pc (zz_regs c))) d \<noteq> None"
    show "\<exists>a. z_byte mem c a \<notin> prefix_bytes"
    proof (rule ccontr)
      assume "\<nexists>a. z_byte mem c a \<notin> prefix_bytes"
      then have r: "z_byte mem c a \<in> prefix_bytes" for a by metis
      have "range (z_byte mem d) \<subseteq> prefix_bytes" by (simp add: d(2) image_subset_iff r)
      from prefix_loop_runs_on [OF d(1) this r] n show False by metis
    qed
  next
    assume "\<exists>a. z_byte mem c a \<notin> prefix_bytes"
    then obtain a where a: "z_byte mem c a \<notin> prefix_bytes" by blast
    have "z_pc (zz_regs c) + of_nat (unat (a - z_pc (zz_regs c))) = a" by simp
    then show "prefix_loop E 0 (z_byte mem c (z_pc (zz_regs c))) d \<noteq> None"
      using a d by (intro prefix_loop_returns [where k = "unat (a - z_pc (zz_regs c))"]) simp_all
  qed
qed

end

section \<open>Calls, interrupts and returns\<close>

context z80_bus
begin

lemma call_ret:
  assumes "ok (zz_mem c)"
  shows "z_pc (zz_regs (final (z_call E a) c)) = a"
    and "zz_regs (final (do { z_call E a; r \<leftarrow> z_pop E; zupd (jump r); z_ret 10 }) c) =
      (zz_regs c)\<lparr>z_wz := z_pc (zz_regs c)\<rparr>"
proof -
  have n: "z_sp (zz_regs c) - 2 + 1 = z_sp (zz_regs c) - 1" by simp
  show "z_pc (zz_regs (final (z_call E a) c)) = a" by (simp add: z_call_def case_prod_beta)
  show "zz_regs (final (do { z_call E a; r \<leftarrow> z_pop E; zupd (jump r); z_ret 10 }) c) =
      (zz_regs c)\<lparr>z_wz := z_pc (zz_regs c)\<rparr>"
    using assms by (simp add: z_call_def case_prod_beta z_mem z_ret_def jump_def n)
qed

lemma interrupt_ret:
  assumes "ok (zz_mem c)"
  defines "h \<equiv> final (z_interrupt E) c" and "s \<equiv> zz_regs c"
  shows "z_pc (zz_regs h) = (if z_nmiPending s then 0x0066 else if z_im s = 2
      then (let m = z_byte mem c; m' = m(z_sp s - 2 := lo8 (z_pc s), z_sp s - 1 := hi8 (z_pc s)); v = mk16 0xFF (z_i s)
            in mk16 (m' v) (m' (v + 1))) else 0x0038)"
    and "\<not> z_iff1 (zz_regs h)" and "z_iff2 (zz_regs h) \<longleftrightarrow> z_nmiPending s \<and> z_iff2 s"
    and "z_pc (zz_regs (final (ed_x1 E y 5) h)) = z_pc s"
    and "z_sp (zz_regs (final (ed_x1 E y 5) h)) = z_sp s"
    and "z_iff1 (zz_regs (final (ed_x1 E y 5) h)) \<longleftrightarrow> z_nmiPending s \<and> z_iff2 s"
proof -
  have n: "z_sp s - 2 + 1 = z_sp s - 1" for s :: z80_regs by simp
  show "z_pc (zz_regs h) = (if z_nmiPending s then 0x0066 else if z_im s = 2
      then (let m = z_byte mem c; m' = m(z_sp s - 2 := lo8 (z_pc s), z_sp s - 1 := hi8 (z_pc s)); v = mk16 0xFF (z_i s)
            in mk16 (m' v) (m' (v + 1))) else 0x0038)"
    using assms(1) by (simp add: h_def s_def z_interrupt_def case_prod_beta z_mem z_ret_def jump_def z_incR_def Let_def)
  show "\<not> z_iff1 (zz_regs h)" "z_iff2 (zz_regs h) \<longleftrightarrow> z_nmiPending s \<and> z_iff2 s"
    "z_pc (zz_regs (final (ed_x1 E y 5) h)) = z_pc s" "z_sp (zz_regs (final (ed_x1 E y 5) h)) = z_sp s"
    "z_iff1 (zz_regs (final (ed_x1 E y 5) h)) \<longleftrightarrow> z_nmiPending s \<and> z_iff2 s"
    using assms(1) by (simp_all add: h_def s_def z_interrupt_def ed_x1_def case_prod_beta z_mem z_ret_def jump_def z_incR_def Let_def n)
qed

end


section \<open>On a 64 KB memory\<close>

context ram_bus
begin

lemma write_all_mem:
  assumes "ok b" and "fst ` set ws \<subseteq> ram" and "x \<in> ram"
  shows "mem (write_all ib ws b) x = (case map_of (rev ws) x of Some v \<Rightarrow> v | None \<Rightarrow> mem b x)"
  using assms
proof (induction ws arbitrary: b)
  case (Cons w ws)
  obtain y v where w: "w = (y, v)" by (cases w)
  then have y: "y \<in> ram" using Cons.prems(2) by simp
  have "mem (write_all ib ws (final (ib_write8 ib y v) b)) x =
      (case map_of (rev ws) x of Some v \<Rightarrow> v | None \<Rightarrow> mem (final (ib_write8 ib y v) b) x)"
    using Cons.prems by (intro Cons.IH write_ok) auto
  then show ?case using write_ram [OF Cons.prems(1) y Cons.prems(3)]
    by (auto simp: w map_add_def split: option.splits)
qed simp

end

definition flat_z80_env :: "unit flat_bus z80_env" where
  "flat_z80_env = \<lparr>ze_bus = Some flat_ibus, ze_io = None, ze_pcHook = None, ze_observer = None\<rparr>"

interpretation flat_z80: z80_bus flat_ibus fb_data ram64 "flat_ok ram64" flat_z80_env
  by unfold_locales (auto simp: flat_z80_env_def)

definition flat_z80 :: "(u32 \<times> u8) list \<Rightarrow> z80_regs \<Rightarrow> unit flat_bus z80" where
  "flat_z80 ws s = \<lparr>zz_regs = s, zz_mem = write_all flat_ibus ws (flat_new 16 ())\<rparr>"

lemma flat_z80_simps [simp]:
  "zz_regs (flat_z80 ws s) = s" "flat_ok ram64 (zz_mem (flat_z80 ws s))" "bare_env flat_z80_env"
  by (simp_all add: flat_z80_def flat.write_all_ok flat_new_ok bare_env_def flat_z80_env_def)

lemma flat_z80_byte:
  assumes "fst ` set ws \<subseteq> ram64"
  shows "z_byte fb_data (flat_z80 ws s) a = (case map_of (rev ws) (ucast a) of Some v \<Rightarrow> v | None \<Rightarrow> 0)"
proof -
  have n: "fb_data (flat_new 16 ()) (ucast a) = 0" by (simp add: flat_new_def)
  show ?thesis unfolding z_byte_def flat_z80_def z80.simps n [symmetric]
    by (rule flat.write_all_mem [OF flat_new_ok assms ram64_16])
qed


text \<open>
  C22: LDIR and LDDR: with the instruction in RAM and nothing to interrupt it, as many steps as BC counts
  (65,536 for 0) copy byte after byte from HL to DE, upwards or downwards, as long as the copy does not
  overwrite the instruction: memory is the source copied in that order, a destination disjoint from the
  source ends as the source was, BC is 0, HL and DE have moved past the blocks, PC is behind the instruction,
  and the steps have reported 21 T-states each but 16 for the last, the same number the cycle counter moved.
\<close>

theorem z80_block_copy:
  fixes c :: "'b z80" and ib :: "'b ibus"
  assumes "z80_bus ib mem ram ok E" and "bare_env E" and "undisturbed (zz_regs c)" and "ok (zz_mem c)"
    and "z_byte mem c (z_pc (zz_regs c)) = 0xED" and "z_byte mem c (z_pc (zz_regs c) + 1) = block_op dec"
    and "n = (if z_bc (zz_regs c) = 0 then 65536 else unat (z_bc (zz_regs c)))"
    and "\<And>i. i < n \<Longrightarrow> advance dec (z_de (zz_regs c)) i \<notin> {z_pc (zz_regs c), z_pc (zz_regs c) + 1}"
  shows "\<exists>c'. z_run E n c = Some (21 * n - 5, c') \<and>
    z_byte mem c' = copy_bytes dec n (z_hl (zz_regs c)) (z_de (zz_regs c)) (z_byte mem c) \<and>
    ((\<forall>i<n. \<forall>j<n. advance dec (z_de (zz_regs c)) i \<noteq> advance dec (z_hl (zz_regs c)) j) \<longrightarrow>
      (\<forall>i<n. z_byte mem c' (advance dec (z_de (zz_regs c)) i) = z_byte mem c (advance dec (z_hl (zz_regs c)) i))) \<and>
    z_bc (zz_regs c') = 0 \<and> z_hl (zz_regs c') = advance dec (z_hl (zz_regs c)) n \<and>
    z_de (zz_regs c') = advance dec (z_de (zz_regs c)) n \<and> z_pc (zz_regs c') = z_pc (zz_regs c) + 2 \<and>
    z_others (zz_regs c') = z_others (zz_regs c) \<and>
    z_cycles (zz_regs c') = z_cycles (zz_regs c) + of_nat (21 * n - 5)"
proof -
  have u: "unat (z_bc (zz_regs c)) < 65536" by simp
  have n: "z_bc (zz_regs c) = of_nat n" "0 < n" "n \<le> 65536"
    using u by (auto simp: assms(7) unat_gt_0 simp del: unat_u16_lt)
  have "i < n \<Longrightarrow> advance dec (z_de (zz_regs c)) i \<notin> {z_pc (zz_regs c), z_pc (zz_regs c) + 1}" for i
    by (rule assms(8))
  then obtain c' where "z_run E n c = Some (21 * n - 5, c')"
    "z_byte mem c' = copy_bytes dec n (z_hl (zz_regs c)) (z_de (zz_regs c)) (z_byte mem c)"
    "z_bc (zz_regs c') = 0" "z_hl (zz_regs c') = advance dec (z_hl (zz_regs c)) n"
    "z_de (zz_regs c') = advance dec (z_de (zz_regs c)) n" "z_pc (zz_regs c') = z_pc (zz_regs c) + 2"
    "z_others (zz_regs c') = z_others (zz_regs c)" "z_cycles (zz_regs c') = z_cycles (zz_regs c) + of_nat (21 * n - 5)"
    using z80_bus.ldir_loop [OF assms(1-6) n] by blast
  then show ?thesis using copy_bytes_disjoint [OF n(3)] by (intro exI [of _ c']) simp
qed

definition copy_regs :: z80_regs where
  "copy_regs = z_new\<lparr>z_pc := 0x8000, z_b := 0, z_c := 2, z_d := 0x20, z_e := 0, z_h := 0x10, z_l := 0\<rparr>"

theorem z80_block_copy_witness:
  "let c = flat_z80 [(0x8000, 0xED), (0x8001, 0xB0), (0x1000, 7), (0x1001, 9)] copy_regs
   in \<exists>c'. z_run flat_z80_env 2 c = Some (37, c') \<and> z_byte fb_data c' 0x2001 = 9 \<and> z_pc (zz_regs c') = 0x8002"
proof -
  let ?c = "flat_z80 [(0x8000, 0xED), (0x8001, 0xB0), (0x1000, 7), (0x1001, 9)] copy_regs"
  have m: "z_byte fb_data ?c a = (case map_of [(0x1001 :: u32, 9), (0x1000, 7), (0x8001, 0xB0), (0x8000, 0xED)] (ucast a) of
      Some v \<Rightarrow> v | None \<Rightarrow> 0)" for a
    by (subst flat_z80_byte) (simp_all add: ram64_def)
  have r: "z_pc copy_regs = 0x8000" "z_bc copy_regs = 2" "z_de copy_regs = 0x2000" "z_hl copy_regs = 0x1000"
    "undisturbed copy_regs"
    by (simp_all add: copy_regs_def z_new_def z_reset_def z80_init_def z_bc_def z_de_def z_hl_def mk16_def undisturbed_def)
  have a: "i < 2 \<Longrightarrow> advance False 0x2000 i \<notin> {0x8000, 0x8001}" for i
    using less_2_cases [of i] by (auto simp: advance_def)
  have d: "\<forall>i<2. \<forall>j<2. advance False 0x2000 i \<noteq> advance False 0x1000 j"
    using less_2_cases by (auto simp: advance_def dest!: less_2_cases)
  have u: "undisturbed (zz_regs ?c)" "flat_ok ram64 (zz_mem ?c)" using r by simp_all
  have b: "z_byte fb_data ?c (z_pc (zz_regs ?c)) = 0xED" "z_byte fb_data ?c (z_pc (zz_regs ?c) + 1) = block_op False"
    "z_byte fb_data ?c 0x1001 = 9"
    by (simp_all add: m r block_op_def)
  have n: "2 = (if z_bc (zz_regs ?c) = 0 then 65536 else unat (z_bc (zz_regs ?c)))" by (simp add: r)
  have a': "advance False (z_de (zz_regs ?c)) i \<notin> {z_pc (zz_regs ?c), z_pc (zz_regs ?c) + 1}" if "i < 2" for i
    using a [OF that] by (simp add: r)
  obtain c' where c': "z_run flat_z80_env 2 ?c = Some (21 * 2 - 5, c')" "z_pc (zz_regs c') = z_pc (zz_regs ?c) + 2"
    "\<forall>i<2. z_byte fb_data c' (advance False (z_de (zz_regs ?c)) i) = z_byte fb_data ?c (advance False (z_hl (zz_regs ?c)) i)"
    using z80_block_copy [OF flat_z80.z80_bus_axioms flat_z80_simps(3) u b(1,2) n a'] d by (auto simp: r)
  have "z_byte fb_data c' 0x2001 = 9"
    using c'(3) [rule_format, of 1] b(3) by (simp add: r advance_def)
  then show ?thesis using c'(1,2) by (auto simp: Let_def r)
qed

text \<open>
  C23: a step of an undisturbed processor on RAM returns exactly when some byte of the 64 KB is not a DD or FD
  prefix: the prefix loop ends at the first such byte, and in memory full of prefixes the step never returns.
\<close>

theorem z80_step_returns:
  assumes "z80_bus ib mem ram ok E" and "bare_env E" and "undisturbed (zz_regs c)" and "ok (zz_mem c)"
  shows "z_step E c \<noteq> None \<longleftrightarrow> (\<exists>a. z_byte mem c a \<notin> prefix_bytes)"
  by (rule z80_bus.step_returns [OF assms])

theorem z80_step_returns_witness:
  "z_step flat_z80_env (flat_z80 [(0, 0xDD)] z_new) \<noteq> None"
proof -
  have "z_byte fb_data (flat_z80 [(0, 0xDD)] z_new) 1 \<notin> prefix_bytes"
    by (subst flat_z80_byte) (simp_all add: ram64_def prefix_bytes_def)
  moreover have "undisturbed z_new" by (simp add: undisturbed_def z_new_def z_reset_def z80_init_def)
  ultimately show ?thesis
    using z80_step_returns [OF flat_z80.z80_bus_axioms, of "flat_z80 [(0, 0xDD)] z_new"] by auto
qed

text \<open>
  Interrupts: an NMI goes to 0066, an INT to 0038 in modes 0 and 1 and through the table at I and FF
  in mode 2; interrupts are then disabled, IFF2 keeps the old enable over an NMI, and the RETN or RETI of the
  handler comes back to the interrupted instruction with the stack pointer as it was and IFF1 the kept enable.
\<close>

theorem z80_interrupt_returns:
  fixes y :: nat
  assumes "z80_bus ib mem ram ok E" and "ok (zz_mem c)"
  defines "h \<equiv> final (z_interrupt E) c" and "s \<equiv> zz_regs c"
  defines "r \<equiv> final (ed_x1 E y 5) h" and "m \<equiv> (z_byte mem c)(z_sp s - 2 := lo8 (z_pc s), z_sp s - 1 := hi8 (z_pc s))"
  shows "z_pc (zz_regs h) = (if z_nmiPending s then 0x0066 else if z_im s = 2
      then mk16 (m (mk16 0xFF (z_i s))) (m (mk16 0xFF (z_i s) + 1)) else 0x0038) \<and>
    \<not> z_iff1 (zz_regs h) \<and> (z_iff2 (zz_regs h) \<longleftrightarrow> z_nmiPending s \<and> z_iff2 s) \<and>
    z_pc (zz_regs r) = z_pc s \<and> z_sp (zz_regs r) = z_sp s \<and> (z_iff1 (zz_regs r) \<longleftrightarrow> z_nmiPending s \<and> z_iff2 s)"
  using z80_bus.interrupt_ret [OF assms(1,2)] unfolding r_def h_def s_def m_def Let_def by blast

theorem z80_interrupt_returns_witness:
  "let c = flat_z80 [] (z_new\<lparr>z_pc := 0x1234, z_nmiPending := True, z_iff2 := True\<rparr>); h = final (z_interrupt flat_z80_env) c
   in z_pc (zz_regs h) = 0x0066 \<and> z_pc (zz_regs (final (ed_x1 flat_z80_env 0 5) h)) = 0x1234 \<and>
      z_iff1 (zz_regs (final (ed_x1 flat_z80_env 0 5) h))"
  using z80_interrupt_returns [OF flat_z80.z80_bus_axioms,
      of "flat_z80 [] (z_new\<lparr>z_pc := 0x1234, z_nmiPending := True, z_iff2 := True\<rparr>)" 0]
  by (simp add: Let_def)

section \<open>Saving and loading\<close>

text \<open>
  Loading a saved Z80 state restores every register, the interrupt flip-flops, the halt, the delay after
  EI and the lines, whatever the processor was before, and leaves only the NMI line, the decoder's scratch
  and the cycle counter of the target as they were.
\<close>

theorem z80_save_load:
  "z_loadState (z_saveState s @ rest) t =
     s\<lparr>z_nmiLine := z_nmiLine t, z_q := z_q t, z_prefix := z_prefix t, z_dispAddr := z_dispAddr t,
       z_dispFetched := z_dispFetched t, z_cycles := z_cycles t\<rparr>"
proof -
  have f: "tst ((if a then 1 else 0) OR (if b then 2 else 0) OR (if c then 4 else 0) OR (if d then 8 else 0) OR
      (if e then 16 else 0) OR (if g then 32 else 0) :: u8) m =
      (m = 1 \<and> a \<or> m = 2 \<and> b \<or> m = 4 \<and> c \<or> m = 8 \<and> d \<or> m = 16 \<and> e \<or> m = 32 \<and> g)"
    if "m \<in> {1, 2, 4, 8, 16, 32}" for a b c d e g m
    using that by (elim insertE emptyE; cases a; cases b; cases c; cases d; cases e; cases g) (simp_all add: tst_def)
  show ?thesis
    by (cases s; cases t)
      (simp add: z_loadState_def z_saveState_def word_bytes_def Let_def set_af_def set_bc_def set_de_def set_hl_def
        z_af_def z_bc_def z_de_def z_hl_def f nth_append)
qed

text \<open>The NMI line is not part of the saved state: an asserted line asserted again is a new edge for a restored processor.\<close>

lemma z80_nmi_again:
  assumes "z_nmiLine s" and "\<not> z_nmiPending s"
  shows "\<not> z_nmiPending (z_setNmiLine True s)" "z_nmiPending (z_setNmiLine True (z_loadState (z_saveState s @ rest) z_new))"
  using assms by (simp_all add: z80_save_load z_setNmiLine_def z_new_def z_reset_def z80_init_def)

end
