(* ===== verification/Disk2Image.thy ===== *)
theory Disk2Image
  imports Interfaces
begin

text \<open>
  Apple II disk images (\<open>Disk2Image\<close> of \<open>plugins/machines/apple2/main/disk2.h\<close> and \<open>disk2.cpp\<close>): opening an
  image from its bytes, the 6-and-2 and 4-and-4 codes of the disk, and whole tracks as nibbles and back.
  The host's files are parameters: \<open>openImage\<close> takes the bytes of the file, if it opens, and whether
  it may be written.
\<close>

section \<open>Tables\<close>

definition DISK_BYTE :: "u8 list" where
  "DISK_BYTE =
    [0x96, 0x97, 0x9A, 0x9B, 0x9D, 0x9E, 0x9F, 0xA6, 0xA7, 0xAB, 0xAC, 0xAD, 0xAE, 0xAF, 0xB2, 0xB3,
     0xB4, 0xB5, 0xB6, 0xB7, 0xB9, 0xBA, 0xBB, 0xBC, 0xBD, 0xBE, 0xBF, 0xCB, 0xCD, 0xCE, 0xCF, 0xD3,
     0xD6, 0xD7, 0xD9, 0xDA, 0xDB, 0xDC, 0xDD, 0xDE, 0xDF, 0xE5, 0xE6, 0xE7, 0xE9, 0xEA, 0xEB, 0xEC,
     0xED, 0xEE, 0xEF, 0xF2, 0xF3, 0xF4, 0xF5, 0xF6, 0xF7, 0xF9, 0xFA, 0xFB, 0xFC, 0xFD, 0xFE, 0xFF]"

datatype disk_order = ProDOS | DOS | Nib

definition SECTOR_NUMBER :: "disk_order \<Rightarrow> nat list" where
  "SECTOR_NUMBER ord =
     (if ord = ProDOS then [0x00, 0x08, 0x01, 0x09, 0x02, 0x0A, 0x03, 0x0B, 0x04, 0x0C, 0x05, 0x0D, 0x06, 0x0E, 0x07, 0x0F]
      else [0x00, 0x07, 0x0E, 0x06, 0x0D, 0x05, 0x0C, 0x04, 0x0B, 0x03, 0x0A, 0x02, 0x09, 0x01, 0x08, 0x0F])"

definition VOLUME :: u8 where "VOLUME = 254"
definition TRACKS_STANDARD :: nat where "TRACKS_STANDARD = 35"
definition TRACKS_MAX :: nat where "TRACKS_MAX = 40"
definition TRACK_BYTES :: nat where "TRACK_BYTES = 4096"
definition NIB_TRACK :: nat where "NIB_TRACK = 0x1A00"

record disk2_image =
  di_data :: "u8 list"
  di_order :: disk_order
  di_tracks :: int
  di_protect :: bool

section \<open>Opening an image\<close>

definition to_lower :: "char \<Rightarrow> char" where
  "to_lower c = (if 65 \<le> (of_char c :: nat) \<and> (of_char c :: nat) \<le> 90 then char_of ((of_char c :: nat) + 32) else c)"

definition lowerExt :: "string \<Rightarrow> string" where
  "lowerExt path = (if CHR ''.'' \<in> set path
     then map to_lower (CHR ''.'' # rev (takeWhile (\<lambda>c. c \<noteq> CHR ''.'') (rev path))) else [])"

definition validDskSize :: "nat \<Rightarrow> bool" where
  "validDskSize n =
     (if n > TRACKS_MAX * TRACK_BYTES then False
      else if n \<ge> (TRACKS_STANDARD + 1) * TRACK_BYTES then (n - TRACKS_STANDARD * TRACK_BYTES) mod TRACK_BYTES = 0
      else (n \<ge> 143105 \<and> n \<le> 143364) \<or> n = 143403 \<or> n = 143488)"

definition img_word :: "u8 list \<Rightarrow> nat \<Rightarrow> nat" where
  "img_word d at = unat (mk16 (d ! at) (d ! (at + 1)))"

definition looksDosOrder :: "u8 list \<Rightarrow> bool" where
  "looksDosOrder d \<longleftrightarrow>
     list_all (\<lambda>i. unat (d ! (0x11002 + i * 256)) = i - 1) [1..<16] \<or>
     list_all (\<lambda>i. img_word d (i * 512 + 0x100) = (if i = 5 then 0 else 6 - i) \<and>
       img_word d (i * 512 + 0x102) = (if i = 2 then 0 else 8 - i)) [2..<6]"

definition looksProDosOrder :: "u8 list \<Rightarrow> bool" where
  "looksProDosOrder d \<longleftrightarrow>
     list_all (\<lambda>i. unat (d ! (0x11002 + i * 256)) = 14 - i) [5..<14] \<or>
     list_all (\<lambda>i. img_word d (i * 512) = (if i = 2 then 0 else i - 1) \<and>
       img_word d (i * 512 + 2) = (if i = 5 then 0 else i + 1)) [2..<6]"

definition fromBytes :: "u8 list \<Rightarrow> string \<Rightarrow> string + disk2_image" where
  "fromBytes bs ext =
     (let e = lowerExt (CHR ''x'' # ext); n = length bs
      in if e = ''.nib'' then
           (if bs = [] \<or> n mod NIB_TRACK \<noteq> 0 \<or> n div NIB_TRACK > TRACKS_MAX
            then Inl ''not a .nib image (35 tracks of 6656 nibbles)''
            else Inr \<lparr>di_data = bs, di_order = Nib, di_tracks = int (n div NIB_TRACK), di_protect = False\<rparr>)
         else if \<not> validDskSize n then Inl ''not a 140 KB 5.25\" disk image''
         else Inr \<lparr>di_data = bs,
           di_order = (if e = ''.po'' then ProDOS else if e = ''.do'' then DOS
             else if looksDosOrder bs then DOS else if looksProDosOrder bs then ProDOS else DOS),
           di_tracks = int (n div TRACK_BYTES), di_protect = False\<rparr>)"

text \<open>
  \<open>open\<close>: \<open>file\<close> is what the host holds at the path, with the answer of \<open>access(path, W_OK)\<close>; an
  image that cannot be written is write protected.
\<close>

definition openImage :: "(u8 list \<times> bool) option \<Rightarrow> string \<Rightarrow> string + disk2_image" where
  "openImage file path = (case file of
     None \<Rightarrow> Inl (''can't open '' @ path)
   | Some (bs, writable) \<Rightarrow> map_sum id (\<lambda>img. img\<lparr>di_protect := \<not> writable\<rparr>) (fromBytes bs (lowerExt path)))"

section \<open>The 6-and-2 code\<close>

definition add_low :: "u8 \<Rightarrow> u8 \<Rightarrow> u8" where
  "add_low v a = push_bit 2 v OR push_bit 1 (a AND 0x01) OR drop_bit 1 (a AND 0x02)"

lemma offset_step: "offset - 0x56 - 0x56 - 0x53 = offset + (1 :: u8)"
  by simp

lemma u8_pred: "unat (d - 1) < unat d" if "(d :: u8) \<noteq> 0"
proof -
  have "unat (d - 1) = unat d - 1" "0 < unat d" using that by (simp_all add: unat_minus_one unat_gt_0)
  then show ?thesis by linarith
qed

text \<open>The loop over \<open>offset\<close>: three bytes give their low bits to each value.\<close>

function low_loop :: "u8 list \<Rightarrow> u8 \<Rightarrow> u8 list" where
  "low_loop sector offset =
     (if offset = 0x02 then []
      else let v = add_low 0 (sector ! unat offset); offset = offset - 0x56;
               v = add_low v (sector ! unat offset); offset = offset - 0x56;
               v = add_low v (sector ! unat offset); offset = offset - 0x53
           in push_bit 2 v # low_loop sector offset)"
  by auto

termination
proof (relation "measure (\<lambda>(sector, offset). unat (0x02 - offset))")
  fix sector :: "u8 list" and offset v1 o1 v2 o2 v3 o3 :: u8
  assume a: "offset \<noteq> 0x02" "o1 = offset - 0x56" "o2 = o1 - 0x56" "o3 = o2 - 0x53"
  define d where "d = 0x02 - offset"
  have "0x02 - o3 = d - 1" "d \<noteq> 0" using a by (simp_all add: d_def)
  then have "unat (0x02 - o3) < unat d" using u8_pred by metis
  then show "((sector, o3), (sector, offset)) \<in> measure (\<lambda>(sector, offset). unat (0x02 - offset))"
    by (simp add: d_def)
qed simp

declare low_loop.simps [simp del]

text \<open>Each value XORed with the one before it, and the last.\<close>

fun xor_chain :: "u8 \<Rightarrow> u8 list \<Rightarrow> u8 list" where
  "xor_chain saved [] = [saved]"
| "xor_chain saved (x # xs) = (saved XOR x) # xor_chain x xs"

definition six_values :: "u8 list \<Rightarrow> u8 list" where
  "six_values sector =
     (let low = low_loop sector 0xAC; n = length low;
          low = low[n - 2 := (low ! (n - 2)) AND 0x3F]; low = low[n - 1 := (low ! (n - 1)) AND 0x3F]
      in low @ take 0x100 sector)"

definition nibblizeSector :: "u8 list \<Rightarrow> u8 list" where
  "nibblizeSector sector = map (\<lambda>c. DISK_BYTE ! unat (drop_bit 2 c)) (xor_chain 0 (six_values sector))"

text \<open>The inverse table, made by one pass over the codes.\<close>

definition sixBit :: "u8 list" where
  "sixBit = fold (\<lambda>i t. t[unat (DISK_BYTE ! i - 0x80) := push_bit 2 (of_nat i)]) [0..<0x40] (replicate 0x80 0)"

fun xor_unchain :: "u8 \<Rightarrow> u8 list \<Rightarrow> u8 list" where
  "xor_unchain saved [] = []"
| "xor_unchain saved (x # xs) = (saved XOR x) # xor_unchain (saved XOR x) xs"

definition put_low :: "u8 list \<Rightarrow> u8 \<Rightarrow> u8 \<Rightarrow> u8" where
  "put_low high offset bits = ((high ! unat offset) AND 0xFC) OR bits"

function join_loop :: "u8 list \<Rightarrow> u8 list \<Rightarrow> u8 \<Rightarrow> u8 list \<Rightarrow> u8 list" where
  "join_loop low high offset sector =
     (if offset = 0x02 then sector
      else let l = hd low;
             s = (if offset \<ge> 0xAC
                  then sector[unat offset := put_low high offset (drop_bit 7 (l AND 0x80) OR drop_bit 5 (l AND 0x40))] else sector);
             offset = offset - 0x56;
             s = s[unat offset := put_low high offset (drop_bit 5 (l AND 0x20) OR drop_bit 3 (l AND 0x10))];
             offset = offset - 0x56;
             s = s[unat offset := put_low high offset (drop_bit 3 (l AND 0x08) OR drop_bit 1 (l AND 0x04))];
             offset = offset - 0x53
           in join_loop (tl low) high offset s)"
  by auto

termination
proof (relation "measure (\<lambda>(low, high, offset, sector). unat (0x02 - offset))")
  fix low high sector s1 s2 s3 :: "u8 list" and offset l o1 o2 o3 :: u8
  assume a: "offset \<noteq> 0x02" "o1 = offset - 0x56" "o2 = o1 - 0x56" "o3 = o2 - 0x53"
  define d where "d = 0x02 - offset"
  have "0x02 - o3 = d - 1" "d \<noteq> 0" using a by (simp_all add: d_def)
  then have "unat (0x02 - o3) < unat d" using u8_pred by metis
  then show "((tl low, high, o3, s3), (low, high, offset, sector)) \<in> measure (\<lambda>(low, high, offset, sector). unat (0x02 - offset))"
    by (simp add: d_def)
qed simp

declare join_loop.simps [simp del]

definition denibblizeSector :: "u8 list \<Rightarrow> u8 list \<Rightarrow> u8 list" where
  "denibblizeSector inp sector =
     (let buf = xor_unchain 0 (take 342 (map (\<lambda>b. sixBit ! unat (b AND 0x7F)) (take 343 inp)))
      in join_loop buf (drop 0x56 buf) 0xAC sector)"

section \<open>Tracks\<close>

definition a44 :: "u8 \<Rightarrow> u8" where "a44 v = (drop_bit 1 v AND 0x55) OR 0xAA"
definition b44 :: "u8 \<Rightarrow> u8" where "b44 v = (v AND 0x55) OR 0xAA"

definition address_field :: "u8 \<Rightarrow> u8 \<Rightarrow> u8 list" where
  "address_field t sec = (let chk = VOLUME XOR t XOR sec
     in [0xD5, 0xAA, 0x96, a44 VOLUME, b44 VOLUME, a44 t, b44 t, a44 sec, b44 sec, a44 chk, b44 chk, 0xDE, 0xAA, 0xEB])"

definition image_sector :: "disk_order \<Rightarrow> u8 list \<Rightarrow> nat \<Rightarrow> u8 list" where
  "image_sector ord trackData s = take 256 (drop (256 * SECTOR_NUMBER ord ! s) trackData)"

definition sector_nibbles :: "disk_order \<Rightarrow> u8 \<Rightarrow> u8 list \<Rightarrow> nat \<Rightarrow> u8 list" where
  "sector_nibbles ord t trackData s =
     address_field t (of_nat s) @ replicate 6 0xFF @ [0xD5, 0xAA, 0xAD] @
     nibblizeSector (image_sector ord trackData s) @ [0xDE, 0xAA, 0xEB] @ replicate 27 0xFF"

definition nibblize :: "disk_order \<Rightarrow> u8 \<Rightarrow> u8 list \<Rightarrow> u8 list" where
  "nibblize ord t trackData = replicate 48 0xFF @ concat (map (sector_nibbles ord t trackData) [0..<16])"

definition wrap :: "u8 list \<Rightarrow> nat \<Rightarrow> nat" where
  "wrap tr o1 = (if o1 \<ge> length tr then 0 else o1)"

text \<open>The search for a mark: \<open>num\<close> bytes of it seen, the second and third kept.\<close>

fun mark_loop :: "u8 list \<Rightarrow> nat \<Rightarrow> nat \<Rightarrow> nat \<times> u8 \<times> u8 \<Rightarrow> nat \<times> nat \<times> u8 \<times> u8" where
  "mark_loop tr 0 off v = (off, v)"
| "mark_loop tr (Suc n) off (num, v1, v2) =
     (if num \<ge> 3 then (off, num, v1, v2)
      else mark_loop tr n (wrap tr (off + 1))
        (if num = 1 then (2, tr ! off, v2) else if num = 2 then (3, v1, tr ! off)
         else if tr ! off = 0xD5 then (1, v1, v2) else (num, v1, v2)))"

fun gather :: "u8 list \<Rightarrow> nat \<Rightarrow> nat \<Rightarrow> u8 list" where
  "gather tr 0 temp = []"
| "gather tr (Suc n) temp = tr ! temp # gather tr n (wrap tr (temp + 1))"

definition put_block :: "nat \<Rightarrow> u8 list \<Rightarrow> u8 list \<Rightarrow> u8 list" where
  "put_block b block out = take (256 * b) out @ block @ drop (256 * b + 256) out"

definition found_mark :: "disk_order \<Rightarrow> u8 list \<Rightarrow> u8 \<Rightarrow> int \<times> u8 list \<Rightarrow> int \<times> u8 list" where
  "found_mark ord work kind so = (case so of (sector, out) \<Rightarrow>
     if kind = 0x96 then (uint ((push_bit 1 (work ! 4 AND 0x55) :: u8) OR (work ! 5 AND 0x55)), out)
     else if kind = 0xAD then
       (0, if 0 \<le> sector \<and> sector < 16
           then (let b = SECTOR_NUMBER ord ! nat sector
                 in put_block b (denibblizeSector work (take 256 (drop (256 * b) out))) out)
           else out)
     else (sector, out))"

fun part_loop :: "disk_order \<Rightarrow> u8 list \<Rightarrow> nat \<Rightarrow> nat \<Rightarrow> int \<times> u8 list \<Rightarrow> int \<times> u8 list" where
  "part_loop ord tr 0 off so = so"
| "part_loop ord tr (Suc n) off so =
     (case mark_loop tr (length tr) off (0, 0, 0) of (off, num, v1, v2) \<Rightarrow>
        part_loop ord tr n off
          (if num = 3 \<and> v1 = 0xAA then found_mark ord (gather tr 384 off) v2 so else so))"

definition denibblize :: "disk_order \<Rightarrow> u8 list \<Rightarrow> u8 list" where
  "denibblize ord tr = snd (part_loop ord tr (16 * 2 + 1) 0 (-1, replicate TRACK_BYTES 0))"

definition track_data :: "nat \<Rightarrow> int \<Rightarrow> u8 list \<Rightarrow> u8 list" where
  "track_data len track d = take len (drop (nat track * len) d)"

text \<open>The nibbles of a track, or \<open>None\<close> where the code returns 0 and leaves the buffer alone.\<close>

definition readTrack :: "int \<Rightarrow> bool \<Rightarrow> disk2_image \<Rightarrow> u8 list option" where
  "readTrack track skew img =
     (if track < 0 \<or> track \<ge> di_tracks img then None
      else if di_order img = Nib then Some (track_data NIB_TRACK track (di_data img))
      else let out = nibblize (di_order img) (of_int track) (track_data TRACK_BYTES track (di_data img))
           in Some (if skew then rotate ((nat track * 768) mod length out) out else out))"

definition put_track :: "nat \<Rightarrow> u8 list \<Rightarrow> u8 list \<Rightarrow> u8 list" where
  "put_track at bs d = take at d @ bs @ drop (at + length bs) d"

definition writeTrack :: "int \<Rightarrow> u8 list \<Rightarrow> disk2_image \<Rightarrow> disk2_image" where
  "writeTrack track nibbles img =
     (if track < 0 \<or> track \<ge> di_tracks img \<or> di_protect img then img
      else if di_order img = Nib
        then img\<lparr>di_data := put_track (nat track * NIB_TRACK) (take NIB_TRACK nibbles) (di_data img)\<rparr>
        else img\<lparr>di_data := put_track (nat track * TRACK_BYTES) (denibblize (di_order img) nibbles) (di_data img)\<rparr>)"


section \<open>A sector and back\<close>

definition off_at :: "nat \<Rightarrow> u8" where
  "off_at j = 0xAC + of_nat j"

lemma u8_offsets:
  assumes "j < 86"
  shows "unat (off_at j) = (172 + j) mod 256" "unat (off_at j - 0x56) = 86 + j"
    "unat (off_at j - 0x56 - 0x56) = j" "off_at j \<noteq> 0x02" "(0xAC \<le> off_at j) = (j < 84)"
    "off_at j - 0x56 - 0x56 - 0x53 = off_at (Suc j)"
proof -
  show a: "unat (off_at j) = (172 + j) mod 256"
    using assms by (simp add: off_at_def unat_word_ariths unsigned_of_nat take_bit_nat_eq_self mod_simps)
  have e: "off_at j - 0x56 = 0x56 + of_nat j" "off_at j - 0x56 - 0x56 = of_nat j" by (simp_all add: off_at_def)
  show "unat (off_at j - 0x56) = 86 + j" "unat (off_at j - 0x56 - 0x56) = j"
    unfolding e using assms by (simp_all add: unat_word_ariths unsigned_of_nat take_bit_nat_eq_self mod_simps)
  have m: "(172 + j) mod 256 = (if j < 84 then 172 + j else j - 84)"
    using assms by (auto simp: mod_if)
  show "off_at j \<noteq> 0x02" "(0xAC \<le> off_at j) = (j < 84)"
    using a m assms by (auto simp: word_unat_eq_iff word_le_nat_alt split: if_splits)
  show "off_at j - 0x56 - 0x56 - 0x53 = off_at (Suc j)" by (simp add: off_at_def)
qed

lemma off_at_ends: "off_at 0 = 0xAC" "off_at 86 = 0x02"
  by (simp_all add: off_at_def)

definition low_of :: "u8 list \<Rightarrow> nat \<Rightarrow> u8" where
  "low_of s j = push_bit 2 (add_low (add_low (add_low 0 (s ! ((172 + j) mod 256))) (s ! (86 + j))) (s ! j))"

lemma low_loop_from: "j \<le> 86 \<Longrightarrow> low_loop s (off_at j) = map (low_of s) [j..<86]"
proof (induction "86 - j" arbitrary: j)
  case 0
  then have "j = 86" by simp
  then show ?case by (subst low_loop.simps) (simp add: off_at_ends)
next
  case (Suc k)
  then have j: "j < 86" by simp
  have IH: "low_loop s (off_at (Suc j)) = map (low_of s) [Suc j..<86]" using Suc by simp
  show ?case
    by (subst low_loop.simps, subst if_not_P [OF u8_offsets(4) [OF j]])
      (simp only: Let_def IH u8_offsets [OF j] low_of_def [symmetric] upt_conv_Cons [OF j] list.map)
qed

lemma mod86: "i < 256 \<Longrightarrow> i mod 86 = (if i < 86 then i else if i < 172 then i - 86 else i - (172 :: nat))"
proof -
  assume i: "i < 256"
  consider "i < 86" | "86 \<le> i" "i < 172" | "172 \<le> i" by linarith
  then show ?thesis
  proof cases
    case 3
    then have "i mod 86 = (i - 86 - 86) mod 86" by (simp add: le_mod_geq)
    then show ?thesis using 3 i by simp
  qed (simp_all add: le_mod_geq)
qed

lemma join_loop_from:
  "j \<le> 86 \<Longrightarrow> length low = 86 - j \<Longrightarrow> length sec = 256 \<Longrightarrow>
    length (join_loop low high (off_at j) sec) = 256 \<and>
    (\<forall>i<256. join_loop low high (off_at j) sec ! i =
      (if i mod 86 < j then sec ! i
       else let l = low ! (i mod 86 - j)
         in (high ! i AND 0xFC) OR
           (if i < 86 then drop_bit 3 (l AND 0x08) OR drop_bit 1 (l AND 0x04)
            else if i < 172 then drop_bit 5 (l AND 0x20) OR drop_bit 3 (l AND 0x10)
            else drop_bit 7 (l AND 0x80) OR drop_bit 5 (l AND 0x40))))"
proof (induction "86 - j" arbitrary: j low sec)
  case 0
  then have "i mod 86 < j" for i by simp
  moreover have "j = 86" using 0 by simp
  ultimately show ?case using 0 by (subst (1 2) join_loop.simps) (simp add: off_at_ends)
next
  case (Suc k)
  then have j: "j < 86" by simp
  obtain l ls where low: "low = l # ls" using Suc by (cases low) auto
  define s1 where "s1 = (if j < 84 then sec[172 + j := (high ! (172 + j) AND 0xFC) OR
      (drop_bit 7 (l AND 0x80) OR drop_bit 5 (l AND 0x40))] else sec)"
  define s2 where "s2 = s1[86 + j := (high ! (86 + j) AND 0xFC) OR (drop_bit 5 (l AND 0x20) OR drop_bit 3 (l AND 0x10))]"
  define s3 where "s3 = s2[j := (high ! j AND 0xFC) OR (drop_bit 3 (l AND 0x08) OR drop_bit 1 (l AND 0x04))]"
  have m: "j < 84 \<Longrightarrow> (172 + j) mod 256 = 172 + j" by simp
  have step: "join_loop low high (off_at j) sec = join_loop ls high (off_at (Suc j)) s3"
    by (subst join_loop.simps, subst if_not_P [OF u8_offsets(4) [OF j]])
      (simp only: Let_def u8_offsets [OF j] put_low_def low list.sel s1_def s2_def s3_def m cong: if_cong)
  have len: "length s3 = 256" using Suc by (simp add: s3_def s2_def s1_def)
  have IH: "length (join_loop ls high (off_at (Suc j)) s3) = 256 \<and>
    (\<forall>i<256. join_loop ls high (off_at (Suc j)) s3 ! i =
      (if i mod 86 < Suc j then s3 ! i
       else let l = ls ! (i mod 86 - Suc j)
         in (high ! i AND 0xFC) OR
           (if i < 86 then drop_bit 3 (l AND 0x08) OR drop_bit 1 (l AND 0x04)
            else if i < 172 then drop_bit 5 (l AND 0x20) OR drop_bit 3 (l AND 0x10)
            else drop_bit 7 (l AND 0x80) OR drop_bit 5 (l AND 0x40))))"
    using Suc len by (intro Suc.hyps(1)) (auto simp: low)
  have at: "i mod 86 = j \<longleftrightarrow> i = j \<or> i = 86 + j \<or> i = 172 + j" if "i < 256" for i
    using mod86 [OF that] j by (auto split: if_splits)
  have s3: "s3 ! i = (if i mod 86 = j then (high ! i AND 0xFC) OR
           (if i < 86 then drop_bit 3 (l AND 0x08) OR drop_bit 1 (l AND 0x04)
            else if i < 172 then drop_bit 5 (l AND 0x20) OR drop_bit 3 (l AND 0x10)
            else drop_bit 7 (l AND 0x80) OR drop_bit 5 (l AND 0x40)) else sec ! i)" if i: "i < 256" for i
    unfolding at [OF i] using j i Suc.prems(3) by (auto simp: s3_def s2_def s1_def nth_list_update)
  show ?case unfolding step
  proof (intro conjI allI impI)
    fix i :: nat assume i: "i < 256"
    consider "i mod 86 < j" | "i mod 86 = j" | "Suc j \<le> i mod 86" by linarith
    then show "join_loop ls high (off_at (Suc j)) s3 ! i = (if i mod 86 < j then sec ! i
       else let l = low ! (i mod 86 - j)
         in (high ! i AND 0xFC) OR
           (if i < 86 then drop_bit 3 (l AND 0x08) OR drop_bit 1 (l AND 0x04)
            else if i < 172 then drop_bit 5 (l AND 0x20) OR drop_bit 3 (l AND 0x10)
            else drop_bit 7 (l AND 0x80) OR drop_bit 5 (l AND 0x40)))"
    proof cases
      case 3
      then have "low ! (i mod 86 - j) = ls ! (i mod 86 - Suc j)" by (simp add: low Suc_diff_le nth_Cons')
      then show ?thesis using 3 IH i by (simp add: Let_def)
    qed (use IH i s3 [OF i] in \<open>simp_all add: Let_def low\<close>)
  qed (use IH in blast)
qed


lemma xor_unchain_chain:
  "xor_unchain (a AND m) (take (length xs) (map (\<lambda>c. c AND m) (xor_chain a xs))) = map (\<lambda>x. x AND m) xs"
proof (induction xs arbitrary: a)
  case (Cons x xs)
  have "(a AND m) XOR ((a XOR x) AND m) = x AND m"
    by (rule u8_eqI) (auto simp: bit_simps)
  then show ?case using Cons by simp
qed simp

lemma length_xor_chain: "length (xor_chain a xs) = Suc (length xs)"
  by (induction xs arbitrary: a) simp_all

lemma disk_bytes_invert: "n < 64 \<Longrightarrow> sixBit ! unat (DISK_BYTE ! n AND 0x7F) = push_bit 2 (of_nat n)"
proof -
  have "list_all (\<lambda>n. sixBit ! unat (DISK_BYTE ! n AND 0x7F) = push_bit 2 (of_nat n)) [0..<64]" by code_simp
  then show "n < 64 \<Longrightarrow> sixBit ! unat (DISK_BYTE ! n AND 0x7F) = push_bit 2 (of_nat n)"
    by (simp add: list_all_iff)
qed

lemma bit_FC: "bit (0xFC :: u8) n \<longleftrightarrow> 2 \<le> n \<and> n < 8"
proof -
  have m: "(0xFC :: u8) = NOT (mask 2)" by (simp add: mask_eq_exp_minus_1)
  show ?thesis unfolding m bit_not_iff bit_mask_iff by auto
qed

lemma unat_six: "unat (drop_bit 2 (c :: u8)) < 64"
proof -
  have "unat (drop_bit 2 c) = unat c div 4" unfolding unsigned_drop_bit_eq by (simp add: drop_bit_eq_div take_bit_nat_eq_self)
  moreover have "unat c < 256" by simp
  ultimately show ?thesis by linarith
qed

lemma six_bits_back: "sixBit ! unat (DISK_BYTE ! unat (drop_bit 2 c) AND 0x7F) = c AND 0xFC"
proof -
  note m = bit_FC
  have o: "of_nat (unat (drop_bit 2 c)) = drop_bit 2 c" by simp
  have "push_bit 2 (of_nat (unat (drop_bit 2 c)) :: u8) = c AND 0xFC"
  proof (rule u8_eqI)
    fix n :: nat assume "n < 8"
    moreover have "2 \<le> n \<Longrightarrow> 2 + (n - 2) = n" by simp
    ultimately show "bit (push_bit 2 (of_nat (unat (drop_bit 2 c)) :: u8)) n = bit (c AND 0xFC) n"
      unfolding bit_and_iff m bit_push_bit_iff o bit_drop_bit_eq o_def by auto
  qed
  then show ?thesis using disk_bytes_invert [OF unat_six] by simp
qed

lemma length_low: "length (low_loop s 0xAC) = 86"
  using low_loop_from [of 0 s] by (simp add: off_at_ends)

lemma length_six_values: "length s = 256 \<Longrightarrow> length (six_values s) = 342"
  by (simp add: six_values_def Let_def length_low)

lemma length_nibblizeSector: "length s = 256 \<Longrightarrow> length (nibblizeSector s) = 343"
  by (simp add: nibblizeSector_def length_xor_chain length_six_values)

text \<open>What the decoder sees of a value: everything but its two low bits.\<close>

lemma unchained_sector:
  assumes "length s = 256"
  shows "xor_unchain 0 (take 342 (map (\<lambda>b. sixBit ! unat (b AND 0x7F)) (take 343 (nibblizeSector s @ rest)))) =
    map (\<lambda>x. x AND 0xFC) (six_values s)"
proof -
  have l: "length (six_values s) = 342" by (rule length_six_values [OF assms])
  have "map (\<lambda>b. sixBit ! unat (b AND 0x7F)) (take 343 (nibblizeSector s @ rest)) =
      map (\<lambda>c. c AND 0xFC) (xor_chain 0 (six_values s))"
    by (simp add: length_nibblizeSector [OF assms]) (simp add: nibblizeSector_def six_bits_back)
  then show ?thesis using xor_unchain_chain [of 0 "0xFC" "six_values s"] l by simp
qed

lemma low_bits_back:
  fixes a b c :: u8
  defines "l \<equiv> push_bit 2 (add_low (add_low (add_low 0 a) b) c)"
  shows "(c AND 0xFC) OR (drop_bit 3 (l AND 0x08) OR drop_bit 1 (l AND 0x04)) = c"
    "(b AND 0xFC) OR (drop_bit 5 (l AND 0x20) OR drop_bit 3 (l AND 0x10)) = b"
    "(a AND 0xFC) OR (drop_bit 7 (l AND 0x80) OR drop_bit 5 (l AND 0x40)) = a"
    "l AND 0xFC = l"
proof -
  note m = bit_FC
  have one: "bit (1 :: u8) n \<longleftrightarrow> n = 0" for n by (rule bit_1_0)
  have r: "bit (add_low v x) n \<longleftrightarrow> (2 \<le> n \<and> n < 8 \<and> bit v (n - 2)) \<or> n = 1 \<and> bit x 0 \<or> n = 0 \<and> bit x 1" for v x n
    unfolding add_low_def bit_or_iff bit_push_bit_iff bit_drop_bit_eq bit_and_iff bit_mask8 one o_def
    by (auto dest: bit_imp_le_length)
  have l: "bit l n \<longleftrightarrow> n < 8 \<and> (n = 7 \<and> bit a 0 \<or> n = 6 \<and> bit a 1 \<or> n = 5 \<and> bit b 0 \<or> n = 4 \<and> bit b 1 \<or>
      n = 3 \<and> bit c 0 \<or> n = 2 \<and> bit c 1)" for n
  proof -
    have k: "2 \<le> n \<and> n < 8 \<and> n - 2 = j \<and> P \<longleftrightarrow> n = j + 2 \<and> j < 6 \<and> P" for n j :: nat and P by auto
    have r1: "bit (add_low 0 a) n \<longleftrightarrow> n = 1 \<and> bit a 0 \<or> n = 0 \<and> bit a 1" for n unfolding r by simp
    have r2: "bit (add_low (add_low 0 a) b) n \<longleftrightarrow> n = 3 \<and> bit a 0 \<or> n = 2 \<and> bit a 1 \<or> n = 1 \<and> bit b 0 \<or> n = 0 \<and> bit b 1" for n
      unfolding r [of "add_low 0 a"] r1 conj_disj_distribL k by (simp add: eval_nat_numeral numeral_2_eq_2)
    have r3: "bit (add_low (add_low (add_low 0 a) b) c) n \<longleftrightarrow> n = 5 \<and> bit a 0 \<or> n = 4 \<and> bit a 1 \<or> n = 3 \<and> bit b 0 \<or>
        n = 2 \<and> bit b 1 \<or> n = 1 \<and> bit c 0 \<or> n = 0 \<and> bit c 1" for n
      unfolding r [of "add_low (add_low 0 a) b"] r2 conj_disj_distribL k by (simp add: eval_nat_numeral numeral_2_eq_2)
    have "bit l n \<longleftrightarrow> 2 \<le> n \<and> n < 8 \<and> bit (add_low (add_low (add_low 0 a) b) c) (n - 2)"
      unfolding l_def bit_push_bit_iff by auto
    then show ?thesis unfolding r3 conj_disj_distribL k by (simp add: eval_nat_numeral numeral_2_eq_2) auto
  qed
  have d: "bit (drop_bit 3 (l AND 0x08)) n \<longleftrightarrow> n = 0 \<and> bit l 3" "bit (drop_bit 1 (l AND 0x04)) n \<longleftrightarrow> n = 1 \<and> bit l 2"
    "bit (drop_bit 5 (l AND 0x20)) n \<longleftrightarrow> n = 0 \<and> bit l 5" "bit (drop_bit 3 (l AND 0x10)) n \<longleftrightarrow> n = 1 \<and> bit l 4"
    "bit (drop_bit 7 (l AND 0x80)) n \<longleftrightarrow> n = 0 \<and> bit l 7" "bit (drop_bit 5 (l AND 0x40)) n \<longleftrightarrow> n = 1 \<and> bit l 6" for n
    unfolding bit_drop_bit_eq bit_and_iff bit_mask8 o_def by (auto simp: eval_nat_numeral)
  have e: "bit x n \<longleftrightarrow> 2 \<le> n \<and> n < 8 \<and> bit x n \<or> n = 0 \<and> bit x 0 \<or> n = 1 \<and> bit x 1" if "n < 8" for x :: u8 and n
    using that by (cases "n = 0"; cases "n = 1") auto
  show "(c AND 0xFC) OR (drop_bit 3 (l AND 0x08) OR drop_bit 1 (l AND 0x04)) = c"
    by (rule u8_eqI, subst (2) e, assumption) (simp only: bit_or_iff bit_and_iff d l m, auto)
  show "(b AND 0xFC) OR (drop_bit 5 (l AND 0x20) OR drop_bit 3 (l AND 0x10)) = b"
    by (rule u8_eqI, subst (2) e, assumption) (simp only: bit_or_iff bit_and_iff d l m, auto)
  show "(a AND 0xFC) OR (drop_bit 7 (l AND 0x80) OR drop_bit 5 (l AND 0x40)) = a"
    by (rule u8_eqI, subst (2) e, assumption) (simp only: bit_or_iff bit_and_iff d l m, auto)
  show "l AND 0xFC = l" by (rule u8_eqI) (auto simp: bit_and_iff m l)
qed


lemma six_values_nth:
  assumes "length s = 256"
  shows "j < 84 \<Longrightarrow> six_values s ! j = low_of s j" "84 \<le> j \<Longrightarrow> j < 86 \<Longrightarrow> six_values s ! j = low_of s j AND 0x3F"
    "i < 256 \<Longrightarrow> six_values s ! (86 + i) = s ! i"
proof -
  have l: "low_loop s 0xAC = map (low_of s) [0..<86]" using low_loop_from [of 0 s] by (simp add: off_at_ends)
  have j: "j = 84 \<or> j = 85" if "84 \<le> j" "j < 86" for j :: nat using that by linarith
  show "j < 84 \<Longrightarrow> six_values s ! j = low_of s j" "84 \<le> j \<Longrightarrow> j < 86 \<Longrightarrow> six_values s ! j = low_of s j AND 0x3F"
    "i < 256 \<Longrightarrow> six_values s ! (86 + i) = s ! i"
    using assms by (auto simp: six_values_def l Let_def nth_append nth_list_update dest!: j)
qed

lemma sector_back:
  assumes s: "length s = 256" and o: "length out = 256"
  shows "denibblizeSector (nibblizeSector s @ rest) out = s"
proof -
  let ?six = "map (\<lambda>x. x AND 0xFC) (six_values s)"
  have six: "length ?six = 342" by (simp add: length_six_values [OF s])
  have d: "denibblizeSector (nibblizeSector s @ rest) out = join_loop ?six (drop 0x56 ?six) 0xAC out"
    by (simp only: denibblizeSector_def unchained_sector [OF s] Let_def)
  have any: "join_loop ?six h 0xAC out = join_loop (take 86 ?six) h 0xAC out" for h
  proof -
    have "join_loop low h (off_at j) sec = join_loop (take (86 - j) low) h (off_at j) sec" if "j \<le> 86" for j low sec
      using that
    proof (induction "86 - j" arbitrary: j low sec)
      case 0
      then have "j = 86" by simp
      then show ?case by (subst (1 2) join_loop.simps) (simp add: off_at_ends)
    next
      case (Suc k)
      then have j: "j < 86" by simp
      then have t: "hd (take (86 - j) low) = hd low" "tl (take (86 - j) low) = take (86 - Suc j) (tl low)"
        by (cases low; simp add: take_Cons')+
      have IH: "join_loop (tl low) h (off_at (Suc j)) sec = join_loop (take (86 - Suc j) (tl low)) h (off_at (Suc j)) sec" for sec
        using Suc by (intro Suc.hyps(1)) auto
      show ?case
        by (subst (1 2) join_loop.simps, subst (1 2) if_not_P [OF u8_offsets(4) [OF j]])
          (simp only: Let_def u8_offsets(6) [OF j] t IH)
    qed
    from this [of 0 ?six out] show ?thesis by (simp only: off_at_ends minus_nat.diff_0)
  qed
  have J: "length (join_loop (take 86 ?six) (drop 0x56 ?six) (off_at 0) out) = 256 \<and>
    (\<forall>i<256. join_loop (take 86 ?six) (drop 0x56 ?six) (off_at 0) out ! i =
      (let l = take 86 ?six ! (i mod 86)
         in (drop 0x56 ?six ! i AND 0xFC) OR
           (if i < 86 then drop_bit 3 (l AND 0x08) OR drop_bit 1 (l AND 0x04)
            else if i < 172 then drop_bit 5 (l AND 0x20) OR drop_bit 3 (l AND 0x10)
            else drop_bit 7 (l AND 0x80) OR drop_bit 5 (l AND 0x40))))"
    using join_loop_from [of 0 "take 86 ?six" out "drop 0x56 ?six"] six o by simp
  have R: "denibblizeSector (nibblizeSector s @ rest) out = join_loop (take 86 ?six) (drop 0x56 ?six) (off_at 0) out"
    by (simp only: d any off_at_ends(1))
  show ?thesis unfolding R
  proof (rule nth_equalityI)
    fix i assume "i < length (join_loop (take 86 ?six) (drop 0x56 ?six) (off_at 0) out)"
    then have i: "i < 256" using J by simp
    define j where "j = i mod 86"
    have j: "j < 86" by (simp add: j_def)
    have h: "drop 0x56 ?six ! i = s ! i AND 0xFC"
      using i six six_values_nth(3) [OF s i] by (simp add: length_six_values [OF s])
    have l: "take 86 ?six ! j = six_values s ! j AND 0xFC" using j by (simp add: length_six_values [OF s])
    note L = low_bits_back [where a = "s ! ((172 + j) mod 256)" and b = "s ! (86 + j)" and c = "s ! j", folded low_of_def]
    have at: "i = (if i < 86 then j else if i < 172 then 86 + j else 172 + j)" using mod86 [OF i] by (simp add: j_def)
    have hi: "172 \<le> i \<Longrightarrow> j < 84" using at i by simp
    have eq: "(six_values s ! j AND 0xFC) AND m = low_of s j AND m"
      if "j < 84 \<and> m \<in> {0x80, 0x40} \<or> m \<in> {0x08, 0x04, 0x20, 0x10}" for m
    proof (cases "j < 84")
      case True
      then show ?thesis using that six_values_nth(1) [OF s] by (auto simp: and.assoc)
    next
      case False
      then show ?thesis using that j six_values_nth(2) [OF s, of j] by (auto simp: and.assoc)
    qed
    have "join_loop (take 86 ?six) (drop 0x56 ?six) (off_at 0) out ! i =
      (let l = six_values s ! j AND 0xFC
         in (s ! i AND 0xFC) OR
           (if i < 86 then drop_bit 3 (l AND 0x08) OR drop_bit 1 (l AND 0x04)
            else if i < 172 then drop_bit 5 (l AND 0x20) OR drop_bit 3 (l AND 0x10)
            else drop_bit 7 (l AND 0x80) OR drop_bit 5 (l AND 0x40)))"
      unfolding J [THEN conjunct2, rule_format, OF i] j_def [symmetric] l h Let_def by (simp only: and.assoc and.idem)
    also have "\<dots> = s ! i"
    proof -
      consider "i < 86" | "86 \<le> i" "i < 172" | "172 \<le> i" by linarith
      then show ?thesis
      proof cases
        case 1
        then show ?thesis using at L(1) by (simp only: Let_def if_True eq insertI1 insertI2 simp_thms)
      next
        case 2
        then show ?thesis using at L(2) by (simp only: Let_def if_True if_False not_less [symmetric] eq insertI1 insertI2 simp_thms)
      next
        case 3
        then have "(172 + j) mod 256 = i" "j < 84" using at hi i by simp_all
        then show ?thesis using 3 L(3) by (simp only: Let_def six_values_nth(1) [OF s] L(4) if_False not_less [symmetric]) simp
      qed
    qed
    finally show "join_loop (take 86 ?six) (drop 0x56 ?six) (off_at 0) out ! i = s ! i" .
  qed (use J s in simp)
qed


section \<open>The search for marks\<close>

lemma wrap_mod: "length tr = n \<Longrightarrow> 0 < n \<Longrightarrow> wrap tr (Suc (x mod n)) = Suc x mod n"
proof -
  assume "length tr = n" "0 < n"
  moreover define y where "y = x mod n"
  moreover have "y < n" using \<open>0 < n\<close> by (simp add: y_def)
  ultimately show ?thesis unfolding wrap_def mod_Suc y_def [symmetric] by auto
qed

lemma gather_nth:
  "length tr = n \<Longrightarrow> 0 < n \<Longrightarrow> gather tr m (x mod n) = map (\<lambda>i. tr ! ((x + i) mod n)) [0..<m]"
proof (induction m arbitrary: x)
  case (Suc m)
  have "[0..<Suc m] = 0 # map Suc [0..<m]" by (simp add: upt_conv_Cons map_Suc_upt del: upt_Suc)
  then show ?case using Suc.IH [of "Suc x"] Suc.prems by (simp add: wrap_mod comp_def del: upt_Suc)
qed simp

lemma mark_loop_skip:
  "length tr = n \<Longrightarrow> 0 < n \<Longrightarrow> (\<And>i. i < d \<Longrightarrow> tr ! ((x + i) mod n) \<noteq> 0xD5) \<Longrightarrow>
    mark_loop tr (d + m) (x mod n) (0, v) = mark_loop tr m ((x + d) mod n) (0, v)"
proof (induction d arbitrary: x)
  case (Suc d)
  have "tr ! (x mod n) \<noteq> 0xD5" using Suc.prems(3) [of 0] by simp
  moreover have "tr ! ((Suc x + i) mod n) \<noteq> 0xD5" if "i < d" for i using Suc.prems(3) [of "Suc i"] that by simp
  moreover obtain v1 v2 where "v = (v1, v2)" by (cases v)
  ultimately show ?case using Suc.IH [of "Suc x"] Suc.prems(1,2) by (simp add: wrap_mod)
qed simp

lemma mark_loop_find:
  assumes "length tr = n" and "0 < n" and "d + 3 \<le> n" and "\<And>i. i < d \<Longrightarrow> tr ! ((x + i) mod n) \<noteq> 0xD5"
    and "tr ! ((x + d) mod n) = 0xD5"
  shows "mark_loop tr n (x mod n) (0, 0, 0) =
    ((x + d + 3) mod n, 3, tr ! ((x + d + 1) mod n), tr ! ((x + d + 2) mod n))"
proof -
  obtain r where "n = d + 3 + r" using assms(3) le_iff_add by blast
  then have r: "n = d + Suc (Suc (Suc r))" by simp
  have s: "mark_loop tr n (x mod n) (0, 0, 0) = mark_loop tr (Suc (Suc (Suc r))) ((x + d) mod n) (0, 0, 0)"
    using mark_loop_skip [OF assms(1,2,4), where m = "Suc (Suc (Suc r))" and v = "(0, 0)"] r by simp
  have stop: "mark_loop tr r off (3, v) = (off, 3, v)" for off v by (cases r; cases v) simp_all
  show ?thesis unfolding s using assms(5) wrap_mod [OF assms(1,2)] stop
    by (simp add: numeral_3_eq_3 numeral_2_eq_2)
qed

section \<open>What a track holds\<close>

lemma nth_concat_blocks:
  assumes "\<And>i. i < k \<Longrightarrow> length (f i) = c"
  shows "i < k \<Longrightarrow> j < c \<Longrightarrow> concat (map f [0..<k]) ! (c * i + j) = f i ! j" "length (concat (map f [0..<k])) = c * k"
proof -
  show len: "length (concat (map f [0..<k])) = c * k"
    using assms by (induction k) (simp_all add: length_concat)
  show "i < k \<Longrightarrow> j < c \<Longrightarrow> concat (map f [0..<k]) ! (c * i + j) = f i ! j"
    using assms
  proof (induction k)
    case (Suc k)
    have len: "length (concat (map f [0..<k])) = c * k"
      using Suc.prems(3) by (induction k) (simp_all add: length_concat)
    show ?case
    proof (cases "i = k")
      case False
      then have "i < k" using Suc.prems(1) by simp
      then have "c * i + j < c * k" using Suc.prems(2) by (metis Suc_leI add_less_cancel_left le_less_trans less_le_trans mult_Suc_right mult_le_mono2 add.commute)
      then show ?thesis using Suc \<open>i < k\<close> by (simp add: nth_append len)
    qed (use len Suc.prems in \<open>simp add: nth_append\<close>)
  qed simp
qed


lemma sector_number_lt: "s < 16 \<Longrightarrow> SECTOR_NUMBER ord ! s < 16"
proof -
  have "list_all (\<lambda>n. n < 16) (SECTOR_NUMBER ord)" "length (SECTOR_NUMBER ord) = 16" by (simp_all add: SECTOR_NUMBER_def)
  then show "s < 16 \<Longrightarrow> SECTOR_NUMBER ord ! s < 16" by (simp add: list_all_length)
qed

lemma sector_number_onto: "b < 16 \<Longrightarrow> \<exists>s<16. SECTOR_NUMBER ord ! s = b"
proof -
  have "list_all (\<lambda>b. b \<in> set (SECTOR_NUMBER ord)) [0..<16]" "length (SECTOR_NUMBER ord) = 16"
    by (simp_all add: SECTOR_NUMBER_def upt_rec)
  then show "b < 16 \<Longrightarrow> \<exists>s<16. SECTOR_NUMBER ord ! s = b" by (auto simp: list_all_iff in_set_conv_nth)
qed

lemma length_image_sector: "length D = 4096 \<Longrightarrow> s < 16 \<Longrightarrow> length (image_sector ord D s) = 256"
proof -
  assume D: "length D = 4096" "s < 16"
  then have "256 * SECTOR_NUMBER ord ! s + 256 \<le> 4096" using sector_number_lt [of s ord] by simp
  then show ?thesis using D by (simp add: image_sector_def)
qed

lemma disk_byte_no_mark: "n < 64 \<Longrightarrow> DISK_BYTE ! n \<noteq> 0xD5"
proof -
  have "list_all (\<lambda>v. v \<noteq> 0xD5) DISK_BYTE" "length DISK_BYTE = 64" by (simp_all add: DISK_BYTE_def)
  then show "n < 64 \<Longrightarrow> DISK_BYTE ! n \<noteq> 0xD5" by (simp add: list_all_length)
qed

lemma nibbles_no_mark: "x \<in> set (nibblizeSector s) \<Longrightarrow> x \<noteq> 0xD5"
  using disk_byte_no_mark [OF unat_six] by (auto simp: nibblizeSector_def)

lemma four_no_mark: "a44 v \<noteq> 0xD5" "b44 v \<noteq> 0xD5"
proof -
  have m: "bit (0xAA :: u8) 5" "\<not> bit (0xD5 :: u8) 5" by simp_all
  have "bit (a44 v) 5" "bit (b44 v) 5" unfolding a44_def b44_def bit_or_iff using m by blast+
  then show "a44 v \<noteq> 0xD5" "b44 v \<noteq> 0xD5" using m(2) by auto
qed

lemma four_and_four: "(push_bit 1 (a44 v AND 0x55) :: u8) OR (b44 v AND 0x55) = v"
proof -
  have e: "(a44 v AND 0x55) = drop_bit 1 v AND 0x55" "b44 v AND 0x55 = v AND 0x55"
    unfolding a44_def b44_def by (simp_all add: bit.conj_disj_distrib2 and.assoc)
  have m: "bit (0x55 :: u8) n \<longleftrightarrow> n < 8 \<and> even n" for n
  proof (cases "n < 8")
    case True
    then have "n \<in> {0, 1, 2, 3, 4, 5, 6, 7}" by auto
    then show ?thesis by auto
  qed (auto dest: bit_imp_le_length)
  show ?thesis unfolding e
  proof (rule u8_eqI)
    fix n :: nat assume "n < 8"
    then show "bit (push_bit 1 (drop_bit 1 v AND 0x55) OR (v AND 0x55) :: u8) n = bit v n"
      unfolding bit_or_iff bit_push_bit_iff bit_and_iff bit_drop_bit_eq m o_def by (cases n) auto
  qed
qed


text \<open>The fields of a sector on the track.\<close>

lemma sector_nibbles_fields:
  assumes "length D = 4096" and "s < 16"
  shows "length (sector_nibbles ord t D s) = 396"
    "sector_nibbles ord t D s ! 0 = 0xD5" "sector_nibbles ord t D s ! 1 = 0xAA" "sector_nibbles ord t D s ! 2 = 0x96"
    "sector_nibbles ord t D s ! 7 = a44 (of_nat s)" "sector_nibbles ord t D s ! 8 = b44 (of_nat s)"
    "sector_nibbles ord t D s ! 20 = 0xD5" "sector_nibbles ord t D s ! 21 = 0xAA" "sector_nibbles ord t D s ! 22 = 0xAD"
    "i < 343 \<Longrightarrow> sector_nibbles ord t D s ! (23 + i) = nibblizeSector (image_sector ord D s) ! i"
    "q < 396 \<Longrightarrow> q \<noteq> 0 \<Longrightarrow> q \<noteq> 20 \<Longrightarrow> sector_nibbles ord t D s ! q \<noteq> 0xD5"
proof -
  let ?n = "nibblizeSector (image_sector ord D s)"
  have n: "length ?n = 343" by (rule length_nibblizeSector [OF length_image_sector [OF assms]])
  have split: "sector_nibbles ord t D s = (address_field t (of_nat s) @ replicate 6 0xFF @ [0xD5, 0xAA, 0xAD]) @ ?n @
      ([0xDE, 0xAA, 0xEB] @ replicate 27 0xFF)" by (simp add: sector_nibbles_def)
  show "length (sector_nibbles ord t D s) = 396" unfolding split by (simp add: n address_field_def Let_def)
  show "sector_nibbles ord t D s ! 0 = 0xD5" "sector_nibbles ord t D s ! 1 = 0xAA" "sector_nibbles ord t D s ! 2 = 0x96"
    "sector_nibbles ord t D s ! 7 = a44 (of_nat s)" "sector_nibbles ord t D s ! 8 = b44 (of_nat s)"
    "sector_nibbles ord t D s ! 20 = 0xD5" "sector_nibbles ord t D s ! 21 = 0xAA" "sector_nibbles ord t D s ! 22 = 0xAD"
    by (simp_all add: sector_nibbles_def address_field_def Let_def nth_append)
  show "i < 343 \<Longrightarrow> sector_nibbles ord t D s ! (23 + i) = ?n ! i"
    unfolding split by (simp add: n address_field_def Let_def nth_append)
  let ?h = "drop 1 (address_field t (of_nat s)) @ replicate 6 0xFF" and ?r = "[0xAA, 0xAD] @ ?n @ [0xDE, 0xAA, 0xEB] @ replicate 27 0xFF"
  have p: "sector_nibbles ord t D s = 0xD5 # ?h @ 0xD5 # ?r" "length ?h = 19"
    by (simp_all add: sector_nibbles_def address_field_def Let_def)
  have h: "x \<in> set ?h \<Longrightarrow> x \<noteq> 0xD5" and r: "x \<in> set ?r \<Longrightarrow> x \<noteq> 0xD5" for x
    using four_no_mark nibbles_no_mark by (auto simp: address_field_def Let_def)
  have lr: "length ?r = 375" by (simp add: n)
  assume q: "q < 396" "q \<noteq> 0" "q \<noteq> 20"
  show "sector_nibbles ord t D s ! q \<noteq> 0xD5"
  proof (cases "q < 20")
    case True
    then have "sector_nibbles ord t D s ! q = ?h ! (q - 1)" unfolding p(1) using q p(2) by (simp add: nth_append del: append_assoc)
    moreover have "?h ! (q - 1) \<in> set ?h" using True q p(2) by (intro nth_mem) simp
    ultimately show ?thesis using h by metis
  next
    case False
    define j where "j = q - 21"
    have j: "q = 21 + j" "j < 375" using False q by (simp_all add: j_def)
    have "sector_nibbles ord t D s = (0xD5 # ?h @ [0xD5]) @ ?r" unfolding p(1) by simp
    moreover have "length (0xD5 # ?h @ [0xD5]) = 21" using p(2) by simp
    ultimately have "sector_nibbles ord t D s ! q = ?r ! j" unfolding j(1) by (metis nth_append_length_plus)
    moreover have "?r ! j \<in> set ?r" using j lr by (intro nth_mem) simp
    ultimately show ?thesis using r by metis
  qed
qed


section \<open>The track as a line that repeats\<close>

definition line :: "disk_order \<Rightarrow> u8 \<Rightarrow> u8 list \<Rightarrow> nat \<Rightarrow> u8" where
  "line ord t D y = nibblize ord t D ! (y mod 6384)"

definition mark_pos :: "nat \<Rightarrow> nat" where
  "mark_pos m = 6384 * (m div 32) + 48 + 396 * (m mod 32 div 2) + 20 * (m mod 2)"

definition mark_sector :: "nat \<Rightarrow> nat" where
  "mark_sector m = m mod 32 div 2"

lemma mark_pos_split: "c < 32 \<Longrightarrow> mark_pos (32 * a + c) = 6384 * a + 48 + 396 * (c div 2) + 20 * (c mod 2)"
proof -
  have "(32 * a + c) mod 2 = c mod 2" by presburger
  then show "c < 32 \<Longrightarrow> ?thesis" by (simp add: mark_pos_def)
qed

lemma mark_sector_lt: "mark_sector m < 16"
  by (simp add: mark_sector_def less_mult_imp_div_less)

lemma mark_pos_step: "mark_pos m + 20 \<le> mark_pos (Suc m)" "mark_pos (Suc m) \<le> mark_pos m + 444"
proof -
  define a b where ab: "a = m div 32" "b = m mod 32"
  have "b < 32" by (simp add: ab)
  have m: "m mod 2 = b mod 2" by (simp add: ab mod_mod_cancel)
  have s: "Suc m div 32 = (if b = 31 then a + 1 else a)" "Suc m mod 32 = (if b = 31 then 0 else b + 1)"
    "Suc m mod 2 = (b + 1) mod 2"
    by (auto simp: ab div_Suc mod_Suc mod_mod_cancel)
  have h: "Suc b div 2 = b div 2 + b mod 2" "Suc b mod 2 = 1 - b mod 2" by presburger+
  have "b = 31 \<Longrightarrow> b div 2 = 15 \<and> b mod 2 = 1" by simp
  moreover have "b mod 2 = 0 \<or> b mod 2 = 1" by presburger
  ultimately show "mark_pos m + 20 \<le> mark_pos (Suc m)" "mark_pos (Suc m) \<le> mark_pos m + 444"
    unfolding mark_pos_def s m ab [symmetric] by (auto simp: h)
qed

lemma mark_pos_mono: "i < j \<Longrightarrow> mark_pos i < mark_pos j"
proof (induction j)
  case (Suc j)
  then show ?case using mark_pos_step(1) [of j] by (cases "i = j") auto
qed simp

lemma length_nibblize:
  assumes D: "length D = 4096"
  shows "length (nibblize ord t D) = 6384"
  using nth_concat_blocks(2) [of 16 "sector_nibbles ord t D" 396] sector_nibbles_fields(1) [OF D] by (simp add: nibblize_def)

lemma line_sector:
  assumes D: "length D = 4096" and s: "s < 16" "q < 396"
  shows "line ord t D (6384 * a + 48 + 396 * s + q) = sector_nibbles ord t D s ! q"
proof -
  have "396 * s \<le> 5940" using s by simp
  then have "48 + 396 * s + q < 6384" using s by simp
  then have m: "(6384 * a + 48 + 396 * s + q) mod 6384 = 48 + (396 * s + q)" by (simp add: add.assoc)
  show ?thesis unfolding line_def m nibblize_def
    using nth_concat_blocks(1) [of 16 "sector_nibbles ord t D" 396 s q] sector_nibbles_fields(1) [OF D] s
    by (simp add: nth_append)
qed

lemma line_gap: "y mod 6384 < 48 \<Longrightarrow> line ord t D y = 0xFF"
  by (simp add: line_def nibblize_def nth_append)

lemma line_mark:
  assumes D: "length D = 4096"
  shows "line ord t D (mark_pos m) = 0xD5" "line ord t D (mark_pos m + 1) = 0xAA"
  "line ord t D (mark_pos m + 2) = (if even m then 0x96 else 0xAD)"
  "even m \<Longrightarrow> line ord t D (mark_pos m + 7) = a44 (of_nat (mark_sector m))"
  "even m \<Longrightarrow> line ord t D (mark_pos m + 8) = b44 (of_nat (mark_sector m))"
  "odd m \<Longrightarrow> i < 343 \<Longrightarrow> line ord t D (mark_pos m + 3 + i) = nibblizeSector (image_sector ord D (mark_sector m)) ! i"
proof -
  have l: "line ord t D (mark_pos m + r) = sector_nibbles ord t D (mark_sector m) ! (20 * (m mod 2) + r)"
    if "20 * (m mod 2) + r < 396" for r
    using line_sector [OF D mark_sector_lt [of m] that, of ord t "m div 32"] by (simp add: mark_pos_def mark_sector_def add.assoc)
  note F = sector_nibbles_fields [OF D mark_sector_lt [of m]]
  have p: "m mod 2 = (if even m then 0 else 1)" by presburger
  show "line ord t D (mark_pos m) = 0xD5" "line ord t D (mark_pos m + 1) = 0xAA"
    "line ord t D (mark_pos m + 2) = (if even m then 0x96 else 0xAD)"
    "even m \<Longrightarrow> line ord t D (mark_pos m + 7) = a44 (of_nat (mark_sector m))"
    "even m \<Longrightarrow> line ord t D (mark_pos m + 8) = b44 (of_nat (mark_sector m))"
    using l [of 0] l [of 1] l [of 2] l [of 7] l [of 8] F(2-9) by (auto simp: p simp del: add_2_eq_Suc' One_nat_def)
  show "line ord t D (mark_pos m + 3 + i) = nibblizeSector (image_sector ord D (mark_sector m)) ! i" if "odd m" "i < 343"
    using l [of "3 + i"] F(10) [OF that(2)] that by (simp add: p add.assoc)
qed

text \<open>Only marks begin with the byte \<open>D5\<close>.\<close>

lemma line_D5:
  assumes D: "length D = 4096" and d: "line ord t D y = 0xD5"
  shows "\<exists>m. y = mark_pos m"
proof -
  define a z where az: "a = y div 6384" "z = y mod 6384"
  have y: "y = 6384 * a + z" "z < 6384" by (simp_all add: az)
  have z: "48 \<le> z"
  proof (rule ccontr)
    assume "\<not> 48 \<le> z"
    then show False using line_gap [of y ord t D] d by (simp add: az)
  qed
  define s q where sq: "s = (z - 48) div 396" "q = (z - 48) mod 396"
  have zs: "z = 48 + 396 * s + q" "q < 396" using z div_mult_mod_eq [of "z - 48" 396] by (simp_all add: sq)
  have s: "s < 16" using y(2) zs(1) by linarith
  have "sector_nibbles ord t D s ! q = 0xD5" using line_sector [OF D s zs(2), of ord t a] d y zs(1) by (simp add: add.assoc)
  then have "q = 0 \<or> q = 20" using sector_nibbles_fields(11) [OF D s zs(2)] by blast
  then have "y = mark_pos (32 * a + (2 * s + (if q = 0 then 0 else 1)))"
    using y zs s by (subst mark_pos_split) auto
  then show ?thesis by blast
qed


section \<open>A track and back\<close>

text \<open>What one found mark does, and when the search from \<open>y\<close> will find mark \<open>m\<close>.\<close>

definition mark_step :: "disk_order \<Rightarrow> u8 list \<Rightarrow> nat \<Rightarrow> int \<times> u8 list \<Rightarrow> int \<times> u8 list" where
  "mark_step ord D m so = (case so of (sector, out) \<Rightarrow>
     if even m then (int (mark_sector m), out)
     else (0, if 0 \<le> sector \<and> sector < 16
       then put_block (SECTOR_NUMBER ord ! nat sector) (image_sector ord D (mark_sector m)) out else out))"

definition ready :: "nat \<Rightarrow> nat \<Rightarrow> bool" where
  "ready y m \<longleftrightarrow> y \<le> mark_pos m \<and> mark_pos m \<le> y + 444 \<and> (\<forall>i. y \<le> mark_pos i \<longrightarrow> m \<le> i)"

lemma ready_first: "\<exists>m. ready y m"
proof -
  have "y \<le> mark_pos y"
  proof (induction y)
    case (Suc y)
    then show ?case using mark_pos_step(1) [of y] by simp
  qed simp
  then have ex: "\<exists>m. y \<le> mark_pos m" by blast
  define m where "m = (LEAST m. y \<le> mark_pos m)"
  have m: "y \<le> mark_pos m" "\<And>i. y \<le> mark_pos i \<Longrightarrow> m \<le> i"
    unfolding m_def using LeastI_ex [OF ex] by (auto intro: Least_le)
  have "mark_pos m \<le> y + 444"
  proof (cases m)
    case 0
    then show ?thesis by (simp add: mark_pos_def)
  next
    case (Suc k)
    then have "mark_pos k < y" using m(2) [of k] by (cases "y \<le> mark_pos k") auto
    then show ?thesis using mark_pos_step(2) [of k] Suc by simp
  qed
  then show ?thesis using m unfolding ready_def by blast
qed

lemma ready_next: "ready (mark_pos m + 3) (Suc m)"
proof -
  have "m < i" if "mark_pos m + 3 \<le> mark_pos i" for i
  proof (rule ccontr)
    assume "\<not> m < i"
    then have "mark_pos i \<le> mark_pos m" using mark_pos_mono [of i m] by (cases "i = m") auto
    then show False using that by simp
  qed
  then show ?thesis using mark_pos_step [of m] by (auto simp: ready_def Suc_le_eq)
qed

lemma length_put_block: "b < 16 \<Longrightarrow> length out = 4096 \<Longrightarrow> length blk = 256 \<Longrightarrow> length (put_block b blk out) = 4096"
  by (simp add: put_block_def)

lemma length_mark_step: "length D = 4096 \<Longrightarrow> length out = 4096 \<Longrightarrow> length (snd (mark_step ord D m (sec, out))) = 4096"
  using mark_sector_lt [of m] sector_number_lt [of "nat sec" ord]
  by (auto simp: mark_step_def intro!: length_put_block length_image_sector)

lemma part_step:
  fixes ord :: disk_order and t :: u8
  assumes D: "length D = 4096" and o: "length out = 4096" and y: "ready (x + k) m"
  defines "tr \<equiv> rotate k (nibblize ord t D)"
  shows "part_loop ord tr (Suc j) (x mod 6384) (sec, out) =
    part_loop ord tr j ((x + (mark_pos m - (x + k)) + 3) mod 6384) (mark_step ord D m (sec, out))"
proof -
  define d where "d = mark_pos m - (x + k)"
  have d: "x + d + k = mark_pos m" "d \<le> 444" using y by (auto simp: ready_def d_def)
  have len: "length tr = 6384" by (simp add: tr_def length_nibblize [OF D])
  have at: "tr ! (z mod 6384) = line ord t D (z + k)" for z
    by (simp add: tr_def nth_rotate length_nibblize [OF D] line_def mod_simps add.commute)
  have quiet: "tr ! ((x + i) mod 6384) \<noteq> 0xD5" if "i < d" for i
  proof
    assume "tr ! ((x + i) mod 6384) = 0xD5"
    then obtain i' where i': "x + i + k = mark_pos i'" using line_D5 [OF D, where ord = ord and t = t and y = "x + i + k"] by (auto simp: at)
    then have "m \<le> i'" using y by (simp add: ready_def)
    then have "mark_pos m \<le> mark_pos i'" using mark_pos_mono [of m i'] by (cases "m = i'") auto
    then show False using i' d(1) that by simp
  qed
  note M = line_mark [OF D, where ord = ord and t = t and m = m]
  have find: "mark_loop tr 6384 (x mod 6384) (0, 0, 0) = ((x + d + 3) mod 6384, 3, 0xAA, if even m then 0x96 else 0xAD)"
    using mark_loop_find [OF len _ _ quiet, of "d"] d M(1-3) at [of "x + d"] at [of "x + d + 1"] at [of "x + d + 2"]
    by (simp add: add.commute add.left_commute)
  define work where "work = gather tr 384 ((x + d + 3) mod 6384)"
  have work: "work = map (\<lambda>i. line ord t D (mark_pos m + 3 + i)) [0..<384]"
  proof -
    have "tr ! ((x + d + 3 + i) mod 6384) = line ord t D (mark_pos m + 3 + i)" for i
      unfolding at d(1) [symmetric] by (simp add: ac_simps)
    then show ?thesis unfolding work_def by (subst gather_nth [OF len]) simp_all
  qed
  have "found_mark ord work (if even m then 0x96 else 0xAD) (sec, out) = mark_step ord D m (sec, out)"
  proof (cases "even m")
    case True
    have w45: "work ! 4 = a44 (of_nat (mark_sector m))" "work ! 5 = b44 (of_nat (mark_sector m))"
      using M(4,5) [OF True] by (simp_all add: work add.commute del: upt_Suc)
    have "uint (of_nat (mark_sector m) :: u8) = int (mark_sector m)"
      using mark_sector_lt [of m] by (simp add: unsigned_of_nat take_bit_nat_eq_self)
    then show ?thesis unfolding found_mark_def mark_step_def w45 four_and_four using True by simp
  next
    case False
    let ?n = "nibblizeSector (image_sector ord D (mark_sector m))"
    have l: "length (image_sector ord D (mark_sector m)) = 256" by (rule length_image_sector [OF D mark_sector_lt])
    have "take 343 work = ?n"
      using length_nibblizeSector [OF l] M(6) [OF False]
      by (intro nth_equalityI) (simp_all add: work del: upt_Suc)
    then have w: "work = ?n @ drop 343 work" by (metis append_take_drop_id)
    have "denibblizeSector work (take 256 (drop (256 * SECTOR_NUMBER ord ! nat sec) out)) = image_sector ord D (mark_sector m)"
      if "0 \<le> sec" "sec < 16"
    proof -
      have "nat sec < 16" using that by linarith
      from sector_number_lt [OF this, of ord] have "256 * SECTOR_NUMBER ord ! nat sec + 256 \<le> 4096" by linarith
      then show ?thesis using o by (subst w) (rule sector_back [OF l], simp)
    qed
    then show ?thesis using False by (simp add: found_mark_def mark_step_def Let_def)
  qed
  then show ?thesis by (simp add: len find flip: work_def d_def)
qed

lemma part_marks:
  assumes D: "length D = 4096"
  shows "ready (x + k) m \<Longrightarrow> length (snd so) = 4096 \<Longrightarrow>
    part_loop ord (rotate k (nibblize ord t D)) j (x mod 6384) so = fold (mark_step ord D) [m..<m + j] so"
proof (induction j arbitrary: x m so)
  case (Suc j)
  let ?x = "x + (mark_pos m - (x + k)) + 3"
  obtain sec out where so: "so = (sec, out)" by (cases so)
  have "?x + k = mark_pos m + 3" using Suc.prems(1) by (simp add: ready_def)
  then have r: "ready (?x + k) (Suc m)" using ready_next by simp
  have l: "length (snd (mark_step ord D m so)) = 4096" using Suc.prems(2) by (simp add: so length_mark_step [OF D])
  have "[m..<m + Suc j] = m # [Suc m..<Suc m + j]" by (simp add: upt_conv_Cons)
  then show ?case
    using part_step [OF D _ Suc.prems(1), of out ord t j sec] Suc.IH [OF r l] Suc.prems(2) by (simp add: so)
qed simp


text \<open>The sectors of the image that \<open>out\<close> already holds.\<close>

definition holds :: "disk_order \<Rightarrow> u8 list \<Rightarrow> nat set \<Rightarrow> u8 list \<Rightarrow> bool" where
  "holds ord D W out \<longleftrightarrow> length out = 4096 \<and>
     (\<forall>s\<in>W. take 256 (drop (256 * SECTOR_NUMBER ord ! s) out) = image_sector ord D s)"

lemma put_block_sectors:
  assumes "b < 16" "c < 16" "length out = 4096" "length blk = 256"
  shows "take 256 (drop (256 * c) (put_block b blk out)) = (if c = b then blk else take 256 (drop (256 * c) out))"
proof (rule nth_equalityI)
  have c: "256 * c + 256 \<le> 4096" using assms(2) by simp
  then show "length (take 256 (drop (256 * c) (put_block b blk out))) =
      length (if c = b then blk else take 256 (drop (256 * c) out))"
    using assms by (simp add: length_put_block)
  fix i assume "i < length (take 256 (drop (256 * c) (put_block b blk out)))"
  then have i: "i < 256" by simp
  have p: "put_block b blk out ! (256 * c + i) = (if c = b then blk ! i else out ! (256 * c + i))"
  proof -
    consider "c < b" | "c = b" | "b < c" by linarith
    then show ?thesis
    proof cases
      case 1
      then have "256 * c + i < 256 * b" using i by simp
      then show ?thesis using 1 assms by (simp add: put_block_def nth_append)
    next
      case 3
      then have "256 * b + 256 \<le> 256 * c + i" by simp
      then obtain r where r: "256 * c + i = 256 * b + 256 + r" using le_iff_add by blast
      show ?thesis unfolding r using 3 assms by (simp add: put_block_def nth_append)
    qed (use assms i in \<open>simp add: put_block_def nth_append\<close>)
  qed
  show "take 256 (drop (256 * c) (put_block b blk out)) ! i = (if c = b then blk else take 256 (drop (256 * c) out)) ! i"
    using i c assms p by (simp add: length_put_block)
qed

lemma sector_number_inj: "i < 16 \<Longrightarrow> j < 16 \<Longrightarrow> SECTOR_NUMBER ord ! i = SECTOR_NUMBER ord ! j \<longleftrightarrow> i = j"
  by (rule nth_eq_iff_index_eq) (simp_all add: SECTOR_NUMBER_def)

lemma mark_sector_half: "mark_sector m = m div 2 mod 16"
  using mod_mult2_eq [of m 2 16] by (simp add: mark_sector_def)

lemma pair_step:
  assumes D: "length D = 4096" and m: "even m" and h: "holds ord D W (snd so)" and W: "W \<subseteq> {..<16}"
  shows "holds ord D (insert (mark_sector m) W) (snd (fold (mark_step ord D) [m..<m + 2] so))"
proof -
  let ?s = "mark_sector m"
  have s: "?s < 16" by (rule mark_sector_lt)
  have same: "mark_sector (Suc m) = ?s" using m by (simp add: mark_sector_half)
  have "[m..<m + 2] = [m, Suc m]" by (simp add: upt_rec)
  then have f: "snd (fold (mark_step ord D) [m..<m + 2] so) = put_block (SECTOR_NUMBER ord ! ?s) (image_sector ord D ?s) (snd so)"
    using m s by (cases so) (simp add: mark_step_def same)
  have l: "length (snd so) = 4096" "length (image_sector ord D ?s) = 256"
    using h length_image_sector [OF D s] by (simp_all add: holds_def)
  show ?thesis unfolding f holds_def
  proof (intro conjI ballI)
    show "length (put_block (SECTOR_NUMBER ord ! ?s) (image_sector ord D ?s) (snd so)) = 4096"
      by (rule length_put_block [OF sector_number_lt [OF s] l])
    fix s' assume s': "s' \<in> insert ?s W"
    then have "s' < 16" using s W by auto
    then show "take 256 (drop (256 * SECTOR_NUMBER ord ! s') (put_block (SECTOR_NUMBER ord ! ?s) (image_sector ord D ?s) (snd so))) =
        image_sector ord D s'"
      using put_block_sectors [OF sector_number_lt [OF s] sector_number_lt l, of s' ord] s s' h
      by (auto simp: sector_number_inj holds_def)
  qed
qed

lemma pairs_all:
  assumes D: "length D = 4096" and m: "even m" and l: "length (snd so) = 4096"
  shows "holds ord D {s. \<exists>i<p. s = mark_sector (m + 2 * i)} (snd (fold (mark_step ord D) [m..<m + 2 * p] so))"
proof (induction p)
  case 0
  then show ?case using l by (simp add: holds_def)
next
  case (Suc p)
  have e: "[m..<m + 2 * Suc p] = [m..<m + 2 * p] @ [m + 2 * p..<m + 2 * p + 2]"
    using upt_add_eq_append [of m "m + 2 * p" 2] by simp
  have "{s. \<exists>i<Suc p. s = mark_sector (m + 2 * i)} =
      insert (mark_sector (m + 2 * p)) {s. \<exists>i<p. s = mark_sector (m + 2 * i)}"
    by (auto simp: less_Suc_eq)
  moreover have "{s. \<exists>i<p. s = mark_sector (m + 2 * i)} \<subseteq> {..<16}" using mark_sector_lt by auto
  ultimately show ?case unfolding e fold_append o_def using m pair_step [OF D _ Suc.IH, of "m + 2 * p"] by simp
qed

lemma sixteen_pairs: "even m \<Longrightarrow> {s. \<exists>i<16. s = mark_sector (m + 2 * i)} = {..<16}"
proof -
  assume m: "even m"
  have "\<exists>i<16. s = mark_sector (m + 2 * i)" if "s < 16" for s
  proof -
    define r where "r = mark_sector m"
    define i where "i = (16 + s - r) mod 16"
    have r: "r < 16" using mark_sector_lt by (simp add: r_def)
    have i: "i < 16" "s = (r + i) mod 16"
    proof -
      show "i < 16" by (simp add: i_def)
      have "(r + i) mod 16 = (r + (16 + s - r)) mod 16" unfolding i_def by (simp add: mod_simps)
      then show "s = (r + i) mod 16" using r that by simp
    qed
    have "mark_sector (m + 2 * i) = (m div 2 + i) mod 16" using m by (simp add: mark_sector_half)
    also have "\<dots> = (r + i) mod 16" by (simp add: r_def mark_sector_half mod_simps)
    finally show ?thesis using i by metis
  qed
  then show ?thesis using mark_sector_lt by auto
qed

lemma holds_all:
  assumes D: "length D = 4096" and h: "holds ord D {..<16} out"
  shows "out = D"
proof (rule nth_equalityI)
  show "length out = length D" using D h by (simp add: holds_def)
  fix i assume "i < length out"
  then have i: "i < 4096" using h by (simp add: holds_def)
  then obtain s where s: "s < 16" "SECTOR_NUMBER ord ! s = i div 256" using sector_number_onto [of "i div 256" ord] less_mult_imp_div_less [of i 16 256] by auto
  have "take 256 (drop (256 * SECTOR_NUMBER ord ! s) out) = take 256 (drop (256 * SECTOR_NUMBER ord ! s) D)"
    using h s(1) by (simp add: holds_def image_sector_def)
  then have "take 256 (drop (256 * (i div 256)) out) ! (i mod 256) = take 256 (drop (256 * (i div 256)) D) ! (i mod 256)"
    unfolding s(2) by (rule arg_cong)
  then show "out ! i = D ! i" using i h D by (simp add: holds_def)
qed

lemma track_back:
  assumes D: "length D = 4096"
  shows "denibblize ord (rotate k (nibblize ord t D)) = D"
proof -
  obtain m where m: "ready (0 + k) m" using ready_first [of "0 + k"] by blast
  define so where "so = (-1 :: int, replicate TRACK_BYTES (0 :: u8))"
  have l: "length (snd so) = 4096" by (simp add: so_def TRACK_BYTES_def)
  have f: "denibblize ord (rotate k (nibblize ord t D)) = snd (fold (mark_step ord D) [m..<m + 33] so)"
    using part_marks [OF D m l, of ord t 33] by (simp add: denibblize_def so_def)
  show ?thesis
  proof (cases "even m")
    case True
    have e: "[m..<m + 33] = [m..<m + 2 * 16] @ [m + 32]" by (simp add: upt_rec upt_add_eq_append)
    have "snd (mark_step ord D (m + 32) x) = snd x" for x using True by (simp add: mark_step_def split: prod.split)
    then have "snd (fold (mark_step ord D) [m..<m + 33] so) = snd (fold (mark_step ord D) [m..<m + 2 * 16] so)"
      unfolding e by simp
    then show ?thesis using pairs_all [OF D True l, of ord 16] sixteen_pairs [OF True] holds_all [OF D] f by simp
  next
    case False
    have e: "[m..<m + 33] = m # [Suc m..<Suc m + 2 * 16]" by (simp add: upt_conv_Cons)
    have "snd (mark_step ord D m so) = snd so" using False by (simp add: mark_step_def so_def)
    then have l': "length (snd (mark_step ord D m so)) = 4096" using l by simp
    show ?thesis using pairs_all [OF D _ l', of "Suc m" ord 16] sixteen_pairs [of "Suc m"] holds_all [OF D] f False
      by (simp add: e)
  qed
qed


section \<open>Correctness\<close>

text \<open>What an opened image holds: every track is there in full.\<close>

lemma fromBytes_tracks:
  assumes "fromBytes bs ext = Inr img" and "0 \<le> track" and "track < di_tracks img"
  shows "di_order img = Nib \<Longrightarrow> nat track * NIB_TRACK + NIB_TRACK \<le> length (di_data img)"
    and "di_order img \<noteq> Nib \<Longrightarrow> nat track * TRACK_BYTES + TRACK_BYTES \<le> length (di_data img)"
    and "\<not> di_protect img"
proof -
  have full: "nat track * c + c \<le> length bs" if "track < int (length bs div c)" for c
  proof -
    have "Suc (nat track) \<le> length bs div c" using assms(2) that by linarith
    then have "Suc (nat track) * c \<le> length bs div c * c" by (rule mult_le_mono1)
    also have "\<dots> \<le> length bs" by simp
    finally show ?thesis by simp
  qed
  show "di_order img = Nib \<Longrightarrow> nat track * NIB_TRACK + NIB_TRACK \<le> length (di_data img)"
    "di_order img \<noteq> Nib \<Longrightarrow> nat track * TRACK_BYTES + TRACK_BYTES \<le> length (di_data img)" "\<not> di_protect img"
    using assms(1,3) full [of NIB_TRACK] full [of TRACK_BYTES]
    by (auto simp: fromBytes_def Let_def split: if_splits)
qed

lemma put_track_same: "at + n \<le> length d \<Longrightarrow> put_track at (take n (drop at d)) d = d"
  by (simp add: put_track_def min_def) (metis append_assoc append_take_drop_id drop_drop add.commute)

lemma openImage_cases:
  assumes "openImage (Some (bs, w)) path = Inr img"
  obtains raw where "fromBytes bs (lowerExt path) = Inr raw" and "img = raw\<lparr>di_protect := \<not> w\<rparr>"
  using assms by (cases "fromBytes bs (lowerExt path)") (auto simp: openImage_def)

lemma track_data_other:
  assumes "0 \<le> t" "0 \<le> u" "t \<noteq> u" and "nat u * n + n \<le> length d" and "length bs = n"
  shows "track_data n t (put_track (nat u * n) bs d) = track_data n t d"
proof -
  have "take n (drop (i * n) (take (j * n) d @ bs @ drop (j * n + n) d)) = take n (drop (i * n) d)"
    if "i \<noteq> j" "j * n + n \<le> length d" for i j
  proof (cases "i < j")
    case True
    then have "Suc i * n \<le> j * n" by (intro mult_le_mono1) simp
    then have le: "n + i * n \<le> j * n" by simp
    have "drop (i * n) (take (j * n) d @ r) = take (j * n - i * n) (drop (i * n) d) @ drop (i * n - j * n) r" for r
      using that(2) le by (simp add: drop_take)
    moreover have "n \<le> j * n - i * n" "length (take (j * n - i * n) (drop (i * n) d)) = j * n - i * n"
      using le that(2) by simp_all
    ultimately show ?thesis by (simp add: min_absorb1 drop_take)
  next
    case False
    then have "Suc j * n \<le> i * n" using that(1) by (intro mult_le_mono1) simp
    then have le: "n + j * n \<le> i * n" by simp
    have "length (take (j * n) d @ bs) = j * n + n" using that(2) assms(5) by simp
    then have "drop (i * n) ((take (j * n) d @ bs) @ drop (j * n + n) d) = drop (i * n - (j * n + n)) (drop (j * n + n) d)"
      using le by (simp only: drop_append) simp
    also have "\<dots> = drop (i * n) d" using le by simp
    finally show ?thesis by simp
  qed
  moreover have "nat t \<noteq> nat u" using assms(1-3) by simp
  ultimately show ?thesis using assms(4,5) by (simp add: track_data_def put_track_def)
qed

text \<open>
  C28: on an opened disk image every track reads as at most \<open>MAX_NIBBLES\<close> nibbles, and writing them back
  leaves the image as it was. On a \<open>.dsk\<close>, \<open>.do\<close> or \<open>.po\<close> image, whose tracks are decoded, that holds wherever
  on the turning disk the copy of the track begins. A \<open>.nib\<close> image holds nibbles, not sectors, and its tracks have no
  marks the code looks for: a copy that begins elsewhere is stored as it is, so that the track then reads
  with that beginning and no other track changes. A write protected image never changes.
\<close>

theorem disk_track_roundtrip:
  assumes "openImage (Some (bs, writable)) path = Inr img" and "0 \<le> track" and "track < di_tracks img"
  shows "case readTrack track skew img of None \<Rightarrow> False | Some nibbles \<Rightarrow>
    length nibbles \<le> 0x1A18 \<and> writeTrack track nibbles img = img \<and>
    (if di_order img \<noteq> Nib \<or> \<not> writable then writeTrack track (rotate k nibbles) img = img
     else let img' = writeTrack track (rotate k nibbles) img
       in readTrack track skew img' = Some (rotate k nibbles) \<and>
          (\<forall>t \<in> {0..<di_tracks img} - {track}. readTrack t skew img' = readTrack t skew img))"
proof -
  obtain raw where raw: "fromBytes bs (lowerExt path) = Inr raw" "img = raw\<lparr>di_protect := \<not> writable\<rparr>"
    using openImage_cases [OF assms(1)] .
  have tr: "track < di_tracks raw" using assms(3) raw(2) by simp
  note F = fromBytes_tracks [OF raw(1) assms(2) tr]
  show ?thesis
  proof (cases "di_order img = Nib")
    case True
    have l: "nat track * NIB_TRACK + NIB_TRACK \<le> length (di_data img)" using F(1) True raw(2) by simp
    let ?D = "track_data NIB_TRACK track (di_data img)"
    have n: "length ?D = NIB_TRACK" using l by (simp add: track_data_def)
    have same: "put_track (nat track * NIB_TRACK) ?D (di_data img) = di_data img"
      unfolding track_data_def by (rule put_track_same [OF l])
    have new: "track_data NIB_TRACK track (put_track (nat track * NIB_TRACK) (rotate k ?D) (di_data img)) = rotate k ?D"
      using l n by (simp add: track_data_def put_track_def)
    have other: "track_data NIB_TRACK t (put_track (nat track * NIB_TRACK) (rotate k ?D) (di_data img)) = track_data NIB_TRACK t (di_data img)"
      if "0 \<le> t" "t \<noteq> track" for t
      using that assms(2) l n by (intro track_data_other) simp_all
    have "NIB_TRACK \<le> 0x1A18" by (simp add: NIB_TRACK_def)
    then show ?thesis using True assms(2,3) same n raw(2) new other
      by (simp add: readTrack_def writeTrack_def Let_def)
  next
    case False
    let ?D = "track_data TRACK_BYTES track (di_data img)"
    have l: "nat track * TRACK_BYTES + TRACK_BYTES \<le> length (di_data img)" using F(2) False raw(2) by simp
    then have D: "length ?D = 4096" by (simp add: track_data_def TRACK_BYTES_def)
    have p: "put_track (nat track * TRACK_BYTES) ?D (di_data img) = di_data img"
      using put_track_same [OF l] by (simp add: track_data_def)
    have w: "writeTrack track (rotate j (nibblize (di_order img) (of_int track) ?D)) img = img" for j
      using False p by (simp add: writeTrack_def track_back [OF D])
    show ?thesis using False assms(2,3) w [of 0] w by (simp add: readTrack_def Let_def rotate_rotate length_nibblize [OF D])
  qed
qed

definition blank_dsk :: "u8 list" where
  "blank_dsk = replicate 143360 0"

theorem disk_track_roundtrip_witness:
  "\<exists>img. openImage (Some (blank_dsk, True)) ''d.do'' = Inr img \<and>
    (case readTrack 17 True img of None \<Rightarrow> False | Some nibbles \<Rightarrow> writeTrack 17 (rotate 100 nibbles) img = img)"
proof -
  have e: "lowerExt ''d.do'' = ''.do''" "lowerExt (CHR ''x'' # ''.do'') = ''.do''" by (simp_all add: lowerExt_def to_lower_def)
  obtain img where i: "openImage (Some (blank_dsk, True)) ''d.do'' = Inr img" "di_tracks img = 35" "di_order img = DOS"
    unfolding openImage_def fromBytes_def Let_def e blank_dsk_def
    by (simp add: validDskSize_def TRACKS_MAX_def TRACKS_STANDARD_def TRACK_BYTES_def e)
  then show ?thesis using disk_track_roundtrip [OF i(1), where track = 17 and skew = True and k = 100] by (auto split: option.splits)
qed

text \<open>
  What is written to a track is what its nibbles encode: for any new contents of the track, writing their
  nibbles, from any point of the turn, makes exactly that track of the image the new contents.
\<close>

theorem disk_write_decodes:
  assumes "fromBytes bs ext = Inr img" and "0 \<le> track" and "track < di_tracks img" and "di_order img \<noteq> Nib"
    and "length new = 4096"
  shows "let img' = writeTrack track (rotate k (nibblize (di_order img) (of_int track) new)) img
    in track_data TRACK_BYTES track (di_data img') = new \<and> length (di_data img') = length (di_data img) \<and>
       (\<forall>i. i div TRACK_BYTES \<noteq> nat track \<longrightarrow> di_data img' ! i = di_data img ! i)"
proof -
  have l: "nat track * TRACK_BYTES + TRACK_BYTES \<le> length (di_data img)" using fromBytes_tracks [OF assms(1-3)] assms(4) by simp
  have w: "writeTrack track (rotate k (nibblize (di_order img) (of_int track) new)) img =
      img\<lparr>di_data := put_track (nat track * TRACK_BYTES) new (di_data img)\<rparr>"
    using assms(2-4) fromBytes_tracks(3) [OF assms(1-3)] by (simp add: writeTrack_def track_back [OF assms(5)])
  define at where "at = nat track * TRACK_BYTES"
  have a: "at + 4096 \<le> length (di_data img)" using l by (simp add: at_def TRACK_BYTES_def)
  have "put_track at new (di_data img) ! i = di_data img ! i" if "i div TRACK_BYTES \<noteq> nat track" for i
  proof -
    have "i < at \<or> at + 4096 \<le> i"
    proof (rule ccontr)
      assume "\<not> (i < at \<or> at + 4096 \<le> i)"
      then have "i div 4096 = nat track" by (intro div_nat_eqI) (simp_all add: at_def TRACK_BYTES_def)
      then show False using that by (simp add: TRACK_BYTES_def)
    qed
    then show ?thesis
    proof
      assume "i < at" then show ?thesis using a by (simp add: put_track_def nth_append)
    next
      assume "at + 4096 \<le> i"
      then obtain r where r: "i = at + 4096 + r" using le_iff_add by blast
      show ?thesis unfolding r using a assms(5) by (simp add: put_track_def nth_append)
    qed
  qed
  then show ?thesis unfolding w Let_def using a assms(5)
    by (simp add: track_data_def put_track_def at_def TRACK_BYTES_def)
qed

theorem disk_write_decodes_witness:
  "\<exists>img. fromBytes blank_dsk ''.po'' = Inr img \<and>
    track_data TRACK_BYTES 5 (di_data (writeTrack 5 (rotate 7 (nibblize ProDOS 5 (replicate 4096 0x42))) img)) = replicate 4096 0x42"
proof -
  have e: "lowerExt (CHR ''x'' # ''.po'') = ''.po''" by (simp add: lowerExt_def to_lower_def)
  obtain img where i: "fromBytes blank_dsk ''.po'' = Inr img" "di_tracks img = 35" "di_order img = ProDOS"
    unfolding fromBytes_def Let_def e blank_dsk_def
    by (simp add: validDskSize_def TRACKS_MAX_def TRACKS_STANDARD_def TRACK_BYTES_def)
  then show ?thesis using disk_write_decodes [OF i(1), where track = 5 and new = "replicate 4096 0x42" and k = 7] by (simp add: Let_def)
qed


text \<open>The shortest images accepted as 140 KB have 34 tracks: the last one cannot be read.\<close>

lemma disk_short_image_loses_track:
  "case fromBytes (replicate 143105 0) ''.do'' of Inl _ \<Rightarrow> False
   | Inr img \<Rightarrow> di_tracks img = 34 \<and> readTrack 34 skew img = None"
proof -
  have e: "lowerExt (CHR ''x'' # ''.do'') = ''.do''" by (simp add: lowerExt_def to_lower_def)
  show ?thesis unfolding fromBytes_def Let_def e
    by (simp add: validDskSize_def TRACKS_MAX_def TRACKS_STANDARD_def TRACK_BYTES_def readTrack_def)
qed

end
