(* ===== verification/Disk2Card.thy ===== *)
theory Disk2Card
  imports Disk2Image
begin

text \<open>
  The Apple II disk interface card (\<open>Disk2Card\<close> of \<open>plugins/machines/apple2/main/disk2.h\<close> and \<open>disk2.cpp\<close>):
  its two drives, the switches at \<open>$C0n0\<close> to \<open>$C0nF\<close>, the stepper with its deferred changes, the motors that
  run on, the data latch and the nibbles under the head, and the way a written track goes back to its image.
  The drive of an image that is a file is the same with the file opened by the host: \<open>mountDisk\<close> takes what
  \<open>Disk2Image::open\<close> gave.
\<close>

section \<open>State\<close>

definition SPINNING_CYCLES :: int where "SPINNING_CYCLES = 1000 * 1000"
definition MOTOR_ON_UNTIL_LSS_STABLE_CYCLES :: u64 where "MOTOR_ON_UNTIL_LSS_STABLE_CYCLES = 0x2EC"
definition MAX_NIBBLES :: nat where "MAX_NIBBLES = 0x1A18"

record floppy =
  fl_image :: "disk2_image option"
  fl_track :: "u8 list"
  fl_nibbles :: nat
  fl_byte :: nat
  fl_trackData :: bool
  fl_dirty :: bool

record disk_drive =
  dr_disk :: floppy
  dr_phase :: int
  dr_spinning :: int
  dr_writeLight :: int
  dr_motorOnCycle :: u64

record disk2_card =
  dc_rom :: "u8 list"
  dc_drive :: "nat \<Rightarrow> disk_drive"
  dc_curr :: nat
  dc_motorOn :: bool
  dc_magnets :: u8
  dc_writeMode :: bool
  dc_loadMode :: bool
  dc_latch :: u8
  dc_lastCycle :: u64
  dc_lastReadLatch :: u64
  dc_now :: u64
  dc_deferred :: bool
  dc_deferredAddr :: u16
  dc_deferredAt :: u64
  dc_rand :: u32

text \<open>The constructor: two empty drives, the ROM cut or filled to a page.\<close>

definition empty_drive :: disk_drive where
  "empty_drive = \<lparr>dr_disk = \<lparr>fl_image = None, fl_track = replicate MAX_NIBBLES 0, fl_nibbles = 0, fl_byte = 0,
       fl_trackData = False, fl_dirty = False\<rparr>,
     dr_phase = 0, dr_spinning = 0, dr_writeLight = 0, dr_motorOnCycle = 0\<rparr>"

definition disk2_card_new :: "u8 list \<Rightarrow> disk2_card" where
  "disk2_card_new rom = \<lparr>dc_rom = take 256 rom @ replicate (256 - length rom) 0, dc_drive = (\<lambda>i. empty_drive),
     dc_curr = 0, dc_motorOn = False, dc_magnets = 0, dc_writeMode = False, dc_loadMode = False, dc_latch = 0,
     dc_lastCycle = 0, dc_lastReadLatch = 0, dc_now = 0, dc_deferred = False, dc_deferredAddr = 0,
     dc_deferredAt = 0, dc_rand = 0x1234567\<rparr>"

definition on_drive :: "nat \<Rightarrow> (disk_drive \<Rightarrow> disk_drive) \<Rightarrow> disk2_card \<Rightarrow> disk2_card" where
  "on_drive i f c = c\<lparr>dc_drive := (dc_drive c)(i := f (dc_drive c i))\<rparr>"

section \<open>Tracks between the image and the drive\<close>

definition drive_readTrack :: "disk_drive \<Rightarrow> disk_drive" where
  "drive_readTrack d =
     (let f = dr_disk d; track = dr_phase d div 2
      in case fl_image f of
           None \<Rightarrow> d\<lparr>dr_disk := f\<lparr>fl_trackData := False\<rparr>\<rparr>
         | Some img \<Rightarrow>
             if track \<ge> di_tracks img then d\<lparr>dr_disk := f\<lparr>fl_trackData := False\<rparr>\<rparr>
             else let bs = (case readTrack track True img of None \<Rightarrow> [] | Some bs \<Rightarrow> bs)
               in d\<lparr>dr_disk := f\<lparr>fl_track := bs @ drop (length bs) (fl_track f), fl_nibbles := length bs, fl_byte := 0,
                    fl_trackData := length bs \<noteq> 0\<rparr>\<rparr>)"

definition drive_flush :: "disk_drive \<Rightarrow> disk_drive" where
  "drive_flush d =
     (let f = dr_disk d;
          img = (case fl_image f of
              Some img \<Rightarrow> Some (if fl_dirty f then writeTrack (dr_phase d div 2) (take (fl_nibbles f) (fl_track f)) img else img)
            | None \<Rightarrow> None)
      in d\<lparr>dr_disk := f\<lparr>fl_image := img, fl_dirty := False\<rparr>\<rparr>)"

definition card_flush :: "nat \<Rightarrow> disk2_card \<Rightarrow> disk2_card" where
  "card_flush i = on_drive i drive_flush"

section \<open>Motor, drive select and stepper\<close>

definition checkSpinning :: "bool \<Rightarrow> u64 \<Rightarrow> disk2_card \<Rightarrow> disk2_card" where
  "checkSpinning stateChanged now c =
     (let modeChanged = dc_motorOn c \<and> dr_spinning (dc_drive c (dc_curr c)) = 0;
          c = (if dc_motorOn c then on_drive (dc_curr c) (\<lambda>d. d\<lparr>dr_spinning := SPINNING_CYCLES\<rparr>) c else c);
          c = (if modeChanged then c\<lparr>dc_lastCycle := now\<rparr> else c)
      in if dc_motorOn c \<and> stateChanged then on_drive (dc_curr c) (\<lambda>d. d\<lparr>dr_motorOnCycle := now\<rparr>) c else c)"

definition controlMotor :: "u16 \<Rightarrow> u64 \<Rightarrow> disk2_card \<Rightarrow> disk2_card" where
  "controlMotor addr now c =
     (let on = bit addr 0;
          changed = on \<noteq> dc_motorOn c;
          c = (if \<not> on then c\<lparr>dc_magnets := 0\<rparr> else c);
          c = (if changed then c\<lparr>dc_motorOn := on\<rparr> else c)
      in checkSpinning changed now c)"

definition magnet :: "int \<Rightarrow> u8" where
  "magnet p = push_bit (nat (p mod 4)) 1"

definition new_phase :: "u8 \<Rightarrow> int \<Rightarrow> int" where
  "new_phase magnets phase =
     (let dir = (if magnets AND magnet (phase + 1) \<noteq> 0 then 1 else 0) - (if magnets AND magnet (phase + 3) \<noteq> 0 then 1 else 0)
      in max 0 (min 79 (phase + dir)))"

definition move_head :: "int \<Rightarrow> disk_drive \<Rightarrow> disk_drive" where
  "move_head np d = d\<lparr>dr_phase := np, dr_disk := (dr_disk d)\<lparr>fl_trackData := False\<rparr>\<rparr>"

definition stepperDeferred :: "disk2_card \<Rightarrow> disk2_card" where
  "stepperDeferred c =
     (let c = c\<lparr>dc_deferred := False\<rparr>;
          i = dc_curr c;
          phase = dr_phase (dc_drive c i);
          np = new_phase (dc_magnets c) phase
      in if np \<noteq> phase then on_drive i (move_head np) (card_flush i c) else c)"

definition controlStepper :: "u16 \<Rightarrow> u64 \<Rightarrow> disk2_card \<Rightarrow> disk2_card" where
  "controlStepper addr now c =
     (if \<not> dc_motorOn c \<and> dr_spinning (dc_drive c (dc_curr c)) = 0 then c
      else let mb = magnet (uint (drop_bit 1 addr));
               c = c\<lparr>dc_magnets := (if bit addr 0 then dc_magnets c OR mb else dc_magnets c AND NOT mb)\<rparr>;
               defer_to = (\<lambda>c. c\<lparr>dc_deferredAddr := addr, dc_deferredAt := now, dc_deferred := True\<rparr>)
        in if dc_deferred c
           then let c = c\<lparr>dc_deferred := False\<rparr>;
                    delta = \<bar>uint (dc_deferredAddr c AND 7) - uint (addr AND 7)\<bar>
             in if (delta = 2 \<or> delta = 6) \<and> \<not> bit addr 0 then c else defer_to (stepperDeferred c)
           else defer_to c)"

definition card_enable :: "u16 \<Rightarrow> u64 \<Rightarrow> disk2_card \<Rightarrow> disk2_card" where
  "card_enable addr now c =
     (let nd = (if bit addr 0 then 1 else 0);
          changed = nd \<noteq> dc_curr c;
          c = c\<lparr>dc_curr := nd\<rparr>;
          c = on_drive (1 - dc_curr c) (\<lambda>d. d\<lparr>dr_spinning := 0, dr_writeLight := 0\<rparr>) c
      in checkSpinning changed now c)"

definition syncStepper :: "u64 \<Rightarrow> disk2_card \<Rightarrow> disk2_card" where
  "syncStepper now c =
     (let c = (if now > dc_now c then c\<lparr>dc_now := now\<rparr> else c)
      in if dc_deferred c \<and> dc_now c \<ge> dc_deferredAt c + 10 then stepperDeferred c else c)"

section \<open>The data latch\<close>

definition setSequencer :: "u16 \<Rightarrow> disk2_card \<Rightarrow> disk2_card" where
  "setSequencer addr c =
     (if (addr AND 0xF) < 0xC then c
      else let k = (addr AND 3) XOR 2
        in if k = 0 then c\<lparr>dc_writeMode := False\<rparr>
           else if k = 1 then c\<lparr>dc_writeMode := True\<rparr>
           else if k = 2 then c\<lparr>dc_loadMode := False\<rparr>
           else c\<lparr>dc_loadMode := True\<rparr>)"

definition loadWriteProtect :: "disk2_card \<Rightarrow> disk2_card" where
  "loadWriteProtect c =
     (let d = dc_drive c (dc_curr c)
      in if dr_spinning d = 0 then c
         else c\<lparr>dc_latch := (case fl_image (dr_disk d) of Some img \<Rightarrow> if di_protect img then 0xFF else 0x00 | None \<Rightarrow> 0x00)\<rparr>)"

definition set_floppy :: "nat \<Rightarrow> (floppy \<Rightarrow> floppy) \<Rightarrow> disk2_card \<Rightarrow> disk2_card" where
  "set_floppy i g = on_drive i (\<lambda>d. d\<lparr>dr_disk := g (dr_disk d)\<rparr>)"

definition next_byte :: "nat \<Rightarrow> disk2_card \<Rightarrow> disk2_card" where
  "next_byte i = set_floppy i (\<lambda>f. f\<lparr>fl_byte := (if fl_byte f + 1 \<ge> fl_nibbles f then 0 else fl_byte f + 1)\<rparr>)"

text \<open>An empty drive: \<open>$80\<close> until the sequencer settles, then noise.\<close>

definition noise :: "u64 \<Rightarrow> disk2_card \<Rightarrow> disk2_card" where
  "noise now c =
     (if now - dr_motorOnCycle (dc_drive c (dc_curr c)) < MOTOR_ON_UNTIL_LSS_STABLE_CYCLES then c\<lparr>dc_latch := 0x80\<rparr>
      else let r = dc_rand c * 1103515245 + 12345 in c\<lparr>dc_rand := r, dc_latch := ucast (drop_bit 16 r)\<rparr>)"

text \<open>What has turned under the head since the last access.\<close>

definition turn_byte :: "nat \<Rightarrow> nat \<Rightarrow> nat \<Rightarrow> nat" where
  "turn_byte b k n = (let b = b + k mod n in if b \<ge> n then b - n else b)"

definition turned :: "u64 \<Rightarrow> disk2_card \<Rightarrow> disk2_card" where
  "turned now c =
     (let i = dc_curr c; diff = now - dc_lastCycle c; c = c\<lparr>dc_lastCycle := now\<rparr>
      in if diff > 40
         then set_floppy i (\<lambda>f. f\<lparr>fl_byte := turn_byte (fl_byte f) (unat (drop_bit 5 diff)) (fl_nibbles f)\<rparr>) c
         else c)"

definition in_head :: "disk2_card \<Rightarrow> floppy" where
  "in_head c = dr_disk (dc_drive c (dc_curr c))"

definition loaded :: "disk2_card \<Rightarrow> disk2_card" where
  "loaded c = (if \<not> fl_trackData (in_head c) \<and> fl_image (in_head c) \<noteq> None then on_drive (dc_curr c) drive_readTrack c else c)"

definition read_nibble :: "u64 \<Rightarrow> disk2_card \<Rightarrow> disk2_card" where
  "read_nibble now c =
     (let f = in_head c; rd = now - dc_lastReadLatch c
      in if rd \<le> 6 then c\<lparr>dc_latch := drop_bit (8 - unat rd div 4) (fl_track f ! fl_byte f)\<rparr>
         else next_byte (dc_curr c) (c\<lparr>dc_latch := fl_track f ! fl_byte f, dc_lastReadLatch := now\<rparr>))"

definition write_nibble :: "disk2_card \<Rightarrow> disk2_card" where
  "write_nibble c = next_byte (dc_curr c)
     (set_floppy (dc_curr c) (\<lambda>f. f\<lparr>fl_track := (fl_track f)[fl_byte f := dc_latch c], fl_dirty := True\<rparr>) c)"

definition unprotected :: "disk2_card \<Rightarrow> bool" where
  "unprotected c = (case fl_image (in_head c) of Some img \<Rightarrow> \<not> di_protect img | None \<Rightarrow> True)"

definition readWrite :: "u64 \<Rightarrow> disk2_card \<Rightarrow> disk2_card" where
  "readWrite now c =
     (let c = loaded c
      in if \<not> fl_trackData (in_head c) then noise now c
         else let spinning = dr_spinning (dc_drive c (dc_curr c)) \<noteq> 0;
                  c = (if spinning then turned now c else c)
           in if \<not> dc_writeMode c then (if spinning then read_nibble now c else c)
              else if unprotected c then (if spinning then write_nibble c else c)
              else next_byte (dc_curr c) c)"

section \<open>The switches\<close>

definition card_switch :: "u16 \<Rightarrow> disk2_card \<Rightarrow> disk2_card" where
  "card_switch addr c =
     (let k = addr AND 0xF
      in if k < 0x8 then controlStepper addr (dc_now c) c
         else if k < 0xA then controlMotor addr (dc_now c) c
         else if k < 0xC then card_enable addr (dc_now c) c
         else if k = 0xC then readWrite (dc_now c) c
         else if k = 0xD then loadWriteProtect c
         else if k = 0xE then c
         else on_drive (dc_curr c) (\<lambda>d. d\<lparr>dr_writeLight := SPINNING_CYCLES\<rparr>) c)"

text \<open>The value read, or \<open>-1\<close> for the floating bus.\<close>

definition disk2_io :: "u16 \<Rightarrow> u8 option \<Rightarrow> u64 \<Rightarrow> disk2_card \<Rightarrow> int \<times> disk2_card" where
  "disk2_io addr wr now c =
     (let c = card_switch addr (setSequencer addr (syncStepper now c))
      in case wr of
           Some v \<Rightarrow> (0, if dc_writeMode c \<and> dc_loadMode c then c\<lparr>dc_latch := v\<rparr> else c)
         | None \<Rightarrow> (if bit addr 0 then -1 else uint (dc_latch c), c))"

definition disk2_romByte :: "u8 \<Rightarrow> disk2_card \<Rightarrow> u8" where
  "disk2_romByte off c = dc_rom c ! unat off"

section \<open>Time, reset and disks\<close>

text \<open>A count run down by the cycles that passed: the narrower of two 64-bit numbers, as an \<open>int\<close>.\<close>

definition run_down :: "int \<Rightarrow> u64 \<Rightarrow> int" where
  "run_down n cycles = n - sint (ucast (min (word_of_int n) cycles) :: u32)"

definition update_drive :: "u64 \<Rightarrow> nat \<Rightarrow> disk2_card \<Rightarrow> disk2_card" where
  "update_drive cycles i c =
     (let c = on_drive i (\<lambda>d. if dr_spinning d \<noteq> 0 \<and> \<not> dc_motorOn c
            then d\<lparr>dr_spinning := run_down (dr_spinning d) cycles\<rparr> else d) c;
          c = on_drive i (\<lambda>d. if dc_writeMode c \<and> dc_curr c = i \<and> dr_spinning d \<noteq> 0
            then d\<lparr>dr_writeLight := SPINNING_CYCLES\<rparr>
            else if dr_writeLight d \<noteq> 0 then d\<lparr>dr_writeLight := run_down (dr_writeLight d) cycles\<rparr> else d) c
      in if \<not> dc_motorOn c \<and> dr_spinning (dc_drive c i) = 0 then card_flush i c else c)"

definition card_update :: "u64 \<Rightarrow> u64 \<Rightarrow> disk2_card \<Rightarrow> disk2_card" where
  "card_update now cycles c = update_drive cycles 1 (update_drive cycles 0 (syncStepper now c))"

definition power_drive :: "nat \<Rightarrow> disk2_card \<Rightarrow> disk2_card" where
  "power_drive i c = on_drive i (\<lambda>d. d\<lparr>dr_spinning := 0, dr_writeLight := 0, dr_motorOnCycle := 0\<rparr>) (card_flush i c)"

definition card_reset :: "bool \<Rightarrow> disk2_card \<Rightarrow> disk2_card" where
  "card_reset powerCycle c =
     (let c = c\<lparr>dc_curr := 0, dc_motorOn := False, dc_magnets := 0, dc_writeMode := False, dc_loadMode := False,
            dc_deferred := False\<rparr>
      in if powerCycle then (power_drive 1 (power_drive 0 c))\<lparr>dc_lastCycle := 0, dc_lastReadLatch := 0, dc_now := 0\<rparr>
         else c)"

definition ejectDisk :: "int \<Rightarrow> disk2_card \<Rightarrow> disk2_card" where
  "ejectDisk u c =
     (if u \<noteq> 1 \<and> u \<noteq> 2 then c
      else set_floppy (nat (u - 1)) (\<lambda>f. f\<lparr>fl_image := None, fl_trackData := False\<rparr>) (card_flush (nat (u - 1)) c))"

definition card_insert :: "int \<Rightarrow> disk2_image option \<Rightarrow> disk2_card \<Rightarrow> bool \<times> disk2_card" where
  "card_insert drive img c =
     (let drive = drive mod 2;
          c = ejectDisk (drive + 1) c
      in (img \<noteq> None,
          set_floppy (nat drive) (\<lambda>f. f\<lparr>fl_image := img, fl_trackData := False, fl_dirty := False, fl_byte := 0\<rparr>) c))"

definition mountDisk :: "int \<Rightarrow> disk2_image option \<Rightarrow> disk2_card \<Rightarrow> bool \<times> disk2_card" where
  "mountDisk u opened c =
     (if u \<noteq> 1 \<and> u \<noteq> 2 then (False, c)
      else if opened = None then (False, c)
      else card_insert (u - 1) opened c)"

definition getDiskStatus :: "int \<Rightarrow> disk2_card \<Rightarrow> (int \<times> int \<times> bool) option" where
  "getDiskStatus u c =
     (if u \<noteq> 1 \<and> u \<noteq> 2 then None
      else let d = dc_drive c (nat (u - 1))
        in Some (dr_phase d div 2, 0, dr_spinning d > 0 \<and> int (dc_curr c) = u - 1))"

text \<open>The destructor writes both drives back.\<close>

definition card_close :: "disk2_card \<Rightarrow> disk2_card" where
  "card_close c = card_flush 1 (card_flush 0 c)"

section \<open>The state stays within bounds\<close>

definition image_ok :: "disk2_image \<Rightarrow> bool" where
  "image_ok img \<longleftrightarrow> 0 \<le> di_tracks img \<and>
     nat (di_tracks img) * (if di_order img = Nib then NIB_TRACK else TRACK_BYTES) \<le> length (di_data img)"

definition track_len :: "disk2_image \<Rightarrow> nat" where
  "track_len img = (if di_order img = Nib then NIB_TRACK else 6384)"

definition floppy_ok :: "int \<Rightarrow> floppy \<Rightarrow> bool" where
  "floppy_ok phase f \<longleftrightarrow> length (fl_track f) = MAX_NIBBLES \<and> (fl_dirty f \<longrightarrow> fl_trackData f) \<and>
     (case fl_image f of
        None \<Rightarrow> \<not> fl_trackData f
      | Some img \<Rightarrow> image_ok img \<and>
          (fl_trackData f \<longrightarrow> phase div 2 < di_tracks img \<and> fl_nibbles f = track_len img \<and> fl_byte f < fl_nibbles f))"

definition disk_drive_ok :: "disk_drive \<Rightarrow> bool" where
  "disk_drive_ok d \<longleftrightarrow> 0 \<le> dr_phase d \<and> dr_phase d < 80 \<and> 0 \<le> dr_spinning d \<and> dr_spinning d \<le> SPINNING_CYCLES \<and>
     0 \<le> dr_writeLight d \<and> dr_writeLight d \<le> SPINNING_CYCLES \<and> floppy_ok (dr_phase d) (dr_disk d)"

definition disk2_card_ok :: "disk2_card \<Rightarrow> bool" where
  "disk2_card_ok c \<longleftrightarrow> length (dc_rom c) = 256 \<and> dc_curr c < 2 \<and> disk_drive_ok (dc_drive c 0) \<and> disk_drive_ok (dc_drive c 1) \<and>
     (dc_motorOn c \<longrightarrow> dr_spinning (dc_drive c (dc_curr c)) = SPINNING_CYCLES)"

lemmas card_const = SPINNING_CYCLES_def MAX_NIBBLES_def NIB_TRACK_def TRACK_BYTES_def

lemma fromBytes_image_ok: "fromBytes bs ext = Inr img \<Longrightarrow> image_ok img"
  by (auto simp: fromBytes_def image_ok_def Let_def split: if_splits)

lemma length_join_loop: "length (join_loop low high off sec) = length sec"
proof (induction low high off sec rule: join_loop.induct)
  case (1 low high off sec)
  then show ?case by (subst join_loop.simps) (auto simp: Let_def)
qed

lemma length_part_loop: "length (snd so) = 4096 \<Longrightarrow> length (snd (part_loop ord tr n off so)) = 4096"
proof (induction n arbitrary: off so)
  case (Suc n)
  have "length (snd (found_mark ord w k so)) = 4096" for w k
  proof (cases so)
    case (Pair sec out)
    then have o: "length out = 4096" using Suc.prems by simp
    have b: "SECTOR_NUMBER ord ! nat sec < 16" if "0 \<le> sec" "sec < 16" using that sector_number_lt [of "nat sec" ord] by simp
    have "length (denibblizeSector w (take 256 (drop (256 * SECTOR_NUMBER ord ! nat sec) out))) = 256" if "0 \<le> sec" "sec < 16"
      using b [OF that] o by (simp add: denibblizeSector_def Let_def length_join_loop)
    then show ?thesis using o b Pair by (auto simp: found_mark_def Let_def length_put_block)
  qed
  then show ?case using Suc by (auto split: prod.split)
qed simp

lemma length_denibblize: "length (denibblize ord tr) = 4096"
  by (simp add: denibblize_def length_part_loop TRACK_BYTES_def)

lemma track_fits:
  assumes "image_ok img" and "0 \<le> t" and "t < di_tracks img"
  shows "nat t * (if di_order img = Nib then NIB_TRACK else TRACK_BYTES) + (if di_order img = Nib then NIB_TRACK else TRACK_BYTES)
    \<le> length (di_data img)"
proof -
  define n where "n = (if di_order img = Nib then NIB_TRACK else TRACK_BYTES)"
  have "Suc (nat t) \<le> nat (di_tracks img)" using assms(2,3) by linarith
  then have "Suc (nat t) * n \<le> nat (di_tracks img) * n" by (rule mult_le_mono1)
  also have "\<dots> \<le> length (di_data img)" using assms(1) by (simp add: image_ok_def n_def)
  finally show ?thesis by (simp add: n_def)
qed

lemma readTrack_some:
  assumes "image_ok img" and "0 \<le> t" and "t < di_tracks img"
  shows "\<exists>bs. readTrack t skew img = Some bs \<and> length bs = track_len img"
proof (cases "di_order img = Nib")
  case True
  then show ?thesis using track_fits [OF assms] assms by (simp add: readTrack_def track_data_def track_len_def)
next
  case False
  then have "length (track_data TRACK_BYTES t (di_data img)) = 4096"
    using track_fits [OF assms] by (simp add: track_data_def TRACK_BYTES_def)
  then show ?thesis using False assms by (simp add: readTrack_def Let_def length_nibblize track_len_def)
qed

lemma writeTrack_kept: "di_tracks (writeTrack t bs img) = di_tracks img" "di_order (writeTrack t bs img) = di_order img"
    "di_protect (writeTrack t bs img) = di_protect img" "track_len (writeTrack t bs img) = track_len img"
  by (auto simp: writeTrack_def track_len_def)

lemma writeTrack_ok:
  assumes "image_ok img" and "length bs = track_len img"
  shows "image_ok (writeTrack t bs img)"
proof (cases "t < 0 \<or> t \<ge> di_tracks img \<or> di_protect img")
  case True then show ?thesis using assms(1) by (simp add: writeTrack_def)
next
  case False
  then have f: "nat t * (if di_order img = Nib then NIB_TRACK else TRACK_BYTES) + (if di_order img = Nib then NIB_TRACK else TRACK_BYTES)
    \<le> length (di_data img)" using track_fits [OF assms(1)] by simp
  then have "length (di_data (writeTrack t bs img)) = length (di_data img)" using False assms(2)
    by (cases "di_order img = Nib") (simp_all add: writeTrack_def put_track_def length_denibblize track_len_def TRACK_BYTES_def)
  then show ?thesis using assms(1) by (simp add: image_ok_def writeTrack_kept)
qed

lemma flush_fields: "dr_phase (drive_flush d) = dr_phase d" "dr_spinning (drive_flush d) = dr_spinning d"
    "dr_writeLight (drive_flush d) = dr_writeLight d" "dr_motorOnCycle (drive_flush d) = dr_motorOnCycle d"
    "fl_track (dr_disk (drive_flush d)) = fl_track (dr_disk d)" "fl_nibbles (dr_disk (drive_flush d)) = fl_nibbles (dr_disk d)"
    "fl_byte (dr_disk (drive_flush d)) = fl_byte (dr_disk d)" "fl_trackData (dr_disk (drive_flush d)) = fl_trackData (dr_disk d)"
    "\<not> fl_dirty (dr_disk (drive_flush d))" "fl_image (dr_disk (drive_flush d)) = None \<longleftrightarrow> fl_image (dr_disk d) = None"
  by (simp_all add: drive_flush_def Let_def split: option.split)

lemma flush_ok:
  assumes "disk_drive_ok d"
  shows "disk_drive_ok (drive_flush d)"
proof (cases "fl_image (dr_disk d)")
  case None
  then show ?thesis using assms by (simp add: disk_drive_ok_def floppy_ok_def drive_flush_def Let_def)
next
  case (Some img)
  have "image_ok (writeTrack (dr_phase d div 2) (take (fl_nibbles (dr_disk d)) (fl_track (dr_disk d))) img)" if "fl_dirty (dr_disk d)"
    using assms Some that
    by (intro writeTrack_ok) (auto simp: disk_drive_ok_def floppy_ok_def card_const track_len_def)
  then show ?thesis using assms Some
    by (auto simp: disk_drive_ok_def floppy_ok_def drive_flush_def Let_def writeTrack_kept)
qed

lemma readTrack_ok:
  assumes "disk_drive_ok d" and "\<not> fl_dirty (dr_disk d)"
  shows "disk_drive_ok (drive_readTrack d)"
proof (cases "fl_image (dr_disk d)")
  case None
  then show ?thesis using assms by (simp add: disk_drive_ok_def floppy_ok_def drive_readTrack_def Let_def)
next
  case (Some img)
  show ?thesis
  proof (cases "dr_phase d div 2 \<ge> di_tracks img")
    case True
    then show ?thesis using assms Some by (simp add: disk_drive_ok_def floppy_ok_def drive_readTrack_def Let_def)
  next
    case False
    then obtain bs where bs: "readTrack (dr_phase d div 2) True img = Some bs" "length bs = track_len img"
      using readTrack_some [of img "dr_phase d div 2" True] assms Some
      by (auto simp: disk_drive_ok_def floppy_ok_def)
    have "0 < track_len img" "track_len img \<le> MAX_NIBBLES" by (simp_all add: track_len_def card_const)
    then show ?thesis using assms Some False bs
      by (simp add: disk_drive_ok_def floppy_ok_def drive_readTrack_def Let_def)
  qed
qed

text \<open>What an operation on one drive must keep for the card.\<close>

definition card_pre :: "disk2_card \<Rightarrow> bool" where
  "card_pre c \<longleftrightarrow> length (dc_rom c) = 256 \<and> dc_curr c < 2 \<and> disk_drive_ok (dc_drive c 0) \<and> disk_drive_ok (dc_drive c 1)"

lemma on_drive_fields [simp]:
  "dc_rom (on_drive i f c) = dc_rom c" "dc_curr (on_drive i f c) = dc_curr c" "dc_motorOn (on_drive i f c) = dc_motorOn c"
  "dc_magnets (on_drive i f c) = dc_magnets c" "dc_writeMode (on_drive i f c) = dc_writeMode c"
  "dc_loadMode (on_drive i f c) = dc_loadMode c" "dc_latch (on_drive i f c) = dc_latch c"
  "dc_lastCycle (on_drive i f c) = dc_lastCycle c" "dc_lastReadLatch (on_drive i f c) = dc_lastReadLatch c"
  "dc_now (on_drive i f c) = dc_now c" "dc_deferred (on_drive i f c) = dc_deferred c"
  "dc_deferredAddr (on_drive i f c) = dc_deferredAddr c" "dc_deferredAt (on_drive i f c) = dc_deferredAt c"
  "dc_rand (on_drive i f c) = dc_rand c" "dc_drive (on_drive i f c) = (dc_drive c)(i := f (dc_drive c i))"
  by (simp_all add: on_drive_def)

lemma drive_cases: "(i :: nat) < 2 \<longleftrightarrow> i = 0 \<or> i = 1"
  by auto

lemma card_pre_drive: "card_pre c \<Longrightarrow> i < 2 \<Longrightarrow> disk_drive_ok (dc_drive c i)"
  by (auto simp: card_pre_def drive_cases)

lemma card_ok_pre: "disk2_card_ok c \<longleftrightarrow> card_pre c \<and> (dc_motorOn c \<longrightarrow> dr_spinning (dc_drive c (dc_curr c)) = SPINNING_CYCLES)"
  by (auto simp: disk2_card_ok_def card_pre_def)

lemma on_drive_pre: "card_pre c \<Longrightarrow> i < 2 \<Longrightarrow> disk_drive_ok (f (dc_drive c i)) \<Longrightarrow> card_pre (on_drive i f c)"
  by (simp add: card_pre_def)

lemma on_drive_ok:
  "disk2_card_ok c \<Longrightarrow> i < 2 \<Longrightarrow> disk_drive_ok (f (dc_drive c i)) \<Longrightarrow> dr_spinning (f (dc_drive c i)) = dr_spinning (dc_drive c i) \<Longrightarrow>
    disk2_card_ok (on_drive i f c)"
  by (auto simp: card_ok_pre on_drive_pre)

lemma card_flush_ok: "disk2_card_ok c \<Longrightarrow> i < 2 \<Longrightarrow> disk2_card_ok (card_flush i c)"
  unfolding card_flush_def
  by (rule on_drive_ok) (simp_all add: flush_ok flush_fields card_ok_pre card_pre_drive)

lemma checkSpinning_ok:
  assumes "card_pre c"
  shows "disk2_card_ok (checkSpinning b now c)"
proof -
  have d: "disk_drive_ok (d\<lparr>dr_spinning := SPINNING_CYCLES\<rparr>)" "disk_drive_ok (d\<lparr>dr_motorOnCycle := n\<rparr>)"
    if "disk_drive_ok d" for d n
    using that by (simp_all add: disk_drive_ok_def SPINNING_CYCLES_def)
  have "dc_curr c = 0 \<or> dc_curr c = 1" using assms by (auto simp: card_pre_def)
  then show ?thesis using assms d
    by (elim disjE) (simp_all add: checkSpinning_def Let_def card_ok_pre card_pre_def)
qed

lemma controlMotor_ok: "disk2_card_ok c \<Longrightarrow> disk2_card_ok (controlMotor addr now c)"
  unfolding controlMotor_def Let_def by (rule checkSpinning_ok) (simp add: card_ok_pre card_pre_def)

lemma card_enable_ok: "disk2_card_ok c \<Longrightarrow> disk2_card_ok (card_enable addr now c)"
  unfolding card_enable_def Let_def
  by (rule checkSpinning_ok) (simp add: card_ok_pre card_pre_def, simp add: disk_drive_ok_def SPINNING_CYCLES_def)

lemma card_ok_update:
  "disk2_card_ok (c\<lparr>dc_deferred := b\<rparr>) = disk2_card_ok c" "disk2_card_ok (c\<lparr>dc_deferredAddr := a\<rparr>) = disk2_card_ok c"
  "disk2_card_ok (c\<lparr>dc_deferredAt := n\<rparr>) = disk2_card_ok c" "disk2_card_ok (c\<lparr>dc_magnets := m\<rparr>) = disk2_card_ok c"
  "disk2_card_ok (c\<lparr>dc_writeMode := b\<rparr>) = disk2_card_ok c" "disk2_card_ok (c\<lparr>dc_loadMode := b\<rparr>) = disk2_card_ok c"
  "disk2_card_ok (c\<lparr>dc_latch := l\<rparr>) = disk2_card_ok c" "disk2_card_ok (c\<lparr>dc_lastCycle := n\<rparr>) = disk2_card_ok c"
  "disk2_card_ok (c\<lparr>dc_lastReadLatch := n\<rparr>) = disk2_card_ok c" "disk2_card_ok (c\<lparr>dc_now := n\<rparr>) = disk2_card_ok c"
  "disk2_card_ok (c\<lparr>dc_rand := r\<rparr>) = disk2_card_ok c"
  by (simp_all add: disk2_card_ok_def)

text \<open>The deferred change either only ends, or the head of the drive in use moves by a half track.\<close>

lemma stepperDeferred_cases:
  obtains "stepperDeferred c = c\<lparr>dc_deferred := False\<rparr>"
  | np where "0 \<le> np" "np < 80"
      "stepperDeferred c = on_drive (dc_curr c) (move_head np) (card_flush (dc_curr c) (c\<lparr>dc_deferred := False\<rparr>))"
proof (cases "new_phase (dc_magnets c) (dr_phase (dc_drive c (dc_curr c))) = dr_phase (dc_drive c (dc_curr c))")
  case True
  then show ?thesis using that(1) by (simp add: stepperDeferred_def)
next
  case False
  have "0 \<le> new_phase m p" "new_phase m p < 80" for m p by (simp_all add: new_phase_def Let_def)
  moreover have "stepperDeferred c = on_drive (dc_curr c)
      (move_head (new_phase (dc_magnets c) (dr_phase (dc_drive c (dc_curr c))))) (card_flush (dc_curr c) (c\<lparr>dc_deferred := False\<rparr>))"
    using False by (simp add: stepperDeferred_def Let_def)
  ultimately show ?thesis by (rule that(2))
qed

lemma move_head_ok: "disk_drive_ok d \<Longrightarrow> \<not> fl_dirty (dr_disk d) \<Longrightarrow> 0 \<le> np \<Longrightarrow> np < 80 \<Longrightarrow> disk_drive_ok (move_head np d)"
  by (auto simp: disk_drive_ok_def floppy_ok_def move_head_def split: option.split)

lemma stepperDeferred_ok:
  assumes "disk2_card_ok c"
  shows "disk2_card_ok (stepperDeferred c)"
proof (cases rule: stepperDeferred_cases [of c])
  case 1
  then show ?thesis using assms by (simp add: card_ok_update)
next
  case (2 np)
  have c: "dc_curr c < 2" using assms by (simp add: disk2_card_ok_def)
  have k: "disk2_card_ok (card_flush (dc_curr c) (c\<lparr>dc_deferred := False\<rparr>))"
    using assms c by (simp add: card_flush_ok card_ok_update)
  have "disk_drive_ok (move_head np (drive_flush (dc_drive c (dc_curr c))))"
    using assms c 2 by (intro move_head_ok) (simp_all add: flush_ok flush_fields card_ok_pre card_pre_drive)
  then show ?thesis unfolding 2 using c by (intro on_drive_ok [OF k]) (simp_all add: card_flush_def move_head_def)
qed

lemma controlStepper_ok: "disk2_card_ok c \<Longrightarrow> disk2_card_ok (controlStepper addr now c)"
  by (simp add: controlStepper_def Let_def card_ok_update stepperDeferred_ok)

lemma syncStepper_ok: "disk2_card_ok c \<Longrightarrow> disk2_card_ok (syncStepper now c)"
  by (simp add: syncStepper_def Let_def card_ok_update stepperDeferred_ok)

lemma setSequencer_ok: "disk2_card_ok (setSequencer addr c) = disk2_card_ok c"
  by (simp add: setSequencer_def Let_def card_ok_update)

lemma loadWriteProtect_ok: "disk2_card_ok (loadWriteProtect c) = disk2_card_ok c"
  by (simp add: loadWriteProtect_def Let_def card_ok_update)

lemma noise_ok: "disk2_card_ok (noise now c) = disk2_card_ok c"
  by (simp add: noise_def Let_def card_ok_update)

lemma set_floppy_ok:
  assumes "disk2_card_ok c" and "i < 2" and "floppy_ok (dr_phase (dc_drive c i)) (g (dr_disk (dc_drive c i)))"
  shows "disk2_card_ok (set_floppy i g c)"
  unfolding set_floppy_def
  by (rule on_drive_ok) (use assms card_pre_drive [of c i] in \<open>simp_all add: disk_drive_ok_def card_ok_pre\<close>)

lemma card_floppy_ok: "disk2_card_ok c \<Longrightarrow> i < 2 \<Longrightarrow> floppy_ok (dr_phase (dc_drive c i)) (dr_disk (dc_drive c i))"
  using card_pre_drive [of c i] by (simp add: card_ok_pre disk_drive_ok_def)

lemma floppy_ok_byte: "floppy_ok p f \<Longrightarrow> (fl_trackData f \<Longrightarrow> b < fl_nibbles f) \<Longrightarrow> floppy_ok p (f\<lparr>fl_byte := b\<rparr>)"
  by (auto simp: floppy_ok_def split: option.split)

lemma floppy_ok_count: "floppy_ok p f \<Longrightarrow> fl_trackData f \<Longrightarrow> fl_byte f < fl_nibbles f \<and> fl_nibbles f \<le> length (fl_track f)"
  by (auto simp: floppy_ok_def track_len_def card_const split: option.split_asm)

lemma next_byte_ok:
  assumes "disk2_card_ok c" and "i < 2"
  shows "disk2_card_ok (next_byte i c)"
  unfolding next_byte_def using assms floppy_ok_count [OF card_floppy_ok [OF assms]]
  by (intro set_floppy_ok floppy_ok_byte card_floppy_ok) auto

lemma turn_byte_lt: "b < n \<Longrightarrow> turn_byte b k n < n"
proof -
  assume b: "b < n"
  then have "k mod n < n" by simp
  then show ?thesis using b unfolding turn_byte_def Let_def by (split if_split) linarith
qed

lemma turned_ok:
  assumes "disk2_card_ok c"
  shows "disk2_card_ok (turned now c)"
proof -
  have i: "dc_curr c < 2" using assms by (simp add: disk2_card_ok_def)
  show ?thesis
    using assms i turn_byte_lt floppy_ok_count [OF card_floppy_ok [OF assms i]]
    by (auto simp: turned_def Let_def card_ok_update intro!: set_floppy_ok floppy_ok_byte card_floppy_ok)
qed

lemma turned_fields [simp]:
  "dc_curr (turned now c) = dc_curr c" "dc_writeMode (turned now c) = dc_writeMode c" "dc_latch (turned now c) = dc_latch c"
  "dc_lastReadLatch (turned now c) = dc_lastReadLatch c" "dc_now (turned now c) = dc_now c" "dc_deferred (turned now c) = dc_deferred c"
  "fl_trackData (in_head (turned now c)) = fl_trackData (in_head c)" "fl_image (in_head (turned now c)) = fl_image (in_head c)"
  "dr_spinning (dc_drive (turned now c) (dc_curr c)) = dr_spinning (dc_drive c (dc_curr c))"
  by (simp_all add: turned_def Let_def set_floppy_def in_head_def)

lemma loaded_fields [simp]:
  "dc_curr (loaded c) = dc_curr c" "dc_writeMode (loaded c) = dc_writeMode c" "dc_lastReadLatch (loaded c) = dc_lastReadLatch c"
  "dc_lastCycle (loaded c) = dc_lastCycle c" "dc_now (loaded c) = dc_now c" "dc_deferred (loaded c) = dc_deferred c"
  "dc_latch (loaded c) = dc_latch c"
  by (simp_all add: loaded_def)

lemma spinning_kept: "dr_spinning (drive_readTrack d) = dr_spinning d"
  by (simp add: drive_readTrack_def Let_def split: option.split)

lemma spinning_loaded [simp]: "dr_spinning (dc_drive (loaded c) (dc_curr c)) = dr_spinning (dc_drive c (dc_curr c))"
  by (simp add: loaded_def spinning_kept)

lemma loaded_ok:
  assumes "disk2_card_ok c"
  shows "disk2_card_ok (loaded c)"
proof -
  have i: "dc_curr c < 2" using assms by (simp add: disk2_card_ok_def)
  have "\<not> fl_dirty (in_head c)" if "\<not> fl_trackData (in_head c)"
    using card_floppy_ok [OF assms i] that by (auto simp: floppy_ok_def in_head_def)
  then have "disk2_card_ok (on_drive (dc_curr c) drive_readTrack c)" if "\<not> fl_trackData (in_head c)"
    using assms i that by (intro on_drive_ok readTrack_ok) (simp_all add: card_pre_drive card_ok_pre in_head_def spinning_kept)
  then show ?thesis using assms by (simp add: loaded_def)
qed

lemma read_nibble_ok: "disk2_card_ok c \<Longrightarrow> disk2_card_ok (read_nibble now c)"
  by (auto simp: read_nibble_def Let_def card_ok_update intro!: next_byte_ok) (simp add: disk2_card_ok_def)

lemma write_nibble_ok:
  assumes "disk2_card_ok c" and "fl_trackData (in_head c)"
  shows "disk2_card_ok (write_nibble c)"
proof -
  have i: "dc_curr c < 2" using assms by (simp add: disk2_card_ok_def)
  show ?thesis unfolding write_nibble_def
    using card_floppy_ok [OF assms(1) i] assms(2)
    by (intro next_byte_ok set_floppy_ok assms(1)) (auto simp: floppy_ok_def in_head_def i split: option.split option.split_asm)
qed

lemma readWrite_ok: "disk2_card_ok c \<Longrightarrow> disk2_card_ok (readWrite now c)"
proof -
  assume c: "disk2_card_ok c"
  then have "dc_curr c < 2" by (simp add: disk2_card_ok_def)
  then show ?thesis using loaded_ok [OF c]
    by (simp add: readWrite_def Let_def noise_ok read_nibble_ok write_nibble_ok next_byte_ok turned_ok)
qed

lemma card_switch_ok:
  assumes "disk2_card_ok c"
  shows "disk2_card_ok (card_switch addr c)"
proof -
  have "disk2_card_ok (on_drive (dc_curr c) (\<lambda>d. d\<lparr>dr_writeLight := SPINNING_CYCLES\<rparr>) c)"
    using assms card_pre_drive [of c "dc_curr c"]
    by (intro on_drive_ok) (simp_all add: card_ok_pre card_pre_def disk_drive_ok_def SPINNING_CYCLES_def)
  then show ?thesis
    using assms by (simp add: card_switch_def Let_def controlStepper_ok controlMotor_ok card_enable_ok readWrite_ok loadWriteProtect_ok)
qed

lemma disk2_io_ok: "disk2_card_ok c \<Longrightarrow> disk2_card_ok (snd (disk2_io addr wr now c))"
  by (simp add: disk2_io_def Let_def card_switch_ok setSequencer_ok syncStepper_ok card_ok_update split: option.split)

lemma run_down_bounds:
  assumes "0 \<le> n" and "n \<le> SPINNING_CYCLES"
  shows "0 \<le> run_down n k \<and> run_down n k \<le> n"
proof -
  define m where "m = min (word_of_int n) k"
  have "uint m \<le> uint (word_of_int n :: u64)" unfolding m_def by (metis min.cobounded1 word_le_def)
  also have "uint (word_of_int n :: u64) = n" using assms by (simp add: uint_word_of_int SPINNING_CYCLES_def)
  finally have m: "uint m \<le> n" "0 \<le> uint m" by simp_all
  have u: "uint (ucast m :: u32) = uint m" using m assms by (simp add: uint_up_ucast unsigned_ucast_eq take_bit_int_eq_self SPINNING_CYCLES_def)
  have "uint m < 2147483648" "- 2147483648 \<le> uint m" using m assms unfolding SPINNING_CYCLES_def by linarith+
  then have "sint (ucast m :: u32) = uint m" unfolding sint_uint u by (simp add: signed_take_bit_int_eq_self)
  then show ?thesis using m by (simp add: run_down_def m_def)
qed

lemma update_drive_ok:
  assumes "disk2_card_ok c" and "i < 2"
  shows "disk2_card_ok (update_drive k i c)"
proof -
  define g where "g d = (if dr_spinning d \<noteq> 0 \<and> \<not> dc_motorOn c then d\<lparr>dr_spinning := run_down (dr_spinning d) k\<rparr> else d)" for d :: disk_drive
  define h where "h d = (if dc_writeMode c \<and> dc_curr c = i \<and> dr_spinning d \<noteq> 0 then d\<lparr>dr_writeLight := SPINNING_CYCLES\<rparr>
    else if dr_writeLight d \<noteq> 0 then d\<lparr>dr_writeLight := run_down (dr_writeLight d) k\<rparr> else d)" for d :: disk_drive
  have g: "disk_drive_ok (g d)" if "disk_drive_ok d" for d
    using that run_down_bounds [of "dr_spinning d" k] by (auto simp: g_def disk_drive_ok_def)
  have h: "disk_drive_ok (h d)" if "disk_drive_ok d" for d
    using that run_down_bounds [of "dr_writeLight d" k] by (auto simp: h_def disk_drive_ok_def card_const)
  have "card_pre (on_drive i h (on_drive i g c))"
    using assms g h by (intro on_drive_pre) (simp_all add: card_ok_pre card_pre_drive on_drive_pre)
  moreover have "dr_spinning (h (g d)) = dr_spinning d" if "dc_motorOn c" for d using that by (simp add: g_def h_def)
  ultimately have "disk2_card_ok (on_drive i h (on_drive i g c))" using assms(1) by (auto simp: card_ok_pre)
  then show ?thesis using assms(2)
    unfolding update_drive_def Let_def on_drive_fields g_def [abs_def, symmetric] h_def [abs_def, symmetric]
    by (simp add: card_flush_ok)
qed

lemma card_update_ok: "disk2_card_ok c \<Longrightarrow> disk2_card_ok (card_update now k c)"
  by (simp add: card_update_def update_drive_ok syncStepper_ok)

lemma power_drive_ok:
  assumes "disk2_card_ok c" and "i < 2" and "\<not> dc_motorOn c"
  shows "disk2_card_ok (power_drive i c)"
proof -
  have k: "card_pre (card_flush i c)" using card_flush_ok [OF assms(1,2)] by (simp add: card_ok_pre)
  have "card_pre (power_drive i c)" unfolding power_drive_def
    using card_pre_drive [OF k assms(2)] by (intro on_drive_pre k assms(2)) (simp add: disk_drive_ok_def SPINNING_CYCLES_def)
  then show ?thesis using assms(3) by (simp add: card_ok_pre power_drive_def card_flush_def)
qed

lemma card_reset_ok:
  assumes "disk2_card_ok c"
  shows "disk2_card_ok (card_reset p c)"
proof -
  have "disk2_card_ok (c\<lparr>dc_curr := 0, dc_motorOn := False, dc_magnets := 0, dc_writeMode := False, dc_loadMode := False,
            dc_deferred := False\<rparr>)" (is "disk2_card_ok ?c") using assms by (simp add: disk2_card_ok_def)
  moreover have "disk2_card_ok (power_drive 1 (power_drive 0 ?c))"
    by (intro power_drive_ok calculation) (simp_all add: power_drive_def card_flush_def)
  ultimately show ?thesis by (simp add: card_reset_def Let_def card_ok_update)
qed

lemma ejectDisk_ok: "disk2_card_ok c \<Longrightarrow> disk2_card_ok (ejectDisk u c)"
proof -
  assume c: "disk2_card_ok c"
  have "disk2_card_ok (set_floppy i (\<lambda>f. f\<lparr>fl_image := None, fl_trackData := False\<rparr>) (card_flush i c))" if i: "i < 2" for i
  proof (rule set_floppy_ok [OF card_flush_ok [OF c i] i])
    show "floppy_ok (dr_phase (dc_drive (card_flush i c) i)) ((dr_disk (dc_drive (card_flush i c) i))\<lparr>fl_image := None, fl_trackData := False\<rparr>)"
      using card_floppy_ok [OF c i] by (simp add: card_flush_def flush_fields floppy_ok_def)
  qed
  then show ?thesis using c by (simp add: ejectDisk_def)
qed

lemma card_insert_ok:
  assumes "disk2_card_ok c" and "case img of None \<Rightarrow> True | Some im \<Rightarrow> image_ok im"
  shows "disk2_card_ok (snd (card_insert d img c))"
proof -
  have k: "disk2_card_ok (ejectDisk (d mod 2 + 1) c)" by (rule ejectDisk_ok [OF assms(1)])
  have i: "nat (d mod 2) < 2" by simp
  show ?thesis unfolding card_insert_def Let_def snd_conv
    by (rule set_floppy_ok [OF k i]) (use card_floppy_ok [OF k i] assms(2) in \<open>simp add: floppy_ok_def split: option.split option.split_asm\<close>)
qed

section \<open>Every run of the card\<close>

lemma openImage_image_ok: "openImage opened path = Inr img \<Longrightarrow> image_ok img"
  by (auto simp: openImage_def image_ok_def map_sum_def dest!: fromBytes_image_ok split: option.splits sum.splits)

text \<open>What can happen to the card; the host's file at a mounted path may be missing, unreadable or write protected.\<close>

datatype card_op =
    Io u16 "u8 option" u64
  | Update u64 u64
  | Reset bool
  | Mount int "(u8 list \<times> bool) option" string
  | Eject int

definition card_op_step :: "card_op \<Rightarrow> disk2_card \<Rightarrow> disk2_card" where
  "card_op_step x c = (case x of
       Io addr wr now \<Rightarrow> snd (disk2_io addr wr now c)
     | Update now cycles \<Rightarrow> card_update now cycles c
     | Reset p \<Rightarrow> card_reset p c
     | Mount u file path \<Rightarrow> snd (mountDisk u (case openImage file path of Inl _ \<Rightarrow> None | Inr img \<Rightarrow> Some img) c)
     | Eject u \<Rightarrow> ejectDisk u c)"

lemma card_op_ok: "disk2_card_ok c \<Longrightarrow> disk2_card_ok (card_op_step x c)"
  by (cases x) (auto simp: card_op_step_def disk2_io_ok card_update_ok card_reset_ok ejectDisk_ok mountDisk_def
      intro!: card_insert_ok dest: openImage_image_ok split: sum.split)

text \<open>
  C27: whatever sequence of accesses, time steps, resets, mounts (of writable and of write protected images) and
  ejections the card goes through, its state stays within bounds: half tracks from 0 to 79, a byte position inside
  the track that is loaded, a loaded track that exists on the image, changed nibbles only on a loaded track, and a running motor only on the drive in use.
\<close>

theorem disk2_card_safe: "disk2_card_ok (fold card_op_step ops (disk2_card_new rom))"
proof -
  have "disk2_card_ok (disk2_card_new rom)"
    by (simp add: disk2_card_new_def disk2_card_ok_def disk_drive_ok_def floppy_ok_def empty_drive_def card_const)
  then show ?thesis by (induction ops arbitrary: rule: rev_induct) (simp_all add: card_op_ok)
qed

section \<open>Reading the disk as it turns\<close>

text \<open>A program that polls the latch, the given numbers of cycles after each other.\<close>

fun read_gaps :: "nat list \<Rightarrow> disk2_card \<Rightarrow> int list" where
  "read_gaps [] c = []"
| "read_gaps (g # gs) c = (case disk2_io 0xC None (dc_now c + of_nat g) c of (v, c') \<Rightarrow> v # read_gaps gs c')"

definition streaming :: "disk2_card \<Rightarrow> bool" where
  "streaming c \<longleftrightarrow> dr_spinning (dc_drive c (dc_curr c)) \<noteq> 0 \<and> \<not> dc_writeMode c \<and> \<not> dc_deferred c \<and>
     dc_lastCycle c = dc_now c \<and> dc_lastReadLatch c \<le> dc_now c"

lemma later:
  fixes now last :: u64
  assumes "last \<le> now" and "unat now + g < 2 ^ 64" and "0 < g"
  shows "now < now + of_nat g" "now + of_nat g - now = of_nat g" "unat (of_nat g :: u64) = g"
    "unat (now + of_nat g - last) = unat now - unat last + g" "last \<le> now + of_nat g" "unat (now + of_nat g) = unat now + g"
proof -
  show u: "unat (of_nat g :: u64) = g" using assms(2) by (simp add: unsigned_of_nat take_bit_nat_eq_self)
  show n: "unat (now + of_nat g) = unat now + g" using assms(2) u by (simp add: unat_word_ariths)
  show "now < now + of_nat g" using n assms(3) by (simp add: word_less_nat_alt)
  show l: "last \<le> now + of_nat g" using n assms(1) by (simp add: word_le_nat_alt)
  show "unat (now + of_nat g - last) = unat now - unat last + g"
    using unat_sub [OF l] n assms(1) by (simp add: word_le_nat_alt)
qed simp

lemma read_step:
  assumes s: "streaming c" and t: "fl_trackData (in_head (loaded c))" and g: "7 \<le> g" "g \<le> 40" "unat (dc_now c) + g < 2 ^ 64"
  defines "f \<equiv> in_head (loaded c)"
  shows "fst (disk2_io 0xC None (dc_now c + of_nat g) c) = uint (fl_track f ! fl_byte f)"
    and "streaming (snd (disk2_io 0xC None (dc_now c + of_nat g) c))"
    and "in_head (snd (disk2_io 0xC None (dc_now c + of_nat g) c)) = f\<lparr>fl_byte := (if fl_byte f + 1 \<ge> fl_nibbles f then 0 else fl_byte f + 1)\<rparr>"
    and "dc_now (snd (disk2_io 0xC None (dc_now c + of_nat g) c)) = dc_now c + of_nat g"
proof -
  have l: "dc_lastReadLatch c \<le> dc_now c" using s by (simp add: streaming_def)
  note b = later [OF l g(3)]
  define t where "t = dc_now c + of_nat g"
  have bt: "dc_now c < t" "t - dc_now c = of_nat g" "\<not> of_nat g > (40 :: u64)" "\<not> t - dc_lastReadLatch c \<le> 6" "dc_lastReadLatch c \<le> t"
    using b g by (simp_all add: t_def word_less_nat_alt word_le_nat_alt)
  define c1 where "c1 = c\<lparr>dc_now := t, dc_loadMode := False\<rparr>"
  have sync: "setSequencer 0xC (syncStepper t c) = c1"
    using s bt(1) by (simp add: syncStepper_def setSequencer_def streaming_def c1_def Let_def)
  have ld: "loaded c1 = (loaded c)\<lparr>dc_now := t, dc_loadMode := False\<rparr>"
    by (simp add: loaded_def in_head_def c1_def on_drive_def)
  define c2 where "c2 = (loaded c1)\<lparr>dc_lastCycle := t\<rparr>"
  have f: "in_head (loaded c1) = f" "in_head c2 = f" by (simp_all add: ld f_def in_head_def c2_def)
  have keep: "dc_curr (loaded c1) = dc_curr c" "dc_lastCycle (loaded c1) = dc_now c" "\<not> dc_writeMode (loaded c1)"
    "dr_spinning (dc_drive (loaded c1) (dc_curr c)) \<noteq> 0"
    "dc_curr c2 = dc_curr c" "\<not> dc_writeMode c2" "\<not> dc_deferred c2" "dc_lastReadLatch c2 = dc_lastReadLatch c" "dc_now c2 = t"
    "dc_lastCycle c2 = t" "dr_spinning (dc_drive c2 (dc_curr c)) \<noteq> 0"
    using s by (simp_all add: ld streaming_def c2_def)
  have "turned t (loaded c1) = c2" using keep bt by (simp add: turned_def Let_def c2_def)
  then have rw: "readWrite t c1 = next_byte (dc_curr c) (c2\<lparr>dc_latch := fl_track f ! fl_byte f, dc_lastReadLatch := t\<rparr>)"
    using keep bt f assms(2) by (simp add: readWrite_def Let_def read_nibble_def f_def [symmetric])
  have io: "disk2_io 0xC None t c = (uint (dc_latch (readWrite t c1)), readWrite t c1)"
    by (simp add: disk2_io_def Let_def sync card_switch_def c1_def)
  show "fst (disk2_io 0xC None (dc_now c + of_nat g) c) = uint (fl_track f ! fl_byte f)"
    unfolding t_def [symmetric] io rw by (simp add: next_byte_def set_floppy_def)
  show "streaming (snd (disk2_io 0xC None (dc_now c + of_nat g) c))"
    unfolding t_def [symmetric] io rw using keep by (simp add: next_byte_def set_floppy_def streaming_def)
  show "in_head (snd (disk2_io 0xC None (dc_now c + of_nat g) c)) = f\<lparr>fl_byte := (if fl_byte f + 1 \<ge> fl_nibbles f then 0 else fl_byte f + 1)\<rparr>"
    unfolding t_def [symmetric] io rw using keep f by (simp add: next_byte_def set_floppy_def in_head_def)
  show "dc_now (snd (disk2_io 0xC None (dc_now c + of_nat g) c)) = dc_now c + of_nat g"
    unfolding t_def [symmetric] io rw using keep by (simp add: next_byte_def set_floppy_def)
qed

lemma loaded_id: "fl_trackData (in_head c) \<Longrightarrow> loaded c = c"
  by (simp add: loaded_def)

lemma read_gaps_from:
  assumes "streaming c" and "fl_trackData (in_head (loaded c))" and "fl_byte (in_head (loaded c)) < fl_nibbles (in_head (loaded c))"
    and "list_all (\<lambda>g. 7 \<le> g \<and> g \<le> 40) gs" and "unat (dc_now c) + sum_list gs < 2 ^ 64"
  shows "read_gaps gs c = (let f = in_head (loaded c) in map (\<lambda>k. uint (fl_track f ! ((fl_byte f + k) mod fl_nibbles f))) [0..<length gs])"
  using assms
proof (induction gs arbitrary: c)
  case (Cons g gs)
  define f where "f = in_head (loaded c)"
  define c' where "c' = snd (disk2_io 0xC None (dc_now c + of_nat g) c)"
  define b where "b = (if fl_byte f + 1 \<ge> fl_nibbles f then 0 else fl_byte f + 1)"
  have g: "7 \<le> g" "g \<le> 40" "unat (dc_now c) + g < 2 ^ 64" using Cons.prems by auto
  note st = read_step [OF Cons.prems(1,2) g, folded f_def c'_def, folded b_def]
  have n: "unat (dc_now c') = unat (dc_now c) + g"
    using later(6) [of "dc_now c" "dc_now c" g] g by (simp add: st(4))
  have fb: "fl_byte f < fl_nibbles f" "fl_trackData f" using Cons.prems by (simp_all add: f_def)
  have b: "b < fl_nibbles f" "b = (fl_byte f + 1) mod fl_nibbles f" using fb by (auto simp: b_def le_Suc_eq)
  have l: "loaded c' = c'" using st(3) fb by (intro loaded_id) simp
  have "read_gaps gs c' = map (\<lambda>k. uint (fl_track f ! ((b + k) mod fl_nibbles f))) [0..<length gs]"
    using Cons.IH [OF st(2)] Cons.prems l fb b(1) n st(3) by (simp add: Let_def)
  moreover have "(b + k) mod fl_nibbles f = (fl_byte f + Suc k) mod fl_nibbles f" for k unfolding b(2) by (simp add: mod_simps)
  ultimately have "read_gaps (g # gs) c = uint (fl_track f ! fl_byte f) # map (\<lambda>k. uint (fl_track f ! ((fl_byte f + Suc k) mod fl_nibbles f))) [0..<length gs]"
    using st(1) by (simp add: c'_def case_prod_unfold)
  also have "\<dots> = map (\<lambda>k. uint (fl_track f ! ((fl_byte f + k) mod fl_nibbles f))) [0..<Suc (length gs)]"
    unfolding upt_conv_Cons [of 0 "Suc (length gs)", OF zero_less_Suc] map_Suc_upt [symmetric]
    using fb by (simp add: comp_def)
  finally show ?case by (simp add: Let_def f_def)
qed simp

text \<open>
  While the disk turns, a program that polls the latch every 7 to 40 cycles sees every nibble of the track under
  the head once and in order, from the one under the head, wrapping round at the end of the track.
\<close>

theorem disk_read_stream:
  assumes "disk2_card_ok c" and "streaming c" and "fl_trackData (in_head c)"
    and "list_all (\<lambda>g. 7 \<le> g \<and> g \<le> 40) gs" and "unat (dc_now c) + sum_list gs < 2 ^ 64"
  shows "read_gaps gs c = (let f = in_head c; nibbles = take (fl_nibbles f) (fl_track f)
    in map (\<lambda>k. uint (rotate (fl_byte f) nibbles ! (k mod length nibbles))) [0..<length gs])"
proof -
  define f where "f = in_head c"
  have "dc_curr c < 2" using assms(1) by (simp add: disk2_card_ok_def)
  then have f: "fl_byte f < fl_nibbles f" "fl_nibbles f \<le> length (fl_track f)"
    using floppy_ok_count [OF card_floppy_ok [OF assms(1)]] assms(3) by (simp_all add: f_def in_head_def)
  have l: "loaded c = c" using assms(3) by (rule loaded_id)
  have n: "length (take (fl_nibbles f) (fl_track f)) = fl_nibbles f" using f by simp
  have m: "k mod fl_nibbles f < fl_nibbles f" for k using f(1) by simp
  have "rotate (fl_byte f) (take (fl_nibbles f) (fl_track f)) ! (k mod fl_nibbles f) = fl_track f ! ((fl_byte f + k) mod fl_nibbles f)" for k
    using n m by (simp add: nth_rotate mod_simps)
  then show ?thesis using read_gaps_from [of c gs] assms(2-5) l n f(1) by (simp add: f_def Let_def)
qed

text \<open>
  C25: with a 16-sector image in the drive, the motor on and the head just come to a track, one turn of the disk read
  through the latch at the speed of the disk decodes to exactly the bytes the image holds for that track.
\<close>

theorem disk_read_revolution:
  assumes "disk2_card_ok c" and "streaming c" and "\<not> fl_trackData (in_head c)"
    and "fl_image (in_head c) = Some img" and "di_order img \<noteq> Nib"
    and "dr_phase (dc_drive c (dc_curr c)) div 2 < di_tracks img"
    and "list_all (\<lambda>g. 7 \<le> g \<and> g \<le> 40) gs" and "length gs = 6384" and "unat (dc_now c) + sum_list gs < 2 ^ 64"
  shows "denibblize (di_order img) (map word_of_int (read_gaps gs c)) =
    track_data TRACK_BYTES (dr_phase (dc_drive c (dc_curr c)) div 2) (di_data img)"
proof -
  define d where "d = dc_drive c (dc_curr c)"
  define t where "t = dr_phase d div 2"
  define D where "D = track_data TRACK_BYTES t (di_data img)"
  have "dc_curr c < 2" using assms(1) by (simp add: disk2_card_ok_def)
  then have ok: "disk_drive_ok d" using assms(1) by (simp add: card_ok_pre card_pre_drive d_def)
  have im: "fl_image (dr_disk d) = Some img" using assms(4) by (simp add: in_head_def d_def)
  have t: "0 \<le> t" "t < di_tracks img" "image_ok img"
    using ok assms(6) im by (simp_all add: disk_drive_ok_def floppy_ok_def t_def d_def)
  have "nat t * TRACK_BYTES + TRACK_BYTES \<le> length (di_data img)" using track_fits [OF t(3,1,2)] assms(5) by simp
  then have D: "length D = 4096" by (simp add: D_def track_data_def TRACK_BYTES_def)
  obtain k where r: "readTrack t True img = Some (rotate k (nibblize (di_order img) (of_int t) D))"
    using t assms(5) by (simp add: readTrack_def Let_def D_def)
  define bs where "bs = rotate k (nibblize (di_order img) (of_int t) D)"
  have bs: "length bs = 6384" by (simp add: bs_def length_nibblize [OF D])
  have ne: "bs \<noteq> []" using bs by auto
  have f: "in_head (loaded c) = (dr_disk d)\<lparr>fl_track := bs @ drop (length bs) (fl_track (dr_disk d)), fl_nibbles := length bs, fl_byte := 0,
        fl_trackData := True\<rparr>"
    using assms(3,4) im t(2) r [folded bs_def] bs ne
    by (simp add: loaded_def in_head_def d_def [symmetric] t_def [symmetric] drive_readTrack_def Let_def)
  have p: "fl_trackData (in_head (loaded c))" "fl_byte (in_head (loaded c)) < fl_nibbles (in_head (loaded c))"
    using ne by (simp_all add: f)
  have n: "length gs = length bs" using bs assms(8) by simp
  have "read_gaps gs c = map (\<lambda>j. uint (bs ! j)) [0..<length bs]"
    using read_gaps_from [OF assms(2) p assms(7,9)] unfolding f Let_def n by (simp add: nth_append)
  also have "\<dots> = map uint bs" by (rule nth_equalityI) simp_all
  finally have "map word_of_int (read_gaps gs c) = bs" by (simp add: comp_def)
  then show ?thesis using track_back [OF D] by (simp add: bs_def D_def t_def d_def)
qed

text \<open>A card with a disk in the first drive and the motor on, as \<open>mountDisk\<close> and \<open>$C0n9\<close> make it.\<close>

definition spun_up :: "disk2_image \<Rightarrow> disk2_card" where
  "spun_up img = snd (disk2_io 9 None 100 (snd (card_insert 0 (Some img) (disk2_card_new []))))"

lemma spun_up_state:
  assumes "image_ok img"
  shows "disk2_card_ok (spun_up img)" "streaming (spun_up img)" "\<not> fl_trackData (in_head (spun_up img))"
    "fl_image (in_head (spun_up img)) = Some img" "dr_phase (dc_drive (spun_up img) (dc_curr (spun_up img))) = 0"
    "dc_now (spun_up img) = 100"
proof -
  have "disk2_card_ok (disk2_card_new [])"
    by (simp add: disk2_card_new_def disk2_card_ok_def disk_drive_ok_def floppy_ok_def empty_drive_def card_const)
  then show "disk2_card_ok (spun_up img)" unfolding spun_up_def using assms by (intro disk2_io_ok card_insert_ok) simp_all
  show "streaming (spun_up img)" "\<not> fl_trackData (in_head (spun_up img))"
    "fl_image (in_head (spun_up img)) = Some img" "dr_phase (dc_drive (spun_up img) (dc_curr (spun_up img))) = 0"
    "dc_now (spun_up img) = 100"
    by (simp_all add: spun_up_def card_insert_def ejectDisk_def card_flush_def set_floppy_def disk2_card_new_def empty_drive_def
        drive_flush_def disk2_io_def syncStepper_def setSequencer_def card_switch_def controlMotor_def checkSpinning_def
        on_drive_def streaming_def in_head_def SPINNING_CYCLES_def Let_def)
qed

theorem disk_read_revolution_witness:
  "case fromBytes blank_dsk ''.do'' of Inl _ \<Rightarrow> False
   | Inr img \<Rightarrow> denibblize DOS (map word_of_int (read_gaps (replicate 6384 32) (spun_up img))) = replicate 4096 0"
proof -
  have e: "lowerExt (CHR ''x'' # ''.do'') = ''.do''" by (simp add: lowerExt_def to_lower_def)
  have i: "fromBytes blank_dsk ''.do'' = Inr \<lparr>di_data = blank_dsk, di_order = DOS, di_tracks = 35, di_protect = False\<rparr>" (is "_ = Inr ?img")
    unfolding fromBytes_def Let_def e blank_dsk_def
    by (simp add: validDskSize_def TRACKS_MAX_def TRACKS_STANDARD_def TRACK_BYTES_def)
  note s = spun_up_state [OF fromBytes_image_ok [OF i]]
  have g: "list_all (\<lambda>g. 7 \<le> g \<and> g \<le> 40) (replicate 6384 (32 :: nat))" "unat (100 :: u64) + sum_list (replicate 6384 32) < 2 ^ 64"
    by (simp_all add: list_all_iff sum_list_replicate)
  have "denibblize (di_order ?img) (map word_of_int (read_gaps (replicate 6384 32) (spun_up ?img))) = track_data TRACK_BYTES 0 (di_data ?img)"
    using disk_read_revolution [OF s(1-4) _ _ g(1)] s(5,6) g(2) by simp
  then show ?thesis unfolding i by (simp add: track_data_def TRACK_BYTES_def blank_dsk_def)
qed

theorem disk_read_stream_witness:
  "let img = \<lparr>di_data = replicate 6656 0xD5, di_order = Nib, di_tracks = 1, di_protect = False\<rparr>
   in read_gaps [32, 7, 40] (loaded (spun_up img)) = [0xD5, 0xD5, 0xD5]"
proof -
  define img where "img = \<lparr>di_data = replicate 6656 0xD5, di_order = Nib, di_tracks = 1, di_protect = False\<rparr>"
  have "image_ok img" by (simp add: image_ok_def img_def card_const)
  note s = spun_up_state [OF this]
  have l: "in_head (loaded (spun_up img)) = (in_head (spun_up img))
      \<lparr>fl_track := replicate 6656 0xD5 @ drop 6656 (fl_track (in_head (spun_up img))), fl_nibbles := 6656, fl_byte := 0, fl_trackData := True\<rparr>"
    using s(3-5) by (simp add: loaded_def in_head_def drive_readTrack_def Let_def readTrack_def track_data_def img_def NIB_TRACK_def)
  have st: "streaming (loaded (spun_up img))" using s(2) by (simp add: streaming_def)
  have "read_gaps [32, 7, 40] (loaded (spun_up img)) = map (\<lambda>k. uint (replicate 6656 0xD5 ! (k mod 6656) :: u8)) [0..<3]"
    using disk_read_stream [OF loaded_ok [OF s(1)] st, of "[32, 7, 40]"] l s(6) by (simp add: Let_def upt_rec del: read_gaps.simps)
  also have "\<dots> = [0xD5, 0xD5, 0xD5]" by (simp add: upt_rec)
  finally show ?thesis by (simp add: img_def Let_def del: read_gaps.simps)
qed


section \<open>What is on the disk\<close>

text \<open>The nibbles of each track of a drive: those under the head if they are loaded, else those of the image.\<close>

definition surface :: "disk_drive \<Rightarrow> int \<Rightarrow> u8 list option" where
  "surface d t = (let f = dr_disk d
     in if fl_trackData f \<and> t = dr_phase d div 2 then Some (take (fl_nibbles f) (fl_track f))
        else case fl_image f of None \<Rightarrow> None | Some img \<Rightarrow> readTrack t True img)"

definition nib_drive :: "disk_drive \<Rightarrow> bool" where
  "nib_drive d \<longleftrightarrow> 0 \<le> dr_phase d \<and> floppy_ok (dr_phase d) (dr_disk d) \<and>
     (case fl_image (dr_disk d) of None \<Rightarrow> False | Some img \<Rightarrow> di_order img = Nib \<and> \<not> di_protect img) \<and>
     (fl_trackData (dr_disk d) \<and> \<not> fl_dirty (dr_disk d) \<longrightarrow> (case fl_image (dr_disk d) of None \<Rightarrow> False
       | Some img \<Rightarrow> readTrack (dr_phase d div 2) True img = Some (take (fl_nibbles (dr_disk d)) (fl_track (dr_disk d)))))"

lemma put_track_other:
  assumes "s * n + n \<le> length d" and "length bs = n" and "t \<noteq> s" and "t * n + n \<le> length d"
  shows "take n (drop (t * n) (put_track (s * n) bs d)) = take n (drop (t * n) d)"
proof (rule nth_equalityI)
  have l: "length (put_track (s * n) bs d) = length d" using assms by (simp add: put_track_def)
  then show "length (take n (drop (t * n) (put_track (s * n) bs d))) = length (take n (drop (t * n) d))" by simp
  fix i assume "i < length (take n (drop (t * n) (put_track (s * n) bs d)))"
  then have i: "i < n" by simp
  consider "t < s" | "s < t" using assms(3) by linarith
  then have "put_track (s * n) bs d ! (t * n + i) = d ! (t * n + i)"
  proof cases
    case 1
    then have "Suc t * n \<le> s * n" by (intro mult_le_mono1) simp
    then show ?thesis using i assms by (simp add: put_track_def nth_append)
  next
    case 2
    then have "Suc s * n \<le> t * n" by (intro mult_le_mono1) simp
    then obtain r where "t * n = s * n + n + r" using le_Suc_ex by (metis mult_Suc add.commute)
    then show ?thesis using i assms by (simp add: put_track_def nth_append add.assoc)
  qed
  then show "take n (drop (t * n) (put_track (s * n) bs d)) ! i = take n (drop (t * n) d) ! i"
    using i l assms by simp
qed

lemma readTrack_write:
  assumes "image_ok img" and "di_order img = Nib" and "\<not> di_protect img" and "0 \<le> s" and "s < di_tracks img" and "length bs = NIB_TRACK"
  shows "readTrack t k (writeTrack s bs img) = (if t = s then Some bs else readTrack t k img)"
proof (cases "0 \<le> t \<and> t < di_tracks img")
  case True
  have f: "nat s * NIB_TRACK + NIB_TRACK \<le> length (di_data img)" "nat t * NIB_TRACK + NIB_TRACK \<le> length (di_data img)"
    using track_fits [OF assms(1,4,5)] track_fits [OF assms(1)] True assms(2) by simp_all
  have "take NIB_TRACK (drop (nat s * NIB_TRACK) (put_track (nat s * NIB_TRACK) bs (di_data img))) = bs"
    using f assms(6) by (simp add: put_track_def)
  moreover have "nat t \<noteq> nat s" if "t \<noteq> s" using that True assms(4) by (simp add: nat_eq_iff)
  ultimately show ?thesis using True assms put_track_other [OF f(1) assms(6) _ f(2)]
    by (auto simp: readTrack_def writeTrack_def track_data_def)
next
  case False
  then show ?thesis using assms by (auto simp: readTrack_def writeTrack_def)
qed

text \<open>An operation that leaves what is on a disk alone.\<close>

definition same_disk :: "disk_drive \<Rightarrow> disk_drive \<Rightarrow> bool" where
  "same_disk d d' \<longleftrightarrow> (nib_drive d \<longrightarrow> nib_drive d' \<and> surface d' = surface d)"

definition same_disks :: "disk2_card \<Rightarrow> disk2_card \<Rightarrow> bool" where
  "same_disks c c' \<longleftrightarrow> (\<forall>i. same_disk (dc_drive c i) (dc_drive c' i))"

lemma same_disk_refl: "dr_disk d' = dr_disk d \<Longrightarrow> dr_phase d' = dr_phase d \<Longrightarrow> same_disk d d'"
  by (simp add: same_disk_def nib_drive_def surface_def fun_eq_iff split: option.split)

lemma same_disks_trans: "same_disks a b \<Longrightarrow> same_disks b c \<Longrightarrow> same_disks a c"
  by (auto simp: same_disks_def same_disk_def)

lemma same_disks_eq: "dc_drive c' = dc_drive c \<Longrightarrow> same_disks c c'"
  by (simp add: same_disks_def same_disk_refl)

lemma same_disks_on: "(\<And>d. same_disk d (f d)) \<Longrightarrow> same_disks c (on_drive i f c)"
  by (simp add: same_disks_def same_disk_refl)

lemma nib_flush:
  assumes "nib_drive d"
  shows "\<exists>img. fl_image (dr_disk (drive_flush d)) = Some img \<and> di_order img = Nib \<and> \<not> di_protect img \<and> image_ok img \<and>
    (\<forall>u. readTrack u True img = surface d u) \<and> (fl_trackData (dr_disk d) \<longrightarrow> dr_phase d div 2 < di_tracks img)"
proof -
  obtain img where img: "fl_image (dr_disk d) = Some img" "di_order img = Nib" "\<not> di_protect img"
    using assms by (auto simp: nib_drive_def split: option.splits)
  have ok: "floppy_ok (dr_phase d) (dr_disk d)" "0 \<le> dr_phase d" using assms by (simp_all add: nib_drive_def)
  define bs where "bs = take (fl_nibbles (dr_disk d)) (fl_track (dr_disk d))"
  define img' where "img' = (if fl_dirty (dr_disk d) then writeTrack (dr_phase d div 2) bs img else img)"
  have fl: "fl_image (dr_disk (drive_flush d)) = Some img'" using img by (simp add: drive_flush_def Let_def img'_def bs_def)
  have t: "image_ok img" "0 \<le> dr_phase d div 2" using ok img by (simp_all add: floppy_ok_def)
  have d: "dr_phase d div 2 < di_tracks img" "length bs = NIB_TRACK" if "fl_trackData (dr_disk d)"
    using ok img that by (auto simp: floppy_ok_def track_len_def bs_def card_const)
  have dt: "fl_trackData (dr_disk d)" if "fl_dirty (dr_disk d)" using ok that by (simp add: floppy_ok_def)
  have r: "readTrack u True img' = surface d u" for u
    using readTrack_write [OF t(1) img(2,3) t(2), of bs] d dt assms img
    by (auto simp: img'_def nib_drive_def bs_def surface_def Let_def)
  have "image_ok img'" using t d dt img by (auto simp: img'_def track_len_def intro!: writeTrack_ok)
  then show ?thesis using fl r img d by (auto simp: img'_def writeTrack_kept)
qed

lemma flush_same: "same_disk d (drive_flush d)" and step_same: "0 \<le> np \<Longrightarrow> same_disk d (move_head np (drive_flush d))"
proof -
  have *: "nib_drive d \<Longrightarrow> nib_drive (drive_flush d) \<and> surface (drive_flush d) = surface d \<and>
    (0 \<le> np \<longrightarrow> nib_drive (move_head np (drive_flush d)) \<and> surface (move_head np (drive_flush d)) = surface d)"
  proof -
    assume n: "nib_drive d"
    obtain img where i: "fl_image (dr_disk (drive_flush d)) = Some img" "di_order img = Nib" "\<not> di_protect img" "image_ok img"
      "\<And>u. readTrack u True img = surface d u" "fl_trackData (dr_disk d) \<Longrightarrow> dr_phase d div 2 < di_tracks img"
      using nib_flush [OF n] by blast
    have ok: "floppy_ok (dr_phase d) (dr_disk d)" "0 \<le> dr_phase d" using n by (simp_all add: nib_drive_def)
    have len: "fl_nibbles (dr_disk d) = track_len img" "fl_byte (dr_disk d) < fl_nibbles (dr_disk d)" if "fl_trackData (dr_disk d)"
      using ok that n i(2) by (auto simp: floppy_ok_def nib_drive_def track_len_def split: option.splits)
    have s: "surface d (dr_phase d div 2) = Some (take (fl_nibbles (dr_disk d)) (fl_track (dr_disk d)))" if "fl_trackData (dr_disk d)"
      using that by (simp add: surface_def Let_def)
    have l: "length (fl_track (dr_disk d)) = MAX_NIBBLES" using ok by (simp add: floppy_ok_def)
    have f: "floppy_ok (dr_phase d) (dr_disk (drive_flush d))" using i len l by (auto simp: floppy_ok_def flush_fields)
    have a: "surface (drive_flush d) = surface d" using i s by (auto simp: surface_def Let_def flush_fields fun_eq_iff)
    have b: "nib_drive (drive_flush d)" using f i s ok by (simp add: nib_drive_def flush_fields)
    have c: "surface (move_head np (drive_flush d)) = surface d" using i by (simp add: surface_def move_head_def fun_eq_iff)
    have "floppy_ok np (dr_disk (move_head np (drive_flush d)))" using f i by (simp add: floppy_ok_def move_head_def flush_fields)
    then have "0 \<le> np \<Longrightarrow> nib_drive (move_head np (drive_flush d))" using i by (simp add: nib_drive_def) (simp add: move_head_def)
    then show ?thesis using a b c by simp
  qed
  show "same_disk d (drive_flush d)" "0 \<le> np \<Longrightarrow> same_disk d (move_head np (drive_flush d))"
    using * by (simp_all add: same_disk_def)
qed

lemma same_disk_byte:
  assumes "fl_trackData f \<Longrightarrow> fl_byte f < fl_nibbles f \<Longrightarrow> b < fl_nibbles f"
  shows "same_disk (d\<lparr>dr_disk := f\<rparr>) (d\<lparr>dr_disk := f\<lparr>fl_byte := b\<rparr>\<rparr>)"
  using assms by (auto simp: same_disk_def nib_drive_def surface_def fun_eq_iff floppy_ok_def split: option.splits)

lemma same_disks_byte:
  assumes "\<And>f. fl_byte f < fl_nibbles f \<Longrightarrow> b f < fl_nibbles f"
  shows "same_disks c (set_floppy i (\<lambda>f. f\<lparr>fl_byte := b f\<rparr>) c)"
  unfolding set_floppy_def
proof (rule same_disks_on)
  fix d show "same_disk d (d\<lparr>dr_disk := (dr_disk d)\<lparr>fl_byte := b (dr_disk d)\<rparr>\<rparr>)"
    using same_disk_byte [of "dr_disk d" "b (dr_disk d)" d] assms [of "dr_disk d"] by simp
qed

lemma same_next_byte: "same_disks c (next_byte i c)"
  unfolding next_byte_def by (rule same_disks_byte) simp

lemma same_turned: "same_disks c (turned now c)"
  using same_disks_byte [where b = "\<lambda>f. turn_byte (fl_byte f) k (fl_nibbles f)" and c = "c\<lparr>dc_lastCycle := now\<rparr>" and i = "dc_curr c" for k]
  by (auto simp: turned_def Let_def turn_byte_lt same_disks_eq same_disks_def same_disk_refl)

lemma same_readTrack: "\<not> fl_trackData (dr_disk d) \<Longrightarrow> same_disk d (drive_readTrack d)"
proof (unfold same_disk_def, intro impI)
  assume t: "\<not> fl_trackData (dr_disk d)" and n: "nib_drive d"
  obtain img where img: "fl_image (dr_disk d) = Some img" "di_order img = Nib" "\<not> di_protect img"
    using n by (auto simp: nib_drive_def split: option.splits)
  have ok: "image_ok img" "0 \<le> dr_phase d" "length (fl_track (dr_disk d)) = MAX_NIBBLES" "\<not> fl_dirty (dr_disk d)"
    using n img t by (auto simp: nib_drive_def floppy_ok_def)
  show "nib_drive (drive_readTrack d) \<and> surface (drive_readTrack d) = surface d"
  proof (cases "dr_phase d div 2 < di_tracks img")
    case True
    obtain bs where bs: "readTrack (dr_phase d div 2) True img = Some bs" "length bs = track_len img"
      using readTrack_some [OF ok(1) _ True] ok(2) by auto
    have l: "0 < track_len img" "track_len img \<le> MAX_NIBBLES" by (simp_all add: track_len_def card_const)
    then have "bs \<noteq> []" using bs by auto
    then show ?thesis using True img bs ok l t
      by (simp add: drive_readTrack_def Let_def nib_drive_def floppy_ok_def surface_def fun_eq_iff)
  next
    case False
    then show ?thesis using img ok t n
      by (simp add: drive_readTrack_def Let_def nib_drive_def floppy_ok_def surface_def fun_eq_iff)
  qed
qed

lemma same_loaded: "same_disks c (loaded c)"
  by (simp add: loaded_def same_disks_def same_disk_refl same_readTrack in_head_def)

lemma same_checkSpinning: "same_disks c (checkSpinning b now c)"
  by (simp add: checkSpinning_def Let_def same_disks_def same_disk_refl)

lemma same_flush: "same_disks c (card_flush i c)"
  unfolding card_flush_def by (rule same_disks_on) (rule flush_same)

lemma same_stepper: "same_disks c (stepperDeferred c)"
proof (cases rule: stepperDeferred_cases [of c])
  case 1 then show ?thesis by (simp add: same_disks_eq)
next
  case (2 np)
  then show ?thesis using step_same by (simp add: same_disks_def card_flush_def same_disk_refl)
qed

lemmas same_disks_rules = same_disks_trans [OF same_stepper] same_disks_trans [OF same_loaded] same_disks_trans [OF same_turned]

lemma same_sync: "same_disks c (syncStepper now c)"
  using same_stepper [of "c\<lparr>dc_now := now\<rparr>"] same_stepper [of c]
  by (auto simp: syncStepper_def Let_def same_disks_eq) (auto simp: same_disks_def)

lemma same_sequencer: "dc_drive (setSequencer addr c) = dc_drive c"
  by (simp add: setSequencer_def Let_def)

lemma same_controlStepper: "same_disks c (controlStepper addr now c)"
proof -
  have *: "same_disks c (stepperDeferred (c\<lparr>dc_magnets := m, dc_deferred := False\<rparr>))" for m
    by (rule same_disks_trans [OF same_disks_eq same_stepper]) simp
  show ?thesis
  proof (cases "\<not> dc_motorOn c \<and> dr_spinning (dc_drive c (dc_curr c)) = 0")
    case True then show ?thesis by (simp add: controlStepper_def same_disks_eq)
  next
    case False
    define mb where "mb = magnet (uint (drop_bit 1 addr))"
    define m where "m = (if bit addr 0 then dc_magnets c OR mb else dc_magnets c AND NOT mb)"
    define c' where "c' = controlStepper addr now c"
    have "dc_drive c' = dc_drive c \<or> dc_drive c' = dc_drive (stepperDeferred (c\<lparr>dc_magnets := m, dc_deferred := False\<rparr>))"
      using False by (auto simp: c'_def controlStepper_def Let_def mb_def m_def)
    then show ?thesis using *[of m] by (auto simp: same_disks_def c'_def [symmetric] same_disk_refl)
  qed
qed

lemma same_controlMotor: "same_disks c (controlMotor addr now c)"
  unfolding controlMotor_def Let_def by (rule same_disks_trans [OF same_disks_eq same_checkSpinning]) simp

lemma same_enable: "same_disks c (card_enable addr now c)"
  unfolding card_enable_def Let_def by (rule same_disks_trans [OF _ same_checkSpinning]) (simp add: same_disks_def same_disk_refl)

lemma write_surface:
  fixes v :: u8
  assumes "nib_drive d" and "fl_trackData (dr_disk d)"
  defines "d' \<equiv> d\<lparr>dr_disk := (dr_disk d)\<lparr>fl_track := (fl_track (dr_disk d))[fl_byte (dr_disk d) := v], fl_dirty := True\<rparr>\<rparr>"
  shows "nib_drive d'" and "\<exists>k bs. surface d (dr_phase d div 2) = Some bs \<and> k < length bs \<and>
    surface d' = (surface d)(dr_phase d div 2 := Some (bs[k := v]))"
proof -
  have f: "floppy_ok (dr_phase d) (dr_disk d)" using assms(1) by (simp add: nib_drive_def)
  then have n: "fl_byte (dr_disk d) < fl_nibbles (dr_disk d)" "fl_nibbles (dr_disk d) \<le> length (fl_track (dr_disk d))"
    using floppy_ok_count assms(2) by blast+
  show "nib_drive d'" using assms(1,2) f by (auto simp: nib_drive_def d'_def floppy_ok_def split: option.splits)
  show "\<exists>k bs. surface d (dr_phase d div 2) = Some bs \<and> k < length bs \<and>
    surface d' = (surface d)(dr_phase d div 2 := Some (bs[k := v]))"
    using n assms(2)
    by (intro exI [of _ "fl_byte (dr_disk d)"] exI [of _ "take (fl_nibbles (dr_disk d)) (fl_track (dr_disk d))"])
      (simp add: surface_def d'_def fun_eq_iff take_update_swap Let_def)
qed

text \<open>An access puts one nibble on one track of one disk: the latch, under the head.\<close>

definition one_nibble :: "u8 \<Rightarrow> disk_drive \<Rightarrow> disk_drive \<Rightarrow> bool" where
  "one_nibble v d d' \<longleftrightarrow> nib_drive d \<longrightarrow> nib_drive d' \<and>
     (\<exists>t k bs. surface d t = Some bs \<and> k < length bs \<and> surface d' = (surface d)(t := Some (bs[k := v])))"

lemma readWrite_surface:
  "same_disk (dc_drive c i) (dc_drive (readWrite now c) i) \<or>
   dc_writeMode c \<and> i = dc_curr c \<and> one_nibble (dc_latch c) (dc_drive c i) (dc_drive (readWrite now c) i)"
proof -
  have r: "same_disks c (read_nibble now c)" for c
    using same_next_byte [of "c\<lparr>dc_latch := l, dc_lastReadLatch := now\<rparr>" "dc_curr c" for l]
    by (auto simp: read_nibble_def Let_def same_disks_eq) (simp add: same_disks_def)
  define c1 where "c1 = turned now (loaded c)"
  have s: "same_disks c c1" unfolding c1_def by (rule same_disks_trans [OF same_loaded same_turned])
  note same = same_disks_trans [OF s same_next_byte] same_disks_trans [OF s r] same_disks_trans [OF same_loaded same_next_byte] s same_loaded
  have noise: "same_disks c (noise now (loaded c))" using same_loaded [of c] by (simp add: noise_def Let_def same_disks_def)
  show ?thesis
  proof (cases "fl_trackData (in_head (loaded c)) \<and> dr_spinning (dc_drive c (dc_curr c)) \<noteq> 0 \<and> dc_writeMode c \<and> unprotected c1")
    case True
    then have w: "readWrite now c = write_nibble c1" by (simp add: readWrite_def Let_def c1_def)
    have k: "same_disks (set_floppy (dc_curr c1) (\<lambda>f. f\<lparr>fl_track := (fl_track f)[fl_byte f := dc_latch c1], fl_dirty := True\<rparr>) c1) (write_nibble c1)"
      unfolding write_nibble_def by (rule same_next_byte)
    have c1: "dc_curr c1 = dc_curr c" "dc_latch c1 = dc_latch c" by (simp_all add: c1_def)
    have t: "fl_trackData (dr_disk (dc_drive c1 (dc_curr c)))" using True c1(1) turned_fields(7) [of now "loaded c"] by (simp add: c1_def in_head_def)
    show ?thesis
    proof (cases "i = dc_curr c")
      case True
      have "one_nibble (dc_latch c) (dc_drive c i) (dc_drive (write_nibble c1) i)"
        unfolding one_nibble_def
      proof (intro impI)
        assume "nib_drive (dc_drive c i)"
        then have d: "nib_drive (dc_drive c1 i)" "surface (dc_drive c1 i) = surface (dc_drive c i)"
          using s by (simp_all add: same_disks_def same_disk_def)
        show "nib_drive (dc_drive (write_nibble c1) i) \<and> (\<exists>t k bs. surface (dc_drive c i) t = Some bs \<and> k < length bs \<and>
            surface (dc_drive (write_nibble c1) i) = (surface (dc_drive c i))(t := Some (bs[k := dc_latch c])))"
          using write_surface [OF d(1), of "dc_latch c"] t k True d(2) c1
          by (simp add: same_disks_def same_disk_def set_floppy_def) metis
      qed
      then show ?thesis using True w \<open>_ \<and> _ \<and> dc_writeMode c \<and> _\<close> by simp
    next
      case False
      have "same_disk (dc_drive c1 i) (dc_drive (write_nibble c1) i)" using spec [OF k [unfolded same_disks_def], of i] False c1 by (simp add: set_floppy_def)
      then show ?thesis using s w by (auto simp: same_disks_def same_disk_def)
    qed
  next
    case False
    then have "same_disks c (readWrite now c)"
      using same noise by (auto simp: readWrite_def Let_def c1_def)
    then show ?thesis by (simp add: same_disks_def)
  qed
qed

lemma sync_fields: "dc_writeMode (syncStepper now c) = dc_writeMode c" "dc_latch (syncStepper now c) = dc_latch c"
    "dc_curr (syncStepper now c) = dc_curr c"
  by (simp_all add: syncStepper_def Let_def stepperDeferred_def card_flush_def)

lemma switch_surface:
  "same_disk (dc_drive c i) (dc_drive (card_switch addr c) i) \<or>
   addr AND 0xF = 0xC \<and> dc_writeMode c \<and> i = dc_curr c \<and> one_nibble (dc_latch c) (dc_drive c i) (dc_drive (card_switch addr c) i)"
proof (cases "addr AND 0xF = 0xC")
  case True
  then show ?thesis using readWrite_surface [of c i "dc_now c"] by (simp add: card_switch_def)
next
  case False
  have "same_disks c (loadWriteProtect c)" by (rule same_disks_eq) (simp add: loadWriteProtect_def Let_def)
  moreover have "same_disks c (on_drive (dc_curr c) (\<lambda>d. d\<lparr>dr_writeLight := SPINNING_CYCLES\<rparr>) c)"
    by (rule same_disks_on) (rule same_disk_refl, simp_all)
  ultimately have "same_disks c (card_switch addr c)"
    using False same_controlStepper same_controlMotor same_enable same_disks_eq [of c c] by (simp add: card_switch_def Let_def)
  then show ?thesis by (simp add: same_disks_def)
qed

lemma io_drives: "dc_drive (snd (disk2_io addr wr now c)) = dc_drive (card_switch addr (setSequencer addr (syncStepper now c)))"
  by (simp add: disk2_io_def Let_def split: option.split)

lemma low_two: "addr AND 0xF = 0xC \<Longrightarrow> addr AND 3 = (0 :: u16)"
proof -
  assume a: "addr AND 0xF = 0xC"
  have "addr AND 3 = (addr AND 0xF) AND 3" by (simp add: and.assoc)
  then show ?thesis unfolding a by simp
qed


definition nib_image :: disk2_image where
  "nib_image = \<lparr>di_data = replicate 6656 0xD5, di_order = Nib, di_tracks = 1, di_protect = False\<rparr>"

lemma spun_up_nib: "image_ok nib_image" "dc_curr (spun_up nib_image) = 0" "nib_drive (dc_drive (spun_up nib_image) 0)"
proof -
  show i: "image_ok nib_image" by (simp add: image_ok_def nib_image_def card_const)
  show c: "dc_curr (spun_up nib_image) = 0"
    by (simp add: spun_up_def card_insert_def ejectDisk_def card_flush_def set_floppy_def disk2_card_new_def
        disk2_io_def syncStepper_def setSequencer_def card_switch_def controlMotor_def checkSpinning_def on_drive_def Let_def)
  show "nib_drive (dc_drive (spun_up nib_image) 0)"
    using spun_up_state [OF i] card_floppy_ok [OF spun_up_state(1) [OF i], of 0] c
    by (simp add: nib_drive_def in_head_def) (simp add: nib_image_def)
qed


text \<open>
  Nothing written is lost: when the card is closed, the image of recorded nibbles in a drive
  reads back on every track exactly what was on the disk, the changed track under the head included.
\<close>

theorem disk_nib_saved:
  assumes "nib_drive (dc_drive c i)" and "i < 2"
  shows "case fl_image (dr_disk (dc_drive (card_close c) i)) of None \<Rightarrow> False
    | Some img \<Rightarrow> \<forall>t. readTrack t True img = surface (dc_drive c i) t"
proof -
  have fl: "fl_image (dr_disk (drive_flush (drive_flush d))) = fl_image (dr_disk (drive_flush d))" for d
    by (simp add: drive_flush_def Let_def split: option.split)
  have "i = 0 \<or> i = 1" using assms(2) by auto
  then have "dc_drive (card_close c) i = drive_flush (dc_drive c i)" by (auto simp: card_close_def card_flush_def)
  then show ?thesis using nib_flush [OF assms(1)] by auto
qed

theorem disk_nib_saved_witness:
  "case fl_image (dr_disk (dc_drive (card_close (spun_up nib_image)) 0)) of None \<Rightarrow> False
   | Some img \<Rightarrow> readTrack 0 True img = Some (replicate 6656 0xD5)"
proof -
  have "surface (dc_drive (spun_up nib_image) 0) 0 = Some (replicate 6656 0xD5)"
    using spun_up_state [OF spun_up_nib(1)] spun_up_nib(2)
    by (simp add: surface_def in_head_def readTrack_def track_data_def nib_image_def NIB_TRACK_def)
  then show ?thesis using disk_nib_saved [OF spun_up_nib(3)] by (auto split: option.splits)
qed

end
