(* ===== verification/Spec2Isabelle.thy ===== *)
theory Spec2Isabelle
  imports CircularBuffer SparseBus IoRegistry CpuLines Cpu6502Arith Cpu6502Cycles Cpu6502Decode Cpu6510 Debugger
    Via6522 Cia6526 C64Pla Riot6532 Crtc6545 Pia6520 BasicTokenizer
    MapMmu Mega65Banks Mega65Math F018bDma Mega65Cpu Z80Flow Disk2Card
begin

text \<open>
  A verification library for mmemu, an emulator of 8-bit machines with a built-in debugger.

  The parts of the program and how they meet. A processor core (\<open>src/plugins/6502\<close>) reads and writes
  memory through an \<open>IBus\<close> (\<open>src/libmem\<close>). The machine's bus is a flat or sparse memory with overlays;
  machines install I/O hooks on it that pass every access first to an \<open>IORegistry\<close>
  (\<open>src/libdevices\<close>), which asks the devices in order of their base address. Devices drive signal
  lines; several devices share one interrupt line through a manager that computes their OR and hands
  it to the processor. The debugger (\<open>src/libdebug\<close>) watches every instruction and memory access
  through the processor's observer, keeps a trace ring for stepping backwards, a stack trace,
  breakpoints and snapshots.

  The theories, in the order they build on each other:

  \<^item> \<open>Prelude\<close>: fixed-width words, bit tests, the state monad combinators, what a computation keeps
    (\<open>keeps\<close>) or yields, lists of the last elements.
  \<^item> \<open>Interfaces\<close>: \<open>IBus\<close> as a record of functions, the default 16- and 32-bit accesses
    (\<open>ibus.cpp\<close>), \<open>ByteWindowBus\<close>; the locale \<open>ram_bus\<close> is the promise of a bus that stores what it is
    given on a set of addresses.
  \<^item> \<open>CircularBuffer\<close> (\<open>util/circular_buffer.h\<close>) with its refinement to a list.
  \<^item> \<open>FlatBus\<close>, \<open>SparseBus\<close> (\<open>memory_bus.cpp\<close>, \<open>sparse_memory_bus.cpp\<close>): reads, writes, overlays, hooks,
    write log, state format. Both interpret \<open>ram_bus\<close>.
  \<^item> \<open>IoRegistry\<close> (\<open>io_registry.cpp\<close>): registration, dispatch, ticking with two clocks, and the fast path
    with the hooks the machine loader installs. \<open>std::sort\<close> is a parameter with its contract.
  \<^item> \<open>Signals\<close>: signal lines, the shared interrupt managers, joysticks and combined ports, open bus and
    colour RAM handlers. \<open>CpuLines\<close> interprets the locale \<open>irq_pin\<close> on the two input pins of the 6502.
  \<^item> \<open>Cpu6502\<close> (state, bus access, stack, addressing, register access), \<open>Cpu6502Ops\<close> (one definition per
    instruction function of \<open>cpu6502.cpp\<close> and \<open>cpu6502_cmos.cpp\<close>), \<open>Cpu6502Table\<close> (both opcode tables),
    \<open>Cpu6502Step\<close> (interrupt entry, the step function, the decoder and the debugger heuristics).
  \<^item> \<open>Cpu6502Arith\<close>: the arithmetic instructions against integer arithmetic. \<open>Cpu6502Cycles\<close>: cycle
    counts and idling. \<open>Cpu6502Flow\<close>: subroutines, interrupts, their order and the call harness
    on every bus that is RAM in page 1 (locale \<open>cpu_bus\<close>, interpreted on the flat bus).
    \<open>Cpu6502Decode\<close>: the decoder against the processor, and the two tables against each other.
  \<^item> \<open>Cpu6510\<close>: the processor port of the 6510 and 8502 as a bus in front of a bus that the port's lines
    select; the locale \<open>banked_ram\<close> states what the selected bus promises.
  \<^item> \<open>Breakpoints\<close> (\<open>breakpoint_list.cpp\<close>) and \<open>Debugger\<close> (\<open>trace_buffer.cpp\<close>, \<open>stack_trace.cpp\<close>,
    \<open>debug_context.cpp\<close>).
  \<^item> \<open>Via6522\<close> and \<open>Cia6526\<close>: the two interface adapters with their timers, ports, handshake and
    interrupt logic, and the time-of-day clock of the 6526. \<open>Pia6520\<close>, \<open>Riot6532\<close>, \<open>Crtc6545\<close> and
    \<open>C64Pla\<close>: the 6520 interface adapter, the 6532 timer that is brought up to date lazily, the
    counters of the 6545 display controller, and the bank logic of the C64.
  \<^item> \<open>Z80\<close> (registers and arithmetic of \<open>plugins/z80\<close>), \<open>Z80Exec\<close> (instructions by opcode fields, prefixes,
    interrupts, the step), \<open>Z80Arith\<close> (sums and DAA against integer and decimal arithmetic), \<open>Z80Flow\<close>
    (block copy, returns, the prefix loop; locale \<open>z80_bus\<close>, interpreted on the flat bus).
  \<^item> \<open>MapMmu\<close>, \<open>Mega65Banks\<close> (\<open>devices/map_mmu\<close>): the MEGA65 memory mapper, the C64 bank controller and the
    key register in front of it; \<open>Mega65Math\<close>: the math unit. The locale \<open>mapped_ram\<close> is memory seen
    through a translation; its interpretation is a mapped block over the sparse bus.
  \<^item> \<open>F018bDma\<close> (\<open>devices/f018b_dma\<close>): the MEGA65 DMA controller, its job lists, options, channels, address
    stepping and triggers. The locale \<open>dma_bus\<close> extends \<open>ram_bus\<close> to the 28-bit bus it moves bytes on and is
    interpreted on the sparse bus.
  \<^item> \<open>Cpu45\<close> (state, memory with the hypervisor's window, flags, arithmetic on bytes and on Q, stack,
    hypervisor entry and exit of \<open>plugins/45gs02\<close>), \<open>Cpu45Exec\<close> (prefixes, addressing, the instructions in
    the order of the switch, the step, the decoder), \<open>Cpu45Arith\<close> (against the 6502 core and integers),
    \<open>Cpu45Flow\<close> (calls and interrupts in both stack modes; the locale \<open>bus45\<close> extends \<open>ram_bus\<close> to what the
    processor sees and is interpreted on the flat bus). \<open>Mega65Cpu\<close>: this processor with the mapper, the
    hypervisor's registers (\<open>devices/mega65_hypervisor\<close>) and the machine's hooks; the locale
    \<open>map_controller\<close> is \<open>IMapController\<close>, interpreted on the mapper.
  \<^item> \<open>Disk2Image\<close>, \<open>Disk2Card\<close> (\<open>machines/apple2/main/disk2.cpp\<close>): Apple II disk images, their nibble code, and
    the interface card with its two drives.
  \<^item> \<open>BasicTokenizer\<close> (\<open>libtoolchain/main/basic_tokenizer.cpp\<close>): BASIC text to a program file.

  Conventions. Integers have the width of the source (\<open>u8\<close>, \<open>u16\<close>, \<open>u32\<close>, \<open>u64\<close>); a class is a record;
  a pointer that may be null is an option; a callback is a function on the state it can change; a
  member function that reads the bus is a computation in the state monad. Peripherals on a port are
  records of functions over a state of their own. A signal line that is only driven is kept as the
  level last driven.

  What the theorems show. Memory: what is written is read back, what is protected stays, saved state
  and write log restore, the sparse bus refines a byte map. Registry: sorted and consistent under
  every operation, first match wins, the fast path is transparent. Processor: cycles returned equal
  cycles counted; ADC, SBC and compare agree with integer and decimal arithmetic; interrupts are served
  in order and return; calls return; the decoder predicts length and kind. Debugger: stepping
  backwards undoes a step, and stepping back twice redoes the second one, because the undoing writes
  are journalled too; breakpoints are counted, matched and resumed correctly. Devices: interrupt
  outputs are right in every reachable state, resets included, but for the serial source the 6526 only
  flags; timers do not depend on how time is split (timer B of the 6526 does when it counts timer A); the clock
  keeps time; the PLA tables are the memory map its header documents; the display counters sweep the
  frame. Z80: sums, differences and DAA have every documented flag; block copies copy; interrupts
  return; a step returns unless memory is all prefixes. MEGA65: the mapper translates by pages, mapped
  blocks are memory, the hypervisor's memory is its own and invisible outside its mode; the bank controller with
  the machine's ROM shows what the C64's PLA shows but for two configurations of the I/O area;
  products and quotients are exact; a DMA job list runs to its end and leaves memory as its jobs, done one
  after the other, make it. 45GS02: byte arithmetic is that of the 6502 core, Q arithmetic is exact, calls
  and interrupts return, MAP sets the translation it encodes and holds interrupts off until EOM, a call of
  the hypervisor comes back with the caller's whole state. Apple II disks: the tracks of sector images survive the nibble
  code from any point of the turn, those of nibble images are stored as written, a turn read through the card's latch gives the bytes of the image, accesses change at most the
  nibble under the head, and the card's state stays within bounds,
  write protected disks included. Tokenizer: a program file lists back to its text; errors and programs exclude each other.

  Bounds and termination. All loops of the modelled code are total recursions: the timer loop of the
  6526 shrinks twice the remaining cycles plus one while the counter is zero, its clock loop shrinks the
  accumulator by a nonzero period, the loop over a BASIC line consumes at least one character a step,
  and the others run over lists. The prefix loop of the Z80 has no bound in the code and is a partial
  function whose \<open>None\<close> is not returning; when it returns is a theorem. The prefix
  loops of the 45GS02 run over the 16 prefixes the code allows; no other fuel is used.

  Not modelled: rendering and sound synthesis, the other disk drives, tape and network
  emulation, the remaining chips, the expression evaluator (floating point), project and test
  handling, the user interfaces, dynamic loading and third-party code; inside the modelled parts, log
  messages and text reports.
\<close>

end
